(* ===== verification/Prelude.thy ===== *)
theory Prelude
  imports Main "HOL-Library.Word" "HOL-Library.List_Lexorder" "HOL-Library.Multiset"
begin

unbundle bit_operations_syntax

text \<open>
  The prelude of the development. It fixes how Go is read in HOL:
  \<^item> a Go \<^verbatim>\<open>byte\<close> is an \<open>8 word\<close>, \<^verbatim>\<open>uint32\<close> a \<open>32 word\<close>, \<^verbatim>\<open>uint64\<close> a \<open>64 word\<close>;
    lengths of slices are \<open>nat\<close>, and a Go \<^verbatim>\<open>int\<close> is an \<open>int\<close>, with the conversions that
    truncate (\<^verbatim>\<open>uint32(x)\<close>, \<^verbatim>\<open>uint8(x)\<close>) and the shifts that overflow written out;
  \<^item> a call returns a value of type \<open>'a result\<close>: \<open>Inr\<close> a value, or \<open>Inl\<close> one of the three
    ways in which a Go call does not give one (it returns an error, it panics, it does not
    terminate);
  \<^item> a slice is a list; a slice is modelled with capacity equal to its length, so a slice
    expression beyond the length is the run-time panic.
  The rest of the theory is the automation the components share.
\<close>

section \<open>Types\<close>

type_synonym byte = "8 word"
type_synonym bytes = "8 word list"
type_synonym uint32 = "32 word"
type_synonym uint64 = "64 word"

datatype fault =
    Err string      \<comment> \<open>an error value; the string is the fixed part of its message\<close>
  | Panic string    \<comment> \<open>a run-time panic\<close>
  | Diverge         \<comment> \<open>the call does not return\<close>

type_synonym 'a result = "fault + 'a"

section \<open>Sequencing fallible calls\<close>

text \<open>
  \<open>bindR m f\<close> is the Go idiom \<^verbatim>\<open>x, err := m; if err != nil { return err }; f(x)\<close>; a panic or
  a divergence of \<open>m\<close> is passed on in the same way.
\<close>

definition bindR :: "'a result \<Rightarrow> ('a \<Rightarrow> 'b result) \<Rightarrow> 'b result" where
  "bindR m f = (case m of Inl e \<Rightarrow> Inl e | Inr x \<Rightarrow> f x)"

definition ensure :: "bool \<Rightarrow> fault \<Rightarrow> unit result" where
  "ensure b e = (if b then Inr () else Inl e)"

definition of_loop :: "'a option \<Rightarrow> 'a result" where
  "of_loop r = (case r of None \<Rightarrow> Inl Diverge | Some x \<Rightarrow> Inr x)"

definition join_loop :: "'a result option \<Rightarrow> 'a result" where
  "join_loop r = (case r of None \<Rightarrow> Inl Diverge | Some x \<Rightarrow> x)"

fun mapR :: "('a \<Rightarrow> 'b result) \<Rightarrow> 'a list \<Rightarrow> 'b list result" where
  "mapR f [] = Inr []"
| "mapR f (x # xs) = bindR (f x) (\<lambda>y. bindR (mapR f xs) (\<lambda>ys. Inr (y # ys)))"

fun foldR :: "('a \<Rightarrow> 's \<Rightarrow> 's result) \<Rightarrow> 'a list \<Rightarrow> 's \<Rightarrow> 's result" where
  "foldR f [] s = Inr s"
| "foldR f (x # xs) s = bindR (f x s) (foldR f xs)"

named_theorems result_simps \<open>rewriting of sequenced fallible calls\<close>

lemma bindR_simps [simp]:
  "bindR (Inl e) f = Inl e"
  "bindR (Inr x) f = f x"
  by (simp_all add: bindR_def)

lemma bindR_Inr_iff [result_simps]:
  "bindR m f = Inr y \<longleftrightarrow> (\<exists>x. m = Inr x \<and> f x = Inr y)"
  by (cases m) auto

lemma bindR_Inl_iff [result_simps]:
  "bindR m f = Inl e \<longleftrightarrow> m = Inl e \<or> (\<exists>x. m = Inr x \<and> f x = Inl e)"
  by (cases m) auto

lemma bindR_assoc: "bindR (bindR m f) g = bindR m (\<lambda>x. bindR (f x) g)"
  by (cases m) auto

lemma bindR_return [simp]: "bindR m Inr = m"
  by (cases m) auto

lemma bindR_E [elim]:
  assumes "bindR m f = Inr y"
  obtains x where "m = Inr x" "f x = Inr y"
  using assms by (auto simp: result_simps)

lemma bindR_cong [fundef_cong]:
  "m = m' \<Longrightarrow> (\<And>x. m' = Inr x \<Longrightarrow> f x = g x) \<Longrightarrow> bindR m f = bindR m' g"
  by (cases m') auto

lemma ensure_simps [simp]:
  "ensure True e = Inr ()"
  "ensure False e = Inl e"
  by (simp_all add: ensure_def)

lemma ensure_Inr_iff [result_simps]: "ensure b e = Inr u \<longleftrightarrow> b"
  by (simp add: ensure_def)

lemma ensure_Inl_iff [result_simps]: "ensure b e = Inl e' \<longleftrightarrow> \<not> b \<and> e' = e"
  by (auto simp: ensure_def)

lemma of_loop_simps [simp]:
  "of_loop None = Inl Diverge"
  "of_loop (Some x) = Inr x"
  by (simp_all add: of_loop_def)

lemma join_loop_simps [simp]:
  "join_loop None = Inl Diverge"
  "join_loop (Some r) = r"
  by (simp_all add: join_loop_def)

lemma of_loop_Inr_iff [result_simps]: "of_loop r = Inr x \<longleftrightarrow> r = Some x"
  by (auto simp: of_loop_def split: option.splits)

lemma mapR_Inr_iff: "mapR f xs = Inr ys \<longleftrightarrow> list_all2 (\<lambda>x y. f x = Inr y) xs ys"
  by (induction xs arbitrary: ys) (auto simp: result_simps list_all2_Cons1)

lemma mapR_map: "(\<And>x. x \<in> set xs \<Longrightarrow> f x = Inr (g x)) \<Longrightarrow> mapR f xs = Inr (map g xs)"
  by (induction xs) auto

lemma mapR_append: "mapR f (xs @ ys) = bindR (mapR f xs) (\<lambda>us. bindR (mapR f ys) (\<lambda>vs. Inr (us @ vs)))"
  by (induction xs) (auto simp: bindR_assoc intro!: bindR_cong)

lemma foldR_append: "foldR f (xs @ ys) s = bindR (foldR f xs s) (foldR f ys)"
  by (induction xs arbitrary: s) (auto simp: bindR_assoc intro!: bindR_cong)

lemma foldR_invariant:
  assumes "foldR f xs s = Inr t" "P s"
    and "\<And>x s s'. x \<in> set xs \<Longrightarrow> P s \<Longrightarrow> f x s = Inr s' \<Longrightarrow> P s'"
  shows "P t"
  using assms
proof (induction xs arbitrary: s)
  case Nil
  then show ?case by simp
next
  case (Cons x xs)
  from Cons.prems(1) obtain s' where s': "f x s = Inr s'" "foldR f xs s' = Inr t"
    by (auto simp: result_simps)
  with Cons.prems(2,3) have "P s'" by (metis list.set_intros(1))
  with s'(2) show ?case
    using Cons.IH Cons.prems(3) by (metis list.set_intros(2))
qed

text \<open>An invariant that also follows the elements processed so far.\<close>

lemma foldR_prefix_invariant:
  assumes "foldR f xs s = Inr t" "P [] s"
    and step: "\<And>p x s s'. P p s \<Longrightarrow> f x s = Inr s' \<Longrightarrow> P (p @ [x]) s'"
  shows "P xs t"
proof -
  have "foldR f xs s = Inr t \<Longrightarrow> P p s \<Longrightarrow> P (p @ xs) t" for p
  proof (induction xs arbitrary: s p)
    case (Cons x xs)
    from Cons.prems(1) obtain s' where "f x s = Inr s'" "foldR f xs s' = Inr t"
      by (auto simp: result_simps)
    then show ?case using Cons.IH [of s' "p @ [x]"] step Cons.prems(2) by simp
  qed simp
  from this [of "[]"] assms(1,2) show ?thesis by simp
qed

lemma foldR_check_iff:
  "foldR (\<lambda>x _. f x) xs () = Inr () \<longleftrightarrow> (\<forall>x\<in>set xs. f x = Inr ())"
  by (induction xs) (auto simp: result_simps)

section \<open>Integer division\<close>

text \<open>Go's \<^verbatim>\<open>/\<close> and \<^verbatim>\<open>%\<close> on \<^verbatim>\<open>int\<close> truncate towards zero; division by zero panics.\<close>

definition go_div :: "int \<Rightarrow> int \<Rightarrow> int" where
  "go_div a b = sgn a * sgn b * (\<bar>a\<bar> div \<bar>b\<bar>)"

definition go_mod :: "int \<Rightarrow> int \<Rightarrow> int" where
  "go_mod a b = a - b * go_div a b"

lemma go_div_nonneg [simp]: "0 \<le> a \<Longrightarrow> 0 < b \<Longrightarrow> go_div a b = a div b"
  by (cases "a = 0") (simp_all add: go_div_def)

lemma go_mod_nonneg [simp]: "0 \<le> a \<Longrightarrow> 0 < b \<Longrightarrow> go_mod a b = a mod b"
  by (simp add: go_mod_def minus_mult_div_eq_mod)

section \<open>Slices\<close>

text \<open>
  \<^verbatim>\<open>xs[:n]\<close>, \<^verbatim>\<open>xs[n:]\<close> and \<^verbatim>\<open>xs[i:j]\<close> with the bounds check, and the write \<^verbatim>\<open>copy(xs[i:], ys)\<close>,
  which stops at the end of the shorter slice.
\<close>

definition slice_upto :: "'a list \<Rightarrow> nat \<Rightarrow> 'a list result" where
  "slice_upto xs n =
     (if n \<le> length xs then Inr (take n xs) else Inl (Panic ''slice bounds out of range''))"

definition slice_from :: "'a list \<Rightarrow> nat \<Rightarrow> 'a list result" where
  "slice_from xs n =
     (if n \<le> length xs then Inr (drop n xs) else Inl (Panic ''slice bounds out of range''))"

definition slice :: "'a list \<Rightarrow> nat \<Rightarrow> nat \<Rightarrow> 'a list result" where
  "slice xs i j =
     (if i \<le> j \<and> j \<le> length xs then Inr (take (j - i) (drop i xs))
      else Inl (Panic ''slice bounds out of range''))"

definition index :: "'a list \<Rightarrow> nat \<Rightarrow> 'a result" where
  "index xs i = (if i < length xs then Inr (xs ! i) else Inl (Panic ''index out of range''))"

definition overwrite :: "'a list \<Rightarrow> nat \<Rightarrow> 'a list \<Rightarrow> 'a list" where
  "overwrite xs i ys =
     take i xs @ take (length xs - i) ys @ drop (i + length ys) xs"

lemma slice_upto_ok [simp]: "n \<le> length xs \<Longrightarrow> slice_upto xs n = Inr (take n xs)"
  by (simp add: slice_upto_def)

lemma slice_from_ok [simp]: "n \<le> length xs \<Longrightarrow> slice_from xs n = Inr (drop n xs)"
  by (simp add: slice_from_def)

lemma slice_ok [simp]: "i \<le> j \<Longrightarrow> j \<le> length xs \<Longrightarrow> slice xs i j = Inr (take (j - i) (drop i xs))"
  by (simp add: slice_def)

lemma index_ok [simp]: "i < length xs \<Longrightarrow> index xs i = Inr (xs ! i)"
  by (simp add: index_def)

lemma length_overwrite [simp]: "i \<le> length xs \<Longrightarrow> length (overwrite xs i ys) = length xs"
  by (auto simp: overwrite_def min_def)

lemma overwrite_fit:
  "i + length ys \<le> length xs \<Longrightarrow> overwrite xs i ys = take i xs @ ys @ drop (i + length ys) xs"
  by (simp add: overwrite_def)

lemma overwrite_middle:
  "length pre = i \<Longrightarrow> length old = length ys \<Longrightarrow> overwrite (pre @ old @ post) i ys = pre @ ys @ post"
  by (simp add: overwrite_def)

text \<open>\<open>zeros n\<close> is \<^verbatim>\<open>make([]byte, n)\<close>.\<close>

abbreviation zeros :: "nat \<Rightarrow> bytes" where
  "zeros n \<equiv> replicate n 0"

section \<open>Pure list facts\<close>

lemma take_append_exact: "length xs = n \<Longrightarrow> take n (xs @ ys) = xs"
  by simp

lemma drop_append_exact: "length xs = n \<Longrightarrow> drop n (xs @ ys) = ys"
  by simp

lemma append_less_iff [simp]: "xs @ ys < xs @ zs \<longleftrightarrow> ys < zs" for xs :: "'a::linorder list"
  by (induction xs) auto

lemma sum_list_perm: "mset xs = mset ys \<Longrightarrow> sum_list (map f xs) = sum_list (map f ys)"
  for f :: "'a \<Rightarrow> 'b :: comm_monoid_add"
  by (metis mset_map sum_mset_sum_list)

end
