(* ===== verification/GoStd.thy ===== *)
theory GoStd
  imports Prelude
begin

text \<open>
  The parts of the Go standard library the data square code computes with:
  \<^verbatim>\<open>binary.BigEndian\<close> on 32 bits, the varints of \<^verbatim>\<open>encoding/binary\<close>, and \<^verbatim>\<open>bytes.Compare\<close>.
  Nothing here maps to a file of the repository; the round trips and length facts are what
  the share encoders rest on.
\<close>

section \<open>Big-endian 32-bit integers\<close>

definition PutUint32 :: "uint32 \<Rightarrow> bytes" where
  "PutUint32 v = [ucast (drop_bit 24 v), ucast (drop_bit 16 v), ucast (drop_bit 8 v), ucast v]"

definition Uint32 :: "bytes \<Rightarrow> uint32 result" where
  "Uint32 b =
     (if length b < 4 then Inl (Panic ''index out of range'')
      else Inr (ucast (b ! 3) OR push_bit 8 (ucast (b ! 2))
                OR push_bit 16 (ucast (b ! 1)) OR push_bit 24 (ucast (b ! 0))))"

lemma length_PutUint32 [simp]: "length (PutUint32 v) = 4"
  by (simp add: PutUint32_def)

lemma PutUint32_roundtrip_aux:
  "ucast (ucast v :: byte) OR push_bit 8 (ucast (ucast (drop_bit 8 v) :: byte))
     OR push_bit 16 (ucast (ucast (drop_bit 16 v) :: byte))
     OR push_bit 24 (ucast (ucast (drop_bit 24 v) :: byte)) = (v :: uint32)"
proof (rule bit_word_eqI)
  fix n assume "n < LENGTH(32)"
  then consider "n < 8" | "8 \<le> n" "n < 16" | "16 \<le> n" "n < 24" | "24 \<le> n" "n < 32"
    by fastforce
  then show "bit (ucast (ucast v :: byte) OR push_bit 8 (ucast (ucast (drop_bit 8 v) :: byte))
     OR push_bit 16 (ucast (ucast (drop_bit 16 v) :: byte))
     OR push_bit 24 (ucast (ucast (drop_bit 24 v) :: byte)) :: uint32) n = bit v n"
    by cases (auto simp: bit_simps)
qed

lemma Uint32_PutUint32 [simp]: "Uint32 (PutUint32 v) = Inr v"
  using PutUint32_roundtrip_aux [of v] by (simp add: Uint32_def PutUint32_def numeral_eq_Suc)

lemma Uint32_prefix: "length b = 4 \<Longrightarrow> Uint32 (b @ c) = Uint32 b"
  by (simp add: Uint32_def nth_append)

section \<open>Unsigned varints\<close>

definition MaxVarintLen64 :: nat where
  "MaxVarintLen64 = 10"

lemma unat_drop7: "unat (drop_bit 7 x) = unat x div 128" for x :: uint64
  by (simp only: unat_drop_bit_eq) (simp add: drop_bit_eq_div)

lemma drop_bit7_less: "x \<ge> 0x80 \<Longrightarrow> unat (drop_bit 7 x) < unat x" for x :: uint64
proof -
  assume "x \<ge> 0x80"
  then have "0 < unat x" by (simp add: word_le_nat_alt)
  then show ?thesis unfolding unat_drop7 by simp
qed

text \<open>\<^verbatim>\<open>binary.PutUvarint\<close>, as the bytes it writes.\<close>

function PutUvarint :: "uint64 \<Rightarrow> bytes" where
  "PutUvarint x =
     (if x \<ge> 0x80 then (ucast x OR 0x80) # PutUvarint (drop_bit 7 x) else [ucast x])"
  by pat_completeness auto

termination
  by (relation "measure unat") (auto intro: drop_bit7_less)

declare PutUvarint.simps [simp del]

text \<open>\<^verbatim>\<open>binary.ReadUvarint\<close>: at most ten bytes, the tenth at most 1.\<close>

fun ReadUvarint_loop :: "nat \<Rightarrow> uint64 \<Rightarrow> bytes \<Rightarrow> uint64 result" where
  "ReadUvarint_loop i x bs =
     (if i \<ge> MaxVarintLen64 then Inl (Err ''binary: varint overflows a 64-bit integer'')
      else case bs of
        [] \<Rightarrow> Inl (Err (if i > 0 then ''unexpected EOF'' else ''EOF''))
      | b # bs' \<Rightarrow>
          if b < 0x80 then
            if i = MaxVarintLen64 - 1 \<and> b > 1
            then Inl (Err ''binary: varint overflows a 64-bit integer'')
            else Inr (x OR push_bit (7 * i) (ucast b))
          else ReadUvarint_loop (Suc i) (x OR push_bit (7 * i) (ucast (b AND 0x7f))) bs')"

declare ReadUvarint_loop.simps [simp del]

definition ReadUvarint :: "bytes \<Rightarrow> uint64 result" where
  "ReadUvarint bs = ReadUvarint_loop 0 0 bs"

lemma PutUvarint_small: "x < 0x80 \<Longrightarrow> PutUvarint x = [ucast x]"
  by (subst PutUvarint.simps) auto

lemma PutUvarint_big: "x \<ge> 0x80 \<Longrightarrow> PutUvarint x = (ucast x OR 0x80) # PutUvarint (drop_bit 7 x)"
  by (subst PutUvarint.simps) auto

lemma PutUvarint_nonempty [simp]: "PutUvarint x \<noteq> []"
  by (subst PutUvarint.simps) simp

lemma length_PutUvarint_pos [simp]: "0 < length (PutUvarint x)"
  by simp

lemma byte_0x7f: "(0x7f :: byte) = mask 7"
  by (simp add: mask_eq_exp_minus_1)

lemma byte_0x80: "(0x80 :: byte) = 2 ^ 7"
  by simp

lemma bit_0x80: "bit (0x80 :: 'a::len word) n \<longleftrightarrow> n < LENGTH('a) \<and> n = 7"
  using bit_exp_iff [where ?'a = "'a word", of 7 n] by auto

lemma unat_ucast_up64: "unat (ucast b :: uint64) = unat b" for b :: byte
proof -
  have "unat b < 2 ^ 64" using unsigned_less [of b] by (rule order.strict_trans) simp
  then show ?thesis by (simp only: unsigned_ucast_eq) (simp add: take_bit_eq_mod)
qed

lemma unat_ucast_byte: "unat (ucast w :: byte) = unat w mod 256" for w :: "'a::len word"
  by (simp only: unsigned_ucast_eq) (simp add: take_bit_eq_mod)

lemma clear_0x80: "(b OR 0x80) AND 0x7f = take_bit 7 b" for b :: byte
  unfolding byte_0x7f
  by (rule bit_word_eqI)
    (simp only: bit_or_iff bit_and_iff bit_mask_iff bit_0x80 bit_take_bit_iff possible_bit_word, auto)

lemma low7_split: "ucast ((ucast w OR 0x80) AND 0x7f :: byte) OR push_bit 7 (drop_bit 7 w) = w"
  for w :: uint64
proof (rule bit_word_eqI)
  fix n assume "n < LENGTH(64)"
  then show "bit (ucast ((ucast w OR 0x80) AND 0x7f :: byte) OR push_bit 7 (drop_bit 7 w)) n = bit w n"
    unfolding clear_0x80 by (cases "n < 7") (auto simp: bit_simps)
qed

lemma ge_0x80_of_or: "(b OR 0x80 :: byte) \<ge> 0x80"
proof -
  have "(b OR 2 ^ 7) AND 2 ^ 7 = (2 ^ 7 :: byte)"
    by (rule bit_word_eqI) (auto simp: bit_simps)
  then show ?thesis unfolding byte_0x80 by (metis word_and_le2)
qed

lemma unat_lt_exp_drop7:
  assumes "unat (w :: uint64) < 2 ^ (64 - 7 * i)" "w \<ge> 0x80"
  shows "i \<le> 8" "unat (drop_bit 7 w) < 2 ^ (64 - 7 * Suc i)"
proof -
  have w: "128 \<le> unat w" using assms(2) by (simp add: word_le_nat_alt)
  have "\<not> 64 - 7 * i \<le> 7"
  proof
    assume "64 - 7 * i \<le> 7"
    then have "(2::nat) ^ (64 - 7 * i) \<le> 2 ^ 7" by (intro power_increasing) auto
    with assms(1) w show False by simp
  qed
  then show "i \<le> 8" by simp
  then have e: "(2::nat) ^ (64 - 7 * i) = 2 ^ (64 - 7 * Suc i) * 2 ^ 7"
    by (simp only: power_add [symmetric]) (rule arg_cong [where f = "(^) 2"], simp)
  show "unat (drop_bit 7 w) < 2 ^ (64 - 7 * Suc i)"
    using assms(1) unfolding e unat_drop7 by (simp add: div_less_iff_less_mult)
qed

lemma ReadUvarint_loop_PutUvarint:
  "i \<le> 9 \<Longrightarrow> unat w < 2 ^ (64 - 7 * i) \<Longrightarrow>
   ReadUvarint_loop i x (PutUvarint w @ rest) = Inr (x OR push_bit (7 * i) w)"
proof (induction w arbitrary: i x rule: PutUvarint.induct)
  case (1 w)
  show ?case
  proof (cases "w \<ge> 0x80")
    case True
    note b = unat_lt_exp_drop7 [OF "1.prems"(2) True]
    have split: "push_bit (7 * i) (ucast ((ucast w OR 0x80) AND 0x7f :: byte))
        OR push_bit (7 * Suc i) (drop_bit 7 w) = push_bit (7 * i) w"
      by (subst (3) low7_split [of w, symmetric])
        (simp add: push_bit_or algebra_simps)
    have "ReadUvarint_loop (Suc i) (x OR push_bit (7 * i) (ucast ((ucast w OR 0x80) AND 0x7f :: byte)))
           (PutUvarint (drop_bit 7 w) @ rest)
        = Inr ((x OR push_bit (7 * i) (ucast ((ucast w OR 0x80) AND 0x7f :: byte)))
               OR push_bit (7 * Suc i) (drop_bit 7 w))"
      using b True by (intro "1.IH") auto
    also have "\<dots> = Inr (x OR push_bit (7 * i) w)"
      using split by (simp add: or.assoc)
    finally show ?thesis
      using True b(1) ge_0x80_of_or [of "ucast w"]
      by (subst ReadUvarint_loop.simps) (simp add: PutUvarint_big MaxVarintLen64_def not_less)
  next
    case False
    then have w: "unat w < 128" by (simp add: word_le_nat_alt)
    then have u: "ucast (ucast w :: byte) = w" "(ucast w :: byte) < 0x80"
      by (auto simp: word_unat_eq_iff word_less_nat_alt unat_ucast_byte unat_ucast_up64)
    moreover have "(ucast w :: byte) \<le> 1" if "i = 9"
      using "1.prems"(2) that w by (auto simp: word_le_nat_alt unat_ucast_byte)
    ultimately show ?thesis
      using False "1.prems"(1)
      by (subst ReadUvarint_loop.simps) (auto simp: PutUvarint_small MaxVarintLen64_def not_less)
  qed
qed

lemma ReadUvarint_PutUvarint [simp]: "ReadUvarint (PutUvarint w @ rest) = Inr w"
  using ReadUvarint_loop_PutUvarint [of 0 w 0 rest] unsigned_less [of w]
  by (simp add: ReadUvarint_def)

lemma length_PutUvarint_bound:
  "i \<le> 9 \<Longrightarrow> unat w < 2 ^ (64 - 7 * i) \<Longrightarrow> length (PutUvarint w) \<le> 10 - i"
proof (induction w arbitrary: i rule: PutUvarint.induct)
  case (1 w)
  show ?case
  proof (cases "w \<ge> 0x80")
    case True
    note b = unat_lt_exp_drop7 [OF "1.prems"(2) True]
    with "1.IH" [of "Suc i"] True show ?thesis by (simp add: PutUvarint_big)
  next
    case False
    with "1.prems" show ?thesis by (simp add: PutUvarint_small)
  qed
qed

lemma length_PutUvarint_le: "length (PutUvarint w) \<le> MaxVarintLen64"
  using length_PutUvarint_bound [of 0 w] unsigned_less [of w] by (simp add: MaxVarintLen64_def)

lemma length_PutUvarint_mono: "v \<le> w \<Longrightarrow> length (PutUvarint v) \<le> length (PutUvarint w)"
proof (induction v arbitrary: w rule: PutUvarint.induct)
  case (1 v)
  show ?case
  proof (cases "v \<ge> 0x80")
    case True
    with "1.prems" have w: "w \<ge> 0x80" by simp
    have "drop_bit 7 v \<le> drop_bit 7 w"
      using "1.prems" unfolding word_le_nat_alt unat_drop7 by (rule div_le_mono)
    with "1.IH" True w show ?thesis by (simp add: PutUvarint_big)
  next
    case False
    then show ?thesis by (simp add: PutUvarint_small Suc_leI)
  qed
qed

section \<open>Comparison of byte slices\<close>

text \<open>\<^verbatim>\<open>bytes.Compare\<close>: lexicographic, \<open>-1\<close>, \<open>0\<close> or \<open>1\<close>.\<close>

fun bytes_Compare :: "bytes \<Rightarrow> bytes \<Rightarrow> int" where
  "bytes_Compare [] [] = 0"
| "bytes_Compare [] (_ # _) = -1"
| "bytes_Compare (_ # _) [] = 1"
| "bytes_Compare (a # as) (b # bs) =
     (if a < b then -1 else if b < a then 1 else bytes_Compare as bs)"

lemma bytes_Compare_eq: "bytes_Compare a b = (if a < b then -1 else if a = b then 0 else 1)"
  by (induction a b rule: bytes_Compare.induct) auto

lemma bytes_Compare_iffs [simp]:
  "bytes_Compare a b = -1 \<longleftrightarrow> a < b"
  "bytes_Compare a b = 0 \<longleftrightarrow> a = b"
  "bytes_Compare a b = 1 \<longleftrightarrow> b < a"
  "bytes_Compare a b < 1 \<longleftrightarrow> a \<le> b"
  "bytes_Compare a b > -1 \<longleftrightarrow> b \<le> a"
  "bytes_Compare a b < 0 \<longleftrightarrow> a < b"
  by (auto simp: bytes_Compare_eq)

end
