(* ===== verification/Codec.thy ===== *)
theory Codec
  imports GoStd
begin

text \<open>
  The interface of a fixed-width byte encoding, as the share format uses it: an encoder into
  \<open>width\<close> bytes, a checking decoder, and the set of values the encoder is meant for. The two
  laws are the two round trips. The lemmas are what a reader of a header needs: a field is
  recovered from any byte string that starts with its encoding, no two values share an
  encoding, and a field of the wrong length is refused.
\<close>

locale fixed_codec =
  fixes enc :: "'a \<Rightarrow> bytes"
    and dec :: "bytes \<Rightarrow> 'a result"
    and valid :: "'a \<Rightarrow> bool"
    and width :: nat
  assumes dec_enc: "valid x \<Longrightarrow> dec (enc x) = Inr x"
    and dec_sound: "dec b = Inr x \<Longrightarrow> valid x \<and> enc x = b"
    and enc_width: "valid x \<Longrightarrow> length (enc x) = width"
begin

lemma dec_iff: "dec b = Inr x \<longleftrightarrow> valid x \<and> enc x = b"
  using dec_enc dec_sound by auto

lemma enc_inj: "valid x \<Longrightarrow> valid y \<Longrightarrow> enc x = enc y \<Longrightarrow> x = y"
  by (metis dec_enc sum.inject(2))

lemma dec_width: "dec b = Inr x \<Longrightarrow> length b = width"
  using dec_sound enc_width by fastforce

lemma dec_prefix: "valid x \<Longrightarrow> dec (take width (enc x @ rest)) = Inr x"
  by (simp add: enc_width dec_enc)

lemma dec_refuses: "length b \<noteq> width \<Longrightarrow> \<exists>e. dec b = Inl e"
  using dec_width by (cases "dec b") auto

end

end
