(* ===== verification/Namespace.thy ===== *)
theory Namespace
  imports Codec
begin

text \<open>
  \<^verbatim>\<open>pkg/namespace\<close>: the 29-byte namespace (one version byte and a 28-byte id), its
  constructors and checks, the reserved namespaces, and the order in which a data square is
  sorted. The theory shows that \<^verbatim>\<open>Bytes\<close> and \<^verbatim>\<open>From\<close> are inverse on the supported namespaces
  (an interpretation of the codec interface), and that the comparison methods are one total
  order.
\<close>

section \<open>Constants\<close>

definition NamespaceVersionSize :: nat where "NamespaceVersionSize = 1"
definition NamespaceIDSize :: nat where "NamespaceIDSize = 28"
definition NamespaceSize :: nat where "NamespaceSize = NamespaceVersionSize + NamespaceIDSize"
definition NamespaceVersionZero :: byte where "NamespaceVersionZero = 0"
definition NamespaceVersionMax :: byte where "NamespaceVersionMax = 255"
definition NamespaceVersionZeroPrefixSize :: nat where "NamespaceVersionZeroPrefixSize = 18"
definition NamespaceVersionZeroIDSize :: nat where
  "NamespaceVersionZeroIDSize = NamespaceIDSize - NamespaceVersionZeroPrefixSize"
definition NamespaceVersionZeroPrefix :: bytes where
  "NamespaceVersionZeroPrefix = replicate NamespaceVersionZeroPrefixSize 0"

declare NamespaceVersionSize_def [simp] NamespaceIDSize_def [simp] NamespaceSize_def [simp]
  NamespaceVersionZero_def [simp] NamespaceVersionMax_def [simp]
  NamespaceVersionZeroPrefixSize_def [simp] NamespaceVersionZeroIDSize_def [simp]

section \<open>The type and its constructors\<close>

datatype Namespace = Namespace (ns_Version: byte) (ns_ID: bytes)

definition Bytes_ns :: "Namespace \<Rightarrow> bytes" where
  "Bytes_ns n = ns_Version n # ns_ID n"

definition validateVersionSupported :: "byte \<Rightarrow> unit result" where
  "validateVersionSupported version =
     (if version \<noteq> NamespaceVersionZero \<and> version \<noteq> NamespaceVersionMax
      then Inl (Err ''unsupported namespace version'') else Inr ())"

definition validateID :: "byte \<Rightarrow> bytes \<Rightarrow> unit result" where
  "validateID version nid =
     (if length nid \<noteq> NamespaceIDSize then Inl (Err ''unsupported namespace id length'')
      else if version = NamespaceVersionZero
              \<and> take (length NamespaceVersionZeroPrefix) nid \<noteq> NamespaceVersionZeroPrefix
      then Inl (Err ''unsupported namespace id with version'')
      else Inr ())"

definition New_ns :: "byte \<Rightarrow> bytes \<Rightarrow> Namespace result" where
  "New_ns version nid =
     bindR (validateVersionSupported version) (\<lambda>_.
     bindR (validateID version nid) (\<lambda>_. Inr (Namespace version nid)))"

definition MustNew_ns :: "byte \<Rightarrow> bytes \<Rightarrow> Namespace result" where
  "MustNew_ns version nid =
     (case New_ns version nid of Inl e \<Rightarrow> Inl (Panic ''MustNew'') | Inr n \<Rightarrow> Inr n)"

definition leftPad :: "bytes \<Rightarrow> nat \<Rightarrow> bytes" where
  "leftPad b sz = (if length b \<ge> sz then b else zeros (sz - length b) @ b)"

definition NewV0 :: "bytes \<Rightarrow> Namespace result" where
  "NewV0 subID =
     (if length subID > NamespaceVersionZeroIDSize
      then Inl (Err ''subID must be <= NamespaceVersionZeroIDSize'')
      else
        let subID' = leftPad subID NamespaceVersionZeroIDSize;
            nid = overwrite (zeros NamespaceIDSize) NamespaceVersionZeroPrefixSize subID'
        in New_ns NamespaceVersionZero nid)"

definition MustNewV0 :: "bytes \<Rightarrow> Namespace result" where
  "MustNewV0 subID = (case NewV0 subID of Inl e \<Rightarrow> Inl (Panic ''MustNewV0'') | Inr n \<Rightarrow> Inr n)"

definition From_ns :: "bytes \<Rightarrow> Namespace result" where
  "From_ns b =
     (if length b \<noteq> NamespaceSize then Inl (Err ''invalid namespace length'')
      else New_ns (b ! 0) (drop 1 b))"

definition deepCopy_ns :: "Namespace \<Rightarrow> Namespace" where
  "deepCopy_ns n = Namespace (ns_Version n) (overwrite (zeros (length (ns_ID n))) 0 (ns_ID n))"

text \<open>\<^verbatim>\<open>make([]Namespace, times)\<close> panics on a negative length.\<close>

definition Repeat_ns :: "Namespace \<Rightarrow> int \<Rightarrow> Namespace list result" where
  "Repeat_ns n k =
     (if k < 0 then Inl (Panic ''makeslice: len out of range'')
      else Inr (map (\<lambda>_. deepCopy_ns n) [0..<nat k]))"

section \<open>Reserved namespaces\<close>

definition primaryReservedNamespace :: "byte \<Rightarrow> Namespace" where
  "primaryReservedNamespace lastByte =
     Namespace NamespaceVersionZero (replicate (NamespaceIDSize - 1) 0 @ [lastByte])"

definition secondaryReservedNamespace :: "byte \<Rightarrow> Namespace" where
  "secondaryReservedNamespace lastByte =
     Namespace NamespaceVersionMax (replicate (NamespaceIDSize - 1) 0xFF @ [lastByte])"

definition TxNamespace :: Namespace where
  "TxNamespace = primaryReservedNamespace 0x01"
definition IntermediateStateRootsNamespace :: Namespace where
  "IntermediateStateRootsNamespace = primaryReservedNamespace 0x02"
definition PayForBlobNamespace :: Namespace where
  "PayForBlobNamespace = primaryReservedNamespace 0x04"
definition PrimaryReservedPaddingNamespace :: Namespace where
  "PrimaryReservedPaddingNamespace = primaryReservedNamespace 0xFF"
definition MaxPrimaryReservedNamespace :: Namespace where
  "MaxPrimaryReservedNamespace = primaryReservedNamespace 0xFF"
definition MinSecondaryReservedNamespace :: Namespace where
  "MinSecondaryReservedNamespace = secondaryReservedNamespace 0x00"
definition TailPaddingNamespace :: Namespace where
  "TailPaddingNamespace = secondaryReservedNamespace 0xFE"
definition ParitySharesNamespace :: Namespace where
  "ParitySharesNamespace = secondaryReservedNamespace 0xFF"
definition SupportedBlobNamespaceVersions :: "byte list" where
  "SupportedBlobNamespaceVersions = [NamespaceVersionZero]"

section \<open>Comparisons\<close>

definition Equals_ns :: "Namespace \<Rightarrow> Namespace \<Rightarrow> bool" where
  "Equals_ns n n2 \<longleftrightarrow> Bytes_ns n = Bytes_ns n2"
definition IsLessThan :: "Namespace \<Rightarrow> Namespace \<Rightarrow> bool" where
  "IsLessThan n n2 \<longleftrightarrow> bytes_Compare (Bytes_ns n) (Bytes_ns n2) = -1"
definition IsLessOrEqualThan :: "Namespace \<Rightarrow> Namespace \<Rightarrow> bool" where
  "IsLessOrEqualThan n n2 \<longleftrightarrow> bytes_Compare (Bytes_ns n) (Bytes_ns n2) < 1"
definition IsGreaterThan :: "Namespace \<Rightarrow> Namespace \<Rightarrow> bool" where
  "IsGreaterThan n n2 \<longleftrightarrow> bytes_Compare (Bytes_ns n) (Bytes_ns n2) = 1"
definition IsGreaterOrEqualThan :: "Namespace \<Rightarrow> Namespace \<Rightarrow> bool" where
  "IsGreaterOrEqualThan n n2 \<longleftrightarrow> bytes_Compare (Bytes_ns n) (Bytes_ns n2) > -1"

definition IsPrimaryReserved :: "Namespace \<Rightarrow> bool" where
  "IsPrimaryReserved n \<longleftrightarrow> IsLessOrEqualThan n MaxPrimaryReservedNamespace"
definition IsSecondaryReserved :: "Namespace \<Rightarrow> bool" where
  "IsSecondaryReserved n \<longleftrightarrow> IsGreaterOrEqualThan n MinSecondaryReservedNamespace"
definition IsReserved :: "Namespace \<Rightarrow> bool" where
  "IsReserved n \<longleftrightarrow> IsPrimaryReserved n \<or> IsSecondaryReserved n"
definition IsParityShares :: "Namespace \<Rightarrow> bool" where
  "IsParityShares n \<longleftrightarrow> Bytes_ns n = Bytes_ns ParitySharesNamespace"
definition IsTailPadding :: "Namespace \<Rightarrow> bool" where
  "IsTailPadding n \<longleftrightarrow> Bytes_ns n = Bytes_ns TailPaddingNamespace"
definition IsPrimaryReservedPadding :: "Namespace \<Rightarrow> bool" where
  "IsPrimaryReservedPadding n \<longleftrightarrow> Bytes_ns n = Bytes_ns PrimaryReservedPaddingNamespace"
definition IsTx :: "Namespace \<Rightarrow> bool" where
  "IsTx n \<longleftrightarrow> Bytes_ns n = Bytes_ns TxNamespace"
definition IsPayForBlob :: "Namespace \<Rightarrow> bool" where
  "IsPayForBlob n \<longleftrightarrow> Bytes_ns n = Bytes_ns PayForBlobNamespace"

section \<open>The order on namespaces\<close>

instantiation Namespace :: linorder
begin

definition less_eq_Namespace :: "Namespace \<Rightarrow> Namespace \<Rightarrow> bool" where
  "less_eq_Namespace a b \<longleftrightarrow> Bytes_ns a \<le> Bytes_ns b"

definition less_Namespace :: "Namespace \<Rightarrow> Namespace \<Rightarrow> bool" where
  "less_Namespace a b \<longleftrightarrow> Bytes_ns a < Bytes_ns b"

instance
  by standard
    (auto simp: less_eq_Namespace_def less_Namespace_def Bytes_ns_def not_le intro: Namespace.expand)

end

lemma Bytes_ns_inject [simp]: "Bytes_ns a = Bytes_ns b \<longleftrightarrow> a = b"
  by (auto simp: Bytes_ns_def intro: Namespace.expand)

named_theorems ns_order \<open>the comparison methods as the order of the type\<close>

lemma ns_compare [ns_order]:
  "Equals_ns a b \<longleftrightarrow> a = b"
  "IsLessThan a b \<longleftrightarrow> a < b"
  "IsLessOrEqualThan a b \<longleftrightarrow> a \<le> b"
  "IsGreaterThan a b \<longleftrightarrow> b < a"
  "IsGreaterOrEqualThan a b \<longleftrightarrow> b \<le> a"
  by (simp_all add: Equals_ns_def IsLessThan_def IsLessOrEqualThan_def IsGreaterThan_def
      IsGreaterOrEqualThan_def less_eq_Namespace_def less_Namespace_def)

lemma ns_kinds [ns_order]:
  "IsTx n \<longleftrightarrow> n = TxNamespace"
  "IsPayForBlob n \<longleftrightarrow> n = PayForBlobNamespace"
  "IsTailPadding n \<longleftrightarrow> n = TailPaddingNamespace"
  "IsPrimaryReservedPadding n \<longleftrightarrow> n = PrimaryReservedPaddingNamespace"
  "IsParityShares n \<longleftrightarrow> n = ParitySharesNamespace"
  by (simp_all add: IsTx_def IsPayForBlob_def IsTailPadding_def IsPrimaryReservedPadding_def
      IsParityShares_def)

lemma IsReserved_iff:
  "IsReserved n \<longleftrightarrow> n \<le> MaxPrimaryReservedNamespace \<or> MinSecondaryReservedNamespace \<le> n"
  by (simp add: IsReserved_def IsPrimaryReserved_def IsSecondaryReserved_def ns_order)

section \<open>Supported namespaces and the byte encoding\<close>

text \<open>The namespaces that \<^verbatim>\<open>New\<close> accepts.\<close>

definition valid_ns :: "Namespace \<Rightarrow> bool" where
  "valid_ns n \<longleftrightarrow>
     length (ns_ID n) = NamespaceIDSize
     \<and> (ns_Version n = NamespaceVersionZero
          \<and> take NamespaceVersionZeroPrefixSize (ns_ID n) = NamespaceVersionZeroPrefix
        \<or> ns_Version n = NamespaceVersionMax)"

lemma length_zero_prefix [simp]: "length NamespaceVersionZeroPrefix = 18"
  by (simp add: NamespaceVersionZeroPrefix_def)

lemma New_ns_iff: "New_ns v i = Inr n \<longleftrightarrow> n = Namespace v i \<and> valid_ns n"
  by (auto simp: New_ns_def validateVersionSupported_def validateID_def valid_ns_def)

lemma From_ns_iff: "From_ns b = Inr n \<longleftrightarrow> b = Bytes_ns n \<and> valid_ns n"
  by (cases b; cases n) (auto simp: From_ns_def New_ns_iff Bytes_ns_def valid_ns_def)

interpretation ns_codec: fixed_codec Bytes_ns From_ns valid_ns NamespaceSize
  by unfold_locales (auto simp: From_ns_iff, simp add: Bytes_ns_def valid_ns_def)

lemma length_Bytes_ns: "length (Bytes_ns n) = Suc (length (ns_ID n))"
  by (simp add: Bytes_ns_def)

lemma valid_ns_length [simp]: "valid_ns n \<Longrightarrow> length (Bytes_ns n) = 29"
  using ns_codec.enc_width by simp

lemma valid_reserved [simp]:
  "valid_ns (primaryReservedNamespace b)"
  "valid_ns (secondaryReservedNamespace b)"
  by (simp_all add: valid_ns_def primaryReservedNamespace_def secondaryReservedNamespace_def
      NamespaceVersionZeroPrefix_def)

lemma valid_named [simp]:
  "valid_ns TxNamespace" "valid_ns PayForBlobNamespace" "valid_ns IntermediateStateRootsNamespace"
  "valid_ns PrimaryReservedPaddingNamespace" "valid_ns TailPaddingNamespace"
  "valid_ns ParitySharesNamespace" "valid_ns MaxPrimaryReservedNamespace"
  "valid_ns MinSecondaryReservedNamespace"
  by (simp_all add: TxNamespace_def PayForBlobNamespace_def IntermediateStateRootsNamespace_def
      PrimaryReservedPaddingNamespace_def TailPaddingNamespace_def ParitySharesNamespace_def
      MaxPrimaryReservedNamespace_def MinSecondaryReservedNamespace_def)

lemma deepCopy_ns_id [simp]: "deepCopy_ns n = n"
  by (cases n) (simp add: deepCopy_ns_def overwrite_def)

text \<open>The order of the named namespaces: transactions, blob payments, padding, user data, tail.\<close>

lemma primary_le_iff: "primaryReservedNamespace a \<le> primaryReservedNamespace b \<longleftrightarrow> a \<le> b"
  by (auto simp: less_eq_Namespace_def primaryReservedNamespace_def Bytes_ns_def le_less)

lemma named_order:
  "TxNamespace < PayForBlobNamespace"
  "PayForBlobNamespace < PrimaryReservedPaddingNamespace"
  "PrimaryReservedPaddingNamespace = MaxPrimaryReservedNamespace"
  "MaxPrimaryReservedNamespace < MinSecondaryReservedNamespace"
  "MinSecondaryReservedNamespace < TailPaddingNamespace"
  "TailPaddingNamespace < ParitySharesNamespace"
  by (simp_all add: less_Namespace_def Bytes_ns_def TxNamespace_def PayForBlobNamespace_def
      PrimaryReservedPaddingNamespace_def MaxPrimaryReservedNamespace_def TailPaddingNamespace_def
      MinSecondaryReservedNamespace_def ParitySharesNamespace_def primaryReservedNamespace_def
      secondaryReservedNamespace_def)

lemma not_reserved_named:
  assumes "\<not> IsReserved n"
  shows "n \<noteq> TxNamespace" "n \<noteq> PayForBlobNamespace" "n \<noteq> PrimaryReservedPaddingNamespace"
    "n \<noteq> TailPaddingNamespace" "n \<noteq> ParitySharesNamespace"
  using assms named_order unfolding IsReserved_iff by (auto simp: not_le)

lemma NewV0_ok:
  assumes "length subID \<le> 10"
  shows "NewV0 subID = Inr (Namespace 0 (zeros (28 - length subID) @ subID))"
proof -
  have "overwrite (zeros 28) 18 (leftPad subID 10) = zeros (28 - length subID) @ subID"
    using assms by (auto simp: overwrite_def leftPad_def simp flip: replicate_add append_assoc)
  moreover have "valid_ns (Namespace 0 (zeros (28 - length subID) @ subID))"
    using assms by (auto simp: valid_ns_def NamespaceVersionZeroPrefix_def min_def)
  ultimately show ?thesis
    using assms by (simp add: NewV0_def New_ns_iff)
qed

end
