(* ===== verification/AppConsts.thy ===== *)
theory AppConsts
  imports Namespace
begin

text \<open>
  \<^verbatim>\<open>pkg/appconsts\<close>: the layout constants of a share and the versioned bounds of a square. The
  numeric constants are simplification rules, so that layouts compute.
\<close>

section \<open>Global constants\<close>

definition NamespaceVersionMaxValue :: uint32 where "NamespaceVersionMaxValue = 255"
definition ShareSize :: nat where "ShareSize = 512"
definition ShareInfoBytes :: nat where "ShareInfoBytes = 1"
definition SequenceLenBytes :: nat where "SequenceLenBytes = 4"
definition ShareVersionZero :: byte where "ShareVersionZero = 0"
definition DefaultShareVersion :: byte where "DefaultShareVersion = ShareVersionZero"
definition CompactShareReservedBytes :: nat where "CompactShareReservedBytes = 4"
definition FirstCompactShareContentSize :: nat where
  "FirstCompactShareContentSize =
     ShareSize - NamespaceSize - ShareInfoBytes - SequenceLenBytes - CompactShareReservedBytes"
definition ContinuationCompactShareContentSize :: nat where
  "ContinuationCompactShareContentSize =
     ShareSize - NamespaceSize - ShareInfoBytes - CompactShareReservedBytes"
definition FirstSparseShareContentSize :: nat where
  "FirstSparseShareContentSize = ShareSize - NamespaceSize - ShareInfoBytes - SequenceLenBytes"
definition ContinuationSparseShareContentSize :: nat where
  "ContinuationSparseShareContentSize = ShareSize - NamespaceSize - ShareInfoBytes"
definition MinSquareSize :: nat where "MinSquareSize = 1"
definition MinShareCount :: nat where "MinShareCount = MinSquareSize * MinSquareSize"
definition MaxShareVersion :: byte where "MaxShareVersion = 127"
definition SupportedShareVersions :: "byte list" where
  "SupportedShareVersions = [ShareVersionZero]"

declare ShareSize_def [simp] ShareInfoBytes_def [simp] SequenceLenBytes_def [simp]
  ShareVersionZero_def [simp] CompactShareReservedBytes_def [simp]
  FirstCompactShareContentSize_def [simp] ContinuationCompactShareContentSize_def [simp]
  FirstSparseShareContentSize_def [simp] ContinuationSparseShareContentSize_def [simp]
  MinSquareSize_def [simp] MinShareCount_def [simp] MaxShareVersion_def [simp]
  SupportedShareVersions_def [simp] NamespaceVersionMaxValue_def [simp]

section \<open>Initial and versioned constants\<close>

definition DefaultGovMaxSquareSize :: int where "DefaultGovMaxSquareSize = 64"
definition DefaultMaxBytes :: int where
  "DefaultMaxBytes =
     DefaultGovMaxSquareSize * DefaultGovMaxSquareSize * int ContinuationSparseShareContentSize"
definition DefaultGasPerBlobByte :: uint32 where "DefaultGasPerBlobByte = 8"

definition v1_SquareSizeUpperBound :: int where "v1_SquareSizeUpperBound = 128"
definition v1_SubtreeRootThreshold :: int where "v1_SubtreeRootThreshold = 64"
definition v2_Version :: uint64 where "v2_Version = 2"
definition testground_Version :: uint64 where "testground_Version = 420420420"
definition testground_SquareSizeUpperBound :: int where "testground_SquareSizeUpperBound = 512"

definition LatestVersion :: uint64 where "LatestVersion = v2_Version"

definition SubtreeRootThreshold :: "uint64 \<Rightarrow> int" where
  "SubtreeRootThreshold v = v1_SubtreeRootThreshold"

definition SquareSizeUpperBound :: "uint64 \<Rightarrow> int" where
  "SquareSizeUpperBound v =
     (if v = testground_Version then testground_SquareSizeUpperBound else v1_SquareSizeUpperBound)"

definition DefaultSubtreeRootThreshold :: int where
  "DefaultSubtreeRootThreshold = SubtreeRootThreshold LatestVersion"

definition DefaultSquareSizeUpperBound :: int where
  "DefaultSquareSizeUpperBound = SquareSizeUpperBound LatestVersion"

declare v1_SubtreeRootThreshold_def [simp] v1_SquareSizeUpperBound_def [simp]
  testground_SquareSizeUpperBound_def [simp] SubtreeRootThreshold_def [simp]
  DefaultSubtreeRootThreshold_def [simp] DefaultGovMaxSquareSize_def [simp]

lemma DefaultSquareSizeUpperBound_128 [simp]: "DefaultSquareSizeUpperBound = 128"
  by (simp add: DefaultSquareSizeUpperBound_def SquareSizeUpperBound_def LatestVersion_def
      v2_Version_def testground_Version_def)

lemma SquareSizeUpperBound_cases: "SquareSizeUpperBound v = 128 \<or> SquareSizeUpperBound v = 512"
  by (simp add: SquareSizeUpperBound_def)

end
