(* ===== verification/PowersOfTwo.thy ===== *)
theory PowersOfTwo
  imports AppConsts
begin

text \<open>
  \<^verbatim>\<open>pkg/shares/powers_of_two.go\<close>: the generic rounding functions, at the two machine types
  the program instantiates them with. The type parameter \<^verbatim>\<open>I\<close> is a conversion \<open>wrap\<close> into the
  type's range: \<open>wrap_int\<close> for \<^verbatim>\<open>int\<close> (64 bits, two's complement) and \<open>wrap_uint64\<close> for \<^verbatim>\<open>uint64\<close>.
  The doubling loop does not terminate above the largest power of two of the type; both the
  result below that bound and the divergence above it are proved, once, in the locale
  \<open>machine_int\<close>.
\<close>

section \<open>Machine integers\<close>

definition wrap_int :: "int \<Rightarrow> int" where
  "wrap_int x = signed_take_bit 63 x"

definition wrap_uint64 :: "int \<Rightarrow> int" where
  "wrap_uint64 x = take_bit 64 x"

section \<open>The functions\<close>

partial_function (option) RoundUpPowerOfTwo_loop ::
    "(int \<Rightarrow> int) \<Rightarrow> int \<Rightarrow> int \<Rightarrow> int option" where
  [code]: "RoundUpPowerOfTwo_loop wrap result input =
     (if result < input then RoundUpPowerOfTwo_loop wrap (wrap (2 * result)) input
      else Some result)"

definition RoundUpPowerOfTwo :: "(int \<Rightarrow> int) \<Rightarrow> int \<Rightarrow> int result" where
  "RoundUpPowerOfTwo wrap input = of_loop (RoundUpPowerOfTwo_loop wrap 1 input)"

definition RoundDownPowerOfTwo :: "(int \<Rightarrow> int) \<Rightarrow> int \<Rightarrow> int result" where
  "RoundDownPowerOfTwo wrap input =
     (if input \<le> 0 then Inl (Err ''input must be positive'')
      else bindR (RoundUpPowerOfTwo wrap input) (\<lambda>roundedUp.
             if roundedUp = input then Inr roundedUp else Inr (roundedUp div 2)))"

definition RoundUpPowerOfTwoStrict :: "(int \<Rightarrow> int) \<Rightarrow> int \<Rightarrow> int result" where
  "RoundUpPowerOfTwoStrict wrap input =
     bindR (RoundUpPowerOfTwo wrap input) (\<lambda>result.
       if result = input then Inr (wrap (result * 2)) else Inr result)"

definition IsPowerOfTwo :: "(int \<Rightarrow> int) \<Rightarrow> int \<Rightarrow> bool" where
  "IsPowerOfTwo wrap input \<longleftrightarrow> input AND wrap (input - 1) = 0 \<and> input \<noteq> 0"

section \<open>The reference value\<close>

text \<open>\<open>pow2_up n\<close> is the least power of two that is at least \<open>n\<close>.\<close>

definition pow2_up :: "int \<Rightarrow> int" where
  "pow2_up n = 2 ^ (LEAST k. n \<le> 2 ^ k)"

lemma ex_pow2_ge: "\<exists>k. (n::int) \<le> 2 ^ k"
proof
  have "n \<le> int (nat n)" by simp
  also have "\<dots> \<le> int (2 ^ nat n)" by (simp only: of_nat_le_iff less_exp less_imp_le)
  finally show "n \<le> 2 ^ nat n" by (simp only: of_nat_power) simp
qed

lemma pow2_up_ge: "n \<le> pow2_up n"
  unfolding pow2_up_def by (rule LeastI_ex [OF ex_pow2_ge])

lemma pow2_up_least: "n \<le> 2 ^ k \<Longrightarrow> pow2_up n \<le> 2 ^ k"
  unfolding pow2_up_def by (intro power_increasing Least_le) auto

lemma pow2_up_pos [simp]: "0 < pow2_up n"
  by (simp add: pow2_up_def)

lemma pow2_up_is_pow2: "\<exists>k. pow2_up n = 2 ^ k"
  by (auto simp: pow2_up_def)

lemma pow2_up_unique: "n \<le> 2 ^ k \<Longrightarrow> k = 0 \<or> 2 ^ (k - 1) < n \<Longrightarrow> pow2_up n = 2 ^ k"
proof -
  assume a: "n \<le> 2 ^ k" "k = 0 \<or> 2 ^ (k - 1) < n"
  have "(LEAST k. n \<le> 2 ^ k) = k"
  proof (rule Least_equality)
    fix y assume y: "n \<le> 2 ^ y"
    show "k \<le> y"
    proof (rule ccontr)
      assume "\<not> k \<le> y"
      then have "(2::int) ^ y \<le> 2 ^ (k - 1)" by (intro power_increasing) auto
      also have "\<dots> < n" using a(2) \<open>\<not> k \<le> y\<close> by auto
      finally show False using y by simp
    qed
  qed (rule a)
  then show ?thesis by (simp add: pow2_up_def)
qed

lemma pow2_up_mono: "m \<le> n \<Longrightarrow> pow2_up m \<le> pow2_up n"
  using pow2_up_is_pow2 [of n] pow2_up_least pow2_up_ge [of n] by (metis order_trans)

lemma pow2_up_lt_double: "1 < n \<Longrightarrow> pow2_up n < 2 * n"
proof -
  assume n: "1 < n"
  obtain k where k: "pow2_up n = 2 ^ k" using pow2_up_is_pow2 by blast
  show ?thesis
  proof (rule ccontr)
    assume "\<not> pow2_up n < 2 * n"
    with n k have "k \<noteq> 0" by (intro notI) simp
    with k \<open>\<not> pow2_up n < 2 * n\<close> have "n \<le> 2 ^ (k - 1)" by (cases k) auto
    then have "pow2_up n \<le> 2 ^ (k - 1)" by (rule pow2_up_least)
    with k \<open>k \<noteq> 0\<close> show False by (cases k) auto
  qed
qed

lemma pow2_up_of_pow2 [simp]: "pow2_up (2 ^ k) = 2 ^ k"
  by (rule pow2_up_unique) (cases k; simp)+

lemma pow2_up_small [simp]: "n \<le> 1 \<Longrightarrow> pow2_up n = 1"
  using pow2_up_unique [of n 0] by simp

section \<open>The loop below and above the type's bound\<close>

text \<open>A loop that never leaves a set of values below the input does not return.\<close>

lemma RoundUpPowerOfTwo_loop_stuck:
  assumes ret: "RoundUpPowerOfTwo_loop wrap r input = Some s"
    and closed: "\<And>x. bad x \<Longrightarrow> x < input \<and> bad (wrap (2 * x))"
  shows "\<not> bad r"
proof -
  have "(\<forall>x. bad x \<longrightarrow> x < input \<and> bad (wrap (2 * x))) \<longrightarrow> \<not> bad r"
    by (rule RoundUpPowerOfTwo_loop.raw_induct
        [where P = "\<lambda>w r i s. (\<forall>x. bad x \<longrightarrow> x < i \<and> bad (w (2 * x))) \<longrightarrow> \<not> bad r", OF _ ret])
      (auto split: if_splits, blast)
  with closed show ?thesis by blast
qed

locale machine_int =
  fixes wrap :: "int \<Rightarrow> int" and bits :: nat
  assumes wrap_in_range: "0 \<le> x \<Longrightarrow> x < 2 ^ bits \<Longrightarrow> wrap x = x"
    and wrap_overflow: "wrap (2 ^ bits) \<le> 0"
    and wrap_vanishes: "wrap (2 * wrap (2 ^ bits)) = 0"
    and bits_pos: "1 < bits"
begin

lemma loop_finds:
  "m \<le> k \<Longrightarrow> k < bits \<Longrightarrow> input \<le> 2 ^ k \<Longrightarrow> k = m \<or> 2 ^ (k - 1) < input \<Longrightarrow>
   RoundUpPowerOfTwo_loop wrap (2 ^ m) input = Some (2 ^ k)"
proof (induction "k - m" arbitrary: m)
  case 0
  then show ?case by (subst RoundUpPowerOfTwo_loop.simps) simp
next
  case (Suc d)
  then have m: "m < k" by simp
  with Suc.prems(4) have lt: "2 ^ (k - 1) < input" by simp
  have "(2::int) ^ m \<le> 2 ^ (k - 1)" using m by (intro power_increasing) auto
  also note lt
  finally have less: "2 ^ m < input" .
  have "(2::int) ^ Suc m < 2 ^ bits"
    using m Suc.prems(2) by (intro power_strict_increasing) auto
  then have w: "wrap (2 * 2 ^ m) = 2 ^ Suc m" by (simp add: wrap_in_range)
  have "RoundUpPowerOfTwo_loop wrap (2 ^ Suc m) input = Some (2 ^ k)"
    using Suc m lt by (intro Suc.hyps) auto
  with less w show ?case by (subst RoundUpPowerOfTwo_loop.simps) simp
qed

theorem RoundUp_correct:
  assumes "input \<le> 2 ^ (bits - 1)"
  shows "RoundUpPowerOfTwo wrap input = Inr (pow2_up input)"
proof -
  define k where "k = (LEAST k. input \<le> 2 ^ k)"
  have k: "input \<le> 2 ^ k" unfolding k_def by (rule LeastI_ex [OF ex_pow2_ge])
  have "k \<le> bits - 1" unfolding k_def using assms by (rule Least_le)
  then have kb: "k < bits" using bits_pos by simp
  have "k = 0 \<or> \<not> input \<le> 2 ^ (k - 1)"
    unfolding k_def by (metis diff_less not_less_Least zero_less_one not_gr_zero)
  with k kb have "RoundUpPowerOfTwo_loop wrap (2 ^ 0) input = Some (2 ^ k)"
    by (intro loop_finds) auto
  then show ?thesis by (simp add: RoundUpPowerOfTwo_def pow2_up_def k_def)
qed

theorem RoundUp_diverges:
  assumes "2 ^ (bits - 1) < input"
  shows "RoundUpPowerOfTwo wrap input = Inl Diverge"
proof -
  let ?bad = "\<lambda>r. r = 0 \<or> r = wrap (2 ^ bits) \<or> (\<exists>m<bits. r = 2 ^ m)"
  have step: "r < input \<and> ?bad (wrap (2 * r))" if "?bad r" for r
  proof -
    have "(0::int) < 2 ^ (bits - 1)" by simp
    with assms have pos: "0 < input" by linarith
    from that consider "r = 0" | "r = wrap (2 ^ bits)" | m where "m < bits" "r = 2 ^ m" by blast
    then show ?thesis
    proof cases
      case 1
      then show ?thesis using pos assms wrap_in_range [of 0] by auto
    next
      case 2
      then show ?thesis using pos assms wrap_overflow wrap_vanishes by auto
    next
      case 3
      have "r \<le> 2 ^ (bits - 1)" unfolding 3 using 3(1) by (intro power_increasing) auto
      moreover have "wrap (2 * r) = wrap (2 ^ bits) \<or> (\<exists>m'<bits. wrap (2 * r) = 2 ^ m')"
      proof (cases "Suc m = bits")
        case True
        then have "2 * r = 2 ^ bits" unfolding 3 by (auto simp flip: power_Suc)
        then show ?thesis by simp
      next
        case False
        with 3(1) have "Suc m < bits" by simp
        moreover from this have "(2::int) ^ Suc m < 2 ^ bits" by (intro power_strict_increasing) auto
        ultimately show ?thesis using wrap_in_range [of "2 ^ Suc m"] 3(2) by auto
      qed
      ultimately show ?thesis using assms by auto
    qed
  qed
  have bad1: "?bad 1" using bits_pos by (intro disjI2 exI [of _ 0]) simp
  have "RoundUpPowerOfTwo_loop wrap 1 input \<noteq> Some s" for s
  proof
    assume ret: "RoundUpPowerOfTwo_loop wrap 1 input = Some s"
    have "\<not> ?bad 1" by (rule RoundUpPowerOfTwo_loop_stuck [OF ret]) (rule step)
    with bad1 show False by blast
  qed
  then have "RoundUpPowerOfTwo_loop wrap 1 input = None" by auto
  then show ?thesis by (simp add: RoundUpPowerOfTwo_def)
qed

end

lemma wrap_int_bounds: "- (2 ^ 63) \<le> wrap_int x" "wrap_int x < 2 ^ 63"
  using signed_take_bit_int_greater_eq_minus_exp [of 63 x] signed_take_bit_int_less_exp [of 63 x]
  by (simp_all add: wrap_int_def)

lemma wrap_int_id [simp]: "- (2 ^ 63) \<le> x \<Longrightarrow> x < 2 ^ 63 \<Longrightarrow> wrap_int x = x"
  unfolding wrap_int_def by (rule signed_take_bit_int_eq_self)

interpretation go_int: machine_int wrap_int 63
  by unfold_locales (simp_all add: wrap_int_def signed_take_bit_int_eq_self)

interpretation go_uint64: machine_int wrap_uint64 64
  by unfold_locales (simp_all add: wrap_uint64_def take_bit_int_eq_self)

section \<open>Powers of two\<close>

lemma and_pred_zero_iff: "0 < n \<Longrightarrow> n AND (n - 1) = 0 \<longleftrightarrow> (\<exists>k. n = 2 ^ k)" for n :: int
proof (induction "nat n" arbitrary: n rule: less_induct)
  case less
  show ?case
  proof (cases "even n")
    case True
    then obtain m where m: "n = 2 * m" by blast
    with less.prems have "0 < m" "nat m < nat n" by auto
    then have IH: "m AND (m - 1) = 0 \<longleftrightarrow> (\<exists>k. m = 2 ^ k)" using less.hyps by blast
    have "(n - 1) div 2 = m - 1" "n div 2 = m" using m by auto
    then have "n AND (n - 1) = 2 * (m AND (m - 1))"
      using True by (subst and_int_rec) simp
    moreover have "(\<exists>k. n = 2 ^ k) \<longleftrightarrow> (\<exists>k. m = 2 ^ k)"
    proof
      assume "\<exists>k. n = 2 ^ k"
      then obtain k where k: "n = 2 ^ k" by blast
      with True have "k \<noteq> 0" by (intro notI) simp
      with k m show "\<exists>k. m = 2 ^ k" by (cases k) auto
    next
      assume "\<exists>k. m = 2 ^ k"
      with m show "\<exists>k. n = 2 ^ k" by (metis power_Suc)
    qed
    ultimately show ?thesis using IH by simp
  next
    case False
    then obtain m where m: "n = 2 * m + 1" by (metis oddE)
    then have "(n - 1) div 2 = m" "n div 2 = m" by auto
    then have "n AND (n - 1) = 2 * m" using False by (subst and_int_rec) simp
    moreover have "(\<exists>k. n = 2 ^ k) \<longleftrightarrow> n = 1"
    proof
      assume "\<exists>k. n = 2 ^ k"
      then obtain k where "n = 2 ^ k" by blast
      with False show "n = 1" by (cases k) auto
    qed (auto intro: exI [of _ 0])
    ultimately show ?thesis using m by auto
  qed
qed

lemma IsPowerOfTwo_int_iff:
  assumes "0 < n" "n < 2 ^ 63"
  shows "IsPowerOfTwo wrap_int n \<longleftrightarrow> (\<exists>k. n = 2 ^ k)"
  using assms and_pred_zero_iff [of n] by (auto simp: IsPowerOfTwo_def)

text \<open>Rounding down gives the largest power of two that does not exceed the input.\<close>

lemma RoundDown_uint64:
  assumes "0 < n" "n \<le> 2 ^ 63"
  shows "\<exists>k. RoundDownPowerOfTwo wrap_uint64 n = Inr (2 ^ k) \<and> 2 ^ k \<le> n \<and> n < 2 ^ Suc k"
proof -
  obtain k where k: "pow2_up n = 2 ^ k" using pow2_up_is_pow2 by blast
  have ru: "RoundUpPowerOfTwo wrap_uint64 n = Inr (2 ^ k)"
    using go_uint64.RoundUp_correct [of n] assms k by simp
  have ge: "n \<le> 2 ^ k" using pow2_up_ge [of n] k by simp
  show ?thesis
  proof (cases "2 ^ k = n")
    case True
    with ru assms show ?thesis by (auto simp: RoundDownPowerOfTwo_def intro!: exI [of _ k])
  next
    case False
    with ge have "n < 2 ^ k" by simp
    with assms(1) have k0: "k \<noteq> 0" by (intro notI) simp
    have "\<not> n \<le> 2 ^ (k - 1)"
      using pow2_up_least [of n "k - 1"] k k0 by (cases k) auto
    with ru assms False \<open>n < 2 ^ k\<close> k0 show ?thesis
      by (cases k) (auto simp: RoundDownPowerOfTwo_def intro!: exI [of _ "k - 1"])
  qed
qed

end
