(* ===== verification/ShareFields.thy ===== *)
theory ShareFields
  imports PowersOfTwo
begin

text \<open>
  The small encodings inside a share: \<^verbatim>\<open>pkg/shares/info_byte.go\<close> (version and sequence-start
  bit), \<^verbatim>\<open>reserved_bytes.go\<close> (the position of the first unit of a compact share) and
  \<^verbatim>\<open>utils.go\<close> (unit length delimiters, zero padding, capacities). Each decoder is shown to
  invert its encoder, and to refuse what the encoder cannot have written.
\<close>

section \<open>The info byte\<close>

type_synonym InfoByte = byte

definition NewInfoByte :: "byte \<Rightarrow> bool \<Rightarrow> InfoByte result" where
  "NewInfoByte version isSequenceStart =
     (if version > MaxShareVersion
      then Inl (Err ''version must be less than or equal to MaxShareVersion'')
      else let pre = push_bit 1 version in
           if isSequenceStart then Inr (pre + 1) else Inr pre)"

definition Version_ib :: "InfoByte \<Rightarrow> byte" where
  "Version_ib i = drop_bit 1 i"

definition IsSequenceStart_ib :: "InfoByte \<Rightarrow> bool" where
  "IsSequenceStart_ib i \<longleftrightarrow> unat i mod 2 = 1"

definition ParseInfoByte :: "byte \<Rightarrow> InfoByte result" where
  "ParseInfoByte i =
     (let isSequenceStart = (i mod 2 = 1); version = drop_bit 1 i
      in NewInfoByte version isSequenceStart)"

lemma unat_drop1: "unat (drop_bit 1 i) = unat i div 2" for i :: byte
  by (simp only: unat_drop_bit_eq) (simp add: drop_bit_eq_div)

lemma unat_push1: "v \<le> 127 \<Longrightarrow> unat (push_bit 1 v) = 2 * unat v" for v :: byte
  by (simp add: word_le_nat_alt push_bit_eq_mult unat_word_ariths)

lemma unat_push1_Suc: "v \<le> 127 \<Longrightarrow> unat (push_bit 1 v + 1) = 2 * unat v + 1" for v :: byte
  using unat_push1 [of v] by (simp add: word_le_nat_alt unat_word_ariths)

lemma NewInfoByte_ok: "v \<le> 127 \<Longrightarrow> NewInfoByte v s = Inr (push_bit 1 v + of_bool s)"
  by (simp add: NewInfoByte_def Let_def)

lemma info_byte_fields:
  assumes "NewInfoByte v s = Inr i"
  shows "Version_ib i = v" "IsSequenceStart_ib i = s"
proof -
  from assms have v: "v \<le> 127" and i: "i = push_bit 1 v + of_bool s"
    by (auto simp: NewInfoByte_def Let_def not_less split: if_splits)
  from v have "unat i = 2 * unat v + of_bool s"
    unfolding i using unat_push1 unat_push1_Suc by (cases s) auto
  then show "Version_ib i = v" "IsSequenceStart_ib i = s"
    unfolding Version_ib_def IsSequenceStart_ib_def word_unat_eq_iff unat_drop1 by auto
qed

lemma mod2_byte: "i mod 2 = 1 \<longleftrightarrow> unat i mod 2 = 1" for i :: byte
  by (simp add: word_unat_eq_iff unat_mod)

lemma ParseInfoByte_id [simp]: "ParseInfoByte i = Inr i"
proof -
  have v: "drop_bit 1 i \<le> 127"
    using unsigned_less [where ?'a = nat, of i] unfolding word_le_nat_alt unat_drop1 by simp
  have "unat (push_bit 1 (drop_bit 1 i) + of_bool (i mod 2 = 1)) = unat i"
    using unat_push1 [OF v] unat_push1_Suc [OF v] unfolding unat_drop1 mod2_byte
    by (cases "unat i mod 2 = 1") (auto, presburger+)
  then show ?thesis
    unfolding ParseInfoByte_def Let_def using v
    by (simp only: NewInfoByte_ok) (simp add: word_unat_eq_iff)
qed

section \<open>The reserved bytes of a compact share\<close>

definition NewReservedBytes :: "uint32 \<Rightarrow> bytes result" where
  "NewReservedBytes byteIndex =
     (if byteIndex \<ge> of_nat ShareSize
      then Inl (Err ''byte index must be less than share size'')
      else Inr (overwrite (zeros CompactShareReservedBytes) 0 (PutUint32 byteIndex)))"

definition ParseReservedBytes :: "bytes \<Rightarrow> uint32 result" where
  "ParseReservedBytes reservedBytes =
     (if length reservedBytes \<noteq> CompactShareReservedBytes
      then Inl (Err ''reserved bytes must be of length CompactShareReservedBytes'')
      else bindR (Uint32 reservedBytes) (\<lambda>byteIndex.
             if of_nat ShareSize \<le> byteIndex
             then Inl (Err ''byteIndex must be less than share size'') else Inr byteIndex))"

lemma NewReservedBytes_ok: "i < 512 \<Longrightarrow> NewReservedBytes i = Inr (PutUint32 i)"
  by (simp add: NewReservedBytes_def overwrite_def not_le)

lemma PutUint32_Uint32:
  assumes "length b = 4" "Uint32 b = Inr v"
  shows "PutUint32 v = b"
proof -
  obtain b0 b1 b2 b3 where b: "b = [b0, b1, b2, b3]"
    using assms(1) by (auto simp: numeral_eq_Suc length_Suc_conv)
  with assms(2) have v: "v = ucast b3 OR push_bit 8 (ucast b2) OR push_bit 16 (ucast b1)
      OR push_bit 24 (ucast b0)"
    by (simp add: Uint32_def numeral_eq_Suc)
  have "ucast v = b3" "ucast (drop_bit 8 v) = b2" "ucast (drop_bit 16 v) = b1"
    "ucast (drop_bit 24 v) = b0"
    unfolding v by (rule bit_word_eqI; auto simp: bit_simps dest: bit_imp_le_length)+
  then show ?thesis by (simp add: b PutUint32_def)
qed

interpretation reserved_codec: fixed_codec PutUint32 ParseReservedBytes
    "\<lambda>i. i < 512" CompactShareReservedBytes
  by unfold_locales
    (auto simp: ParseReservedBytes_def not_le result_simps PutUint32_Uint32 split: if_splits)

section \<open>Delimiters, padding and capacities\<close>

definition DelimLen :: "uint64 \<Rightarrow> nat" where
  "DelimLen sz = length (PutUvarint sz)"

definition RawTxSize :: "int \<Rightarrow> int" where
  "RawTxSize desiredSize = desiredSize - int (DelimLen (word_of_int desiredSize))"

definition zeroPadIfNecessary :: "bytes \<Rightarrow> nat \<Rightarrow> bytes \<times> nat" where
  "zeroPadIfNecessary share width =
     (let oldLen = length share in
      if oldLen \<ge> width then (share, 0)
      else let missingBytes = width - oldLen in (share @ zeros missingBytes, missingBytes))"

definition ParseDelimiter :: "bytes \<Rightarrow> (bytes \<times> uint64) result" where
  "ParseDelimiter input =
     (if length input = 0 then Inr (input, 0)
      else
        let l = (if length input < MaxVarintLen64 then length input else MaxVarintLen64);
            delimiter = fst (zeroPadIfNecessary (take l input) MaxVarintLen64)
        in bindR (ReadUvarint delimiter) (\<lambda>dataLen.
           bindR (slice_from input (length (PutUvarint dataLen))) (\<lambda>rest.
             Inr (rest, dataLen))))"

definition AvailableBytesFromCompactShares :: "int \<Rightarrow> int" where
  "AvailableBytesFromCompactShares n =
     (if n \<le> 0 then 0
      else if n = 1 then int FirstCompactShareContentSize
      else (n - 1) * int ContinuationCompactShareContentSize + int FirstCompactShareContentSize)"

definition AvailableBytesFromSparseShares :: "int \<Rightarrow> int" where
  "AvailableBytesFromSparseShares n =
     (if n \<le> 0 then 0
      else if n = 1 then int FirstSparseShareContentSize
      else (n - 1) * int ContinuationSparseShareContentSize + int FirstSparseShareContentSize)"

lemma zeroPad_eq: "zeroPadIfNecessary s w = (s @ zeros (w - length s), w - length s)"
  by (simp add: zeroPadIfNecessary_def Let_def)

lemma ParseDelimiter_nil [simp]: "ParseDelimiter [] = Inr ([], 0)"
  by (simp add: ParseDelimiter_def)

lemma ParseDelimiter_unit:
  "ParseDelimiter (PutUvarint w @ rest) = Inr (rest, w)"
proof -
  let ?u = "PutUvarint w"
  have len: "length ?u \<le> MaxVarintLen64" by (rule length_PutUvarint_le)
  define l where "l = (if length (?u @ rest) < MaxVarintLen64 then length (?u @ rest) else MaxVarintLen64)"
  have "take l (?u @ rest) = ?u @ take (l - length ?u) rest"
    using len by (auto simp: l_def)
  then have "ReadUvarint (fst (zeroPadIfNecessary (take l (?u @ rest)) MaxVarintLen64)) = Inr w"
    by (simp add: zeroPad_eq)
  moreover have "length (?u @ rest) \<noteq> 0" by simp
  ultimately show ?thesis
    unfolding ParseDelimiter_def Let_def l_def [symmetric] by (simp only: if_False bindR_simps) simp
qed

text \<open>Zero bytes are read as a delimiter of length zero: padding ends the units.\<close>

lemma ReadUvarint_zero: "ReadUvarint (0 # bs) = Inr 0"
  by (simp add: ReadUvarint_def ReadUvarint_loop.simps MaxVarintLen64_def)

lemma ParseDelimiter_zeros:
  "n > 0 \<Longrightarrow> \<exists>r. ParseDelimiter (zeros n) = Inr (r, 0)"
  by (cases n) (auto simp: ParseDelimiter_def Let_def zeroPad_eq ReadUvarint_zero PutUvarint_small
      MaxVarintLen64_def take_Cons')

end
