(* ===== verification/Shares.thy ===== *)
theory Shares
  imports ShareFields
begin

text \<open>
  \<^verbatim>\<open>pkg/shares/shares.go\<close>: reading a 512-byte share. The second half describes a share by its
  layout (namespace, info byte, rest) and shows what every accessor returns on it; the
  splitters and parsers use only these facts.
\<close>

section \<open>The share and its accessors\<close>

record Share =
  share_data :: bytes

definition Namespace_sh :: "Share \<Rightarrow> Namespace result" where
  "Namespace_sh s =
     (if length (share_data s) < NamespaceSize
      then Inl (Panic ''share is too short to contain a namespace'')
      else From_ns (take NamespaceSize (share_data s)))"

definition InfoByte_sh :: "Share \<Rightarrow> InfoByte result" where
  "InfoByte_sh s =
     (if length (share_data s) < NamespaceSize + ShareInfoBytes
      then Inl (Err ''share is too short to contain an info byte'')
      else ParseInfoByte (share_data s ! NamespaceSize))"

definition validateSize :: "bytes \<Rightarrow> unit result" where
  "validateSize d =
     (if length d \<noteq> ShareSize then Inl (Err ''share data must be ShareSize bytes'') else Inr ())"

definition NewShare :: "bytes \<Rightarrow> Share result" where
  "NewShare d = bindR (validateSize d) (\<lambda>_. Inr \<lparr>share_data = d\<rparr>)"

definition Validate_sh :: "Share \<Rightarrow> unit result" where
  "Validate_sh s = validateSize (share_data s)"

definition Len_sh :: "Share \<Rightarrow> nat" where
  "Len_sh s = length (share_data s)"

definition Version_sh :: "Share \<Rightarrow> byte result" where
  "Version_sh s = bindR (InfoByte_sh s) (\<lambda>infoByte. Inr (Version_ib infoByte))"

definition DoesSupportVersions :: "Share \<Rightarrow> byte list \<Rightarrow> unit result" where
  "DoesSupportVersions s supportedShareVersions =
     bindR (Version_sh s) (\<lambda>ver.
       if ver \<notin> set supportedShareVersions then Inl (Err ''unsupported share version'')
       else Inr ())"

definition IsSequenceStart_sh :: "Share \<Rightarrow> bool result" where
  "IsSequenceStart_sh s = bindR (InfoByte_sh s) (\<lambda>infoByte. Inr (IsSequenceStart_ib infoByte))"

definition IsCompactShare :: "Share \<Rightarrow> bool result" where
  "IsCompactShare s = bindR (Namespace_sh s) (\<lambda>ns. Inr (IsTx ns \<or> IsPayForBlob ns))"

definition SequenceLen_sh :: "Share \<Rightarrow> uint32 result" where
  "SequenceLen_sh s =
     bindR (IsSequenceStart_sh s) (\<lambda>isSequenceStart.
       if \<not> isSequenceStart then Inr 0
       else
         let start = NamespaceSize + ShareInfoBytes; en = start + SequenceLenBytes in
         if length (share_data s) < en
         then Inl (Err ''share is too short to contain a sequence length'')
         else bindR (slice (share_data s) start en) Uint32)"

definition isNamespacePadding :: "Share \<Rightarrow> bool result" where
  "isNamespacePadding s =
     bindR (IsSequenceStart_sh s) (\<lambda>isSequenceStart.
     bindR (SequenceLen_sh s) (\<lambda>sequenceLen.
       Inr (isSequenceStart \<and> sequenceLen = 0)))"

definition isTailPadding_sh :: "Share \<Rightarrow> bool result" where
  "isTailPadding_sh s = bindR (Namespace_sh s) (\<lambda>ns. Inr (IsTailPadding ns))"

definition isPrimaryReservedPadding_sh :: "Share \<Rightarrow> bool result" where
  "isPrimaryReservedPadding_sh s = bindR (Namespace_sh s) (\<lambda>ns. Inr (IsPrimaryReservedPadding ns))"

definition IsPadding :: "Share \<Rightarrow> bool result" where
  "IsPadding s =
     bindR (isNamespacePadding s) (\<lambda>isNamespacePadding'.
     bindR (isTailPadding_sh s) (\<lambda>isTailPadding'.
     bindR (isPrimaryReservedPadding_sh s) (\<lambda>isPrimaryReservedPadding'.
       Inr (isNamespacePadding' \<or> isTailPadding' \<or> isPrimaryReservedPadding'))))"

definition ToBytes_sh :: "Share \<Rightarrow> bytes" where
  "ToBytes_sh s = share_data s"

definition panic_on_error :: "'a result \<Rightarrow> 'a result" where
  "panic_on_error r = (case r of Inl (Err m) \<Rightarrow> Inl (Panic m) | _ \<Rightarrow> r)"

definition rawDataStartIndex :: "Share \<Rightarrow> nat result" where
  "rawDataStartIndex s =
     bindR (panic_on_error (IsSequenceStart_sh s)) (\<lambda>isStart.
     bindR (panic_on_error (IsCompactShare s)) (\<lambda>isCompact.
       Inr (NamespaceSize + ShareInfoBytes
            + (if isStart then SequenceLenBytes else 0)
            + (if isCompact then CompactShareReservedBytes else 0))))"

definition RawData :: "Share \<Rightarrow> bytes result" where
  "RawData s =
     bindR (rawDataStartIndex s) (\<lambda>i.
       if length (share_data s) < i then Inl (Err ''share is too short to contain raw data'')
       else slice_from (share_data s) i)"

definition rawDataStartIndexUsingReserved :: "Share \<Rightarrow> nat result" where
  "rawDataStartIndexUsingReserved s =
     bindR (IsSequenceStart_sh s) (\<lambda>isStart.
     bindR (IsCompactShare s) (\<lambda>isCompact.
       let idx = NamespaceSize + ShareInfoBytes + (if isStart then SequenceLenBytes else 0) in
       if isCompact then
         bindR (slice (share_data s) idx (idx + CompactShareReservedBytes)) (\<lambda>r.
         bindR (ParseReservedBytes r) (\<lambda>reservedBytes. Inr (unat reservedBytes)))
       else Inr idx))"

definition RawDataUsingReserved :: "Share \<Rightarrow> bytes result" where
  "RawDataUsingReserved s =
     bindR (rawDataStartIndexUsingReserved s) (\<lambda>i.
       if i = 0 then Inr []
       else if length (share_data s) < i then Inl (Err ''share is too short to contain raw data'')
       else slice_from (share_data s) i)"

definition ToBytes :: "Share list \<Rightarrow> bytes list" where
  "ToBytes shares = map share_data shares"

definition FromBytes :: "bytes list \<Rightarrow> Share list result" where
  "FromBytes bs = mapR NewShare bs"

section \<open>Shares by layout\<close>

text \<open>
  \<open>share_of ns v st rest\<close> is the share with namespace \<open>ns\<close>, share version \<open>v\<close>, sequence-start bit
  \<open>st\<close> and the bytes \<open>rest\<close> after the info byte.
\<close>

definition share_of :: "Namespace \<Rightarrow> byte \<Rightarrow> bool \<Rightarrow> bytes \<Rightarrow> Share" where
  "share_of ns v st rest = \<lparr>share_data = Bytes_ns ns @ [push_bit 1 v + of_bool st] @ rest\<rparr>"

abbreviation compact_ns :: "Namespace \<Rightarrow> bool" where
  "compact_ns ns \<equiv> ns = TxNamespace \<or> ns = PayForBlobNamespace"

named_theorems share_simps \<open>accessors of a share given by its layout\<close>

lemma share_of_Namespace [share_simps]:
  assumes ns: "valid_ns ns" and v: "v \<le> 127"
  shows "Namespace_sh (share_of ns v st rest) = Inr ns"
  using ns ns_codec.dec_prefix [OF ns] by (simp add: Namespace_sh_def share_of_def)

lemma share_of_InfoByte:
  assumes ns: "valid_ns ns" and v: "v \<le> 127"
  shows "InfoByte_sh (share_of ns v st rest) = Inr (push_bit 1 v + of_bool st)"
  using ns by (simp add: InfoByte_sh_def share_of_def nth_append)

lemma share_of_Version [share_simps]:
  assumes ns: "valid_ns ns" and v: "v \<le> 127"
  shows "Version_sh (share_of ns v st rest) = Inr v"
  using info_byte_fields(1) [OF NewInfoByte_ok [OF v]]
  by (simp add: Version_sh_def share_of_InfoByte [OF ns v])

lemma share_of_IsSequenceStart [share_simps]:
  assumes ns: "valid_ns ns" and v: "v \<le> 127"
  shows "IsSequenceStart_sh (share_of ns v st rest) = Inr st"
  using info_byte_fields(2) [OF NewInfoByte_ok [OF v]]
  by (simp add: IsSequenceStart_sh_def share_of_InfoByte [OF ns v])

lemma share_of_IsCompact [share_simps]:
  assumes ns: "valid_ns ns" and v: "v \<le> 127"
  shows "IsCompactShare (share_of ns v st rest) = Inr (compact_ns ns)"
  by (simp add: IsCompactShare_def share_of_Namespace [OF ns v] ns_order)

lemma share_of_SequenceLen_start [share_simps]:
  assumes ns: "valid_ns ns" and v: "v \<le> 127"
  shows "SequenceLen_sh (share_of ns v True (PutUint32 n @ rest)) = Inr n"
  using ns by (simp add: SequenceLen_sh_def share_of_IsSequenceStart [OF ns v])
    (simp add: share_of_def)

lemma share_of_SequenceLen_cont [share_simps]:
  assumes ns: "valid_ns ns" and v: "v \<le> 127"
  shows "SequenceLen_sh (share_of ns v False rest) = Inr 0"
  by (simp add: SequenceLen_sh_def share_of_IsSequenceStart [OF ns v])

lemma share_of_IsPadding_start [share_simps]:
  assumes ns: "valid_ns ns" and v: "v \<le> 127"
  shows "IsPadding (share_of ns v True (PutUint32 n @ rest)) =
     Inr (n = 0 \<or> ns = TailPaddingNamespace \<or> ns = PrimaryReservedPaddingNamespace)"
  by (simp add: IsPadding_def isNamespacePadding_def isTailPadding_sh_def
      isPrimaryReservedPadding_sh_def ns_order share_of_IsSequenceStart [OF ns v]
      share_of_SequenceLen_start [OF ns v] share_of_Namespace [OF ns v])

lemma share_of_IsPadding_cont [share_simps]:
  assumes ns: "valid_ns ns" and v: "v \<le> 127"
  shows "IsPadding (share_of ns v False rest) =
     Inr (ns = TailPaddingNamespace \<or> ns = PrimaryReservedPaddingNamespace)"
  by (simp add: IsPadding_def isNamespacePadding_def isTailPadding_sh_def
      isPrimaryReservedPadding_sh_def ns_order share_of_IsSequenceStart [OF ns v]
      share_of_SequenceLen_cont [OF ns v] share_of_Namespace [OF ns v])

lemma share_of_rawDataStartIndex:
  assumes ns: "valid_ns ns" and v: "v \<le> 127"
  shows "rawDataStartIndex (share_of ns v st rest) =
     Inr (30 + (if st then 4 else 0) + (if compact_ns ns then 4 else 0))"
  by (simp add: rawDataStartIndex_def share_of_IsSequenceStart [OF ns v] share_of_IsCompact [OF ns v] panic_on_error_def)

lemma share_of_RawData_start [share_simps]:
  assumes ns: "valid_ns ns" and v: "v \<le> 127" and "\<not> compact_ns ns" and "length l = 4"
  shows "RawData (share_of ns v True (l @ payload)) = Inr payload"
  using assms by (simp add: RawData_def share_of_rawDataStartIndex [OF ns v]) (simp add: share_of_def)

lemma share_of_RawData_cont [share_simps]:
  assumes ns: "valid_ns ns" and v: "v \<le> 127" and "\<not> compact_ns ns"
  shows "RawData (share_of ns v False payload) = Inr payload"
  using assms by (simp add: RawData_def share_of_rawDataStartIndex [OF ns v]) (simp add: share_of_def)

lemma share_of_RawData_compact_start [share_simps]:
  assumes ns: "valid_ns ns" and v: "v \<le> 127" and "compact_ns ns" and "length l = 4" and "length r = 4"
  shows "RawData (share_of ns v True (l @ r @ payload)) = Inr payload"
  using assms by (auto simp: RawData_def share_of_rawDataStartIndex [OF ns v]) (auto simp: share_of_def)

lemma share_of_RawData_compact_cont [share_simps]:
  assumes ns: "valid_ns ns" and v: "v \<le> 127" and "compact_ns ns" and "length r = 4"
  shows "RawData (share_of ns v False (r @ payload)) = Inr payload"
  using assms by (auto simp: RawData_def share_of_rawDataStartIndex [OF ns v]) (auto simp: share_of_def)

lemma share_of_DoesSupport [share_simps]:
  assumes ns: "valid_ns ns" and v: "v \<le> 127"
  shows "DoesSupportVersions (share_of ns v st rest) vs =
     (if v \<in> set vs then Inr () else Inl (Err ''unsupported share version''))"
  by (simp add: DoesSupportVersions_def share_of_Version [OF ns v])

lemma share_of_RawDataUsingReserved_start [share_simps]:
  assumes ns: "valid_ns ns" and v: "v \<le> 127"
    and "compact_ns ns" "length l = 4" "r < 512" "length payload = 474" "38 \<le> r"
  shows "RawDataUsingReserved (share_of ns v True (l @ PutUint32 r @ payload)) =
     Inr (drop (unat r - 38) payload)"
proof -
  let ?s = "share_of ns v True (l @ PutUint32 r @ payload)"
  have "slice (share_data ?s) 34 38 = Inr (PutUint32 r)"
    using ns assms(4,6) by (simp add: share_of_def)
  then have "rawDataStartIndexUsingReserved ?s = Inr (unat r)"
    using assms(3,5) reserved_codec.dec_enc [of r]
    by (simp add: rawDataStartIndexUsingReserved_def share_of_IsSequenceStart [OF ns v] share_of_IsCompact [OF ns v])
  moreover have "38 \<le> unat r" "unat r < 512"
    using assms(5,7) by (simp_all add: word_le_nat_alt word_less_nat_alt)
  moreover have "drop 38 (share_data ?s) = payload" "length (share_data ?s) = 512"
    using ns assms(4,6) by (simp_all add: share_of_def)
  then have "drop (unat r) (share_data ?s) = drop (unat r - 38) payload"
    using \<open>38 \<le> unat r\<close> by (metis drop_drop le_add_diff_inverse2)
  ultimately show ?thesis
    using \<open>length (share_data ?s) = 512\<close> by (simp add: RawDataUsingReserved_def)
qed

lemma Validate_share_of [share_simps]:
  assumes ns: "valid_ns ns" and v: "v \<le> 127" and "length rest = 482"
  shows "Validate_sh (share_of ns v st rest) = Inr ()"
  using assms by (simp add: Validate_sh_def validateSize_def share_of_def)

lemma NewShare_ok: "length d = 512 \<Longrightarrow> NewShare d = Inr \<lparr>share_data = d\<rparr>"
  by (simp add: NewShare_def validateSize_def)

lemma NewShare_iff: "NewShare d = Inr s \<longleftrightarrow> length d = 512 \<and> s = \<lparr>share_data = d\<rparr>"
  by (auto simp: NewShare_def validateSize_def)

lemma share_of_inject:
  "length (ns_ID a) = length (ns_ID b) \<Longrightarrow>
   share_of a v st r = share_of b v' st' r' \<longleftrightarrow>
     a = b \<and> (push_bit 1 v + of_bool st :: byte) = push_bit 1 v' + of_bool st' \<and> r = r'"
  by (auto simp: share_of_def length_Bytes_ns)

text \<open>\<^verbatim>\<open>FromBytes\<close> inverts \<^verbatim>\<open>ToBytes\<close> exactly on lists of full-size shares.\<close>

lemma FromBytes_ToBytes_iff:
  "FromBytes (ToBytes ss) = Inr ts \<longleftrightarrow> ts = ss \<and> (\<forall>s\<in>set ss. Len_sh s = ShareSize)"
  by (induction ss arbitrary: ts)
    (auto simp: FromBytes_def ToBytes_def Len_sh_def NewShare_iff result_simps)

end
