(* ===== verification/ShareBuilder.thy ===== *)
theory ShareBuilder
  imports Shares
begin

text \<open>
  \<^verbatim>\<open>pkg/shares/share_builder.go\<close> and \<^verbatim>\<open>padding.go\<close>: a share under construction, and the padding
  shares. The builder is a record; a method with a pointer receiver takes the record and returns
  it updated. The lemmas at the end give what the methods build as a share layout.
\<close>

section \<open>The builder\<close>

record Builder =
  bd_namespace :: Namespace
  bd_shareVersion :: byte
  bd_isFirstShare :: bool
  bd_isCompactShare :: bool
  bd_rawShareData :: bytes

definition isCompactShare :: "Namespace \<Rightarrow> bool" where
  "isCompactShare ns \<longleftrightarrow> IsTx ns \<or> IsPayForBlob ns"

definition NewEmptyBuilder :: Builder where
  "NewEmptyBuilder =
     \<lparr>bd_namespace = Namespace 0 [], bd_shareVersion = 0, bd_isFirstShare = False,
      bd_isCompactShare = False, bd_rawShareData = []\<rparr>"

definition prepareCompactShare :: "Builder \<Rightarrow> Builder result" where
  "prepareCompactShare b =
     bindR (NewInfoByte (bd_shareVersion b) (bd_isFirstShare b)) (\<lambda>infoByte.
       let placeholderSequenceLen = zeros SequenceLenBytes;
           placeholderReservedBytes = zeros CompactShareReservedBytes;
           shareData = Bytes_ns (bd_namespace b) @ [infoByte]
             @ (if bd_isFirstShare b then placeholderSequenceLen else [])
             @ placeholderReservedBytes
       in Inr (b\<lparr>bd_rawShareData := shareData\<rparr>))"

definition prepareSparseShare :: "Builder \<Rightarrow> Builder result" where
  "prepareSparseShare b =
     bindR (NewInfoByte (bd_shareVersion b) (bd_isFirstShare b)) (\<lambda>infoByte.
       let placeholderSequenceLen = zeros SequenceLenBytes;
           shareData = Bytes_ns (bd_namespace b) @ [infoByte]
             @ (if bd_isFirstShare b then placeholderSequenceLen else [])
       in Inr (b\<lparr>bd_rawShareData := shareData\<rparr>))"

definition init_bd :: "Builder \<Rightarrow> Builder result" where
  "init_bd b = (if bd_isCompactShare b then prepareCompactShare b else prepareSparseShare b)"

definition NewBuilder :: "Namespace \<Rightarrow> byte \<Rightarrow> bool \<Rightarrow> Builder result" where
  "NewBuilder ns shareVersion isFirstShare =
     init_bd \<lparr>bd_namespace = ns, bd_shareVersion = shareVersion, bd_isFirstShare = isFirstShare,
       bd_isCompactShare = isCompactShare ns, bd_rawShareData = []\<rparr>"

definition AvailableBytes_bd :: "Builder \<Rightarrow> int" where
  "AvailableBytes_bd b = int ShareSize - int (length (bd_rawShareData b))"

definition ImportRawShare :: "Builder \<Rightarrow> bytes \<Rightarrow> Builder" where
  "ImportRawShare b rawBytes = b\<lparr>bd_rawShareData := rawBytes\<rparr>"

text \<open>
  \<^verbatim>\<open>AddData\<close> returns the bytes that do not fit; \<open>None\<close> is the \<^verbatim>\<open>nil\<close> slice of the first return.
  On raw share data longer than a share the slice expression \<^verbatim>\<open>rawData[:pendingLeft]\<close> has a
  negative bound and panics.
\<close>

definition AddData :: "Builder \<Rightarrow> bytes \<Rightarrow> (Builder \<times> bytes option) result" where
  "AddData b rawData =
     (let pendingLeft = int ShareSize - int (length (bd_rawShareData b)) in
      if int (length rawData) \<le> pendingLeft
      then Inr (b\<lparr>bd_rawShareData := bd_rawShareData b @ rawData\<rparr>, None)
      else if pendingLeft < 0 then Inl (Panic ''slice bounds out of range'')
      else let chunk = take (nat pendingLeft) rawData in
        Inr (b\<lparr>bd_rawShareData := bd_rawShareData b @ chunk\<rparr>,
             Some (drop (nat pendingLeft) rawData)))"

definition Build_bd :: "Builder \<Rightarrow> Share result" where
  "Build_bd b = NewShare (bd_rawShareData b)"

definition IsEmptyShare :: "Builder \<Rightarrow> bool" where
  "IsEmptyShare b \<longleftrightarrow>
     length (bd_rawShareData b) =
       NamespaceSize + ShareInfoBytes
       + (if bd_isCompactShare b then CompactShareReservedBytes else 0)
       + (if bd_isFirstShare b then SequenceLenBytes else 0)"

definition ZeroPadIfNecessary :: "Builder \<Rightarrow> Builder \<times> nat" where
  "ZeroPadIfNecessary b =
     (let (d, bytesOfPadding) = zeroPadIfNecessary (bd_rawShareData b) ShareSize
      in (b\<lparr>bd_rawShareData := d\<rparr>, bytesOfPadding))"

definition indexOfReservedBytes :: "Builder \<Rightarrow> nat" where
  "indexOfReservedBytes b =
     (if bd_isFirstShare b then NamespaceSize + ShareInfoBytes + SequenceLenBytes
      else NamespaceSize + ShareInfoBytes)"

definition indexOfInfoBytes :: "Builder \<Rightarrow> nat" where
  "indexOfInfoBytes b = NamespaceSize"

definition isEmptyReservedBytes :: "Builder \<Rightarrow> bool result" where
  "isEmptyReservedBytes b =
     (let i = indexOfReservedBytes b in
      bindR (slice (bd_rawShareData b) i (i + CompactShareReservedBytes)) (\<lambda>r.
      bindR (ParseReservedBytes r) (\<lambda>reservedBytes. Inr (reservedBytes = 0))))"

text \<open>A loop \<^verbatim>\<open>d[i+k] = v[k]\<close> over the indices of \<^verbatim>\<open>v\<close>: an index past the end panics.\<close>

definition store_bytes :: "bytes \<Rightarrow> nat \<Rightarrow> bytes \<Rightarrow> bytes result" where
  "store_bytes d i v =
     (if i + length v \<le> length d then Inr (overwrite d i v)
      else Inl (Panic ''index out of range''))"

definition MaybeWriteReservedBytes :: "Builder \<Rightarrow> Builder result" where
  "MaybeWriteReservedBytes b =
     (if \<not> bd_isCompactShare b then Inl (Err ''this is not a compact share'')
      else bindR (isEmptyReservedBytes b) (\<lambda>empty.
        if \<not> empty then Inr b
        else
          let byteIndexOfNextUnit = length (bd_rawShareData b) in
          bindR (NewReservedBytes (of_nat byteIndexOfNextUnit)) (\<lambda>reservedBytes.
          bindR (store_bytes (bd_rawShareData b) (indexOfReservedBytes b) reservedBytes) (\<lambda>d.
            Inr (b\<lparr>bd_rawShareData := d\<rparr>)))))"

definition WriteSequenceLen :: "Builder \<Rightarrow> uint32 \<Rightarrow> Builder result" where
  "WriteSequenceLen b sequenceLen =
     (if \<not> bd_isFirstShare b then Inl (Err ''not the first share'')
      else bindR (store_bytes (bd_rawShareData b) (NamespaceSize + ShareInfoBytes)
                    (PutUint32 sequenceLen)) (\<lambda>d.
        Inr (b\<lparr>bd_rawShareData := d\<rparr>)))"

definition FlipSequenceStart :: "Builder \<Rightarrow> Builder result" where
  "FlipSequenceStart b =
     (let i = indexOfInfoBytes b in
      bindR (index (bd_rawShareData b) i) (\<lambda>x.
        Inr (b\<lparr>bd_rawShareData := (bd_rawShareData b)[i := x XOR 0x01]\<rparr>)))"

section \<open>Padding shares\<close>

definition NamespacePaddingShare :: "Namespace \<Rightarrow> byte \<Rightarrow> Share result" where
  "NamespacePaddingShare ns shareVersion =
     bindR (NewBuilder ns shareVersion True) (\<lambda>b.
     bindR (WriteSequenceLen b 0) (\<lambda>b.
       let padding = zeros FirstSparseShareContentSize in
       bindR (AddData b padding) (\<lambda>(b, _). Build_bd b)))"

definition NamespacePaddingShares :: "Namespace \<Rightarrow> byte \<Rightarrow> int \<Rightarrow> Share list result" where
  "NamespacePaddingShares ns shareVersion n =
     (if n < 0 then Inl (Err ''n must be positive'')
      else mapR (\<lambda>_. NamespacePaddingShare ns shareVersion) [0..<nat n])"

definition ReservedPaddingShare :: "Share result" where
  "ReservedPaddingShare =
     panic_on_error (NamespacePaddingShare PrimaryReservedPaddingNamespace ShareVersionZero)"

definition ReservedPaddingShares :: "int \<Rightarrow> Share list result" where
  "ReservedPaddingShares n =
     panic_on_error (NamespacePaddingShares PrimaryReservedPaddingNamespace ShareVersionZero n)"

definition TailPaddingShare :: "Share result" where
  "TailPaddingShare = panic_on_error (NamespacePaddingShare TailPaddingNamespace ShareVersionZero)"

definition TailPaddingShares :: "int \<Rightarrow> Share list result" where
  "TailPaddingShares n =
     panic_on_error (NamespacePaddingShares TailPaddingNamespace ShareVersionZero n)"

section \<open>What the builder builds\<close>

text \<open>
  A well-formed builder never holds more than a share: this is the invariant its methods keep,
  and with it no method panics.
\<close>

definition header_len :: "Builder \<Rightarrow> nat" where
  "header_len b = 30 + (if bd_isFirstShare b then 4 else 0) + (if bd_isCompactShare b then 4 else 0)"

definition wf_builder :: "Builder \<Rightarrow> bool" where
  "wf_builder b \<longleftrightarrow> header_len b \<le> length (bd_rawShareData b) \<and> length (bd_rawShareData b) \<le> 512"

named_theorems builder_defs \<open>the builder's methods\<close>
declare NewBuilder_def [builder_defs] init_bd_def [builder_defs]
  prepareCompactShare_def [builder_defs] prepareSparseShare_def [builder_defs]
  AddData_def [builder_defs] ZeroPadIfNecessary_def [builder_defs]
  store_bytes_def [builder_defs] WriteSequenceLen_def [builder_defs]
  MaybeWriteReservedBytes_def [builder_defs] FlipSequenceStart_def [builder_defs]
  isEmptyReservedBytes_def [builder_defs] indexOfReservedBytes_def [builder_defs]
  indexOfInfoBytes_def [builder_defs] wf_builder_def [builder_defs] header_len_def [builder_defs]

lemma isCompactShare_iff: "isCompactShare ns \<longleftrightarrow> compact_ns ns"
  by (simp add: isCompactShare_def ns_order)

lemma NewBuilder_eq:
  "v \<le> 127 \<Longrightarrow> NewBuilder ns v st =
     Inr \<lparr>bd_namespace = ns, bd_shareVersion = v, bd_isFirstShare = st,
          bd_isCompactShare = compact_ns ns,
          bd_rawShareData = Bytes_ns ns @ [push_bit 1 v + of_bool st] @ zeros (if st then 4 else 0)
            @ zeros (if compact_ns ns then 4 else 0)\<rparr>"
  by (simp add: builder_defs NewInfoByte_ok isCompactShare_iff Let_def)

lemma NewBuilder_wf: "valid_ns ns \<Longrightarrow> v \<le> 127 \<Longrightarrow> NewBuilder ns v st = Inr b \<Longrightarrow> wf_builder b"
  by (auto simp: NewBuilder_eq wf_builder_def header_len_def)

lemma AddData_fits:
  "length (bd_rawShareData b) + length d \<le> 512 \<Longrightarrow>
   AddData b d = Inr (b\<lparr>bd_rawShareData := bd_rawShareData b @ d\<rparr>, None)"
  by (simp add: AddData_def)

lemma AddData_overflows:
  "length (bd_rawShareData b) \<le> 512 \<Longrightarrow> 512 < length (bd_rawShareData b) + length d \<Longrightarrow>
   AddData b d =
     Inr (b\<lparr>bd_rawShareData := bd_rawShareData b @ take (512 - length (bd_rawShareData b)) d\<rparr>,
          Some (drop (512 - length (bd_rawShareData b)) d))"
  by (simp add: AddData_def Let_def nat_diff_distrib)

lemma AddData_wf:
  "wf_builder b \<Longrightarrow> \<exists>b' lo. AddData b d = Inr (b', lo) \<and> wf_builder b' \<and>
     bd_rawShareData b' @ (case lo of None \<Rightarrow> [] | Some r \<Rightarrow> r) = bd_rawShareData b @ d \<and>
     (lo \<noteq> None \<longrightarrow> length (bd_rawShareData b') = 512)"
  by (auto simp: builder_defs Let_def nat_diff_distrib)

lemma WriteSequenceLen_layout:
  "bd_isFirstShare b \<Longrightarrow> bd_rawShareData b = hd30 @ l @ rest \<Longrightarrow> length hd30 = 30 \<Longrightarrow> length l = 4 \<Longrightarrow>
   WriteSequenceLen b n = Inr (b\<lparr>bd_rawShareData := hd30 @ PutUint32 n @ rest\<rparr>)"
  by (simp add: builder_defs overwrite_def)

lemma WriteSequenceLen_wf:
  "wf_builder b \<Longrightarrow> WriteSequenceLen b n = Inr b' \<Longrightarrow> wf_builder b'"
  by (auto simp: builder_defs split: if_splits)

lemma ZeroPad_layout:
  "ZeroPadIfNecessary b =
     (b\<lparr>bd_rawShareData := bd_rawShareData b @ zeros (512 - length (bd_rawShareData b))\<rparr>,
      512 - length (bd_rawShareData b))"
  by (simp add: ZeroPadIfNecessary_def zeroPad_eq)

text \<open>A full builder builds, and an invariant-respecting one is full after zero padding.\<close>

lemma Build_padded:
  "wf_builder b \<Longrightarrow> \<exists>s. Build_bd (fst (ZeroPadIfNecessary b)) = Inr s \<and> Len_sh s = ShareSize"
  by (simp add: ZeroPad_layout Build_bd_def NewShare_ok Len_sh_def wf_builder_def)

lemma isEmptyReserved_layout:
  assumes "bd_rawShareData b = pre @ PutUint32 r @ post" "length pre = indexOfReservedBytes b" "r < 512"
  shows "isEmptyReservedBytes b = Inr (r = 0)"
  using assms reserved_codec.dec_enc [of r] by (simp add: isEmptyReservedBytes_def Let_def)

lemma MaybeWriteReserved_layout:
  assumes b: "bd_isCompactShare b" "bd_rawShareData b = pre @ PutUint32 r @ post"
    and len: "length pre = indexOfReservedBytes b" "r < 512" "length (bd_rawShareData b) < 512"
  shows "MaybeWriteReservedBytes b =
    Inr (b\<lparr>bd_rawShareData :=
      pre @ PutUint32 (if r = 0 then of_nat (length (bd_rawShareData b)) else r) @ post\<rparr>)"
proof (cases "r = 0")
  case True
  have "(of_nat (length (bd_rawShareData b)) :: uint32) < 512"
    using len(3) by (simp add: word_less_nat_alt unat_of_nat)
  then show ?thesis
    using b len True isEmptyReserved_layout [OF b(2) len(1,2)]
    by (simp add: MaybeWriteReservedBytes_def NewReservedBytes_ok store_bytes_def overwrite_middle)
next
  case False
  then have "b\<lparr>bd_rawShareData := pre @ PutUint32 r @ post\<rparr> = b" using b(2) by simp
  then show ?thesis
    using b len False isEmptyReserved_layout [OF b(2) len(1,2)]
    by (simp add: MaybeWriteReservedBytes_def)
qed

text \<open>The padding shares by layout: the same for compact and sparse namespaces.\<close>

lemma PutUint32_zero: "PutUint32 0 = zeros 4"
  by (simp add: PutUint32_def numeral_eq_Suc)

lemma zeros_split: "k \<le> n \<Longrightarrow> zeros n = zeros k @ zeros (n - k)"
  by (simp flip: replicate_add)

lemma NamespacePaddingShare_eq:
  assumes "length (Bytes_ns ns) = 29" "v \<le> 127"
  shows "NamespacePaddingShare ns v = Inr (share_of ns v True (PutUint32 0 @ zeros 478))"
proof -
  let ?h = "Bytes_ns ns @ [push_bit 1 v + of_bool True]"
  let ?r = "zeros (if compact_ns ns then 4 else 0)"
  obtain b where b: "NewBuilder ns v True = Inr b" "bd_isFirstShare b"
      "bd_rawShareData b = ?h @ zeros 4 @ ?r"
    using NewBuilder_eq [OF assms(2), of ns True] by simp
  have w: "WriteSequenceLen b 0 = Inr (b\<lparr>bd_rawShareData := ?h @ PutUint32 0 @ ?r\<rparr>)"
    by (rule WriteSequenceLen_layout [OF b(2,3)]) (use assms in simp_all)
  show ?thesis
    using assms by (auto simp: NamespacePaddingShare_def b(1) w AddData_def Let_def Build_bd_def
        NewShare_ok share_of_def simp flip: replicate_add)
qed

lemma NamespacePaddingShares_eq:
  assumes "length (Bytes_ns ns) = 29" "v \<le> 127"
  shows "NamespacePaddingShares ns v (int n) =
     Inr (replicate n (share_of ns v True (PutUint32 0 @ zeros 478)))"
  unfolding NamespacePaddingShares_def NamespacePaddingShare_eq [OF assms]
  by (simp add: mapR_map map_replicate_const)

lemma ReservedPaddingShares_eq:
  "ReservedPaddingShares (int n) =
     Inr (replicate n (share_of PrimaryReservedPaddingNamespace 0 True (PutUint32 0 @ zeros 478)))"
  by (simp add: ReservedPaddingShares_def NamespacePaddingShares_eq panic_on_error_def)

lemma TailPaddingShares_eq:
  "TailPaddingShares (int n) =
     Inr (replicate n (share_of TailPaddingNamespace 0 True (PutUint32 0 @ zeros 478)))"
  by (simp add: TailPaddingShares_def NamespacePaddingShares_eq panic_on_error_def)

lemma share_of_size [simp]:
  "length (Bytes_ns ns) = 29 \<Longrightarrow> length (share_data (share_of ns v st rest)) = 30 + length rest"
  by (simp add: share_of_def)

text \<open>Flipping the indicator of a share changes only the indicator.\<close>

lemma xor1_push: "(push_bit 1 v + of_bool st) XOR 1 = push_bit 1 v + of_bool (\<not> st)" for v :: byte
proof -
  have b0: "\<not> bit (push_bit 1 v) 0"
    unfolding bit_push_bit_iff by simp
  have "push_bit 1 v AND 1 = 0"
  proof (rule bit_word_eqI)
    fix n :: nat
    show "bit (push_bit 1 v AND 1) n = bit (0 :: byte) n"
      using b0 unfolding bit_and_iff bit_1_iff by (cases "n = 0") simp_all
  qed
  then have "push_bit 1 v + 1 = push_bit 1 v XOR 1"
    using disjunctive_add_eq_xor by blast
  then show ?thesis
    by (cases st) (simp_all add: xor.assoc)
qed

lemma FlipSequenceStart_layout:
  assumes "length (Bytes_ns ns) = 29" "bd_rawShareData b = share_data (share_of ns v st rest)"
  shows "FlipSequenceStart b =
    Inr (b\<lparr>bd_rawShareData := share_data (share_of ns v (\<not> st) rest)\<rparr>)"
  using assms xor1_push [of v st]
  by (simp add: builder_defs Let_def share_of_def nth_append list_update_append del: push_bit_Suc)

end
