(* ===== verification/Blob.thy ===== *)
theory Blob
  imports ShareBuilder
begin

text \<open>
  \<^verbatim>\<open>pkg/blob/blob.go\<close>: blobs and blob transactions. The protobuf code of \<^verbatim>\<open>BlobTx\<close> is generated
  and is a parameter here (\<open>unmarshal\<close>, \<open>marshal\<close>); its documented round trip is a hypothesis of
  the lemmas that need it. A \<^verbatim>\<open>*Blob\<close> is a blob: the nil pointer, which decoding never yields, is
  not represented.
\<close>

section \<open>Blobs\<close>

record Blob =
  blob_NamespaceId :: bytes
  blob_Data :: bytes
  blob_ShareVersion :: uint32
  blob_NamespaceVersion :: uint32

record BlobTx =
  btx_Tx :: bytes
  btx_Blobs :: "Blob list"
  btx_TypeId :: string

definition ProtoBlobTxTypeID :: string where
  "ProtoBlobTxTypeID = ''BLOB''"

definition New_blob :: "Namespace \<Rightarrow> bytes \<Rightarrow> byte \<Rightarrow> Blob" where
  "New_blob ns blob shareVersion =
     \<lparr>blob_NamespaceId = ns_ID ns, blob_Data = blob, blob_ShareVersion = ucast shareVersion,
      blob_NamespaceVersion = ucast (ns_Version ns)\<rparr>"

definition Namespace_blob :: "Blob \<Rightarrow> Namespace" where
  "Namespace_blob b = Namespace (ucast (blob_NamespaceVersion b)) (blob_NamespaceId b)"

definition Validate_blob :: "Blob \<Rightarrow> unit result" where
  "Validate_blob b =
     (if length (blob_NamespaceId b) \<noteq> NamespaceIDSize
      then Inl (Err ''namespace id must be NamespaceIDSize bytes'')
      else if blob_ShareVersion b > 255
      then Inl (Err ''share version can not be greater than MaxShareVersion'')
      else if blob_NamespaceVersion b > ucast NamespaceVersionMax
      then Inl (Err ''namespace version can not be greater than MaxNamespaceVersion'')
      else if length (blob_Data b) = 0 then Inl (Err ''blob data can not be empty'')
      else Inr ())"

text \<open>
  The result is the decoded transaction and whether it is a blob transaction; \<^verbatim>\<open>BlobTx{}\<close> is
  returned when decoding fails.
\<close>

definition empty_BlobTx :: BlobTx where
  "empty_BlobTx = \<lparr>btx_Tx = [], btx_Blobs = [], btx_TypeId = []\<rparr>"

definition UnmarshalBlobTx :: "(bytes \<Rightarrow> BlobTx result) \<Rightarrow> bytes \<Rightarrow> BlobTx \<times> bool" where
  "UnmarshalBlobTx unmarshal tx =
     (case unmarshal tx of
        Inl _ \<Rightarrow> (empty_BlobTx, False)
      | Inr bTx \<Rightarrow>
          if btx_TypeId bTx \<noteq> ProtoBlobTxTypeID then (bTx, False)
          else if length (btx_Blobs bTx) = 0 then (bTx, False)
          else if list_ex (\<lambda>b. length (blob_NamespaceId b) \<noteq> NamespaceIDSize) (btx_Blobs bTx)
          then (bTx, False)
          else (bTx, True))"

definition MarshalBlobTx :: "(BlobTx \<Rightarrow> bytes result) \<Rightarrow> bytes \<Rightarrow> Blob list \<Rightarrow> bytes result" where
  "MarshalBlobTx marshal tx blobs =
     marshal \<lparr>btx_Tx = tx, btx_Blobs = blobs, btx_TypeId = ProtoBlobTxTypeID\<rparr>"

text \<open>\<^verbatim>\<open>sort.SliceStable\<close> by namespace bytes: the stable sort.\<close>

definition Sort_blobs :: "Blob list \<Rightarrow> Blob list" where
  "Sort_blobs blobs = sort_key (\<lambda>b. Bytes_ns (Namespace_blob b)) blobs"

section \<open>Lemmas\<close>

lemma unat_ucast_up32: "unat (ucast b :: uint32) = unat b" for b :: byte
  using unsigned_less [where ?'a = nat, of b]
  by (simp add: unsigned_ucast_eq take_bit_nat_eq_self)

lemma ucast_up_down [simp]: "(ucast (ucast w :: uint32) :: byte) = w"
  using unsigned_less [where ?'a = nat, of w]
  by (simp only: word_unat_eq_iff unat_ucast_byte unat_ucast_up32) simp

lemma ucast_down_up: "w \<le> 255 \<Longrightarrow> (ucast (ucast w :: byte) :: uint32) = w"
  by (simp only: word_unat_eq_iff word_le_nat_alt unat_ucast_up32 unat_ucast_byte) simp

lemma Namespace_New_blob [simp]: "Namespace_blob (New_blob ns d v) = ns"
  by (cases ns) (simp add: Namespace_blob_def New_blob_def)

lemma New_blob_fields [simp]:
  "blob_Data (New_blob ns d v) = d"
  "blob_ShareVersion (New_blob ns d v) = ucast v"
  by (simp_all add: New_blob_def)

lemma Validate_blob_iff:
  "Validate_blob b = Inr () \<longleftrightarrow>
     length (blob_NamespaceId b) = 28 \<and> blob_ShareVersion b \<le> 255
     \<and> blob_NamespaceVersion b \<le> 255 \<and> blob_Data b \<noteq> []"
  by (auto simp: Validate_blob_def not_less)

lemma Validate_blob_cases: "Validate_blob b = Inr () \<or> (\<exists>m. Validate_blob b = Inl (Err m))"
  by (auto simp: Validate_blob_def)

text \<open>A validated blob is determined by its namespace, data and share version.\<close>

lemma New_blob_of_valid:
  assumes "Validate_blob b = Inr ()"
  shows "New_blob (Namespace_blob b) (blob_Data b) (ucast (blob_ShareVersion b)) = b"
  using assms unfolding Validate_blob_iff
  by (cases b) (simp add: New_blob_def Namespace_blob_def ucast_down_up)

lemma Sort_blobs_sorted: "sorted (map Namespace_blob (Sort_blobs bs))"
  using sorted_sort_key [of "\<lambda>b. Bytes_ns (Namespace_blob b)" bs]
  by (simp add: Sort_blobs_def sorted_map less_eq_Namespace_def)

lemma Sort_blobs_mset [simp]: "mset (Sort_blobs bs) = mset bs"
  by (simp add: Sort_blobs_def)

text \<open>Blobs of one namespace keep their order.\<close>

lemma Sort_blobs_stable:
  "filter (\<lambda>b. Namespace_blob b = ns) (Sort_blobs bs) = filter (\<lambda>b. Namespace_blob b = ns) bs"
proof -
  have "filter (\<lambda>b. Bytes_ns (Namespace_blob b) = Bytes_ns ns) (Sort_blobs bs)
      = filter (\<lambda>b. Bytes_ns (Namespace_blob b) = Bytes_ns ns) bs"
    unfolding Sort_blobs_def by (rule sort_key_stable)
  then show ?thesis by simp
qed

lemma UnmarshalBlobTx_Marshal:
  assumes "\<And>b. marshal b = Inr enc \<Longrightarrow> unmarshal enc = Inr b"
    and "MarshalBlobTx marshal tx blobs = Inr enc"
    and "blobs \<noteq> []" "\<forall>b\<in>set blobs. length (blob_NamespaceId b) = 28"
  shows "UnmarshalBlobTx unmarshal enc =
    (\<lparr>btx_Tx = tx, btx_Blobs = blobs, btx_TypeId = ProtoBlobTxTypeID\<rparr>, True)"
  using assms by (auto simp: UnmarshalBlobTx_def MarshalBlobTx_def list_ex_iff)

end
