(* ===== verification/ShareSequence.thy ===== *)
theory ShareSequence
  imports Blob
begin

text \<open>
  \<^verbatim>\<open>pkg/shares/share_sequence.go\<close>, \<^verbatim>\<open>range.go\<close>, \<^verbatim>\<open>namespace.go\<close> and \<^verbatim>\<open>ParseShares\<close> of \<^verbatim>\<open>parse.go\<close>: the
  sequences a square is made of, the number of shares a length needs, and the share range of a
  namespace. \<^verbatim>\<open>SparseSharesNeeded\<close> compares the available bytes after truncating them to 32 bits;
  the loop is a partial function, so that its one non-terminating input is visible.
\<close>

section \<open>Shares needed for a sequence\<close>

function CompactSharesNeeded_loop :: "int \<Rightarrow> int \<Rightarrow> int \<Rightarrow> int" where
  "CompactSharesNeeded_loop sequenceLen bytesAvailable sharesNeeded =
     (if bytesAvailable < sequenceLen
      then CompactSharesNeeded_loop sequenceLen
             (bytesAvailable + int ContinuationCompactShareContentSize) (sharesNeeded + 1)
      else sharesNeeded)"
  by pat_completeness auto
termination
  by (relation "measure (\<lambda>(n, a, _). nat (n - a))") auto

declare CompactSharesNeeded_loop.simps [simp del]

definition CompactSharesNeeded :: "int \<Rightarrow> int" where
  "CompactSharesNeeded sequenceLen =
     (if sequenceLen = 0 then 0
      else if sequenceLen < int FirstCompactShareContentSize then 1
      else CompactSharesNeeded_loop sequenceLen (int FirstCompactShareContentSize) 1)"

partial_function (option) SparseSharesNeeded_loop :: "uint32 \<Rightarrow> int \<Rightarrow> int \<Rightarrow> int option" where
  [code]: "SparseSharesNeeded_loop sequenceLen bytesAvailable sharesNeeded =
     (if word_of_int bytesAvailable < sequenceLen
      then SparseSharesNeeded_loop sequenceLen
             (bytesAvailable + int ContinuationSparseShareContentSize) (sharesNeeded + 1)
      else Some sharesNeeded)"

definition SparseSharesNeeded :: "uint32 \<Rightarrow> int result" where
  "SparseSharesNeeded sequenceLen =
     (if sequenceLen = 0 then Inr 0
      else if sequenceLen < of_nat FirstSparseShareContentSize then Inr 1
      else of_loop (SparseSharesNeeded_loop sequenceLen (int FirstSparseShareContentSize) 1))"

section \<open>Share sequences\<close>

record ShareSequence =
  seq_Namespace :: Namespace
  seq_Shares :: "Share list"

definition SequenceLen_seq :: "ShareSequence \<Rightarrow> uint32 result" where
  "SequenceLen_seq s =
     (if length (seq_Shares s) = 0
      then Inl (Err ''invalid sequence length because share sequence has no shares'')
      else SequenceLen_sh (hd (seq_Shares s)))"

definition RawData_seq :: "ShareSequence \<Rightarrow> bytes result" where
  "RawData_seq s =
     bindR (foldR (\<lambda>share d. bindR (RawData share) (\<lambda>raw. Inr (d @ raw))) (seq_Shares s) []) (\<lambda>d.
     bindR (SequenceLen_seq s) (\<lambda>sequenceLen. slice_upto d (unat sequenceLen)))"

definition isPadding_seq :: "ShareSequence \<Rightarrow> bool result" where
  "isPadding_seq s =
     (if length (seq_Shares s) \<noteq> 1 then Inr False else IsPadding (hd (seq_Shares s)))"

definition numberOfSharesNeeded :: "Share \<Rightarrow> int result" where
  "numberOfSharesNeeded firstShare =
     bindR (SequenceLen_sh firstShare) (\<lambda>sequenceLen.
     bindR (IsCompactShare firstShare) (\<lambda>isCompact.
       if isCompact then Inr (CompactSharesNeeded (uint sequenceLen))
       else SparseSharesNeeded sequenceLen))"

definition validSequenceLen :: "ShareSequence \<Rightarrow> unit result" where
  "validSequenceLen s =
     (if length (seq_Shares s) = 0
      then Inl (Err ''invalid sequence length because share sequence has no shares'')
      else bindR (isPadding_seq s) (\<lambda>isPadding.
        if isPadding then Inr ()
        else bindR (numberOfSharesNeeded (hd (seq_Shares s))) (\<lambda>sharesNeeded.
          if int (length (seq_Shares s)) \<noteq> sharesNeeded
          then Inl (Err ''share sequence has a different number of shares than needed'')
          else Inr ())))"

section \<open>Parsing shares into sequences\<close>

definition ParseShares_step ::
    "Share \<Rightarrow> ShareSequence list \<times> ShareSequence \<Rightarrow> (ShareSequence list \<times> ShareSequence) result" where
  "ParseShares_step share st =
     (let (sequences, currentSequence) = st in
      bindR (Validate_sh share) (\<lambda>_.
      bindR (IsSequenceStart_sh share) (\<lambda>isStart.
      bindR (Namespace_sh share) (\<lambda>ns.
        if isStart then
          Inr ((if length (seq_Shares currentSequence) > 0 then sequences @ [currentSequence]
                else sequences),
               \<lparr>seq_Namespace = ns, seq_Shares = [share]\<rparr>)
        else if Bytes_ns (seq_Namespace currentSequence) \<noteq> Bytes_ns ns
        then Inl (Err ''share sequence has inconsistent namespace IDs with share'')
        else Inr (sequences, currentSequence\<lparr>seq_Shares := seq_Shares currentSequence @ [share]\<rparr>)))))"

definition ParseShares_filter ::
    "bool \<Rightarrow> ShareSequence \<Rightarrow> ShareSequence list \<Rightarrow> ShareSequence list result" where
  "ParseShares_filter ignorePadding s res =
     bindR (isPadding_seq s) (\<lambda>isPadding.
       if ignorePadding \<and> isPadding then Inr res else Inr (res @ [s]))"

definition ParseShares :: "Share list \<Rightarrow> bool \<Rightarrow> ShareSequence list result" where
  "ParseShares shares ignorePadding =
     bindR (foldR ParseShares_step shares ([], \<lparr>seq_Namespace = Namespace 0 [], seq_Shares = []\<rparr>))
       (\<lambda>(sequences, currentSequence).
          let sequences = (if length (seq_Shares currentSequence) > 0
                           then sequences @ [currentSequence] else sequences)
          in bindR (foldR (\<lambda>s _. validSequenceLen s) sequences ()) (\<lambda>_.
             foldR (ParseShares_filter ignorePadding) sequences []))"

section \<open>Ranges\<close>

record Range =
  Start :: int
  End :: int

definition NewRange :: "int \<Rightarrow> int \<Rightarrow> Range" where
  "NewRange start en = \<lparr>Start = start, End = en\<rparr>"

definition EmptyRange :: Range where
  "EmptyRange = \<lparr>Start = 0, End = 0\<rparr>"

definition IsEmpty_range :: "Range \<Rightarrow> bool" where
  "IsEmpty_range r \<longleftrightarrow> Start r = 0 \<and> End r = 0"

definition Add_range :: "Range \<Rightarrow> int \<Rightarrow> Range" where
  "Add_range r v = \<lparr>Start = Start r + v, End = End r + v\<rparr>"

fun GetShareRange_loop :: "Namespace \<Rightarrow> Share list \<Rightarrow> int \<Rightarrow> int \<Rightarrow> Range result" where
  "GetShareRange_loop ns [] i start =
     Inr (if start = -1 then EmptyRange else NewRange start i)"
| "GetShareRange_loop ns (share # shares) i start =
     bindR (Namespace_sh share) (\<lambda>shareNS.
       if IsGreaterThan shareNS ns \<and> start \<noteq> -1 then Inr (NewRange start i)
       else GetShareRange_loop ns shares (i + 1)
              (if Equals_ns ns shareNS \<and> start = -1 then i else start))"

definition GetShareRangeForNamespace :: "Share list \<Rightarrow> Namespace \<Rightarrow> Range result" where
  "GetShareRangeForNamespace shares ns =
     (if length shares = 0 then Inr EmptyRange
      else bindR (Namespace_sh (hd shares)) (\<lambda>n0.
        if IsLessThan ns n0 then Inr EmptyRange
        else bindR (Namespace_sh (last shares)) (\<lambda>n1.
          if IsGreaterThan ns n1 then Inr EmptyRange
          else GetShareRange_loop ns shares 0 (-1))))"

section \<open>Capacity and need\<close>

text \<open>
  \<open>capacity f c k\<close> is how many bytes \<open>k\<close> shares hold when the first holds \<open>f\<close> and the others \<open>c\<close>;
  \<open>needed f c n\<close> is the least number of shares that hold \<open>n\<close> bytes.
\<close>

definition capacity :: "nat \<Rightarrow> nat \<Rightarrow> nat \<Rightarrow> nat" where
  "capacity f c k = (if k = 0 then 0 else f + (k - 1) * c)"

definition needed :: "nat \<Rightarrow> nat \<Rightarrow> nat \<Rightarrow> nat" where
  "needed f c n = (if n = 0 then 0 else 1 + (n - f + c - 1) div c)"

locale share_layout =
  fixes f c :: nat
  assumes first_pos: "0 < f" and cont_pos: "0 < c"
begin

lemma needed_le_iff: "needed f c n \<le> k \<longleftrightarrow> n \<le> capacity f c k"
proof (cases "n = 0 \<or> k = 0")
  case True
  then show ?thesis using first_pos by (auto simp: needed_def capacity_def)
next
  case False
  have "(n - f + c - 1) div c \<le> k - 1 \<longleftrightarrow> n - f + c - 1 < k * c"
    using False cont_pos by (metis Suc_diff_1 less_Suc_eq_le less_mult_imp_div_less
        div_less_iff_less_mult neq0_conv)
  also have "\<dots> \<longleftrightarrow> n - f \<le> (k - 1) * c"
    using False cont_pos by (cases k) auto
  finally show ?thesis
    using False by (auto simp: needed_def capacity_def)
qed

lemma needed_mono: "m \<le> n \<Longrightarrow> needed f c m \<le> needed f c n"
  using needed_le_iff by (meson le_refl le_trans)

lemma needed_capacity: "needed f c (capacity f c k) = k"
proof (rule antisym)
  show "needed f c (capacity f c k) \<le> k" by (simp add: needed_le_iff)
  have "\<not> needed f c (capacity f c k) \<le> k - 1" if "0 < k"
    unfolding needed_le_iff using that first_pos cont_pos by (cases k) (auto simp: capacity_def)
  then show "k \<le> needed f c (capacity f c k)" by (cases k) auto
qed

lemma needed_pos: "0 < n \<Longrightarrow> 0 < needed f c n"
  by (simp add: needed_def)

lemma needed_zero_iff [simp]: "needed f c n = 0 \<longleftrightarrow> n = 0"
  by (simp add: needed_def)

lemma needed_one: "0 < n \<Longrightarrow> n \<le> f \<Longrightarrow> needed f c n = 1"
  using cont_pos by (simp add: needed_def)

lemma needed_step: "f < n \<Longrightarrow> needed f c n = 1 + needed c c (n - f)"
proof -
  assume "f < n"
  moreover have "(n - f + c - 1) div c = 1 + (n - f - c + c - 1) div c" if "c < n - f"
    using that cont_pos by (simp add: div_if)
  moreover have "(n - f + c - 1) div c = 1" if "n - f \<le> c"
    using that cont_pos \<open>f < n\<close> by (subst div_if) auto
  ultimately show ?thesis
    using first_pos cont_pos by (cases "c < n - f") (auto simp: needed_def)
qed

end

interpretation compact_layout: share_layout FirstCompactShareContentSize
    ContinuationCompactShareContentSize
  by unfold_locales simp_all

interpretation sparse_layout: share_layout FirstSparseShareContentSize
    ContinuationSparseShareContentSize
  by unfold_locales simp_all

interpretation cont_layout: share_layout ContinuationSparseShareContentSize
    ContinuationSparseShareContentSize
  by unfold_locales simp_all

lemma AvailableBytes_capacity:
  "AvailableBytesFromCompactShares (int k) = int (capacity 474 478 k)"
  "AvailableBytesFromSparseShares (int k) = int (capacity 478 482 k)"
  by (cases k; simp add: AvailableBytesFromCompactShares_def AvailableBytesFromSparseShares_def
      capacity_def)+

text \<open>The loop adds one share per continuation capacity until the length fits.\<close>

lemma CompactSharesNeeded_loop_eq:
  "CompactSharesNeeded_loop n a s = s + (if a < n then (n - a + 477) div 478 else 0)"
proof (induction n a s rule: CompactSharesNeeded_loop.induct)
  case (1 n a s)
  show ?case
  proof (cases "a < n")
    case True
    have "(n - a + 477) div 478 = 1 + (if a + 478 < n then (n - (a + 478) + 477) div 478 else 0)"
      using True by auto
    then show ?thesis
      using True 1 by (subst CompactSharesNeeded_loop.simps) simp
  qed (simp add: CompactSharesNeeded_loop.simps)
qed

lemma CompactSharesNeeded_needed: "CompactSharesNeeded (int n) = int (needed 474 478 n)"
proof (cases "474 < n")
  case True
  then have "int (n - 474) = int n - 474" by simp
  then show ?thesis
    using True by (simp add: CompactSharesNeeded_def CompactSharesNeeded_loop_eq needed_def
        zdiv_int algebra_simps)
qed (auto simp: CompactSharesNeeded_def CompactSharesNeeded_loop_eq needed_def)

lemma trunc32_less_iff:
  assumes "m < 2 ^ 32"
  shows "(word_of_int (int m) :: uint32) < n \<longleftrightarrow> m < unat n"
proof -
  have "uint (word_of_int (int m) :: uint32) = int m"
    using assms unfolding uint_word_of_int by simp
  then show ?thesis
    unfolding word_less_def uint_nat by (simp only: of_nat_less_iff)
qed

lemma SparseSharesNeeded_loop_eq:
  assumes K: "unat n \<le> 478 + 482 * K" "478 + 482 * K < 2 ^ 32" and k: "k \<le> K"
  shows "SparseSharesNeeded_loop n (int (478 + 482 * k)) s
    = Some (s + int (if 478 + 482 * k < unat n then (unat n - (478 + 482 * k) + 481) div 482 else 0))"
  using k
proof (induction "K - k" arbitrary: k s)
  case 0
  then show ?case
    using K by (subst SparseSharesNeeded_loop.simps) (simp only: trunc32_less_iff, simp)
next
  case (Suc d)
  define m where "m = 478 + 482 * k"
  have m: "m < 2 ^ 32" "m + 482 = 478 + 482 * Suc k"
    using Suc.prems K(2) unfolding m_def by simp_all
  have "SparseSharesNeeded_loop n (int (m + 482)) (s + 1)
    = Some (s + 1 + int (if m + 482 < unat n then (unat n - (m + 482) + 481) div 482 else 0))"
    unfolding m(2) by (rule Suc.hyps(1)) (use Suc.hyps(2) in auto)
  moreover have "(unat n - m + 481) div 482
      = 1 + (if m + 482 < unat n then (unat n - (m + 482) + 481) div 482 else 0)" if "m < unat n"
    using that by auto
  ultimately show ?case
    unfolding m_def [symmetric]
    by (subst SparseSharesNeeded_loop.simps) (simp only: trunc32_less_iff [OF m(1)], simp)
qed

text \<open>
  For every length up to \<^verbatim>\<open>4294967036\<close>, the largest capacity below $2^{32}$, the count is the least
  sufficient one.
\<close>

definition MaxSparseLen :: nat where "MaxSparseLen = 4294967036"

lemma SparseSharesNeeded_needed:
  assumes "unat n \<le> MaxSparseLen"
  shows "SparseSharesNeeded n = Inr (int (needed 478 482 (unat n)))"
proof -
  have "SparseSharesNeeded_loop n (int (478 + 482 * 0)) 1
    = Some (1 + int (if 478 + 482 * 0 < unat n then (unat n - (478 + 482 * 0) + 481) div 482 else 0))"
    by (rule SparseSharesNeeded_loop_eq [where K = 8910719])
      (use assms in \<open>simp_all add: MaxSparseLen_def\<close>)
  moreover have "n = 0 \<longleftrightarrow> unat n = 0" "n < 478 \<longleftrightarrow> unat n < 478"
    by (simp_all add: word_unat_eq_iff word_less_nat_alt)
  ultimately show ?thesis
    by (auto simp: SparseSharesNeeded_def needed_def)
qed

text \<open>
  The available bytes are always even, so no value of them truncated to 32 bits reaches
  \<^verbatim>\<open>0xFFFFFFFF\<close>: at that length the loop never ends.
\<close>

lemma even_word_less_max:
  assumes "even a"
  shows "(word_of_int a :: uint32) < 0xFFFFFFFF"
proof -
  have "even (a mod 2 ^ 32)" using assms by (simp add: dvd_mod_iff)
  moreover have "0 \<le> a mod 2 ^ 32" "a mod 2 ^ 32 < 2 ^ 32" by simp_all
  ultimately have "a mod 2 ^ 32 < 4294967295"
    by (cases "a mod 2 ^ 32 = 4294967295") auto
  then show ?thesis
    unfolding word_less_def uint_word_of_int by simp
qed

lemma SparseSharesNeeded_loop_returns:
  assumes "SparseSharesNeeded_loop n a s = Some r" "even a"
  shows "n \<noteq> 0xFFFFFFFF"
proof -
  have "even a \<longrightarrow> n \<noteq> 0xFFFFFFFF"
    by (rule SparseSharesNeeded_loop.raw_induct
        [where P = "\<lambda>n a s r. even a \<longrightarrow> n \<noteq> 0xFFFFFFFF", OF _ assms(1)])
      (auto split: if_splits simp: even_word_less_max)
  with assms(2) show ?thesis by simp
qed

lemma SparseSharesNeeded_stuck: "SparseSharesNeeded 0xFFFFFFFF = Inl Diverge"
  using SparseSharesNeeded_loop_returns [of "0xFFFFFFFF" 478 1]
  by (cases "SparseSharesNeeded_loop 0xFFFFFFFF 478 1") (simp_all add: SparseSharesNeeded_def)

section \<open>The range of a namespace\<close>

lemma GetShareRange_loop_found:
  assumes "list_all2 (\<lambda>s n. Namespace_sh s = Inr n) shares nss" "start \<noteq> -1"
  shows "GetShareRange_loop ns shares i start =
    Inr (NewRange start (i + int (length (takeWhile (\<lambda>n. n \<le> ns) nss))))"
  using assms
  by (induction shares nss arbitrary: i rule: list_all2_induct)
    (auto simp: ns_order not_le add.assoc)

lemma GetShareRange_loop_search:
  assumes "list_all2 (\<lambda>s n. Namespace_sh s = Inr n) shares nss" "sorted nss" "0 \<le> i"
  shows "GetShareRange_loop ns shares i (-1) =
    Inr (if ns \<in> set nss
         then NewRange (i + int (length (takeWhile (\<lambda>n. n < ns) nss)))
                       (i + int (length (takeWhile (\<lambda>n. n \<le> ns) nss)))
         else EmptyRange)"
  using assms
proof (induction shares nss arbitrary: i rule: list_all2_induct)
  case (Cons s shares n nss)
  show ?case
  proof (cases "ns = n")
    case True
    then show ?thesis
      using Cons.hyps Cons.prems GetShareRange_loop_found [OF Cons.hyps(2), of i ns "i + 1"]
      by (simp add: ns_order add.assoc)
  next
    case False
    moreover have "ns < n \<Longrightarrow> ns \<notin> set nss" using Cons.prems(1) by auto
    ultimately show ?thesis
      using Cons.hyps Cons.IH [of "i + 1"] Cons.prems by (auto simp: ns_order add.assoc)
  qed
qed simp

lemma sorted_in_range_iff:
  assumes "sorted nss" "j < length nss"
  shows "length (takeWhile (\<lambda>n. n < ns) nss) \<le> j \<and> j < length (takeWhile (\<lambda>n. n \<le> ns) nss)
     \<longleftrightarrow> nss ! j = ns"
  using assms
proof (induction nss arbitrary: j)
  case (Cons n nss)
  then have le: "n \<le> nss ! k" if "k < length nss" for k
    using that by simp
  then have "takeWhile (\<lambda>m. m < n) nss = []"
    using le [of 0] by (cases nss) (simp_all add: not_less)
  then show ?case
    using Cons le by (cases j) (auto simp: not_less not_le leD)
qed simp

lemma GetShareRangeForNamespace_range:
  assumes all: "list_all2 (\<lambda>s n. Namespace_sh s = Inr n) shares nss" and "sorted nss"
  shows "GetShareRangeForNamespace shares ns =
    Inr (if ns \<in> set nss
         then NewRange (int (length (takeWhile (\<lambda>n. n < ns) nss)))
                       (int (length (takeWhile (\<lambda>n. n \<le> ns) nss)))
         else EmptyRange)"
proof (cases "shares = []")
  case False
  then have "nss \<noteq> []" using all by auto
  have "Namespace_sh (hd shares) = Inr (hd nss)" "Namespace_sh (last shares) = Inr (last nss)"
    using all False by (auto simp: list_all2_conv_all_nth hd_conv_nth last_conv_nth \<open>nss \<noteq> []\<close>)
  moreover have "ns \<in> set nss \<Longrightarrow> hd nss \<le> ns \<and> ns \<le> last nss"
    using \<open>sorted nss\<close> \<open>nss \<noteq> []\<close>
    by (metis hd_conv_nth in_set_conv_nth last_conv_nth diff_le_self less_Suc_eq_le
        Suc_diff_1 length_greater_0_conv sorted_nth_mono zero_le diff_less zero_less_one)
  ultimately show ?thesis
    using GetShareRange_loop_search [OF all \<open>sorted nss\<close>, of 0 ns] False
    by (auto simp: GetShareRangeForNamespace_def ns_order not_le)
qed (use all in \<open>simp add: GetShareRangeForNamespace_def\<close>)

section \<open>Sequences partition the shares\<close>

text \<open>
  What the parser promises of a sequence: one start share followed by continuation shares, all
  full-size and in the sequence's namespace.
\<close>

definition sequence_ok :: "ShareSequence \<Rightarrow> bool" where
  "sequence_ok q \<longleftrightarrow>
     seq_Shares q \<noteq> []
     \<and> IsSequenceStart_sh (hd (seq_Shares q)) = Inr True
     \<and> (\<forall>s\<in>set (tl (seq_Shares q)). IsSequenceStart_sh s = Inr False)
     \<and> (\<forall>s\<in>set (seq_Shares q). Namespace_sh s = Inr (seq_Namespace q) \<and> Validate_sh s = Inr ())"

definition parse_inv :: "Share list \<Rightarrow> ShareSequence list \<times> ShareSequence \<Rightarrow> bool" where
  "parse_inv done st \<longleftrightarrow>
     concat (map seq_Shares (fst st)) @ seq_Shares (snd st) = done
     \<and> list_all sequence_ok (fst st)
     \<and> (if seq_Shares (snd st) = [] then seq_Namespace (snd st) = Namespace 0 []
        else sequence_ok (snd st))"

lemma Namespace_sh_valid: "Namespace_sh s = Inr n \<Longrightarrow> valid_ns n"
  by (auto simp: Namespace_sh_def From_ns_iff split: if_splits)

lemma ParseShares_step_inv:
  assumes "parse_inv done st" "ParseShares_step share st = Inr st'"
  shows "parse_inv (done @ [share]) st'"
proof -
  obtain qs c where st: "st = (qs, c)" by force
  from assms(2) obtain start ns where
    sh: "Validate_sh share = Inr ()" "IsSequenceStart_sh share = Inr start" "Namespace_sh share = Inr ns"
    by (auto simp: ParseShares_step_def st result_simps)
  show ?thesis
  proof (cases start)
    case True
    with assms sh show ?thesis
      by (auto simp: ParseShares_step_def st parse_inv_def sequence_ok_def split: if_splits)
  next
    case False
    have "ns \<noteq> Namespace 0 []" using Namespace_sh_valid [OF sh(3)] by (auto simp: valid_ns_def)
    with False assms sh have c: "seq_Namespace c = ns" "seq_Shares c \<noteq> []" "sequence_ok c"
      and st': "st' = (qs, c\<lparr>seq_Shares := seq_Shares c @ [share]\<rparr>)"
      by (auto simp: ParseShares_step_def st parse_inv_def split: if_splits)
    then have "sequence_ok (c\<lparr>seq_Shares := seq_Shares c @ [share]\<rparr>)"
      using sh False by (auto simp: sequence_ok_def)
    with c st' assms(1) show ?thesis by (auto simp: parse_inv_def st)
  qed
qed

lemma ParseShares_filter_all:
  "foldR (ParseShares_filter ignore) qs acc = Inr res \<Longrightarrow>
   res = acc @ filter (\<lambda>q. \<not> (ignore \<and> isPadding_seq q = Inr True)) qs"
proof (induction qs arbitrary: acc)
  case (Cons q qs)
  then obtain acc' where step: "ParseShares_filter ignore q acc = Inr acc'"
    and "foldR (ParseShares_filter ignore) qs acc' = Inr res"
    by (auto simp: result_simps)
  moreover from step obtain p where p: "isPadding_seq q = Inr p"
      "acc' = (if ignore \<and> p then acc else acc @ [q])"
    by (auto simp: ParseShares_filter_def result_simps split: if_splits)
  ultimately show ?case using Cons.IH [of acc'] by (auto split: if_splits)
qed simp

lemma ParseShares_sound:
  assumes "ParseShares shares ignore = Inr res"
  obtains all where
    "concat (map seq_Shares all) = shares" "list_all sequence_ok all"
    "\<forall>q\<in>set all. validSequenceLen q = Inr ()"
    "res = filter (\<lambda>q. \<not> (ignore \<and> isPadding_seq q = Inr True)) all"
proof -
  from assms obtain qs c where
    fold: "foldR ParseShares_step shares ([], \<lparr>seq_Namespace = Namespace 0 [], seq_Shares = []\<rparr>) = Inr (qs, c)"
    and rest: "let all = (if length (seq_Shares c) > 0 then qs @ [c] else qs)
       in foldR (\<lambda>s _. validSequenceLen s) all () = Inr () \<and> foldR (ParseShares_filter ignore) all [] = Inr res"
    by (auto simp: ParseShares_def result_simps Let_def)
  define all where "all = (if length (seq_Shares c) > 0 then qs @ [c] else qs)"
  have "parse_inv shares (qs, c)"
    by (rule foldR_prefix_invariant [OF fold])
      (auto simp: ParseShares_step_inv, simp add: parse_inv_def)
  then have "concat (map seq_Shares all) = shares" "list_all sequence_ok all"
    by (auto simp: parse_inv_def all_def split: if_splits)
  moreover have "\<forall>q\<in>set all. validSequenceLen q = Inr ()"
    "res = filter (\<lambda>q. \<not> (ignore \<and> isPadding_seq q = Inr True)) all"
    using rest ParseShares_filter_all [of ignore all "[]" res]
    unfolding Let_def all_def [symmetric] foldR_check_iff by auto
  ultimately show thesis by (rule that)
qed

end
