(* ===== verification/SparseShares.thy ===== *)
theory SparseShares
  imports ShareSequence
begin

text \<open>
  \<^verbatim>\<open>pkg/shares/split_sparse_shares.go\<close>, \<^verbatim>\<open>parse_sparse_shares.go\<close>, and \<^verbatim>\<open>SplitBlobs\<close>/\<^verbatim>\<open>ParseBlobs\<close>:
  blobs to shares and back. The write loop is a partial function; it is shown to return, and to
  write the layout \<open>sparse_layout_of\<close>. The parser then inverts every sequence of writes and
  paddings.
\<close>

section \<open>The splitter\<close>

record SparseShareSplitter =
  sss_shares :: "Share list"

definition NewSparseShareSplitter :: SparseShareSplitter where
  "NewSparseShareSplitter = \<lparr>sss_shares = []\<rparr>"

partial_function (option) Write_sss_loop ::
    "Namespace \<Rightarrow> byte \<Rightarrow> Builder \<Rightarrow> bytes \<Rightarrow> Share list \<Rightarrow> Share list result option" where
  [code]: "Write_sss_loop blobNamespace shareVersion b rawData shares =
     (case AddData b rawData of
        Inl e \<Rightarrow> Some (Inl e)
      | Inr (b, rawDataLeftOver) \<Rightarrow>
          (let b = (if rawDataLeftOver = None then fst (ZeroPadIfNecessary b) else b) in
           case Build_bd b of
             Inl e \<Rightarrow> Some (Inl e)
           | Inr share \<Rightarrow>
               (case NewBuilder blobNamespace shareVersion False of
                  Inl e \<Rightarrow> Some (Inl e)
                | Inr b \<Rightarrow>
                    (case rawDataLeftOver of
                       None \<Rightarrow> Some (Inr (shares @ [share]))
                     | Some rawData \<Rightarrow>
                         Write_sss_loop blobNamespace shareVersion b rawData (shares @ [share])))))"

definition Write_sss :: "SparseShareSplitter \<Rightarrow> Blob \<Rightarrow> SparseShareSplitter result" where
  "Write_sss sss blob =
     bindR (Validate_blob blob) (\<lambda>_.
       if ucast (blob_ShareVersion blob) \<notin> set SupportedShareVersions
       then Inl (Err ''unsupported share version'')
       else
         let rawData = blob_Data blob; blobNamespace = Namespace_blob blob;
             v = ucast (blob_ShareVersion blob) in
         bindR (NewBuilder blobNamespace v True) (\<lambda>b.
         bindR (WriteSequenceLen b (of_nat (length rawData))) (\<lambda>b.
         bindR (join_loop (Write_sss_loop blobNamespace v b rawData (sss_shares sss))) (\<lambda>shares.
           Inr (sss\<lparr>sss_shares := shares\<rparr>)))))"

definition WriteNamespacePaddingShares ::
    "SparseShareSplitter \<Rightarrow> int \<Rightarrow> SparseShareSplitter result" where
  "WriteNamespacePaddingShares sss cnt =
     (if cnt < 0 then Inl (Err ''cannot write negative namespaced shares'')
      else if cnt = 0 then Inr sss
      else if length (sss_shares sss) = 0
      then Inl (Err ''cannot write namespace padding shares on an empty SparseShareSplitter'')
      else
        let lastBlob = last (sss_shares sss) in
        bindR (Namespace_sh lastBlob) (\<lambda>lastBlobNs.
        bindR (InfoByte_sh lastBlob) (\<lambda>lastBlobInfo.
        bindR (NamespacePaddingShares lastBlobNs (Version_ib lastBlobInfo) cnt) (\<lambda>nsPaddingShares.
          Inr (sss\<lparr>sss_shares := sss_shares sss @ nsPaddingShares\<rparr>)))))"

definition Export_sss :: "SparseShareSplitter \<Rightarrow> Share list" where
  "Export_sss sss = sss_shares sss"

definition Count_sss :: "SparseShareSplitter \<Rightarrow> nat" where
  "Count_sss sss = length (sss_shares sss)"

definition SplitBlobs :: "Blob list \<Rightarrow> Share list result" where
  "SplitBlobs blobs =
     bindR (foldR (\<lambda>blob writer. Write_sss writer blob) blobs NewSparseShareSplitter) (\<lambda>writer.
       Inr (Export_sss writer))"

section \<open>The parser\<close>

record sequence =
  sq_blob :: Blob
  sq_sequenceLen :: uint32

definition parseSparse_step ::
    "byte list \<Rightarrow> Share \<Rightarrow> sequence list \<Rightarrow> sequence list result" where
  "parseSparse_step supportedShareVersions share sequences =
     bindR (Version_sh share) (\<lambda>version.
       if version \<notin> set supportedShareVersions then Inl (Err ''unsupported share version'')
       else bindR (IsPadding share) (\<lambda>isPadding.
         if isPadding then Inr sequences
         else bindR (IsSequenceStart_sh share) (\<lambda>isStart.
           if isStart then
             bindR (SequenceLen_sh share) (\<lambda>sequenceLen.
             bindR (RawData share) (\<lambda>d.
             bindR (Namespace_sh share) (\<lambda>ns.
               Inr (sequences @ [\<lparr>sq_blob = New_blob ns d version, sq_sequenceLen = sequenceLen\<rparr>]))))
           else if length sequences = 0
           then Inl (Err ''continuation share without a sequence start share'')
           else
             let prev = last sequences in
             bindR (RawData share) (\<lambda>d.
               Inr (butlast sequences @
                 [prev\<lparr>sq_blob := (sq_blob prev)\<lparr>blob_Data := blob_Data (sq_blob prev) @ d\<rparr>\<rparr>])))))"

definition trim_sequence :: "sequence \<Rightarrow> Blob result" where
  "trim_sequence q =
     bindR (slice_upto (blob_Data (sq_blob q)) (unat (sq_sequenceLen q))) (\<lambda>d.
       Inr ((sq_blob q)\<lparr>blob_Data := d\<rparr>))"

definition parseSparseShares :: "Share list \<Rightarrow> byte list \<Rightarrow> Blob list result" where
  "parseSparseShares shares supportedShareVersions =
     (if length shares = 0 then Inr []
      else bindR (foldR (parseSparse_step supportedShareVersions) shares []) (mapR trim_sequence))"

definition ParseBlobs :: "Share list \<Rightarrow> Blob list result" where
  "ParseBlobs shares = parseSparseShares shares SupportedShareVersions"

section \<open>The layout the splitter writes\<close>

definition pad_to :: "nat \<Rightarrow> bytes \<Rightarrow> bytes" where
  "pad_to n d = d @ zeros (n - length d)"

function cont_shares :: "Namespace \<Rightarrow> byte \<Rightarrow> bytes \<Rightarrow> Share list" where
  "cont_shares ns v d =
     (if d = [] then []
      else share_of ns v False (pad_to 482 (take 482 d)) # cont_shares ns v (drop 482 d))"
  by pat_completeness auto
termination
  by (relation "measure (\<lambda>(_, _, d). length d)") auto

declare cont_shares.simps [simp del]

definition sparse_shares_of :: "Namespace \<Rightarrow> byte \<Rightarrow> bytes \<Rightarrow> Share list" where
  "sparse_shares_of ns v d =
     share_of ns v True (PutUint32 (of_nat (length d)) @ pad_to 478 (take 478 d))
     # cont_shares ns v (drop 478 d)"

lemma length_pad_to [simp]: "length d \<le> n \<Longrightarrow> length (pad_to n d) = n"
  by (simp add: pad_to_def)

lemma length_cont_shares: "length (cont_shares ns v d) = needed 482 482 (length d)"
proof (induction ns v d rule: cont_shares.induct)
  case (1 ns v d)
  show ?case
  proof (cases "length d \<le> 482")
    case True
    then show ?thesis
      using cont_layout.needed_one [of "length d"]
      by (cases "d = []") (auto simp: cont_shares.simps needed_def)
  next
    case False
    then have "d \<noteq> []" by auto
    then show ?thesis
      using 1 False cont_layout.needed_step [of "length d"] by (simp add: cont_shares.simps)
  qed
qed

lemma length_sparse_shares_of:
  assumes "d \<noteq> []"
  shows "length (sparse_shares_of ns v d) = needed 478 482 (length d)"
proof (cases "478 < length d")
  case True
  then show ?thesis
    using sparse_layout.needed_step [of "length d"]
    by (simp add: sparse_shares_of_def length_cont_shares)
next
  case False
  then show ?thesis
    using assms sparse_layout.needed_one [of "length d"]
    by (simp add: sparse_shares_of_def length_cont_shares needed_def)
qed

lemma Build_share:
  "bd_rawShareData b = share_data s \<Longrightarrow> length (share_data s) = 512 \<Longrightarrow> Build_bd b = Inr s"
  by (cases s) (simp add: Build_bd_def NewShare_ok)

text \<open>One iteration on a builder whose header is written and whose payload is empty.\<close>

lemma Write_sss_loop_last:
  assumes "length (bd_rawShareData b) + length d \<le> 512" "v \<le> 127"
    and "\<lparr>share_data = bd_rawShareData b @ pad_to (512 - length (bd_rawShareData b)) d\<rparr> = s"
  shows "Write_sss_loop ns v b d shares = Some (Inr (shares @ [s]))"
proof -
  have "Build_bd (fst (ZeroPadIfNecessary (b\<lparr>bd_rawShareData := bd_rawShareData b @ d\<rparr>))) = Inr s"
    by (rule Build_share) (use assms in \<open>auto simp: ZeroPad_layout pad_to_def\<close>)
  then show ?thesis
    by (subst Write_sss_loop.simps) (simp add: AddData_fits [OF assms(1)] NewBuilder_eq [OF assms(2)])
qed

lemma Write_sss_loop_more:
  assumes "length (bd_rawShareData b) \<le> 512" "512 < length (bd_rawShareData b) + length d" "v \<le> 127"
    and "NewBuilder ns v False = Inr b'"
    and "k = 512 - length (bd_rawShareData b)" "s = \<lparr>share_data = bd_rawShareData b @ take k d\<rparr>"
  shows "Write_sss_loop ns v b d shares = Write_sss_loop ns v b' (drop k d) (shares @ [s])"
proof -
  have "Build_bd (b\<lparr>bd_rawShareData := bd_rawShareData b @ take k d\<rparr>) = Inr s"
    by (rule Build_share) (use assms in auto)
  then show ?thesis
    by (subst Write_sss_loop.simps) (simp add: AddData_overflows [OF assms(1,2)] assms(4,5))
qed

lemma Write_sss_loop_cont:
  assumes ns: "length (Bytes_ns ns) = 29" "\<not> compact_ns ns" and v: "v \<le> 127"
    and b: "NewBuilder ns v False = Inr b"
  shows "d \<noteq> [] \<Longrightarrow> Write_sss_loop ns v b d shares = Some (Inr (shares @ cont_shares ns v d))"
proof (induction "length d" arbitrary: d shares rule: less_induct)
  case less
  have raw: "bd_rawShareData b = Bytes_ns ns @ [push_bit 1 v]" "length (bd_rawShareData b) = 30"
    using b ns by (auto simp: NewBuilder_eq [OF v])
  show ?case
  proof (cases "length d \<le> 482")
    case True
    have "cont_shares ns v d = [share_of ns v False (pad_to 482 d)]"
      using True less.prems by (simp add: cont_shares.simps)
    then show ?thesis
      using Write_sss_loop_last [of b d v "share_of ns v False (pad_to 482 d)" ns shares] True v raw
      by (simp add: share_of_def)
  next
    case False
    have "Write_sss_loop ns v b d shares
        = Write_sss_loop ns v b (drop 482 d) (shares @ [share_of ns v False (take 482 d)])"
      using Write_sss_loop_more [of b d v ns b 482 "share_of ns v False (take 482 d)" shares]
        False v b raw by (simp add: share_of_def)
    also have "\<dots> = Some (Inr ((shares @ [share_of ns v False (take 482 d)]) @ cont_shares ns v (drop 482 d)))"
      by (rule less.hyps) (use False in auto)
    finally show ?thesis
      using False less.prems by (subst cont_shares.simps) (simp add: pad_to_def)
  qed
qed

lemma Write_sss_ok:
  assumes val: "Validate_blob blob = Inr ()" and sv: "blob_ShareVersion blob = 0"
    and nc: "\<not> compact_ns (Namespace_blob blob)"
  shows "Write_sss sss blob =
    Inr (sss\<lparr>sss_shares := sss_shares sss @ sparse_shares_of (Namespace_blob blob) 0 (blob_Data blob)\<rparr>)"
proof -
  let ?ns = "Namespace_blob blob" and ?d = "blob_Data blob"
  let ?h = "Bytes_ns ?ns @ [1]" and ?l = "PutUint32 (of_nat (length ?d))"
  have ns: "length (Bytes_ns ?ns) = 29" and d: "?d \<noteq> []"
    using val by (simp_all add: Validate_blob_iff Namespace_blob_def length_Bytes_ns)
  obtain b where b: "NewBuilder ?ns 0 True = Inr b" "bd_isFirstShare b" "bd_rawShareData b = ?h @ zeros 4 @ []"
    using NewBuilder_eq [of 0 ?ns True] nc by simp
  define b1 where "b1 = b\<lparr>bd_rawShareData := ?h @ ?l @ []\<rparr>"
  have w: "WriteSequenceLen b (of_nat (length ?d)) = Inr b1"
    unfolding b1_def by (rule WriteSequenceLen_layout [OF b(2,3)]) (use ns in simp_all)
  have raw: "bd_rawShareData b1 = ?h @ ?l" "length (bd_rawShareData b1) = 34"
    using ns by (simp_all add: b1_def)
  obtain b2 where b2: "NewBuilder ?ns 0 False = Inr b2" by (simp add: NewBuilder_eq)
  have "Write_sss_loop ?ns 0 b1 ?d (sss_shares sss)
      = Some (Inr (sss_shares sss @ sparse_shares_of ?ns 0 ?d))"
  proof (cases "length ?d \<le> 478")
    case True
    then show ?thesis
      using Write_sss_loop_last [of b1 ?d 0 "share_of ?ns 0 True (?l @ pad_to 478 ?d)" ?ns] raw
      by (simp add: share_of_def sparse_shares_of_def cont_shares.simps)
  next
    case False
    then have "Write_sss_loop ?ns 0 b1 ?d (sss_shares sss) = Write_sss_loop ?ns 0 b2 (drop 478 ?d)
        (sss_shares sss @ [share_of ?ns 0 True (?l @ take 478 ?d)])"
      using Write_sss_loop_more [of b1 ?d 0 ?ns b2 478 "share_of ?ns 0 True (?l @ take 478 ?d)"] raw b2
      by (simp add: share_of_def)
    then show ?thesis
      using Write_sss_loop_cont [OF ns nc _ b2, of "drop 478 ?d"] False
      by (simp add: sparse_shares_of_def pad_to_def)
  qed
  then show ?thesis
    using b(1) w val sv by (simp add: Write_sss_def)
qed

section \<open>Parsing inverts splitting\<close>

text \<open>The namespaces whose shares are data for the sparse parser.\<close>

definition user_ns :: "Namespace \<Rightarrow> bool" where
  "user_ns ns \<longleftrightarrow> valid_ns ns \<and> \<not> compact_ns ns \<and> ns \<noteq> TailPaddingNamespace
     \<and> ns \<noteq> PrimaryReservedPaddingNamespace"

definition user_blob :: "Blob \<Rightarrow> bool" where
  "user_blob b \<longleftrightarrow> Validate_blob b = Inr () \<and> blob_ShareVersion b = 0 \<and> user_ns (Namespace_blob b)
     \<and> length (blob_Data b) < 2 ^ 32"

lemma not_reserved_user_ns: "valid_ns ns \<Longrightarrow> \<not> IsReserved ns \<Longrightarrow> user_ns ns"
  by (simp add: user_ns_def not_reserved_named)

lemma parse_padding:
  "valid_ns ns \<Longrightarrow> 0 \<in> set vs \<Longrightarrow>
   parseSparse_step vs (share_of ns 0 True (PutUint32 0 @ r)) qs = Inr qs"
  by (simp add: parseSparse_step_def share_simps)

lemma parse_start:
  "user_ns ns \<Longrightarrow> 0 \<in> set vs \<Longrightarrow> n \<noteq> 0 \<Longrightarrow>
   parseSparse_step vs (share_of ns 0 True (PutUint32 n @ d)) qs =
     Inr (qs @ [\<lparr>sq_blob = New_blob ns d 0, sq_sequenceLen = n\<rparr>])"
  by (simp add: parseSparse_step_def user_ns_def share_simps)

lemma parse_cont:
  "user_ns ns \<Longrightarrow> 0 \<in> set vs \<Longrightarrow>
   parseSparse_step vs (share_of ns 0 False d) (qs @ [q]) =
     Inr (qs @ [q\<lparr>sq_blob := (sq_blob q)\<lparr>blob_Data := blob_Data (sq_blob q) @ d\<rparr>\<rparr>])"
  by (simp add: parseSparse_step_def user_ns_def share_simps)

lemma parse_cont_shares:
  assumes "user_ns ns" "0 \<in> set vs"
  shows "\<exists>z. foldR (parseSparse_step vs) (cont_shares ns 0 d) (qs @ [q]) =
    Inr (qs @ [q\<lparr>sq_blob := (sq_blob q)\<lparr>blob_Data := blob_Data (sq_blob q) @ d @ zeros z\<rparr>\<rparr>])"
proof (induction "length d" arbitrary: d q rule: less_induct)
  case less
  consider "d = []" | "d \<noteq> []" "length d \<le> 482" | "482 < length d" by force
  then show ?case
  proof cases
    case 3
    let ?q = "q\<lparr>sq_blob := (sq_blob q)\<lparr>blob_Data := blob_Data (sq_blob q) @ take 482 d\<rparr>\<rparr>"
    obtain z where "foldR (parseSparse_step vs) (cont_shares ns 0 (drop 482 d)) (qs @ [?q]) =
        Inr (qs @ [?q\<lparr>sq_blob := (sq_blob ?q)\<lparr>blob_Data :=
          blob_Data (sq_blob ?q) @ drop 482 d @ zeros z\<rparr>\<rparr>])"
      using less.hyps [of "drop 482 d" ?q] 3 by (metis (no_types, lifting) diff_less length_drop
          less_trans zero_less_numeral)
    moreover have "cont_shares ns 0 d = share_of ns 0 False (take 482 d) # cont_shares ns 0 (drop 482 d)"
      using 3 by (subst cont_shares.simps) (auto simp: pad_to_def)
    moreover have "take 482 d @ drop 482 d @ zeros z = d @ zeros z"
      by (metis append.assoc append_take_drop_id)
    ultimately show ?thesis
      using parse_cont [OF assms, of "take 482 d" qs q] by (intro exI [of _ z]) simp
  next
    case 2
    then have "cont_shares ns 0 d = [share_of ns 0 False (d @ zeros (482 - length d))]"
      by (simp add: cont_shares.simps pad_to_def)
    then show ?thesis using parse_cont [OF assms] by auto
  next
    case 1
    then show ?thesis by (auto simp: cont_shares.simps intro: exI [of _ 0])
  qed
qed

lemma parse_sparse_shares_of:
  assumes ns: "user_ns ns" "0 \<in> set vs" and d: "d \<noteq> []" "length d < 2 ^ 32"
  obtains q where
    "foldR (parseSparse_step vs) (sparse_shares_of ns 0 d) qs = Inr (qs @ [q])"
    "trim_sequence q = Inr (New_blob ns d 0)"
proof -
  let ?n = "of_nat (length d) :: uint32"
  have n: "unat ?n = length d" using d(2) by (simp add: unat_of_nat)
  then have "?n \<noteq> 0" using d(1) by (metis length_0_conv unat_0)
  let ?q = "\<lparr>sq_blob = New_blob ns (pad_to 478 (take 478 d)) 0, sq_sequenceLen = ?n\<rparr>"
  obtain z where z: "foldR (parseSparse_step vs) (cont_shares ns 0 (drop 478 d)) (qs @ [?q]) =
      Inr (qs @ [?q\<lparr>sq_blob := (sq_blob ?q)\<lparr>blob_Data :=
        blob_Data (sq_blob ?q) @ drop 478 d @ zeros z\<rparr>\<rparr>])"
    using parse_cont_shares [OF ns] by metis
  have "take (length d) (pad_to 478 (take 478 d) @ drop 478 d @ zeros z) = d"
    by (cases "length d \<le> 478") (auto simp: pad_to_def)
  moreover have "length d \<le> length (pad_to 478 (take 478 d) @ drop 478 d @ zeros z)"
    by (auto simp: pad_to_def)
  ultimately have "trim_sequence (?q\<lparr>sq_blob := (sq_blob ?q)\<lparr>blob_Data :=
        blob_Data (sq_blob ?q) @ drop 478 d @ zeros z\<rparr>\<rparr>) = Inr (New_blob ns d 0)"
    by (simp add: trim_sequence_def n New_blob_def)
  with z show thesis
    using parse_start [OF ns \<open>?n \<noteq> 0\<close>] by (intro that) (simp_all add: sparse_shares_of_def)
qed

text \<open>The calls a square makes on a splitter: writes of blobs and paddings between them.\<close>

datatype sparse_op = WriteBlob Blob | WritePadding int

fun run_sparse :: "sparse_op list \<Rightarrow> SparseShareSplitter \<Rightarrow> SparseShareSplitter result" where
  "run_sparse [] sss = Inr sss"
| "run_sparse (WriteBlob b # ops) sss = bindR (Write_sss sss b) (run_sparse ops)"
| "run_sparse (WritePadding n # ops) sss = bindR (WriteNamespacePaddingShares sss n) (run_sparse ops)"

fun blobs_of :: "sparse_op list \<Rightarrow> Blob list" where
  "blobs_of [] = []"
| "blobs_of (WriteBlob b # ops) = b # blobs_of ops"
| "blobs_of (WritePadding n # ops) = blobs_of ops"

text \<open>
  The shares of a splitter belong, in runs, to the namespaces of the blobs written: padding repeats
  the namespace before it.
\<close>

definition share_in :: "Namespace \<Rightarrow> Share \<Rightarrow> bool" where
  "share_in ns s \<longleftrightarrow> valid_ns ns \<and> (\<exists>st rest. s = share_of ns 0 st rest \<and> length rest = 482)"

definition ns_run :: "Namespace list \<Rightarrow> Share list \<Rightarrow> bool" where
  "ns_run bs shares \<longleftrightarrow> (\<exists>nss. list_all2 share_in nss shares \<and> remdups_adj nss = remdups_adj bs)"

definition sparse_inv :: "Blob list \<Rightarrow> Share list \<Rightarrow> bool" where
  "sparse_inv blobs shares \<longleftrightarrow>
     (\<exists>qs. foldR (parseSparse_step SupportedShareVersions) shares [] = Inr qs
           \<and> mapR trim_sequence qs = Inr blobs)
     \<and> ns_run (map Namespace_blob blobs) shares"

lemma sparse_inv_Nil [simp]: "sparse_inv [] []"
  by (simp add: sparse_inv_def ns_run_def)

lemma share_in_unique: "share_in ns s \<Longrightarrow> share_in ns' s \<Longrightarrow> ns = ns'"
  using share_of_inject [of ns ns'] by (auto simp: share_in_def valid_ns_def)

lemma share_in_pad [simp]: "share_in ns (share_of ns 0 True (PutUint32 0 @ zeros 478)) \<longleftrightarrow> valid_ns ns"
  unfolding share_in_def by (auto intro!: exI [of _ True] exI [of _ "PutUint32 0 @ zeros 478"])

lemma list_all2_last: "list_all2 P xs ys \<Longrightarrow> ys \<noteq> [] \<Longrightarrow> xs \<noteq> [] \<and> P (last xs) (last ys)"
  by (induction rule: list_all2_induct) auto

lemma remdups_adj_snoc:
  "remdups_adj (xs @ [x]) = (if xs \<noteq> [] \<and> last xs = x then remdups_adj xs else remdups_adj xs @ [x])"
  by (induction xs rule: remdups_adj.induct) auto

lemma remdups_adj_snoc_run: "remdups_adj (xs @ replicate (Suc k) x) = remdups_adj (xs @ [x])"
proof (induction k)
  case (Suc k)
  have "xs @ replicate (Suc (Suc k)) x = (xs @ replicate (Suc k) x) @ [x]"
    by (simp add: replicate_append_same)
  moreover have "last (xs @ replicate (Suc k) x) = x" by (induction k) auto
  ultimately have "remdups_adj (xs @ replicate (Suc (Suc k)) x) = remdups_adj (xs @ replicate (Suc k) x)"
    by (simp only: remdups_adj_snoc) simp
  then show ?case using Suc by simp
qed simp

lemma remdups_adj_last: "remdups_adj xs = remdups_adj ys \<Longrightarrow> xs \<noteq> [] \<Longrightarrow> ys \<noteq> [] \<and> last xs = last ys"
  by (metis last_remdups_adj remdups_adj_Nil_iff)

lemma ns_run_write:
  assumes "ns_run bs shares" "new \<noteq> []" "\<forall>s\<in>set new. share_in ns s"
  shows "ns_run (bs @ [ns]) (shares @ new)"
proof -
  obtain nss where nss: "list_all2 share_in nss shares" "remdups_adj nss = remdups_adj bs"
    using assms(1) by (auto simp: ns_run_def)
  obtain k where k: "length new = Suc k" using assms(2) by (cases new) auto
  have "list_all2 share_in (replicate (length new) ns) new"
    using assms(3) by (simp add: list_all2_conv_all_nth)
  then have "list_all2 share_in (nss @ replicate (Suc k) ns) (shares @ new)"
    using nss(1) k by (intro list_all2_appendI) auto
  moreover have "remdups_adj (nss @ [ns]) = remdups_adj (bs @ [ns])"
    using nss(2) remdups_adj_last by (metis remdups_adj_snoc remdups_adj_Nil_iff)
  ultimately show ?thesis unfolding ns_run_def using remdups_adj_snoc_run by metis
qed

lemma ns_run_pad:
  assumes "ns_run bs shares" "shares \<noteq> []" "share_in ns (last shares)"
  shows "ns_run bs (shares @ replicate k (share_of ns 0 True (PutUint32 0 @ zeros 478)))"
proof -
  obtain nss where nss: "list_all2 share_in nss shares" "remdups_adj nss = remdups_adj bs"
    using assms(1) by (auto simp: ns_run_def)
  then have "nss \<noteq> []" "share_in (last nss) (last shares)"
    using list_all2_last assms(2) by blast+
  then have l: "nss \<noteq> []" "last nss = ns" using share_in_unique assms(3) by auto
  have "valid_ns ns" using assms(3) by (simp add: share_in_def)
  then have "list_all2 share_in (nss @ replicate k ns)
      (shares @ replicate k (share_of ns 0 True (PutUint32 0 @ zeros 478)))"
    using nss(1) by (intro list_all2_appendI) (auto simp: list_all2_conv_all_nth)
  moreover have "remdups_adj (nss @ replicate k ns) = remdups_adj nss"
    using l remdups_adj_snoc_run [of nss _ ns] remdups_adj_snoc [of nss ns] by (cases k) auto
  ultimately show ?thesis using nss(2) unfolding ns_run_def by metis
qed

lemma cont_shares_layout:
  "s \<in> set (cont_shares ns v d) \<Longrightarrow> \<exists>rest. s = share_of ns v False rest \<and> length rest = 482"
proof (induction ns v d rule: cont_shares.induct)
  case (1 ns v d)
  then show ?case
    by (cases "d = []") (simp add: cont_shares.simps, auto simp: cont_shares.simps [of ns v d])
qed

lemma sparse_shares_of_layout:
  "s \<in> set (sparse_shares_of ns v d) \<Longrightarrow> \<exists>st rest. s = share_of ns v st rest \<and> length rest = 482"
  by (fastforce simp: sparse_shares_of_def dest: cont_shares_layout)

lemma user_blob_write:
  assumes "user_blob b"
  shows "Write_sss sss b = Inr (sss\<lparr>sss_shares := sss_shares sss
    @ sparse_shares_of (Namespace_blob b) 0 (blob_Data b)\<rparr>)"
  using assms Write_sss_ok by (simp add: user_blob_def user_ns_def)

lemma sparse_inv_write:
  assumes inv: "sparse_inv blobs (sss_shares sss)" and b: "user_blob b"
  shows "\<exists>sss'. Write_sss sss b = Inr sss' \<and> sparse_inv (blobs @ [b]) (sss_shares sss')"
proof -
  from inv obtain qs where qs:
    "foldR (parseSparse_step SupportedShareVersions) (sss_shares sss) [] = Inr qs"
    "mapR trim_sequence qs = Inr blobs"
    by (auto simp: sparse_inv_def)
  have "user_ns (Namespace_blob b)" "0 \<in> set SupportedShareVersions" "blob_Data b \<noteq> []"
      "length (blob_Data b) < 2 ^ 32"
    using b by (auto simp: user_blob_def Validate_blob_iff)
  then obtain q where q:
    "foldR (parseSparse_step SupportedShareVersions) (sparse_shares_of (Namespace_blob b) 0 (blob_Data b)) qs
      = Inr (qs @ [q])" "trim_sequence q = Inr (New_blob (Namespace_blob b) (blob_Data b) 0)"
    by (rule parse_sparse_shares_of)
  have "New_blob (Namespace_blob b) (blob_Data b) 0 = b"
    using New_blob_of_valid [of b] b by (simp add: user_blob_def)
  moreover have "ns_run (map Namespace_blob blobs @ [Namespace_blob b])
      (sss_shares sss @ sparse_shares_of (Namespace_blob b) 0 (blob_Data b))"
  proof (rule ns_run_write)
    show "ns_run (map Namespace_blob blobs) (sss_shares sss)" using inv by (simp add: sparse_inv_def)
    show "\<forall>s\<in>set (sparse_shares_of (Namespace_blob b) 0 (blob_Data b)). share_in (Namespace_blob b) s"
      using b sparse_shares_of_layout by (auto simp: share_in_def user_blob_def user_ns_def)
  qed (simp add: sparse_shares_of_def)
  ultimately show ?thesis
    using b qs q by (simp add: sparse_inv_def user_blob_write foldR_append mapR_append)
qed

lemma padding_ok:
  assumes inv: "sparse_inv blobs (sss_shares sss)" and n: "0 < n" "sss_shares sss \<noteq> []"
  shows "\<exists>ns. share_in ns (last (sss_shares sss)) \<and> WriteNamespacePaddingShares sss n =
    Inr (sss\<lparr>sss_shares := sss_shares sss @ replicate (nat n) (share_of ns 0 True (PutUint32 0 @ zeros 478))\<rparr>)"
proof -
  obtain nss where "list_all2 share_in nss (sss_shares sss)" using inv by (auto simp: sparse_inv_def ns_run_def)
  then have sh: "share_in (last nss) (last (sss_shares sss))"
    using n(2) list_all2_last by blast
  then obtain ns st rest where last: "ns = last nss" "valid_ns ns" "last (sss_shares sss) = share_of ns 0 st rest"
    by (auto simp: share_in_def)
  have v: "Version_ib (push_bit 1 0 + of_bool st :: byte) = 0"
    using info_byte_fields(1) [OF NewInfoByte_ok [of 0 st]] by simp
  show ?thesis
    using n sh last v NamespacePaddingShares_eq [of ns 0 "nat n"]
    by (intro exI [of _ ns])
      (simp add: WriteNamespacePaddingShares_def Let_def share_simps share_of_InfoByte)
qed

lemma sparse_inv_padded:
  assumes "sparse_inv blobs shares" "shares \<noteq> []" "share_in ns (last shares)"
  shows "sparse_inv blobs (shares @ replicate k (share_of ns 0 True (PutUint32 0 @ zeros 478)))"
proof -
  have "valid_ns ns" using assms(3) by (simp add: share_in_def)
  then   have "foldR (parseSparse_step SupportedShareVersions)
      (replicate k (share_of ns 0 True (PutUint32 0 @ zeros 478))) qs = Inr qs" for qs
    by (induction k) (simp_all add: parse_padding)
  then show ?thesis
    using assms ns_run_pad [OF _ assms(2,3)] unfolding sparse_inv_def by (fastforce simp: foldR_append)
qed

lemma sparse_inv_padding:
  assumes inv: "sparse_inv blobs (sss_shares sss)"
    and "WriteNamespacePaddingShares sss n = Inr sss'"
  shows "sparse_inv blobs (sss_shares sss')"
proof (cases "n = 0")
  case True
  then show ?thesis using assms by (simp add: WriteNamespacePaddingShares_def)
next
  case False
  then have "0 < n" "sss_shares sss \<noteq> []"
    using assms(2) by (auto simp: WriteNamespacePaddingShares_def split: if_splits)
  from padding_ok [OF inv this] assms(2) sparse_inv_padded [OF inv this(2)] show ?thesis by auto
qed

lemma sparse_inv_run:
  "run_sparse ops sss = Inr sss' \<Longrightarrow> sparse_inv blobs (sss_shares sss) \<Longrightarrow>
   \<forall>b\<in>set (blobs_of ops). user_blob b \<Longrightarrow> sparse_inv (blobs @ blobs_of ops) (sss_shares sss')"
proof (induction ops sss arbitrary: blobs rule: run_sparse.induct)
  case (2 b ops sss)
  then obtain s1 where s1: "Write_sss sss b = Inr s1" "run_sparse ops s1 = Inr sss'"
    by (auto simp: result_simps)
  then have "sparse_inv (blobs @ [b]) (sss_shares s1)"
    using sparse_inv_write [OF 2(3), of b] 2(4) by auto
  from "2.IH" [OF s1(1,2) this] 2(4) show ?case by simp
next
  case (3 n ops sss)
  then obtain s1 where s1: "WriteNamespacePaddingShares sss n = Inr s1" "run_sparse ops s1 = Inr sss'"
    by (auto simp: result_simps)
  then show ?case
    using sparse_inv_padding [OF 3(3) s1(1)] "3.IH" [OF s1] 3(4) by simp
qed simp

lemma ParseBlobs_of_inv: "sparse_inv blobs shares \<Longrightarrow> ParseBlobs shares = Inr blobs"
  by (auto simp: sparse_inv_def ParseBlobs_def parseSparseShares_def)

end
