(* ===== verification/CompactShares.thy ===== *)
theory CompactShares
  imports SparseShares
begin

text \<open>
  \<^verbatim>\<open>pkg/shares/counter.go\<close>, \<^verbatim>\<open>split_compact_shares.go\<close>, \<^verbatim>\<open>parse_compact_shares.go\<close>, and the
  transaction half of \<^verbatim>\<open>parse.go\<close> and \<^verbatim>\<open>share_splitting.go\<close>. Transactions are length-delimited and
  written one after the other across the shares of a reserved namespace. The counter predicts
  how many shares the splitter will make without writing them.
\<close>

section \<open>The counter\<close>

record CompactShareCounter =
  c_lastShares :: int
  c_lastRemainder :: int
  c_shares :: int
  c_remainder :: int

definition NewCompactShareCounter :: CompactShareCounter where
  "NewCompactShareCounter = \<lparr>c_lastShares = 0, c_lastRemainder = 0, c_shares = 0, c_remainder = 0\<rparr>"

text \<open>The three blocks of \<^verbatim>\<open>Add\<close>, each on the counter and the data length still to place.\<close>

definition Add_first :: "CompactShareCounter \<times> int \<Rightarrow> CompactShareCounter \<times> int" where
  "Add_first = (\<lambda>(c, dataLen).
     if c_shares c = 0 then
       if dataLen \<ge> int FirstCompactShareContentSize - c_remainder c
       then (c\<lparr>c_shares := c_shares c + 1, c_remainder := 0\<rparr>,
             dataLen - (int FirstCompactShareContentSize - c_remainder c))
       else (c\<lparr>c_remainder := c_remainder c + dataLen\<rparr>, 0)
     else (c, dataLen))"

definition Add_fill :: "CompactShareCounter \<times> int \<Rightarrow> CompactShareCounter \<times> int" where
  "Add_fill = (\<lambda>(c, dataLen).
     if dataLen \<ge> int ContinuationCompactShareContentSize - c_remainder c
     then (c\<lparr>c_shares := c_shares c + 1, c_remainder := 0\<rparr>,
           dataLen - (int ContinuationCompactShareContentSize - c_remainder c))
     else (c\<lparr>c_remainder := c_remainder c + dataLen\<rparr>, 0))"

definition Add_rest :: "CompactShareCounter \<times> int \<Rightarrow> CompactShareCounter" where
  "Add_rest = (\<lambda>(c, dataLen).
     if dataLen > 0
     then c\<lparr>c_shares := c_shares c + dataLen div int ContinuationCompactShareContentSize,
            c_remainder := dataLen mod int ContinuationCompactShareContentSize\<rparr>
     else c)"

definition Add_csc :: "CompactShareCounter \<Rightarrow> int \<Rightarrow> CompactShareCounter \<times> int" where
  "Add_csc c dataLen =
     (let dataLen = dataLen + int (DelimLen (word_of_int dataLen));
          c = c\<lparr>c_lastRemainder := c_remainder c, c_lastShares := c_shares c\<rparr>;
          c = Add_rest (Add_fill (Add_first (c, dataLen)));
          diff = c_shares c - c_lastShares c;
          diff = (if c_lastRemainder c = 0 \<and> c_remainder c > 0 then diff + 1
                  else if c_lastRemainder c > 0 \<and> c_remainder c = 0 then diff - 1 else diff)
      in (c, diff))"

definition Revert_csc :: "CompactShareCounter \<Rightarrow> CompactShareCounter" where
  "Revert_csc c = c\<lparr>c_shares := c_lastShares c, c_remainder := c_lastRemainder c\<rparr>"

definition Size_csc :: "CompactShareCounter \<Rightarrow> int" where
  "Size_csc c = (if c_remainder c = 0 then c_shares c else c_shares c + 1)"

definition Remainder_csc :: "CompactShareCounter \<Rightarrow> int" where
  "Remainder_csc c = c_remainder c"

section \<open>The splitter\<close>

text \<open>\<^verbatim>\<open>tx.Key()\<close>, the hash of a transaction, is the parameter \<open>key\<close>.\<close>

type_synonym TxKey = bytes

record CompactShareSplitter =
  css_shares :: "Share list"
  css_shareBuilder :: Builder
  css_namespace :: Namespace
  css_done :: bool
  css_shareVersion :: byte
  css_shareRanges :: "TxKey \<rightharpoonup> Range"

definition NewCompactShareSplitter :: "Namespace \<Rightarrow> byte \<Rightarrow> CompactShareSplitter result" where
  "NewCompactShareSplitter ns shareVersion =
     bindR (panic_on_error (NewBuilder ns shareVersion True)) (\<lambda>sb.
       Inr \<lparr>css_shares = [], css_shareBuilder = sb, css_namespace = ns, css_done = False,
            css_shareVersion = shareVersion, css_shareRanges = Map.empty\<rparr>)"

definition stackPending :: "CompactShareSplitter \<Rightarrow> CompactShareSplitter result" where
  "stackPending css =
     bindR (Build_bd (css_shareBuilder css)) (\<lambda>pendingShare.
     bindR (NewBuilder (css_namespace css) (css_shareVersion css) False) (\<lambda>b.
       Inr (css\<lparr>css_shares := css_shares css @ [pendingShare], css_shareBuilder := b\<rparr>)))"

partial_function (option) write_css_loop ::
    "CompactShareSplitter \<Rightarrow> bytes \<Rightarrow> CompactShareSplitter result option" where
  [code]: "write_css_loop css rawData =
     (case AddData (css_shareBuilder css) rawData of
        Inl e \<Rightarrow> Some (Inl e)
      | Inr (b, rawDataLeftOver) \<Rightarrow>
          (let css = css\<lparr>css_shareBuilder := b\<rparr> in
           case rawDataLeftOver of
             None \<Rightarrow> Some (Inr css)
           | Some rawData \<Rightarrow>
               (case stackPending css of
                  Inl e \<Rightarrow> Some (Inl e)
                | Inr css \<Rightarrow> write_css_loop css rawData)))"

definition write_css :: "CompactShareSplitter \<Rightarrow> bytes \<Rightarrow> CompactShareSplitter result" where
  "write_css css rawData =
     bindR (if css_done css then
              bindR (if \<not> IsEmptyShare (css_shareBuilder css) then
                       (if css_shares css = [] then Inl (Panic ''slice bounds out of range'')
                        else Inr (css\<lparr>css_shares := butlast (css_shares css)\<rparr>))
                     else Inr css) (\<lambda>css. Inr (css\<lparr>css_done := False\<rparr>))
            else Inr css) (\<lambda>css.
      bindR (MaybeWriteReservedBytes (css_shareBuilder css)) (\<lambda>b.
      bindR (join_loop (write_css_loop (css\<lparr>css_shareBuilder := b\<rparr>) rawData)) (\<lambda>css.
        if AvailableBytes_bd (css_shareBuilder css) = 0 then stackPending css else Inr css)))"

definition Count_css :: "CompactShareSplitter \<Rightarrow> nat" where
  "Count_css css =
     (if \<not> IsEmptyShare (css_shareBuilder css) \<and> \<not> css_done css
      then length (css_shares css) + 1 else length (css_shares css))"

definition MarshalDelimitedTx :: "bytes \<Rightarrow> bytes" where
  "MarshalDelimitedTx tx = PutUvarint (of_nat (length tx)) @ tx"

definition WriteTx ::
    "(bytes \<Rightarrow> TxKey) \<Rightarrow> CompactShareSplitter \<Rightarrow> bytes \<Rightarrow> CompactShareSplitter result" where
  "WriteTx key css tx =
     (let rawData = MarshalDelimitedTx tx; startShare = length (css_shares css) in
      bindR (write_css css rawData) (\<lambda>css.
        let endShare = Count_css css in
        Inr (css\<lparr>css_shareRanges :=
          (css_shareRanges css)(key tx \<mapsto> NewRange (int startShare) (int endShare))\<rparr>)))"

definition isEmpty_css :: "CompactShareSplitter \<Rightarrow> bool" where
  "isEmpty_css css \<longleftrightarrow> length (css_shares css) = 0 \<and> IsEmptyShare (css_shareBuilder css)"

definition sequenceLen_css :: "CompactShareSplitter \<Rightarrow> nat \<Rightarrow> uint32" where
  "sequenceLen_css css bytesOfPadding =
     (if length (css_shares css) = 0 then 0
      else if length (css_shares css) = 1
      then of_nat FirstCompactShareContentSize - of_nat bytesOfPadding
      else
        let continuationSharesCount = length (css_shares css) - 1;
            continuationSharesSequenceLen =
              continuationSharesCount * ContinuationCompactShareContentSize
        in word_of_int (int FirstCompactShareContentSize + int continuationSharesSequenceLen
             - int bytesOfPadding))"

definition writeSequenceLen_css ::
    "CompactShareSplitter \<Rightarrow> uint32 \<Rightarrow> CompactShareSplitter result" where
  "writeSequenceLen_css css sequenceLen =
     (if isEmpty_css css then Inr css
      else bindR (NewBuilder (css_namespace css) (css_shareVersion css) True) (\<lambda>b.
        bindR (index (css_shares css) 0) (\<lambda>s0.
        bindR (WriteSequenceLen (ImportRawShare b (ToBytes_sh s0)) sequenceLen) (\<lambda>b.
        bindR (Build_bd b) (\<lambda>firstShare.
          Inr (css\<lparr>css_shares := (css_shares css)[0 := firstShare]\<rparr>))))))"

definition Export_css :: "CompactShareSplitter \<Rightarrow> (CompactShareSplitter \<times> Share list) result" where
  "Export_css css =
     (if isEmpty_css css then Inr (css, [])
      else if css_done css then Inr (css, css_shares css)
      else
        bindR (if \<not> IsEmptyShare (css_shareBuilder css) then
                 (let (b, bytesOfPadding) = ZeroPadIfNecessary (css_shareBuilder css) in
                  bindR (stackPending (css\<lparr>css_shareBuilder := b\<rparr>)) (\<lambda>css.
                    Inr (css, bytesOfPadding)))
               else Inr (css, 0)) (\<lambda>(css, bytesOfPadding).
        let sequenceLen = sequenceLen_css css bytesOfPadding in
        bindR (writeSequenceLen_css css sequenceLen) (\<lambda>css.
          let css = css\<lparr>css_done := True\<rparr> in Inr (css, css_shares css))))"

definition ShareRanges_css :: "CompactShareSplitter \<Rightarrow> int \<Rightarrow> (TxKey \<rightharpoonup> Range)" where
  "ShareRanges_css css shareRangeOffset =
     (\<lambda>k. map_option (\<lambda>v. \<lparr>Start = Start v + shareRangeOffset, End = End v + shareRangeOffset\<rparr>)
            (css_shareRanges css k))"

section \<open>The parser\<close>

definition validateShareVersions :: "Share list \<Rightarrow> byte list \<Rightarrow> unit result" where
  "validateShareVersions shares supportedShareVersions =
     foldR (\<lambda>share _. DoesSupportVersions share supportedShareVersions) shares ()"

lemma length_ParseDelimiter:
  "ParseDelimiter d = Inr (rest, n) \<Longrightarrow> length rest \<le> length d"
  by (auto simp: ParseDelimiter_def Let_def slice_from_def result_simps split: if_splits)

function parseRawData :: "bytes \<Rightarrow> bytes list \<Rightarrow> bytes list result" where
  "parseRawData rawData units =
     (case ParseDelimiter rawData of
        Inl e \<Rightarrow> Inl e
      | Inr (actualData, unitLen) \<Rightarrow>
          if unitLen = 0 then Inr units
          else if unat unitLen > length actualData then Inr units
          else parseRawData (drop (unat unitLen) actualData)
                 (units @ [take (unat unitLen) actualData]))"
  by pat_completeness auto
termination
proof (relation "measure (\<lambda>(d, _). length d)")
  fix rawData actualData :: bytes and unitLen :: uint64 and units p
  assume "ParseDelimiter rawData = Inr p" "(actualData, unitLen) = p" "unitLen \<noteq> 0"
    "\<not> length actualData < unat unitLen"
  then show "((drop (unat unitLen) actualData, units @ [take (unat unitLen) actualData]), rawData, units)
      \<in> measure (\<lambda>(d, _). length d)"
    using length_ParseDelimiter [of rawData actualData unitLen] unat_gt_0 [of unitLen] by auto
qed simp

declare parseRawData.simps [simp del]

definition extractRawData :: "Share list \<Rightarrow> bytes result" where
  "extractRawData shares =
     (case shares of
        [] \<Rightarrow> Inr []
      | s0 # ss \<Rightarrow>
          bindR (RawDataUsingReserved s0) (\<lambda>raw0.
            foldR (\<lambda>s d. bindR (RawData s) (\<lambda>raw. Inr (d @ raw))) ss raw0))"

definition parseCompactShares :: "Share list \<Rightarrow> byte list \<Rightarrow> bytes list result" where
  "parseCompactShares shares supportedShareVersions =
     (if length shares = 0 then Inr []
      else bindR (validateShareVersions shares supportedShareVersions) (\<lambda>_.
           bindR (extractRawData shares) (\<lambda>rawData. parseRawData rawData [])))"

definition ParseTxs :: "Share list \<Rightarrow> bytes list result" where
  "ParseTxs shares = parseCompactShares shares SupportedShareVersions"

section \<open>Full shares and remainder of a stream\<close>

definition full_shares :: "nat \<Rightarrow> nat" where
  "full_shares n = (if n < 474 then 0 else 1 + (n - 474) div 478)"

definition open_bytes :: "nat \<Rightarrow> nat" where
  "open_bytes n = (if n < 474 then n else (n - 474) mod 478)"

lemma div478_up: "(m + 477) div 478 = m div 478 + (if m mod 478 = 0 then 0 else 1)" for m :: nat
proof -
  define q r where "q = m div 478" and "r = m mod 478"
  then have m: "m = 478 * q + r" "r < 478" by simp_all
  show ?thesis
  proof (cases "r = 0")
    case False
    then have "(m + 477) div 478 = q + 1" using m by (intro div_nat_eqI) auto
    with False show ?thesis by (simp add: q_def [symmetric] r_def [symmetric])
  next
    case True
    then have "(m + 477) div 478 = q" using m by (intro div_nat_eqI) auto
    with True show ?thesis by (simp add: q_def [symmetric] r_def [symmetric])
  qed
qed

lemma needed_compact: "needed 474 478 n = full_shares n + (if open_bytes n = 0 then 0 else 1)"
proof (cases "n < 474")
  case False
  then show ?thesis
    using div478_up [of "n - 474"] by (auto simp: needed_def full_shares_def open_bytes_def)
qed (simp add: needed_def full_shares_def open_bytes_def)

lemma open_bytes_less: "open_bytes n < (if full_shares n = 0 then 474 else 478)"
  by (simp add: open_bytes_def full_shares_def)

lemma stream_length: "n = capacity 474 478 (full_shares n) + open_bytes n"
  by (simp add: capacity_def full_shares_def open_bytes_def)

section \<open>The counter counts\<close>

lemma Add_pour:
  assumes "0 \<le> c_remainder c" "c_remainder c < 478" "0 \<le> d"
  shows "Add_rest (Add_fill (c, d)) =
    c\<lparr>c_shares := c_shares c + (c_remainder c + d) div 478, c_remainder := (c_remainder c + d) mod 478\<rparr>"
proof (cases "d \<ge> 478 - c_remainder c")
  case True
  define e where "e = d - (478 - c_remainder c)"
  then have "c_remainder c + d = e + 478" "0 \<le> e" using True by simp_all
  moreover have "Add_fill (c, d) = (c\<lparr>c_shares := c_shares c + 1, c_remainder := 0\<rparr>, e)"
    using True by (simp add: Add_fill_def e_def)
  ultimately show ?thesis by (auto simp: Add_rest_def)
next
  case False
  then show ?thesis using assms by (simp add: Add_rest_def Add_fill_def)
qed

lemma div_pour: "0 < c \<Longrightarrow> (m + d) div c = m div c + (m mod c + d) div c" for c m d :: nat
  using div_mult_self1 [of c "m mod c + d" "m div c"] by (simp add: algebra_simps)

text \<open>\<open>counts c n\<close>: the counter \<open>c\<close> stands for a stream of \<open>n\<close> bytes.\<close>

definition counts :: "CompactShareCounter \<Rightarrow> nat \<Rightarrow> bool" where
  "counts c n \<longleftrightarrow> c_shares c = int (full_shares n) \<and> c_remainder c = int (open_bytes n)"

definition unit_size :: "nat \<Rightarrow> nat" where
  "unit_size len = len + DelimLen (of_nat len)"

lemma counts_pour:
  assumes "counts c n"
  shows "counts (Add_rest (Add_fill (Add_first (c, int d)))) (n + d)"
proof (cases "n < 474")
  case True
  then have c: "c_shares c = 0" "c_remainder c = int n"
    using assms by (simp_all add: counts_def full_shares_def open_bytes_def)
  show ?thesis
  proof (cases "474 \<le> n + d")
    case first: True
    then have "Add_first (c, int d) = (c\<lparr>c_shares := 1, c_remainder := 0\<rparr>, int (n + d - 474))"
      using c by (auto simp: Add_first_def)
    then show ?thesis
      using first by (simp add: Add_pour counts_def full_shares_def open_bytes_def zdiv_int zmod_int)
  next
    case False
    then have "Add_first (c, int d) = (c\<lparr>c_remainder := int (n + d)\<rparr>, 0)"
      using c by (simp add: Add_first_def)
    then show ?thesis
      using False c by (simp add: Add_pour counts_def full_shares_def open_bytes_def)
  qed
next
  case False
  then have c: "c_shares c = 1 + int ((n - 474) div 478)" "c_remainder c = int ((n - 474) mod 478)"
    using assms by (simp_all add: counts_def full_shares_def open_bytes_def)
  then have "Add_first (c, int d) = (c, int d)" by (simp add: Add_first_def)
  moreover have "n + d - 474 = n - 474 + d" using False by simp
  then have "(n + d - 474) div 478 = (n - 474) div 478 + ((n - 474) mod 478 + d) div 478"
    "(n + d - 474) mod 478 = ((n - 474) mod 478 + d) mod 478"
    by (simp_all add: div_pour [of 478 "n - 474" d] mod_add_left_eq)
  ultimately show ?thesis
    using False
    by (simp add: Add_pour counts_def c full_shares_def open_bytes_def zdiv_int zmod_int)
qed

lemma counts_Add: "counts c n \<Longrightarrow> counts (fst (Add_csc c (int len))) (n + unit_size len)"
  using counts_pour [of "c\<lparr>c_lastRemainder := c_remainder c, c_lastShares := c_shares c\<rparr>" n "unit_size len"]
  by (simp add: Add_csc_def Let_def unit_size_def counts_def)

lemma counts_Size: "counts c n \<Longrightarrow> Size_csc c = int (needed 474 478 n)"
  by (simp add: counts_def Size_csc_def needed_compact)

lemma counts_New: "counts NewCompactShareCounter 0"
  by (simp add: counts_def NewCompactShareCounter_def full_shares_def open_bytes_def)

lemma Add_last:
  "c_lastShares (fst (Add_csc c d)) = c_shares c" "c_lastRemainder (fst (Add_csc c d)) = c_remainder c"
  by (simp_all add: Add_csc_def Let_def Add_rest_def Add_fill_def Add_first_def split: prod.splits)

lemma Add_diff:
  "c_remainder c \<ge> 0 \<Longrightarrow> c_remainder (fst (Add_csc c d)) \<ge> 0 \<Longrightarrow>
   snd (Add_csc c d) = Size_csc (fst (Add_csc c d)) - Size_csc c"
  using Add_last [of c d] by (auto simp: Add_csc_def Let_def Size_csc_def)

lemma Add_diff_counts:
  assumes "counts c n"
  shows "snd (Add_csc c (int len)) =
    int (needed 474 478 (n + unit_size len)) - int (needed 474 478 n)"
  using Add_diff [of c "int len"] assms counts_Add [OF assms, of len]
  by (simp add: counts_def Size_csc_def needed_compact)

lemma Revert_Add: "Size_csc (Revert_csc (fst (Add_csc c d))) = Size_csc c"
  by (simp add: Revert_csc_def Size_csc_def Add_last)

lemma counts_Revert: "counts c n \<Longrightarrow> counts (Revert_csc (fst (Add_csc c d))) n"
  by (simp add: Revert_csc_def counts_def Add_last)

end
