(* ===== verification/CompactRefinement.thy ===== *)
theory CompactRefinement
  imports CompactShares
begin

text \<open>
  The compact splitter refines a byte stream. \<open>css_rep css ps p r\<close> relates the concrete splitter to
  its abstract contents: the full payloads \<open>ps\<close> (each with the reserved position of its share), the
  payload \<open>p\<close> of the share being filled and its reserved position \<open>r\<close>. Writing appends to the stream,
  \<^verbatim>\<open>Count\<close> is what the counter predicts, and the parser recovers the transactions.
\<close>

section \<open>The representation relation\<close>

definition cap :: "('a \<times> bytes) list \<Rightarrow> nat" where
  "cap ps = (if ps = [] then 474 else 478)"

definition cont_share :: "Namespace \<Rightarrow> byte \<Rightarrow> uint32 \<times> bytes \<Rightarrow> Share" where
  "cont_share ns v q = share_of ns v False (PutUint32 (fst q) @ snd q)"

definition first_share :: "Namespace \<Rightarrow> byte \<Rightarrow> uint32 \<Rightarrow> bytes \<Rightarrow> Share" where
  "first_share ns v n p = share_of ns v True (PutUint32 n @ PutUint32 38 @ p)"

fun shares_rep :: "Namespace \<Rightarrow> byte \<Rightarrow> uint32 \<Rightarrow> (uint32 \<times> bytes) list \<Rightarrow> Share list" where
  "shares_rep ns v n [] = []"
| "shares_rep ns v n (q # qs) = first_share ns v n (snd q) # map (cont_share ns v) qs"

fun full_rep :: "(uint32 \<times> bytes) list \<Rightarrow> bool" where
  "full_rep [] = True"
| "full_rep (q # qs) \<longleftrightarrow> length (snd q) = 474 \<and> (\<forall>q\<in>set qs. length (snd q) = 478 \<and> fst q < 512)"

definition pending_header :: "Namespace \<Rightarrow> byte \<Rightarrow> bool \<Rightarrow> bytes" where
  "pending_header ns v st = Bytes_ns ns @ [push_bit 1 v + of_bool st] @ zeros (if st then 4 else 0)"

definition css_rep ::
    "CompactShareSplitter \<Rightarrow> (uint32 \<times> bytes) list \<Rightarrow> bytes \<Rightarrow> uint32 \<Rightarrow> bool" where
  "css_rep css ps p r \<longleftrightarrow>
     compact_ns (css_namespace css) \<and> css_shareVersion css \<le> 127 \<and> \<not> css_done css
     \<and> css_shares css = shares_rep (css_namespace css) (css_shareVersion css) 0 ps \<and> full_rep ps
     \<and> bd_isCompactShare (css_shareBuilder css)
     \<and> bd_isFirstShare (css_shareBuilder css) = (ps = [])
     \<and> bd_rawShareData (css_shareBuilder css) =
         pending_header (css_namespace css) (css_shareVersion css) (ps = []) @ PutUint32 r @ p
     \<and> r < 512 \<and> length p \<le> cap ps"

definition stream :: "(uint32 \<times> bytes) list \<Rightarrow> bytes \<Rightarrow> bytes" where
  "stream ps p = concat (map snd ps) @ p"

text \<open>Between two writes the pending share has room, and the first unit is at position 38.\<close>

definition css_between :: "CompactShareSplitter \<Rightarrow> bytes \<Rightarrow> bool" where
  "css_between css d \<longleftrightarrow>
     (\<exists>ps p r. css_rep css ps p r \<and> length p < cap ps
        \<and> (ps = [] \<longrightarrow> r = (if p = [] then 0 else 38)) \<and> d = stream ps p)"

lemma css_betweenI:
  assumes "css_rep css ps p r" "length p < cap ps" "ps = [] \<Longrightarrow> r = (if p = [] then 0 else 38)"
    and "d = stream ps p"
  shows "css_between css d"
  using assms unfolding css_between_def by blast

lemma compact_valid: "compact_ns ns \<Longrightarrow> valid_ns ns"
  by auto

lemma length_pending_header:
  "compact_ns ns \<Longrightarrow> length (pending_header ns v st) = 30 + (if st then 4 else 0)"
  by (auto simp: pending_header_def)

lemma css_rep_raw_length:
  "css_rep css ps p r \<Longrightarrow>
   length (bd_rawShareData (css_shareBuilder css)) = 512 - cap ps + length p"
  by (simp add: css_rep_def length_pending_header cap_def)

lemma css_rep_IsEmpty: "css_rep css ps p r \<Longrightarrow> IsEmptyShare (css_shareBuilder css) \<longleftrightarrow> p = []"
  by (auto simp: IsEmptyShare_def css_rep_raw_length) (auto simp: css_rep_def cap_def split: if_splits)

lemma shares_rep_append:
  "ps \<noteq> [] \<Longrightarrow> shares_rep ns v n (ps @ [q]) = shares_rep ns v n ps @ [cont_share ns v q]"
  by (cases ps) auto

lemma full_rep_append:
  "full_rep ps \<Longrightarrow> length (snd q) = cap ps \<Longrightarrow> fst q < 512 \<Longrightarrow> full_rep (ps @ [q])"
  by (cases ps) (auto simp: cap_def)

lemma length_shares_rep [simp]: "length (shares_rep ns v n ps) = length ps"
  by (cases ps) auto

lemma full_rep_length: "full_rep ps \<Longrightarrow> length (concat (map snd ps)) = capacity 474 478 (length ps)"
proof (cases ps)
  case (Cons q qs)
  assume "full_rep ps"
  then have "\<forall>q\<in>set qs. length (snd q) = 478" "length (snd q) = 474" by (auto simp: Cons)
  moreover from this(1) have "length (concat (map snd qs)) = 478 * length qs" by (induction qs) auto
  ultimately show ?thesis by (simp add: Cons capacity_def)
qed (simp add: capacity_def)

lemma stream_shares:
  assumes "full_rep ps" "length p < cap ps"
  shows "full_shares (length (stream ps p)) = length ps"
    "open_bytes (length (stream ps p)) = length p"
proof -
  have len: "length (stream ps p) = capacity 474 478 (length ps) + length p"
    using full_rep_length [OF assms(1)] by (simp add: stream_def)
  show "full_shares (length (stream ps p)) = length ps"
    "open_bytes (length (stream ps p)) = length p"
    using assms(2) unfolding len
    by (cases ps; simp add: cap_def capacity_def full_shares_def open_bytes_def)+
qed

section \<open>Stacking and writing\<close>

lemma stackPending_rep:
  assumes rep: "css_rep css ps p r" and full: "length p = cap ps" and r: "ps = [] \<longrightarrow> r = 38"
  shows "\<exists>css'. stackPending css = Inr css' \<and> css_rep css' (ps @ [(r, p)]) [] 0"
proof -
  let ?ns = "css_namespace css" and ?v = "css_shareVersion css"
  have v: "?v \<le> 127" and ns: "compact_ns ?ns" using rep by (auto simp: css_rep_def)
  let ?s = "if ps = [] then first_share ?ns ?v 0 p else cont_share ?ns ?v (r, p)"
  have "Build_bd (css_shareBuilder css) = Inr ?s"
  proof (rule Build_share)
    show "bd_rawShareData (css_shareBuilder css) = share_data ?s"
      using rep r by (auto simp: css_rep_def pending_header_def first_share_def cont_share_def
          share_of_def PutUint32_zero)
    then show "length (share_data ?s) = 512"
      using css_rep_raw_length [OF rep] full by (simp add: cap_def)
  qed
  then have "stackPending css = Inr (css\<lparr>css_shares := css_shares css @ [?s], css_shareBuilder :=
      \<lparr>bd_namespace = ?ns, bd_shareVersion = ?v, bd_isFirstShare = False, bd_isCompactShare = True,
       bd_rawShareData = Bytes_ns ?ns @ [push_bit 1 ?v] @ zeros 4\<rparr>\<rparr>)"
    using ns by (auto simp: stackPending_def NewBuilder_eq [OF v])
  moreover have "css_shares css @ [?s] = shares_rep ?ns ?v 0 (ps @ [(r, p)])"
    using rep by (auto simp: css_rep_def shares_rep_append)
  moreover have "full_rep (ps @ [(r, p)])"
    using rep full by (intro full_rep_append) (auto simp: css_rep_def)
  ultimately show ?thesis
    using rep by (auto simp: css_rep_def pending_header_def PutUint32_zero cap_def)
qed

lemma write_css_loop_rep:
  assumes "css_rep css ps p r" "length p < cap ps" "ps = [] \<longrightarrow> r = 38"
  shows "\<exists>css' ps' p' r'. write_css_loop css d = Some (Inr css') \<and> css_rep css' ps' p' r'
    \<and> (ps' = [] \<longrightarrow> r' = 38) \<and> stream ps' p' = stream ps p @ d"
  using assms
proof (induction "length d" arbitrary: d css ps p r rule: less_induct)
  case less
  let ?b = "css_shareBuilder css"
  have len: "length (bd_rawShareData ?b) = 512 - cap ps + length p"
    using css_rep_raw_length [OF less.prems(1)] .
  have cap: "cap ps \<le> 478" by (simp add: cap_def)
  show ?case
  proof (cases "length p + length d \<le> cap ps")
    case True
    let ?css = "css\<lparr>css_shareBuilder := ?b\<lparr>bd_rawShareData := bd_rawShareData ?b @ d\<rparr>\<rparr>"
    have "AddData ?b d = Inr (?b\<lparr>bd_rawShareData := bd_rawShareData ?b @ d\<rparr>, None)"
      using True len cap by (intro AddData_fits) simp
    then have "write_css_loop css d = Some (Inr ?css)"
      by (subst write_css_loop.simps) simp
    moreover have "css_rep ?css ps (p @ d) r"
      using less.prems(1) True by (simp add: css_rep_def)
    ultimately show ?thesis
      using less.prems(3) by (intro exI [of _ ?css] exI [of _ ps] exI [of _ "p @ d"] exI [of _ r])
        (simp add: stream_def)
  next
    case False
    define k where "k = cap ps - length p"
    let ?css = "css\<lparr>css_shareBuilder := ?b\<lparr>bd_rawShareData := bd_rawShareData ?b @ take k d\<rparr>\<rparr>"
    have k: "512 - length (bd_rawShareData ?b) = k" "0 < k" "k < length d"
      using len cap less.prems(2) False by (simp_all add: k_def)
    have add: "AddData ?b d =
        Inr (?b\<lparr>bd_rawShareData := bd_rawShareData ?b @ take k d\<rparr>, Some (drop k d))"
      using AddData_overflows [of ?b d] False len cap less.prems(2) k(1) by simp
    have rep: "css_rep ?css ps (p @ take k d) r"
      using less.prems(1,2) k by (simp add: css_rep_def k_def)
    obtain css1 where css1: "stackPending ?css = Inr css1" "css_rep css1 (ps @ [(r, p @ take k d)]) [] 0"
      using stackPending_rep [OF rep] less.prems(2,3) k by (auto simp: k_def)
    have "stream (ps @ [(r, p @ take k d)]) [] = stream ps p @ take k d"
      by (simp add: stream_def)
    moreover have "\<exists>css' ps' p' r'. write_css_loop css1 (drop k d) = Some (Inr css') \<and> css_rep css' ps' p' r'
        \<and> (ps' = [] \<longrightarrow> r' = 38) \<and> stream ps' p' = stream (ps @ [(r, p @ take k d)]) [] @ drop k d"
      by (rule less.hyps [OF _ css1(2)]) (use k in \<open>auto simp: cap_def\<close>)
    ultimately show ?thesis
      using add css1(1) by (subst write_css_loop.simps) simp
  qed
qed

lemma css_rep_reserve:
  assumes rep: "css_rep css ps p r" and p: "length p < cap ps"
    and r: "ps = [] \<longrightarrow> r = (if p = [] then 0 else 38)"
  shows "\<exists>b r'. MaybeWriteReservedBytes (css_shareBuilder css) = Inr b
    \<and> css_rep (css\<lparr>css_shareBuilder := b\<rparr>) ps p r' \<and> (ps = [] \<longrightarrow> r' = 38)"
proof -
  let ?b = "css_shareBuilder css"
  let ?h = "pending_header (css_namespace css) (css_shareVersion css) (ps = [])"
  define n where "n = 512 - cap ps + length p"
  have len: "length (bd_rawShareData ?b) = n" "n < 512"
    using css_rep_raw_length [OF rep] p by (auto simp: n_def cap_def)
  define r' :: uint32 where "r' = (if r = 0 then of_nat n else r)"
  have raw: "bd_isCompactShare ?b" "bd_rawShareData ?b = ?h @ PutUint32 r @ p"
    "length ?h = indexOfReservedBytes ?b" "r < 512"
    using rep by (auto simp: css_rep_def indexOfReservedBytes_def length_pending_header)
  define b' where "b' = ?b\<lparr>bd_rawShareData := ?h @ PutUint32 r' @ p\<rparr>"
  have 1: "MaybeWriteReservedBytes ?b = Inr b'"
    using MaybeWriteReserved_layout [OF raw] len unfolding r'_def b'_def by simp
  have "r' < 512"
    using len(2) raw(4) by (simp add: r'_def word_less_nat_alt unat_of_nat)
  then have 2: "css_rep (css\<lparr>css_shareBuilder := b'\<rparr>) ps p r'"
    using rep by (simp add: css_rep_def b'_def)
  have 3: "ps = [] \<longrightarrow> r' = 38"
    using r by (simp add: r'_def n_def cap_def)
  from 1 2 3 show ?thesis by (intro exI conjI)
qed

lemma write_css_between:
  assumes "css_between css s" "d \<noteq> []"
  shows "\<exists>css'. write_css css d = Inr css' \<and> css_between css' (s @ d)"
proof -
  obtain ps p r where rep: "css_rep css ps p r" and p: "length p < cap ps"
    and r: "ps = [] \<longrightarrow> r = (if p = [] then 0 else 38)" and s: "s = stream ps p"
    using assms(1) by (auto simp: css_between_def)
  obtain b r1 where b: "MaybeWriteReservedBytes (css_shareBuilder css) = Inr b"
      "css_rep (css\<lparr>css_shareBuilder := b\<rparr>) ps p r1" "ps = [] \<longrightarrow> r1 = 38"
    using css_rep_reserve [OF rep p r] by blast
  obtain css1 ps1 p1 r2 where loop: "write_css_loop (css\<lparr>css_shareBuilder := b\<rparr>) d = Some (Inr css1)"
      "css_rep css1 ps1 p1 r2" "ps1 = [] \<longrightarrow> r2 = 38" "stream ps1 p1 = s @ d"
    using write_css_loop_rep [OF b(2) p b(3), of d] s by auto
  have w: "write_css css d =
      (if AvailableBytes_bd (css_shareBuilder css1) = 0 then stackPending css1 else Inr css1)"
    using rep b(1) loop(1) by (simp add: write_css_def css_rep_def)
  have avail: "AvailableBytes_bd (css_shareBuilder css1) = int (cap ps1) - int (length p1)"
    using css_rep_raw_length [OF loop(2)] loop(2)
    by (auto simp: AvailableBytes_bd_def css_rep_def cap_def)
  show ?thesis
  proof (cases "length p1 = cap ps1")
    case True
    obtain css2 where "stackPending css1 = Inr css2" "css_rep css2 (ps1 @ [(r2, p1)]) [] 0"
      using stackPending_rep [OF loop(2) True loop(3)] by blast
    moreover from this(2) have "css_between css2 (s @ d)"
      by (rule css_betweenI) (use loop(4) in \<open>simp_all add: cap_def stream_def\<close>)
    ultimately show ?thesis using w avail True by simp
  next
    case False
    then have "length p1 < cap ps1" using loop(2) by (simp add: css_rep_def)
    moreover have "ps1 = [] \<longrightarrow> p1 \<noteq> []" using loop(4) assms(2) by (auto simp: stream_def)
    ultimately have "css_between css1 (s @ d)"
      using loop(3,4) by (intro css_betweenI [OF loop(2)]) auto
    then show ?thesis using w avail False by simp
  qed
qed

lemma New_css_between:
  assumes "compact_ns ns" "v \<le> 127"
  shows "\<exists>css. NewCompactShareSplitter ns v = Inr css \<and> css_between css []"
  using assms
  by (auto simp: NewCompactShareSplitter_def NewBuilder_eq panic_on_error_def css_between_def css_rep_def
      pending_header_def PutUint32_zero cap_def stream_def simp flip: replicate_add
      intro!: exI [of _ "[]"] exI [of _ "0"])

lemma Count_css_between:
  assumes "css_between css s"
  shows "Count_css css = needed 474 478 (length s)"
proof -
  obtain ps p r where rep: "css_rep css ps p r" and p: "length p < cap ps" and s: "s = stream ps p"
    using assms by (auto simp: css_between_def)
  then have "full_rep ps" by (simp add: css_rep_def)
  then show ?thesis
    using stream_shares [of ps p] p css_rep_IsEmpty [OF rep] rep s
    by (simp add: Count_css_def needed_compact css_rep_def)
qed

section \<open>Counting: one interface, two implementations\<close>

lemma length_MarshalDelimitedTx: "length (MarshalDelimitedTx tx) = unit_size (length tx)"
  by (simp add: MarshalDelimitedTx_def unit_size_def DelimLen_def)

lemma MarshalDelimitedTx_nonempty [simp]: "MarshalDelimitedTx tx \<noteq> []"
  by (simp add: MarshalDelimitedTx_def)

lemma css_between_ranges [simp]: "css_between (css\<lparr>css_shareRanges := m\<rparr>) s = css_between css s"
  by (simp add: css_between_def css_rep_def)

lemma WriteTx_between:
  assumes "css_between css s"
  shows "\<exists>css'. WriteTx key css tx = Inr css' \<and> css_between css' (s @ MarshalDelimitedTx tx)"
  using write_css_between [OF assms MarshalDelimitedTx_nonempty, of tx]
  by (auto simp: WriteTx_def Let_def)

locale compact_counting =
  fixes rep :: "'s \<Rightarrow> nat \<Rightarrow> bool"
    and add :: "bytes \<Rightarrow> 's \<Rightarrow> 's result"
    and sz :: "'s \<Rightarrow> int"
  assumes add_rep: "rep s n \<Longrightarrow> \<exists>s'. add tx s = Inr s' \<and> rep s' (n + unit_size (length tx))"
    and size_rep: "rep s n \<Longrightarrow> sz s = int (needed 474 478 n)"
begin

lemma fold_rep:
  "rep s n \<Longrightarrow> \<exists>s'. foldR add txs s = Inr s' \<and> rep s' (n + sum_list (map (unit_size \<circ> length) txs))"
proof (induction txs arbitrary: s n)
  case (Cons tx txs)
  from add_rep [OF Cons.prems, of tx] obtain s1 where
    s1: "add tx s = Inr s1" "rep s1 (n + unit_size (length tx))" by blast
  from Cons.IH [OF s1(2)] s1(1) show ?case by (auto simp: add.assoc)
qed auto

lemma size_fold:
  "rep s n \<Longrightarrow> foldR add txs s = Inr s' \<Longrightarrow>
   sz s' = int (needed 474 478 (n + sum_list (map (unit_size \<circ> length) txs)))"
  using fold_rep [of s n txs] size_rep by auto

lemma size_mono: "rep s n \<Longrightarrow> add tx s = Inr s' \<Longrightarrow> sz s \<le> sz s'"
  using add_rep [of s n tx] size_rep compact_layout.needed_mono [of n "n + unit_size (length tx)"]
  by auto

end

interpretation counter: compact_counting counts
    "\<lambda>tx c. Inr (fst (Add_csc c (int (length tx))))" Size_csc
  by unfold_locales (auto simp: counts_Add counts_Size)

interpretation splitter: compact_counting "\<lambda>css n. \<exists>s. css_between css s \<and> length s = n"
    "\<lambda>tx css. WriteTx key css tx" "\<lambda>css. int (Count_css css)" for key
proof unfold_locales
  fix css n tx
  assume "\<exists>s. css_between css s \<and> length s = n"
  then show "\<exists>css'. WriteTx key css tx = Inr css' \<and>
      (\<exists>s. css_between css' s \<and> length s = n + unit_size (length tx))"
    using WriteTx_between by (metis length_MarshalDelimitedTx length_append)
qed (auto simp: Count_css_between)

lemma WriteTx_fold_between:
  "css_between css s \<Longrightarrow> \<exists>css'. foldR (\<lambda>tx css. WriteTx key css tx) txs css = Inr css'
     \<and> css_between css' (s @ concat (map MarshalDelimitedTx txs))"
proof (induction txs arbitrary: css s)
  case (Cons tx txs)
  from WriteTx_between [OF Cons.prems, of key tx] obtain c1 where
    c1: "WriteTx key css tx = Inr c1" "css_between c1 (s @ MarshalDelimitedTx tx)" by blast
  from Cons.IH [OF c1(2)] c1(1) show ?case by auto
qed auto

section \<open>Export\<close>

lemma shares_rep_Cons_eq:
  "ps \<noteq> [] \<Longrightarrow> shares_rep ns v n ps = first_share ns v n (snd (hd ps)) # map (cont_share ns v) (tl ps)"
  by (cases ps) auto

lemma writeSequenceLen_rep:
  assumes "css_shares css = shares_rep (css_namespace css) (css_shareVersion css) 0 ps" "ps \<noteq> []"
    and "full_rep ps" "compact_ns (css_namespace css)" "css_shareVersion css \<le> 127"
  shows "writeSequenceLen_css css n =
    Inr (css\<lparr>css_shares := shares_rep (css_namespace css) (css_shareVersion css) n ps\<rparr>)"
proof -
  let ?ns = "css_namespace css" and ?v = "css_shareVersion css"
  have len: "length (snd (hd ps)) = 474" using assms(2,3) by (cases ps) auto
  have ns: "length (Bytes_ns ?ns) = 29" using assms(4) by auto
  obtain b where b: "NewBuilder ?ns ?v True = Inr b" "bd_isFirstShare b"
    using NewBuilder_eq [OF assms(5), of ?ns True] by simp
  let ?b = "ImportRawShare b (share_data (first_share ?ns ?v 0 (snd (hd ps))))"
  have "WriteSequenceLen ?b n = Inr (?b\<lparr>bd_rawShareData := (Bytes_ns ?ns @ [push_bit 1 ?v + of_bool True])
      @ PutUint32 n @ PutUint32 38 @ snd (hd ps)\<rparr>)"
    by (rule WriteSequenceLen_layout [where l = "PutUint32 0"])
      (use b(2) ns in \<open>simp_all add: ImportRawShare_def first_share_def share_of_def\<close>)
  moreover have "Build_bd (?b\<lparr>bd_rawShareData := (Bytes_ns ?ns @ [push_bit 1 ?v + of_bool True])
      @ PutUint32 n @ PutUint32 38 @ snd (hd ps)\<rparr>) = Inr (first_share ?ns ?v n (snd (hd ps)))"
    by (rule Build_share) (use ns len in \<open>simp_all add: first_share_def share_of_def\<close>)
  ultimately show ?thesis
    using assms(1,2) b(1)
    by (simp add: writeSequenceLen_css_def isEmpty_css_def ToBytes_sh_def shares_rep_Cons_eq)
qed

lemma sequenceLen_rep:
  assumes "length (css_shares css) = length ps" "full_rep ps" "ps \<noteq> []" "z \<le> capacity 474 478 (length ps)"
  shows "sequenceLen_css css z = of_nat (length (concat (map snd ps)) - z)"
proof (cases "length ps = 1")
  case True
  then have "z \<le> 474" using assms(4) by (simp add: capacity_def)
  then show ?thesis
    using True assms full_rep_length [OF assms(2)]
    by (simp add: sequenceLen_css_def capacity_def of_nat_diff)
next
  case False
  have "int 474 + int ((length ps - 1) * 478) - int z = int (capacity 474 478 (length ps) - z)"
    using assms(3,4) by (simp add: capacity_def)
  then show ?thesis
    using False assms full_rep_length [OF assms(2)]
    by (simp add: sequenceLen_css_def Let_def capacity_def of_nat_diff)
qed

text \<open>What \<^verbatim>\<open>Export\<close> returns for a non-empty stream \<open>s\<close>.\<close>

definition exported :: "Namespace \<Rightarrow> byte \<Rightarrow> bytes \<Rightarrow> Share list \<Rightarrow> bool" where
  "exported ns v s shares \<longleftrightarrow>
     (\<exists>ps z. shares = shares_rep ns v (of_nat (length s)) ps \<and> ps \<noteq> [] \<and> full_rep ps
        \<and> concat (map snd ps) = s @ zeros z \<and> length ps = needed 474 478 (length s))"

lemma stackPending_fields:
  "stackPending css = Inr css' \<Longrightarrow>
   css_namespace css' = css_namespace css \<and> css_shareVersion css' = css_shareVersion css
   \<and> css_shareRanges css' = css_shareRanges css"
  by (auto simp: stackPending_def result_simps)

lemma Export_full:
  assumes rep: "css_rep css ps [] r" and ps: "ps \<noteq> []" "concat (map snd ps) = s @ zeros z"
    and len: "length ps = needed 474 478 (length s)"
  shows "\<exists>css'. writeSequenceLen_css css (sequenceLen_css css z) = Inr css'
    \<and> exported (css_namespace css) (css_shareVersion css) s (css_shares css')"
proof -
  have full: "full_rep ps" "length (css_shares css) = length ps" using rep by (simp_all add: css_rep_def)
  have "z \<le> capacity 474 478 (length ps)"
    using full_rep_length [OF full(1)] ps(2) by (metis le_add2 length_append length_replicate)
  then have "sequenceLen_css css z = of_nat (length s)"
    using sequenceLen_rep [OF full(2,1) ps(1)] ps(2) by simp
  then have "writeSequenceLen_css css (sequenceLen_css css z) =
      Inr (css\<lparr>css_shares := shares_rep (css_namespace css) (css_shareVersion css) (of_nat (length s)) ps\<rparr>)"
    using writeSequenceLen_rep [of css ps] rep ps(1) by (simp add: css_rep_def)
  then show ?thesis
    using ps len full(1) by (auto simp: exported_def)
qed

lemma Export_between:
  assumes "css_between css s" "s \<noteq> []"
  shows "\<exists>css' shares. Export_css css = Inr (css', shares)
    \<and> exported (css_namespace css) (css_shareVersion css) s shares"
proof -
  obtain ps p r where rep: "css_rep css ps p r" and p: "length p < cap ps"
    and r: "ps = [] \<longrightarrow> r = (if p = [] then 0 else 38)" and s: "s = stream ps p"
    using assms(1) by (auto simp: css_between_def)
  have full: "full_rep ps" "\<not> css_done css" using rep by (simp_all add: css_rep_def)
  have count: "needed 474 478 (length s) = length ps + (if p = [] then 0 else 1)"
    using stream_shares [OF full(1) p] by (simp add: needed_compact s)
  have empty: "IsEmptyShare (css_shareBuilder css) \<longleftrightarrow> p = []" "\<not> isEmpty_css css"
    using css_rep_IsEmpty [OF rep] rep assms(2) s by (auto simp: isEmpty_css_def css_rep_def stream_def)
  show ?thesis
  proof (cases "p = []")
    case True
    then have "ps \<noteq> []" "concat (map snd ps) = s @ zeros 0" using s assms(2) by (auto simp: stream_def)
    with Export_full [OF rep [unfolded True] this] count True empty full(2) show ?thesis
      by (auto simp: Export_css_def)
  next
    case False
    define z where "z = cap ps - length p"
    let ?b = "css_shareBuilder css"
    let ?css = "css\<lparr>css_shareBuilder := ?b\<lparr>bd_rawShareData := bd_rawShareData ?b @ zeros z\<rparr>\<rparr>"
    have "cap ps \<le> 478" by (simp add: cap_def)
    then have pad: "ZeroPadIfNecessary ?b = (?b\<lparr>bd_rawShareData := bd_rawShareData ?b @ zeros z\<rparr>, z)"
      using css_rep_raw_length [OF rep] p by (simp add: ZeroPad_layout z_def)
    have "css_rep ?css ps (p @ zeros z) r"
      using rep p by (simp add: css_rep_def z_def)
    then obtain css1 where css1: "stackPending ?css = Inr css1" "css_rep css1 (ps @ [(r, p @ zeros z)]) [] 0"
      using stackPending_rep [of ?css ps "p @ zeros z" r] p r False by (auto simp: z_def)
    have "concat (map snd (ps @ [(r, p @ zeros z)])) = s @ zeros z" using s by (simp add: stream_def)
    with Export_full [OF css1(2) _ this] count False obtain css2 where
      "writeSequenceLen_css css1 (sequenceLen_css css1 z) = Inr css2"
      "exported (css_namespace css1) (css_shareVersion css1) s (css_shares css2)" by auto
    then show ?thesis
      using empty full(2) False css1(1) stackPending_fields [OF css1(1)] by (auto simp: Export_css_def pad)
  qed
qed

lemma Export_empty: "css_between css [] \<Longrightarrow> Export_css css = Inr (css, [])"
proof -
  assume "css_between css []"
  then obtain ps p r where rep: "css_rep css ps p r" and "stream ps p = []"
    by (auto simp: css_between_def)
  moreover from this(2) have "p = []" by (simp add: stream_def)
  moreover have "ps = []"
    using rep \<open>stream ps p = []\<close> by (cases ps) (auto simp: css_rep_def stream_def)
  ultimately show ?thesis
    using css_rep_IsEmpty [OF rep] by (simp add: Export_css_def isEmpty_css_def css_rep_def)
qed

lemma length_exported: "exported ns v s shares \<Longrightarrow> length shares = needed 474 478 (length s)"
  by (auto simp: exported_def)

lemma exported_share_in:
  assumes "compact_ns ns" "exported ns 0 s shares" "x \<in> set shares"
  shows "share_in ns x"
proof -
  obtain ps where ps: "shares = shares_rep ns 0 (of_nat (length s)) ps" "full_rep ps"
    using assms(2) by (auto simp: exported_def)
  then obtain q qs where q: "ps = q # qs" "length (snd q) = 474" "\<forall>q\<in>set qs. length (snd q) = 478"
    using assms(3) by (cases ps) auto
  consider "x = first_share ns 0 (of_nat (length s)) (snd q)" | q' where "q' \<in> set qs" "x = cont_share ns 0 q'"
    using assms(3) ps(1) q(1) by auto
  then show ?thesis
  proof cases
    case 1
    then show ?thesis
      using q(2) compact_valid [OF assms(1)] unfolding share_in_def first_share_def
      by (auto intro!: exI [of _ True])
  next
    case 2
    then show ?thesis
      using q(3) compact_valid [OF assms(1)] unfolding share_in_def cont_share_def
      by (auto intro!: exI [of _ False])
  qed
qed

section \<open>Parsing an exported sequence\<close>

lemma extract_cont:
  assumes "compact_ns ns" "v \<le> 127"
  shows "foldR (\<lambda>s d. bindR (RawData s) (\<lambda>raw. Inr (d @ raw))) (map (cont_share ns v) qs) d0
    = Inr (d0 @ concat (map snd qs))"
  by (induction qs arbitrary: d0)
    (simp_all add: cont_share_def share_of_RawData_compact_cont [OF compact_valid [OF assms(1)] assms(2,1)])

lemma extract_exported:
  assumes "compact_ns ns" "v \<le> 127" "exported ns v s shares"
  shows "\<exists>z. extractRawData shares = Inr (s @ zeros z)"
proof -
  obtain ps z where ps: "shares = shares_rep ns v (of_nat (length s)) ps" "ps \<noteq> []" "full_rep ps"
    "concat (map snd ps) = s @ zeros z"
    using assms(3) by (auto simp: exported_def)
  then obtain q qs where q: "ps = q # qs" "length (snd q) = 474" by (cases ps) auto
  have "RawDataUsingReserved (first_share ns v (of_nat (length s)) (snd q)) = Inr (drop (unat (38::uint32) - 38) (snd q))"
    unfolding first_share_def
    by (rule share_of_RawDataUsingReserved_start) (use assms q compact_valid in auto)
  then have "extractRawData shares = Inr (snd q @ concat (map snd qs))"
    using extract_cont [OF assms(1,2)] by (simp add: ps(1) q(1) extractRawData_def)
  then show ?thesis using ps(4) q(1) by auto
qed

lemma versions_exported:
  assumes "compact_ns ns" "v \<le> 127" "exported ns v s shares" "v \<in> set vs"
  shows "validateShareVersions shares vs = Inr ()"
proof -
  have ns: "valid_ns ns" using assms(1) compact_valid by simp
  obtain ps where "shares = shares_rep ns v (of_nat (length s)) ps" using assms(3) by (auto simp: exported_def)
  then have "\<forall>x\<in>set shares. \<exists>st rest. x = share_of ns v st rest"
    by (cases ps) (auto simp: first_share_def cont_share_def)
  then show ?thesis
    using assms(2,4) unfolding validateShareVersions_def foldR_check_iff
    by (auto simp: share_of_DoesSupport [OF ns])
qed

lemma parseRawData_units:
  "\<forall>tx\<in>set txs. tx \<noteq> [] \<and> length tx < 2 ^ 64 \<Longrightarrow>
   parseRawData (concat (map MarshalDelimitedTx txs) @ zeros z) acc = Inr (acc @ txs)"
proof (induction txs arbitrary: acc)
  case Nil
  show ?case
  proof (cases "z = 0")
    case False
    then obtain r where "ParseDelimiter (zeros z) = Inr (r, 0)" using ParseDelimiter_zeros by auto
    then show ?thesis by (subst parseRawData.simps) simp
  qed (simp add: parseRawData.simps)
next
  case (Cons tx txs)
  have n: "unat (of_nat (length tx) :: uint64) = length tx" "(of_nat (length tx) :: uint64) \<noteq> 0"
    using Cons.prems by (auto simp: unat_of_nat word_unat_eq_iff)
  have "ParseDelimiter (concat (map MarshalDelimitedTx (tx # txs)) @ zeros z)
      = Inr (tx @ concat (map MarshalDelimitedTx txs) @ zeros z, of_nat (length tx))"
    using ParseDelimiter_unit [of "of_nat (length tx)"] by (simp add: MarshalDelimitedTx_def)
  then show ?case
    using n Cons.IH [of "acc @ [tx]"] Cons.prems by (subst parseRawData.simps) simp
qed

lemma ParseTxs_exported:
  assumes "compact_ns ns" "exported ns 0 (concat (map MarshalDelimitedTx txs)) shares"
    and "\<forall>tx\<in>set txs. tx \<noteq> [] \<and> length tx < 2 ^ 64"
  shows "ParseTxs shares = Inr txs"
proof -
  obtain z where "extractRawData shares = Inr (concat (map MarshalDelimitedTx txs) @ zeros z)"
    using extract_exported [OF assms(1) _ assms(2)] by auto
  moreover have "shares \<noteq> []" using assms(2) by (auto simp: exported_def dest: arg_cong [of _ _ length])
  ultimately show ?thesis
    using versions_exported [OF assms(1) _ assms(2), of SupportedShareVersions] parseRawData_units [OF assms(3)]
    by (simp add: ParseTxs_def parseCompactShares_def)
qed

end
