(* ===== verification/TxShares.thy ===== *)
theory TxShares
  imports CompactRefinement
begin

text \<open>
  The transaction half of \<^verbatim>\<open>pkg/shares/share_splitting.go\<close>. \<^verbatim>\<open>coretypes.UnmarshalIndexWrapper\<close> belongs
  to the consensus library: it is the parameter \<open>unwrap\<close>, which gives the wrapped transaction when
  the bytes are one. \<^verbatim>\<open>tx.Key()\<close> is the parameter \<open>key\<close>.
\<close>

section \<open>Definitions\<close>

record IndexWrapper =
  iw_Tx :: bytes
  iw_ShareIndexes :: "uint32 list"
  iw_TypeId :: string

type_synonym unwrapper = "bytes \<Rightarrow> IndexWrapper option"

text \<open>The \<^verbatim>\<open>nil\<close> result is the empty list.\<close>

fun ExtractShareIndexes_loop :: "unwrapper \<Rightarrow> bytes list \<Rightarrow> uint32 list \<Rightarrow> uint32 list" where
  "ExtractShareIndexes_loop unwrap [] shareIndexes = shareIndexes"
| "ExtractShareIndexes_loop unwrap (rawTx # txs) shareIndexes =
     (case unwrap rawTx of
        Some iw \<Rightarrow>
          if length (iw_ShareIndexes iw) = 0 then []
          else ExtractShareIndexes_loop unwrap txs (shareIndexes @ iw_ShareIndexes iw)
      | None \<Rightarrow> ExtractShareIndexes_loop unwrap txs shareIndexes)"

definition ExtractShareIndexes :: "unwrapper \<Rightarrow> bytes list \<Rightarrow> uint32 list" where
  "ExtractShareIndexes unwrap txs = ExtractShareIndexes_loop unwrap txs []"

definition mergeMaps :: "(TxKey \<rightharpoonup> Range) \<Rightarrow> (TxKey \<rightharpoonup> Range) \<Rightarrow> (TxKey \<rightharpoonup> Range)" where
  "mergeMaps mapOne mapTwo = mapOne ++ mapTwo"

definition SplitTxs_step :: "unwrapper \<Rightarrow> (bytes \<Rightarrow> TxKey) \<Rightarrow> bytes \<Rightarrow>
    CompactShareSplitter \<times> CompactShareSplitter \<Rightarrow> (CompactShareSplitter \<times> CompactShareSplitter) result" where
  "SplitTxs_step unwrap key tx = (\<lambda>(txWriter, pfbTxWriter).
     case unwrap tx of
       Some _ \<Rightarrow> bindR (WriteTx key pfbTxWriter tx) (\<lambda>w. Inr (txWriter, w))
     | None \<Rightarrow> bindR (WriteTx key txWriter tx) (\<lambda>w. Inr (w, pfbTxWriter)))"

definition SplitTxs :: "unwrapper \<Rightarrow> (bytes \<Rightarrow> TxKey) \<Rightarrow> bytes list \<Rightarrow>
    (Share list \<times> Share list \<times> (TxKey \<rightharpoonup> Range)) result" where
  "SplitTxs unwrap key txs =
     bindR (NewCompactShareSplitter TxNamespace ShareVersionZero) (\<lambda>txWriter.
     bindR (NewCompactShareSplitter PayForBlobNamespace ShareVersionZero) (\<lambda>pfbTxWriter.
     bindR (foldR (SplitTxs_step unwrap key) txs (txWriter, pfbTxWriter)) (\<lambda>(txWriter, pfbTxWriter).
     bindR (Export_css txWriter) (\<lambda>(txWriter, txShares).
       let txMap = ShareRanges_css txWriter 0 in
       bindR (Export_css pfbTxWriter) (\<lambda>(pfbTxWriter, pfbShares).
         let pfbMap = ShareRanges_css pfbTxWriter (int (length txShares)) in
         Inr (txShares, pfbShares, mergeMaps txMap pfbMap))))))"

section \<open>Writing a list of transactions and exporting\<close>

lemma write_css_loop_fields:
  assumes "write_css_loop css d = Some (Inr css')"
  shows "css_namespace css' = css_namespace css \<and> css_shareVersion css' = css_shareVersion css"
proof -
  have "\<forall>c. Inr css' = (Inr c :: CompactShareSplitter result) \<longrightarrow>
      css_namespace c = css_namespace css \<and> css_shareVersion c = css_shareVersion css"
    by (rule write_css_loop.raw_induct [where P = "\<lambda>css d r. \<forall>c. r = Inr c \<longrightarrow>
          css_namespace c = css_namespace css \<and> css_shareVersion c = css_shareVersion css", OF _ assms])
      (auto split: sum.splits option.splits prod.splits dest!: stackPending_fields simp: Let_def)
  then show ?thesis by simp
qed

lemma WriteTx_fields:
  assumes "css_between css s" "WriteTx key css tx = Inr css'"
  shows "css_namespace css' = css_namespace css \<and> css_shareVersion css' = css_shareVersion css"
  using assms
  by (auto simp: WriteTx_def write_css_def Let_def result_simps join_loop_def css_between_def css_rep_def
      split: if_splits option.splits dest!: stackPending_fields write_css_loop_fields)

text \<open>A splitter for \<open>ns\<close> that holds exactly the transactions \<open>txs\<close>.\<close>

definition css_holds :: "Namespace \<Rightarrow> CompactShareSplitter \<Rightarrow> bytes list \<Rightarrow> bool" where
  "css_holds ns css txs \<longleftrightarrow>
     css_between css (concat (map MarshalDelimitedTx txs)) \<and> css_namespace css = ns
     \<and> css_shareVersion css = 0"

lemma New_css_holds:
  "compact_ns ns \<Longrightarrow> \<exists>css. NewCompactShareSplitter ns 0 = Inr css \<and> css_holds ns css []"
  using New_css_between [of ns 0]
  by (auto simp: css_holds_def NewCompactShareSplitter_def NewBuilder_eq panic_on_error_def)

lemma WriteTx_holds:
  "css_holds ns css txs \<Longrightarrow> \<exists>css'. WriteTx key css tx = Inr css' \<and> css_holds ns css' (txs @ [tx])"
  using WriteTx_between [of css "concat (map MarshalDelimitedTx txs)" key tx] WriteTx_fields
  by (fastforce simp: css_holds_def)

lemma Count_holds:
  "css_holds ns css txs \<Longrightarrow>
   Count_css css = needed 474 478 (sum_list (map (unit_size \<circ> length) txs))"
proof -
  have "length (concat (map MarshalDelimitedTx txs)) = sum_list (map (unit_size \<circ> length) txs)"
    by (induction txs) (simp_all add: length_MarshalDelimitedTx)
  then show "css_holds ns css txs \<Longrightarrow> ?thesis"
    using Count_css_between [of css "concat (map MarshalDelimitedTx txs)"] by (simp add: css_holds_def)
qed

lemma Export_holds:
  assumes "css_holds ns css txs"
  shows "\<exists>css' shares. Export_css css = Inr (css', shares)
    \<and> (if txs = [] then shares = [] else exported ns 0 (concat (map MarshalDelimitedTx txs)) shares)
    \<and> length shares = Count_css css"
proof (cases "txs = []")
  case True
  with assms have "css_between css []" by (simp add: css_holds_def)
  then show ?thesis
    using True Export_empty [of css] Count_css_between [of css "[]"] by (simp add: needed_def)
next
  case False
  then have "concat (map MarshalDelimitedTx txs) \<noteq> []" by (cases txs) auto
  with assms Export_between [of css "concat (map MarshalDelimitedTx txs)"] show ?thesis
    using False length_exported Count_css_between by (fastforce simp: css_holds_def)
qed

lemma share_in_holds:
  assumes "compact_ns ns" "css_holds ns css txs" "Export_css css = Inr (css', shares)" "s \<in> set shares"
  shows "share_in ns s"
  using Export_holds [OF assms(2)] assms exported_share_in [OF assms(1)] by (auto split: if_splits)

lemma Parse_holds:
  assumes "compact_ns ns" "css_holds ns css txs" "Export_css css = Inr (css', shares)"
    and "\<forall>tx\<in>set txs. tx \<noteq> [] \<and> length tx < 2 ^ 64"
  shows "ParseTxs shares = Inr txs"
proof (cases "txs = []")
  case True
  then show ?thesis using Export_holds [OF assms(2)] assms(3) by (auto simp: ParseTxs_def parseCompactShares_def)
next
  case False
  then show ?thesis using Export_holds [OF assms(2)] assms(3) ParseTxs_exported [OF assms(1) _ assms(4)] by auto
qed

lemma SplitTxs_fold:
  assumes "css_holds TxNamespace a as" "css_holds PayForBlobNamespace b bs"
  shows "\<exists>a' b'. foldR (SplitTxs_step unwrap key) txs (a, b) = Inr (a', b')
    \<and> css_holds TxNamespace a' (as @ filter (\<lambda>tx. unwrap tx = None) txs)
    \<and> css_holds PayForBlobNamespace b' (bs @ filter (\<lambda>tx. unwrap tx \<noteq> None) txs)"
  using assms
proof (induction txs arbitrary: a b as bs)
  case (Cons tx txs)
  show ?case
  proof (cases "unwrap tx")
    case None
    from WriteTx_holds [OF Cons.prems(1), of key tx] obtain a1 where
      "WriteTx key a tx = Inr a1" "css_holds TxNamespace a1 (as @ [tx])" by blast
    with Cons.IH [OF this(2) Cons.prems(2)] None show ?thesis by (simp add: SplitTxs_step_def)
  next
    case (Some iw)
    from WriteTx_holds [OF Cons.prems(2), of key tx] obtain b1 where
      "WriteTx key b tx = Inr b1" "css_holds PayForBlobNamespace b1 (bs @ [tx])" by blast
    with Cons.IH [OF Cons.prems(1) this(2)] Some show ?thesis by (simp add: SplitTxs_step_def)
  qed
qed simp

lemma SplitTxs_parse:
  assumes "\<forall>tx\<in>set txs. tx \<noteq> [] \<and> length tx < 2 ^ 64"
  shows "\<exists>txShares pfbShares m. SplitTxs unwrap key txs = Inr (txShares, pfbShares, m)
    \<and> ParseTxs txShares = Inr (filter (\<lambda>tx. unwrap tx = None) txs)
    \<and> ParseTxs pfbShares = Inr (filter (\<lambda>tx. unwrap tx \<noteq> None) txs)"
proof -
  obtain a where a: "NewCompactShareSplitter TxNamespace 0 = Inr a" "css_holds TxNamespace a []"
    using New_css_holds by blast
  obtain b where b: "NewCompactShareSplitter PayForBlobNamespace 0 = Inr b" "css_holds PayForBlobNamespace b []"
    using New_css_holds by blast
  obtain a' b' where ab: "foldR (SplitTxs_step unwrap key) txs (a, b) = Inr (a', b')"
    "css_holds TxNamespace a' (filter (\<lambda>tx. unwrap tx = None) txs)"
    "css_holds PayForBlobNamespace b' (filter (\<lambda>tx. unwrap tx \<noteq> None) txs)"
    using SplitTxs_fold [OF a(2) b(2), of unwrap key txs] by auto
  obtain ca sa where sa: "Export_css a' = Inr (ca, sa)" using Export_holds [OF ab(2)] by blast
  obtain cb sb where sb: "Export_css b' = Inr (cb, sb)" using Export_holds [OF ab(3)] by blast
  show ?thesis
    using a(1) b(1) ab sa sb Parse_holds [OF _ ab(2) sa] Parse_holds [OF _ ab(3) sb] assms
    by (simp add: SplitTxs_def)
qed

end
