(* ===== verification/Inclusion.thy ===== *)
theory Inclusion
  imports TxShares
begin

text \<open>
  \<^verbatim>\<open>pkg/inclusion/blob_share_commitment_rules.go\<close> and \<^verbatim>\<open>commitment.go\<close>, with the square-size functions
  of \<^verbatim>\<open>pkg/da\<close> they call: where a blob may start in a square, and the mountain range its commitment
  is made of. \<^verbatim>\<open>math.Ceil(math.Sqrt(float64(n)))\<close> is the exact integer \<open>ceil_sqrt\<close>; floats represent
  these values exactly for every share count below $2^{52}$. The namespaced Merkle tree and the
  hash of the subtree roots are parameters.
\<close>

section \<open>Square sizes\<close>

function ceil_sqrt_from :: "nat \<Rightarrow> int \<Rightarrow> int" where
  "ceil_sqrt_from r n = (if n \<le> int r * int r then int r else ceil_sqrt_from (Suc r) n)"
  by pat_completeness auto
termination
  by (relation "measure (\<lambda>(r, n). nat (n - int r * int r))") (auto simp: algebra_simps)

declare ceil_sqrt_from.simps [simp del]

definition ceil_sqrt :: "int \<Rightarrow> int" where
  "ceil_sqrt n = ceil_sqrt_from 0 n"

text \<open>\<^verbatim>\<open>da.RoundUpPowerOfTwo\<close> is a copy of the function of \<^verbatim>\<open>pkg/shares\<close>.\<close>

definition da_RoundUpPowerOfTwo :: "int \<Rightarrow> int result" where
  "da_RoundUpPowerOfTwo input = of_loop (RoundUpPowerOfTwo_loop wrap_int 1 input)"

definition da_SquareSize :: "int \<Rightarrow> int result" where
  "da_SquareSize len = da_RoundUpPowerOfTwo (ceil_sqrt len)"

definition BlobMinSquareSize :: "int \<Rightarrow> int result" where
  "BlobMinSquareSize shareCount = da_RoundUpPowerOfTwo (ceil_sqrt shareCount)"

section \<open>The share commitment rules\<close>

definition min_int :: "int \<Rightarrow> int \<Rightarrow> int" where
  "min_int i j = (if i < j then i else j)"

definition SubTreeWidth :: "int \<Rightarrow> int \<Rightarrow> int result" where
  "SubTreeWidth shareCount subtreeRootThreshold =
     (if subtreeRootThreshold = 0 then Inl (Panic ''integer divide by zero'')
      else
        let s = go_div shareCount subtreeRootThreshold;
            s = (if go_mod shareCount subtreeRootThreshold \<noteq> 0 then s + 1 else s)
        in bindR (da_RoundUpPowerOfTwo s) (\<lambda>s.
           bindR (BlobMinSquareSize shareCount) (\<lambda>m. Inr (min_int s m))))"

definition roundUpByMultipleOf :: "int \<Rightarrow> int \<Rightarrow> int" where
  "roundUpByMultipleOf cursor v =
     (if go_mod cursor v = 0 then cursor else (go_div cursor v + 1) * v)"

definition NextShareIndex :: "int \<Rightarrow> int \<Rightarrow> int \<Rightarrow> int result" where
  "NextShareIndex cursor blobShareLen subtreeRootThreshold =
     bindR (SubTreeWidth blobShareLen subtreeRootThreshold) (\<lambda>treeWidth.
       Inr (roundUpByMultipleOf cursor treeWidth))"

fun BlobSharesUsed_loop :: "int \<Rightarrow> int \<Rightarrow> int list \<Rightarrow> (int \<times> uint32 list) result" where
  "BlobSharesUsed_loop cursor subtreeRootThreshold [] = Inr (cursor, [])"
| "BlobSharesUsed_loop cursor subtreeRootThreshold (blobLen # lens) =
     bindR (NextShareIndex cursor blobLen subtreeRootThreshold) (\<lambda>cursor.
     bindR (BlobSharesUsed_loop (cursor + blobLen) subtreeRootThreshold lens) (\<lambda>(en, indexes).
       Inr (en, word_of_int cursor # indexes)))"

definition BlobSharesUsedNonInteractiveDefaults ::
    "int \<Rightarrow> int \<Rightarrow> int list \<Rightarrow> (int \<times> uint32 list) result" where
  "BlobSharesUsedNonInteractiveDefaults cursor subtreeRootThreshold blobShareLens =
     bindR (BlobSharesUsed_loop cursor subtreeRootThreshold blobShareLens) (\<lambda>(en, indexes).
       Inr (en - cursor, indexes))"

definition FitsInSquare :: "int \<Rightarrow> int \<Rightarrow> int \<Rightarrow> int list \<Rightarrow> (bool \<times> int) result" where
  "FitsInSquare cursor squareSize subtreeRootThreshold blobShareLens =
     (if length blobShareLens = 0 then Inr (cursor \<le> squareSize * squareSize, 0)
      else
        let firstBlobLen = hd blobShareLens in
        bindR (NextShareIndex cursor firstBlobLen subtreeRootThreshold) (\<lambda>cursor.
        bindR (BlobSharesUsedNonInteractiveDefaults cursor subtreeRootThreshold blobShareLens)
          (\<lambda>(sharesUsed, _). Inr (cursor + sharesUsed \<le> squareSize * squareSize, sharesUsed))))"

section \<open>Mountain ranges and commitments\<close>

text \<open>
  The sizes are \<^verbatim>\<open>uint64\<close>, represented by their values; the subtractions never go below zero. A
  maximal tree size of zero makes the loop run forever.
\<close>

partial_function (option) MMR_loop :: "int \<Rightarrow> int \<Rightarrow> int list \<Rightarrow> int list result option" where
  [code]: "MMR_loop totalSize maxTreeSize treeSizes =
     (if totalSize = 0 then Some (Inr treeSizes)
      else if totalSize \<ge> maxTreeSize
      then MMR_loop (totalSize - maxTreeSize) maxTreeSize (treeSizes @ [maxTreeSize])
      else
        (case RoundDownPowerOfTwo wrap_uint64 totalSize of
           Inl e \<Rightarrow> Some (Inl e)
         | Inr treeSize \<Rightarrow>
             MMR_loop (totalSize - treeSize) maxTreeSize (treeSizes @ [treeSize])))"

definition MerkleMountainRangeSizes :: "int \<Rightarrow> int \<Rightarrow> int list result" where
  "MerkleMountainRangeSizes totalSize maxTreeSize = join_loop (MMR_loop totalSize maxTreeSize [])"

text \<open>The slices \<^verbatim>\<open>shares[cursor:cursor+treeSize]\<close> of the commitment loop.\<close>

fun leafSets :: "Share list \<Rightarrow> int \<Rightarrow> int list \<Rightarrow> bytes list list result" where
  "leafSets shares cursor [] = Inr []"
| "leafSets shares cursor (treeSize # sizes) =
     bindR (slice shares (nat cursor) (nat (cursor + treeSize))) (\<lambda>ss.
     bindR (leafSets shares (cursor + treeSize) sizes) (\<lambda>rest. Inr (ToBytes ss # rest)))"

text \<open>
  \<open>nmt_root\<close> pushes the namespaced leaves onto a fresh tree and returns its root (or the error of a
  push), \<open>hash_roots\<close> is \<^verbatim>\<open>merkle.HashFromByteSlices\<close>.
\<close>

definition CreateCommitment ::
    "(bytes list \<Rightarrow> bytes result) \<Rightarrow> (bytes list \<Rightarrow> bytes) \<Rightarrow> Blob \<Rightarrow> bytes result" where
  "CreateCommitment nmt_root hash_roots blob =
     bindR (Validate_blob blob) (\<lambda>_.
       let namespace = Namespace_blob blob in
       bindR (SplitBlobs [blob]) (\<lambda>shares.
       bindR (SubTreeWidth (int (length shares)) DefaultSubtreeRootThreshold) (\<lambda>subTreeWidth.
       bindR (MerkleMountainRangeSizes (int (length shares)) subTreeWidth) (\<lambda>treeSizes.
       bindR (leafSets shares 0 treeSizes) (\<lambda>sets.
       bindR (mapR (\<lambda>set. nmt_root (map (\<lambda>leaf. Bytes_ns namespace @ leaf) set)) sets)
         (\<lambda>subTreeRoots. Inr (hash_roots subTreeRoots)))))))"

definition CreateCommitments ::
    "(bytes list \<Rightarrow> bytes result) \<Rightarrow> (bytes list \<Rightarrow> bytes) \<Rightarrow> Blob list \<Rightarrow> bytes list result" where
  "CreateCommitments nmt_root hash_roots blobs = mapR (CreateCommitment nmt_root hash_roots) blobs"

section \<open>Square sizes: lemmas\<close>

lemma ceil_sqrt_from_bounds:
  "r = 0 \<or> int (r - 1) * int (r - 1) < n \<Longrightarrow>
   n \<le> ceil_sqrt_from r n * ceil_sqrt_from r n \<and> 0 \<le> ceil_sqrt_from r n
   \<and> (ceil_sqrt_from r n = 0 \<or> (ceil_sqrt_from r n - 1) * (ceil_sqrt_from r n - 1) < n)"
proof (induction r n rule: ceil_sqrt_from.induct)
  case (1 r n)
  show ?case
  proof (cases "n \<le> int r * int r")
    case True
    then show ?thesis
      using 1(2) by (cases r) (simp_all add: ceil_sqrt_from.simps)
  next
    case False
    then show ?thesis
      using 1(1) by (simp add: ceil_sqrt_from.simps [of r])
  qed
qed

lemma ceil_sqrt_spec:
  "n \<le> ceil_sqrt n * ceil_sqrt n" "0 \<le> ceil_sqrt n"
  "ceil_sqrt n = 0 \<or> (ceil_sqrt n - 1) * (ceil_sqrt n - 1) < n"
  using ceil_sqrt_from_bounds [of 0 n] by (simp_all add: ceil_sqrt_def)

lemma ceil_sqrt_le: "0 \<le> k \<Longrightarrow> n \<le> k * k \<Longrightarrow> ceil_sqrt n \<le> k"
proof (rule ccontr)
  assume k: "0 \<le> k" "n \<le> k * k" "\<not> ceil_sqrt n \<le> k"
  then have "k \<le> ceil_sqrt n - 1" by simp
  then have "k * k \<le> (ceil_sqrt n - 1) * (ceil_sqrt n - 1)" using k(1) by (intro mult_mono) auto
  with k ceil_sqrt_spec(3) [of n] show False by auto
qed

lemma ceil_sqrt_le_iff: "0 \<le> k \<Longrightarrow> ceil_sqrt n \<le> k \<longleftrightarrow> n \<le> k * k"
proof
  assume "0 \<le> k" "ceil_sqrt n \<le> k"
  then have "ceil_sqrt n * ceil_sqrt n \<le> k * k" using ceil_sqrt_spec(2) by (intro mult_mono) auto
  with ceil_sqrt_spec(1) show "n \<le> k * k" by (rule order_trans)
qed (rule ceil_sqrt_le)

text \<open>The reference: the least power of two whose square holds \<open>n\<close> shares.\<close>

definition min_square :: "int \<Rightarrow> int" where
  "min_square n = pow2_up (ceil_sqrt n)"

lemma BlobMinSquareSize_eq: "n \<le> 2 ^ 124 \<Longrightarrow> BlobMinSquareSize n = Inr (min_square n)"
proof -
  assume "n \<le> 2 ^ 124"
  then have "ceil_sqrt n \<le> 2 ^ 62" by (intro ceil_sqrt_le) simp_all
  then show ?thesis
    using go_int.RoundUp_correct [of "ceil_sqrt n"]
    by (simp add: BlobMinSquareSize_def da_RoundUpPowerOfTwo_def RoundUpPowerOfTwo_def min_square_def)
qed

lemma min_square_fits: "n \<le> min_square n * min_square n"
  using ceil_sqrt_spec(1) [of n] pow2_up_ge [of "ceil_sqrt n"] ceil_sqrt_spec(2) [of n]
  unfolding min_square_def by (meson mult_mono order_trans)

lemma min_square_least: "n \<le> 2 ^ k * 2 ^ k \<Longrightarrow> min_square n \<le> 2 ^ k"
  unfolding min_square_def by (intro pow2_up_least ceil_sqrt_le) simp_all

lemma min_square_pow2: "\<exists>k. min_square n = 2 ^ k"
  unfolding min_square_def by (rule pow2_up_is_pow2)

lemma min_square_pos [simp]: "0 < min_square n"
  by (simp add: min_square_def)

section \<open>Subtree widths and start indexes\<close>

definition subtree_width :: "int \<Rightarrow> int \<Rightarrow> int" where
  "subtree_width n t = min (pow2_up ((n + t - 1) div t)) (min_square n)"

lemma ceil_div:
  assumes "0 \<le> n" "0 < (t::int)"
  shows "(if n mod t \<noteq> 0 then n div t + 1 else n div t) = (n + t - 1) div t"
    and "(n + t - 1) div t \<le> n"
proof -
  define q r where "q = n div t" and "r = n mod t"
  then have n: "n = t * q + r" "0 \<le> r" "r < t" "0 \<le> q"
    using assms by (simp_all add: pos_imp_zdiv_nonneg_iff)
  have s: "(n + t - 1) div t = (if r \<noteq> 0 then q + 1 else q)"
  proof (cases "r = 0")
    case True
    then show ?thesis using n assms(2) by (simp add: int_div_pos_eq [of _ t q "t - 1"])
  next
    case False
    then show ?thesis using n by (simp add: int_div_pos_eq [of _ t "q + 1" "r - 1"] algebra_simps)
  qed
  then show "(if n mod t \<noteq> 0 then n div t + 1 else n div t) = (n + t - 1) div t"
    by (simp add: q_def r_def)
  have "q \<le> t * q" using n(4) assms(2) by (simp add: mult_le_cancel_right1)
  then show "(n + t - 1) div t \<le> n" using s n by auto
qed

lemma SubTreeWidth_eq:
  assumes "0 \<le> n" "n \<le> 2 ^ 62" "0 < t"
  shows "SubTreeWidth n t = Inr (subtree_width n t)"
proof -
  have "(n + t - 1) div t \<le> 2 ^ 62" using ceil_div(2) [OF assms(1,3)] assms(2) by linarith
  then have "da_RoundUpPowerOfTwo ((n + t - 1) div t) = Inr (pow2_up ((n + t - 1) div t))"
    using go_int.RoundUp_correct by (simp add: da_RoundUpPowerOfTwo_def RoundUpPowerOfTwo_def)
  moreover have "BlobMinSquareSize n = Inr (min_square n)"
    by (rule BlobMinSquareSize_eq) (use assms(2) in simp)
  ultimately show ?thesis
    using assms ceil_div(1) [OF assms(1,3)]
    by (simp add: SubTreeWidth_def subtree_width_def Let_def min_int_def min_def)
qed

lemma subtree_width_pow2: "\<exists>k. subtree_width n t = 2 ^ k"
  using pow2_up_is_pow2 min_square_pow2 by (auto simp: subtree_width_def min_def)

lemma subtree_width_pos [simp]: "0 < subtree_width n t"
  by (simp add: subtree_width_def)

lemma subtree_width_le_square: "subtree_width n t \<le> min_square n"
  by (simp add: subtree_width_def)

definition next_index :: "int \<Rightarrow> int \<Rightarrow> int \<Rightarrow> int" where
  "next_index c n t = (c + subtree_width n t - 1) div subtree_width n t * subtree_width n t"

lemma roundUp_eq:
  assumes "0 \<le> c" "0 < v"
  shows "roundUpByMultipleOf c v = (c + v - 1) div v * v"
proof (cases "c mod v = 0")
  case True
  then have "c div v * v = c" by (metis add.right_neutral div_mult_mod_eq)
  then show ?thesis using True ceil_div(1) [OF assms] assms by (simp add: roundUpByMultipleOf_def)
next
  case False
  then show ?thesis using ceil_div(1) [OF assms] assms by (simp add: roundUpByMultipleOf_def)
qed

lemma NextShareIndex_eq:
  assumes "0 \<le> c" "0 \<le> n" "n \<le> 2 ^ 62" "0 < t"
  shows "NextShareIndex c n t = Inr (next_index c n t)"
  using assms by (simp add: NextShareIndex_def SubTreeWidth_eq roundUp_eq next_index_def)

lemma next_index_aligned: "subtree_width n t dvd next_index c n t"
  by (simp add: next_index_def)

lemma next_index_bounds: "c \<le> next_index c n t" "next_index c n t < c + subtree_width n t"
proof -
  let ?w = "subtree_width n t"
  have "next_index c n t = (c + ?w - 1) - (c + ?w - 1) mod ?w"
    by (simp add: next_index_def minus_mod_eq_div_mult)
  moreover have "0 \<le> (c + ?w - 1) mod ?w" "(c + ?w - 1) mod ?w < ?w" by simp_all
  ultimately show "c \<le> next_index c n t" "next_index c n t < c + ?w" by linarith+
qed

lemma next_index_least:
  assumes "c \<le> i" "subtree_width n t dvd i"
  shows "next_index c n t \<le> i"
proof -
  let ?w = "subtree_width n t"
  from assms(2) obtain k where k: "i = ?w * k" by blast
  obtain j where j: "next_index c n t = ?w * j" using next_index_aligned by blast
  have "?w * j < ?w * (k + 1)"
    using next_index_bounds(2) [of c n t] assms(1) k j by (simp add: algebra_simps)
  then have "j \<le> k" by simp
  then show ?thesis unfolding k j by (simp add: mult_left_mono)
qed

section \<open>Mountain ranges: lemmas\<close>

text \<open>
  What a mountain range is: sizes that add up to the total, each a power of two of at most the
  maximal size, from large to small, with no size below the maximal one repeated.
\<close>

definition mountain_range :: "int \<Rightarrow> int \<Rightarrow> int list \<Rightarrow> bool" where
  "mountain_range n m sizes \<longleftrightarrow>
     sum_list sizes = n \<and> sorted (rev sizes) \<and> (\<forall>x\<in>set sizes. x \<le> m \<and> (\<exists>k. x = 2 ^ k))
     \<and> distinct (filter (\<lambda>x. x \<noteq> m) sizes)"

lemma member_le_sum: "\<forall>x\<in>set xs. 0 \<le> x \<Longrightarrow> x \<in> set xs \<Longrightarrow> x \<le> sum_list xs" for x :: int
proof (induction xs)
  case (Cons y xs)
  moreover have "0 \<le> sum_list xs" using Cons.prems(1) by (intro sum_list_nonneg) auto
  ultimately show ?case by fastforce
qed simp

lemma mountain_range_Cons_max:
  "mountain_range n m sizes \<Longrightarrow> m = 2 ^ k \<Longrightarrow> mountain_range (m + n) m (m # sizes)"
  by (auto simp: mountain_range_def sorted_append)

lemma mountain_range_Cons_small:
  assumes r: "mountain_range n m sizes" and x: "x = 2 ^ k" "x < m" "n < x"
  shows "mountain_range (x + n) m (x # sizes)"
proof -
  have "y < x" if "y \<in> set sizes" for y
  proof -
    have "\<forall>y\<in>set sizes. 0 \<le> y" using r by (auto simp: mountain_range_def)
    from member_le_sum [OF this that] r x(3) show ?thesis by (simp add: mountain_range_def)
  qed
  then show ?thesis
    using r x by (force simp: mountain_range_def sorted_append)
qed

lemma MMR_loop_ok:
  assumes "0 \<le> n" "n \<le> 2 ^ 63" "m = 2 ^ k"
  shows "\<exists>sizes. MMR_loop n m acc = Some (Inr (acc @ sizes)) \<and> mountain_range n m sizes"
  using assms(1,2)
proof (induction "nat n" arbitrary: n acc rule: less_induct)
  case less
  have m: "0 < m" using assms(3) by simp
  consider "n = 0" | "n \<noteq> 0" "m \<le> n" | "0 < n" "n < m" using less.prems by force
  then show ?case
  proof cases
    case 1
    then show ?thesis by (simp add: MMR_loop.simps mountain_range_def)
  next
    case 2
    then obtain sizes where
      "MMR_loop (n - m) m (acc @ [m]) = Some (Inr ((acc @ [m]) @ sizes))" "mountain_range (n - m) m sizes"
      using less.hyps [of "n - m" "acc @ [m]"] less.prems m by auto
    then show ?thesis
      using 2 mountain_range_Cons_max [of "n - m" m sizes k] assms(3)
      by (intro exI [of _ "m # sizes"]) (simp add: MMR_loop.simps [of n])
  next
    case 3
    obtain j where j: "RoundDownPowerOfTwo wrap_uint64 n = Inr (2 ^ j)" "2 ^ j \<le> n" "n < 2 ^ Suc j"
      using RoundDown_uint64 [OF 3(1) less.prems(2)] by blast
    have "(0::int) < 2 ^ j" by simp
    then have "nat (n - 2 ^ j) < nat n" "0 \<le> n - 2 ^ j" "n - 2 ^ j \<le> 2 ^ 63"
      using less.prems j(2) 3(1) by linarith+
    then obtain sizes where
      "MMR_loop (n - 2 ^ j) m (acc @ [2 ^ j]) = Some (Inr ((acc @ [2 ^ j]) @ sizes))"
      "mountain_range (n - 2 ^ j) m sizes"
      using less.hyps [of "n - 2 ^ j" "acc @ [2 ^ j]"] by metis
    moreover from this(2) have "mountain_range (2 ^ j + (n - 2 ^ j)) m (2 ^ j # sizes)"
      by (rule mountain_range_Cons_small) (use j 3 in auto)
    ultimately show ?thesis
      using 3 j(1) by (intro exI [of _ "2 ^ j # sizes"]) (simp add: MMR_loop.simps [of n])
  qed
qed

lemma MerkleMountainRangeSizes_ok:
  assumes "0 \<le> n" "n \<le> 2 ^ 63" "m = 2 ^ k"
  shows "\<exists>sizes. MerkleMountainRangeSizes n m = Inr sizes \<and> mountain_range n m sizes"
  using MMR_loop_ok [OF assms, of "[]"] by (auto simp: MerkleMountainRangeSizes_def)

text \<open>The leaf sets cut the blob's shares into the sizes of the range.\<close>

lemma leafSets_concat:
  assumes "0 \<le> c" "\<forall>x\<in>set sizes. 0 \<le> x" "c + sum_list sizes = int (length shares)"
  shows "\<exists>sets. leafSets shares c sizes = Inr sets \<and> concat sets = ToBytes (drop (nat c) shares)
    \<and> map (\<lambda>set. int (length set)) sets = sizes"
  using assms
proof (induction sizes arbitrary: c)
  case Nil
  then show ?case by (simp add: ToBytes_def)
next
  case (Cons x sizes)
  have "0 \<le> sum_list sizes" using Cons.prems(2) by (intro sum_list_nonneg) auto
  then have le: "nat (c + x) \<le> length shares" "nat c \<le> nat (c + x)" using Cons.prems by auto
  obtain sets where sets: "leafSets shares (c + x) sizes = Inr sets"
    "concat sets = ToBytes (drop (nat (c + x)) shares)" "map (\<lambda>set. int (length set)) sets = sizes"
    using Cons.IH [of "c + x"] Cons.prems by auto
  have d: "nat (c + x) - nat c = nat x" "nat (c + x) = nat c + nat x" using Cons.prems by (simp_all add: nat_add_distrib)
  have "ToBytes (take (nat x) (drop (nat c) shares)) @ ToBytes (drop (nat (c + x)) shares)
      = ToBytes (drop (nat c) shares)"
    unfolding ToBytes_def map_append [symmetric] d(2)
    by (metis add.commute append_take_drop_id drop_drop)
  then show ?case
    using sets le d Cons.prems by (simp add: ToBytes_def)
qed

end
