(* ===== verification/Square.thy ===== *)
theory Square
  imports Inclusion
begin

text \<open>
  \<^verbatim>\<open>pkg/square/builder.go\<close> and \<^verbatim>\<open>square.go\<close>: the data square of a block. The builder keeps an
  over-estimate of the shares its transactions need; \<^verbatim>\<open>Export\<close> lays the shares out. What the code
  calls outside the repository is one record of functions, \<open>ext\<close>: the protobuf code of blob
  transactions and index wrappers, the hash that keys a transaction, and the transaction decoder.
\<close>

section \<open>External functions\<close>

text \<open>
  \<open>x_iwTypeId\<close> is the constant \<^verbatim>\<open>consts.ProtoIndexWrapperTypeID\<close>. \<open>x_decoder\<close> is the decoder as \<^verbatim>\<open>Deconstruct\<close> uses it: the messages of the decoded transaction, each
  being the blob sizes of a \<^verbatim>\<open>MsgPayForBlobs\<close> or \<open>None\<close> for another message type.
\<close>

record ext =
  x_unmarshal :: "bytes \<Rightarrow> BlobTx result"
  x_marshal :: "BlobTx \<Rightarrow> bytes result"
  x_iwSize :: "IndexWrapper \<Rightarrow> nat"
  x_iwMarshal :: "IndexWrapper \<Rightarrow> bytes result"
  x_unwrap :: "bytes \<Rightarrow> IndexWrapper option"
  x_key :: "bytes \<Rightarrow> TxKey"
  x_decoder :: "bytes \<Rightarrow> uint32 list option list result"
  x_iwTypeId :: string

section \<open>The builder\<close>

record Element =
  el_Blob :: Blob
  el_PfbIndex :: nat
  el_BlobIndex :: nat
  el_NumShares :: int
  el_MaxPadding :: int

record SqBuilder =
  sb_maxCapacity :: int
  sb_currentSize :: int
  sb_Txs :: "bytes list"
  sb_Pfbs :: "IndexWrapper list"
  sb_Blobs :: "Element list"
  sb_TxCounter :: CompactShareCounter
  sb_PfbCounter :: CompactShareCounter
  sb_done :: bool
  sb_subtreeRootThreshold :: int
  sb_appVersion :: uint64

type_synonym Square = "Share list"

definition newElement :: "Blob \<Rightarrow> nat \<Rightarrow> nat \<Rightarrow> int \<Rightarrow> Element result" where
  "newElement blob pfbIndex blobIndex subtreeRootThreshold =
     bindR (SparseSharesNeeded (of_nat (length (blob_Data blob)))) (\<lambda>numShares.
     bindR (SubTreeWidth numShares subtreeRootThreshold) (\<lambda>w.
       Inr \<lparr>el_Blob = blob, el_PfbIndex = pfbIndex, el_BlobIndex = blobIndex,
            el_NumShares = numShares, el_MaxPadding = w - 1\<rparr>))"

definition maxShareOffset :: "Element \<Rightarrow> int" where
  "maxShareOffset e = el_NumShares e + el_MaxPadding e"

definition worstCaseShareIndexes :: "nat \<Rightarrow> uint64 \<Rightarrow> uint32 list" where
  "worstCaseShareIndexes blobs appVersion =
     (let maxSquareSize = SquareSizeUpperBound appVersion in
      map (\<lambda>_. word_of_int (maxSquareSize * maxSquareSize)) [0..<blobs])"

definition canFit :: "SqBuilder \<Rightarrow> int \<Rightarrow> bool" where
  "canFit b shareNum \<longleftrightarrow> sb_currentSize b + shareNum \<le> sb_maxCapacity b"

definition IsEmpty_sb :: "SqBuilder \<Rightarrow> bool" where
  "IsEmpty_sb b \<longleftrightarrow> Size_csc (sb_TxCounter b) = 0 \<and> Size_csc (sb_PfbCounter b) = 0"

definition AppendTx :: "SqBuilder \<Rightarrow> bytes \<Rightarrow> SqBuilder \<times> bool" where
  "AppendTx b tx =
     (let (c, lenChange) = Add_csc (sb_TxCounter b) (int (length tx)); b = b\<lparr>sb_TxCounter := c\<rparr> in
      if canFit b lenChange
      then (b\<lparr>sb_Txs := sb_Txs b @ [tx], sb_currentSize := sb_currentSize b + lenChange,
              sb_done := False\<rparr>, True)
      else (b\<lparr>sb_TxCounter := Revert_csc (sb_TxCounter b)\<rparr>, False))"

fun blobElements :: "nat \<Rightarrow> int \<Rightarrow> nat \<Rightarrow> Blob list \<Rightarrow> Element list result" where
  "blobElements pfbIndex threshold idx [] = Inr []"
| "blobElements pfbIndex threshold idx (blob # blobs) =
     bindR (newElement blob pfbIndex idx threshold) (\<lambda>e.
     bindR (blobElements pfbIndex threshold (Suc idx) blobs) (\<lambda>es. Inr (e # es)))"

definition AppendBlobTx :: "ext \<Rightarrow> SqBuilder \<Rightarrow> BlobTx \<Rightarrow> (SqBuilder \<times> bool) result" where
  "AppendBlobTx x b blobTx =
     (let iw = \<lparr>iw_Tx = btx_Tx blobTx,
                iw_ShareIndexes = worstCaseShareIndexes (length (btx_Blobs blobTx)) (sb_appVersion b),
                iw_TypeId = x_iwTypeId x\<rparr>;
          sz = x_iwSize x iw;
          (c, pfbShareDiff) = Add_csc (sb_PfbCounter b) (int sz);
          b = b\<lparr>sb_PfbCounter := c\<rparr>
      in bindR (blobElements (length (sb_Pfbs b)) (sb_subtreeRootThreshold b) 0 (btx_Blobs blobTx))
           (\<lambda>elements.
              let maxBlobShareCount = sum_list (map maxShareOffset elements) in
              if canFit b (pfbShareDiff + maxBlobShareCount)
              then Inr (b\<lparr>sb_Blobs := sb_Blobs b @ elements, sb_Pfbs := sb_Pfbs b @ [iw],
                          sb_currentSize := sb_currentSize b + (pfbShareDiff + maxBlobShareCount),
                          sb_done := False\<rparr>, True)
              else Inr (b\<lparr>sb_PfbCounter := Revert_csc (sb_PfbCounter b)\<rparr>, False)))"

fun NewBuilder_loop :: "ext \<Rightarrow> bool \<Rightarrow> bytes list \<Rightarrow> SqBuilder \<Rightarrow> SqBuilder result" where
  "NewBuilder_loop x seenFirstBlobTx [] b = Inr b"
| "NewBuilder_loop x seenFirstBlobTx (tx # txs) b =
     (let (blobTx, isBlobTx) = UnmarshalBlobTx (x_unmarshal x) tx in
      if isBlobTx then
        bindR (AppendBlobTx x b blobTx) (\<lambda>(b, ok).
          if \<not> ok then Inl (Err ''not enough space to append blob tx'')
          else NewBuilder_loop x True txs b)
      else if seenFirstBlobTx then Inl (Err ''normal tx can not be appended after blob tx'')
      else
        let (b, ok) = AppendTx b tx in
        if \<not> ok then Inl (Err ''not enough space to append tx'')
        else NewBuilder_loop x seenFirstBlobTx txs b)"

definition NewBuilder_sq :: "ext \<Rightarrow> int \<Rightarrow> uint64 \<Rightarrow> bytes list \<Rightarrow> SqBuilder result" where
  "NewBuilder_sq x maxSquareSize appVersion txs =
     (if maxSquareSize \<le> 0 then Inl (Err ''max square size must be strictly positive'')
      else if \<not> IsPowerOfTwo wrap_int maxSquareSize
      then Inl (Err ''max square size must be a power of two'')
      else NewBuilder_loop x False txs
        \<lparr>sb_maxCapacity = wrap_int (maxSquareSize * maxSquareSize), sb_currentSize = 0, sb_Txs = [],
         sb_Pfbs = [], sb_Blobs = [], sb_TxCounter = NewCompactShareCounter,
         sb_PfbCounter = NewCompactShareCounter, sb_done = False,
         sb_subtreeRootThreshold = SubtreeRootThreshold appVersion, sb_appVersion = appVersion\<rparr>)"

section \<open>Export\<close>

text \<open>\<^verbatim>\<open>b.Pfbs[i].ShareIndexes[j] = v\<close>\<close>

definition set_share_index ::
    "IndexWrapper list \<Rightarrow> nat \<Rightarrow> nat \<Rightarrow> uint32 \<Rightarrow> IndexWrapper list result" where
  "set_share_index pfbs i j v =
     bindR (index pfbs i) (\<lambda>iw.
       if j < length (iw_ShareIndexes iw)
       then Inr (pfbs[i := iw\<lparr>iw_ShareIndexes := (iw_ShareIndexes iw)[j := v]\<rparr>])
       else Inl (Panic ''index out of range''))"

record export_state =
  es_cursor :: int
  es_nonReservedStart :: int
  es_endOfLastBlob :: int
  es_Pfbs :: "IndexWrapper list"
  es_blobWriter :: SparseShareSplitter

definition Export_blob :: "int \<Rightarrow> nat \<Rightarrow> Element \<Rightarrow> export_state \<Rightarrow> export_state result" where
  "Export_blob threshold i element st =
     bindR (NextShareIndex (es_cursor st) (el_NumShares element) threshold) (\<lambda>cursor.
       let nonReservedStart = (if i = 0 then cursor else es_nonReservedStart st);
           padding = cursor - es_endOfLastBlob st in
       if padding > el_MaxPadding element
       then Inl (Err ''blob has more padding shares than the max possible'')
       else
         bindR (set_share_index (es_Pfbs st) (el_PfbIndex element) (el_BlobIndex element)
                  (word_of_int cursor)) (\<lambda>pfbs.
         bindR (if i > 0 then WriteNamespacePaddingShares (es_blobWriter st) padding
                else Inr (es_blobWriter st)) (\<lambda>blobWriter.
         bindR (Write_sss blobWriter (el_Blob element)) (\<lambda>blobWriter.
           Inr \<lparr>es_cursor = cursor + el_NumShares element, es_nonReservedStart = nonReservedStart,
                es_endOfLastBlob = cursor + el_NumShares element, es_Pfbs = pfbs,
                es_blobWriter = blobWriter\<rparr>))))"

fun Export_blobs :: "int \<Rightarrow> nat \<Rightarrow> Element list \<Rightarrow> export_state \<Rightarrow> export_state result" where
  "Export_blobs threshold i [] st = Inr st"
| "Export_blobs threshold i (e # es) st =
     bindR (Export_blob threshold i e st) (Export_blobs threshold (Suc i) es)"

definition EmptySquareShares :: "Share list result" where
  "EmptySquareShares = TailPaddingShares (int MinShareCount)"

definition EmptySquare :: "Square result" where
  "EmptySquare = EmptySquareShares"

definition WriteSquare :: "CompactShareSplitter \<Rightarrow> CompactShareSplitter \<Rightarrow> SparseShareSplitter \<Rightarrow>
    int \<Rightarrow> int \<Rightarrow> Square result" where
  "WriteSquare txWriter pfbWriter blobWriter nonReservedStart squareSize =
     (let totalShares = squareSize * squareSize;
          pfbStartIndex = Count_css txWriter;
          paddingStartIndex = pfbStartIndex + Count_css pfbWriter in
      if nonReservedStart < int paddingStartIndex
      then Inl (Err ''nonReservedStart is too small to fit all PFBs and txs'')
      else bindR (ReservedPaddingShares (nonReservedStart - int paddingStartIndex)) (\<lambda>padding.
        let endOfLastBlob = nonReservedStart + int (Count_sss blobWriter) in
        if totalShares < endOfLastBlob
        then Inl (Err ''square size is too small to fit all blobs'')
        else bindR (Export_css txWriter) (\<lambda>(_, txShares).
             bindR (Export_css pfbWriter) (\<lambda>(_, pfbShares).
               let square = replicate (nat totalShares) \<lparr>share_data = []\<rparr>;
                   square = overwrite square 0 txShares;
                   square = overwrite square pfbStartIndex pfbShares;
                   square = (if Count_sss blobWriter > 0
                             then overwrite (overwrite square paddingStartIndex padding)
                                    (nat nonReservedStart) (Export_sss blobWriter)
                             else square)
               in if totalShares > endOfLastBlob
                  then bindR (TailPaddingShares (totalShares - endOfLastBlob)) (\<lambda>tail.
                         Inr (overwrite square (nat endOfLastBlob) tail))
                  else Inr square))))"

definition sort_elements :: "Element list \<Rightarrow> Element list" where
  "sort_elements es = sort_key (\<lambda>e. Bytes_ns (Namespace_blob (el_Blob e))) es"

definition write_pfbs ::
    "ext \<Rightarrow> IndexWrapper list \<Rightarrow> CompactShareSplitter \<Rightarrow> CompactShareSplitter result" where
  "write_pfbs x pfbs w =
     foldR (\<lambda>iw w. bindR (x_iwMarshal x iw) (\<lambda>iwBytes. WriteTx (x_key x) w iwBytes)) pfbs w"

definition Export_sq :: "ext \<Rightarrow> SqBuilder \<Rightarrow> (SqBuilder \<times> Square) result" where
  "Export_sq x b =
     (if IsEmpty_sb b then bindR EmptySquare (\<lambda>sq. Inr (b, sq))
      else
        bindR (BlobMinSquareSize (sb_currentSize b)) (\<lambda>ss.
        let b = b\<lparr>sb_Blobs := sort_elements (sb_Blobs b)\<rparr> in
        bindR (NewCompactShareSplitter TxNamespace ShareVersionZero) (\<lambda>txWriter.
        bindR (foldR (\<lambda>tx w. WriteTx (x_key x) w tx) (sb_Txs b) txWriter) (\<lambda>txWriter.
        let nonReservedStart = Size_csc (sb_TxCounter b) + Size_csc (sb_PfbCounter b) in
        bindR (Export_blobs (sb_subtreeRootThreshold b) 0 (sb_Blobs b)
                 \<lparr>es_cursor = nonReservedStart, es_nonReservedStart = nonReservedStart,
                  es_endOfLastBlob = nonReservedStart, es_Pfbs = sb_Pfbs b,
                  es_blobWriter = NewSparseShareSplitter\<rparr>) (\<lambda>st.
        let b = b\<lparr>sb_Pfbs := es_Pfbs st\<rparr> in
        bindR (NewCompactShareSplitter PayForBlobNamespace ShareVersionZero) (\<lambda>pfbWriter.
        bindR (write_pfbs x (sb_Pfbs b) pfbWriter) (\<lambda>pfbWriter.
        if Size_csc (sb_PfbCounter b) < int (Count_css pfbWriter)
        then Inl (Err ''pfbCounter.Size() < pfbTxWriter.Count()'')
        else
          bindR (WriteSquare txWriter pfbWriter (es_blobWriter st) (es_nonReservedStart st) ss)
            (\<lambda>square. Inr (b\<lparr>sb_done := True\<rparr>, square)))))))))"

section \<open>Queries of the builder\<close>

definition ensure_exported :: "ext \<Rightarrow> SqBuilder \<Rightarrow> SqBuilder result" where
  "ensure_exported x b =
     (if \<not> sb_done b then bindR (Export_sq x b) (\<lambda>(b, _). Inr b) else Inr b)"

definition FindBlobStartingIndex :: "ext \<Rightarrow> SqBuilder \<Rightarrow> int \<Rightarrow> int \<Rightarrow> (SqBuilder \<times> int) result" where
  "FindBlobStartingIndex x b pfbIndex blobIndex =
     (if pfbIndex < int (length (sb_Txs b)) then Inl (Err ''pfbIndex does not match a pfb'')
      else
        let pfbIndex = pfbIndex - int (length (sb_Txs b)) in
        if pfbIndex \<ge> int (length (sb_Pfbs b)) then Inl (Err ''pfbIndex out of range'')
        else if blobIndex < 0 then Inl (Err ''blobIndex must not be negative'')
        else bindR (ensure_exported x b) (\<lambda>b.
          bindR (index (sb_Pfbs b) (nat pfbIndex)) (\<lambda>iw.
            if blobIndex \<ge> int (length (iw_ShareIndexes iw)) then Inl (Err ''blobIndex out of range'')
            else Inr (b, uint (iw_ShareIndexes iw ! nat blobIndex)))))"

definition BlobShareLength :: "SqBuilder \<Rightarrow> int \<Rightarrow> int \<Rightarrow> int result" where
  "BlobShareLength b pfbIndex blobIndex =
     (if pfbIndex < int (length (sb_Txs b)) then Inl (Err ''pfbIndex does not match a pfb'')
      else
        let pfbIndex = pfbIndex - int (length (sb_Txs b)) in
        if pfbIndex \<ge> int (length (sb_Pfbs b)) then Inl (Err ''pfbIndex out of range'')
        else if blobIndex < 0 then Inl (Err ''blobIndex must not be negative'')
        else
          (case find (\<lambda>e. int (el_PfbIndex e) = pfbIndex \<and> int (el_BlobIndex e) = blobIndex)
                  (sb_Blobs b) of
             Some e \<Rightarrow> Inr (el_NumShares e)
           | None \<Rightarrow> Inl (Err ''blob not found'')))"

definition FindTxShareRange :: "ext \<Rightarrow> SqBuilder \<Rightarrow> int \<Rightarrow> (SqBuilder \<times> Range) result" where
  "FindTxShareRange x b txIndex =
     bindR (ensure_exported x b) (\<lambda>b.
       if txIndex < 0 then Inl (Err ''txIndex must not be negative'')
       else if txIndex \<ge> int (length (sb_Txs b) + length (sb_Pfbs b))
       then Inl (Err ''txIndex out of range'')
       else
         let n = nat txIndex;
             add = (\<lambda>len c. fst (Add_csc c (int len)));
             txWriter = fold add (map length (take n (sb_Txs b))) NewCompactShareCounter;
             pfbWriter = fold add (map (x_iwSize x) (take (n - length (sb_Txs b)) (sb_Pfbs b)))
                           NewCompactShareCounter;
             start = Size_csc txWriter + Size_csc pfbWriter - 1
         in if n < length (sb_Txs b) then
              let start = (if Remainder_csc txWriter = 0 then start + 1 else start);
                  txWriter = add (length (sb_Txs b ! n)) txWriter
              in Inr (b, NewRange start (Size_csc txWriter + Size_csc pfbWriter))
            else
              let start = (if Remainder_csc pfbWriter = 0 then start + 1 else start);
                  pfbWriter = add (x_iwSize x (sb_Pfbs b ! (n - length (sb_Txs b)))) pfbWriter
              in Inr (b, NewRange start (Size_csc txWriter + Size_csc pfbWriter)))"

definition GetWrappedPFB :: "ext \<Rightarrow> SqBuilder \<Rightarrow> int \<Rightarrow> (SqBuilder \<times> IndexWrapper) result" where
  "GetWrappedPFB x b txIndex =
     (if txIndex < 0 then Inl (Err ''txIndex must not be negative'')
      else if txIndex < int (length (sb_Txs b)) then Inl (Err ''txIndex does not match a pfb'')
      else if txIndex \<ge> int (length (sb_Txs b) + length (sb_Pfbs b))
      then Inl (Err ''txIndex out of range'')
      else bindR (ensure_exported x b) (\<lambda>b.
        bindR (index (sb_Pfbs b) (nat txIndex - length (sb_Txs b))) (\<lambda>iw. Inr (b, iw))))"

definition NumTxs :: "SqBuilder \<Rightarrow> nat" where
  "NumTxs b = length (sb_Txs b) + length (sb_Pfbs b)"

section \<open>Squares\<close>

fun Build_loop :: "ext \<Rightarrow> bytes list \<Rightarrow> SqBuilder \<Rightarrow> bytes list \<Rightarrow> bytes list \<Rightarrow>
    (SqBuilder \<times> bytes list \<times> bytes list) result" where
  "Build_loop x [] b normalTxs blobTxs = Inr (b, normalTxs, blobTxs)"
| "Build_loop x (tx # txs) b normalTxs blobTxs =
     (let (blobTx, isBlobTx) = UnmarshalBlobTx (x_unmarshal x) tx in
      if isBlobTx then
        bindR (AppendBlobTx x b blobTx) (\<lambda>(b, ok).
          Build_loop x txs b normalTxs (if ok then blobTxs @ [tx] else blobTxs))
      else
        let (b, ok) = AppendTx b tx in
        Build_loop x txs b (if ok then normalTxs @ [tx] else normalTxs) blobTxs)"

definition Build :: "ext \<Rightarrow> bytes list \<Rightarrow> uint64 \<Rightarrow> int \<Rightarrow> (Square \<times> bytes list) result" where
  "Build x txs appVersion maxSquareSize =
     bindR (NewBuilder_sq x maxSquareSize appVersion []) (\<lambda>builder.
     bindR (Build_loop x txs builder [] []) (\<lambda>(builder, normalTxs, blobTxs).
     bindR (Export_sq x builder) (\<lambda>(_, square). Inr (square, normalTxs @ blobTxs))))"

definition Construct :: "ext \<Rightarrow> bytes list \<Rightarrow> uint64 \<Rightarrow> int \<Rightarrow> Square result" where
  "Construct x txs appVersion maxSquareSize =
     bindR (NewBuilder_sq x maxSquareSize appVersion txs) (\<lambda>builder.
     bindR (Export_sq x builder) (\<lambda>(_, square). Inr square))"

definition TxShareRange :: "ext \<Rightarrow> bytes list \<Rightarrow> int \<Rightarrow> uint64 \<Rightarrow> Range result" where
  "TxShareRange x txs txIndex appVersion =
     bindR (NewBuilder_sq x (SquareSizeUpperBound appVersion) appVersion txs) (\<lambda>builder.
     bindR (FindTxShareRange x builder txIndex) (\<lambda>(_, r). Inr r))"

definition BlobShareRange :: "ext \<Rightarrow> bytes list \<Rightarrow> int \<Rightarrow> int \<Rightarrow> uint64 \<Rightarrow> Range result" where
  "BlobShareRange x txs txIndex blobIndex appVersion =
     bindR (NewBuilder_sq x (SquareSizeUpperBound appVersion) appVersion txs) (\<lambda>builder.
     bindR (FindBlobStartingIndex x builder txIndex blobIndex) (\<lambda>(builder, start).
     bindR (BlobShareLength builder txIndex blobIndex) (\<lambda>blobLen.
       Inr (NewRange start (start + blobLen)))))"

definition Size_sq :: "Square \<Rightarrow> int result" where
  "Size_sq s = da_SquareSize (int (length s))"

definition Equals_sq :: "Square \<Rightarrow> Square \<Rightarrow> bool" where
  "Equals_sq s other \<longleftrightarrow>
     length s = length other
     \<and> list_all (\<lambda>i. ToBytes_sh (s ! i) = ToBytes_sh (other ! i)) [0..<length s]"

definition IsEmpty_sq :: "Square \<Rightarrow> bool result" where
  "IsEmpty_sq s = bindR EmptySquare (\<lambda>e. Inr (Equals_sq s e))"

text \<open>An error of the range lookup is swallowed: the source returns \<^verbatim>\<open>nil\<close> for it.\<close>

definition slice_int :: "'a list \<Rightarrow> int \<Rightarrow> int \<Rightarrow> 'a list result" where
  "slice_int xs i j =
     (if i < 0 \<or> j < 0 then Inl (Panic ''slice bounds out of range'') else slice xs (nat i) (nat j))"

definition WrappedPFBs :: "Square \<Rightarrow> bytes list result" where
  "WrappedPFBs s =
     (case GetShareRangeForNamespace s PayForBlobNamespace of
        Inl (Err _) \<Rightarrow> Inr []
      | Inl e \<Rightarrow> Inl e
      | Inr r \<Rightarrow> bindR (slice_int s (Start r) (End r)) ParseTxs)"

fun Deconstruct_blobs :: "Square \<Rightarrow> uint32 list \<Rightarrow> uint32 list \<Rightarrow> Blob list result" where
  "Deconstruct_blobs s (shareIndex # idxs) (sz # szs) =
     bindR (SparseSharesNeeded sz) (\<lambda>n.
     bindR (slice_int s (uint shareIndex) (uint shareIndex + n)) (\<lambda>ss.
     bindR (ParseBlobs ss) (\<lambda>parsedBlobs.
       if length parsedBlobs \<noteq> 1 then Inl (Err ''expected to parse a single blob'')
       else bindR (Deconstruct_blobs s idxs szs) (\<lambda>blobs. Inr (hd parsedBlobs # blobs)))))"
| "Deconstruct_blobs s _ _ = Inr []"

definition Deconstruct_pfb :: "ext \<Rightarrow> Square \<Rightarrow> bytes \<Rightarrow> bytes list \<Rightarrow> bytes list result" where
  "Deconstruct_pfb x s wpfbBytes txs =
     (case x_unwrap x wpfbBytes of
        None \<Rightarrow> Inl (Err ''expected wrapped PFB'')
      | Some wpfb \<Rightarrow>
          if length (iw_ShareIndexes wpfb) = 0 then Inl (Err ''wrapped PFB has no blobs attached'')
          else bindR (x_decoder x (iw_Tx wpfb)) (\<lambda>pfbMsgs.
            if length pfbMsgs \<noteq> 1 then Inl (Err ''expected PFB to have 1 message'')
            else
              (case hd pfbMsgs of
                 None \<Rightarrow> Inl (Err ''expected PFB message'')
               | Some blobSizes \<Rightarrow>
                   if length blobSizes \<noteq> length (iw_ShareIndexes wpfb)
                   then Inl (Err ''expected PFB to have as many blob sizes as share indexes'')
                   else bindR (Deconstruct_blobs s (iw_ShareIndexes wpfb) blobSizes) (\<lambda>blobs.
                        bindR (MarshalBlobTx (x_marshal x) (iw_Tx wpfb) blobs) (\<lambda>tx.
                          Inr (txs @ [tx]))))))"

definition Deconstruct :: "ext \<Rightarrow> Square \<Rightarrow> bytes list result" where
  "Deconstruct x s =
     bindR (IsEmpty_sq s) (\<lambda>empty.
       if empty then Inr []
       else bindR (GetShareRangeForNamespace s TxNamespace) (\<lambda>txShareRange.
         if Start txShareRange \<noteq> 0 then Inl (Err ''expected txs to start at index 0'')
         else
           bindR (slice_from s (nat (End txShareRange))) (\<lambda>rest.
           bindR (GetShareRangeForNamespace rest PayForBlobNamespace) (\<lambda>wpfbShareRange.
             if IsEmpty_range wpfbShareRange
             then bindR (slice_int s (Start txShareRange) (End txShareRange)) ParseTxs
             else if Start wpfbShareRange \<noteq> 0
             then Inl (Err ''expected PFBs to start directly after non PFBs'')
             else
               let wpfbShareRange = Add_range wpfbShareRange (End txShareRange) in
               bindR (bindR (slice_int s (Start txShareRange) (End txShareRange)) ParseTxs) (\<lambda>txs.
               bindR (bindR (slice_int s (Start wpfbShareRange) (End wpfbShareRange)) ParseTxs)
                 (\<lambda>wpfbs. foldR (Deconstruct_pfb x s) wpfbs txs))))))"

end
