(* ===== verification/SquareAgreement.thy ===== *)
theory SquareAgreement
  imports Square
begin

text \<open>
  The builder's bookkeeping, and the agreement of the proposer with the validators: what \<^verbatim>\<open>Build\<close>
  makes of any prioritised transactions, \<^verbatim>\<open>Construct\<close> makes of the transactions \<^verbatim>\<open>Build\<close> returned.
  \<open>built\<close> says what a builder holds in terms of the transactions accepted so far, in the order of
  the block: it does not depend on the order in which they arrived or on rejected ones.
\<close>

section \<open>What a builder holds\<close>

definition worst_iw :: "ext \<Rightarrow> uint64 \<Rightarrow> BlobTx \<Rightarrow> IndexWrapper" where
  "worst_iw x v btx =
     \<lparr>iw_Tx = btx_Tx btx, iw_ShareIndexes = worstCaseShareIndexes (length (btx_Blobs btx)) v,
      iw_TypeId = x_iwTypeId x\<rparr>"

definition tx_bytes :: "bytes list \<Rightarrow> nat" where
  "tx_bytes txs = sum_list (map (unit_size \<circ> length) txs)"

definition pfb_bytes :: "ext \<Rightarrow> uint64 \<Rightarrow> BlobTx list \<Rightarrow> nat" where
  "pfb_bytes x v btxs = sum_list (map (unit_size \<circ> x_iwSize x \<circ> worst_iw x v) btxs)"

fun elements_from :: "int \<Rightarrow> nat \<Rightarrow> BlobTx list \<Rightarrow> Element list result" where
  "elements_from t i [] = Inr []"
| "elements_from t i (btx # btxs) =
     bindR (blobElements i t 0 (btx_Blobs btx)) (\<lambda>es.
     bindR (elements_from t (Suc i) btxs) (\<lambda>rest. Inr (es @ rest)))"

definition total_size :: "ext \<Rightarrow> uint64 \<Rightarrow> bytes list \<Rightarrow> BlobTx list \<Rightarrow> Element list \<Rightarrow> int" where
  "total_size x v txs btxs es =
     int (needed 474 478 (tx_bytes txs)) + int (needed 474 478 (pfb_bytes x v btxs))
     + sum_list (map maxShareOffset es)"

definition built ::
    "ext \<Rightarrow> uint64 \<Rightarrow> int \<Rightarrow> SqBuilder \<Rightarrow> bytes list \<Rightarrow> BlobTx list \<Rightarrow> bool" where
  "built x v mx b txs btxs \<longleftrightarrow>
     sb_Txs b = txs \<and> sb_Pfbs b = map (worst_iw x v) btxs
     \<and> elements_from (sb_subtreeRootThreshold b) 0 btxs = Inr (sb_Blobs b)
     \<and> counts (sb_TxCounter b) (tx_bytes txs) \<and> counts (sb_PfbCounter b) (pfb_bytes x v btxs)
     \<and> sb_currentSize b = total_size x v txs btxs (sb_Blobs b)
     \<and> sb_currentSize b \<le> sb_maxCapacity b
     \<and> sb_maxCapacity b = mx \<and> sb_appVersion b = v
     \<and> sb_subtreeRootThreshold b = SubtreeRootThreshold v"

lemma elements_from_append:
  "elements_from t i (btxs @ [btx]) =
     bindR (elements_from t i btxs) (\<lambda>es.
     bindR (blobElements (i + length btxs) t 0 (btx_Blobs btx)) (\<lambda>new. Inr (es @ new)))"
  by (induction btxs arbitrary: i) (auto simp: bindR_assoc intro!: bindR_cong)

lemma built_AppendTx:
  assumes "built x v mx b txs btxs"
  shows "AppendTx b tx = (b', ok) \<Longrightarrow> built x v mx b' (if ok then txs @ [tx] else txs) btxs"
    and "snd (AppendTx b tx) \<longleftrightarrow> total_size x v (txs @ [tx]) btxs (sb_Blobs b) \<le> mx"
proof -
  obtain c d where add: "Add_csc (sb_TxCounter b) (int (length tx)) = (c, d)" by force
  have cnt: "counts (sb_TxCounter b) (tx_bytes txs)" using assms by (simp add: built_def)
  have d: "d = int (needed 474 478 (tx_bytes (txs @ [tx]))) - int (needed 474 478 (tx_bytes txs))"
    using Add_diff_counts [OF cnt, of "length tx"] add by (simp add: tx_bytes_def)
  have c: "counts c (tx_bytes (txs @ [tx]))" "counts (Revert_csc c) (tx_bytes txs)"
    using counts_Add [OF cnt, of "length tx"] counts_Revert [OF cnt, of "int (length tx)"] add
    by (simp_all add: tx_bytes_def)
  show "snd (AppendTx b tx) \<longleftrightarrow> total_size x v (txs @ [tx]) btxs (sb_Blobs b) \<le> mx"
    using assms d by (auto simp: AppendTx_def add canFit_def built_def total_size_def Let_def)
  show "AppendTx b tx = (b', ok) \<Longrightarrow> built x v mx b' (if ok then txs @ [tx] else txs) btxs"
    using assms c d
    by (auto simp: AppendTx_def add canFit_def built_def total_size_def Let_def split: if_splits)
qed

lemma built_AppendBlobTx:
  assumes "built x v mx b txs btxs"
  shows "AppendBlobTx x b btx = Inr (b', ok) \<Longrightarrow>
      built x v mx b' txs (if ok then btxs @ [btx] else btxs)"
    and "elements_from (SubtreeRootThreshold v) 0 (btxs @ [btx]) = Inr es \<Longrightarrow>
      total_size x v txs (btxs @ [btx]) es \<le> mx \<Longrightarrow> \<exists>b'. AppendBlobTx x b btx = Inr (b', True)"
proof -
  let ?sz = "x_iwSize x (worst_iw x v btx)"
  obtain c d where add: "Add_csc (sb_PfbCounter b) (int ?sz) = (c, d)" by force
  have b: "sb_Pfbs b = map (worst_iw x v) btxs" "sb_appVersion b = v"
    "sb_subtreeRootThreshold b = SubtreeRootThreshold v"
    "elements_from (SubtreeRootThreshold v) 0 btxs = Inr (sb_Blobs b)"
    using assms by (auto simp: built_def)
  have cnt: "counts (sb_PfbCounter b) (pfb_bytes x v btxs)" using assms by (simp add: built_def)
  have d: "d = int (needed 474 478 (pfb_bytes x v (btxs @ [btx]))) - int (needed 474 478 (pfb_bytes x v btxs))"
    using Add_diff_counts [OF cnt, of ?sz] add by (simp add: pfb_bytes_def)
  have c: "counts c (pfb_bytes x v (btxs @ [btx]))" "counts (Revert_csc c) (pfb_bytes x v btxs)"
    using counts_Add [OF cnt, of ?sz] counts_Revert [OF cnt, of "int ?sz"] add
    by (simp_all add: pfb_bytes_def)
  have app: "AppendBlobTx x b btx =
      bindR (blobElements (length btxs) (SubtreeRootThreshold v) 0 (btx_Blobs btx)) (\<lambda>new.
        if sb_currentSize b + (d + sum_list (map maxShareOffset new)) \<le> sb_maxCapacity b
        then Inr (b\<lparr>sb_PfbCounter := c, sb_Blobs := sb_Blobs b @ new,
                    sb_Pfbs := sb_Pfbs b @ [worst_iw x v btx],
                    sb_currentSize := sb_currentSize b + (d + sum_list (map maxShareOffset new)),
                    sb_done := False\<rparr>, True)
        else Inr (b\<lparr>sb_PfbCounter := Revert_csc c\<rparr>, False))"
    using b add by (simp add: AppendBlobTx_def Let_def worst_iw_def [symmetric] canFit_def
        cong: bindR_cong if_cong)
  show "AppendBlobTx x b btx = Inr (b', ok) \<Longrightarrow> built x v mx b' txs (if ok then btxs @ [btx] else btxs)"
    using assms c d b
    by (auto simp: app result_simps built_def total_size_def elements_from_append split: if_splits)
  assume es: "elements_from (SubtreeRootThreshold v) 0 (btxs @ [btx]) = Inr es"
    and le: "total_size x v txs (btxs @ [btx]) es \<le> mx"
  obtain new where new: "blobElements (length btxs) (SubtreeRootThreshold v) 0 (btx_Blobs btx) = Inr new"
      "es = sb_Blobs b @ new"
    using es b(4) by (auto simp: elements_from_append result_simps)
  have "sb_currentSize b + (d + sum_list (map maxShareOffset new)) \<le> sb_maxCapacity b"
    using le d assms new(2) by (simp add: built_def total_size_def)
  then show "\<exists>b'. AppendBlobTx x b btx = Inr (b', True)" unfolding app new(1) by simp
qed

section \<open>Building\<close>

abbreviation decode :: "ext \<Rightarrow> bytes \<Rightarrow> BlobTx" where
  "decode x tx \<equiv> fst (UnmarshalBlobTx (x_unmarshal x) tx)"

abbreviation is_blob_tx :: "ext \<Rightarrow> bytes \<Rightarrow> bool" where
  "is_blob_tx x tx \<equiv> snd (UnmarshalBlobTx (x_unmarshal x) tx)"

definition sorted_block :: "ext \<Rightarrow> bytes list \<Rightarrow> bytes list \<Rightarrow> bool" where
  "sorted_block x normal blob \<longleftrightarrow>
     list_all (\<lambda>tx. \<not> is_blob_tx x tx) normal \<and> list_all (is_blob_tx x) blob"

lemma Build_loop_built:
  assumes "Build_loop x txs b normal blob = Inr (b', normal', blob')"
    and "built x v mx b normal (map (decode x) blob)" "sorted_block x normal blob"
  shows "built x v mx b' normal' (map (decode x) blob') \<and> sorted_block x normal' blob'"
  using assms
proof (induction txs arbitrary: b normal blob)
  case (Cons tx txs)
  obtain btx isb where u: "UnmarshalBlobTx (x_unmarshal x) tx = (btx, isb)" by force
  show ?case
  proof (cases isb)
    case True
    with Cons.prems(1) u obtain b1 ok where ap: "AppendBlobTx x b btx = Inr (b1, ok)"
      and rest: "Build_loop x txs b1 normal (if ok then blob @ [tx] else blob) = Inr (b', normal', blob')"
      by (auto simp: result_simps)
    have "built x v mx b1 normal (map (decode x) (if ok then blob @ [tx] else blob))"
      using built_AppendBlobTx(1) [OF Cons.prems(2) ap] u by (auto split: if_splits)
    moreover have "sorted_block x normal (if ok then blob @ [tx] else blob)"
      using Cons.prems(3) u True by (auto simp: sorted_block_def)
    ultimately show ?thesis by (rule Cons.IH [OF rest])
  next
    case False
    obtain b1 ok where ap: "AppendTx b tx = (b1, ok)" by force
    with Cons.prems(1) u False
    have rest: "Build_loop x txs b1 (if ok then normal @ [tx] else normal) blob = Inr (b', normal', blob')"
      by simp
    have "sorted_block x (if ok then normal @ [tx] else normal) blob"
      using Cons.prems(3) u False by (auto simp: sorted_block_def)
    with built_AppendTx(1) [OF Cons.prems(2) ap] show ?thesis by (intro Cons.IH [OF rest])
  qed
qed simp

section \<open>Constructing\<close>

text \<open>Every element counts for a non-negative number of shares, so sizes only grow.\<close>

lemma RoundUp_loop_ge: "RoundUpPowerOfTwo_loop w r n = Some s \<Longrightarrow> n \<le> s"
  by (erule RoundUpPowerOfTwo_loop.raw_induct [where P = "\<lambda>w r n s. n \<le> s", rotated])
    (auto split: if_splits)

lemma da_RoundUp_ge1: "da_RoundUpPowerOfTwo n = Inr r \<Longrightarrow> 1 \<le> r"
proof -
  assume r: "da_RoundUpPowerOfTwo n = Inr r"
  then have "n \<le> r" using RoundUp_loop_ge by (auto simp: da_RoundUpPowerOfTwo_def result_simps)
  moreover have "r = 1" if "n \<le> 1"
    using r that by (simp add: da_RoundUpPowerOfTwo_def RoundUpPowerOfTwo_loop.simps)
  ultimately show ?thesis by (cases "n \<le> 1") auto
qed

lemma SparseSharesNeeded_loop_ge: "SparseSharesNeeded_loop n a s = Some r \<Longrightarrow> s \<le> r"
  by (erule SparseSharesNeeded_loop.raw_induct [where P = "\<lambda>n a s r. s \<le> r", rotated])
    (force split: if_splits)

lemma SparseSharesNeeded_nonneg: "SparseSharesNeeded n = Inr r \<Longrightarrow> 0 \<le> r"
  using SparseSharesNeeded_loop_ge [of n 478 1 r]
  by (auto simp: SparseSharesNeeded_def result_simps split: if_splits)

lemma newElement_nonneg: "newElement blob i j t = Inr e \<Longrightarrow> 0 \<le> maxShareOffset e"
  by (auto simp: newElement_def SubTreeWidth_def BlobMinSquareSize_def result_simps maxShareOffset_def
      Let_def min_int_def dest!: SparseSharesNeeded_nonneg da_RoundUp_ge1 split: if_splits)

lemma blobElements_nonneg:
  "blobElements i t j blobs = Inr es \<Longrightarrow> 0 \<le> sum_list (map maxShareOffset es)"
  by (induction blobs arbitrary: j es) (auto simp: result_simps dest!: newElement_nonneg)

lemma elements_from_nonneg: "elements_from t i btxs = Inr es \<Longrightarrow> 0 \<le> sum_list (map maxShareOffset es)"
  by (induction btxs arbitrary: i es) (auto simp: result_simps dest!: blobElements_nonneg)

lemma elements_from_prefix:
  assumes "elements_from t i (btxs @ extra) = Inr es"
  shows "\<exists>es1. elements_from t i btxs = Inr es1
    \<and> sum_list (map maxShareOffset es1) \<le> sum_list (map maxShareOffset es)"
  using assms
proof (induction btxs arbitrary: i es)
  case Nil
  then show ?case using elements_from_nonneg by simp
next
  case (Cons btx btxs)
  then obtain new rest where new: "blobElements i t 0 (btx_Blobs btx) = Inr new"
      "elements_from t (Suc i) (btxs @ extra) = Inr rest" "es = new @ rest"
    by (auto simp: result_simps)
  from Cons.IH [OF new(2)] new show ?case by auto
qed

lemma total_size_mono:
  assumes "elements_from t 0 (btxs @ extra) = Inr es" "elements_from t 0 btxs = Inr es1"
  shows "total_size x v txs btxs es1 \<le> total_size x v (txs @ txs') (btxs @ extra) es"
proof -
  have "needed 474 478 (tx_bytes txs) \<le> needed 474 478 (tx_bytes (txs @ txs'))"
    "needed 474 478 (pfb_bytes x v btxs) \<le> needed 474 478 (pfb_bytes x v (btxs @ extra))"
    using compact_layout.needed_mono by (simp_all add: tx_bytes_def pfb_bytes_def)
  moreover have "sum_list (map maxShareOffset es1) \<le> sum_list (map maxShareOffset es)"
    using elements_from_prefix [OF assms(1)] assms(2) by simp
  ultimately show ?thesis by (simp add: total_size_def)
qed

lemma NewBuilder_loop_normal:
  assumes "built x v mx b txs []" "list_all (\<lambda>tx. \<not> is_blob_tx x tx) normal"
    and "total_size x v (txs @ normal) [] [] \<le> mx"
  shows "\<exists>b'. built x v mx b' (txs @ normal) []
    \<and> NewBuilder_loop x False (normal @ rest) b = NewBuilder_loop x False rest b'"
  using assms
proof (induction normal arbitrary: b txs)
  case (Cons tx normal)
  obtain b1 ok where ap: "AppendTx b tx = (b1, ok)" by force
  obtain btx where u: "UnmarshalBlobTx (x_unmarshal x) tx = (btx, False)"
    using Cons.prems(2) by (cases "UnmarshalBlobTx (x_unmarshal x) tx") auto
  have "sb_Blobs b = []" using Cons.prems(1) by (simp add: built_def)
  moreover have "total_size x v (txs @ [tx]) [] [] \<le> mx"
    using total_size_mono [of 64 "[]" "[]" "[]" "[]" x v "txs @ [tx]" normal] Cons.prems(3) by simp
  ultimately have "ok" using built_AppendTx(2) [OF Cons.prems(1), of tx] ap by simp
  with built_AppendTx(1) [OF Cons.prems(1) ap] have "built x v mx b1 (txs @ [tx]) []" by simp
  from Cons.IH [OF this] Cons.prems(2,3) u ap \<open>ok\<close> show ?case by auto
qed auto

lemma NewBuilder_loop_blob:
  assumes "built x v mx b txs (map (decode x) blob0)" "list_all (is_blob_tx x) blob"
    and "elements_from (SubtreeRootThreshold v) 0 (map (decode x) (blob0 @ blob)) = Inr es"
    and "total_size x v txs (map (decode x) (blob0 @ blob)) es \<le> mx"
  shows "\<exists>b'. NewBuilder_loop x seen blob b = Inr b' \<and> built x v mx b' txs (map (decode x) (blob0 @ blob))"
  using assms
proof (induction blob arbitrary: b blob0 seen)
  case (Cons tx blob)
  let ?pre = "map (decode x) blob0 @ [decode x tx]"
  obtain btx where u: "UnmarshalBlobTx (x_unmarshal x) tx = (btx, True)"
    using Cons.prems(2) by (cases "UnmarshalBlobTx (x_unmarshal x) tx") auto
  obtain es1 where es1: "elements_from (SubtreeRootThreshold v) 0 ?pre = Inr es1"
    using elements_from_prefix [of _ 0 ?pre "map (decode x) blob" es] Cons.prems(3) by auto
  have "total_size x v txs ?pre es1 \<le> mx"
    using total_size_mono [of "SubtreeRootThreshold v" ?pre "map (decode x) blob" es es1 x v txs "[]"]
      es1 Cons.prems(3,4) by simp
  then obtain b1 where b1: "AppendBlobTx x b (decode x tx) = Inr (b1, True)"
    using built_AppendBlobTx(2) [OF Cons.prems(1) es1] by blast
  from built_AppendBlobTx(1) [OF Cons.prems(1) b1]
  have "built x v mx b1 txs (map (decode x) (blob0 @ [tx]))" by simp
  from Cons.IH [OF this, of True] Cons.prems(2-4) u b1 show ?case by simp
qed simp

section \<open>Export depends on what is held only\<close>

lemma Export_sq_cong:
  assumes "sb_Txs a = sb_Txs b" "sb_Pfbs a = sb_Pfbs b" "sb_Blobs a = sb_Blobs b"
    and "sb_currentSize a = sb_currentSize b" "sb_subtreeRootThreshold a = sb_subtreeRootThreshold b"
    and "Size_csc (sb_TxCounter a) = Size_csc (sb_TxCounter b)"
    and "Size_csc (sb_PfbCounter a) = Size_csc (sb_PfbCounter b)"
  shows "bindR (Export_sq x a) (\<lambda>(_, sq). Inr sq) = bindR (Export_sq x b) (\<lambda>(_, sq). Inr sq)"
  using assms
  by (simp add: Export_sq_def IsEmpty_sb_def Let_def bindR_assoc if_distrib [of "\<lambda>r. bindR r _"]
      cong: bindR_cong if_cong)

lemma built_Export:
  assumes "built x v mx a txs btxs" "built x v my b txs btxs"
  shows "bindR (Export_sq x a) (\<lambda>(_, sq). Inr sq) = bindR (Export_sq x b) (\<lambda>(_, sq). Inr sq)"
  using assms counts_Size by (intro Export_sq_cong) (auto simp: built_def)

lemma NewBuilder_sq_start:
  assumes "0 < m" "m < 2 ^ 31" "IsPowerOfTwo wrap_int m"
  obtains b where "built x v (m * m) b [] []" "\<And>txs. NewBuilder_sq x m v txs = NewBuilder_loop x False txs b"
proof -
  let ?b = "\<lparr>sb_maxCapacity = wrap_int (m * m), sb_currentSize = 0, sb_Txs = [],
         sb_Pfbs = [], sb_Blobs = [], sb_TxCounter = NewCompactShareCounter,
         sb_PfbCounter = NewCompactShareCounter, sb_done = False,
         sb_subtreeRootThreshold = SubtreeRootThreshold v, sb_appVersion = v\<rparr>"
  have "m * m < 2 ^ 31 * 2 ^ 31" using assms(1,2) by (intro mult_strict_mono) auto
  moreover have "0 < m * m" using assms(1) by simp
  ultimately have "wrap_int (m * m) = m * m" by (intro wrap_int_id) auto
  then have "built x v (m * m) ?b [] []"
    using assms(1) counts_New
    by (simp add: built_def total_size_def tx_bytes_def pfb_bytes_def needed_def)
  moreover have "NewBuilder_sq x m v txs = NewBuilder_loop x False txs ?b" for txs
    using assms by (simp add: NewBuilder_sq_def)
  ultimately show thesis by (rule that)
qed

text \<open>
  A builder with a greater bound holds the same transactions: the square depends on them only.
\<close>

lemma NewBuilder_of_Build:
  assumes "m \<le> n" "n < 2 ^ 31" "IsPowerOfTwo wrap_int n" and build: "Build x txs v m = Inr (sq, txs')"
  shows "\<exists>b normal blob. txs' = normal @ blob \<and> sorted_block x normal blob \<and> NewBuilder_sq x n v txs' = Inr b
    \<and> built x v (n * n) b normal (map (decode x) blob) \<and> bindR (Export_sq x b) (\<lambda>(_, sq). Inr sq) = Inr sq"
proof -
  have pos: "0 < m" "IsPowerOfTwo wrap_int m" "m < 2 ^ 31"
    using build assms(1,2) by (auto simp: Build_def NewBuilder_sq_def split: if_splits)
  have le: "m * m \<le> n * n" using assms(1) pos(1) by (intro mult_mono) auto
  obtain b0 where b0: "built x v (m * m) b0 [] []"
      "\<And>txs. NewBuilder_sq x m v txs = NewBuilder_loop x False txs b0"
    using NewBuilder_sq_start [OF pos(1,3,2), of x v] by blast
  obtain b where b: "built x v (n * n) b [] []"
      "\<And>txs. NewBuilder_sq x n v txs = NewBuilder_loop x False txs b"
    using NewBuilder_sq_start [OF _ assms(2,3), of x v] pos(1) assms(1) by auto
  obtain b1 normal blob where loop: "Build_loop x txs b0 [] [] = Inr (b1, normal, blob)"
      "bindR (Export_sq x b1) (\<lambda>(_, sq). Inr sq) = Inr sq" "txs' = normal @ blob"
    using build by (auto simp: Build_def b0(2) result_simps)
  have b1: "built x v (m * m) b1 normal (map (decode x) blob)" "sorted_block x normal blob"
    using Build_loop_built [OF loop(1), of v "m * m"] b0(1) by (auto simp: sorted_block_def)
  obtain es where es: "elements_from (SubtreeRootThreshold v) 0 (map (decode x) blob) = Inr es"
      "total_size x v normal (map (decode x) blob) es \<le> n * n"
    using b1(1) le by (auto simp: built_def)
  have "total_size x v normal [] [] \<le> n * n"
    using total_size_mono [of "SubtreeRootThreshold v" "[]" "map (decode x) blob" es "[]" x v normal "[]"]
      es by simp
  then obtain b2 where b2: "built x v (n * n) b2 normal []"
      "NewBuilder_loop x False (normal @ blob) b = NewBuilder_loop x False blob b2"
    using NewBuilder_loop_normal [OF b(1), of normal blob] b1(2) by (auto simp: sorted_block_def)
  obtain b3 where b3: "NewBuilder_loop x False blob b2 = Inr b3" "built x v (n * n) b3 normal (map (decode x) blob)"
    using NewBuilder_loop_blob [of x v "n * n" b2 normal "[]" blob es False] b2(1) b1(2) es
    by (auto simp: sorted_block_def)
  show ?thesis
    using built_Export [OF b3(2) b1(1)] loop(2,3) b2(2) b3 b1(2) by (auto simp: b(2))
qed

lemma Construct_of_Build_bound:
  assumes "m \<le> n" "n < 2 ^ 31" "IsPowerOfTwo wrap_int n" "Build x txs v m = Inr (sq, txs')"
  shows "Construct x txs' v n = Inr sq"
  using NewBuilder_of_Build [OF assms] by (auto simp: Construct_def)

lemma Construct_of_Build:
  assumes "m < 2 ^ 31" "Build x txs v m = Inr (sq, txs')"
  shows "Construct x txs' v m = Inr sq"
proof (rule Construct_of_Build_bound [OF order_refl assms(1) _ assms(2)])
  show "IsPowerOfTwo wrap_int m" using assms(2) by (auto simp: Build_def NewBuilder_sq_def split: if_splits)
qed

end
