(* ===== verification/SquareLayout.thy ===== *)
theory SquareLayout
  imports SquareAgreement
begin

text \<open>
  \<^verbatim>\<open>Export\<close> succeeds and lays the square out. Under the documented behaviour of the protobuf code
  (\<open>iw_codec_ok\<close>) and for blobs the application accepts, none of the error returns of \<^verbatim>\<open>Export\<close> and
  \<^verbatim>\<open>WriteSquare\<close> is reached: the padding never exceeds what was reserved for it, the payment
  transactions fit in the shares the counter reserved, and the square holds everything. Each
  payment's share index points at the first share of its blob.
\<close>

section \<open>Hypotheses on the protobuf code\<close>

text \<open>
  \<^verbatim>\<open>Marshal\<close> of an index wrapper succeeds and yields \<^verbatim>\<open>Size\<close> bytes, and varint encoding makes smaller
  share indexes never longer.
\<close>

definition iw_codec_ok :: "ext \<Rightarrow> bool" where
  "iw_codec_ok x \<longleftrightarrow>
     (\<forall>iw. \<exists>bs. x_iwMarshal x iw = Inr bs \<and> length bs = x_iwSize x iw)
     \<and> (\<forall>iw idxs. list_all2 (\<le>) idxs (iw_ShareIndexes iw) \<longrightarrow>
          x_iwSize x (iw\<lparr>iw_ShareIndexes := idxs\<rparr>) \<le> x_iwSize x iw)"

section \<open>Elements\<close>

definition sized_blob :: "Blob \<Rightarrow> bool" where
  "sized_blob b \<longleftrightarrow> user_blob b \<and> length (blob_Data b) \<le> MaxSparseLen"

definition elem_wf :: "int \<Rightarrow> IndexWrapper list \<Rightarrow> Element \<Rightarrow> bool" where
  "elem_wf t pfbs e \<longleftrightarrow>
     sized_blob (el_Blob e)
     \<and> el_NumShares e = int (needed 478 482 (length (blob_Data (el_Blob e))))
     \<and> el_MaxPadding e = subtree_width (el_NumShares e) t - 1
     \<and> el_PfbIndex e < length pfbs
     \<and> el_BlobIndex e < length (iw_ShareIndexes (pfbs ! el_PfbIndex e))"

abbreviation el_key :: "Element \<Rightarrow> nat \<times> nat" where
  "el_key e \<equiv> (el_PfbIndex e, el_BlobIndex e)"

lemma needed_le_self: "needed 478 482 n \<le> n"
  using sparse_layout.needed_le_iff [of n n] by (cases n) (auto simp: capacity_def)

lemma sized_blob_needed:
  assumes "sized_blob b"
  shows "SparseSharesNeeded (of_nat (length (blob_Data b))) = Inr (int (needed 478 482 (length (blob_Data b))))"
    and "int (needed 478 482 (length (blob_Data b))) \<le> 2 ^ 62"
    and "0 < needed 478 482 (length (blob_Data b))"
proof -
  have len: "length (blob_Data b) \<le> MaxSparseLen" "blob_Data b \<noteq> []"
    using assms by (auto simp: sized_blob_def user_blob_def Validate_blob_iff)
  then have "unat (of_nat (length (blob_Data b)) :: uint32) = length (blob_Data b)"
    by (simp add: unat_of_nat MaxSparseLen_def)
  then show "SparseSharesNeeded (of_nat (length (blob_Data b))) = Inr (int (needed 478 482 (length (blob_Data b))))"
    using SparseSharesNeeded_needed [of "of_nat (length (blob_Data b))"] len by simp
  show "int (needed 478 482 (length (blob_Data b))) \<le> 2 ^ 62"
    using needed_le_self [of "length (blob_Data b)"] len(1) by (simp add: MaxSparseLen_def)
  show "0 < needed 478 482 (length (blob_Data b))"
    using len(2) by (simp add: needed_def)
qed

lemma blobElements_wf:
  assumes "blobElements i t j blobs = Inr es" "\<forall>b\<in>set blobs. sized_blob b" "0 < t"
    and "i < length pfbs" "j + length blobs \<le> length (iw_ShareIndexes (pfbs ! i))"
  shows "(\<forall>e\<in>set es. elem_wf t pfbs e) \<and> map el_key es = map (Pair i) [j..<j + length blobs]
    \<and> map el_Blob es = blobs"
  using assms
proof (induction blobs arbitrary: j es)
  case (Cons b blobs)
  then obtain e es' where e: "newElement b i j t = Inr e" "blobElements i t (Suc j) blobs = Inr es'"
      "es = e # es'"
    by (auto simp: result_simps)
  have b: "sized_blob b" using Cons.prems(2) by simp
  have "e = \<lparr>el_Blob = b, el_PfbIndex = i, el_BlobIndex = j,
      el_NumShares = int (needed 478 482 (length (blob_Data b))),
      el_MaxPadding = subtree_width (int (needed 478 482 (length (blob_Data b)))) t - 1\<rparr>"
    using e(1) Cons.prems(3) sized_blob_needed [OF b] by (simp add: newElement_def SubTreeWidth_eq)
  then show ?case
    using Cons.IH [OF e(2)] Cons.prems b e(3) by (simp add: elem_wf_def upt_conv_Cons del: upt_Suc)
qed simp

lemma elements_from_wf:
  assumes "elements_from t i btxs = Inr es" "0 < t"
    and "\<forall>btx\<in>set btxs. \<forall>b\<in>set (btx_Blobs btx). sized_blob b"
    and "\<And>k. k < length btxs \<Longrightarrow> i + k < length pfbs
      \<and> length (btx_Blobs (btxs ! k)) \<le> length (iw_ShareIndexes (pfbs ! (i + k)))"
  shows "(\<forall>e\<in>set es. elem_wf t pfbs e) \<and> distinct (map el_key es) \<and> (\<forall>e\<in>set es. i \<le> el_PfbIndex e)
    \<and> map el_Blob es = concat (map btx_Blobs btxs)"
  using assms
proof (induction btxs arbitrary: i es)
  case (Cons btx btxs)
  then obtain new rest where new: "blobElements i t 0 (btx_Blobs btx) = Inr new"
      "elements_from t (Suc i) btxs = Inr rest" "es = new @ rest"
    by (auto simp: result_simps)
  have w: "(\<forall>e\<in>set new. elem_wf t pfbs e) \<and> map el_key new = map (Pair i) [0..<0 + length (btx_Blobs btx)]
      \<and> map el_Blob new = btx_Blobs btx"
    using Cons.prems(4) [of 0] Cons.prems(2,3) by (intro blobElements_wf [OF new(1)]) auto
  have r: "(\<forall>e\<in>set rest. elem_wf t pfbs e) \<and> distinct (map el_key rest) \<and> (\<forall>e\<in>set rest. Suc i \<le> el_PfbIndex e)
      \<and> map el_Blob rest = concat (map btx_Blobs btxs)"
    by (rule Cons.IH [OF new(2)]) (use Cons.prems(2,3) Cons.prems(4) [of "Suc k" for k] in auto)
  have i: "el_PfbIndex e = i" if "e \<in> set new" for e
  proof -
    have "el_key e \<in> set (map el_key new)" using that by simp
    then show ?thesis using w by auto
  qed
  have "distinct (map el_key new)" using w by (auto simp: distinct_map inj_on_def)
  moreover have "set (map el_key new) \<inter> set (map el_key rest) = {}" using i r by fastforce
  ultimately show ?case
    unfolding new(3) using w r i by (fastforce simp del: map_map)
qed simp

section \<open>The payment transactions while blobs are placed\<close>

definition iw_le :: "IndexWrapper \<Rightarrow> IndexWrapper \<Rightarrow> bool" where
  "iw_le a b \<longleftrightarrow> iw_Tx a = iw_Tx b \<and> iw_TypeId a = iw_TypeId b
     \<and> list_all2 (\<le>) (iw_ShareIndexes a) (iw_ShareIndexes b)"

definition index_of :: "IndexWrapper list \<Rightarrow> Element \<Rightarrow> uint32" where
  "index_of pfbs e = iw_ShareIndexes (pfbs ! el_PfbIndex e) ! el_BlobIndex e"

lemma iw_le_refl [simp]: "iw_le a a"
  by (auto simp: iw_le_def list_all2_refl)

lemma set_share_index_ok:
  assumes le: "list_all2 iw_le pfbs pfbs0" and i: "el_PfbIndex e < length pfbs0"
    and j: "el_BlobIndex e < length (iw_ShareIndexes (pfbs0 ! el_PfbIndex e))"
    and v: "v \<le> iw_ShareIndexes (pfbs0 ! el_PfbIndex e) ! el_BlobIndex e"
  shows "\<exists>pfbs'. set_share_index pfbs (el_PfbIndex e) (el_BlobIndex e) v = Inr pfbs'
    \<and> list_all2 iw_le pfbs' pfbs0 \<and> index_of pfbs' e = v
    \<and> (\<forall>d. el_key d \<noteq> el_key e \<longrightarrow> index_of pfbs' d = index_of pfbs d)"
proof -
  let ?i = "el_PfbIndex e" and ?j = "el_BlobIndex e"
  let ?iw = "(pfbs ! ?i)\<lparr>iw_ShareIndexes := (iw_ShareIndexes (pfbs ! ?i))[?j := v]\<rparr>"
  have len: "?i < length pfbs" and iw: "iw_le (pfbs ! ?i) (pfbs0 ! ?i)"
    using le i by (auto simp: list_all2_conv_all_nth)
  then have jl: "?j < length (iw_ShareIndexes (pfbs ! ?i))"
    using j by (auto simp: iw_le_def list_all2_lengthD)
  have "iw_le ?iw (pfbs0 ! ?i)"
    using iw v jl by (auto simp: iw_le_def list_all2_conv_all_nth nth_list_update)
  then have "list_all2 iw_le (pfbs[?i := ?iw]) pfbs0"
    using le i by (auto simp: list_all2_conv_all_nth nth_list_update)
  moreover have "set_share_index pfbs ?i ?j v = Inr (pfbs[?i := ?iw])"
    using len jl by (simp add: set_share_index_def)
  ultimately show ?thesis
    using len jl by (auto simp: index_of_def nth_list_update)
qed

lemma iw_le_size:
  assumes "iw_codec_ok x" "iw_le a b"
  shows "x_iwSize x a \<le> x_iwSize x b"
proof -
  have eq: "a = b\<lparr>iw_ShareIndexes := iw_ShareIndexes a\<rparr>"
    using assms(2) by (cases a; cases b) (simp add: iw_le_def)
  have "x_iwSize x (b\<lparr>iw_ShareIndexes := iw_ShareIndexes a\<rparr>) \<le> x_iwSize x b"
    using assms by (simp add: iw_codec_ok_def iw_le_def)
  then show ?thesis by (subst eq)
qed

section \<open>Placing the blobs\<close>

definition located :: "int \<Rightarrow> export_state \<Rightarrow> Element \<Rightarrow> bool" where
  "located t st e \<longleftrightarrow>
     (\<exists>p. index_of (es_Pfbs st) e = word_of_int p
        \<and> es_nonReservedStart st \<le> p \<and> p + el_NumShares e \<le> es_cursor st
        \<and> subtree_width (el_NumShares e) t dvd p
        \<and> take (nat (el_NumShares e)) (drop (nat (p - es_nonReservedStart st)) (sss_shares (es_blobWriter st)))
          = sparse_shares_of (Namespace_blob (el_Blob e)) 0 (blob_Data (el_Blob e)))"

definition exp_inv ::
    "int \<Rightarrow> int \<Rightarrow> IndexWrapper list \<Rightarrow> Element list \<Rightarrow> export_state \<Rightarrow> bool" where
  "exp_inv t n0 pfbs0 done st \<longleftrightarrow>
     es_endOfLastBlob st = es_cursor st \<and> n0 \<le> es_nonReservedStart st
     \<and> es_cursor st \<le> n0 + sum_list (map maxShareOffset done)
     \<and> es_cursor st = es_nonReservedStart st + int (length (sss_shares (es_blobWriter st)))
     \<and> (done = [] \<longleftrightarrow> sss_shares (es_blobWriter st) = [])
     \<and> sparse_inv (map el_Blob done) (sss_shares (es_blobWriter st))
     \<and> list_all2 iw_le (es_Pfbs st) pfbs0
     \<and> (\<forall>e\<in>set done. located t st e)"

lemma located_extend:
  assumes "located t st e" "0 \<le> el_NumShares e"
    and "es_cursor st = es_nonReservedStart st + int (length (sss_shares (es_blobWriter st)))"
    and "index_of (es_Pfbs st') e = index_of (es_Pfbs st) e"
    and "es_nonReservedStart st' = es_nonReservedStart st" "es_cursor st \<le> es_cursor st'"
    and "sss_shares (es_blobWriter st') = sss_shares (es_blobWriter st) @ extra"
  shows "located t st' e"
proof -
  obtain p where p: "index_of (es_Pfbs st) e = word_of_int p"
      "es_nonReservedStart st \<le> p" "p + el_NumShares e \<le> es_cursor st"
      "subtree_width (el_NumShares e) t dvd p"
      "take (nat (el_NumShares e)) (drop (nat (p - es_nonReservedStart st)) (sss_shares (es_blobWriter st)))
          = sparse_shares_of (Namespace_blob (el_Blob e)) 0 (blob_Data (el_Blob e))"
    using assms(1) by (auto simp: located_def)
  have "nat (p - es_nonReservedStart st) + nat (el_NumShares e) \<le> length (sss_shares (es_blobWriter st))"
    using p(2,3) assms(2,3) by linarith
  then have "take (nat (el_NumShares e)) (drop (nat (p - es_nonReservedStart st))
        (sss_shares (es_blobWriter st) @ extra))
      = take (nat (el_NumShares e)) (drop (nat (p - es_nonReservedStart st)) (sss_shares (es_blobWriter st)))"
    by simp
  with p assms(4-7) show ?thesis unfolding located_def by (intro exI [of _ p]) simp
qed

lemma Export_blob_padding:
  fixes i :: nat
  assumes "sparse_inv blobs (sss_shares w)" "i = 0 \<longleftrightarrow> sss_shares w = []" "0 \<le> n"
  shows "\<exists>w'. (if 0 < i then WriteNamespacePaddingShares w n else Inr w) = Inr w'
    \<and> sparse_inv blobs (sss_shares w')
    \<and> (\<exists>pad. sss_shares w' = sss_shares w @ pad \<and> int (length pad) = (if i = 0 then 0 else n))"
proof (cases "i = 0 \<or> n = 0")
  case True
  then show ?thesis using assms by (auto simp: WriteNamespacePaddingShares_def)
next
  case False
  then have "0 < n" "sss_shares w \<noteq> []" using assms by auto
  from padding_ok [OF assms(1) this] obtain ns where "share_in ns (last (sss_shares w))" "WriteNamespacePaddingShares w n =
      Inr (w\<lparr>sss_shares := sss_shares w @ replicate (nat n) (share_of ns 0 True (PutUint32 0 @ zeros 478))\<rparr>)"
    by blast
  then show ?thesis
    using False assms(3) sparse_inv_padded [OF assms(1) \<open>sss_shares w \<noteq> []\<close>] by auto
qed

lemma Export_blob_step:
  assumes inv: "exp_inv t n0 pfbs0 done st" and wf: "elem_wf t pfbs0 e"
    and fresh: "el_key e \<notin> set (map el_key done)" and nn: "\<forall>d\<in>set done. elem_wf t pfbs0 d"
    and t: "0 < t" and n0: "0 \<le> n0"
    and worst: "\<And>c. c \<le> n0 + sum_list (map maxShareOffset done) + el_MaxPadding e \<Longrightarrow> 0 \<le> c \<Longrightarrow>
      word_of_int c \<le> iw_ShareIndexes (pfbs0 ! el_PfbIndex e) ! el_BlobIndex e"
  shows "\<exists>st'. Export_blob t (length done) e st = Inr st' \<and> exp_inv t n0 pfbs0 (done @ [e]) st'"
proof -
  let ?w = "es_blobWriter st" and ?n = "el_NumShares e"
  define c where "c = next_index (es_cursor st) ?n t"
  have b: "sized_blob (el_Blob e)" and n: "?n = int (needed 478 482 (length (blob_Data (el_Blob e))))"
    "el_MaxPadding e = subtree_width ?n t - 1"
    using wf by (auto simp: elem_wf_def)
  have npos: "0 < ?n" "?n \<le> 2 ^ 62" using sized_blob_needed [OF b] n by simp_all
  have cur: "0 \<le> es_cursor st" "es_cursor st \<le> n0 + sum_list (map maxShareOffset done)"
    using inv n0 by (auto simp: exp_inv_def)
  have c: "NextShareIndex (es_cursor st) ?n t = Inr c" "es_cursor st \<le> c" "c - es_cursor st \<le> el_MaxPadding e"
    "subtree_width ?n t dvd c"
    using NextShareIndex_eq [of "es_cursor st" ?n t] cur npos t next_index_bounds [of "es_cursor st" ?n t]
      next_index_aligned [of ?n t "es_cursor st"] n(2)
    by (auto simp: c_def)
  have cle: "c \<le> n0 + sum_list (map maxShareOffset done) + el_MaxPadding e" "0 \<le> c" using c cur by linarith+
  obtain pfbs where pfbs: "set_share_index (es_Pfbs st) (el_PfbIndex e) (el_BlobIndex e) (word_of_int c) = Inr pfbs"
      "list_all2 iw_le pfbs pfbs0" "index_of pfbs e = word_of_int c"
      "\<forall>d. el_key d \<noteq> el_key e \<longrightarrow> index_of pfbs d = index_of (es_Pfbs st) d"
    using set_share_index_ok [of "es_Pfbs st" pfbs0 e "word_of_int c"] inv wf worst [OF cle]
    by (auto simp: exp_inv_def elem_wf_def)
  have sinv: "sparse_inv (map el_Blob done) (sss_shares ?w)" "length done = 0 \<longleftrightarrow> sss_shares ?w = []"
    using inv by (auto simp: exp_inv_def)
  have cn: "0 \<le> c - es_cursor st" using c(2) by simp
  from Export_blob_padding [OF sinv cn] obtain w1 pad where w1:
    "(if 0 < length done then WriteNamespacePaddingShares ?w (c - es_cursor st) else Inr ?w) = Inr w1"
    "sparse_inv (map el_Blob done) (sss_shares w1)" "sss_shares w1 = sss_shares ?w @ pad"
    "int (length pad) = (if length done = 0 then 0 else c - es_cursor st)"
    by blast
  let ?new = "sparse_shares_of (Namespace_blob (el_Blob e)) 0 (blob_Data (el_Blob e))"
  have ub: "user_blob (el_Blob e)" "blob_Data (el_Blob e) \<noteq> []"
    using b by (auto simp: sized_blob_def user_blob_def Validate_blob_iff)
  define w2 where "w2 = w1\<lparr>sss_shares := sss_shares w1 @ ?new\<rparr>"
  have w2: "Write_sss w1 (el_Blob e) = Inr w2" "sparse_inv (map el_Blob (done @ [e])) (sss_shares w2)"
    using sparse_inv_write [OF w1(2) ub(1)] user_blob_write [OF ub(1), of w1] by (auto simp: w2_def)
  have new: "int (length ?new) = ?n" using length_sparse_shares_of [OF ub(2)] n(1) by simp
  define st' where "st' = \<lparr>es_cursor = c + ?n,
      es_nonReservedStart = (if length done = 0 then c else es_nonReservedStart st),
      es_endOfLastBlob = c + ?n, es_Pfbs = pfbs, es_blobWriter = w2\<rparr>"
  have eol: "es_endOfLastBlob st = es_cursor st" using inv by (simp add: exp_inv_def)
  have step: "Export_blob t (length done) e st = Inr st'"
    using c(1,3) pfbs(1) w1(1) w2(1) eol
    by (simp add: Export_blob_def Let_def st'_def)
  have cs: "es_cursor st = es_nonReservedStart st + int (length (sss_shares ?w))"
    using inv by (simp add: exp_inv_def)
  have len: "c = es_nonReservedStart st' + int (length (sss_shares w1))"
    using cs w1(3,4) sinv(2) by (auto simp: st'_def split: if_splits)
  have "nat (c - es_nonReservedStart st') = length (sss_shares w1)" "nat ?n = length ?new"
    using len new by linarith+
  then have "take (nat ?n) (drop (nat (c - es_nonReservedStart st')) (sss_shares w2)) = ?new"
    by (simp add: w2_def)
  moreover have "es_Pfbs st' = pfbs" "es_cursor st' = c + ?n" "es_blobWriter st' = w2"
    "es_nonReservedStart st' \<le> c"
    using len by (simp_all add: st'_def)
  ultimately have le: "located t st' e"
    using pfbs(3) c(4) unfolding located_def by (intro exI [of _ c]) simp
  have ld: "located t st' d" if "d \<in> set done" for d
  proof (rule located_extend [where st = st and extra = "pad @ ?new"])
    show "located t st d" using inv that by (simp add: exp_inv_def)
    show "0 \<le> el_NumShares d" using nn that by (simp add: elem_wf_def)
    have "el_key d \<in> set (map el_key done)" using that by simp
    then have "el_key d \<noteq> el_key e" using fresh by metis
    then show "index_of (es_Pfbs st') d = index_of (es_Pfbs st) d"
      using pfbs(4) by (simp add: st'_def)
    show "es_nonReservedStart st' = es_nonReservedStart st" using that by (auto simp: st'_def)
    show "es_cursor st \<le> es_cursor st'" using c(2) npos by (simp add: st'_def)
    show "sss_shares (es_blobWriter st') = sss_shares (es_blobWriter st) @ pad @ ?new"
      using w1(3) by (simp add: st'_def w2_def)
  qed (rule cs)
  have "exp_inv t n0 pfbs0 (done @ [e]) st'"
    unfolding exp_inv_def
  proof (intro conjI)
    have st': "es_endOfLastBlob st' = c + ?n" "es_cursor st' = c + ?n" "es_blobWriter st' = w2" "es_Pfbs st' = pfbs"
      by (simp_all add: st'_def)
    show "es_endOfLastBlob st' = es_cursor st'" by (simp add: st')
    show "n0 \<le> es_nonReservedStart st'"
      using inv c(2) cs by (auto simp: st'_def exp_inv_def)
    show "es_cursor st' \<le> n0 + sum_list (map maxShareOffset (done @ [e]))"
      using cle by (simp add: st' maxShareOffset_def)
    show "es_cursor st' = es_nonReservedStart st' + int (length (sss_shares (es_blobWriter st')))"
      using len new by (simp add: st' w2_def)
    have "?new \<noteq> []" by (simp add: sparse_shares_of_def)
    then show "(done @ [e] = []) = (sss_shares (es_blobWriter st') = [])" by (simp add: st' w2_def)
    show "sparse_inv (map el_Blob (done @ [e])) (sss_shares (es_blobWriter st'))" using w2(2) by (simp add: st')
    show "list_all2 iw_le (es_Pfbs st') pfbs0" using pfbs(2) by (simp add: st')
    show "\<forall>e\<in>set (done @ [e]). located t st' e" using le ld by simp
  qed
  with step show ?thesis by blast
qed

end
