(* ===== verification/SquareExport.thy ===== *)
theory SquareExport
  imports SquareLayout
begin

text \<open>
  The whole of \<^verbatim>\<open>Export\<close>: from the bookkeeping of the builder to the square. The main lemma
  \<open>Export_sq_ok\<close> gives the exported square as the concatenation of its five regions.
\<close>

section \<open>All blobs\<close>

lemma elem_wf_offset: "elem_wf t pfbs e \<Longrightarrow> 0 \<le> maxShareOffset e \<and> 0 \<le> el_NumShares e \<and> 0 \<le> el_MaxPadding e"
  using subtree_width_pos [of "el_NumShares e" t]
  by (simp add: elem_wf_def maxShareOffset_def) 

lemma Export_blobs_ok:
  assumes "exp_inv t n0 pfbs0 placed st" "\<forall>e\<in>set (placed @ es). elem_wf t pfbs0 e"
    and "distinct (map el_key (placed @ es))" "0 < t" "0 \<le> n0"
    and "n0 + sum_list (map maxShareOffset (placed @ es)) \<le> bnd"
    and worst: "\<And>e c. elem_wf t pfbs0 e \<Longrightarrow> 0 \<le> c \<Longrightarrow> c \<le> bnd \<Longrightarrow>
      word_of_int c \<le> iw_ShareIndexes (pfbs0 ! el_PfbIndex e) ! el_BlobIndex e"
  shows "\<exists>st'. Export_blobs t (length placed) es st = Inr st' \<and> exp_inv t n0 pfbs0 (placed @ es) st'"
  using assms(1-6)
proof (induction es arbitrary: placed st)
  case (Cons e es)
  have e: "elem_wf t pfbs0 e" using Cons.prems(2) by simp
  have "0 \<le> sum_list (map maxShareOffset es)"
    using Cons.prems(2) elem_wf_offset by (intro sum_list_nonneg) auto
  then have "n0 + sum_list (map maxShareOffset placed) + el_MaxPadding e \<le> bnd"
    using Cons.prems(6) elem_wf_offset [OF e] maxShareOffset_def [of e] by simp
  then have "\<exists>st'. Export_blob t (length placed) e st = Inr st' \<and> exp_inv t n0 pfbs0 (placed @ [e]) st'"
    using Cons.prems e by (intro Export_blob_step worst) auto
  then obtain st1 where st1: "Export_blob t (length placed) e st = Inr st1" "exp_inv t n0 pfbs0 (placed @ [e]) st1"
    by blast
  from Cons.IH [OF st1(2)] Cons.prems st1(1) show ?case by simp
qed simp

section \<open>The payment transactions\<close>

lemma write_pfbs_ok:
  assumes "iw_codec_ok x" "css_holds ns w txs"
  shows "\<exists>w' bss. write_pfbs x pfbs w = Inr w' \<and> css_holds ns w' (txs @ bss)
    \<and> list_all2 (\<lambda>iw bs. x_iwMarshal x iw = Inr bs \<and> length bs = x_iwSize x iw) pfbs bss"
  using assms(2)
proof (induction pfbs arbitrary: w txs)
  case Nil
  then show ?case by (auto simp: write_pfbs_def)
next
  case (Cons iw pfbs)
  obtain bs where bs: "x_iwMarshal x iw = Inr bs" "length bs = x_iwSize x iw"
    using assms(1) unfolding iw_codec_ok_def by blast
  from WriteTx_holds [OF Cons.prems, of "x_key x" bs] obtain w1 where
    w1: "WriteTx (x_key x) w bs = Inr w1" "css_holds ns w1 (txs @ [bs])" by blast
  from Cons.IH [OF w1(2)] obtain w' bss where
    "write_pfbs x pfbs w1 = Inr w'" "css_holds ns w' (txs @ bs # bss)"
    "list_all2 (\<lambda>iw bs. x_iwMarshal x iw = Inr bs \<and> length bs = x_iwSize x iw) pfbs bss"
    by auto
  with bs w1(1) show ?case
    by (intro exI [of _ w'] exI [of _ "bs # bss"]) (simp add: write_pfbs_def)
qed

lemma unit_size_mono:
  assumes "a \<le> b" "b < 2 ^ 64"
  shows "unit_size a \<le> unit_size b"
proof -
  have "(of_nat a :: uint64) \<le> of_nat b"
    using assms by (simp add: word_le_nat_alt unat_of_nat)
  then show ?thesis
    using assms(1) length_PutUvarint_mono by (simp add: unit_size_def DelimLen_def add_mono)
qed

lemma pfb_bytes_bound:
  assumes ok: "iw_codec_ok x" and le: "list_all2 iw_le pfbs (map (worst_iw x v) btxs)"
    and bss: "list_all2 (\<lambda>iw bs. x_iwMarshal x iw = Inr bs \<and> length bs = x_iwSize x iw) pfbs bss"
    and small: "pfb_bytes x v btxs < 2 ^ 64"
  shows "sum_list (map (unit_size \<circ> length) bss) \<le> pfb_bytes x v btxs"
  using le bss small
proof (induction btxs arbitrary: pfbs bss)
  case Nil
  then show ?case by simp
next
  case (Cons btx btxs)
  then obtain iw pfbs' bs bss' where p: "pfbs = iw # pfbs'" "bss = bs # bss'" "iw_le iw (worst_iw x v btx)"
      "length bs = x_iwSize x iw"
    by (auto simp: list_all2_Cons1 list_all2_Cons2)
  let ?w = "x_iwSize x (worst_iw x v btx)"
  have pb: "pfb_bytes x v (btx # btxs) = unit_size ?w + pfb_bytes x v btxs" by (simp add: pfb_bytes_def)
  have "?w < 2 ^ 64" using Cons.prems(3) unfolding pb by (simp add: unit_size_def)
  then have "unit_size (length bs) \<le> unit_size ?w"
    using iw_le_size [OF ok p(3)] p(4) by (intro unit_size_mono) simp_all
  moreover have "sum_list (map (unit_size \<circ> length) bss') \<le> pfb_bytes x v btxs"
    using Cons.prems p pb by (intro Cons.IH [of pfbs']) auto
  ultimately show ?case using p(2) pb by (simp add: comp_def)
qed

section \<open>The square\<close>

lemma overwrite_next:
  "length ys \<le> n \<Longrightarrow> length xs = i \<Longrightarrow>
   overwrite (xs @ replicate n z) i ys = xs @ ys @ replicate (n - length ys) z"
  by (simp add: overwrite_def)

lemma WriteSquare_ok:
  assumes tx: "Export_css tw = Inr (tw', ts)" "length ts = Count_css tw"
    and pfb: "Export_css pw = Inr (pw', ps)" "length ps = Count_css pw"
    and start: "start = int (length ts + length ps + k)" "sss_shares bw = [] \<longrightarrow> k = 0"
    and fits: "length ts + length ps + k + length (sss_shares bw) + r = n" "int n = ss * ss"
  shows "WriteSquare tw pw bw start ss = Inr (ts @ ps
    @ replicate k (share_of PrimaryReservedPaddingNamespace 0 True (PutUint32 0 @ zeros 478))
    @ sss_shares bw @ replicate r (share_of TailPaddingNamespace 0 True (PutUint32 0 @ zeros 478)))"
proof -
  let ?z = "\<lparr>share_data = []\<rparr> :: Share"
  let ?k = "replicate k (share_of PrimaryReservedPaddingNamespace 0 True (PutUint32 0 @ zeros 478))"
  let ?r = "replicate r (share_of TailPaddingNamespace 0 True (PutUint32 0 @ zeros 478))"
  let ?b = "sss_shares bw"
  have 1: "overwrite (replicate n ?z) 0 ts = ts @ replicate (n - length ts) ?z"
    using overwrite_next [of ts n "[]" 0 ?z] fits by simp
  have 2: "overwrite (ts @ replicate (n - length ts) ?z) (length ts) ps
      = (ts @ ps) @ replicate (k + length ?b + r) ?z"
    using overwrite_next [of ps "n - length ts" ts "length ts" ?z] fits(1) by (simp add: algebra_simps flip: fits(1))
  have 3: "overwrite ((ts @ ps) @ replicate (k + length ?b + r) ?z) (length ts + length ps) ?k
      = (ts @ ps @ ?k) @ replicate (length ?b + r) ?z"
    using overwrite_next [of ?k "k + length ?b + r" "ts @ ps" "length ts + length ps" ?z] by simp
  have 4: "overwrite ((ts @ ps @ ?k) @ replicate (length ?b + r) ?z) (length ts + length ps + k) ?b
      = (ts @ ps @ ?k @ ?b) @ replicate r ?z"
    using overwrite_next [of ?b "length ?b + r" "ts @ ps @ ?k" "length ts + length ps + k" ?z] by simp
  have 5: "overwrite ((ts @ ps @ ?k @ ?b) @ replicate r ?z) (length ts + length ps + k + length ?b) ?r
      = ts @ ps @ ?k @ ?b @ ?r"
    using overwrite_next [of ?r r "ts @ ps @ ?k @ ?b" "length ts + length ps + k + length ?b" ?z] by simp
  have pads: "ReservedPaddingShares (start - int (Count_css tw + Count_css pw)) = Inr ?k"
    "TailPaddingShares (ss * ss - (start + int (Count_sss bw))) = Inr ?r"
    using ReservedPaddingShares_eq [of k] TailPaddingShares_eq [of r] start(1) tx(2) pfb(2) fits
    by (simp_all add: Count_sss_def flip: fits(2) fits(1))
  have nums: "nat (ss * ss) = n" "nat start = length ts + length ps + k"
    "nat (start + int (Count_sss bw)) = length ts + length ps + k + length ?b"
    "Count_css tw = length ts" "Count_css pw = length ps"
    using fits(2) start(1) tx(2) pfb(2) by (simp_all add: Count_sss_def flip: fits(2))
  have sq: "(if Count_sss bw > 0
      then overwrite (overwrite ((ts @ ps) @ replicate (k + length ?b + r) ?z) (length ts + length ps) ?k)
             (length ts + length ps + k) ?b
      else (ts @ ps) @ replicate (k + length ?b + r) ?z) = (ts @ ps @ ?k @ ?b) @ replicate r ?z"
    unfolding 3 4 using start(2) by (cases "?b = []") (simp_all add: Count_sss_def)
  have "\<not> start < int (length ts + length ps)" "\<not> ss * ss < start + int (Count_sss bw)"
    "ss * ss > start + int (Count_sss bw) \<longleftrightarrow> r \<noteq> 0"
    using start(1) fits by (auto simp: Count_sss_def simp flip: fits(2))
  then show ?thesis
    using pads sq 5
    by (simp only: WriteSquare_def Let_def nums 1 2 tx(1) pfb(1) bindR_simps prod.case Export_sss_def if_False)
      (cases "r = 0"; simp)
qed

section \<open>Export\<close>

lemma upper_bound_small:
  assumes "0 < m" "m \<le> SquareSizeUpperBound v"
  shows "m * m \<le> SquareSizeUpperBound v * SquareSizeUpperBound v"
    "SquareSizeUpperBound v * SquareSizeUpperBound v \<le> 2 ^ 18" "0 \<le> m * m"
  using assms SquareSizeUpperBound_cases [of v] by (auto intro!: mult_mono)

lemma word_of_int_mono32:
  "0 \<le> a \<Longrightarrow> a \<le> b \<Longrightarrow> b < 2 ^ 32 \<Longrightarrow> (word_of_int a :: uint32) \<le> word_of_int b"
  by (simp add: word_le_def uint_word_of_int)

lemma worst_index:
  assumes "elem_wf t (map (worst_iw x v) btxs) e" "0 \<le> c" "c \<le> m * m" "0 < m" "m \<le> SquareSizeUpperBound v"
  shows "word_of_int c \<le> iw_ShareIndexes (map (worst_iw x v) btxs ! el_PfbIndex e) ! el_BlobIndex e"
proof -
  have "iw_ShareIndexes (map (worst_iw x v) btxs ! el_PfbIndex e) ! el_BlobIndex e
      = word_of_int (SquareSizeUpperBound v * SquareSizeUpperBound v)"
    using assms(1) by (auto simp: elem_wf_def worst_iw_def worstCaseShareIndexes_def Let_def)
  moreover have "(word_of_int c :: uint32) \<le> word_of_int (SquareSizeUpperBound v * SquareSizeUpperBound v)"
    using upper_bound_small [OF assms(4,5)] assms(2,3) by (intro word_of_int_mono32) auto
  ultimately show ?thesis by simp
qed

lemma tx_bytes_zero: "tx_bytes txs = 0 \<longleftrightarrow> txs = []"
  by (cases txs) (auto simp: tx_bytes_def unit_size_def DelimLen_def)

lemma pfb_bytes_zero: "pfb_bytes x v btxs = 0 \<longleftrightarrow> btxs = []"
  by (cases btxs) (auto simp: pfb_bytes_def unit_size_def DelimLen_def)

lemma sort_elements_perm [simp]: "mset (sort_elements es) = mset es" "set (sort_elements es) = set es"
  by (simp_all add: sort_elements_def)

lemma sort_elements_distinct: "distinct (map el_key es) \<Longrightarrow> distinct (map el_key (sort_elements es))"
  by (metis distinct_map mset_eq_imp_distinct_iff mset_map sort_elements_perm(1))

lemma sort_elements_sum: "sum_list (map f (sort_elements es)) = sum_list (map f es)" for f :: "Element \<Rightarrow> int"
  by (rule sum_list_perm) simp

text \<open>The bytes of the payments fit in 64 bits because they fit in the square.\<close>

lemma pfb_bytes_small:
  assumes "int (needed 474 478 (pfb_bytes x v btxs)) \<le> m * m" "0 < m" "m \<le> SquareSizeUpperBound v"
  shows "pfb_bytes x v btxs < 2 ^ 64"
proof -
  have "int (needed 474 478 (pfb_bytes x v btxs)) \<le> 2 ^ 18"
    using upper_bound_small [OF assms(2,3)] assms(1) by linarith
  then have "needed 474 478 (pfb_bytes x v btxs) \<le> 2 ^ 18" by simp
  then have "pfb_bytes x v btxs \<le> capacity 474 478 (2 ^ 18)"
    using compact_layout.needed_le_iff by simp
  then show ?thesis by (simp add: capacity_def)
qed

text \<open>
  What an exported square is: the five regions in namespace order, the transactions and blobs in
  them, and for every blob the recorded index of its first share.
\<close>

record regions =
  rg_tx :: "Share list"
  rg_pfb :: "Share list"
  rg_pad :: "Share list"
  rg_blob :: "Share list"
  rg_tail :: "Share list"

definition regions_square :: "regions \<Rightarrow> Square" where
  "regions_square g = rg_tx g @ rg_pfb g @ rg_pad g @ rg_blob g @ rg_tail g"

abbreviation pad_share :: "Namespace \<Rightarrow> Share" where
  "pad_share ns \<equiv> share_of ns 0 True (PutUint32 0 @ zeros 478)"

definition square_of ::
    "ext \<Rightarrow> int \<Rightarrow> bytes list \<Rightarrow> IndexWrapper list \<Rightarrow> Element list \<Rightarrow> regions \<Rightarrow> bool" where
  "square_of x t txs pfbs es g \<longleftrightarrow>
     ((\<forall>tx\<in>set txs. tx \<noteq> []) \<longrightarrow> ParseTxs (rg_tx g) = Inr txs)
     \<and> (\<exists>bss. list_all2 (\<lambda>iw bs. x_iwMarshal x iw = Inr bs) pfbs bss
          \<and> ((\<forall>bs\<in>set bss. bs \<noteq> []) \<longrightarrow> ParseTxs (rg_pfb g) = Inr bss))
     \<and> ParseBlobs (rg_blob g) = Inr (map el_Blob es)
     \<and> set (rg_pad g) \<subseteq> {pad_share PrimaryReservedPaddingNamespace}
     \<and> set (rg_tail g) \<subseteq> {pad_share TailPaddingNamespace}
     \<and> (\<forall>s\<in>set (rg_tx g). share_in TxNamespace s)
     \<and> (\<forall>s\<in>set (rg_pfb g). share_in PayForBlobNamespace s)
     \<and> ns_run (map Namespace_blob (map el_Blob es)) (rg_blob g)
     \<and> (\<forall>e\<in>set es.
          subtree_width (el_NumShares e) t dvd uint (index_of pfbs e)
          \<and> take (nat (el_NumShares e)) (drop (unat (index_of pfbs e)) (regions_square g))
            = sparse_shares_of (Namespace_blob (el_Blob e)) 0 (blob_Data (el_Blob e)))"

definition accepted :: "BlobTx \<Rightarrow> bool" where
  "accepted btx \<longleftrightarrow> btx_Blobs btx \<noteq> [] \<and> (\<forall>b\<in>set (btx_Blobs btx). sized_blob b)"

lemma foldR_WriteTx_holds:
  "css_holds ns w txs0 \<Longrightarrow> \<exists>w'. foldR (\<lambda>tx w. WriteTx key w tx) txs w = Inr w' \<and> css_holds ns w' (txs0 @ txs)"
proof (induction txs arbitrary: w txs0)
  case (Cons tx txs)
  from WriteTx_holds [OF Cons.prems, of key tx] obtain w1 where
    "WriteTx key w tx = Inr w1" "css_holds ns w1 (txs0 @ [tx])" by blast
  with Cons.IH [OF this(2)] show ?case by simp
qed simp

lemma located_in_square:
  assumes loc: "located t st e" and n: "0 \<le> el_NumShares e"
    and cs: "es_cursor st = es_nonReservedStart st + int (length (sss_shares (es_blobWriter st)))"
    and pos: "0 \<le> es_nonReservedStart st" "es_cursor st < 2 ^ 32"
    and pre: "int (length pre) = es_nonReservedStart st"
  shows "subtree_width (el_NumShares e) t dvd uint (index_of (es_Pfbs st) e)"
    "take (nat (el_NumShares e)) (drop (unat (index_of (es_Pfbs st) e))
        (pre @ sss_shares (es_blobWriter st) @ post))
      = sparse_shares_of (Namespace_blob (el_Blob e)) 0 (blob_Data (el_Blob e))"
proof -
  obtain p where p: "index_of (es_Pfbs st) e = word_of_int p" "es_nonReservedStart st \<le> p"
      "p + el_NumShares e \<le> es_cursor st" "subtree_width (el_NumShares e) t dvd p"
      "take (nat (el_NumShares e)) (drop (nat (p - es_nonReservedStart st)) (sss_shares (es_blobWriter st)))
          = sparse_shares_of (Namespace_blob (el_Blob e)) 0 (blob_Data (el_Blob e))"
    using loc by (auto simp: located_def)
  have "0 \<le> p" "p < 2 ^ 32" using p(2,3) pos n by linarith+
  then have u: "uint (index_of (es_Pfbs st) e) = p"
    unfolding p(1) uint_word_of_int by simp
  then show "subtree_width (el_NumShares e) t dvd uint (index_of (es_Pfbs st) e)" using p(4) by simp
  have un: "unat (index_of (es_Pfbs st) e) = length pre + nat (p - es_nonReservedStart st)"
    using u p(2) pre \<open>0 \<le> p\<close> by (simp add: unat_eq_nat_uint)
  have "nat (p - es_nonReservedStart st) + nat (el_NumShares e) \<le> length (sss_shares (es_blobWriter st))"
    using p(2,3) cs n by linarith
  then show "take (nat (el_NumShares e)) (drop (unat (index_of (es_Pfbs st) e))
        (pre @ sss_shares (es_blobWriter st) @ post))
      = sparse_shares_of (Namespace_blob (el_Blob e)) 0 (blob_Data (el_Blob e))"
    using p(5) unfolding un by simp
qed

lemma built_sizes:
  assumes "built x v mx b txs btxs"
  shows "Size_csc (sb_TxCounter b) = int (needed 474 478 (tx_bytes txs))"
    "Size_csc (sb_PfbCounter b) = int (needed 474 478 (pfb_bytes x v btxs))"
  using assms by (auto simp: built_def intro: counts_Size)

lemma Export_blobs_built:
  assumes b: "built x v (m * m) b txs btxs" and m: "0 < m" "m \<le> SquareSizeUpperBound v"
    and acc: "\<forall>btx\<in>set btxs. accepted btx"
    and n0: "n0 = Size_csc (sb_TxCounter b) + Size_csc (sb_PfbCounter b)"
  obtains st where
    "Export_blobs (sb_subtreeRootThreshold b) 0 (sort_elements (sb_Blobs b))
       \<lparr>es_cursor = n0, es_nonReservedStart = n0, es_endOfLastBlob = n0, es_Pfbs = sb_Pfbs b,
        es_blobWriter = NewSparseShareSplitter\<rparr> = Inr st"
    "exp_inv 64 n0 (map (worst_iw x v) btxs) (sort_elements (sb_Blobs b)) st"
    "\<forall>e\<in>set (sb_Blobs b). elem_wf 64 (map (worst_iw x v) btxs) e"
    "map el_Blob (sb_Blobs b) = concat (map btx_Blobs btxs)"
proof -
  let ?pfbs = "map (worst_iw x v) btxs" and ?es = "sort_elements (sb_Blobs b)"
  have t: "sb_subtreeRootThreshold b = 64" "sb_Pfbs b = ?pfbs" "elements_from 64 0 btxs = Inr (sb_Blobs b)"
    using b by (auto simp: built_def)
  have n0': "n0 = int (needed 474 478 (tx_bytes txs)) + int (needed 474 478 (pfb_bytes x v btxs))"
    using built_sizes [OF b] by (simp add: n0)
  have wf: "(\<forall>e\<in>set (sb_Blobs b). elem_wf 64 ?pfbs e) \<and> distinct (map el_key (sb_Blobs b))
      \<and> (\<forall>e\<in>set (sb_Blobs b). 0 \<le> el_PfbIndex e) \<and> map el_Blob (sb_Blobs b) = concat (map btx_Blobs btxs)"
    by (rule elements_from_wf [OF t(3)])
      (use acc in \<open>auto simp: accepted_def worst_iw_def worstCaseShareIndexes_def Let_def\<close>)
  let ?st = "\<lparr>es_cursor = n0, es_nonReservedStart = n0, es_endOfLastBlob = n0, es_Pfbs = sb_Pfbs b,
      es_blobWriter = NewSparseShareSplitter\<rparr>"
  have inv0: "exp_inv 64 n0 ?pfbs [] ?st"
    by (simp add: exp_inv_def NewSparseShareSplitter_def t(2) list_all2_refl)
  have le0: "n0 + sum_list (map maxShareOffset ([] @ ?es)) \<le> m * m"
    using b n0' sort_elements_sum [of maxShareOffset "sb_Blobs b"] by (simp add: built_def total_size_def)
  have "\<exists>st'. Export_blobs 64 (length ([] :: Element list)) ?es ?st = Inr st' \<and> exp_inv 64 n0 ?pfbs ([] @ ?es) st'"
    by (rule Export_blobs_ok [OF inv0 _ _ _ _ le0])
      (use wf n0' sort_elements_distinct worst_index m in auto)
  then show thesis using that wf t(1) by auto
qed

lemma ParseTxs_holds:
  assumes "compact_ns ns" "css_holds ns w txs" "Export_css w = Inr (w', ss)" "\<forall>tx\<in>set txs. tx \<noteq> []"
    and "int (needed 474 478 (sum_list (map (unit_size \<circ> length) txs))) \<le> 2 ^ 18"
  shows "ParseTxs ss = Inr txs"
proof (rule Parse_holds [OF assms(1-3)])
  have "sum_list (map (unit_size \<circ> length) txs) \<le> capacity 474 478 (2 ^ 18)"
    using compact_layout.needed_le_iff assms(5) by simp
  moreover have "length tx \<le> sum_list (map (unit_size \<circ> length) txs)" if "tx \<in> set txs" for tx
    using that by (induction txs) (auto simp: unit_size_def)
  ultimately show "\<forall>tx\<in>set txs. tx \<noteq> [] \<and> length tx < 2 ^ 64"
    using assms(4) by (fastforce simp: capacity_def)
qed

lemma Export_empty_sq:
  assumes "built x v mx b [] []"
  shows "\<exists>g. Export_sq x b = Inr (b, regions_square g)
    \<and> square_of x 64 [] (sb_Pfbs b) (sort_elements (sb_Blobs b)) g \<and> length (regions_square g) = 1"
proof -
  have e: "IsEmpty_sb b" "sb_Blobs b = []" "sb_Pfbs b = []"
    using built_sizes [OF assms] assms
    by (auto simp: IsEmpty_sb_def built_def tx_bytes_def pfb_bytes_def needed_def)
  let ?g = "\<lparr>rg_tx = [], rg_pfb = [], rg_pad = [], rg_blob = [], rg_tail = [pad_share TailPaddingNamespace]\<rparr>"
  have "Export_sq x b = Inr (b, regions_square ?g)"
    using e(1) TailPaddingShares_eq [of 1]
    by (simp add: Export_sq_def EmptySquare_def EmptySquareShares_def regions_square_def)
  moreover have "square_of x 64 [] (sb_Pfbs b) (sort_elements (sb_Blobs b)) ?g"
    using e by (simp add: square_of_def ParseTxs_def parseCompactShares_def ParseBlobs_def
        parseSparseShares_def sort_elements_def ns_run_def)
  ultimately show ?thesis by (intro exI [of _ ?g]) (simp add: regions_square_def)
qed

text \<open>The two compact regions: what the writers hold and export.\<close>

definition compact_region :: "Namespace \<Rightarrow> bytes list \<Rightarrow> CompactShareSplitter \<Rightarrow> Share list \<Rightarrow> bool" where
  "compact_region ns units w ss \<longleftrightarrow>
     css_holds ns w units \<and> length ss = Count_css w \<and> (\<forall>s\<in>set ss. share_in ns s)
     \<and> (\<exists>w'. Export_css w = Inr (w', ss))"

lemma compact_regionI:
  assumes "compact_ns ns" "css_holds ns w units"
  shows "\<exists>ss. compact_region ns units w ss"
  using Export_holds [OF assms(2)] share_in_holds [OF assms] assms(2) unfolding compact_region_def by blast

lemma compact_region_parse:
  assumes "compact_ns ns" "compact_region ns units w ss" "\<forall>u\<in>set units. u \<noteq> []"
    and "int (needed 474 478 (sum_list (map (unit_size \<circ> length) units))) \<le> 2 ^ 18"
  shows "ParseTxs ss = Inr units"
  using assms ParseTxs_holds [OF assms(1)] by (auto simp: compact_region_def)

lemma compact_region_length:
  "compact_region ns units w ss \<Longrightarrow> length ss = needed 474 478 (sum_list (map (unit_size \<circ> length) units))"
  by (auto simp: compact_region_def Count_holds)

lemma tx_region:
  obtains w0 w ss where "NewCompactShareSplitter TxNamespace 0 = Inr w0"
    "foldR (\<lambda>tx w. WriteTx key w tx) txs w0 = Inr w" "compact_region TxNamespace txs w ss"
proof -
  obtain w0 where w0: "NewCompactShareSplitter TxNamespace 0 = Inr w0" "css_holds TxNamespace w0 []"
    using New_css_holds by blast
  then obtain w where "foldR (\<lambda>tx w. WriteTx key w tx) txs w0 = Inr w" "css_holds TxNamespace w txs"
    using foldR_WriteTx_holds [OF w0(2), of key txs] by auto
  with w0(1) compact_regionI show thesis using that by blast
qed

lemma pfb_region:
  assumes ok: "iw_codec_ok x" and le: "list_all2 iw_le pfbs (map (worst_iw x v) btxs)"
    and small: "pfb_bytes x v btxs < 2 ^ 64"
  obtains w0 w bss ss where "NewCompactShareSplitter PayForBlobNamespace 0 = Inr w0"
    "write_pfbs x pfbs w0 = Inr w" "compact_region PayForBlobNamespace bss w ss"
    "list_all2 (\<lambda>iw bs. x_iwMarshal x iw = Inr bs) pfbs bss"
    "length ss \<le> needed 474 478 (pfb_bytes x v btxs)"
proof -
  obtain w0 where w0: "NewCompactShareSplitter PayForBlobNamespace 0 = Inr w0" "css_holds PayForBlobNamespace w0 []"
    using New_css_holds by blast
  obtain w bss where w: "write_pfbs x pfbs w0 = Inr w" "css_holds PayForBlobNamespace w bss"
      "list_all2 (\<lambda>iw bs. x_iwMarshal x iw = Inr bs \<and> length bs = x_iwSize x iw) pfbs bss"
    using write_pfbs_ok [OF ok w0(2), of pfbs] by auto
  obtain ss where ss: "compact_region PayForBlobNamespace bss w ss" using compact_regionI w(2) by blast
  have "sum_list (map (unit_size \<circ> length) bss) \<le> pfb_bytes x v btxs"
    by (rule pfb_bytes_bound [OF ok le w(3) small])
  then have "length ss \<le> needed 474 478 (pfb_bytes x v btxs)"
    using compact_region_length [OF ss] compact_layout.needed_mono by simp
  moreover have "list_all2 (\<lambda>iw bs. x_iwMarshal x iw = Inr bs) pfbs bss"
    using w(3) by (rule list_all2_mono) auto
  ultimately show thesis using that w0(1) w(1) ss by blast
qed

text \<open>Where the blobs are, once the regions before them are in place.\<close>

lemma square_of_regions:
  assumes tx: "compact_region TxNamespace txs tw ts" "length ts \<le> 2 ^ 18"
    and pfb: "compact_region PayForBlobNamespace bss pw ps" "length ps \<le> 2 ^ 18"
      "list_all2 (\<lambda>iw bs. x_iwMarshal x iw = Inr bs) (es_Pfbs st) bss"
    and inv: "exp_inv 64 n0 pfbs0 es st" "\<forall>e\<in>set es. elem_wf 64 pfbs0 e" "es_cursor st < 2 ^ 32"
    and start: "es_nonReservedStart st = int (length ts + length ps + k)"
    and g: "g = \<lparr>rg_tx = ts, rg_pfb = ps, rg_pad = replicate k (pad_share PrimaryReservedPaddingNamespace),
      rg_blob = sss_shares (es_blobWriter st), rg_tail = replicate r (pad_share TailPaddingNamespace)\<rparr>"
  shows "square_of x 64 txs (es_Pfbs st) es g"
  unfolding square_of_def
proof (intro conjI impI ballI)
  show "ParseTxs (rg_tx g) = Inr txs" if "\<forall>tx\<in>set txs. tx \<noteq> []"
    using compact_region_parse [OF _ tx(1) that] compact_region_length [OF tx(1)] tx(2) by (simp add: g)
  have "ParseTxs ps = Inr bss" if "\<forall>bs\<in>set bss. bs \<noteq> []"
    using compact_region_parse [OF _ pfb(1) that] compact_region_length [OF pfb(1)] pfb(2) by simp
  then show "\<exists>bss. list_all2 (\<lambda>iw bs. x_iwMarshal x iw = Inr bs) (es_Pfbs st) bss
      \<and> ((\<forall>bs\<in>set bss. bs \<noteq> []) \<longrightarrow> ParseTxs (rg_pfb g) = Inr bss)"
    using pfb(3) by (intro exI [of _ bss]) (simp add: g)
  have sp: "sparse_inv (map el_Blob es) (sss_shares (es_blobWriter st))" using inv(1) by (simp add: exp_inv_def)
  then show "ParseBlobs (rg_blob g) = Inr (map el_Blob es)" using ParseBlobs_of_inv by (simp add: g)
  show "ns_run (map Namespace_blob (map el_Blob es)) (rg_blob g)" using sp by (simp add: g sparse_inv_def)
  fix e assume e: "e \<in> set es"
  have loc: "located 64 st e" "0 \<le> el_NumShares e" "0 \<le> es_nonReservedStart st"
    using inv(1,2) e elem_wf_offset start by (auto simp: exp_inv_def)
  have cs: "es_cursor st = es_nonReservedStart st + int (length (sss_shares (es_blobWriter st)))"
    using inv(1) by (simp add: exp_inv_def)
  let ?pre = "ts @ ps @ replicate k (pad_share PrimaryReservedPaddingNamespace)"
  have pre: "int (length ?pre) = es_nonReservedStart st" using start by simp
  have "regions_square g = ?pre @ sss_shares (es_blobWriter st) @ rg_tail g" by (simp add: g regions_square_def)
  then show "subtree_width (el_NumShares e) 64 dvd uint (index_of (es_Pfbs st) e)"
    and "take (nat (el_NumShares e)) (drop (unat (index_of (es_Pfbs st) e)) (regions_square g))
      = sparse_shares_of (Namespace_blob (el_Blob e)) 0 (blob_Data (el_Blob e))"
    using located_in_square(1) [OF loc(1,2) cs loc(3) inv(3) pre]
      located_in_square(2) [OF loc(1,2) cs loc(3) inv(3) pre, of "rg_tail g"] by simp_all
qed (use tx(1) pfb(1) in \<open>auto simp: g compact_region_def\<close>)

text \<open>With no blobs there is nothing to align, and no padding before the blobs.\<close>

lemma no_blobs:
  assumes inv: "exp_inv 64 n0 pfbs0 es st" and none: "sss_shares (es_blobWriter st) = []"
  shows "es = []" "es_nonReservedStart st = n0"
  using assms by (auto simp: exp_inv_def)

lemma no_blob_txs:
  assumes "\<forall>btx\<in>set btxs. accepted btx" "map el_Blob bs = concat (map btx_Blobs btxs)" "bs = []"
  shows "btxs = []"
  using assms by (cases btxs) (auto simp: accepted_def)

lemma Export_sq_ok:
  assumes b: "built x v (m * m) b txs btxs" and m: "0 < m" "m \<le> SquareSizeUpperBound v"
    and acc: "\<forall>btx\<in>set btxs. accepted btx" and ok: "iw_codec_ok x" and ne: "txs \<noteq> [] \<or> btxs \<noteq> []"
  shows "\<exists>b' g. Export_sq x b = Inr (b', regions_square g)
    \<and> square_of x 64 txs (sb_Pfbs b') (sort_elements (sb_Blobs b)) g
    \<and> list_all2 iw_le (sb_Pfbs b') (map (worst_iw x v) btxs)
    \<and> int (length (regions_square g)) = min_square (sb_currentSize b) * min_square (sb_currentSize b)"
proof -
  define ss where "ss = min_square (sb_currentSize b)"
  define n0 where "n0 = Size_csc (sb_TxCounter b) + Size_csc (sb_PfbCounter b)"
  let ?pfbs = "map (worst_iw x v) btxs" and ?es = "sort_elements (sb_Blobs b)"
  have cur: "sb_currentSize b = n0 + sum_list (map maxShareOffset ?es)" "sb_currentSize b \<le> m * m"
    using b built_sizes [OF b] sort_elements_sum [of maxShareOffset "sb_Blobs b"]
    by (auto simp: n0_def built_def total_size_def)
  have small: "m * m \<le> 2 ^ 18" using upper_bound_small [OF m] by linarith
  have sz: "Size_csc (sb_TxCounter b) = int (needed 474 478 (tx_bytes txs))"
    "Size_csc (sb_PfbCounter b) = int (needed 474 478 (pfb_bytes x v btxs))"
    by (rule built_sizes [OF b])+
  have nempty: "\<not> IsEmpty_sb b"
    using sz ne tx_bytes_zero [of txs] pfb_bytes_zero [of x v btxs]
    by (auto simp: IsEmpty_sb_def needed_def split: if_splits)
  have tot: "int (needed 474 478 (tx_bytes txs)) + int (needed 474 478 (pfb_bytes x v btxs)) \<le> m * m"
    using cur elements_from_nonneg [of 64 0 btxs "sb_Blobs b"] b sz sort_elements_sum [of maxShareOffset "sb_Blobs b"]
    by (auto simp: n0_def built_def)
  obtain st where st: "Export_blobs (sb_subtreeRootThreshold b) 0 ?es
       \<lparr>es_cursor = n0, es_nonReservedStart = n0, es_endOfLastBlob = n0, es_Pfbs = sb_Pfbs b,
        es_blobWriter = NewSparseShareSplitter\<rparr> = Inr st"
      "exp_inv 64 n0 ?pfbs ?es st" "\<forall>e\<in>set (sb_Blobs b). elem_wf 64 ?pfbs e"
      "map el_Blob (sb_Blobs b) = concat (map btx_Blobs btxs)"
    by (rule Export_blobs_built [OF b m acc n0_def])
  have le: "list_all2 iw_le (es_Pfbs st) ?pfbs" using st(2) by (simp add: exp_inv_def)
  obtain tw0 tw ts where tw: "NewCompactShareSplitter TxNamespace 0 = Inr tw0"
      "foldR (\<lambda>tx w. WriteTx (x_key x) w tx) txs tw0 = Inr tw" "compact_region TxNamespace txs tw ts"
    by (rule tx_region)
  have "pfb_bytes x v btxs < 2 ^ 64" by (rule pfb_bytes_small [OF _ m]) (use tot in linarith)
  from pfb_region [OF ok le this] obtain pw0 pw bss ps where pw: "NewCompactShareSplitter PayForBlobNamespace 0 = Inr pw0"
      "write_pfbs x (es_Pfbs st) pw0 = Inr pw" "compact_region PayForBlobNamespace bss pw ps"
      "list_all2 (\<lambda>iw bs. x_iwMarshal x iw = Inr bs) (es_Pfbs st) bss"
      "length ps \<le> needed 474 478 (pfb_bytes x v btxs)" .
  have lt: "int (length ts) = Size_csc (sb_TxCounter b)" "int (length ps) \<le> Size_csc (sb_PfbCounter b)"
    using compact_region_length [OF tw(3)] pw(5) sz by (simp_all add: tx_bytes_def)
  have inv: "n0 \<le> es_nonReservedStart st" "es_cursor st \<le> sb_currentSize b"
    "es_cursor st = es_nonReservedStart st + int (length (sss_shares (es_blobWriter st)))"
    using st(2) cur(1) by (auto simp: exp_inv_def)
  define k where "k = nat (es_nonReservedStart st) - (length ts + length ps)"
  define r where "r = nat (ss * ss) - nat (es_cursor st)"
  have start: "es_nonReservedStart st = int (length ts + length ps + k)"
    using inv(1) lt by (simp add: k_def n0_def)
  have k0: "k = 0" if none: "sss_shares (es_blobWriter st) = []"
  proof -
    have "?es = []" and n0: "es_nonReservedStart st = n0" using no_blobs [OF st(2) none] by auto
    then have "sb_Blobs b = []" by (metis set_empty sort_elements_perm(2))
    then have "btxs = []" using no_blob_txs [OF acc st(4)] by simp
    then show "k = 0" using n0 lt(1) sz(2) by (simp add: k_def n0_def pfb_bytes_def needed_def)
  qed
  have fit: "es_cursor st \<le> ss * ss"
    using inv(2) min_square_fits [of "sb_currentSize b"] by (simp add: ss_def)
  define g where "g = \<lparr>rg_tx = ts, rg_pfb = ps, rg_pad = replicate k (pad_share PrimaryReservedPaddingNamespace),
      rg_blob = sss_shares (es_blobWriter st), rg_tail = replicate r (pad_share TailPaddingNamespace)\<rparr>"
  have n: "length ts + length ps + k + length (sss_shares (es_blobWriter st)) + r = nat (ss * ss)"
    "int (nat (ss * ss)) = ss * ss"
    using fit inv(3) start by (simp_all add: r_def)
  obtain tw' pw' where ex: "Export_css tw = Inr (tw', ts)" "length ts = Count_css tw"
      "Export_css pw = Inr (pw', ps)" "length ps = Count_css pw"
    using tw(3) pw(3) by (auto simp: compact_region_def)
  have wsq: "WriteSquare tw pw (es_blobWriter st) (es_nonReservedStart st) ss = Inr (regions_square g)"
    using WriteSquare_ok [OF ex start _ n] k0 by (simp add: g_def regions_square_def)
  let ?b' = "b\<lparr>sb_Blobs := ?es, sb_Pfbs := es_Pfbs st, sb_done := True\<rparr>"
  have "BlobMinSquareSize (sb_currentSize b) = Inr ss"
    unfolding ss_def by (rule BlobMinSquareSize_eq) (use cur(2) small in simp)
  moreover have "sb_Txs b = txs" using b by (simp add: built_def)
  ultimately have exp: "Export_sq x b = Inr (?b', regions_square g)"
    using nempty st(1) tw(1,2) pw(1,2) lt(2) ex(4) wsq by (simp add: Export_sq_def Let_def n0_def)
  have "square_of x 64 txs (es_Pfbs st) ?es g"
    using lt tot sz small st(2,3) inv(2) cur(2)
    by (intro square_of_regions [OF tw(3) _ pw(3) _ pw(4) _ _ _ start g_def]) auto
  moreover have "length (regions_square g) = nat (ss * ss)"
    using n(1) by (simp add: g_def regions_square_def)
  then have "int (length (regions_square g)) = ss * ss" using n(2) by simp
  ultimately show ?thesis
    using exp le by (intro exI [of _ ?b'] exI [of _ g]) (simp add: ss_def)
qed

end
