(* ===== verification/SquareTotal.thy ===== *)
theory SquareTotal
  imports SquareExport "HOL-Library.Sublist"
begin

text \<open>
  \<^verbatim>\<open>Build\<close> as a whole: for every list of transactions whose blob transactions the application
  accepts, it returns a square and a selection of the transactions in their order of priority.
\<close>

section \<open>Appending never fails\<close>

lemma blobElements_total:
  "\<forall>b\<in>set blobs. sized_blob b \<Longrightarrow> 0 < t \<Longrightarrow> \<exists>es. blobElements i t j blobs = Inr es"
proof (induction blobs arbitrary: j)
  case (Cons b blobs)
  then obtain es where "blobElements i t (Suc j) blobs = Inr es" by auto
  moreover have "\<exists>e. newElement b i j t = Inr e"
    using sized_blob_needed [of b] Cons.prems by (simp add: newElement_def SubTreeWidth_eq)
  ultimately show ?case by auto
qed simp

lemma AppendBlobTx_total:
  assumes "accepted btx" "0 < sb_subtreeRootThreshold b"
  shows "\<exists>b' ok. AppendBlobTx x b btx = Inr (b', ok)"
proof -
  obtain c d where add: "Add_csc (sb_PfbCounter b) (int (x_iwSize x (worst_iw x (sb_appVersion b) btx))) = (c, d)"
    by force
  obtain es where "blobElements (length (sb_Pfbs b)) (sb_subtreeRootThreshold b) 0 (btx_Blobs btx) = Inr es"
    using blobElements_total [of "btx_Blobs btx" "sb_subtreeRootThreshold b" "length (sb_Pfbs b)" 0] assms
    by (auto simp: accepted_def)
  then show ?thesis
    using add by (cases "canFit (b\<lparr>sb_PfbCounter := c\<rparr>) (d + sum_list (map maxShareOffset es))")
      (auto simp: AppendBlobTx_def Let_def worst_iw_def)
qed

definition all_accepted :: "ext \<Rightarrow> bytes list \<Rightarrow> bool" where
  "all_accepted x txs \<longleftrightarrow> (\<forall>tx\<in>set txs. is_blob_tx x tx \<longrightarrow> accepted (decode x tx))"

lemma Build_loop_total:
  assumes "all_accepted x txs" "built x v mx b normal btxs"
  shows "\<exists>b' normal' blob'. Build_loop x txs b normal blob = Inr (b', normal', blob')"
  using assms
proof (induction txs arbitrary: b normal blob btxs)
  case (Cons tx txs)
  have acc: "all_accepted x txs" using Cons.prems(1) by (simp add: all_accepted_def)
  obtain btx isb where u: "UnmarshalBlobTx (x_unmarshal x) tx = (btx, isb)" by force
  show ?case
  proof (cases isb)
    case True
    have "accepted btx" using Cons.prems(1) u True by (auto simp: all_accepted_def)
    moreover have "0 < sb_subtreeRootThreshold b" using Cons.prems(2) by (simp add: built_def)
    ultimately obtain b1 ok where ap: "AppendBlobTx x b btx = Inr (b1, ok)"
      using AppendBlobTx_total by blast
    from Cons.IH [OF acc built_AppendBlobTx(1) [OF Cons.prems(2) ap]] u True ap show ?thesis by auto
  next
    case False
    obtain b1 ok where ap: "AppendTx b tx = (b1, ok)" by force
    from Cons.IH [OF acc built_AppendTx(1) [OF Cons.prems(2) ap]] u False ap show ?thesis by auto
  qed
qed simp

section \<open>What Build selects\<close>

lemma Build_loop_selects:
  assumes "Build_loop x txs b normal blob = Inr (b', normal', blob')"
  shows "\<exists>ns bs. normal' = normal @ ns \<and> blob' = blob @ bs
    \<and> subseq ns (filter (\<lambda>tx. \<not> is_blob_tx x tx) txs) \<and> subseq bs (filter (is_blob_tx x) txs)"
  using assms
proof (induction txs arbitrary: b normal blob)
  case (Cons tx txs)
  obtain btx isb where u: "UnmarshalBlobTx (x_unmarshal x) tx = (btx, isb)" by force
  show ?case
  proof (cases isb)
    case True
    then obtain b1 ok where
      "Build_loop x txs b1 normal (if ok then blob @ [tx] else blob) = Inr (b', normal', blob')"
      using Cons.prems u by (auto simp: result_simps)
    from Cons.IH [OF this] u True show ?thesis by (cases ok) (force, force)
  next
    case False
    obtain b1 ok where ap: "AppendTx b tx = (b1, ok)" by force
    then have "Build_loop x txs b1 (if ok then normal @ [tx] else normal) blob = Inr (b', normal', blob')"
      using Cons.prems u False by simp
    from Cons.IH [OF this] u False show ?thesis by (cases ok) (force, force)
  qed
qed simp

section \<open>The blobs of the payments\<close>

lemma blobElements_at:
  "blobElements i t j0 blobs = Inr es \<Longrightarrow> j < length blobs \<Longrightarrow>
   \<exists>e\<in>set es. el_PfbIndex e = i \<and> el_BlobIndex e = j0 + j \<and> el_Blob e = blobs ! j"
proof (induction blobs arbitrary: j0 j es)
  case (Cons b blobs)
  then obtain e es' where e: "newElement b i j0 t = Inr e" "blobElements i t (Suc j0) blobs = Inr es'" "es = e # es'"
    by (auto simp: result_simps)
  show ?case
  proof (cases j)
    case 0
    then show ?thesis using e by (auto simp: newElement_def result_simps)
  next
    case (Suc k)
    then show ?thesis using Cons.IH [OF e(2), of k] Cons.prems(2) e(3) by auto
  qed
qed simp

lemma elements_from_at:
  "elements_from t i0 btxs = Inr es \<Longrightarrow> i < length btxs \<Longrightarrow> j < length (btx_Blobs (btxs ! i)) \<Longrightarrow>
   \<exists>e\<in>set es. el_PfbIndex e = i0 + i \<and> el_BlobIndex e = j \<and> el_Blob e = btx_Blobs (btxs ! i) ! j"
proof (induction btxs arbitrary: i0 i es)
  case (Cons btx btxs)
  then obtain new rest where new: "blobElements i0 t 0 (btx_Blobs btx) = Inr new"
      "elements_from t (Suc i0) btxs = Inr rest" "es = new @ rest"
    by (auto simp: result_simps)
  show ?case
  proof (cases i)
    case 0
    then show ?thesis using blobElements_at [OF new(1), of j] Cons.prems(3) new(3) by auto
  next
    case (Suc k)
    then show ?thesis using Cons.IH [OF new(2), of k] Cons.prems new(3) by auto
  qed
qed simp

text \<open>
  \<open>block_layout x txs btxs pfbs g\<close>: the regions \<open>g\<close> hold the transactions \<open>txs\<close>, the payments \<open>pfbs\<close> of
  the blob transactions \<open>btxs\<close> and their blobs, and every payment's index is where its blob starts.
\<close>

definition block_layout ::
    "ext \<Rightarrow> bytes list \<Rightarrow> BlobTx list \<Rightarrow> IndexWrapper list \<Rightarrow> regions \<Rightarrow> bool" where
  "block_layout x txs btxs pfbs g \<longleftrightarrow>
     ((\<forall>tx\<in>set txs. tx \<noteq> []) \<longrightarrow> ParseTxs (rg_tx g) = Inr txs)
     \<and> list_all2 (\<lambda>iw btx. iw_Tx iw = btx_Tx btx \<and> iw_TypeId iw = x_iwTypeId x
          \<and> length (iw_ShareIndexes iw) = length (btx_Blobs btx)) pfbs btxs
     \<and> (\<exists>bss. list_all2 (\<lambda>iw bs. x_iwMarshal x iw = Inr bs) pfbs bss
          \<and> ((\<forall>bs\<in>set bss. bs \<noteq> []) \<longrightarrow> ParseTxs (rg_pfb g) = Inr bss))
     \<and> ParseBlobs (rg_blob g) = Inr (Sort_blobs (concat (map btx_Blobs btxs)))
     \<and> set (rg_pad g) \<subseteq> {pad_share PrimaryReservedPaddingNamespace}
     \<and> set (rg_tail g) \<subseteq> {pad_share TailPaddingNamespace}
     \<and> (\<forall>s\<in>set (rg_tx g). share_in TxNamespace s)
     \<and> (\<forall>s\<in>set (rg_pfb g). share_in PayForBlobNamespace s)
     \<and> ns_run (map Namespace_blob (Sort_blobs (concat (map btx_Blobs btxs)))) (rg_blob g)
     \<and> (\<forall>i < length btxs. \<forall>j < length (btx_Blobs (btxs ! i)).
          let blob = btx_Blobs (btxs ! i) ! j; idx = iw_ShareIndexes (pfbs ! i) ! j;
              n = needed 478 482 (length (blob_Data blob)) in
          subtree_width (int n) 64 dvd uint idx
          \<and> take n (drop (unat idx) (regions_square g))
            = sparse_shares_of (Namespace_blob blob) 0 (blob_Data blob))"

lemma sort_key_map: "map f (sort_key (g \<circ> f) xs) = sort_key g (map f xs)"
proof -
  have "map f (insort_key (g \<circ> f) a ys) = insort_key g (f a) (map f ys)" for a ys
    by (induction ys) auto
  then show ?thesis by (induction xs) auto
qed

lemma sort_elements_blobs: "map el_Blob (sort_elements es) = Sort_blobs (map el_Blob es)"
  using sort_key_map [of el_Blob "\<lambda>b. Bytes_ns (Namespace_blob b)" es]
  by (simp add: sort_elements_def Sort_blobs_def comp_def)

lemma built_elements:
  assumes b: "built x v mx b txs btxs" and acc: "\<forall>btx\<in>set btxs. accepted btx"
  shows "\<forall>e\<in>set (sb_Blobs b). elem_wf 64 (map (worst_iw x v) btxs) e"
    "map el_Blob (sb_Blobs b) = concat (map btx_Blobs btxs)"
proof -
  have "elements_from 64 0 btxs = Inr (sb_Blobs b)" using b by (auto simp: built_def)
  then have "(\<forall>e\<in>set (sb_Blobs b). elem_wf 64 (map (worst_iw x v) btxs) e) \<and> distinct (map el_key (sb_Blobs b))
      \<and> (\<forall>e\<in>set (sb_Blobs b). 0 \<le> el_PfbIndex e) \<and> map el_Blob (sb_Blobs b) = concat (map btx_Blobs btxs)"
    by (rule elements_from_wf)
      (use acc in \<open>auto simp: accepted_def worst_iw_def worstCaseShareIndexes_def Let_def\<close>)
  then show "\<forall>e\<in>set (sb_Blobs b). elem_wf 64 (map (worst_iw x v) btxs) e"
    "map el_Blob (sb_Blobs b) = concat (map btx_Blobs btxs)" by auto
qed

lemma square_of_block_layout:
  assumes b: "built x v mx b txs btxs" and acc: "\<forall>btx\<in>set btxs. accepted btx"
    and sq: "square_of x 64 txs pfbs (sort_elements (sb_Blobs b)) g"
    and pfbs: "list_all2 iw_le pfbs (map (worst_iw x v) btxs)"
  shows "block_layout x txs btxs pfbs g"
proof -
  have es: "elements_from 64 0 btxs = Inr (sb_Blobs b)" using b by (auto simp: built_def)
  have idx: "subtree_width (int n) 64 dvd uint (iw_ShareIndexes (pfbs ! i) ! j)
      \<and> take n (drop (unat (iw_ShareIndexes (pfbs ! i) ! j)) (regions_square g))
        = sparse_shares_of (Namespace_blob blob) 0 (blob_Data blob)"
    if ij: "i < length btxs" "j < length (btx_Blobs (btxs ! i))" "blob = btx_Blobs (btxs ! i) ! j"
      "n = needed 478 482 (length (blob_Data blob))" for i j blob n
  proof -
    obtain e where e: "e \<in> set (sb_Blobs b)" "el_PfbIndex e = i" "el_BlobIndex e = j" "el_Blob e = blob"
      using elements_from_at [OF es ij(1,2)] ij(3) by auto
    then have "el_NumShares e = int n" using built_elements(1) [OF b acc] ij(4) by (auto simp: elem_wf_def)
    moreover have "index_of pfbs e = iw_ShareIndexes (pfbs ! i) ! j" using e by (simp add: index_of_def)
    ultimately show ?thesis using sq e(1,4) by (auto simp: square_of_def)
  qed
  have "list_all2 (\<lambda>iw btx. iw_Tx iw = btx_Tx btx \<and> iw_TypeId iw = x_iwTypeId x
          \<and> length (iw_ShareIndexes iw) = length (btx_Blobs btx)) pfbs btxs"
    using pfbs unfolding list_all2_map2
    by (rule list_all2_mono)
      (auto simp: iw_le_def worst_iw_def worstCaseShareIndexes_def Let_def dest: list_all2_lengthD)
  moreover have "ParseBlobs (rg_blob g) = Inr (Sort_blobs (concat (map btx_Blobs btxs)))"
      "ns_run (map Namespace_blob (Sort_blobs (concat (map btx_Blobs btxs)))) (rg_blob g)"
    using sq built_elements(2) [OF b acc] unfolding square_of_def sort_elements_blobs by simp_all
  ultimately show ?thesis
    using sq idx unfolding block_layout_def square_of_def Let_def by blast
qed

section \<open>Building a block\<close>

lemma Export_built:
  assumes b: "built x v (m * m) b txs btxs" and m: "0 < m" "m \<le> SquareSizeUpperBound v"
    and acc: "\<forall>btx\<in>set btxs. accepted btx" and ok: "iw_codec_ok x"
  shows "\<exists>b' g pfbs. Export_sq x b = Inr (b', regions_square g) \<and> block_layout x txs btxs pfbs g
    \<and> int (length (regions_square g)) = min_square (sb_currentSize b) * min_square (sb_currentSize b)"
proof (cases "txs = [] \<and> btxs = []")
  case True
  then obtain g where g: "Export_sq x b = Inr (b, regions_square g)"
      "square_of x 64 [] (sb_Pfbs b) (sort_elements (sb_Blobs b)) g" "length (regions_square g) = 1"
    using Export_empty_sq [of x v "m * m" b] b by auto
  have z: "sb_currentSize b = 0" "sb_Pfbs b = []"
    using b True by (auto simp: built_def total_size_def tx_bytes_def pfb_bytes_def needed_def)
  then have "min_square (sb_currentSize b) = 1"
    by (simp add: min_square_def ceil_sqrt_def ceil_sqrt_from.simps)
  moreover have "block_layout x txs btxs (sb_Pfbs b) g"
    using square_of_block_layout [OF b acc] g(2) True z(2) by simp
  ultimately show ?thesis using g by (intro exI [of _ b] exI [of _ g] exI [of _ "sb_Pfbs b"]) simp
next
  case False
  then obtain b' g where g: "Export_sq x b = Inr (b', regions_square g)"
      "square_of x 64 txs (sb_Pfbs b') (sort_elements (sb_Blobs b)) g"
      "list_all2 iw_le (sb_Pfbs b') (map (worst_iw x v) btxs)"
      "int (length (regions_square g)) = min_square (sb_currentSize b) * min_square (sb_currentSize b)"
    using Export_sq_ok [OF b m acc ok] by auto
  then show ?thesis using square_of_block_layout [OF b acc g(2,3)] by blast
qed

lemma Build_total:
  assumes m: "m = 2 ^ k" "m \<le> SquareSizeUpperBound v"
    and acc: "all_accepted x txs" and ok: "iw_codec_ok x"
  shows "\<exists>normal blob g pfbs s.
    Build x txs v m = Inr (regions_square g, normal @ blob)
    \<and> subseq normal (filter (\<lambda>tx. \<not> is_blob_tx x tx) txs) \<and> subseq blob (filter (is_blob_tx x) txs)
    \<and> block_layout x normal (map (decode x) blob) pfbs g
    \<and> length (regions_square g) = 2 ^ s * 2 ^ s \<and> (2::int) ^ s \<le> m"
proof -
  have mb: "0 < m" "m < 2 ^ 31"
    using m SquareSizeUpperBound_cases [of v] by auto
  have "IsPowerOfTwo wrap_int m" using IsPowerOfTwo_int_iff [of m] mb m(1) by auto
  then obtain b where b: "built x v (m * m) b [] []"
      "\<And>txs. NewBuilder_sq x m v txs = NewBuilder_loop x False txs b"
    using NewBuilder_sq_start [OF mb, of x v] by blast
  obtain b1 normal blob where loop: "Build_loop x txs b [] [] = Inr (b1, normal, blob)"
    using Build_loop_total [OF acc b(1)] by blast
  have b1: "built x v (m * m) b1 normal (map (decode x) blob)"
    using Build_loop_built [OF loop, of v "m * m"] b(1) by (auto simp: sorted_block_def)
  have sel: "subseq normal (filter (\<lambda>tx. \<not> is_blob_tx x tx) txs)" "subseq blob (filter (is_blob_tx x) txs)"
    using Build_loop_selects [OF loop] by auto
  have "set blob \<subseteq> set (filter (is_blob_tx x) txs)"
    using sel(2) by (metis notin_set_nthsI subseq_conv_nths subsetI)
  then have bacc: "\<forall>btx\<in>set (map (decode x) blob). accepted btx"
    using acc by (auto simp: all_accepted_def)
  obtain b' g pfbs where g: "Export_sq x b1 = Inr (b', regions_square g)"
      "block_layout x normal (map (decode x) blob) pfbs g"
      "int (length (regions_square g)) = min_square (sb_currentSize b1) * min_square (sb_currentSize b1)"
    using Export_built [OF b1 mb(1) m(2) bacc ok] by blast
  obtain s where s: "min_square (sb_currentSize b1) = 2 ^ s" using min_square_pow2 by blast
  have "sb_currentSize b1 \<le> 2 ^ k * 2 ^ k" using b1 m(1) by (simp add: built_def)
  then have "(2::int) ^ s \<le> m" using min_square_least s m(1) by metis
  moreover have "int (length (regions_square g)) = int (2 ^ s * 2 ^ s)" using g(3) s by simp
  then have "length (regions_square g) = 2 ^ s * 2 ^ s" by (simp only: of_nat_eq_iff)
  moreover have "Build x txs v m = Inr (regions_square g, normal @ blob)"
    using loop g(1) by (simp add: Build_def b(2))
  ultimately show ?thesis using sel g(2) by blast
qed

end
