(* ===== verification/SquareDeconstruct.thy ===== *)
theory SquareDeconstruct
  imports SquareTotal
begin

text \<open>
  Reading a square back. The shares of a built square are full and their namespaces are in order
  (\<open>square_namespaces\<close>), so the range of each reserved namespace is its region, and \<^verbatim>\<open>Deconstruct\<close>
  returns the block's transactions.
\<close>

section \<open>The namespaces of a square\<close>

lemma share_in_facts: "share_in ns s \<Longrightarrow> Namespace_sh s = Inr ns \<and> length (share_data s) = 512"
  by (auto simp: share_in_def share_of_Namespace)

lemma sorted_remdups_adj_iff: "sorted (remdups_adj xs) \<longleftrightarrow> sorted xs"
proof
  show "sorted (remdups_adj xs) \<Longrightarrow> sorted xs"
  proof (induction xs rule: remdups_adj.induct)
    case (3 x y xs)
    show ?case
    proof (cases "x = y")
      case True
      have "sorted (remdups_adj (x # xs))" using 3(3) True by simp
      from 3(1) [OF True this] True show ?thesis by simp
    next
      case False
      then have s: "sorted (x # remdups_adj (y # xs))" using 3(3) by simp
      then have "sorted (y # xs)" using 3(2) [OF False] by simp
      moreover have "\<forall>z\<in>set (y # xs). x \<le> z"
        using s unfolding sorted_simps(2) remdups_adj_set by (rule conjunct1)
      ultimately show ?thesis by simp
    qed
  qed simp_all
qed (rule sorted_remdups_adj)

lemma list_all2_replicate_in: "\<forall>s\<in>set ss. share_in ns s \<Longrightarrow> list_all2 share_in (replicate (length ss) ns) ss"
  by (simp add: list_all2_conv_all_nth)

text \<open>
  \<open>ns_layout a b c d bs\<close> is the list of namespaces of a square with these numbers of transaction,
  payment, padding and tail shares, and with the namespaces \<open>bs\<close> in the blob region.
\<close>

definition ns_layout :: "nat \<Rightarrow> nat \<Rightarrow> nat \<Rightarrow> Namespace list \<Rightarrow> nat \<Rightarrow> Namespace list" where
  "ns_layout a b c bs d =
     replicate a TxNamespace @ replicate b PayForBlobNamespace @ replicate c PrimaryReservedPaddingNamespace
     @ bs @ replicate d TailPaddingNamespace"

lemma square_share_in:
  assumes "block_layout x txs btxs pfbs g"
  obtains bs where
    "list_all2 share_in (ns_layout (length (rg_tx g)) (length (rg_pfb g)) (length (rg_pad g)) bs (length (rg_tail g)))
       (regions_square g)"
    "set bs = Namespace_blob ` set (concat (map btx_Blobs btxs))" "sorted bs"
proof -
  let ?blobs = "Sort_blobs (concat (map btx_Blobs btxs))"
  obtain bs where bs: "list_all2 share_in bs (rg_blob g)" "remdups_adj bs = remdups_adj (map Namespace_blob ?blobs)"
    using assms by (auto simp: block_layout_def ns_run_def)
  have "sorted bs" using bs(2) sorted_remdups_adj_iff Sort_blobs_sorted by metis
  moreover have "set bs = Namespace_blob ` set (concat (map btx_Blobs btxs))"
    using bs(2) Sort_blobs_mset [of "concat (map btx_Blobs btxs)"]
    by (metis list.set_map remdups_adj_set set_mset_mset)
  moreover have "\<forall>s\<in>set (rg_pad g). share_in PrimaryReservedPaddingNamespace s"
    "\<forall>s\<in>set (rg_tail g). share_in TailPaddingNamespace s"
    "\<forall>s\<in>set (rg_tx g). share_in TxNamespace s" "\<forall>s\<in>set (rg_pfb g). share_in PayForBlobNamespace s"
    using assms by (auto simp: block_layout_def)
  then have "list_all2 share_in (ns_layout (length (rg_tx g)) (length (rg_pfb g)) (length (rg_pad g)) bs
      (length (rg_tail g))) (regions_square g)"
    unfolding ns_layout_def regions_square_def
    using bs(1) by (intro list_all2_appendI list_all2_replicate_in) auto
  ultimately show thesis using that by blast
qed

lemma ns_layout_sorted:
  assumes "sorted bs" "\<forall>n\<in>set bs. \<not> IsReserved n"
  shows "sorted (ns_layout a b c bs d)"
proof -
  have "PrimaryReservedPaddingNamespace \<le> n \<and> n \<le> TailPaddingNamespace" if "n \<in> set bs" for n
    using that assms(2) named_order by (fastforce simp: IsReserved_iff not_le)
  moreover have "TxNamespace \<le> PayForBlobNamespace" "PayForBlobNamespace \<le> PrimaryReservedPaddingNamespace"
    "PrimaryReservedPaddingNamespace \<le> TailPaddingNamespace" "TxNamespace \<le> PrimaryReservedPaddingNamespace"
    "PayForBlobNamespace \<le> TailPaddingNamespace" "TxNamespace \<le> TailPaddingNamespace"
    using named_order by auto
  ultimately show ?thesis
    using assms(1) unfolding ns_layout_def sorted_append
    by (auto dest: order.trans)
qed

lemma square_namespaces:
  assumes "block_layout x txs btxs pfbs g" "\<forall>btx\<in>set btxs. \<forall>b\<in>set (btx_Blobs btx). \<not> IsReserved (Namespace_blob b)"
  obtains bs where
    "list_all2 (\<lambda>s n. Namespace_sh s = Inr n) (regions_square g)
       (ns_layout (length (rg_tx g)) (length (rg_pfb g)) (length (rg_pad g)) bs (length (rg_tail g)))"
    "sorted (ns_layout (length (rg_tx g)) (length (rg_pfb g)) (length (rg_pad g)) bs (length (rg_tail g)))"
    "\<forall>n\<in>set bs. \<not> IsReserved n" "\<forall>s\<in>set (regions_square g). length (share_data s) = 512"
proof -
  from square_share_in [OF assms(1)] obtain bs where bs:
    "list_all2 share_in (ns_layout (length (rg_tx g)) (length (rg_pfb g)) (length (rg_pad g)) bs (length (rg_tail g)))
       (regions_square g)"
    "set bs = Namespace_blob ` set (concat (map btx_Blobs btxs))" "sorted bs" .
  have nr: "\<forall>n\<in>set bs. \<not> IsReserved n" using bs(2) assms(2) by auto
  show thesis
  proof (rule that [OF _ ns_layout_sorted [OF bs(3) nr] nr])
    show "list_all2 (\<lambda>s n. Namespace_sh s = Inr n) (regions_square g)
       (ns_layout (length (rg_tx g)) (length (rg_pfb g)) (length (rg_pad g)) bs (length (rg_tail g)))"
      using bs(1) share_in_facts by (auto simp: list_all2_conv_all_nth)
    show "\<forall>s\<in>set (regions_square g). length (share_data s) = 512"
      using bs(1) share_in_facts by (fastforce simp: list_all2_conv_all_nth in_set_conv_nth)
  qed
qed

section \<open>The ranges of the reserved namespaces\<close>

lemma takeWhile_replicate_append:
  "takeWhile P (replicate n x @ ys) = (if P x then replicate n x @ takeWhile P ys else if n = 0 then takeWhile P ys else [])"
  by (induction n) auto

lemma takeWhile_none: "\<forall>y\<in>set ys. \<not> P y \<Longrightarrow> takeWhile P ys = []"
  by (cases ys) auto

lemma first_region_range:
  assumes "list_all2 (\<lambda>s n. Namespace_sh s = Inr n) shares (replicate k ns @ rest)"
    "sorted (replicate k ns @ rest)" "\<forall>n\<in>set rest. ns < n"
  shows "GetShareRangeForNamespace shares ns = Inr (NewRange 0 (int k))"
proof -
  have "takeWhile (\<lambda>n. n < ns) (replicate k ns @ rest) = []" "takeWhile (\<lambda>n. n \<le> ns) rest = []"
    using assms(3) by (auto simp: takeWhile_replicate_append intro!: takeWhile_none dest: less_imp_le leD)
  moreover have "ns \<in> set (replicate k ns @ rest) \<longleftrightarrow> k \<noteq> 0" using assms(3) by auto
  ultimately show ?thesis
    using GetShareRangeForNamespace_range [OF assms(1,2), of ns]
    by (auto simp: takeWhile_replicate_append EmptyRange_def NewRange_def)
qed

lemma layout_above:
  assumes "\<forall>n\<in>set bs. \<not> IsReserved n"
  shows "\<forall>n\<in>set (replicate b PayForBlobNamespace @ replicate c PrimaryReservedPaddingNamespace @ bs
      @ replicate d TailPaddingNamespace). TxNamespace < n"
    "\<forall>n\<in>set (replicate c PrimaryReservedPaddingNamespace @ bs @ replicate d TailPaddingNamespace).
      PayForBlobNamespace < n"
  using assms named_order unfolding IsReserved_iff by (auto simp: not_le)

lemma square_ranges:
  assumes "block_layout x txs btxs pfbs g" "\<forall>btx\<in>set btxs. \<forall>b\<in>set (btx_Blobs btx). \<not> IsReserved (Namespace_blob b)"
  shows "GetShareRangeForNamespace (regions_square g) TxNamespace = Inr (NewRange 0 (int (length (rg_tx g))))"
    and "GetShareRangeForNamespace (drop (length (rg_tx g)) (regions_square g)) PayForBlobNamespace
      = Inr (NewRange 0 (int (length (rg_pfb g))))"
proof -
  from square_namespaces [OF assms] obtain bs where bs:
    "list_all2 (\<lambda>s n. Namespace_sh s = Inr n) (regions_square g)
       (ns_layout (length (rg_tx g)) (length (rg_pfb g)) (length (rg_pad g)) bs (length (rg_tail g)))"
    "sorted (ns_layout (length (rg_tx g)) (length (rg_pfb g)) (length (rg_pad g)) bs (length (rg_tail g)))"
    "\<forall>n\<in>set bs. \<not> IsReserved n" .
  show "GetShareRangeForNamespace (regions_square g) TxNamespace = Inr (NewRange 0 (int (length (rg_tx g))))"
    using first_region_range [OF bs(1,2) [unfolded ns_layout_def] layout_above(1) [OF bs(3)]] .
  have "list_all2 (\<lambda>s n. Namespace_sh s = Inr n) (drop (length (rg_tx g)) (regions_square g))
     (drop (length (rg_tx g)) (ns_layout (length (rg_tx g)) (length (rg_pfb g)) (length (rg_pad g)) bs (length (rg_tail g))))"
    using bs(1) by (rule list_all2_dropI)
  then have "list_all2 (\<lambda>s n. Namespace_sh s = Inr n) (drop (length (rg_tx g)) (regions_square g))
     (replicate (length (rg_pfb g)) PayForBlobNamespace @ replicate (length (rg_pad g)) PrimaryReservedPaddingNamespace
        @ bs @ replicate (length (rg_tail g)) TailPaddingNamespace)"
    by (simp add: ns_layout_def)
  moreover have "sorted (replicate (length (rg_pfb g)) PayForBlobNamespace
      @ replicate (length (rg_pad g)) PrimaryReservedPaddingNamespace @ bs @ replicate (length (rg_tail g)) TailPaddingNamespace)"
    using bs(2) unfolding ns_layout_def by (simp add: sorted_append)
  ultimately show "GetShareRangeForNamespace (drop (length (rg_tx g)) (regions_square g)) PayForBlobNamespace
      = Inr (NewRange 0 (int (length (rg_pfb g))))"
    using first_region_range layout_above(2) [OF bs(3)] by blast
qed

section \<open>Deconstruct\<close>

text \<open>
  What \<^verbatim>\<open>Deconstruct\<close> relies on for the blob transaction \<open>tx\<close>: the decoder finds its one message, which
  states the sizes of its blobs; encoding the decoded transaction gives it back; and the index wrapper
  of its payment is decoded from its encoding.
\<close>

definition deconstructible :: "ext \<Rightarrow> bytes \<Rightarrow> bool" where
  "deconstructible x tx \<longleftrightarrow>
     (let btx = decode x tx in
      x_decoder x (btx_Tx btx) = Inr [Some (map (\<lambda>b. of_nat (length (blob_Data b))) (btx_Blobs btx))]
      \<and> MarshalBlobTx (x_marshal x) (btx_Tx btx) (btx_Blobs btx) = Inr tx
      \<and> (\<forall>iw bs. iw_Tx iw = btx_Tx btx \<longrightarrow> iw_TypeId iw = x_iwTypeId x
           \<longrightarrow> x_iwMarshal x iw = Inr bs \<longrightarrow> bs \<noteq> [] \<and> x_unwrap x bs = Some iw))"

lemma ParseBlobs_one:
  assumes "user_blob b"
  shows "ParseBlobs (sparse_shares_of (Namespace_blob b) 0 (blob_Data b)) = Inr [b]"
proof -
  have "\<exists>sss. Write_sss NewSparseShareSplitter b = Inr sss \<and> sparse_inv [b] (sss_shares sss)"
    using sparse_inv_write [of "[]" NewSparseShareSplitter b] assms by (simp add: NewSparseShareSplitter_def)
  then show ?thesis
    using user_blob_write [OF assms, of NewSparseShareSplitter] ParseBlobs_of_inv
    by (auto simp: NewSparseShareSplitter_def)
qed

lemma Deconstruct_blobs_ok:
  assumes "length idxs = length blobs" "\<forall>b\<in>set blobs. sized_blob b"
    and "\<And>j. j < length blobs \<Longrightarrow> take (needed 478 482 (length (blob_Data (blobs ! j)))) (drop (unat (idxs ! j)) s)
      = sparse_shares_of (Namespace_blob (blobs ! j)) 0 (blob_Data (blobs ! j))"
  shows "Deconstruct_blobs s idxs (map (\<lambda>b. of_nat (length (blob_Data b))) blobs) = Inr blobs"
  using assms
proof (induction blobs arbitrary: idxs)
  case (Cons b blobs)
  then obtain i idxs' where i: "idxs = i # idxs'" by (cases idxs) auto
  let ?n = "needed 478 482 (length (blob_Data b))" and ?ss = "sparse_shares_of (Namespace_blob b) 0 (blob_Data b)"
  have b: "sized_blob b" using Cons.prems(2) by simp
  have ne: "blob_Data b \<noteq> []" using b by (auto simp: sized_blob_def user_blob_def Validate_blob_iff)
  have at: "take ?n (drop (unat i) s) = ?ss" using Cons.prems(3) [of 0] i by simp
  have "length ?ss = ?n" by (rule length_sparse_shares_of [OF ne])
  then have "min (length s - unat i) ?n = ?n" using arg_cong [OF at, of length] by simp
  then have "unat i + ?n \<le> length s" using sized_blob_needed(3) [OF b] by linarith
  then have "slice_int s (uint i) (uint i + int ?n) = Inr ?ss"
    using at slice_ok [of "unat i" "unat i + ?n" s] uint_ge_0 [of i]
    by (simp add: slice_int_def nat_add_distrib not_less)
  moreover have "Deconstruct_blobs s idxs' (map (\<lambda>b. of_nat (length (blob_Data b))) blobs) = Inr blobs"
    using Cons.prems(1,2) i Cons.prems(3) [of "Suc j" for j] by (intro Cons.IH) auto
  moreover have "SparseSharesNeeded (of_nat (length (blob_Data b))) = Inr (int ?n)"
    using sized_blob_needed [OF b] by simp
  ultimately show ?case
    using ParseBlobs_one [of b] b by (simp add: i sized_blob_def)
qed simp

lemma Deconstruct_pfb_ok:
  assumes iw: "iw_Tx iw = btx_Tx btx" "iw_TypeId iw = x_iwTypeId x" "length (iw_ShareIndexes iw) = length (btx_Blobs btx)"
    and bs: "x_iwMarshal x iw = Inr bs" and btx: "btx = decode x tx" "accepted btx" and dec: "deconstructible x tx"
    and at: "\<And>j. j < length (btx_Blobs btx) \<Longrightarrow>
      take (needed 478 482 (length (blob_Data (btx_Blobs btx ! j)))) (drop (unat (iw_ShareIndexes iw ! j)) s)
      = sparse_shares_of (Namespace_blob (btx_Blobs btx ! j)) 0 (blob_Data (btx_Blobs btx ! j))"
  shows "Deconstruct_pfb x s bs txs = Inr (txs @ [tx])"
proof -
  have d: "x_decoder x (btx_Tx btx) = Inr [Some (map (\<lambda>b. of_nat (length (blob_Data b))) (btx_Blobs btx))]"
      "MarshalBlobTx (x_marshal x) (btx_Tx btx) (btx_Blobs btx) = Inr tx" "x_unwrap x bs = Some iw"
    using dec iw bs by (auto simp: deconstructible_def btx(1) Let_def)
  have "Deconstruct_blobs s (iw_ShareIndexes iw) (map (\<lambda>b. of_nat (length (blob_Data b))) (btx_Blobs btx))
      = Inr (btx_Blobs btx)"
    using iw(3) btx(2) at by (intro Deconstruct_blobs_ok) (auto simp: accepted_def)
  moreover have "btx_Blobs btx \<noteq> []" using btx(2) by (simp add: accepted_def)
  ultimately show ?thesis using d iw by (simp add: Deconstruct_pfb_def)
qed

lemma Deconstruct_pfbs_ok:
  assumes "list_all2 (\<lambda>iw btx. iw_Tx iw = btx_Tx btx \<and> iw_TypeId iw = x_iwTypeId x
      \<and> length (iw_ShareIndexes iw) = length (btx_Blobs btx)) pfbs (map (decode x) blob)"
    and "list_all2 (\<lambda>iw bs. x_iwMarshal x iw = Inr bs) pfbs bss"
    and "\<forall>tx\<in>set blob. accepted (decode x tx) \<and> deconstructible x tx"
    and "\<And>i j. i < length blob \<Longrightarrow> j < length (btx_Blobs (decode x (blob ! i))) \<Longrightarrow>
      take (needed 478 482 (length (blob_Data (btx_Blobs (decode x (blob ! i)) ! j))))
        (drop (unat (iw_ShareIndexes (pfbs ! i) ! j)) s)
      = sparse_shares_of (Namespace_blob (btx_Blobs (decode x (blob ! i)) ! j)) 0
          (blob_Data (btx_Blobs (decode x (blob ! i)) ! j))"
  shows "foldR (Deconstruct_pfb x s) bss txs = Inr (txs @ blob)"
  using assms
proof (induction blob arbitrary: pfbs bss txs)
  case (Cons tx blob)
  then obtain iw pfbs' bs bss' where p: "pfbs = iw # pfbs'" "bss = bs # bss'"
      "iw_Tx iw = btx_Tx (decode x tx)" "iw_TypeId iw = x_iwTypeId x"
      "length (iw_ShareIndexes iw) = length (btx_Blobs (decode x tx))" "x_iwMarshal x iw = Inr bs"
    by (auto simp: list_all2_Cons1 list_all2_Cons2)
  have "Deconstruct_pfb x s bs txs = Inr (txs @ [tx])"
    using Cons.prems(3) Cons.prems(4) [of 0] p by (intro Deconstruct_pfb_ok [OF p(3-6) refl]) auto
  moreover have "foldR (Deconstruct_pfb x s) bss' (txs @ [tx]) = Inr ((txs @ [tx]) @ blob)"
    using Cons.prems p Cons.prems(4) [of "Suc i" for i] by (intro Cons.IH [of pfbs']) auto
  ultimately show ?case using p(2) by simp
qed simp

lemma square_not_empty:
  assumes "block_layout x txs btxs pfbs g" "rg_tx g \<noteq> [] \<or> rg_pfb g \<noteq> []"
  shows "IsEmpty_sq (regions_square g) = Inr False"
proof -
  let ?e = "pad_share TailPaddingNamespace"
  have e: "EmptySquare = Inr [?e]" using TailPaddingShares_eq [of 1] by (simp add: EmptySquare_def EmptySquareShares_def)
  obtain s rest where s: "regions_square g = s # rest" "share_in TxNamespace s \<or> share_in PayForBlobNamespace s"
    using assms by (cases "rg_tx g"; cases "rg_pfb g") (auto simp: regions_square_def block_layout_def)
  have "share_in TailPaddingNamespace ?e" by simp
  then have "s \<noteq> ?e" using s(2) share_in_unique named_order by (metis order.strict_trans order.irrefl)
  then have "\<not> Equals_sq (s # rest) [?e]"
    by (cases s; cases rest) (auto simp: Equals_sq_def ToBytes_sh_def)
  then show ?thesis unfolding IsEmpty_sq_def e s(1) bindR_simps by simp
qed

lemma payments_nonempty:
  assumes "list_all2 (\<lambda>iw btx. iw_Tx iw = btx_Tx btx \<and> iw_TypeId iw = x_iwTypeId x
      \<and> length (iw_ShareIndexes iw) = length (btx_Blobs btx)) pfbs (map (decode x) blob)"
    and "\<forall>tx\<in>set blob. deconstructible x tx" "list_all2 (\<lambda>iw bs. x_iwMarshal x iw = Inr bs) pfbs bss"
  shows "\<forall>bs\<in>set bss. bs \<noteq> []"
proof -
  have "bss ! i \<noteq> []" if i: "i < length bss" for i
  proof -
    have "deconstructible x (blob ! i)" "x_iwMarshal x (pfbs ! i) = Inr (bss ! i)"
        "iw_Tx (pfbs ! i) = btx_Tx (decode x (blob ! i))" "iw_TypeId (pfbs ! i) = x_iwTypeId x"
      using i assms by (auto simp: list_all2_conv_all_nth)
    then show ?thesis unfolding deconstructible_def Let_def by blast
  qed
  then show ?thesis by (metis in_set_conv_nth)
qed

lemma Deconstruct_block:
  assumes lay: "block_layout x txs (map (decode x) blob) pfbs g"
    and acc: "\<forall>tx\<in>set blob. accepted (decode x tx) \<and> deconstructible x tx
      \<and> (\<forall>b\<in>set (btx_Blobs (decode x tx)). \<not> IsReserved (Namespace_blob b))"
    and txs: "\<forall>tx\<in>set txs. tx \<noteq> []" and ne: "rg_tx g \<noteq> [] \<or> rg_pfb g \<noteq> []"
  shows "Deconstruct x (regions_square g) = Inr (txs @ blob)"
proof -
  let ?s = "regions_square g" and ?a = "length (rg_tx g)" and ?b = "length (rg_pfb g)"
  have nr: "\<forall>btx\<in>set (map (decode x) blob). \<forall>b\<in>set (btx_Blobs btx). \<not> IsReserved (Namespace_blob b)"
    using acc by auto
  note ranges = square_ranges [OF lay nr]
  obtain bss where bss: "list_all2 (\<lambda>iw bs. x_iwMarshal x iw = Inr bs) pfbs bss"
      "(\<forall>bs\<in>set bss. bs \<noteq> []) \<longrightarrow> ParseTxs (rg_pfb g) = Inr bss"
    and iws: "list_all2 (\<lambda>iw btx. iw_Tx iw = btx_Tx btx \<and> iw_TypeId iw = x_iwTypeId x
          \<and> length (iw_ShareIndexes iw) = length (btx_Blobs btx)) pfbs (map (decode x) blob)"
    using lay by (auto simp: block_layout_def)
  have pt: "ParseTxs (rg_tx g) = Inr txs" using lay txs by (simp add: block_layout_def)
  have slices: "slice_int ?s 0 (int ?a) = Inr (rg_tx g)" "slice_int ?s (int ?a) (int (?b + ?a)) = Inr (rg_pfb g)"
    "slice_from ?s ?a = Inr (drop ?a ?s)"
    by (simp_all add: slice_int_def regions_square_def)
  have "\<forall>bs\<in>set bss. bs \<noteq> []" using payments_nonempty [OF iws _ bss(1)] acc by blast
  then have pp: "ParseTxs (rg_pfb g) = Inr bss" using bss(2) by simp
  have "foldR (Deconstruct_pfb x ?s) bss txs = Inr (txs @ blob)"
    using acc lay by (intro Deconstruct_pfbs_ok [OF iws bss(1)]) (auto simp: block_layout_def Let_def)
  moreover have "rg_pfb g = [] \<Longrightarrow> bss = []" using pp by (auto simp: ParseTxs_def parseCompactShares_def)
  ultimately show ?thesis
    using square_not_empty [OF lay ne] ranges pt pp slices
    by (cases "rg_pfb g = []")
      (auto simp: Deconstruct_def NewRange_def IsEmpty_range_def Add_range_def Let_def add.commute)
qed

text \<open>
  The whole round trip: what \<^verbatim>\<open>Build\<close> puts in a square, \<^verbatim>\<open>Deconstruct\<close> takes out of it.
\<close>

lemma regions_nonempty:
  assumes "block_layout x txs btxs pfbs g" "txs \<noteq> [] \<or> btxs \<noteq> []" "\<forall>tx\<in>set txs. tx \<noteq> []"
    and "\<And>bss. list_all2 (\<lambda>iw bs. x_iwMarshal x iw = Inr bs) pfbs bss \<Longrightarrow> \<forall>bs\<in>set bss. bs \<noteq> []"
  shows "rg_tx g \<noteq> [] \<or> rg_pfb g \<noteq> []"
proof -
  obtain bss where bss: "list_all2 (\<lambda>iw bs. x_iwMarshal x iw = Inr bs) pfbs bss" "ParseTxs (rg_pfb g) = Inr bss"
    using assms(1,4) by (auto simp: block_layout_def)
  have "length pfbs = length btxs" using assms(1) by (auto simp: block_layout_def dest: list_all2_lengthD)
  then have "length bss = length btxs" using bss(1) list_all2_lengthD by fastforce
  moreover have "ParseTxs (rg_tx g) = Inr txs" using assms(1,3) by (simp add: block_layout_def)
  moreover have "ParseTxs [] = Inr []" by (simp add: ParseTxs_def parseCompactShares_def)
  ultimately show ?thesis using assms(2) bss(2) by auto
qed

lemma Construct_nothing:
  assumes "Construct x [] v m = Inr sq"
  shows "EmptySquare = Inr sq"
proof -
  obtain b b' where b: "NewBuilder_sq x m v [] = Inr b" "Export_sq x b = Inr (b', sq)"
    using assms by (auto simp: Construct_def result_simps)
  have "IsEmpty_sb b"
    using b(1) by (auto simp: NewBuilder_sq_def IsEmpty_sb_def NewCompactShareCounter_def Size_csc_def split: if_splits)
  then show ?thesis using b(2) by (auto simp: Export_sq_def result_simps)
qed

lemma Deconstruct_EmptySquare:
  assumes e: "EmptySquare = Inr sq"
  shows "Deconstruct x sq = Inr []"
  unfolding Deconstruct_def IsEmpty_sq_def e bindR_simps by (simp add: Equals_sq_def list_all_iff)

lemma Deconstruct_Build:
  assumes m: "m = 2 ^ k" "m \<le> SquareSizeUpperBound v" and ok: "iw_codec_ok x" and acc: "all_accepted x txs"
    and ne: "\<forall>tx\<in>set txs. tx \<noteq> []"
    and blobs: "\<forall>tx\<in>set txs. is_blob_tx x tx \<longrightarrow> deconstructible x tx
      \<and> (\<forall>b\<in>set (btx_Blobs (decode x tx)). \<not> IsReserved (Namespace_blob b))"
    and build: "Build x txs v m = Inr (sq, txs')"
  shows "Deconstruct x sq = Inr txs'"
proof -
  obtain normal blob g pfbs where g: "sq = regions_square g" "txs' = normal @ blob"
      "subseq normal (filter (\<lambda>tx. \<not> is_blob_tx x tx) txs)" "subseq blob (filter (is_blob_tx x) txs)"
      "block_layout x normal (map (decode x) blob) pfbs g"
    using Build_total [OF m acc ok] build by auto
  have sub: "set normal \<subseteq> set txs" "set blob \<subseteq> set (filter (is_blob_tx x) txs)"
    using g(3,4) by (metis filter_is_subset notin_set_nthsI subseq_conv_nths subsetI subset_trans)+
  then have bl: "\<forall>tx\<in>set blob. accepted (decode x tx) \<and> deconstructible x tx
      \<and> (\<forall>b\<in>set (btx_Blobs (decode x tx)). \<not> IsReserved (Namespace_blob b))"
    using blobs acc by (auto simp: all_accepted_def)
  show ?thesis
  proof (cases "normal = [] \<and> blob = []")
    case True
    have "m < 2 ^ 31" using m(2) SquareSizeUpperBound_cases [of v] by auto
    then have "Construct x [] v m = Inr sq" using Construct_of_Build [OF _ build] g(2) True by simp
    then show ?thesis using Deconstruct_EmptySquare [OF Construct_nothing] g(2) True by simp
  next
    case False
    have iws: "list_all2 (\<lambda>iw btx. iw_Tx iw = btx_Tx btx \<and> iw_TypeId iw = x_iwTypeId x
          \<and> length (iw_ShareIndexes iw) = length (btx_Blobs btx)) pfbs (map (decode x) blob)"
      using g(5) by (simp add: block_layout_def)
    have "rg_tx g \<noteq> [] \<or> rg_pfb g \<noteq> []"
      using False ne sub(1) payments_nonempty [OF iws] bl by (intro regions_nonempty [OF g(5)]) auto
    then show ?thesis using Deconstruct_block [OF g(5) bl] ne sub(1) g(1,2) by auto
  qed
qed

end
