(* ===== verification/CommitmentPaths.thy ===== *)
theory CommitmentPaths
  imports Inclusion
begin

text \<open>
  \<^verbatim>\<open>pkg/inclusion/paths.go\<close>, \<^verbatim>\<open>nmt_caching.go\<close> and \<^verbatim>\<open>get_commit.go\<close>: a blob's share commitment read off
  the trees of the square. The search for subtree roots is a loop over six mutable variables; it is
  shown to return, for every non-empty range, nodes that tile the range exactly, and when the range is
  aligned the sizes of the tiles are the mountain range of \<^verbatim>\<open>MerkleMountainRangeSizes\<close>.
\<close>

section \<open>Coordinates\<close>

record coord =
  co_depth :: int
  co_position :: int

definition climb :: "coord \<Rightarrow> coord" where
  "climb c = \<lparr>co_depth = co_depth c - 1, co_position = go_div (co_position c) 2\<rparr>"

definition canClimbRight :: "coord \<Rightarrow> int \<Rightarrow> bool" where
  "canClimbRight c minDepth \<longleftrightarrow> go_mod (co_position c) 2 = 0 \<and> co_depth c > minDepth"

record cursors =
  cu_leafCursor :: int
  cu_nodeCursor :: coord
  cu_lastNodeCursor :: coord
  cu_lastLeafCursor :: int
  cu_nodeRangeCursor :: int

definition cu_reset :: "int \<Rightarrow> cursors \<Rightarrow> cursors" where
  "cu_reset maxDepth s =
     s\<lparr>cu_lastNodeCursor := cu_nodeCursor s, cu_lastLeafCursor := cu_leafCursor s,
       cu_nodeCursor := \<lparr>co_depth = maxDepth, co_position = cu_leafCursor s\<rparr>, cu_nodeRangeCursor := 1\<rparr>"

partial_function (option) coords_loop ::
    "int \<Rightarrow> int \<Rightarrow> int \<Rightarrow> cursors \<Rightarrow> coord list \<Rightarrow> coord list option" where
  [code]: "coords_loop maxDepth minDepth en s coords =
     (if cu_leafCursor s + 1 = en then Some (coords @ [cu_nodeCursor s])
      else if cu_leafCursor s + 1 > en
      then coords_loop maxDepth minDepth en
             (cu_reset maxDepth (s\<lparr>cu_leafCursor := cu_lastLeafCursor s + 1\<rparr>))
             (coords @ [cu_lastNodeCursor s])
      else if \<not> canClimbRight (cu_nodeCursor s) minDepth
      then coords_loop maxDepth minDepth en
             (cu_reset maxDepth (s\<lparr>cu_leafCursor := cu_leafCursor s + 1\<rparr>))
             (coords @ [cu_nodeCursor s])
      else coords_loop maxDepth minDepth en
             (s\<lparr>cu_lastLeafCursor := cu_leafCursor s, cu_lastNodeCursor := cu_nodeCursor s,
                cu_leafCursor := cu_leafCursor s + cu_nodeRangeCursor s,
                cu_nodeRangeCursor := cu_nodeRangeCursor s * 2,
                cu_nodeCursor := climb (cu_nodeCursor s)\<rparr>)
             coords)"

definition calculateSubTreeRootCoordinates :: "int \<Rightarrow> int \<Rightarrow> int \<Rightarrow> int \<Rightarrow> coord list result" where
  "calculateSubTreeRootCoordinates maxDepth minDepth start en =
     (let nodeCursor = \<lparr>co_depth = maxDepth, co_position = start\<rparr> in
      of_loop (coords_loop maxDepth minDepth en
        \<lparr>cu_leafCursor = start, cu_nodeCursor = nodeCursor, cu_lastNodeCursor = nodeCursor,
         cu_lastLeafCursor = start, cu_nodeRangeCursor = 1\<rparr> []))"

section \<open>Paths\<close>

text \<open>\<^verbatim>\<open>WalkLeft\<close> is false and \<^verbatim>\<open>WalkRight\<close> is true.\<close>

type_synonym WalkInstruction = bool

definition genSubTreeRootPath :: "int \<Rightarrow> int \<Rightarrow> WalkInstruction list result" where
  "genSubTreeRootPath depth pos =
     (if depth < 0 then Inl (Panic ''makeslice: len out of range'')
      else Inr (map (\<lambda>i. bit pos i) (rev [0..<nat depth])))"

record path =
  pa_instructions :: "WalkInstruction list"
  pa_row :: int

text \<open>
  \<^verbatim>\<open>int(math.Log2(float64(n)))\<close>, which is exact at the powers of two it is used with.
\<close>

fun log2_nat :: "nat \<Rightarrow> nat" where
  "log2_nat n = (if n < 2 then 0 else Suc (log2_nat (n div 2)))"

declare log2_nat.simps [simp del]

definition log2_floor :: "int \<Rightarrow> int" where
  "log2_floor n = int (log2_nat (nat n))"

definition row_paths :: "int \<Rightarrow> int \<Rightarrow> int \<Rightarrow> int \<Rightarrow> int \<Rightarrow> path list result" where
  "row_paths maxDepth minDepth start en i =
     bindR (calculateSubTreeRootCoordinates maxDepth minDepth start en) (\<lambda>coords.
       mapR (\<lambda>c. bindR (genSubTreeRootPath (co_depth c) (co_position c)) (\<lambda>ins.
         Inr \<lparr>pa_instructions = ins, pa_row = i\<rparr>)) coords)"

fun commitment_rows :: "int \<Rightarrow> int \<Rightarrow> int \<Rightarrow> int \<Rightarrow> int \<Rightarrow> int \<Rightarrow> int \<Rightarrow> int list \<Rightarrow> path list result" where
  "commitment_rows squareSize maxDepth minDepth startRow endRow nstart nend [] = Inr []"
| "commitment_rows squareSize maxDepth minDepth startRow endRow nstart nend (i # rows) =
     bindR (row_paths maxDepth minDepth (if i = startRow then nstart else 0)
              (if i = endRow then nend else squareSize) i) (\<lambda>ps.
     bindR (commitment_rows squareSize maxDepth minDepth startRow endRow nstart nend rows) (\<lambda>rest.
       Inr (ps @ rest)))"

definition calculateCommitmentPaths :: "int \<Rightarrow> int \<Rightarrow> int \<Rightarrow> int \<Rightarrow> path list result" where
  "calculateCommitmentPaths squareSize start blobShareLen subtreeRootThreshold =
     bindR (NextShareIndex start blobShareLen subtreeRootThreshold) (\<lambda>start.
       if squareSize = 0 then Inl (Panic ''integer divide by zero'')
       else
         let startRow = go_div start squareSize;
             endRow = go_div (start + blobShareLen - 1) squareSize;
             normalizedStartIndex = go_mod start squareSize;
             normalizedEndIndex = (start + blobShareLen) - endRow * squareSize;
             maxDepth = log2_floor squareSize
         in bindR (SubTreeWidth blobShareLen subtreeRootThreshold) (\<lambda>w.
              let minDepth = maxDepth - log2_floor w in
              commitment_rows squareSize maxDepth minDepth startRow endRow
                normalizedStartIndex normalizedEndIndex [startRow..endRow]))"

section \<open>The cache of subtree roots\<close>

text \<open>A cached inner node maps its hash to its two children.\<close>

type_synonym subTreeRootCacher = "bytes \<rightharpoonup> bytes \<times> bytes"

definition Visit :: "subTreeRootCacher \<Rightarrow> bytes \<Rightarrow> bytes list \<Rightarrow> subTreeRootCacher result" where
  "Visit strc hash children =
     (case children of
        [l, r] \<Rightarrow> Inr (strc(hash \<mapsto> (l, r)))
      | [c] \<Rightarrow> Inr strc
      | _ \<Rightarrow> Inl (Panic ''unexpected visit''))"

fun walk :: "subTreeRootCacher \<Rightarrow> bytes \<Rightarrow> WalkInstruction list \<Rightarrow> bytes result" where
  "walk strc root [] = Inr root"
| "walk strc root (p # ps) =
     (case strc root of
        None \<Rightarrow> Inl (Err ''did not find sub tree root'')
      | Some (l, r) \<Rightarrow> if \<not> p then walk strc l ps else walk strc r ps)"

text \<open>The caches of the rows, by row index: \<^verbatim>\<open>Constructor\<close> registers one for each row tree.\<close>

type_synonym caches = "(nat \<times> subTreeRootCacher) list"

definition getSubTreeRoot ::
    "caches \<Rightarrow> bytes list \<Rightarrow> int \<Rightarrow> WalkInstruction list \<Rightarrow> bytes result" where
  "getSubTreeRoot caches rowRoots row path =
     (if length caches \<noteq> length rowRoots
      then Inl (Err ''data availability header has unexpected number of row roots'')
      else if row \<ge> int (length caches) then Inl (Err ''row exceeds range of cache'')
      else if row < 0 then Inl (Panic ''index out of range'')
      else (case map_of caches (nat row) of
              None \<Rightarrow> Inl (Panic ''nil pointer dereference'')
            | Some strc \<Rightarrow> walk strc (rowRoots ! nat row) path))"

definition GetCommitment :: "(bytes list \<Rightarrow> bytes) \<Rightarrow> caches \<Rightarrow> bytes list \<Rightarrow>
    int \<Rightarrow> int \<Rightarrow> int \<Rightarrow> bytes result" where
  "GetCommitment hash_roots caches rowRoots start blobShareLen subtreeRootThreshold =
     (let squareSize = go_div (int (length rowRoots)) 2 in
      if start + blobShareLen > squareSize * squareSize
      then Inl (Err ''cannot get commitment for blob that doesn't fit in square'')
      else bindR (calculateCommitmentPaths squareSize start blobShareLen subtreeRootThreshold) (\<lambda>paths.
        bindR (mapR (\<lambda>p. getSubTreeRoot caches rowRoots (pa_row p) (False # pa_instructions p)) paths)
          (\<lambda>subTreeRoots. Inr (hash_roots subTreeRoots))))"

section \<open>The nodes tile the range\<close>

definition node_size :: "int \<Rightarrow> coord \<Rightarrow> int" where
  "node_size D c = 2 ^ nat (D - co_depth c)"

fun tiles :: "int \<Rightarrow> int \<Rightarrow> coord list \<Rightarrow> int \<Rightarrow> bool" where
  "tiles D s [] e \<longleftrightarrow> s = e"
| "tiles D s (c # cs) e \<longleftrightarrow>
     co_depth c \<le> D \<and> co_position c * node_size D c = s \<and> tiles D (s + node_size D c) cs e"

lemma tiles_append: "tiles D s (xs @ ys) e \<longleftrightarrow> (\<exists>m. tiles D s xs m \<and> tiles D m ys e)"
  by (induction xs arbitrary: s) auto

lemma tiles_sum: "tiles D s cs e \<Longrightarrow> sum_list (map (node_size D) cs) = e - s"
  by (induction cs arbitrary: s) auto

definition at_height :: "int \<Rightarrow> int \<Rightarrow> nat \<Rightarrow> cursors \<Rightarrow> bool" where
  "at_height D l h s \<longleftrightarrow>
     2 ^ h dvd l \<and> cu_leafCursor s = l + 2 ^ h - 1 \<and> cu_nodeRangeCursor s = 2 ^ h
     \<and> cu_nodeCursor s = \<lparr>co_depth = D - int h, co_position = l div 2 ^ h\<rparr>
     \<and> (h \<noteq> 0 \<longrightarrow> cu_lastNodeCursor s = \<lparr>co_depth = D - int (h - 1), co_position = l div 2 ^ (h - 1)\<rparr>
          \<and> cu_lastLeafCursor s = l + 2 ^ (h - 1) - 1)"

lemma at_height_reset: "at_height D (cu_leafCursor s) 0 (cu_reset D s)"
  by (simp add: at_height_def cu_reset_def)

lemma node_size_height: "node_size D \<lparr>co_depth = D - int h, co_position = p\<rparr> = 2 ^ h"
  by (simp add: node_size_def)

text \<open>
  One climb from the leaf \<open>l\<close>: either the node found ends the range, or the loop continues at the leaf
  after it.
\<close>

lemma climb_from:
  assumes "at_height D l h s" "0 \<le> l" "int h \<le> D - M" "h \<noteq> 0 \<longrightarrow> l + 2 ^ (h - 1) < e" "h = 0 \<longrightarrow> l < e"
  shows "\<exists>k. int k \<le> D - M \<and> 2 ^ k dvd l \<and>
    (let c = \<lparr>co_depth = D - int k, co_position = l div 2 ^ k\<rparr> in
     (coords_loop D M e s acc = Some (acc @ [c]) \<and> l + 2 ^ k = e)
     \<or> (l + 2 ^ k < e \<and> (\<exists>s'. at_height D (l + 2 ^ k) 0 s'
          \<and> coords_loop D M e s acc = coords_loop D M e s' (acc @ [c])
          \<and> (int k = D - M \<or> odd (l div 2 ^ k) \<or> e < l + 2 ^ Suc k))))"
  using assms
proof (induction "nat (D - M) - h" arbitrary: h s rule: less_induct)
  case less
  let ?c = "\<lambda>k. \<lparr>co_depth = D - int k, co_position = l div 2 ^ k\<rparr>"
  note s = less.prems(1) [unfolded at_height_def]
  have leaf: "cu_leafCursor s + 1 = l + 2 ^ h" using s by simp
  consider "l + 2 ^ h = e" | "l + 2 ^ h > e" | "l + 2 ^ h < e" "\<not> canClimbRight (cu_nodeCursor s) M"
    | "l + 2 ^ h < e" "canClimbRight (cu_nodeCursor s) M" by linarith
  then show ?case
  proof cases
    case 1
    then have "coords_loop D M e s acc = Some (acc @ [?c h])"
      using leaf s by (subst coords_loop.simps) simp
    then show ?thesis using 1 less.prems(3) s by (intro exI [of _ h]) simp
  next
    case 2
    then have h: "h \<noteq> 0" using less.prems(5) by (intro notI) simp
    let ?s = "s\<lparr>cu_leafCursor := cu_lastLeafCursor s + 1\<rparr>"
    have "coords_loop D M e s acc = coords_loop D M e (cu_reset D ?s) (acc @ [?c (h - 1)])"
      using leaf s 2 h by (subst coords_loop.simps) simp
    moreover have "at_height D (l + 2 ^ (h - 1)) 0 (cu_reset D ?s)"
      using at_height_reset [of D ?s] s h by simp
    moreover have "(2::int) ^ (h - 1) dvd l" using s by (meson diff_le_self dvd_trans le_imp_power_dvd)
    moreover have "e < l + 2 ^ Suc (h - 1)" using 2 h by simp
    ultimately show ?thesis
      using less.prems(3,4) h unfolding Let_def by (intro exI [of _ "h - 1"]) auto
  next
    case 3
    let ?s = "s\<lparr>cu_leafCursor := cu_leafCursor s + 1\<rparr>"
    have "coords_loop D M e s acc = coords_loop D M e (cu_reset D ?s) (acc @ [?c h])"
      using leaf s 3 by (subst coords_loop.simps) simp
    moreover have "at_height D (l + 2 ^ h) 0 (cu_reset D ?s)"
      using at_height_reset [of D ?s] leaf by simp
    moreover have "int h = D - M \<or> odd (l div 2 ^ h)"
      using 3(2) s less.prems(2,3) by (auto simp: canClimbRight_def pos_imp_zdiv_nonneg_iff even_iff_mod_2_eq_zero)
    ultimately show ?thesis
      using less.prems(3) s 3(1) unfolding Let_def by (intro exI [of _ h]) auto
  next
    case 4
    let ?s = "s\<lparr>cu_lastLeafCursor := cu_leafCursor s, cu_lastNodeCursor := cu_nodeCursor s,
                cu_leafCursor := cu_leafCursor s + cu_nodeRangeCursor s,
                cu_nodeRangeCursor := cu_nodeRangeCursor s * 2,
                cu_nodeCursor := climb (cu_nodeCursor s)\<rparr>"
    have loop: "coords_loop D M e s acc = coords_loop D M e ?s acc"
      using leaf 4 by (subst coords_loop.simps) simp
    have pos: "0 \<le> l div 2 ^ h" using less.prems(2) by (simp add: pos_imp_zdiv_nonneg_iff)
    have ev: "even (l div 2 ^ h)" and d: "D - int h > M"
      using 4(2) s pos by (auto simp: canClimbRight_def even_iff_mod_2_eq_zero)
    have dv: "2 ^ Suc h dvd l"
      using s ev by (metis dvd_div_iff_mult power_Suc power_not_zero zero_neq_numeral)
    have "l div 2 ^ h div 2 = l div 2 ^ Suc h" by (simp add: power_Suc2 zdiv_zmult2_eq del: power_Suc)
    then have "at_height D l (Suc h) ?s"
      using s dv pos by (simp add: at_height_def climb_def)
    then have "\<exists>k. int k \<le> D - M \<and> 2 ^ k dvd l \<and>
      (let c = ?c k in
       (coords_loop D M e ?s acc = Some (acc @ [c]) \<and> l + 2 ^ k = e)
       \<or> (l + 2 ^ k < e \<and> (\<exists>s'. at_height D (l + 2 ^ k) 0 s'
            \<and> coords_loop D M e ?s acc = coords_loop D M e s' (acc @ [c])
            \<and> (int k = D - M \<or> odd (l div 2 ^ k) \<or> e < l + 2 ^ Suc k))))"
      using d 4(1) less.prems(2) by (intro less.hyps) auto
    then show ?thesis unfolding loop .
  qed
qed

text \<open>
  The whole search. Beside the tiling, the alignment that the caller guarantees is carried along: a
  range that starts at a multiple of the maximal node size is tiled by a mountain range.
\<close>

definition aligned :: "nat \<Rightarrow> int \<Rightarrow> int \<Rightarrow> bool" where
  "aligned K l e \<longleftrightarrow> (\<exists>j\<le>K. 2 ^ j dvd l \<and> (j = K \<or> e - l < 2 ^ j))"

lemma aligned_odd:
  assumes "aligned K l e" "k < K" "2 ^ k dvd l" "odd (l div 2 ^ k)"
  shows "e - l < 2 ^ k"
proof -
  obtain j where j: "j \<le> K" "2 ^ j dvd l" "j = K \<or> e - l < 2 ^ j" using assms(1) by (auto simp: aligned_def)
  have "j \<le> k"
  proof (rule ccontr)
    assume "\<not> j \<le> k"
    then have "(2::int) ^ Suc k dvd l" using j(2) by (meson dvd_trans le_imp_power_dvd not_less_eq_eq)
    then have "even (l div 2 ^ k)" using assms(3) by (auto elim!: dvdE)
    with assms(4) show False by simp
  qed
  then have "(2::int) ^ j \<le> 2 ^ k" by (simp add: power_increasing)
  moreover have "e - l < 2 ^ j" using j(3) \<open>j \<le> k\<close> assms(2) by simp
  ultimately show ?thesis by (rule order.strict_trans2 [rotated])
qed

lemma coords_loop_tiles:
  assumes "at_height D l 0 s" "0 \<le> l" "l < e" "M \<le> D"
  shows "\<exists>cs. coords_loop D M e s acc = Some (acc @ cs) \<and> tiles D l cs e
    \<and> (\<forall>c\<in>set cs. M \<le> co_depth c \<and> co_depth c \<le> D)
    \<and> (aligned (nat (D - M)) l e \<longrightarrow> mountain_range (e - l) (2 ^ nat (D - M)) (map (node_size D) cs))"
  using assms(1-3)
proof (induction "nat (e - l)" arbitrary: l s acc rule: less_induct)
  case less
  let ?K = "nat (D - M)"
  obtain k where k: "int k \<le> D - M" "2 ^ k dvd l" and
    c: "let c = \<lparr>co_depth = D - int k, co_position = l div 2 ^ k\<rparr> in
     (coords_loop D M e s acc = Some (acc @ [c]) \<and> l + 2 ^ k = e)
     \<or> (l + 2 ^ k < e \<and> (\<exists>s'. at_height D (l + 2 ^ k) 0 s'
          \<and> coords_loop D M e s acc = coords_loop D M e s' (acc @ [c])
          \<and> (int k = D - M \<or> odd (l div 2 ^ k) \<or> e < l + 2 ^ Suc k)))"
    using climb_from [of D l 0 s M e acc] less.prems assms(4) by auto
  define c where "c = \<lparr>co_depth = D - int k, co_position = l div 2 ^ k\<rparr>"
  have sz: "node_size D c = 2 ^ k" by (simp add: c_def node_size_height)
  have tile: "co_depth c \<le> D" "M \<le> co_depth c" "co_position c * node_size D c = l"
    using k by (auto simp: c_def node_size_height)
  have kK: "k \<le> ?K" "(2::int) ^ k \<le> 2 ^ ?K" using k(1) by (auto intro!: power_increasing)
  consider "coords_loop D M e s acc = Some (acc @ [c])" "l + 2 ^ k = e"
    | s' where "l + 2 ^ k < e" "at_height D (l + 2 ^ k) 0 s'"
        "coords_loop D M e s acc = coords_loop D M e s' (acc @ [c])"
        "int k = D - M \<or> odd (l div 2 ^ k) \<or> e < l + 2 ^ Suc k"
    using c [folded c_def, unfolded Let_def] by blast
  then show ?case
  proof cases
    case 1
    moreover from this(2) have "mountain_range (e - l) (2 ^ ?K) [2 ^ k]"
      using kK by (auto simp: mountain_range_def)
    ultimately show ?thesis using tile sz by (intro exI [of _ "[c]"]) simp
  next
    case (2 s')
    note lt = 2(1) and s' = 2(2) and loop = 2(3) and why = 2(4)
    have p: "(0::int) < 2 ^ k" by simp
    then have dec: "nat (e - (l + 2 ^ k)) < nat (e - l)" "0 \<le> l + 2 ^ k" using lt less.prems(2) by linarith+
    obtain cs where cs: "coords_loop D M e s' (acc @ [c]) = Some ((acc @ [c]) @ cs)" "tiles D (l + 2 ^ k) cs e"
      "\<forall>c\<in>set cs. M \<le> co_depth c \<and> co_depth c \<le> D"
      "aligned ?K (l + 2 ^ k) e \<longrightarrow> mountain_range (e - (l + 2 ^ k)) (2 ^ ?K) (map (node_size D) cs)"
      using less.hyps [OF dec(1) s' dec(2) lt, of "acc @ [c]"] by blast
    have "mountain_range (e - l) (2 ^ ?K) (map (node_size D) (c # cs))" if al: "aligned ?K l e"
    proof (cases "k = ?K")
      case True
      then have "aligned ?K (l + 2 ^ k) e" using k(2) by (auto simp: aligned_def)
      with cs(4) have "mountain_range (2 ^ ?K + (e - (l + 2 ^ k))) (2 ^ ?K) (2 ^ ?K # map (node_size D) cs)"
        by (intro mountain_range_Cons_max) auto
      then show ?thesis using sz True by simp
    next
      case False
      then have "k < ?K" using kK by simp
      then have "e < l + 2 ^ Suc k" using why aligned_odd [OF al _ k(2)] lt k(1) by auto
      then have small: "e - (l + 2 ^ k) < 2 ^ k" by simp
      then have "aligned ?K (l + 2 ^ k) e" using k(2) kK by (auto simp: aligned_def)
      with cs(4) have "mountain_range (2 ^ k + (e - (l + 2 ^ k))) (2 ^ ?K) (2 ^ k # map (node_size D) cs)"
        using small \<open>k < ?K\<close> by (intro mountain_range_Cons_small) (auto intro!: power_strict_increasing)
      then show ?thesis using sz by simp
    qed
    then show ?thesis
      using loop cs(1-3) tile sz by (intro exI [of _ "c # cs"]) simp
  qed
qed

lemma calculateSubTreeRootCoordinates_tiles:
  assumes "0 \<le> l" "l < e" "M \<le> D"
  shows "\<exists>cs. calculateSubTreeRootCoordinates D M l e = Inr cs \<and> tiles D l cs e
    \<and> (\<forall>c\<in>set cs. M \<le> co_depth c \<and> co_depth c \<le> D)
    \<and> (2 ^ nat (D - M) dvd l \<longrightarrow> mountain_range (e - l) (2 ^ nat (D - M)) (map (node_size D) cs))"
proof -
  let ?s = "\<lparr>cu_leafCursor = l, cu_nodeCursor = \<lparr>co_depth = D, co_position = l\<rparr>,
      cu_lastNodeCursor = \<lparr>co_depth = D, co_position = l\<rparr>, cu_lastLeafCursor = l, cu_nodeRangeCursor = 1\<rparr>"
  have "at_height D l 0 ?s" by (simp add: at_height_def)
  moreover have "2 ^ nat (D - M) dvd l \<longrightarrow> aligned (nat (D - M)) l e" by (auto simp: aligned_def)
  ultimately show ?thesis
    using coords_loop_tiles [of D l ?s e M "[]"] assms
    by (auto simp: calculateSubTreeRootCoordinates_def)
qed

end
