(* ===== verification/Wrapper.thy ===== *)
theory Wrapper
  imports Inclusion
begin

text \<open>
  \<^verbatim>\<open>pkg/wrapper/nmt_wrapper.go\<close>: the namespaced Merkle tree over one row or column of the extended
  square. The underlying tree is the nmt package; its \<^verbatim>\<open>Push\<close> and \<^verbatim>\<open>Root\<close> are parameters. The wrapper
  decides which namespace each leaf carries: the share's own in the original square, the parity
  namespace elsewhere.
\<close>

record 't ErasuredNamespacedMerkleTree =
  w_squareSize :: uint64
  w_tree :: 't
  w_axisIndex :: uint64
  w_shareIndex :: uint64

definition NewErasuredNamespacedMerkleTree ::
    "'t \<Rightarrow> uint64 \<Rightarrow> uint64 \<Rightarrow> 't ErasuredNamespacedMerkleTree result" where
  "NewErasuredNamespacedMerkleTree nmt_new squareSize axisIndex =
     (if squareSize = 0 then Inl (Panic ''cannot create a ErasuredNamespacedMerkleTree of squareSize == 0'')
      else Inr \<lparr>w_squareSize = squareSize, w_tree = nmt_new, w_axisIndex = axisIndex, w_shareIndex = 0\<rparr>)"

definition isQuadrantZero :: "'t ErasuredNamespacedMerkleTree \<Rightarrow> bool" where
  "isQuadrantZero w \<longleftrightarrow> w_shareIndex w < w_squareSize w \<and> w_axisIndex w < w_squareSize w"

definition incrementShareIndex :: "'t ErasuredNamespacedMerkleTree \<Rightarrow> 't ErasuredNamespacedMerkleTree" where
  "incrementShareIndex w = w\<lparr>w_shareIndex := w_shareIndex w + 1\<rparr>"

definition Push_w :: "('t \<Rightarrow> bytes \<Rightarrow> 't result) \<Rightarrow> 't ErasuredNamespacedMerkleTree \<Rightarrow> bytes \<Rightarrow>
    't ErasuredNamespacedMerkleTree result" where
  "Push_w nmt_push w data =
     (if w_axisIndex w + 1 > 2 * w_squareSize w \<or> w_shareIndex w + 1 > 2 * w_squareSize w
      then Inl (Err ''pushed past predetermined square size'')
      else if length data < NamespaceSize then Inl (Err ''data is too short to contain namespace ID'')
      else
        let nidAndData = overwrite (zeros (NamespaceSize + length data)) NamespaceSize data;
            nidAndData = (if isQuadrantZero w
              then overwrite nidAndData 0 (take NamespaceSize data)
              else overwrite nidAndData 0 (take NamespaceSize (Bytes_ns ParitySharesNamespace)))
        in bindR (nmt_push (w_tree w) nidAndData) (\<lambda>tree.
             Inr (incrementShareIndex (w\<lparr>w_tree := tree\<rparr>))))"

definition Root_w :: "('t \<Rightarrow> bytes result) \<Rightarrow> 't ErasuredNamespacedMerkleTree \<Rightarrow> bytes result" where
  "Root_w nmt_root w = bindR (nmt_root (w_tree w)) Inr"

definition ProveRange_w ::
    "('t \<Rightarrow> int \<Rightarrow> int \<Rightarrow> 'p result) \<Rightarrow> 't ErasuredNamespacedMerkleTree \<Rightarrow> int \<Rightarrow> int \<Rightarrow> 'p result" where
  "ProveRange_w nmt_prove w start en = nmt_prove (w_tree w) start en"

text \<open>\<^verbatim>\<open>NewConstructor(squareSize)\<close>: the tree constructor that the extension of the square is given.\<close>

definition NewTree :: "'t \<Rightarrow> uint64 \<Rightarrow> uint64 \<Rightarrow> 't ErasuredNamespacedMerkleTree result" where
  "NewTree nmt_new squareSize axisIndex = NewErasuredNamespacedMerkleTree nmt_new squareSize axisIndex"

section \<open>The leaves of an axis\<close>

text \<open>The leaf the wrapper hands to the tree, as a function of its place in the extended square.\<close>

definition erasured_leaf :: "nat \<Rightarrow> nat \<Rightarrow> nat \<Rightarrow> bytes \<Rightarrow> bytes" where
  "erasured_leaf s axis i data =
     (if i < s \<and> axis < s then take NamespaceSize data else Bytes_ns ParitySharesNamespace) @ data"

definition axis_leaves :: "nat \<Rightarrow> nat \<Rightarrow> bytes list \<Rightarrow> bytes list" where
  "axis_leaves s axis cells = map (\<lambda>i. erasured_leaf s axis i (cells ! i)) [0..<length cells]"

lemma parity_length: "length (Bytes_ns ParitySharesNamespace) = NamespaceSize"
  by (code_simp)

lemma unat_uint64: "n < 2 ^ 64 \<Longrightarrow> unat (of_nat n :: uint64) = n"
  by (simp add: unat_of_nat take_bit_nat_eq_self)

lemma past_end:
  assumes "s < 2 ^ 63" "n \<le> 2 * s"
  shows "(of_nat n + 1 :: uint64) > 2 * of_nat s \<longleftrightarrow> n = 2 * s"
proof -
  have "of_nat n + 1 = (of_nat (Suc n) :: uint64)" "2 * of_nat s = (of_nat (2 * s) :: uint64)" by simp_all
  moreover have "unat (of_nat (Suc n) :: uint64) = Suc n" "unat (of_nat (2 * s) :: uint64) = 2 * s"
    using unat_uint64 [of "Suc n"] unat_uint64 [of "2 * s"] assms by (simp_all del: of_nat_Suc of_nat_mult)
  ultimately show ?thesis using assms(2) by (simp only: word_less_nat_alt) auto
qed

lemma Push_w_ok:
  assumes "w_squareSize w = of_nat s" "s < 2 ^ 63" "w_axisIndex w = of_nat a" "a < 2 * s"
    "w_shareIndex w = of_nat i" "i < 2 * s" "NamespaceSize \<le> length data"
  shows "Push_w push w data = bindR (push (w_tree w) (erasured_leaf s a i data))
    (\<lambda>t. Inr (w\<lparr>w_tree := t, w_shareIndex := of_nat (Suc i)\<rparr>))"
proof -
  have lt: "(of_nat n :: uint64) < of_nat s \<longleftrightarrow> n < s" if "n < 2 * s" for n
    using that assms(2) by (simp add: word_less_nat_alt unat_uint64)
  have "\<not> (of_nat n + 1 :: uint64) > 2 * of_nat s" if "n < 2 * s" for n
    using that past_end [OF assms(2), of n] by simp
  then show ?thesis
    using assms lt parity_length
    by (simp add: Push_w_def isQuadrantZero_def incrementShareIndex_def erasured_leaf_def overwrite_def
        add.commute Let_def)
qed

text \<open>
  A whole axis: the wrapper pushes the leaves the quadrants prescribe and nothing else; one more push
  is refused.
\<close>

lemma foldR_Push_w:
  assumes "w_squareSize w = of_nat s" "s < 2 ^ 63" "w_axisIndex w = of_nat a" "a < 2 * s"
    "w_shareIndex w = of_nat i" "i + length cells \<le> 2 * s" "\<forall>c\<in>set cells. NamespaceSize \<le> length c"
  shows "foldR (\<lambda>c w. Push_w push w c) cells w =
    bindR (foldR (\<lambda>l t. push t l) (map (\<lambda>k. erasured_leaf s a (i + k) (cells ! k)) [0..<length cells]) (w_tree w))
      (\<lambda>t. Inr (w\<lparr>w_tree := t, w_shareIndex := of_nat (i + length cells)\<rparr>))"
  using assms
proof (induction cells arbitrary: w i)
  case Nil
  then show ?case by simp
next
  case (Cons c cells)
  have split: "map (\<lambda>k. erasured_leaf s a (i + k) ((c # cells) ! k)) [0..<length (c # cells)]
      = erasured_leaf s a i c # map (\<lambda>k. erasured_leaf s a (Suc i + k) (cells ! k)) [0..<length cells]"
    by (simp add: upt_conv_Cons map_Suc_upt [symmetric] del: upt_Suc)
  have step: "Push_w push w c = bindR (push (w_tree w) (erasured_leaf s a i c))
      (\<lambda>t. Inr (w\<lparr>w_tree := t, w_shareIndex := of_nat (Suc i)\<rparr>))"
    using Cons.prems by (intro Push_w_ok) auto
  show ?case
  proof (cases "push (w_tree w) (erasured_leaf s a i c)")
    case (Inl e)
    then show ?thesis by (simp only: split foldR.simps step bindR_simps)
  next
    case (Inr t)
    then show ?thesis
      using Cons.IH [of "w\<lparr>w_tree := t, w_shareIndex := of_nat (Suc i)\<rparr>" "Suc i"] Cons.prems
      by (simp only: split foldR.simps step bindR_simps) simp
  qed
qed

lemma axis_leaves_pushed:
  assumes "NewTree nmt_new (of_nat s) (of_nat a) = Inr w" "s < 2 ^ 63" "a < 2 * s"
    "length cells \<le> 2 * s" "\<forall>c\<in>set cells. NamespaceSize \<le> length c"
  shows "foldR (\<lambda>c w. Push_w push w c) cells w =
    bindR (foldR (\<lambda>l t. push t l) (axis_leaves s a cells) nmt_new)
      (\<lambda>t. Inr (w\<lparr>w_tree := t, w_shareIndex := of_nat (length cells)\<rparr>))"
proof -
  have "w = \<lparr>w_squareSize = of_nat s, w_tree = nmt_new, w_axisIndex = of_nat a, w_shareIndex = 0\<rparr>"
    using assms(1) by (auto simp: NewTree_def NewErasuredNamespacedMerkleTree_def split: if_splits)
  then show ?thesis
    using foldR_Push_w [of w s a 0 cells push] assms by (simp add: axis_leaves_def)
qed

lemma Push_w_full:
  assumes "w_squareSize w = of_nat s" "s < 2 ^ 63" "w_shareIndex w = of_nat (2 * s)"
  shows "Push_w push w data = Inl (Err ''pushed past predetermined square size'')"
  using assms past_end [OF assms(2), of "2 * s"] by (simp add: Push_w_def)

end
