(* ===== verification/CommitmentAgreement.thy ===== *)
theory CommitmentAgreement
  imports CommitmentPaths Wrapper
begin

text \<open>
  The commitment read off the square is the commitment of the blob: \<^verbatim>\<open>GetCommitment\<close>, which walks the
  cached row trees, and \<^verbatim>\<open>CreateCommitment\<close>, which builds the subtrees of a mountain range from the blob
  alone, return the same bytes. The argument has three parts: a mountain range is determined by its
  total and its largest peak; a path of instructions leads to the root of the leaves below the node;
  and the rows of the square contribute whole peaks.
\<close>

section \<open>A mountain range is unique\<close>

definition peaks :: "int list \<Rightarrow> bool" where
  "peaks xs \<longleftrightarrow> sorted (rev xs) \<and> distinct xs \<and> (\<forall>x\<in>set xs. \<exists>k. x = 2 ^ k)"

lemma peaks_Cons: "peaks (x # xs) \<longleftrightarrow> peaks xs \<and> (\<exists>k. x = 2 ^ k) \<and> (\<forall>y\<in>set xs. y < x)"
  by (auto simp: peaks_def sorted_append order.strict_iff_order)

lemma peaks_sum_less: "peaks xs \<Longrightarrow> \<forall>x\<in>set xs. x < 2 ^ k \<Longrightarrow> sum_list xs < (2::int) ^ k"
proof (induction xs arbitrary: k)
  case (Cons x xs)
  then obtain j where j: "x = 2 ^ j" "\<forall>y\<in>set xs. y < 2 ^ j" "peaks xs" by (auto simp: peaks_Cons)
  then have "j < k" using Cons.prems(2) by simp
  then have "(2::int) ^ Suc j \<le> 2 ^ k" by (intro power_increasing) auto
  then show ?case using Cons.IH [OF j(3,2)] j(1) by simp
qed simp

lemma peaks_nonneg: "peaks xs \<Longrightarrow> 0 \<le> sum_list xs"
  by (rule sum_list_nonneg) (auto simp: peaks_def)

lemma peaks_Cons_pos: "peaks (x # xs) \<Longrightarrow> 0 < sum_list (x # xs)"
proof -
  assume "peaks (x # xs)"
  then obtain k where "x = 2 ^ k" "0 \<le> sum_list xs" using peaks_nonneg by (auto simp: peaks_Cons)
  moreover have "(0::int) < 2 ^ k" by simp
  ultimately show ?thesis by (simp add: add_pos_nonneg)
qed

lemma peaks_head_le:
  assumes "peaks (x # xs)" "peaks (y # ys)" "sum_list (x # xs) = sum_list (y # ys)"
  shows "x \<le> y"
proof (rule ccontr)
  assume "\<not> x \<le> y"
  moreover from assms(2) have "\<forall>z\<in>set (y # ys). z < x" using \<open>\<not> x \<le> y\<close> by (auto simp: peaks_Cons)
  moreover obtain k where "x = 2 ^ k" using assms(1) by (auto simp: peaks_Cons)
  ultimately have "sum_list (y # ys) < x" using peaks_sum_less [OF assms(2)] by blast
  moreover have "0 \<le> sum_list xs" using assms(1) peaks_nonneg by (auto simp: peaks_Cons)
  ultimately show False using assms(3) by simp
qed

lemma peaks_unique: "peaks xs \<Longrightarrow> peaks ys \<Longrightarrow> sum_list xs = sum_list ys \<Longrightarrow> xs = ys"
proof (induction xs arbitrary: ys)
  case Nil
  then show ?case by (cases ys) (auto simp del: sum_list.Cons dest!: peaks_Cons_pos)
next
  case (Cons x xs)
  show ?case
  proof (cases ys)
    case Nil
    then show ?thesis using peaks_Cons_pos [OF Cons.prems(1)] Cons.prems(3) by simp
  next
    case (Cons y ys')
    then have "x = y" using peaks_head_le Cons.prems by (metis order.antisym)
    then show ?thesis using Cons.IH [of ys'] Cons.prems Cons by (auto simp: peaks_Cons)
  qed
qed

lemma mountain_range_split:
  assumes "mountain_range n m sizes" "m = 2 ^ k"
  shows "\<exists>ys. sizes = replicate (nat (n div m)) m @ ys \<and> peaks ys \<and> sum_list ys = n mod m"
  using assms(1)
proof (induction sizes arbitrary: n)
  case Nil
  then show ?case by (intro exI [of _ "[]"]) (simp add: mountain_range_def peaks_def)
next
  case (Cons x xs)
  show ?case
  proof (cases "x = m")
    case True
    then have "mountain_range (n - m) m xs" using Cons.prems by (auto simp: mountain_range_def sorted_append)
    with Cons.IH obtain ys where ys: "xs = replicate (nat ((n - m) div m)) m @ ys" "peaks ys"
      "sum_list ys = (n - m) mod m" by blast
    have m: "0 < m" using assms(2) by simp
    have "\<forall>x\<in>set xs. 0 \<le> x" using Cons.prems by (auto simp: mountain_range_def)
    then have "0 \<le> sum_list xs" by (intro sum_list_nonneg) auto
    then have "m \<le> n" using Cons.prems True by (auto simp: mountain_range_def)
    moreover have "(n - m) div m = n div m - 1" "(n - m) mod m = n mod m"
      using m div_mult_self1 [of m "n - m" 1] by auto
    moreover have "1 \<le> n div m" using \<open>m \<le> n\<close> m by (simp add: int_one_le_iff_zero_less pos_imp_zdiv_pos_iff)
    then have "nat (n div m) = Suc (nat (n div m - 1))" by simp
    ultimately show ?thesis using ys True by (intro exI [of _ ys]) simp
  next
    case False
    then have lt: "\<forall>y\<in>set (x # xs). y < m"
      using Cons.prems by (force simp: mountain_range_def sorted_append order.strict_iff_order)
    then have "filter (\<lambda>y. y \<noteq> m) (x # xs) = x # xs" by (auto simp: filter_id_conv)
    then have p: "peaks (x # xs)"
      using Cons.prems unfolding mountain_range_def peaks_def by metis
    have "sum_list (x # xs) < m" using peaks_sum_less [OF p] lt assms(2) by blast
    moreover have "0 \<le> sum_list (x # xs)" using peaks_nonneg [OF p] .
    ultimately show ?thesis
      using Cons.prems p by (intro exI [of _ "x # xs"]) (auto simp: mountain_range_def)
  qed
qed

lemma mountain_range_unique:
  assumes "mountain_range n m xs" "mountain_range n m ys" "m = 2 ^ k"
  shows "xs = ys"
  using mountain_range_split [OF assms(1,3)] mountain_range_split [OF assms(2,3)] peaks_unique by metis

lemma mountain_range_append:
  assumes "mountain_range a m xs" "m dvd a" "mountain_range b m ys" "m = 2 ^ k" "0 \<le> a"
  shows "mountain_range (a + b) m (xs @ ys)"
proof -
  have nil: "zs = []" if "peaks zs" "sum_list zs = 0" for zs :: "int list"
    using peaks_unique [OF that(1), of "[]"] that(2) by (simp add: peaks_def)
  have xs: "xs = replicate (nat (a div m)) m"
    using mountain_range_split [OF assms(1,4)] nil assms(2) by auto
  have "mountain_range (int j * m + b) m (replicate j m @ ys)" for j
  proof (induction j)
    case (Suc j)
    from mountain_range_Cons_max [OF this assms(4)] show ?case by (simp add: algebra_simps)
  qed (use assms(3) in simp)
  from this [of "nat (a div m)"] show ?thesis
    using assms(2,4,5) xs by (simp add: pos_imp_zdiv_nonneg_iff)
qed

section \<open>Paths lead to the roots of their leaves\<close>

text \<open>
  What the cache of a row holds after the nmt has visited every inner node of the row's tree: below
  the root, each hash leads to the roots of the two halves of its leaves.
\<close>

fun cached_tree :: "(bytes list \<Rightarrow> bytes result) \<Rightarrow> subTreeRootCacher \<Rightarrow> nat \<Rightarrow> bytes list \<Rightarrow> bytes \<Rightarrow> bool" where
  "cached_tree nmt_root strc 0 leaves h \<longleftrightarrow> nmt_root leaves = Inr h"
| "cached_tree nmt_root strc (Suc k) leaves h \<longleftrightarrow>
     nmt_root leaves = Inr h
     \<and> (case strc h of None \<Rightarrow> False
        | Some (l, r) \<Rightarrow> cached_tree nmt_root strc k (take (2 ^ k) leaves) l
            \<and> cached_tree nmt_root strc k (drop (2 ^ k) leaves) r)"

definition node_leaves :: "nat \<Rightarrow> int \<Rightarrow> 'a list \<Rightarrow> 'a list" where
  "node_leaves h p leaves = take (2 ^ h) (drop (nat p * 2 ^ h) leaves)"

lemma cached_tree_root: "cached_tree nmt_root strc k leaves h \<Longrightarrow> nmt_root leaves = Inr h"
  by (cases k) auto

lemma node_leaves_left:
  assumes "0 \<le> p" "p < 2 ^ d"
  shows "node_leaves h p (take (2 ^ (d + h)) leaves) = node_leaves h p leaves"
proof -
  have "nat p < 2 ^ d" using assms by (simp add: nat_less_iff)
  then have "nat p + 1 \<le> 2 ^ d" unfolding Suc_eq_plus1 [symmetric] by (rule Suc_leI)
  then have "(nat p + 1) * 2 ^ h \<le> 2 ^ d * 2 ^ h" by (rule mult_right_mono) simp
  then show ?thesis by (simp add: node_leaves_def drop_take power_add algebra_simps min_def)
qed

lemma walk_cached_tree:
  assumes "cached_tree nmt_root strc (d + h) leaves r" "0 \<le> p" "p < 2 ^ d" "length leaves = 2 ^ (d + h)"
  shows "\<exists>x. walk strc r (map (\<lambda>i. bit p i) (rev [0..<d])) = Inr x
    \<and> nmt_root (node_leaves h p leaves) = Inr x"
  using assms
proof (induction d arbitrary: leaves r p)
  case 0
  then show ?case using cached_tree_root [of nmt_root strc h leaves r] by (simp add: node_leaves_def)
next
  case (Suc d)
  obtain l r' where lr: "strc r = Some (l, r')"
      "cached_tree nmt_root strc (d + h) (take (2 ^ (d + h)) leaves) l"
      "cached_tree nmt_root strc (d + h) (drop (2 ^ (d + h)) leaves) r'"
    using Suc.prems(1) by (auto split: option.splits)
  have path: "map (\<lambda>i. bit p i) (rev [0..<Suc d]) = bit p d # map (\<lambda>i. bit (p mod 2 ^ d) i) (rev [0..<d])"
    by (auto simp: take_bit_eq_mod [symmetric] bit_take_bit_iff)
  have q: "0 \<le> p mod 2 ^ d" "p mod 2 ^ d < 2 ^ d" by auto
  have p: "p = 2 ^ d * of_bool (bit p d) + p mod 2 ^ d"
    using Suc.prems(2,3) take_bit_Suc_from_most [of d p] take_bit_int_eq_self [of p "Suc d"]
    by (simp add: take_bit_eq_mod)
  show ?case
  proof (cases "bit p d")
    case True
    then have "p = 2 ^ d + p mod 2 ^ d" using p by simp
    from arg_cong [OF this, of nat] have "nat p = 2 ^ d + nat (p mod 2 ^ d)"
      by (simp add: nat_add_distrib nat_power_eq)
    then have "node_leaves h p leaves = node_leaves h (p mod 2 ^ d) (drop (2 ^ (d + h)) leaves)"
      by (simp add: node_leaves_def algebra_simps power_add)
    then show ?thesis
      using Suc.IH [OF lr(3) q] Suc.prems(4) lr(1) True unfolding path by simp
  next
    case False
    then have "node_leaves h p leaves = node_leaves h (p mod 2 ^ d) (take (2 ^ (d + h)) leaves)"
      using p node_leaves_left [OF q, of h leaves] by simp
    then show ?thesis
      using Suc.IH [OF lr(2) q] Suc.prems(4) lr(1) False unfolding path by simp
  qed
qed

section \<open>Cutting a list by sizes\<close>

fun cut_sizes :: "'a list \<Rightarrow> int list \<Rightarrow> 'a list list" where
  "cut_sizes xs [] = []"
| "cut_sizes xs (n # ns) = take (nat n) xs # cut_sizes (drop (nat n) xs) ns"

lemma cut_append:
  "int (length xs) = sum_list ns \<Longrightarrow> \<forall>n\<in>set ns. 0 \<le> n \<Longrightarrow> cut_sizes (xs @ ys) (ns @ ms) = cut_sizes xs ns @ cut_sizes ys ms"
proof (induction ns arbitrary: xs)
  case (Cons n ns)
  moreover have "0 \<le> sum_list ns" using Cons.prems(2) by (intro sum_list_nonneg) auto
  ultimately show ?case by simp
qed simp

lemma cut_map: "cut_sizes (map f xs) ns = map (map f) (cut_sizes xs ns)"
  by (induction ns arbitrary: xs) (simp_all add: take_map drop_map)

lemma leafSets_cut:
  "0 \<le> c \<Longrightarrow> \<forall>x\<in>set sizes. 0 \<le> x \<Longrightarrow> c + sum_list sizes = int (length shares) \<Longrightarrow>
   leafSets shares c sizes = Inr (cut_sizes (ToBytes (drop (nat c) shares)) sizes)"
proof (induction sizes arbitrary: c)
  case (Cons n ns)
  moreover have "0 \<le> sum_list ns" using Cons.prems(2) by (intro sum_list_nonneg) auto
  moreover from this have "slice shares (nat c) (nat c + nat n) = Inr (take (nat n) (drop (nat c) shares))"
    using slice_ok [of "nat c" "nat c + nat n" shares] Cons.prems by auto
  ultimately show ?case
    by (simp add: nat_add_distrib ToBytes_def take_map drop_map add.commute)
qed simp

section \<open>The rows of the square\<close>

text \<open>
  \<open>sq\<close> is the original square of side \<open>2 ^ D\<close>, \<open>rows\<close> the rows of its extension. The trees of the
  upper half are those the wrapper builds from the rows, visited by the caches of \<^verbatim>\<open>NewSubtreeCacher\<close>.
\<close>

definition row_cached :: "(bytes list \<Rightarrow> bytes result) \<Rightarrow> caches \<Rightarrow> bytes list \<Rightarrow> nat \<Rightarrow>
    bytes list list \<Rightarrow> Share list \<Rightarrow> nat \<Rightarrow> bool" where
  "row_cached nmt_root caches rowRoots D rows sq i \<longleftrightarrow>
     length (rows ! i) = 2 * 2 ^ D
     \<and> take (2 ^ D) (rows ! i) = ToBytes (take (2 ^ D) (drop (i * 2 ^ D) sq))
     \<and> (case map_of caches i of None \<Rightarrow> False
        | Some strc \<Rightarrow> cached_tree nmt_root strc (Suc D) (axis_leaves (2 ^ D) i (rows ! i)) (rowRoots ! i))"

definition square_cached :: "(bytes list \<Rightarrow> bytes result) \<Rightarrow> caches \<Rightarrow> bytes list \<Rightarrow> nat \<Rightarrow>
    bytes list list \<Rightarrow> Share list \<Rightarrow> bool" where
  "square_cached nmt_root caches rowRoots D rows sq \<longleftrightarrow>
     length rowRoots = 2 * 2 ^ D \<and> length caches = 2 * 2 ^ D \<and> length sq = 2 ^ D * 2 ^ D
     \<and> (\<forall>i<2 ^ D. row_cached nmt_root caches rowRoots D rows sq i)"

definition square_leaves :: "Share list \<Rightarrow> bytes list" where
  "square_leaves sq = map (\<lambda>d. take NamespaceSize d @ d) (ToBytes sq)"

lemma axis_leaves_left:
  assumes "i < 2 ^ D" "length cells = 2 * 2 ^ D"
  shows "take (2 ^ D) (axis_leaves (2 ^ D) i cells) = map (\<lambda>d. take NamespaceSize d @ d) (take (2 ^ D) cells)"
  using assms by (intro nth_equalityI) (auto simp: axis_leaves_def erasured_leaf_def)

lemma getSubTreeRoot_node:
  assumes sc: "square_cached nmt_root caches rowRoots D rows sq"
    and i: "0 \<le> i" "i < 2 ^ D" and c: "0 \<le> co_depth c" "co_depth c \<le> int D"
    and p: "0 \<le> co_position c" "co_position c < 2 ^ nat (co_depth c)"
  shows "\<exists>ins x. genSubTreeRootPath (co_depth c) (co_position c) = Inr ins
    \<and> getSubTreeRoot caches rowRoots i (False # ins) = Inr x
    \<and> nmt_root (take (nat (node_size (int D) c)) (drop (nat (i * 2 ^ D + co_position c * node_size (int D) c))
         (square_leaves sq))) = Inr x"
proof -
  let ?d = "nat (co_depth c)" and ?h = "nat (int D - co_depth c)" and ?i = "nat i"
  define row where "row = axis_leaves (2 ^ D) ?i (rows ! ?i)"
  have iD: "?i < 2 ^ D" using i by (simp add: nat_less_iff)
  have D: "?d + ?h = D" using c by simp
  obtain strc where strc: "map_of caches ?i = Some strc" "cached_tree nmt_root strc (Suc D) row (rowRoots ! ?i)"
    and len: "length (rows ! ?i) = 2 * 2 ^ D" "take (2 ^ D) (rows ! ?i) = ToBytes (take (2 ^ D) (drop (?i * 2 ^ D) sq))"
  proof -
    have "row_cached nmt_root caches rowRoots D rows sq ?i" using sc iD by (simp add: square_cached_def)
    then show thesis using that unfolding row_cached_def row_def by (cases "map_of caches ?i") auto
  qed
  obtain l r where lr: "strc (rowRoots ! ?i) = Some (l, r)" "cached_tree nmt_root strc D (take (2 ^ D) row) l"
    using strc(2) by (auto split: option.splits)
  have left: "take (2 ^ D) row = take (2 ^ D) (drop (?i * 2 ^ D) (square_leaves sq))"
    using axis_leaves_left [OF iD len(1)] len(2) by (simp add: row_def square_leaves_def ToBytes_def take_map drop_map)
  have "length (take (2 ^ D) row) = 2 ^ (?d + ?h)" using len(1) by (simp add: row_def axis_leaves_def D)
  with walk_cached_tree [of nmt_root strc ?d ?h "take (2 ^ D) row" l "co_position c"] lr(2) p D
  obtain x where x: "walk strc l (map (\<lambda>i. bit (co_position c) i) (rev [0..<?d])) = Inr x"
      "nmt_root (node_leaves ?h (co_position c) (take (2 ^ D) row)) = Inr x" by auto
  have "node_leaves ?h (co_position c) (take (2 ^ D) row)
      = node_leaves ?h (co_position c) (drop (?i * 2 ^ D) (square_leaves sq))"
    using node_leaves_left [OF p, of ?h] D left by metis
  also have "\<dots> = take (nat (node_size (int D) c))
      (drop (nat (i * 2 ^ D + co_position c * node_size (int D) c)) (square_leaves sq))"
    using i(1) p(1)
    by (simp add: node_leaves_def node_size_def nat_add_distrib nat_mult_distrib nat_power_eq add.commute)
  finally show ?thesis
    using x lr(1) strc(1) sc i c
    by (auto simp: genSubTreeRootPath_def getSubTreeRoot_def square_cached_def of_nat_less_iff)
qed

definition path_root :: "caches \<Rightarrow> bytes list \<Rightarrow> path \<Rightarrow> bytes result" where
  "path_root caches rowRoots p = getSubTreeRoot caches rowRoots (pa_row p) (False # pa_instructions p)"

definition row_path :: "int \<Rightarrow> coord \<Rightarrow> path result" where
  "row_path i c = bindR (genSubTreeRootPath (co_depth c) (co_position c)) (\<lambda>ins.
     Inr \<lparr>pa_instructions = ins, pa_row = i\<rparr>)"

lemma node_size_pos: "0 < node_size D c"
  by (simp add: node_size_def)

lemma tiles_le: "tiles D s cs e \<Longrightarrow> s \<le> e"
proof -
  assume "tiles D s cs e"
  moreover have "0 \<le> sum_list (map (node_size D) cs)"
    by (intro sum_list_nonneg) (auto simp: node_size_def)
  ultimately show "s \<le> e" using tiles_sum by fastforce
qed

lemma tile_position:
  assumes "tiles (int D) s (c # cs) e" "0 \<le> s" "e \<le> 2 ^ D" "0 \<le> co_depth c"
  shows "0 \<le> co_position c" "co_position c < 2 ^ nat (co_depth c)"
proof -
  have n: "node_size (int D) c * 2 ^ nat (co_depth c) = 2 ^ D"
    using assms by (simp add: node_size_def power_add [symmetric] nat_add_distrib [symmetric])
  have s: "co_position c * node_size (int D) c = s" "s + node_size (int D) c \<le> 2 ^ D"
    using assms tiles_le [of "int D" "s + node_size (int D) c" cs e] by auto
  show "0 \<le> co_position c"
    using s(1) assms(2) node_size_pos [of "int D" c] by (metis zero_le_mult_iff not_less)
  have "(co_position c + 1) * node_size (int D) c \<le> 2 ^ nat (co_depth c) * node_size (int D) c"
    using s n by (simp add: algebra_simps)
  then show "co_position c < 2 ^ nat (co_depth c)"
    using node_size_pos [of "int D" c] by (simp add: mult_le_cancel_right)
qed

lemma row_roots:
  assumes sc: "square_cached nmt_root caches rowRoots D rows sq" and i: "0 \<le> i" "i < 2 ^ D"
  shows "tiles (int D) s cs e \<Longrightarrow> 0 \<le> s \<Longrightarrow> e \<le> 2 ^ D \<Longrightarrow> \<forall>c\<in>set cs. 0 \<le> co_depth c \<Longrightarrow>
    \<exists>ps roots. mapR (row_path i) cs = Inr ps \<and> mapR (path_root caches rowRoots) ps = Inr roots
      \<and> mapR nmt_root (cut_sizes (take (nat (e - s)) (drop (nat (i * 2 ^ D + s)) (square_leaves sq)))
           (map (node_size (int D)) cs)) = Inr roots"
proof (induction cs arbitrary: s)
  case Nil
  then show ?case by simp
next
  case (Cons c cs)
  let ?n = "node_size (int D) c" and ?L = "square_leaves sq"
  have t: "co_position c * ?n = s" "tiles (int D) (s + ?n) cs e" "co_depth c \<le> int D"
    using Cons.prems(1) by auto
  obtain ps roots where IH: "mapR (row_path i) cs = Inr ps" "mapR (path_root caches rowRoots) ps = Inr roots"
    "mapR nmt_root (cut_sizes (take (nat (e - (s + ?n))) (drop (nat (i * 2 ^ D + (s + ?n))) ?L))
       (map (node_size (int D)) cs)) = Inr roots"
    using Cons.IH [OF t(2)] Cons.prems node_size_pos [of "int D" c] by force
  obtain ins x where x: "genSubTreeRootPath (co_depth c) (co_position c) = Inr ins"
      "getSubTreeRoot caches rowRoots i (False # ins) = Inr x"
      "nmt_root (take (nat ?n) (drop (nat (i * 2 ^ D + s)) ?L)) = Inr x"
    using getSubTreeRoot_node [OF sc i, of c] tile_position [OF Cons.prems(1-3)] Cons.prems(4) t by auto
  have le: "?n \<le> e - s" "0 \<le> i * 2 ^ D + s" "0 \<le> ?n"
    using tiles_le [OF t(2)] i Cons.prems(2) node_size_pos [of "int D" c] by auto
  have cut: "cut_sizes (take (nat (e - s)) (drop (nat (i * 2 ^ D + s)) ?L)) (map (node_size (int D)) (c # cs))
    = take (nat ?n) (drop (nat (i * 2 ^ D + s)) ?L)
      # cut_sizes (take (nat (e - (s + ?n))) (drop (nat (i * 2 ^ D + (s + ?n))) ?L)) (map (node_size (int D)) cs)"
  proof -
    have "nat (i * 2 ^ D + (s + ?n)) = nat ?n + nat (i * 2 ^ D + s)" using le by linarith
    moreover have "nat (e - s) - nat ?n = nat (e - (s + ?n))" using le by linarith
    moreover have "min (nat ?n) (nat (e - s)) = nat ?n" using le by linarith
    ultimately show ?thesis by (simp add: drop_take)
  qed
  show ?case
    unfolding cut using IH x
    by (intro exI [of _ "\<lparr>pa_instructions = ins, pa_row = i\<rparr> # ps"] exI [of _ "x # roots"])
      (simp add: row_path_def [of i c] path_root_def [of _ _ "\<lparr>pa_instructions = ins, pa_row = i\<rparr>"])
qed

text \<open>
  \<open>covers\<close>: the roots at the end of the paths are the roots of the peaks of the mountain range over the
  square's leaves from \<open>a\<close> to \<open>b\<close>.
\<close>

definition covers :: "(bytes list \<Rightarrow> bytes result) \<Rightarrow> caches \<Rightarrow> bytes list \<Rightarrow> bytes list \<Rightarrow> int \<Rightarrow>
    int \<Rightarrow> int \<Rightarrow> path list \<Rightarrow> bool" where
  "covers nmt_root caches rowRoots L W a b ps \<longleftrightarrow>
     (\<exists>sizes roots. mapR (path_root caches rowRoots) ps = Inr roots
        \<and> mapR nmt_root (cut_sizes (take (nat (b - a)) (drop (nat a) L)) sizes) = Inr roots
        \<and> mountain_range (b - a) W sizes)"

lemma row_paths_cover:
  assumes sc: "square_cached nmt_root caches rowRoots D rows sq" and i: "0 \<le> i" "i < 2 ^ D"
    and w: "w \<le> D" "2 ^ w dvd s" and s: "0 \<le> s" "s < e" "e \<le> 2 ^ D"
  shows "\<exists>ps. row_paths (int D) (int D - int w) s e i = Inr ps
    \<and> covers nmt_root caches rowRoots (square_leaves sq) (2 ^ w) (i * 2 ^ D + s) (i * 2 ^ D + e) ps"
proof -
  have nat: "nat (int D - (int D - int w)) = w" by simp
  obtain cs where cs: "calculateSubTreeRootCoordinates (int D) (int D - int w) s e = Inr cs"
    "tiles (int D) s cs e" "\<forall>c\<in>set cs. int D - int w \<le> co_depth c \<and> co_depth c \<le> int D"
    "mountain_range (e - s) (2 ^ w) (map (node_size (int D)) cs)"
    using calculateSubTreeRootCoordinates_tiles [OF s(1,2), of "int D - int w" "int D"] w(2) unfolding nat by auto
  have "\<forall>c\<in>set cs. 0 \<le> co_depth c" using cs(3) w(1) by force
  with row_roots [OF sc i cs(2) s(1,3)] obtain ps roots where ps:
    "mapR (row_path i) cs = Inr ps" "mapR (path_root caches rowRoots) ps = Inr roots"
    "mapR nmt_root (cut_sizes (take (nat (e - s)) (drop (nat (i * 2 ^ D + s)) (square_leaves sq)))
       (map (node_size (int D)) cs)) = Inr roots" by auto
  have "row_paths (int D) (int D - int w) s e i = Inr ps"
    using cs(1) ps(1) unfolding row_paths_def row_path_def [symmetric] by simp
  moreover have "i * 2 ^ D + e - (i * 2 ^ D + s) = e - s" by simp
  ultimately show ?thesis using ps(2,3) cs(4) unfolding covers_def by metis
qed

lemma covers_append:
  assumes "covers nmt_root caches rowRoots L (2 ^ w) a b ps" "covers nmt_root caches rowRoots L (2 ^ w) b c qs"
    and "2 ^ w dvd b - a" "0 \<le> a" "a \<le> b" "b \<le> c" "c \<le> int (length L)"
  shows "covers nmt_root caches rowRoots L (2 ^ w) a c (ps @ qs)"
proof -
  obtain s1 r1 s2 r2 where 1: "mapR (path_root caches rowRoots) ps = Inr r1"
      "mapR nmt_root (cut_sizes (take (nat (b - a)) (drop (nat a) L)) s1) = Inr r1" "mountain_range (b - a) (2 ^ w) s1"
    and 2: "mapR (path_root caches rowRoots) qs = Inr r2"
      "mapR nmt_root (cut_sizes (take (nat (c - b)) (drop (nat b) L)) s2) = Inr r2" "mountain_range (c - b) (2 ^ w) s2"
    using assms(1,2) unfolding covers_def by blast
  have "mountain_range (c - a) (2 ^ w) (s1 @ s2)"
    using mountain_range_append [OF 1(3) assms(3) 2(3) refl] assms(5) by simp
  moreover have "nat (c - a) = nat (b - a) + nat (c - b)" "nat b = nat (b - a) + nat a"
    using assms(4-6) by linarith+
  then have "take (nat (c - a)) (drop (nat a) L)
      = take (nat (b - a)) (drop (nat a) L) @ take (nat (c - b)) (drop (nat b) L)"
    by (simp add: take_add)
  moreover have "int (length (take (nat (b - a)) (drop (nat a) L))) = sum_list s1" "\<forall>n\<in>set s1. 0 \<le> n"
    using 1(3) assms(4-7) by (auto simp: mountain_range_def)
  ultimately show ?thesis
    using 1(1,2) 2(1,2) unfolding covers_def
    by (intro exI [of _ "s1 @ s2"] exI [of _ "r1 @ r2"]) (simp add: mapR_append cut_append)
qed

lemma last_row:
  fixes S :: int
  assumes "0 < S" "0 < E" "E \<le> S * S" "r = (E - 1) div S"
  shows "r * S \<le> E - 1" "E - 1 < r * S + S" "0 \<le> r" "r < S"
proof -
  show lo: "r * S \<le> E - 1" "E - 1 < r * S + S"
    using pos_mod_bound [OF assms(1), of "E - 1"] pos_mod_sign [OF assms(1), of "E - 1"]
      div_mult_mod_eq [of "E - 1" S] unfolding assms(4) by linarith+
  show "0 \<le> r" using assms by (simp add: pos_imp_zdiv_nonneg_iff)
  have "r * S < S * S" using lo assms(3) by linarith
  then show "r < S" using assms(1) by (simp add: mult_less_cancel_right)
qed

lemma commitment_rows_cover:
  fixes S :: int
  assumes S_def: "S = 2 ^ D" and sc: "square_cached nmt_root caches rowRoots D rows sq" and w: "w \<le> D" "2 ^ w dvd st"
    and st: "0 \<le> st" "st < S" "0 \<le> r0" and E: "r0 * S + st < E" "E \<le> S * S" and r1: "r1 = (E - 1) div S"
  shows "r0 \<le> i \<Longrightarrow> i \<le> r1 \<Longrightarrow>
    \<exists>ps. commitment_rows S (int D) (int D - int w) r0 r1 st (E - r1 * S) [i..r1] = Inr ps
      \<and> covers nmt_root caches rowRoots (square_leaves sq) (2 ^ w) (i * S + (if i = r0 then st else 0)) E ps"
proof (induction "nat (r1 - i)" arbitrary: i)
  case 0
  have S: "0 < S" by (simp add: S_def)
  have i: "i = r1" "[i..r1] = [r1]" using 0 by auto
  have "0 < E" using E(1) st S mult_nonneg_nonneg [of r0 S] by linarith
  from last_row [OF S this E(2) r1] have lo: "r1 * S \<le> E - 1" "E - 1 < r1 * S + S" and r1D: "0 \<le> r1" "r1 < S" .
  let ?s = "if r1 = r0 then st else 0"
  have "\<exists>ps. row_paths (int D) (int D - int w) ?s (E - r1 * S) r1 = Inr ps
    \<and> covers nmt_root caches rowRoots (square_leaves sq) (2 ^ w) (r1 * 2 ^ D + ?s) (r1 * 2 ^ D + (E - r1 * S)) ps"
    using r1D lo st w E(1) by (intro row_paths_cover [OF sc]) (auto simp: S_def)
  then show ?case unfolding i(2) by (auto simp: i(1) S_def)
next
  case (Suc n)
  have lt: "i < r1" and rows: "[i..r1] = i # [i + 1..r1]" using Suc.hyps(2) by (auto simp: upto_rec1)
  have S: "0 < S" by (simp add: S_def)
  let ?s = "if i = r0 then st else 0"
  have ir: "i + 1 \<noteq> r0" "0 \<le> i" using Suc.prems st(3) by auto
  have "0 < E" using E(1) st S mult_nonneg_nonneg [of r0 S] by linarith
  from last_row [OF S this E(2) r1] have lo: "r1 * S \<le> E - 1" and "r1 < S" by auto
  have next_row: "(i + 1) * S \<le> r1 * S" using lt S by (intro mult_right_mono) auto
  have iS: "i < 2 ^ D" using lt \<open>r1 < S\<close> by (simp add: S_def)
  obtain qs where qs: "commitment_rows S (int D) (int D - int w) r0 r1 st (E - r1 * S) [i + 1..r1] = Inr qs"
    "covers nmt_root caches rowRoots (square_leaves sq) (2 ^ w) ((i + 1) * S) E qs"
  proof -
    have "n = nat (r1 - (i + 1))" using Suc.hyps(2) by linarith
    from Suc.hyps(1) [OF this] Suc.prems lt ir that show thesis by auto
  qed
  obtain ps where ps: "row_paths (int D) (int D - int w) ?s S i = Inr ps"
    "covers nmt_root caches rowRoots (square_leaves sq) (2 ^ w) (i * 2 ^ D + ?s) (i * 2 ^ D + S) ps"
  proof -
    have "2 ^ w dvd ?s" "0 \<le> ?s" "?s < S" "S \<le> 2 ^ D" using st w(2) S by (simp_all add: S_def)
    from row_paths_cover [OF sc ir(2) iS w(1) this] that show thesis by (auto simp: S_def)
  qed
  have "2 ^ w dvd S" using w(1) by (simp add: S_def le_imp_power_dvd)
  then have "2 ^ w dvd (i + 1) * S - (i * S + ?s)" using w(2) by (simp add: algebra_simps)
  moreover have "0 \<le> i * S + ?s" "i * S + ?s \<le> (i + 1) * S" using ir(2) st S by (auto simp: algebra_simps)
  moreover have "length sq = 2 ^ D * 2 ^ D" using sc by (simp add: square_cached_def)
  then have "E \<le> int (length (square_leaves sq))" using E(2) by (simp add: square_leaves_def ToBytes_def S_def)
  ultimately have "covers nmt_root caches rowRoots (square_leaves sq) (2 ^ w) (i * S + ?s) E (ps @ qs)"
    using ps(2) qs(2) next_row lo
    by (intro covers_append [where b = "(i + 1) * S"]) (auto simp: S_def algebra_simps)
  then show ?case
    unfolding rows using ps(1) qs(1) lt by simp
qed

section \<open>Both commitments\<close>

lemma log2_pow2: "log2_floor (2 ^ k) = int k"
proof -
  have "log2_nat (2 ^ k) = k"
  proof (induction k)
    case (Suc k)
    have "\<not> 2 ^ Suc k < (2::nat)" using one_le_power [of "2 :: nat" k] by (simp del: one_le_power)
    with Suc show ?case by (subst log2_nat.simps) simp
  qed (simp add: log2_nat.simps)
  then show ?thesis by (simp add: log2_floor_def nat_power_eq)
qed

lemma mapR_comp: "mapR (\<lambda>x. f (g x)) xs = mapR f (map g xs)"
  by (induction xs) simp_all

lemma sparse_share_leaves:
  assumes "user_blob blob"
  shows "square_leaves (sparse_shares_of (Namespace_blob blob) 0 (blob_Data blob)) =
    map (\<lambda>d. Bytes_ns (Namespace_blob blob) @ d) (ToBytes (sparse_shares_of (Namespace_blob blob) 0 (blob_Data blob)))"
proof -
  have "length (Bytes_ns (Namespace_blob blob)) = 29"
    using assms by (simp add: user_blob_def user_ns_def)
  then show ?thesis
    by (auto simp: square_leaves_def ToBytes_def share_of_def dest!: sparse_shares_of_layout)
qed

lemma calculateCommitmentPaths_cover:
  assumes sc: "square_cached nmt_root caches rowRoots D rows sq" and D: "D \<le> 31"
    and n: "0 < n" "0 \<le> start" "next_index start n t + n \<le> 2 ^ D * 2 ^ D" and t: "0 < t"
  shows "\<exists>ps. calculateCommitmentPaths (2 ^ D) start n t = Inr ps
    \<and> covers nmt_root caches rowRoots (square_leaves sq) (subtree_width n t)
        (next_index start n t) (next_index start n t + n) ps"
proof -
  let ?i = "next_index start n t" and ?S = "(2::int) ^ D"
  obtain w where w: "subtree_width n t = 2 ^ w" using subtree_width_pow2 by blast
  have i: "0 \<le> ?i" using next_index_bounds(1) [of start n t] n(2) by linarith
  have "(2::int) ^ D \<le> 2 ^ 31" using D by (intro power_increasing) auto
  then have "?S * ?S \<le> 2 ^ 31 * 2 ^ 31" by (intro mult_mono) auto
  then have n62: "n \<le> 2 ^ 62" using n(3) i by simp
  have "n \<le> ?S * ?S" using n(3) i by linarith
  then have "(2::int) ^ w \<le> ?S"
    using order.trans [OF subtree_width_le_square [of n t] min_square_least [of n D]] w by simp
  then have wD: "w \<le> D" by simp
  have "2 ^ w dvd ?i" using next_index_aligned [of n t start] w by simp
  then have dv: "2 ^ w dvd ?i mod ?S" using wD by (simp add: dvd_mod_iff le_imp_power_dvd)
  have S: "0 < ?S" by simp
  have div: "?i div ?S * ?S + ?i mod ?S = ?i" by (rule div_mult_mod_eq)
  have "?i div ?S \<le> (?i + n - 1) div ?S" using n(1) by (intro zdiv_mono1) auto
  with commitment_rows_cover [OF refl sc wD dv, of "?i div ?S" "?i + n" "(?i + n - 1) div ?S" "?i div ?S"]
  show ?thesis
    using i n NextShareIndex_eq [OF n(2) _ n62 t] SubTreeWidth_eq [OF _ n62 t] w S div
    by (simp add: calculateCommitmentPaths_def Let_def log2_pow2 pos_imp_zdiv_nonneg_iff)
qed

lemma CreateCommitment_cut:
  assumes "Validate_blob blob = Inr ()" "SplitBlobs [blob] = Inr shares" "int (length shares) \<le> 2 ^ 62"
    and w: "subtree_width (int (length shares)) DefaultSubtreeRootThreshold = 2 ^ w"
    and sizes: "mountain_range (int (length shares)) (2 ^ w) sizes"
  shows "CreateCommitment nmt_root hash_roots blob =
    bindR (mapR nmt_root (cut_sizes (map (\<lambda>d. Bytes_ns (Namespace_blob blob) @ d) (ToBytes shares)) sizes))
      (\<lambda>roots. Inr (hash_roots roots))"
proof -
  let ?n = "int (length shares)"
  have "0 \<le> ?n" "?n \<le> 2 ^ 63" using assms(3) by simp_all
  from MerkleMountainRangeSizes_ok [OF this refl, of w] obtain sizes' where
    "MerkleMountainRangeSizes ?n (2 ^ w) = Inr sizes'" "mountain_range ?n (2 ^ w) sizes'" by blast
  then have "MerkleMountainRangeSizes ?n (2 ^ w) = Inr sizes"
    using mountain_range_unique [OF _ sizes refl] by metis
  moreover have "leafSets shares 0 sizes = Inr (cut_sizes (ToBytes shares) sizes)"
  proof (rule leafSets_cut [of 0 sizes shares, simplified])
    show "\<forall>x\<in>set sizes. 0 \<le> x" "sum_list sizes = int (length shares)"
      using sizes by (auto simp: mountain_range_def)
  qed
  moreover have "SubTreeWidth ?n DefaultSubtreeRootThreshold = Inr (2 ^ w)"
    using SubTreeWidth_eq [OF _ assms(3)] w by (simp add: DefaultSubtreeRootThreshold_def)
  ultimately show ?thesis
    by (simp only: CreateCommitment_def assms(1,2) bindR_simps Let_def cut_map mapR_comp)
qed

lemma GetCommitment_agrees:
  assumes sc: "square_cached nmt_root caches rowRoots D rows sq" and D: "D \<le> 31"
    and blob: "user_blob blob" "SplitBlobs [blob] = Inr shares"
    and start: "0 \<le> start" "NextShareIndex start (int (length shares)) DefaultSubtreeRootThreshold = Inr i"
    and at: "take (length shares) (drop (nat i) sq) = shares" "i + int (length shares) \<le> 2 ^ D * 2 ^ D"
  shows "GetCommitment hash_roots caches rowRoots start (int (length shares)) DefaultSubtreeRootThreshold
    = CreateCommitment nmt_root hash_roots blob"
proof -
  let ?n = "int (length shares)" and ?t = DefaultSubtreeRootThreshold
  have shares: "shares = sparse_shares_of (Namespace_blob blob) 0 (blob_Data blob)"
    using blob user_blob_write [OF blob(1), of NewSparseShareSplitter]
    by (simp add: SplitBlobs_def Export_sss_def NewSparseShareSplitter_def)
  have n: "0 < ?n" by (simp add: shares sparse_shares_of_def)
  have t: "0 < ?t" by (simp add: DefaultSubtreeRootThreshold_def)
  have "(2::int) ^ D \<le> 2 ^ 31" using D by (intro power_increasing) auto
  then have S: "(2::int) ^ D * 2 ^ D \<le> 2 ^ 31 * 2 ^ 31" by (intro mult_mono) auto
  have "length shares \<le> length sq" using at(1) by (metis length_drop length_take min.cobounded2 diff_le_self le_trans min.absorb_iff2)
  moreover have "length sq = 2 ^ D * 2 ^ D" using sc by (simp add: square_cached_def)
  then have "int (length sq) \<le> 2 ^ 62" using S by simp
  ultimately have n62: "?n \<le> 2 ^ 62" by linarith
  have i: "i = next_index start ?n ?t" using start NextShareIndex_eq [OF start(1) _ n62 t] n by simp
  have i0: "start \<le> i" "0 \<le> i" using next_index_bounds(1) [of start ?n ?t] start(1) i by auto
  obtain w where w: "subtree_width ?n ?t = 2 ^ w" using subtree_width_pow2 by blast
  obtain ps where ps: "calculateCommitmentPaths (2 ^ D) start ?n ?t = Inr ps"
      "covers nmt_root caches rowRoots (square_leaves sq) (2 ^ w) i (i + ?n) ps"
    using calculateCommitmentPaths_cover [OF sc D n start(1) _ t] at(2) i w by auto
  then obtain sizes roots where roots: "mapR (path_root caches rowRoots) ps = Inr roots"
      "mapR nmt_root (cut_sizes (take (length shares) (drop (nat i) (square_leaves sq))) sizes) = Inr roots"
      "mountain_range ?n (2 ^ w) sizes"
    by (auto simp: covers_def)
  have leaves: "take (length shares) (drop (nat i) (square_leaves sq))
      = map (\<lambda>d. Bytes_ns (Namespace_blob blob) @ d) (ToBytes shares)"
    using at(1) sparse_share_leaves [OF blob(1)]
    by (simp add: square_leaves_def ToBytes_def take_map drop_map shares [symmetric])
  have "GetCommitment hash_roots caches rowRoots start ?n ?t = Inr (hash_roots roots)"
    using sc at(2) i0 ps(1) roots(1) unfolding GetCommitment_def path_root_def [symmetric]
    by (simp add: square_cached_def)
  moreover have "Validate_blob blob = Inr ()" using blob(1) by (simp add: user_blob_def)
  ultimately show ?thesis
    using CreateCommitment_cut [OF _ blob(2) n62 w roots(3), of nmt_root hash_roots] roots(2) leaves by simp
qed

end
