(* ===== verification/Samples.thy ===== *)
theory Samples
  imports SquareDeconstruct CommitmentAgreement
begin

text \<open>
  Concrete inputs at which the properties of the development are exercised: a user namespace, a
  blob, a blob transaction, and a concrete choice \<open>sample_ext\<close> of the functions that belong to other
  repositories. The index wrapper is encoded field by field with varints, as protobuf does.
\<close>

section \<open>A blob transaction\<close>

definition sample_ns :: Namespace where
  "sample_ns = Namespace 0 (zeros 18 @ [1, 2, 3, 4, 5, 6, 7, 8, 9, 10])"

definition sample_blob :: Blob where
  "sample_blob = New_blob sample_ns [1, 2, 3] 0"

definition sample_btx :: BlobTx where
  "sample_btx = \<lparr>btx_Tx = [7, 7], btx_Blobs = [sample_blob], btx_TypeId = ''BLOB''\<rparr>"

section \<open>External functions\<close>

definition sample_iwMarshal :: "IndexWrapper \<Rightarrow> bytes" where
  "sample_iwMarshal iw = 0x0A # iw_Tx iw @ concat (map PutUint32 (iw_ShareIndexes iw))"

fun sample_indexes :: "bytes \<Rightarrow> uint32 list" where
  "sample_indexes (a # b # c # d # bs) =
     (case Uint32 [a, b, c, d] of Inr i \<Rightarrow> i # sample_indexes bs | Inl _ \<Rightarrow> [])"
| "sample_indexes bs = []"

definition sample_unwrap :: "bytes \<Rightarrow> IndexWrapper option" where
  "sample_unwrap bs =
     (if bs \<noteq> [] \<and> hd bs = 0x0A
      then Some \<lparr>iw_Tx = take 2 (tl bs), iw_ShareIndexes = sample_indexes (drop 3 bs), iw_TypeId = ''INDX''\<rparr>
      else None)"

definition sample_ext :: ext where
  "sample_ext =
     \<lparr>x_unmarshal = (\<lambda>tx. if tx = [0xB0] then Inr sample_btx else Inl (Err ''not a blob tx'')),
      x_marshal = (\<lambda>_. Inr [0xB0]),
      x_iwSize = (\<lambda>iw. length (sample_iwMarshal iw)),
      x_iwMarshal = (\<lambda>iw. Inr (sample_iwMarshal iw)),
      x_unwrap = sample_unwrap,
      x_key = (\<lambda>tx. tx),
      x_decoder = (\<lambda>_. Inr [Some [3]]),
      x_iwTypeId = ''INDX''\<rparr>"

section \<open>Their properties\<close>

lemma sample_ns_valid [simp]: "valid_ns sample_ns"
  by (simp add: sample_ns_def valid_ns_def NamespaceVersionZeroPrefix_def)

lemma sample_ns_not_reserved [simp]: "\<not> IsReserved sample_ns"
  by code_simp

lemma sample_blob_sized: "sized_blob sample_blob"
  using not_reserved_user_ns [OF sample_ns_valid sample_ns_not_reserved] sample_ns_valid
  by (simp add: sized_blob_def user_blob_def sample_blob_def Validate_blob_iff New_blob_def
      Namespace_blob_def MaxSparseLen_def sample_ns_def valid_ns_def)

lemma sample_btx_accepted: "accepted sample_btx"
  by (simp add: accepted_def sample_btx_def sample_blob_sized)

lemma sample_all_accepted: "all_accepted sample_ext [[0xB0], [5]]"
  using sample_btx_accepted by (simp add: all_accepted_def sample_ext_def UnmarshalBlobTx_def)

lemma sample_iw_codec_ok: "iw_codec_ok sample_ext"
proof -
  have "length (concat (map PutUint32 xs)) = 4 * length xs" for xs
    by (induction xs) simp_all
  then show ?thesis
    by (auto simp: iw_codec_ok_def sample_ext_def sample_iwMarshal_def dest: list_all2_lengthD)
qed

lemma sample_indexes_Put: "sample_indexes (concat (map PutUint32 is)) = is"
proof (induction "is")
  case (Cons i "is")
  obtain a b c d where p: "PutUint32 i = [a, b, c, d]" by (simp add: PutUint32_def)
  then have "Uint32 [a, b, c, d] = Inr i" using Uint32_PutUint32 [of i] by simp
  with p Cons show ?case by simp
qed simp

lemma sample_decode [simp]:
  "UnmarshalBlobTx (x_unmarshal sample_ext) [0xB0] = (sample_btx, True)"
  by (simp add: sample_ext_def UnmarshalBlobTx_def sample_btx_def sample_blob_def New_blob_def sample_ns_def
      ProtoBlobTxTypeID_def)

lemma sample_deconstructible: "deconstructible sample_ext [0xB0]"
  unfolding deconstructible_def Let_def sample_decode
  by (auto simp: sample_ext_def MarshalBlobTx_def sample_unwrap_def sample_iwMarshal_def sample_btx_def
      sample_blob_def New_blob_def sample_indexes_Put)

section \<open>A block of one share\<close>

text \<open>
  The namespaced Merkle root is sampled by concatenation and the hash by a prefix of 32 bytes; a square
  of one share, whose extension repeats it, is then cached by the two trees of its rows.
\<close>

definition sample_nmt_root :: "bytes list \<Rightarrow> bytes result" where
  "sample_nmt_root leaves = Inr (concat leaves)"

definition sample_hash_roots :: "bytes list \<Rightarrow> bytes" where
  "sample_hash_roots roots = take 32 (concat roots @ zeros 32)"

definition sample_share :: Share where
  "sample_share = hd (sparse_shares_of sample_ns 0 [1, 2, 3])"

lemma sample_blob_shares: "SplitBlobs [sample_blob] = Inr [sample_share]"
proof -
  have "user_blob sample_blob" using sample_blob_sized by (simp add: sized_blob_def)
  from user_blob_write [OF this, of NewSparseShareSplitter]
  have "SplitBlobs [sample_blob] = Inr (sparse_shares_of (Namespace_blob sample_blob) 0 (blob_Data sample_blob))"
    by (simp add: SplitBlobs_def Export_sss_def NewSparseShareSplitter_def)
  moreover have "Namespace_blob sample_blob = sample_ns" "blob_Data sample_blob = [1, 2, 3]"
    by (simp_all add: sample_blob_def New_blob_def Namespace_blob_def sample_ns_def)
  moreover have "sparse_shares_of sample_ns 0 [1, 2, 3] = [sample_share]"
    by (simp add: sparse_shares_of_def sample_share_def cont_shares.simps)
  ultimately show ?thesis by simp
qed

definition sample_leaves :: "bytes list" where
  "sample_leaves = axis_leaves 1 0 [share_data sample_share, share_data sample_share]"

definition sample_caches :: caches where
  "sample_caches = [(0, [concat sample_leaves \<mapsto> (sample_leaves ! 0, sample_leaves ! 1)]), (1, Map.empty)]"

lemma sample_cached:
  "square_cached sample_nmt_root sample_caches [concat sample_leaves, []] 0
     [[share_data sample_share, share_data sample_share]] [sample_share]"
  by (simp add: square_cached_def row_cached_def sample_caches_def sample_nmt_root_def ToBytes_def)
    (simp add: sample_leaves_def axis_leaves_def)

end
