(* ===== verification/PayForBlobs.thy ===== *)
theory PayForBlobs
  imports SquareTotal
begin

text \<open>
  \<^verbatim>\<open>x/blob\<close>: the module that pays for blobs. \<^verbatim>\<open>types/message_pay_for_blobs.go\<close> and
  \<^verbatim>\<open>types/blob_tx.go\<close> hold the message and the stateless checks that relate it to the blobs it pays for;
  \<^verbatim>\<open>types/params.go\<close> and \<^verbatim>\<open>keeper\<close> the parameters; \<^verbatim>\<open>ante\<close> the decorators that bound size and gas. The
  functions of the SDK (transaction decoding, address parsing, the hash) are the record \<open>pfx\<close>.
\<close>

section \<open>The message\<close>

record MsgPayForBlobs =
  pfb_Signer :: string
  pfb_Namespaces :: "bytes list"
  pfb_BlobSizes :: "uint32 list"
  pfb_ShareCommitments :: "bytes list"
  pfb_ShareVersions :: "uint32 list"

text \<open>A message of a decoded transaction, as the type switches of the code see it.\<close>

datatype sdkMsg = PFB MsgPayForBlobs | OtherMsg

record pfx =
  p_decoder :: "bytes \<Rightarrow> sdkMsg list result"
  p_address :: "string \<Rightarrow> unit result"
  p_hashLength :: nat
  p_nmt_root :: "bytes list \<Rightarrow> bytes result"
  p_hash_roots :: "bytes list \<Rightarrow> bytes"

definition ValidateBlobNamespace :: "Namespace \<Rightarrow> unit result" where
  "ValidateBlobNamespace ns =
     (if IsReserved ns then Inl (Err ''cannot use reserved namespace IDs'')
      else if ns_Version ns \<notin> set SupportedBlobNamespaceVersions then Inl (Err ''invalid namespace version'')
      else Inr ())"

definition ValidateBlob :: "Blob \<Rightarrow> unit result" where
  "ValidateBlob blob =
     (if blob_NamespaceVersion blob > NamespaceVersionMaxValue then Inl (Err ''namespace version is too large'')
      else bindR (New_ns (ucast (blob_NamespaceVersion blob)) (blob_NamespaceId blob)) (\<lambda>ns.
           bindR (ValidateBlobNamespace ns) (\<lambda>_.
             if length (blob_Data blob) = 0 then Inl (Err ''cannot use zero blob size'')
             else if ucast (blob_ShareVersion blob) \<notin> set SupportedShareVersions
             then Inl (Err ''unsupported share version'')
             else Inr ())))"

definition ValidateBlobs :: "Blob list \<Rightarrow> unit result" where
  "ValidateBlobs blobs =
     (if length blobs = 0 then Inl (Err ''no blobs provided'')
      else foldR (\<lambda>blob _. ValidateBlob blob) blobs ())"

definition NewBlob :: "Namespace \<Rightarrow> bytes \<Rightarrow> byte \<Rightarrow> Blob result" where
  "NewBlob ns data shareVersion =
     bindR (ValidateBlobNamespace ns) (\<lambda>_.
       if length data = 0 then Inl (Err ''cannot use zero blob size'')
       else Inr \<lparr>blob_NamespaceId = ns_ID ns, blob_Data = data, blob_ShareVersion = ucast shareVersion,
                 blob_NamespaceVersion = ucast (ns_Version ns)\<rparr>)"

definition ExtractBlobComponents ::
    "Blob list \<Rightarrow> uint32 list \<times> bytes list \<times> uint32 list \<times> uint32 list" where
  "ExtractBlobComponents pblobs =
     (map blob_NamespaceVersion pblobs, map blob_NamespaceId pblobs,
      map (\<lambda>b. of_nat (length (blob_Data b))) pblobs, map blob_ShareVersion pblobs)"

definition namespacesToBytes :: "Namespace list \<Rightarrow> bytes list" where
  "namespacesToBytes namespaces = map Bytes_ns namespaces"

definition ValidateBasic_pfb :: "pfx \<Rightarrow> MsgPayForBlobs \<Rightarrow> unit result" where
  "ValidateBasic_pfb p msg =
     (if length (pfb_Namespaces msg) = 0 then Inl (Err ''no namespaces provided'')
      else if length (pfb_ShareVersions msg) = 0 then Inl (Err ''no share versions provided'')
      else if length (pfb_BlobSizes msg) = 0 then Inl (Err ''no blob sizes provided'')
      else if length (pfb_ShareCommitments msg) = 0 then Inl (Err ''no share commitments provided'')
      else if length (pfb_Namespaces msg) \<noteq> length (pfb_ShareVersions msg)
        \<or> length (pfb_Namespaces msg) \<noteq> length (pfb_BlobSizes msg)
        \<or> length (pfb_Namespaces msg) \<noteq> length (pfb_ShareCommitments msg)
      then Inl (Err ''number of each component in a MsgPayForBlobs must be identical'')
      else
        bindR (foldR (\<lambda>namespace _.
            (case From_ns namespace of
               Inl e \<Rightarrow> Inl (Err ''invalid namespace'')
             | Inr ns \<Rightarrow> ValidateBlobNamespace ns)) (pfb_Namespaces msg) ()) (\<lambda>_.
        if \<not> list_all (\<lambda>v. v = ucast ShareVersionZero) (pfb_ShareVersions msg)
        then Inl (Err ''unsupported share version'')
        else bindR (p_address p (pfb_Signer msg)) (\<lambda>_.
          if \<not> list_all (\<lambda>c. length c = p_hashLength p) (pfb_ShareCommitments msg)
          then Inl (Err ''invalid commitment for share'')
          else Inr ())))"

definition NewMsgPayForBlobs :: "pfx \<Rightarrow> string \<Rightarrow> Blob list \<Rightarrow> MsgPayForBlobs result" where
  "NewMsgPayForBlobs p signer blobs =
     bindR (ValidateBlobs blobs) (\<lambda>_.
     bindR (CreateCommitments (p_nmt_root p) (p_hash_roots p) blobs) (\<lambda>commitments.
     let (namespaceVersions, namespaceIds, sizes, shareVersions) = ExtractBlobComponents blobs in
     bindR (mapR (\<lambda>(v, i). New_ns (ucast v) i) (zip namespaceVersions namespaceIds)) (\<lambda>namespaces.
       let msg = \<lparr>pfb_Signer = signer, pfb_Namespaces = namespacesToBytes namespaces,
                  pfb_BlobSizes = sizes, pfb_ShareCommitments = commitments,
                  pfb_ShareVersions = shareVersions\<rparr>
       in bindR (ValidateBasic_pfb p msg) (\<lambda>_. Inr msg))))"

section \<open>Blob transactions\<close>

definition equalSlices :: "'a list \<Rightarrow> 'a list \<Rightarrow> bool" where
  "equalSlices a b \<longleftrightarrow> length a = length b \<and> list_all (\<lambda>i. a ! i = b ! i) [0..<length a]"

text \<open>The two loops over the message's components, which index the blobs of the transaction.\<close>

fun check_namespaces :: "Blob list \<Rightarrow> nat \<Rightarrow> bytes list \<Rightarrow> unit result" where
  "check_namespaces blobs i [] = Inr ()"
| "check_namespaces blobs i (ns # rest) =
     bindR (From_ns ns) (\<lambda>msgPFBNamespace.
     bindR (index blobs i) (\<lambda>blob.
     bindR (New_ns (ucast (blob_NamespaceVersion blob)) (blob_NamespaceId blob)) (\<lambda>blobNamespace.
       if Bytes_ns blobNamespace \<noteq> Bytes_ns msgPFBNamespace
       then Inl (Err ''namespace of blob and its respective MsgPayForBlobs differ'')
       else check_namespaces blobs (Suc i) rest)))"

fun check_commitments :: "pfx \<Rightarrow> Blob list \<Rightarrow> nat \<Rightarrow> bytes list \<Rightarrow> unit result" where
  "check_commitments p blobs i [] = Inr ()"
| "check_commitments p blobs i (commitment # rest) =
     bindR (index blobs i) (\<lambda>blob.
       (case CreateCommitment (p_nmt_root p) (p_hash_roots p) blob of
          Inl (Err e) \<Rightarrow> Inl (Err ''unexpected error calculating commitment for share'')
        | Inl f \<Rightarrow> Inl f
        | Inr calculatedCommit \<Rightarrow>
            if calculatedCommit \<noteq> commitment then Inl (Err ''invalid commitment for share'')
            else check_commitments p blobs (Suc i) rest))"

text \<open>The checks of \<^verbatim>\<open>ValidateBlobTx\<close> after the message is known to be valid by itself.\<close>

definition check_blobs :: "pfx \<Rightarrow> MsgPayForBlobs \<Rightarrow> Blob list \<Rightarrow> unit result" where
  "check_blobs p msgPFB blobs =
     (let sizes = map (\<lambda>b. of_nat (length (blob_Data b))) blobs in
      bindR (ValidateBlobs blobs) (\<lambda>_.
        if \<not> equalSlices sizes (pfb_BlobSizes msgPFB)
        then Inl (Err ''actual blob size differs from that specified in the MsgPayForBlob'')
        else bindR (check_namespaces blobs 0 (pfb_Namespaces msgPFB)) (\<lambda>_.
          check_commitments p blobs 0 (pfb_ShareCommitments msgPFB))))"

definition ValidateBlobTx :: "pfx \<Rightarrow> BlobTx \<Rightarrow> unit result" where
  "ValidateBlobTx p bTx =
     bindR (p_decoder p (btx_Tx bTx)) (\<lambda>msgs.
       if length msgs \<noteq> 1 then Inl (Err ''not yet supported: multiple sdk.Msgs found in BlobTx'')
       else (case hd msgs of
          OtherMsg \<Rightarrow> Inl (Err ''no MsgPayForBlobs found in blob transaction'')
        | PFB msgPFB \<Rightarrow>
            bindR (ValidateBasic_pfb p msgPFB) (\<lambda>_. check_blobs p msgPFB (btx_Blobs bTx))))"

definition BlobTxSharesUsed :: "BlobTx \<Rightarrow> int result" where
  "BlobTxSharesUsed btx =
     foldR (\<lambda>blob sharesUsed. bindR (SparseSharesNeeded (of_nat (length (blob_Data blob)))) (\<lambda>n.
       Inr (sharesUsed + n))) (btx_Blobs btx) 0"

section \<open>Gas\<close>

definition PFBGasFixedCost :: uint64 where "PFBGasFixedCost = 75000"
definition BytesPerBlobInfo :: uint64 where "BytesPerBlobInfo = 70"

definition GasToConsume :: "uint32 list \<Rightarrow> uint32 \<Rightarrow> uint64 result" where
  "GasToConsume blobSizes gasPerByte =
     bindR (foldR (\<lambda>sz totalSharesUsed. bindR (SparseSharesNeeded sz) (\<lambda>n.
       Inr (totalSharesUsed + word_of_int n))) blobSizes 0) (\<lambda>totalSharesUsed.
       Inr (totalSharesUsed * of_nat ShareSize * ucast gasPerByte))"

definition Gas_pfb :: "MsgPayForBlobs \<Rightarrow> uint32 \<Rightarrow> uint64 result" where
  "Gas_pfb msg gasPerByte = GasToConsume (pfb_BlobSizes msg) gasPerByte"

definition EstimateGas :: "uint32 list \<Rightarrow> uint32 \<Rightarrow> uint64 \<Rightarrow> uint64 result" where
  "EstimateGas blobSizes gasPerByte txSizeCost =
     bindR (GasToConsume blobSizes gasPerByte) (\<lambda>g.
       Inr (g + txSizeCost * BytesPerBlobInfo * of_nat (length blobSizes) + PFBGasFixedCost))"

section \<open>Parameters\<close>

record Params =
  GasPerBlobByte :: uint32
  GovMaxSquareSize :: uint64

definition DefaultParams :: Params where
  "DefaultParams = \<lparr>GasPerBlobByte = DefaultGasPerBlobByte,
                    GovMaxSquareSize = word_of_int DefaultGovMaxSquareSize\<rparr>"

definition validateGasPerBlobByte :: "uint32 \<Rightarrow> unit result" where
  "validateGasPerBlobByte v = (if v = 0 then Inl (Err ''gas per blob byte cannot be 0'') else Inr ())"

definition validateGovMaxSquareSize :: "uint64 \<Rightarrow> unit result" where
  "validateGovMaxSquareSize v =
     (if v = 0 then Inl (Err ''gov max square size cannot be zero'')
      else if \<not> IsPowerOfTwo wrap_uint64 (uint v) then Inl (Err ''gov max square size must be a power of two'')
      else Inr ())"

definition Validate_params :: "Params \<Rightarrow> unit result" where
  "Validate_params p =
     bindR (validateGasPerBlobByte (GasPerBlobByte p)) (\<lambda>_. validateGovMaxSquareSize (GovMaxSquareSize p))"

text \<open>
  The keeper's store holds the parameters, or nothing before they are first set; \<^verbatim>\<open>GetParams\<close> then
  returns the zero value.
\<close>

type_synonym blob_store = "Params option"

definition GetParams_blob :: "blob_store \<Rightarrow> Params" where
  "GetParams_blob s = (case s of None \<Rightarrow> \<lparr>GasPerBlobByte = 0, GovMaxSquareSize = 0\<rparr> | Some p \<Rightarrow> p)"

definition SetParams_blob :: "blob_store \<Rightarrow> Params \<Rightarrow> blob_store" where
  "SetParams_blob s params = Some params"

definition UpdateParams_blob :: "string \<Rightarrow> string \<Rightarrow> Params \<Rightarrow> blob_store \<Rightarrow> blob_store result" where
  "UpdateParams_blob keeperAuthority authority params s =
     (if keeperAuthority \<noteq> authority
      then Inl (Err ''expected gov account as only signer for proposal message'')
      else Inr (SetParams_blob s params))"

definition ValidateBasic_updateParams :: "pfx \<Rightarrow> string \<Rightarrow> Params \<Rightarrow> unit result" where
  "ValidateBasic_updateParams p authority params =
     bindR (p_address p authority) (\<lambda>_. Validate_params params)"

text \<open>\<^verbatim>\<open>PayForBlobs\<close>; \<open>consume\<close> is the gas meter's \<^verbatim>\<open>ConsumeGas\<close> and \<open>emit\<close> the event manager.\<close>

record EventPayForBlobs =
  ev_Signer :: string
  ev_BlobSizes :: "uint32 list"
  ev_Namespaces :: "bytes list"

definition NewPayForBlobsEvent :: "string \<Rightarrow> uint32 list \<Rightarrow> bytes list \<Rightarrow> EventPayForBlobs" where
  "NewPayForBlobsEvent signer blobSizes namespaces =
     \<lparr>ev_Signer = signer, ev_BlobSizes = blobSizes, ev_Namespaces = namespaces\<rparr>"

definition PayForBlobs_msg :: "('c \<Rightarrow> uint64 \<Rightarrow> 'c result) \<Rightarrow> ('c \<Rightarrow> EventPayForBlobs \<Rightarrow> 'c result) \<Rightarrow>
    blob_store \<Rightarrow> 'c \<Rightarrow> MsgPayForBlobs \<Rightarrow> 'c result" where
  "PayForBlobs_msg consume emit s ctx msg =
     bindR (GasToConsume (pfb_BlobSizes msg) (GasPerBlobByte (GetParams_blob s))) (\<lambda>gasToConsume.
     bindR (consume ctx gasToConsume) (\<lambda>ctx.
       emit ctx (NewPayForBlobsEvent (pfb_Signer msg) (pfb_BlobSizes msg) (pfb_Namespaces msg))))"

section \<open>The ante decorators\<close>

definition getTotal :: "uint32 list \<Rightarrow> int" where
  "getTotal sizes = foldl (\<lambda>total s. total + uint s) 0 sizes"

definition getMaxSquareSize :: "blob_store \<Rightarrow> int \<Rightarrow> uint64 \<Rightarrow> int" where
  "getMaxSquareSize s height appVersion =
     (if height \<le> 1 then DefaultGovMaxSquareSize
      else min (SquareSizeUpperBound appVersion) (sint (GovMaxSquareSize (GetParams_blob s))))"

definition maxTotalBlobSize :: "blob_store \<Rightarrow> int \<Rightarrow> uint64 \<Rightarrow> int" where
  "maxTotalBlobSize s height appVersion =
     (let squareSize = getMaxSquareSize s height appVersion;
          totalShares = wrap_int (squareSize * squareSize);
          blobShares = wrap_int (totalShares - 1)
      in AvailableBytesFromSparseShares blobShares)"

definition AnteHandle_MaxTotalBlobSize ::
    "blob_store \<Rightarrow> int \<Rightarrow> uint64 \<Rightarrow> bool \<Rightarrow> sdkMsg list \<Rightarrow> 'r result \<Rightarrow> 'r result" where
  "AnteHandle_MaxTotalBlobSize s height appVersion isCheckTx msgs next =
     (if \<not> isCheckTx then next
      else
        let mx = maxTotalBlobSize s height appVersion in
        bindR (foldR (\<lambda>m _. (case m of
                 PFB pfb \<Rightarrow> if getTotal (pfb_BlobSizes pfb) > mx then Inl (Err ''total blob size too large'') else Inr ()
               | OtherMsg \<Rightarrow> Inr ())) msgs ()) (\<lambda>_. next))"

text \<open>The accumulator of the loop is the lazily fetched \<^verbatim>\<open>gasPerByte\<close>.\<close>

fun minGas_step :: "blob_store \<Rightarrow> uint64 \<Rightarrow> sdkMsg \<Rightarrow> uint32 \<Rightarrow> uint32 result" where
  "minGas_step s txGas (PFB pfb) gasPerByte =
     (let gasPerByte = (if gasPerByte = 0 then GasPerBlobByte (GetParams_blob s) else gasPerByte) in
      bindR (Gas_pfb pfb gasPerByte) (\<lambda>gasToConsume.
        if gasToConsume > txGas then Inl (Err ''not enough gas to pay for blobs'')
        else Inr gasPerByte))"
| "minGas_step s txGas OtherMsg gasPerByte = Inr gasPerByte"

definition AnteHandle_MinGasPFB ::
    "blob_store \<Rightarrow> bool \<Rightarrow> uint64 \<Rightarrow> sdkMsg list \<Rightarrow> 'r result \<Rightarrow> 'r result" where
  "AnteHandle_MinGasPFB s isReCheckTx txGas msgs next =
     (if isReCheckTx then next
      else bindR (foldR (minGas_step s txGas) msgs 0) (\<lambda>_. next))"

section \<open>What the stateless checks ensure\<close>

lemma ValidateBlobNamespace_iff:
  "ValidateBlobNamespace ns = Inr () \<longleftrightarrow> \<not> IsReserved ns \<and> ns_Version ns \<in> set SupportedBlobNamespaceVersions"
  by (simp add: ValidateBlobNamespace_def)

definition blob_ok :: "Blob \<Rightarrow> bool" where
  "blob_ok b \<longleftrightarrow> blob_NamespaceVersion b \<le> 255 \<and> valid_ns (Namespace_blob b) \<and> \<not> IsReserved (Namespace_blob b)
     \<and> ns_Version (Namespace_blob b) \<in> set SupportedBlobNamespaceVersions
     \<and> blob_Data b \<noteq> [] \<and> (ucast (blob_ShareVersion b) :: byte) = 0"

lemma New_ns_blob: "New_ns (ucast (blob_NamespaceVersion b)) (blob_NamespaceId b) = Inr ns \<longleftrightarrow>
    ns = Namespace_blob b \<and> valid_ns (Namespace_blob b)"
  by (auto simp: New_ns_iff Namespace_blob_def)

lemma ValidateBlob_iff: "ValidateBlob b = Inr () \<longleftrightarrow> blob_ok b"
  by (auto simp: ValidateBlob_def blob_ok_def result_simps New_ns_blob ValidateBlobNamespace_iff not_less)

lemma ValidateBlobs_iff: "ValidateBlobs blobs = Inr () \<longleftrightarrow> blobs \<noteq> [] \<and> (\<forall>b\<in>set blobs. blob_ok b)"
proof -
  have "foldR (\<lambda>blob _. ValidateBlob blob) blobs () = Inr () \<longleftrightarrow> (\<forall>b\<in>set blobs. blob_ok b)"
    by (induction blobs) (auto simp: result_simps ValidateBlob_iff)
  then show ?thesis by (simp add: ValidateBlobs_def)
qed

lemma equalSlices_iff [simp]: "equalSlices a b \<longleftrightarrow> a = b"
  by (auto simp: equalSlices_def list_all_iff intro: nth_equalityI)

lemma check_namespaces_iff:
  "i + length nss \<le> length blobs \<Longrightarrow> check_namespaces blobs i nss = Inr () \<longleftrightarrow>
   list_all2 (\<lambda>ns b. ns = Bytes_ns (Namespace_blob b) \<and> valid_ns (Namespace_blob b)) nss
     (take (length nss) (drop i blobs))"
proof (induction nss arbitrary: i)
  case (Cons ns nss)
  then have i: "i < length blobs" and d: "drop i blobs = blobs ! i # drop (Suc i) blobs"
    by (simp_all add: Cons_nth_drop_Suc)
  then show ?case
    using Cons by (auto simp: result_simps From_ns_iff New_ns_blob)
qed simp

lemma check_commitments_iff:
  "i + length cs \<le> length blobs \<Longrightarrow> check_commitments p blobs i cs = Inr () \<longleftrightarrow>
   list_all2 (\<lambda>c b. CreateCommitment (p_nmt_root p) (p_hash_roots p) b = Inr c) cs
     (take (length cs) (drop i blobs))"
proof (induction cs arbitrary: i)
  case (Cons c cs)
  then have i: "i < length blobs" and d: "drop i blobs = blobs ! i # drop (Suc i) blobs"
    by (simp_all add: Cons_nth_drop_Suc)
  then show ?case
    using Cons by (auto simp: result_simps split: sum.splits fault.splits)
qed simp

lemma ValidateBasic_lengths:
  assumes "ValidateBasic_pfb p msg = Inr ()"
  shows "length (pfb_BlobSizes msg) = length (pfb_Namespaces msg)"
    "length (pfb_ShareCommitments msg) = length (pfb_Namespaces msg)"
  using assms by (auto simp: ValidateBasic_pfb_def split: if_splits)

definition pays_for :: "pfx \<Rightarrow> MsgPayForBlobs \<Rightarrow> Blob list \<Rightarrow> bool" where
  "pays_for p msg blobs \<longleftrightarrow>
     blobs \<noteq> [] \<and> (\<forall>b\<in>set blobs. blob_ok b)
     \<and> pfb_BlobSizes msg = map (\<lambda>b. of_nat (length (blob_Data b))) blobs
     \<and> pfb_Namespaces msg = map (\<lambda>b. Bytes_ns (Namespace_blob b)) blobs
     \<and> map Inr (pfb_ShareCommitments msg) = map (CreateCommitment (p_nmt_root p) (p_hash_roots p)) blobs"

lemma list_all2_map_eq: "list_all2 (\<lambda>x y. x = f y) xs ys \<longleftrightarrow> xs = map f ys"
  by (auto simp: list_all2_conv_all_nth intro: nth_equalityI)

lemma list_all2_Inr_eq: "list_all2 (\<lambda>c b. f b = Inr c) cs bs \<longleftrightarrow> map Inr cs = map f bs"
  by (auto simp: list_all2_conv_all_nth list_eq_iff_nth_eq)

lemma check_blobs_iff:
  assumes msg: "ValidateBasic_pfb p msg = Inr ()"
  shows "check_blobs p msg blobs = Inr () \<longleftrightarrow> pays_for p msg blobs"
proof (cases "pfb_BlobSizes msg = map (\<lambda>b. of_nat (length (blob_Data b))) blobs")
  case True
  then have len: "length (pfb_Namespaces msg) = length blobs" "length (pfb_ShareCommitments msg) = length blobs"
    using ValidateBasic_lengths [OF msg] by simp_all
  have "list_all2 (\<lambda>ns b. ns = Bytes_ns (Namespace_blob b) \<and> valid_ns (Namespace_blob b)) (pfb_Namespaces msg) blobs
      \<longleftrightarrow> pfb_Namespaces msg = map (\<lambda>b. Bytes_ns (Namespace_blob b)) blobs" if "\<forall>b\<in>set blobs. blob_ok b"
    unfolding list_all2_map_eq [symmetric]
    using that by (auto simp: list_all2_conv_all_nth blob_ok_def all_set_conv_all_nth)
  then show ?thesis
    using True len check_namespaces_iff [of 0 "pfb_Namespaces msg" blobs]
      check_commitments_iff [of 0 "pfb_ShareCommitments msg" blobs p]
    by (auto simp: check_blobs_def result_simps ValidateBlobs_iff pays_for_def list_all2_Inr_eq)
qed (auto simp: check_blobs_def pays_for_def result_simps)

lemma ValidateBlobTx_iff:
  "ValidateBlobTx p btx = Inr () \<longleftrightarrow>
     (\<exists>msg. p_decoder p (btx_Tx btx) = Inr [PFB msg] \<and> ValidateBasic_pfb p msg = Inr ()
        \<and> pays_for p msg (btx_Blobs btx))"
proof (cases "\<exists>m. p_decoder p (btx_Tx btx) = Inr [m]")
  case True
  then obtain m where "p_decoder p (btx_Tx btx) = Inr [m]" by blast
  then show ?thesis
    by (cases m) (auto simp: ValidateBlobTx_def bindR_Inr_iff check_blobs_iff)
next
  case False
  then have "\<forall>msgs. p_decoder p (btx_Tx btx) = Inr msgs \<longrightarrow> length msgs \<noteq> 1" by (auto simp: length_Suc_conv)
  then show ?thesis using False by (auto simp: ValidateBlobTx_def bindR_Inr_iff)
qed

text \<open>What a valid blob transaction carries are blobs the square accepts.\<close>

lemma pays_for_user_blob:
  assumes "pays_for p msg blobs" "b \<in> set blobs" "length (blob_Data b) < 2 ^ 32"
  shows "user_blob b"
proof -
  have ok: "blob_ok b" using assms by (simp add: pays_for_def)
  have "CreateCommitment (p_nmt_root p) (p_hash_roots p) b \<in> set (map Inr (pfb_ShareCommitments msg))"
    using assms(1,2) by (simp add: pays_for_def)
  then have "Validate_blob b = Inr ()" by (auto simp: CreateCommitment_def result_simps)
  moreover from this have "blob_ShareVersion b = 0"
    using ok ucast_down_up [of "blob_ShareVersion b"] by (simp add: blob_ok_def Validate_blob_iff)
  moreover have "user_ns (Namespace_blob b)" using ok by (intro not_reserved_user_ns) (simp_all add: blob_ok_def)
  ultimately show ?thesis using assms(3) by (simp add: user_blob_def)
qed

lemma ValidateBlobTx_accepted:
  assumes "ValidateBlobTx p btx = Inr ()" "\<forall>b\<in>set (btx_Blobs btx). length (blob_Data b) \<le> MaxSparseLen"
  shows "accepted btx"
proof -
  obtain msg where msg: "pays_for p msg (btx_Blobs btx)" using assms(1) by (auto simp: ValidateBlobTx_iff)
  then show ?thesis
    using pays_for_user_blob [OF msg] assms(2)
    by (auto simp: accepted_def sized_blob_def pays_for_def MaxSparseLen_def)
qed

text \<open>The message the client builds is the message the checks accept.\<close>

lemma NewMsg_pays_for:
  assumes "NewMsgPayForBlobs p signer blobs = Inr msg"
  shows "ValidateBasic_pfb p msg = Inr () \<and> pays_for p msg blobs"
proof -
  obtain commitments namespaces where c: "ValidateBlobs blobs = Inr ()"
      "CreateCommitments (p_nmt_root p) (p_hash_roots p) blobs = Inr commitments"
      "mapR (\<lambda>(v, i). New_ns (ucast v) i) (zip (map blob_NamespaceVersion blobs) (map blob_NamespaceId blobs)) = Inr namespaces"
    and msg: "ValidateBasic_pfb p msg = Inr ()"
      "msg = \<lparr>pfb_Signer = signer, pfb_Namespaces = map Bytes_ns namespaces,
         pfb_BlobSizes = map (\<lambda>b. of_nat (length (blob_Data b))) blobs, pfb_ShareCommitments = commitments,
         pfb_ShareVersions = map blob_ShareVersion blobs\<rparr>"
    using assms by (auto simp: NewMsgPayForBlobs_def ExtractBlobComponents_def namespacesToBytes_def result_simps Let_def)
  have "namespaces = map Namespace_blob blobs"
    using c(3) by (auto simp: mapR_Inr_iff list_all2_conv_all_nth New_ns_blob intro!: nth_equalityI)
  moreover have "map Inr commitments = map (CreateCommitment (p_nmt_root p) (p_hash_roots p)) blobs"
    using c(2) by (auto simp: CreateCommitments_def mapR_Inr_iff list_all2_conv_all_nth intro!: nth_equalityI)
  ultimately show ?thesis
    using msg c(1) by (simp add: pays_for_def ValidateBlobs_iff comp_def)
qed

section \<open>Gas and size bounds\<close>

lemma GasToConsume_eq:
  assumes "\<forall>n\<in>set sizes. unat n \<le> MaxSparseLen"
  shows "GasToConsume sizes gasPerByte =
    Inr (of_nat (sum_list (map (\<lambda>n. needed 478 482 (unat n)) sizes) * 512) * ucast gasPerByte)"
proof -
  have "foldR (\<lambda>sz total. bindR (SparseSharesNeeded sz) (\<lambda>n. Inr (total + word_of_int n))) sizes acc
      = Inr (acc + of_nat (sum_list (map (\<lambda>n. needed 478 482 (unat n)) sizes)) :: uint64)" for acc
    using assms
    by (induction sizes arbitrary: acc) (simp_all add: SparseSharesNeeded_needed add.assoc)
  then show ?thesis
    by (simp add: GasToConsume_def)
qed

lemma getTotal_eq: "getTotal sizes = int (sum_list (map unat sizes))"
proof -
  have "foldl (\<lambda>total s. total + uint s) acc sizes = acc + int (sum_list (map unat sizes))" for acc
    by (induction sizes arbitrary: acc) simp_all
  from this [of 0] show ?thesis by (simp add: getTotal_def)
qed

text \<open>
  A transaction that passes the gas decorator can pay for its blobs: the handler's charge is at most
  the gas that remained.
\<close>

lemma minGas_step_pfb:
  assumes "minGas_step s txGas (PFB pfb) c = Inr c'" "c = 0 \<or> c = GasPerBlobByte (GetParams_blob s)"
  shows "c' = GasPerBlobByte (GetParams_blob s)"
    "\<exists>g. GasToConsume (pfb_BlobSizes pfb) (GasPerBlobByte (GetParams_blob s)) = Inr g \<and> g \<le> txGas"
  using assms by (auto simp: Gas_pfb_def Let_def result_simps not_less split: if_splits)

lemma AnteHandle_MinGasPFB_gas:
  assumes "AnteHandle_MinGasPFB s False txGas msgs next = Inr r" "PFB pfb \<in> set msgs"
  shows "\<exists>g. GasToConsume (pfb_BlobSizes pfb) (GasPerBlobByte (GetParams_blob s)) = Inr g \<and> g \<le> txGas"
proof -
  have "foldR (minGas_step s txGas) msgs c = Inr v \<Longrightarrow> c = 0 \<or> c = GasPerBlobByte (GetParams_blob s) \<Longrightarrow>
    PFB pfb \<in> set msgs \<Longrightarrow> ?thesis" for c v
  proof (induction msgs arbitrary: c)
    case (Cons m msgs)
    then obtain c' where c': "minGas_step s txGas m c = Inr c'" "foldR (minGas_step s txGas) msgs c' = Inr v"
      by (auto simp: bindR_Inr_iff)
    show ?case
    proof (cases m)
      case (PFB q)
      then show ?thesis using minGas_step_pfb [of s txGas q c c'] c' Cons by auto
    next
      case OtherMsg
      then show ?thesis using c' Cons by auto
    qed
  qed simp
  then show ?thesis using assms by (fastforce simp: AnteHandle_MinGasPFB_def bindR_Inr_iff)
qed

lemma AnteHandle_MaxTotalBlobSize_bound:
  assumes "AnteHandle_MaxTotalBlobSize s height v True msgs next = Inr r" "PFB pfb \<in> set msgs"
  shows "int (sum_list (map unat (pfb_BlobSizes pfb))) \<le> maxTotalBlobSize s height v"
proof -
  have "\<forall>m\<in>set msgs. (case m of
      PFB pfb \<Rightarrow> if getTotal (pfb_BlobSizes pfb) > maxTotalBlobSize s height v
        then Inl (Err ''total blob size too large'') else Inr () | OtherMsg \<Rightarrow> Inr ()) = Inr ()"
    using assms(1) by (auto simp: AnteHandle_MaxTotalBlobSize_def Let_def bindR_Inr_iff foldR_check_iff)
  with assms(2) show ?thesis by (fastforce simp: getTotal_eq split: if_splits)
qed

end
