(* ===== verification/DataAvailability.thy ===== *)
theory DataAvailability
  imports Square Wrapper
begin

text \<open>
  \<^verbatim>\<open>pkg/da/data_availability_header.go\<close>: the data availability header, the Merkle root of the row and
  column roots of the extended square. A pointer receiver that may be nil is an \<open>option\<close>; \<^verbatim>\<open>Hash\<close>
  memoises its result, so the methods that call it return the updated header. The erasure coding
  (rsmt2d), the binary Merkle tree and \<^verbatim>\<open>ValidateHash\<close> (cometbft) are the functions of the record
  \<open>dax\<close>; \<open>'e\<close> is the type of extended data squares.
\<close>

record 'e dax =
  d_compute :: "bytes list \<Rightarrow> uint64 \<Rightarrow> 'e result"
  d_rowRoots :: "'e \<Rightarrow> bytes list result"
  d_colRoots :: "'e \<Rightarrow> bytes list result"
  d_hash :: "bytes list \<Rightarrow> bytes"
  d_validateHash :: "bytes \<Rightarrow> unit result"

definition maxExtendedSquareWidth :: int where
  "maxExtendedSquareWidth = DefaultSquareSizeUpperBound * 2"

definition minExtendedSquareWidth :: int where
  "minExtendedSquareWidth = int MinSquareSize * 2"

record DataAvailabilityHeader =
  RowRoots :: "bytes list"
  ColumnRoots :: "bytes list"
  dah_hash :: bytes

section \<open>The hash\<close>

text \<open>
  The roots are copied into a slice of twice the number of rows: missing column roots stay empty and
  surplus ones are cut off.
\<close>

definition hash_slices :: "bytes list \<Rightarrow> bytes list \<Rightarrow> bytes list" where
  "hash_slices rows cols =
     (let rowsCount = length rows;
          slices = replicate (rowsCount + rowsCount) [];
          slices = overwrite slices 0 (take rowsCount rows)
      in overwrite slices rowsCount (take rowsCount cols))"

definition Hash_dah :: "'e dax \<Rightarrow> DataAvailabilityHeader option \<Rightarrow>
    DataAvailabilityHeader option \<times> bytes" where
  "Hash_dah d dah =
     (case dah of
        None \<Rightarrow> (None, d_hash d [])
      | Some h \<Rightarrow>
          if length (dah_hash h) \<noteq> 0 then (Some h, dah_hash h)
          else
            let v = d_hash d (hash_slices (RowRoots h) (ColumnRoots h))
            in (Some (h\<lparr>dah_hash := v\<rparr>), v))"

definition NewDataAvailabilityHeader :: "'e dax \<Rightarrow> 'e \<Rightarrow> DataAvailabilityHeader result" where
  "NewDataAvailabilityHeader d eds =
     bindR (d_rowRoots d eds) (\<lambda>rowRoots.
     bindR (d_colRoots d eds) (\<lambda>colRoots.
       let dah = \<lparr>RowRoots = rowRoots, ColumnRoots = colRoots, dah_hash = []\<rparr>
       in Inr (the (fst (Hash_dah d (Some dah))))))"

definition Equals_dah :: "'e dax \<Rightarrow> DataAvailabilityHeader option \<Rightarrow> DataAvailabilityHeader option \<Rightarrow> bool" where
  "Equals_dah d dah to \<longleftrightarrow> snd (Hash_dah d dah) = snd (Hash_dah d to)"

section \<open>Extending the square\<close>

definition ExtendShares :: "'e dax \<Rightarrow> bytes list \<Rightarrow> 'e result" where
  "ExtendShares d s =
     (if \<not> IsPowerOfTwo wrap_int (int (length s)) then Inl (Err ''number of shares is not a power of 2'')
      else bindR (da_SquareSize (int (length s))) (\<lambda>squareSize. d_compute d s (word_of_int squareSize)))"

section \<open>Validation and conversion\<close>

definition ValidateBasic_dah :: "'e dax \<Rightarrow> DataAvailabilityHeader option \<Rightarrow>
    DataAvailabilityHeader option \<times> unit result" where
  "ValidateBasic_dah d dah =
     (case dah of
        None \<Rightarrow> (None, Inl (Err ''nil data availability header is not valid''))
      | Some h \<Rightarrow>
          let rows = int (length (RowRoots h)); cols = int (length (ColumnRoots h)) in
          if cols < minExtendedSquareWidth \<or> rows < minExtendedSquareWidth
          then (dah, Inl (Err ''minimum valid DataAvailabilityHeader''))
          else if cols > maxExtendedSquareWidth \<or> rows > maxExtendedSquareWidth
          then (dah, Inl (Err ''maximum valid DataAvailabilityHeader''))
          else if cols \<noteq> rows then (dah, Inl (Err ''unequal number of row and column roots''))
          else
            let (dah, hash) = Hash_dah d dah in
            (dah, case d_validateHash d hash of Inl e \<Rightarrow> Inl (Err ''wrong hash'') | Inr _ \<Rightarrow> Inr ()))"

record protoDAH =
  p_RowRoots :: "bytes list"
  p_ColumnRoots :: "bytes list"

definition ToProto_dah :: "DataAvailabilityHeader option \<Rightarrow> protoDAH result" where
  "ToProto_dah dah =
     (case dah of
        None \<Rightarrow> Inl (Err ''nil DataAvailabilityHeader'')
      | Some h \<Rightarrow> Inr \<lparr>p_RowRoots = RowRoots h, p_ColumnRoots = ColumnRoots h\<rparr>)"

definition DataAvailabilityHeaderFromProto ::
    "'e dax \<Rightarrow> protoDAH option \<Rightarrow> DataAvailabilityHeader option \<times> unit result" where
  "DataAvailabilityHeaderFromProto d dahp =
     (case dahp of
        None \<Rightarrow> (None, Inl (Err ''nil DataAvailabilityHeader''))
      | Some p \<Rightarrow> ValidateBasic_dah d
          (Some \<lparr>RowRoots = p_RowRoots p, ColumnRoots = p_ColumnRoots p, dah_hash = []\<rparr>))"

definition IsZero_dah :: "DataAvailabilityHeader option \<Rightarrow> bool" where
  "IsZero_dah dah \<longleftrightarrow>
     (case dah of None \<Rightarrow> True | Some h \<Rightarrow> length (ColumnRoots h) = 0 \<or> length (RowRoots h) = 0)"

definition SquareSize_dah :: "DataAvailabilityHeader \<Rightarrow> int" where
  "SquareSize_dah dah = go_div (int (length (RowRoots dah))) 2"

definition MinShares :: "bytes list result" where
  "MinShares = bindR EmptySquareShares (\<lambda>s. Inr (ToBytes s))"

definition MinDataAvailabilityHeader :: "'e dax \<Rightarrow> DataAvailabilityHeader result" where
  "MinDataAvailabilityHeader d =
     bindR MinShares (\<lambda>s.
     bindR (panic_on_error (ExtendShares d s)) (\<lambda>eds.
       panic_on_error (NewDataAvailabilityHeader d eds)))"

section \<open>Properties\<close>

lemma hash_slices_eq: "length cols = length rows \<Longrightarrow> hash_slices rows cols = rows @ cols"
  by (simp add: hash_slices_def overwrite_def)

text \<open>The memo is transparent: a header is consistent when its memo is empty or its hash.\<close>

definition memo_ok :: "'e dax \<Rightarrow> DataAvailabilityHeader \<Rightarrow> bool" where
  "memo_ok d h \<longleftrightarrow> dah_hash h = [] \<or> dah_hash h = d_hash d (hash_slices (RowRoots h) (ColumnRoots h))"

lemma Hash_memo:
  assumes "memo_ok d h"
  shows "snd (Hash_dah d (Some h)) = d_hash d (hash_slices (RowRoots h) (ColumnRoots h))"
    and "\<exists>h'. fst (Hash_dah d (Some h)) = Some h' \<and> memo_ok d h'
      \<and> RowRoots h' = RowRoots h \<and> ColumnRoots h' = ColumnRoots h"
  using assms by (auto simp: Hash_dah_def memo_ok_def Let_def)

lemma New_dah:
  assumes "d_rowRoots d eds = Inr rows" "d_colRoots d eds = Inr cols"
  shows "NewDataAvailabilityHeader d eds =
    Inr \<lparr>RowRoots = rows, ColumnRoots = cols, dah_hash = d_hash d (hash_slices rows cols)\<rparr>"
  using assms by (simp add: NewDataAvailabilityHeader_def Hash_dah_def Let_def)

lemma FromProto_ToProto:
  assumes "memo_ok d h" "ValidateBasic_dah d (Some h) = (dah, Inr ())" "ToProto_dah (Some h) = Inr p"
  shows "\<exists>h'. DataAvailabilityHeaderFromProto d (Some p) = (Some h', Inr ())
    \<and> RowRoots h' = RowRoots h \<and> ColumnRoots h' = ColumnRoots h \<and> Equals_dah d (Some h) (Some h')"
  using assms Hash_memo(1) [OF assms(1)]
  by (auto simp: DataAvailabilityHeaderFromProto_def ToProto_dah_def ValidateBasic_dah_def Hash_dah_def
      Equals_dah_def Let_def memo_ok_def split: if_splits sum.splits)

lemma da_SquareSize_square:
  assumes "0 \<le> k" "k \<le> 2 ^ 62"
  shows "k = 2 ^ j \<Longrightarrow> da_SquareSize (k * k) = Inr k"
proof -
  assume k: "k = 2 ^ j"
  have le: "k * k \<le> 2 ^ 62 * 2 ^ 62" using assms by (intro mult_mono) auto
  have "min_square (k * k) \<le> k" using min_square_least [of "k * k" j] k by simp
  moreover have "k \<le> min_square (k * k)"
  proof (rule ccontr)
    assume "\<not> k \<le> min_square (k * k)"
    then have "min_square (k * k) * min_square (k * k) < k * k"
      by (intro mult_strict_mono) (auto intro: less_imp_le simp: k)
    then show False using min_square_fits [of "k * k"] by simp
  qed
  ultimately show ?thesis
    using BlobMinSquareSize_eq [of "k * k"] le by (simp add: da_SquareSize_def BlobMinSquareSize_def)
qed

lemma ExtendShares_square:
  assumes "length s = 2 ^ j * 2 ^ j" "j \<le> 31"
  shows "ExtendShares d s = d_compute d s (word_of_int (2 ^ j))"
proof -
  have "(2::int) ^ j \<le> 2 ^ 31" using assms(2) by (intro power_increasing) auto
  then have "(2::int) ^ j * 2 ^ j \<le> 2 ^ 31 * 2 ^ 31" by (intro mult_mono) auto
  then have "IsPowerOfTwo wrap_int (int (length s))"
    using assms(1) IsPowerOfTwo_int_iff [of "int (length s)"] by (auto simp: power_add [symmetric])
  moreover have "da_SquareSize (int (length s)) = Inr (2 ^ j)"
    using da_SquareSize_square [of "2 ^ j" j] assms(1) \<open>(2::int) ^ j \<le> 2 ^ 31\<close> by simp
  ultimately show ?thesis by (simp add: ExtendShares_def)
qed

end
