(* ===== verification/Proposal.thy ===== *)
theory Proposal
  imports PayForBlobs DataAvailability
begin

text \<open>
  \<^verbatim>\<open>app/abci_*.go\<close> and \<^verbatim>\<open>app/das_*.go\<close>: how a proposer turns the mempool into a block and a data root, and
  how a validator checks them. The record \<open>app\<close> holds what the methods of \<^verbatim>\<open>App\<close> use: the functions of
  other repositories, the \<^verbatim>\<open>BaseApp\<close> handlers, the ante handler, and the projections of an
  \<^verbatim>\<open>sdk.Context\<close> (type \<open>'c\<close>). The ante handler is given the bytes of the transaction, which determine the
  decoded one; it returns the new context with its error, as the Go function does.
\<close>

section \<open>Requests, responses and the application\<close>

record PrepareReq =
  pr_Txs :: "bytes list"
  pr_Height :: int
  pr_Time :: int

record PrepareResp =
  rp_Txs :: "bytes list"
  rp_DataHash :: bytes
  rp_SquareSize :: uint64

record ProcessReq =
  pq_Txs :: "bytes list"
  pq_Height :: int
  pq_Time :: int
  pq_SquareSize :: uint64
  pq_DataHash :: bytes

datatype ProposalStatus = ACCEPT | REJECT

record ('c, 'e) app =
  ap_sq :: ext
  ap_pf :: pfx
  ap_da :: "'e dax"
  ap_basePrepare :: "PrepareReq \<Rightarrow> bytes list result"
  ap_baseProcess :: "ProcessReq \<Rightarrow> (ProposalStatus \<times> string option) result"
  ap_newContext :: "int \<Rightarrow> int \<Rightarrow> 'c"
  ap_handler :: "'c \<Rightarrow> bytes \<Rightarrow> 'c \<times> unit result"
  ap_store :: "'c \<Rightarrow> blob_store"
  ap_ctxHeight :: "'c \<Rightarrow> int"
  ap_ctxVersion :: "'c \<Rightarrow> uint64"
  ap_LastBlockHeight :: int
  ap_AppVersion :: uint64

definition GovSquareSizeUpperBound :: "('c, 'e) app \<Rightarrow> 'c \<Rightarrow> int" where
  "GovSquareSizeUpperBound app ctx =
     (if ap_ctxHeight app ctx \<le> 1 then DefaultGovMaxSquareSize
      else
        let gmax = sint (GovMaxSquareSize (GetParams_blob (ap_store app ctx)));
            hardMax = SquareSizeUpperBound (ap_ctxVersion app ctx)
        in min gmax hardMax)"

section \<open>Filtering the transactions\<close>

definition separateTxs :: "ext \<Rightarrow> bytes list \<Rightarrow> bytes list \<times> BlobTx list" where
  "separateTxs x rawTxs =
     foldl (\<lambda>(normalTxs, blobTxs) rawTx.
       let (bTx, isBlob) = UnmarshalBlobTx (x_unmarshal x) rawTx in
       if isBlob then (normalTxs, blobTxs @ [bTx]) else (normalTxs @ [rawTx], blobTxs)) ([], []) rawTxs"

text \<open>
  A transaction that does not decode or that the handler refuses is dropped; the context the handler
  returned is kept in both cases. A panic of the handler is not caught.
\<close>

fun filterStdTxs :: "('c, 'e) app \<Rightarrow> 'c \<Rightarrow> bytes list \<Rightarrow> (bytes list \<times> 'c) result" where
  "filterStdTxs app ctx [] = Inr ([], ctx)"
| "filterStdTxs app ctx (tx # txs) =
     (case p_decoder (ap_pf app) tx of
        Inl (Err _) \<Rightarrow> filterStdTxs app ctx txs
      | Inl f \<Rightarrow> Inl f
      | Inr _ \<Rightarrow>
          (case ap_handler app ctx tx of
             (ctx, Inl (Err _)) \<Rightarrow> filterStdTxs app ctx txs
           | (ctx, Inl f) \<Rightarrow> Inl f
           | (ctx, Inr _) \<Rightarrow> bindR (filterStdTxs app ctx txs) (\<lambda>(kept, ctx). Inr (tx # kept, ctx))))"

fun filterBlobTxs :: "('c, 'e) app \<Rightarrow> 'c \<Rightarrow> BlobTx list \<Rightarrow> (BlobTx list \<times> 'c) result" where
  "filterBlobTxs app ctx [] = Inr ([], ctx)"
| "filterBlobTxs app ctx (tx # txs) =
     (case p_decoder (ap_pf app) (btx_Tx tx) of
        Inl (Err _) \<Rightarrow> filterBlobTxs app ctx txs
      | Inl f \<Rightarrow> Inl f
      | Inr _ \<Rightarrow>
          (case ap_handler app ctx (btx_Tx tx) of
             (ctx, Inl (Err _)) \<Rightarrow> filterBlobTxs app ctx txs
           | (ctx, Inl f) \<Rightarrow> Inl f
           | (ctx, Inr _) \<Rightarrow> bindR (filterBlobTxs app ctx txs) (\<lambda>(kept, ctx). Inr (tx # kept, ctx))))"

definition encodeBlobTxs :: "ext \<Rightarrow> BlobTx list \<Rightarrow> bytes list result" where
  "encodeBlobTxs x blobTxs =
     mapR (\<lambda>tx. panic_on_error (MarshalBlobTx (x_marshal x) (btx_Tx tx) (btx_Blobs tx))) blobTxs"

definition FilterTxs :: "('c, 'e) app \<Rightarrow> 'c \<Rightarrow> bytes list \<Rightarrow> bytes list result" where
  "FilterTxs app ctx txs =
     (let (normalTxs, blobTxs) = separateTxs (ap_sq app) txs in
      bindR (filterStdTxs app ctx normalTxs) (\<lambda>(normalTxs, ctx).
      bindR (filterBlobTxs app ctx blobTxs) (\<lambda>(blobTxs, _).
      bindR (encodeBlobTxs (ap_sq app) blobTxs) (\<lambda>encoded. Inr (normalTxs @ encoded)))))"

section \<open>Preparing a proposal\<close>

definition PrepareProposal :: "('c, 'e) app \<Rightarrow> PrepareReq \<Rightarrow> PrepareResp result" where
  "PrepareProposal app req =
     bindR (panic_on_error (ap_basePrepare app req)) (\<lambda>resTxs.
     let sdkCtx = ap_newContext app (pr_Height req) (pr_Time req) in
     bindR (if ap_LastBlockHeight app = 0 then Inr [] else FilterTxs app sdkCtx resTxs) (\<lambda>txs.
     bindR (panic_on_error (Build (ap_sq app) txs (ap_AppVersion app) (GovSquareSizeUpperBound app sdkCtx)))
       (\<lambda>(dataSquare, txs).
     bindR (panic_on_error (ExtendShares (ap_da app) (ToBytes dataSquare))) (\<lambda>eds.
     bindR (panic_on_error (NewDataAvailabilityHeader (ap_da app) eds)) (\<lambda>dah.
     bindR (Size_sq dataSquare) (\<lambda>s.
       Inr \<lparr>rp_Txs = txs, rp_DataHash = snd (Hash_dah (ap_da app) (Some dah)),
            rp_SquareSize = word_of_int s\<rparr>))))))"

section \<open>Processing a proposal\<close>

definition hasPFB :: "sdkMsg list \<Rightarrow> bool" where
  "hasPFB msgs \<longleftrightarrow> list_ex (\<lambda>m. case m of PFB _ \<Rightarrow> True | OtherMsg \<Rightarrow> False) msgs"

text \<open>The loop over the block's transactions; its result is the context after the ante handlers.\<close>

fun process_txs :: "('c, 'e) app \<Rightarrow> 'c \<Rightarrow> bytes list \<Rightarrow> 'c result" where
  "process_txs app ctx [] = Inr ctx"
| "process_txs app ctx (rawTx # txs) =
     (let (blobTx, isBlobTx) = UnmarshalBlobTx (x_unmarshal (ap_sq app)) rawTx;
          tx = (if isBlobTx then btx_Tx blobTx else rawTx)
      in (case p_decoder (ap_pf app) tx of
            Inl (Err _) \<Rightarrow> process_txs app ctx txs
          | Inl f \<Rightarrow> Inl f
          | Inr msgs \<Rightarrow>
              if \<not> isBlobTx then
                if hasPFB msgs then Inl (Err ''tx has PFB but is not a blob tx'')
                else (case ap_handler app ctx tx of
                        (ctx, Inl e) \<Rightarrow> Inl e
                      | (ctx, Inr _) \<Rightarrow> process_txs app ctx txs)
              else
                bindR (ValidateBlobTx (ap_pf app) blobTx) (\<lambda>_.
                  (case ap_handler app ctx tx of
                     (ctx, Inl e) \<Rightarrow> Inl e
                   | (ctx, Inr _) \<Rightarrow> process_txs app ctx txs))))"

text \<open>
  The body after the base application's check: \<open>Inr\<close> is \<^verbatim>\<open>accept()\<close>, an error is \<^verbatim>\<open>reject(err)\<close>.
\<close>

definition check_data_root :: "('c, 'e) app \<Rightarrow> ProcessReq \<Rightarrow> Square \<Rightarrow> unit result" where
  "check_data_root app req dataSquare =
     bindR (Size_sq dataSquare) (\<lambda>s.
       if word_of_int s \<noteq> pq_SquareSize req
       then Inl (Err ''proposed square size differs from calculated square size'')
       else
         bindR (ExtendShares (ap_da app) (ToBytes dataSquare)) (\<lambda>eds.
         bindR (NewDataAvailabilityHeader (ap_da app) eds) (\<lambda>dah.
           if snd (Hash_dah (ap_da app) (Some dah)) \<noteq> pq_DataHash req
           then Inl (Err ''proposed data root differs from calculated data root'')
           else Inr ())))"

definition process_block :: "('c, 'e) app \<Rightarrow> ProcessReq \<Rightarrow> unit result" where
  "process_block app req =
     (let sdkCtx = ap_newContext app (pq_Height req) (pq_Time req) in
      if length (pq_Txs req) = 0 then Inr ()
      else
        bindR (process_txs app sdkCtx (pq_Txs req)) (\<lambda>sdkCtx.
        bindR (Construct (ap_sq app) (pq_Txs req) (ap_AppVersion app) (GovSquareSizeUpperBound app sdkCtx))
          (check_data_root app req)))"

definition recover_panic :: "(ProposalStatus \<times> string option) result \<Rightarrow> (ProposalStatus \<times> string option) result" where
  "recover_panic r = (case r of Inl (Panic m) \<Rightarrow> Inr (REJECT, Some m) | _ \<Rightarrow> r)"

definition ProcessProposal :: "('c, 'e) app \<Rightarrow> ProcessReq \<Rightarrow> (ProposalStatus \<times> string option) result" where
  "ProcessProposal app req =
     recover_panic (bindR (ap_baseProcess app req) (\<lambda>(res, err).
       (case err of
          Some e \<Rightarrow> Inr (res, err)
        | None \<Rightarrow>
            (case process_block app req of
               Inr _ \<Rightarrow> Inr (ACCEPT, None)
             | Inl (Err e) \<Rightarrow> Inr (REJECT, Some e)
             | Inl f \<Rightarrow> Inl f))))"

section \<open>Checking a transaction and executing a block\<close>

datatype CheckTxType = CheckTxType_New | CheckTxType_Recheck | CheckTxType_Other

text \<open>\<open>handler\<close> is \<^verbatim>\<open>app.checkTxHandler\<close>, applied to the transaction the request is rewritten to.\<close>

definition CheckTx :: "('c, 'e) app \<Rightarrow> (bytes \<Rightarrow> 'r result) \<Rightarrow> CheckTxType \<Rightarrow> bytes \<Rightarrow> 'r result" where
  "CheckTx app handler ty tx =
     (let (btx, isBlob) = UnmarshalBlobTx (x_unmarshal (ap_sq app)) tx in
      if \<not> isBlob then
        bindR (p_decoder (ap_pf app) tx) (\<lambda>msgs.
          if hasPFB msgs then Inl (Err ''no blobs provided'') else handler tx)
      else
        (case ty of
           CheckTxType_New \<Rightarrow> bindR (ValidateBlobTx (ap_pf app) btx) (\<lambda>_. handler (btx_Tx btx))
         | CheckTxType_Recheck \<Rightarrow> handler (btx_Tx btx)
         | CheckTxType_Other \<Rightarrow> Inl (Panic ''unknown RequestCheckTx type'')))"

definition FinalizeBlock :: "('c, 'e) app \<Rightarrow> (bytes list \<Rightarrow> 'r) \<Rightarrow> bytes list \<Rightarrow> 'r" where
  "FinalizeBlock app base reqTxs =
     base (map (\<lambda>rawTx. let (blobTx, isBlobTx) = UnmarshalBlobTx (x_unmarshal (ap_sq app)) rawTx in
       if isBlobTx then btx_Tx blobTx else rawTx) reqTxs)"

definition ExtendBlock :: "('c, 'e) app \<Rightarrow> bytes list \<Rightarrow> uint64 \<Rightarrow> 'e result" where
  "ExtendBlock app txs appVersion =
     bindR (Construct (ap_sq app) txs appVersion (SquareSizeUpperBound appVersion)) (\<lambda>dataSquare.
       ExtendShares (ap_da app) (ToBytes dataSquare))"

definition IsEmptyBlock :: "bytes list \<Rightarrow> bool" where
  "IsEmptyBlock txs \<longleftrightarrow> length txs = 0"

section \<open>Proposer and validators\<close>

lemma GovBound_small: "GovSquareSizeUpperBound app ctx < 2 ^ 31"
proof -
  have "SquareSizeUpperBound v < 2 ^ 31" for v using SquareSizeUpperBound_cases [of v] by auto
  then show ?thesis
    by (simp add: GovSquareSizeUpperBound_def Let_def min_less_iff_disj)
qed

lemma panic_on_error_Inr [result_simps]: "panic_on_error m = Inr x \<longleftrightarrow> m = Inr x"
  by (auto simp: panic_on_error_def split: sum.splits fault.splits)

lemma honest_proposal_accepted:
  assumes prep: "PrepareProposal app req = Inr resp"
    and base: "ap_baseProcess app preq = Inr (res, None)"
    and preq: "pq_Txs preq = rp_Txs resp" "pq_Height preq = pr_Height req" "pq_Time preq = pr_Time req"
      "pq_SquareSize preq = rp_SquareSize resp" "pq_DataHash preq = rp_DataHash resp"
    and txs: "process_txs app (ap_newContext app (pr_Height req) (pr_Time req)) (rp_Txs resp) = Inr ctx"
      "GovSquareSizeUpperBound app ctx = GovSquareSizeUpperBound app (ap_newContext app (pr_Height req) (pr_Time req))"
  shows "ProcessProposal app preq = Inr (ACCEPT, None)"
proof -
  let ?ctx = "ap_newContext app (pr_Height req) (pr_Time req)"
  obtain txs0 sq txs eds dah s where
      build: "Build (ap_sq app) txs0 (ap_AppVersion app) (GovSquareSizeUpperBound app ?ctx) = Inr (sq, txs)"
    and eds: "ExtendShares (ap_da app) (ToBytes sq) = Inr eds" "NewDataAvailabilityHeader (ap_da app) eds = Inr dah"
      "Size_sq sq = Inr s"
    and resp: "resp = \<lparr>rp_Txs = txs, rp_DataHash = snd (Hash_dah (ap_da app) (Some dah)), rp_SquareSize = word_of_int s\<rparr>"
    using prep by (auto simp: PrepareProposal_def Let_def result_simps)
  have "Construct (ap_sq app) txs (ap_AppVersion app) (GovSquareSizeUpperBound app ctx) = Inr sq"
    using Construct_of_Build [OF GovBound_small build] txs(2) by simp
  moreover have "check_data_root app preq sq = Inr ()"
    using eds resp preq by (simp add: check_data_root_def)
  ultimately have "process_block app preq = Inr ()"
    using txs(1) preq resp by (simp add: process_block_def Let_def)
  then show ?thesis using base by (simp add: ProcessProposal_def recover_panic_def)
qed

text \<open>What acceptance means for a block with transactions.\<close>

lemma accepted_proposal:
  assumes "ProcessProposal app preq = Inr (ACCEPT, None)" "ap_baseProcess app preq = Inr (res, None)"
    "pq_Txs preq \<noteq> []"
  shows "\<exists>ctx sq eds rows cols s.
    process_txs app (ap_newContext app (pq_Height preq) (pq_Time preq)) (pq_Txs preq) = Inr ctx
    \<and> Construct (ap_sq app) (pq_Txs preq) (ap_AppVersion app) (GovSquareSizeUpperBound app ctx) = Inr sq
    \<and> Size_sq sq = Inr s \<and> pq_SquareSize preq = word_of_int s
    \<and> ExtendShares (ap_da app) (ToBytes sq) = Inr eds
    \<and> d_rowRoots (ap_da app) eds = Inr rows \<and> d_colRoots (ap_da app) eds = Inr cols
    \<and> pq_DataHash preq = d_hash (ap_da app) (hash_slices rows cols)"
proof -
  have "process_block app preq = Inr ()"
    using assms(1,2)
    by (auto simp: ProcessProposal_def recover_panic_def split: sum.splits fault.splits)
  then obtain ctx sq eds dah s where b: "process_txs app (ap_newContext app (pq_Height preq) (pq_Time preq)) (pq_Txs preq) = Inr ctx"
      "Construct (ap_sq app) (pq_Txs preq) (ap_AppVersion app) (GovSquareSizeUpperBound app ctx) = Inr sq"
      "Size_sq sq = Inr s" "word_of_int s = pq_SquareSize preq" "ExtendShares (ap_da app) (ToBytes sq) = Inr eds"
      "NewDataAvailabilityHeader (ap_da app) eds = Inr dah"
      "snd (Hash_dah (ap_da app) (Some dah)) = pq_DataHash preq"
    using assms(3) by (auto simp: process_block_def check_data_root_def Let_def result_simps split: if_splits)
  obtain rows cols where r: "d_rowRoots (ap_da app) eds = Inr rows" "d_colRoots (ap_da app) eds = Inr cols"
    using b(6) by (auto simp: NewDataAvailabilityHeader_def result_simps)
  have "memo_ok (ap_da app) dah" "RowRoots dah = rows" "ColumnRoots dah = cols"
    using New_dah [OF r] b(6) by (auto simp: memo_ok_def)
  then have "pq_DataHash preq = d_hash (ap_da app) (hash_slices rows cols)"
    using Hash_memo(1) b(7) by metis
  then show ?thesis using b r by metis
qed

lemma empty_block_accepted:
  assumes "ap_baseProcess app preq = Inr (res, None)" "pq_Txs preq = []"
  shows "ProcessProposal app preq = Inr (ACCEPT, None)"
  using assms by (simp add: ProcessProposal_def process_block_def recover_panic_def)

end
