(* ===== verification/ProposalLive.thy ===== *)
theory ProposalLive
  imports Proposal SquareDeconstruct
begin

text \<open>
  A proposer with a valid mempool always has a block: \<^verbatim>\<open>PrepareProposal\<close> filters the transactions, builds
  the square, extends it and returns its data root, and none of the steps that would make it panic can
  fail.
\<close>

section \<open>What the proposer relies on\<close>

definition no_crash :: "'a result \<Rightarrow> bool" where
  "no_crash r \<longleftrightarrow> (case r of Inl (Err _) \<Rightarrow> True | Inl _ \<Rightarrow> False | Inr _ \<Rightarrow> True)"

text \<open>
  A transaction as \<^verbatim>\<open>CheckTx\<close> admits it: a blob transaction is valid, its blobs are not longer than what
  \<^verbatim>\<open>SparseSharesNeeded\<close> handles, and its encoding decodes to it.
\<close>

definition mempool_ok :: "('c, 'e) app \<Rightarrow> bytes \<Rightarrow> bool" where
  "mempool_ok app tx \<longleftrightarrow>
     (is_blob_tx (ap_sq app) tx \<longrightarrow>
        (let btx = decode (ap_sq app) tx in
         ValidateBlobTx (ap_pf app) btx = Inr ()
         \<and> (\<forall>b\<in>set (btx_Blobs btx). length (blob_Data b) \<le> MaxSparseLen)
         \<and> (\<exists>tx'. MarshalBlobTx (x_marshal (ap_sq app)) (btx_Tx btx) (btx_Blobs btx) = Inr tx'
               \<and> x_unmarshal (ap_sq app) tx'
                 = Inr \<lparr>btx_Tx = btx_Tx btx, btx_Blobs = btx_Blobs btx, btx_TypeId = ProtoBlobTxTypeID\<rparr>)))"

text \<open>
  The erasure coding extends every square of full shares in the order of their namespaces, of a side
  that is a power of two of at most 512, and has the roots of its rows and columns.
\<close>

definition extends_squares :: "'e dax \<Rightarrow> bool" where
  "extends_squares d \<longleftrightarrow>
     (\<forall>s j. j \<le> 9 \<longrightarrow> length s = 2 ^ j * 2 ^ j \<longrightarrow> (\<forall>sh\<in>set s. length sh = 512)
        \<longrightarrow> sorted (map (take NamespaceSize) s)
        \<longrightarrow> (\<exists>eds rows cols. d_compute d s (word_of_int (2 ^ j)) = Inr eds
              \<and> d_rowRoots d eds = Inr rows \<and> d_colRoots d eds = Inr cols))"

section \<open>Filtering\<close>

lemma mapR_total:
  assumes "\<forall>v\<in>set vs. \<exists>w. f v = Inr w \<and> P w"
  shows "\<exists>ws. mapR f vs = Inr ws \<and> (\<forall>w\<in>set ws. P w)"
  using assms
proof (induction vs)
  case (Cons v vs)
  then obtain w ws where "f v = Inr w" "P w" "mapR f vs = Inr ws" "\<forall>w\<in>set ws. P w" by auto
  then show ?case by simp
qed simp

definition admitted :: "BlobTx \<Rightarrow> bool" where
  "admitted btx \<longleftrightarrow> accepted btx \<and> (\<forall>b\<in>set (btx_Blobs btx). \<not> IsReserved (Namespace_blob b))"

lemma ValidateBlobTx_admitted:
  assumes "ValidateBlobTx p btx = Inr ()" "\<forall>b\<in>set (btx_Blobs btx). length (blob_Data b) \<le> MaxSparseLen"
  shows "admitted btx"
  using ValidateBlobTx_accepted [OF assms] assms(1)
  by (auto simp: admitted_def ValidateBlobTx_iff pays_for_def blob_ok_def)

lemma separateTxs_eq:
  "separateTxs x txs = (filter (\<lambda>tx. \<not> is_blob_tx x tx) txs, map (decode x) (filter (is_blob_tx x) txs))"
proof -
  have "foldl (\<lambda>(normalTxs, blobTxs) rawTx.
       let (bTx, isBlob) = UnmarshalBlobTx (x_unmarshal x) rawTx in
       if isBlob then (normalTxs, blobTxs @ [bTx]) else (normalTxs @ [rawTx], blobTxs)) (ns, bs) txs
    = (ns @ filter (\<lambda>tx. \<not> is_blob_tx x tx) txs, bs @ map (decode x) (filter (is_blob_tx x) txs))" for ns bs
    by (induction txs arbitrary: ns bs) (auto simp: Let_def split: prod.splits)
  from this [of "[]" "[]"] show ?thesis by (simp add: separateTxs_def)
qed

text \<open>
  Both filters keep an element when the transaction \<open>f t\<close> it stands for decodes and the handler does not
  refuse it, and hand the handler's context on in either case.
\<close>

fun keep :: "('c, 'e) app \<Rightarrow> ('t \<Rightarrow> bytes) \<Rightarrow> 'c \<Rightarrow> 't list \<Rightarrow> 't list \<times> 'c" where
  "keep app f ctx [] = ([], ctx)"
| "keep app f ctx (t # ts) =
     (case p_decoder (ap_pf app) (f t) of
        Inl _ \<Rightarrow> keep app f ctx ts
      | Inr _ \<Rightarrow>
          let (ctx', r) = ap_handler app ctx (f t); (kept, ctx'') = keep app f ctx' ts
          in (if isl r then kept else t # kept, ctx''))"

lemma keep_subset: "set (fst (keep app f ctx ts)) \<subseteq> set ts"
proof (induction ts arbitrary: ctx)
  case (Cons t ts)
  show ?case
  proof (cases "p_decoder (ap_pf app) (f t)")
    case (Inr v)
    then show ?thesis using Cons.IH [of "fst (ap_handler app ctx (f t))"] by (auto simp: Let_def split: prod.splits)
  qed (use Cons.IH [of ctx] in auto)
qed simp

definition runs_without_crash :: "('c, 'e) app \<Rightarrow> bool" where
  "runs_without_crash app \<longleftrightarrow>
     (\<forall>tx. no_crash (p_decoder (ap_pf app) tx)) \<and> (\<forall>ctx tx. no_crash (snd (ap_handler app ctx tx)))"

lemma no_crash_cases:
  assumes "no_crash r"
  obtains e where "r = Inl (Err e)" | v where "r = Inr v"
  using assms by (auto simp: no_crash_def split: sum.splits fault.splits)

lemma filterStdTxs_keep:
  assumes "runs_without_crash app"
  shows "filterStdTxs app ctx txs = Inr (keep app (\<lambda>tx. tx) ctx txs)"
proof (induction txs arbitrary: ctx)
  case (Cons tx txs)
  obtain c r where h: "ap_handler app ctx tx = (c, r)" by force
  have "no_crash (p_decoder (ap_pf app) tx)" "no_crash r"
    using assms h by (auto simp: runs_without_crash_def dest!: spec [of _ ctx] spec [of _ tx])
  with h Cons show ?case by (elim no_crash_cases) (auto split: prod.splits)
qed simp

lemma filterBlobTxs_keep:
  assumes "runs_without_crash app"
  shows "filterBlobTxs app ctx txs = Inr (keep app btx_Tx ctx txs)"
proof (induction txs arbitrary: ctx)
  case (Cons tx txs)
  obtain c r where h: "ap_handler app ctx (btx_Tx tx) = (c, r)" by force
  have "no_crash (p_decoder (ap_pf app) (btx_Tx tx))" "no_crash r"
    using assms h by (auto simp: runs_without_crash_def dest!: spec [of _ ctx] spec [of _ "btx_Tx tx"])
  with h Cons show ?case by (elim no_crash_cases) (auto split: prod.splits)
qed simp

lemma encoded_admitted:
  assumes "mempool_ok app tx" "is_blob_tx (ap_sq app) tx"
  shows "\<exists>tx'. MarshalBlobTx (x_marshal (ap_sq app)) (btx_Tx (decode (ap_sq app) tx)) (btx_Blobs (decode (ap_sq app) tx)) = Inr tx'
    \<and> admitted (decode (ap_sq app) tx')"
proof -
  let ?b = "decode (ap_sq app) tx"
  obtain tx' where tx': "MarshalBlobTx (x_marshal (ap_sq app)) (btx_Tx ?b) (btx_Blobs ?b) = Inr tx'"
      "x_unmarshal (ap_sq app) tx' = Inr \<lparr>btx_Tx = btx_Tx ?b, btx_Blobs = btx_Blobs ?b, btx_TypeId = ProtoBlobTxTypeID\<rparr>"
    and v: "ValidateBlobTx (ap_pf app) ?b = Inr ()" "\<forall>b\<in>set (btx_Blobs ?b). length (blob_Data b) \<le> MaxSparseLen"
    using assms unfolding mempool_ok_def Let_def by blast
  have "decode (ap_sq app) tx'
      = \<lparr>btx_Tx = btx_Tx ?b, btx_Blobs = btx_Blobs ?b, btx_TypeId = ProtoBlobTxTypeID\<rparr>"
    using tx'(2) by (simp add: UnmarshalBlobTx_def)
  then show ?thesis using tx'(1) ValidateBlobTx_admitted [OF v] by (simp add: admitted_def accepted_def)
qed

lemma encodeBlobTxs_total:
  assumes "set btxs \<subseteq> decode (ap_sq app) ` set (filter (is_blob_tx (ap_sq app)) txs)"
    "\<forall>tx\<in>set txs. mempool_ok app tx"
  shows "\<exists>enc. encodeBlobTxs (ap_sq app) btxs = Inr enc \<and> (\<forall>tx\<in>set enc. admitted (decode (ap_sq app) tx))"
  unfolding encodeBlobTxs_def
proof (rule mapR_total, intro ballI)
  fix btx assume "btx \<in> set btxs"
  then obtain tx where "btx = decode (ap_sq app) tx" "mempool_ok app tx" "is_blob_tx (ap_sq app) tx"
    using assms by auto
  with encoded_admitted [of app tx] show "\<exists>w. panic_on_error (MarshalBlobTx (x_marshal (ap_sq app)) (btx_Tx btx) (btx_Blobs btx)) = Inr w
      \<and> admitted (decode (ap_sq app) w)"
    by (simp add: panic_on_error_Inr)
qed

lemma FilterTxs_total:
  assumes "runs_without_crash app" "\<forall>tx\<in>set txs. mempool_ok app tx"
  shows "\<exists>txs'. FilterTxs app ctx txs = Inr txs'
    \<and> (\<forall>tx\<in>set txs'. is_blob_tx (ap_sq app) tx \<longrightarrow> admitted (decode (ap_sq app) tx))"
proof -
  let ?x = "ap_sq app"
  obtain ns c where n: "keep app (\<lambda>tx. tx) ctx (filter (\<lambda>tx. \<not> is_blob_tx ?x tx) txs) = (ns, c)" by force
  obtain bs c' where b: "keep app btx_Tx c (map (decode ?x) (filter (is_blob_tx ?x) txs)) = (bs, c')" by force
  have "set bs \<subseteq> decode ?x ` set (filter (is_blob_tx ?x) txs)"
    using keep_subset [of app btx_Tx c "map (decode ?x) (filter (is_blob_tx ?x) txs)"] b by simp
  then obtain enc where enc: "encodeBlobTxs ?x bs = Inr enc" "\<forall>tx\<in>set enc. admitted (decode ?x tx)"
    using encodeBlobTxs_total assms(2) by blast
  have "set ns \<subseteq> set (filter (\<lambda>tx. \<not> is_blob_tx ?x tx) txs)"
    using keep_subset [of app "\<lambda>tx. tx" ctx "filter (\<lambda>tx. \<not> is_blob_tx ?x tx) txs"] n by simp
  then have "\<forall>tx\<in>set (ns @ enc). is_blob_tx ?x tx \<longrightarrow> admitted (decode ?x tx)" using enc(2) by auto
  moreover have "FilterTxs app ctx txs = Inr (ns @ enc)"
    using enc(1) n b by (simp add: FilterTxs_def separateTxs_eq filterStdTxs_keep [OF assms(1)]
        filterBlobTxs_keep [OF assms(1)])
  ultimately show ?thesis by blast
qed

section \<open>The square of a proposal\<close>

text \<open>The square of a block is ready for the namespaced trees.\<close>

lemma layout_ready:
  assumes "block_layout x txs btxs pfbs g" "\<forall>btx\<in>set btxs. \<forall>b\<in>set (btx_Blobs btx). \<not> IsReserved (Namespace_blob b)"
  shows "\<forall>s\<in>set (regions_square g). length (share_data s) = 512" "sorted (map (\<lambda>s. take NamespaceSize (share_data s)) (regions_square g))"
proof -
  from square_namespaces [OF assms] obtain nss where
      nss: "list_all2 (\<lambda>s n. Namespace_sh s = Inr n) (regions_square g) nss" "sorted nss"
      "\<forall>s\<in>set (regions_square g). length (share_data s) = 512" .
  then show "\<forall>s\<in>set (regions_square g). length (share_data s) = 512" by blast
  have "map (\<lambda>s. take NamespaceSize (share_data s)) (regions_square g) = map Bytes_ns nss"
    using nss(1,3) by (auto simp: list_all2_conv_all_nth Namespace_sh_def From_ns_iff intro!: nth_equalityI)
  moreover have "sorted (map Bytes_ns nss)"
    using nss(2) by (simp add: sorted_map less_eq_Namespace_def [abs_def])
  ultimately show "sorted (map (\<lambda>s. take NamespaceSize (share_data s)) (regions_square g))" by simp
qed

lemma square_extends:
  assumes m: "m = 2 ^ k" "m \<le> SquareSizeUpperBound v" and ok: "iw_codec_ok x" "extends_squares d"
    and txs: "\<forall>tx\<in>set txs. is_blob_tx x tx \<longrightarrow> admitted (decode x tx)"
  shows "\<exists>sq txs' s eds rows cols. Build x txs v m = Inr (sq, txs') \<and> Size_sq sq = Inr (2 ^ s) \<and> (2::int) ^ s \<le> m
    \<and> ExtendShares d (ToBytes sq) = Inr eds \<and> d_rowRoots d eds = Inr rows \<and> d_colRoots d eds = Inr cols"
proof -
  have "all_accepted x txs" using txs by (auto simp: all_accepted_def admitted_def)
  from Build_total [OF m this ok(1)] obtain normal blob g pfbs s where
      build: "Build x txs v m = Inr (regions_square g, normal @ blob)"
      "subseq blob (filter (is_blob_tx x) txs)" "block_layout x normal (map (decode x) blob) pfbs g"
      "length (regions_square g) = 2 ^ s * 2 ^ s" "(2::int) ^ s \<le> m" by blast
  have "set blob \<subseteq> set (filter (is_blob_tx x) txs)"
    using build(2) by (metis notin_set_nthsI subseq_conv_nths subsetI)
  then have "\<forall>btx\<in>set (map (decode x) blob). \<forall>b\<in>set (btx_Blobs btx). \<not> IsReserved (Namespace_blob b)"
    using txs by (auto simp: admitted_def)
  note ready = layout_ready [OF build(3) this]
  then have sorted: "sorted (map (take NamespaceSize) (ToBytes (regions_square g)))" by (simp add: ToBytes_def comp_def)
  have "(2::int) ^ s \<le> 2 ^ 9" using build(5) m(2) SquareSizeUpperBound_cases [of v] by auto
  then have s9: "s \<le> 9" by (rule power_le_imp_le_exp [rotated]) simp
  have "Size_sq (regions_square g) = Inr (2 ^ s)"
    using da_SquareSize_square [of "2 ^ s" s] build(4) \<open>(2::int) ^ s \<le> 2 ^ 9\<close> by (simp add: Size_sq_def)
  moreover have "ExtendShares d (ToBytes (regions_square g)) = d_compute d (ToBytes (regions_square g)) (word_of_int (2 ^ s))"
    using build(4) s9 by (intro ExtendShares_square) (simp_all add: ToBytes_def)
  moreover have "length (ToBytes (regions_square g)) = 2 ^ s * 2 ^ s" "\<forall>sh\<in>set (ToBytes (regions_square g)). length sh = 512"
    using build(4) ready(1) by (auto simp: ToBytes_def)
  then obtain eds rows cols where "d_compute d (ToBytes (regions_square g)) (word_of_int (2 ^ s)) = Inr eds"
      "d_rowRoots d eds = Inr rows" "d_colRoots d eds = Inr cols"
    using ok(2) s9 sorted unfolding extends_squares_def by blast
  ultimately show ?thesis using build(1,5) by auto
qed

lemma sint_uint64: "0 \<le> n \<Longrightarrow> n < 2 ^ 63 \<Longrightarrow> sint (word_of_int n :: uint64) = n"
  by (simp add: sint_uint uint_word_of_int take_bit_int_eq_self signed_take_bit_int_eq_self)

lemma GovBound_pow2:
  assumes "ap_ctxVersion app ctx = 0" "GovMaxSquareSize (GetParams_blob (ap_store app ctx)) = word_of_int (2 ^ k)" "k \<le> 62"
  shows "\<exists>j. GovSquareSizeUpperBound app ctx = 2 ^ j \<and> GovSquareSizeUpperBound app ctx \<le> SquareSizeUpperBound v"
proof -
  have "(2::int) ^ k < 2 ^ 63" using assms(3) by (intro power_strict_increasing) auto
  then have "sint (word_of_int (2 ^ k) :: uint64) = 2 ^ k" by (intro sint_uint64) auto
  moreover have "SquareSizeUpperBound 0 = 2 ^ 7" by code_simp
  moreover have "(2::int) ^ k \<le> 128 \<longleftrightarrow> k \<le> 7" using power_increasing_iff [of "2::int" k 7] by simp
  ultimately have "GovSquareSizeUpperBound app ctx = 2 ^ min k 7"
      if "\<not> ap_ctxHeight app ctx \<le> 1"
    using that assms(1,2) by (simp add: GovSquareSizeUpperBound_def Let_def min_def)
  moreover have "GovSquareSizeUpperBound app ctx = 2 ^ 6" if "ap_ctxHeight app ctx \<le> 1"
    using that by (simp add: GovSquareSizeUpperBound_def DefaultGovMaxSquareSize_def)
  moreover have "(2::int) ^ min k 7 \<le> 2 ^ 7" by (intro power_increasing) auto
  ultimately show ?thesis using SquareSizeUpperBound_cases [of v] by fastforce
qed

lemma PrepareProposal_total:
  assumes base: "ap_basePrepare app req = Inr txs" "\<forall>tx\<in>set txs. mempool_ok app tx"
    and run: "runs_without_crash app" "iw_codec_ok (ap_sq app)" "extends_squares (ap_da app)"
    and gov: "ap_ctxVersion app (ap_newContext app (pr_Height req) (pr_Time req)) = 0"
      "GovMaxSquareSize (GetParams_blob (ap_store app (ap_newContext app (pr_Height req) (pr_Time req))))
        = word_of_int (2 ^ k)" "k \<le> 62"
  shows "\<exists>resp s. PrepareProposal app req = Inr resp \<and> rp_SquareSize resp = word_of_int (2 ^ s)
    \<and> (2::int) ^ s \<le> SquareSizeUpperBound (ap_AppVersion app)"
proof -
  let ?ctx = "ap_newContext app (pr_Height req) (pr_Time req)"
  obtain txs' where txs': "(if ap_LastBlockHeight app = 0 then Inr [] else FilterTxs app ?ctx txs) = Inr txs'"
      "\<forall>tx\<in>set txs'. is_blob_tx (ap_sq app) tx \<longrightarrow> admitted (decode (ap_sq app) tx)"
    using FilterTxs_total [OF run(1) base(2), of ?ctx] by (cases "ap_LastBlockHeight app = 0") auto
  obtain j where j: "GovSquareSizeUpperBound app ?ctx = 2 ^ j"
      "GovSquareSizeUpperBound app ?ctx \<le> SquareSizeUpperBound (ap_AppVersion app)"
    using GovBound_pow2 [OF gov] by blast
  obtain sq txs'' s eds rows cols where sq: "Build (ap_sq app) txs' (ap_AppVersion app) (GovSquareSizeUpperBound app ?ctx) = Inr (sq, txs'')"
      "Size_sq sq = Inr (2 ^ s)" "(2::int) ^ s \<le> GovSquareSizeUpperBound app ?ctx"
      "ExtendShares (ap_da app) (ToBytes sq) = Inr eds" "d_rowRoots (ap_da app) eds = Inr rows"
      "d_colRoots (ap_da app) eds = Inr cols"
    using square_extends [OF j run(2,3) txs'(2)] by blast
  have "NewDataAvailabilityHeader (ap_da app) eds = Inr \<lparr>RowRoots = rows, ColumnRoots = cols,
      dah_hash = d_hash (ap_da app) (hash_slices rows cols)\<rparr>" by (rule New_dah [OF sq(5,6)])
  then show ?thesis
    using base(1) txs'(1) sq j(2) by (simp add: PrepareProposal_def panic_on_error_def) force
qed

end
