(* ===== verification/SampleApp.thy ===== *)
theory SampleApp
  imports Samples ProposalLive
begin

text \<open>
  A concrete application: the functions of the SDK, of cometbft and of rsmt2d that the proposal handlers
  use, with a mempool of one blob transaction and one other transaction.
\<close>

definition sample_commitment :: bytes where
  "sample_commitment = sample_hash_roots [Bytes_ns sample_ns @ share_data sample_share]"

definition sample_msg :: MsgPayForBlobs where
  "sample_msg =
     \<lparr>pfb_Signer = ''signer'', pfb_Namespaces = [Bytes_ns sample_ns], pfb_BlobSizes = [3],
      pfb_ShareCommitments = [sample_commitment], pfb_ShareVersions = [0]\<rparr>"

definition sample_pf :: pfx where
  "sample_pf =
     \<lparr>p_decoder = (\<lambda>tx. if tx = [7, 7] then Inr [PFB sample_msg] else if tx = [5] then Inr [OtherMsg]
        else Inl (Err ''tx decode error'')),
      p_address = (\<lambda>_. Inr ()), p_hashLength = 32, p_nmt_root = sample_nmt_root, p_hash_roots = sample_hash_roots\<rparr>"

definition sample_da :: "bytes list dax" where
  "sample_da =
     \<lparr>d_compute = (\<lambda>s _. Inr s), d_rowRoots = Inr, d_colRoots = Inr, d_hash = sample_hash_roots,
      d_validateHash = (\<lambda>h. if length h = 32 then Inr () else Inl (Err ''expected size to be 32 bytes''))\<rparr>"

text \<open>The context is the number of transactions that were run; the handler accepts every transaction.\<close>

definition sample_app :: "(nat, bytes list) app" where
  "sample_app =
     \<lparr>ap_sq = sample_ext, ap_pf = sample_pf, ap_da = sample_da,
      ap_basePrepare = (\<lambda>req. Inr (pr_Txs req)), ap_baseProcess = (\<lambda>_. Inr (ACCEPT, None)),
      ap_newContext = (\<lambda>h t. 0), ap_handler = (\<lambda>ctx tx. (ctx + 1, Inr ())),
      ap_store = (\<lambda>_. Some DefaultParams), ap_ctxHeight = (\<lambda>_. 6), ap_ctxVersion = (\<lambda>_. 0),
      ap_LastBlockHeight = 5, ap_AppVersion = 2\<rparr>"

definition sample_req :: PrepareReq where
  "sample_req = \<lparr>pr_Txs = [[0xB0], [5]], pr_Height = 6, pr_Time = 0\<rparr>"

section \<open>Their properties\<close>

lemma sample_app_fields [simp]:
  "ap_sq sample_app = sample_ext" "ap_pf sample_app = sample_pf" "ap_da sample_app = sample_da"
  "ap_newContext sample_app h t = 0" "ap_baseProcess sample_app q = Inr (ACCEPT, None)"
  "ap_basePrepare sample_app r = Inr (pr_Txs r)" "ap_ctxVersion sample_app c = 0" "ap_AppVersion sample_app = 2"
  by (simp_all add: sample_app_def)

lemma sample_req_fields [simp]:
  "pr_Txs sample_req = [[0xB0], [5]]" "pr_Height sample_req = 6" "pr_Time sample_req = 0"
  by (simp_all add: sample_req_def)

lemma sample_blob_fields:
  "Namespace_blob sample_blob = sample_ns" "blob_Data sample_blob = [1, 2, 3]"
  "blob_ShareVersion sample_blob = 0" "blob_NamespaceVersion sample_blob = 0"
  by (simp_all add: sample_blob_def New_blob_def Namespace_blob_def sample_ns_def)

lemma sample_CreateCommitment:
  "CreateCommitment sample_nmt_root sample_hash_roots sample_blob = Inr sample_commitment"
proof -
  have "Validate_blob sample_blob = Inr ()" using sample_blob_sized by (simp add: sized_blob_def user_blob_def)
  moreover have "SubTreeWidth 1 64 = Inr 1" "MerkleMountainRangeSizes 1 1 = Inr [1]" by code_simp+
  ultimately show ?thesis
    by (simp add: CreateCommitment_def sample_blob_shares sample_blob_fields sample_nmt_root_def
        sample_commitment_def ToBytes_def)
qed

lemma sample_NewMsg: "NewMsgPayForBlobs sample_pf ''signer'' [sample_blob] = Inr sample_msg"
  by code_simp

lemma sample_pays_for: "pays_for sample_pf sample_msg [sample_blob]"
  using sample_CreateCommitment
  by (simp add: pays_for_def blob_ok_def sample_msg_def sample_pf_def sample_blob_fields SupportedBlobNamespaceVersions_def)
    (simp add: sample_ns_def)

lemma sample_ValidateBasic: "ValidateBasic_pfb sample_pf sample_msg = Inr ()"
proof -
  have "From_ns (Bytes_ns sample_ns) = Inr sample_ns" by (simp add: From_ns_iff)
  moreover have "ValidateBlobNamespace sample_ns = Inr ()"
    by (simp add: ValidateBlobNamespace_iff SupportedBlobNamespaceVersions_def) (simp add: sample_ns_def)
  ultimately show ?thesis
    by (simp add: ValidateBasic_pfb_def sample_msg_def sample_pf_def sample_commitment_def sample_hash_roots_def)
qed

lemma sample_ValidateBlobTx: "ValidateBlobTx sample_pf sample_btx = Inr ()"
  using sample_pays_for sample_ValidateBasic
  by (auto simp: ValidateBlobTx_iff sample_btx_def sample_pf_def)

lemma sample_mempool_ok: "\<forall>tx\<in>set [[0xB0], [5]]. mempool_ok sample_app tx"
proof -
  have "mempool_ok sample_app [0xB0]"
    using sample_ValidateBlobTx sample_blob_sized sample_decode
    by (simp add: mempool_ok_def sample_app_def sample_btx_def MarshalBlobTx_def sized_blob_def)
      (simp add: sample_ext_def sample_btx_def ProtoBlobTxTypeID_def)
  moreover have "mempool_ok sample_app [5]"
    by (simp add: mempool_ok_def sample_app_def sample_ext_def UnmarshalBlobTx_def)
  ultimately show ?thesis by simp
qed

lemma sample_runs: "runs_without_crash sample_app"
  by (simp add: runs_without_crash_def no_crash_def sample_app_def sample_pf_def)

lemma sample_extends: "extends_squares sample_da"
  by (simp add: extends_squares_def sample_da_def)

lemma sample_gov:
  "GovMaxSquareSize (GetParams_blob (ap_store sample_app c)) = word_of_int (2 ^ 6)"
  "GovSquareSizeUpperBound sample_app c = 64"
  by (simp_all add: sample_app_def GetParams_blob_def DefaultParams_def GovSquareSizeUpperBound_def
      SquareSizeUpperBound_def testground_Version_def)

section \<open>A proposal\<close>

definition sample_preq :: "PrepareResp \<Rightarrow> ProcessReq" where
  "sample_preq resp =
     \<lparr>pq_Txs = rp_Txs resp, pq_Height = 6, pq_Time = 0, pq_SquareSize = rp_SquareSize resp,
      pq_DataHash = rp_DataHash resp\<rparr>"

lemma sample_preq_fields [simp]:
  "pq_Txs (sample_preq resp) = rp_Txs resp" "pq_Height (sample_preq resp) = 6" "pq_Time (sample_preq resp) = 0"
  "pq_SquareSize (sample_preq resp) = rp_SquareSize resp" "pq_DataHash (sample_preq resp) = rp_DataHash resp"
  by (simp_all add: sample_preq_def)

lemma sample_PrepareProposal:
  obtains resp where "PrepareProposal sample_app sample_req = Inr resp" "rp_Txs resp = [[5], [0xB0]]"
    "rp_SquareSize resp = 2"
proof -
  have f: "FilterTxs sample_app 0 [[0xB0], [5]] = Inr [[5], [0xB0]]" by code_simp
  have "(case Build sample_ext [[5], [0xB0]] 2 64 of
      Inr (sq, txs) \<Rightarrow> txs = [[5], [0xB0]] \<and> length sq = 4 | Inl _ \<Rightarrow> False)" by code_simp
  then obtain sq where b: "Build sample_ext [[5], [0xB0]] 2 64 = Inr (sq, [[5], [0xB0]])" "length sq = 4"
    by (auto split: sum.splits prod.splits)
  have s: "da_SquareSize 4 = Inr 2" "IsPowerOfTwo wrap_int 4" by code_simp+
  obtain resp where "PrepareProposal sample_app sample_req = Inr resp" "rp_Txs resp = [[5], [0xB0]]"
      "rp_SquareSize resp = 2"
    using f b s unfolding PrepareProposal_def
    by (simp add: sample_gov panic_on_error_def ExtendShares_def NewDataAvailabilityHeader_def Size_sq_def
        ToBytes_def)
      (simp add: sample_app_def sample_da_def)
  then show thesis by (rule that)
qed

lemma sample_process_txs: "process_txs sample_app 0 [[5], [0xB0]] = Inr 2"
  by code_simp

end
