(* ===== verification/Blobstream.thy ===== *)
theory Blobstream
  imports Shares PowersOfTwo "HOL-Library.Product_Lexorder" "HOL-Library.AList"
begin

text \<open>
  \<^verbatim>\<open>x/blobstream\<close>: the attestations that bridge orchestrators sign. Every attestation (a validator set or
  a data commitment) has a nonce; the keeper stores them under consecutive nonces, creates new ones at
  the end of every block and prunes those that expired. Times are nanoseconds and heights integers.
  Functions of the SDK, of go-ethereum and of the staking module are the record \<open>bsx\<close>.
\<close>

section \<open>Types\<close>

record BridgeValidator =
  bv_Power :: uint64
  bv_EvmAddress :: string

record InternalBridgeValidator =
  iv_Power :: uint64
  iv_EVMAddress :: bytes

record Valset =
  vs_Nonce :: uint64
  vs_Members :: "BridgeValidator list"
  vs_Height :: uint64
  vs_Time :: int

record DataCommitment =
  dc_Nonce :: uint64
  dc_BeginBlock :: uint64
  dc_EndBlock :: uint64
  dc_Time :: int

datatype AttestationRequestI = AttValset Valset | AttDataCommitment DataCommitment

fun GetNonce :: "AttestationRequestI \<Rightarrow> uint64" where
  "GetNonce (AttValset v) = vs_Nonce v"
| "GetNonce (AttDataCommitment d) = dc_Nonce d"

fun BlockTime :: "AttestationRequestI \<Rightarrow> int" where
  "BlockTime (AttValset v) = vs_Time v"
| "BlockTime (AttDataCommitment d) = dc_Time d"

record bsx =
  b_marshal :: "AttestationRequestI \<Rightarrow> bytes result"
  b_unmarshal :: "bytes \<Rightarrow> AttestationRequestI result"
  b_bonded :: "string list result"
  b_valAddress :: "string \<Rightarrow> bytes result"
  b_lastPower :: "bytes \<Rightarrow> int result"
  b_accAddress :: "string \<Rightarrow> bytes result"
  b_getValidator :: "bytes \<Rightarrow> unit result"
  b_isHexAddress :: "string \<Rightarrow> bool"
  b_hexToAddress :: "string \<Rightarrow> bytes"
  b_hex :: "bytes \<Rightarrow> string"
  b_bytesToAddress :: "bytes \<Rightarrow> bytes"
  b_decQuo :: "int \<Rightarrow> int \<Rightarrow> int"

section \<open>Validators\<close>

definition ValidateBasic_iv :: "InternalBridgeValidator \<Rightarrow> unit result" where
  "ValidateBasic_iv i = (if iv_Power i = 0 then Inl (Err ''empty power'') else Inr ())"

definition NewInternalBridgeValidator :: "bsx \<Rightarrow> BridgeValidator \<Rightarrow> InternalBridgeValidator result" where
  "NewInternalBridgeValidator x bv =
     (if \<not> b_isHexAddress x (bv_EvmAddress bv)
      then Inl (Err ''the provided evm address is not a valid hex address'')
      else
        let i = \<lparr>iv_Power = bv_Power bv, iv_EVMAddress = b_hexToAddress x (bv_EvmAddress bv)\<rparr>
        in bindR (ValidateBasic_iv i) (\<lambda>_. Inr i))"

definition ToInternal_bvs :: "bsx \<Rightarrow> BridgeValidator list \<Rightarrow> InternalBridgeValidator list result" where
  "ToInternal_bvs x b = mapR (NewInternalBridgeValidator x) b"

definition ToExternal_iv :: "bsx \<Rightarrow> InternalBridgeValidator \<Rightarrow> BridgeValidator" where
  "ToExternal_iv x i = \<lparr>bv_Power = iv_Power i, bv_EvmAddress = b_hex x (iv_EVMAddress i)\<rparr>"

definition ToExternal_ivs :: "bsx \<Rightarrow> InternalBridgeValidator list \<Rightarrow> BridgeValidator list" where
  "ToExternal_ivs x ibv = map (ToExternal_iv x) ibv"

text \<open>
  By decreasing power, then by the hexadecimal address. The order is strict on a list without
  duplicates, so the unstable sort of Go has one result.
\<close>

definition hex_bytes :: "bsx \<Rightarrow> bytes \<Rightarrow> bytes" where
  "hex_bytes x a = map of_char (b_hex x a)"

definition EVMAddrLessThan :: "bsx \<Rightarrow> bytes \<Rightarrow> bytes \<Rightarrow> bool" where
  "EVMAddrLessThan x e o' \<longleftrightarrow> hex_bytes x e < hex_bytes x o'"

definition Sort_ivs :: "bsx \<Rightarrow> InternalBridgeValidator list \<Rightarrow> InternalBridgeValidator list" where
  "Sort_ivs x ibv = sort_key (\<lambda>i. (- uint (iv_Power i), hex_bytes x (iv_EVMAddress i))) ibv"

text \<open>
  The powers as a map from address to the difference; a \<^verbatim>\<open>LegacyDec\<close> is its integer of \<open>10 ^ -18\<close>ths.
  The sum over the map does not depend on the order of iteration.
\<close>

definition dec_unit :: int where "dec_unit = 10 ^ 18"

definition diff_powers :: "bsx \<Rightarrow> InternalBridgeValidator list \<Rightarrow> InternalBridgeValidator list \<Rightarrow> (string \<times> int) list" where
  "diff_powers x ibv c =
     (let powers = foldl (\<lambda>m bv. AList.update (b_hex x (iv_EVMAddress bv)) (uint (iv_Power bv) * dec_unit) m) [] ibv
      in foldl (\<lambda>m bv.
           let k = b_hex x (iv_EVMAddress bv); p = uint (iv_Power bv) * dec_unit in
           (case map_of m k of Some v \<Rightarrow> AList.update k (v - p) m | None \<Rightarrow> AList.update k (- p) m)) powers c)"

definition PowerDiff :: "bsx \<Rightarrow> InternalBridgeValidator list \<Rightarrow> InternalBridgeValidator list \<Rightarrow> int" where
  "PowerDiff x ibv c =
     (let delta = sum_list (map (\<lambda>(k, v). abs v) (diff_powers x ibv c));
          decMaxUint32 = 4294967295 * dec_unit
      in b_decQuo x delta decMaxUint32)"

definition TotalPower :: "InternalBridgeValidator list \<Rightarrow> uint64" where
  "TotalPower ibv = foldl (\<lambda>out v. out + iv_Power v) 0 ibv"

definition HasDuplicates :: "bsx \<Rightarrow> InternalBridgeValidator list \<Rightarrow> bool" where
  "HasDuplicates x ibv \<longleftrightarrow> length (remdups (map (\<lambda>i. b_hex x (iv_EVMAddress i)) ibv)) \<noteq> length ibv"

definition GetPowers :: "InternalBridgeValidator list \<Rightarrow> uint64 list" where
  "GetPowers ibv = map iv_Power ibv"

definition ValidateBasic_ivs :: "bsx \<Rightarrow> InternalBridgeValidator list \<Rightarrow> unit result" where
  "ValidateBasic_ivs x ibv =
     (if length ibv = 0 then Inl (Err ''empty'')
      else bindR (foldR (\<lambda>i _. ValidateBasic_iv i) ibv ()) (\<lambda>_.
        if HasDuplicates x ibv then Inl (Err ''duplicate addresses'') else Inr ()))"

definition NewValset :: "bsx \<Rightarrow> uint64 \<Rightarrow> uint64 \<Rightarrow> InternalBridgeValidator list \<Rightarrow> int \<Rightarrow> Valset result" where
  "NewValset x nonce height members blockTime =
     bindR (ValidateBasic_ivs x members) (\<lambda>_.
       Inr \<lparr>vs_Nonce = nonce, vs_Members = map (ToExternal_iv x) (Sort_ivs x members),
            vs_Height = height, vs_Time = blockTime\<rparr>)"

definition TwoThirdsThreshold :: "Valset \<Rightarrow> uint64" where
  "TwoThirdsThreshold v =
     (let totalPower = foldl (\<lambda>t m. t + bv_Power m) 0 (vs_Members v);
          oneThird = totalPower div 3 + 1
      in 2 * oneThird)"

definition NewDataCommitment :: "uint64 \<Rightarrow> uint64 \<Rightarrow> uint64 \<Rightarrow> int \<Rightarrow> DataCommitment" where
  "NewDataCommitment nonce beginBlock endBlock blockTime =
     \<lparr>dc_Nonce = nonce, dc_BeginBlock = beginBlock, dc_EndBlock = endBlock, dc_Time = blockTime\<rparr>"

section \<open>Parameters\<close>

definition MinimumDataCommitmentWindow :: uint64 where "MinimumDataCommitmentWindow = 100"

text \<open>\<open>limit\<close> is \<^verbatim>\<open>DataCommitmentBlocksLimit\<close> of the consensus engine.\<close>

definition validateDataCommitmentWindow :: "uint64 \<Rightarrow> uint64 \<Rightarrow> unit result" where
  "validateDataCommitmentWindow limit val =
     (if val < MinimumDataCommitmentWindow then Inl (Err ''invalid data commitment window'')
      else if val > limit then Inl (Err ''invalid data commitment window'')
      else Inr ())"

section \<open>The store\<close>

text \<open>
  The keys of the module: attestations by nonce, the two nonces, the last unbonding height, the EVM
  addresses by validator and the parameter. A missing key is \<open>None\<close>.
\<close>

record bs =
  bs_att :: "uint64 \<rightharpoonup> bytes"
  bs_latest :: "uint64 option"
  bs_earliest :: "uint64 option"
  bs_unbonding :: "uint64 option"
  bs_evm :: "(bytes \<times> bytes) list"
  bs_window :: "uint64 option"

definition GetDataCommitmentWindowParam :: "bs \<Rightarrow> uint64" where
  "GetDataCommitmentWindowParam s = (case bs_window s of None \<Rightarrow> 0 | Some w \<Rightarrow> w)"

definition SetParams_bs :: "bs \<Rightarrow> uint64 \<Rightarrow> bs" where
  "SetParams_bs s w = s\<lparr>bs_window := Some w\<rparr>"

definition UpdateParams_bs :: "string \<Rightarrow> string \<Rightarrow> uint64 \<Rightarrow> bs \<Rightarrow> bs result" where
  "UpdateParams_bs keeperAuthority authority w s =
     (if keeperAuthority \<noteq> authority
      then Inl (Err ''expected gov account as only signer for proposal message'')
      else Inr (SetParams_bs s w))"

definition CheckLatestAttestationNonce :: "bs \<Rightarrow> bool" where
  "CheckLatestAttestationNonce s \<longleftrightarrow> bs_latest s \<noteq> None"

definition GetLatestAttestationNonce :: "bs \<Rightarrow> uint64 result" where
  "GetLatestAttestationNonce s =
     (case bs_latest s of None \<Rightarrow> Inl (Panic ''nil LatestAttestationNonce'') | Some n \<Rightarrow> Inr n)"

definition CheckEarliestAvailableAttestationNonce :: "bs \<Rightarrow> bool" where
  "CheckEarliestAvailableAttestationNonce s \<longleftrightarrow> bs_earliest s \<noteq> None"

definition GetEarliestAvailableAttestationNonce :: "bs \<Rightarrow> uint64 result" where
  "GetEarliestAvailableAttestationNonce s =
     (case bs_earliest s of None \<Rightarrow> Inl (Panic ''nil earliest available attestation nonce'') | Some n \<Rightarrow> Inr n)"

definition SetEarliestAvailableAttestationNonce :: "bs \<Rightarrow> uint64 \<Rightarrow> bs" where
  "SetEarliestAvailableAttestationNonce s n = s\<lparr>bs_earliest := Some n\<rparr>"

definition StoreAttestation :: "bsx \<Rightarrow> bs \<Rightarrow> AttestationRequestI \<Rightarrow> bs result" where
  "StoreAttestation x s at =
     (let nonce = GetNonce at in
      if bs_att s nonce \<noteq> None then Inl (Panic ''trying to overwrite existing attestation request'')
      else (case b_marshal x at of
              Inl e \<Rightarrow> Inl (Panic ''marshal'')
            | Inr b \<Rightarrow> Inr (s\<lparr>bs_att := (bs_att s)(nonce \<mapsto> b)\<rparr>)))"

definition SetLatestAttestationNonce :: "bs \<Rightarrow> uint64 \<Rightarrow> bs result" where
  "SetLatestAttestationNonce s nonce =
     (case bs_latest s of
        Some n \<Rightarrow> if n + 1 \<noteq> nonce then Inl (Panic ''not incrementing latest attestation nonce correctly'')
                  else Inr (s\<lparr>bs_latest := Some nonce\<rparr>)
      | None \<Rightarrow> Inr (s\<lparr>bs_latest := Some nonce\<rparr>))"

definition SetAttestationRequest :: "bsx \<Rightarrow> bs \<Rightarrow> AttestationRequestI \<Rightarrow> bs result" where
  "SetAttestationRequest x s at =
     bindR (StoreAttestation x s at) (\<lambda>s. SetLatestAttestationNonce s (GetNonce at))"

definition GetAttestationByNonce :: "bsx \<Rightarrow> bs \<Rightarrow> uint64 \<Rightarrow> AttestationRequestI option result" where
  "GetAttestationByNonce x s nonce =
     (case bs_att s nonce of
        None \<Rightarrow> Inr None
      | Some bz \<Rightarrow> (case b_unmarshal x bz of
            Inl e \<Rightarrow> Inl (Err ''couldn't unmarshall attestation from store'')
          | Inr at \<Rightarrow> Inr (Some at)))"

definition DeleteAttestation :: "bs \<Rightarrow> uint64 \<Rightarrow> bs" where
  "DeleteAttestation s nonce =
     (if bs_att s nonce = None then s else s\<lparr>bs_att := (bs_att s)(nonce := None)\<rparr>)"

section \<open>Searching the attestations\<close>

text \<open>
  The loop that \<^verbatim>\<open>GetLatestDataCommitment\<close>, \<^verbatim>\<open>GetDataCommitmentForHeight\<close>, \<^verbatim>\<open>GetLatestValset\<close> and
  \<^verbatim>\<open>GetLatestValsetBeforeNonce\<close> share: from nonce \<open>i\<close> downwards to the earliest, until \<open>sel\<close> picks a
  result. \<open>missing\<close> is what the caller does with a nonce that is not in the store. The index is a
  \<^verbatim>\<open>uint64\<close>, so it wraps around below zero.
\<close>

partial_function (option) search_down ::
    "bsx \<Rightarrow> bs \<Rightarrow> (AttestationRequestI \<Rightarrow> 'r option) \<Rightarrow> fault \<Rightarrow> uint64 \<Rightarrow> uint64 \<Rightarrow> 'r option result option" where
  [code]: "search_down x s sel missing earliest i =
     (if i \<ge> earliest then
        (case GetAttestationByNonce x s i of
           Inl e \<Rightarrow> Some (Inl e)
         | Inr None \<Rightarrow> Some (Inl missing)
         | Inr (Some at) \<Rightarrow>
             (case sel at of
                Some r \<Rightarrow> Some (Inr (Some r))
              | None \<Rightarrow> search_down x s sel missing earliest (i - 1)))
      else Some (Inr None))"

partial_function (option) search_up ::
    "bsx \<Rightarrow> bs \<Rightarrow> (AttestationRequestI \<Rightarrow> 'r option) \<Rightarrow> fault \<Rightarrow> uint64 \<Rightarrow> uint64 \<Rightarrow> 'r option result option" where
  [code]: "search_up x s sel missing latest i =
     (if i \<le> latest then
        (case GetAttestationByNonce x s i of
           Inl e \<Rightarrow> Some (Inl e)
         | Inr None \<Rightarrow> Some (Inl missing)
         | Inr (Some at) \<Rightarrow>
             (case sel at of
                Some r \<Rightarrow> Some (Inr (Some r))
              | None \<Rightarrow> search_up x s sel missing latest (i + 1)))
      else Some (Inr None))"

fun as_DataCommitment :: "AttestationRequestI \<Rightarrow> DataCommitment option" where
  "as_DataCommitment (AttDataCommitment d) = Some d"
| "as_DataCommitment (AttValset v) = None"

fun as_Valset :: "AttestationRequestI \<Rightarrow> Valset option" where
  "as_Valset (AttDataCommitment d) = None"
| "as_Valset (AttValset v) = Some v"

definition ErrLatestNonceNotInitialized :: fault where
  "ErrLatestNonceNotInitialized = Err ''the latest attestation nonce has still not been defined in store''"

definition ErrEarliestNonceNotInitialized :: fault where
  "ErrEarliestNonceNotInitialized =
     Err ''the earliest available nonce after pruning has still not been defined in store''"

section \<open>Data commitments\<close>

definition GetLatestDataCommitment :: "bsx \<Rightarrow> bs \<Rightarrow> DataCommitment result" where
  "GetLatestDataCommitment x s =
     (if \<not> CheckLatestAttestationNonce s then Inl ErrLatestNonceNotInitialized
      else if \<not> CheckEarliestAvailableAttestationNonce s then Inl ErrEarliestNonceNotInitialized
      else
        bindR (GetLatestAttestationNonce s) (\<lambda>latestNonce.
        bindR (GetEarliestAvailableAttestationNonce s) (\<lambda>earliest.
        bindR (join_loop (search_down x s as_DataCommitment (Err ''attestation not found'') earliest latestNonce)) (\<lambda>r.
          (case r of Some d \<Rightarrow> Inr d | None \<Rightarrow> Inl (Err ''data commitment not found''))))))"

definition HasDataCommitmentInStore :: "bsx \<Rightarrow> bs \<Rightarrow> bool result" where
  "HasDataCommitmentInStore x s =
     (if \<not> CheckLatestAttestationNonce s then Inr False
      else if \<not> CheckEarliestAvailableAttestationNonce s then Inl ErrEarliestNonceNotInitialized
      else
        bindR (GetLatestAttestationNonce s) (\<lambda>latestNonce.
        bindR (GetEarliestAvailableAttestationNonce s) (\<lambda>earliest.
        bindR (join_loop (search_up x s as_DataCommitment (Err ''attestation not found'') latestNonce earliest)) (\<lambda>r.
          Inr (r \<noteq> None)))))"

definition GetDataCommitmentForHeight :: "bsx \<Rightarrow> bs \<Rightarrow> uint64 \<Rightarrow> DataCommitment result" where
  "GetDataCommitmentForHeight x s height =
     bindR (GetLatestDataCommitment x s) (\<lambda>latestDC.
       if dc_EndBlock latestDC < height
       then Inl (Err ''no data commitment has been generated for the provided height'')
       else if \<not> CheckLatestAttestationNonce s then Inl ErrLatestNonceNotInitialized
       else if \<not> CheckEarliestAvailableAttestationNonce s then Inl ErrEarliestNonceNotInitialized
       else
         bindR (GetLatestAttestationNonce s) (\<lambda>latestNonce.
         bindR (GetEarliestAvailableAttestationNonce s) (\<lambda>earliest.
         bindR (join_loop (search_down x s
             (\<lambda>att. case as_DataCommitment att of
                None \<Rightarrow> None
              | Some dcc \<Rightarrow> if dc_BeginBlock dcc \<le> height \<and> dc_EndBlock dcc > height then Some dcc else None)
             (Err ''attestation not found'') earliest latestNonce)) (\<lambda>r.
           (case r of Some d \<Rightarrow> Inr d | None \<Rightarrow> Inl (Err ''data commitment not found''))))))"

definition NextDataCommitment :: "bsx \<Rightarrow> int \<Rightarrow> bs \<Rightarrow> DataCommitment result" where
  "NextDataCommitment x blockTime s =
     (if \<not> CheckLatestAttestationNonce s then Inl ErrLatestNonceNotInitialized
      else
        bindR (GetLatestAttestationNonce s) (\<lambda>latest.
        let nonce = latest + 1; dcWindow = GetDataCommitmentWindowParam s in
        bindR (HasDataCommitmentInStore x s) (\<lambda>hasDC.
          if hasDC then
            bindR (GetLatestDataCommitment x s) (\<lambda>latestDCC.
              Inr (NewDataCommitment nonce (dc_EndBlock latestDCC) (dc_EndBlock latestDCC + dcWindow) blockTime))
          else Inr (NewDataCommitment nonce 1 (dcWindow + 1) blockTime))))"

section \<open>Validator sets\<close>

definition SetLatestUnBondingBlockHeight :: "bs \<Rightarrow> uint64 \<Rightarrow> bs" where
  "SetLatestUnBondingBlockHeight s h = s\<lparr>bs_unbonding := Some h\<rparr>"

definition GetLatestUnBondingBlockHeight :: "bs \<Rightarrow> uint64" where
  "GetLatestUnBondingBlockHeight s = (case bs_unbonding s of None \<Rightarrow> 0 | Some h \<Rightarrow> h)"

definition SetEVMAddress :: "bs \<Rightarrow> bytes \<Rightarrow> bytes \<Rightarrow> bs" where
  "SetEVMAddress s val evm = s\<lparr>bs_evm := AList.update val evm (bs_evm s)\<rparr>"

definition GetEVMAddress :: "bsx \<Rightarrow> bs \<Rightarrow> bytes \<Rightarrow> bytes option" where
  "GetEVMAddress x s val = (case map_of (bs_evm s) val of None \<Rightarrow> None | Some b \<Rightarrow> Some (b_bytesToAddress x b))"

definition IsEVMAddressUnique :: "bs \<Rightarrow> bytes \<Rightarrow> bool" where
  "IsEVMAddressUnique s evm \<longleftrightarrow> \<not> list_ex (\<lambda>(val, a). a = evm) (bs_evm s)"

definition DefaultEvmAddress :: "bsx \<Rightarrow> bytes \<Rightarrow> bytes" where
  "DefaultEvmAddress x val = b_bytesToAddress x val"

text \<open>A division of the big integers by a zero total is a panic.\<close>

definition normalizeValidatorPower :: "uint64 \<Rightarrow> int \<Rightarrow> uint64 result" where
  "normalizeValidatorPower rawPower totalValidatorPower =
     (if totalValidatorPower = 0 then Inl (Panic ''division by zero'')
      else Inr (word_of_int (go_div (uint rawPower * 4294967296) totalValidatorPower)))"

text \<open>The loop over the bonded validators; it registers the default address of a validator without one.\<close>

fun collect_validators :: "bsx \<Rightarrow> string list \<Rightarrow> bs \<Rightarrow> InternalBridgeValidator list \<Rightarrow> int \<Rightarrow>
    bs \<times> (InternalBridgeValidator list \<times> int) result" where
  "collect_validators x [] s ibvs totalPower = (s, Inr (ibvs, totalPower))"
| "collect_validators x (valString # vals) s ibvs totalPower =
     (case b_valAddress x valString of
        Inl e \<Rightarrow> (s, Inl (Err ''invalid validator address in current valset''))
      | Inr val \<Rightarrow>
          (case b_lastPower x val of
             Inl e \<Rightarrow> (s, Inl e)
           | Inr p \<Rightarrow>
               let (s, evmAddress) =
                 (case GetEVMAddress x s val of
                    Some a \<Rightarrow> (s, a)
                  | None \<Rightarrow> (SetEVMAddress s val (DefaultEvmAddress x val), DefaultEvmAddress x val))
               in if p < 0 then (s, Inl (Panic ''Uint64() out of bounds''))
                  else
                    (case NewInternalBridgeValidator x \<lparr>bv_Power = word_of_int p, bv_EvmAddress = b_hex x evmAddress\<rparr> of
                       Inl (Err e) \<Rightarrow> (s, Inl (Err ''discovered invalid EVM address stored for validator''))
                     | Inl f \<Rightarrow> (s, Inl f)
                     | Inr ibv \<Rightarrow> collect_validators x vals s (ibvs @ [ibv]) (totalPower + p))))"

definition ErrNoValidators :: fault where
  "ErrNoValidators = Err ''no bonded validators in active set''"

definition normalize_all :: "int \<Rightarrow> InternalBridgeValidator list \<Rightarrow> InternalBridgeValidator list result" where
  "normalize_all totalPower ibvs =
     mapR (\<lambda>i. bindR (normalizeValidatorPower (iv_Power i) totalPower) (\<lambda>p. Inr (i\<lparr>iv_Power := p\<rparr>))) ibvs"

definition GetCurrentValset :: "bsx \<Rightarrow> int \<Rightarrow> int \<Rightarrow> bs \<Rightarrow> bs \<times> Valset result" where
  "GetCurrentValset x height blockTime s =
     (case b_bonded x of
        Inl e \<Rightarrow> (s, Inl e)
      | Inr validators \<Rightarrow>
          if length validators = 0 then (s, Inl ErrNoValidators)
          else
            let (s, r) = collect_validators x validators s [] 0 in
            (s, bindR r (\<lambda>(bridgeValidators, totalPower).
                bindR (normalize_all totalPower bridgeValidators) (\<lambda>bridgeValidators.
                  if \<not> CheckLatestAttestationNonce s then Inl ErrLatestNonceNotInitialized
                  else bindR (GetLatestAttestationNonce s) (\<lambda>latest.
                    (case NewValset x (latest + 1) (word_of_int height) bridgeValidators blockTime of
                       Inl (Err e) \<Rightarrow> Inl (Err ''generated invalid valset'')
                     | r \<Rightarrow> r))))))"

definition GetLatestValset :: "bsx \<Rightarrow> int \<Rightarrow> int \<Rightarrow> bs \<Rightarrow> bs \<times> Valset result" where
  "GetLatestValset x height blockTime s =
     (if \<not> CheckLatestAttestationNonce s then (s, Inl ErrLatestNonceNotInitialized)
      else if \<not> CheckEarliestAvailableAttestationNonce s then (s, Inl ErrEarliestNonceNotInitialized)
      else
        (case GetLatestAttestationNonce s of Inl e \<Rightarrow> (s, Inl e) | Inr latestNonce \<Rightarrow>
        (case GetEarliestAvailableAttestationNonce s of Inl e \<Rightarrow> (s, Inl e) | Inr earliest \<Rightarrow>
        (case join_loop (search_down x s as_Valset (Panic ''stumbled upon nil attestation'') earliest latestNonce) of
           Inl e \<Rightarrow> (s, Inl e)
         | Inr (Some v) \<Rightarrow> (s, Inr v)
         | Inr None \<Rightarrow>
             if earliest = 1 then (s, Inl (Panic ''couldn't find latest valset''))
             else GetCurrentValset x height blockTime s))))"

definition GetLatestValsetBeforeNonce :: "bsx \<Rightarrow> bs \<Rightarrow> uint64 \<Rightarrow> Valset result" where
  "GetLatestValsetBeforeNonce x s nonce =
     (if \<not> CheckLatestAttestationNonce s then Inl ErrLatestNonceNotInitialized
      else if \<not> CheckEarliestAvailableAttestationNonce s then Inl ErrEarliestNonceNotInitialized
      else if nonce = 1 then Inl (Err ''there is no valset before attestation nonce 1'')
      else
        bindR (GetEarliestAvailableAttestationNonce s) (\<lambda>earliest.
          if nonce < earliest then Inl (Err ''the requested nonce has been pruned'')
          else bindR (GetLatestAttestationNonce s) (\<lambda>latest.
            if nonce > latest then Inl (Err ''the provided nonce is higher than the latest attestation nonce'')
            else bindR (join_loop (search_down x s as_Valset (Err ''nil attestation'') earliest (nonce - 1))) (\<lambda>r.
              (case r of Some v \<Rightarrow> Inr v | None \<Rightarrow> Inl (Err ''couldn't find valset before nonce''))))))"

section \<open>Messages and hooks\<close>

definition RegisterEvmAddress :: "bsx \<Rightarrow> string \<Rightarrow> string \<Rightarrow> bs \<Rightarrow> bs result" where
  "RegisterEvmAddress x address evmAddress s =
     bindR (b_accAddress x address) (\<lambda>valAddr.
       let evmAddr = b_hexToAddress x evmAddress in
       (case b_getValidator x valAddr of
          Inl e \<Rightarrow> Inl (Err ''validator does not exist'')
        | Inr _ \<Rightarrow>
            if \<not> IsEVMAddressUnique s evmAddr then Inl (Err ''the provided evm address already exists'')
            else Inr (SetEVMAddress s valAddr evmAddr)))"

definition AfterValidatorBeginUnbonding :: "int \<Rightarrow> bs \<Rightarrow> bs" where
  "AfterValidatorBeginUnbonding height s = SetLatestUnBondingBlockHeight s (word_of_int height)"

definition AfterValidatorCreated :: "bsx \<Rightarrow> bytes \<Rightarrow> bs \<Rightarrow> bs result" where
  "AfterValidatorCreated x addr s =
     (let defaultEvmAddr = DefaultEvmAddress x addr in
      if \<not> IsEVMAddressUnique s defaultEvmAddr then Inl (Err ''the provided evm address already exists'')
      else Inr (SetEVMAddress s addr defaultEvmAddr))"

section \<open>Genesis and the end of a block\<close>

definition InitGenesis_bs :: "bs \<Rightarrow> uint64 \<Rightarrow> bs result" where
  "InitGenesis_bs s window =
     bindR (SetLatestAttestationNonce s 0) (\<lambda>s.
       Inr (SetParams_bs (SetEarliestAvailableAttestationNonce s 1) window))"

definition AttestationExpiryTime :: int where
  "AttestationExpiryTime = 3 * (7 * (24 * 3600000000000))"

definition SignificantPowerDifferenceThreshold :: int where
  "SignificantPowerDifferenceThreshold = 5 * 10 ^ 16"

definition setDataCommitmentAttestation :: "bsx \<Rightarrow> int \<Rightarrow> bs \<Rightarrow> bs result" where
  "setDataCommitmentAttestation x blockTime s =
     bindR (panic_on_error (NextDataCommitment x blockTime s)) (\<lambda>dataCommitment.
       SetAttestationRequest x s (AttDataCommitment dataCommitment))"

text \<open>
  One round of the loop of \<^verbatim>\<open>handleDataCommitmentRequest\<close>: whether another data commitment is due.
  \<open>int64\<close> conversions of unsigned values are signed readings, and the subtraction wraps around.
\<close>

definition dataCommitmentDue :: "bsx \<Rightarrow> int \<Rightarrow> int \<Rightarrow> bs \<Rightarrow> bool result" where
  "dataCommitmentDue x height window s =
     bindR (panic_on_error (HasDataCommitmentInStore x s)) (\<lambda>has.
       if has then
         bindR (panic_on_error (GetLatestDataCommitment x s)) (\<lambda>latest.
           Inr (window \<le> wrap_int (height - sint (dc_EndBlock latest))))
       else Inr (window \<le> height))"

partial_function (option) handle_loop :: "bsx \<Rightarrow> int \<Rightarrow> int \<Rightarrow> int \<Rightarrow> bs \<Rightarrow> bs result option" where
  [code]: "handle_loop x height blockTime window s =
     (case dataCommitmentDue x height window s of
        Inl e \<Rightarrow> Some (Inl e)
      | Inr due \<Rightarrow>
          if due then
            (case setDataCommitmentAttestation x blockTime s of
               Inl e \<Rightarrow> Some (Inl e)
             | Inr s \<Rightarrow> handle_loop x height blockTime window s)
          else Some (Inr s))"

definition handleDataCommitmentRequest :: "bsx \<Rightarrow> int \<Rightarrow> int \<Rightarrow> bs \<Rightarrow> bs result" where
  "handleDataCommitmentRequest x height blockTime s =
     join_loop (handle_loop x height blockTime (sint (GetDataCommitmentWindowParam s)) s)"

text \<open>Whether the power of the current validators differs significantly from the latest valset.\<close>

definition significant_diff :: "bsx \<Rightarrow> Valset \<Rightarrow> Valset \<Rightarrow> bool result" where
  "significant_diff x vs latestValset =
     bindR (panic_on_error (ToInternal_bvs x (vs_Members vs))) (\<lambda>intCurrMembers.
     bindR (panic_on_error (ToInternal_bvs x (vs_Members latestValset))) (\<lambda>intLatestMembers.
       Inr (PowerDiff x intCurrMembers intLatestMembers > SignificantPowerDifferenceThreshold)))"

definition putValset :: "bsx \<Rightarrow> int \<Rightarrow> int \<Rightarrow> bs \<Rightarrow> bs result" where
  "putValset x height blockTime s =
     (let (s, r) = GetCurrentValset x height blockTime s in
      bindR (panic_on_error r) (\<lambda>valset. SetAttestationRequest x s (AttValset valset)))"

definition handleValsetRequest :: "bsx \<Rightarrow> int \<Rightarrow> int \<Rightarrow> bs \<Rightarrow> bs result" where
  "handleValsetRequest x height blockTime s =
     (if bs_latest s \<noteq> None \<and> bs_latest s \<noteq> Some 0 then
        let (s, r) = GetLatestValset x height blockTime s in
        bindR (panic_on_error r) (\<lambda>latestValset.
          let (s, r) = GetCurrentValset x height blockTime s in
          if r = Inl ErrNoValidators then Inr s
          else
            bindR (panic_on_error r) (\<lambda>vs.
            bindR (significant_diff x vs latestValset) (\<lambda>significantPowerDiff.
              if GetLatestUnBondingBlockHeight s = word_of_int height \<or> significantPowerDiff
              then putValset x height blockTime s else Inr s)))
      else putValset x height blockTime s)"

lemma unat_plus_one: "n < m \<Longrightarrow> unat (n + 1) = unat n + 1" for n m :: uint64
proof -
  assume "n < m"
  then have "unat n + 1 < 2 ^ 64"
    using unsigned_less [of m, where ?'a = nat] by (simp add: word_less_nat_alt)
  then show ?thesis by (simp add: unat_word_ariths)
qed

text \<open>
  The pruning loop: \<open>None\<close> is one of the early returns, which leave the earliest nonce as it was.
\<close>

function prune_loop :: "bsx \<Rightarrow> int \<Rightarrow> uint64 \<Rightarrow> uint64 \<Rightarrow> bs \<Rightarrow> bs \<times> uint64 option" where
  "prune_loop x currentBlockTime latest n s =
     (if n < latest then
        (case GetAttestationByNonce x s n of
           Inl e \<Rightarrow> (s, None)
         | Inr None \<Rightarrow> (s, None)
         | Inr (Some at) \<Rightarrow>
             if BlockTime at + AttestationExpiryTime > currentBlockTime then (s, Some n)
             else prune_loop x currentBlockTime latest (n + 1) (DeleteAttestation s n))
      else (s, Some n))"
  by pat_completeness auto

termination
  by (relation "measure (\<lambda>(x, t, latest, n, s). unat latest - unat n)")
    (auto simp: unat_plus_one word_less_nat_alt intro!: diff_less_mono2)

declare prune_loop.simps [simp del]

definition pruneAttestations :: "bsx \<Rightarrow> int \<Rightarrow> bs \<Rightarrow> bs" where
  "pruneAttestations x currentBlockTime s =
     (case (bs_latest s, bs_earliest s) of
        (Some latest, Some earliest) \<Rightarrow>
          (case prune_loop x currentBlockTime latest earliest s of
             (s, None) \<Rightarrow> s
           | (s, Some n) \<Rightarrow> if n > earliest then SetEarliestAvailableAttestationNonce s n else s)
      | _ \<Rightarrow> s)"

definition EndBlocker :: "bsx \<Rightarrow> int \<Rightarrow> int \<Rightarrow> bs \<Rightarrow> bs result" where
  "EndBlocker x height blockTime s =
     bindR (handleValsetRequest x height blockTime s) (\<lambda>s.
     bindR (handleDataCommitmentRequest x height blockTime s) (\<lambda>s.
       Inr (pruneAttestations x blockTime s)))"

end
