(* ===== verification/BlobstreamState.thy ===== *)
theory BlobstreamState
  imports Blobstream
begin

text \<open>
  The attestation store as a list. \<open>holds u s e as\<close>: the store has exactly the attestations \<open>as\<close>, under
  the consecutive nonces from \<open>e\<close>. Every keeper operation is a list operation: the searches are
  searches of the list, a new attestation is appended, pruning drops a prefix.
\<close>

section \<open>The abstraction\<close>

text \<open>Nonces as numbers.\<close>

definition w64 :: "nat \<Rightarrow> uint64" where
  "w64 n = of_nat n"

lemma unat_w64: "n < 2 ^ 64 \<Longrightarrow> unat (w64 n) = n"
  by (simp add: w64_def unat_of_nat take_bit_nat_eq_self)

lemma w64_unat [simp]: "w64 (unat n) = n"
  by (simp add: w64_def)

lemma w64_le_iff: "m < 2 ^ 64 \<Longrightarrow> n < 2 ^ 64 \<Longrightarrow> w64 m \<le> w64 n \<longleftrightarrow> m \<le> n"
  by (simp add: word_le_nat_alt unat_w64)

lemma w64_less_iff: "m < 2 ^ 64 \<Longrightarrow> n < 2 ^ 64 \<Longrightarrow> w64 m < w64 n \<longleftrightarrow> m < n"
  by (simp add: word_less_nat_alt unat_w64)

lemma w64_Suc: "w64 n + 1 = w64 (Suc n)"
  by (simp add: w64_def)

lemma w64_pred: "1 \<le> n \<Longrightarrow> w64 n - 1 = w64 (n - 1)"
  by (simp add: w64_def of_nat_diff)

lemma eq_w64_iff: "n < 2 ^ 64 \<Longrightarrow> k = w64 n \<longleftrightarrow> unat k = n"
  using unat_w64 w64_unat by metis

definition stored :: "(bytes \<Rightarrow> AttestationRequestI result) \<Rightarrow> (uint64 \<rightharpoonup> bytes) \<Rightarrow> nat \<Rightarrow> AttestationRequestI list \<Rightarrow> bool" where
  "stored u att e as \<longleftrightarrow>
     (\<forall>n. if e \<le> unat n \<and> unat n < e + length as
          then (\<exists>b. att n = Some b \<and> u b = Inr (as ! (unat n - e))) \<and> GetNonce (as ! (unat n - e)) = n
          else att n = None)"

definition holds :: "(bytes \<Rightarrow> AttestationRequestI result) \<Rightarrow> bs \<Rightarrow> nat \<Rightarrow> AttestationRequestI list \<Rightarrow> bool" where
  "holds u s e as \<longleftrightarrow>
     1 \<le> e \<and> e + length as < 2 ^ 63 \<and> bs_earliest s = Some (w64 e)
     \<and> bs_latest s = Some (w64 (e + length as - 1)) \<and> stored u (bs_att s) e as"

definition codec_ok :: "bsx \<Rightarrow> bool" where
  "codec_ok x \<longleftrightarrow> (\<forall>a. \<exists>b. b_marshal x a = Inr b \<and> b_unmarshal x b = Inr a)"

fun pick :: "('a \<Rightarrow> 'r option) \<Rightarrow> 'a list \<Rightarrow> 'r option" where
  "pick f [] = None"
| "pick f (a # as) = (case f a of Some r \<Rightarrow> Some r | None \<Rightarrow> pick f as)"

lemma pick_append: "pick f (xs @ ys) = (case pick f xs of Some r \<Rightarrow> Some r | None \<Rightarrow> pick f ys)"
  by (induction xs) (auto split: option.splits)

lemma pick_None_iff: "pick f xs = None \<longleftrightarrow> (\<forall>a\<in>set xs. f a = None)"
  by (induction xs) (auto split: option.splits)

lemma stored_at:
  assumes "stored (b_unmarshal x) (bs_att s) e as" "k < length as" "e + length as < 2 ^ 64"
  shows "GetAttestationByNonce x s (w64 (e + k)) = Inr (Some (as ! k))" "GetNonce (as ! k) = w64 (e + k)"
proof -
  have "unat (w64 (e + k)) = e + k" using assms(2,3) by (intro unat_w64) simp
  then show "GetAttestationByNonce x s (w64 (e + k)) = Inr (Some (as ! k))" "GetNonce (as ! k) = w64 (e + k)"
    using assms(1,2) unfolding stored_def GetAttestationByNonce_def
    by (auto dest!: spec [of _ "w64 (e + k)"])
qed

section \<open>Searching\<close>

lemma search_down_pick:
  assumes "holds (b_unmarshal x) s e as" "k \<le> length as"
  shows "search_down x s sel missing (w64 e) (w64 (e + k - 1)) = Some (Inr (pick sel (rev (take k as))))"
  using assms(2)
proof (induction k)
  case 0
  have "1 \<le> e" "e < 2 ^ 64" using assms(1) by (auto simp: holds_def)
  then have "\<not> (w64 e) \<le> w64 (e - 1)" by (simp add: w64_le_iff)
  then show ?case by (subst search_down.simps) simp
next
  case (Suc k)
  have h: "e + length as < 2 ^ 63" "1 \<le> e" and st: "stored (b_unmarshal x) (bs_att s) e as"
    using assms(1) by (auto simp: holds_def)
  have "(w64 e) \<le> w64 (e + k)" using h Suc.prems by (subst w64_le_iff) auto
  moreover have "w64 (e + k) - 1 = w64 (e + k - 1)" using h(2) by (intro w64_pred) simp
  moreover have "GetAttestationByNonce x s (w64 (e + k)) = Inr (Some (as ! k))"
    using stored_at(1) [OF st] Suc.prems h(1) by simp
  moreover have "rev (take (Suc k) as) = as ! k # rev (take k as)"
    using Suc.prems by (simp add: take_Suc_conv_app_nth)
  ultimately show ?case
    using Suc by (subst search_down.simps) (auto split: option.splits)
qed

lemma search_up_pick:
  assumes "holds (b_unmarshal x) s e as" "j \<le> length as"
  shows "search_up x s sel missing (w64 (e + length as - 1)) (w64 (e + j)) = Some (Inr (pick sel (drop j as)))"
  using assms(2)
proof (induction "length as - j" arbitrary: j)
  case 0
  have "1 \<le> e" "e + length as < 2 ^ 63" using assms(1) by (auto simp: holds_def)
  then have "\<not> (w64 (e + j)) \<le> w64 (e + length as - 1)"
    using 0 by (subst w64_le_iff) auto
  then show ?case using 0 by (subst search_up.simps) simp
next
  case (Suc d)
  have h: "e + length as < 2 ^ 63" "1 \<le> e" and st: "stored (b_unmarshal x) (bs_att s) e as"
    using assms(1) by (auto simp: holds_def)
  have "(w64 (e + j)) \<le> w64 (e + length as - 1)" using h Suc by (subst w64_le_iff) auto
  moreover have "GetAttestationByNonce x s (w64 (e + j)) = Inr (Some (as ! j))"
    using stored_at(1) [OF st] Suc h(1) by simp
  moreover have "drop j as = as ! j # drop (Suc j) as" using Suc by (simp add: Cons_nth_drop_Suc)
  moreover have "w64 (e + j) + 1 = w64 (e + Suc j)" by (simp add: w64_Suc)
  ultimately show ?case
    using Suc(1) [of "Suc j"] Suc(2,3) by (subst search_up.simps) (auto split: option.splits)
qed

lemma holds_nonces:
  assumes "holds u s e as"
  shows "CheckLatestAttestationNonce s" "CheckEarliestAvailableAttestationNonce s"
    "GetLatestAttestationNonce s = Inr (w64 (e + length as - 1))"
    "GetEarliestAvailableAttestationNonce s = Inr (w64 e)"
  using assms by (auto simp: holds_def CheckLatestAttestationNonce_def CheckEarliestAvailableAttestationNonce_def
      GetLatestAttestationNonce_def GetEarliestAvailableAttestationNonce_def)

lemma GetLatestDataCommitment_holds:
  assumes "holds (b_unmarshal x) s e as"
  shows "GetLatestDataCommitment x s =
    (case pick as_DataCommitment (rev as) of Some d \<Rightarrow> Inr d | None \<Rightarrow> Inl (Err ''data commitment not found''))"
  by (simp add: GetLatestDataCommitment_def holds_nonces [OF assms]
      search_down_pick [OF assms, of "length as", simplified])

lemma HasDataCommitment_holds:
  assumes "holds (b_unmarshal x) s e as"
  shows "HasDataCommitmentInStore x s = Inr (pick as_DataCommitment (rev as) \<noteq> None)"
proof -
  have "pick as_DataCommitment as = None \<longleftrightarrow> pick as_DataCommitment (rev as) = None" by (simp add: pick_None_iff)
  then show ?thesis
    by (simp add: HasDataCommitmentInStore_def holds_nonces [OF assms] search_up_pick [OF assms, of 0, simplified]
        del: not_None_eq)
qed

lemma GetLatestValset_holds:
  assumes "holds (b_unmarshal x) s e as" "pick as_Valset (rev as) = Some v"
  shows "GetLatestValset x h t s = (s, Inr v)"
  by (simp add: GetLatestValset_def holds_nonces [OF assms(1)] assms(2)
      search_down_pick [OF assms(1), of "length as", simplified])

section \<open>Appending\<close>

lemma stored_append:
  assumes "stored u att e as" "e + length as < 2 ^ 63" "GetNonce a = w64 (e + length as)" "u b = Inr a"
  shows "stored u (att(w64 (e + length as) \<mapsto> b)) e (as @ [a])"
  unfolding stored_def
proof
  fix n :: uint64
  have eq: "n = w64 (e + length as) \<longleftrightarrow> unat n = e + length as"
    using assms(2) by (intro eq_w64_iff) simp
  show "if e \<le> unat n \<and> unat n < e + length (as @ [a])
     then (\<exists>b'. (att(w64 (e + length as) \<mapsto> b)) n = Some b' \<and> u b' = Inr ((as @ [a]) ! (unat n - e)))
       \<and> GetNonce ((as @ [a]) ! (unat n - e)) = n
     else (att(w64 (e + length as) \<mapsto> b)) n = None"
    using assms eq spec [OF assms(1) [unfolded stored_def], of n]
    by (cases "unat n = e + length as") (auto simp: nth_append split: if_splits)
qed

lemma SetAttestationRequest_holds:
  assumes "holds (b_unmarshal x) s e as" "codec_ok x" "GetNonce a = w64 (e + length as)"
    "e + length as + 1 < 2 ^ 63"
  shows "\<exists>s'. SetAttestationRequest x s a = Inr s' \<and> holds (b_unmarshal x) s' e (as @ [a])
    \<and> bs_window s' = bs_window s \<and> bs_evm s' = bs_evm s \<and> bs_unbonding s' = bs_unbonding s"
proof -
  have h: "1 \<le> e" "bs_latest s = Some (w64 (e + length as - 1))" "bs_earliest s = Some (w64 e)"
    and st: "stored (b_unmarshal x) (bs_att s) e as"
    using assms(1) by (auto simp: holds_def)
  obtain b where b: "b_marshal x a = Inr b" "b_unmarshal x b = Inr a" using assms(2) by (auto simp: codec_ok_def)
  have "unat (w64 (e + length as)) = e + length as" using assms(4) by (intro unat_w64) simp
  then have none: "bs_att s (w64 (e + length as)) = None"
    using spec [OF st [unfolded stored_def], of "w64 (e + length as)"] by simp
  have "w64 (e + length as - 1) + 1 = w64 (e + length as)" using h(1) by (simp add: w64_Suc)
  then show ?thesis
    using h b none assms(3,4) stored_append [OF st, of a b]
    by (auto simp: SetAttestationRequest_def StoreAttestation_def SetLatestAttestationNonce_def holds_def)
qed

section \<open>Data commitments follow one another\<close>

abbreviation latest_dc :: "AttestationRequestI list \<Rightarrow> DataCommitment option" where
  "latest_dc as \<equiv> pick as_DataCommitment (rev as)"

lemma NextDataCommitment_holds:
  assumes "holds (b_unmarshal x) s e as"
  shows "NextDataCommitment x t s = Inr (case latest_dc as of
      Some d \<Rightarrow> NewDataCommitment (w64 (e + length as)) (dc_EndBlock d) (dc_EndBlock d + GetDataCommitmentWindowParam s) t
    | None \<Rightarrow> NewDataCommitment (w64 (e + length as)) 1 (GetDataCommitmentWindowParam s + 1) t)"
proof -
  have "1 \<le> e" using assms by (simp add: holds_def)
  then have "w64 (e + length as - 1) + 1 = w64 (e + length as)" by (simp add: w64_Suc)
  then show ?thesis
    by (auto simp: NextDataCommitment_def holds_nonces [OF assms] HasDataCommitment_holds [OF assms]
        GetLatestDataCommitment_holds [OF assms] Let_def split: option.splits)
qed

lemma dataCommitmentDue_holds:
  assumes "holds (b_unmarshal x) s e as"
  shows "dataCommitmentDue x h w s = Inr (case latest_dc as of
      Some d \<Rightarrow> w \<le> wrap_int (h - sint (dc_EndBlock d)) | None \<Rightarrow> w \<le> h)"
  by (auto simp: dataCommitmentDue_def panic_on_error_def HasDataCommitment_holds [OF assms]
      GetLatestDataCommitment_holds [OF assms] split: option.splits)

text \<open>
  \<open>linked w b ds e\<close>: the data commitments \<open>ds\<close> cover the blocks from \<open>b\<close> to \<open>e\<close> in windows of \<open>w\<close> blocks.
\<close>

fun linked :: "int \<Rightarrow> int \<Rightarrow> DataCommitment list \<Rightarrow> int \<Rightarrow> bool" where
  "linked w b [] e \<longleftrightarrow> b = e"
| "linked w b (d # ds) e \<longleftrightarrow> uint (dc_BeginBlock d) = b \<and> uint (dc_EndBlock d) = b + w \<and> linked w (b + w) ds e"

definition last_end :: "AttestationRequestI list \<Rightarrow> int" where
  "last_end as = (case latest_dc as of None \<Rightarrow> 1 | Some d \<Rightarrow> uint (dc_EndBlock d))"

lemma last_end_nonneg: "0 \<le> last_end as"
  by (simp add: last_end_def split: option.splits)

definition due :: "int \<Rightarrow> int \<Rightarrow> AttestationRequestI list \<Rightarrow> bool" where
  "due h w as \<longleftrightarrow> w \<le> (if latest_dc as = None then h else h - last_end as)"

lemma sint_small: "uint n < 2 ^ 63 \<Longrightarrow> sint n = uint n" for n :: uint64
  using signed_take_bit_int_eq_self [of 63 "uint n"] uint_ge_0 [of n] by (simp add: sint_uint)

lemma uint_add_small: "uint a + uint b < 2 ^ 64 \<Longrightarrow> uint (a + b) = uint a + uint b" for a b :: uint64
  by (simp add: uint_plus_if_size word_size)

lemma dataCommitmentDue_due:
  assumes "holds (b_unmarshal x) s e as" "0 \<le> h" "h < 2 ^ 62" "last_end as \<le> h + 1"
  shows "dataCommitmentDue x h w s = Inr (due h w as)"
proof -
  have "wrap_int (h - sint (dc_EndBlock d)) = h - last_end as" if "latest_dc as = Some d" for d
  proof -
    have "last_end as = uint (dc_EndBlock d)" using that by (simp add: last_end_def)
    moreover from this have "sint (dc_EndBlock d) = uint (dc_EndBlock d)" using assms(3,4) by (intro sint_small) auto
    moreover have "wrap_int (h - last_end as) = h - last_end as"
      using assms(2-4) last_end_nonneg [of as] by (intro wrap_int_id) auto
    ultimately show ?thesis by simp
  qed
  then show ?thesis
    by (auto simp: dataCommitmentDue_holds [OF assms(1)] due_def split: option.splits)
qed

lemma setDataCommitmentAttestation_holds:
  assumes h: "holds (b_unmarshal x) s e as" "codec_ok x" "e + length as + 1 < 2 ^ 63"
    and w: "uint (GetDataCommitmentWindowParam s) = w" "0 \<le> w"
    and le: "last_end as + w < 2 ^ 63"
  shows "\<exists>s' d. setDataCommitmentAttestation x t s = Inr s' \<and> holds (b_unmarshal x) s' e (as @ [AttDataCommitment d])
    \<and> bs_window s' = bs_window s \<and> bs_evm s' = bs_evm s \<and> bs_unbonding s' = bs_unbonding s
    \<and> uint (dc_BeginBlock d) = last_end as \<and> uint (dc_EndBlock d) = last_end as + w \<and> dc_Time d = t"
proof -
  define d where "d = (case latest_dc as of
      Some d \<Rightarrow> NewDataCommitment (w64 (e + length as)) (dc_EndBlock d) (dc_EndBlock d + GetDataCommitmentWindowParam s) t
    | None \<Rightarrow> NewDataCommitment (w64 (e + length as)) 1 (GetDataCommitmentWindowParam s + 1) t)"
  have "GetNonce (AttDataCommitment d) = w64 (e + length as)"
    by (simp add: d_def NewDataCommitment_def split: option.splits)
  from SetAttestationRequest_holds [OF h(1,2) this h(3)] obtain s' where
    s': "SetAttestationRequest x s (AttDataCommitment d) = Inr s'" "holds (b_unmarshal x) s' e (as @ [AttDataCommitment d])"
      "bs_window s' = bs_window s" "bs_evm s' = bs_evm s" "bs_unbonding s' = bs_unbonding s" by blast
  have "uint (GetDataCommitmentWindowParam s + 1) = w + 1" if "latest_dc as = None"
    using that le w by (subst uint_add_small) (auto simp: last_end_def)
  moreover have "uint (dc_EndBlock d' + GetDataCommitmentWindowParam s) = uint (dc_EndBlock d') + w" if "latest_dc as = Some d'" for d'
    using that le w by (subst uint_add_small) (auto simp: last_end_def)
  ultimately have "uint (dc_BeginBlock d) = last_end as" "uint (dc_EndBlock d) = last_end as + w" "dc_Time d = t"
    by (auto simp: d_def NewDataCommitment_def last_end_def split: option.splits)
  moreover have "setDataCommitmentAttestation x t s = Inr s'"
    using s'(1) by (simp add: setDataCommitmentAttestation_def panic_on_error_def NextDataCommitment_holds [OF h(1)] d_def)
  ultimately show ?thesis using s' by blast
qed

lemma latest_dc_snoc [simp]: "latest_dc (as @ [AttDataCommitment d]) = Some d"
  by simp

lemma handle_loop_holds:
  assumes h: "holds (b_unmarshal x) s e as" "codec_ok x"
    and w: "uint (GetDataCommitmentWindowParam s) = w" "1 \<le> w" "w < 2 ^ 62"
    and b: "0 \<le> h" "h < 2 ^ 62" "last_end as \<le> h + 1" "1 \<le> last_end as"
    and room: "int (e + length as) + (h + 2 - last_end as) < 2 ^ 63"
  shows "\<exists>s' ds. handle_loop x h t w s = Some (Inr s') \<and> holds (b_unmarshal x) s' e (as @ map AttDataCommitment ds)
    \<and> bs_window s' = bs_window s \<and> bs_evm s' = bs_evm s \<and> bs_unbonding s' = bs_unbonding s
    \<and> linked w (last_end as) ds (last_end (as @ map AttDataCommitment ds)) \<and> (\<forall>d\<in>set ds. dc_Time d = t)
    \<and> \<not> due h w (as @ map AttDataCommitment ds) \<and> last_end (as @ map AttDataCommitment ds) \<le> h + 1"
  using h(1) w(1) b(3,4) room
proof (induction "nat (h + 1 - last_end as)" arbitrary: s as rule: less_induct)
  case less
  note du = dataCommitmentDue_due [OF less.prems(1) b(1,2) less.prems(3), of w]
  show ?case
  proof (cases "due h w as")
    case False
    then show ?thesis using du less.prems by (subst handle_loop.simps) (auto intro!: exI [of _ "[]"])
  next
    case True
    then have le: "last_end as + w \<le> h + 1"
      by (auto simp: due_def last_end_def split: if_splits)
    have "int (e + length as + 1) < 2 ^ 63" using less.prems(3,5) by simp
    then have r: "e + length as + 1 < 2 ^ 63" by simp
    have "last_end as + w < 2 ^ 63" using le b(2) by simp
    from setDataCommitmentAttestation_holds [OF less.prems(1) h(2) r less.prems(2) _ this, of t] w(2)
    obtain s' d where s': "setDataCommitmentAttestation x t s = Inr s'" "holds (b_unmarshal x) s' e (as @ [AttDataCommitment d])"
        "bs_window s' = bs_window s" "bs_evm s' = bs_evm s" "bs_unbonding s' = bs_unbonding s"
        "uint (dc_BeginBlock d) = last_end as" "uint (dc_EndBlock d) = last_end as + w" "dc_Time d = t" by auto
    have le': "last_end (as @ [AttDataCommitment d]) = last_end as + w" using s'(7) by (simp add: last_end_def)
    have "GetDataCommitmentWindowParam s' = GetDataCommitmentWindowParam s"
      using s'(3) by (simp add: GetDataCommitmentWindowParam_def)
    then obtain s'' ds where ds: "handle_loop x h t w s' = Some (Inr s'')"
        "holds (b_unmarshal x) s'' e ((as @ [AttDataCommitment d]) @ map AttDataCommitment ds)"
        "bs_window s'' = bs_window s'" "bs_evm s'' = bs_evm s'" "bs_unbonding s'' = bs_unbonding s'"
        "linked w (last_end as + w) ds (last_end ((as @ [AttDataCommitment d]) @ map AttDataCommitment ds))"
        "\<forall>d\<in>set ds. dc_Time d = t" "\<not> due h w ((as @ [AttDataCommitment d]) @ map AttDataCommitment ds)"
        "last_end ((as @ [AttDataCommitment d]) @ map AttDataCommitment ds) \<le> h + 1"
      using less.hyps [of "as @ [AttDataCommitment d]" s'] less.prems s'(2) le le' w(2) by auto
    then show ?thesis
      using du True s' by (subst handle_loop.simps) (auto intro!: exI [of _ "d # ds"])
  qed
qed

section \<open>Pruning\<close>

definition expired :: "int \<Rightarrow> AttestationRequestI \<Rightarrow> bool" where
  "expired t a \<longleftrightarrow> BlockTime a + AttestationExpiryTime \<le> t"

lemma stored_delete:
  assumes "stored u att e (a # as)" "e + length as < 2 ^ 63"
  shows "stored u (att(w64 e := None)) (Suc e) as"
  unfolding stored_def
proof
  fix n :: uint64
  have eq: "n = w64 e \<longleftrightarrow> unat n = e" using assms(2) by (intro eq_w64_iff) simp
  have "(a # as) ! (unat n - e) = as ! (unat n - Suc e)" if "Suc e \<le> unat n"
    using that by (simp add: nth_Cons' Suc_diff_Suc)
  then show "if Suc e \<le> unat n \<and> unat n < Suc e + length as
     then (\<exists>b. (att(w64 e := None)) n = Some b \<and> u b = Inr (as ! (unat n - Suc e)))
       \<and> GetNonce (as ! (unat n - Suc e)) = n
     else (att(w64 e := None)) n = None"
    using eq spec [OF assms(1) [unfolded stored_def], of n] by (auto split: if_splits)
qed

lemma prune_loop_stored:
  assumes "stored (b_unmarshal x) (bs_att s) e as" "e + length as < 2 ^ 63" "1 \<le> e"
  shows "\<exists>s'. prune_loop x t (w64 (e + length as - 1)) (w64 e) s
      = (s', Some (w64 (e + length (takeWhile (expired t) (butlast as)))))
    \<and> stored (b_unmarshal x) (bs_att s') (e + length (takeWhile (expired t) (butlast as)))
        (drop (length (takeWhile (expired t) (butlast as))) as)
    \<and> bs.truncate s' = bs.truncate (s\<lparr>bs_att := bs_att s'\<rparr>)"
  using assms
proof (induction as arbitrary: e s)
  case Nil
  then have "\<not> w64 e < w64 (e - 1)" by (simp add: w64_less_iff)
  with Nil show ?case by (subst prune_loop.simps) (simp add: bs.defs)
next
  case (Cons a as)
  have less: "w64 e < w64 (e + length (a # as) - 1) \<longleftrightarrow> as \<noteq> []"
    using Cons.prems by (subst w64_less_iff) auto
  have at: "GetAttestationByNonce x s (w64 e) = Inr (Some a)"
    using stored_at(1) [OF Cons.prems(1), of 0] Cons.prems(2) by simp
  show ?case
  proof (cases "as \<noteq> [] \<and> expired t a")
    case False
    then show ?thesis
      using less at Cons.prems(1) by (subst prune_loop.simps) (auto simp: expired_def bs.defs)
  next
    case True
    let ?s = "DeleteAttestation s (w64 e)"
    have "bs_att s (w64 e) \<noteq> None" using at by (auto simp: GetAttestationByNonce_def split: option.splits)
    then have d: "?s = s\<lparr>bs_att := (bs_att s)(w64 e := None)\<rparr>" by (auto simp: DeleteAttestation_def)
    have st: "stored (b_unmarshal x) (bs_att ?s) (Suc e) as"
      using stored_delete [OF Cons.prems(1)] Cons.prems(2) by (simp add: d)
    have "\<not> t < BlockTime a + AttestationExpiryTime" using True by (simp add: expired_def)
    then show ?thesis
      using Cons.IH [OF st] Cons.prems(2) less at True
      by (subst prune_loop.simps) (auto simp: d w64_Suc bs.defs)
  qed
qed

lemma prune_holds:
  fixes t :: int and as :: "AttestationRequestI list"
  assumes "holds (b_unmarshal x) s e as"
  defines "k \<equiv> length (takeWhile (expired t) (butlast as))"
  shows "holds (b_unmarshal x) (pruneAttestations x t s) (e + k) (drop k as)"
    "bs_window (pruneAttestations x t s) = bs_window s"
    "bs_evm (pruneAttestations x t s) = bs_evm s" "bs_unbonding (pruneAttestations x t s) = bs_unbonding s"
proof -
  have h: "1 \<le> e" "e + length as < 2 ^ 63" "bs_earliest s = Some (w64 e)"
      "bs_latest s = Some (w64 (e + length as - 1))" "stored (b_unmarshal x) (bs_att s) e as"
    using assms(1) by (auto simp: holds_def)
  obtain s' where s': "prune_loop x t (w64 (e + length as - 1)) (w64 e) s = (s', Some (w64 (e + k)))"
      "stored (b_unmarshal x) (bs_att s') (e + k) (drop k as)" "bs.truncate s' = bs.truncate (s\<lparr>bs_att := bs_att s'\<rparr>)"
    using prune_loop_stored [OF h(5,2,1), of t] unfolding k_def by blast
  have f: "bs_latest s' = bs_latest s" "bs_earliest s' = bs_earliest s" "bs_window s' = bs_window s"
      "bs_evm s' = bs_evm s" "bs_unbonding s' = bs_unbonding s"
    using s'(3) by (simp_all add: bs.defs)
  have k: "k \<le> length as" using length_takeWhile_le [of "expired t" "butlast as"] by (simp add: k_def)
  have gt: "w64 (e + k) > w64 e \<longleftrightarrow> k \<noteq> 0" using h(2) k by (subst w64_less_iff) auto
  have p: "pruneAttestations x t s = (if k = 0 then s' else s'\<lparr>bs_earliest := Some (w64 (e + k))\<rparr>)"
    using h s'(1) gt by (simp add: pruneAttestations_def SetEarliestAvailableAttestationNonce_def)
  have "e + k + length (drop k as) = e + length as" using k by simp
  then show "holds (b_unmarshal x) (pruneAttestations x t s) (e + k) (drop k as)"
    unfolding p using h s'(2) f by (auto simp: holds_def)
  show "bs_window (pruneAttestations x t s) = bs_window s" "bs_evm (pruneAttestations x t s) = bs_evm s"
      "bs_unbonding (pruneAttestations x t s) = bs_unbonding s" unfolding p using f by auto
qed

section \<open>Validator sets\<close>

lemma collect_validators_fields:
  "collect_validators x vals s ibvs n = (s', r) \<Longrightarrow>
   bs_att s' = bs_att s \<and> bs_latest s' = bs_latest s \<and> bs_earliest s' = bs_earliest s
   \<and> bs_window s' = bs_window s \<and> bs_unbonding s' = bs_unbonding s"
proof (induction vals arbitrary: s ibvs n)
  case (Cons v vals)
  show ?case
    using Cons.prems Cons.IH
    by (auto simp: SetEVMAddress_def Let_def split: sum.splits option.splits if_splits fault.splits; fastforce)
qed auto

lemma GetCurrentValset_fields:
  assumes "GetCurrentValset x h t s = (s', r)"
  shows "bs_att s' = bs_att s" "bs_latest s' = bs_latest s" "bs_earliest s' = bs_earliest s"
    "bs_window s' = bs_window s" "bs_unbonding s' = bs_unbonding s"
proof -
  have "s' = s \<or> (\<exists>vals r. collect_validators x vals s [] 0 = (s', r))"
    using assms by (auto simp: GetCurrentValset_def Let_def split: sum.splits if_splits prod.splits)
  then show "bs_att s' = bs_att s" "bs_latest s' = bs_latest s" "bs_earliest s' = bs_earliest s"
    "bs_window s' = bs_window s" "bs_unbonding s' = bs_unbonding s"
    using collect_validators_fields [of x _ s "[]" 0 s'] by auto
qed

lemma holds_cong:
  "bs_att s' = bs_att s \<Longrightarrow> bs_latest s' = bs_latest s \<Longrightarrow> bs_earliest s' = bs_earliest s \<Longrightarrow>
   holds u s' e as = holds u s e as"
  by (simp add: holds_def)

lemma rename_Err_Inr [simp]:
  "(case r of Inl (Err e) \<Rightarrow> Inl (Err m) | r' \<Rightarrow> r') = Inr v \<longleftrightarrow> r = Inr v" for r :: "'a result"
  by (auto split: sum.splits fault.splits)

lemma GetCurrentValset_NewValset:
  assumes "GetCurrentValset x h t s = (s', Inr v)"
  obtains vals ibvs total ibvs' l where "b_bonded x = Inr vals" "vals \<noteq> []"
    "collect_validators x vals s [] 0 = (s', Inr (ibvs, total))" "normalize_all total ibvs = Inr ibvs'"
    "bs_latest s' = Some l" "NewValset x (l + 1) (word_of_int h) ibvs' t = Inr v"
proof -
  obtain vals where vals: "b_bonded x = Inr vals" "vals \<noteq> []"
    using assms by (auto simp: GetCurrentValset_def split: sum.splits if_splits)
  obtain s1 r where c: "collect_validators x vals s [] 0 = (s1, r)" by force
  have s1: "s1 = s'" and e: "bindR r (\<lambda>(bridgeValidators, totalPower).
                bindR (normalize_all totalPower bridgeValidators) (\<lambda>bridgeValidators.
                  if \<not> CheckLatestAttestationNonce s1 then Inl ErrLatestNonceNotInitialized
                  else bindR (GetLatestAttestationNonce s1) (\<lambda>latest.
                    (case NewValset x (latest + 1) (word_of_int h) bridgeValidators t of
                       Inl (Err e) \<Rightarrow> Inl (Err ''generated invalid valset'')
                     | r \<Rightarrow> r)))) = Inr v"
    using assms vals c by (auto simp: GetCurrentValset_def)
  from e obtain ibvs total ibvs' where "r = Inr (ibvs, total)" "normalize_all total ibvs = Inr ibvs'"
      and f: "bindR (GetLatestAttestationNonce s1) (\<lambda>latest.
        (case NewValset x (latest + 1) (word_of_int h) ibvs' t of
           Inl (Err e) \<Rightarrow> Inl (Err ''generated invalid valset'') | r \<Rightarrow> r)) = Inr v"
    by (auto simp: bindR_Inr_iff split: prod.splits if_splits)
  moreover from f obtain l where "GetLatestAttestationNonce s1 = Inr l"
      "NewValset x (l + 1) (word_of_int h) ibvs' t = Inr v"
    by (auto simp: bindR_Inr_iff)
  moreover from this have "bs_latest s1 = Some l" by (auto simp: GetLatestAttestationNonce_def split: option.splits)
  ultimately show thesis using that vals c s1 by blast
qed

lemma GetCurrentValset_ok:
  assumes "GetCurrentValset x h t s = (s', Inr v)" "bs_latest s = Some l"
  shows "vs_Nonce v = l + 1" "vs_Time v = t"
proof -
  from GetCurrentValset_NewValset [OF assms(1)] obtain ibvs l' where
    v: "bs_latest s' = Some l'" "NewValset x (l' + 1) (word_of_int h) ibvs t = Inr v" .
  moreover have "l' = l" using GetCurrentValset_fields(2) [OF assms(1)] assms(2) v(1) by simp
  ultimately show "vs_Nonce v = l + 1" "vs_Time v = t" by (auto simp: NewValset_def result_simps)
qed

lemma putValset_holds:
  assumes "holds (b_unmarshal x) s e as" "codec_ok x" "e + length as + 1 < 2 ^ 63"
    and "putValset x h t s = Inr s'"
  shows "\<exists>v. holds (b_unmarshal x) s' e (as @ [AttValset v]) \<and> vs_Time v = t
    \<and> bs_window s' = bs_window s \<and> bs_unbonding s' = bs_unbonding s"
proof -
  obtain s1 r where c: "GetCurrentValset x h t s = (s1, r)" by force
  then obtain v where v: "r = Inr v" "SetAttestationRequest x s1 (AttValset v) = Inr s'"
    using assms(4) by (auto simp: putValset_def result_simps panic_on_error_def split: sum.splits fault.splits)
  note f = GetCurrentValset_fields [OF c]
  have l: "bs_latest s = Some (w64 (e + length as - 1))" "1 \<le> e" using assms(1) by (auto simp: holds_def)
  have "GetNonce (AttValset v) = w64 (e + length as)"
    using GetCurrentValset_ok(1) [of x h t s s1 v] c v(1) l by (simp add: w64_Suc)
  moreover have "holds (b_unmarshal x) s1 e as" using assms(1) holds_cong [OF f(1-3)] by simp
  ultimately obtain s2 where "SetAttestationRequest x s1 (AttValset v) = Inr s2"
      "holds (b_unmarshal x) s2 e (as @ [AttValset v])" "bs_window s2 = bs_window s1" "bs_unbonding s2 = bs_unbonding s1"
    using SetAttestationRequest_holds [OF _ assms(2) _ assms(3), of s1 "AttValset v"] by auto
  then show ?thesis using v f GetCurrentValset_ok(2) [of x h t s s1 v] c l(1) by auto
qed

lemma GetLatestValset_fields:
  assumes "GetLatestValset x h t s = (s', r)"
  shows "bs_att s' = bs_att s" "bs_latest s' = bs_latest s" "bs_earliest s' = bs_earliest s"
    "bs_window s' = bs_window s" "bs_unbonding s' = bs_unbonding s"
proof -
  have "s' = s \<or> GetCurrentValset x h t s = (s', r)"
    using assms by (auto simp: GetLatestValset_def split: sum.splits if_splits option.splits)
  then show "bs_att s' = bs_att s" "bs_latest s' = bs_latest s" "bs_earliest s' = bs_earliest s"
    "bs_window s' = bs_window s" "bs_unbonding s' = bs_unbonding s"
    using GetCurrentValset_fields [of x h t s s' r] by auto
qed

lemma handleValsetRequest_holds:
  assumes "holds (b_unmarshal x) s e as" "codec_ok x" "e + length as + 1 < 2 ^ 63"
    and "handleValsetRequest x h t s = Inr s'"
  shows "\<exists>vs. holds (b_unmarshal x) s' e (as @ vs) \<and> bs_window s' = bs_window s \<and> bs_unbonding s' = bs_unbonding s
    \<and> (vs = [] \<or> (\<exists>v. vs = [AttValset v] \<and> vs_Time v = t))"
proof (cases "bs_latest s \<noteq> None \<and> bs_latest s \<noteq> Some 0")
  case False
  then have "putValset x h t s = Inr s'" using assms(4) by (auto simp: handleValsetRequest_def split: if_splits)
  from putValset_holds [OF assms(1-3) this] show ?thesis by auto
next
  case True
  obtain s1 r1 where l: "GetLatestValset x h t s = (s1, r1)" by force
  obtain s2 r2 where c: "GetCurrentValset x h t s1 = (s2, r2)" by force
  note f = GetLatestValset_fields [OF l] GetCurrentValset_fields [OF c]
  have h2: "holds (b_unmarshal x) s2 e as" using assms(1) f by (simp add: holds_def)
  have "s' = s2 \<or> putValset x h t s2 = Inr s'"
    using assms(4) True l c by (auto simp: handleValsetRequest_def result_simps split: if_splits)
  then show ?thesis
  proof
    assume "s' = s2"
    then show ?thesis using h2 f by (intro exI [of _ "[]"]) simp
  next
    assume "putValset x h t s2 = Inr s'"
    from putValset_holds [OF h2 assms(2,3) this] f show ?thesis by auto
  qed
qed

section \<open>The end of a block\<close>

text \<open>
  \<open>dcs as\<close> are the data commitments in the order of their nonces; \<open>chained\<close>: each is a non-empty range of
  blocks that begins where the one before it ends.
\<close>

definition dcs :: "AttestationRequestI list \<Rightarrow> DataCommitment list" where
  "dcs as = List.map_filter as_DataCommitment as"

fun chained :: "DataCommitment list \<Rightarrow> bool" where
  "chained [] \<longleftrightarrow> True"
| "chained [d] \<longleftrightarrow> dc_BeginBlock d < dc_EndBlock d"
| "chained (d # d' # ds) \<longleftrightarrow> dc_BeginBlock d < dc_EndBlock d \<and> dc_EndBlock d = dc_BeginBlock d' \<and> chained (d' # ds)"

lemma dcs_simps [simp]:
  "dcs [] = []" "dcs (AttDataCommitment d # as) = d # dcs as" "dcs (AttValset v # as) = dcs as"
  "dcs (as @ bs) = dcs as @ dcs bs" "dcs (map AttDataCommitment ds) = ds"
proof -
  show a: "dcs [] = []" "dcs (AttDataCommitment d # as) = d # dcs as" "dcs (AttValset v # as) = dcs as" for d v as
    by (simp_all add: dcs_def map_filter_simps)
  show "dcs (as @ bs) = dcs as @ dcs bs" by (simp add: dcs_def map_filter_def)
  show "dcs (map AttDataCommitment ds) = ds" by (induction ds) (simp_all add: a)
qed

lemma latest_dc_dcs: "latest_dc as = (if dcs as = [] then None else Some (last (dcs as)))"
proof (induction as rule: rev_induct)
  case (snoc a as)
  then show ?case by (cases a) auto
qed simp

lemma chained_append:
  "chained (ds @ es) \<longleftrightarrow> chained ds \<and> chained es \<and> (ds \<noteq> [] \<longrightarrow> es \<noteq> [] \<longrightarrow> dc_EndBlock (last ds) = dc_BeginBlock (hd es))"
proof (induction ds rule: chained.induct)
  case (2 d)
  then show ?case by (cases es) auto
qed auto

lemma linked_chained:
  "linked w b ds e \<Longrightarrow> 1 \<le> w \<Longrightarrow> chained ds \<and> (ds \<noteq> [] \<longrightarrow> uint (dc_BeginBlock (hd ds)) = b)"
proof (induction ds arbitrary: b rule: chained.induct)
  case (2 d)
  then show ?case by (auto simp: word_less_def)
next
  case (3 d d' ds)
  then have "uint (dc_EndBlock d) = uint (dc_BeginBlock d')" by auto
  then have "dc_EndBlock d = dc_BeginBlock d'" by (simp only: word_uint_eq_iff)
  with 3 show ?case by (fastforce simp: word_less_def)
qed auto

end
