(* ===== verification/BlobstreamChain.thy ===== *)
theory BlobstreamChain
  imports BlobstreamState
begin

text \<open>
  The module over the life of the chain: a relation of its states from genesis through the messages,
  the hooks and the ends of the blocks, and the invariant that all of them keep. Every block may see
  another staking state, so each step has its own \<open>bsx\<close>; only the codec of the stored attestations is
  the same throughout.
\<close>

section \<open>Reachable states\<close>

definition empty_bs :: bs where
  "empty_bs = \<lparr>bs_att = Map.empty, bs_latest = None, bs_earliest = None, bs_unbonding = None, bs_evm = [],
     bs_window = None\<rparr>"

inductive reach :: "(bytes \<Rightarrow> AttestationRequestI result) \<Rightarrow> uint64 \<Rightarrow> int \<Rightarrow> bs \<Rightarrow> bool" for u limit where
  genesis: "validateDataCommitmentWindow limit w = Inr () \<Longrightarrow> InitGenesis_bs empty_bs w = Inr s \<Longrightarrow> reach u limit 0 s"
| block: "reach u limit h s \<Longrightarrow> codec_ok x \<Longrightarrow> b_unmarshal x = u \<Longrightarrow> EndBlocker x (h + 1) t s = Inr s' \<Longrightarrow>
    reach u limit (h + 1) s'"
| register: "reach u limit h s \<Longrightarrow> RegisterEvmAddress x a e s = Inr s' \<Longrightarrow> reach u limit h s'"
| created: "reach u limit h s \<Longrightarrow> AfterValidatorCreated x v s = Inr s' \<Longrightarrow> reach u limit h s'"
| unbonding: "reach u limit h s \<Longrightarrow> reach u limit h (AfterValidatorBeginUnbonding height s)"
| params: "reach u limit h s \<Longrightarrow> validateDataCommitmentWindow limit w = Inr () \<Longrightarrow>
    UpdateParams_bs auth auth' w s = Inr s' \<Longrightarrow> reach u limit h s'"

section \<open>The invariant\<close>

definition window_ok :: "bs \<Rightarrow> bool" where
  "window_ok s \<longleftrightarrow> 1 \<le> uint (GetDataCommitmentWindowParam s) \<and> uint (GetDataCommitmentWindowParam s) < 2 ^ 62"

definition bs_inv :: "(bytes \<Rightarrow> AttestationRequestI result) \<Rightarrow> int \<Rightarrow> bs \<Rightarrow> nat \<Rightarrow> AttestationRequestI list \<Rightarrow> bool" where
  "bs_inv u h s e as \<longleftrightarrow>
     holds u s e as \<and> chained (dcs as) \<and> last_end as \<le> h + 1 \<and> 1 \<le> last_end as
     \<and> int (e + length as) \<le> 1 + h * (h + 3) \<and> window_ok s"

lemma linked_length: "linked w b ds e \<Longrightarrow> e - b = w * int (length ds)"
proof (induction ds arbitrary: b)
  case (Cons d ds)
  then show ?case using Cons.IH [of "b + w"] by (simp add: algebra_simps)
qed simp

lemma last_end_dcs: "last_end as = (if dcs as = [] then 1 else uint (dc_EndBlock (last (dcs as))))"
  by (simp add: last_end_def latest_dc_dcs)

lemma last_end_eq:
  "dcs as \<noteq> [] \<Longrightarrow> dcs bs \<noteq> [] \<Longrightarrow> last (dcs as) = last (dcs bs) \<Longrightarrow> last_end as = last_end bs"
  by (simp add: last_end_dcs)

lemma square_small: "0 \<le> h \<Longrightarrow> h < 2 ^ 30 \<Longrightarrow> 1 + h * (h + 3) + (h + 4) < 2 ^ 62" for h :: int
proof -
  assume h: "0 \<le> h" "h < 2 ^ 30"
  have "h * (h + 3) \<le> 2 ^ 30 * (2 ^ 30 + 3)" using h by (intro mult_mono) auto
  then show ?thesis using h by simp
qed

text \<open>What a block adds and removes, once its validator set request went through.\<close>

lemma EndBlocker_step:
  assumes inv: "bs_inv (b_unmarshal x) h s e as" and h: "0 \<le> h" "h < 2 ^ 30" and x: "codec_ok x"
    and vs: "handleValsetRequest x (h + 1) t s = Inr s1"
  shows "\<exists>s' vs ds k. EndBlocker x (h + 1) t s = Inr s'
    \<and> bs_inv (b_unmarshal x) (h + 1) s' (e + k) (drop k (as @ vs @ map AttDataCommitment ds))
    \<and> (vs = [] \<or> (\<exists>v. vs = [AttValset v] \<and> vs_Time v = t)) \<and> (\<forall>d\<in>set ds. dc_Time d = t)
    \<and> k = length (takeWhile (expired t) (butlast (as @ vs @ map AttDataCommitment ds)))
    \<and> \<not> due (h + 1) (uint (GetDataCommitmentWindowParam s)) (as @ vs @ map AttDataCommitment ds)"
proof -
  let ?u = "b_unmarshal x" and ?w = "uint (GetDataCommitmentWindowParam s)"
  have i: "holds ?u s e as" "chained (dcs as)" "last_end as \<le> h + 1" "1 \<le> last_end as"
      "int (e + length as) \<le> 1 + h * (h + 3)" "1 \<le> ?w" "?w < 2 ^ 62"
    using inv by (auto simp: bs_inv_def window_ok_def)
  note small = square_small [OF h]
  have "int (e + length as + 1) < int (2 ^ 63)" using i(5) small h by simp
  then have room: "e + length as + 1 < 2 ^ 63" by (simp only: of_nat_less_iff)
  obtain vs where v: "holds ?u s1 e (as @ vs)" "bs_window s1 = bs_window s"
      "vs = [] \<or> (\<exists>v. vs = [AttValset v] \<and> vs_Time v = t)"
    using handleValsetRequest_holds [OF i(1) x room vs] by blast
  have dv: "dcs (as @ vs) = dcs as" "last_end (as @ vs) = last_end as" "length vs \<le> 1"
    using v(3) by (auto simp: last_end_dcs)
  have w1: "GetDataCommitmentWindowParam s1 = GetDataCommitmentWindowParam s"
    using v(2) by (simp add: GetDataCommitmentWindowParam_def)
  have "int (e + length (as @ vs)) + (h + 1 + 2 - last_end (as @ vs)) < 2 ^ 63"
    using i(4,5) small dv by simp
  then obtain s2 ds where d: "handle_loop x (h + 1) t ?w s1 = Some (Inr s2)"
      "holds ?u s2 e ((as @ vs) @ map AttDataCommitment ds)" "bs_window s2 = bs_window s1"
      "linked ?w (last_end (as @ vs)) ds (last_end ((as @ vs) @ map AttDataCommitment ds))"
      "\<forall>d\<in>set ds. dc_Time d = t" "\<not> due (h + 1) ?w ((as @ vs) @ map AttDataCommitment ds)"
      "last_end ((as @ vs) @ map AttDataCommitment ds) \<le> h + 1 + 1"
    using handle_loop_holds [OF v(1) x, of ?w "h + 1" t] w1 i(3,4,6,7) h dv(2) by auto
  let ?as = "as @ vs @ map AttDataCommitment ds"
  define k where "k = length (takeWhile (expired t) (butlast ?as))"
  have "sint (GetDataCommitmentWindowParam s1) = ?w" using i(7) w1 by (simp add: sint_small)
  then have eb: "EndBlocker x (h + 1) t s = Inr (pruneAttestations x t s2)"
    using vs d(1) by (simp add: EndBlocker_def handleDataCommitmentRequest_def)
  have p: "holds ?u (pruneAttestations x t s2) (e + k) (drop k ?as)" "bs_window (pruneAttestations x t s2) = bs_window s"
    using prune_holds [OF d(2), of t] d(3) v(2) by (auto simp: k_def)
  have ch: "chained (dcs as @ ds)"
    using linked_chained [OF d(4) i(6)] i(2) dv(2) unfolding chained_append
    by (auto simp: last_end_dcs word_uint_eq_iff)
  have kle: "k \<le> length ?as" using length_takeWhile_le [of "expired t" "butlast ?as"] by (simp add: k_def)
  have all: "dcs ?as = dcs as @ ds" using dv(1) by simp
  have split: "dcs as @ ds = dcs (take k ?as) @ dcs (drop k ?as)"
    using dcs_simps(4) [of "take k ?as" "drop k ?as"] unfolding append_take_drop_id all .
  have "chained (dcs (drop k ?as))" using ch unfolding split chained_append by blast
  moreover have "last_end (drop k ?as) \<le> h + 2 \<and> 1 \<le> last_end (drop k ?as)"
  proof (cases "dcs (drop k ?as) = []")
    case True
    then show ?thesis using h by (simp add: last_end_dcs)
  next
    case False
    then have "last (dcs (drop k ?as)) = last (dcs ?as)" using split all by simp
    moreover have "dcs ?as \<noteq> []" using False split all by auto
    ultimately have "last_end (drop k ?as) = last_end ?as" using last_end_eq [OF False] by blast
    moreover have "0 \<le> ?w * int (length ds)" by simp
    then have "last_end as \<le> last_end ?as"
      using linked_length [OF d(4)] unfolding dv(2) append_assoc by linarith
    ultimately show ?thesis using d(7) i(4) by simp
  qed
  moreover have "int (length ds) \<le> h + 1"
  proof -
    have "1 * int (length ds) \<le> ?w * int (length ds)" using i(6) by (intro mult_right_mono) auto
    then show ?thesis using linked_length [OF d(4)] d(7) i(4) dv(2) by simp
  qed
  then have "int (e + k + length (drop k ?as)) \<le> 1 + (h + 1) * (h + 1 + 3)"
    using i(5) kle dv(3) h by (simp add: algebra_simps)
  moreover have "window_ok (pruneAttestations x t s2)"
    using i(6,7) p(2) by (simp add: window_ok_def GetDataCommitmentWindowParam_def)
  ultimately have "bs_inv ?u (h + 1) (pruneAttestations x t s2) (e + k) (drop k ?as)"
    using p(1) by (simp add: bs_inv_def)
  then show ?thesis
    using eb v(3) d(5,6) k_def by (intro exI [of _ "pruneAttestations x t s2"] exI [of _ vs] exI [of _ ds] exI [of _ k]) simp
qed

section \<open>All reachable states\<close>

lemma inv_other_fields [simp]:
  "bs_inv u h (s\<lparr>bs_evm := m\<rparr>) e as = bs_inv u h s e as"
  "bs_inv u h (s\<lparr>bs_unbonding := n\<rparr>) e as = bs_inv u h s e as"
  by (simp_all add: bs_inv_def holds_def window_ok_def GetDataCommitmentWindowParam_def)

lemma RegisterEvmAddress_ok:
  assumes "RegisterEvmAddress x a e s = Inr s'"
  shows "\<exists>val. b_accAddress x a = Inr val \<and> IsEVMAddressUnique s (b_hexToAddress x e)
    \<and> s' = SetEVMAddress s val (b_hexToAddress x e)"
proof -
  obtain val where "b_accAddress x a = Inr val" using assms by (auto simp: RegisterEvmAddress_def)
  then show ?thesis
    using assms by (cases "b_getValidator x val") (auto simp: RegisterEvmAddress_def Let_def split: if_splits)
qed

lemma window_valid:
  assumes "validateDataCommitmentWindow limit w = Inr ()" "uint limit < 2 ^ 62"
  shows "1 \<le> uint w \<and> uint w < 2 ^ 62"
  using assms by (auto simp: validateDataCommitmentWindow_def MinimumDataCommitmentWindow_def word_less_def split: if_splits)

lemma genesis_inv:
  assumes "validateDataCommitmentWindow limit w = Inr ()" "uint limit < 2 ^ 62" "InitGenesis_bs empty_bs w = Inr s"
  shows "bs_inv u 0 s 1 []"
  using assms(3) window_valid [OF assms(1,2)]
  by (auto simp: InitGenesis_bs_def SetLatestAttestationNonce_def SetParams_bs_def empty_bs_def
      SetEarliestAvailableAttestationNonce_def bs_inv_def holds_def stored_def last_end_def w64_def window_ok_def
      GetDataCommitmentWindowParam_def)

lemma EndBlocker_valset:
  "EndBlocker x h t s = Inr s' \<Longrightarrow> \<exists>s1. handleValsetRequest x h t s = Inr s1"
  by (auto simp: EndBlocker_def result_simps)

lemma reach_height: "reach u limit h s \<Longrightarrow> 0 \<le> h"
  by (induction rule: reach.induct) auto

lemma reach_inv:
  assumes "reach u limit h s" "uint limit < 2 ^ 62" "h < 2 ^ 30"
  shows "\<exists>e as. bs_inv u h s e as"
  using assms(1,3)
proof (induction rule: reach.induct)
  case (genesis w s)
  then show ?case using genesis_inv [OF _ assms(2)] by blast
next
  case (block h s x t s')
  then obtain e as where "bs_inv (b_unmarshal x) h s e as" by auto
  then show ?case
    using EndBlocker_step [of x h s e as t] EndBlocker_valset [OF block(4)] block reach_height [OF block(1)] by fastforce
next
  case (register h s x a e s')
  then have "\<exists>m. s' = s\<lparr>bs_evm := m\<rparr>" using RegisterEvmAddress_ok by (fastforce simp: SetEVMAddress_def)
  with register show ?case by (metis inv_other_fields(1))
next
  case (created h s x v s')
  then have "\<exists>m. s' = s\<lparr>bs_evm := m\<rparr>"
    by (auto simp: AfterValidatorCreated_def SetEVMAddress_def Let_def split: if_splits)
  with created show ?case by (metis inv_other_fields(1))
next
  case (unbonding h s height)
  then show ?case
    by (simp add: AfterValidatorBeginUnbonding_def SetLatestUnBondingBlockHeight_def)
next
  case (params h s w auth auth' s')
  then obtain e as where "bs_inv u h s e as" by auto
  moreover have "s' = s\<lparr>bs_window := Some w\<rparr>"
    using params(3) by (auto simp: UpdateParams_bs_def SetParams_bs_def split: if_splits)
  ultimately show ?case
    using window_valid [OF params(2) assms(2)]
    by (auto simp: bs_inv_def holds_def window_ok_def GetDataCommitmentWindowParam_def)
qed

section \<open>Queries by height\<close>

lemma chained_bounds: "chained (d # ds) \<Longrightarrow> c \<in> set (d # ds) \<Longrightarrow>
    dc_BeginBlock d \<le> dc_BeginBlock c \<and> dc_EndBlock c \<le> dc_EndBlock (last (d # ds)) \<and> dc_BeginBlock c < dc_EndBlock c"
proof (induction ds arbitrary: d c)
  case (Cons d' ds)
  have ch: "chained (d' # ds)" "dc_BeginBlock d < dc_EndBlock d" "dc_EndBlock d = dc_BeginBlock d'"
    using Cons.prems(1) by auto
  have h: "dc_BeginBlock d' < dc_EndBlock d'" "dc_EndBlock d' \<le> dc_EndBlock (last (d' # ds))"
    using Cons.IH [OF ch(1), of d'] by auto
  show ?case
  proof (cases "c = d")
    case True
    then show ?thesis using ch h by auto
  next
    case False
    then have "c \<in> set (d' # ds)" using Cons.prems(2) by auto
    from Cons.IH [OF ch(1) this] ch show ?thesis by auto
  qed
qed auto

lemma chained_unique:
  "chained ds \<Longrightarrow> c \<in> set ds \<Longrightarrow> d \<in> set ds \<Longrightarrow> dc_BeginBlock c \<le> n \<Longrightarrow> n < dc_EndBlock c \<Longrightarrow>
   dc_BeginBlock d \<le> n \<Longrightarrow> n < dc_EndBlock d \<Longrightarrow> c = d"
proof (induction ds)
  case (Cons e ds)
  have later: "dc_EndBlock e \<le> dc_BeginBlock f" if f: "f \<in> set ds" for f
  proof (cases ds)
    case (Cons e' ds')
    then show ?thesis using Cons.prems(1) chained_bounds [of e' ds' f] f by auto
  qed (use f in simp)
  have "chained ds" using Cons.prems(1) by (cases ds) auto
  then show ?case using Cons later by (metis leD order.strict_trans2 set_ConsD)
qed simp

lemma dcs_set: "d \<in> set (dcs as) \<longleftrightarrow> AttDataCommitment d \<in> set as"
proof (induction as)
  case (Cons a as)
  then show ?case by (cases a) auto
qed simp

lemma pick_Some: "pick f xs = Some r \<Longrightarrow> \<exists>a\<in>set xs. f a = Some r"
  by (induction xs) (auto split: option.splits)

lemma GetDataCommitmentForHeight_iff:
  assumes "holds (b_unmarshal x) s e as" "chained (dcs as)"
  shows "GetDataCommitmentForHeight x s n = Inr d \<longleftrightarrow>
    d \<in> set (dcs as) \<and> dc_BeginBlock d \<le> n \<and> n < dc_EndBlock d"
proof -
  define sel where "sel = (\<lambda>att. case as_DataCommitment att of None \<Rightarrow> None
    | Some dcc \<Rightarrow> if dc_BeginBlock dcc \<le> n \<and> n < dc_EndBlock dcc then Some dcc else None)"
  have eq: "GetDataCommitmentForHeight x s n =
      (if dcs as = [] then Inl (Err ''data commitment not found'')
       else if dc_EndBlock (last (dcs as)) < n
       then Inl (Err ''no data commitment has been generated for the provided height'')
       else (case pick sel (rev as) of Some d \<Rightarrow> Inr d | None \<Rightarrow> Inl (Err ''data commitment not found'')))"
    by (simp add: GetDataCommitmentForHeight_def GetLatestDataCommitment_holds [OF assms(1)] latest_dc_dcs
        holds_nonces [OF assms(1)] search_down_pick [OF assms(1), of "length as", simplified] sel_def)
  have sel_iff: "sel a = Some d \<longleftrightarrow> a = AttDataCommitment d \<and> dc_BeginBlock d \<le> n \<and> n < dc_EndBlock d" for a d
    by (cases a) (auto simp: sel_def)
  show ?thesis
  proof
    assume "GetDataCommitmentForHeight x s n = Inr d"
    then have "pick sel (rev as) = Some d" unfolding eq by (auto split: if_splits option.splits)
    from pick_Some [OF this] show "d \<in> set (dcs as) \<and> dc_BeginBlock d \<le> n \<and> n < dc_EndBlock d"
      unfolding sel_iff by (auto simp: dcs_set)
  next
    assume d: "d \<in> set (dcs as) \<and> dc_BeginBlock d \<le> n \<and> n < dc_EndBlock d"
    then obtain c ds where cs: "dcs as = c # ds" by (cases "dcs as") auto
    have "dc_EndBlock d \<le> dc_EndBlock (last (dcs as))" using chained_bounds [of c ds d] assms(2) d cs by simp
    then have "\<not> dc_EndBlock (last (dcs as)) < n" using d by (metis leD order.strict_trans2 less_imp_le)
    moreover have "AttDataCommitment d \<in> set (rev as)" "sel (AttDataCommitment d) \<noteq> None"
      using d sel_iff [of "AttDataCommitment d" d] by (auto simp: dcs_set)
    then have "pick sel (rev as) \<noteq> None" using pick_None_iff by metis
    then obtain d' where d': "pick sel (rev as) = Some d'" by auto
    from pick_Some [OF this] have "d' \<in> set (dcs as) \<and> dc_BeginBlock d' \<le> n \<and> n < dc_EndBlock d'"
      unfolding sel_iff by (auto simp: dcs_set)
    then have "d' = d" using chained_unique [OF assms(2)] d by blast
    ultimately show "GetDataCommitmentForHeight x s n = Inr d" unfolding eq using d' cs by simp
  qed
qed

end
