(* ===== verification/BlobstreamValset.thy ===== *)
theory BlobstreamValset
  imports BlobstreamChain
begin

text \<open>
  The validator sets of \<^verbatim>\<open>GetCurrentValset\<close>: normalised powers, thresholds and addresses, and the
  condition under which no validator set can be made.
\<close>

section \<open>Powers\<close>

text \<open>The staking module keeps powers in an \<^verbatim>\<open>int64\<close>.\<close>

definition powers_bounded :: "bsx \<Rightarrow> bool" where
  "powers_bounded x \<longleftrightarrow> (\<forall>val p. b_lastPower x val = Inr p \<longrightarrow> p < 2 ^ 63)"

definition powers :: "InternalBridgeValidator list \<Rightarrow> int" where
  "powers ibvs = sum_list (map (\<lambda>i. uint (iv_Power i)) ibvs)"

lemma NewInternal_ok:
  "NewInternalBridgeValidator x bv = Inr i \<Longrightarrow> iv_Power i = bv_Power bv \<and> iv_Power i \<noteq> 0"
  by (auto simp: NewInternalBridgeValidator_def ValidateBasic_iv_def Let_def result_simps split: if_splits)

lemma collect_validators_total:
  assumes "collect_validators x vals s ibvs n = (s', Inr (ibvs', n'))"
    and "powers_bounded x"
    and "n = powers ibvs" "\<forall>i\<in>set ibvs. iv_Power i \<noteq> 0"
  shows "n' = powers ibvs' \<and> (\<forall>i\<in>set ibvs'. iv_Power i \<noteq> 0) \<and> length ibvs' = length ibvs + length vals"
  using assms(1,3,4)
proof (induction vals arbitrary: s ibvs n)
  case (Cons v vals)
  obtain val where val: "b_valAddress x v = Inr val" using Cons.prems(1) by (auto split: sum.splits)
  obtain p where p: "b_lastPower x val = Inr p" using Cons.prems(1) val by (auto split: sum.splits)
  obtain s1 evm where s1: "(case GetEVMAddress x s val of Some a \<Rightarrow> (s, a)
      | None \<Rightarrow> (SetEVMAddress s val (DefaultEvmAddress x val), DefaultEvmAddress x val)) = (s1, evm)" by force
  have p0: "0 \<le> p" using Cons.prems(1) val p s1 by (auto split: if_splits)
  obtain i where i: "NewInternalBridgeValidator x \<lparr>bv_Power = word_of_int p, bv_EvmAddress = b_hex x evm\<rparr> = Inr i"
    using Cons.prems(1) val p s1 p0 by (auto split: sum.splits fault.splits)
  have rest: "collect_validators x vals s1 (ibvs @ [i]) (n + p) = (s', Inr (ibvs', n'))"
    using Cons.prems(1) val p s1 p0 i by simp
  have "uint (iv_Power i) = p"
  proof -
    have "p < 2 ^ 63" using assms(2) p by (auto simp: powers_bounded_def)
    then show ?thesis using NewInternal_ok [OF i] p0 by (simp add: uint_word_of_int take_bit_int_eq_self)
  qed
  moreover have "iv_Power i \<noteq> 0" using NewInternal_ok [OF i] by blast
  ultimately have "n + p = powers (ibvs @ [i])" "\<forall>i\<in>set (ibvs @ [i]). iv_Power i \<noteq> 0"
    using Cons.prems(2,3) by (simp_all add: powers_def)
  from Cons.IH [OF rest this] show ?case by simp
qed simp

lemma normalize_all_ok:
  assumes "0 < tot"
  shows "normalize_all tot ibvs =
    Inr (map (\<lambda>i. i\<lparr>iv_Power := word_of_int (uint (iv_Power i) * 4294967296 div tot)\<rparr>) ibvs)"
  unfolding normalize_all_def
  by (rule mapR_map) (use assms in \<open>simp add: normalizeValidatorPower_def\<close>)

lemma div_sum_le: "sum_list (map (\<lambda>a. f a div c) xs) \<le> sum_list (map f xs) div c" if "0 < c" for c :: int
proof (induction xs)
  case (Cons a xs)
  have "f a div c + sum_list (map f xs) div c \<le> (f a + sum_list (map f xs)) div c"
  proof -
    have "0 \<le> (f a mod c + sum_list (map f xs) mod c) div c"
      using that by (simp add: pos_imp_zdiv_nonneg_iff)
    then show ?thesis using div_add1_eq [of "f a" "sum_list (map f xs)" c] by linarith
  qed
  with Cons show ?case by simp
qed simp

lemma powers_pos: "ibvs \<noteq> [] \<Longrightarrow> \<forall>i\<in>set ibvs. iv_Power i \<noteq> 0 \<Longrightarrow> 0 < powers ibvs"
proof (induction ibvs)
  case (Cons i ibvs)
  have "uint (iv_Power i) \<noteq> 0" using Cons.prems(2) by (simp add: uint_0_iff)
  then have "0 < uint (iv_Power i)" using uint_ge_0 [of "iv_Power i"] by linarith
  moreover have "0 \<le> powers ibvs" by (auto simp: powers_def intro!: sum_list_nonneg)
  ultimately show ?case by (simp add: powers_def)
qed simp

lemma member_power_le: "i \<in> set ibvs \<Longrightarrow> uint (iv_Power i) \<le> powers ibvs"
proof (induction ibvs)
  case (Cons j ibvs)
  moreover have "0 \<le> powers ibvs" by (auto simp: powers_def intro!: sum_list_nonneg)
  ultimately show ?case by (auto simp: powers_def intro: add_increasing)
qed simp

lemma normalized_power:
  assumes "i \<in> set ibvs" "0 < powers ibvs"
  shows "uint (word_of_int (uint (iv_Power i) * 4294967296 div powers ibvs) :: uint64)
    = uint (iv_Power i) * 4294967296 div powers ibvs" "uint (iv_Power i) * 4294967296 div powers ibvs \<le> 2 ^ 32"
proof -
  have "uint (iv_Power i) * 4294967296 \<le> powers ibvs * 4294967296" using member_power_le [OF assms(1)] by simp
  then have "uint (iv_Power i) * 4294967296 div powers ibvs \<le> powers ibvs * 4294967296 div powers ibvs"
    using assms(2) by (intro zdiv_mono1)
  then show le: "uint (iv_Power i) * 4294967296 div powers ibvs \<le> 2 ^ 32" using assms(2) by simp
  have "0 \<le> uint (iv_Power i) * 4294967296 div powers ibvs" using assms(2) by (simp add: pos_imp_zdiv_nonneg_iff)
  then show "uint (word_of_int (uint (iv_Power i) * 4294967296 div powers ibvs) :: uint64)
    = uint (iv_Power i) * 4294967296 div powers ibvs"
    using le by (simp add: uint_word_of_int take_bit_int_eq_self)
qed

lemma valset_powers:
  assumes "GetCurrentValset x h t s = (s', Inr v)"
    and "powers_bounded x"
  shows "sum_list (map (\<lambda>m. uint (bv_Power m)) (vs_Members v)) \<le> 2 ^ 32"
    "\<forall>m\<in>set (vs_Members v). bv_Power m \<noteq> 0" "vs_Members v \<noteq> []"
    "distinct (map bv_EvmAddress (vs_Members v))"
proof -
  from GetCurrentValset_NewValset [OF assms(1)] obtain vals ibvs tot ibvs' l where
    c: "vals \<noteq> []" "collect_validators x vals s [] 0 = (s', Inr (ibvs, tot))" "normalize_all tot ibvs = Inr ibvs'"
      "NewValset x (l + 1) (word_of_int h) ibvs' t = Inr v" .
  have t: "tot = powers ibvs" "\<forall>i\<in>set ibvs. iv_Power i \<noteq> 0" "length ibvs = length vals"
    using collect_validators_total [OF c(2) assms(2)] by (auto simp: powers_def)
  then have "ibvs \<noteq> []" using c(1) by auto
  then have pos: "0 < tot" using powers_pos t by simp
  have n: "ibvs' = map (\<lambda>i. i\<lparr>iv_Power := word_of_int (uint (iv_Power i) * 4294967296 div tot)\<rparr>) ibvs"
    using c(3) normalize_all_ok [OF pos, of ibvs] by simp
  have v: "ValidateBasic_ivs x ibvs' = Inr ()" "vs_Members v = map (ToExternal_iv x) (Sort_ivs x ibvs')"
    using c(4) by (auto simp: NewValset_def result_simps)
  have ms: "mset (vs_Members v) = mset (map (ToExternal_iv x) ibvs')"
    unfolding v(2) by (simp add: Sort_ivs_def)
  have "sum_list (map (\<lambda>m. uint (bv_Power m)) (vs_Members v)) = sum_list (map (\<lambda>m. uint (bv_Power m)) (map (ToExternal_iv x) ibvs'))"
    by (simp only: sum_mset_sum_list [symmetric] mset_map ms)
  also have "\<dots> = sum_list (map (\<lambda>i. uint (iv_Power i) * 4294967296 div tot) ibvs)"
    unfolding n map_map comp_def using normalized_power(1) [of _ ibvs] pos t(1)
    by (intro arg_cong [where f = sum_list] map_cong) (auto simp: ToExternal_iv_def)
  also have "\<dots> \<le> sum_list (map (\<lambda>i. uint (iv_Power i) * 4294967296) ibvs) div tot"
    by (rule div_sum_le [OF pos])
  also have "\<dots> = 2 ^ 32" using pos t(1) by (simp add: sum_list_mult_const powers_def)
  finally show "sum_list (map (\<lambda>m. uint (bv_Power m)) (vs_Members v)) \<le> 2 ^ 32" .
  have set: "set (vs_Members v) = ToExternal_iv x ` set ibvs'" using ms by (metis mset_eq_setD set_map)
  have "foldR (\<lambda>i _. ValidateBasic_iv i) ibvs' () = Inr ()" "\<not> HasDuplicates x ibvs'" "ibvs' \<noteq> []"
    using v(1) by (auto simp: ValidateBasic_ivs_def result_simps split: if_splits)
  then have "\<forall>i\<in>set ibvs'. ValidateBasic_iv i = Inr ()" "distinct (map (\<lambda>i. b_hex x (iv_EVMAddress i)) ibvs')"
    by (auto simp: foldR_check_iff HasDuplicates_def intro: card_distinct simp: length_remdups_card_conv)
  then show "\<forall>m\<in>set (vs_Members v). bv_Power m \<noteq> 0"
    unfolding set by (auto simp: ToExternal_iv_def ValidateBasic_iv_def split: if_splits)
  show "vs_Members v \<noteq> []" using set \<open>ibvs' \<noteq> []\<close> by auto
  have "mset (map bv_EvmAddress (vs_Members v)) = mset (map bv_EvmAddress (map (ToExternal_iv x) ibvs'))"
    by (simp only: mset_map ms)
  also have "map bv_EvmAddress (map (ToExternal_iv x) ibvs') = map (\<lambda>i. b_hex x (iv_EVMAddress i)) ibvs'"
    by (simp add: ToExternal_iv_def)
  finally show "distinct (map bv_EvmAddress (vs_Members v))"
    using \<open>distinct (map (\<lambda>i. b_hex x (iv_EVMAddress i)) ibvs')\<close> mset_eq_imp_distinct_iff by blast
qed

text \<open>The threshold is more than two thirds of the power and does not wrap around.\<close>

lemma threshold_eq:
  assumes "sum_list (map (\<lambda>m. uint (bv_Power m)) (vs_Members v)) \<le> 2 ^ 32"
  shows "uint (TwoThirdsThreshold v) = 2 * (sum_list (map (\<lambda>m. uint (bv_Power m)) (vs_Members v)) div 3 + 1)"
proof -
  have "foldl (\<lambda>t m. t + bv_Power m) a ms = a + sum_list (map bv_Power ms)" for a and ms :: "BridgeValidator list"
    by (induction ms arbitrary: a) simp_all
  moreover have "uint (sum_list (map bv_Power ms)) = sum_list (map (\<lambda>m. uint (bv_Power m)) ms)"
      if "sum_list (map (\<lambda>m. uint (bv_Power m)) ms) \<le> 2 ^ 32" for ms :: "BridgeValidator list"
    using that
  proof (induction ms)
    case (Cons m ms)
    have "uint (bv_Power m) + sum_list (map (\<lambda>m. uint (bv_Power m)) ms) \<le> 2 ^ 32" using Cons.prems by simp
    then have "sum_list (map (\<lambda>m. uint (bv_Power m)) ms) \<le> 2 ^ 32" using uint_ge_0 [of "bv_Power m"] by linarith
    with Cons show ?case by (simp add: uint_add_small)
  qed simp
  ultimately have u: "uint (foldl (\<lambda>t m. t + bv_Power m) 0 (vs_Members v)) = sum_list (map (\<lambda>m. uint (bv_Power m)) (vs_Members v))"
    using assms by simp
  have two_thirds: "uint (2 * (T div 3 + 1)) = 2 * (uint T div 3 + 1)" if "uint T \<le> 2 ^ 32" for T :: uint64
  proof -
    have d: "0 \<le> uint T div 3" "uint T div 3 \<le> 2 ^ 32"
      using that uint_ge_0 [of T] by (simp_all add: pos_imp_zdiv_nonneg_iff)
    then show ?thesis by (simp add: uint_word_ariths uint_div)
  qed
  show ?thesis using two_thirds [of "foldl (\<lambda>t m. t + bv_Power m) 0 (vs_Members v)"] assms
    unfolding u TwoThirdsThreshold_def Let_def by blast
qed

section \<open>A validator with too little power\<close>

text \<open>
  A bonded validator with less than a \<open>2 ^ 32\<close>th of the power is normalised to power zero, which the
  validation of the set refuses.
\<close>

lemma foldR_ValidateBasic_iv:
  "foldR (\<lambda>i _. ValidateBasic_iv i) is () = (if \<forall>i\<in>set is. iv_Power i \<noteq> 0 then Inr () else Inl (Err ''empty power''))"
  by (induction "is") (auto simp: ValidateBasic_iv_def)

lemma dust_GetCurrentValset:
  assumes bonded: "b_bonded x = Inr vals" "collect_validators x vals s [] 0 = (s1, Inr (ibvs, tot))"
    and lp: "powers_bounded x"
    and dust: "i \<in> set ibvs" "uint (iv_Power i) * 2 ^ 32 < tot" and l: "bs_latest s = Some l"
  shows "GetCurrentValset x h t s = (s1, Inl (Err ''generated invalid valset''))"
proof -
  have t: "tot = powers ibvs" "\<forall>i\<in>set ibvs. iv_Power i \<noteq> 0" "length ibvs = length vals"
    using collect_validators_total [OF bonded(2) lp] by (auto simp: powers_def)
  have ne: "ibvs \<noteq> []" using dust(1) by auto
  then have pos: "0 < tot" "vals \<noteq> []" using powers_pos t by auto
  let ?i = "i\<lparr>iv_Power := word_of_int (uint (iv_Power i) * 4294967296 div tot)\<rparr>"
  let ?ibvs = "map (\<lambda>i. i\<lparr>iv_Power := word_of_int (uint (iv_Power i) * 4294967296 div tot)\<rparr>) ibvs"
  have "uint (iv_Power i) * 4294967296 div tot = 0" using dust(2) by (intro div_pos_pos_trivial) simp_all
  then have "iv_Power ?i = 0" by simp
  moreover have "?i \<in> set ?ibvs" using dust(1) by simp
  ultimately have "foldR (\<lambda>i _. ValidateBasic_iv i) ?ibvs () = Inl (Err ''empty power'')"
    unfolding foldR_ValidateBasic_iv by (metis (mono_tags, lifting))
  then have "ValidateBasic_ivs x ?ibvs = Inl (Err ''empty power'')" using ne by (simp add: ValidateBasic_ivs_def)
  moreover have "bs_latest s1 = Some l" using collect_validators_fields [OF bonded(2)] l by simp
  ultimately show ?thesis
    using bonded pos normalize_all_ok [OF pos(1), of ibvs]
    by (simp add: GetCurrentValset_def NewValset_def CheckLatestAttestationNonce_def GetLatestAttestationNonce_def)
qed

lemma dust_EndBlocker:
  assumes "b_bonded x = Inr vals" "collect_validators x vals s [] 0 = (s1, Inr (ibvs, tot))"
    and "powers_bounded x"
    and "i \<in> set ibvs" "uint (iv_Power i) * 2 ^ 32 < tot"
    and h: "holds (b_unmarshal x) s e as" "as = [] \<and> e = 1 \<or> pick as_Valset (rev as) \<noteq> None"
  shows "EndBlocker x h t s = Inl (Panic ''generated invalid valset'')"
proof -
  have l: "bs_latest s = Some (w64 (e + length as - 1))" using h(1) by (simp add: holds_def)
  note c = dust_GetCurrentValset [OF assms(1-5) l, where h = h and t = t]
  have "handleValsetRequest x h t s = Inl (Panic ''generated invalid valset'')"
  proof (cases "bs_latest s = Some 0")
    case True
    then show ?thesis by (simp add: handleValsetRequest_def putValset_def c panic_on_error_def)
  next
    case False
    then have "\<not> (as = [] \<and> e = 1)" using l by (auto simp: w64_def)
    then obtain v where "GetLatestValset x h t s = (s, Inr v)"
      using h(2) GetLatestValset_holds [OF h(1)] by auto
    then show ?thesis using False l by (simp add: handleValsetRequest_def c panic_on_error_def ErrNoValidators_def)
  qed
  then show ?thesis by (simp add: EndBlocker_def)
qed

section \<open>Addresses\<close>

definition evm_unique :: "bs \<Rightarrow> bool" where
  "evm_unique s \<longleftrightarrow> distinct (map fst (bs_evm s)) \<and> distinct (map snd (bs_evm s))"

lemma update_unique:
  "distinct (map snd xs) \<Longrightarrow> v \<notin> snd ` set xs \<Longrightarrow> distinct (map snd (AList.update k v xs))
   \<and> snd ` set (AList.update k v xs) \<subseteq> insert v (snd ` set xs)"
proof (induction xs)
  case (Cons a xs)
  then show ?case by (cases a) auto
qed simp

lemma SetEVMAddress_unique:
  assumes "evm_unique s" "IsEVMAddressUnique s a"
  shows "evm_unique (SetEVMAddress s val a)" "map_of (bs_evm (SetEVMAddress s val a)) val = Some a"
proof -
  have "a \<notin> snd ` set (bs_evm s)" using assms(2) by (auto simp: IsEVMAddressUnique_def list_ex_iff)
  then show "evm_unique (SetEVMAddress s val a)"
    using assms(1) update_unique [of "bs_evm s" a val] distinct_update [of "bs_evm s" val a]
    by (simp add: evm_unique_def SetEVMAddress_def)
  show "map_of (bs_evm (SetEVMAddress s val a)) val = Some a"
    by (simp add: SetEVMAddress_def update_conv)
qed

end
