(* ===== verification/BlobstreamSample.thy ===== *)
theory BlobstreamSample
  imports BlobstreamValset
begin

text \<open>
  Concrete external functions for \<^verbatim>\<open>x/blobstream\<close>: a self-delimiting encoding of attestations and a staking
  state with two bonded validators, with the states that the module reaches on them.
\<close>

section \<open>A codec\<close>

function enc_num :: "int \<Rightarrow> bytes" where
  "enc_num n = (if n \<le> 0 then [0] else (if even n then 1 else 2) # enc_num (n div 2))"
  by pat_completeness auto

termination
  by (relation "measure nat") auto

declare enc_num.simps [simp del]

fun dec_num :: "bytes \<Rightarrow> int \<times> bytes" where
  "dec_num [] = (0, [])"
| "dec_num (b # r) = (if b = 0 then (0, r) else let (m, r') = dec_num r in (2 * m + (if b = 1 then 0 else 1), r'))"

lemma dec_enc_num [simp]: "0 \<le> n \<Longrightarrow> dec_num (enc_num n @ r) = (n, r)"
proof (induction n rule: enc_num.induct)
  case (1 n)
  then show ?case by (subst enc_num.simps) (auto simp: odd_two_times_div_two_succ)
qed

definition enc_int :: "int \<Rightarrow> bytes" where
  "enc_int i = (if i < 0 then 1 else 0) # enc_num \<bar>i\<bar>"

fun dec_int :: "bytes \<Rightarrow> int \<times> bytes" where
  "dec_int [] = (0, [])"
| "dec_int (b # r) = (let (m, r') = dec_num r in (if b = 1 then - m else m, r'))"

lemma dec_enc_int [simp]: "dec_int (enc_int i @ r) = (i, r)"
  by (simp add: enc_int_def)

definition enc_word :: "uint64 \<Rightarrow> bytes" where
  "enc_word w = enc_num (uint w)"

definition dec_word :: "bytes \<Rightarrow> uint64 \<times> bytes" where
  "dec_word b = (let (m, r) = dec_num b in (word_of_int m, r))"

lemma dec_enc_word [simp]: "dec_word (enc_word w @ r) = (w, r)"
  by (simp add: enc_word_def dec_word_def)

definition enc_len :: "nat \<Rightarrow> bytes" where
  "enc_len n = enc_num (int n)"

definition dec_len :: "bytes \<Rightarrow> nat \<times> bytes" where
  "dec_len b = (let (m, r) = dec_num b in (nat m, r))"

lemma dec_enc_len [simp]: "dec_len (enc_len n @ r) = (n, r)"
  by (simp add: enc_len_def dec_len_def)

definition chr :: "byte \<Rightarrow> char" where
  "chr b = char_of (unat b)"

lemma chr_of_char [simp]: "chr (of_char c) = c"
proof -
  have "of_char c = (of_nat (of_char c) :: byte)" by (simp only: of_nat_of_char)
  moreover have "unat (of_nat (of_char c) :: byte) = of_char c"
    using of_char_mod_256 [of c, where ?'a = nat] by (simp add: unat_of_nat)
  ultimately show ?thesis by (simp add: chr_def)
qed

definition enc_string :: "string \<Rightarrow> bytes" where
  "enc_string s = enc_len (length s) @ map of_char s"

definition dec_string :: "bytes \<Rightarrow> string \<times> bytes" where
  "dec_string b = (let (m, r) = dec_len b in (map chr (take m r), drop m r))"

lemma dec_enc_string [simp]: "dec_string (enc_string s @ r) = (s, r)"
  by (simp add: enc_string_def dec_string_def comp_def map_idI)

definition enc_member :: "BridgeValidator \<Rightarrow> bytes" where
  "enc_member m = enc_word (bv_Power m) @ enc_string (bv_EvmAddress m)"

definition dec_member :: "bytes \<Rightarrow> BridgeValidator \<times> bytes" where
  "dec_member b = (let (p, b) = dec_word b; (a, b) = dec_string b in (\<lparr>bv_Power = p, bv_EvmAddress = a\<rparr>, b))"

lemma dec_enc_member [simp]: "dec_member (enc_member m @ r) = (m, r)"
  by (simp add: enc_member_def dec_member_def)

fun dec_members :: "nat \<Rightarrow> bytes \<Rightarrow> BridgeValidator list \<times> bytes" where
  "dec_members 0 b = ([], b)"
| "dec_members (Suc n) b = (let (m, b) = dec_member b; (ms, b) = dec_members n b in (m # ms, b))"

lemma dec_enc_members [simp]: "dec_members (length ms) (concat (map enc_member ms) @ r) = (ms, r)"
  by (induction ms) simp_all

fun sample_marshal :: "AttestationRequestI \<Rightarrow> bytes" where
  "sample_marshal (AttValset v) = 0 # enc_word (vs_Nonce v) @ enc_word (vs_Height v) @ enc_int (vs_Time v)
     @ enc_len (length (vs_Members v)) @ concat (map enc_member (vs_Members v))"
| "sample_marshal (AttDataCommitment d) =
     1 # enc_word (dc_Nonce d) @ enc_word (dc_BeginBlock d) @ enc_word (dc_EndBlock d) @ enc_int (dc_Time d)"

fun sample_unmarshal :: "bytes \<Rightarrow> AttestationRequestI result" where
  "sample_unmarshal [] = Inl (Err ''EOF'')"
| "sample_unmarshal (t # b) =
     (if t = 0 then
        let (n, b) = dec_word b; (h, b) = dec_word b; (ti, b) = dec_int b; (k, b) = dec_len b; (ms, b) = dec_members k b
        in Inr (AttValset \<lparr>vs_Nonce = n, vs_Members = ms, vs_Height = h, vs_Time = ti\<rparr>)
      else
        let (n, b) = dec_word b; (s, b) = dec_word b; (e, b) = dec_word b; (ti, b) = dec_int b
        in Inr (AttDataCommitment \<lparr>dc_Nonce = n, dc_BeginBlock = s, dc_EndBlock = e, dc_Time = ti\<rparr>))"

lemma sample_unmarshal_marshal: "sample_unmarshal (sample_marshal a) = Inr a"
proof (cases a)
  case (AttValset v)
  then show ?thesis using dec_enc_members [of "vs_Members v" "[]"] by simp
next
  case (AttDataCommitment d)
  then show ?thesis using dec_enc_int [of "dc_Time d" "[]"] by simp
qed

declare sample_marshal.simps [simp del] sample_unmarshal.simps [simp del]

section \<open>A chain\<close>

definition sample_power :: "bytes \<Rightarrow> int result" where
  "sample_power val = Inr (if val = [65] then 2000 else 1000)"

definition sample_bsx :: bsx where
  "sample_bsx = \<lparr>b_marshal = \<lambda>a. Inr (sample_marshal a), b_unmarshal = sample_unmarshal, b_bonded = Inr [''A'', ''B''],
     b_valAddress = \<lambda>s. Inr (map of_char s), b_lastPower = sample_power, b_accAddress = \<lambda>s. Inr (map of_char s),
     b_getValidator = \<lambda>_. Inr (), b_isHexAddress = \<lambda>_. True, b_hexToAddress = map of_char, b_hex = map chr,
     b_bytesToAddress = \<lambda>b. b, b_decQuo = \<lambda>a b. a * 10 ^ 18 div b\<rparr>"

lemma sample_codec_ok: "codec_ok sample_bsx"
  by (simp add: codec_ok_def sample_bsx_def sample_unmarshal_marshal)

definition sample_bs :: bs where
  "sample_bs = projr (InitGenesis_bs empty_bs 100)"

text \<open>The same staking state with a third validator that has almost no power.\<close>

definition dust_power :: "bytes \<Rightarrow> int result" where
  "dust_power val = Inr (if val = [65] then 2 ^ 40 else 1)"

definition dust_bsx :: bsx where
  "dust_bsx = sample_bsx\<lparr>b_lastPower := dust_power\<rparr>"

lemma sample_genesis: "validateDataCommitmentWindow 1000 100 = Inr ()" "InitGenesis_bs empty_bs 100 = Inr sample_bs"
  by code_simp+

lemma sample_EndBlocker: "\<not> isl (EndBlocker sample_bsx 1 10 sample_bs)"
  by code_simp

lemma dust_EndBlocker_sample: "EndBlocker dust_bsx 1 10 sample_bs = Inl (Panic ''generated invalid valset'')"
  by code_simp


definition sample_bs1 :: bs where
  "sample_bs1 = projr (EndBlocker sample_bsx 1 10 sample_bs)"

lemma sample_EndBlocker1: "EndBlocker sample_bsx 1 10 sample_bs = Inr sample_bs1"
  using sample_EndBlocker unfolding sample_bs1_def by simp

lemma sample_reach: "reach sample_unmarshal 1000 0 sample_bs" "reach sample_unmarshal 1000 1 sample_bs1"
proof -
  show r: "reach sample_unmarshal 1000 0 sample_bs" by (rule reach.genesis [OF sample_genesis])
  have "b_unmarshal sample_bsx = sample_unmarshal" by (simp add: sample_bsx_def)
  from reach.block [OF r sample_codec_ok this, of 10 sample_bs1] sample_EndBlocker1
  show "reach sample_unmarshal 1000 1 sample_bs1" by simp
qed

text \<open>A store with one data commitment for the blocks 1 to 100.\<close>

definition sample_dc :: DataCommitment where
  "sample_dc = \<lparr>dc_Nonce = 1, dc_BeginBlock = 1, dc_EndBlock = 101, dc_Time = 7\<rparr>"

definition sample_dc_bs :: bs where
  "sample_dc_bs = sample_bs\<lparr>bs_att := [1 \<mapsto> sample_marshal (AttDataCommitment sample_dc)], bs_latest := Some 1\<rparr>"

lemma sample_dc_holds: "holds sample_unmarshal sample_dc_bs 1 [AttDataCommitment sample_dc]"
proof -
  have "bs_earliest sample_bs = Some 1" by code_simp
  moreover have "stored sample_unmarshal (bs_att sample_dc_bs) 1 [AttDataCommitment sample_dc]"
  proof -
    have "(1 :: uint64) = n" if "unat n = 1" for n using that by (metis unat_1 word_unat_eq_iff)
    then show ?thesis
      by (auto simp: stored_def sample_dc_bs_def sample_unmarshal_marshal sample_dc_def)
  qed
  ultimately show ?thesis by (simp add: holds_def sample_dc_bs_def w64_def)
qed

lemma sample_power_bound: "powers_bounded sample_bsx" "powers_bounded dust_bsx"
  by (auto simp: powers_bounded_def sample_bsx_def sample_power_def dust_bsx_def dust_power_def split: if_splits)

end
