(* ===== verification/BlobstreamQuery.thy ===== *)
theory BlobstreamQuery
  imports BlobstreamChain
begin

text \<open>
  The queries of \<^verbatim>\<open>x/blobstream\<close>, the store keys, and what the queries by nonce return on the states of the
  module. A response with a packed attestation fails only if the attestation cannot be marshalled.
\<close>

section \<open>Store keys and messages\<close>

definition UInt64Bytes :: "uint64 \<Rightarrow> bytes" where
  "UInt64Bytes n = map (\<lambda>i. ucast (drop_bit (8 * i) n)) [7, 6, 5, 4, 3, 2, 1, 0]"

definition AttestationRequestKey :: bytes where
  "AttestationRequestKey = map of_char ''AttestationRequestKey''"

definition GetAttestationKey :: "uint64 \<Rightarrow> bytes" where
  "GetAttestationKey nonce = AttestationRequestKey @ UInt64Bytes nonce"

definition GetEVMKey :: "bytes \<Rightarrow> bytes" where
  "GetEVMKey valAddress = map of_char ''EvmAddress'' @ valAddress"

definition ValidateBasic_registerEvm :: "bsx \<Rightarrow> string \<Rightarrow> unit result" where
  "ValidateBasic_registerEvm x address =
     (case b_accAddress x address of Inl e \<Rightarrow> Inl (Err ''invalid creator address'') | Inr _ \<Rightarrow> Inr ())"

definition ValidateBasic_updateParams_bs :: "bsx \<Rightarrow> uint64 \<Rightarrow> string \<Rightarrow> uint64 \<Rightarrow> unit result" where
  "ValidateBasic_updateParams_bs x limit authority w =
     (case b_accAddress x authority of
        Inl e \<Rightarrow> Inl (Err ''invalid authority address'')
      | Inr _ \<Rightarrow> validateDataCommitmentWindow limit w)"

text \<open>Two nonces have the same key only if they are equal, so the store is indexed by the nonce.\<close>

lemma UInt64Bytes_nth: "i < 64 \<Longrightarrow> bit n i = bit (UInt64Bytes n ! (7 - i div 8)) (i mod 8)"
proof -
  assume i: "i < 64"
  then have "i div 8 \<in> {0, 1, 2, 3, 4, 5, 6, 7}" by auto
  moreover have "bit (ucast (drop_bit (8 * (i div 8)) n) :: byte) (i mod 8) = bit n i"
    by (simp add: bit_simps)
  ultimately show ?thesis by (elim insertE) (simp_all add: UInt64Bytes_def)
qed

lemma GetAttestationKey_inj: "GetAttestationKey m = GetAttestationKey n \<longleftrightarrow> m = n"
proof
  assume "GetAttestationKey m = GetAttestationKey n"
  then have "UInt64Bytes m = UInt64Bytes n" by (simp add: GetAttestationKey_def)
  then show "m = n" using UInt64Bytes_nth by (intro bit_word_eqI) simp
qed simp

section \<open>Queries\<close>

definition AttestationRequestByNonce :: "bsx \<Rightarrow> bs \<Rightarrow> uint64 \<Rightarrow> AttestationRequestI result" where
  "AttestationRequestByNonce x s nonce =
     bindR (GetLatestAttestationNonce s) (\<lambda>latest.
       if latest < nonce then Inl (Err ''the provided nonce is higher than the latest attestation nonce'')
       else bindR (GetAttestationByNonce x s nonce) (\<lambda>r.
         (case r of
            None \<Rightarrow> Inl (Err ''attestation not found'')
          | Some at \<Rightarrow> bindR (b_marshal x at) (\<lambda>_. Inr at))))"

definition LatestAttestationNonce :: "bs \<Rightarrow> uint64 result" where
  "LatestAttestationNonce s =
     (if \<not> CheckLatestAttestationNonce s then Inl ErrLatestNonceNotInitialized else GetLatestAttestationNonce s)"

definition DataCommitmentRangeForHeight :: "bsx \<Rightarrow> bs \<Rightarrow> uint64 \<Rightarrow> DataCommitment result" where
  "DataCommitmentRangeForHeight x s height = GetDataCommitmentForHeight x s height"

definition LatestDataCommitment :: "bsx \<Rightarrow> bs \<Rightarrow> DataCommitment result" where
  "LatestDataCommitment x s = GetLatestDataCommitment x s"

definition LatestUnbondingHeight :: "bs \<Rightarrow> uint64" where
  "LatestUnbondingHeight s = GetLatestUnBondingBlockHeight s"

definition EarliestAttestationNonce :: "bs \<Rightarrow> uint64 result" where
  "EarliestAttestationNonce s = GetEarliestAvailableAttestationNonce s"

text \<open>The empty string is the response for a validator without an address.\<close>

definition EvmAddress_q :: "bsx \<Rightarrow> bs \<Rightarrow> string \<Rightarrow> string result" where
  "EvmAddress_q x s validatorAddress =
     bindR (b_valAddress x validatorAddress) (\<lambda>valAddr.
       (case GetEVMAddress x s valAddr of None \<Rightarrow> Inr [] | Some evm \<Rightarrow> Inr (b_hex x evm)))"

definition LatestValsetRequestBeforeNonce :: "bsx \<Rightarrow> bs \<Rightarrow> uint64 \<Rightarrow> Valset result" where
  "LatestValsetRequestBeforeNonce x s nonce = GetLatestValsetBeforeNonce x s nonce"

definition ExportGenesis_bs :: "bs \<Rightarrow> uint64" where
  "ExportGenesis_bs s = GetDataCommitmentWindowParam s"

section \<open>What they return\<close>

lemma AttestationRequestByNonce_exact:
  assumes h: "holds (b_unmarshal x) s e as" and "codec_ok x"
  shows "AttestationRequestByNonce x s n = Inr a \<longleftrightarrow> e \<le> unat n \<and> unat n < e + length as \<and> a = as ! (unat n - e)"
proof -
  have b: "1 \<le> e" "e + length as < 2 ^ 63" "stored (b_unmarshal x) (bs_att s) e as" using h by (auto simp: holds_def)
  have m: "\<exists>b. b_marshal x a = Inr b" for a using assms(2) by (auto simp: codec_ok_def)
  have l: "w64 (e + length as - 1) < n \<longleftrightarrow> e + length as \<le> unat n"
    using b by (auto simp: word_less_nat_alt unat_w64)
  have none: "GetAttestationByNonce x s n = Inr None" if "unat n < e"
    using b(3) that by (auto simp: stored_def GetAttestationByNonce_def dest!: spec [of _ n])
  have some: "GetAttestationByNonce x s n = Inr (Some (as ! (unat n - e)))" if "e \<le> unat n" "unat n < e + length as"
    using stored_at(1) [OF b(3), of "unat n - e"] b(2) that by simp
  show ?thesis
  proof (cases "e \<le> unat n \<and> unat n < e + length as")
    case True
    then show ?thesis
      using some m [of "as ! (unat n - e)"] by (auto simp: AttestationRequestByNonce_def holds_nonces [OF h] l [simplified])
  next
    case False
    then show ?thesis using none by (auto simp: AttestationRequestByNonce_def holds_nonces [OF h] l [simplified])
  qed
qed

text \<open>The latest validator set strictly before the nonce, among those not pruned.\<close>

lemma GetLatestValsetBeforeNonce_exact:
  assumes h: "holds (b_unmarshal x) s e as"
  shows "GetLatestValsetBeforeNonce x s n = Inr v \<longleftrightarrow>
    n \<noteq> 1 \<and> e \<le> unat n \<and> unat n < e + length as \<and> pick as_Valset (rev (take (unat n - e) as)) = Some v"
proof -
  have b: "1 \<le> e" "e + length as < 2 ^ 63" using h by (auto simp: holds_def)
  have l: "n > w64 (e + length as - 1) \<longleftrightarrow> e + length as \<le> unat n" "n < w64 e \<longleftrightarrow> unat n < e"
    using b by (auto simp: word_less_nat_alt unat_w64)
  have "n - 1 = w64 (e + (unat n - e) - 1)" if "e \<le> unat n"
    using that b(1) w64_pred [of "unat n"] by simp
  then have "search_down x s as_Valset (Err ''nil attestation'') (w64 e) (n - 1) =
      Some (Inr (pick as_Valset (rev (take (unat n - e) as))))" if "e \<le> unat n" "unat n < e + length as"
    using search_down_pick [OF h, of "unat n - e" as_Valset "Err ''nil attestation''"] that by simp
  then show ?thesis
    by (auto simp: GetLatestValsetBeforeNonce_def holds_nonces [OF h] l [simplified] not_less split: option.splits)
qed

end
