(* ===== verification/SdkMath.thy ===== *)
theory SdkMath
  imports Prelude
begin

text \<open>
  Coins and decimals of the SDK, shared by the economic modules. A \<^verbatim>\<open>math.Int\<close> is an integer; a
  \<^verbatim>\<open>math.LegacyDec\<close> is the integer of its \<open>10 ^ -18\<close>ths, on which addition, subtraction, negation and comparison are those of
  the integers. The operations that round, and the constructor of coins that validates, are parameters: the
  record \<open>decx\<close>. They panic on overflow and division by zero, so they return a result. What is used
  of them is the documented rounding, stated by \<open>mul_ok\<close>, \<open>quo_ok\<close>, \<open>truncateInt_ok\<close> and \<open>newCoin_ok\<close>.
\<close>

type_synonym dec = int

definition dec_one :: dec where "dec_one = 10 ^ 18"

definition dec_of_int :: "int \<Rightarrow> dec" where "dec_of_int n = n * dec_one"

record coin =
  c_Denom :: string
  c_Amount :: int

record deccoin =
  dc_Denom :: string
  dc_Amount :: dec

type_synonym decCoins = "deccoin list"

text \<open>The amount of a denomination in a list of coins.\<close>

definition coins_in :: "string \<Rightarrow> coin list \<Rightarrow> int" where
  "coins_in n cs = sum_list (map c_Amount (filter (\<lambda>c. c_Denom c = n) cs))"

record decx =
  d_mul :: "dec \<Rightarrow> dec \<Rightarrow> dec result"
  d_mulTruncate :: "dec \<Rightarrow> dec \<Rightarrow> dec result"
  d_mulRoundUp :: "dec \<Rightarrow> dec \<Rightarrow> dec result"
  d_mulInt :: "dec \<Rightarrow> int \<Rightarrow> dec result"
  d_quo :: "dec \<Rightarrow> dec \<Rightarrow> dec result"
  d_quoTruncate :: "dec \<Rightarrow> dec \<Rightarrow> dec result"
  d_quoRoundUp :: "dec \<Rightarrow> dec \<Rightarrow> dec result"
  d_ceil :: "dec \<Rightarrow> dec result"
  d_truncateInt :: "dec \<Rightarrow> int result"
  d_power :: "dec \<Rightarrow> uint64 \<Rightarrow> dec result"
  d_approxSqrt :: "dec \<Rightarrow> dec result"
  d_newCoin :: "string \<Rightarrow> int \<Rightarrow> coin result"

section \<open>Documented behaviour\<close>

text \<open>\<^verbatim>\<open>Mul\<close> and \<^verbatim>\<open>Quo\<close> round to the nearest decimal.\<close>

definition mul_ok :: "decx \<Rightarrow> bool" where
  "mul_ok d \<longleftrightarrow> (\<forall>a b c. d_mul d a b = Inr c \<longrightarrow> 2 * \<bar>c * dec_one - a * b\<bar> \<le> dec_one)"

definition mulInt_ok :: "decx \<Rightarrow> bool" where
  "mulInt_ok d \<longleftrightarrow> (\<forall>a n c. d_mulInt d a n = Inr c \<longrightarrow> c = a * n)"

definition quo_ok :: "decx \<Rightarrow> bool" where
  "quo_ok d \<longleftrightarrow> (\<forall>a b c. d_quo d a b = Inr c \<longrightarrow> b \<noteq> 0 \<and> 2 * \<bar>c * b - a * dec_one\<bar> \<le> \<bar>b\<bar>)"

definition truncateInt_ok :: "decx \<Rightarrow> bool" where
  "truncateInt_ok d \<longleftrightarrow> (\<forall>a n. d_truncateInt d a = Inr n \<longrightarrow> n = go_div a dec_one)"

text \<open>\<^verbatim>\<open>NewCoin\<close> returns the coin, and panics if the amount is negative or the denomination invalid.\<close>

definition newCoin_ok :: "decx \<Rightarrow> bool" where
  "newCoin_ok d \<longleftrightarrow> (\<forall>n a c. d_newCoin d n a = Inr c \<longrightarrow> c = \<lparr>c_Denom = n, c_Amount = a\<rparr> \<and> 0 \<le> a)"

lemma dec_one_pos [simp]: "0 < dec_one" "dec_one \<noteq> 0" "\<bar>dec_one\<bar> = dec_one"
  by (simp_all add: dec_one_def)

lemma newCoinD:
  "newCoin_ok d \<Longrightarrow> d_newCoin d n a = Inr c \<Longrightarrow> c = \<lparr>c_Denom = n, c_Amount = a\<rparr>"
  "newCoin_ok d \<Longrightarrow> d_newCoin d n a = Inr c \<Longrightarrow> 0 \<le> a"
  by (auto simp: newCoin_ok_def)

text \<open>The product with a whole number is exact.\<close>

lemma mul_whole:
  assumes "mul_ok d" "d_mul d (dec_of_int n) b = Inr c"
  shows "c = n * b"
proof -
  have "2 * \<bar>c * dec_one - dec_of_int n * b\<bar> \<le> dec_one" using assms by (auto simp: mul_ok_def)
  moreover have "c * dec_one - dec_of_int n * b = (c - n * b) * dec_one" by (simp add: dec_of_int_def algebra_simps)
  ultimately have "2 * \<bar>c - n * b\<bar> * dec_one \<le> 1 * dec_one"
    by (simp only: abs_mult dec_one_pos mult.assoc mult_1)
  then have "2 * \<bar>c - n * b\<bar> \<le> 1" by (simp only: mult_le_cancel_right_pos [OF dec_one_pos(1)])
  moreover have "2 * \<bar>x\<bar> \<le> 1 \<Longrightarrow> x = 0" for x :: int by presburger
  ultimately have "c - n * b = 0" by blast
  then show ?thesis by simp
qed

section \<open>A concrete instance\<close>

definition round_div :: "int \<Rightarrow> int \<Rightarrow> int" where
  "round_div a b = sgn a * sgn b * ((2 * \<bar>a\<bar> + \<bar>b\<bar>) div (2 * \<bar>b\<bar>))"

lemma round_div_nearest: "b \<noteq> 0 \<Longrightarrow> 2 * \<bar>round_div a b * b - a\<bar> \<le> \<bar>b\<bar>"
proof -
  assume b: "b \<noteq> 0"
  let ?k = "(2 * \<bar>a\<bar> + \<bar>b\<bar>) div (2 * \<bar>b\<bar>)"
  have near: "2 * y = 2 * A + B - r \<Longrightarrow> 0 \<le> r \<Longrightarrow> r < 2 * B \<Longrightarrow> 2 * \<bar>y - A\<bar> \<le> B" for y A B r :: int by (cases "y \<le> A") auto
  have "2 * (?k * \<bar>b\<bar>) = 2 * \<bar>a\<bar> + \<bar>b\<bar> - (2 * \<bar>a\<bar> + \<bar>b\<bar>) mod (2 * \<bar>b\<bar>)" by (simp add: minus_mod_eq_mult_div)
  moreover have "0 \<le> (2 * \<bar>a\<bar> + \<bar>b\<bar>) mod (2 * \<bar>b\<bar>)" "(2 * \<bar>a\<bar> + \<bar>b\<bar>) mod (2 * \<bar>b\<bar>) < 2 * \<bar>b\<bar>" using b by simp_all
  ultimately have "2 * \<bar>?k * \<bar>b\<bar> - \<bar>a\<bar>\<bar> \<le> \<bar>b\<bar>" by (rule near)
  moreover have "round_div a b * b - a = sgn a * (?k * \<bar>b\<bar> - \<bar>a\<bar>)"
    by (simp add: round_div_def algebra_simps abs_sgn sgn_mult_abs)
  moreover have "\<bar>sgn a * y\<bar> \<le> \<bar>y\<bar>" for y by (cases "a = 0") (simp_all add: abs_mult)
  ultimately show ?thesis by (smt (verit))
qed
lemma round_div_minus: "round_div a (- b) = - round_div a b" "round_div (- a) b = - round_div a b"
  by (simp_all add: round_div_def sgn_minus)

text \<open>The integer square root and its remainder, two binary digits at a time.\<close>

fun int_root :: "nat \<Rightarrow> int \<Rightarrow> int \<times> int" where
  "int_root 0 n = (0, 0)"
| "int_root (Suc k) n =
     (if n = 0 then (0, 0)
      else let q = drop_bit 2 n; (r, m) = int_root k q; m = 4 * m + (n - 4 * q) in
        if 4 * r + 1 \<le> m then (2 * r + 1, m - (4 * r + 1)) else (2 * r, m))"

lemma int_root_nonneg: "0 \<le> fst (int_root k n)"
  by (induction k n rule: int_root.induct) (auto simp: Let_def split: prod.splits)

definition sample_dec :: decx where
  "sample_dec =
     \<lparr>d_mul = \<lambda>a b. Inr (round_div (a * b) dec_one),
      d_mulTruncate = \<lambda>a b. Inr (go_div (a * b) dec_one),
      d_mulRoundUp = \<lambda>a b. Inr (- ((- (a * b)) div dec_one)),
      d_mulInt = \<lambda>a n. Inr (a * n),
      d_quo = \<lambda>a b. if b = 0 then Inl (Panic ''division by zero'') else Inr (round_div (a * dec_one) b),
      d_quoTruncate = \<lambda>a b. if b = 0 then Inl (Panic ''division by zero'') else Inr (go_div (a * dec_one) b),
      d_quoRoundUp = \<lambda>a b. if b = 0 then Inl (Panic ''division by zero'') else Inr (- ((- (a * dec_one)) div b)),
      d_ceil = \<lambda>a. Inr (- ((- a) div dec_one) * dec_one),
      d_truncateInt = \<lambda>a. Inr (go_div a dec_one),
      d_power = \<lambda>a n. Inr (foldl (\<lambda>r i. round_div (r * a) dec_one) dec_one [0..<unat n]),
      d_approxSqrt = \<lambda>a. if a < 0 then Inl (Err ''negative'') else Inr (fst (int_root 300 (a * dec_one))),
      d_newCoin = \<lambda>n a. if a < 0 then Inl (Panic ''negative coin amount'') else Inr \<lparr>c_Denom = n, c_Amount = a\<rparr>\<rparr>"

lemma sample_dec_ok: "mul_ok sample_dec" "mulInt_ok sample_dec" "quo_ok sample_dec" "truncateInt_ok sample_dec"
    "newCoin_ok sample_dec"
  using round_div_nearest [of dec_one, simplified] round_div_nearest
  by (auto simp: mul_ok_def mulInt_ok_def quo_ok_def truncateInt_ok_def newCoin_ok_def sample_dec_def split: if_splits)

end
