(* ===== verification/SwapRoute.thy ===== *)
theory SwapRoute
  imports SdkMath
begin

text \<open>
  \<^verbatim>\<open>x/swap/types/route.go\<close>: trees of pools in series and in parallel, their validation, and
  \<^verbatim>\<open>InspectRoute\<close>, which walks a route and calls a function for every pool. That function reads and changes the
  chain's state, of which the model is the type \<open>'s\<close>.
\<close>

section \<open>Routes\<close>

text \<open>A weight is \<open>None\<close> if it is a nil decimal; \<open>NoStrategy\<close> is a route whose oneof is not set.\<close>

datatype Route = Route (r_DenomIn: string) (r_DenomOut: string) (r_Strategy: Strategy)
  and Strategy = Route_Pool uint64 | Route_Series "Route list" | Route_Parallel "Route list" "dec option list" | NoStrategy

datatype RouteResult = RouteResult (rr_TokenIn: coin) (rr_TokenOut: coin) (rr_Strategy: ResultStrategy)
  and ResultStrategy = Result_Pool uint64 | Result_Series "RouteResult list" | Result_Parallel "RouteResult list"

section \<open>Validation\<close>

text \<open>
  The loops over the parts of a series, which returns the denomination that it arrives at, and over the parts
  of a parallel route with their weights.
\<close>

fun validateRecursive :: "Route \<Rightarrow> unit result"
  and validate_series :: "string \<Rightarrow> Route list \<Rightarrow> string result"
  and validate_parallel :: "string \<Rightarrow> string \<Rightarrow> Route list \<Rightarrow> dec option list \<Rightarrow> unit result" where
  "validateRecursive (Route denomIn denomOut (Route_Pool p)) = Inr ()"
| "validateRecursive (Route denomIn denomOut (Route_Series routes)) =
     (if routes = [] then Inl (Err ''empty series'')
      else bindR (validate_series denomIn routes) (\<lambda>d.
        if d \<noteq> denomOut then Inl (Err ''denom out mismatch'') else Inr ()))"
| "validateRecursive (Route denomIn denomOut (Route_Parallel routes weights)) =
     (if routes = [] then Inl (Err ''empty parallel'')
      else if length routes \<noteq> length weights
      then Inl (Err ''mismatched length of parallel routes and weights'')
      else validate_parallel denomIn denomOut routes weights)"
| "validateRecursive (Route denomIn denomOut NoStrategy) = Inl (Err ''unknown strategy'')"
| "validate_series denomIn [] = Inr denomIn"
| "validate_series denomIn (r # rs) =
     bindR (validateRecursive r) (\<lambda>_.
       if r_DenomIn r \<noteq> denomIn then Inl (Err ''invalid denom in'')
       else validate_series (r_DenomOut r) rs)"
| "validate_parallel denomIn denomOut [] ws = Inr ()"
| "validate_parallel denomIn denomOut (r # rs) ws =
     bindR (validateRecursive r) (\<lambda>_.
       if r_DenomIn r \<noteq> denomIn then Inl (Err ''invalid denom in'')
       else if r_DenomOut r \<noteq> denomOut then Inl (Err ''invalid denom out'')
       else (case ws of
               [] \<Rightarrow> Inl (Panic ''index out of range'')
             | None # ws' \<Rightarrow> Inl (Err ''nil weight'')
             | Some w # ws' \<Rightarrow>
                 if w \<le> 0 then Inl (Err ''non-positive weight'')
                 else validate_parallel denomIn denomOut rs ws'))"

text \<open>The map of the pools seen so far is a set of identifiers.\<close>

fun mustNotReusePool :: "Route \<Rightarrow> uint64 list \<Rightarrow> uint64 list result"
  and mustNotReusePools :: "Route list \<Rightarrow> uint64 list \<Rightarrow> uint64 list result" where
  "mustNotReusePool (Route denomIn denomOut (Route_Pool p)) poolIds =
     (if p \<in> set poolIds then Inl (Panic ''reused pool'') else Inr (p # poolIds))"
| "mustNotReusePool (Route denomIn denomOut (Route_Series routes)) poolIds = mustNotReusePools routes poolIds"
| "mustNotReusePool (Route denomIn denomOut (Route_Parallel routes weights)) poolIds = mustNotReusePools routes poolIds"
| "mustNotReusePool (Route denomIn denomOut NoStrategy) poolIds = Inr poolIds"
| "mustNotReusePools [] poolIds = Inr poolIds"
| "mustNotReusePools (r # rs) poolIds = bindR (mustNotReusePool r poolIds) (mustNotReusePools rs)"

text \<open>
  The deferred function of \<^verbatim>\<open>Validate\<close> converts the recovered value to an error. The value is a string, so
  the conversion panics in turn.
\<close>

definition Validate_route :: "Route \<Rightarrow> unit result" where
  "Validate_route r =
     (case validateRecursive r of
        Inl (Err e) \<Rightarrow> Inl (Err ''invalid route'')
      | Inl f \<Rightarrow> Inl f
      | Inr _ \<Rightarrow>
          (case mustNotReusePool r [] of
             Inl (Panic m) \<Rightarrow> Inl (Panic ''interface conversion: interface {} is string, not error'')
           | Inl f \<Rightarrow> Inl f
           | Inr _ \<Rightarrow> Inr ()))"

section \<open>Walking a route\<close>

fun sum_weights :: "dec option list \<Rightarrow> dec \<Rightarrow> dec result" where
  "sum_weights [] acc = Inr acc"
| "sum_weights (None # ws) acc = Inl (Panic ''nil pointer dereference'')"
| "sum_weights (Some w # ws) acc = sum_weights ws (acc + w)"

definition weighted_amount :: "decx \<Rightarrow> dec \<Rightarrow> int \<Rightarrow> dec option \<Rightarrow> int result" where
  "weighted_amount x weightSum amountExact w =
     (case w of
        None \<Rightarrow> Inl (Panic ''nil pointer dereference'')
      | Some w \<Rightarrow> bindR (d_mulInt x w amountExact) (\<lambda>p. bindR (d_quo x p weightSum) (d_truncateInt x)))"

text \<open>
  The amounts for the parts of a parallel route. \<open>amountsExactSum\<close> is the running sum that the code
  declares; it is never added to. If there are fewer weights than routes, which validation excludes, the last routes have
  no amount.
\<close>

definition parallel_amounts :: "decx \<Rightarrow> nat \<Rightarrow> dec option list \<Rightarrow> int \<Rightarrow> int list result" where
  "parallel_amounts x n weights amountExact =
     bindR (sum_weights weights 0) (\<lambda>weightSum.
       let amountsExactSum = 0 in
       if weights = [] then Inl (Panic ''slice bounds out of range'')
       else bindR (mapR (weighted_amount x weightSum amountExact) (butlast weights)) (\<lambda>amountsExact.
         if n < length weights then Inl (Panic ''index out of range'')
         else Inr (amountsExact @ [amountExact - amountsExactSum])))"

type_synonym 's pool_fun = "string \<Rightarrow> string \<Rightarrow> uint64 \<Rightarrow> int \<Rightarrow> 's \<Rightarrow> (int \<times> 's) result"

type_synonym coins_fun = "string \<Rightarrow> string \<Rightarrow> int \<Rightarrow> int \<Rightarrow> (coin \<times> coin) result"

lemma size_list_rev [simp]: "size_list f (rev xs) = size_list f xs"
  by (induction xs) simp_all

function InspectRoute :: "decx \<Rightarrow> 's pool_fun \<Rightarrow> coins_fun \<Rightarrow> bool \<Rightarrow> Route \<Rightarrow> int \<Rightarrow> 's \<Rightarrow> (int \<times> RouteResult \<times> 's) result"
  and inspect_series :: "decx \<Rightarrow> 's pool_fun \<Rightarrow> coins_fun \<Rightarrow> bool \<Rightarrow> Route list \<Rightarrow> int \<Rightarrow> 's \<Rightarrow> (int \<times> RouteResult list \<times> 's) result"
  and inspect_parallel :: "decx \<Rightarrow> 's pool_fun \<Rightarrow> coins_fun \<Rightarrow> bool \<Rightarrow> Route list \<Rightarrow> int list \<Rightarrow> 's \<Rightarrow> (int \<times> RouteResult list \<times> 's) result" where
  "InspectRoute x inspectRoutePool generateResult reverse (Route denomIn denomOut (Route_Pool p)) amountExact s =
     bindR (inspectRoutePool denomIn denomOut p amountExact s) (\<lambda>(amountResult, s).
     bindR (generateResult denomIn denomOut amountExact amountResult) (\<lambda>(tokenIn, tokenOut).
       Inr (amountResult, RouteResult tokenIn tokenOut (Result_Pool p), s)))"
| "InspectRoute x inspectRoutePool generateResult reverse (Route denomIn denomOut (Route_Series routes)) amountExact s =
     bindR (inspect_series x inspectRoutePool generateResult reverse (if reverse then rev routes else routes) amountExact s)
       (\<lambda>(amountResult, results, s).
     bindR (generateResult denomIn denomOut amountExact amountResult) (\<lambda>(tokenIn, tokenOut).
       Inr (amountResult, RouteResult tokenIn tokenOut (Result_Series results), s)))"
| "InspectRoute x inspectRoutePool generateResult reverse (Route denomIn denomOut (Route_Parallel routes weights)) amountExact s =
     bindR (parallel_amounts x (length routes) weights amountExact) (\<lambda>amountsExact.
     bindR (inspect_parallel x inspectRoutePool generateResult reverse routes amountsExact s) (\<lambda>(amountResult, results, s).
     bindR (generateResult denomIn denomOut amountExact amountResult) (\<lambda>(tokenIn, tokenOut).
       Inr (amountResult, RouteResult tokenIn tokenOut (Result_Parallel results), s))))"
| "InspectRoute x inspectRoutePool generateResult reverse (Route denomIn denomOut NoStrategy) amountExact s =
     Inl (Err ''unknown strategy'')"
| "inspect_series x inspectRoutePool generateResult reverse [] amountExact s = Inr (amountExact, [], s)"
| "inspect_series x inspectRoutePool generateResult reverse (r # rs) amountExact s =
     bindR (InspectRoute x inspectRoutePool generateResult reverse r amountExact s) (\<lambda>(amountResult, result, s).
     bindR (inspect_series x inspectRoutePool generateResult reverse rs amountResult s) (\<lambda>(amountResult, results, s).
       Inr (amountResult, result # results, s)))"
| "inspect_parallel x inspectRoutePool generateResult reverse [] amountsExact s = Inr (0, [], s)"
| "inspect_parallel x inspectRoutePool generateResult reverse (r # rs) [] s = Inl (Panic ''nil amount'')"
| "inspect_parallel x inspectRoutePool generateResult reverse (r # rs) (a # as) s =
     bindR (InspectRoute x inspectRoutePool generateResult reverse r a s) (\<lambda>(amountResult, result, s).
     bindR (inspect_parallel x inspectRoutePool generateResult reverse rs as s) (\<lambda>(amountResults, results, s).
       Inr (amountResult + amountResults, result # results, s)))"
  by pat_completeness auto

termination
  by (relation "measure (\<lambda>v. case v of
      Inl (x, f, g, b, r, a, s) \<Rightarrow> size r
    | Inr (Inl (x, f, g, b, rs, a, s)) \<Rightarrow> size_list size rs
    | Inr (Inr (x, f, g, b, rs, as, s)) \<Rightarrow> size_list size rs)") auto

section \<open>The pools of a route\<close>

fun pools :: "Route \<Rightarrow> uint64 list"
  and pools_list :: "Route list \<Rightarrow> uint64 list" where
  "pools (Route denomIn denomOut (Route_Pool p)) = [p]"
| "pools (Route denomIn denomOut (Route_Series routes)) = pools_list routes"
| "pools (Route denomIn denomOut (Route_Parallel routes weights)) = pools_list routes"
| "pools (Route denomIn denomOut NoStrategy) = []"
| "pools_list [] = []"
| "pools_list (r # rs) = pools r @ pools_list rs"

text \<open>
  \<open>wf_route\<close>: the parts of a series form a chain of denominations from the route's input to its output;
  the parts of a parallel route all convert the route's input to its output, with positive weights.
\<close>

fun chain :: "string \<Rightarrow> Route list \<Rightarrow> string \<Rightarrow> bool" where
  "chain d [] d' \<longleftrightarrow> d = d'"
| "chain d (r # rs) d' \<longleftrightarrow> r_DenomIn r = d \<and> chain (r_DenomOut r) rs d'"

fun wf_route :: "Route \<Rightarrow> bool"
  and wf_routes :: "Route list \<Rightarrow> bool" where
  "wf_route (Route denomIn denomOut (Route_Pool p)) \<longleftrightarrow> True"
| "wf_route (Route denomIn denomOut (Route_Series routes)) \<longleftrightarrow>
     routes \<noteq> [] \<and> wf_routes routes \<and> chain denomIn routes denomOut"
| "wf_route (Route denomIn denomOut (Route_Parallel routes weights)) \<longleftrightarrow>
     routes \<noteq> [] \<and> wf_routes routes \<and> length weights = length routes
     \<and> (\<forall>r\<in>set routes. r_DenomIn r = denomIn \<and> r_DenomOut r = denomOut)
     \<and> (\<forall>w\<in>set weights. \<exists>v. w = Some v \<and> 0 < v)"
| "wf_route (Route denomIn denomOut NoStrategy) \<longleftrightarrow> False"
| "wf_routes [] \<longleftrightarrow> True"
| "wf_routes (r # rs) \<longleftrightarrow> wf_route r \<and> wf_routes rs"

lemma validate_wf:
  "validateRecursive r = Inr () \<longleftrightarrow> wf_route r"
  "validate_series d rs = Inr d' \<longleftrightarrow> wf_routes rs \<and> chain d rs d'"
  "length ws = length rs \<Longrightarrow> validate_parallel di do rs ws = Inr () \<longleftrightarrow> wf_routes rs
     \<and> (\<forall>r\<in>set rs. r_DenomIn r = di \<and> r_DenomOut r = do) \<and> (\<forall>w\<in>set ws. \<exists>v. w = Some v \<and> 0 < v)"
proof (induction r and d rs and di do rs ws arbitrary: and d' rule: validateRecursive_validate_series_validate_parallel.induct)
  case (8 di do r rs ws)
  then show ?case by (cases ws) (auto simp: result_simps split: option.splits if_splits)
qed (auto simp: result_simps)

lemma validateRecursive_no_panic:
  "validateRecursive r = Inl f \<Longrightarrow> \<exists>e. f = Err e"
  "validate_series d rs = Inl f \<Longrightarrow> \<exists>e. f = Err e"
  "length ws = length rs \<Longrightarrow> validate_parallel di do rs ws = Inl f \<Longrightarrow> \<exists>e. f = Err e"
proof (induction r and d rs and di do rs ws arbitrary: f and f and f rule: validateRecursive_validate_series_validate_parallel.induct)
  case (8 di do r rs ws)
  then show ?case by (cases ws) (auto simp: result_simps split: option.splits if_splits)
qed (auto simp: result_simps split: if_splits)

lemma mustNotReusePool_iff:
  "distinct seen \<Longrightarrow> mustNotReusePool r seen =
     (if distinct (pools r) \<and> set (pools r) \<inter> set seen = {} then Inr (rev (pools r) @ seen) else Inl (Panic ''reused pool''))"
  "distinct seen \<Longrightarrow> mustNotReusePools rs seen =
     (if distinct (pools_list rs) \<and> set (pools_list rs) \<inter> set seen = {} then Inr (rev (pools_list rs) @ seen)
      else Inl (Panic ''reused pool''))"
proof (induction r seen and rs seen rule: mustNotReusePool_mustNotReusePools.induct)
  case (6 r rs seen)
  show ?case
  proof (cases "distinct (pools r) \<and> set (pools r) \<inter> set seen = {}")
    case True
    then have "mustNotReusePool r seen = Inr (rev (pools r) @ seen)" "distinct (rev (pools r) @ seen)" using 6 by auto
    then show ?thesis using True 6(2) by auto
  qed (use 6 in auto)
qed auto

lemma Validate_route_cases:
  "Validate_route r =
     (if \<not> wf_route r then Inl (Err ''invalid route'')
      else if distinct (pools r) then Inr ()
      else Inl (Panic ''interface conversion: interface {} is string, not error''))"
proof (cases "validateRecursive r")
  case (Inl f)
  then have "\<not> wf_route r" "\<exists>e. f = Err e" using validate_wf(1) [of r] validateRecursive_no_panic(1) [of r f] by auto
  then show ?thesis using Inl by (auto simp: Validate_route_def)
next
  case (Inr u)
  then have "wf_route r" using validate_wf(1) [of r] by simp
  then show ?thesis using Inr by (simp add: Validate_route_def mustNotReusePool_iff)
qed

end
