(* ===== verification/Swap.thy ===== *)
theory Swap
  imports SwapRoute
begin

text \<open>
  \<^verbatim>\<open>x/swap\<close>: swaps along routes with an exact input or an exact output, and the fee for the interface
  provider. The liquidity pool keeper is the interface of \<^verbatim>\<open>types/expected_keepers.go\<close>, a record of functions on
  the chain's state; the bank and address codecs of the SDK are in the same record.
\<close>

section \<open>Interfaces\<close>

record ('s, 'p) swx =
  sw_dec :: decx
  sw_accAddress :: "string \<Rightarrow> bytes result"
  sw_sendCoins :: "bytes \<Rightarrow> bytes \<Rightarrow> coin list \<Rightarrow> 's \<Rightarrow> 's result"
  lp_GetPool :: "'s \<Rightarrow> uint64 \<Rightarrow> 'p option"
  lp_CalculateResultExactAmountIn :: "'s \<Rightarrow> 'p \<Rightarrow> coin \<Rightarrow> string \<Rightarrow> bool \<Rightarrow> int result"
  lp_CalculateResultExactAmountOut :: "'s \<Rightarrow> 'p \<Rightarrow> coin \<Rightarrow> string \<Rightarrow> bool \<Rightarrow> int result"
  lp_SwapExactAmountIn :: "bytes \<Rightarrow> 'p \<Rightarrow> coin \<Rightarrow> string \<Rightarrow> bool \<Rightarrow> 's \<Rightarrow> (int \<times> 's) result"
  lp_SwapExactAmountOut :: "bytes \<Rightarrow> 'p \<Rightarrow> coin \<Rightarrow> string \<Rightarrow> bool \<Rightarrow> 's \<Rightarrow> (int \<times> 's) result"

definition ErrPoolNotFound :: fault where "ErrPoolNotFound = Err ''pool not found''"

section \<open>Exact input\<close>

text \<open>\<open>rate\<close> is \<^verbatim>\<open>params.InterfaceFeeRate\<close>. The result is the net amount and the fee.\<close>

definition calculateInterfaceFeeExactAmountIn :: "decx \<Rightarrow> dec \<Rightarrow> bool \<Rightarrow> int \<Rightarrow> (int \<times> int) result" where
  "calculateInterfaceFeeExactAmountIn d rate hasInterfaceFee amountOutGross =
     (if \<not> hasInterfaceFee then Inr (amountOutGross, 0)
      else bindR (d_mul d (dec_of_int amountOutGross) (dec_one - rate)) (\<lambda>m.
        bindR (d_truncateInt d m) (\<lambda>amountOutNet. Inr (amountOutNet, amountOutGross - amountOutNet))))"

definition generateResultExactAmountIn :: "decx \<Rightarrow> coins_fun" where
  "generateResultExactAmountIn d denomIn denomOut amountExact amountResult =
     bindR (d_newCoin d denomIn amountExact) (\<lambda>a. bindR (d_newCoin d denomOut amountResult) (\<lambda>b. Inr (a, b)))"

definition calculateResultRoutePoolExactAmountIn :: "('s, 'p) swx \<Rightarrow> 's pool_fun" where
  "calculateResultRoutePoolExactAmountIn x denomIn denomOut poolId amountIn s =
     (case lp_GetPool x s poolId of
        None \<Rightarrow> Inl ErrPoolNotFound
      | Some pool \<Rightarrow> bindR (d_newCoin (sw_dec x) denomIn amountIn) (\<lambda>tokenIn.
          bindR (lp_CalculateResultExactAmountIn x s pool tokenIn denomOut True) (\<lambda>amountOut. Inr (amountOut, s))))"

definition calculateResultRouteExactAmountIn :: "('s, 'p) swx \<Rightarrow> Route \<Rightarrow> int \<Rightarrow> 's \<Rightarrow> RouteResult result" where
  "calculateResultRouteExactAmountIn x route amountIn s =
     bindR (InspectRoute (sw_dec x) (calculateResultRoutePoolExactAmountIn x) (generateResultExactAmountIn (sw_dec x))
         False route amountIn s) (\<lambda>(_, result, _). Inr result)"

definition CalculateResultExactAmountIn_sw :: "('s, 'p) swx \<Rightarrow> dec \<Rightarrow> bool \<Rightarrow> Route \<Rightarrow> int \<Rightarrow> 's \<Rightarrow> (RouteResult \<times> int) result" where
  "CalculateResultExactAmountIn_sw x rate hasInterfaceFee route amountIn s =
     bindR (calculateResultRouteExactAmountIn x route amountIn s) (\<lambda>result.
     bindR (calculateInterfaceFeeExactAmountIn (sw_dec x) rate hasInterfaceFee (c_Amount (rr_TokenOut result)))
       (\<lambda>(_, interfaceFee). Inr (result, interfaceFee)))"

definition swapRoutePoolExactAmountIn :: "('s, 'p) swx \<Rightarrow> bytes \<Rightarrow> 's pool_fun" where
  "swapRoutePoolExactAmountIn x sender denomIn denomOut poolId amountIn s =
     (case lp_GetPool x s poolId of
        None \<Rightarrow> Inl ErrPoolNotFound
      | Some pool \<Rightarrow> bindR (d_newCoin (sw_dec x) denomIn amountIn) (\<lambda>tokenIn.
          lp_SwapExactAmountIn x sender pool tokenIn denomOut True s))"

definition swapRouteExactAmountIn :: "('s, 'p) swx \<Rightarrow> bytes \<Rightarrow> Route \<Rightarrow> int \<Rightarrow> 's \<Rightarrow> (RouteResult \<times> 's) result" where
  "swapRouteExactAmountIn x sender route amountIn s =
     bindR (InspectRoute (sw_dec x) (swapRoutePoolExactAmountIn x sender) (generateResultExactAmountIn (sw_dec x))
         False route amountIn s) (\<lambda>(_, result, s). Inr (result, s))"

text \<open>The payment of the interface provider, the same in both directions.\<close>

definition payInterfaceFee :: "('s, 'p) swx \<Rightarrow> bytes \<Rightarrow> string \<Rightarrow> string \<Rightarrow> int \<Rightarrow> 's \<Rightarrow> 's result" where
  "payInterfaceFee x sender interfaceProvider denom interfaceFee s =
     (if interfaceProvider = [] then Inr s
      else bindR (sw_accAddress x interfaceProvider) (\<lambda>addr.
        bindR (d_newCoin (sw_dec x) denom interfaceFee) (\<lambda>fee.
          if c_Amount fee > 0 then sw_sendCoins x sender addr [fee] s else Inr s)))"

definition SwapExactAmountIn_sw :: "('s, 'p) swx \<Rightarrow> dec \<Rightarrow> bytes \<Rightarrow> string \<Rightarrow> Route \<Rightarrow> int \<Rightarrow> int \<Rightarrow> 's \<Rightarrow>
    (RouteResult \<times> int \<times> 's) result" where
  "SwapExactAmountIn_sw x rate sender interfaceProvider route amountIn minAmountOut s =
     bindR (swapRouteExactAmountIn x sender route amountIn s) (\<lambda>(result, s).
     let hasInterfaceFee = interfaceProvider \<noteq> []; amountOutGross = c_Amount (rr_TokenOut result) in
     bindR (calculateInterfaceFeeExactAmountIn (sw_dec x) rate hasInterfaceFee amountOutGross) (\<lambda>(amountOutNet, interfaceFee).
       if amountOutNet < minAmountOut then Inl (Err ''TODO'')
       else bindR (payInterfaceFee x sender interfaceProvider (c_Denom (rr_TokenOut result)) interfaceFee s) (\<lambda>s.
         Inr (result, interfaceFee, s))))"

section \<open>Exact output\<close>

text \<open>
  The result is named \<open>amountOutGross, interfaceFee\<close> in the signature; the code returns the net amount.
\<close>

definition calculateInterfaceFeeExactAmountOut :: "decx \<Rightarrow> dec \<Rightarrow> bool \<Rightarrow> int \<Rightarrow> (int \<times> int) result" where
  "calculateInterfaceFeeExactAmountOut d rate hasInterfaceFee amountOutNet =
     (if \<not> hasInterfaceFee then Inr (amountOutNet, 0)
      else bindR (d_quo d (dec_of_int amountOutNet) (dec_one - rate)) (\<lambda>q.
        bindR (d_truncateInt d q) (\<lambda>amountOutGross. Inr (amountOutNet, amountOutGross - amountOutNet))))"

definition generateResultExactAmountOut :: "decx \<Rightarrow> coins_fun" where
  "generateResultExactAmountOut d denomIn denomOut amountExact amountResult =
     bindR (d_newCoin d denomIn amountResult) (\<lambda>a. bindR (d_newCoin d denomOut amountExact) (\<lambda>b. Inr (a, b)))"

definition calculateResultRoutePoolExactAmountOut :: "('s, 'p) swx \<Rightarrow> 's pool_fun" where
  "calculateResultRoutePoolExactAmountOut x denomIn denomOut poolId amountOut s =
     (case lp_GetPool x s poolId of
        None \<Rightarrow> Inl ErrPoolNotFound
      | Some pool \<Rightarrow> bindR (d_newCoin (sw_dec x) denomOut amountOut) (\<lambda>tokenOut.
          bindR (lp_CalculateResultExactAmountOut x s pool tokenOut denomIn True) (\<lambda>amountIn. Inr (amountIn, s))))"

definition calculateResultRouteExactAmountOut :: "('s, 'p) swx \<Rightarrow> Route \<Rightarrow> int \<Rightarrow> 's \<Rightarrow> RouteResult result" where
  "calculateResultRouteExactAmountOut x route amountOut s =
     bindR (InspectRoute (sw_dec x) (calculateResultRoutePoolExactAmountOut x) (generateResultExactAmountOut (sw_dec x))
         True route amountOut s) (\<lambda>(_, result, _). Inr result)"

definition CalculateResultExactAmountOut_sw :: "('s, 'p) swx \<Rightarrow> dec \<Rightarrow> bool \<Rightarrow> Route \<Rightarrow> int \<Rightarrow> 's \<Rightarrow> (RouteResult \<times> int) result" where
  "CalculateResultExactAmountOut_sw x rate hasInterfaceFee route amountOut s =
     bindR (calculateInterfaceFeeExactAmountOut (sw_dec x) rate hasInterfaceFee amountOut) (\<lambda>(amountOutGross, interfaceFee).
     bindR (calculateResultRouteExactAmountOut x route amountOutGross s) (\<lambda>result. Inr (result, interfaceFee)))"

definition swapRoutePoolExactAmountOut :: "('s, 'p) swx \<Rightarrow> bytes \<Rightarrow> 's pool_fun" where
  "swapRoutePoolExactAmountOut x sender denomIn denomOut poolId amountOut s =
     (case lp_GetPool x s poolId of
        None \<Rightarrow> Inl ErrPoolNotFound
      | Some pool \<Rightarrow> bindR (d_newCoin (sw_dec x) denomOut amountOut) (\<lambda>tokenOut.
          lp_SwapExactAmountOut x sender pool tokenOut denomIn True s))"

fun swapRouteExactAmountOut :: "('s, 'p) swx \<Rightarrow> bytes \<Rightarrow> RouteResult \<Rightarrow> 's \<Rightarrow> 's result"
  and swapRoutesExactAmountOut :: "('s, 'p) swx \<Rightarrow> bytes \<Rightarrow> RouteResult list \<Rightarrow> 's \<Rightarrow> 's result" where
  "swapRouteExactAmountOut x sender (RouteResult tokenIn tokenOut (Result_Pool p)) s =
     bindR (swapRoutePoolExactAmountOut x sender (c_Denom tokenIn) (c_Denom tokenOut) p (c_Amount tokenOut) s)
       (\<lambda>(amountIn, s). if amountIn \<noteq> c_Amount tokenIn then Inl (Err ''TODO'') else Inr s)"
| "swapRouteExactAmountOut x sender (RouteResult tokenIn tokenOut (Result_Series rs)) s = swapRoutesExactAmountOut x sender rs s"
| "swapRouteExactAmountOut x sender (RouteResult tokenIn tokenOut (Result_Parallel rs)) s = swapRoutesExactAmountOut x sender rs s"
| "swapRoutesExactAmountOut x sender [] s = Inr s"
| "swapRoutesExactAmountOut x sender (r # rs) s =
     bindR (swapRouteExactAmountOut x sender r s) (swapRoutesExactAmountOut x sender rs)"

definition SwapExactAmountOut_sw :: "('s, 'p) swx \<Rightarrow> dec \<Rightarrow> bytes \<Rightarrow> string \<Rightarrow> Route \<Rightarrow> int \<Rightarrow> int \<Rightarrow> 's \<Rightarrow>
    (RouteResult \<times> int \<times> 's) result" where
  "SwapExactAmountOut_sw x rate sender interfaceProvider route maxAmountIn amountOut s =
     (let hasInterfaceFee = interfaceProvider \<noteq> [] in
      bindR (CalculateResultExactAmountOut_sw x rate hasInterfaceFee route amountOut s) (\<lambda>(result, interfaceFee).
      bindR (swapRouteExactAmountOut x sender result s) (\<lambda>s.
        if c_Amount (rr_TokenIn result) > maxAmountIn then Inl (Err ''TODO'')
        else bindR (payInterfaceFee x sender interfaceProvider (c_Denom (rr_TokenOut result)) interfaceFee s) (\<lambda>s.
          Inr (result, interfaceFee, s)))))"

section \<open>Messages and queries\<close>

record MsgSwapExactAmountIn =
  si_Sender :: string
  si_InterfaceProvider :: string
  si_Route :: Route
  si_AmountIn :: int
  si_MinAmountOut :: int

record MsgSwapExactAmountOut =
  so_Sender :: string
  so_InterfaceProvider :: string
  so_Route :: Route
  so_MaxAmountIn :: int
  so_AmountOut :: int

text \<open>The checks that both messages begin with.\<close>

definition validate_parties :: "('s, 'p) swx \<Rightarrow> string \<Rightarrow> string \<Rightarrow> Route \<Rightarrow> unit result" where
  "validate_parties x sender interfaceProvider route =
     (case sw_accAddress x sender of
        Inl e \<Rightarrow> Inl (Err ''invalid sender address'')
      | Inr _ \<Rightarrow>
          if interfaceProvider \<noteq> [] \<and> isl (sw_accAddress x interfaceProvider)
          then Inl (Err ''invalid interface provider address'')
          else (case Validate_route route of Inl (Err e) \<Rightarrow> Inl (Err ''invalid route'') | r \<Rightarrow> r))"

definition ValidateBasic_swapIn :: "('s, 'p) swx \<Rightarrow> MsgSwapExactAmountIn \<Rightarrow> unit result" where
  "ValidateBasic_swapIn x msg =
     bindR (validate_parties x (si_Sender msg) (si_InterfaceProvider msg) (si_Route msg)) (\<lambda>_.
       if \<not> 0 < si_AmountIn msg then Inl (Err ''amount in must be positive'')
       else if \<not> 0 < si_MinAmountOut msg then Inl (Err ''min amount out must be positive'')
       else Inr ())"

definition ValidateBasic_swapOut :: "('s, 'p) swx \<Rightarrow> MsgSwapExactAmountOut \<Rightarrow> unit result" where
  "ValidateBasic_swapOut x msg =
     bindR (validate_parties x (so_Sender msg) (so_InterfaceProvider msg) (so_Route msg)) (\<lambda>_.
       if \<not> 0 < so_MaxAmountIn msg then Inl (Err ''max amount in must be positive'')
       else if \<not> 0 < so_AmountOut msg then Inl (Err ''amount out must be positive'')
       else Inr ())"

text \<open>The response is the result, the fee and the amount out; the state comes last.\<close>

definition msg_SwapExactAmountIn :: "('s, 'p) swx \<Rightarrow> dec \<Rightarrow> MsgSwapExactAmountIn \<Rightarrow> 's \<Rightarrow> (RouteResult \<times> int \<times> int \<times> 's) result" where
  "msg_SwapExactAmountIn x rate msg s =
     bindR (sw_accAddress x (si_Sender msg)) (\<lambda>sender.
     bindR (SwapExactAmountIn_sw x rate sender (si_InterfaceProvider msg) (si_Route msg) (si_AmountIn msg) (si_MinAmountOut msg) s)
       (\<lambda>(result, fee, s). Inr (result, fee, c_Amount (rr_TokenOut result) - fee, s)))"

definition msg_SwapExactAmountOut :: "('s, 'p) swx \<Rightarrow> dec \<Rightarrow> MsgSwapExactAmountOut \<Rightarrow> 's \<Rightarrow> (RouteResult \<times> int \<times> int \<times> 's) result" where
  "msg_SwapExactAmountOut x rate msg s =
     bindR (sw_accAddress x (so_Sender msg)) (\<lambda>sender.
     bindR (SwapExactAmountOut_sw x rate sender (so_InterfaceProvider msg) (so_Route msg) (so_MaxAmountIn msg) (so_AmountOut msg) s)
       (\<lambda>(result, fee, s). Inr (result, fee, c_Amount (rr_TokenOut result) - fee, s)))"

text \<open>The amounts of the queries are parsed from strings; \<open>None\<close> is a string that is not a number.\<close>

definition CalculationSwapExactAmountIn :: "('s, 'p) swx \<Rightarrow> dec \<Rightarrow> bool \<Rightarrow> Route \<Rightarrow> int option \<Rightarrow> 's \<Rightarrow> (RouteResult \<times> int \<times> int) result" where
  "CalculationSwapExactAmountIn x rate hasInterfaceFee route amountIn s =
     (case amountIn of
        None \<Rightarrow> Inl (Err ''invalid amount'')
      | Some a \<Rightarrow> bindR (CalculateResultExactAmountIn_sw x rate hasInterfaceFee route a s) (\<lambda>(result, fee).
          Inr (result, fee, c_Amount (rr_TokenOut result) - fee)))"

definition CalculationSwapExactAmountOut :: "('s, 'p) swx \<Rightarrow> dec \<Rightarrow> bool \<Rightarrow> Route \<Rightarrow> int option \<Rightarrow> 's \<Rightarrow> (RouteResult \<times> int \<times> int) result" where
  "CalculationSwapExactAmountOut x rate hasInterfaceFee route amountOut s =
     (case amountOut of
        None \<Rightarrow> Inl (Err ''invalid amount'')
      | Some a \<Rightarrow> bindR (CalculateResultExactAmountOut_sw x rate hasInterfaceFee route a s) (\<lambda>(result, fee).
          Inr (result, fee, c_Amount (rr_TokenIn result))))"

end
