(* ===== verification/SwapFlow.thy ===== *)
theory SwapFlow
  imports Swap
begin

text \<open>
  What flows along a route: the result of a walk as a tree of coins, the order in which the pools are
  visited, the amounts of parallel routes, and the interface fee.
\<close>

section \<open>Coins along a route\<close>

text \<open>
  The exact side of a swap is its input, or its output if \<open>rv\<close>; the other side is computed.
\<close>

definition exact_of :: "bool \<Rightarrow> RouteResult \<Rightarrow> coin" where
  "exact_of rv r = (if rv then rr_TokenOut r else rr_TokenIn r)"

definition other_of :: "bool \<Rightarrow> RouteResult \<Rightarrow> coin" where
  "other_of rv r = (if rv then rr_TokenIn r else rr_TokenOut r)"

fun linked_results :: "bool \<Rightarrow> coin \<Rightarrow> RouteResult list \<Rightarrow> coin \<Rightarrow> bool" where
  "linked_results rv c [] c' \<longleftrightarrow> c = c'"
| "linked_results rv c (r # rs) c' \<longleftrightarrow> exact_of rv r = c \<and> linked_results rv (other_of rv r) rs c'"

text \<open>
  \<open>flow\<close>: along a series, the computed coin of every part is the exact coin of the next one, from the exact
  coin of the series to its computed coin; the computed amounts of the parts of a parallel route add up to
  its own, all in its denominations.
\<close>

fun flow :: "bool \<Rightarrow> RouteResult \<Rightarrow> bool"
  and flows :: "bool \<Rightarrow> RouteResult list \<Rightarrow> bool" where
  "flow rv (RouteResult i out (Result_Pool p)) \<longleftrightarrow> True"
| "flow rv (RouteResult i out (Result_Series rs)) \<longleftrightarrow>
     flows rv rs \<and> linked_results rv (if rv then out else i) rs (if rv then i else out)"
| "flow rv (RouteResult i out (Result_Parallel rs)) \<longleftrightarrow>
     flows rv rs \<and> (\<forall>r\<in>set rs. c_Denom (rr_TokenIn r) = c_Denom i \<and> c_Denom (rr_TokenOut r) = c_Denom out)
     \<and> c_Amount (if rv then i else out) = sum_list (map (\<lambda>r. c_Amount (other_of rv r)) rs)"
| "flows rv [] \<longleftrightarrow> True"
| "flows rv (r # rs) \<longleftrightarrow> flow rv r \<and> flows rv rs"

definition dex :: "bool \<Rightarrow> Route \<Rightarrow> string" where
  "dex rv r = (if rv then r_DenomOut r else r_DenomIn r)"

definition dot :: "bool \<Rightarrow> Route \<Rightarrow> string" where
  "dot rv r = (if rv then r_DenomIn r else r_DenomOut r)"

fun chainx :: "bool \<Rightarrow> string \<Rightarrow> Route list \<Rightarrow> string \<Rightarrow> bool" where
  "chainx rv d [] d' \<longleftrightarrow> d = d'"
| "chainx rv d (r # rs) d' \<longleftrightarrow> dex rv r = d \<and> chainx rv (dot rv r) rs d'"

lemma chainx_append: "chainx rv d (rs @ [r]) d' \<longleftrightarrow> chainx rv d rs (dex rv r) \<and> dot rv r = d'"
  by (induction rs arbitrary: d) auto

lemma chain_chainx: "chain d rs d' \<Longrightarrow> chainx rv (if rv then d' else d) (if rv then rev rs else rs) (if rv then d else d')"
proof (induction rs arbitrary: d)
  case (Cons r rs)
  then have "chainx rv (if rv then d' else r_DenomOut r) (if rv then rev rs else rs) (if rv then r_DenomOut r else d')"
    by simp
  with Cons.prems show ?case by (cases rv) (auto simp: chainx_append dex_def dot_def)
qed simp

lemma wf_routes_iff: "wf_routes rs \<longleftrightarrow> (\<forall>r\<in>set rs. wf_route r)"
  by (induction rs) auto

definition gen :: "bool \<Rightarrow> decx \<Rightarrow> coins_fun" where
  "gen rv d = (if rv then generateResultExactAmountOut d else generateResultExactAmountIn d)"

lemma gen_ok:
  assumes "newCoin_ok d" "gen rv d denomIn denomOut a a' = Inr (i, out)"
  shows "(if rv then out else i) = \<lparr>c_Denom = if rv then denomOut else denomIn, c_Amount = a\<rparr>"
    "(if rv then i else out) = \<lparr>c_Denom = if rv then denomIn else denomOut, c_Amount = a'\<rparr>"
  using assms(2) newCoinD(1) [OF assms(1)]
  by (auto simp: gen_def generateResultExactAmountOut_def generateResultExactAmountIn_def result_simps split: if_splits)

lemma Inspect_flow:
  "InspectRoute d f (gen rv d) rv r a s = Inr (a', res, s') \<Longrightarrow> newCoin_ok d \<Longrightarrow> wf_route r \<Longrightarrow>
     flow rv res \<and> exact_of rv res = \<lparr>c_Denom = dex rv r, c_Amount = a\<rparr> \<and> other_of rv res = \<lparr>c_Denom = dot rv r, c_Amount = a'\<rparr>"
  "inspect_series d f (gen rv d) rv rs a s = Inr (a', results, s') \<Longrightarrow> newCoin_ok d \<Longrightarrow> wf_routes rs \<Longrightarrow> chainx rv d1 rs d2 \<Longrightarrow>
     flows rv results \<and> linked_results rv \<lparr>c_Denom = d1, c_Amount = a\<rparr> results \<lparr>c_Denom = d2, c_Amount = a'\<rparr>"
  "inspect_parallel d f (gen rv d) rv rs as s = Inr (a', results, s') \<Longrightarrow> newCoin_ok d \<Longrightarrow> wf_routes rs \<Longrightarrow>
     (\<forall>r\<in>set rs. dex rv r = d1 \<and> dot rv r = d2) \<Longrightarrow>
     flows rv results \<and> (\<forall>r\<in>set results. c_Denom (exact_of rv r) = d1 \<and> c_Denom (other_of rv r) = d2)
     \<and> a' = sum_list (map (\<lambda>r. c_Amount (other_of rv r)) results)
     \<and> map (\<lambda>r. c_Amount (exact_of rv r)) results = take (length rs) as"
proof (induction d f "gen rv d" rv r a s and d f "gen rv d" rv rs a s and d f "gen rv d" rv rs as s
    arbitrary: a' res s' and a' results s' d1 d2 and a' results s' d1 d2
    rule: InspectRoute_inspect_series_inspect_parallel.induct)
  case (1 d f rv di do p a s)
  from 1(1) obtain i out where g: "gen rv d di do a a' = Inr (i, out)" "res = RouteResult i out (Result_Pool p)"
    by (auto simp: result_simps)
  then show ?case using gen_ok [OF 1(2) g(1)] by (cases rv) (simp_all add: exact_of_def other_of_def dex_def dot_def)
next
  case (2 d f rv di do rs a s)
  from 2(2) obtain i out results where g: "gen rv d di do a a' = Inr (i, out)" "res = RouteResult i out (Result_Series results)"
      "inspect_series d f (gen rv d) rv (if rv then rev rs else rs) a s = Inr (a', results, s')"
    by (auto simp: result_simps)
  have w: "wf_routes (if rv then rev rs else rs)" "chain di rs do" using 2(4) by (auto simp: wf_routes_iff)
  from 2(1) [OF g(3) 2(3) w(1) chain_chainx [OF w(2), of rv]] gen_ok [OF 2(3) g(1)] g(2)
  show ?case by (cases rv) (simp_all add: exact_of_def other_of_def dex_def dot_def)
next
  case (3 d f rv di do rs ws a s)
  from 3(2) obtain as i out results where g: "gen rv d di do a a' = Inr (i, out)" "res = RouteResult i out (Result_Parallel results)"
      "parallel_amounts d (length rs) ws a = Inr as" "inspect_parallel d f (gen rv d) rv rs as s = Inr (a', results, s')"
    by (auto simp: result_simps)
  have w: "wf_routes rs" "\<forall>r\<in>set rs. dex rv r = (if rv then do else di) \<and> dot rv r = (if rv then di else do)"
    using 3(4) by (auto simp: dex_def dot_def)
  from 3(1) [OF g(3,4) 3(3) w] gen_ok [OF 3(3) g(1)] g(2)
  show ?case by (cases rv) (auto simp: exact_of_def other_of_def dex_def dot_def)
next
  case (6 d f rv r rs a s)
  from 6(3) obtain a1 res s1 results' where g: "InspectRoute d f (gen rv d) rv r a s = Inr (a1, res, s1)"
      "inspect_series d f (gen rv d) rv rs a1 s1 = Inr (a', results', s')" "results = res # results'"
    by (auto simp: result_simps)
  from 6(1) [OF g(1) 6(4)] 6(2) [OF g(1) refl refl g(2) 6(4), of "dot rv r" d2] 6(5,6) g(3)
  show ?case by auto
next
  case (9 d f rv r rs a as s)
  from 9(3) obtain a1 res s1 a2 results' where g: "InspectRoute d f (gen rv d) rv r a s = Inr (a1, res, s1)"
      "inspect_parallel d f (gen rv d) rv rs as s1 = Inr (a2, results', s')" "results = res # results'" "a' = a1 + a2"
    by (auto simp: result_simps)
  from 9(1) [OF g(1) 9(4)] 9(2) [OF g(1) refl refl g(2) 9(4), of d1 d2] 9(5,6) g(3,4)
  show ?case by auto
qed auto

section \<open>The order of the pools\<close>

text \<open>The swaps of a result in the order of the tree.\<close>

fun leaves :: "RouteResult \<Rightarrow> (uint64 \<times> coin \<times> coin) list"
  and leaves_list :: "RouteResult list \<Rightarrow> (uint64 \<times> coin \<times> coin) list" where
  "leaves (RouteResult i out (Result_Pool p)) = [(p, i, out)]"
| "leaves (RouteResult i out (Result_Series rs)) = leaves_list rs"
| "leaves (RouteResult i out (Result_Parallel rs)) = leaves_list rs"
| "leaves_list [] = []"
| "leaves_list (r # rs) = leaves r @ leaves_list rs"

definition swap_leaf :: "('s, 'p) swx \<Rightarrow> bytes \<Rightarrow> uint64 \<times> coin \<times> coin \<Rightarrow> 's \<Rightarrow> 's result" where
  "swap_leaf x sender l s = (case l of (p, i, out) \<Rightarrow>
     bindR (swapRoutePoolExactAmountOut x sender (c_Denom i) (c_Denom out) p (c_Amount out) s)
       (\<lambda>(amountIn, s). if amountIn \<noteq> c_Amount i then Inl (Err ''TODO'') else Inr s))"

lemma foldR_Nil_fun: "foldR f [] = Inr"
  by (rule ext) simp

lemma swapRouteExactAmountOut_leaves:
  "swapRouteExactAmountOut x sender res s = foldR (swap_leaf x sender) (leaves res) s"
  "swapRoutesExactAmountOut x sender results s = foldR (swap_leaf x sender) (leaves_list results) s"
proof (induction x sender res s and x sender results s rule: swapRouteExactAmountOut_swapRoutesExactAmountOut.induct)
  case (5 x sender r rs s)
  then show ?case by (simp add: foldR_append cong: bindR_cong)
qed (simp_all add: swap_leaf_def foldR_Nil_fun del: foldR.simps(1))

text \<open>A route without parallel parts.\<close>

fun serial :: "Route \<Rightarrow> bool"
  and serials :: "Route list \<Rightarrow> bool" where
  "serial (Route denomIn denomOut (Route_Pool p)) \<longleftrightarrow> True"
| "serial (Route denomIn denomOut (Route_Series routes)) \<longleftrightarrow> serials routes"
| "serial (Route denomIn denomOut (Route_Parallel routes weights)) \<longleftrightarrow> False"
| "serial (Route denomIn denomOut NoStrategy) \<longleftrightarrow> True"
| "serials [] \<longleftrightarrow> True"
| "serials (r # rs) \<longleftrightarrow> serial r \<and> serials rs"

lemma serials_iff: "serials rs \<longleftrightarrow> (\<forall>r\<in>set rs. serial r)"
  by (induction rs) auto

lemma pools_list_concat: "pools_list rs = concat (map pools rs)"
  by (induction rs) auto

lemma leaves_order:
  "InspectRoute d f g rv r a s = Inr (a', res, s') \<Longrightarrow> serial r \<Longrightarrow>
     map fst (leaves res) = (if rv then rev (pools r) else pools r)"
  "inspect_series d f g rv rs a s = Inr (a', results, s') \<Longrightarrow> serials rs \<Longrightarrow>
     map fst (leaves_list results) = concat (map (\<lambda>r. if rv then rev (pools r) else pools r) rs)"
  "inspect_parallel d f g rv rs as s = Inr (a', results, s') \<Longrightarrow> True"
proof (induction d f g rv r a s and d f g rv rs a s and d f g rv rs as s
    arbitrary: a' res s' and a' results s' and a' results s'
    rule: InspectRoute_inspect_series_inspect_parallel.induct)
  case (2 d f g rv di do rs a s)
  from 2(2) obtain i out results where r: "res = RouteResult i out (Result_Series results)"
      "inspect_series d f g rv (if rv then rev rs else rs) a s = Inr (a', results, s')"
    by (auto simp: result_simps)
  moreover have "serials (if rv then rev rs else rs)" using 2(3) by (simp add: serials_iff)
  ultimately show ?case using 2(1) [OF r(2)] by (auto simp: pools_list_concat rev_concat rev_map comp_def)
next
  case (6 d f g rv r rs a s)
  from 6(3) obtain a1 res s1 results' where q: "InspectRoute d f g rv r a s = Inr (a1, res, s1)"
      "inspect_series d f g rv rs a1 s1 = Inr (a', results', s')" "results = res # results'"
    by (auto simp: result_simps)
  from 6(1) [OF q(1)] 6(2) [OF q(1) refl refl q(2)] 6(4) q(3) show ?case by auto
qed (auto simp: result_simps)

section \<open>Parallel routes\<close>

lemma parallel_amounts_last:
  assumes "parallel_amounts x n weights amountExact = Inr as"
  shows "length as = length weights \<and> as = butlast as @ [amountExact] \<and> weights \<noteq> []"
proof -
  obtain ws bs where w: "sum_weights weights 0 = Inr ws" "weights \<noteq> []"
      "mapR (weighted_amount x ws amountExact) (butlast weights) = Inr bs" "as = bs @ [amountExact]"
    using assms by (auto simp: parallel_amounts_def Let_def result_simps split: if_splits)
  then have "length bs = length weights - 1" using list_all2_lengthD unfolding mapR_Inr_iff by fastforce
  with w show ?thesis by simp
qed

lemma parallel_overspends:
  assumes c: "newCoin_ok (sw_dec x)" and wf: "wf_route (Route di do (Route_Parallel rs ws))"
    and ok: "swapRouteExactAmountIn x sender (Route di do (Route_Parallel rs ws)) amountIn s = Inr (res, s')"
  shows "\<exists>out results. res = RouteResult \<lparr>c_Denom = di, c_Amount = amountIn\<rparr> out (Result_Parallel results)
    \<and> results \<noteq> [] \<and> length results = length rs
    \<and> sum_list (map (\<lambda>r. c_Amount (rr_TokenIn r)) results)
        = amountIn + sum_list (map (\<lambda>r. c_Amount (rr_TokenIn r)) (butlast results))"
proof -
  let ?d = "sw_dec x" and ?f = "swapRoutePoolExactAmountIn x sender"
  obtain a' where i: "InspectRoute ?d ?f (gen False ?d) False (Route di do (Route_Parallel rs ws)) amountIn s = Inr (a', res, s')"
    using ok by (auto simp: swapRouteExactAmountIn_def gen_def result_simps)
  then obtain as out results i' where p: "parallel_amounts ?d (length rs) ws amountIn = Inr as"
      "inspect_parallel ?d ?f (gen False ?d) False rs as s = Inr (a', results, s')"
      "res = RouteResult i' out (Result_Parallel results)"
    by (auto simp: result_simps)
  have w: "wf_routes rs" "\<forall>r\<in>set rs. dex False r = di \<and> dot False r = do" "length ws = length rs"
    using wf by (auto simp: dex_def dot_def)
  note l = parallel_amounts_last [OF p(1)]
  have "map (\<lambda>r. c_Amount (exact_of False r)) results = take (length rs) as"
    using Inspect_flow(3) [OF p(2) c w(1,2)] by blast
  then have m: "map (\<lambda>r. c_Amount (rr_TokenIn r)) results = as" using l w(3) by (simp add: exact_of_def)
  then have ne: "results \<noteq> []" "length results = length rs" using l w(3) by (auto dest: arg_cong [of _ _ length])
  have b: "map (\<lambda>r. c_Amount (rr_TokenIn r)) (butlast results) = butlast as" unfolding m [symmetric] by (simp add: map_butlast)
  have "sum_list as = sum_list (butlast as) + amountIn" using l by (metis add.right_neutral sum_list.Cons sum_list.Nil sum_list_append)
  moreover have "i' = \<lparr>c_Denom = di, c_Amount = amountIn\<rparr>"
    using Inspect_flow(1) [OF i c wf] p(3) by (simp add: exact_of_def dex_def)
  ultimately show ?thesis using p(3) ne m b by simp
qed

section \<open>The interface fee\<close>

lemma interface_fee_in:
  assumes "mul_ok d" "truncateInt_ok d" "0 \<le> rate" "rate \<le> dec_one" "0 \<le> gross"
    and "calculateInterfaceFeeExactAmountIn d rate True gross = Inr (net, fee)"
  shows "net = gross - fee" "0 \<le> fee" "fee \<le> gross" "fee = - ((- (gross * rate)) div dec_one)"
proof -
  obtain m where m: "d_mul d (dec_of_int gross) (dec_one - rate) = Inr m" "d_truncateInt d m = Inr net" "fee = gross - net"
    using assms(6) by (auto simp: calculateInterfaceFeeExactAmountIn_def result_simps)
  have e: "m = gross * (dec_one - rate)" by (rule mul_whole [OF assms(1) m(1)])
  have "net = go_div m dec_one" using m(2) assms(2) by (auto simp: truncateInt_ok_def)
  moreover have "0 \<le> m" using e assms(4,5) by simp
  ultimately have n: "net = m div dec_one" by simp
  have "gross * (dec_one - rate) = - (gross * rate) + gross * dec_one" by (simp add: algebra_simps)
  then have n': "net = gross + (- (gross * rate)) div dec_one" 
    using n e div_mult_self1 [OF dec_one_pos(2), of "- (gross * rate)" gross] by (simp only:)
  then show "fee = - ((- (gross * rate)) div dec_one)" using m(3) by simp
  show "net = gross - fee" using m(3) by simp
  show "fee \<le> gross" using m(3) n \<open>0 \<le> m\<close> by (simp add: pos_imp_zdiv_nonneg_iff)
  have "0 \<le> gross * rate" using assms by simp
  then have "(- (gross * rate)) div dec_one \<le> 0 div dec_one" by (intro zdiv_mono1) simp_all
  then show "0 \<le> fee" using m(3) n' by simp
qed

text \<open>An exact output is computed for the net amount.\<close>

lemma interface_fee_out:
  "calculateInterfaceFeeExactAmountOut d rate b amountOut = Inr (gross, fee) \<Longrightarrow> gross = amountOut"
  by (auto simp: calculateInterfaceFeeExactAmountOut_def result_simps split: if_splits)

end
