(* ===== verification/SwapIbc.thy ===== *)
theory SwapIbc
  imports SwapFlow
begin

text \<open>
  \<^verbatim>\<open>x/swap/keeper/ibc.go\<close> and \<^verbatim>\<open>x/swap/module/ibc_middleware.go\<close>: a transfer packet whose memo asks for a swap is
  received into the module account, swapped, and the output (and the change) may be forwarded. The
  received packet then waits for the acknowledgements of the forwarded ones. The transfer module, the channel
  keeper, JSON codecs and the addresses of the SDK are the record \<open>ibx\<close>.
\<close>

section \<open>Types\<close>

record PacketIndex =
  pi_PortId :: string
  pi_ChannelId :: string
  pi_Sequence :: uint64

record ForwardMetadata =
  fm_Receiver :: string
  fm_Port :: string
  fm_Channel :: string
  fm_Retries :: "byte option"
  fm_Next :: bool   \<comment> \<open>whether there is a next memo\<close>

record SwapMetadata =
  sm_InterfaceProvider :: string
  sm_Route :: Route
  sm_ExactAmountIn :: "int option"   \<comment> \<open>the minimal amount out\<close>
  sm_ExactAmountOut :: "(int \<times> ForwardMetadata option) option"   \<comment> \<open>the amount out and the change\<close>
  sm_Forward :: "ForwardMetadata option"

text \<open>One leg of a waiting packet: the packet that is under way, or its acknowledgement.\<close>

datatype leg = OutgoingIndex PacketIndex | LegAck bytes

record IncomingInFlightPacket =
  ip_Index :: PacketIndex
  ip_Data :: bytes
  ip_SrcPortId :: string
  ip_SrcChannelId :: string
  ip_TimeoutHeight :: string
  ip_TimeoutTimestamp :: uint64
  ip_Ack :: bytes
  ip_Result :: RouteResult
  ip_InterfaceFee :: int
  ip_Change :: leg
  ip_Forward :: leg

record OutgoingInFlightPacket =
  op_Index :: PacketIndex
  op_AckWaitingIndex :: PacketIndex
  op_RetriesRemaining :: int

record Packet =
  pk_Sequence :: uint64
  pk_SourcePort :: string
  pk_SourceChannel :: string
  pk_DestinationPort :: string
  pk_DestinationChannel :: string
  pk_Data :: bytes
  pk_TimeoutHeight :: string
  pk_TimeoutTimestamp :: uint64

record TokenData =
  td_Denom :: string
  td_Amount :: string
  td_Sender :: string
  td_Receiver :: string
  td_Memo :: string

record SwapAcknowledgement =
  sa_Result :: RouteResult
  sa_IncomingAck :: bytes
  sa_ChangeAck :: bytes
  sa_ForwardAck :: bytes

text \<open>An acknowledgement of a received packet: of an error or of a result; none is a nil interface.\<close>

datatype ack = ErrorAck string | ResultAck bytes | NilAck

record MsgTransfer =
  mt_SourcePort :: string
  mt_SourceChannel :: string
  mt_Token :: coin
  mt_Sender :: string
  mt_Receiver :: string
  mt_TimeoutTimestamp :: uint64
  mt_Memo :: string

section \<open>Interfaces and state\<close>

record ('s, 'p) ibx =
  ib_sw :: "('s, 'p) swx"
  ib_rate :: dec
  ib_blockTime :: "'s \<Rightarrow> uint64"
  ib_timeout :: uint64   \<comment> \<open>\<^verbatim>\<open>DefaultRelativePacketTimeoutTimestamp\<close> of the transfer module\<close>
  ib_swapper :: "bytes \<times> string"   \<comment> \<open>the module address and its text\<close>
  ib_parseInt :: "string \<Rightarrow> int option"
  ib_sendFromModule :: "bytes \<Rightarrow> coin list \<Rightarrow> 's \<Rightarrow> 's result"
  ib_transfer :: "MsgTransfer \<Rightarrow> 's \<Rightarrow> (uint64 \<times> 's) result"
  ib_validateForward :: "ForwardMetadata \<Rightarrow> unit result"
  ib_lookupModule :: "string \<Rightarrow> string \<Rightarrow> 's \<Rightarrow> bytes result"
  ib_sendPacket :: "bytes \<Rightarrow> string \<Rightarrow> string \<Rightarrow> uint64 \<Rightarrow> bytes \<Rightarrow> 's \<Rightarrow> (uint64 \<times> 's) result"
  ib_writeAck :: "bytes \<Rightarrow> Packet \<Rightarrow> ack \<Rightarrow> 's \<Rightarrow> 's result"
  ib_parseHeight :: "string \<Rightarrow> string result"   \<comment> \<open>\<^verbatim>\<open>MustParseHeight\<close>\<close>
  ib_encodeAck :: "SwapAcknowledgement \<Rightarrow> bytes result"
  ib_errorAck :: "string \<Rightarrow> bytes"
  ib_denom :: "string \<Rightarrow> string \<Rightarrow> string \<Rightarrow> string \<Rightarrow> string \<Rightarrow> string"   \<comment> \<open>\<^verbatim>\<open>GetDenomForThisChain\<close>, built on the transfer module\<close>
  ib_decodeData :: "bytes \<Rightarrow> TokenData option"
  ib_encodeData :: "TokenData \<Rightarrow> bytes"
  ib_hasSwap :: "string \<Rightarrow> bool"   \<comment> \<open>the memo is a JSON object with a key swap\<close>
  ib_decodeMemo :: "string \<Rightarrow> SwapMetadata result"
  ib_OnRecvPacket :: "Packet \<Rightarrow> 's \<Rightarrow> ack \<times> 's"
  ib_OnAcknowledgementPacket :: "Packet \<Rightarrow> bytes \<Rightarrow> 's \<Rightarrow> 's result"
  ib_OnTimeoutPacket :: "Packet \<Rightarrow> 's \<Rightarrow> 's result"

text \<open>
  The in-flight packets of the module's store, by their index, and the state of the rest of the
  chain.
\<close>

record 's sws =
  ss_incoming :: "PacketIndex \<rightharpoonup> IncomingInFlightPacket"
  ss_outgoing :: "PacketIndex \<rightharpoonup> OutgoingInFlightPacket"
  ss_chain :: 's

definition NewPacketIndex :: "string \<Rightarrow> string \<Rightarrow> uint64 \<Rightarrow> PacketIndex" where
  "NewPacketIndex portId channelId sequence = \<lparr>pi_PortId = portId, pi_ChannelId = channelId, pi_Sequence = sequence\<rparr>"

definition Equal_pi :: "PacketIndex \<Rightarrow> PacketIndex \<Rightarrow> bool" where
  "Equal_pi i other \<longleftrightarrow> pi_PortId i = pi_PortId other \<and> pi_ChannelId i = pi_ChannelId other
     \<and> pi_Sequence i = pi_Sequence other"

definition SetIncomingInFlightPacket :: "'s sws \<Rightarrow> IncomingInFlightPacket \<Rightarrow> 's sws" where
  "SetIncomingInFlightPacket s p = s\<lparr>ss_incoming := (ss_incoming s)(ip_Index p \<mapsto> p)\<rparr>"

definition GetIncomingInFlightPacket :: "'s sws \<Rightarrow> string \<Rightarrow> string \<Rightarrow> uint64 \<Rightarrow> IncomingInFlightPacket option" where
  "GetIncomingInFlightPacket s port channel sequence = ss_incoming s (NewPacketIndex port channel sequence)"

definition RemoveIncomingInFlightPacket :: "'s sws \<Rightarrow> string \<Rightarrow> string \<Rightarrow> uint64 \<Rightarrow> 's sws" where
  "RemoveIncomingInFlightPacket s port channel sequence =
     s\<lparr>ss_incoming := (ss_incoming s)(NewPacketIndex port channel sequence := None)\<rparr>"

definition SetOutgoingInFlightPacket :: "'s sws \<Rightarrow> OutgoingInFlightPacket \<Rightarrow> 's sws" where
  "SetOutgoingInFlightPacket s p = s\<lparr>ss_outgoing := (ss_outgoing s)(op_Index p \<mapsto> p)\<rparr>"

definition GetOutgoingInFlightPacket :: "'s sws \<Rightarrow> string \<Rightarrow> string \<Rightarrow> uint64 \<Rightarrow> OutgoingInFlightPacket option" where
  "GetOutgoingInFlightPacket s port channel sequence = ss_outgoing s (NewPacketIndex port channel sequence)"

definition RemoveOutgoingInFlightPacket :: "'s sws \<Rightarrow> string \<Rightarrow> string \<Rightarrow> uint64 \<Rightarrow> 's sws" where
  "RemoveOutgoingInFlightPacket s port channel sequence =
     s\<lparr>ss_outgoing := (ss_outgoing s)(NewPacketIndex port channel sequence := None)\<rparr>"

definition onChain :: "('s \<Rightarrow> 's result) \<Rightarrow> 's sws \<Rightarrow> 's sws result" where
  "onChain f s = bindR (f (ss_chain s)) (\<lambda>c. Inr (s\<lparr>ss_chain := c\<rparr>))"

section \<open>Receiving\<close>

definition Validate_metadata :: "('s, 'p) ibx \<Rightarrow> SwapMetadata \<Rightarrow> unit result" where
  "Validate_metadata x m =
     bindR (Validate_route (sm_Route m)) (\<lambda>_.
       if sm_ExactAmountIn m \<noteq> None \<and> sm_ExactAmountOut m \<noteq> None
       then Inl (Err ''cannot have both exact_amount_in and exact_amount_out'')
       else if sm_ExactAmountIn m = None \<and> sm_ExactAmountOut m = None
       then Inl (Err ''must have either exact_amount_in or exact_amount_out'')
       else
         bindR (case sm_ExactAmountIn m of
                  Some minAmountOut \<Rightarrow> ensure (0 < minAmountOut) (Err ''min_amount_out must be positive'')
                | None \<Rightarrow> Inr ()) (\<lambda>_.
         bindR (case sm_ExactAmountOut m of
                  Some (_, Some change) \<Rightarrow> ib_validateForward x change
                | _ \<Rightarrow> Inr ()) (\<lambda>_.
         (case sm_Forward m of Some forward \<Rightarrow> ib_validateForward x forward | None \<Rightarrow> Inr ()))))"

definition SwapIncomingFund :: "('s, 'p) ibx \<Rightarrow> bytes \<Rightarrow> TokenData \<Rightarrow> SwapMetadata \<Rightarrow> 's sws \<Rightarrow>
    (RouteResult \<times> int \<times> 's sws) result" where
  "SwapIncomingFund x swapper tokenData swapData s =
     (case ib_parseInt x (td_Amount tokenData) of
        None \<Rightarrow> Inl (Err ''invalid amount'')
      | Some maxAmountIn \<Rightarrow>
          bindR (sw_accAddress (ib_sw x) (td_Receiver tokenData)) (\<lambda>receiver.
          bindR (case sm_ExactAmountIn swapData of
                   Some minAmountOut \<Rightarrow>
                     SwapExactAmountIn_sw (ib_sw x) (ib_rate x) swapper (sm_InterfaceProvider swapData)
                       (sm_Route swapData) maxAmountIn minAmountOut (ss_chain s)
                 | None \<Rightarrow>
                     (case sm_ExactAmountOut swapData of
                        None \<Rightarrow> Inl (Panic ''nil pointer dereference'')
                      | Some (amountOut, _) \<Rightarrow>
                          SwapExactAmountOut_sw (ib_sw x) (ib_rate x) swapper (sm_InterfaceProvider swapData)
                            (sm_Route swapData) maxAmountIn amountOut (ss_chain s))) (\<lambda>(result, interfaceFee, c).
          bindR (d_newCoin (sw_dec (ib_sw x)) (r_DenomOut (sm_Route swapData)) (c_Amount (rr_TokenOut result) - interfaceFee))
            (\<lambda>tokenOutNet.
          bindR (ib_sendFromModule x receiver [tokenOutNet] c) (\<lambda>c. Inr (result, interfaceFee, s\<lparr>ss_chain := c\<rparr>))))))"

definition DefaultRetryCount :: byte where "DefaultRetryCount = 3"

definition timeoutTimestamp :: "('s, 'p) ibx \<Rightarrow> 's \<Rightarrow> uint64" where
  "timeoutTimestamp x c = ib_blockTime x c + ib_timeout x"

text \<open>
  The memo is empty when the code unmarshals it, and \<^verbatim>\<open>encoding/json\<close> refuses an empty input.
\<close>

definition TransferAndCreateOutgoingInFlightPacket :: "('s, 'p) ibx \<Rightarrow> PacketIndex \<Rightarrow> string \<Rightarrow> coin \<Rightarrow> ForwardMetadata \<Rightarrow>
    's sws \<Rightarrow> (OutgoingInFlightPacket \<times> 's sws) result" where
  "TransferAndCreateOutgoingInFlightPacket x incomingIndex sender tokenOut metadata s =
     (let memo = [] in
      if fm_Next metadata then Inl (Err ''unexpected end of JSON input'')
      else
        let msgTransfer = \<lparr>mt_SourcePort = fm_Port metadata, mt_SourceChannel = fm_Channel metadata, mt_Token = tokenOut,
              mt_Sender = sender, mt_Receiver = fm_Receiver metadata, mt_TimeoutTimestamp = timeoutTimestamp x (ss_chain s),
              mt_Memo = memo\<rparr> in
        bindR (ib_transfer x msgTransfer (ss_chain s)) (\<lambda>(sequence, c).
          let retries = (case fm_Retries metadata of Some n \<Rightarrow> n | None \<Rightarrow> DefaultRetryCount);
              packet = \<lparr>op_Index = NewPacketIndex (fm_Port metadata) (fm_Channel metadata) sequence,
                        op_AckWaitingIndex = incomingIndex, op_RetriesRemaining = uint retries\<rparr>
          in Inr (packet, SetOutgoingInFlightPacket (s\<lparr>ss_chain := c\<rparr>) packet)))"

text \<open>The change of an exact output, and the forwarded output; \<open>True\<close> if a packet was sent.\<close>

definition process_change :: "('s, 'p) ibx \<Rightarrow> TokenData \<Rightarrow> SwapMetadata \<Rightarrow> RouteResult \<Rightarrow> int \<Rightarrow> IncomingInFlightPacket \<Rightarrow>
    's sws \<Rightarrow> (IncomingInFlightPacket \<times> bool \<times> 's sws) result" where
  "process_change x tokenData swapData result remainderAmountIn waitingPacket s =
     (if 0 < remainderAmountIn then
        bindR (d_newCoin (sw_dec (ib_sw x)) (c_Denom (rr_TokenIn result)) remainderAmountIn) (\<lambda>remainderTokenIn.
          (case sm_ExactAmountOut swapData of
             None \<Rightarrow> Inl (Panic ''nil pointer dereference'')
           | Some (_, None) \<Rightarrow> Inr (waitingPacket, False, s)
           | Some (_, Some change) \<Rightarrow>
               bindR (TransferAndCreateOutgoingInFlightPacket x (ip_Index waitingPacket) (td_Receiver tokenData)
                   remainderTokenIn change s) (\<lambda>(returnPacket, s).
                 Inr (waitingPacket\<lparr>ip_Change := OutgoingIndex (op_Index returnPacket)\<rparr>, True, s))))
      else Inr (waitingPacket, False, s))"

definition process_forward :: "('s, 'p) ibx \<Rightarrow> TokenData \<Rightarrow> SwapMetadata \<Rightarrow> RouteResult \<Rightarrow> int \<Rightarrow> IncomingInFlightPacket \<Rightarrow>
    's sws \<Rightarrow> (IncomingInFlightPacket \<times> bool \<times> 's sws) result" where
  "process_forward x tokenData swapData result interfaceFee waitingPacket s =
     (case sm_Forward swapData of
        None \<Rightarrow> Inr (waitingPacket, False, s)
      | Some forward \<Rightarrow>
          bindR (d_newCoin (sw_dec (ib_sw x)) (c_Denom (rr_TokenOut result)) (c_Amount (rr_TokenOut result) - interfaceFee))
            (\<lambda>tokenOutNet.
          bindR (TransferAndCreateOutgoingInFlightPacket x (ip_Index waitingPacket) (td_Receiver tokenData)
              tokenOutNet forward s) (\<lambda>(forwardPacket, s).
            Inr (waitingPacket\<lparr>ip_Forward := OutgoingIndex (op_Index forwardPacket)\<rparr>, True, s))))"

text \<open>The waiting packet has no timeout height and timestamp: the code does not set them.\<close>

definition ProcessSwappedFund :: "('s, 'p) ibx \<Rightarrow> Packet \<Rightarrow> TokenData \<Rightarrow> SwapMetadata \<Rightarrow> RouteResult \<Rightarrow> int \<Rightarrow> bytes \<Rightarrow>
    's sws \<Rightarrow> (IncomingInFlightPacket option \<times> 's sws) result" where
  "ProcessSwappedFund x incomingPacket tokenData swapData result interfaceFee incomingAck s =
     (let waitingPacket = \<lparr>
            ip_Index = NewPacketIndex (pk_DestinationPort incomingPacket) (pk_DestinationChannel incomingPacket) (pk_Sequence incomingPacket),
            ip_Data = pk_Data incomingPacket, ip_SrcPortId = pk_SourcePort incomingPacket,
            ip_SrcChannelId = pk_SourceChannel incomingPacket, ip_TimeoutHeight = [], ip_TimeoutTimestamp = 0,
            ip_Ack = incomingAck, ip_Result = result, ip_InterfaceFee = interfaceFee,
            ip_Change = LegAck [], ip_Forward = LegAck []\<rparr> in
      (case ib_parseInt x (td_Amount tokenData) of
         None \<Rightarrow> Inl (Err ''invalid amount'')
       | Some maxAmountIn \<Rightarrow>
           bindR (process_change x tokenData swapData result (maxAmountIn - c_Amount (rr_TokenIn result)) waitingPacket s)
             (\<lambda>(waitingPacket, w1, s).
           bindR (process_forward x tokenData swapData result interfaceFee waitingPacket s) (\<lambda>(waitingPacket, w2, s).
             if w1 \<or> w2 then Inr (Some waitingPacket, SetIncomingInFlightPacket s waitingPacket) else Inr (None, s)))))"

definition receiveFunds :: "('s, 'p) ibx \<Rightarrow> Packet \<Rightarrow> TokenData \<Rightarrow> string \<Rightarrow> 's sws \<Rightarrow> (bytes \<times> 's sws) result" where
  "receiveFunds x packet data overrideReceiver s =
     (let overrideData = \<lparr>td_Denom = td_Denom data, td_Amount = td_Amount data, td_Sender = td_Sender data,
            td_Receiver = overrideReceiver, td_Memo = []\<rparr>;
          (ack, c) = ib_OnRecvPacket x (packet\<lparr>pk_Data := ib_encodeData x overrideData\<rparr>) (ss_chain s)
      in (case ack of
            NilAck \<Rightarrow> Inl (Err ''ack is nil'')
          | ErrorAck e \<Rightarrow> Inl (Err ''ack error'')
          | ResultAck b \<Rightarrow> Inr (b, s\<lparr>ss_chain := c\<rparr>)))"

text \<open>The receipt, the swap and the forwarding; an error becomes an error acknowledgement.\<close>

definition recv_swap :: "('s, 'p) ibx \<Rightarrow> Packet \<Rightarrow> TokenData \<Rightarrow> SwapMetadata \<Rightarrow> 's sws \<Rightarrow> (ack \<times> 's sws) result" where
  "recv_swap x packet data metadata s =
     (let swapper = fst (ib_swapper x) in
      bindR (receiveFunds x packet data (snd (ib_swapper x)) s) (\<lambda>(incomingAck, s).
      bindR (SwapIncomingFund x swapper data metadata s) (\<lambda>(result, interfaceFee, s).
      bindR (ProcessSwappedFund x packet data metadata result interfaceFee incomingAck s) (\<lambda>(waitingPacket, s).
        (case waitingPacket of
           Some w \<Rightarrow> Inr (NilAck, SetIncomingInFlightPacket s w)
         | None \<Rightarrow>
             bindR (ib_encodeAck x \<lparr>sa_Result = result, sa_IncomingAck = incomingAck, sa_ChangeAck = [], sa_ForwardAck = []\<rparr>)
               (\<lambda>bz. Inr (ResultAck bz, s)))))))"

text \<open>
  A receive that returns an error acknowledgement leaves the state as it was: the channel module discards its
  writes. A panic aborts the transaction.
\<close>

definition OnRecvPacket :: "('s, 'p) ibx \<Rightarrow> Packet \<Rightarrow> 's sws \<Rightarrow> (ack \<times> 's sws) result" where
  "OnRecvPacket x packet s =
     (let inner = (let (a, c) = ib_OnRecvPacket x packet (ss_chain s) in Inr (a, s\<lparr>ss_chain := c\<rparr>)) in
      case ib_decodeData x (pk_Data packet) of
        None \<Rightarrow> inner
      | Some data \<Rightarrow>
          if \<not> ib_hasSwap x (td_Memo data) then inner
          else (case ib_decodeMemo x (td_Memo data) of
            Inl (Err e) \<Rightarrow> Inr (ErrorAck ''error parsing swap metadata'', s)
          | Inl f \<Rightarrow> Inl f
          | Inr metadata \<Rightarrow>
              (case Validate_metadata x metadata of
                 Inl (Err e) \<Rightarrow> Inr (ErrorAck e, s)
               | Inl f \<Rightarrow> Inl f
               | Inr _ \<Rightarrow>
                   if r_DenomIn (sm_Route metadata) \<noteq> ib_denom x (pk_DestinationPort packet) (pk_DestinationChannel packet)
                        (pk_SourcePort packet) (pk_SourceChannel packet) (td_Denom data)
                   then Inr (ErrorAck ''invalid route'', s)
                   else (case recv_swap x packet data metadata s of
                           Inl (Err e) \<Rightarrow> Inr (ErrorAck e, s)
                         | r \<Rightarrow> r))))"

section \<open>Acknowledgements and timeouts\<close>

definition ShouldDeleteCompletedWaitingPacket :: "('s, 'p) ibx \<Rightarrow> IncomingInFlightPacket \<Rightarrow> 's sws \<Rightarrow> (bool \<times> 's sws) result" where
  "ShouldDeleteCompletedWaitingPacket x packet s =
     (case (ip_Change packet, ip_Forward packet) of
        (LegAck changeAck, LegAck forwardAck) \<Rightarrow>
          bindR (ib_encodeAck x \<lparr>sa_Result = ip_Result packet, sa_IncomingAck = ip_Ack packet, sa_ChangeAck = changeAck,
              sa_ForwardAck = forwardAck\<rparr>) (\<lambda>bz.
          bindR (ib_lookupModule x (pi_PortId (ip_Index packet)) (pi_ChannelId (ip_Index packet)) (ss_chain s)) (\<lambda>chanCap.
          bindR (ib_parseHeight x (ip_TimeoutHeight packet)) (\<lambda>height.
          bindR (onChain (ib_writeAck x chanCap
              \<lparr>pk_Sequence = pi_Sequence (ip_Index packet), pk_SourcePort = ip_SrcPortId packet,
               pk_SourceChannel = ip_SrcChannelId packet, pk_DestinationPort = pi_PortId (ip_Index packet),
               pk_DestinationChannel = pi_ChannelId (ip_Index packet), pk_Data = ip_Data packet,
               pk_TimeoutHeight = height, pk_TimeoutTimestamp = ip_TimeoutTimestamp packet\<rparr> (ResultAck bz)) s) (\<lambda>s.
            Inr (True, RemoveIncomingInFlightPacket s (pi_PortId (ip_Index packet)) (pi_ChannelId (ip_Index packet))
              (pi_Sequence (ip_Index packet)))))))
      | _ \<Rightarrow> Inr (False, s))"

definition complete_waiting :: "('s, 'p) ibx \<Rightarrow> IncomingInFlightPacket \<Rightarrow> 's sws \<Rightarrow> 's sws result" where
  "complete_waiting x packet s =
     bindR (ShouldDeleteCompletedWaitingPacket x packet s) (\<lambda>(deleted, s).
       Inr (if deleted then s else SetIncomingInFlightPacket s packet))"

definition ack_leg :: "bytes \<Rightarrow> leg \<Rightarrow> leg" where
  "ack_leg acknowledgement l = (case l of OutgoingIndex _ \<Rightarrow> LegAck acknowledgement | LegAck a \<Rightarrow> LegAck a)"

definition OnAcknowledgementOutgoingInFlightPacket :: "('s, 'p) ibx \<Rightarrow> bytes \<Rightarrow> OutgoingInFlightPacket \<Rightarrow> 's sws \<Rightarrow> 's sws result" where
  "OnAcknowledgementOutgoingInFlightPacket x acknowledgement outgoingPacket s =
     (case GetIncomingInFlightPacket s (pi_PortId (op_AckWaitingIndex outgoingPacket))
         (pi_ChannelId (op_AckWaitingIndex outgoingPacket)) (pi_Sequence (op_AckWaitingIndex outgoingPacket)) of
        None \<Rightarrow> Inr s
      | Some incomingPacket \<Rightarrow>
          let s = RemoveOutgoingInFlightPacket s (pi_PortId (op_Index outgoingPacket)) (pi_ChannelId (op_Index outgoingPacket))
                (pi_Sequence (op_Index outgoingPacket));
              incomingPacket = incomingPacket\<lparr>ip_Change := ack_leg acknowledgement (ip_Change incomingPacket),
                ip_Forward := ack_leg acknowledgement (ip_Forward incomingPacket)\<rparr>
          in complete_waiting x incomingPacket s)"

definition timeout_leg :: "PacketIndex \<Rightarrow> bytes \<Rightarrow> leg \<Rightarrow> leg" where
  "timeout_leg out ack l = (case l of OutgoingIndex i \<Rightarrow> if Equal_pi i out then LegAck ack else l | LegAck a \<Rightarrow> l)"

text \<open>The remaining retries are an \<^verbatim>\<open>int32\<close> that starts from a byte, so the decrement does not wrap around before zero.\<close>

definition OnTimeoutOutgoingInFlightPacket :: "('s, 'p) ibx \<Rightarrow> Packet \<Rightarrow> OutgoingInFlightPacket \<Rightarrow> 's sws \<Rightarrow> 's sws result" where
  "OnTimeoutOutgoingInFlightPacket x packet outgoingPacket s =
     (let s = RemoveOutgoingInFlightPacket s (pi_PortId (op_Index outgoingPacket)) (pi_ChannelId (op_Index outgoingPacket))
            (pi_Sequence (op_Index outgoingPacket));
          outgoingPacket = outgoingPacket\<lparr>op_RetriesRemaining := op_RetriesRemaining outgoingPacket - 1\<rparr> in
      if 0 < op_RetriesRemaining outgoingPacket then
        bindR (ib_lookupModule x (pk_DestinationPort packet) (pk_DestinationChannel packet) (ss_chain s)) (\<lambda>chanCap.
        bindR (ib_sendPacket x chanCap (pk_SourcePort packet) (pk_SourceChannel packet) (timeoutTimestamp x (ss_chain s))
            (pk_Data packet) (ss_chain s)) (\<lambda>(sequence, c).
          Inr (SetOutgoingInFlightPacket (s\<lparr>ss_chain := c\<rparr>)
            (outgoingPacket\<lparr>op_Index := (op_Index outgoingPacket)\<lparr>pi_Sequence := sequence\<rparr>\<rparr>))))
      else
        let ack = ib_errorAck x ''Retry count on timeout exceeds'' in
        (case GetIncomingInFlightPacket s (pi_PortId (op_AckWaitingIndex outgoingPacket))
            (pi_ChannelId (op_AckWaitingIndex outgoingPacket)) (pi_Sequence (op_AckWaitingIndex outgoingPacket)) of
           None \<Rightarrow> Inr s
         | Some waitingPacket \<Rightarrow>
             complete_waiting x (waitingPacket\<lparr>ip_Change := timeout_leg (op_Index outgoingPacket) ack (ip_Change waitingPacket),
               ip_Forward := timeout_leg (op_Index outgoingPacket) ack (ip_Forward waitingPacket)\<rparr>) s))"

text \<open>The error of the wrapped module is ignored when a packet of this module is acknowledged.\<close>

definition OnAcknowledgementPacket :: "('s, 'p) ibx \<Rightarrow> Packet \<Rightarrow> bytes \<Rightarrow> 's sws \<Rightarrow> 's sws result" where
  "OnAcknowledgementPacket x packet acknowledgement s =
     (let inner = onChain (ib_OnAcknowledgementPacket x packet acknowledgement) in
      case ib_decodeData x (pk_Data packet) of
        None \<Rightarrow> inner s
      | Some data \<Rightarrow>
          (case GetOutgoingInFlightPacket s (pk_SourcePort packet) (pk_SourceChannel packet) (pk_Sequence packet) of
             None \<Rightarrow> inner s
           | Some inflightPacket \<Rightarrow>
               bindR (OnAcknowledgementOutgoingInFlightPacket x acknowledgement inflightPacket s) (\<lambda>s.
                 (case inner s of Inl (Err e) \<Rightarrow> Inr s | r \<Rightarrow> r))))"

definition OnTimeoutPacket :: "('s, 'p) ibx \<Rightarrow> Packet \<Rightarrow> 's sws \<Rightarrow> 's sws result" where
  "OnTimeoutPacket x packet s =
     (let inner = onChain (ib_OnTimeoutPacket x packet) in
      case ib_decodeData x (pk_Data packet) of
        None \<Rightarrow> inner s
      | Some data \<Rightarrow>
          (case GetOutgoingInFlightPacket s (pk_SourcePort packet) (pk_SourceChannel packet) (pk_Sequence packet) of
             None \<Rightarrow> inner s
           | Some inflightPacket \<Rightarrow> bindR (OnTimeoutOutgoingInFlightPacket x packet inflightPacket s) inner))"

end
