(* ===== verification/SwapIbcChain.thy ===== *)
theory SwapIbcChain
  imports SwapIbc
begin

text \<open>
  The in-flight packets over the life of the chain: what the handlers do to the stored packets, the states
  they reach, and what becomes of waiting packets.
\<close>

section \<open>Swaps of received funds\<close>

lemma SwapExactAmountIn_result:
  assumes c: "newCoin_ok (sw_dec x)" and wf: "wf_route route"
    and ok: "SwapExactAmountIn_sw x rate sender provider route amountIn minAmountOut s = Inr (result, fee, s')"
  shows "rr_TokenIn result = \<lparr>c_Denom = r_DenomIn route, c_Amount = amountIn\<rparr>"
    "c_Denom (rr_TokenOut result) = r_DenomOut route" "flow False result"
    "\<exists>net. calculateInterfaceFeeExactAmountIn (sw_dec x) rate (provider \<noteq> []) (c_Amount (rr_TokenOut result)) = Inr (net, fee)
       \<and> minAmountOut \<le> net"
proof -
  obtain a s1 where i: "InspectRoute (sw_dec x) (swapRoutePoolExactAmountIn x sender) (gen False (sw_dec x)) False route
      amountIn s = Inr (a, result, s1)"
    using ok by (auto simp: SwapExactAmountIn_sw_def swapRouteExactAmountIn_def gen_def Let_def result_simps split: if_splits)
  from Inspect_flow(1) [OF i c wf]
  show "rr_TokenIn result = \<lparr>c_Denom = r_DenomIn route, c_Amount = amountIn\<rparr>"
    "c_Denom (rr_TokenOut result) = r_DenomOut route" "flow False result"
    by (auto simp: exact_of_def other_of_def dex_def dot_def)
  show "\<exists>net. calculateInterfaceFeeExactAmountIn (sw_dec x) rate (provider \<noteq> []) (c_Amount (rr_TokenOut result)) = Inr (net, fee)
       \<and> minAmountOut \<le> net"
    using ok by (auto simp: SwapExactAmountIn_sw_def Let_def result_simps not_less split: if_splits)
qed

text \<open>An exact input leaves no change, so the change of the metadata, which is nil then, is not read.\<close>

lemma exact_in_no_change:
  assumes "newCoin_ok (sw_dec (ib_sw x))" "Validate_metadata x m = Inr ()" "sm_ExactAmountIn m = Some minAmountOut"
    and "SwapIncomingFund x swapper data m s = Inr (result, fee, s1)" "ib_parseInt x (td_Amount data) = Some amount"
  shows "process_change x data m result (amount - c_Amount (rr_TokenIn result)) w s1 = Inr (w, False, s1)"
proof -
  have wf: "wf_route (sm_Route m)"
    using assms(2) by (auto simp: Validate_metadata_def Validate_route_cases result_simps split: if_splits)
  obtain c where "SwapExactAmountIn_sw (ib_sw x) (ib_rate x) swapper (sm_InterfaceProvider m) (sm_Route m) amount
      minAmountOut (ss_chain s) = Inr (result, fee, c)"
    using assms(3-5) by (auto simp: SwapIncomingFund_def result_simps)
  from SwapExactAmountIn_result(1) [OF assms(1) wf this] show ?thesis by (simp add: process_change_def)
qed

section \<open>The stored packets\<close>

lemma NewPacketIndex_eta [simp]: "NewPacketIndex (pi_PortId i) (pi_ChannelId i) (pi_Sequence i) = i"
  by (simp add: NewPacketIndex_def)

definition heights_unset :: "'s sws \<Rightarrow> bool" where
  "heights_unset s \<longleftrightarrow> (\<forall>i p. ss_incoming s i = Some p \<longrightarrow> ip_TimeoutHeight p = [])"

lemma Transfer_incoming:
  "TransferAndCreateOutgoingInFlightPacket x i sender c m s = Inr (p, s') \<Longrightarrow> ss_incoming s' = ss_incoming s"
  by (auto simp: TransferAndCreateOutgoingInFlightPacket_def SetOutgoingInFlightPacket_def Let_def result_simps split: if_splits)

lemma process_change_incoming:
  assumes "process_change x data m result r w s = Inr (w', b, s')"
  shows "ss_incoming s' = ss_incoming s \<and> ip_TimeoutHeight w' = ip_TimeoutHeight w \<and> ip_Index w' = ip_Index w"
proof (cases "0 < r")
  case True
  then obtain c a f where c: "d_newCoin (sw_dec (ib_sw x)) (c_Denom (rr_TokenIn result)) r = Inr c" "sm_ExactAmountOut m = Some (a, f)"
    using assms by (auto simp: process_change_def elim!: bindR_E split: option.splits)
  show ?thesis
  proof (cases f)
    case None
    then show ?thesis using assms True c by (simp add: process_change_def)
  next
    case (Some change)
    then show ?thesis using assms True c by (auto simp: process_change_def Transfer_incoming elim!: bindR_E)
  qed
qed (use assms in \<open>auto simp: process_change_def\<close>)

lemma process_forward_incoming:
  assumes "process_forward x data m result fee w s = Inr (w', b, s')"
  shows "ss_incoming s' = ss_incoming s \<and> ip_TimeoutHeight w' = ip_TimeoutHeight w \<and> ip_Index w' = ip_Index w"
  using assms by (auto simp: process_forward_def Transfer_incoming elim!: bindR_E split: option.splits)

lemma ProcessSwappedFund_incoming:
  assumes "ProcessSwappedFund x pk data m result fee ack s = Inr (w, s')"
  shows "case w of None \<Rightarrow> ss_incoming s' = ss_incoming s
    | Some p \<Rightarrow> ss_incoming s' = (ss_incoming s)(ip_Index p \<mapsto> p) \<and> ip_TimeoutHeight p = []"
  using assms
  by (auto simp: ProcessSwappedFund_def Let_def result_simps SetIncomingInFlightPacket_def dest!: process_change_incoming process_forward_incoming
      split: option.splits if_splits)

lemma recv_swap_incoming:
  assumes "recv_swap x pk data m s = Inr (a, s')"
  shows "ss_incoming s' = ss_incoming s \<or> (\<exists>p. ss_incoming s' = (ss_incoming s)(ip_Index p \<mapsto> p) \<and> ip_TimeoutHeight p = [])"
proof -
  obtain b s1 result fee s2 w s3 where r: "receiveFunds x pk data (snd (ib_swapper x)) s = Inr (b, s1)"
      "SwapIncomingFund x (fst (ib_swapper x)) data m s1 = Inr (result, fee, s2)"
      "ProcessSwappedFund x pk data m result fee b s2 = Inr (w, s3)"
      and s': "s' = (case w of Some p \<Rightarrow> SetIncomingInFlightPacket s3 p | None \<Rightarrow> s3)"
    using assms by (auto simp: recv_swap_def Let_def result_simps split: option.splits)
  have "ss_incoming s1 = ss_incoming s"
    using r(1) by (auto simp: receiveFunds_def Let_def split: ack.splits prod.splits)
  moreover have "ss_incoming s2 = ss_incoming s1"
    using r(2) by (auto simp: SwapIncomingFund_def result_simps split: option.splits)
  ultimately show ?thesis
    using ProcessSwappedFund_incoming [OF r(3)] s' by (auto simp: SetIncomingInFlightPacket_def split: option.splits)
qed

lemma OnRecvPacket_incoming:
  assumes "OnRecvPacket x pk s = Inr (a, s')"
  shows "ss_incoming s' = ss_incoming s \<or> (\<exists>p. ss_incoming s' = (ss_incoming s)(ip_Index p \<mapsto> p) \<and> ip_TimeoutHeight p = [])"
  using assms recv_swap_incoming
  by (fastforce simp: OnRecvPacket_def Let_def split: option.splits if_splits sum.splits fault.splits prod.splits)

section \<open>Completion\<close>

text \<open>\<^verbatim>\<open>MustParseHeight\<close> panics on a text that is not a height, such as the empty one.\<close>

definition height_required :: "('s, 'p) ibx \<Rightarrow> bool" where
  "height_required x \<longleftrightarrow> (\<exists>m. ib_parseHeight x [] = Inl (Panic m))"

lemma complete_waiting_incoming:
  assumes "height_required x" "ip_TimeoutHeight p = []" "complete_waiting x p s = Inr s'"
  shows "ss_incoming s' = (ss_incoming s)(ip_Index p \<mapsto> p)"
  using assms by (auto simp: complete_waiting_def ShouldDeleteCompletedWaitingPacket_def height_required_def
      SetIncomingInFlightPacket_def result_simps split: leg.splits)

lemma OnAcknowledgement_fails:
  assumes "height_required x" "heights_unset s" "GetOutgoingInFlightPacket s port channel n = Some out"
    and "ss_incoming s (op_AckWaitingIndex out) \<noteq> None"
  shows "\<not> (\<exists>s'. OnAcknowledgementOutgoingInFlightPacket x ack out s = Inr s')"
proof -
  obtain w where w: "ss_incoming s (op_AckWaitingIndex out) = Some w" using assms(4) by auto
  then have h: "ip_TimeoutHeight w = []" using assms(2) by (auto simp: heights_unset_def)
  then show ?thesis
    using w assms(1)
    by (auto simp: OnAcknowledgementOutgoingInFlightPacket_def GetIncomingInFlightPacket_def Let_def complete_waiting_def
        ShouldDeleteCompletedWaitingPacket_def ack_leg_def height_required_def result_simps split: leg.splits)
qed

lemma onChain_incoming: "onChain f s = Inr s' \<Longrightarrow> ss_incoming s' = ss_incoming s"
  by (auto simp: onChain_def result_simps)

lemma OnAcknowledgement_incoming:
  assumes "height_required x" "heights_unset s" "OnAcknowledgementPacket x pk ack s = Inr s'"
  shows "ss_incoming s' = ss_incoming s"
proof -
  have step: "ss_incoming s1 = ss_incoming s"
    if "GetOutgoingInFlightPacket s port channel n = Some out" "OnAcknowledgementOutgoingInFlightPacket x ack out s = Inr s1"
    for port channel n out s1
  proof -
    have "ss_incoming s (op_AckWaitingIndex out) = None" using OnAcknowledgement_fails [OF assms(1,2) that(1)] that(2) by blast
    then show ?thesis
      using that(2) by (simp add: OnAcknowledgementOutgoingInFlightPacket_def GetIncomingInFlightPacket_def)
  qed
  show ?thesis
  proof (cases "ib_decodeData x (pk_Data pk) = None
      \<or> GetOutgoingInFlightPacket s (pk_SourcePort pk) (pk_SourceChannel pk) (pk_Sequence pk) = None")
    case True
    then have "onChain (ib_OnAcknowledgementPacket x pk ack) s = Inr s'"
      using assms(3) by (auto simp: OnAcknowledgementPacket_def Let_def split: option.splits)
    then show ?thesis by (rule onChain_incoming)
  next
    case False
    then obtain d out where d: "ib_decodeData x (pk_Data pk) = Some d"
        "GetOutgoingInFlightPacket s (pk_SourcePort pk) (pk_SourceChannel pk) (pk_Sequence pk) = Some out" by auto
    then obtain s1 where s1: "OnAcknowledgementOutgoingInFlightPacket x ack out s = Inr s1"
        "(case onChain (ib_OnAcknowledgementPacket x pk ack) s1 of Inl (Err e) \<Rightarrow> Inr s1 | r \<Rightarrow> r) = Inr s'"
      using assms(3) by (auto simp: OnAcknowledgementPacket_def Let_def elim!: bindR_E)
    then have "ss_incoming s' = ss_incoming s1"
      using onChain_incoming [of "ib_OnAcknowledgementPacket x pk ack" s1] by (auto split: sum.splits fault.splits)
    then show ?thesis using step [OF d(2) s1(1)] by simp
  qed
qed

lemma OnTimeoutOutgoing_incoming:
  assumes "height_required x" "heights_unset s" "OnTimeoutOutgoingInFlightPacket x pk out s = Inr s1"
  shows "ss_incoming s1 = ss_incoming s \<or> (\<exists>p. ip_TimeoutHeight p = [] \<and> ss_incoming s1 = (ss_incoming s)(ip_Index p \<mapsto> p))"
proof (cases "0 < op_RetriesRemaining out - 1")
  case True
  then show ?thesis
    using assms(3) by (auto simp: OnTimeoutOutgoingInFlightPacket_def RemoveOutgoingInFlightPacket_def
        SetOutgoingInFlightPacket_def Let_def result_simps)
next
  case False
  show ?thesis
  proof (cases "ss_incoming s (op_AckWaitingIndex out)")
    case None
    then show ?thesis
      using assms(3) False by (auto simp: OnTimeoutOutgoingInFlightPacket_def RemoveOutgoingInFlightPacket_def Let_def
          GetIncomingInFlightPacket_def)
  next
    case (Some w)
    define ack where "ack = ib_errorAck x ''Retry count on timeout exceeds''"
    define w' where "w' = w\<lparr>ip_Change := timeout_leg (op_Index out) ack (ip_Change w),
      ip_Forward := timeout_leg (op_Index out) ack (ip_Forward w)\<rparr>"
    define t where "t = s\<lparr>ss_outgoing := (ss_outgoing s)(op_Index out := None)\<rparr>"
    have "complete_waiting x w' t = Inr s1"
      using assms(3) False Some by (simp add: OnTimeoutOutgoingInFlightPacket_def RemoveOutgoingInFlightPacket_def Let_def
          GetIncomingInFlightPacket_def w'_def t_def ack_def)
    moreover have "ip_TimeoutHeight w' = []" using Some assms(2) by (simp add: w'_def heights_unset_def)
    ultimately have "ss_incoming s1 = (ss_incoming t)(ip_Index w' \<mapsto> w')"
      using complete_waiting_incoming [OF assms(1)] by blast
    then show ?thesis using \<open>ip_TimeoutHeight w' = []\<close> by (auto simp: t_def)
  qed
qed

lemma OnTimeout_incoming:
  assumes "height_required x" "heights_unset s" "OnTimeoutPacket x pk s = Inr s'"
  shows "dom (ss_incoming s) \<subseteq> dom (ss_incoming s') \<and> heights_unset s'"
proof -
  have "\<exists>s1. (s1 = s \<or> (\<exists>out. OnTimeoutOutgoingInFlightPacket x pk out s = Inr s1)) \<and> onChain (ib_OnTimeoutPacket x pk) s1 = Inr s'"
    using assms(3) by (auto simp: OnTimeoutPacket_def Let_def elim!: bindR_E split: option.splits)
  then obtain s1 where s1: "s1 = s \<or> (\<exists>out. OnTimeoutOutgoingInFlightPacket x pk out s = Inr s1)" "ss_incoming s' = ss_incoming s1"
    using onChain_incoming by blast
  then have "ss_incoming s1 = ss_incoming s \<or> (\<exists>p. ip_TimeoutHeight p = [] \<and> ss_incoming s1 = (ss_incoming s)(ip_Index p \<mapsto> p))"
    using OnTimeoutOutgoing_incoming [OF assms(1,2)] by blast
  then show ?thesis using s1(2) assms(2) by (auto simp: heights_unset_def split: if_splits)
qed

section \<open>Reachable states\<close>

inductive ibc_step :: "('s, 'p) ibx \<Rightarrow> 's sws \<Rightarrow> 's sws \<Rightarrow> bool" for x where
  recv: "OnRecvPacket x pk s = Inr (a, s') \<Longrightarrow> ibc_step x s s'"
| acked: "OnAcknowledgementPacket x pk b s = Inr s' \<Longrightarrow> ibc_step x s s'"
| timeout: "OnTimeoutPacket x pk s = Inr s' \<Longrightarrow> ibc_step x s s'"
| other: "ibc_step x s (s\<lparr>ss_chain := c\<rparr>)"

inductive ibc_reach :: "('s, 'p) ibx \<Rightarrow> 's sws \<Rightarrow> bool" for x where
  init: "ss_incoming s = Map.empty \<Longrightarrow> ibc_reach x s"
| step: "ibc_reach x s \<Longrightarrow> ibc_step x s s' \<Longrightarrow> ibc_reach x s'"

lemma ibc_step_heights:
  assumes "ibc_step x s s'" "height_required x" "heights_unset s"
  shows "heights_unset s' \<and> dom (ss_incoming s) \<subseteq> dom (ss_incoming s')"
  using assms(1)
proof cases
  case (recv pk a)
  from OnRecvPacket_incoming [OF this] assms(3) show ?thesis by (auto simp: heights_unset_def split: if_splits)
next
  case (acked pk b)
  from OnAcknowledgement_incoming [OF assms(2,3) this] assms(3) show ?thesis by (auto simp: heights_unset_def)
next
  case (timeout pk)
  from OnTimeout_incoming [OF assms(2,3) this] show ?thesis by blast
next
  case (other c)
  then show ?thesis using assms(3) by (simp add: heights_unset_def)
qed

lemma ibc_reach_heights: "ibc_reach x s \<Longrightarrow> height_required x \<Longrightarrow> heights_unset s"
  by (induction rule: ibc_reach.induct) (auto simp: heights_unset_def dest: ibc_step_heights)

lemma ibc_reach_waits:
  assumes "(ibc_step x)\<^sup>*\<^sup>* s s'" "ibc_reach x s" "height_required x"
  shows "dom (ss_incoming s) \<subseteq> dom (ss_incoming s') \<and> ibc_reach x s'"
  using assms(1)
proof (induction rule: rtranclp_induct)
  case base
  then show ?case using assms(2) by simp
next
  case (step t u)
  then have "heights_unset t" using ibc_reach_heights assms(3) by blast
  with ibc_step_heights [OF step(2) assms(3)] step ibc_reach.step show ?case by blast
qed

end
