(* ===== verification/SwapSample.thy ===== *)
theory SwapSample
  imports SwapIbcChain
begin

text \<open>
  Results of the messages, with the fee, and a concrete keeper: pools 0 to 9 give two units out for one
  in, and want three in for one out; the state counts the calls that change it.
\<close>

section \<open>Results of the messages\<close>

lemma gen_nonneg:
  "newCoin_ok d \<Longrightarrow> gen rv d denomIn denomOut a a' = Inr c \<Longrightarrow> 0 \<le> a \<and> 0 \<le> a'"
  using newCoinD(2) [of d]
  by (auto simp: gen_def generateResultExactAmountOut_def generateResultExactAmountIn_def result_simps split: if_splits)

lemma Inspect_nonneg:
  assumes "InspectRoute d f (gen rv d) rv r a s = Inr (a', res, s')" "newCoin_ok d"
  shows "0 \<le> a \<and> 0 \<le> a'"
proof (cases r)
  case (Route di do st)
  then show ?thesis using assms gen_nonneg [OF assms(2)] by (cases st) (auto simp: result_simps)
qed

lemma SwapExactAmountIn_fee:
  assumes d: "newCoin_ok (sw_dec x)" "mul_ok (sw_dec x)" "truncateInt_ok (sw_dec x)" and wf: "wf_route route"
    and rate: "0 \<le> rate" "rate \<le> dec_one"
    and ok: "SwapExactAmountIn_sw x rate sender provider route amountIn minAmountOut s = Inr (result, fee, s')"
  shows "fee = (if provider = [] then 0 else - ((- (c_Amount (rr_TokenOut result) * rate)) div dec_one))"
    "0 \<le> fee" "fee \<le> c_Amount (rr_TokenOut result)" "minAmountOut \<le> c_Amount (rr_TokenOut result) - fee"
proof -
  obtain a s1 where i: "InspectRoute (sw_dec x) (swapRoutePoolExactAmountIn x sender) (gen False (sw_dec x)) False route
      amountIn s = Inr (a, result, s1)"
    using ok by (auto simp: SwapExactAmountIn_sw_def swapRouteExactAmountIn_def gen_def Let_def result_simps split: if_splits)
  have "c_Amount (rr_TokenOut result) = a" using Inspect_flow(1) [OF i d(1) wf] by (simp add: other_of_def)
  then have gross: "0 \<le> c_Amount (rr_TokenOut result)" using Inspect_nonneg [OF i d(1)] by simp
  obtain net where n: "calculateInterfaceFeeExactAmountIn (sw_dec x) rate (provider \<noteq> []) (c_Amount (rr_TokenOut result)) = Inr (net, fee)"
      "minAmountOut \<le> net"
    using SwapExactAmountIn_result(4) [OF d(1) wf ok] by blast
  note p = interface_fee_in [OF d(2,3) rate gross, of net fee]
  have "provider = [] \<Longrightarrow> fee = 0 \<and> net = c_Amount (rr_TokenOut result)"
    using n(1) by (simp add: calculateInterfaceFeeExactAmountIn_def)
  then show "fee = (if provider = [] then 0 else - ((- (c_Amount (rr_TokenOut result) * rate)) div dec_one))"
    "0 \<le> fee" "fee \<le> c_Amount (rr_TokenOut result)" "minAmountOut \<le> c_Amount (rr_TokenOut result) - fee"
    using n p gross by (cases "provider = []"; simp)+
qed

lemma SwapExactAmountOut_result:
  assumes d: "newCoin_ok (sw_dec x)" and wf: "wf_route route"
    and ok: "SwapExactAmountOut_sw x rate sender provider route maxAmountIn amountOut s = Inr (result, fee, s')"
  shows "rr_TokenOut result = \<lparr>c_Denom = r_DenomOut route, c_Amount = amountOut\<rparr>" "c_Denom (rr_TokenIn result) = r_DenomIn route"
    "c_Amount (rr_TokenIn result) \<le> maxAmountIn" "flow True result"
    "calculateInterfaceFeeExactAmountOut (sw_dec x) rate (provider \<noteq> []) amountOut = Inr (amountOut, fee)"
proof -
  obtain gross where g: "calculateInterfaceFeeExactAmountOut (sw_dec x) rate (provider \<noteq> []) amountOut = Inr (gross, fee)"
      "calculateResultRouteExactAmountOut x route gross s = Inr result" "c_Amount (rr_TokenIn result) \<le> maxAmountIn"
  proof -
    obtain res f s1 where c: "CalculateResultExactAmountOut_sw x rate (provider \<noteq> []) route amountOut s = Inr (res, f)"
        and r: "(if c_Amount (rr_TokenIn res) > maxAmountIn then Inl (Err ''TODO'')
          else bindR (payInterfaceFee x sender provider (c_Denom (rr_TokenOut res)) f s1) (\<lambda>s. Inr (res, f, s))) = Inr (result, fee, s')"
      using ok unfolding SwapExactAmountOut_sw_def Let_def by (auto elim!: bindR_E simp del: split_paired_Ex)
    have "c_Amount (rr_TokenIn result) \<le> maxAmountIn" "res = result" "f = fee"
      using r by (auto elim!: bindR_E split: if_splits)
    then show thesis using c that unfolding CalculateResultExactAmountOut_sw_def by (auto elim!: bindR_E)
  qed
  have e: "gross = amountOut" by (rule interface_fee_out [OF g(1)])
  obtain a s1 where i: "InspectRoute (sw_dec x) (calculateResultRoutePoolExactAmountOut x) (gen True (sw_dec x)) True route
      amountOut s = Inr (a, result, s1)"
    using g(2) e by (auto simp: calculateResultRouteExactAmountOut_def gen_def result_simps)
  from Inspect_flow(1) [OF i d wf] g e
  show "rr_TokenOut result = \<lparr>c_Denom = r_DenomOut route, c_Amount = amountOut\<rparr>" "c_Denom (rr_TokenIn result) = r_DenomIn route"
    "c_Amount (rr_TokenIn result) \<le> maxAmountIn" "flow True result"
    "calculateInterfaceFeeExactAmountOut (sw_dec x) rate (provider \<noteq> []) amountOut = Inr (amountOut, fee)"
    by (auto simp: exact_of_def other_of_def dex_def dot_def)
qed

section \<open>Samples\<close>

definition sample_swx :: "(int, uint64) swx" where
  "sample_swx = \<lparr>sw_dec = sample_dec, sw_accAddress = \<lambda>s. Inr (map of_char s), sw_sendCoins = \<lambda>_ _ _ s. Inr (s + 1),
     lp_GetPool = \<lambda>_ p. if p < 10 then Some p else None,
     lp_CalculateResultExactAmountIn = \<lambda>_ _ c _ _. Inr (2 * c_Amount c),
     lp_CalculateResultExactAmountOut = \<lambda>_ _ c _ _. Inr (3 * c_Amount c),
     lp_SwapExactAmountIn = \<lambda>_ _ c _ _ s. Inr (2 * c_Amount c, s + 1),
     lp_SwapExactAmountOut = \<lambda>_ _ c _ _ s. Inr (3 * c_Amount c, s + 1)\<rparr>"

definition sample_hop :: Route where
  "sample_hop = Route ''a'' ''b'' (Route_Pool 1)"

definition sample_series :: Route where
  "sample_series = Route ''a'' ''c'' (Route_Series [sample_hop, Route ''b'' ''c'' (Route_Pool 2)])"

definition sample_parallel :: Route where
  "sample_parallel = Route ''a'' ''b'' (Route_Parallel [sample_hop, Route ''a'' ''b'' (Route_Pool 2)] [Some dec_one, Some dec_one])"

definition sample_packet :: Packet where
  "sample_packet = \<lparr>pk_Sequence = 7, pk_SourcePort = ''transfer'', pk_SourceChannel = ''channel-1'',
     pk_DestinationPort = ''transfer'', pk_DestinationChannel = ''channel-0'', pk_Data = [1], pk_TimeoutHeight = ''0-0'',
     pk_TimeoutTimestamp = 0\<rparr>"

definition sample_data :: TokenData where
  "sample_data = \<lparr>td_Denom = ''a'', td_Amount = ''100'', td_Sender = ''s'', td_Receiver = ''r'', td_Memo = ''m''\<rparr>"

definition sample_metadata :: SwapMetadata where
  "sample_metadata = \<lparr>sm_InterfaceProvider = [], sm_Route = sample_hop, sm_ExactAmountIn = Some 1, sm_ExactAmountOut = None,
     sm_Forward = Some \<lparr>fm_Receiver = ''f'', fm_Port = ''transfer'', fm_Channel = ''channel-2'', fm_Retries = None, fm_Next = False\<rparr>\<rparr>"

definition sample_ibx :: "(int, uint64) ibx" where
  "sample_ibx = \<lparr>ib_sw = sample_swx, ib_rate = 0, ib_blockTime = \<lambda>_. 0, ib_timeout = 600000000000, ib_swapper = ([9], ''swap''),
     ib_parseInt = \<lambda>_. Some 100, ib_sendFromModule = \<lambda>_ _ s. Inr (s + 1), ib_transfer = \<lambda>_ s. Inr (word_of_int s, s + 1),
     ib_validateForward = \<lambda>_. Inr (), ib_lookupModule = \<lambda>_ _ _. Inr [], ib_sendPacket = \<lambda>_ _ _ _ _ s. Inr (word_of_int s, s + 1),
     ib_writeAck = \<lambda>_ _ _ s. Inr (s + 1),
     ib_parseHeight = \<lambda>h. if h = [] then Inl (Panic ''expected height string format'') else Inr h,
     ib_encodeAck = \<lambda>_. Inr [2], ib_errorAck = \<lambda>_. [3], ib_denom = \<lambda>_ _ _ _ d. d, ib_decodeData = \<lambda>_. Some sample_data,
     ib_encodeData = \<lambda>_. [4], ib_hasSwap = \<lambda>_. True, ib_decodeMemo = \<lambda>_. Inr sample_metadata,
     ib_OnRecvPacket = \<lambda>_ s. (ResultAck [1], s + 1), ib_OnAcknowledgementPacket = \<lambda>_ _ s. Inr (s + 1),
     ib_OnTimeoutPacket = \<lambda>_ s. Inr (s + 1)\<rparr>"

definition sample_sws :: "int sws" where
  "sample_sws = \<lparr>ss_incoming = Map.empty, ss_outgoing = Map.empty, ss_chain = 0\<rparr>"

text \<open>The state after a packet was received, swapped and forwarded.\<close>

definition sample_sws1 :: "int sws" where
  "sample_sws1 = snd (projr (OnRecvPacket sample_ibx sample_packet sample_sws))"

lemma sample_recv: "OnRecvPacket sample_ibx sample_packet sample_sws = Inr (NilAck, sample_sws1)"
proof -
  have "(case OnRecvPacket sample_ibx sample_packet sample_sws of Inr (NilAck, s) \<Rightarrow> True | _ \<Rightarrow> False)" by code_simp
  then show ?thesis by (auto simp: sample_sws1_def split: sum.splits ack.splits prod.splits)
qed

lemma sample_waiting: "ss_incoming sample_sws1 (NewPacketIndex ''transfer'' ''channel-0'' 7) \<noteq> None"
  by code_simp

lemma sample_ibc_reach: "ibc_reach sample_ibx sample_sws1"
  using ibc_reach.step [OF ibc_reach.init ibc_step.recv [OF sample_recv]] by (simp add: sample_sws_def)

lemma sample_height_required: "height_required sample_ibx"
  by (simp add: height_required_def sample_ibx_def)

lemma sample_swx_ok: "newCoin_ok (sw_dec sample_swx)" "mul_ok (sw_dec sample_swx)" "truncateInt_ok (sw_dec sample_swx)"
  by (simp_all add: sample_swx_def sample_dec_ok)

end
