(* ===== verification/LpMath.thy ===== *)
theory LpMath
  imports SdkMath PowersOfTwo
begin

text \<open>
  \<^verbatim>\<open>x/liquiditypool/types\<close>: the price of a tick, the tick of a price, and the amounts of the two tokens that a
  liquidity stands for between two prices. Decimals are integers of \<open>10 ^ -18\<close>ths with the rounding operations of
  the SDK as a parameter \<open>d\<close>; ticks are the values of an \<^verbatim>\<open>int64\<close>, on which the arithmetic wraps around. The
  methods of \<^verbatim>\<open>LegacyDec\<close> that write to their receiver are called on values that nothing else refers to, so
  they are the functions that return a new value.
\<close>

section \<open>Records\<close>

record TickParams =
  tp_PriceRatio :: dec
  tp_BaseOffset :: dec

record Pool =
  pl_Id :: uint64
  pl_DenomBase :: string
  pl_DenomQuote :: string
  pl_FeeRate :: dec
  pl_TickParams :: TickParams
  pl_CurrentTick :: int
  pl_CurrentTickLiquidity :: dec
  pl_CurrentSqrtPrice :: dec

section \<open>Constants\<close>

definition TICK_MIN :: int where "TICK_MIN = - 9223372036854775808"
definition TICK_MAX :: int where "TICK_MAX = 9223372036854775807"

definition MaxSpotPrice :: dec where "MaxSpotPrice = dec_of_int 100000000000000000000000000000000000000"
definition MinSpotPrice :: dec where "MinSpotPrice = 1"

text \<open>Initialised from \<^verbatim>\<open>ApproxSqrt\<close>; where that fails the value is the nil decimal, and every use of it panics.\<close>

definition MaxSqrtPrice :: "decx \<Rightarrow> dec result" where "MaxSqrtPrice d = d_approxSqrt d MaxSpotPrice"
definition MinSqrtPrice :: "decx \<Rightarrow> dec result" where "MinSqrtPrice d = d_approxSqrt d MinSpotPrice"

definition ErrPriceOutOfBound :: fault where "ErrPriceOutOfBound = Err ''price out of bound''"
definition ErrInvalidTickers :: fault where "ErrInvalidTickers = Err ''invalid tickers''"
definition ErrSqrtPriceToTick :: fault where "ErrSqrtPriceToTick = Err ''error converting sqrt price to tick''"
definition ErrZeroLiquidity :: fault where "ErrZeroLiquidity = Err ''zero liquidity''"

text \<open>Where the code replaces an error by another, a panic is still a panic.\<close>

definition on_err :: "fault \<Rightarrow> 'a result \<Rightarrow> 'a result" where
  "on_err e r = (case r of Inl (Err _) \<Rightarrow> Inl e | _ \<Rightarrow> r)"

section \<open>Liquidity and amounts\<close>

definition ordered :: "dec \<Rightarrow> dec \<Rightarrow> dec \<times> dec" where
  "ordered a b = (if a > b then (b, a) else (a, b))"

definition LiquidityBase :: "decx \<Rightarrow> int \<Rightarrow> dec \<Rightarrow> dec \<Rightarrow> dec result" where
  "LiquidityBase d amount sqrtPriceA sqrtPriceB =
     (let (sqrtPriceA, sqrtPriceB) = ordered sqrtPriceA sqrtPriceB in
      bindR (d_mul d sqrtPriceA sqrtPriceB) (\<lambda>product.
        let diff = sqrtPriceB - sqrtPriceA in
        if diff = 0 then Inr 0
        else bindR (d_mul d (dec_of_int amount) product) (\<lambda>m. d_quo d m diff)))"

definition LiquidityQuote :: "decx \<Rightarrow> int \<Rightarrow> dec \<Rightarrow> dec \<Rightarrow> dec result" where
  "LiquidityQuote d amount sqrtPriceA sqrtPriceB =
     (let (sqrtPriceA, sqrtPriceB) = ordered sqrtPriceA sqrtPriceB; diff = sqrtPriceB - sqrtPriceA in
      if diff = 0 then Inr 0 else d_quo d (dec_of_int amount) diff)"

definition CalcAmountBaseDelta :: "decx \<Rightarrow> dec \<Rightarrow> dec \<Rightarrow> dec \<Rightarrow> bool \<Rightarrow> dec result" where
  "CalcAmountBaseDelta d liq sqrtPriceA sqrtPriceB roundUp =
     (let (sqrtPriceA, sqrtPriceB) = ordered sqrtPriceA sqrtPriceB; diff = sqrtPriceB - sqrtPriceA in
      bindR (d_mul d diff liq) (\<lambda>m. bindR (d_quo d m sqrtPriceB) (\<lambda>q. bindR (d_quo d q sqrtPriceA) (\<lambda>r.
        if roundUp then d_ceil d r else Inr r))))"

definition CalcAmountQuoteDelta :: "decx \<Rightarrow> dec \<Rightarrow> dec \<Rightarrow> dec \<Rightarrow> bool \<Rightarrow> dec result" where
  "CalcAmountQuoteDelta d liq sqrtPriceA sqrtPriceB roundUp =
     bindR (d_mul d \<bar>sqrtPriceB - sqrtPriceA\<bar> liq) (\<lambda>m. if roundUp then d_ceil d m else Inr m)"

definition GetNextSqrtPriceFromAmountBaseInRoundingUp :: "decx \<Rightarrow> dec \<Rightarrow> dec \<Rightarrow> dec \<Rightarrow> dec result" where
  "GetNextSqrtPriceFromAmountBaseInRoundingUp d sqrtPriceCurrent liquidity amountBaseRemainingIn =
     (if amountBaseRemainingIn = 0 then Inr sqrtPriceCurrent
      else bindR (d_mulTruncate d amountBaseRemainingIn sqrtPriceCurrent) (\<lambda>product.
        bindR (d_mulRoundUp d liquidity sqrtPriceCurrent) (\<lambda>m. d_quoRoundUp d m (product + liquidity))))"

definition GetNextSqrtPriceFromAmountBaseOutRoundingUp :: "decx \<Rightarrow> dec \<Rightarrow> dec \<Rightarrow> dec \<Rightarrow> dec result" where
  "GetNextSqrtPriceFromAmountBaseOutRoundingUp d sqrtPriceCurrent liquidity amountBaseRemainingOut =
     (if amountBaseRemainingOut = 0 then Inr sqrtPriceCurrent
      else bindR (d_mulRoundUp d sqrtPriceCurrent amountBaseRemainingOut) (\<lambda>product.
        bindR (d_mulRoundUp d liquidity sqrtPriceCurrent) (\<lambda>m. d_quoRoundUp d m (liquidity - product))))"

definition GetNextSqrtPriceFromAmountQuoteInRoundingDown :: "decx \<Rightarrow> dec \<Rightarrow> dec \<Rightarrow> dec \<Rightarrow> dec result" where
  "GetNextSqrtPriceFromAmountQuoteInRoundingDown d sqrtPriceCurrent liquidity amountQuoteRemainingIn =
     bindR (d_quoTruncate d amountQuoteRemainingIn liquidity) (\<lambda>q. Inr (q + sqrtPriceCurrent))"

definition GetNextSqrtPriceFromAmountQuoteOutRoundingDown :: "decx \<Rightarrow> dec \<Rightarrow> dec \<Rightarrow> dec \<Rightarrow> dec result" where
  "GetNextSqrtPriceFromAmountQuoteOutRoundingDown d sqrtPriceCurrent liquidity amountQuoteRemainingOut =
     bindR (d_quoRoundUp d amountQuoteRemainingOut liquidity) (\<lambda>q. Inr (sqrtPriceCurrent - q))"

definition GetLiquidityFromAmounts :: "decx \<Rightarrow> dec \<Rightarrow> dec \<Rightarrow> dec \<Rightarrow> int \<Rightarrow> int \<Rightarrow> dec result" where
  "GetLiquidityFromAmounts d sqrtPrice sqrtPriceA sqrtPriceB amountBase amountQuote =
     (let (sqrtPriceA, sqrtPriceB) = ordered sqrtPriceA sqrtPriceB in
      if sqrtPrice \<le> sqrtPriceA then LiquidityBase d amountBase sqrtPriceA sqrtPriceB
      else if sqrtPrice < sqrtPriceB then
        bindR (LiquidityBase d amountBase sqrtPrice sqrtPriceB) (\<lambda>liquidityBase.
        bindR (LiquidityQuote d amountQuote sqrtPrice sqrtPriceA) (\<lambda>liquidityQuote.
          Inr (min liquidityBase liquidityQuote)))
      else LiquidityQuote d amountQuote sqrtPriceB sqrtPriceA)"

definition SquareRoundUp :: "decx \<Rightarrow> dec \<Rightarrow> dec result" where
  "SquareRoundUp d sqrtPrice = d_mulRoundUp d sqrtPrice sqrtPrice"

definition SquareTruncate :: "decx \<Rightarrow> dec \<Rightarrow> dec result" where
  "SquareTruncate d sqrtPrice = d_mulTruncate d sqrtPrice sqrtPrice"

section \<open>Powers\<close>

definition powPrecision :: dec where "powPrecision = 10000000000"
definition oneHalf :: dec where "oneHalf = 500000000000000000"

definition AbsDifferenceWithSign :: "dec \<Rightarrow> dec \<Rightarrow> dec \<times> bool" where
  "AbsDifferenceWithSign a b = (if a \<ge> b then (a - b, False) else (- a + b, True))"

partial_function (option) PowApprox_loop ::
    "decx \<Rightarrow> dec \<Rightarrow> dec \<Rightarrow> bool \<Rightarrow> dec \<Rightarrow> dec \<Rightarrow> dec \<Rightarrow> bool \<Rightarrow> dec \<Rightarrow> int \<Rightarrow> dec result option" where
  "PowApprox_loop d exponent x xneg precision term acc negative bigK i =
     (if \<not> term \<ge> precision then Some (Inr acc)
      else case bindR (d_mul d term (fst (AbsDifferenceWithSign exponent bigK))) (\<lambda>t.
             bindR (d_mul d t x) (\<lambda>t. d_quo d t (dec_of_int i))) of
             Inl e \<Rightarrow> Some (Inl e)
           | Inr term \<Rightarrow>
               if term = 0 then Some (Inr acc)
               else PowApprox_loop d exponent x xneg precision term
                 (if ((negative \<noteq> xneg) \<noteq> snd (AbsDifferenceWithSign exponent bigK)) then acc - term else acc + term)
                 ((negative \<noteq> xneg) \<noteq> snd (AbsDifferenceWithSign exponent bigK))
                 (dec_of_int i) (wrap_int (i + 1)))"

declare PowApprox_loop.simps [code]

definition PowApprox :: "decx \<Rightarrow> dec \<Rightarrow> dec \<Rightarrow> dec \<Rightarrow> dec result" where
  "PowApprox d originalBase exponent precision =
     (if \<not> originalBase > 0 then Inl (Panic ''base must be greater than 0'')
      else if exponent = 0 then Inr dec_one
      else if exponent = oneHalf then
        (case d_approxSqrt d originalBase of Inl (Err e) \<Rightarrow> Inl (Panic e) | r \<Rightarrow> r)
      else let (x, xneg) = AbsDifferenceWithSign originalBase dec_one in
        join_loop (PowApprox_loop d exponent x xneg precision dec_one dec_one False 0 1))"

definition TruncateInt64 :: "decx \<Rightarrow> dec \<Rightarrow> int result" where
  "TruncateInt64 d a = bindR (d_truncateInt d a) (\<lambda>n.
     if TICK_MIN \<le> n \<and> n \<le> TICK_MAX then Inr n else Inl (Panic ''Int64() out of bound''))"

definition Pow :: "decx \<Rightarrow> dec \<Rightarrow> dec \<Rightarrow> dec result" where
  "Pow d base exponent =
     (if \<not> base > 0 then Inl (Panic ''base must be greater than 0'')
      else bindR (d_truncateInt d exponent) (\<lambda>n.
        let integer = dec_of_int n; fractional = exponent - integer in
        bindR (TruncateInt64 d integer) (\<lambda>k.
        bindR (d_power d base (word_of_int k)) (\<lambda>integerPow.
          if fractional = 0 then Inr integerPow
          else bindR (PowApprox d base fractional powPrecision) (\<lambda>fractionalPow. d_mul d integerPow fractionalPow)))))"

section \<open>Ticks and prices\<close>

definition TickToPrice :: "decx \<Rightarrow> int \<Rightarrow> TickParams \<Rightarrow> dec result" where
  "TickToPrice d tickIndex tickParams =
     bindR (Pow d (tp_PriceRatio tickParams) (tp_BaseOffset tickParams)) (\<lambda>offsetPrice.
       if tickIndex = 0 then Inr offsetPrice
       else if tickIndex = TICK_MIN then Inr MinSpotPrice
       else bindR
         (if tickIndex > 0 then Pow d (tp_PriceRatio tickParams) (dec_of_int tickIndex)
          else bindR (Pow d (tp_PriceRatio tickParams) (dec_of_int (wrap_int (- tickIndex)))) (d_quo d dec_one)) (\<lambda>price.
         bindR (d_mul d price offsetPrice) (\<lambda>price.
           if price > MaxSpotPrice \<or> price < MinSpotPrice then Inl ErrPriceOutOfBound else Inr price)))"

definition TickToSqrtPrice :: "decx \<Rightarrow> int \<Rightarrow> TickParams \<Rightarrow> dec result" where
  "TickToSqrtPrice d tickIndex tickParams = bindR (TickToPrice d tickIndex tickParams) (d_approxSqrt d)"

definition TicksToSqrtPrice :: "decx \<Rightarrow> int \<Rightarrow> int \<Rightarrow> TickParams \<Rightarrow> (dec \<times> dec) result" where
  "TicksToSqrtPrice d lowerTick upperTick tickParams =
     (if lowerTick \<ge> upperTick then Inl (Err ''tickLower should be less than tickUpper'')
      else bindR (TickToSqrtPrice d upperTick tickParams) (\<lambda>sqrtPriceUpperTick.
        bindR (TickToSqrtPrice d lowerTick tickParams) (\<lambda>sqrtPriceLowerTick. Inr (sqrtPriceLowerTick, sqrtPriceUpperTick))))"

text \<open>The two loops of \<^verbatim>\<open>CalculatePriceToTick\<close>.\<close>

partial_function (option) ticks_above :: "decx \<Rightarrow> dec \<Rightarrow> dec \<Rightarrow> dec \<Rightarrow> int \<Rightarrow> int result option" where
  "ticks_above d ratio offsetPrice price tickIndex =
     (if price > offsetPrice then
        (case d_quo d price ratio of
           Inl e \<Rightarrow> Some (Inl e)
         | Inr price \<Rightarrow> ticks_above d ratio offsetPrice price (wrap_int (tickIndex + 1)))
      else Some (Inr tickIndex))"

partial_function (option) ticks_below :: "decx \<Rightarrow> dec \<Rightarrow> dec \<Rightarrow> dec \<Rightarrow> int \<Rightarrow> int result option" where
  "ticks_below d ratio offsetPrice price tickIndex =
     (if price < offsetPrice then
        (case d_mul d price ratio of
           Inl e \<Rightarrow> Some (Inl e)
         | Inr price \<Rightarrow> ticks_below d ratio offsetPrice price (wrap_int (tickIndex - 1)))
      else Some (Inr tickIndex))"

declare ticks_above.simps [code] ticks_below.simps [code]

definition CalculatePriceToTick :: "decx \<Rightarrow> dec \<Rightarrow> TickParams \<Rightarrow> int result" where
  "CalculatePriceToTick d price tickParams =
     (if price < 0 then Inl (Err ''price must be greater than zero'')
      else if price > MaxSpotPrice \<or> price < MinSpotPrice then Inl ErrPriceOutOfBound
      else bindR (Pow d (tp_PriceRatio tickParams) (tp_BaseOffset tickParams)) (\<lambda>offsetPrice.
        if price = offsetPrice then Inr 0
        else if price > offsetPrice then join_loop (ticks_above d (tp_PriceRatio tickParams) offsetPrice price 0)
        else join_loop (ticks_below d (tp_PriceRatio tickParams) offsetPrice price 0)))"

definition CalculateSqrtPriceToTick :: "decx \<Rightarrow> dec \<Rightarrow> TickParams \<Rightarrow> int result" where
  "CalculateSqrtPriceToTick d sqrtPrice tickParams =
     bindR (d_mul d sqrtPrice sqrtPrice) (\<lambda>price.
     bindR (CalculatePriceToTick d price tickParams) (\<lambda>tick.
       if tick < TICK_MIN then Inl ErrInvalidTickers
       else
         let (tick, outOfBounds) =
           (if tick \<le> TICK_MIN then (TICK_MIN + 1, True)
            else if tick \<ge> TICK_MAX - 1 then (TICK_MAX - 2, True) else (tick, False)) in
         bindR (on_err ErrSqrtPriceToTick (TickToSqrtPrice d (wrap_int (tick + 1)) tickParams)) (\<lambda>sqrtPriceTplus1.
           if sqrtPrice \<ge> sqrtPriceTplus1 then
             bindR (on_err ErrSqrtPriceToTick (TickToSqrtPrice d (wrap_int (tick + 2)) tickParams)) (\<lambda>sqrtPriceTplus2.
               if (\<not> outOfBounds \<and> sqrtPrice \<ge> sqrtPriceTplus2) \<or> (outOfBounds \<and> sqrtPrice > sqrtPriceTplus2)
               then Inl ErrSqrtPriceToTick
               else if sqrtPrice = sqrtPriceTplus2 then Inr (wrap_int (tick + 2))
               else Inr (wrap_int (tick + 1)))
           else
             bindR (on_err ErrSqrtPriceToTick (TickToSqrtPrice d tick tickParams)) (\<lambda>sqrtPriceT.
               if sqrtPrice \<ge> sqrtPriceT then Inr tick
               else
                 bindR (on_err ErrSqrtPriceToTick (TickToSqrtPrice d (wrap_int (tick - 1)) tickParams)) (\<lambda>sqrtPriceTmin1.
                   if sqrtPrice < sqrtPriceTmin1 then Inl ErrSqrtPriceToTick else Inr (wrap_int (tick - 1)))))))"

section \<open>Pools\<close>

definition IsCurrentTickInRange :: "Pool \<Rightarrow> int \<Rightarrow> int \<Rightarrow> bool" where
  "IsCurrentTickInRange p lowerTick upperTick \<longleftrightarrow> pl_CurrentTick p \<ge> lowerTick \<and> pl_CurrentTick p < upperTick"

definition CalcActualAmounts :: "decx \<Rightarrow> Pool \<Rightarrow> int \<Rightarrow> int \<Rightarrow> dec \<Rightarrow> (dec \<times> dec) result" where
  "CalcActualAmounts d p lowerTick upperTick liquidityDelta =
     (if liquidityDelta = 0 then Inl ErrZeroLiquidity
      else bindR (TicksToSqrtPrice d lowerTick upperTick (pl_TickParams p)) (\<lambda>(sqrtPriceLowerTick, sqrtPriceUpperTick).
        let roundUp = liquidityDelta > 0 in
        if IsCurrentTickInRange p lowerTick upperTick then
          bindR (CalcAmountBaseDelta d liquidityDelta (pl_CurrentSqrtPrice p) sqrtPriceUpperTick roundUp) (\<lambda>actualAmountBase.
          bindR (CalcAmountQuoteDelta d liquidityDelta (pl_CurrentSqrtPrice p) sqrtPriceLowerTick roundUp) (\<lambda>actualAmountQuote.
            Inr (actualAmountBase, actualAmountQuote)))
        else if pl_CurrentTick p < lowerTick then
          bindR (CalcAmountBaseDelta d liquidityDelta sqrtPriceLowerTick sqrtPriceUpperTick roundUp) (\<lambda>actualAmountBase.
            Inr (actualAmountBase, 0))
        else
          bindR (CalcAmountQuoteDelta d liquidityDelta sqrtPriceLowerTick sqrtPriceUpperTick roundUp) (\<lambda>actualAmountQuote.
            Inr (0, actualAmountQuote))))"

definition HasPosition_pl :: "Pool \<Rightarrow> bool" where
  "HasPosition_pl p = (if pl_CurrentSqrtPrice p = 0 \<and> pl_CurrentTick p = 0 then False else True)"

definition UpdateLiquidityIfActivePosition :: "Pool \<Rightarrow> int \<Rightarrow> int \<Rightarrow> dec \<Rightarrow> Pool \<times> bool" where
  "UpdateLiquidityIfActivePosition p lowerTick upperTick liquidityDelta =
     (if IsCurrentTickInRange p lowerTick upperTick
      then (p\<lparr>pl_CurrentTickLiquidity := pl_CurrentTickLiquidity p + liquidityDelta\<rparr>, True)
      else (p, False))"

definition ApplySwap :: "Pool \<Rightarrow> dec \<Rightarrow> int \<Rightarrow> dec \<Rightarrow> Pool result" where
  "ApplySwap p newLiquidity newCurrentTick newCurrentSqrtPrice =
     (if newLiquidity < 0 then Inl (Err ''negative liquidity'')
      else if newCurrentSqrtPrice < 0 then Inl (Err ''negative sqrt price'')
      else if newCurrentTick < TICK_MIN \<or> newCurrentTick > TICK_MAX then Inl (Err ''tickIndex out of boundaries'')
      else Inr (p\<lparr>pl_CurrentTickLiquidity := newLiquidity, pl_CurrentTick := newCurrentTick,
        pl_CurrentSqrtPrice := newCurrentSqrtPrice\<rparr>))"

end
