(* ===== verification/KvStore.thy ===== *)
theory KvStore
  imports Prelude "HOL-Library.Sublist"
begin

text \<open>
  The key-value store of a module: a list of entries in the order of their keys, which is the order of iteration. The values are
  those that the module's codec marshals and unmarshals. The locale \<open>ordered_store\<close> is what the modules rely
  on; the sum of a function over the entries, which the invariants of the liquidity pool are about, is followed through the
  operations.
\<close>

section \<open>The interface\<close>

locale ordered_store =
  fixes ok :: "'s \<Rightarrow> bool"
    and entries :: "'s \<Rightarrow> ('k::linorder \<times> 'v) list"
    and get :: "'s \<Rightarrow> 'k \<Rightarrow> 'v option"
    and put :: "'k \<Rightarrow> 'v \<Rightarrow> 's \<Rightarrow> 's"
    and del :: "'k \<Rightarrow> 's \<Rightarrow> 's"
  assumes ok_sorted: "ok s \<Longrightarrow> sorted_wrt (<) (map fst (entries s))"
    and ok_put: "ok s \<Longrightarrow> ok (put k v s)"
    and ok_del: "ok s \<Longrightarrow> ok (del k s)"
    and get_iff: "ok s \<Longrightarrow> get s k = Some v \<longleftrightarrow> (k, v) \<in> set (entries s)"
    and set_put: "ok s \<Longrightarrow> set (entries (put k v s)) = insert (k, v) {e \<in> set (entries s). fst e \<noteq> k}"
    and set_del: "ok s \<Longrightarrow> set (entries (del k s)) = {e \<in> set (entries s). fst e \<noteq> k}"
begin

lemma distinct_keys: "ok s \<Longrightarrow> distinct (map fst (entries s))"
  using ok_sorted strict_sorted_iff by blast

lemma option_by_Some: "(\<And>v. a = Some v \<longleftrightarrow> b = Some v) \<Longrightarrow> a = b"
  by (cases a; cases b) auto

lemma get_put: "ok s \<Longrightarrow> get (put k v s) k' = (if k' = k then Some v else get s k')"
  by (rule option_by_Some) (auto simp: get_iff ok_put set_put)

lemma get_del: "ok s \<Longrightarrow> get (del k s) k' = (if k' = k then None else get s k')"
  by (rule option_by_Some) (auto simp: get_iff ok_del set_del)

lemma sum_entries: "ok s \<Longrightarrow> sum_list (map f (entries s)) = sum f (set (entries s))" for f :: "'k \<times> 'v \<Rightarrow> int"
  using distinct_keys [of s] distinct_map sum_list_distinct_conv_sum_set by blast

lemma sum_others:
  fixes f :: "'k \<times> 'v \<Rightarrow> int"
  assumes "ok s"
  shows "sum f {e \<in> set (entries s). fst e \<noteq> k} = sum f (set (entries s)) - (case get s k of None \<Rightarrow> 0 | Some v \<Rightarrow> f (k, v))"
proof (cases "get s k")
  case None
  then have "(k, v) \<notin> set (entries s)" for v using get_iff [OF assms, of k v] by simp
  then have "fst e \<noteq> k" if "e \<in> set (entries s)" for e using that by (cases e) auto
  then have "{e \<in> set (entries s). fst e \<noteq> k} = set (entries s)" by blast
  with None show ?thesis by simp
next
  case (Some v)
  then have v: "(k, v) \<in> set (entries s)" by (simp add: get_iff assms)
  have w: "(k, w) \<in> set (entries s) \<Longrightarrow> w = v" for w using get_iff [OF assms, of k w] Some by simp
  have "e = (k, v)" if "e \<in> set (entries s)" "fst e = k" for e using that w [of "snd e"] by (metis prod.collapse)
  then have "{e \<in> set (entries s). fst e \<noteq> k} = set (entries s) - {(k, v)}" by (intro set_eqI) (metis (mono_tags) Diff_iff fst_conv mem_Collect_eq singletonD singletonI)
  then have "sum f {e \<in> set (entries s). fst e \<noteq> k} = sum f (set (entries s)) - f (k, v)"
    using sum_diff1 [of "set (entries s)" f "(k, v)"] v by simp
  then show ?thesis using Some by simp
qed

lemma sum_put:
  fixes f :: "'k \<times> 'v \<Rightarrow> int"
  assumes "ok s"
  shows "sum_list (map f (entries (put k v s))) =
    sum_list (map f (entries s)) - (case get s k of None \<Rightarrow> 0 | Some w \<Rightarrow> f (k, w)) + f (k, v)"
  by (simp add: sum_entries assms ok_put set_put sum_others)

lemma sum_del:
  fixes f :: "'k \<times> 'v \<Rightarrow> int"
  assumes "ok s"
  shows "sum_list (map f (entries (del k s))) =
    sum_list (map f (entries s)) - (case get s k of None \<Rightarrow> 0 | Some w \<Rightarrow> f (k, w))"
  by (simp add: sum_entries assms ok_del set_del sum_others)

end

section \<open>The store\<close>

type_synonym ('k, 'v) kv = "('k \<times> 'v) list"

definition kv_ok :: "('k::linorder, 'v) kv \<Rightarrow> bool" where
  "kv_ok m \<longleftrightarrow> sorted_wrt (<) (map fst m)"

abbreviation kv_get :: "('k, 'v) kv \<Rightarrow> 'k \<Rightarrow> 'v option" where
  "kv_get \<equiv> map_of"

fun kv_set :: "'k::linorder \<Rightarrow> 'v \<Rightarrow> ('k, 'v) kv \<Rightarrow> ('k, 'v) kv" where
  "kv_set k v [] = [(k, v)]"
| "kv_set k v ((k', v') # m) =
     (if k < k' then (k, v) # (k', v') # m else if k = k' then (k, v) # m else (k', v') # kv_set k v m)"

definition kv_delete :: "'k \<Rightarrow> ('k, 'v) kv \<Rightarrow> ('k, 'v) kv" where
  "kv_delete k m = filter (\<lambda>e. fst e \<noteq> k) m"

text \<open>Iteration over the keys with a prefix, and over a range of keys.\<close>

definition kv_prefix :: "bytes \<Rightarrow> (bytes, 'v) kv \<Rightarrow> (bytes, 'v) kv" where
  "kv_prefix p m = filter (\<lambda>e. prefix p (fst e)) m"

lemma kv_ok_Cons: "kv_ok ((k, v) # m) \<longleftrightarrow> (\<forall>e\<in>set m. k < fst e) \<and> kv_ok m"
  by (auto simp: kv_ok_def)

lemma kv_ok_Nil [simp]: "kv_ok []"
  by (simp add: kv_ok_def)

lemma set_kv_set: "kv_ok m \<Longrightarrow> set (kv_set k v m) = insert (k, v) {e \<in> set m. fst e \<noteq> k}"
  by (induction k v m rule: kv_set.induct) (auto simp: kv_ok_Cons)

lemma kv_ok_set [simp]: "kv_ok m \<Longrightarrow> kv_ok (kv_set k v m)"
  by (induction k v m rule: kv_set.induct) (auto simp: kv_ok_Cons set_kv_set)

lemma kv_ok_filter: "kv_ok m \<Longrightarrow> kv_ok (filter P m)"
  by (induction m) (auto simp: kv_ok_Cons)

lemma kv_ok_delete [simp]: "kv_ok m \<Longrightarrow> kv_ok (kv_delete k m)"
  by (simp add: kv_delete_def kv_ok_filter)

interpretation kv: ordered_store kv_ok "\<lambda>m. m" kv_get kv_set kv_delete
proof
  fix s :: "('a, 'b) kv" and k v
  assume ok: "kv_ok s"
  then have "distinct (map fst s)" using strict_sorted_iff unfolding kv_ok_def by blast
  then show "kv_get s k = Some v \<longleftrightarrow> (k, v) \<in> set s" by (rule map_of_eq_Some_iff)
qed (auto simp: kv_ok_def [symmetric] set_kv_set, auto simp: kv_ok_def kv_delete_def)

lemmas kv_simps [simp] = kv.get_put kv.get_del

end
