(* ===== verification/LpKeys.thy ===== *)
theory LpKeys
  imports PowersOfTwo KvStore
begin

text \<open>
  The keys of the liquidity pool's store, \<^verbatim>\<open>x/liquiditypool/types/keys.go\<close>. Ticks are stored under keys whose byte
  order is the order of the ticks, negative ones included, so that an iterator visits the initialised ticks of a pool
  in order; the names of the fee accumulators keep the positions of different pools apart.
\<close>

section \<open>Big-endian integers\<close>

definition PutUint64 :: "uint64 \<Rightarrow> bytes" where
  "PutUint64 w = map (\<lambda>i. ucast (drop_bit (8 * i) w)) [7, 6, 5, 4, 3, 2, 1, 0]"

definition be_val :: "bytes \<Rightarrow> int" where
  "be_val b = foldl (\<lambda>a x. a * 256 + uint x) 0 b"

text \<open>\<^verbatim>\<open>sdk.BigEndianToUint64\<close>: zero for no bytes, a panic for fewer than eight.\<close>

definition BigEndianToUint64 :: "bytes \<Rightarrow> uint64 result" where
  "BigEndianToUint64 bz =
     (if bz = [] then Inr 0
      else if length bz < 8 then Inl (Panic ''index out of range'')
      else Inr (word_of_int (be_val (take 8 bz))))"

lemma length_PutUint64 [simp]: "length (PutUint64 w) = 8"
  by (simp add: PutUint64_def)

lemma PutUint64_not_Nil [simp]: "PutUint64 w \<noteq> []"
  by (simp add: PutUint64_def)

lemma take_bit_uint: "take_bit LENGTH('a) (uint w) = uint w" for w :: "'a::len word"
  by (rule take_bit_int_eq_self) (simp_all add: uint_lt2p)

lemma uint_byte_of: "uint (ucast (drop_bit n w) :: byte) = uint w div 2 ^ n mod 256" for w :: uint64
  by (simp only: unsigned_ucast_eq unsigned_drop_bit_eq take_bit_uint) (simp add: take_bit_eq_mod drop_bit_eq_div)

lemma horner_step: "x div 2 ^ (8 * (n + 1)) * 256 + x div 2 ^ (8 * n) mod 256 = x div 2 ^ (8 * n)" for x :: int
proof -
  have "(2::int) ^ (8 * (n + 1)) = 2 ^ (8 * n) * 256" by (simp add: power_add)
  then show ?thesis by (simp add: zdiv_zmult2_eq)
qed

lemma be_val_PutUint64 [simp]: "be_val (PutUint64 w) = uint w"
proof -
  let ?x = "uint w"
  have b: "?x < 2 ^ 64" using uint_lt2p [of w] by simp
  have "?x div 2 ^ 56 \<le> (2 ^ 64 - 1) div 2 ^ 56" using b by (intro zdiv_mono1) auto
  then have "?x div 2 ^ 56 < 256" by simp
  moreover have "0 \<le> ?x div 2 ^ 56" by (simp add: pos_imp_zdiv_nonneg_iff)
  ultimately have top: "?x div 2 ^ (8 * 7) mod 256 = ?x div 2 ^ (8 * 7)" by simp
  note h = horner_step [of ?x 6, simplified] horner_step [of ?x 5, simplified] horner_step [of ?x 4, simplified] horner_step [of ?x 3, simplified]
    horner_step [of ?x 2, simplified] horner_step [of ?x 1, simplified] horner_step [of ?x 0, simplified]
  have "be_val (PutUint64 w) = ((((((((0 * 256 + ?x div 2 ^ (8 * 7) mod 256) * 256 + ?x div 2 ^ (8 * 6) mod 256) * 256 + ?x div 2 ^ (8 * 5) mod 256) * 256
      + ?x div 2 ^ (8 * 4) mod 256) * 256 + ?x div 2 ^ (8 * 3) mod 256) * 256 + ?x div 2 ^ (8 * 2) mod 256) * 256 + ?x div 2 ^ (8 * 1) mod 256) * 256
      + ?x div 2 ^ (8 * 0) mod 256)"
    unfolding be_val_def PutUint64_def list.map foldl.simps uint_byte_of ..
  also have "\<dots> = ?x" using top by (simp only: mult_zero_left add_0_left) (simp add: h)
  finally show ?thesis .
qed

lemma be_val_acc: "foldl (\<lambda>a x. a * 256 + uint x) a b = a * 256 ^ length b + be_val b" for b :: bytes
proof (induction b arbitrary: a)
  case (Cons x b)
  show ?case using Cons [of "a * 256 + uint x"] Cons [of "uint x"] by (simp add: be_val_def algebra_simps)
qed (simp add: be_val_def)

lemma be_val_Cons: "be_val (x # b) = uint x * 256 ^ length b + be_val b"
  using be_val_acc [of "uint x" b] by (simp add: be_val_def)

lemma be_val_bounds: "0 \<le> be_val b" "be_val b < 256 ^ length b"
proof (induction b)
  case (Cons x b)
  { case 1 show ?case using Cons.IH by (simp add: be_val_Cons) }
  { case 2
    have "uint x \<le> 255" using uint_lt2p [of x] by simp
    then have "uint x * 256 ^ length b \<le> 255 * 256 ^ length b" by (intro mult_right_mono) auto
    moreover have "255 * 256 ^ length b + 256 ^ length b = (256 ^ length (x # b) :: int)" by simp
    ultimately show ?case using Cons.IH(2) unfolding be_val_Cons by linarith }
qed (simp_all add: be_val_def)

text \<open>On byte strings of the same length, the lexicographic order is the order of the numbers.\<close>

lemma be_val_less_iff: "length a = length b \<Longrightarrow> a < b \<longleftrightarrow> be_val a < be_val b"
proof (induction a b rule: list_induct2)
  case (Cons x a y b)
  note bd = be_val_bounds [of a] be_val_bounds [of b]
  let ?m = "256 ^ length b :: int"
  consider "x < y" | "x = y" | "y < x" by fastforce
  then show ?case
  proof cases
    case 1
    then have "uint x + 1 \<le> uint y" by (simp add: word_less_def)
    then have "(uint x + 1) * ?m \<le> uint y * ?m" by (intro mult_right_mono) auto
    then show ?thesis using 1 bd Cons.hyps by (simp add: be_val_Cons algebra_simps)
  next
    case 3
    then have "uint y + 1 \<le> uint x" by (simp add: word_less_def)
    then have "(uint y + 1) * ?m \<le> uint x * ?m" by (intro mult_right_mono) auto
    then have "be_val (y # b) < be_val (x # a)" using bd Cons.hyps by (simp add: be_val_Cons algebra_simps)
    moreover have "\<not> x # a < y # b" using 3 by auto
    ultimately show ?thesis by linarith
  qed (simp add: be_val_Cons Cons)
qed (simp add: be_val_def)

lemma PutUint64_less_iff: "PutUint64 v < PutUint64 w \<longleftrightarrow> v < w"
  by (simp add: be_val_less_iff word_less_def)

lemma PutUint64_inject [simp]: "PutUint64 v = PutUint64 w \<longleftrightarrow> v = w"
  using be_val_PutUint64 by (metis word_uint_eqI)

lemma BigEndianToUint64_PutUint64 [simp]: "BigEndianToUint64 (PutUint64 w) = Inr w"
  by (simp add: BigEndianToUint64_def)

section \<open>Ticks\<close>

definition str :: "string \<Rightarrow> bytes" where "str s = map of_char s"

definition TickIndexToBytes :: "int \<Rightarrow> bytes" where
  "TickIndexToBytes tickIndex =
     (if tickIndex < 0 then str ''N'' @ PutUint64 (word_of_int tickIndex)
      else str ''P'' @ PutUint64 (word_of_int tickIndex))"

definition TickIndexFromBytes :: "bytes \<Rightarrow> int result" where
  "TickIndexFromBytes bz =
     (if length bz \<noteq> 9 then Inl (Err ''invalid tick index encoding'')
      else bindR (BigEndianToUint64 (drop 1 bz)) (\<lambda>w.
        let i = sint w in
        if take 1 bz = str ''N'' \<and> i \<ge> 0 then Inl (Err ''invalid tick index encoding'')
        else if take 1 bz = str ''P'' \<and> i < 0 then Inl (Err ''invalid tick index encoding'')
        else Inr i))"

definition KeyTickPrefixByPoolId :: "uint64 \<Rightarrow> bytes" where
  "KeyTickPrefixByPoolId poolId = str ''TickInfo/value/'' @ str ''/'' @ PutUint64 poolId"

definition GetTickInfoIDBytes :: "uint64 \<Rightarrow> int \<Rightarrow> bytes" where
  "GetTickInfoIDBytes poolId tickIndex = KeyTickPrefixByPoolId poolId @ TickIndexToBytes tickIndex"

definition int64 :: "int \<Rightarrow> bool" where
  "int64 t \<longleftrightarrow> - (2 ^ 63) \<le> t \<and> t < 2 ^ 63"

lemma str_simps [simp]: "str [] = []" "str (c # s) = of_char c # str s" "length (str s) = length s"
  by (simp_all add: str_def)

lemma sint_word_of_int64: "int64 t \<Longrightarrow> sint (word_of_int t :: uint64) = t"
  by (simp add: int64_def signed_of_int signed_take_bit_int_eq_self)

lemma TickIndex_roundtrip: "int64 t \<Longrightarrow> TickIndexFromBytes (TickIndexToBytes t) = Inr t"
  by (simp add: TickIndexFromBytes_def TickIndexToBytes_def sint_word_of_int64)

lemma uint_word_of_int64: "int64 t \<Longrightarrow> uint (word_of_int t :: uint64) = (if t < 0 then t + 2 ^ 64 else t)"
proof -
  assume "int64 t"
  then have "t mod 2 ^ 64 = (if t < 0 then t + 2 ^ 64 else t)"
    using mod_pos_pos_trivial [of "t + 2 ^ 64" "2 ^ 64"] by (auto simp: int64_def)
  then show ?thesis by (simp add: uint_word_of_int)
qed

lemma TickIndexToBytes_less_iff:
  assumes "int64 s" "int64 t"
  shows "TickIndexToBytes s < TickIndexToBytes t \<longleftrightarrow> s < t"
proof -
  have "(of_char CHR ''N'' :: byte) < of_char CHR ''P''" by (simp add: of_char_def)
  moreover have "\<not> (of_char CHR ''P'' :: byte) < of_char CHR ''N''" "(of_char CHR ''P'' :: byte) \<noteq> of_char CHR ''N''"
    by (simp_all add: of_char_def)
  ultimately show ?thesis
    using assms by (auto simp: TickIndexToBytes_def PutUint64_less_iff word_less_def uint_word_of_int64)
qed

lemma TickIndexToBytes_inject: "int64 s \<Longrightarrow> int64 t \<Longrightarrow> TickIndexToBytes s = TickIndexToBytes t \<longleftrightarrow> s = t"
  using TickIndex_roundtrip by (metis Inr_inject)

lemma length_TickIndexToBytes [simp]: "length (TickIndexToBytes t) = 9"
  by (simp add: TickIndexToBytes_def)

lemma KeyTickPrefix_inject [simp]: "KeyTickPrefixByPoolId p = KeyTickPrefixByPoolId q \<longleftrightarrow> p = q"
  by (simp add: KeyTickPrefixByPoolId_def)

lemma length_KeyTickPrefix [simp]: "length (KeyTickPrefixByPoolId p) = 24"
  by (simp add: KeyTickPrefixByPoolId_def)

lemma prefix_tick_iff: "prefix (KeyTickPrefixByPoolId p) (GetTickInfoIDBytes q t) \<longleftrightarrow> p = q"
  by (auto simp: GetTickInfoIDBytes_def prefix_def append_eq_append_conv)

lemma GetTickInfoIDBytes_inject:
  "int64 s \<Longrightarrow> int64 t \<Longrightarrow> GetTickInfoIDBytes p s = GetTickInfoIDBytes q t \<longleftrightarrow> p = q \<and> s = t"
  by (auto simp: GetTickInfoIDBytes_def TickIndexToBytes_inject)

section \<open>Positions\<close>

definition PositionByPoolPrefix :: "uint64 \<Rightarrow> bytes" where
  "PositionByPoolPrefix poolId = str ''PositionByPool/'' @ PutUint64 poolId"

definition PositionByAddressPrefix :: "string \<Rightarrow> bytes" where
  "PositionByAddressPrefix addr = str ''PositionByAddress/'' @ str addr"

lemma prefix_by_pool_iff: "prefix (PositionByPoolPrefix p) (PositionByPoolPrefix q @ k) \<longleftrightarrow> p = q"
  by (auto simp: PositionByPoolPrefix_def prefix_def append_eq_append_conv)

section \<open>Accumulators\<close>

text \<open>\<^verbatim>\<open>strconv.FormatUint(x, 10)\<close>.\<close>

definition digit :: "int \<Rightarrow> char" where
  "digit n = char_of (48 + n)"

function decimal :: "int \<Rightarrow> string" where
  "decimal n = (if n < 10 then [digit n] else decimal (n div 10) @ [digit (n mod 10)])"
  by auto
termination by (relation "measure nat") auto

definition FormatUint :: "uint64 \<Rightarrow> string" where
  "FormatUint x = decimal (uint x)"

definition KeyFeePositionAccumulator :: "uint64 \<Rightarrow> string" where
  "KeyFeePositionAccumulator positionId = ''FeePositionAccumulator/value/'' @ ''|'' @ FormatUint positionId"

definition KeyFeePoolAccumulator :: "uint64 \<Rightarrow> string" where
  "KeyFeePoolAccumulator poolId = ''FeePoolAccumulator/value/'' @ ''/'' @ FormatUint poolId"

definition FormatKeyAccumPrefix :: "string \<Rightarrow> bytes" where
  "FormatKeyAccumPrefix accumName = str ''Accumulator/Acc/value/'' @ str accumName"

definition FormatKeyAccumulatorPositionPrefix :: "string \<Rightarrow> string \<Rightarrow> bytes" where
  "FormatKeyAccumulatorPositionPrefix accumName name =
     str ''Accumulator/Pos/value'' @ str accumName @ str ''||'' @ str name"

declare decimal.simps [simp del]

lemma of_char_digit: "0 \<le> n \<Longrightarrow> n < 10 \<Longrightarrow> of_char (digit n) = 48 + n"
  by (simp add: digit_def)

lemma decimal_digits: "0 \<le> n \<Longrightarrow> c \<in> set (decimal n) \<Longrightarrow> \<exists>k. 0 \<le> k \<and> k < 10 \<and> c = digit k"
proof (induction n rule: decimal.induct)
  case (1 n)
  show ?case
  proof (cases "n < 10")
    case True
    then show ?thesis using 1 by (subst (asm) decimal.simps) auto
  next
    case False
    then have "c \<in> set (decimal (n div 10)) \<or> c = digit (n mod 10)" using 1 by (subst (asm) (2) decimal.simps) auto
    then show ?thesis
    proof
      assume "c \<in> set (decimal (n div 10))"
      then show ?thesis using 1(1) False 1(2) by (simp add: pos_imp_zdiv_nonneg_iff)
    qed (intro exI [of _ "n mod 10"], simp)
  qed
qed

lemma digit_inject: "0 \<le> m \<Longrightarrow> m < 10 \<Longrightarrow> 0 \<le> n \<Longrightarrow> n < 10 \<Longrightarrow> digit m = digit n \<longleftrightarrow> m = n"
  using of_char_digit by (metis add_left_cancel)

lemma decimal_not_Nil [simp]: "decimal n \<noteq> []"
  by (subst decimal.simps) simp

lemma decimal_inject: "0 \<le> m \<Longrightarrow> 0 \<le> n \<Longrightarrow> decimal m = decimal n \<Longrightarrow> m = n"
proof (induction m arbitrary: n rule: decimal.induct)
  case (1 m)
  have m: "decimal m = (if m < 10 then [digit m] else decimal (m div 10) @ [digit (m mod 10)])"
    and n: "decimal n = (if n < 10 then [digit n] else decimal (n div 10) @ [digit (n mod 10)])"
    by (subst decimal.simps, rule refl)+
  show ?case
  proof (cases "m < 10 \<or> n < 10")
    case True
    then show ?thesis using 1 m n by (auto simp: digit_inject append_eq_Cons_conv Cons_eq_append_conv split: if_splits)
  next
    case False
    then have "decimal (m div 10) = decimal (n div 10)" "digit (m mod 10) = digit (n mod 10)" using 1(4) m n by auto
    moreover from this(1) have "m div 10 = n div 10" using 1 False by auto
    ultimately have "m div 10 = n div 10" "m mod 10 = n mod 10" by (auto simp: digit_inject)
    then show ?thesis by (metis div_mult_mod_eq)
  qed
qed

lemma FormatUint_inject [simp]: "FormatUint v = FormatUint w \<longleftrightarrow> v = w"
  using decimal_inject [of "uint v" "uint w"] by (auto simp: FormatUint_def intro: word_uint_eqI)

lemma FormatUint_no_bar: "CHR ''|'' \<notin> set (FormatUint v)"
proof
  assume "CHR ''|'' \<in> set (FormatUint v)"
  then obtain k :: int where "0 \<le> k" "k < 10" "CHR ''|'' = digit k" using decimal_digits [of "uint v"] by (auto simp: FormatUint_def)
  then have "of_char CHR ''|'' = 48 + k" using of_char_digit by metis
  then show False using \<open>k < 10\<close> by (simp add: of_char_def)
qed

lemma str_inject [simp]: "str s = str t \<longleftrightarrow> s = t"
proof -
  have "inj (of_char :: char \<Rightarrow> byte)"
  proof (rule injI)
    fix c e :: char
    assume "(of_char c :: byte) = of_char e"
    then have "unat (of_nat (of_char c) :: byte) = unat (of_nat (of_char e) :: byte)" by (simp only: of_nat_of_char)
    then show "c = e"
      using of_char_mod_256 [of c, where ?'a = nat] of_char_mod_256 [of e, where ?'a = nat] by (simp add: unat_of_nat)
  qed
  then show ?thesis by (simp add: str_def inj_map_eq_map)
qed

end
