(* ===== verification/LpStore.thy ===== *)
theory LpStore
  imports LpMath LpKeys
begin

text \<open>
  The state of \<^verbatim>\<open>x/liquiditypool\<close> and the accesses to its store: pools, positions and their two indexes, the parameters,
  and the genesis state. Pools and positions are stored under the big-endian form of their numbers, so the order of the numbers is the
  order of the keys; the indexes, the ticks and the accumulators are stored under the byte strings of \<^verbatim>\<open>types/keys.go\<close>. The prefixes
  of these groups differ, so each group is a store of its own. The state of the bank is the last field, of a type that is left open.
\<close>

section \<open>Data\<close>

record Position =
  po_Id :: uint64
  po_Address :: string
  po_PoolId :: uint64
  po_LowerTick :: int
  po_UpperTick :: int
  po_Liquidity :: dec

record TickInfo =
  ti_PoolId :: uint64
  ti_TickIndex :: int
  ti_LiquidityGross :: dec
  ti_LiquidityNet :: dec
  ti_FeeGrowth :: decCoins

record AccumulatorObject =
  ao_Name :: string
  ao_AccumValue :: decCoins
  ao_TotalShares :: dec

record AccumulatorPosition =
  ap_NumShares :: dec
  ap_AccumValuePerShare :: decCoins
  ap_UnclaimedRewardsTotal :: decCoins

text \<open>\<open>None\<close> is the nil decimal of a zero value.\<close>

record lpParams =
  lq_WithdrawFeeRate :: "dec option"
  lq_SwapTreasuryTaxRate :: "dec option"

record 'b lps =
  ls_pools :: "(uint64, Pool) kv"
  ls_poolCount :: "uint64 option"
  ls_positions :: "(uint64, Position) kv"
  ls_positionCount :: "uint64 option"
  ls_byPool :: "(bytes, uint64) kv"
  ls_byAddress :: "(bytes, uint64) kv"
  ls_ticks :: "(bytes, TickInfo) kv"
  ls_accums :: "(bytes, AccumulatorObject) kv"
  ls_accumPositions :: "(bytes, AccumulatorPosition) kv"
  ls_params :: "lpParams option"
  ls_bank :: 'b

section \<open>Interfaces\<close>

text \<open>The coins with decimal amounts of the SDK. The operations panic on negative or invalid coins.\<close>

record dcx =
  dc_new :: "decCoins \<Rightarrow> decCoins result"
  dc_newFromDec :: "string \<Rightarrow> dec \<Rightarrow> deccoin result"
  dc_fromCoins :: "coin list \<Rightarrow> decCoins result"
  dc_add :: "decCoins \<Rightarrow> decCoins \<Rightarrow> decCoins result"
  dc_sub :: "decCoins \<Rightarrow> decCoins \<Rightarrow> decCoins result"
  dc_safeSub :: "decCoins \<Rightarrow> decCoins \<Rightarrow> decCoins result"
  dc_mulDec :: "decCoins \<Rightarrow> dec \<Rightarrow> decCoins result"
  dc_quoDecTruncate :: "decCoins \<Rightarrow> dec \<Rightarrow> decCoins result"
  dc_truncateDecimal :: "decCoins \<Rightarrow> (coin list \<times> decCoins) result"
  dc_isZero :: "decCoins \<Rightarrow> bool"
  dc_isAnyNegative :: "decCoins \<Rightarrow> bool"

text \<open>The SDK's addresses and coins, and the bank keeper of \<^verbatim>\<open>types/expected_keepers.go\<close>.\<close>

record 'b lpx =
  lx_dec :: decx
  lx_dc :: dcx
  lx_accAddress :: "string \<Rightarrow> bytes result"
  lx_accString :: "bytes \<Rightarrow> string"
  lx_moduleAddress :: "string \<Rightarrow> bytes"
  lx_decFromStr :: "string \<Rightarrow> dec result"
  lx_intFromString :: "string \<Rightarrow> int option"
  lx_coinsAdd :: "coin list \<Rightarrow> coin list \<Rightarrow> coin list result"
  lx_coinsIsZero :: "coin list \<Rightarrow> bool"
  lx_isSendEnabled :: "coin list \<Rightarrow> 'b \<Rightarrow> unit result"
  lx_sendCoins :: "bytes \<Rightarrow> bytes \<Rightarrow> coin list \<Rightarrow> 'b \<Rightarrow> 'b result"
  lx_getBalance :: "bytes \<Rightarrow> string \<Rightarrow> 'b \<Rightarrow> coin"
  lx_authority :: string

definition NewPoolAddress :: "'b lpx \<Rightarrow> uint64 \<Rightarrow> bytes" where
  "NewPoolAddress x poolId = lx_moduleAddress x (''liquiditypool/'' @ FormatUint poolId)"

definition NewPoolFeesAddress :: "'b lpx \<Rightarrow> uint64 \<Rightarrow> bytes" where
  "NewPoolFeesAddress x poolId = lx_moduleAddress x (''poolfees/'' @ FormatUint poolId)"

definition GetAddress :: "'b lpx \<Rightarrow> Pool \<Rightarrow> bytes" where
  "GetAddress x p = NewPoolAddress x (pl_Id p)"

definition GetFeesAddress :: "'b lpx \<Rightarrow> Pool \<Rightarrow> bytes" where
  "GetFeesAddress x p = NewPoolFeesAddress x (pl_Id p)"

text \<open>A transfer by the bank keeper.\<close>

definition send_lp :: "'b lpx \<Rightarrow> bytes \<Rightarrow> bytes \<Rightarrow> coin list \<Rightarrow> 'b lps \<Rightarrow> 'b lps result" where
  "send_lp x a b cs s = bindR (lx_sendCoins x a b cs (ls_bank s)) (\<lambda>bk. Inr (s\<lparr>ls_bank := bk\<rparr>))"

section \<open>Pools\<close>

definition GetPoolCount :: "'b lps \<Rightarrow> uint64" where
  "GetPoolCount s = (case ls_poolCount s of None \<Rightarrow> 0 | Some n \<Rightarrow> n)"

definition SetPoolCount :: "uint64 \<Rightarrow> 'b lps \<Rightarrow> 'b lps" where
  "SetPoolCount n s = s\<lparr>ls_poolCount := Some n\<rparr>"

definition SetPool :: "Pool \<Rightarrow> 'b lps \<Rightarrow> 'b lps" where
  "SetPool pool s = s\<lparr>ls_pools := kv_set (pl_Id pool) pool (ls_pools s)\<rparr>"

definition GetPool :: "'b lps \<Rightarrow> uint64 \<Rightarrow> Pool option" where
  "GetPool s i = kv_get (ls_pools s) i"

definition AppendPool :: "Pool \<Rightarrow> 'b lps \<Rightarrow> uint64 \<times> 'b lps" where
  "AppendPool pool s =
     (let n = GetPoolCount s; s = SetPool (pool\<lparr>pl_Id := n\<rparr>) s in (n, SetPoolCount (n + 1) s))"

definition RemovePool :: "uint64 \<Rightarrow> 'b lps \<Rightarrow> 'b lps" where
  "RemovePool i s = s\<lparr>ls_pools := kv_delete i (ls_pools s)\<rparr>"

definition GetAllPools :: "'b lps \<Rightarrow> Pool list" where
  "GetAllPools s = map snd (ls_pools s)"

section \<open>Positions\<close>

definition GetPositionCount :: "'b lps \<Rightarrow> uint64" where
  "GetPositionCount s = (case ls_positionCount s of None \<Rightarrow> 0 | Some n \<Rightarrow> n)"

definition SetPositionCount :: "uint64 \<Rightarrow> 'b lps \<Rightarrow> 'b lps" where
  "SetPositionCount n s = s\<lparr>ls_positionCount := Some n\<rparr>"

definition SetPosition :: "Position \<Rightarrow> 'b lps \<Rightarrow> 'b lps" where
  "SetPosition position s =
     (let positionKey = PutUint64 (po_Id position) in
      s\<lparr>ls_positions := kv_set (po_Id position) position (ls_positions s),
        ls_byPool := kv_set (PositionByPoolPrefix (po_PoolId position) @ positionKey) (po_Id position) (ls_byPool s),
        ls_byAddress := kv_set (PositionByAddressPrefix (po_Address position) @ positionKey) (po_Id position) (ls_byAddress s)\<rparr>)"

definition GetPosition :: "'b lps \<Rightarrow> uint64 \<Rightarrow> Position option" where
  "GetPosition s i = kv_get (ls_positions s) i"

definition AppendPosition :: "Position \<Rightarrow> 'b lps \<Rightarrow> uint64 \<times> 'b lps" where
  "AppendPosition position s =
     (let n = GetPositionCount s; s = SetPosition (position\<lparr>po_Id := n\<rparr>) s in (n, SetPositionCount (n + 1) s))"

definition PoolHasPosition :: "'b lps \<Rightarrow> uint64 \<Rightarrow> bool" where
  "PoolHasPosition s poolId \<longleftrightarrow> kv_prefix (PositionByPoolPrefix poolId) (ls_byPool s) \<noteq> []"

definition GetPositionsByPool :: "'b lps \<Rightarrow> uint64 \<Rightarrow> Position list" where
  "GetPositionsByPool s poolId =
     List.map_filter (\<lambda>e. GetPosition s (snd e)) (kv_prefix (PositionByPoolPrefix poolId) (ls_byPool s))"

definition GetPositionsByAddress :: "'b lps \<Rightarrow> string \<Rightarrow> Position list" where
  "GetPositionsByAddress s addr =
     List.map_filter (\<lambda>e. GetPosition s (snd e)) (kv_prefix (PositionByAddressPrefix addr) (ls_byAddress s))"

definition RemovePosition :: "uint64 \<Rightarrow> 'b lps \<Rightarrow> 'b lps" where
  "RemovePosition i s = s\<lparr>ls_positions := kv_delete i (ls_positions s)\<rparr>"

definition GetAllPositions :: "'b lps \<Rightarrow> Position list" where
  "GetAllPositions s = map snd (ls_positions s)"

section \<open>Parameters and genesis\<close>

definition GetParams_lp :: "'b lps \<Rightarrow> lpParams" where
  "GetParams_lp s = (case ls_params s of None \<Rightarrow> \<lparr>lq_WithdrawFeeRate = None, lq_SwapTreasuryTaxRate = None\<rparr> | Some p \<Rightarrow> p)"

definition SetParams_lp :: "lpParams \<Rightarrow> 'b lps \<Rightarrow> 'b lps" where
  "SetParams_lp p s = s\<lparr>ls_params := Some p\<rparr>"

definition DefaultParams_lp :: lpParams where
  "DefaultParams_lp = \<lparr>lq_WithdrawFeeRate = Some (10 ^ 16), lq_SwapTreasuryTaxRate = Some (10 ^ 16)\<rparr>"

definition UpdateParams_lp :: "'b lpx \<Rightarrow> string \<Rightarrow> lpParams \<Rightarrow> 'b lps \<Rightarrow> 'b lps result" where
  "UpdateParams_lp x authority params s =
     (if lx_authority x \<noteq> authority then Inl (Err ''expected gov account as only signer for proposal message'')
      else Inr (SetParams_lp params s))"

record lpGenesis =
  gs_PoolList :: "Pool list"
  gs_PoolCount :: uint64
  gs_PositionList :: "Position list"
  gs_PositionCount :: uint64
  gs_Params :: lpParams

fun check_ids :: "string \<Rightarrow> uint64 \<Rightarrow> uint64 list \<Rightarrow> uint64 list \<Rightarrow> unit result" where
  "check_ids what n seen [] = Inr ()"
| "check_ids what n seen (i # is) =
     (if List.member seen i then Inl (Err (''duplicated id for '' @ what))
      else if i \<ge> n then Inl (Err (what @ '' id should be lower or equal than the last id''))
      else check_ids what n (i # seen) is)"

definition Validate_genesis_lp :: "lpGenesis \<Rightarrow> unit result" where
  "Validate_genesis_lp gs =
     bindR (check_ids ''pool'' (gs_PoolCount gs) [] (map pl_Id (gs_PoolList gs))) (\<lambda>_.
       check_ids ''position'' (gs_PositionCount gs) [] (map po_Id (gs_PositionList gs)))"

definition InitGenesis_lp :: "lpGenesis \<Rightarrow> 'b lps \<Rightarrow> 'b lps" where
  "InitGenesis_lp gs s =
     (let s = fold SetPool (gs_PoolList gs) s;
          s = SetPoolCount (gs_PoolCount gs) s;
          s = fold SetPosition (gs_PositionList gs) s;
          s = SetPositionCount (gs_PositionCount gs) s
      in SetParams_lp (gs_Params gs) s)"

definition ExportGenesis_lp :: "'b lps \<Rightarrow> lpGenesis" where
  "ExportGenesis_lp s =
     \<lparr>gs_PoolList = GetAllPools s, gs_PoolCount = GetPoolCount s, gs_PositionList = GetAllPositions s,
      gs_PositionCount = GetPositionCount s, gs_Params = GetParams_lp s\<rparr>"

section \<open>Lemmas\<close>

lemma GetPool_SetPool: "kv_ok (ls_pools s) \<Longrightarrow> GetPool (SetPool p s) i = (if i = pl_Id p then Some p else GetPool s i)"
  by (simp add: GetPool_def SetPool_def)

lemma GetPosition_SetPosition:
  "kv_ok (ls_positions s) \<Longrightarrow> GetPosition (SetPosition p s) i = (if i = po_Id p then Some p else GetPosition s i)"
  by (simp add: GetPosition_def SetPosition_def Let_def)

lemma check_ids_iff:
  "check_ids what n seen is = Inr u \<longleftrightarrow> distinct is \<and> set is \<inter> set seen = {} \<and> (\<forall>i\<in>set is. i < n)"
  by (induction "is" arbitrary: seen) auto

text \<open>A store filled in any order from entries with different keys contains them in the order of the keys.\<close>

lemma fold_kv_set_entries:
  assumes "kv_ok m" "distinct (map k xs)" "\<forall>x\<in>set xs. \<forall>e\<in>set m. k x \<noteq> fst e"
  shows "set (fold (\<lambda>x. kv_set (k x) x) xs m) = set m \<union> (\<lambda>x. (k x, x)) ` set xs \<and> kv_ok (fold (\<lambda>x. kv_set (k x) x) xs m)"
  using assms
proof (induction xs arbitrary: m)
  case (Cons x xs)
  have "{e \<in> set m. fst e \<noteq> k x} = set m" using Cons.prems(3) by force
  then have m: "set (kv_set (k x) x m) = insert (k x, x) (set m)" using Cons.prems(1) by (simp add: set_kv_set)
  have "\<forall>y\<in>set xs. \<forall>e\<in>set (kv_set (k x) x m). k y \<noteq> fst e" 
    unfolding m using Cons.prems(2,3) by (auto, metis image_eqI)
  with Cons.IH [OF kv_ok_set [OF Cons.prems(1), of "k x" x]] Cons.prems(2) m show ?case by auto
qed simp

end
