(* ===== verification/LpAccum.thy ===== *)
theory LpAccum
  imports LpStore
begin

text \<open>
  \<^verbatim>\<open>keeper/accumulator.go\<close>: an accumulator has a value per share that only grows, a number of shares, and positions that
  remember the value at which they last settled. The store's own errors, which the SDK's stores do not return, are left
  out, and the shares of a stored accumulator are never nil.
\<close>

section \<open>Operations\<close>

definition ErrAccumDoesNotExist :: fault where "ErrAccumDoesNotExist = Err ''accumulator does not exist''"
definition ErrNoPosition :: fault where "ErrNoPosition = Err ''no position found for position key''"
definition ErrZeroShares :: fault where "ErrZeroShares = Err ''zero shares''"

definition SetAccumulator :: "AccumulatorObject \<Rightarrow> 'b lps \<Rightarrow> 'b lps" where
  "SetAccumulator accumulator s =
     s\<lparr>ls_accums := kv_set (FormatKeyAccumPrefix (ao_Name accumulator)) accumulator (ls_accums s)\<rparr>"

definition InitAccumulator :: "'b lpx \<Rightarrow> string \<Rightarrow> 'b lps \<Rightarrow> 'b lps result" where
  "InitAccumulator x accumName s =
     (if kv_get (ls_accums s) (FormatKeyAccumPrefix accumName) \<noteq> None
      then Inl (Err ''Accumulator with given name already exists in store'')
      else bindR (dc_new (lx_dc x) []) (\<lambda>z.
        Inr (SetAccumulator \<lparr>ao_Name = accumName, ao_AccumValue = z, ao_TotalShares = 0\<rparr> s)))"

definition GetAccumulator :: "'b lps \<Rightarrow> string \<Rightarrow> AccumulatorObject result" where
  "GetAccumulator s accumName =
     (case kv_get (ls_accums s) (FormatKeyAccumPrefix accumName) of
        None \<Rightarrow> Inl ErrAccumDoesNotExist | Some a \<Rightarrow> Inr a)"

definition AddToAccumulator :: "'b lpx \<Rightarrow> AccumulatorObject \<Rightarrow> decCoins \<Rightarrow> 'b lps \<Rightarrow> 'b lps result" where
  "AddToAccumulator x accumulator amt s =
     bindR (dc_add (lx_dc x) (ao_AccumValue accumulator) amt) (\<lambda>v. Inr (SetAccumulator (accumulator\<lparr>ao_AccumValue := v\<rparr>) s))"

definition GetAccumulatorPosition :: "'b lps \<Rightarrow> string \<Rightarrow> string \<Rightarrow> AccumulatorPosition result" where
  "GetAccumulatorPosition s accumName name =
     (case kv_get (ls_accumPositions s) (FormatKeyAccumulatorPositionPrefix accumName name) of
        None \<Rightarrow> Inl ErrNoPosition | Some p \<Rightarrow> Inr p)"

definition SetAccumulatorPosition :: "string \<Rightarrow> decCoins \<Rightarrow> string \<Rightarrow> dec \<Rightarrow> decCoins \<Rightarrow> 'b lps \<Rightarrow> 'b lps" where
  "SetAccumulatorPosition accumName accumulatorValuePerShare ix numShareUnits unclaimedRewardsTotal s =
     s\<lparr>ls_accumPositions := kv_set (FormatKeyAccumulatorPositionPrefix accumName ix)
        \<lparr>ap_NumShares = numShareUnits, ap_AccumValuePerShare = accumulatorValuePerShare,
         ap_UnclaimedRewardsTotal = unclaimedRewardsTotal\<rparr> (ls_accumPositions s)\<rparr>"

text \<open>\<^verbatim>\<open>accumulator.TotalShares = accumulator.TotalShares.Add(n)\<close> on the stored accumulator.\<close>

definition add_total_shares :: "string \<Rightarrow> dec \<Rightarrow> 'b lps \<Rightarrow> 'b lps result" where
  "add_total_shares accumName n s =
     bindR (GetAccumulator s accumName) (\<lambda>accumulator.
       Inr (SetAccumulator (accumulator\<lparr>ao_TotalShares := ao_TotalShares accumulator + n\<rparr>) s))"

definition NewPositionIntervalAccumulation :: "'b lpx \<Rightarrow> string \<Rightarrow> string \<Rightarrow> dec \<Rightarrow> decCoins \<Rightarrow> 'b lps \<Rightarrow> 'b lps result" where
  "NewPositionIntervalAccumulation x accumName name numShareUnits intervalAccumulationPerShare s =
     bindR (dc_new (lx_dc x) []) (\<lambda>z.
       add_total_shares accumName numShareUnits
         (SetAccumulatorPosition accumName intervalAccumulationPerShare name numShareUnits z s))"

definition NewPosition :: "'b lpx \<Rightarrow> string \<Rightarrow> string \<Rightarrow> dec \<Rightarrow> 'b lps \<Rightarrow> 'b lps result" where
  "NewPosition x accumName name numShareUnits s =
     bindR (GetAccumulator s accumName) (\<lambda>accumulator.
       NewPositionIntervalAccumulation x accumName name numShareUnits (ao_AccumValue accumulator) s)"

definition GetTotalRewards :: "'b lpx \<Rightarrow> AccumulatorObject \<Rightarrow> AccumulatorPosition \<Rightarrow> decCoins result" where
  "GetTotalRewards x accumulator position =
     bindR (dc_sub (lx_dc x) (ao_AccumValue accumulator) (ap_AccumValuePerShare position)) (\<lambda>g.
     bindR (dc_mulDec (lx_dc x) g (ap_NumShares position)) (\<lambda>accumRewards.
       dc_add (lx_dc x) (ap_UnclaimedRewardsTotal position) accumRewards))"

definition GetAccumulatorPositionSize :: "'b lps \<Rightarrow> string \<Rightarrow> string \<Rightarrow> dec result" where
  "GetAccumulatorPositionSize s accumName name =
     bindR (GetAccumulatorPosition s accumName name) (\<lambda>position. Inr (ap_NumShares position))"

definition AddToPositionIntervalAccumulation :: "'b lpx \<Rightarrow> string \<Rightarrow> string \<Rightarrow> dec \<Rightarrow> decCoins \<Rightarrow> 'b lps \<Rightarrow> 'b lps result" where
  "AddToPositionIntervalAccumulation x accumName name newShares intervalAccumulationPerShare s =
     (if \<not> newShares > 0 then Inl (Err ''Adding non-positive number of shares to position'')
      else bindR (GetAccumulatorPosition s accumName name) (\<lambda>position.
        bindR (GetAccumulator s accumName) (\<lambda>accumulator.
        bindR (GetTotalRewards x accumulator position) (\<lambda>unclaimedRewards.
        bindR (GetAccumulatorPositionSize s accumName name) (\<lambda>oldNumShares.
          add_total_shares accumName newShares
            (SetAccumulatorPosition accumName intervalAccumulationPerShare name (oldNumShares + newShares) unclaimedRewards s))))))"

definition AddToPosition :: "'b lpx \<Rightarrow> string \<Rightarrow> string \<Rightarrow> dec \<Rightarrow> 'b lps \<Rightarrow> 'b lps result" where
  "AddToPosition x accumName name newShares s =
     bindR (GetAccumulator s accumName) (\<lambda>accumulator.
       AddToPositionIntervalAccumulation x accumName name newShares (ao_AccumValue accumulator) s)"

definition RemoveFromPositionIntervalAccumulation :: "'b lpx \<Rightarrow> string \<Rightarrow> string \<Rightarrow> dec \<Rightarrow> decCoins \<Rightarrow> 'b lps \<Rightarrow> 'b lps result" where
  "RemoveFromPositionIntervalAccumulation x accumName name numSharesToRemove intervalAccumulationPerShare s =
     (if \<not> numSharesToRemove > 0 then Inl (Err ''Removing non-positive shares'')
      else bindR (GetAccumulatorPosition s accumName name) (\<lambda>position.
        if numSharesToRemove > ap_NumShares position then Inl (Err ''Removing more shares than existing in the position'')
        else bindR (GetAccumulator s accumName) (\<lambda>accumulator.
          bindR (GetTotalRewards x accumulator position) (\<lambda>unclaimedRewards.
          bindR (GetAccumulatorPositionSize s accumName name) (\<lambda>oldNumShares.
            add_total_shares accumName (- numSharesToRemove)
              (SetAccumulatorPosition accumName intervalAccumulationPerShare name (oldNumShares - numSharesToRemove) unclaimedRewards s))))))"

definition RemoveFromPosition :: "'b lpx \<Rightarrow> string \<Rightarrow> string \<Rightarrow> dec \<Rightarrow> 'b lps \<Rightarrow> 'b lps result" where
  "RemoveFromPosition x accumName name numSharesToRemove s =
     bindR (GetAccumulator s accumName) (\<lambda>accumulator.
       RemoveFromPositionIntervalAccumulation x accumName name numSharesToRemove (ao_AccumValue accumulator) s)"

definition UpdatePositionIntervalAccumulation :: "'b lpx \<Rightarrow> string \<Rightarrow> string \<Rightarrow> dec \<Rightarrow> decCoins \<Rightarrow> 'b lps \<Rightarrow> 'b lps result" where
  "UpdatePositionIntervalAccumulation x accumName name numShares intervalAccumulationPerShare s =
     (if numShares = 0 then Inl ErrZeroShares
      else if numShares < 0 then
        RemoveFromPositionIntervalAccumulation x accumName name (- numShares) intervalAccumulationPerShare s
      else AddToPositionIntervalAccumulation x accumName name numShares intervalAccumulationPerShare s)"

definition SetPositionIntervalAccumulation :: "string \<Rightarrow> string \<Rightarrow> decCoins \<Rightarrow> 'b lps \<Rightarrow> 'b lps result" where
  "SetPositionIntervalAccumulation accumName name intervalAccumulationPerShare s =
     bindR (GetAccumulatorPosition s accumName name) (\<lambda>position.
       Inr (SetAccumulatorPosition accumName intervalAccumulationPerShare name (ap_NumShares position)
         (ap_UnclaimedRewardsTotal position) s))"

definition deletePosition_acc :: "string \<Rightarrow> string \<Rightarrow> 'b lps \<Rightarrow> 'b lps" where
  "deletePosition_acc accumName positionName s =
     s\<lparr>ls_accumPositions := kv_delete (FormatKeyAccumulatorPositionPrefix accumName positionName) (ls_accumPositions s)\<rparr>"

definition HasPosition_acc :: "'b lps \<Rightarrow> string \<Rightarrow> string \<Rightarrow> bool" where
  "HasPosition_acc s accumName name \<longleftrightarrow>
     kv_get (ls_accumPositions s) (FormatKeyAccumulatorPositionPrefix accumName name) \<noteq> None"

text \<open>Both errors of the look-ups become \<^verbatim>\<open>ErrNoPosition\<close>.\<close>

definition ClaimRewards :: "'b lpx \<Rightarrow> string \<Rightarrow> string \<Rightarrow> 'b lps \<Rightarrow> (coin list \<times> decCoins \<times> 'b lps) result" where
  "ClaimRewards x accumName positionName s =
     bindR (on_err ErrNoPosition (GetAccumulator s accumName)) (\<lambda>accumulator.
     bindR (on_err ErrNoPosition (GetAccumulatorPosition s accumName positionName)) (\<lambda>position.
     bindR (GetTotalRewards x accumulator position) (\<lambda>totalRewards.
     bindR (dc_truncateDecimal (lx_dc x) totalRewards) (\<lambda>(truncatedRewardsTotal, dust).
       if ap_NumShares position = 0
       then Inr (truncatedRewardsTotal, dust, deletePosition_acc accumName positionName s)
       else bindR (dc_new (lx_dc x) []) (\<lambda>z.
         Inr (truncatedRewardsTotal, dust,
           SetAccumulatorPosition accumName (ao_AccumValue accumulator) positionName (ap_NumShares position) z s))))))"

definition DeletePosition :: "'b lpx \<Rightarrow> string \<Rightarrow> string \<Rightarrow> 'b lps \<Rightarrow> (decCoins \<times> 'b lps) result" where
  "DeletePosition x accumName positionName s =
     bindR (GetAccumulatorPosition s accumName positionName) (\<lambda>position.
     bindR (ClaimRewards x accumName positionName s) (\<lambda>(remainingRewards, dust, s).
     bindR (add_total_shares accumName (- ap_NumShares position) (deletePosition_acc accumName positionName s)) (\<lambda>s.
     bindR (dc_fromCoins (lx_dc x) remainingRewards) (\<lambda>r.
     bindR (dc_add (lx_dc x) r dust) (\<lambda>r. Inr (r, s))))))"

definition AddToUnclaimedRewards :: "'b lpx \<Rightarrow> string \<Rightarrow> string \<Rightarrow> decCoins \<Rightarrow> 'b lps \<Rightarrow> 'b lps result" where
  "AddToUnclaimedRewards x accumName positionName rewardsToAddTotal s =
     bindR (GetAccumulatorPosition s accumName positionName) (\<lambda>position.
       if dc_isAnyNegative (lx_dc x) rewardsToAddTotal then Inl (Err ''negative reward addition'')
       else bindR (dc_add (lx_dc x) (ap_UnclaimedRewardsTotal position) rewardsToAddTotal) (\<lambda>r.
         Inr (SetAccumulatorPosition accumName (ap_AccumValuePerShare position) positionName (ap_NumShares position) r s)))"

end
