(* ===== verification/LpFee.thy ===== *)
theory LpFee
  imports LpAccum
begin

text \<open>
  \<^verbatim>\<open>keeper/tick.go\<close> and \<^verbatim>\<open>keeper/fee.go\<close>: the ticks at which the liquidity of a pool changes, and the fees that a position has
  earned between its two ticks.
\<close>

section \<open>Fee accumulators\<close>

definition ErrPoolNotFound_lp :: fault where "ErrPoolNotFound_lp = Err ''pool not found''"
definition ErrPositionNotFound :: fault where "ErrPositionNotFound = Err ''position not found''"

definition createFeeAccumulator :: "'b lpx \<Rightarrow> uint64 \<Rightarrow> 'b lps \<Rightarrow> 'b lps result" where
  "createFeeAccumulator x poolId s = InitAccumulator x (KeyFeePoolAccumulator poolId) s"

definition GetFeeAccumulator :: "'b lps \<Rightarrow> uint64 \<Rightarrow> AccumulatorObject result" where
  "GetFeeAccumulator s poolId = GetAccumulator s (KeyFeePoolAccumulator poolId)"

definition getInitialFeeGrowth :: "'b lps \<Rightarrow> Pool \<Rightarrow> int \<Rightarrow> decCoins result" where
  "getInitialFeeGrowth s pool tick =
     (if pl_CurrentTick pool \<ge> tick then
        bindR (GetFeeAccumulator s (pl_Id pool)) (\<lambda>feeAccumulator. Inr (ao_AccumValue feeAccumulator))
      else Inr [])"

section \<open>Ticks\<close>

definition newTickInfo :: "'b lps \<Rightarrow> uint64 \<Rightarrow> int \<Rightarrow> TickInfo result" where
  "newTickInfo s poolId tickIndex =
     (case GetPool s poolId of
        None \<Rightarrow> Inl ErrPoolNotFound_lp
      | Some pool \<Rightarrow> bindR (getInitialFeeGrowth s pool tickIndex) (\<lambda>initialFeeGrowth.
          Inr \<lparr>ti_PoolId = poolId, ti_TickIndex = tickIndex, ti_LiquidityGross = 0, ti_LiquidityNet = 0,
            ti_FeeGrowth = initialFeeGrowth\<rparr>))"

definition SetTickInfo :: "TickInfo \<Rightarrow> 'b lps \<Rightarrow> 'b lps" where
  "SetTickInfo tickInfo s =
     s\<lparr>ls_ticks := kv_set (GetTickInfoIDBytes (ti_PoolId tickInfo) (ti_TickIndex tickInfo)) tickInfo (ls_ticks s)\<rparr>"

definition GetTickInfo :: "'b lps \<Rightarrow> uint64 \<Rightarrow> int \<Rightarrow> TickInfo result" where
  "GetTickInfo s poolId tickIndex =
     (case kv_get (ls_ticks s) (GetTickInfoIDBytes poolId tickIndex) of
        None \<Rightarrow> newTickInfo s poolId tickIndex | Some val \<Rightarrow> Inr val)"

definition RemoveTickInfo :: "uint64 \<Rightarrow> int \<Rightarrow> 'b lps \<Rightarrow> 'b lps" where
  "RemoveTickInfo poolId tickIndex s = s\<lparr>ls_ticks := kv_delete (GetTickInfoIDBytes poolId tickIndex) (ls_ticks s)\<rparr>"

definition GetAllInitializedTicksForPool :: "'b lps \<Rightarrow> uint64 \<Rightarrow> TickInfo list" where
  "GetAllInitializedTicksForPool s poolId = map snd (kv_prefix (KeyTickPrefixByPoolId poolId) (ls_ticks s))"

definition initOrUpdateTick :: "uint64 \<Rightarrow> int \<Rightarrow> dec \<Rightarrow> bool \<Rightarrow> 'b lps \<Rightarrow> (bool \<times> 'b lps) result" where
  "initOrUpdateTick poolId tickIndex liquidityDelta upper s =
     bindR (GetTickInfo s poolId tickIndex) (\<lambda>tickInfo.
       let liquidityAfter = ti_LiquidityGross tickInfo + liquidityDelta;
           tickInfo = tickInfo\<lparr>ti_LiquidityGross := liquidityAfter\<rparr>;
           tickInfo = tickInfo\<lparr>ti_LiquidityNet :=
             (if upper then ti_LiquidityNet tickInfo - liquidityDelta else ti_LiquidityNet tickInfo + liquidityDelta)\<rparr>;
           tickIsEmpty = (ti_LiquidityGross tickInfo = 0 \<and> ti_LiquidityNet tickInfo = 0)
       in Inr (tickIsEmpty, SetTickInfo tickInfo s))"

text \<open>The tick is given as a pointer in the code; it is never nil where the function is called.\<close>

definition crossTick :: "'b lpx \<Rightarrow> TickInfo \<Rightarrow> deccoin \<Rightarrow> decCoins \<Rightarrow> 'b lps \<Rightarrow> 'b lps result" where
  "crossTick x tickInfo swapStateFeeGrowth feeAccumValue s =
     bindR (dc_add (lx_dc x) feeAccumValue [swapStateFeeGrowth]) (\<lambda>v.
     bindR (dc_sub (lx_dc x) v (ti_FeeGrowth tickInfo)) (\<lambda>g. Inr (SetTickInfo (tickInfo\<lparr>ti_FeeGrowth := g\<rparr>) s)))"

section \<open>Fees of a position\<close>

definition calculateFeeGrowth :: "'b lpx \<Rightarrow> int \<Rightarrow> decCoins \<Rightarrow> int \<Rightarrow> decCoins \<Rightarrow> bool \<Rightarrow> decCoins result" where
  "calculateFeeGrowth x targetTick ticksFeeGrowthOppositeDirectionOfLastTraversal currentTick feesGrowthGlobal isUpperTick =
     (if (isUpperTick \<and> currentTick \<ge> targetTick) \<or> (\<not> isUpperTick \<and> currentTick < targetTick)
      then dc_sub (lx_dc x) feesGrowthGlobal ticksFeeGrowthOppositeDirectionOfLastTraversal
      else Inr ticksFeeGrowthOppositeDirectionOfLastTraversal)"

definition getFeeGrowthOutside :: "'b lpx \<Rightarrow> 'b lps \<Rightarrow> uint64 \<Rightarrow> int \<Rightarrow> int \<Rightarrow> decCoins result" where
  "getFeeGrowthOutside x s poolId lowerTick upperTick =
     (case GetPool s poolId of
        None \<Rightarrow> Inl ErrPoolNotFound_lp
      | Some pool \<Rightarrow>
          bindR (GetTickInfo s poolId lowerTick) (\<lambda>lowerTickInfo.
          bindR (GetTickInfo s poolId upperTick) (\<lambda>upperTickInfo.
          bindR (GetFeeAccumulator s poolId) (\<lambda>poolFeeAccumulator.
          bindR (calculateFeeGrowth x upperTick (ti_FeeGrowth upperTickInfo) (pl_CurrentTick pool)
              (ao_AccumValue poolFeeAccumulator) True) (\<lambda>feeGrowthAboveUpperTick.
          bindR (calculateFeeGrowth x lowerTick (ti_FeeGrowth lowerTickInfo) (pl_CurrentTick pool)
              (ao_AccumValue poolFeeAccumulator) False) (\<lambda>feeGrowthBelowLowerTick.
            dc_add (lx_dc x) feeGrowthAboveUpperTick feeGrowthBelowLowerTick))))))"

definition updatePositionToInitValuePlusGrowthOutside :: "'b lpx \<Rightarrow> string \<Rightarrow> string \<Rightarrow> decCoins \<Rightarrow> 'b lps \<Rightarrow> 'b lps result" where
  "updatePositionToInitValuePlusGrowthOutside x accumName positionKey growthOutside s =
     bindR (GetAccumulatorPosition s accumName positionKey) (\<lambda>position.
     bindR (dc_add (lx_dc x) (ap_AccumValuePerShare position) growthOutside) (\<lambda>intervalAccumulationOutside.
       SetPositionIntervalAccumulation accumName positionKey intervalAccumulationOutside s))"

definition SetAccumulatorPositionFeeAccumulator ::
    "'b lpx \<Rightarrow> uint64 \<Rightarrow> int \<Rightarrow> int \<Rightarrow> uint64 \<Rightarrow> dec \<Rightarrow> 'b lps \<Rightarrow> 'b lps result" where
  "SetAccumulatorPositionFeeAccumulator x poolId lowerTick upperTick positionId liquidityDelta s =
     bindR (GetFeeAccumulator s poolId) (\<lambda>feeAccumulator.
     let positionKey = KeyFeePositionAccumulator positionId;
         hasPosition = HasPosition_acc s (ao_Name feeAccumulator) positionKey in
     bindR (getFeeGrowthOutside x s poolId lowerTick upperTick) (\<lambda>feeGrowthOutside.
     bindR (dc_safeSub (lx_dc x) (ao_AccumValue feeAccumulator) feeGrowthOutside) (\<lambda>feeGrowthInside.
       if \<not> hasPosition then
         (if \<not> liquidityDelta > 0 then Inl (Err ''non-positive liquidity'')
          else NewPositionIntervalAccumulation x (ao_Name feeAccumulator) positionKey liquidityDelta feeGrowthInside s)
       else
         bindR (updatePositionToInitValuePlusGrowthOutside x (ao_Name feeAccumulator) positionKey feeGrowthOutside s) (\<lambda>s.
           UpdatePositionIntervalAccumulation x (ao_Name feeAccumulator) positionKey liquidityDelta feeGrowthInside s))))"

definition updateAccumAndClaimRewards ::
    "'b lpx \<Rightarrow> AccumulatorObject \<Rightarrow> string \<Rightarrow> decCoins \<Rightarrow> 'b lps \<Rightarrow> (coin list \<times> decCoins \<times> 'b lps) result" where
  "updateAccumAndClaimRewards x accumulator positionKey growthOutside s =
     bindR (updatePositionToInitValuePlusGrowthOutside x (ao_Name accumulator) positionKey growthOutside s) (\<lambda>s.
     bindR (ClaimRewards x (ao_Name accumulator) positionKey s) (\<lambda>(incentivesClaimedCurrAccum, dust, s).
       if HasPosition_acc s (ao_Name accumulator) positionKey then
         bindR (dc_safeSub (lx_dc x) (ao_AccumValue accumulator) growthOutside) (\<lambda>currentGrowthInsideForPosition.
         bindR (SetPositionIntervalAccumulation (ao_Name accumulator) positionKey currentGrowthInsideForPosition s) (\<lambda>s.
           Inr (incentivesClaimedCurrAccum, dust, s)))
       else Inr (incentivesClaimedCurrAccum, dust, s)))"

definition prepareClaimableFees :: "'b lpx \<Rightarrow> uint64 \<Rightarrow> 'b lps \<Rightarrow> (coin list \<times> 'b lps) result" where
  "prepareClaimableFees x positionId s =
     (case GetPosition s positionId of
        None \<Rightarrow> Inl ErrPositionNotFound
      | Some position \<Rightarrow>
          bindR (GetFeeAccumulator s (po_PoolId position)) (\<lambda>feeAccumulator.
          let positionKey = KeyFeePositionAccumulator positionId in
          if \<not> HasPosition_acc s (ao_Name feeAccumulator) positionKey then Inl (Err ''fee position not found'')
          else
            bindR (getFeeGrowthOutside x s (po_PoolId position) (po_LowerTick position) (po_UpperTick position)) (\<lambda>feeGrowthOutside.
            bindR (updateAccumAndClaimRewards x feeAccumulator positionKey feeGrowthOutside s) (\<lambda>(feesClaimed, forfeitedDust, s).
              if \<not> dc_isZero (lx_dc x) forfeitedDust then
                bindR (GetFeeAccumulator s (po_PoolId position)) (\<lambda>feeAccumulator.
                  if ao_TotalShares feeAccumulator \<noteq> 0 then
                    bindR (dc_quoDecTruncate (lx_dc x) forfeitedDust (ao_TotalShares feeAccumulator)) (\<lambda>forfeitedDustPerShareScaled.
                    bindR (AddToAccumulator x feeAccumulator forfeitedDustPerShareScaled s) (\<lambda>s. Inr (feesClaimed, s)))
                  else Inr (feesClaimed, s))
              else Inr (feesClaimed, s)))))"

definition GetClaimableFees :: "'b lpx \<Rightarrow> uint64 \<Rightarrow> 'b lps \<Rightarrow> coin list result" where
  "GetClaimableFees x positionId s = bindR (prepareClaimableFees x positionId s) (\<lambda>(fees, _). Inr fees)"

definition collectFees :: "'b lpx \<Rightarrow> bytes \<Rightarrow> uint64 \<Rightarrow> 'b lps \<Rightarrow> (coin list \<times> 'b lps) result" where
  "collectFees x sender positionId s =
     (case GetPosition s positionId of
        None \<Rightarrow> Inl ErrPositionNotFound
      | Some position \<Rightarrow>
          if lx_accString x sender \<noteq> po_Address position then Inl (Err ''not a position owner'')
          else bindR (prepareClaimableFees x positionId s) (\<lambda>(feesClaimed, s).
            if lx_coinsIsZero x feesClaimed then Inr ([], s)
            else case GetPool s (po_PoolId position) of
                None \<Rightarrow> Inl ErrPoolNotFound_lp
              | Some pool \<Rightarrow>
                  bindR (send_lp x (GetFeesAddress x pool) sender feesClaimed s) (\<lambda>s. Inr (feesClaimed, s))))"

end
