(* ===== verification/LpPosition.thy ===== *)
theory LpPosition
  imports LpFee
begin

text \<open>
  \<^verbatim>\<open>keeper/msg_server_position.go\<close>, \<^verbatim>\<open>msg_server_pool.go\<close> and \<^verbatim>\<open>msg_server_collect_fees.go\<close>: pools are created, positions
  opened, increased and decreased, fees claimed. A handler that fails leaves no trace: its writes are dropped with the
  transaction, so the result of a failure is the fault alone.
\<close>

section \<open>Messages\<close>

record MsgCreatePool =
  mp_Authority :: string
  mp_DenomBase :: string
  mp_DenomQuote :: string
  mp_FeeRate :: string
  mp_PriceRatio :: string
  mp_BaseOffset :: string

record MsgCreatePosition =
  mc_Sender :: string
  mc_PoolId :: uint64
  mc_LowerTick :: int
  mc_UpperTick :: int
  mc_TokenBase :: coin
  mc_TokenQuote :: coin
  mc_MinAmountBase :: int
  mc_MinAmountQuote :: int

record MsgCreatePositionResponse =
  cr_Id :: uint64
  cr_AmountBase :: int
  cr_AmountQuote :: int
  cr_Liquidity :: dec

record MsgIncreaseLiquidity =
  mi_Sender :: string
  mi_Id :: uint64
  mi_AmountBase :: int
  mi_AmountQuote :: int
  mi_MinAmountBase :: int
  mi_MinAmountQuote :: int

record MsgDecreaseLiquidity =
  md_Sender :: string
  md_Id :: uint64
  md_Liquidity :: string

section \<open>Pools\<close>

definition CreatePool :: "'b lpx \<Rightarrow> MsgCreatePool \<Rightarrow> 'b lps \<Rightarrow> (uint64 \<times> 'b lps) result" where
  "CreatePool x msg s =
     bindR (lx_decFromStr x (mp_FeeRate msg)) (\<lambda>feeRate.
     bindR (lx_decFromStr x (mp_PriceRatio msg)) (\<lambda>priceRatio.
     bindR (lx_decFromStr x (mp_BaseOffset msg)) (\<lambda>baseOffset.
       let pool = \<lparr>pl_Id = 0, pl_DenomBase = mp_DenomBase msg, pl_DenomQuote = mp_DenomQuote msg, pl_FeeRate = feeRate,
             pl_TickParams = \<lparr>tp_PriceRatio = priceRatio, tp_BaseOffset = baseOffset\<rparr>, pl_CurrentTick = 0,
             pl_CurrentTickLiquidity = 0, pl_CurrentSqrtPrice = 0\<rparr>;
           (i, s) = AppendPool pool s in
       bindR (createFeeAccumulator x i s) (\<lambda>s. Inr (i, s)))))"

section \<open>Positions\<close>

definition checkTicks :: "int \<Rightarrow> int \<Rightarrow> unit result" where
  "checkTicks tickLower tickUpper =
     (if tickLower \<ge> tickUpper then Inl (Err ''tickLower should be less than tickUpper'')
      else if tickLower < TICK_MIN then Inl (Err ''tickLower is out of range'')
      else if tickUpper > TICK_MAX then Inl (Err ''tickUpper is out of range'')
      else Inr ())"

definition initFirstPositionForPool :: "'b lpx \<Rightarrow> Pool \<Rightarrow> int \<Rightarrow> int \<Rightarrow> 'b lps \<Rightarrow> 'b lps result" where
  "initFirstPositionForPool x pool amountBaseDesired amountQuoteDesired s =
     (if \<not> amountBaseDesired > 0 \<or> \<not> amountQuoteDesired > 0 then Inl (Err ''invalid first position'')
      else bindR (d_quo (lx_dec x) (dec_of_int amountQuoteDesired) (dec_of_int amountBaseDesired)) (\<lambda>initialSpotPrice.
        bindR (d_approxSqrt (lx_dec x) initialSpotPrice) (\<lambda>initialCurrentSqrtPrice.
        bindR (CalculateSqrtPriceToTick (lx_dec x) initialCurrentSqrtPrice (pl_TickParams pool)) (\<lambda>initialTick.
          Inr (SetPool (pool\<lparr>pl_CurrentSqrtPrice := initialCurrentSqrtPrice, pl_CurrentTick := initialTick\<rparr>) s)))))"

definition resetPool :: "Pool \<Rightarrow> 'b lps \<Rightarrow> 'b lps" where
  "resetPool pool s = SetPool (pool\<lparr>pl_CurrentSqrtPrice := 0, pl_CurrentTick := 0\<rparr>) s"

definition UpdatePosition :: "'b lpx \<Rightarrow> uint64 \<Rightarrow> int \<Rightarrow> int \<Rightarrow> dec \<Rightarrow> uint64 \<Rightarrow> 'b lps \<Rightarrow>
    (int \<times> int \<times> bool \<times> bool \<times> 'b lps) result" where
  "UpdatePosition x poolId lowerTick upperTick liquidityDelta positionId s =
     bindR (initOrUpdateTick poolId lowerTick liquidityDelta False s) (\<lambda>(lowerTickIsEmpty, s).
     bindR (initOrUpdateTick poolId upperTick liquidityDelta True s) (\<lambda>(upperTickIsEmpty, s).
     case GetPool s poolId of
       None \<Rightarrow> Inl ErrPoolNotFound_lp
     | Some pool \<Rightarrow>
         (case GetPosition s positionId of
            None \<Rightarrow> Inl ErrPositionNotFound
          | Some position \<Rightarrow>
              let position = position\<lparr>po_Liquidity := po_Liquidity position + liquidityDelta\<rparr> in
              if po_Liquidity position < 0 then Inl (Err ''negative liquidity'')
              else
                let s = SetPosition position s in
                bindR (CalcActualAmounts (lx_dec x) pool lowerTick upperTick liquidityDelta) (\<lambda>(actualAmountBase, actualAmountQuote).
                let s = SetPool (fst (UpdateLiquidityIfActivePosition pool lowerTick upperTick liquidityDelta)) s in
                bindR (SetAccumulatorPositionFeeAccumulator x poolId lowerTick upperTick positionId liquidityDelta s) (\<lambda>s.
                bindR (d_truncateInt (lx_dec x) actualAmountBase) (\<lambda>amountBase.
                bindR (d_truncateInt (lx_dec x) actualAmountQuote) (\<lambda>amountQuote.
                  Inr (amountBase, amountQuote, lowerTickIsEmpty, upperTickIsEmpty, s))))))))"

text \<open>\<^verbatim>\<open>sdk.Coins\{base\}.Add(quote)\<close>.\<close>

definition two_coins :: "'b lpx \<Rightarrow> string \<Rightarrow> int \<Rightarrow> string \<Rightarrow> int \<Rightarrow> coin list result" where
  "two_coins x denomBase amountBase denomQuote amountQuote =
     bindR (d_newCoin (lx_dec x) denomBase amountBase) (\<lambda>a.
     bindR (d_newCoin (lx_dec x) denomQuote amountQuote) (\<lambda>b. lx_coinsAdd x [a] [b]))"

definition CreatePosition_checks :: "Pool \<Rightarrow> MsgCreatePosition \<Rightarrow> unit result" where
  "CreatePosition_checks pool msg =
     bindR (on_err ErrInvalidTickers (checkTicks (mc_LowerTick msg) (mc_UpperTick msg))) (\<lambda>_.
       if pl_DenomBase pool \<noteq> c_Denom (mc_TokenBase msg) then Inl (Err ''invalid base denom'')
       else if pl_DenomQuote pool \<noteq> c_Denom (mc_TokenQuote msg) then Inl (Err ''invalid quote denom'')
       else if c_Amount (mc_TokenBase msg) = 0 \<and> c_Amount (mc_TokenQuote msg) = 0 then Inl (Err ''invalid token amounts'')
       else if c_Amount (mc_TokenBase msg) < 0 \<or> c_Amount (mc_TokenQuote msg) < 0 then Inl (Err ''negative token amount'')
       else Inr ())"

definition CreatePosition :: "'b lpx \<Rightarrow> MsgCreatePosition \<Rightarrow> 'b lps \<Rightarrow> (MsgCreatePositionResponse \<times> 'b lps) result" where
  "CreatePosition x msg s =
     bindR (lx_accAddress x (mc_Sender msg)) (\<lambda>sender.
     case GetPool s (mc_PoolId msg) of
       None \<Rightarrow> Inl ErrPoolNotFound_lp
     | Some pool \<Rightarrow>
         bindR (CreatePosition_checks pool msg) (\<lambda>_.
         let amountBaseDesired = c_Amount (mc_TokenBase msg); amountQuoteDesired = c_Amount (mc_TokenQuote msg) in
         bindR (TicksToSqrtPrice (lx_dec x) (mc_LowerTick msg) (mc_UpperTick msg) (pl_TickParams pool))
           (\<lambda>(sqrtPriceLowerTick, sqrtPriceUpperTick).
         bindR (if \<not> HasPosition_pl pool then
                  bindR (initFirstPositionForPool x pool amountBaseDesired amountQuoteDesired s) (\<lambda>s.
                    case GetPool s (mc_PoolId msg) of None \<Rightarrow> Inl (Panic ''nil pool'') | Some pool \<Rightarrow> Inr (pool, s))
                else Inr (pool, s)) (\<lambda>(pool, s).
         bindR (GetLiquidityFromAmounts (lx_dec x) (pl_CurrentSqrtPrice pool) sqrtPriceLowerTick sqrtPriceUpperTick
             amountBaseDesired amountQuoteDesired) (\<lambda>liquidityDelta.
         if liquidityDelta = 0 then Inl (Err ''liquidityDelta got 0 value unexpectedly'')
         else
           let (positionId, s) = AppendPosition \<lparr>po_Id = 0, po_Address = mc_Sender msg, po_PoolId = mc_PoolId msg,
                 po_LowerTick = mc_LowerTick msg, po_UpperTick = mc_UpperTick msg, po_Liquidity = 0\<rparr> s in
           bindR (UpdatePosition x (mc_PoolId msg) (mc_LowerTick msg) (mc_UpperTick msg) liquidityDelta positionId s)
             (\<lambda>(amountBase, amountQuote, _, _, s).
           if amountBase < mc_MinAmountBase msg then Inl (Err ''insufficient amount of tokens were put'')
           else if amountQuote < mc_MinAmountQuote msg then Inl (Err ''insufficient amount of tokens were put'')
           else
             bindR (two_coins x (c_Denom (mc_TokenBase msg)) amountBase (c_Denom (mc_TokenQuote msg)) amountQuote) (\<lambda>coins.
             bindR (lx_isSendEnabled x coins (ls_bank s)) (\<lambda>_.
             bindR (send_lp x sender (GetAddress x pool) coins s) (\<lambda>s.
               case GetPosition s positionId of
                 None \<Rightarrow> Inl (Panic ''nil position'')
               | Some position \<Rightarrow>
                   Inr (\<lparr>cr_Id = positionId, cr_AmountBase = amountBase, cr_AmountQuote = amountQuote,
                     cr_Liquidity = po_Liquidity position\<rparr>, s))))))))))"

text \<open>The two blocks at the end of \<^verbatim>\<open>DecreaseLiquidity\<close>: a position without liquidity is removed, and so are empty ticks.\<close>

definition close_position :: "'b lpx \<Rightarrow> bytes \<Rightarrow> uint64 \<Rightarrow> Pool \<Rightarrow> Position \<Rightarrow> 'b lps \<Rightarrow> 'b lps result" where
  "close_position x sender positionId pool position s =
     bindR (collectFees x sender positionId s) (\<lambda>(_, s).
       let s = RemovePosition (po_Id position) s in
       Inr (if \<not> PoolHasPosition s (po_PoolId position) then resetPool pool s else s))"

definition drop_ticks :: "bool \<Rightarrow> bool \<Rightarrow> Position \<Rightarrow> 'b lps \<Rightarrow> 'b lps" where
  "drop_ticks lowerTickEmpty upperTickEmpty position s =
     (let s = (if lowerTickEmpty then RemoveTickInfo (po_PoolId position) (po_LowerTick position) s else s)
      in if upperTickEmpty then RemoveTickInfo (po_PoolId position) (po_UpperTick position) s else s)"

definition DecreaseLiquidity :: "'b lpx \<Rightarrow> bytes \<Rightarrow> uint64 \<Rightarrow> dec \<Rightarrow> 'b lps \<Rightarrow> (int \<times> int \<times> 'b lps) result" where
  "DecreaseLiquidity x sender positionId liquidity s =
     (case GetPosition s positionId of
        None \<Rightarrow> Inl ErrPositionNotFound
      | Some position \<Rightarrow>
          if lx_accString x sender \<noteq> po_Address position then Inl (Err ''unauthorized'')
          else if liquidity < 0 then Inl (Err ''negative token amount'')
          else if po_Liquidity position < liquidity then Inl (Err ''insufficient liquidity'')
          else case GetPool s (po_PoolId position) of
              None \<Rightarrow> Inl ErrPoolNotFound_lp
            | Some pool \<Rightarrow>
                bindR (UpdatePosition x (po_PoolId position) (po_LowerTick position) (po_UpperTick position) (- liquidity) positionId s)
                  (\<lambda>(amountBase, amountQuote, lowerTickEmpty, upperTickEmpty, s).
                bindR (two_coins x (pl_DenomBase pool) \<bar>amountBase\<bar> (pl_DenomQuote pool) \<bar>amountQuote\<bar>) (\<lambda>coins.
                bindR (lx_isSendEnabled x coins (ls_bank s)) (\<lambda>_.
                bindR (send_lp x (GetAddress x pool) sender coins s) (\<lambda>s.
                bindR (if liquidity = po_Liquidity position then close_position x sender positionId pool position s
                       else Inr s) (\<lambda>s.
                  Inr (\<bar>amountBase\<bar>, \<bar>amountQuote\<bar>, drop_ticks lowerTickEmpty upperTickEmpty position s)))))))"

definition IncreaseLiquidity :: "'b lpx \<Rightarrow> MsgIncreaseLiquidity \<Rightarrow> 'b lps \<Rightarrow> (MsgCreatePositionResponse \<times> 'b lps) result" where
  "IncreaseLiquidity x msg s =
     (case GetPosition s (mi_Id msg) of
        None \<Rightarrow> Inl (Err ''key not found'')
      | Some position \<Rightarrow>
          if mi_Sender msg \<noteq> po_Address position then Inl (Err ''unauthorized'')
          else if mi_AmountBase msg < 0 \<or> mi_AmountQuote msg < 0 then Inl (Err ''negative token amount'')
          else if mi_AmountBase msg = 0 \<and> mi_AmountQuote msg = 0 then Inl (Err ''invalid token amounts'')
          else
            let s = SetPosition position s in
            bindR (lx_accAddress x (mi_Sender msg)) (\<lambda>sender.
            bindR (DecreaseLiquidity x sender (mi_Id msg) (po_Liquidity position) s) (\<lambda>(amountBaseWithdrawn, amountQuoteWithdrawn, s).
            case GetPool s (po_PoolId position) of
              None \<Rightarrow> Inl ErrPoolNotFound_lp
            | Some pool \<Rightarrow>
                bindR (d_newCoin (lx_dec x) (pl_DenomBase pool) (amountBaseWithdrawn + mi_AmountBase msg)) (\<lambda>tokenBase.
                bindR (d_newCoin (lx_dec x) (pl_DenomQuote pool) (amountQuoteWithdrawn + mi_AmountQuote msg)) (\<lambda>tokenQuote.
                  CreatePosition x
                    \<lparr>mc_Sender = mi_Sender msg, mc_PoolId = po_PoolId position, mc_LowerTick = po_LowerTick position,
                     mc_UpperTick = po_UpperTick position, mc_TokenBase = tokenBase, mc_TokenQuote = tokenQuote,
                     mc_MinAmountBase = amountBaseWithdrawn + mi_MinAmountBase msg,
                     mc_MinAmountQuote = amountQuoteWithdrawn + mi_MinAmountQuote msg\<rparr> s)))))"

definition DecreaseLiquidity_msg :: "'b lpx \<Rightarrow> MsgDecreaseLiquidity \<Rightarrow> 'b lps \<Rightarrow> (int \<times> int \<times> 'b lps) result" where
  "DecreaseLiquidity_msg x msg s =
     bindR (lx_accAddress x (md_Sender msg)) (\<lambda>sender.
     bindR (lx_decFromStr x (md_Liquidity msg)) (\<lambda>liquidity. DecreaseLiquidity x sender (md_Id msg) liquidity s))"

section \<open>Claims\<close>

definition ClaimRewards_msg :: "'b lpx \<Rightarrow> string \<Rightarrow> uint64 list \<Rightarrow> 'b lps \<Rightarrow> (coin list \<times> 'b lps) result" where
  "ClaimRewards_msg x sender positionIds s =
     bindR (lx_accAddress x sender) (\<lambda>sender.
       foldR (\<lambda>positionId (totalCollectedFees, s).
         bindR (collectFees x sender positionId s) (\<lambda>(collectedFees, s).
         bindR (lx_coinsAdd x totalCollectedFees collectedFees) (\<lambda>totalCollectedFees. Inr (totalCollectedFees, s))))
       positionIds ([], s))"

definition AllocateIncentive :: "'b lpx \<Rightarrow> uint64 \<Rightarrow> bytes \<Rightarrow> coin list \<Rightarrow> 'b lps \<Rightarrow> 'b lps result" where
  "AllocateIncentive x poolId sender incentiveCoins s =
     (case GetPool s poolId of
        None \<Rightarrow> Inl ErrPoolNotFound_lp
      | Some pool \<Rightarrow>
          if \<not> HasPosition_pl pool then Inl (Err ''empty liquidity'')
          else bindR (GetFeeAccumulator s poolId) (\<lambda>feeAccumulator.
            bindR (dc_fromCoins (lx_dc x) incentiveCoins) (\<lambda>c.
            bindR (dc_quoDecTruncate (lx_dc x) c (pl_CurrentTickLiquidity pool)) (\<lambda>feeGrowth.
            bindR (AddToAccumulator x feeAccumulator feeGrowth s) (\<lambda>s.
              send_lp x sender (GetFeesAddress x pool) incentiveCoins s)))))"

end
