(* ===== verification/LiTally.thy ===== *)
theory LiTally
  imports LpPosition "HOL-Library.AList"
begin

text \<open>
  The state of \<^verbatim>\<open>x/liquidityincentive\<close> and the tally of the votes for the pools (\<^verbatim>\<open>keeper/tally.go\<close>, \<^verbatim>\<open>vote.go\<close>). The tally walks
  over two Go maps, whose iteration order is not specified: the orders are parameters of the model, and the result is shown not to depend on
  them and to be the sum of the votes.
\<close>

section \<open>Data\<close>

record PoolWeight =
  pw_PoolId :: uint64
  pw_Weight :: dec

record Vote =
  vo_Sender :: string
  vo_Weights :: "PoolWeight list"

record Gauge =
  ga_PreviousEpochId :: uint64
  ga_PoolId :: uint64
  ga_Ratio :: dec

record Epoch =
  ep_Id :: uint64
  ep_StartBlock :: int
  ep_EndBlock :: int
  ep_Gauges :: "Gauge list"

text \<open>\<open>None\<close> is the nil decimal of a zero value.\<close>

record liParams =
  lip_EpochBlocks :: int
  lip_StakingRewardRatio :: "dec option"

text \<open>The store, and the state of the liquidity pool keeper, which the module calls.\<close>

record 'b lis =
  li_epochs :: "(uint64, Epoch) kv"
  li_epochCount :: "uint64 option"
  li_gauges :: "(bytes, Gauge) kv"
  li_votes :: "(bytes, Vote) kv"
  li_params :: "liParams option"
  li_lp :: "'b lps"

section \<open>Interfaces\<close>

text \<open>
  The staking keeper at one block: what its iterators pass to the callback before they end, and the error with which they end;
  the total of bonded tokens.
\<close>

record ValidatorI =
  va_Operator :: string
  va_BondedTokens :: int
  va_DelegatorShares :: dec

record DelegationI =
  de_ValidatorAddr :: string
  de_Shares :: dec

type_synonym 'a iteration = "'a list \<times> fault option"

record stk =
  sk_validators :: "ValidatorI iteration"
  sk_delegations :: "bytes \<Rightarrow> DelegationI iteration"
  sk_totalBonded :: "int result"

text \<open>The address codecs, the coins of the SDK, and the balances of the bank.\<close>

record 'b lix =
  li_lpx :: "'b lpx"
  li_accStringToBytes :: "string \<Rightarrow> bytes result"
  li_valStringToBytes :: "string \<Rightarrow> bytes result"
  li_valBytesToString :: "bytes \<Rightarrow> string result"
  li_getAllBalances :: "bytes \<Rightarrow> 'b \<Rightarrow> coin list"
  li_amountOf :: "coin list \<Rightarrow> string \<Rightarrow> int"
  li_mulDecTruncate :: "decCoins \<Rightarrow> dec \<Rightarrow> decCoins result"
  li_isAllPositive :: "coin list \<Rightarrow> bool"
  li_authority :: string

abbreviation li_dec :: "'b lix \<Rightarrow> decx" where
  "li_dec x \<equiv> lx_dec (li_lpx x)"

definition iterate :: "('a \<Rightarrow> 's \<Rightarrow> 's result) \<Rightarrow> 'a iteration \<Rightarrow> 's \<Rightarrow> 's result" where
  "iterate f it s = bindR (foldR f (fst it) s) (\<lambda>s. case snd it of None \<Rightarrow> Inr s | Some e \<Rightarrow> Inl e)"

section \<open>Votes\<close>

definition SetVote :: "Vote \<Rightarrow> 'b lis \<Rightarrow> 'b lis" where
  "SetVote vote s = s\<lparr>li_votes := kv_set (str (vo_Sender vote)) vote (li_votes s)\<rparr>"

definition GetVote :: "'b lis \<Rightarrow> string \<Rightarrow> Vote option" where
  "GetVote s sender = kv_get (li_votes s) (str sender)"

definition RemoveVote :: "string \<Rightarrow> 'b lis \<Rightarrow> 'b lis" where
  "RemoveVote sender s = s\<lparr>li_votes := kv_delete (str sender) (li_votes s)\<rparr>"

definition GetAllVotes :: "'b lis \<Rightarrow> Vote list" where
  "GetAllVotes s = map snd (li_votes s)"

section \<open>The tally\<close>

record ValidatorGovInfo =
  gi_Address :: bytes
  gi_BondedTokens :: int
  gi_DelegatorShares :: dec
  gi_DelegatorDeductions :: dec
  gi_Weights :: "PoolWeight list"

type_synonym valmap = "(string \<times> ValidatorGovInfo) list"
type_synonym weightmap = "(uint64 \<times> dec) list"

definition insert_validator :: "'b lix \<Rightarrow> ValidatorI \<Rightarrow> valmap \<Rightarrow> valmap result" where
  "insert_validator x validator currValidators =
     (case li_valStringToBytes x (va_Operator validator) of
        Inl (Err _) \<Rightarrow> Inr currValidators
      | Inl f \<Rightarrow> Inl f
      | Inr valBz \<Rightarrow> Inr (AList.update (va_Operator validator)
          \<lparr>gi_Address = valBz, gi_BondedTokens = va_BondedTokens validator, gi_DelegatorShares = va_DelegatorShares validator,
           gi_DelegatorDeductions = 0, gi_Weights = []\<rparr> currValidators))"

definition voting_power :: "decx \<Rightarrow> dec \<Rightarrow> ValidatorGovInfo \<Rightarrow> dec result" where
  "voting_power d shares val =
     bindR (d_mulInt d shares (gi_BondedTokens val)) (\<lambda>p. d_quo d p (gi_DelegatorShares val))"

definition add_weight :: "decx \<Rightarrow> dec \<Rightarrow> PoolWeight \<Rightarrow> weightmap \<Rightarrow> weightmap result" where
  "add_weight d votingPower weight weights =
     bindR (d_mul d votingPower (pw_Weight weight)) (\<lambda>subPower.
       let oldWeight = (case map_of weights (pw_PoolId weight) of None \<Rightarrow> 0 | Some w \<Rightarrow> w)
       in Inr (AList.update (pw_PoolId weight) (oldWeight + subPower) weights))"

definition add_weights :: "decx \<Rightarrow> dec \<Rightarrow> PoolWeight list \<Rightarrow> weightmap \<Rightarrow> weightmap result" where
  "add_weights d votingPower ws weights = foldR (add_weight d votingPower) ws weights"

definition tally_delegation :: "decx \<Rightarrow> PoolWeight list \<Rightarrow> DelegationI \<Rightarrow> valmap \<times> weightmap \<times> dec \<Rightarrow> (valmap \<times> weightmap \<times> dec) result" where
  "tally_delegation d ws delegation = (\<lambda>(currValidators, weights, totalVotingPower).
     case map_of currValidators (de_ValidatorAddr delegation) of
       None \<Rightarrow> Inr (currValidators, weights, totalVotingPower)
     | Some val \<Rightarrow>
         let val = val\<lparr>gi_DelegatorDeductions := gi_DelegatorDeductions val + de_Shares delegation\<rparr>;
             currValidators = AList.update (de_ValidatorAddr delegation) val currValidators
         in bindR (voting_power d (de_Shares delegation) val) (\<lambda>votingPower.
            bindR (add_weights d votingPower ws weights) (\<lambda>weights.
              Inr (currValidators, weights, totalVotingPower + votingPower))))"

definition tally_vote :: "'b lix \<Rightarrow> stk \<Rightarrow> Vote \<Rightarrow> valmap \<times> weightmap \<times> dec \<Rightarrow> (valmap \<times> weightmap \<times> dec) result" where
  "tally_vote x k vote = (\<lambda>(currValidators, weights, totalVotingPower).
     bindR (li_accStringToBytes x (vo_Sender vote)) (\<lambda>voter.
     bindR (li_valBytesToString x voter) (\<lambda>valAddrStr.
       let currValidators = (case map_of currValidators valAddrStr of
             None \<Rightarrow> currValidators
           | Some val \<Rightarrow> AList.update valAddrStr (val\<lparr>gi_Weights := vo_Weights vote\<rparr>) currValidators)
       in iterate (tally_delegation (li_dec x) (vo_Weights vote)) (sk_delegations k voter) (currValidators, weights, totalVotingPower))))"

definition tally_validator :: "decx \<Rightarrow> string \<times> ValidatorGovInfo \<Rightarrow> weightmap \<times> dec \<Rightarrow> (weightmap \<times> dec) result" where
  "tally_validator d entry = (\<lambda>(weights, totalVotingPower).
     let val = snd entry in
     if gi_Weights val = [] then Inr (weights, totalVotingPower)
     else bindR (voting_power d (gi_DelegatorShares val - gi_DelegatorDeductions val) val) (\<lambda>votingPower.
       bindR (add_weights d votingPower (gi_Weights val) weights) (\<lambda>weights. Inr (weights, totalVotingPower + votingPower))))"

text \<open>The orders in which Go iterates over the two maps.\<close>

record map_order =
  mo_validators :: "valmap \<Rightarrow> valmap"
  mo_weights :: "weightmap \<Rightarrow> weightmap"

definition map_order_ok :: "map_order \<Rightarrow> bool" where
  "map_order_ok ord \<longleftrightarrow> (\<forall>m. mset (mo_validators ord m) = mset m) \<and> (\<forall>m. mset (mo_weights ord m) = mset m)"

definition weightsArr :: "weightmap \<Rightarrow> PoolWeight list" where
  "weightsArr weights = sort_key pw_PoolId (map (\<lambda>(poolId, weight). \<lparr>pw_PoolId = poolId, pw_Weight = weight\<rparr>) weights)"

definition Tally :: "'b lix \<Rightarrow> stk \<Rightarrow> map_order \<Rightarrow> 'b lis \<Rightarrow> PoolWeight list result" where
  "Tally x k ord s =
     bindR (iterate (insert_validator x) (sk_validators k) []) (\<lambda>currValidators.
     bindR (foldR (tally_vote x k) (GetAllVotes s) (currValidators, [], 0)) (\<lambda>(currValidators, weights, totalVotingPower).
     bindR (foldR (tally_validator (li_dec x)) (mo_validators ord currValidators) (weights, totalVotingPower)) (\<lambda>(weights, totalVotingPower).
     bindR (sk_totalBonded k) (\<lambda>totalBonded.
       if totalBonded = 0 then Inr [] else Inr (weightsArr (mo_weights ord weights))))))"


section \<open>The sum of the votes\<close>

text \<open>
  The reference: a vote gives to a pool, for each of its delegations to a bonded validator, the delegation's power times its weights for the pool; a
  validator who votes gives what is left of its power after the deductions of its delegators who vote.
\<close>

definition wget :: "weightmap \<Rightarrow> uint64 \<Rightarrow> dec" where
  "wget m q = (case map_of m q of None \<Rightarrow> 0 | Some w \<Rightarrow> w)"

definition given :: "decx \<Rightarrow> dec \<Rightarrow> PoolWeight list \<Rightarrow> uint64 \<Rightarrow> dec" where
  "given d p ws q = sum_list (map (\<lambda>w. projr (d_mul d p (pw_Weight w))) (filter (\<lambda>w. pw_PoolId w = q) ws))"

definition voter_of :: "'b lix \<Rightarrow> Vote \<Rightarrow> bytes" where
  "voter_of x vote = projr (li_accStringToBytes x (vo_Sender vote))"

definition delegations_of :: "'b lix \<Rightarrow> stk \<Rightarrow> Vote \<Rightarrow> DelegationI list" where
  "delegations_of x k vote = fst (sk_delegations k (voter_of x vote))"

definition delegated_votes :: "'b lix \<Rightarrow> stk \<Rightarrow> valmap \<Rightarrow> Vote \<Rightarrow> uint64 \<Rightarrow> dec" where
  "delegated_votes x k vals vote q = sum_list (map (\<lambda>dl. case map_of vals (de_ValidatorAddr dl) of
       None \<Rightarrow> 0
     | Some val \<Rightarrow> given (li_dec x) (projr (voting_power (li_dec x) (de_Shares dl) val)) (vo_Weights vote) q) (delegations_of x k vote))"

definition deducted :: "'b lix \<Rightarrow> stk \<Rightarrow> Vote list \<Rightarrow> string \<Rightarrow> dec" where
  "deducted x k votes v = sum_list (map de_Shares (filter (\<lambda>dl. de_ValidatorAddr dl = v) (concat (map (delegations_of x k) votes))))"

definition choice_of :: "'b lix \<Rightarrow> Vote list \<Rightarrow> string \<Rightarrow> PoolWeight list" where
  "choice_of x votes v = fold (\<lambda>vote ws. if li_valBytesToString x (voter_of x vote) = Inr v then vo_Weights vote else ws) votes []"

definition validator_votes :: "'b lix \<Rightarrow> stk \<Rightarrow> Vote list \<Rightarrow> string \<times> ValidatorGovInfo \<Rightarrow> uint64 \<Rightarrow> dec" where
  "validator_votes x k votes e q =
     given (li_dec x) (projr (voting_power (li_dec x) (gi_DelegatorShares (snd e) - deducted x k votes (fst e)) (snd e))) (choice_of x votes (fst e)) q"

lemma voting_power_update [simp]:
  "voting_power d n (val\<lparr>gi_DelegatorDeductions := a\<rparr>) = voting_power d n val"
  "voting_power d n (val\<lparr>gi_Weights := ws\<rparr>) = voting_power d n val"
  by (simp_all add: voting_power_def)

lemma given_Nil [simp]: "given d p [] q = 0"
  by (simp add: given_def)

lemma wget_update: "wget (AList.update k v m) q = (if q = k then v else wget m q)"
  by (simp add: wget_def update_conv')

subsection \<open>Adding weights\<close>

lemma add_weights_Inr:
  assumes "add_weights d p ws m = Inr m'"
  shows "wget m' q = wget m q + given d p ws q" "fst ` set m' = fst ` set m \<union> pw_PoolId ` set ws" "distinct (map fst m) \<Longrightarrow> distinct (map fst m')"
proof -
  have "wget m' q = wget m q + given d p ws q \<and> fst ` set m' = fst ` set m \<union> pw_PoolId ` set ws \<and> (distinct (map fst m) \<longrightarrow> distinct (map fst m'))"
    using assms
  proof (induction ws arbitrary: m)
    case (Cons w ws)
    from Cons.prems obtain c where c: "d_mul d p (pw_Weight w) = Inr c"
      and r: "add_weights d p ws (AList.update (pw_PoolId w) (wget m (pw_PoolId w) + c) m) = Inr m'"
      by (auto simp: add_weights_def add_weight_def wget_def Let_def elim!: bindR_E)
    from Cons.IH [OF r] c show ?case
      by (auto simp: wget_update given_def dom_update [symmetric] distinct_update dom_map_of_conv_image_fst [symmetric] update_conv')
  qed (simp add: add_weights_def)
  then show "wget m' q = wget m q + given d p ws q" "fst ` set m' = fst ` set m \<union> pw_PoolId ` set ws" "distinct (map fst m) \<Longrightarrow> distinct (map fst m')"
    by blast+
qed

lemma add_weights_defined: "(\<exists>m'. add_weights d p ws m = Inr m') \<longleftrightarrow> (\<forall>w\<in>set ws. \<exists>c. d_mul d p (pw_Weight w) = Inr c)"
  unfolding add_weights_def
proof (induction ws arbitrary: m)
  case (Cons w ws)
  then show ?case by (cases "d_mul d p (pw_Weight w)") (simp_all add: add_weight_def Let_def)
qed simp

subsection \<open>The validators\<close>

definition validator_given :: "decx \<Rightarrow> string \<times> ValidatorGovInfo \<Rightarrow> uint64 \<Rightarrow> dec" where
  "validator_given d e q = given d (projr (voting_power d (gi_DelegatorShares (snd e) - gi_DelegatorDeductions (snd e)) (snd e))) (gi_Weights (snd e)) q"

definition validator_fine :: "decx \<Rightarrow> string \<times> ValidatorGovInfo \<Rightarrow> bool" where
  "validator_fine d e \<longleftrightarrow> gi_Weights (snd e) = [] \<or> (\<exists>p. voting_power d (gi_DelegatorShares (snd e) - gi_DelegatorDeductions (snd e)) (snd e) = Inr p
     \<and> (\<forall>w\<in>set (gi_Weights (snd e)). \<exists>c. d_mul d p (pw_Weight w) = Inr c))"

lemma tally_validator_Inr:
  assumes "tally_validator d e (m, t) = Inr (m', t')"
  shows "wget m' q = wget m q + validator_given d e q" "fst ` set m' = fst ` set m \<union> pw_PoolId ` set (gi_Weights (snd e))"
    "distinct (map fst m) \<Longrightarrow> distinct (map fst m')"
proof -
  consider "gi_Weights (snd e) = []" "m' = m"
    | p where "voting_power d (gi_DelegatorShares (snd e) - gi_DelegatorDeductions (snd e)) (snd e) = Inr p" "add_weights d p (gi_Weights (snd e)) m = Inr m'"
    using assms by (auto simp: tally_validator_def Let_def split: if_splits elim!: bindR_E)
  note c = this
  show "wget m' q = wget m q + validator_given d e q" using c by cases (simp_all add: validator_given_def add_weights_Inr)
  show "fst ` set m' = fst ` set m \<union> pw_PoolId ` set (gi_Weights (snd e))" using c by cases (simp, rule add_weights_Inr)
  show "distinct (map fst m) \<Longrightarrow> distinct (map fst m')" using c by cases (simp, rule add_weights_Inr)
qed

lemma tally_validator_defined: "(\<exists>r. tally_validator d e (m, t) = Inr r) \<longleftrightarrow> validator_fine d e"
proof (cases "voting_power d (gi_DelegatorShares (snd e) - gi_DelegatorDeductions (snd e)) (snd e)")
  case (Inr p)
  have "(\<exists>r. bindR (add_weights d p ws m) (\<lambda>weights. Inr (weights, t + p)) = Inr r) \<longleftrightarrow> (\<exists>m'. add_weights d p ws m = Inr m')" for ws
    by (cases "add_weights d p ws m") auto
  with Inr show ?thesis by (simp add: tally_validator_def Let_def validator_fine_def add_weights_defined)
qed (simp add: tally_validator_def Let_def validator_fine_def)

lemma tally_validators_Inr:
  assumes "foldR (tally_validator d) es (m, t) = Inr (m', t')"
  shows "wget m' q = wget m q + sum_list (map (\<lambda>e. validator_given d e q) es)
    \<and> fst ` set m' = fst ` set m \<union> (\<Union>e\<in>set es. pw_PoolId ` set (gi_Weights (snd e))) \<and> (distinct (map fst m) \<longrightarrow> distinct (map fst m'))"
  using assms
proof (induction es arbitrary: m t)
  case (Cons e es)
  from Cons.prems obtain m1 t1 where 1: "tally_validator d e (m, t) = Inr (m1, t1)" "foldR (tally_validator d) es (m1, t1) = Inr (m', t')"
    by (auto elim!: bindR_E)
  show ?case using Cons.IH [OF 1(2)] tally_validator_Inr [OF 1(1)] by auto
qed simp

lemma tally_validators_defined:
  "(\<exists>r. foldR (tally_validator d) es (m, t) = Inr r) \<longleftrightarrow> (\<forall>e\<in>set es. validator_fine d e)"
proof (induction es arbitrary: m t)
  case (Cons e es)
  show ?case
  proof (cases "tally_validator d e (m, t)")
    case (Inl f)
    then show ?thesis using tally_validator_defined [of d e m t] by simp
  next
    case (Inr r)
    then show ?thesis using tally_validator_defined [of d e m t] Cons.IH [of "fst r" "snd r"] by auto
  qed
qed simp


subsection \<open>The order of iteration\<close>

lemma weightsArr_set: "set (weightsArr m) = (\<lambda>e. \<lparr>pw_PoolId = fst e, pw_Weight = snd e\<rparr>) ` set m"
  by (simp add: weightsArr_def case_prod_beta)

lemma weightsArr_sorted:
  assumes "distinct (map fst m)"
  shows "sorted (map pw_PoolId (weightsArr m))" "distinct (map pw_PoolId (weightsArr m))"
proof -
  have "mset (map pw_PoolId (weightsArr m)) = mset (map fst m)"
    by (simp add: weightsArr_def case_prod_beta image_mset.compositionality comp_def)
  then show "distinct (map pw_PoolId (weightsArr m))" using assms mset_eq_imp_distinct_iff by blast
qed (simp add: weightsArr_def)

lemma weightsArr_get:
  assumes "distinct (map fst m)"
  shows "w \<in> set (weightsArr m) \<longleftrightarrow> pw_PoolId w \<in> fst ` set m \<and> pw_Weight w = wget m (pw_PoolId w)"
proof -
  have "(q, c) \<in> set m \<longleftrightarrow> q \<in> fst ` set m \<and> c = wget m q" for q c
  proof (cases "map_of m q")
    case None
    then show ?thesis by (metis image_eqI fst_conv map_of_eq_None_iff)
  next
    case (Some v)
    then have "(q, v) \<in> set m" by (rule map_of_SomeD)
    moreover have "(q, c) \<in> set m \<longleftrightarrow> c = v" using Some map_of_eq_Some_iff [OF assms, of q c] by auto
    ultimately show ?thesis using Some by (force simp: wget_def)
  qed
  moreover have "w \<in> set (weightsArr m) \<longleftrightarrow> (pw_PoolId w, pw_Weight w) \<in> set m"
    by (cases w) (force simp: weightsArr_set image_iff)
  ultimately show ?thesis by simp
qed

lemma weightsArr_unique:
  assumes "distinct (map fst m)" "distinct (map fst m')" "fst ` set m = fst ` set m'" "\<And>q. wget m q = wget m' q"
  shows "weightsArr m = weightsArr m'"
proof (rule map_sorted_distinct_set_unique)
  show s: "set (weightsArr m) = set (weightsArr m')"
    by (intro set_eqI) (simp add: weightsArr_get assms)
  show "inj_on pw_PoolId (set (weightsArr m) \<union> set (weightsArr m'))"
    by (rule inj_onI) (simp add: s weightsArr_get assms(2))
qed (simp_all add: weightsArr_sorted assms)

lemma weightsArr_mset:
  assumes "distinct (map fst m)" "mset m' = mset m"
  shows "weightsArr m' = weightsArr m"
proof (rule weightsArr_unique)
  have "mset (map fst m') = mset (map fst m)" using assms(2) by simp
  then show "distinct (map fst m')" using assms(1) mset_eq_imp_distinct_iff by blast
  show "fst ` set m' = fst ` set m" unfolding mset_eq_setD [OF assms(2)] by (rule refl)
  show "wget m' q = wget m q" for q
    unfolding wget_def map_of_inject_set [OF \<open>distinct (map fst m')\<close> assms(1), THEN iffD2, OF mset_eq_setD [OF assms(2)]] by (rule refl)
qed (rule assms)

lemma tally_validators_mset:
  assumes "mset es' = mset es" "distinct (map fst m)" "foldR (tally_validator d) es (m, t) = Inr (m1, t1)"
  shows "\<exists>m2 t2. foldR (tally_validator d) es' (m, t) = Inr (m2, t2) \<and> weightsArr m2 = weightsArr m1 \<and> distinct (map fst m2)"
proof -
  have s: "set es' = set es" using assms(1) mset_eq_setD by blast
  then obtain m2 t2 where 2: "foldR (tally_validator d) es' (m, t) = Inr (m2, t2)"
    using tally_validators_defined [of d es m t] tally_validators_defined [of d es' m t] assms(3) by fastforce
  note r = tally_validators_Inr [OF 2] tally_validators_Inr [OF assms(3)]
  have "sum_list (map (\<lambda>e. validator_given d e q) es') = sum_list (map (\<lambda>e. validator_given d e q) es)" for q
    using assms(1) by (metis mset_map sum_mset_sum_list)
  with r s assms(2) have "weightsArr m2 = weightsArr m1" by (intro weightsArr_unique) auto
  with 2 r assms(2) show ?thesis by blast
qed


subsection \<open>The votes\<close>

text \<open>The validators during the tally: their deductions and weights have changed, nothing else.\<close>

definition with_votes :: "valmap \<Rightarrow> (string \<Rightarrow> dec) \<Rightarrow> (string \<Rightarrow> PoolWeight list) \<Rightarrow> valmap" where
  "with_votes vals D W = map (\<lambda>(v, b). (v, b\<lparr>gi_DelegatorDeductions := D v, gi_Weights := W v\<rparr>)) vals"

lemma map_of_with_votes:
  "map_of (with_votes vals D W) v = map_option (\<lambda>b. b\<lparr>gi_DelegatorDeductions := D v, gi_Weights := W v\<rparr>) (map_of vals v)"
  unfolding with_votes_def by (induction vals) auto

lemma with_votes_cong:
  "(\<And>v. v \<in> fst ` set vals \<Longrightarrow> D v = D' v \<and> W v = W' v) \<Longrightarrow> with_votes vals D W = with_votes vals D' W'"
  by (induction vals) (auto simp: with_votes_def)

lemma update_with_votes:
  assumes "distinct (map fst vals)" "map_of vals k = Some b"
  shows "AList.update k (b\<lparr>gi_DelegatorDeductions := n, gi_Weights := ws\<rparr>) (with_votes vals D W) = with_votes vals (D(k := n)) (W(k := ws))"
  using assms
proof (induction vals)
  case (Cons e vals)
  obtain v c where e: "e = (v, c)" by (cases e)
  show ?case
  proof (cases "v = k")
    case True
    with Cons.prems e have "k \<notin> fst ` set vals" "c = b" by auto
    moreover then have "with_votes vals (D(k := n)) (W(k := ws)) = with_votes vals D W"
      by (intro with_votes_cong) auto
    ultimately show ?thesis using True e by (simp add: with_votes_def)
  next
    case False
    with Cons e show ?thesis by (simp add: with_votes_def)
  qed
qed simp

lemma tally_delegation_some:
  assumes "map_of c (de_ValidatorAddr dl) = Some b" "tally_delegation d ws dl (c, m, t) = Inr r"
  obtains p m1 where "voting_power d (de_Shares dl) b = Inr p" "add_weights d p ws m = Inr m1"
    "r = (AList.update (de_ValidatorAddr dl) (b\<lparr>gi_DelegatorDeductions := gi_DelegatorDeductions b + de_Shares dl\<rparr>) c, m1, t + p)"
  using assms by (auto simp: tally_delegation_def Let_def elim!: bindR_E)

lemma tally_delegation_none:
  "map_of c (de_ValidatorAddr dl) = None \<Longrightarrow> tally_delegation d ws dl (c, m, t) = Inr (c, m, t)"
  by (simp add: tally_delegation_def)

lemma tally_delegations:
  assumes "distinct (map fst vals)" "foldR (tally_delegation d ws) dls (with_votes vals D W, m, t) = Inr (vals', m', t')"
  shows "vals' = with_votes vals (\<lambda>v. D v + sum_list (map de_Shares (filter (\<lambda>dl. de_ValidatorAddr dl = v) dls))) W
    \<and> wget m' q = wget m q + sum_list (map (\<lambda>dl. case map_of vals (de_ValidatorAddr dl) of None \<Rightarrow> 0
        | Some val \<Rightarrow> given d (projr (voting_power d (de_Shares dl) val)) ws q) dls)
    \<and> (distinct (map fst m) \<longrightarrow> distinct (map fst m'))"
  using assms(2)
proof (induction dls arbitrary: D m t)
  case (Cons dl dls)
  let ?v = "de_ValidatorAddr dl"
  show ?case
  proof (cases "map_of vals ?v")
    case None
    then have "?v \<notin> fst ` set vals" by (simp add: map_of_eq_None_iff)
    then have "with_votes vals (\<lambda>v. D v + sum_list (map de_Shares (filter (\<lambda>dl. de_ValidatorAddr dl = v) dls))) W
        = with_votes vals (\<lambda>v. D v + sum_list (map de_Shares (filter (\<lambda>dl. de_ValidatorAddr dl = v) (dl # dls)))) W"
      by (intro with_votes_cong) auto
    with None Cons show ?thesis by (simp add: tally_delegation_none map_of_with_votes)
  next
    case (Some b)
    let ?b = "b\<lparr>gi_DelegatorDeductions := D ?v, gi_Weights := W ?v\<rparr>"
    have g: "map_of (with_votes vals D W) ?v = Some ?b" using Some by (simp add: map_of_with_votes)
    have u: "AList.update ?v (?b\<lparr>gi_DelegatorDeductions := gi_DelegatorDeductions ?b + de_Shares dl\<rparr>) (with_votes vals D W)
        = with_votes vals (D(?v := D ?v + de_Shares dl)) W"
      using update_with_votes [OF assms(1) Some, where n = "D ?v + de_Shares dl" and ws = "W ?v" and D = D and W = W]
      by (cases b) simp
    from Cons.prems obtain r1 where r1: "tally_delegation d ws dl (with_votes vals D W, m, t) = Inr r1"
        "foldR (tally_delegation d ws) dls r1 = Inr (vals', m', t')"
      by (auto simp: bindR_Inr_iff simp del: bindR_simps)
    from g r1(1) obtain p m1 where p: "voting_power d (de_Shares dl) ?b = Inr p" "add_weights d p ws m = Inr m1"
      and e: "r1 = (with_votes vals (D(?v := D ?v + de_Shares dl)) W, m1, t + p)"
      unfolding u [symmetric] by (rule tally_delegation_some)
    note r = r1(2) [unfolded e]
    have "(\<lambda>v. (D(?v := D ?v + de_Shares dl)) v + sum_list (map de_Shares (filter (\<lambda>dl. de_ValidatorAddr dl = v) dls)))
        = (\<lambda>v. D v + sum_list (map de_Shares (filter (\<lambda>dl. de_ValidatorAddr dl = v) (dl # dls))))" by auto
    with Cons.IH [OF r] p Some show ?thesis by (simp add: add_weights_Inr [OF p(2)])
  qed
qed simp


lemma choice_of_append: "choice_of x (vs @ [v]) = (\<lambda>a. if li_valBytesToString x (voter_of x v) = Inr a then vo_Weights v else choice_of x vs a)"
  by (rule ext) (simp add: choice_of_def)

lemma deducted_append:
  "deducted x k (vs @ [v]) = (\<lambda>a. deducted x k vs a + sum_list (map de_Shares (filter (\<lambda>dl. de_ValidatorAddr dl = a) (delegations_of x k v))))"
  by (rule ext) (simp add: deducted_def)

lemma tally_vote_Inr:
  assumes "distinct (map fst vals)" "tally_vote x k vote (with_votes vals D W, m, t) = Inr (vals', m', t')"
  shows "vals' = with_votes vals (\<lambda>v. D v + sum_list (map de_Shares (filter (\<lambda>dl. de_ValidatorAddr dl = v) (delegations_of x k vote))))
      (\<lambda>v. if li_valBytesToString x (voter_of x vote) = Inr v then vo_Weights vote else W v)"
    "wget m' q = wget m q + delegated_votes x k vals vote q" "distinct (map fst m) \<Longrightarrow> distinct (map fst m')"
proof -
  from assms(2) obtain voter a where v: "li_accStringToBytes x (vo_Sender vote) = Inr voter" "li_valBytesToString x voter = Inr a"
    by (auto simp: tally_vote_def elim!: bindR_E)
  let ?W = "\<lambda>v. if li_valBytesToString x (voter_of x vote) = Inr v then vo_Weights vote else W v"
  let ?vals = "case map_of (with_votes vals D W) a of None \<Rightarrow> with_votes vals D W
    | Some val \<Rightarrow> AList.update a (val\<lparr>gi_Weights := vo_Weights vote\<rparr>) (with_votes vals D W)"
  have o: "voter_of x vote = voter" using v by (simp add: voter_of_def)
  have "?vals = with_votes vals D ?W"
  proof (cases "map_of vals a")
    case None
    then have "a \<notin> fst ` set vals" by (simp add: map_of_eq_None_iff)
    then have "with_votes vals D W = with_votes vals D ?W" using v o by (intro with_votes_cong) auto
    with None show ?thesis by (simp add: map_of_with_votes)
  next
    case (Some b)
    have "?W = W(a := vo_Weights vote)" using v o by auto
    with Some update_with_votes [OF assms(1) Some, where n = "D a" and ws = "vo_Weights vote" and D = D and W = W]
    show ?thesis by (simp add: map_of_with_votes)
  qed
  with assms(2) v o have "foldR (tally_delegation (li_dec x) (vo_Weights vote)) (delegations_of x k vote) (with_votes vals D ?W, m, t) = Inr (vals', m', t')"
    by (auto simp: tally_vote_def iterate_def delegations_of_def Let_def split: option.splits elim!: bindR_E)
  note r = tally_delegations [OF assms(1) this]
  show "vals' = with_votes vals (\<lambda>v. D v + sum_list (map de_Shares (filter (\<lambda>dl. de_ValidatorAddr dl = v) (delegations_of x k vote)))) ?W"
    "wget m' q = wget m q + delegated_votes x k vals vote q" "distinct (map fst m) \<Longrightarrow> distinct (map fst m')"
    using r unfolding delegated_votes_def by blast+
qed

lemma tally_votes_Inr:
  assumes "distinct (map fst vals)" "with_votes vals (\<lambda>_. 0) (\<lambda>_. []) = vals" "foldR (tally_vote x k) votes (vals, [], 0) = Inr (vals', m', t')"
  shows "vals' = with_votes vals (deducted x k votes) (choice_of x votes) \<and> distinct (map fst m')
    \<and> (\<forall>q. wget m' q = sum_list (map (\<lambda>vote. delegated_votes x k vals vote q) votes))"
proof -
  let ?P = "\<lambda>vs (c, m, t). c = with_votes vals (deducted x k vs) (choice_of x vs) \<and> distinct (map fst m)
      \<and> (\<forall>q. wget m q = sum_list (map (\<lambda>vote. delegated_votes x k vals vote q) vs))"
  have "?P votes (vals', m', t')"
  proof (rule foldR_prefix_invariant [OF assms(3), where P = ?P])
    have "deducted x k [] = (\<lambda>_. 0)" "choice_of x [] = (\<lambda>_. [])" by (auto simp: deducted_def choice_of_def)
    then show "?P [] (vals, [], 0)" using assms(2) by (simp add: wget_def)
  next
    fix vs v c c'
    assume P: "?P vs c" and s: "tally_vote x k v c = Inr c'"
    obtain m t m1 t1 a where c: "c = (with_votes vals (deducted x k vs) (choice_of x vs), m, t)" "c' = (a, m1, t1)"
      using P by (cases c; cases c') auto
    note r = tally_vote_Inr [OF assms(1) s [unfolded c]]
    show "?P (vs @ [v]) c'" using P r unfolding c by (simp add: deducted_append choice_of_append)
  qed
  then show ?thesis by simp
qed


subsection \<open>The result\<close>

definition weight_in :: "PoolWeight list \<Rightarrow> uint64 \<Rightarrow> dec" where
  "weight_in ws q = sum_list (map pw_Weight (filter (\<lambda>w. pw_PoolId w = q) ws))"

definition bonded :: "'b lix \<Rightarrow> stk \<Rightarrow> valmap result" where
  "bonded x k = iterate (insert_validator x) (sk_validators k) []"

lemma insert_validators:
  assumes "foldR (insert_validator x) vs m = Inr m'" "distinct (map fst m)" "with_votes m (\<lambda>_. 0) (\<lambda>_. []) = m"
  shows "distinct (map fst m') \<and> with_votes m' (\<lambda>_. 0) (\<lambda>_. []) = m'"
proof -
  let ?P = "\<lambda>m. distinct (map fst m) \<and> (\<forall>e\<in>set m. gi_DelegatorDeductions (snd e) = 0 \<and> gi_Weights (snd e) = [])"
  have w: "with_votes m (\<lambda>_. 0) (\<lambda>_. []) = m \<longleftrightarrow> (\<forall>e\<in>set m. gi_DelegatorDeductions (snd e) = 0 \<and> gi_Weights (snd e) = [])" for m
    unfolding with_votes_def by (induction m) (auto simp: ValidatorGovInfo.splits)
  have "?P m'"
  proof (rule foldR_invariant [OF assms(1), where P = ?P])
    show "?P m" using assms(2,3) unfolding w by blast
  next
    fix v m m1
    assume "?P m" "insert_validator x v m = Inr m1"
    moreover have "e \<in> set (AList.update k c m) \<Longrightarrow> e \<in> set m \<or> e = (k, c)" for k c e
      by (induction m) (auto split: if_splits)
    ultimately show "?P m1"
      by (auto simp: insert_validator_def distinct_update split: sum.splits fault.splits) fastforce+
  qed
  then show ?thesis unfolding w by blast
qed

lemma bonded_fresh:
  assumes "bonded x k = Inr vals"
  shows "distinct (map fst vals)" "with_votes vals (\<lambda>_. 0) (\<lambda>_. []) = vals"
proof -
  from assms obtain m where "foldR (insert_validator x) (fst (sk_validators k)) [] = Inr vals"
    by (auto simp: bonded_def iterate_def split: option.splits elim!: bindR_E)
  from insert_validators [OF this] show "distinct (map fst vals)" "with_votes vals (\<lambda>_. 0) (\<lambda>_. []) = vals"
    by (auto simp: with_votes_def)
qed

lemma weight_in_get:
  assumes "distinct (map fst m)"
  shows "weight_in (weightsArr m) q = wget m q"
proof -
  have "weight_in (weightsArr m) q = sum_mset (image_mset pw_Weight (filter_mset (\<lambda>w. pw_PoolId w = q) (mset (weightsArr m))))"
    by (simp add: weight_in_def sum_mset_sum_list flip: mset_map mset_filter)
  also have "\<dots> = sum_mset (image_mset snd (filter_mset (\<lambda>e. fst e = q) (mset m)))"
    by (simp add: weightsArr_def case_prod_beta filter_mset_image_mset image_mset.compositionality comp_def)
  also have "\<dots> = sum_list (map snd (filter (\<lambda>e. fst e = q) m))"
    by (simp add: sum_mset_sum_list flip: mset_map mset_filter)
  also have "\<dots> = wget m q"
    using assms
  proof (induction m)
    case (Cons e m)
    show ?case
    proof (cases "fst e = q")
      case True
      with Cons.prems have "filter (\<lambda>e. fst e = q) m = []" by (simp add: filter_empty_conv) (metis image_eqI)
      with True show ?thesis by (simp add: wget_def)
    next
      case False
      with Cons show ?thesis by (simp add: wget_def)
    qed
  qed (simp add: wget_def)
  finally show ?thesis .
qed

lemma Tally_sum:
  assumes "map_order_ok ord" "Tally x k ord s = Inr ws" "bonded x k = Inr vals" "sk_totalBonded k = Inr n" "n \<noteq> 0"
  shows "sorted_wrt (<) (map pw_PoolId ws)"
    "weight_in ws q = sum_list (map (\<lambda>vote. delegated_votes x k vals vote q) (GetAllVotes s)) + sum_list (map (\<lambda>e. validator_votes x k (GetAllVotes s) e q) vals)"
proof -
  let ?V = "with_votes vals (deducted x k (GetAllVotes s)) (choice_of x (GetAllVotes s))"
  from assms(2-5) obtain c m t m1 t1 where c: "foldR (tally_vote x k) (GetAllVotes s) (vals, [], 0) = Inr (c, m, t)"
      "foldR (tally_validator (li_dec x)) (mo_validators ord c) (m, t) = Inr (m1, t1)" "ws = weightsArr (mo_weights ord m1)"
    by (auto simp: Tally_def bonded_def [symmetric] elim!: bindR_E)
  note v = tally_votes_Inr [OF bonded_fresh [OF assms(3)] c(1)]
  note r = tally_validators_Inr [OF c(2)]
  have d: "distinct (map fst m1)" using v r by blast
  have ws: "ws = weightsArr m1" using weightsArr_mset [OF d, of "mo_weights ord m1"] assms(1) c(3) by (simp add: map_order_ok_def)
  show "sorted_wrt (<) (map pw_PoolId ws)" using weightsArr_sorted [OF d] unfolding ws by (simp add: strict_sorted_iff)
  have "mset (mo_validators ord c) = mset ?V" using assms(1) v by (simp add: map_order_ok_def)
  then have "sum_list (map (\<lambda>e. validator_given (li_dec x) e q) (mo_validators ord c)) = sum_list (map (\<lambda>e. validator_given (li_dec x) e q) ?V)"
    by (metis mset_map sum_mset_sum_list)
  also have "\<dots> = sum_list (map (\<lambda>e. validator_votes x k (GetAllVotes s) e q) vals)"
    unfolding with_votes_def map_map by (intro arg_cong [where f = sum_list] map_cong refl) (auto simp: validator_given_def validator_votes_def)
  finally show "weight_in ws q = sum_list (map (\<lambda>vote. delegated_votes x k vals vote q) (GetAllVotes s)) + sum_list (map (\<lambda>e. validator_votes x k (GetAllVotes s) e q) vals)"
    unfolding ws weight_in_get [OF d] using r v by simp
qed

lemma Tally_order:
  assumes "map_order_ok ord" "map_order_ok ord'" "Tally x k ord s = Inr ws"
  shows "Tally x k ord' s = Inr ws"
proof -
  from assms(3) obtain vals c m t m1 t1 n where c: "bonded x k = Inr vals" "foldR (tally_vote x k) (GetAllVotes s) (vals, [], 0) = Inr (c, m, t)"
      "foldR (tally_validator (li_dec x)) (mo_validators ord c) (m, t) = Inr (m1, t1)" "sk_totalBonded k = Inr n"
      "ws = (if n = 0 then [] else weightsArr (mo_weights ord m1))"
    by (auto simp: Tally_def bonded_def [symmetric] elim!: bindR_E split: if_splits)
  note v = tally_votes_Inr [OF bonded_fresh [OF c(1)] c(2)]
  have "distinct (map fst m)" using v by blast
  moreover have "mset (mo_validators ord' c) = mset (mo_validators ord c)" using assms(1,2) by (simp add: map_order_ok_def)
  ultimately obtain m2 t2 where 2: "foldR (tally_validator (li_dec x)) (mo_validators ord' c) (m, t) = Inr (m2, t2)"
      "weightsArr m2 = weightsArr m1" "distinct (map fst m2)"
    using tally_validators_mset [OF _ _ c(3)] by blast
  have "distinct (map fst m1)" using tally_validators_Inr [OF c(3)] v by blast
  then have "weightsArr (mo_weights ord' m2) = weightsArr (mo_weights ord m1)"
    using 2 weightsArr_mset assms(1,2) unfolding map_order_ok_def by metis
  with c 2 show ?thesis by (simp add: Tally_def bonded_def [symmetric])
qed

end
