(* ===== verification/LpFrame.thy ===== *)
theory LpFrame
  imports LpPosition
begin

text \<open>
  What the fee operations leave alone. The accumulators and the bank are apart from the pools, positions and ticks,
  the \<open>core\<close> of the state; and within the accumulators, claims and settlements keep the numbers of shares.
\<close>

section \<open>The core of the state\<close>

definition core :: "'b lps \<Rightarrow> (uint64, Pool) kv \<times> uint64 option \<times> (uint64, Position) kv \<times> uint64 option
    \<times> (bytes, uint64) kv \<times> (bytes, uint64) kv \<times> (bytes, TickInfo) kv \<times> lpParams option" where
  "core s = (ls_pools s, ls_poolCount s, ls_positions s, ls_positionCount s, ls_byPool s, ls_byAddress s, ls_ticks s, ls_params s)"

named_theorems core_simps \<open>the core of the state after an operation on the accumulators or the bank\<close>

lemma core_fields:
  assumes "core s' = core s"
  shows "ls_pools s' = ls_pools s" "ls_poolCount s' = ls_poolCount s" "ls_positions s' = ls_positions s"
    "ls_positionCount s' = ls_positionCount s" "ls_byPool s' = ls_byPool s" "ls_byAddress s' = ls_byAddress s"
    "ls_ticks s' = ls_ticks s" "ls_params s' = ls_params s"
    "GetPool s' = GetPool s" "GetPosition s' = GetPosition s"
  using assms by (auto simp: core_def GetPool_def GetPosition_def)

lemma core_set [core_simps]:
  "core (SetAccumulator a s) = core s"
  "core (SetAccumulatorPosition n v i k r s) = core s"
  "core (deletePosition_acc n i s) = core s"
  by (simp_all add: core_def SetAccumulator_def SetAccumulatorPosition_def deletePosition_acc_def)

lemma send_core: "send_lp x a b cs s = Inr s' \<Longrightarrow> core s' = core s"
  by (auto simp: send_lp_def core_def elim!: bindR_E)

lemma InitAccumulator_core: "InitAccumulator x n s = Inr s' \<Longrightarrow> core s' = core s"
  by (auto simp: InitAccumulator_def core_simps split: if_splits elim!: bindR_E)

lemma AddToAccumulator_core: "AddToAccumulator x a v s = Inr s' \<Longrightarrow> core s' = core s"
  by (auto simp: AddToAccumulator_def core_simps elim!: bindR_E)

lemma add_total_shares_core: "add_total_shares n k s = Inr s' \<Longrightarrow> core s' = core s"
  by (auto simp: add_total_shares_def core_simps elim!: bindR_E)

lemma NewPositionIntervalAccumulation_core: "NewPositionIntervalAccumulation x n i k v s = Inr s' \<Longrightarrow> core s' = core s"
  by (auto simp: NewPositionIntervalAccumulation_def core_simps elim!: bindR_E dest!: add_total_shares_core)

lemma SetPositionIntervalAccumulation_core: "SetPositionIntervalAccumulation n i v s = Inr s' \<Longrightarrow> core s' = core s"
  by (auto simp: SetPositionIntervalAccumulation_def core_simps elim!: bindR_E)

lemma UpdatePositionIntervalAccumulation_core: "UpdatePositionIntervalAccumulation x n i k v s = Inr s' \<Longrightarrow> core s' = core s"
  by (auto simp: UpdatePositionIntervalAccumulation_def AddToPositionIntervalAccumulation_def
      RemoveFromPositionIntervalAccumulation_def core_simps split: if_splits elim!: bindR_E dest!: add_total_shares_core)

lemma updatePositionToInit_core: "updatePositionToInitValuePlusGrowthOutside x n i v s = Inr s' \<Longrightarrow> core s' = core s"
  by (auto simp: updatePositionToInitValuePlusGrowthOutside_def elim!: bindR_E dest!: SetPositionIntervalAccumulation_core)

lemma ClaimRewards_core: "ClaimRewards x n i s = Inr (c, v, s') \<Longrightarrow> core s' = core s"
  by (auto simp: ClaimRewards_def core_simps split: if_splits elim!: bindR_E)

lemma SetAccumulatorPositionFeeAccumulator_core:
  "SetAccumulatorPositionFeeAccumulator x p l u i k s = Inr s' \<Longrightarrow> core s' = core s"
  by (auto simp: SetAccumulatorPositionFeeAccumulator_def Let_def split: if_splits elim!: bindR_E
      dest!: NewPositionIntervalAccumulation_core UpdatePositionIntervalAccumulation_core updatePositionToInit_core)

lemma updateAccumAndClaimRewards_core: "updateAccumAndClaimRewards x a k v s = Inr (c, w, s') \<Longrightarrow> core s' = core s"
  by (auto simp: updateAccumAndClaimRewards_def split: if_splits elim!: bindR_E
      dest!: updatePositionToInit_core ClaimRewards_core SetPositionIntervalAccumulation_core)

lemma prepareClaimableFees_core: "prepareClaimableFees x i s = Inr (c, s') \<Longrightarrow> core s' = core s"
  by (auto simp: prepareClaimableFees_def Let_def split: if_splits option.splits elim!: bindR_E
      dest!: updateAccumAndClaimRewards_core AddToAccumulator_core)

lemma collectFees_core: "collectFees x a i s = Inr (c, s') \<Longrightarrow> core s' = core s"
  by (auto simp: collectFees_def split: if_splits option.splits elim!: bindR_E dest!: prepareClaimableFees_core send_core)

section \<open>Shares\<close>

text \<open>The shares under every key, and the accumulators by name.\<close>

definition nums :: "'b lps \<Rightarrow> bytes \<Rightarrow> dec option" where
  "nums s k = map_option ap_NumShares (kv_get (ls_accumPositions s) k)"

definition tot :: "'b lps \<Rightarrow> string \<Rightarrow> dec option" where
  "tot s a = map_option ao_TotalShares (kv_get (ls_accums s) (FormatKeyAccumPrefix a))"

definition accums_ok :: "'b lps \<Rightarrow> bool" where
  "accums_ok s \<longleftrightarrow> kv_ok (ls_accums s) \<and> kv_ok (ls_accumPositions s)
     \<and> (\<forall>a v. kv_get (ls_accums s) (FormatKeyAccumPrefix a) = Some v \<longrightarrow> ao_Name v = a)"

lemma FormatKeyAccumPrefix_inject [simp]: "FormatKeyAccumPrefix a = FormatKeyAccumPrefix b \<longleftrightarrow> a = b"
  by (simp add: FormatKeyAccumPrefix_def)

abbreviation pos_key :: "string \<Rightarrow> string \<Rightarrow> bytes" where
  "pos_key \<equiv> FormatKeyAccumulatorPositionPrefix"

lemma GetAccumulator_Inr: "GetAccumulator s n = Inr a \<longleftrightarrow> kv_get (ls_accums s) (FormatKeyAccumPrefix n) = Some a"
  by (simp add: GetAccumulator_def split: option.splits)

lemma GetAccumulatorPosition_Inr: "GetAccumulatorPosition s n i = Inr p \<longleftrightarrow> kv_get (ls_accumPositions s) (pos_key n i) = Some p"
  by (simp add: GetAccumulatorPosition_def split: option.splits)

lemma accums_ok_name: "accums_ok s \<Longrightarrow> GetAccumulator s n = Inr a \<Longrightarrow> ao_Name a = n"
  by (simp add: accums_ok_def GetAccumulator_Inr)

lemma SetAccumulatorPosition_shares:
  assumes "accums_ok s"
  shows "accums_ok (SetAccumulatorPosition n v i k r s)"
    "nums (SetAccumulatorPosition n v i k r s) = (nums s)(pos_key n i \<mapsto> k)"
    "tot (SetAccumulatorPosition n v i k r s) = tot s"
  using assms by (auto simp: accums_ok_def nums_def tot_def SetAccumulatorPosition_def)

lemma SetAccumulator_shares:
  assumes "accums_ok s" "ao_Name a = n"
  shows "accums_ok (SetAccumulator a s)" "nums (SetAccumulator a s) = nums s"
    "tot (SetAccumulator a s) = (tot s)(n \<mapsto> ao_TotalShares a)"
  using assms by (auto simp: accums_ok_def nums_def tot_def SetAccumulator_def)

lemma deletePosition_shares:
  assumes "accums_ok s"
  shows "accums_ok (deletePosition_acc n i s)" "nums (deletePosition_acc n i s) = (nums s)(pos_key n i := None)"
    "tot (deletePosition_acc n i s) = tot s"
  using assms by (auto simp: accums_ok_def nums_def tot_def deletePosition_acc_def)

text \<open>\<open>moves s s' n k d\<close>: the shares under \<open>k\<close> and the sum of accumulator \<open>n\<close> have changed by \<open>d\<close>.\<close>

definition moves :: "'b lps \<Rightarrow> 'b lps \<Rightarrow> string \<Rightarrow> bytes \<Rightarrow> dec \<Rightarrow> bool" where
  "moves s s' n k d \<longleftrightarrow> accums_ok s' \<and> (\<exists>t. tot s n = Some t \<and> tot s' = (tot s)(n \<mapsto> t + d))
     \<and> nums s' = (nums s)(k \<mapsto> (case nums s k of None \<Rightarrow> 0 | Some j \<Rightarrow> j) + d)"

definition settles :: "'b lps \<Rightarrow> 'b lps \<Rightarrow> bool" where
  "settles s s' \<longleftrightarrow> accums_ok s' \<and> tot s' = tot s \<and> nums s' = nums s"

lemma settles_moves: "settles s s1 \<Longrightarrow> moves s1 s2 n k d \<Longrightarrow> moves s s2 n k d"
  by (simp add: settles_def moves_def)

lemma settles_trans: "settles s s1 \<Longrightarrow> settles s1 s2 \<Longrightarrow> settles s s2"
  by (simp add: settles_def)

lemma settles_refl: "accums_ok s \<Longrightarrow> settles s s"
  by (simp add: settles_def)

lemma send_settles: "accums_ok s \<Longrightarrow> send_lp x a b cs s = Inr s' \<Longrightarrow> settles s s'"
  by (auto simp: send_lp_def settles_def accums_ok_def tot_def nums_def elim!: bindR_E)

lemma add_total_shares_moves:
  assumes "accums_ok s" "add_total_shares n d s = Inr s'"
  shows "accums_ok s'" "nums s' = nums s" "\<exists>t. tot s n = Some t \<and> tot s' = (tot s)(n \<mapsto> t + d)"
proof -
  from assms(2) obtain a where a: "GetAccumulator s n = Inr a" "s' = SetAccumulator (a\<lparr>ao_TotalShares := ao_TotalShares a + d\<rparr>) s"
    by (auto simp: add_total_shares_def elim!: bindR_E)
  have n: "ao_Name (a\<lparr>ao_TotalShares := ao_TotalShares a + d\<rparr>) = n" using accums_ok_name [OF assms(1) a(1)] by simp
  show "accums_ok s'" "nums s' = nums s" unfolding a(2) using SetAccumulator_shares [OF assms(1) n] by simp_all
  show "\<exists>t. tot s n = Some t \<and> tot s' = (tot s)(n \<mapsto> t + d)"
    unfolding a(2) SetAccumulator_shares(3) [OF assms(1) n] using a(1) by (simp add: tot_def GetAccumulator_Inr)
qed

lemma put_then_add_moves:
  assumes "accums_ok s" "add_total_shares n d (SetAccumulatorPosition n v i k r s) = Inr s'"
    and "k = (case nums s (pos_key n i) of None \<Rightarrow> 0 | Some j \<Rightarrow> j) + d"
  shows "moves s s' n (pos_key n i) d"
  using add_total_shares_moves [OF SetAccumulatorPosition_shares(1) [OF assms(1)] assms(2)] SetAccumulatorPosition_shares(2,3) [OF assms(1)] assms(3)
  by (simp add: moves_def)

lemma NewPositionIntervalAccumulation_moves:
  assumes "accums_ok s" "NewPositionIntervalAccumulation x n i d v s = Inr s'" "nums s (pos_key n i) = None"
  shows "moves s s' n (pos_key n i) d"
  using assms(2,3) by (auto simp: NewPositionIntervalAccumulation_def elim!: bindR_E intro!: put_then_add_moves [OF assms(1)])

lemma UpdatePositionIntervalAccumulation_moves:
  assumes "accums_ok s" "UpdatePositionIntervalAccumulation x n i d v s = Inr s'"
  shows "moves s s' n (pos_key n i) d"
proof (cases "d < 0")
  case True
  from assms(2) True obtain p r where p: "GetAccumulatorPosition s n i = Inr p"
      "add_total_shares n (- (- d)) (SetAccumulatorPosition n v i (ap_NumShares p - (- d)) r s) = Inr s'"
    by (auto simp: UpdatePositionIntervalAccumulation_def RemoveFromPositionIntervalAccumulation_def GetAccumulatorPositionSize_def
        split: if_splits elim!: bindR_E)
  then show ?thesis by (intro put_then_add_moves [OF assms(1)]) (auto simp: GetAccumulatorPosition_Inr nums_def)
next
  case False
  from assms(2) False obtain p r where p: "GetAccumulatorPosition s n i = Inr p"
      "add_total_shares n d (SetAccumulatorPosition n v i (ap_NumShares p + d) r s) = Inr s'"
    by (auto simp: UpdatePositionIntervalAccumulation_def AddToPositionIntervalAccumulation_def GetAccumulatorPositionSize_def
        split: if_splits elim!: bindR_E)
  then show ?thesis by (intro put_then_add_moves [OF assms(1)]) (auto simp: GetAccumulatorPosition_Inr nums_def)
qed

lemma SetPositionIntervalAccumulation_settles:
  assumes "accums_ok s" "SetPositionIntervalAccumulation n i v s = Inr s'"
  shows "settles s s'"
proof -
  from assms(2) obtain p where p: "GetAccumulatorPosition s n i = Inr p"
      "s' = SetAccumulatorPosition n v i (ap_NumShares p) (ap_UnclaimedRewardsTotal p) s"
    by (auto simp: SetPositionIntervalAccumulation_def elim!: bindR_E)
  then have "nums s (pos_key n i) = Some (ap_NumShares p)" by (simp add: nums_def GetAccumulatorPosition_Inr)
  then show ?thesis unfolding p(2) using SetAccumulatorPosition_shares [OF assms(1)] by (simp add: settles_def fun_upd_idem)
qed

lemma updatePositionToInit_settles:
  "accums_ok s \<Longrightarrow> updatePositionToInitValuePlusGrowthOutside x n i v s = Inr s' \<Longrightarrow> settles s s'"
  by (auto simp: updatePositionToInitValuePlusGrowthOutside_def elim!: bindR_E dest!: SetPositionIntervalAccumulation_settles)

lemma AddToAccumulator_settles:
  assumes "accums_ok s" "GetAccumulator s n = Inr a" "AddToAccumulator x a v s = Inr s'"
  shows "settles s s'"
proof -
  from assms(3) obtain w where s': "s' = SetAccumulator (a\<lparr>ao_AccumValue := w\<rparr>) s" by (auto simp: AddToAccumulator_def elim!: bindR_E)
  have n: "ao_Name (a\<lparr>ao_AccumValue := w\<rparr>) = n" using accums_ok_name [OF assms(1,2)] by simp
  have "tot s n = Some (ao_TotalShares a)" using assms(2) by (simp add: tot_def GetAccumulator_Inr)
  then show ?thesis unfolding s' using SetAccumulator_shares [OF assms(1) n] by (simp add: settles_def fun_upd_idem)
qed

lemma SetAccumulatorPositionFeeAccumulator_moves:
  assumes "accums_ok s" "SetAccumulatorPositionFeeAccumulator x p l u i d s = Inr s'"
  shows "moves s s' (KeyFeePoolAccumulator p) (pos_key (KeyFeePoolAccumulator p) (KeyFeePositionAccumulator i)) d"
proof -
  let ?n = "KeyFeePoolAccumulator p" and ?k = "KeyFeePositionAccumulator i"
  from assms(2) obtain a where a: "GetAccumulator s ?n = Inr a"
    by (auto simp: SetAccumulatorPositionFeeAccumulator_def GetFeeAccumulator_def elim!: bindR_E)
  have n: "ao_Name a = ?n" by (rule accums_ok_name [OF assms(1) a])
  show ?thesis
  proof (cases "HasPosition_acc s ?n ?k")
    case True
    with assms(2) a n obtain s1 v w where "updatePositionToInitValuePlusGrowthOutside x ?n ?k v s = Inr s1"
        "UpdatePositionIntervalAccumulation x ?n ?k d w s1 = Inr s'"
      by (auto simp: SetAccumulatorPositionFeeAccumulator_def GetFeeAccumulator_def Let_def elim!: bindR_E)
    moreover from this(1) have "settles s s1" by (rule updatePositionToInit_settles [OF assms(1)])
    ultimately show ?thesis
      using UpdatePositionIntervalAccumulation_moves settles_moves unfolding settles_def by blast
  next
    case False
    with assms(2) a n obtain v where "NewPositionIntervalAccumulation x ?n ?k d v s = Inr s'"
      by (auto simp: SetAccumulatorPositionFeeAccumulator_def GetFeeAccumulator_def Let_def split: if_splits elim!: bindR_E)
    then show ?thesis using False by (intro NewPositionIntervalAccumulation_moves [OF assms(1)]) (auto simp: HasPosition_acc_def nums_def)
  qed
qed

text \<open>A claim removes the shares of a position that has none, and keeps those of the others.\<close>

definition claimed :: "'b lps \<Rightarrow> 'b lps \<Rightarrow> bytes \<Rightarrow> bool" where
  "claimed s s' k \<longleftrightarrow> accums_ok s' \<and> tot s' = tot s
     \<and> nums s' = (if nums s k = Some 0 then (nums s)(k := None) else nums s)"

lemma ClaimRewards_claimed:
  assumes "accums_ok s" "ClaimRewards x n i s = Inr (c, v, s')"
  shows "claimed s s' (pos_key n i)"
proof -
  from assms(2) obtain p a where p: "GetAccumulatorPosition s n i = Inr p"
      "ap_NumShares p = 0 \<and> s' = deletePosition_acc n i s
       \<or> ap_NumShares p \<noteq> 0 \<and> (\<exists>w z. s' = SetAccumulatorPosition n w i (ap_NumShares p) z s)"
    by (auto simp: ClaimRewards_def on_err_def split: if_splits sum.splits fault.splits elim!: bindR_E) blast
  then have "nums s (pos_key n i) = Some (ap_NumShares p)" by (simp add: nums_def GetAccumulatorPosition_Inr)
  then show ?thesis
    using p(2) SetAccumulatorPosition_shares [OF assms(1)] deletePosition_shares [OF assms(1)]
    by (auto simp: claimed_def fun_upd_idem)
qed

lemma settles_claimed: "settles s s1 \<Longrightarrow> claimed s1 s2 k \<Longrightarrow> claimed s s2 k" "claimed s s1 k \<Longrightarrow> settles s1 s2 \<Longrightarrow> claimed s s2 k"
  by (auto simp: settles_def claimed_def)

lemma updateAccumAndClaimRewards_claimed:
  assumes "accums_ok s" "updateAccumAndClaimRewards x a i v s = Inr (c, w, s')"
  shows "claimed s s' (pos_key (ao_Name a) i)"
proof -
  from assms(2) obtain s1 s2 where s: "updatePositionToInitValuePlusGrowthOutside x (ao_Name a) i v s = Inr s1"
      "ClaimRewards x (ao_Name a) i s1 = Inr (c, w, s2)" "s' = s2 \<or> (\<exists>v. SetPositionIntervalAccumulation (ao_Name a) i v s2 = Inr s')"
    by (auto simp: updateAccumAndClaimRewards_def split: if_splits elim!: bindR_E) blast
  have 1: "settles s s1" by (rule updatePositionToInit_settles [OF assms(1) s(1)])
  then have 2: "claimed s1 s2 (pos_key (ao_Name a) i)" using ClaimRewards_claimed [OF _ s(2)] by (simp add: settles_def)
  then have "settles s2 s'" using s(3) SetPositionIntervalAccumulation_settles settles_refl unfolding claimed_def by blast
  then show ?thesis using 1 2 settles_claimed by blast
qed

lemma prepareClaimableFees_claimed:
  assumes "accums_ok s" "prepareClaimableFees x i s = Inr (c, s')" "GetPosition s i = Some p"
  shows "claimed s s' (pos_key (KeyFeePoolAccumulator (po_PoolId p)) (KeyFeePositionAccumulator i))"
proof -
  let ?n = "KeyFeePoolAccumulator (po_PoolId p)" and ?k = "KeyFeePositionAccumulator i"
  from assms(2,3) obtain a v w s1 where a: "GetAccumulator s ?n = Inr a"
      "updateAccumAndClaimRewards x a ?k v s = Inr (c, w, s1)"
      "s' = s1 \<or> (\<exists>b u. GetAccumulator s1 ?n = Inr b \<and> AddToAccumulator x b u s1 = Inr s')"
    by (auto simp: prepareClaimableFees_def GetFeeAccumulator_def Let_def split: if_splits elim!: bindR_E) blast+
  have 1: "claimed s s1 (pos_key ?n ?k)"
    using updateAccumAndClaimRewards_claimed [OF assms(1) a(2)] accums_ok_name [OF assms(1) a(1)] by simp
  then have ok: "accums_ok s1" by (simp add: claimed_def)
  have "settles s1 s'" using a(3) AddToAccumulator_settles [OF ok] settles_refl [OF ok] by blast
  with 1 show ?thesis by (rule settles_claimed(2))
qed

lemma collectFees_claimed:
  assumes "accums_ok s" "collectFees x a i s = Inr (c, s')" "GetPosition s i = Some p"
  shows "claimed s s' (pos_key (KeyFeePoolAccumulator (po_PoolId p)) (KeyFeePositionAccumulator i))"
proof -
  from assms(2,3) obtain f s1 where s1: "prepareClaimableFees x i s = Inr (f, s1)"
      "s' = s1 \<or> (\<exists>b e cs. send_lp x b e cs s1 = Inr s')"
    by (auto simp: collectFees_def split: if_splits option.splits elim!: bindR_E) blast+
  have 1: "claimed s s1 (pos_key (KeyFeePoolAccumulator (po_PoolId p)) (KeyFeePositionAccumulator i))"
    by (rule prepareClaimableFees_claimed [OF assms(1) s1(1) assms(3)])
  then have ok: "accums_ok s1" by (simp add: claimed_def)
  have "settles s1 s'" using s1(2) send_settles [OF ok] settles_refl [OF ok] by blast
  with 1 show ?thesis by (rule settles_claimed(2))
qed

text \<open>The keys of different positions differ.\<close>

lemma pos_key_inject:
  "pos_key (KeyFeePoolAccumulator p) (KeyFeePositionAccumulator i) = pos_key (KeyFeePoolAccumulator q) (KeyFeePositionAccumulator j)
   \<longleftrightarrow> p = q \<and> i = j"
proof
  let ?bar = "\<lambda>p i. FormatUint p @ CHR ''|'' # CHR ''|'' # KeyFeePositionAccumulator i"
  assume "pos_key (KeyFeePoolAccumulator p) (KeyFeePositionAccumulator i) = pos_key (KeyFeePoolAccumulator q) (KeyFeePositionAccumulator j)"
  then have "str (?bar p i) = str (?bar q j)"
    by (simp add: FormatKeyAccumulatorPositionPrefix_def KeyFeePoolAccumulator_def str_def)
  then have eq: "?bar p i = ?bar q j" by (simp only: str_inject)
  have take: "takeWhile (\<lambda>c. c \<noteq> CHR ''|'') (?bar p i) = FormatUint p" for p i
    using FormatUint_no_bar [of p] by (subst takeWhile_append2) auto
  have "FormatUint p = FormatUint q" using take [of p i] take [of q j] eq by simp
  then have "p = q" by simp
  with eq show "p = q \<and> i = j" by (simp add: KeyFeePositionAccumulator_def)
qed simp

end
