(* ===== verification/LpBook.thy ===== *)
theory LpBook
  imports LpFrame
begin

text \<open>
  The books of the liquidity pool: the gross and net liquidity of every tick are those of the positions that begin or end
  there, and the shares of the fee accumulators are the liquidity of the positions. The invariant \<open>book\<close> holds between the
  steps of a handler, where a position may have no liquidity; \<open>funded\<close> says that none is left so.
\<close>

section \<open>The invariant\<close>

definition gross_at :: "uint64 \<Rightarrow> int \<Rightarrow> Position \<Rightarrow> dec" where
  "gross_at q t p = (if po_PoolId p = q then (if po_LowerTick p = t then po_Liquidity p else 0)
     + (if po_UpperTick p = t then po_Liquidity p else 0) else 0)"

definition net_at :: "uint64 \<Rightarrow> int \<Rightarrow> Position \<Rightarrow> dec" where
  "net_at q t p = (if po_PoolId p = q then (if po_LowerTick p = t then po_Liquidity p else 0)
     - (if po_UpperTick p = t then po_Liquidity p else 0) else 0)"

definition liquidity_in :: "uint64 \<Rightarrow> Position \<Rightarrow> dec" where
  "liquidity_in q p = (if po_PoolId p = q then po_Liquidity p else 0)"

definition possum :: "(Position \<Rightarrow> dec) \<Rightarrow> 'b lps \<Rightarrow> dec" where
  "possum f s = sum_list (map (\<lambda>e. f (snd e)) (ls_positions s))"

definition tick_gross :: "'b lps \<Rightarrow> uint64 \<Rightarrow> int \<Rightarrow> dec" where
  "tick_gross s q t = (case kv_get (ls_ticks s) (GetTickInfoIDBytes q t) of None \<Rightarrow> 0 | Some i \<Rightarrow> ti_LiquidityGross i)"

definition tick_net :: "'b lps \<Rightarrow> uint64 \<Rightarrow> int \<Rightarrow> dec" where
  "tick_net s q t = (case kv_get (ls_ticks s) (GetTickInfoIDBytes q t) of None \<Rightarrow> 0 | Some i \<Rightarrow> ti_LiquidityNet i)"

abbreviation share_key :: "uint64 \<Rightarrow> uint64 \<Rightarrow> bytes" where
  "share_key q i \<equiv> pos_key (KeyFeePoolAccumulator q) (KeyFeePositionAccumulator i)"

definition fee_shares :: "'b lps \<Rightarrow> uint64 \<Rightarrow> uint64 \<Rightarrow> dec" where
  "fee_shares s q i = (case nums s (share_key q i) of None \<Rightarrow> 0 | Some n \<Rightarrow> n)"

definition stores_ok :: "'b lps \<Rightarrow> bool" where
  "stores_ok s \<longleftrightarrow> kv_ok (ls_pools s) \<and> kv_ok (ls_positions s) \<and> kv_ok (ls_ticks s) \<and> kv_ok (ls_byPool s) \<and> accums_ok s"

definition pools_ok :: "'b lps \<Rightarrow> bool" where
  "pools_ok s \<longleftrightarrow> (\<forall>i p. GetPool s i = Some p \<longrightarrow> pl_Id p = i)"

definition position_ok :: "'b lps \<Rightarrow> uint64 \<Rightarrow> Position \<Rightarrow> bool" where
  "position_ok s i p \<longleftrightarrow> po_Id p = i \<and> i < GetPositionCount s \<and> int64 (po_LowerTick p) \<and> int64 (po_UpperTick p)
     \<and> po_LowerTick p < po_UpperTick p \<and> 0 \<le> po_Liquidity p \<and> GetPool s (po_PoolId p) \<noteq> None"

definition positions_ok :: "'b lps \<Rightarrow> bool" where
  "positions_ok s \<longleftrightarrow> (\<forall>i p. GetPosition s i = Some p \<longrightarrow> position_ok s i p)"

definition ticks_ok :: "'b lps \<Rightarrow> bool" where
  "ticks_ok s \<longleftrightarrow> (\<forall>k i. kv_get (ls_ticks s) k = Some i \<longrightarrow> k = GetTickInfoIDBytes (ti_PoolId i) (ti_TickIndex i) \<and> int64 (ti_TickIndex i))"

definition ticks_balance :: "'b lps \<Rightarrow> bool" where
  "ticks_balance s \<longleftrightarrow> (\<forall>q t. int64 t \<longrightarrow> tick_gross s q t = possum (gross_at q t) s \<and> tick_net s q t = possum (net_at q t) s)"

definition shares_balance :: "'b lps \<Rightarrow> bool" where
  "shares_balance s \<longleftrightarrow>
     (\<forall>q. GetPool s q \<noteq> None \<longrightarrow> tot s (KeyFeePoolAccumulator q) = Some (possum (liquidity_in q) s))
     \<and> (\<forall>i p. GetPosition s i = Some p \<longrightarrow> fee_shares s (po_PoolId p) i = po_Liquidity p)
     \<and> (\<forall>q i. nums s (share_key q i) \<noteq> None \<longrightarrow> (\<exists>p. GetPosition s i = Some p \<and> po_PoolId p = q))"

definition book :: "'b lps \<Rightarrow> bool" where
  "book s \<longleftrightarrow> stores_ok s \<and> pools_ok s \<and> positions_ok s \<and> ticks_ok s \<and> ticks_balance s \<and> shares_balance s"

definition funded :: "'b lps \<Rightarrow> bool" where
  "funded s \<longleftrightarrow> (\<forall>i p. GetPosition s i = Some p \<longrightarrow> 0 < po_Liquidity p)"

lemmas book_defs = book_def stores_ok_def pools_ok_def positions_ok_def ticks_ok_def ticks_balance_def shares_balance_def

section \<open>Operations outside the books\<close>

definition keeps :: "'b lps \<Rightarrow> 'b lps \<Rightarrow> bool" where
  "keeps s s' \<longleftrightarrow> accums_ok s' \<and> tot s' = tot s \<and> (\<forall>k. nums s' k = nums s k \<or> nums s k = Some 0 \<and> nums s' k = None)"

lemma settles_keeps: "settles s s' \<Longrightarrow> keeps s s'"
  by (simp add: settles_def keeps_def)

lemma claimed_keeps: "claimed s s' k \<Longrightarrow> keeps s s'"
  by (auto simp: claimed_def keeps_def split: if_splits)

lemma keeps_shares: "keeps s s' \<Longrightarrow> fee_shares s' q i = fee_shares s q i"
  by (auto simp: keeps_def fee_shares_def dest!: spec [of _ "share_key q i"])

lemma core_sums:
  assumes "core s' = core s"
  shows "possum f s' = possum f s" "tick_gross s' = tick_gross s" "tick_net s' = tick_net s" "GetPositionCount s' = GetPositionCount s"
  using core_fields [OF assms] by (auto simp: possum_def tick_gross_def tick_net_def GetPositionCount_def fun_eq_iff)

lemma book_keeps:
  assumes "book s" "core s' = core s" "keeps s s'"
  shows "book s'"
proof -
  note f = core_fields [OF assms(2)] core_sums [OF assms(2)]
  have "stores_ok s'" using assms(1,3) by (simp add: book_defs f keeps_def)
  moreover have "pools_ok s'" "positions_ok s'" "ticks_ok s'" "ticks_balance s'"
    using assms(1) by (simp_all add: book_defs position_ok_def f)
  moreover have "nums s' k \<noteq> None \<Longrightarrow> nums s k \<noteq> None" for k using assms(3) by (auto simp: keeps_def dest!: spec [of _ k])
  then have "shares_balance s'"
    using assms(1,3) unfolding book_def shares_balance_def by (simp add: f keeps_shares [OF assms(3)]) (simp add: keeps_def)
  ultimately show ?thesis by (simp add: book_def)
qed

lemma funded_core: "core s' = core s \<Longrightarrow> funded s' = funded s"
  using core_fields(10) [of s' s] by (simp add: funded_def)

section \<open>Sums over the positions\<close>

lemma possum_SetPosition:
  "kv_ok (ls_positions s) \<Longrightarrow>
   possum f (SetPosition p s) = possum f s - (case GetPosition s (po_Id p) of None \<Rightarrow> 0 | Some q \<Rightarrow> f q) + f p"
  by (simp add: possum_def SetPosition_def Let_def GetPosition_def kv.sum_put [where f = "\<lambda>e. f (snd e)"] split: option.split)

lemma possum_RemovePosition:
  "kv_ok (ls_positions s) \<Longrightarrow>
   possum f (RemovePosition i s) = possum f s - (case GetPosition s i of None \<Rightarrow> 0 | Some q \<Rightarrow> f q)"
  by (simp add: possum_def RemovePosition_def GetPosition_def kv.sum_del [where f = "\<lambda>e. f (snd e)"] split: option.split)

lemma tick_SetTickInfo:
  assumes "kv_ok (ls_ticks s)" "int64 (ti_TickIndex i)" "int64 t"
  shows "tick_gross (SetTickInfo i s) q t = (if q = ti_PoolId i \<and> t = ti_TickIndex i then ti_LiquidityGross i else tick_gross s q t)"
    "tick_net (SetTickInfo i s) q t = (if q = ti_PoolId i \<and> t = ti_TickIndex i then ti_LiquidityNet i else tick_net s q t)"
  using assms by (auto simp: tick_gross_def tick_net_def SetTickInfo_def GetTickInfoIDBytes_inject)

lemma tick_RemoveTickInfo:
  assumes "kv_ok (ls_ticks s)" "int64 u" "int64 t"
  shows "tick_gross (RemoveTickInfo p u s) q t = (if q = p \<and> t = u then 0 else tick_gross s q t)"
    "tick_net (RemoveTickInfo p u s) q t = (if q = p \<and> t = u then 0 else tick_net s q t)"
  using assms by (auto simp: tick_gross_def tick_net_def RemoveTickInfo_def GetTickInfoIDBytes_inject)

section \<open>Ticks\<close>

lemma initOrUpdateTick_effect:
  assumes "ticks_ok s" "int64 t" "initOrUpdateTick q t d up s = Inr (e, s')"
  obtains i where "s' = SetTickInfo i s" "ti_PoolId i = q" "ti_TickIndex i = t"
    "ti_LiquidityGross i = tick_gross s q t + d" "ti_LiquidityNet i = tick_net s q t + (if up then - d else d)"
    "e \<longleftrightarrow> ti_LiquidityGross i = 0 \<and> ti_LiquidityNet i = 0"
proof -
  from assms(3) obtain j where j: "GetTickInfo s q t = Inr j"
      "e \<longleftrightarrow> ti_LiquidityGross j + d = 0 \<and> (if up then ti_LiquidityNet j - d else ti_LiquidityNet j + d) = 0"
      "s' = SetTickInfo (j\<lparr>ti_LiquidityGross := ti_LiquidityGross j + d,
        ti_LiquidityNet := (if up then ti_LiquidityNet j - d else ti_LiquidityNet j + d)\<rparr>) s"
    by (cases up) (auto simp: initOrUpdateTick_def Let_def elim!: bindR_E)
  have "ti_PoolId j = q \<and> ti_TickIndex j = t \<and> ti_LiquidityGross j = tick_gross s q t \<and> ti_LiquidityNet j = tick_net s q t"
  proof (cases "kv_get (ls_ticks s) (GetTickInfoIDBytes q t)")
    case None
    then show ?thesis using j(1)
      by (auto simp: GetTickInfo_def newTickInfo_def tick_gross_def tick_net_def split: option.splits elim!: bindR_E)
  next
    case (Some i)
    then have "GetTickInfoIDBytes q t = GetTickInfoIDBytes (ti_PoolId i) (ti_TickIndex i)" "int64 (ti_TickIndex i)"
      using assms(1) unfolding ticks_ok_def by blast+
    then show ?thesis using Some j(1) assms(2) by (auto simp: GetTickInfo_def GetTickInfoIDBytes_inject tick_gross_def tick_net_def)
  qed
  then show thesis using j(2,3) by (intro that [OF j(3)]) auto
qed

lemma SetTickInfo_others [simp]:
  "GetPool (SetTickInfo i s) = GetPool s" "GetPosition (SetTickInfo i s) = GetPosition s"
  "GetPositionCount (SetTickInfo i s) = GetPositionCount s" "possum f (SetTickInfo i s) = possum f s"
  "tot (SetTickInfo i s) = tot s" "nums (SetTickInfo i s) = nums s" "ls_bank (SetTickInfo i s) = ls_bank s"
  "accums_ok (SetTickInfo i s) = accums_ok s" "ls_pools (SetTickInfo i s) = ls_pools s" "ls_positions (SetTickInfo i s) = ls_positions s"
  "ls_byPool (SetTickInfo i s) = ls_byPool s"
  by (simp_all add: SetTickInfo_def GetPool_def GetPosition_def GetPositionCount_def possum_def tot_def nums_def accums_ok_def fun_eq_iff)

lemma ticks_ok_SetTickInfo: "kv_ok (ls_ticks s) \<Longrightarrow> ticks_ok s \<Longrightarrow> int64 (ti_TickIndex i) \<Longrightarrow> ticks_ok (SetTickInfo i s)"
  by (auto simp: ticks_ok_def SetTickInfo_def)

lemma SetPosition_others [simp]:
  "GetPool (SetPosition p s) = GetPool s" "GetPositionCount (SetPosition p s) = GetPositionCount s"
  "tick_gross (SetPosition p s) = tick_gross s" "tick_net (SetPosition p s) = tick_net s"
  "tot (SetPosition p s) = tot s" "nums (SetPosition p s) = nums s" "accums_ok (SetPosition p s) = accums_ok s"
  "ls_pools (SetPosition p s) = ls_pools s" "ls_ticks (SetPosition p s) = ls_ticks s" "ls_bank (SetPosition p s) = ls_bank s"
  "ticks_ok (SetPosition p s) = ticks_ok s"
  by (simp_all add: SetPosition_def Let_def GetPool_def GetPositionCount_def tick_gross_def tick_net_def tot_def nums_def accums_ok_def
      ticks_ok_def fun_eq_iff)

lemma SetPool_others [simp]:
  "GetPosition (SetPool p s) = GetPosition s" "GetPositionCount (SetPool p s) = GetPositionCount s"
  "tick_gross (SetPool p s) = tick_gross s" "tick_net (SetPool p s) = tick_net s"
  "tot (SetPool p s) = tot s" "nums (SetPool p s) = nums s" "accums_ok (SetPool p s) = accums_ok s" "possum f (SetPool p s) = possum f s"
  "ls_positions (SetPool p s) = ls_positions s" "ls_ticks (SetPool p s) = ls_ticks s" "ls_byPool (SetPool p s) = ls_byPool s"
  "ls_bank (SetPool p s) = ls_bank s" "ticks_ok (SetPool p s) = ticks_ok s"
  by (simp_all add: SetPool_def GetPosition_def GetPositionCount_def tick_gross_def tick_net_def tot_def nums_def accums_ok_def possum_def
      ticks_ok_def fun_eq_iff)

lemma kv_ok_others [simp]:
  "kv_ok (ls_pools s) \<Longrightarrow> kv_ok (ls_pools (SetPool p s))"
  "kv_ok (ls_positions s) \<Longrightarrow> kv_ok (ls_positions (SetPosition o' s))"
  "kv_ok (ls_byPool s) \<Longrightarrow> kv_ok (ls_byPool (SetPosition o' s))"
  "kv_ok (ls_ticks s) \<Longrightarrow> kv_ok (ls_ticks (SetTickInfo i s))"
  "kv_ok (ls_ticks s) \<Longrightarrow> kv_ok (ls_ticks (RemoveTickInfo q t s))"
  by (simp_all add: SetPool_def SetPosition_def Let_def SetTickInfo_def RemoveTickInfo_def)

text \<open>The fields of a pool other than its number are not in the books.\<close>

lemma book_SetPool:
  assumes "book s" "GetPool s (pl_Id p) \<noteq> None"
  shows "book (SetPool p s)"
proof -
  have k: "kv_ok (ls_pools s)" using assms(1) by (simp add: book_defs)
  have dom: "GetPool (SetPool p s) i \<noteq> None \<longleftrightarrow> GetPool s i \<noteq> None" for i using assms(2) by (auto simp: GetPool_SetPool [OF k])
  have "pools_ok (SetPool p s)" using assms(1) by (auto simp: book_defs GetPool_SetPool [OF k])
  moreover have "positions_ok (SetPool p s)" using assms(1) unfolding book_def positions_ok_def position_ok_def by (simp add: dom del: not_None_eq)
  moreover have "shares_balance (SetPool p s)"
    using assms(1) unfolding book_def shares_balance_def fee_shares_def by (simp add: dom del: not_None_eq)
  ultimately show ?thesis using assms(1) by (simp add: book_def stores_ok_def ticks_balance_def)
qed

section \<open>Positions\<close>

lemma UpdatePosition_steps:
  assumes "UpdatePosition x q l u d i s = Inr (b, c, le, ue, s')"
  obtains s1 s2 pool p ab aq s3 where "initOrUpdateTick q l d False s = Inr (le, s1)" "initOrUpdateTick q u d True s1 = Inr (ue, s2)"
    "GetPool s2 q = Some pool" "GetPosition s2 i = Some p" "0 \<le> po_Liquidity p + d"
    "CalcActualAmounts (lx_dec x) pool l u d = Inr (ab, aq)"
    "s3 = SetPool (fst (UpdateLiquidityIfActivePosition pool l u d)) (SetPosition (p\<lparr>po_Liquidity := po_Liquidity p + d\<rparr>) s2)"
    "SetAccumulatorPositionFeeAccumulator x q l u i d s3 = Inr s'"
    "d_truncateInt (lx_dec x) ab = Inr b" "d_truncateInt (lx_dec x) aq = Inr c"
proof -
  from assms obtain s1 s2 where 1: "initOrUpdateTick q l d False s = Inr (le, s1)" "initOrUpdateTick q u d True s1 = Inr (ue, s2)"
    unfolding UpdatePosition_def by (auto split: option.splits elim!: bindR_E simp: Let_def split: if_splits)
  from assms 1 obtain pool p where 2: "GetPool s2 q = Some pool" "GetPosition s2 i = Some p"
    unfolding UpdatePosition_def by (auto split: option.splits)
  from assms 1 2 show thesis
    unfolding UpdatePosition_def by (auto simp: Let_def split: if_splits elim!: bindR_E intro!: that)
qed

lemma fst_UpdateLiquidity [simp]: "pl_Id (fst (UpdateLiquidityIfActivePosition p l u d)) = pl_Id p"
  by (simp add: UpdateLiquidityIfActivePosition_def)

lemma at_changed:
  "po_LowerTick p < po_UpperTick p \<Longrightarrow> gross_at q t (p\<lparr>po_Liquidity := po_Liquidity p + d\<rparr>) =
     gross_at q t p + (if po_PoolId p = q \<and> (t = po_LowerTick p \<or> t = po_UpperTick p) then d else 0)"
  "po_LowerTick p < po_UpperTick p \<Longrightarrow> net_at q t (p\<lparr>po_Liquidity := po_Liquidity p + d\<rparr>) =
     net_at q t p + (if po_PoolId p = q \<and> t = po_LowerTick p then d else if po_PoolId p = q \<and> t = po_UpperTick p then - d else 0)"
  "liquidity_in q (p\<lparr>po_Liquidity := po_Liquidity p + d\<rparr>) = liquidity_in q p + (if po_PoolId p = q then d else 0)"
  by (auto simp: gross_at_def net_at_def liquidity_in_def)

text \<open>
  \<open>changed s s' i p d\<close>: the position \<open>i\<close>, which was \<open>p\<close>, has \<open>d\<close> more liquidity; the other positions and the
  numbers given out are the same.
\<close>

definition changed :: "'b lps \<Rightarrow> 'b lps \<Rightarrow> uint64 \<Rightarrow> Position \<Rightarrow> dec \<Rightarrow> bool" where
  "changed s s' i p d \<longleftrightarrow> GetPosition s' = (GetPosition s)(i \<mapsto> p\<lparr>po_Liquidity := po_Liquidity p + d\<rparr>)
     \<and> GetPositionCount s' = GetPositionCount s \<and> (\<forall>q. (GetPool s' q = None) = (GetPool s q = None))"

lemma KeyFeePoolAccumulator_inject [simp]: "KeyFeePoolAccumulator p = KeyFeePoolAccumulator q \<longleftrightarrow> p = q"
  by (simp add: KeyFeePoolAccumulator_def)

lemma shares_balance_moves:
  assumes bal: "shares_balance s" and p: "GetPosition s i = Some p" "GetPool s (po_PoolId p) \<noteq> None"
    and mv: "moves s s' (KeyFeePoolAccumulator (po_PoolId p)) (share_key (po_PoolId p) i) d"
    and ch: "changed s s' i p d"
    and ps: "\<And>r. possum (liquidity_in r) s' = possum (liquidity_in r) s + (if po_PoolId p = r then d else 0)"
  shows "shares_balance s'"
  unfolding shares_balance_def
proof (intro conjI allI impI)
  let ?q = "po_PoolId p"
  obtain t where t: "tot s (KeyFeePoolAccumulator ?q) = Some t" "tot s' = (tot s)(KeyFeePoolAccumulator ?q \<mapsto> t + d)"
      "nums s' = (nums s)(share_key ?q i \<mapsto> fee_shares s ?q i + d)"
    using mv by (auto simp: moves_def fee_shares_def)
  fix r
  assume "GetPool s' r \<noteq> None"
  then have "GetPool s r \<noteq> None" using ch by (simp add: changed_def del: not_None_eq)
  then have "tot s (KeyFeePoolAccumulator r) = Some (possum (liquidity_in r) s)" using bal unfolding shares_balance_def by blast
  then show "tot s' (KeyFeePoolAccumulator r) = Some (possum (liquidity_in r) s')" using t(1,2) by (auto simp: ps)
next
  let ?q = "po_PoolId p"
  fix j p'
  assume j: "GetPosition s' j = Some p'"
  have n: "nums s' = (nums s)(share_key ?q i \<mapsto> fee_shares s ?q i + d)" using mv by (auto simp: moves_def fee_shares_def)
  show "fee_shares s' (po_PoolId p') j = po_Liquidity p'"
  proof (cases "j = i")
    case True
    then have "p' = p\<lparr>po_Liquidity := po_Liquidity p + d\<rparr>" using j ch by (simp add: changed_def)
    moreover have "fee_shares s ?q i = po_Liquidity p" using bal p(1) unfolding shares_balance_def by blast
    ultimately show ?thesis using True by (simp add: fee_shares_def n)
  next
    case False
    then have "GetPosition s j = Some p'" using j ch by (simp add: changed_def)
    then have "fee_shares s (po_PoolId p') j = po_Liquidity p'" using bal unfolding shares_balance_def by blast
    then show ?thesis using False by (simp add: fee_shares_def n pos_key_inject)
  qed
next
  let ?q = "po_PoolId p"
  fix r j
  assume r: "nums s' (share_key r j) \<noteq> None"
  have n: "nums s' = (nums s)(share_key ?q i \<mapsto> fee_shares s ?q i + d)" using mv by (auto simp: moves_def fee_shares_def)
  show "\<exists>p'. GetPosition s' j = Some p' \<and> po_PoolId p' = r"
  proof (cases "r = ?q \<and> j = i")
    case True
    then show ?thesis using ch by (simp add: changed_def)
  next
    case False
    then have "nums s (share_key r j) \<noteq> None" using r by (simp add: n pos_key_inject split: if_splits)
    then obtain p' where "GetPosition s j = Some p'" "po_PoolId p' = r" using bal unfolding shares_balance_def by blast
    then show ?thesis using ch p(1) by (cases "j = i") (auto simp: changed_def)
  qed
qed

text \<open>What \<^verbatim>\<open>UpdatePosition\<close> does to the stores.\<close>

lemma UpdatePosition_effects:
  assumes st: "stores_ok s" "pools_ok s" "ticks_ok s" and p: "GetPosition s i = Some p" "po_Id p = i"
    and lu: "int64 l" "int64 u" "l < u"
    and run: "UpdatePosition x q l u d i s = Inr (b, c, le, ue, s')"
  shows "stores_ok s' \<and> pools_ok s' \<and> ticks_ok s'" "changed s s' i p d" "0 \<le> po_Liquidity p + d"
    "int64 t \<Longrightarrow> tick_gross s' r t = tick_gross s r t + (if r = q \<and> (t = l \<or> t = u) then d else 0)"
    "int64 t \<Longrightarrow> tick_net s' r t = tick_net s r t + (if r = q \<and> t = l then d else if r = q \<and> t = u then - d else 0)"
    "possum g s' = possum g s - g p + g (p\<lparr>po_Liquidity := po_Liquidity p + d\<rparr>)"
    "moves s s' (KeyFeePoolAccumulator q) (share_key q i) d"
    "le \<Longrightarrow> tick_gross s' q l = 0 \<and> tick_net s' q l = 0" "ue \<Longrightarrow> tick_gross s' q u = 0 \<and> tick_net s' q u = 0"
proof -
  note sto = st(1) [unfolded stores_ok_def]
  obtain s1 s2 pool p' ab aq s3 where s: "initOrUpdateTick q l d False s = Inr (le, s1)" "initOrUpdateTick q u d True s1 = Inr (ue, s2)"
    "GetPool s2 q = Some pool" "GetPosition s2 i = Some p'" "0 \<le> po_Liquidity p' + d"
    "CalcActualAmounts (lx_dec x) pool l u d = Inr (ab, aq)"
    "s3 = SetPool (fst (UpdateLiquidityIfActivePosition pool l u d)) (SetPosition (p'\<lparr>po_Liquidity := po_Liquidity p' + d\<rparr>) s2)"
    "SetAccumulatorPositionFeeAccumulator x q l u i d s3 = Inr s'"
    by (rule UpdatePosition_steps [OF run])
  obtain t1 where t1: "s1 = SetTickInfo t1 s" "ti_PoolId t1 = q" "ti_TickIndex t1 = l"
    "ti_LiquidityGross t1 = tick_gross s q l + d" "ti_LiquidityNet t1 = tick_net s q l + (if False then - d else d)"
    "le \<longleftrightarrow> ti_LiquidityGross t1 = 0 \<and> ti_LiquidityNet t1 = 0"
    by (rule initOrUpdateTick_effect [OF st(3) lu(1) s(1)])
  have ok1: "ticks_ok s1" "kv_ok (ls_ticks s1)" using ticks_ok_SetTickInfo [OF _ st(3)] t1 lu sto by simp_all
  obtain t2 where t2: "s2 = SetTickInfo t2 s1" "ti_PoolId t2 = q" "ti_TickIndex t2 = u"
    "ti_LiquidityGross t2 = tick_gross s1 q u + d" "ti_LiquidityNet t2 = tick_net s1 q u + (if True then - d else d)"
    "ue \<longleftrightarrow> ti_LiquidityGross t2 = 0 \<and> ti_LiquidityNet t2 = 0"
    by (rule initOrUpdateTick_effect [OF ok1(1) lu(2) s(2)])
  have pp: "p' = p" "GetPool s q = Some pool" using s(3,4) p t1(1) t2(1) by simp_all
  have pid: "pl_Id pool = q" using st(2) pp(2) by (simp add: pools_ok_def)
  have core: "core s' = core s3" by (rule SetAccumulatorPositionFeeAccumulator_core [OF s(8)])
  note f = core_fields [OF core] core_sums [OF core]
  have "accums_ok s3" using sto s(7) t1 t2 by simp
  from SetAccumulatorPositionFeeAccumulator_moves [OF this s(8)]
  show mv: "moves s s' (KeyFeePoolAccumulator q) (share_key q i) d" using s(7) t1(1) t2(1) by (simp add: moves_def)
  show "possum g s' = possum g s - g p + g (p\<lparr>po_Liquidity := po_Liquidity p + d\<rparr>)"
    using sto p pp(1) by (simp add: f s(7) t1(1) t2(1) possum_SetPosition)
  show "changed s s' i p d"
    using sto pp pid p(2) by (auto simp: changed_def f s(7) t1(1) t2(1) GetPosition_SetPosition GetPool_SetPool)
  show "0 \<le> po_Liquidity p + d" using s(5) pp(1) by simp
  have tk: "tick_gross s' r t = tick_gross s r t + (if r = q \<and> (t = l \<or> t = u) then d else 0)"
     "tick_net s' r t = tick_net s r t + (if r = q \<and> t = l then d else if r = q \<and> t = u then - d else 0)" if "int64 t" for r t
    using that lu t1 t2 sto ok1(2) by (auto simp: f s(7) tick_SetTickInfo)
  show "int64 t \<Longrightarrow> tick_gross s' r t = tick_gross s r t + (if r = q \<and> (t = l \<or> t = u) then d else 0)"
    "int64 t \<Longrightarrow> tick_net s' r t = tick_net s r t + (if r = q \<and> t = l then d else if r = q \<and> t = u then - d else 0)" by (fact tk)+
  show "le \<Longrightarrow> tick_gross s' q l = 0 \<and> tick_net s' q l = 0" using t1(4-6) lu by (simp add: tk)
  show "ue \<Longrightarrow> tick_gross s' q u = 0 \<and> tick_net s' q u = 0" using t2(4-6) lu sto t1 by (auto simp: tk tick_SetTickInfo)
  have "stores_ok s'" using sto mv s(7) t1(1) t2(1) by (simp add: stores_ok_def f moves_def)
  moreover have "pools_ok s'" using st(2) pid pp(2) sto by (auto simp: pools_ok_def f s(7) t1(1) t2(1) GetPool_SetPool)
  moreover have "ticks_ok s2" using ticks_ok_SetTickInfo [OF ok1(2,1)] t2 lu by simp
  then have "ticks_ok s'" by (simp add: ticks_ok_def f s(7))
  ultimately show "stores_ok s' \<and> pools_ok s' \<and> ticks_ok s'" by blast
qed

lemma UpdatePosition_book:
  assumes book: "book s" and p: "GetPosition s i = Some p" and q: "po_PoolId p = q" "po_LowerTick p = l" "po_UpperTick p = u"
    and run: "UpdatePosition x q l u d i s = Inr (b, c, le, ue, s')"
  shows "book s'" "changed s s' i p d" "0 \<le> po_Liquidity p + d"
    "le \<Longrightarrow> tick_gross s' q l = 0 \<and> tick_net s' q l = 0" "ue \<Longrightarrow> tick_gross s' q u = 0 \<and> tick_net s' q u = 0"
    "nums s' (share_key q i) \<noteq> None"
proof -
  have ok: "position_ok s i p" using book p by (simp add: book_def positions_ok_def)
  then have lu: "int64 l" "int64 u" "l < u" and i: "po_Id p = i" using q by (auto simp: position_ok_def)
  have st: "stores_ok s" "pools_ok s" "ticks_ok s" using book by (simp_all add: book_def)
  note e = UpdatePosition_effects [OF st p i lu run]
  show "changed s s' i p d" "0 \<le> po_Liquidity p + d" by (fact e)+
  show "nums s' (share_key q i) \<noteq> None" using e(7) by (auto simp: moves_def)
  show "le \<Longrightarrow> tick_gross s' q l = 0 \<and> tick_net s' q l = 0" "ue \<Longrightarrow> tick_gross s' q u = 0 \<and> tick_net s' q u = 0" by (fact e)+
  have "positions_ok s'"
    using book e(2,3) ok i unfolding book_def positions_ok_def position_ok_def changed_def by (simp del: not_None_eq)
  moreover have "ticks_balance s'" using book lu q by (auto simp: book_def ticks_balance_def e(4-6) at_changed)
  moreover have "shares_balance s'"
  proof (rule shares_balance_moves [OF _ p(1) _ _ e(2)])
    show "shares_balance s" using book by (simp add: book_def)
    show "GetPool s (po_PoolId p) \<noteq> None" using ok by (simp add: position_ok_def)
    show "moves s s' (KeyFeePoolAccumulator (po_PoolId p)) (share_key (po_PoolId p) i) d" using e(7) q(1) by simp
  qed (auto simp: e(6) at_changed)
  ultimately show "book s'" using e(1) by (simp add: book_def)
qed

section \<open>New and removed positions\<close>

lemma at_zero: "po_Liquidity p = 0 \<Longrightarrow> gross_at q t p = 0 \<and> net_at q t p = 0 \<and> liquidity_in q p = 0"
  by (simp add: gross_at_def net_at_def liquidity_in_def)

lemma SetPositionCount_others [simp]:
  "GetPool (SetPositionCount n s) = GetPool s" "GetPosition (SetPositionCount n s) = GetPosition s"
  "GetPositionCount (SetPositionCount n s) = n" "possum f (SetPositionCount n s) = possum f s"
  "tot (SetPositionCount n s) = tot s" "nums (SetPositionCount n s) = nums s"
  "stores_ok (SetPositionCount n s) = stores_ok s" "ticks_ok (SetPositionCount n s) = ticks_ok s"
  "tick_gross (SetPositionCount n s) = tick_gross s" "tick_net (SetPositionCount n s) = tick_net s"
  "ls_bank (SetPositionCount n s) = ls_bank s" "ls_byPool (SetPositionCount n s) = ls_byPool s"
  "ls_pools (SetPositionCount n s) = ls_pools s"
  by (simp_all add: SetPositionCount_def GetPool_def GetPosition_def GetPositionCount_def possum_def tot_def nums_def stores_ok_def
      accums_ok_def ticks_ok_def tick_gross_def tick_net_def fun_eq_iff)

lemma next_number: "n \<noteq> - 1 \<Longrightarrow> i \<le> n \<Longrightarrow> i < n + 1" for i n :: uint64
proof -
  assume n: "n \<noteq> - 1" "i \<le> n"
  have "unat n \<noteq> unat (- 1 :: uint64)" using n(1) by (metis word_unat_eq_iff)
  moreover have "unat n < 2 ^ 64" using unsigned_less [of n] by simp
  moreover have "unat (- 1 :: uint64) = 2 ^ 64 - 1" by (simp add: unsigned_minus_1_eq_mask mask_eq_exp_minus_1)
  ultimately have "unat n + 1 < 2 ^ 64" by linarith
  then have "unat (n + 1) = unat n + 1" by (simp add: unat_word_ariths)
  then show ?thesis using n(2) by (simp add: word_less_nat_alt word_le_nat_alt)
qed

lemma AppendPosition_book:
  assumes book: "book s" and new: "AppendPosition p s = (n, s')" and cnt: "GetPositionCount s \<noteq> - 1"
    and p: "po_Liquidity p = 0" "int64 (po_LowerTick p)" "int64 (po_UpperTick p)" "po_LowerTick p < po_UpperTick p"
      "GetPool s (po_PoolId p) \<noteq> None"
  shows "book s'" "GetPosition s n = None" "GetPosition s' = (GetPosition s)(n \<mapsto> p\<lparr>po_Id := n\<rparr>)"
    "GetPool s' = GetPool s" "GetPositionCount s' = n + 1" "ls_bank s' = ls_bank s"
proof -
  have n: "n = GetPositionCount s" and s': "s' = SetPositionCount (n + 1) (SetPosition (p\<lparr>po_Id := n\<rparr>) s)"
    using new by (auto simp: AppendPosition_def Let_def)
  have lt: "i < n + 1" if "i \<le> n" for i using that next_number cnt n by blast
  show fresh: "GetPosition s n = None"
    using book n by (cases "GetPosition s n") (auto simp: book_def positions_ok_def position_ok_def)
  have k: "kv_ok (ls_positions s)" using book by (simp add: book_defs)
  show gp: "GetPosition s' = (GetPosition s)(n \<mapsto> p\<lparr>po_Id := n\<rparr>)" by (auto simp: s' GetPosition_SetPosition [OF k])
  show gpool: "GetPool s' = GetPool s" "GetPositionCount s' = n + 1" "ls_bank s' = ls_bank s" by (simp_all add: s')
  have ps: "possum f s' = possum f s + f (p\<lparr>po_Id := n\<rparr>)" for f by (simp add: s' possum_SetPosition [OF k] fresh)
  let ?p = "p\<lparr>po_Id := n\<rparr>"
  have z: "gross_at q t ?p = 0" "net_at q t ?p = 0" "liquidity_in q ?p = 0" for q t using at_zero [of ?p] p(1) by auto
  have "stores_ok s'" using book by (simp add: s' book_def) (simp add: stores_ok_def)
  moreover have "pools_ok s'" "ticks_ok s'" using book by (simp_all add: book_def pools_ok_def gpool) (simp add: s')
  moreover have "positions_ok s'"
    unfolding positions_ok_def
  proof (intro allI impI)
    fix i r
    assume r: "GetPosition s' i = Some r"
    show "position_ok s' i r"
    proof (cases "i = n")
      case True
      then show ?thesis using r p lt by (auto simp: position_ok_def gp gpool)
    next
      case False
      then have "position_ok s i r" using book r by (simp add: book_def positions_ok_def gp)
      then show ?thesis using lt less_imp_le [of i n] n unfolding position_ok_def gpool by blast
    qed
  qed
  moreover have "ticks_balance s'" using book by (simp add: book_def ticks_balance_def ps z) (simp add: s')
  moreover have "shares_balance s'"
  proof -
    have none: "nums s (share_key q n) = None" for q
      using book fresh unfolding book_def shares_balance_def by (metis option.distinct(1))
    then have "fee_shares s' q n = 0" for q by (simp add: fee_shares_def s')
    moreover have "fee_shares s' = fee_shares s" "tot s' = tot s" "nums s' = nums s" by (simp_all add: fee_shares_def s' fun_eq_iff)
    ultimately show ?thesis
      using book p(1) none fresh unfolding book_def shares_balance_def gp gpool by (auto simp: ps z)
  qed
  ultimately show "book s'" by (simp add: book_def)
qed

lemma RemovePosition_book:
  assumes book: "book s" and p: "GetPosition s i = Some p" "po_Liquidity p = 0" and gone: "nums s (share_key (po_PoolId p) i) = None"
  shows "book (RemovePosition i s)" "GetPosition (RemovePosition i s) = (GetPosition s)(i := None)"
proof -
  let ?s = "RemovePosition i s"
  have k: "kv_ok (ls_positions s)" using book by (simp add: book_defs)
  show gp: "GetPosition ?s = (GetPosition s)(i := None)" using k by (auto simp: GetPosition_def RemovePosition_def)
  have same: "GetPool ?s = GetPool s" "GetPositionCount ?s = GetPositionCount s" "tot ?s = tot s" "nums ?s = nums s"
      "tick_gross ?s = tick_gross s" "tick_net ?s = tick_net s" "ticks_ok ?s = ticks_ok s" "fee_shares ?s = fee_shares s"
    by (simp_all add: RemovePosition_def GetPool_def GetPositionCount_def tot_def nums_def tick_gross_def tick_net_def ticks_ok_def
        fee_shares_def fun_eq_iff)
  have z: "gross_at q t p = 0" "net_at q t p = 0" "liquidity_in q p = 0" for q t using at_zero [of p] p(2) by auto
  have ps: "f p = 0 \<Longrightarrow> possum f ?s = possum f s" for f by (simp add: possum_RemovePosition [OF k] p(1))
  have "stores_ok ?s" using book by (simp add: book_defs RemovePosition_def accums_ok_def)
  moreover have "pools_ok ?s" "ticks_ok ?s" "positions_ok ?s"
    using book unfolding book_def pools_ok_def positions_ok_def position_ok_def same gp by auto
  moreover have "ticks_balance ?s" using book by (simp add: book_def ticks_balance_def ps z same)
  moreover have "shares_balance ?s"
  proof -
    have "\<exists>p'. GetPosition ?s j = Some p' \<and> po_PoolId p' = q" if n: "nums s (share_key q j) \<noteq> None" for q j
    proof -
      obtain p' where p': "GetPosition s j = Some p'" "po_PoolId p' = q" using book n unfolding book_def shares_balance_def by blast
      then have "j \<noteq> i" using gone n p(1) by auto
      then show ?thesis using p' by (simp add: gp)
    qed
    then show ?thesis using book unfolding book_def shares_balance_def same gp by (auto simp: ps z)
  qed
  ultimately show "book ?s" by (simp add: book_def)
qed

lemma RemoveTickInfo_book:
  assumes book: "book s" and t: "int64 t" "tick_gross s q t = 0" "tick_net s q t = 0"
  shows "book (RemoveTickInfo q t s)" "GetPosition (RemoveTickInfo q t s) = GetPosition s"
    "int64 u \<Longrightarrow> tick_gross (RemoveTickInfo q t s) r u = tick_gross s r u" "int64 u \<Longrightarrow> tick_net (RemoveTickInfo q t s) r u = tick_net s r u"
proof -
  let ?s = "RemoveTickInfo q t s"
  have k: "kv_ok (ls_ticks s)" using book by (simp add: book_defs)
  have tk: "tick_gross ?s r u = tick_gross s r u" "tick_net ?s r u = tick_net s r u" if "int64 u" for r u
    using t that by (auto simp: tick_RemoveTickInfo [OF k])
  then show "int64 u \<Longrightarrow> tick_gross ?s r u = tick_gross s r u" "int64 u \<Longrightarrow> tick_net ?s r u = tick_net s r u" by blast+
  have same: "GetPool ?s = GetPool s" "GetPosition ?s = GetPosition s" "GetPositionCount ?s = GetPositionCount s" "tot ?s = tot s" "nums ?s = nums s"
      "\<And>f. possum f ?s = possum f s" "fee_shares ?s = fee_shares s"
    by (simp_all add: RemoveTickInfo_def GetPool_def GetPosition_def GetPositionCount_def tot_def nums_def possum_def fee_shares_def fun_eq_iff)
  then show "GetPosition ?s = GetPosition s" by blast
  have "stores_ok ?s" using book by (simp add: book_defs RemoveTickInfo_def accums_ok_def)
  moreover have "ticks_ok ?s" using book k by (auto simp: book_def ticks_ok_def RemoveTickInfo_def split: if_splits)
  ultimately show "book ?s"
    using book unfolding book_def pools_ok_def positions_ok_def position_ok_def ticks_balance_def shares_balance_def by (simp add: same tk)
qed

end
