(* ===== verification/LpOps.thy ===== *)
theory LpOps
  imports LpBook
begin

text \<open>
  Every message of the liquidity pool keeps the books, and changes positions of its sender only.
\<close>

section \<open>Opening a position\<close>

text \<open>The steps of \<^verbatim>\<open>CreatePosition\<close> when it succeeds.\<close>

lemma CreatePosition_steps:
  assumes "CreatePosition x msg s = Inr (r, s')"
  obtains sender pool pool' s0 lo hi d n s1 b c le ue s2 coins pos where
    "lx_accAddress x (mc_Sender msg) = Inr sender" "GetPool s (mc_PoolId msg) = Some pool" "CreatePosition_checks pool msg = Inr ()"
    "TicksToSqrtPrice (lx_dec x) (mc_LowerTick msg) (mc_UpperTick msg) (pl_TickParams pool) = Inr (lo, hi)"
    "(if \<not> HasPosition_pl pool then initFirstPositionForPool x pool (c_Amount (mc_TokenBase msg)) (c_Amount (mc_TokenQuote msg)) s = Inr s0
      else s0 = s)" "GetPool s0 (mc_PoolId msg) = Some pool'"
    "GetLiquidityFromAmounts (lx_dec x) (pl_CurrentSqrtPrice pool') lo hi (c_Amount (mc_TokenBase msg)) (c_Amount (mc_TokenQuote msg)) = Inr d"
    "d \<noteq> 0"
    "AppendPosition \<lparr>po_Id = 0, po_Address = mc_Sender msg, po_PoolId = mc_PoolId msg, po_LowerTick = mc_LowerTick msg,
       po_UpperTick = mc_UpperTick msg, po_Liquidity = 0\<rparr> s0 = (n, s1)"
    "UpdatePosition x (mc_PoolId msg) (mc_LowerTick msg) (mc_UpperTick msg) d n s1 = Inr (b, c, le, ue, s2)"
    "mc_MinAmountBase msg \<le> b" "mc_MinAmountQuote msg \<le> c"
    "two_coins x (c_Denom (mc_TokenBase msg)) b (c_Denom (mc_TokenQuote msg)) c = Inr coins"
    "send_lp x sender (GetAddress x pool') coins s2 = Inr s'" "GetPosition s' n = Some pos"
    "r = \<lparr>cr_Id = n, cr_AmountBase = b, cr_AmountQuote = c, cr_Liquidity = po_Liquidity pos\<rparr>"
proof -
  let ?base = "c_Amount (mc_TokenBase msg)" and ?quote = "c_Amount (mc_TokenQuote msg)"
  let ?p0 = "\<lparr>po_Id = 0, po_Address = mc_Sender msg, po_PoolId = mc_PoolId msg, po_LowerTick = mc_LowerTick msg,
    po_UpperTick = mc_UpperTick msg, po_Liquidity = 0\<rparr>"
  from assms obtain sender where 1: "lx_accAddress x (mc_Sender msg) = Inr sender" unfolding CreatePosition_def by (rule bindR_E)
  note a = assms [unfolded CreatePosition_def 1 bindR_simps]
  from a obtain pool where 2: "GetPool s (mc_PoolId msg) = Some pool" by (cases "GetPool s (mc_PoolId msg)") simp_all
  note a = a [unfolded 2 option.case Let_def]
  from a obtain u where 3: "CreatePosition_checks pool msg = Inr u" by (rule bindR_E)
  note a = a [unfolded 3 bindR_simps]
  from a obtain lh where 4: "TicksToSqrtPrice (lx_dec x) (mc_LowerTick msg) (mc_UpperTick msg) (pl_TickParams pool) = Inr lh" by (rule bindR_E)
  obtain lo hi where lh: "lh = (lo, hi)" by (cases lh)
  note a = a [unfolded 4 lh bindR_simps prod.case]
  from a obtain ps where 5: "(if \<not> HasPosition_pl pool then bindR (initFirstPositionForPool x pool ?base ?quote s)
      (\<lambda>s. case GetPool s (mc_PoolId msg) of None \<Rightarrow> Inl (Panic ''nil pool'') | Some pool \<Rightarrow> Inr (pool, s)) else Inr (pool, s)) = Inr ps"
    by (rule bindR_E)
  obtain pool' s0 where ps: "ps = (pool', s0)" by (cases ps)
  note a = a [unfolded 5 ps bindR_simps prod.case]
  have 6: "if \<not> HasPosition_pl pool then initFirstPositionForPool x pool ?base ?quote s = Inr s0 else s0 = s"
      "GetPool s0 (mc_PoolId msg) = Some pool'"
    using 5 2 unfolding ps by (auto split: if_splits option.splits elim!: bindR_E)
  from a obtain d where 7: "GetLiquidityFromAmounts (lx_dec x) (pl_CurrentSqrtPrice pool') lo hi ?base ?quote = Inr d" by (rule bindR_E)
  note a = a [unfolded 7 bindR_simps]
  then have 8: "d \<noteq> 0" by auto
  obtain n s1 where 9: "AppendPosition ?p0 s0 = (n, s1)" by (cases "AppendPosition ?p0 s0")
  note a = a [unfolded if_not_P [OF 8] 9 prod.case]
  from a obtain res where "UpdatePosition x (mc_PoolId msg) (mc_LowerTick msg) (mc_UpperTick msg) d n s1 = Inr res" by (rule bindR_E)
  moreover obtain b c le ue s2 where "res = (b, c, le, ue, s2)" by (cases res)
  ultimately have 10: "UpdatePosition x (mc_PoolId msg) (mc_LowerTick msg) (mc_UpperTick msg) d n s1 = Inr (b, c, le, ue, s2)" by simp
  note a = a [unfolded 10 bindR_simps prod.case]
  then have m: "mc_MinAmountBase msg \<le> b" "mc_MinAmountQuote msg \<le> c" by (auto simp: not_less split: if_splits)
  note a = a [unfolded if_not_P [OF m(1) [unfolded not_less [symmetric]]] if_not_P [OF m(2) [unfolded not_less [symmetric]]]]
  then obtain coins pos where "two_coins x (c_Denom (mc_TokenBase msg)) b (c_Denom (mc_TokenQuote msg)) c = Inr coins"
      "send_lp x sender (GetAddress x pool') coins s2 = Inr s'" "GetPosition s' n = Some pos"
      "r = \<lparr>cr_Id = n, cr_AmountBase = b, cr_AmountQuote = c, cr_Liquidity = po_Liquidity pos\<rparr>"
    by (auto elim!: bindR_E split: option.splits)
  then show thesis by (intro that [OF 1 2 _ _ 6 7 8 9 10 m]) (simp_all add: 3 4 lh)
qed

lemma CreatePosition_checks_ticks:
  assumes "CreatePosition_checks pool msg = Inr u"
  shows "int64 (mc_LowerTick msg)" "int64 (mc_UpperTick msg)" "mc_LowerTick msg < mc_UpperTick msg"
  using assms by (auto simp: CreatePosition_checks_def checkTicks_def on_err_def TICK_MIN_def TICK_MAX_def int64_def
      split: if_splits sum.splits fault.splits elim!: bindR_E)

lemma initFirst_SetPool:
  "initFirstPositionForPool x pool b q s = Inr s' \<Longrightarrow> \<exists>p t. s' = SetPool (pool\<lparr>pl_CurrentSqrtPrice := p, pl_CurrentTick := t\<rparr>) s"
  by (auto simp: initFirstPositionForPool_def split: if_splits elim!: bindR_E)

lemma CreatePosition_book:
  assumes book: "book s" and cnt: "GetPositionCount s \<noteq> - 1" and run: "CreatePosition x msg s = Inr (r, s')"
  shows "book s'" "GetPosition s (cr_Id r) = None" "GetPositionCount s' = GetPositionCount s + 1"
    "GetPosition s' = (GetPosition s)(cr_Id r \<mapsto> \<lparr>po_Id = cr_Id r, po_Address = mc_Sender msg, po_PoolId = mc_PoolId msg,
       po_LowerTick = mc_LowerTick msg, po_UpperTick = mc_UpperTick msg, po_Liquidity = cr_Liquidity r\<rparr>)"
    "0 < cr_Liquidity r" "cr_Id r = GetPositionCount s"
proof -
  let ?p0 = "\<lparr>po_Id = 0, po_Address = mc_Sender msg, po_PoolId = mc_PoolId msg, po_LowerTick = mc_LowerTick msg,
    po_UpperTick = mc_UpperTick msg, po_Liquidity = 0\<rparr>"
  obtain sender pool pool' s0 lo hi d n s1 b c le ue s2 coins pos where
    c: "GetPool s (mc_PoolId msg) = Some pool" "CreatePosition_checks pool msg = Inr ()"
    "if \<not> HasPosition_pl pool then initFirstPositionForPool x pool (c_Amount (mc_TokenBase msg)) (c_Amount (mc_TokenQuote msg)) s = Inr s0
      else s0 = s" "GetPool s0 (mc_PoolId msg) = Some pool'" "d \<noteq> 0" "AppendPosition ?p0 s0 = (n, s1)"
    "UpdatePosition x (mc_PoolId msg) (mc_LowerTick msg) (mc_UpperTick msg) d n s1 = Inr (b, c, le, ue, s2)"
    "send_lp x sender (GetAddress x pool') coins s2 = Inr s'" "GetPosition s' n = Some pos"
    "r = \<lparr>cr_Id = n, cr_AmountBase = b, cr_AmountQuote = c, cr_Liquidity = po_Liquidity pos\<rparr>"
    by (rule CreatePosition_steps [OF run]) blast
  note ticks = CreatePosition_checks_ticks [OF c(2)]
  have pid: "pl_Id pool = mc_PoolId msg" using book c(1) by (simp add: book_def pools_ok_def)
  have "\<exists>p t. s0 = SetPool (pool\<lparr>pl_CurrentSqrtPrice := p, pl_CurrentTick := t\<rparr>) s \<or> s0 = s"
    using c(3) initFirst_SetPool by (fastforce split: if_splits)
  then have b0: "book s0" "GetPosition s0 = GetPosition s" "GetPositionCount s0 = GetPositionCount s"
    using book book_SetPool [OF book] c(1) pid by auto
  note ap = AppendPosition_book [OF b0(1) c(6) cnt [folded b0(3)], simplified, OF ticks, unfolded c(4), simplified]
  have p1: "GetPosition s1 n = Some (?p0\<lparr>po_Id := n\<rparr>)" using ap(3) by simp
  note up = UpdatePosition_book [OF ap(1) p1 _ _ _ c(7), simplified]
  have core: "core s' = core s2" by (rule send_core [OF c(8)])
  have "accums_ok s2" using up(1) by (simp add: book_defs)
  then show "book s'" using book_keeps [OF up(1) core] settles_keeps send_settles c(8) by blast
  have n: "n = GetPositionCount s" using c(6) b0(3) by (auto simp: AppendPosition_def Let_def)
  have g: "GetPosition s' = (GetPosition s)(n \<mapsto> ?p0\<lparr>po_Id := n, po_Liquidity := d\<rparr>)" "GetPositionCount s' = n + 1"
    using up(2) ap(3,5) b0(2) core_fields(10) [OF core] core_sums(4) [OF core] by (auto simp: changed_def)
  then have pos: "po_Liquidity pos = d" using c(9) by auto
  show "GetPosition s (cr_Id r) = None" using ap(2) b0(2) c(10) by simp
  show "GetPositionCount s' = GetPositionCount s + 1" using g(2) n by simp
  show "GetPosition s' = (GetPosition s)(cr_Id r \<mapsto> \<lparr>po_Id = cr_Id r, po_Address = mc_Sender msg, po_PoolId = mc_PoolId msg,
      po_LowerTick = mc_LowerTick msg, po_UpperTick = mc_UpperTick msg, po_Liquidity = cr_Liquidity r\<rparr>)"
    using g(1) pos c(10) by simp
  show "0 < cr_Liquidity r" "cr_Id r = GetPositionCount s" using up(3) c(5,10) pos n by simp_all
qed

section \<open>Closing a position\<close>

lemma not_neq: "a = b \<Longrightarrow> \<not> a \<noteq> b"
  by simp

lemma DecreaseLiquidity_steps:
  assumes "DecreaseLiquidity x sender i liq s = Inr (b, c, s')"
  obtains p pool b' c' le ue s1 coins s2 s3 where "GetPosition s i = Some p" "lx_accString x sender = po_Address p" "0 \<le> liq"
    "liq \<le> po_Liquidity p" "GetPool s (po_PoolId p) = Some pool"
    "UpdatePosition x (po_PoolId p) (po_LowerTick p) (po_UpperTick p) (- liq) i s = Inr (b', c', le, ue, s1)" "b = \<bar>b'\<bar>" "c = \<bar>c'\<bar>"
    "two_coins x (pl_DenomBase pool) b (pl_DenomQuote pool) c = Inr coins"
    "send_lp x (GetAddress x pool) sender coins s1 = Inr s2"
    "if liq = po_Liquidity p then close_position x sender i pool p s2 = Inr s3 else s3 = s2" "s' = drop_ticks le ue p s3"
proof -
  from assms obtain p where p: "GetPosition s i = Some p" by (cases "GetPosition s i") (simp_all add: DecreaseLiquidity_def)
  note a = assms [unfolded DecreaseLiquidity_def p option.case]
  have g: "lx_accString x sender = po_Address p" "0 \<le> liq" "liq \<le> po_Liquidity p" using a by (auto split: if_splits)
  note a = a [unfolded if_not_P [OF g(1) [THEN not_neq]] if_not_P [OF g(2) [folded not_less]] if_not_P [OF g(3) [folded not_less]]]
  then obtain pool where pool: "GetPool s (po_PoolId p) = Some pool" by (cases "GetPool s (po_PoolId p)") simp_all
  note a = a [unfolded pool option.case]
  from a obtain b' c' le ue s1 where up: "UpdatePosition x (po_PoolId p) (po_LowerTick p) (po_UpperTick p) (- liq) i s = Inr (b', c', le, ue, s1)"
    by (auto elim!: bindR_E)
  note a = a [unfolded up bindR_simps prod.case]
  from a obtain coins s2 s3 where f: "two_coins x (pl_DenomBase pool) \<bar>b'\<bar> (pl_DenomQuote pool) \<bar>c'\<bar> = Inr coins"
      "send_lp x (GetAddress x pool) sender coins s1 = Inr s2"
      "(if liq = po_Liquidity p then close_position x sender i pool p s2 else Inr s2) = Inr s3"
      "b = \<bar>b'\<bar>" "c = \<bar>c'\<bar>" "s' = drop_ticks le ue p s3"
    by (auto elim!: bindR_E)
  have "if liq = po_Liquidity p then close_position x sender i pool p s2 = Inr s3 else s3 = s2" using f(3) by (auto split: if_splits)
  then show thesis using f(1) by (intro that [OF p g pool up f(4,5) _ f(2) _ f(6)]) (simp_all add: f(4,5))
qed

text \<open>An index entry of the position keeps the pool from looking empty.\<close>

lemma PoolHasPosition_kept:
  "PoolHasPosition s q \<Longrightarrow> ls_byPool s' = ls_byPool s \<Longrightarrow> PoolHasPosition s' q"
  by (simp add: PoolHasPosition_def)

lemma close_position_book:
  assumes book: "book s" and p: "GetPosition s i = Some p" "po_Liquidity p = 0" "po_Id p = i"
    and sh: "nums s (share_key (po_PoolId p) i) = Some 0"
    and run: "close_position x sender i pool' p' s = Inr s'" "po_Id p' = i" "po_PoolId p' = po_PoolId p" "pl_Id pool' = po_PoolId p"
  shows "book s'" "GetPosition s' = (GetPosition s)(i := None)" "tick_gross s' = tick_gross s" "tick_net s' = tick_net s"
    "GetPositionCount s' = GetPositionCount s"
proof -
  from run(1) obtain f s1 where s1: "collectFees x sender i s = Inr (f, s1)"
      "s' = RemovePosition i s1 \<or> s' = resetPool pool' (RemovePosition i s1)"
    using run(2) by (auto simp: close_position_def Let_def elim!: bindR_E)
  have acc: "accums_ok s" using book by (simp add: book_defs)
  have core: "core s1 = core s" by (rule collectFees_core [OF s1(1)])
  have cl: "claimed s s1 (share_key (po_PoolId p) i)" by (rule collectFees_claimed [OF acc s1(1) p(1)])
  have b1: "book s1" by (rule book_keeps [OF book core claimed_keeps [OF cl]])
  have p1: "GetPosition s1 i = Some p" using core_fields(10) [OF core] p(1) by simp
  have "nums s1 (share_key (po_PoolId p) i) = None" using cl sh by (simp add: claimed_def)
  note rm = RemovePosition_book [OF b1 p1 p(2) this]
  have same: "tick_gross (RemovePosition i s1) = tick_gross s1" "tick_net (RemovePosition i s1) = tick_net s1"
      "GetPositionCount (RemovePosition i s1) = GetPositionCount s1" "GetPool (RemovePosition i s1) = GetPool s1"
    by (simp_all add: RemovePosition_def tick_gross_def tick_net_def GetPositionCount_def GetPool_def fun_eq_iff)
  have "position_ok s1 i p" using b1 p1 by (simp add: book_def positions_ok_def)
  then have "GetPool (RemovePosition i s1) (pl_Id pool') \<noteq> None" using run(4) by (simp add: position_ok_def same)
  then have "book (resetPool pool' (RemovePosition i s1))" unfolding resetPool_def by (intro book_SetPool [OF rm(1)]) simp
  then show "book s'" using s1(2) rm(1) by auto
  show "GetPosition s' = (GetPosition s)(i := None)" using s1(2) rm(2) core_fields(10) [OF core] by (auto simp: resetPool_def)
  show "tick_gross s' = tick_gross s" "tick_net s' = tick_net s" "GetPositionCount s' = GetPositionCount s"
    using s1(2) same core_sums [OF core] by (auto simp: resetPool_def)
qed

lemma drop_ticks_book:
  assumes "book s" "int64 (po_LowerTick p)" "int64 (po_UpperTick p)"
    and "le \<Longrightarrow> tick_gross s (po_PoolId p) (po_LowerTick p) = 0 \<and> tick_net s (po_PoolId p) (po_LowerTick p) = 0"
    and "ue \<Longrightarrow> tick_gross s (po_PoolId p) (po_UpperTick p) = 0 \<and> tick_net s (po_PoolId p) (po_UpperTick p) = 0"
  shows "book (drop_ticks le ue p s)" "GetPosition (drop_ticks le ue p s) = GetPosition s"
    "GetPositionCount (drop_ticks le ue p s) = GetPositionCount s"
proof -
  let ?s = "if le then RemoveTickInfo (po_PoolId p) (po_LowerTick p) s else s"
  have 1: "book ?s" "GetPosition ?s = GetPosition s" "GetPositionCount ?s = GetPositionCount s"
      "tick_gross ?s (po_PoolId p) (po_UpperTick p) = tick_gross s (po_PoolId p) (po_UpperTick p)"
      "tick_net ?s (po_PoolId p) (po_UpperTick p) = tick_net s (po_PoolId p) (po_UpperTick p)"
    using RemoveTickInfo_book [OF assms(1,2)] assms by (auto simp: RemoveTickInfo_def GetPositionCount_def)
  then show "book (drop_ticks le ue p s)" "GetPosition (drop_ticks le ue p s) = GetPosition s"
    "GetPositionCount (drop_ticks le ue p s) = GetPositionCount s"
    using RemoveTickInfo_book [OF 1(1) assms(3)] assms(5) unfolding drop_ticks_def Let_def
    by (auto simp: RemoveTickInfo_def GetPositionCount_def)
qed

lemma DecreaseLiquidity_book:
  assumes book: "book s" and run: "DecreaseLiquidity x sender i liq s = Inr (b, c, s')"
  shows "book s'" "GetPositionCount s' = GetPositionCount s"
    "\<exists>p. GetPosition s i = Some p \<and> lx_accString x sender = po_Address p \<and> 0 < liq \<and> liq \<le> po_Liquidity p
      \<and> GetPosition s' = (GetPosition s)(i := if liq = po_Liquidity p then None else Some (p\<lparr>po_Liquidity := po_Liquidity p - liq\<rparr>))"
proof -
  obtain p pool b' c' le ue s1 coins s2 s3 where d: "GetPosition s i = Some p" "lx_accString x sender = po_Address p" "0 \<le> liq"
    "liq \<le> po_Liquidity p" "GetPool s (po_PoolId p) = Some pool"
    "UpdatePosition x (po_PoolId p) (po_LowerTick p) (po_UpperTick p) (- liq) i s = Inr (b', c', le, ue, s1)"
    "send_lp x (GetAddress x pool) sender coins s1 = Inr s2"
    "if liq = po_Liquidity p then close_position x sender i pool p s2 = Inr s3 else s3 = s2" "s' = drop_ticks le ue p s3"
    by (rule DecreaseLiquidity_steps [OF run]) blast
  have pok: "po_Id p = i" "int64 (po_LowerTick p)" "int64 (po_UpperTick p)" "pl_Id pool = po_PoolId p"
    using book d(1,5) by (auto simp: book_def positions_ok_def position_ok_def pools_ok_def)
  note up = UpdatePosition_book [OF book d(1) refl refl refl d(6)]
  let ?p = "p\<lparr>po_Liquidity := po_Liquidity p - liq\<rparr>"
  have core: "core s2 = core s1" by (rule send_core [OF d(7)])
  have acc: "accums_ok s1" using up(1) by (simp add: book_defs)
  have set2: "settles s1 s2" by (rule send_settles [OF acc d(7)])
  have b2: "book s2" by (rule book_keeps [OF up(1) core settles_keeps [OF set2]])
  have g2: "GetPosition s2 = (GetPosition s)(i \<mapsto> ?p)" "GetPositionCount s2 = GetPositionCount s"
    using up(2) core_fields(10) [OF core] core_sums(4) [OF core] by (auto simp: changed_def)
  have nz: "liq \<noteq> 0" using d(6) by (auto simp: CalcActualAmounts_def elim!: UpdatePosition_steps)
  have g3: "book s3" "GetPosition s3 = (GetPosition s)(i := if liq = po_Liquidity p then None else Some ?p)"
      "GetPositionCount s3 = GetPositionCount s" "tick_gross s3 = tick_gross s1" "tick_net s3 = tick_net s1"
  proof -
    have tk: "tick_gross s2 = tick_gross s1" "tick_net s2 = tick_net s1" using core_sums [OF core] by simp_all
    have "book s3 \<and> GetPosition s3 = (GetPosition s)(i := if liq = po_Liquidity p then None else Some ?p)
      \<and> GetPositionCount s3 = GetPositionCount s \<and> tick_gross s3 = tick_gross s2 \<and> tick_net s3 = tick_net s2"
    proof (cases "liq = po_Liquidity p")
      case True
      have p2: "GetPosition s2 i = Some ?p" "po_Liquidity ?p = 0" "po_Id ?p = i" using g2(1) True pok(1) by simp_all
      have "fee_shares s2 (po_PoolId p) i = 0" using b2 p2 unfolding book_def shares_balance_def by fastforce
      moreover have "nums s2 (share_key (po_PoolId p) i) \<noteq> None" using up(6) set2 by (simp add: settles_def)
      ultimately have sh: "nums s2 (share_key (po_PoolId ?p) i) = Some 0" by (auto simp: fee_shares_def)
      have run3: "close_position x sender i pool p s2 = Inr s3" using True d(8) by simp
      have ids: "po_PoolId p = po_PoolId ?p" "pl_Id pool = po_PoolId ?p" using pok(4) by simp_all
      note cp = close_position_book [OF b2 p2 sh run3 pok(1) ids]
      show ?thesis unfolding if_P [OF True] using cp(1,3,4,5) cp(2) [unfolded g2(1) fun_upd_upd] g2(2) by simp
    next
      case False
      then show ?thesis using d(8) b2 g2 by simp
    qed
    then show "book s3" "GetPosition s3 = (GetPosition s)(i := if liq = po_Liquidity p then None else Some ?p)"
      "GetPositionCount s3 = GetPositionCount s" "tick_gross s3 = tick_gross s1" "tick_net s3 = tick_net s1" using tk by simp_all
  qed
  note dt = drop_ticks_book [OF g3(1) pok(2,3), of le ue, unfolded g3(4,5), OF up(4,5), folded d(9)]
  show "book s'" "GetPositionCount s' = GetPositionCount s" using dt g3 by simp_all
  show "\<exists>p. GetPosition s i = Some p \<and> lx_accString x sender = po_Address p \<and> 0 < liq \<and> liq \<le> po_Liquidity p
      \<and> GetPosition s' = (GetPosition s)(i := if liq = po_Liquidity p then None else Some (p\<lparr>po_Liquidity := po_Liquidity p - liq\<rparr>))"
    using d(1-4) nz by (intro exI [of _ p]) (simp add: dt(2) g3(2))
qed

section \<open>The other messages\<close>

lemma SetPosition_same:
  assumes "book s" "GetPosition s i = Some p"
  shows "book (SetPosition p s)" "GetPosition (SetPosition p s) = GetPosition s"
proof -
  have k: "kv_ok (ls_positions s)" using assms(1) by (simp add: book_defs)
  have i: "po_Id p = i" using assms by (simp add: book_def positions_ok_def position_ok_def)
  show gp: "GetPosition (SetPosition p s) = GetPosition s" using assms(2) i by (auto simp: GetPosition_SetPosition [OF k])
  have ps: "possum f (SetPosition p s) = possum f s" for f using assms(2) i by (simp add: possum_SetPosition [OF k])
  show "book (SetPosition p s)"
    using assms(1) unfolding book_def stores_ok_def pools_ok_def positions_ok_def position_ok_def ticks_balance_def shares_balance_def fee_shares_def
    by (simp add: gp ps)
qed

text \<open>
  \<^verbatim>\<open>IncreaseLiquidity\<close> replaces the position by one with another number: it withdraws all of it and opens a new one.
\<close>

lemma IncreaseLiquidity_book:
  assumes book: "book s" and cnt: "GetPositionCount s \<noteq> - 1" and run: "IncreaseLiquidity x msg s = Inr (r, s')"
  shows "book s'" "GetPositionCount s' = GetPositionCount s + 1" "0 < cr_Liquidity r"
    "\<exists>p. GetPosition s (mi_Id msg) = Some p \<and> po_Address p = mi_Sender msg \<and> GetPosition s (cr_Id r) = None
      \<and> GetPosition s' = (GetPosition s)(mi_Id msg := None, cr_Id r \<mapsto> p\<lparr>po_Id := cr_Id r, po_Liquidity := cr_Liquidity r\<rparr>)"
proof -
  from run obtain p where p: "GetPosition s (mi_Id msg) = Some p" by (cases "GetPosition s (mi_Id msg)") (simp_all add: IncreaseLiquidity_def)
  from run p obtain sender b c s1 tb tq where own: "mi_Sender msg = po_Address p"
      and s1: "DecreaseLiquidity x sender (mi_Id msg) (po_Liquidity p) (SetPosition p s) = Inr (b, c, s1)"
      and new: "CreatePosition x \<lparr>mc_Sender = po_Address p, mc_PoolId = po_PoolId p, mc_LowerTick = po_LowerTick p,
        mc_UpperTick = po_UpperTick p, mc_TokenBase = tb, mc_TokenQuote = tq, mc_MinAmountBase = b + mi_MinAmountBase msg,
        mc_MinAmountQuote = c + mi_MinAmountQuote msg\<rparr> s1 = Inr (r, s')"
    by (auto simp: IncreaseLiquidity_def Let_def split: if_splits option.splits elim!: bindR_E)
  note same = SetPosition_same [OF book p]
  note d = DecreaseLiquidity_book [OF same(1) s1]
  have g1: "GetPosition s1 = (GetPosition s)(mi_Id msg := None)" using d(3) p same(2) by auto
  have c1: "GetPositionCount s1 = GetPositionCount s" using d(2) by simp
  note c = CreatePosition_book [OF d(1) _ new, unfolded c1, OF cnt]
  show "book s'" "GetPositionCount s' = GetPositionCount s + 1" "0 < cr_Liquidity r" by (fact c)+
  have "GetPosition s (cr_Id r) = None"
    using book c(6) by (cases "GetPosition s (cr_Id r)") (auto simp: book_def positions_ok_def position_ok_def)
  moreover have "GetPosition s' = (GetPosition s)(mi_Id msg := None, cr_Id r \<mapsto> p\<lparr>po_Id := cr_Id r, po_Liquidity := cr_Liquidity r\<rparr>)"
    using c(4) by (cases p) (simp add: g1)
  ultimately show "\<exists>p. GetPosition s (mi_Id msg) = Some p \<and> po_Address p = mi_Sender msg \<and> GetPosition s (cr_Id r) = None
      \<and> GetPosition s' = (GetPosition s)(mi_Id msg := None, cr_Id r \<mapsto> p\<lparr>po_Id := cr_Id r, po_Liquidity := cr_Liquidity r\<rparr>)"
    using p own by (intro exI [of _ p] conjI) (simp_all only:)
qed

lemma collectFees_book: "book s \<Longrightarrow> collectFees x a i s = Inr (c, s') \<Longrightarrow> book s' \<and> core s' = core s"
proof -
  assume b: "book s" and c: "collectFees x a i s = Inr (c, s')"
  from c obtain p where p: "GetPosition s i = Some p" by (cases "GetPosition s i") (simp_all add: collectFees_def)
  have "accums_ok s" using b by (simp add: book_defs)
  from collectFees_claimed [OF this c p] have "keeps s s'" by (rule claimed_keeps)
  with collectFees_core [OF c] show ?thesis using book_keeps [OF b] by blast
qed

lemma ClaimRewards_msg_book:
  assumes "book s" "ClaimRewards_msg x sender is s = Inr (c, s')"
  shows "book s' \<and> core s' = core s"
proof -
  from assms(2) obtain a where f: "foldR (\<lambda>i (t, s). bindR (collectFees x a i s) (\<lambda>(c, s). bindR (lx_coinsAdd x t c) (\<lambda>t. Inr (t, s))))
      is ([], s) = Inr (c, s')"
    by (auto simp: ClaimRewards_msg_def elim!: bindR_E)
  have "book (snd (c, s')) \<and> core (snd (c, s')) = core s"
    by (rule foldR_invariant [where P = "\<lambda>st. book (snd st) \<and> core (snd st) = core s", OF f])
      (use assms(1) in \<open>auto elim!: bindR_E dest: collectFees_book\<close>)
  then show ?thesis by simp
qed

lemma AllocateIncentive_book:
  assumes "book s" "AllocateIncentive x q sender cs s = Inr s'"
  shows "book s' \<and> core s' = core s"
proof -
  from assms(2) obtain a v s1 pool where s1: "GetFeeAccumulator s q = Inr a" "AddToAccumulator x a v s = Inr s1"
      "send_lp x sender (GetFeesAddress x pool) cs s1 = Inr s'"
    by (auto simp: AllocateIncentive_def split: if_splits option.splits elim!: bindR_E)
  have "accums_ok s" using assms(1) by (simp add: book_defs)
  from AddToAccumulator_settles [OF this s1(1) [unfolded GetFeeAccumulator_def] s1(2)] have 1: "settles s s1" .
  then have "settles s s'" using send_settles [OF _ s1(3)] settles_trans by (auto simp: settles_def)
  moreover have "core s' = core s" using AddToAccumulator_core [OF s1(2)] send_core [OF s1(3)] by simp
  ultimately show ?thesis using book_keeps [OF assms(1)] settles_keeps by blast
qed

lemma possum_zero:
  assumes "kv_ok (ls_positions s)" "\<And>i p. GetPosition s i = Some p \<Longrightarrow> f p = 0"
  shows "possum f s = 0"
proof -
  have "f (snd e) = 0" if "e \<in> set (ls_positions s)" for e
    using that assms(2) kv.get_iff [OF assms(1), of "fst e" "snd e"] by (simp add: GetPosition_def)
  then show ?thesis by (simp add: possum_def sum_list_0 cong: map_cong)
qed

lemma CreatePool_book:
  assumes book: "book s" and run: "CreatePool x msg s = Inr (q, s')"
  shows "book s'" "GetPosition s' = GetPosition s" "GetPool s q = None" "GetPositionCount s' = GetPositionCount s"
proof -
  let ?pool = "\<lambda>fr pr bo. \<lparr>pl_Id = GetPoolCount s, pl_DenomBase = mp_DenomBase msg, pl_DenomQuote = mp_DenomQuote msg, pl_FeeRate = fr,
    pl_TickParams = \<lparr>tp_PriceRatio = pr, tp_BaseOffset = bo\<rparr>, pl_CurrentTick = 0, pl_CurrentTickLiquidity = 0, pl_CurrentSqrtPrice = 0\<rparr>"
  from run obtain fr pr bo z where q: "q = GetPoolCount s"
      and nn: "kv_get (ls_accums (SetPoolCount (q + 1) (SetPool (?pool fr pr bo) s))) (FormatKeyAccumPrefix (KeyFeePoolAccumulator q)) = None"
      and ss: "s' = SetAccumulator \<lparr>ao_Name = KeyFeePoolAccumulator q, ao_AccumValue = z, ao_TotalShares = 0\<rparr>
        (SetPoolCount (q + 1) (SetPool (?pool fr pr bo) s))"
    by (auto simp: CreatePool_def AppendPool_def createFeeAccumulator_def InitAccumulator_def Let_def split: if_splits elim!: bindR_E)
  define pool s1 where pool: "pool = ?pool fr pr bo" and s1: "s1 = SetPoolCount (q + 1) (SetPool pool s)"
  have q: "q = GetPoolCount s" "pl_Id pool = q" using q by (simp_all add: pool)
  note none = nn [folded pool s1] and s' = ss [folded pool s1]
  have k: "kv_ok (ls_pools s)" "kv_ok (ls_positions s)" "accums_ok s" using book by (simp_all add: book_defs)
  have same: "GetPosition s1 = GetPosition s" "GetPositionCount s1 = GetPositionCount s" "tot s1 = tot s" "nums s1 = nums s"
      "tick_gross s1 = tick_gross s" "tick_net s1 = tick_net s" "ls_ticks s1 = ls_ticks s" "possum f s1 = possum f s"
      "stores_ok s1 = stores_ok (SetPool pool s)" "accums_ok s1 = accums_ok s" "GetPool s1 = GetPool (SetPool pool s)" for f
    by (simp_all add: s1 SetPoolCount_def SetPool_def GetPosition_def GetPositionCount_def tot_def nums_def tick_gross_def tick_net_def
        possum_def stores_ok_def accums_ok_def GetPool_def fun_eq_iff)
  have "tot s1 (KeyFeePoolAccumulator q) = None" using none by (simp add: tot_def)
  then have "tot s (KeyFeePoolAccumulator q) = None" by (simp add: same)
  then show fresh: "GetPool s q = None" using book unfolding book_def shares_balance_def by force
  have core: "core s' = core s1" by (simp add: s' core_simps)
  note f = core_fields [OF core] core_sums [OF core]
  have sh: "accums_ok s'" "nums s' = nums s" "tot s' = (tot s)(KeyFeePoolAccumulator q \<mapsto> 0)"
    using SetAccumulator_shares [of s1 "\<lparr>ao_Name = KeyFeePoolAccumulator q, ao_AccumValue = z, ao_TotalShares = 0\<rparr>"] k(3)
    by (simp_all add: s' same)
  have gpool: "GetPool s' = (GetPool s)(q \<mapsto> pool)" using q(2) by (auto simp: f same GetPool_SetPool [OF k(1)])
  show gp: "GetPosition s' = GetPosition s" "GetPositionCount s' = GetPositionCount s" by (simp_all add: f same)
  have in_pool: "GetPool s (po_PoolId p) \<noteq> None" if "GetPosition s i = Some p" for i p
    using book that by (simp add: book_def positions_ok_def position_ok_def)
  then have zero: "possum (liquidity_in q) s = 0" using fresh by (intro possum_zero [OF k(2)]) (metis liquidity_in_def)
  have "stores_ok s'" using book sh(1) by (simp add: book_def stores_ok_def f) (simp add: s1 SetPoolCount_def)
  moreover have "pools_ok s'" using book q(2) by (simp add: book_def pools_ok_def gpool)
  moreover have "positions_ok s'" using book unfolding book_def positions_ok_def position_ok_def gp gpool by auto
  moreover have "ticks_ok s'" "ticks_balance s'" using book by (simp_all add: book_def ticks_ok_def ticks_balance_def f same)
  moreover have "fee_shares s' = fee_shares s" by (simp add: fee_shares_def sh(2) fun_eq_iff)
  then have "shares_balance s'"
    using book zero unfolding book_def shares_balance_def gp gpool sh(2,3) by (auto simp: f same)
  ultimately show "book s'" by (simp add: book_def)
qed

end
