(* ===== verification/LpSwapHelper.thy ===== *)
theory LpSwapHelper
  imports LpFee
begin

text \<open>
  \<^verbatim>\<open>keeper/swap_helper.go\<close>: the two directions of a swap. A helper computes how far the price moves inside one bucket of
  ticks and finds the next initialised tick. An iterator over ticks is the list of the entries it has still to visit, under their keys without
  the prefix of the pool.
\<close>

section \<open>Price limits and fees\<close>

text \<open>The fields are the limit of the square root of the price and the fee rate.\<close>

datatype SwapHelper =
    baseForQuoteHelper dec dec
  | quoteForBaseHelper dec dec

definition NewHelper :: "bool \<Rightarrow> dec \<Rightarrow> dec \<Rightarrow> SwapHelper" where
  "NewHelper baseForQuote limit rate =
     (if baseForQuote then baseForQuoteHelper limit rate else quoteForBaseHelper limit rate)"

definition GetPriceLimit :: "bool \<Rightarrow> dec" where
  "GetPriceLimit baseForQuote = (if baseForQuote then MinSpotPrice else MaxSpotPrice)"

definition GetSqrtPriceLimit :: "decx \<Rightarrow> dec \<Rightarrow> bool \<Rightarrow> dec result" where
  "GetSqrtPriceLimit d priceLimit baseForQuote =
     (if priceLimit = 0 then (if baseForQuote then MinSqrtPrice d else MaxSqrtPrice d)
      else if priceLimit < MinSpotPrice \<or> priceLimit > MaxSpotPrice then Inl ErrPriceOutOfBound
      else d_approxSqrt d priceLimit)"

definition getFeeRateOverOneMinusFeeRate :: "decx \<Rightarrow> dec \<Rightarrow> dec result" where
  "getFeeRateOverOneMinusFeeRate d rate = d_quoRoundUp d rate (dec_one - rate)"

definition computeFeeChargeFromInAmount :: "decx \<Rightarrow> dec \<Rightarrow> dec \<Rightarrow> dec result" where
  "computeFeeChargeFromInAmount d amountIn feeRateOveroneMinusFeeRate = d_mulRoundUp d amountIn feeRateOveroneMinusFeeRate"

definition computeFeeChargePerSwapStepOutGivenIn :: "decx \<Rightarrow> bool \<Rightarrow> dec \<Rightarrow> dec \<Rightarrow> dec \<Rightarrow> dec result" where
  "computeFeeChargePerSwapStepOutGivenIn d hasReachedTarget amountIn amountSpecifiedRemaining rate =
     (if rate = 0 then Inr 0
      else if rate < 0 then Inl (Panic ''fee rate must be non-negative'')
      else
        bindR (if hasReachedTarget
               then bindR (getFeeRateOverOneMinusFeeRate d rate) (computeFeeChargeFromInAmount d amountIn)
               else Inr (amountSpecifiedRemaining - amountIn)) (\<lambda>feeChargeTotal.
          if feeChargeTotal < 0 then Inl (Panic ''fee rate charge must be non-negative'') else Inr feeChargeTotal))"

section \<open>Base for quote\<close>

definition GetSqrtTargetPrice_bfq :: "dec \<Rightarrow> dec \<Rightarrow> dec" where
  "GetSqrtTargetPrice_bfq limit nextTickSqrtPrice = (if nextTickSqrtPrice < limit then limit else nextTickSqrtPrice)"

definition ComputeSwapWithinBucketOutGivenIn_bfq ::
    "decx \<Rightarrow> dec \<Rightarrow> dec \<Rightarrow> dec \<Rightarrow> dec \<Rightarrow> dec \<Rightarrow> (dec \<times> dec \<times> dec \<times> dec) result" where
  "ComputeSwapWithinBucketOutGivenIn_bfq d rate sqrtPriceCurrent sqrtPriceTarget liquidity amountBaseInRemaining =
     bindR (CalcAmountBaseDelta d liquidity sqrtPriceTarget sqrtPriceCurrent True) (\<lambda>amountBaseIn.
     bindR (d_mul d amountBaseInRemaining (dec_one - rate)) (\<lambda>amountBaseInAfterFee.
     bindR (if amountBaseInAfterFee \<ge> amountBaseIn then Inr sqrtPriceTarget
            else GetNextSqrtPriceFromAmountBaseInRoundingUp d sqrtPriceCurrent liquidity amountBaseInAfterFee) (\<lambda>sqrtPriceNext.
     let hasReachedTarget = (sqrtPriceTarget = sqrtPriceNext) in
     bindR (if \<not> hasReachedTarget then CalcAmountBaseDelta d liquidity sqrtPriceNext sqrtPriceCurrent True
            else Inr amountBaseIn) (\<lambda>amountBaseIn.
     bindR (CalcAmountQuoteDelta d liquidity sqrtPriceNext sqrtPriceCurrent False) (\<lambda>amountQuoteOut.
     bindR (computeFeeChargePerSwapStepOutGivenIn d hasReachedTarget amountBaseIn amountBaseInRemaining rate) (\<lambda>feeChargeTotal.
       Inr (sqrtPriceNext, amountBaseIn, amountQuoteOut, feeChargeTotal)))))))"

definition ComputeSwapWithinBucketInGivenOut_bfq ::
    "decx \<Rightarrow> dec \<Rightarrow> dec \<Rightarrow> dec \<Rightarrow> dec \<Rightarrow> dec \<Rightarrow> (dec \<times> dec \<times> dec \<times> dec) result" where
  "ComputeSwapWithinBucketInGivenOut_bfq d rate sqrtPriceCurrent sqrtPriceTarget liquidity amountQuoteRemainingOut =
     bindR (CalcAmountQuoteDelta d liquidity sqrtPriceTarget sqrtPriceCurrent False) (\<lambda>amountQuoteOut.
     bindR (if amountQuoteRemainingOut \<ge> amountQuoteOut then Inr sqrtPriceTarget
            else GetNextSqrtPriceFromAmountQuoteOutRoundingDown d sqrtPriceCurrent liquidity amountQuoteRemainingOut) (\<lambda>sqrtPriceNext.
     bindR (if sqrtPriceTarget \<noteq> sqrtPriceNext then CalcAmountQuoteDelta d liquidity sqrtPriceNext sqrtPriceCurrent False
            else Inr amountQuoteOut) (\<lambda>amountQuoteOut.
     bindR (CalcAmountBaseDelta d liquidity sqrtPriceNext sqrtPriceCurrent True) (\<lambda>amountBaseIn.
     bindR (bindR (getFeeRateOverOneMinusFeeRate d rate) (computeFeeChargeFromInAmount d amountBaseIn)) (\<lambda>feeChargeTotal.
       Inr (sqrtPriceNext, if amountQuoteOut > amountQuoteRemainingOut then amountQuoteRemainingOut else amountQuoteOut,
         amountBaseIn, feeChargeTotal))))))"

section \<open>Quote for base\<close>

definition GetSqrtTargetPrice_qfb :: "dec \<Rightarrow> dec \<Rightarrow> dec" where
  "GetSqrtTargetPrice_qfb limit nextTickSqrtPrice = (if nextTickSqrtPrice > limit then limit else nextTickSqrtPrice)"

definition ComputeSwapWithinBucketOutGivenIn_qfb ::
    "decx \<Rightarrow> dec \<Rightarrow> dec \<Rightarrow> dec \<Rightarrow> dec \<Rightarrow> dec \<Rightarrow> (dec \<times> dec \<times> dec \<times> dec) result" where
  "ComputeSwapWithinBucketOutGivenIn_qfb d rate sqrtPriceCurrent sqrtPriceTarget liquidity amountQuoteInRemaining =
     bindR (CalcAmountQuoteDelta d liquidity sqrtPriceTarget sqrtPriceCurrent True) (\<lambda>amountQuoteIn.
     bindR (d_mul d amountQuoteInRemaining (dec_one - rate)) (\<lambda>amountQuoteInAfterFee.
     bindR (if amountQuoteInAfterFee \<ge> amountQuoteIn then Inr sqrtPriceTarget
            else GetNextSqrtPriceFromAmountQuoteInRoundingDown d sqrtPriceCurrent liquidity amountQuoteInAfterFee) (\<lambda>sqrtPriceNext.
     let hasReachedTarget = (sqrtPriceTarget = sqrtPriceNext) in
     bindR (if \<not> hasReachedTarget then CalcAmountQuoteDelta d liquidity sqrtPriceNext sqrtPriceCurrent True
            else Inr amountQuoteIn) (\<lambda>amountQuoteIn.
     bindR (CalcAmountBaseDelta d liquidity sqrtPriceNext sqrtPriceCurrent False) (\<lambda>amountBaseOut.
     bindR (computeFeeChargePerSwapStepOutGivenIn d hasReachedTarget amountQuoteIn amountQuoteInRemaining rate) (\<lambda>feeChargeTotal.
       Inr (sqrtPriceNext, amountQuoteIn, amountBaseOut, feeChargeTotal)))))))"

definition ComputeSwapWithinBucketInGivenOut_qfb ::
    "decx \<Rightarrow> dec \<Rightarrow> dec \<Rightarrow> dec \<Rightarrow> dec \<Rightarrow> dec \<Rightarrow> (dec \<times> dec \<times> dec \<times> dec) result" where
  "ComputeSwapWithinBucketInGivenOut_qfb d rate sqrtPriceCurrent sqrtPriceTarget liquidity amountBaseRemainingOut =
     bindR (CalcAmountBaseDelta d liquidity sqrtPriceTarget sqrtPriceCurrent False) (\<lambda>amountBaseOut.
     bindR (if amountBaseRemainingOut \<ge> amountBaseOut then Inr sqrtPriceTarget
            else GetNextSqrtPriceFromAmountBaseOutRoundingUp d sqrtPriceCurrent liquidity amountBaseRemainingOut) (\<lambda>sqrtPriceNext.
     bindR (if sqrtPriceTarget \<noteq> sqrtPriceNext then CalcAmountBaseDelta d liquidity sqrtPriceNext sqrtPriceCurrent False
            else Inr amountBaseOut) (\<lambda>amountBaseOut.
     bindR (CalcAmountQuoteDelta d liquidity sqrtPriceNext sqrtPriceCurrent True) (\<lambda>amountQuoteIn.
     bindR (bindR (getFeeRateOverOneMinusFeeRate d rate) (computeFeeChargeFromInAmount d amountQuoteIn)) (\<lambda>feeChargeTotal.
       Inr (sqrtPriceNext, if amountBaseOut > amountBaseRemainingOut then amountBaseRemainingOut else amountBaseOut,
         amountQuoteIn, feeChargeTotal))))))"

section \<open>Iterators over ticks\<close>

type_synonym tick_iter = "(bytes, TickInfo) kv"

definition tick_store :: "'b lps \<Rightarrow> uint64 \<Rightarrow> tick_iter" where
  "tick_store s poolId = map (\<lambda>e. (drop (length (KeyTickPrefixByPoolId poolId)) (fst e), snd e))
     (kv_prefix (KeyTickPrefixByPoolId poolId) (ls_ticks s))"

text \<open>The loop that moves the iterator to the first tick on the right side.\<close>

fun skip_to :: "(int \<Rightarrow> bool) \<Rightarrow> tick_iter \<Rightarrow> tick_iter result" where
  "skip_to P [] = Inr []"
| "skip_to P (e # es) =
     (case TickIndexFromBytes (fst e) of
        Inl _ \<Rightarrow> Inl (Panic ''invalid tick index'')
      | Inr tick \<Rightarrow> if P tick then Inr (e # es) else skip_to P es)"

definition NextTickIterator_bfq :: "'b lps \<Rightarrow> uint64 \<Rightarrow> int \<Rightarrow> tick_iter result" where
  "NextTickIterator_bfq s poolId currentTickIndex =
     (let startKey = TickIndexToBytes (wrap_int (currentTickIndex + 1)) in
      skip_to (\<lambda>tick. tick \<le> currentTickIndex) (rev (filter (\<lambda>e. fst e < startKey) (tick_store s poolId))))"

definition NextTickIterator_qfb :: "'b lps \<Rightarrow> uint64 \<Rightarrow> int \<Rightarrow> tick_iter result" where
  "NextTickIterator_qfb s poolId currentTickIndex =
     (let startKey = TickIndexToBytes currentTickIndex in
      skip_to (\<lambda>tick. tick > currentTickIndex) (filter (\<lambda>e. startKey \<le> fst e) (tick_store s poolId)))"

section \<open>The interface\<close>

fun BaseForQuote :: "SwapHelper \<Rightarrow> bool" where
  "BaseForQuote (baseForQuoteHelper _ _) = True"
| "BaseForQuote (quoteForBaseHelper _ _) = False"

fun GetSqrtTargetPrice :: "SwapHelper \<Rightarrow> dec \<Rightarrow> dec" where
  "GetSqrtTargetPrice (baseForQuoteHelper limit _) p = GetSqrtTargetPrice_bfq limit p"
| "GetSqrtTargetPrice (quoteForBaseHelper limit _) p = GetSqrtTargetPrice_qfb limit p"

fun ComputeSwapWithinBucketOutGivenIn :: "decx \<Rightarrow> SwapHelper \<Rightarrow> dec \<Rightarrow> dec \<Rightarrow> dec \<Rightarrow> dec \<Rightarrow> (dec \<times> dec \<times> dec \<times> dec) result" where
  "ComputeSwapWithinBucketOutGivenIn d (baseForQuoteHelper _ rate) = ComputeSwapWithinBucketOutGivenIn_bfq d rate"
| "ComputeSwapWithinBucketOutGivenIn d (quoteForBaseHelper _ rate) = ComputeSwapWithinBucketOutGivenIn_qfb d rate"

fun ComputeSwapWithinBucketInGivenOut :: "decx \<Rightarrow> SwapHelper \<Rightarrow> dec \<Rightarrow> dec \<Rightarrow> dec \<Rightarrow> dec \<Rightarrow> (dec \<times> dec \<times> dec \<times> dec) result" where
  "ComputeSwapWithinBucketInGivenOut d (baseForQuoteHelper _ rate) = ComputeSwapWithinBucketInGivenOut_bfq d rate"
| "ComputeSwapWithinBucketInGivenOut d (quoteForBaseHelper _ rate) = ComputeSwapWithinBucketInGivenOut_qfb d rate"

fun NextTickIterator :: "SwapHelper \<Rightarrow> 'b lps \<Rightarrow> uint64 \<Rightarrow> int \<Rightarrow> tick_iter result" where
  "NextTickIterator (baseForQuoteHelper _ _) s = NextTickIterator_bfq s"
| "NextTickIterator (quoteForBaseHelper _ _) s = NextTickIterator_qfb s"

fun GetLiquidityDeltaSign :: "SwapHelper \<Rightarrow> dec \<Rightarrow> dec" where
  "GetLiquidityDeltaSign (baseForQuoteHelper _ _) deltaLiquidity = - deltaLiquidity"
| "GetLiquidityDeltaSign (quoteForBaseHelper _ _) deltaLiquidity = deltaLiquidity"

fun NextTickAfterCrossing :: "SwapHelper \<Rightarrow> int \<Rightarrow> int" where
  "NextTickAfterCrossing (baseForQuoteHelper _ _) nextTick = wrap_int (nextTick - 1)"
| "NextTickAfterCrossing (quoteForBaseHelper _ _) nextTick = nextTick"

fun ValidateSqrtPrice :: "decx \<Rightarrow> SwapHelper \<Rightarrow> dec \<Rightarrow> dec \<Rightarrow> unit result" where
  "ValidateSqrtPrice d (baseForQuoteHelper _ _) sqrtPrice currentSqrtPrice =
     bindR (MinSqrtPrice d) (\<lambda>m.
       if sqrtPrice > currentSqrtPrice \<or> sqrtPrice < m then Inl (Err ''invalid sqrt price'') else Inr ())"
| "ValidateSqrtPrice d (quoteForBaseHelper _ _) sqrtPrice currentSqrtPrice =
     bindR (MaxSqrtPrice d) (\<lambda>m.
       if sqrtPrice < currentSqrtPrice \<or> sqrtPrice > m then Inl (Err ''invalid sqrt price'') else Inr ())"

end
