(* ===== verification/LpSwap.thy ===== *)
theory LpSwap
  imports LpSwapHelper
begin

text \<open>
  \<^verbatim>\<open>keeper/swap.go\<close>: a swap walks over the initialised ticks of a pool until the specified amount is used up or the price
  limit is reached. The body of the loop is one definition, the loop is a partial function: a run that does not
  end is the fault \<open>Diverge\<close>. The writes of a swap to the tick it crosses do not disturb the iterator, which has
  still to visit other ticks only.
\<close>

section \<open>State\<close>

record SwapState =
  ss_amountSpecifiedRemaining :: dec
  ss_amountCalculated :: dec
  ss_sqrtPrice :: dec
  ss_tick :: int
  ss_liquidity :: dec
  ss_globalFeeGrowthPerUnitLiquidity :: dec
  ss_globalFeeGrowth :: dec
  ss_swapHelper :: SwapHelper

record SwapResult =
  sr_AmountIn :: int
  sr_AmountOut :: int
  sr_Fees :: dec

record PoolUpdates =
  pu_NewCurrentTick :: int
  pu_NewLiquidity :: dec
  pu_NewSqrtPrice :: dec

record SwapDetails =
  sd_Sender :: bytes
  sd_TokenIn :: coin
  sd_TokenOut :: coin

definition swapNoProgressLimit :: int where "swapNoProgressLimit = 100"

definition newSwapState :: "int \<Rightarrow> Pool \<Rightarrow> SwapHelper \<Rightarrow> SwapState" where
  "newSwapState specifiedAmount p strategy =
     \<lparr>ss_amountSpecifiedRemaining = dec_of_int specifiedAmount, ss_amountCalculated = 0,
      ss_sqrtPrice = pl_CurrentSqrtPrice p, ss_tick = pl_CurrentTick p, ss_liquidity = pl_CurrentTickLiquidity p,
      ss_globalFeeGrowthPerUnitLiquidity = 0, ss_globalFeeGrowth = 0, ss_swapHelper = strategy\<rparr>"

definition updateFeeGrowthGlobal :: "decx \<Rightarrow> dec \<Rightarrow> SwapState \<Rightarrow> SwapState result" where
  "updateFeeGrowthGlobal d feeChargeTotal ss =
     (let ss = ss\<lparr>ss_globalFeeGrowth := ss_globalFeeGrowth ss + feeChargeTotal\<rparr> in
      if ss_liquidity ss = 0 then Inr ss
      else bindR (d_quoTruncate d feeChargeTotal (ss_liquidity ss)) (\<lambda>g.
        Inr (ss\<lparr>ss_globalFeeGrowthPerUnitLiquidity := ss_globalFeeGrowthPerUnitLiquidity ss + g\<rparr>)))"

section \<open>Checks and preparation\<close>

definition isBaseForQuote :: "string \<Rightarrow> string \<Rightarrow> bool" where
  "isBaseForQuote inDenom assetBase \<longleftrightarrow> inDenom = assetBase"

definition checkDenomValidity :: "string \<Rightarrow> string \<Rightarrow> string \<Rightarrow> string \<Rightarrow> unit result" where
  "checkDenomValidity inDenom outDenom assetBase assetQuote =
     (if outDenom \<noteq> assetBase \<and> outDenom \<noteq> assetQuote then Inl (Err ''invalid out denom'')
      else if inDenom \<noteq> assetBase \<and> inDenom \<noteq> assetQuote then Inl (Err ''invalid in denom'')
      else if outDenom = inDenom then Inl (Err ''in and out denom duplication'')
      else Inr ())"

definition setupSwapHelper :: "decx \<Rightarrow> Pool \<Rightarrow> dec \<Rightarrow> string \<Rightarrow> dec \<Rightarrow> (SwapHelper \<times> dec) result" where
  "setupSwapHelper d p rate denomIn priceLimit =
     (let baseForQuote = isBaseForQuote denomIn (pl_DenomBase p) in
      bindR (GetSqrtPriceLimit d priceLimit baseForQuote) (\<lambda>limit.
      let swapHelper = NewHelper baseForQuote limit rate in
      bindR (ValidateSqrtPrice d swapHelper limit (pl_CurrentSqrtPrice p)) (\<lambda>_. Inr (swapHelper, limit))))"

definition getPoolForSwap :: "'b lps \<Rightarrow> uint64 \<Rightarrow> Pool result" where
  "getPoolForSwap s poolId =
     (case GetPool s poolId of
        None \<Rightarrow> Inl ErrPoolNotFound_lp
      | Some p \<Rightarrow> if \<not> HasPosition_pl p then Inl (Err ''empty liquidity'') else Inr p)"

definition getPoolAndAccum :: "'b lps \<Rightarrow> uint64 \<Rightarrow> string \<Rightarrow> string \<Rightarrow> (Pool \<times> AccumulatorObject) result" where
  "getPoolAndAccum s poolId denomIn denomOut =
     bindR (getPoolForSwap s poolId) (\<lambda>pool.
     bindR (checkDenomValidity denomIn denomOut (pl_DenomBase pool) (pl_DenomQuote pool)) (\<lambda>_.
     bindR (GetFeeAccumulator s poolId) (\<lambda>feeAccumulator. Inr (pool, feeAccumulator))))"

definition iteratorToNextTickSqrtPriceTarget :: "decx \<Rightarrow> tick_iter \<Rightarrow> Pool \<Rightarrow> SwapHelper \<Rightarrow> (int \<times> dec \<times> dec) result" where
  "iteratorToNextTickSqrtPriceTarget d nextInitTickIter pool swapstrat =
     (case nextInitTickIter of
        [] \<Rightarrow> Inl (Err ''ran out of ticks'')
      | e # _ \<Rightarrow>
          bindR (TickIndexFromBytes (fst e)) (\<lambda>nextInitializedTick.
          bindR (on_err (Err ''could not convert next tick to nextSqrtPrice'')
              (TickToSqrtPrice d nextInitializedTick (pl_TickParams pool))) (\<lambda>nextInitializedTickSqrtPrice.
            Inr (nextInitializedTick, nextInitializedTickSqrtPrice,
              GetSqrtTargetPrice swapstrat nextInitializedTickSqrtPrice))))"

definition validateSwapProgressAndAmountConsumption :: "dec \<Rightarrow> dec \<Rightarrow> dec \<Rightarrow> dec \<Rightarrow> unit result" where
  "validateSwapProgressAndAmountConsumption computedSqrtPrice sqrtPriceStart amountIn amountOut =
     (if computedSqrtPrice = sqrtPriceStart \<and> \<not> (amountIn = 0 \<and> amountOut = 0)
      then Inl (Err ''no advance sqrt price after swap'') else Inr ())"

definition edgeCaseInequalityBasedOnSwapHelper :: "bool \<Rightarrow> dec \<Rightarrow> dec \<Rightarrow> bool" where
  "edgeCaseInequalityBasedOnSwapHelper bfq nextInitializedTickSqrtPrice computedSqrtPrice =
     (if bfq then nextInitializedTickSqrtPrice > computedSqrtPrice
      else nextInitializedTickSqrtPrice < computedSqrtPrice)"

definition ParseTickFromBz :: "tick_iter \<Rightarrow> TickInfo result" where
  "ParseTickFromBz i = (case i of [] \<Rightarrow> Inl (Err ''tick not found'') | e # _ \<Rightarrow> Inr (snd e))"

definition swapCrossTickLogic :: "'b lpx \<Rightarrow> SwapState \<Rightarrow> SwapHelper \<Rightarrow> int \<Rightarrow> tick_iter \<Rightarrow> AccumulatorObject \<Rightarrow> string \<Rightarrow>
    bool \<Rightarrow> 'b lps \<Rightarrow> (SwapState \<times> tick_iter \<times> 'b lps) result" where
  "swapCrossTickLogic x swapState strategy nextInitializedTick nextTickIter feeAccumulator denomIn updateAccumulators s =
     bindR (ParseTickFromBz nextTickIter) (\<lambda>nextInitializedTickInfo.
     bindR (if updateAccumulators then
              crossTick x nextInitializedTickInfo
                \<lparr>dc_Denom = denomIn, dc_Amount = ss_globalFeeGrowthPerUnitLiquidity swapState\<rparr> (ao_AccumValue feeAccumulator) s
            else Inr s) (\<lambda>s.
       Inr (swapState\<lparr>
           ss_liquidity := ss_liquidity swapState + GetLiquidityDeltaSign (ss_swapHelper swapState) (ti_LiquidityNet nextInitializedTickInfo),
           ss_tick := NextTickAfterCrossing strategy nextInitializedTick\<rparr>, tl nextTickIter, s)))"

section \<open>The loops\<close>

text \<open>
  What follows the computation inside the bucket, the same in both loops: the tick is crossed, or the new tick is
  computed from the new price.
\<close>

definition finish_step :: "'b lpx \<Rightarrow> Pool \<Rightarrow> SwapHelper \<Rightarrow> int \<Rightarrow> dec \<Rightarrow> dec \<Rightarrow> dec \<Rightarrow> AccumulatorObject \<Rightarrow> string \<Rightarrow> bool \<Rightarrow>
    SwapState \<Rightarrow> tick_iter \<Rightarrow> 'b lps \<Rightarrow> (SwapState \<times> tick_iter \<times> 'b lps) result" where
  "finish_step x p swapHelper nextInitializedTick nextInitializedTickSqrtPrice computedSqrtPrice sqrtPriceStart
       feeAccumulator denomIn updateAccumulators swapState nextInitTickIter s =
     (if nextInitializedTickSqrtPrice = computedSqrtPrice then
        swapCrossTickLogic x swapState swapHelper nextInitializedTick nextInitTickIter feeAccumulator denomIn updateAccumulators s
      else if edgeCaseInequalityBasedOnSwapHelper (BaseForQuote swapHelper) nextInitializedTickSqrtPrice computedSqrtPrice then
        Inl (Err ''invalid computed sqrt price'')
      else if sqrtPriceStart \<noteq> computedSqrtPrice then
        bindR (CalculateSqrtPriceToTick (lx_dec x) computedSqrtPrice (pl_TickParams p)) (\<lambda>newTick.
          Inr (swapState\<lparr>ss_tick := newTick\<rparr>, nextInitTickIter, s))
      else Inr (swapState, nextInitTickIter, s))"

definition count_no_progress :: "dec \<Rightarrow> int \<Rightarrow> int result" where
  "count_no_progress amount swapNoProgressIterationCount =
     (if amount = 0 then
        (if swapNoProgressIterationCount \<ge> swapNoProgressLimit then Inl (Err ''ran out of iterations during swap'')
         else Inr (swapNoProgressIterationCount + 1))
      else Inr swapNoProgressIterationCount)"

definition out_given_in_step :: "'b lpx \<Rightarrow> Pool \<Rightarrow> SwapHelper \<Rightarrow> AccumulatorObject \<Rightarrow> string \<Rightarrow> bool \<Rightarrow>
    SwapState \<Rightarrow> tick_iter \<Rightarrow> int \<Rightarrow> 'b lps \<Rightarrow> (SwapState \<times> tick_iter \<times> int \<times> 'b lps) result" where
  "out_given_in_step x p swapHelper feeAccumulator denomIn updateAccumulators swapState nextInitTickIter cnt s =
     (let sqrtPriceStart = ss_sqrtPrice swapState in
      bindR (iteratorToNextTickSqrtPriceTarget (lx_dec x) nextInitTickIter p swapHelper)
        (\<lambda>(nextInitializedTick, nextInitializedTickSqrtPrice, sqrtPriceTarget).
      bindR (ComputeSwapWithinBucketOutGivenIn (lx_dec x) swapHelper (ss_sqrtPrice swapState) sqrtPriceTarget
          (ss_liquidity swapState) (ss_amountSpecifiedRemaining swapState))
        (\<lambda>(computedSqrtPrice, amountIn, amountOut, feeCharge).
      bindR (validateSwapProgressAndAmountConsumption computedSqrtPrice sqrtPriceStart amountIn amountOut) (\<lambda>_.
      bindR (if updateAccumulators then updateFeeGrowthGlobal (lx_dec x) feeCharge swapState else Inr swapState) (\<lambda>swapState.
      let swapState = swapState\<lparr>ss_sqrtPrice := computedSqrtPrice,
            ss_amountSpecifiedRemaining := ss_amountSpecifiedRemaining swapState - (amountIn + feeCharge),
            ss_amountCalculated := ss_amountCalculated swapState + amountOut\<rparr> in
      bindR (finish_step x p swapHelper nextInitializedTick nextInitializedTickSqrtPrice computedSqrtPrice sqrtPriceStart
          feeAccumulator denomIn updateAccumulators swapState nextInitTickIter s) (\<lambda>(swapState, nextInitTickIter, s).
      bindR (count_no_progress amountIn cnt) (\<lambda>cnt. Inr (swapState, nextInitTickIter, cnt, s))))))))"

definition in_given_out_step :: "'b lpx \<Rightarrow> Pool \<Rightarrow> SwapHelper \<Rightarrow> AccumulatorObject \<Rightarrow> string \<Rightarrow> bool \<Rightarrow>
    SwapState \<Rightarrow> tick_iter \<Rightarrow> int \<Rightarrow> 'b lps \<Rightarrow> (SwapState \<times> tick_iter \<times> int \<times> 'b lps) result" where
  "in_given_out_step x p swapHelper feeAccumulator denomIn updateAccumulators swapState nextInitTickIter cnt s =
     (let sqrtPriceStart = ss_sqrtPrice swapState in
      bindR (iteratorToNextTickSqrtPriceTarget (lx_dec x) nextInitTickIter p swapHelper)
        (\<lambda>(nextInitializedTick, nextInitializedTickSqrtPrice, sqrtPriceTarget).
      bindR (ComputeSwapWithinBucketInGivenOut (lx_dec x) swapHelper (ss_sqrtPrice swapState) sqrtPriceTarget
          (ss_liquidity swapState) (ss_amountSpecifiedRemaining swapState))
        (\<lambda>(computedSqrtPrice, amountOut, amountIn, feeChargeTotal).
      bindR (validateSwapProgressAndAmountConsumption computedSqrtPrice sqrtPriceStart amountIn amountOut) (\<lambda>_.
      bindR (if updateAccumulators then updateFeeGrowthGlobal (lx_dec x) feeChargeTotal swapState else Inr swapState) (\<lambda>swapState.
      let swapState = swapState\<lparr>ss_sqrtPrice := computedSqrtPrice,
            ss_amountSpecifiedRemaining := ss_amountSpecifiedRemaining swapState - amountOut,
            ss_amountCalculated := ss_amountCalculated swapState + (amountIn + feeChargeTotal)\<rparr> in
      bindR (finish_step x p swapHelper nextInitializedTick nextInitializedTickSqrtPrice computedSqrtPrice sqrtPriceStart
          feeAccumulator denomIn updateAccumulators swapState nextInitTickIter s) (\<lambda>(swapState, nextInitTickIter, s).
      bindR (count_no_progress amountOut cnt) (\<lambda>cnt. Inr (swapState, nextInitTickIter, cnt, s))))))))"

text \<open>
  The \<^verbatim>\<open>for\<close> statement of both, with the body as a parameter.
\<close>

type_synonym 'b step_fun = "SwapState \<Rightarrow> tick_iter \<Rightarrow> int \<Rightarrow> 'b lps \<Rightarrow> (SwapState \<times> tick_iter \<times> int \<times> 'b lps) result"

partial_function (option) swap_loop :: "'b step_fun \<Rightarrow> dec \<Rightarrow> SwapState \<Rightarrow> tick_iter \<Rightarrow> int \<Rightarrow> 'b lps \<Rightarrow>
    (SwapState \<times> 'b lps) result option" where
  "swap_loop step limit ss iter cnt s =
     (if ss_amountSpecifiedRemaining ss > 0 \<and> ss_sqrtPrice ss \<noteq> limit then
        (case step ss iter cnt s of
           Inl e \<Rightarrow> Some (Inl e)
         | Inr (ss, iter, cnt, s) \<Rightarrow> swap_loop step limit ss iter cnt s)
      else Some (Inr (ss, s)))"

declare swap_loop.simps [code]

section \<open>Computing a swap\<close>

definition computeOutAmtGivenIn :: "'b lpx \<Rightarrow> uint64 \<Rightarrow> coin \<Rightarrow> string \<Rightarrow> dec \<Rightarrow> dec \<Rightarrow> bool \<Rightarrow> 'b lps \<Rightarrow>
    (SwapResult \<times> PoolUpdates \<times> 'b lps) result" where
  "computeOutAmtGivenIn x poolId minTokenIn denomOut rate priceLimit updateAccumulators s =
     bindR (getPoolAndAccum s poolId (c_Denom minTokenIn) denomOut) (\<lambda>(p, feeAccumulator).
     bindR (setupSwapHelper (lx_dec x) p rate (c_Denom minTokenIn) priceLimit) (\<lambda>(swapHelper, limit).
     let swapState = newSwapState (c_Amount minTokenIn) p swapHelper in
     bindR (NextTickIterator swapHelper s poolId (ss_tick swapState)) (\<lambda>nextInitTickIter.
     bindR (join_loop (swap_loop (out_given_in_step x p swapHelper feeAccumulator (c_Denom minTokenIn) updateAccumulators)
         limit swapState nextInitTickIter 0 s)) (\<lambda>(swapState, s).
     if ss_amountSpecifiedRemaining swapState < 0 then Inl (Err ''over charge swap out given in'')
     else
       bindR (if updateAccumulators then
                bindR (dc_new (lx_dc x) [\<lparr>dc_Denom = c_Denom minTokenIn, dc_Amount = ss_globalFeeGrowthPerUnitLiquidity swapState\<rparr>]) (\<lambda>g.
                  AddToAccumulator x feeAccumulator g s)
              else Inr s) (\<lambda>s.
       bindR (d_ceil (lx_dec x) (dec_of_int (c_Amount minTokenIn) - ss_amountSpecifiedRemaining swapState)) (\<lambda>c.
       bindR (d_truncateInt (lx_dec x) c) (\<lambda>amountIn.
       bindR (d_truncateInt (lx_dec x) (ss_amountCalculated swapState)) (\<lambda>amountOut.
         Inr (\<lparr>sr_AmountIn = amountIn, sr_AmountOut = amountOut, sr_Fees = ss_globalFeeGrowth swapState\<rparr>,
           \<lparr>pu_NewCurrentTick = ss_tick swapState, pu_NewLiquidity = ss_liquidity swapState,
            pu_NewSqrtPrice = ss_sqrtPrice swapState\<rparr>, s)))))))))"

definition computeInAmtGivenOut :: "'b lpx \<Rightarrow> coin \<Rightarrow> string \<Rightarrow> dec \<Rightarrow> dec \<Rightarrow> uint64 \<Rightarrow> bool \<Rightarrow> 'b lps \<Rightarrow>
    (SwapResult \<times> PoolUpdates \<times> 'b lps) result" where
  "computeInAmtGivenOut x desiredTokenOut denomIn rate priceLimit poolId updateAccumulators s =
     bindR (getPoolAndAccum s poolId denomIn (c_Denom desiredTokenOut)) (\<lambda>(p, feeAccumulator).
     bindR (setupSwapHelper (lx_dec x) p rate denomIn priceLimit) (\<lambda>(swapHelper, limit).
     let swapState = newSwapState (c_Amount desiredTokenOut) p swapHelper in
     bindR (NextTickIterator swapHelper s poolId (ss_tick swapState)) (\<lambda>nextInitTickIter.
     bindR (join_loop (swap_loop (in_given_out_step x p swapHelper feeAccumulator denomIn updateAccumulators)
         limit swapState nextInitTickIter 0 s)) (\<lambda>(swapState, s).
     if ss_amountSpecifiedRemaining swapState < 0 then Inl (Err ''over charged problem swap in given out'')
     else
       bindR (if updateAccumulators then
                bindR (dc_newFromDec (lx_dc x) denomIn (ss_globalFeeGrowthPerUnitLiquidity swapState)) (\<lambda>c.
                bindR (dc_new (lx_dc x) [c]) (\<lambda>g. AddToAccumulator x feeAccumulator g s))
              else Inr s) (\<lambda>s.
       bindR (d_ceil (lx_dec x) (ss_amountCalculated swapState)) (\<lambda>c.
       bindR (d_truncateInt (lx_dec x) c) (\<lambda>amountIn.
       bindR (d_truncateInt (lx_dec x) (dec_of_int (c_Amount desiredTokenOut) - ss_amountSpecifiedRemaining swapState)) (\<lambda>amountOut.
         Inr (\<lparr>sr_AmountIn = amountIn, sr_AmountOut = amountOut, sr_Fees = ss_globalFeeGrowth swapState\<rparr>,
           \<lparr>pu_NewCurrentTick = ss_tick swapState, pu_NewLiquidity = ss_liquidity swapState,
            pu_NewSqrtPrice = ss_sqrtPrice swapState\<rparr>, s)))))))))"

section \<open>Swapping\<close>

definition updatePoolForSwap :: "'b lpx \<Rightarrow> Pool \<Rightarrow> SwapDetails \<Rightarrow> PoolUpdates \<Rightarrow> dec \<Rightarrow> 'b lps \<Rightarrow> 'b lps result" where
  "updatePoolForSwap x pool swapDetails poolUpdates totalFees s =
     bindR (d_ceil (lx_dec x) totalFees) (\<lambda>c.
     bindR (d_truncateInt (lx_dec x) c) (\<lambda>n.
     bindR (d_newCoin (lx_dec x) (c_Denom (sd_TokenIn swapDetails)) n) (\<lambda>feeRatesRoundedUp.
     let tokenIn = (sd_TokenIn swapDetails)\<lparr>c_Amount := c_Amount (sd_TokenIn swapDetails) - c_Amount feeRatesRoundedUp\<rparr> in
     bindR (lx_isSendEnabled x [tokenIn] (ls_bank s)) (\<lambda>_.
     bindR (send_lp x (sd_Sender swapDetails) (GetAddress x pool) [tokenIn] s) (\<lambda>s.
     bindR (if c_Amount feeRatesRoundedUp \<noteq> 0
            then send_lp x (sd_Sender swapDetails) (GetFeesAddress x pool) [feeRatesRoundedUp] s else Inr s) (\<lambda>s.
     bindR (lx_isSendEnabled x [sd_TokenOut swapDetails] (ls_bank s)) (\<lambda>_.
     bindR (send_lp x (GetAddress x pool) (sd_Sender swapDetails) [sd_TokenOut swapDetails] s) (\<lambda>s.
     bindR (ApplySwap pool (pu_NewLiquidity poolUpdates) (pu_NewCurrentTick poolUpdates) (pu_NewSqrtPrice poolUpdates)) (\<lambda>pool.
       Inr (SetPool pool s))))))))))"

definition swapOutAmtGivenIn :: "'b lpx \<Rightarrow> bytes \<Rightarrow> Pool \<Rightarrow> coin \<Rightarrow> string \<Rightarrow> dec \<Rightarrow> dec \<Rightarrow> 'b lps \<Rightarrow>
    (coin \<times> coin \<times> PoolUpdates \<times> 'b lps) result" where
  "swapOutAmtGivenIn x sender pool tokenIn denomOut rate priceLimit s =
     bindR (computeOutAmtGivenIn x (pl_Id pool) tokenIn denomOut rate priceLimit True s) (\<lambda>(swapResult, poolUpdates, s).
     bindR (d_newCoin (lx_dec x) (c_Denom tokenIn) (sr_AmountIn swapResult)) (\<lambda>tokenIn.
     bindR (d_newCoin (lx_dec x) denomOut (sr_AmountOut swapResult)) (\<lambda>tokenOut.
       if \<not> c_Amount tokenOut > 0 then Inl (Err ''unexpected calculated amount'')
       else bindR (updatePoolForSwap x pool \<lparr>sd_Sender = sender, sd_TokenIn = tokenIn, sd_TokenOut = tokenOut\<rparr> poolUpdates
           (sr_Fees swapResult) s) (\<lambda>s. Inr (tokenIn, tokenOut, poolUpdates, s)))))"

definition swapInAmtGivenOut :: "'b lpx \<Rightarrow> bytes \<Rightarrow> Pool \<Rightarrow> coin \<Rightarrow> string \<Rightarrow> dec \<Rightarrow> dec \<Rightarrow> 'b lps \<Rightarrow>
    (coin \<times> coin \<times> PoolUpdates \<times> 'b lps) result" where
  "swapInAmtGivenOut x sender pool desiredTokenOut denomIn rate priceLimit s =
     bindR (computeInAmtGivenOut x desiredTokenOut denomIn rate priceLimit (pl_Id pool) True s) (\<lambda>(swapResult, poolUpdates, s).
     bindR (d_newCoin (lx_dec x) denomIn (sr_AmountIn swapResult)) (\<lambda>tokenIn.
     bindR (d_newCoin (lx_dec x) (c_Denom desiredTokenOut) (sr_AmountOut swapResult)) (\<lambda>tokenOut.
       if \<not> c_Amount tokenIn > 0 then Inl (Err ''unexpected calculated amount'')
       else bindR (updatePoolForSwap x pool \<lparr>sd_Sender = sender, sd_TokenIn = tokenIn, sd_TokenOut = tokenOut\<rparr> poolUpdates
           (sr_Fees swapResult) s) (\<lambda>s. Inr (tokenIn, tokenOut, poolUpdates, s)))))"

definition SwapExactAmountIn :: "'b lpx \<Rightarrow> bytes \<Rightarrow> Pool \<Rightarrow> coin \<Rightarrow> string \<Rightarrow> bool \<Rightarrow> 'b lps \<Rightarrow> (int \<times> 'b lps) result" where
  "SwapExactAmountIn x sender pool tokenIn denomOut feeEnabled s =
     (if c_Denom tokenIn = denomOut then Inl (Err ''in and out denom duplication'')
      else
        let baseForQuote = isBaseForQuote (c_Denom tokenIn) (pl_DenomBase pool);
            rate = (if feeEnabled then pl_FeeRate pool else 0) in
        bindR (swapOutAmtGivenIn x sender pool tokenIn denomOut rate (GetPriceLimit baseForQuote) s)
          (\<lambda>(_, tokenOut, _, s). Inr (c_Amount tokenOut, s)))"

definition SwapExactAmountOut :: "'b lpx \<Rightarrow> bytes \<Rightarrow> Pool \<Rightarrow> coin \<Rightarrow> string \<Rightarrow> bool \<Rightarrow> 'b lps \<Rightarrow> (int \<times> 'b lps) result" where
  "SwapExactAmountOut x sender pool tokenOut denomIn feeEnabled s =
     (if c_Denom tokenOut = denomIn then Inl (Err ''in and out denom duplication'')
      else
        let baseForQuote = isBaseForQuote denomIn (pl_DenomBase pool);
            rate = (if feeEnabled then pl_FeeRate pool else 0) in
        bindR (swapInAmtGivenOut x sender pool tokenOut denomIn rate (GetPriceLimit baseForQuote) s)
          (\<lambda>(tokenIn, _, _, s). Inr (c_Amount tokenIn, s)))"

definition unboundedPriceLimit :: dec where "unboundedPriceLimit = 0"

text \<open>The calculations run on a branch of the store that is thrown away.\<close>

definition CalculateResultExactAmountIn :: "'b lpx \<Rightarrow> 'b lps \<Rightarrow> Pool \<Rightarrow> coin \<Rightarrow> string \<Rightarrow> bool \<Rightarrow> int result" where
  "CalculateResultExactAmountIn x s pool tokenIn denomOut feeEnabled =
     (let rate = (if feeEnabled then pl_FeeRate pool else 0) in
      bindR (computeOutAmtGivenIn x (pl_Id pool) tokenIn denomOut rate unboundedPriceLimit False s)
        (\<lambda>(swapResult, _, _). Inr (sr_AmountOut swapResult)))"

definition CalculateResultExactAmountOut :: "'b lpx \<Rightarrow> 'b lps \<Rightarrow> Pool \<Rightarrow> coin \<Rightarrow> string \<Rightarrow> bool \<Rightarrow> int result" where
  "CalculateResultExactAmountOut x s pool tokenOut denomIn feeEnabled =
     (let rate = (if feeEnabled then pl_FeeRate pool else 0) in
      bindR (computeInAmtGivenOut x tokenOut denomIn rate unboundedPriceLimit (pl_Id pool) False s)
        (\<lambda>(swapResult, _, _). Inr (sr_AmountIn swapResult)))"

section \<open>The largest input for a number of ticks\<close>

text \<open>
  The state of the loop is the swap state, the iterator and \<^verbatim>\<open>totalTokenOut\<close>. The price has been replaced by the computed one before
  it is compared with it, so the branch that would set the tick is never taken.
\<close>

fun max_in_loop :: "'b lpx \<Rightarrow> Pool \<Rightarrow> SwapHelper \<Rightarrow> nat \<Rightarrow> SwapState \<Rightarrow> tick_iter \<Rightarrow> dec \<Rightarrow> (SwapState \<times> dec) result" where
  "max_in_loop x p swapHelper 0 ss iter totalTokenOut = Inr (ss, totalTokenOut)"
| "max_in_loop x p swapHelper (Suc n) ss iter totalTokenOut =
     (if iter = [] then Inr (ss, totalTokenOut)
      else
        bindR (iteratorToNextTickSqrtPriceTarget (lx_dec x) iter p swapHelper)
          (\<lambda>(nextInitializedTick, nextInitializedTickSqrtPrice, sqrtPriceTarget).
        bindR (ComputeSwapWithinBucketInGivenOut (lx_dec x) swapHelper (ss_sqrtPrice ss) sqrtPriceTarget
            (ss_liquidity ss) (ss_amountSpecifiedRemaining ss))
          (\<lambda>(computedSqrtPrice, amountOut, amountIn, feeChargeTotal).
        let ss = ss\<lparr>ss_sqrtPrice := computedSqrtPrice,
              ss_amountSpecifiedRemaining := ss_amountSpecifiedRemaining ss - amountOut,
              ss_amountCalculated := ss_amountCalculated ss + (amountIn + feeChargeTotal)\<rparr>;
            totalTokenOut = totalTokenOut + amountOut in
        bindR (if nextInitializedTickSqrtPrice = computedSqrtPrice then
                 bindR (ParseTickFromBz iter) (\<lambda>info.
                   Inr (ss\<lparr>ss_liquidity := ss_liquidity ss + GetLiquidityDeltaSign (ss_swapHelper ss) (ti_LiquidityNet info),
                     ss_tick := NextTickAfterCrossing swapHelper nextInitializedTick\<rparr>, tl iter))
               else if edgeCaseInequalityBasedOnSwapHelper (BaseForQuote swapHelper) nextInitializedTickSqrtPrice computedSqrtPrice then
                 Inl (Err ''not equal computed sqrt price'')
               else if ss_sqrtPrice ss \<noteq> computedSqrtPrice then
                 bindR (CalculateSqrtPriceToTick (lx_dec x) computedSqrtPrice (pl_TickParams p)) (\<lambda>newTick.
                   Inr (ss\<lparr>ss_tick := newTick\<rparr>, iter))
               else Inr (ss, iter)) (\<lambda>(ss, iter).
        if amountOut = 0 then Inr (ss, totalTokenOut)
        else max_in_loop x p swapHelper n ss iter totalTokenOut))))"

definition ComputeMaxInAmtGivenMaxTicksCrossed :: "'b lpx \<Rightarrow> uint64 \<Rightarrow> string \<Rightarrow> uint64 \<Rightarrow> 'b lps \<Rightarrow> (coin \<times> coin) result" where
  "ComputeMaxInAmtGivenMaxTicksCrossed x poolId denomIn maxTicksCrossed s =
     bindR (getPoolForSwap s poolId) (\<lambda>p.
     if denomIn \<noteq> pl_DenomBase p \<and> denomIn \<noteq> pl_DenomQuote p then Inl (Err ''invalid in denom'')
     else
       let denomOut = (if denomIn = pl_DenomBase p then pl_DenomQuote p else pl_DenomBase p) in
       bindR (setupSwapHelper (lx_dec x) p (pl_FeeRate p) denomIn 0) (\<lambda>(swapHelper, _).
       let balance = lx_getBalance x (GetAddress x p) denomOut (ls_bank s);
           swapState = newSwapState (c_Amount balance) p swapHelper in
       bindR (NextTickIterator swapHelper s poolId (ss_tick swapState)) (\<lambda>iter.
       bindR (max_in_loop x p swapHelper (unat maxTicksCrossed) swapState iter 0) (\<lambda>(swapState, totalTokenOut).
       bindR (d_ceil (lx_dec x) (ss_amountCalculated swapState)) (\<lambda>c.
       bindR (d_truncateInt (lx_dec x) c) (\<lambda>maxAmt.
       bindR (d_newCoin (lx_dec x) denomIn maxAmt) (\<lambda>maxTokenIn.
       bindR (d_truncateInt (lx_dec x) totalTokenOut) (\<lambda>n.
       bindR (d_newCoin (lx_dec x) denomOut n) (\<lambda>resultingTokenOut. Inr (maxTokenIn, resultingTokenOut))))))))))"

end
