(* ===== verification/LpSwapBook.thy ===== *)
theory LpSwapBook
  imports LpOps LpSwap
begin

text \<open>
  Swaps: they keep the books, since crossing a tick changes its fee growth only; and the calculation of a swap, which
  updates nothing, returns what the swap itself returns.
\<close>

section \<open>Reasoning about the loop\<close>

lemma swap_loop_invariant:
  assumes run: "swap_loop step limit ss iter cnt s = Some (Inr (ss', s'))" and init: "I ss iter cnt s"
    and step: "\<And>ss iter cnt s ss' iter' cnt' s'. I ss iter cnt s \<Longrightarrow> 0 < ss_amountSpecifiedRemaining ss \<Longrightarrow> ss_sqrtPrice ss \<noteq> limit \<Longrightarrow>
      step ss iter cnt s = Inr (ss', iter', cnt', s') \<Longrightarrow> I ss' iter' cnt' s'"
  shows "\<exists>iter' cnt'. I ss' iter' cnt' s'"
proof -
  let ?P = "\<lambda>st lim ss iter cnt s r. st = step \<longrightarrow> lim = limit \<longrightarrow> I ss iter cnt s \<longrightarrow>
    (case r of Inl (_ :: fault) \<Rightarrow> True | Inr (ss', s') \<Rightarrow> \<exists>iter' cnt'. I ss' iter' cnt' s')"
  have "?P step limit ss iter cnt s (Inr (ss', s'))"
  proof (rule swap_loop.raw_induct [where P = ?P, OF _ run], intro impI, goal_cases)
    case (1 lp st lim ss iter cnt s r)
    show ?case
    proof (cases "0 < ss_amountSpecifiedRemaining ss \<and> ss_sqrtPrice ss \<noteq> limit")
      case True
      show ?thesis
      proof (cases "step ss iter cnt s")
        case (Inl er)
        then show ?thesis using 1(2,3,4) True by auto
      next
        case (Inr res)
        obtain ss1 it1 c1 s1 where res: "res = (ss1, it1, c1, s1)" by (cases res)
        have nx: "lp step limit ss1 it1 c1 s1 = Some r" using 1(2,3,4) True Inr res by simp
        have "I ss1 it1 c1 s1" using step [OF 1(5) _ _ Inr [unfolded res]] True by blast
        then show ?thesis using 1(1) [OF nx] by simp
      qed
    next
      case False
      then have "r = Inr (ss, s)" using 1(2,3,4) by auto
      then show ?thesis using 1(5) by auto
    qed
  qed
  then show ?thesis using init by simp
qed

text \<open>Two loops in lockstep: the second follows the first and leaves the store alone.\<close>

lemma swap_loop_sim:
  assumes run: "swap_loop f limit ss iter cnt s = Some (Inr (ss', s'))" and init: "R ss tt"
    and eq: "\<And>ss tt. R ss tt \<Longrightarrow> ss_amountSpecifiedRemaining tt = ss_amountSpecifiedRemaining ss \<and> ss_sqrtPrice tt = ss_sqrtPrice ss"
    and step: "\<And>ss tt iter cnt s ss1 it1 c1 s1. R ss tt \<Longrightarrow> f ss iter cnt s = Inr (ss1, it1, c1, s1) \<Longrightarrow>
      \<exists>tt1. g tt iter cnt u = Inr (tt1, it1, c1, u) \<and> R ss1 tt1"
  shows "\<exists>tt'. swap_loop g limit tt iter cnt u = Some (Inr (tt', u)) \<and> R ss' tt'"
proof -
  let ?P = "\<lambda>st lim ss iter cnt s r. st = f \<longrightarrow> lim = limit \<longrightarrow> (\<forall>tt. R ss tt \<longrightarrow>
    (case r of Inl (_ :: fault) \<Rightarrow> True | Inr (ss', s') \<Rightarrow> \<exists>tt'. swap_loop g limit tt iter cnt u = Some (Inr (tt', u)) \<and> R ss' tt'))"
  have "?P f limit ss iter cnt s (Inr (ss', s'))"
  proof (rule swap_loop.raw_induct [where P = ?P, OF _ run], intro impI allI, goal_cases)
    case (1 lp st lim ss iter cnt s r tt)
    note e = eq [OF 1(5)]
    show ?case
    proof (cases "0 < ss_amountSpecifiedRemaining ss \<and> ss_sqrtPrice ss \<noteq> limit")
      case True
      show ?thesis
      proof (cases "f ss iter cnt s")
        case (Inl er)
        then show ?thesis using 1(2,3,4) True by auto
      next
        case (Inr res)
        obtain ss1 it1 c1 s1 where res: "res = (ss1, it1, c1, s1)" by (cases res)
        have nx: "lp f limit ss1 it1 c1 s1 = Some r" using 1(2,3,4) True Inr res by simp
        from step [OF 1(5) Inr [unfolded res]] obtain tt1 where g: "g tt iter cnt u = Inr (tt1, it1, c1, u)" "R ss1 tt1" by blast
        have same: "swap_loop g limit tt iter cnt u = swap_loop g limit tt1 it1 c1 u"
          using True e g(1) by (subst swap_loop.simps) simp
        show ?thesis unfolding same using 1(1) [OF nx] g(2) by blast
      qed
    next
      case False
      then have "r = Inr (ss, s)" using 1(2,3,4) by auto
      moreover have "swap_loop g limit tt iter cnt u = Some (Inr (tt, u))" using False e by (subst swap_loop.simps) auto
      ultimately show ?thesis using 1(5) by simp
    qed
  qed
  then show ?thesis using init by simp
qed

section \<open>Calculation and execution\<close>

text \<open>Equal up to the fee growth.\<close>

definition same_swap :: "SwapState \<Rightarrow> SwapState \<Rightarrow> bool" where
  "same_swap ss tt \<longleftrightarrow> ss_amountSpecifiedRemaining tt = ss_amountSpecifiedRemaining ss \<and> ss_amountCalculated tt = ss_amountCalculated ss
     \<and> ss_sqrtPrice tt = ss_sqrtPrice ss \<and> ss_tick tt = ss_tick ss \<and> ss_liquidity tt = ss_liquidity ss \<and> ss_swapHelper tt = ss_swapHelper ss"

lemma same_swap_fields:
  assumes "same_swap ss tt"
  shows "ss_amountSpecifiedRemaining tt = ss_amountSpecifiedRemaining ss" "ss_amountCalculated tt = ss_amountCalculated ss"
    "ss_sqrtPrice tt = ss_sqrtPrice ss" "ss_tick tt = ss_tick ss" "ss_liquidity tt = ss_liquidity ss" "ss_swapHelper tt = ss_swapHelper ss"
  using assms by (auto simp: same_swap_def)

lemma same_swap_refl: "same_swap ss ss"
  by (simp add: same_swap_def)

lemma same_swap_update:
  assumes "same_swap ss tt"
  shows "same_swap (ss\<lparr>ss_tick := t\<rparr>) (tt\<lparr>ss_tick := t\<rparr>)"
    "same_swap (ss\<lparr>ss_liquidity := l, ss_tick := t\<rparr>) (tt\<lparr>ss_liquidity := l, ss_tick := t\<rparr>)"
    "same_swap (ss\<lparr>ss_sqrtPrice := p, ss_amountSpecifiedRemaining := r, ss_amountCalculated := c\<rparr>)
       (tt\<lparr>ss_sqrtPrice := p, ss_amountSpecifiedRemaining := r, ss_amountCalculated := c\<rparr>)"
  using assms by (auto simp: same_swap_def)

lemma updateFeeGrowthGlobal_same:
  assumes "updateFeeGrowthGlobal d f ss = Inr ss1" "same_swap ss tt"
  shows "same_swap ss1 tt"
  using assms by (auto simp: same_swap_def updateFeeGrowthGlobal_def Let_def split: if_splits elim!: bindR_E)

lemma finish_step_same:
  assumes run: "finish_step x p h nt ntp np start fa den up ss it s = Inr (ss1, it1, s1)" and same: "same_swap ss tt"
  shows "\<exists>tt1. finish_step x p h nt ntp np start fa den False tt it u = Inr (tt1, it1, u) \<and> same_swap ss1 tt1"
proof -
  note f = same_swap_fields [OF same] and upd = same_swap_update [OF same]
  consider (cross) "ntp = np" | (edge) "ntp \<noteq> np" "edgeCaseInequalityBasedOnSwapHelper (BaseForQuote h) ntp np"
    | (inside) "ntp \<noteq> np" "\<not> edgeCaseInequalityBasedOnSwapHelper (BaseForQuote h) ntp np" by blast
  then show ?thesis
  proof cases
    case cross
    then show ?thesis using run upd f by (auto simp: finish_step_def swapCrossTickLogic_def elim!: bindR_E)
  next
    case edge
    then show ?thesis using run by (simp add: finish_step_def)
  next
    case inside
    then show ?thesis using run upd f same by (auto simp: finish_step_def elim!: bindR_E split: if_splits)
  qed
qed

lemma out_given_in_step_same:
  assumes "out_given_in_step x p h fa den True ss it cnt s = Inr (ss1, it1, c1, s1)" "same_swap ss tt"
  shows "\<exists>tt1. out_given_in_step x p h fa den False tt it cnt u = Inr (tt1, it1, c1, u) \<and> same_swap ss1 tt1"
proof -
  let ?a = "ss_amountSpecifiedRemaining ss" and ?b = "ss_amountCalculated ss"
  from assms(1) obtain nt ntp target np ain aout fee ss0 ss2 where r:
      "iteratorToNextTickSqrtPriceTarget (lx_dec x) it p h = Inr (nt, ntp, target)"
      "ComputeSwapWithinBucketOutGivenIn (lx_dec x) h (ss_sqrtPrice ss) target (ss_liquidity ss) ?a = Inr (np, ain, aout, fee)"
      "validateSwapProgressAndAmountConsumption np (ss_sqrtPrice ss) ain aout = Inr ()"
      "updateFeeGrowthGlobal (lx_dec x) fee ss = Inr ss0"
      "finish_step x p h nt ntp np (ss_sqrtPrice ss) fa den True (ss0\<lparr>ss_sqrtPrice := np,
        ss_amountSpecifiedRemaining := ss_amountSpecifiedRemaining ss0 - (ain + fee), ss_amountCalculated := ss_amountCalculated ss0 + aout\<rparr>) it s
        = Inr (ss1, it1, s1)"
      "count_no_progress ain cnt = Inr c1"
    by (auto simp: out_given_in_step_def Let_def elim!: bindR_E)
  have same: "same_swap ss0 tt" by (rule updateFeeGrowthGlobal_same [OF r(4) assms(2)])
  note g = same_swap_fields [OF assms(2)] same_swap_fields [OF same]
  from finish_step_same [OF r(5) same_swap_update(3) [OF same], of u]
  obtain tt1 where "finish_step x p h nt ntp np (ss_sqrtPrice ss) fa den False (tt\<lparr>ss_sqrtPrice := np,
      ss_amountSpecifiedRemaining := ss_amountSpecifiedRemaining ss0 - (ain + fee), ss_amountCalculated := ss_amountCalculated ss0 + aout\<rparr>) it u
      = Inr (tt1, it1, u)" "same_swap ss1 tt1" by blast
  then show ?thesis using r(1-3,6) g by (simp add: out_given_in_step_def Let_def)
qed

lemma in_given_out_step_same:
  assumes "in_given_out_step x p h fa den True ss it cnt s = Inr (ss1, it1, c1, s1)" "same_swap ss tt"
  shows "\<exists>tt1. in_given_out_step x p h fa den False tt it cnt u = Inr (tt1, it1, c1, u) \<and> same_swap ss1 tt1"
proof -
  let ?a = "ss_amountSpecifiedRemaining ss"
  from assms(1) obtain nt ntp target np ain aout fee ss0 ss2 where r:
      "iteratorToNextTickSqrtPriceTarget (lx_dec x) it p h = Inr (nt, ntp, target)"
      "ComputeSwapWithinBucketInGivenOut (lx_dec x) h (ss_sqrtPrice ss) target (ss_liquidity ss) ?a = Inr (np, aout, ain, fee)"
      "validateSwapProgressAndAmountConsumption np (ss_sqrtPrice ss) ain aout = Inr ()"
      "updateFeeGrowthGlobal (lx_dec x) fee ss = Inr ss0"
      "finish_step x p h nt ntp np (ss_sqrtPrice ss) fa den True (ss0\<lparr>ss_sqrtPrice := np,
        ss_amountSpecifiedRemaining := ss_amountSpecifiedRemaining ss0 - aout, ss_amountCalculated := ss_amountCalculated ss0 + (ain + fee)\<rparr>) it s
        = Inr (ss1, it1, s1)"
      "count_no_progress aout cnt = Inr c1"
    by (auto simp: in_given_out_step_def Let_def elim!: bindR_E)
  have same: "same_swap ss0 tt" by (rule updateFeeGrowthGlobal_same [OF r(4) assms(2)])
  note g = same_swap_fields [OF assms(2)] same_swap_fields [OF same]
  from finish_step_same [OF r(5) same_swap_update(3) [OF same], of u]
  obtain tt1 where "finish_step x p h nt ntp np (ss_sqrtPrice ss) fa den False (tt\<lparr>ss_sqrtPrice := np,
      ss_amountSpecifiedRemaining := ss_amountSpecifiedRemaining ss0 - aout, ss_amountCalculated := ss_amountCalculated ss0 + (ain + fee)\<rparr>) it u
      = Inr (tt1, it1, u)" "same_swap ss1 tt1" by blast
  then show ?thesis using r(1-3,6) g by (simp add: in_given_out_step_def Let_def)
qed

lemma out_given_in_step_loop:
  assumes "swap_loop (out_given_in_step x p h fa den True) limit ss it cnt s = Some (Inr (ss', s'))"
  shows "\<exists>tt. swap_loop (out_given_in_step x p h fa den False) limit ss it cnt u = Some (Inr (tt, u)) \<and> same_swap ss' tt"
proof (rule swap_loop_sim [OF assms, where R = same_swap])
  fix ss tt iter cnt s ss1 it1 c1 s1
  assume "same_swap ss tt" "out_given_in_step x p h fa den True ss iter cnt s = Inr (ss1, it1, c1, s1)"
  then show "\<exists>tt1. out_given_in_step x p h fa den False tt iter cnt u = Inr (tt1, it1, c1, u) \<and> same_swap ss1 tt1"
    using out_given_in_step_same by blast
qed (simp_all add: same_swap_refl same_swap_fields)

lemma in_given_out_step_loop:
  assumes "swap_loop (in_given_out_step x p h fa den True) limit ss it cnt s = Some (Inr (ss', s'))"
  shows "\<exists>tt. swap_loop (in_given_out_step x p h fa den False) limit ss it cnt u = Some (Inr (tt, u)) \<and> same_swap ss' tt"
proof (rule swap_loop_sim [OF assms, where R = same_swap])
  fix ss tt iter cnt s ss1 it1 c1 s1
  assume "same_swap ss tt" "in_given_out_step x p h fa den True ss iter cnt s = Inr (ss1, it1, c1, s1)"
  then show "\<exists>tt1. in_given_out_step x p h fa den False tt iter cnt u = Inr (tt1, it1, c1, u) \<and> same_swap ss1 tt1"
    using in_given_out_step_same by blast
qed (simp_all add: same_swap_refl same_swap_fields)

text \<open>The steps of the two computations.\<close>

lemma computeOutAmtGivenIn_steps:
  assumes "computeOutAmtGivenIn x q tin dout rate pl up s = Inr (res, pu, s')"
  obtains p fa h limit it ss s1 c where "getPoolAndAccum s q (c_Denom tin) dout = Inr (p, fa)"
    "setupSwapHelper (lx_dec x) p rate (c_Denom tin) pl = Inr (h, limit)" "NextTickIterator h s q (pl_CurrentTick p) = Inr it"
    "swap_loop (out_given_in_step x p h fa (c_Denom tin) up) limit (newSwapState (c_Amount tin) p h) it 0 s = Some (Inr (ss, s1))"
    "0 \<le> ss_amountSpecifiedRemaining ss"
    "if up then (\<exists>g. AddToAccumulator x fa g s1 = Inr s') else s' = s1"
    "d_ceil (lx_dec x) (dec_of_int (c_Amount tin) - ss_amountSpecifiedRemaining ss) = Inr c" "d_truncateInt (lx_dec x) c = Inr (sr_AmountIn res)"
    "d_truncateInt (lx_dec x) (ss_amountCalculated ss) = Inr (sr_AmountOut res)" "sr_Fees res = ss_globalFeeGrowth ss"
    "pu = \<lparr>pu_NewCurrentTick = ss_tick ss, pu_NewLiquidity = ss_liquidity ss, pu_NewSqrtPrice = ss_sqrtPrice ss\<rparr>"
proof -
  from assms obtain p fa where 1: "getPoolAndAccum s q (c_Denom tin) dout = Inr (p, fa)" by (auto simp: computeOutAmtGivenIn_def elim!: bindR_E)
  note a = assms [unfolded computeOutAmtGivenIn_def 1 bindR_simps prod.case]
  from a obtain h limit where 2: "setupSwapHelper (lx_dec x) p rate (c_Denom tin) pl = Inr (h, limit)" by (auto elim!: bindR_E)
  note a = a [unfolded 2 bindR_simps prod.case Let_def]
  from a obtain it where 3: "NextTickIterator h s q (ss_tick (newSwapState (c_Amount tin) p h)) = Inr it" by (rule bindR_E)
  note a = a [unfolded 3 bindR_simps]
  from a obtain ss s1 where "join_loop (swap_loop (out_given_in_step x p h fa (c_Denom tin) up) limit (newSwapState (c_Amount tin) p h) it 0 s) = Inr (ss, s1)"
    by (auto elim!: bindR_E)
  then have 4: "swap_loop (out_given_in_step x p h fa (c_Denom tin) up) limit (newSwapState (c_Amount tin) p h) it 0 s = Some (Inr (ss, s1))"
    by (simp add: join_loop_def split: option.splits)
  note a = a [unfolded 4 join_loop_simps bindR_simps prod.case]
  then have 5: "0 \<le> ss_amountSpecifiedRemaining ss" by (auto split: if_splits)
  from 3 have 3: "NextTickIterator h s q (pl_CurrentTick p) = Inr it" by (simp add: newSwapState_def)
  show thesis using a 5 by (auto elim!: bindR_E split: if_splits intro!: that [OF 1 2 3 4 5])
qed

lemma computeInAmtGivenOut_steps:
  assumes "computeInAmtGivenOut x tout din rate pl q up s = Inr (res, pu, s')"
  obtains p fa h limit it ss s1 c where "getPoolAndAccum s q din (c_Denom tout) = Inr (p, fa)"
    "setupSwapHelper (lx_dec x) p rate din pl = Inr (h, limit)" "NextTickIterator h s q (pl_CurrentTick p) = Inr it"
    "swap_loop (in_given_out_step x p h fa din up) limit (newSwapState (c_Amount tout) p h) it 0 s = Some (Inr (ss, s1))"
    "0 \<le> ss_amountSpecifiedRemaining ss"
    "if up then (\<exists>g. AddToAccumulator x fa g s1 = Inr s') else s' = s1"
    "d_ceil (lx_dec x) (ss_amountCalculated ss) = Inr c" "d_truncateInt (lx_dec x) c = Inr (sr_AmountIn res)"
    "d_truncateInt (lx_dec x) (dec_of_int (c_Amount tout) - ss_amountSpecifiedRemaining ss) = Inr (sr_AmountOut res)"
    "sr_Fees res = ss_globalFeeGrowth ss"
    "pu = \<lparr>pu_NewCurrentTick = ss_tick ss, pu_NewLiquidity = ss_liquidity ss, pu_NewSqrtPrice = ss_sqrtPrice ss\<rparr>"
proof -
  from assms obtain p fa where 1: "getPoolAndAccum s q din (c_Denom tout) = Inr (p, fa)" by (auto simp: computeInAmtGivenOut_def elim!: bindR_E)
  note a = assms [unfolded computeInAmtGivenOut_def 1 bindR_simps prod.case]
  from a obtain h limit where 2: "setupSwapHelper (lx_dec x) p rate din pl = Inr (h, limit)" by (auto elim!: bindR_E)
  note a = a [unfolded 2 bindR_simps prod.case Let_def]
  from a obtain it where 3: "NextTickIterator h s q (ss_tick (newSwapState (c_Amount tout) p h)) = Inr it" by (rule bindR_E)
  note a = a [unfolded 3 bindR_simps]
  from a obtain ss s1 where "join_loop (swap_loop (in_given_out_step x p h fa din up) limit (newSwapState (c_Amount tout) p h) it 0 s) = Inr (ss, s1)"
    by (auto elim!: bindR_E)
  then have 4: "swap_loop (in_given_out_step x p h fa din up) limit (newSwapState (c_Amount tout) p h) it 0 s = Some (Inr (ss, s1))"
    by (simp add: join_loop_def split: option.splits)
  note a = a [unfolded 4 join_loop_simps bindR_simps prod.case]
  then have 5: "0 \<le> ss_amountSpecifiedRemaining ss" by (auto split: if_splits)
  from 3 have 3: "NextTickIterator h s q (pl_CurrentTick p) = Inr it" by (simp add: newSwapState_def)
  show thesis using a 5 by (auto elim!: bindR_E split: if_splits intro!: that [OF 1 2 3 4 5])
qed

lemma GetSqrtPriceLimit_unbounded: "GetSqrtPriceLimit d (GetPriceLimit b) b = GetSqrtPriceLimit d unboundedPriceLimit b"
  by (simp add: GetSqrtPriceLimit_def GetPriceLimit_def unboundedPriceLimit_def MinSpotPrice_def MaxSpotPrice_def MinSqrtPrice_def
      MaxSqrtPrice_def dec_of_int_def dec_one_def)

lemma setupSwapHelper_unbounded:
  "setupSwapHelper d p rate den (GetPriceLimit (isBaseForQuote den (pl_DenomBase p))) = setupSwapHelper d p rate den unboundedPriceLimit"
  by (simp add: setupSwapHelper_def GetSqrtPriceLimit_unbounded)

lemma computeOutAmtGivenIn_quote:
  assumes pool: "GetPool s q = Some p"
    and run: "computeOutAmtGivenIn x q tin dout rate (GetPriceLimit (isBaseForQuote (c_Denom tin) (pl_DenomBase p))) True s = Inr (res, pu, s')"
  shows "\<exists>res'. computeOutAmtGivenIn x q tin dout rate unboundedPriceLimit False s = Inr (res', pu, s)
    \<and> sr_AmountIn res' = sr_AmountIn res \<and> sr_AmountOut res' = sr_AmountOut res"
proof -
  obtain p' fa h limit it ss s1 c where r: "getPoolAndAccum s q (c_Denom tin) dout = Inr (p', fa)"
    "setupSwapHelper (lx_dec x) p' rate (c_Denom tin) (GetPriceLimit (isBaseForQuote (c_Denom tin) (pl_DenomBase p))) = Inr (h, limit)"
    "NextTickIterator h s q (pl_CurrentTick p') = Inr it"
    "swap_loop (out_given_in_step x p' h fa (c_Denom tin) True) limit (newSwapState (c_Amount tin) p' h) it 0 s = Some (Inr (ss, s1))"
    "0 \<le> ss_amountSpecifiedRemaining ss"
    "d_ceil (lx_dec x) (dec_of_int (c_Amount tin) - ss_amountSpecifiedRemaining ss) = Inr c" "d_truncateInt (lx_dec x) c = Inr (sr_AmountIn res)"
    "d_truncateInt (lx_dec x) (ss_amountCalculated ss) = Inr (sr_AmountOut res)"
    "pu = \<lparr>pu_NewCurrentTick = ss_tick ss, pu_NewLiquidity = ss_liquidity ss, pu_NewSqrtPrice = ss_sqrtPrice ss\<rparr>"
    by (rule computeOutAmtGivenIn_steps [OF run])
  have p': "p' = p" using r(1) pool by (auto simp: getPoolAndAccum_def getPoolForSwap_def split: if_splits elim!: bindR_E)
  have su: "setupSwapHelper (lx_dec x) p rate (c_Denom tin) unboundedPriceLimit = Inr (h, limit)"
    using r(2) unfolding p' setupSwapHelper_unbounded .
  obtain tt where tt: "swap_loop (out_given_in_step x p h fa (c_Denom tin) False) limit (newSwapState (c_Amount tin) p h) it 0 s = Some (Inr (tt, s))"
      "same_swap ss tt"
    using out_given_in_step_loop [OF r(4) [unfolded p']] by blast
  note f = same_swap_fields [OF tt(2)]
  have "NextTickIterator h s q (ss_tick (newSwapState (c_Amount tin) p h)) = Inr it" using r(3) p' by (simp add: newSwapState_def)
  then show ?thesis
    using r(1,5-9) tt(1) su f unfolding computeOutAmtGivenIn_def p' by (simp add: Let_def)
qed

lemma computeInAmtGivenOut_quote:
  assumes pool: "GetPool s q = Some p"
    and run: "computeInAmtGivenOut x tout din rate (GetPriceLimit (isBaseForQuote din (pl_DenomBase p))) q True s = Inr (res, pu, s')"
  shows "\<exists>res'. computeInAmtGivenOut x tout din rate unboundedPriceLimit q False s = Inr (res', pu, s)
    \<and> sr_AmountIn res' = sr_AmountIn res \<and> sr_AmountOut res' = sr_AmountOut res"
proof -
  obtain p' fa h limit it ss s1 c where r: "getPoolAndAccum s q din (c_Denom tout) = Inr (p', fa)"
    "setupSwapHelper (lx_dec x) p' rate din (GetPriceLimit (isBaseForQuote din (pl_DenomBase p))) = Inr (h, limit)"
    "NextTickIterator h s q (pl_CurrentTick p') = Inr it"
    "swap_loop (in_given_out_step x p' h fa din True) limit (newSwapState (c_Amount tout) p' h) it 0 s = Some (Inr (ss, s1))"
    "0 \<le> ss_amountSpecifiedRemaining ss"
    "d_ceil (lx_dec x) (ss_amountCalculated ss) = Inr c" "d_truncateInt (lx_dec x) c = Inr (sr_AmountIn res)"
    "d_truncateInt (lx_dec x) (dec_of_int (c_Amount tout) - ss_amountSpecifiedRemaining ss) = Inr (sr_AmountOut res)"
    "pu = \<lparr>pu_NewCurrentTick = ss_tick ss, pu_NewLiquidity = ss_liquidity ss, pu_NewSqrtPrice = ss_sqrtPrice ss\<rparr>"
    by (rule computeInAmtGivenOut_steps [OF run])
  have p': "p' = p" using r(1) pool by (auto simp: getPoolAndAccum_def getPoolForSwap_def split: if_splits elim!: bindR_E)
  have su: "setupSwapHelper (lx_dec x) p rate din unboundedPriceLimit = Inr (h, limit)"
    using r(2) unfolding p' setupSwapHelper_unbounded .
  obtain tt where tt: "swap_loop (in_given_out_step x p h fa din False) limit (newSwapState (c_Amount tout) p h) it 0 s = Some (Inr (tt, s))"
      "same_swap ss tt"
    using in_given_out_step_loop [OF r(4) [unfolded p']] by blast
  note f = same_swap_fields [OF tt(2)]
  have "NextTickIterator h s q (ss_tick (newSwapState (c_Amount tout) p h)) = Inr it" using r(3) p' by (simp add: newSwapState_def)
  then show ?thesis
    using r(1,5-9) tt(1) su f unfolding computeInAmtGivenOut_def p' by (simp add: Let_def)
qed

section \<open>Swaps\<close>

lemma swapOutAmtGivenIn_steps:
  assumes "swapOutAmtGivenIn x sender pool tin dout rate pl s = Inr (t1, t2, pu, s')"
  obtains res s1 where "computeOutAmtGivenIn x (pl_Id pool) tin dout rate pl True s = Inr (res, pu, s1)"
    "d_newCoin (lx_dec x) (c_Denom tin) (sr_AmountIn res) = Inr t1" "d_newCoin (lx_dec x) dout (sr_AmountOut res) = Inr t2"
    "0 < c_Amount t2" "updatePoolForSwap x pool \<lparr>sd_Sender = sender, sd_TokenIn = t1, sd_TokenOut = t2\<rparr> pu (sr_Fees res) s1 = Inr s'"
  using assms by (auto simp: swapOutAmtGivenIn_def split: if_splits elim!: bindR_E)

lemma swapInAmtGivenOut_steps:
  assumes "swapInAmtGivenOut x sender pool tout din rate pl s = Inr (t1, t2, pu, s')"
  obtains res s1 where "computeInAmtGivenOut x tout din rate pl (pl_Id pool) True s = Inr (res, pu, s1)"
    "d_newCoin (lx_dec x) din (sr_AmountIn res) = Inr t1" "d_newCoin (lx_dec x) (c_Denom tout) (sr_AmountOut res) = Inr t2"
    "0 < c_Amount t1" "updatePoolForSwap x pool \<lparr>sd_Sender = sender, sd_TokenIn = t1, sd_TokenOut = t2\<rparr> pu (sr_Fees res) s1 = Inr s'"
  using assms by (auto simp: swapInAmtGivenOut_def split: if_splits elim!: bindR_E)

lemma SwapExactAmountIn_steps:
  assumes "SwapExactAmountIn x sender pool tin dout fe s = Inr (n, s')"
  obtains t1 t2 pu where "swapOutAmtGivenIn x sender pool tin dout (if fe then pl_FeeRate pool else 0)
      (GetPriceLimit (isBaseForQuote (c_Denom tin) (pl_DenomBase pool))) s = Inr (t1, t2, pu, s')" "n = c_Amount t2"
  using assms by (auto simp: SwapExactAmountIn_def Let_def split: if_splits elim!: bindR_E)

lemma SwapExactAmountOut_steps:
  assumes "SwapExactAmountOut x sender pool tout din fe s = Inr (n, s')"
  obtains t1 t2 pu where "swapInAmtGivenOut x sender pool tout din (if fe then pl_FeeRate pool else 0)
      (GetPriceLimit (isBaseForQuote din (pl_DenomBase pool))) s = Inr (t1, t2, pu, s')" "n = c_Amount t1"
  using assms by (auto simp: SwapExactAmountOut_def Let_def split: if_splits elim!: bindR_E)

lemma exact_in_quote:
  assumes "newCoin_ok (lx_dec x)" "GetPool s (pl_Id pool) = Some pool" "SwapExactAmountIn x sender pool tin dout fe s = Inr (n, s')"
  shows "CalculateResultExactAmountIn x s pool tin dout fe = Inr n"
proof -
  let ?rate = "if fe then pl_FeeRate pool else 0"
  obtain t1 t2 pu where 1: "swapOutAmtGivenIn x sender pool tin dout ?rate
      (GetPriceLimit (isBaseForQuote (c_Denom tin) (pl_DenomBase pool))) s = Inr (t1, t2, pu, s')" "n = c_Amount t2"
    by (rule SwapExactAmountIn_steps [OF assms(3)])
  obtain res s1 where 2: "computeOutAmtGivenIn x (pl_Id pool) tin dout ?rate
      (GetPriceLimit (isBaseForQuote (c_Denom tin) (pl_DenomBase pool))) True s = Inr (res, pu, s1)"
      "d_newCoin (lx_dec x) dout (sr_AmountOut res) = Inr t2"
    by (rule swapOutAmtGivenIn_steps [OF 1(1)])
  obtain res' where "computeOutAmtGivenIn x (pl_Id pool) tin dout ?rate unboundedPriceLimit False s = Inr (res', pu, s)"
      "sr_AmountOut res' = sr_AmountOut res"
    using computeOutAmtGivenIn_quote [OF assms(2) 2(1)] by blast
  then show ?thesis using newCoinD(1) [OF assms(1) 2(2)] 1(2) by (simp add: CalculateResultExactAmountIn_def)
qed

lemma exact_out_quote:
  assumes "newCoin_ok (lx_dec x)" "GetPool s (pl_Id pool) = Some pool" "SwapExactAmountOut x sender pool tout din fe s = Inr (n, s')"
  shows "CalculateResultExactAmountOut x s pool tout din fe = Inr n"
proof -
  let ?rate = "if fe then pl_FeeRate pool else 0"
  obtain t1 t2 pu where 1: "swapInAmtGivenOut x sender pool tout din ?rate
      (GetPriceLimit (isBaseForQuote din (pl_DenomBase pool))) s = Inr (t1, t2, pu, s')" "n = c_Amount t1"
    by (rule SwapExactAmountOut_steps [OF assms(3)])
  obtain res s1 where 2: "computeInAmtGivenOut x tout din ?rate
      (GetPriceLimit (isBaseForQuote din (pl_DenomBase pool))) (pl_Id pool) True s = Inr (res, pu, s1)"
      "d_newCoin (lx_dec x) din (sr_AmountIn res) = Inr t1"
    by (rule swapInAmtGivenOut_steps [OF 1(1)])
  obtain res' where "computeInAmtGivenOut x tout din ?rate unboundedPriceLimit (pl_Id pool) False s = Inr (res', pu, s)"
      "sr_AmountIn res' = sr_AmountIn res"
    using computeInAmtGivenOut_quote [OF assms(2) 2(1)] by blast
  then show ?thesis using newCoinD(1) [OF assms(1) 2(2)] 1(2) by (simp add: CalculateResultExactAmountOut_def)
qed

section \<open>The books\<close>

definition tick_proj :: "TickInfo \<Rightarrow> uint64 \<times> int \<times> dec \<times> dec" where
  "tick_proj i = (ti_PoolId i, ti_TickIndex i, ti_LiquidityGross i, ti_LiquidityNet i)"

definition fee_only :: "'b lps \<Rightarrow> 'b lps \<Rightarrow> bool" where
  "fee_only s s' \<longleftrightarrow> (\<exists>m. s' = s\<lparr>ls_ticks := m\<rparr> \<and> kv_ok m \<and> (\<forall>k. map_option tick_proj (kv_get m k) = map_option tick_proj (kv_get (ls_ticks s) k)))"

definition iter_ok :: "'b lps \<Rightarrow> tick_iter \<Rightarrow> bool" where
  "iter_ok s it \<longleftrightarrow> (\<forall>e\<in>set it. kv_get (ls_ticks s) (GetTickInfoIDBytes (ti_PoolId (snd e)) (ti_TickIndex (snd e))) = Some (snd e))"

lemma fee_only_refl: "kv_ok (ls_ticks s) \<Longrightarrow> fee_only s s"
  by (auto simp: fee_only_def intro!: exI [of _ "ls_ticks s"])

lemma tick_values_by_proj:
  "tick_gross s q t = (case map_option tick_proj (kv_get (ls_ticks s) (GetTickInfoIDBytes q t)) of None \<Rightarrow> 0 | Some (_, _, g, _) \<Rightarrow> g)"
  "tick_net s q t = (case map_option tick_proj (kv_get (ls_ticks s) (GetTickInfoIDBytes q t)) of None \<Rightarrow> 0 | Some (_, _, _, n) \<Rightarrow> n)"
  by (simp_all add: tick_gross_def tick_net_def tick_proj_def split: option.splits)

lemma book_fee_only:
  assumes "book s" "fee_only s s'"
  shows "book s'" "GetPosition s' = GetPosition s" "GetPositionCount s' = GetPositionCount s" "GetPool s' = GetPool s"
    "ls_accums s' = ls_accums s" "ls_byPool s' = ls_byPool s"
proof -
  obtain m where m: "s' = s\<lparr>ls_ticks := m\<rparr>" "kv_ok m" "\<And>k. map_option tick_proj (kv_get m k) = map_option tick_proj (kv_get (ls_ticks s) k)"
    using assms(2) by (auto simp: fee_only_def)
  show same: "GetPosition s' = GetPosition s" "GetPositionCount s' = GetPositionCount s" "GetPool s' = GetPool s"
      "ls_accums s' = ls_accums s" "ls_byPool s' = ls_byPool s"
    by (simp_all add: m(1) GetPosition_def GetPositionCount_def GetPool_def fun_eq_iff)
  have sums: "possum f s' = possum f s" "tick_gross s' = tick_gross s" "tick_net s' = tick_net s" "tot s' = tot s" "nums s' = nums s"
      "fee_shares s' = fee_shares s" "accums_ok s' = accums_ok s" for f
    by (simp_all add: m(1,3) possum_def tick_values_by_proj tot_def nums_def fee_shares_def accums_ok_def fun_eq_iff)
  have "k = GetTickInfoIDBytes (ti_PoolId i) (ti_TickIndex i) \<and> int64 (ti_TickIndex i)" if "kv_get m k = Some i" for k i
  proof -
    have "map_option tick_proj (kv_get (ls_ticks s) k) = Some (tick_proj i)" using m(3) [of k] that by simp
    then obtain j where j: "kv_get (ls_ticks s) k = Some j" "tick_proj j = tick_proj i" by (auto simp: map_option_eq_Some)
    then have "k = GetTickInfoIDBytes (ti_PoolId j) (ti_TickIndex j) \<and> int64 (ti_TickIndex j)"
      using assms(1) unfolding book_def ticks_ok_def by blast
    then show ?thesis using j(2) by (simp add: tick_proj_def)
  qed
  then have "ticks_ok s'" by (simp add: ticks_ok_def m(1))
  moreover have "stores_ok s'" using assms(1) m(2) by (simp add: book_def stores_ok_def sums) (simp add: m(1))
  ultimately show "book s'"
    using assms(1) unfolding book_def pools_ok_def positions_ok_def position_ok_def ticks_balance_def shares_balance_def by (simp add: same sums)
qed

lemma crossTick_fee_only:
  assumes fo: "fee_only s s1" and i: "kv_get (ls_ticks s) (GetTickInfoIDBytes (ti_PoolId i) (ti_TickIndex i)) = Some i"
    and run: "crossTick x i g v s1 = Inr s2"
  shows "fee_only s s2"
proof -
  obtain m where m: "s1 = s\<lparr>ls_ticks := m\<rparr>" "kv_ok m" "\<And>k. map_option tick_proj (kv_get m k) = map_option tick_proj (kv_get (ls_ticks s) k)"
    using fo by (auto simp: fee_only_def)
  from run obtain w where "s2 = SetTickInfo (i\<lparr>ti_FeeGrowth := w\<rparr>) s1" by (auto simp: crossTick_def elim!: bindR_E)
  then have "s2 = s\<lparr>ls_ticks := kv_set (GetTickInfoIDBytes (ti_PoolId i) (ti_TickIndex i)) (i\<lparr>ti_FeeGrowth := w\<rparr>) m\<rparr>"
    by (simp add: SetTickInfo_def m(1))
  moreover have "tick_proj (i\<lparr>ti_FeeGrowth := w\<rparr>) = tick_proj i" by (simp add: tick_proj_def)
  ultimately show ?thesis using m(2,3) i by (auto simp: fee_only_def)
qed

lemma finish_step_fee_only:
  assumes "finish_step x p h nt ntp np start fa den up ss it s1 = Inr (ss2, it2, s2)" "fee_only s s1" "iter_ok s it"
  shows "fee_only s s2 \<and> iter_ok s it2"
proof -
  from assms(1) consider "s2 = s1" "it2 = it"
    | "it2 = tl it" "s2 = s1 \<or> (\<exists>i g. ParseTickFromBz it = Inr i \<and> crossTick x i g (ao_AccumValue fa) s1 = Inr s2)"
    by (auto simp: finish_step_def swapCrossTickLogic_def split: if_splits elim!: bindR_E) blast
  then show ?thesis
  proof cases
    case 2
    then have "iter_ok s it2" using assms(3) by (cases it) (auto simp: iter_ok_def)
    moreover have "fee_only s s2"
      using 2(2) assms(2,3) crossTick_fee_only [OF assms(2)]
      by (auto simp: ParseTickFromBz_def iter_ok_def split: list.splits)
    ultimately show ?thesis by blast
  qed (use assms in auto)
qed

lemma steps_fee_only:
  "out_given_in_step x p h fa den up ss it cnt s1 = Inr (ss2, it2, c2, s2) \<Longrightarrow> fee_only s s1 \<Longrightarrow> iter_ok s it \<Longrightarrow> fee_only s s2 \<and> iter_ok s it2"
  "in_given_out_step x p h fa den up ss it cnt s1 = Inr (ss2, it2, c2, s2) \<Longrightarrow> fee_only s s1 \<Longrightarrow> iter_ok s it \<Longrightarrow> fee_only s s2 \<and> iter_ok s it2"
  by (auto simp: out_given_in_step_def in_given_out_step_def Let_def elim!: bindR_E dest!: finish_step_fee_only)

lemma loop_fee_only:
  assumes "swap_loop st limit ss it cnt s = Some (Inr (ss', s'))" "kv_ok (ls_ticks s)" "iter_ok s it"
    and "st = out_given_in_step x p h fa den up \<or> st = in_given_out_step x p h fa den up"
  shows "fee_only s s'"
proof -
  have "\<exists>it' cnt' :: int. fee_only s s' \<and> iter_ok s it'"
  proof (rule swap_loop_invariant [OF assms(1), where I = "\<lambda>_ it _ s1. fee_only s s1 \<and> iter_ok s it"])
    show "fee_only s s \<and> iter_ok s it" using assms(2,3) fee_only_refl by blast
    fix ss iter cnt s1 ss' it' cnt' s'
    assume "fee_only s s1 \<and> iter_ok s iter" "st ss iter cnt s1 = Inr (ss', it', cnt', s')"
    then show "fee_only s s' \<and> iter_ok s it'" using assms(4) steps_fee_only by (elim disjE conjE) simp_all
  qed
  then show ?thesis by blast
qed

lemma skip_to_suffix: "skip_to P it = Inr it' \<Longrightarrow> set it' \<subseteq> set it"
  by (induction it) (auto split: sum.splits if_splits)

lemma NextTickIterator_ok:
  assumes "ticks_ok s" "kv_ok (ls_ticks s)" "NextTickIterator h s q t = Inr it"
  shows "iter_ok s it"
proof -
  have "set it \<subseteq> set (tick_store s q)"
    using assms(3) by (cases h) (auto simp: NextTickIterator_bfq_def NextTickIterator_qfb_def Let_def dest!: skip_to_suffix)
  moreover have "kv_get (ls_ticks s) (GetTickInfoIDBytes (ti_PoolId (snd e)) (ti_TickIndex (snd e))) = Some (snd e)" if e: "e \<in> set (tick_store s q)" for e
  proof -
    obtain k where "(k, snd e) \<in> set (ls_ticks s)" using e by (auto simp: tick_store_def kv_prefix_def)
    then have "kv_get (ls_ticks s) k = Some (snd e)" using kv.get_iff [OF assms(2)] by blast
    then show ?thesis using assms(1) unfolding ticks_ok_def by metis
  qed
  ultimately show ?thesis by (auto simp: iter_ok_def)
qed

text \<open>A swap as a whole: the pool moves, the positions stay.\<close>

lemma updatePoolForSwap_steps:
  assumes "updatePoolForSwap x pool sd pu fees s = Inr s'"
  obtains a b cs s1 u v w s2 a' b' cs' s3 pool' where "send_lp x a b cs s = Inr s1"
    "s2 = s1 \<or> send_lp x u v w s1 = Inr s2" "send_lp x a' b' cs' s2 = Inr s3"
    "ApplySwap pool (pu_NewLiquidity pu) (pu_NewCurrentTick pu) (pu_NewSqrtPrice pu) = Inr pool'" "s' = SetPool pool' s3"
proof -
  from assms obtain fee s1 s2 s3 cs pool' where st: "send_lp x (sd_Sender sd) (GetAddress x pool) cs s = Inr s1"
      "(if c_Amount fee \<noteq> 0 then send_lp x (sd_Sender sd) (GetFeesAddress x pool) [fee] s1 else Inr s1) = Inr s2"
      "send_lp x (GetAddress x pool) (sd_Sender sd) [sd_TokenOut sd] s2 = Inr s3"
      "ApplySwap pool (pu_NewLiquidity pu) (pu_NewCurrentTick pu) (pu_NewSqrtPrice pu) = Inr pool'" "s' = SetPool pool' s3"
    unfolding updatePoolForSwap_def Let_def by (elim bindR_E) blast
  from st(2) have "s2 = s1 \<or> send_lp x (sd_Sender sd) (GetFeesAddress x pool) [fee] s1 = Inr s2" by (simp split: if_splits)
  then show thesis by (rule that [OF st(1) _ st(3,4,5)])
qed

lemma updatePoolForSwap_book:
  assumes book: "book s" and pool: "GetPool s (pl_Id pool) \<noteq> None" and run: "updatePoolForSwap x pool sd pu fees s = Inr s'"
  shows "book s' \<and> GetPosition s' = GetPosition s \<and> GetPositionCount s' = GetPositionCount s"
proof -
  obtain a b cs s1 u v w s2 a' b' cs' s3 pool' where st: "send_lp x a b cs s = Inr s1"
      "s2 = s1 \<or> send_lp x u v w s1 = Inr s2" "send_lp x a' b' cs' s2 = Inr s3"
      "ApplySwap pool (pu_NewLiquidity pu) (pu_NewCurrentTick pu) (pu_NewSqrtPrice pu) = Inr pool'" "s' = SetPool pool' s3"
    by (rule updatePoolForSwap_steps [OF run])
  have acc: "accums_ok s" using book by (simp add: book_defs)
  have 1: "settles s s1" "core s1 = core s" using send_settles [OF acc st(1)] send_core [OF st(1)] by blast+
  then have "accums_ok s1" by (simp add: settles_def)
  then have 2: "settles s1 s2" "core s2 = core s1" using st(2) send_settles send_core settles_refl by blast+
  then have "accums_ok s2" by (simp add: settles_def)
  then have 3: "settles s2 s3" "core s3 = core s2" using st(3) send_settles send_core by blast+
  have core: "core s3 = core s" and "settles s s3" using 1 2 3 settles_trans by (simp, blast)
  then have "book s3" using book_keeps [OF book] settles_keeps by blast
  moreover have "pl_Id pool' = pl_Id pool" using st(4) by (auto simp: ApplySwap_def split: if_splits)
  ultimately show ?thesis
    using book_SetPool [of s3 pool'] pool core_fields(9,10) [OF core] core_sums(4) [OF core] st(5) by simp
qed

lemma swap_book_aux:
  assumes book: "book s" and pool: "GetPool s (pl_Id pool) \<noteq> None" and fa: "GetFeeAccumulator s q = Inr fa"
    and it: "NextTickIterator h s q' t = Inr it"
    and loop: "swap_loop st limit ss it cnt s = Some (Inr (ss', s1))"
      "st = out_given_in_step x p h' fa den up \<or> st = in_given_out_step x p h' fa den up"
    and add: "AddToAccumulator x fa g s1 = Inr s2" and upd: "updatePoolForSwap x pool sd pu fees s2 = Inr s'"
  shows "book s' \<and> GetPosition s' = GetPosition s \<and> GetPositionCount s' = GetPositionCount s"
proof -
  have ok: "ticks_ok s" "kv_ok (ls_ticks s)" using book by (simp_all add: book_defs)
  have fo: "fee_only s s1" by (rule loop_fee_only [OF loop(1) ok(2) NextTickIterator_ok [OF ok it] loop(2)])
  note b1 = book_fee_only [OF book fo]
  have "accums_ok s1" using b1(1) by (simp add: book_defs)
  moreover have "GetAccumulator s1 (KeyFeePoolAccumulator q) = Inr fa"
    using fa b1(5) by (simp add: GetFeeAccumulator_def GetAccumulator_def)
  ultimately have se: "settles s1 s2" using AddToAccumulator_settles add by blast
  have core: "core s2 = core s1" by (rule AddToAccumulator_core [OF add])
  have b2: "book s2" by (rule book_keeps [OF b1(1) core settles_keeps [OF se]])
  have "GetPool s2 (pl_Id pool) \<noteq> None" using pool b1(4) core_fields(9) [OF core] by simp
  from updatePoolForSwap_book [OF b2 this upd] show ?thesis
    using b1(2,3) core_fields(10) [OF core] core_sums(4) [OF core] by simp
qed

lemma getPoolAndAccum_Inr: "getPoolAndAccum s q a b = Inr (p, fa) \<Longrightarrow> GetPool s q = Some p \<and> GetFeeAccumulator s q = Inr fa"
  by (auto simp: getPoolAndAccum_def getPoolForSwap_def split: if_splits option.splits elim!: bindR_E)

lemma SwapExactAmountIn_book:
  assumes "book s" "SwapExactAmountIn x sender pool tin dout fe s = Inr (n, s')"
  shows "book s' \<and> GetPosition s' = GetPosition s \<and> GetPositionCount s' = GetPositionCount s"
proof -
  obtain t1 t2 pu where 1: "swapOutAmtGivenIn x sender pool tin dout (if fe then pl_FeeRate pool else 0)
      (GetPriceLimit (isBaseForQuote (c_Denom tin) (pl_DenomBase pool))) s = Inr (t1, t2, pu, s')"
    by (rule SwapExactAmountIn_steps [OF assms(2)])
  obtain res s2 where 2: "computeOutAmtGivenIn x (pl_Id pool) tin dout (if fe then pl_FeeRate pool else 0)
      (GetPriceLimit (isBaseForQuote (c_Denom tin) (pl_DenomBase pool))) True s = Inr (res, pu, s2)"
      "updatePoolForSwap x pool \<lparr>sd_Sender = sender, sd_TokenIn = t1, sd_TokenOut = t2\<rparr> pu (sr_Fees res) s2 = Inr s'"
    by (rule swapOutAmtGivenIn_steps [OF 1])
  obtain p fa h limit it ss s1 where r: "getPoolAndAccum s (pl_Id pool) (c_Denom tin) dout = Inr (p, fa)"
    "NextTickIterator h s (pl_Id pool) (pl_CurrentTick p) = Inr it"
    "swap_loop (out_given_in_step x p h fa (c_Denom tin) True) limit (newSwapState (c_Amount tin) p h) it 0 s = Some (Inr (ss, s1))"
    "if True then \<exists>g. AddToAccumulator x fa g s1 = Inr s2 else s2 = s1"
    by (rule computeOutAmtGivenIn_steps [OF 2(1)])
  obtain g where g: "AddToAccumulator x fa g s1 = Inr s2" using r(4) by auto
  have "GetPool s (pl_Id pool) \<noteq> None" "GetFeeAccumulator s (pl_Id pool) = Inr fa" using getPoolAndAccum_Inr [OF r(1)] by auto
  from swap_book_aux [OF assms(1) this r(2,3) disjI1 [OF refl] g 2(2)] show ?thesis .
qed

lemma SwapExactAmountOut_book:
  assumes "book s" "SwapExactAmountOut x sender pool tout din fe s = Inr (n, s')"
  shows "book s' \<and> GetPosition s' = GetPosition s \<and> GetPositionCount s' = GetPositionCount s"
proof -
  obtain t1 t2 pu where 1: "swapInAmtGivenOut x sender pool tout din (if fe then pl_FeeRate pool else 0)
      (GetPriceLimit (isBaseForQuote din (pl_DenomBase pool))) s = Inr (t1, t2, pu, s')"
    by (rule SwapExactAmountOut_steps [OF assms(2)])
  obtain res s2 where 2: "computeInAmtGivenOut x tout din (if fe then pl_FeeRate pool else 0)
      (GetPriceLimit (isBaseForQuote din (pl_DenomBase pool))) (pl_Id pool) True s = Inr (res, pu, s2)"
      "updatePoolForSwap x pool \<lparr>sd_Sender = sender, sd_TokenIn = t1, sd_TokenOut = t2\<rparr> pu (sr_Fees res) s2 = Inr s'"
    by (rule swapInAmtGivenOut_steps [OF 1])
  obtain p fa h limit it ss s1 where r: "getPoolAndAccum s (pl_Id pool) din (c_Denom tout) = Inr (p, fa)"
    "NextTickIterator h s (pl_Id pool) (pl_CurrentTick p) = Inr it"
    "swap_loop (in_given_out_step x p h fa din True) limit (newSwapState (c_Amount tout) p h) it 0 s = Some (Inr (ss, s1))"
    "if True then \<exists>g. AddToAccumulator x fa g s1 = Inr s2 else s2 = s1"
    by (rule computeInAmtGivenOut_steps [OF 2(1)])
  obtain g where g: "AddToAccumulator x fa g s1 = Inr s2" using r(4) by auto
  have "GetPool s (pl_Id pool) \<noteq> None" "GetFeeAccumulator s (pl_Id pool) = Inr fa" using getPoolAndAccum_Inr [OF r(1)] by auto
  from swap_book_aux [OF assms(1) this r(2,3) disjI2 [OF refl] g 2(2)] show ?thesis .
qed

end
