(* ===== verification/LpChain.thy ===== *)
theory LpChain
  imports LpSwapBook
begin

text \<open>
  The module over the life of the chain: the messages of \<^verbatim>\<open>proto/sunrise/liquiditypool/tx.proto\<close> and the keeper calls of the other modules,
  from the default genesis state. A message that fails is dropped and leaves the state as it was.
\<close>

section \<open>Genesis and messages\<close>

definition DefaultGenesis_lp :: lpGenesis where
  "DefaultGenesis_lp = \<lparr>gs_PoolList = [], gs_PoolCount = 0, gs_PositionList = [], gs_PositionCount = 0, gs_Params = DefaultParams_lp\<rparr>"

definition empty_lps :: "'b \<Rightarrow> 'b lps" where
  "empty_lps bank = \<lparr>ls_pools = [], ls_poolCount = None, ls_positions = [], ls_positionCount = None, ls_byPool = [], ls_byAddress = [],
     ls_ticks = [], ls_accums = [], ls_accumPositions = [], ls_params = None, ls_bank = bank\<rparr>"

datatype lp_msg =
  Msg_CreatePool MsgCreatePool
| Msg_CreatePosition MsgCreatePosition
| Msg_IncreaseLiquidity MsgIncreaseLiquidity
| Msg_DecreaseLiquidity MsgDecreaseLiquidity
| Msg_ClaimRewards string "uint64 list"
| Msg_UpdateParams string lpParams
| Call_SwapExactAmountIn bytes Pool coin string bool
| Call_SwapExactAmountOut bytes Pool coin string bool
| Call_AllocateIncentive uint64 bytes "coin list"

fun lp_exec :: "'b lpx \<Rightarrow> lp_msg \<Rightarrow> 'b lps \<Rightarrow> 'b lps result" where
  "lp_exec x (Msg_CreatePool m) s = bindR (CreatePool x m s) (\<lambda>(_, s). Inr s)"
| "lp_exec x (Msg_CreatePosition m) s = bindR (CreatePosition x m s) (\<lambda>(_, s). Inr s)"
| "lp_exec x (Msg_IncreaseLiquidity m) s = bindR (IncreaseLiquidity x m s) (\<lambda>(_, s). Inr s)"
| "lp_exec x (Msg_DecreaseLiquidity m) s = bindR (DecreaseLiquidity_msg x m s) (\<lambda>(_, _, s). Inr s)"
| "lp_exec x (Msg_ClaimRewards sender ids) s = bindR (ClaimRewards_msg x sender ids s) (\<lambda>(_, s). Inr s)"
| "lp_exec x (Msg_UpdateParams a p) s = UpdateParams_lp x a p s"
| "lp_exec x (Call_SwapExactAmountIn sender pool tin dout fe) s = bindR (SwapExactAmountIn x sender pool tin dout fe s) (\<lambda>(_, s). Inr s)"
| "lp_exec x (Call_SwapExactAmountOut sender pool tout din fe) s = bindR (SwapExactAmountOut x sender pool tout din fe s) (\<lambda>(_, s). Inr s)"
| "lp_exec x (Call_AllocateIncentive q sender cs) s = AllocateIncentive x q sender cs s"

definition lp_deliver :: "'b lpx \<Rightarrow> lp_msg \<Rightarrow> 'b lps \<Rightarrow> 'b lps" where
  "lp_deliver x m s = (case lp_exec x m s of Inl _ \<Rightarrow> s | Inr s' \<Rightarrow> s')"

definition lp_run :: "'b lpx \<Rightarrow> lp_msg list \<Rightarrow> 'b \<Rightarrow> 'b lps" where
  "lp_run x ms bank = fold (lp_deliver x) ms (InitGenesis_lp DefaultGenesis_lp (empty_lps bank))"

section \<open>Every message keeps the books\<close>

lemma book_init: "book (InitGenesis_lp DefaultGenesis_lp (empty_lps bank))"
  by (simp add: book_defs position_ok_def InitGenesis_lp_def DefaultGenesis_lp_def empty_lps_def Let_def SetPoolCount_def SetPositionCount_def SetParams_lp_def
      GetPool_def GetPosition_def kv_ok_def accums_ok_def tick_gross_def tick_net_def possum_def fee_shares_def nums_def tot_def)

lemma book_SetParams: "book s \<Longrightarrow> book (SetParams_lp p s)"
  by (simp add: book_defs position_ok_def SetParams_lp_def GetPool_def GetPosition_def GetPositionCount_def accums_ok_def tick_gross_def
      tick_net_def possum_def fee_shares_def nums_def tot_def)

text \<open>What a message does to the positions.\<close>

definition owns :: "'b lpx \<Rightarrow> lp_msg \<Rightarrow> uint64 \<Rightarrow> Position \<Rightarrow> bool" where
  "owns x m i p = (case m of
       Msg_IncreaseLiquidity msg \<Rightarrow> mi_Id msg = i \<and> mi_Sender msg = po_Address p
     | Msg_DecreaseLiquidity msg \<Rightarrow> md_Id msg = i \<and> map_sum (\<lambda>e. e) (lx_accString x) (lx_accAddress x (md_Sender msg)) = Inr (po_Address p)
     | _ \<Rightarrow> False)"

definition lp_moved :: "'b lpx \<Rightarrow> lp_msg \<Rightarrow> 'b lps \<Rightarrow> 'b lps \<Rightarrow> bool" where
  "lp_moved x m s s' \<longleftrightarrow> book s' \<and> (GetPositionCount s' = GetPositionCount s \<or> GetPositionCount s' = GetPositionCount s + 1)
     \<and> (\<forall>i p. GetPosition s i = Some p \<longrightarrow> GetPosition s' i = Some p \<or> owns x m i p)
     \<and> (\<forall>i p. GetPosition s' i = Some p \<longrightarrow> GetPosition s i = Some p \<or> 0 < po_Liquidity p)"

lemma lp_moved_same:
  "book s' \<Longrightarrow> GetPosition s' = GetPosition s \<Longrightarrow> GetPositionCount s' = GetPositionCount s \<Longrightarrow> lp_moved x m s s'"
  by (simp add: lp_moved_def)

lemma CreatePosition_moved:
  assumes "book s" "GetPositionCount s \<noteq> - 1" "CreatePosition x msg s = Inr (r, s')"
  shows "lp_moved x (Msg_CreatePosition msg) s s'"
  using CreatePosition_book [OF assms] by (auto simp: lp_moved_def)

lemma IncreaseLiquidity_moved:
  assumes "book s" "GetPositionCount s \<noteq> - 1" "IncreaseLiquidity x msg s = Inr (r, s')"
  shows "lp_moved x (Msg_IncreaseLiquidity msg) s s'"
  using IncreaseLiquidity_book [OF assms] by (auto simp: lp_moved_def owns_def fun_upd_def split: if_splits)

lemma DecreaseLiquidity_moved:
  assumes "book s" "DecreaseLiquidity_msg x msg s = Inr (b, c, s')"
  shows "lp_moved x (Msg_DecreaseLiquidity msg) s s'"
proof -
  from assms(2) obtain sender liq where d: "lx_accAddress x (md_Sender msg) = Inr sender" "DecreaseLiquidity x sender (md_Id msg) liq s = Inr (b, c, s')"
    by (auto simp: DecreaseLiquidity_msg_def elim!: bindR_E)
  note b = DecreaseLiquidity_book [OF assms(1) d(2)]
  obtain p where p: "GetPosition s (md_Id msg) = Some p" "lx_accString x sender = po_Address p" "liq \<le> po_Liquidity p"
      "GetPosition s' = (GetPosition s)(md_Id msg := if liq = po_Liquidity p then None else Some (p\<lparr>po_Liquidity := po_Liquidity p - liq\<rparr>))"
    using b(3) by blast
  show ?thesis
    by (cases "liq = po_Liquidity p") (use b(1,2) p d(1) in \<open>auto simp: lp_moved_def owns_def split: if_splits\<close>)
qed

lemma lp_exec_moved:
  assumes b: "book s" and c: "GetPositionCount s \<noteq> - 1" and run: "lp_exec x m s = Inr s'"
  shows "lp_moved x m s s'"
proof (cases m)
  case (Msg_CreatePool msg)
  then obtain q where "CreatePool x msg s = Inr (q, s')" using run by (auto elim!: bindR_E)
  with CreatePool_book [OF b this] show ?thesis by (simp add: lp_moved_same)
next
  case (Msg_CreatePosition msg)
  then show ?thesis using run CreatePosition_moved [OF b c] by (auto elim!: bindR_E)
next
  case (Msg_IncreaseLiquidity msg)
  then show ?thesis using run IncreaseLiquidity_moved [OF b c] by (auto elim!: bindR_E)
next
  case (Msg_DecreaseLiquidity msg)
  then show ?thesis using run DecreaseLiquidity_moved [OF b] by (auto elim!: bindR_E)
next
  case (Msg_ClaimRewards sender ids)
  then obtain cs where "ClaimRewards_msg x sender ids s = Inr (cs, s')" using run by (auto elim!: bindR_E)
  with ClaimRewards_msg_book [OF b this] core_fields(10) core_sums(4) show ?thesis by (intro lp_moved_same) blast+
next
  case (Msg_UpdateParams a p)
  then have "s' = SetParams_lp p s" using run by (simp add: UpdateParams_lp_def split: if_splits)
  then show ?thesis using book_SetParams [OF b]
    by (intro lp_moved_same) (simp_all add: SetParams_lp_def GetPosition_def GetPositionCount_def fun_eq_iff)
next
  case (Call_SwapExactAmountIn sender pool tin dout fe)
  then obtain n where "SwapExactAmountIn x sender pool tin dout fe s = Inr (n, s')" using run by (auto elim!: bindR_E)
  from SwapExactAmountIn_book [OF b this] show ?thesis by (simp add: lp_moved_same)
next
  case (Call_SwapExactAmountOut sender pool tout din fe)
  then obtain n where "SwapExactAmountOut x sender pool tout din fe s = Inr (n, s')" using run by (auto elim!: bindR_E)
  from SwapExactAmountOut_book [OF b this] show ?thesis by (simp add: lp_moved_same)
next
  case (Call_AllocateIncentive q sender cs)
  then have "AllocateIncentive x q sender cs s = Inr s'" using run by simp
  with AllocateIncentive_book [OF b this] core_fields(10) core_sums(4) show ?thesis by (intro lp_moved_same) blast+
qed

lemma lp_moved_funded: "funded s \<Longrightarrow> lp_moved x m s s' \<Longrightarrow> funded s'"
  unfolding funded_def lp_moved_def by blast

text \<open>The count of positions rises by at most one with every message, so it stays within its 64 bits for as long as there are fewer messages than that.\<close>

lemma lp_run_inv:
  assumes "length ms < 2 ^ 64 - 1"
  shows "book (lp_run x ms bank) \<and> funded (lp_run x ms bank) \<and> unat (GetPositionCount (lp_run x ms bank)) \<le> length ms"
  using assms
proof (induction ms rule: rev_induct)
  case Nil
  have "GetPosition (lp_run x [] bank) = (\<lambda>_. None)" "GetPositionCount (lp_run x [] bank) = 0"
    by (simp_all add: lp_run_def InitGenesis_lp_def DefaultGenesis_lp_def empty_lps_def Let_def SetPoolCount_def SetPositionCount_def
        SetParams_lp_def GetPosition_def GetPositionCount_def fun_eq_iff)
  then show ?case using book_init by (simp add: funded_def lp_run_def)
next
  case (snoc m ms)
  let ?s = "lp_run x ms bank"
  have IH: "book ?s" "funded ?s" "unat (GetPositionCount ?s) \<le> length ms" using snoc by auto
  have c: "GetPositionCount ?s \<noteq> - 1"
  proof
    assume "GetPositionCount ?s = - 1"
    moreover have "unat (- 1 :: uint64) = 2 ^ 64 - 1" by (simp add: unsigned_minus_1_eq_mask mask_eq_exp_minus_1)
    ultimately show False using IH(3) snoc.prems by simp
  qed
  have run: "lp_run x (ms @ [m]) bank = lp_deliver x m ?s" by (simp add: lp_run_def)
  show ?case
  proof (cases "lp_exec x m ?s")
    case (Inl e)
    then show ?thesis using IH by (simp add: run lp_deliver_def)
  next
    case (Inr s')
    from lp_exec_moved [OF IH(1) c Inr] have mv: "lp_moved x m ?s s'" .
    then have "GetPositionCount s' = GetPositionCount ?s \<or> GetPositionCount s' = GetPositionCount ?s + 1" by (simp add: lp_moved_def)
    then have "unat (GetPositionCount s') \<le> length ms + 1" using IH(3) by (auto simp: unat_word_ariths intro: order_trans [OF mod_less_eq_dividend])
    then show ?thesis using mv lp_moved_funded [OF IH(2) mv] Inr by (simp add: run lp_deliver_def lp_moved_def)
  qed
qed

end
