(* ===== verification/LiEpoch.thy ===== *)
theory LiEpoch
  imports LiTally LpChain
begin

text \<open>
  Epochs, gauges and the distribution of incentives: \<^verbatim>\<open>x/liquidityincentive/keeper/epoch.go\<close>, \<^verbatim>\<open>gauge.go\<close>, \<^verbatim>\<open>abci.go\<close>, the
  messages and the genesis state. At the end of a block a new epoch takes the tallied weights as its gauges; at the beginning of every block the
  gauges of the last epoch share the incentives, through the liquidity pool keeper.
\<close>

section \<open>Epochs\<close>

definition GetEpochCount :: "'b lis \<Rightarrow> uint64" where
  "GetEpochCount s = (case li_epochCount s of None \<Rightarrow> 0 | Some n \<Rightarrow> n)"

definition SetEpochCount :: "uint64 \<Rightarrow> 'b lis \<Rightarrow> 'b lis" where
  "SetEpochCount n s = s\<lparr>li_epochCount := Some n\<rparr>"

definition SetEpoch :: "Epoch \<Rightarrow> 'b lis \<Rightarrow> 'b lis" where
  "SetEpoch epoch s = s\<lparr>li_epochs := kv_set (ep_Id epoch) epoch (li_epochs s)\<rparr>"

definition AppendEpoch :: "Epoch \<Rightarrow> 'b lis \<Rightarrow> uint64 \<times> 'b lis" where
  "AppendEpoch epoch s =
     (let n = GetEpochCount s; s = SetEpoch (epoch\<lparr>ep_Id := n\<rparr>) s in (n, SetEpochCount (n + 1) s))"

definition GetEpoch :: "'b lis \<Rightarrow> uint64 \<Rightarrow> Epoch option" where
  "GetEpoch s i = kv_get (li_epochs s) i"

definition RemoveEpoch :: "uint64 \<Rightarrow> 'b lis \<Rightarrow> 'b lis" where
  "RemoveEpoch i s = s\<lparr>li_epochs := kv_delete i (li_epochs s)\<rparr>"

definition GetLastEpoch :: "'b lis \<Rightarrow> Epoch option" where
  "GetLastEpoch s = (case rev (li_epochs s) of [] \<Rightarrow> None | e # _ \<Rightarrow> Some (snd e))"

definition GetAllEpoch :: "'b lis \<Rightarrow> Epoch list" where
  "GetAllEpoch s = map snd (li_epochs s)"

section \<open>Gauges\<close>

definition GaugeKeyPrefixByPreviousEpochId :: "uint64 \<Rightarrow> bytes" where
  "GaugeKeyPrefixByPreviousEpochId previousEpochId = str ''Gauge/value/'' @ PutUint64 previousEpochId @ str ''/''"

definition GaugeKey :: "uint64 \<Rightarrow> uint64 \<Rightarrow> bytes" where
  "GaugeKey previousEpochId poolId = GaugeKeyPrefixByPreviousEpochId previousEpochId @ PutUint64 poolId @ str ''/''"

definition SetGauge :: "Gauge \<Rightarrow> 'b lis \<Rightarrow> 'b lis" where
  "SetGauge gauge s = s\<lparr>li_gauges := kv_set (GaugeKey (ga_PreviousEpochId gauge) (ga_PoolId gauge)) gauge (li_gauges s)\<rparr>"

definition GetGauge :: "'b lis \<Rightarrow> uint64 \<Rightarrow> uint64 \<Rightarrow> Gauge option" where
  "GetGauge s previousEpochId poolId = kv_get (li_gauges s) (GaugeKey previousEpochId poolId)"

definition RemoveGauge :: "uint64 \<Rightarrow> uint64 \<Rightarrow> 'b lis \<Rightarrow> 'b lis" where
  "RemoveGauge previousEpochId poolId s = s\<lparr>li_gauges := kv_delete (GaugeKey previousEpochId poolId) (li_gauges s)\<rparr>"

definition GetAllGauges :: "'b lis \<Rightarrow> Gauge list" where
  "GetAllGauges s = map snd (kv_prefix (str ''Gauge/value/'') (li_gauges s))"

definition GetAllGaugeByPreviousEpochId :: "'b lis \<Rightarrow> uint64 \<Rightarrow> Gauge list" where
  "GetAllGaugeByPreviousEpochId s previousEpochId = map snd (kv_prefix (GaugeKeyPrefixByPreviousEpochId previousEpochId) (li_gauges s))"

section \<open>Parameters\<close>

definition GetParams_li :: "'b lis \<Rightarrow> liParams" where
  "GetParams_li s = (case li_params s of None \<Rightarrow> \<lparr>lip_EpochBlocks = 0, lip_StakingRewardRatio = None\<rparr> | Some p \<Rightarrow> p)"

definition SetParams_li :: "liParams \<Rightarrow> 'b lis \<Rightarrow> 'b lis" where
  "SetParams_li p s = s\<lparr>li_params := Some p\<rparr>"

definition DefaultParams_li :: liParams where
  "DefaultParams_li = \<lparr>lip_EpochBlocks = 5, lip_StakingRewardRatio = Some (5 * 10 ^ 17)\<rparr>"

definition UpdateParams_li :: "'b lix \<Rightarrow> string \<Rightarrow> liParams \<Rightarrow> 'b lis \<Rightarrow> 'b lis result" where
  "UpdateParams_li x authority params s =
     (if li_authority x \<noteq> authority then Inl (Err ''expected gov account as only signer for proposal message'')
      else Inr (SetParams_li params s))"

section \<open>Votes\<close>

record MsgVoteGauge =
  mv_Sender :: string
  mv_Weights :: "PoolWeight list"

definition ValidateBasic_vote :: "'b lix \<Rightarrow> MsgVoteGauge \<Rightarrow> unit result" where
  "ValidateBasic_vote x msg =
     bindR (on_err (Err ''invalid sender address'') (lx_accAddress (li_lpx x) (mv_Sender msg))) (\<lambda>_.
       if sum_list (map pw_Weight (mv_Weights msg)) > dec_one then Inl (Err ''total weight is greator than 1'') else Inr ())"

definition VoteGauge :: "MsgVoteGauge \<Rightarrow> 'b lis \<Rightarrow> 'b lis result" where
  "VoteGauge msg s =
     (if list_ex (\<lambda>w. GetPool (li_lp s) (pw_PoolId w) = None) (mv_Weights msg) then Inl ErrPoolNotFound_lp
      else Inr (SetVote \<lparr>vo_Sender = mv_Sender msg, vo_Weights = mv_Weights msg\<rparr> s))"

section \<open>The end of a block\<close>

definition gauge_of :: "uint64 \<Rightarrow> PoolWeight \<Rightarrow> Gauge" where
  "gauge_of previousEpochId weight = \<lparr>ga_PreviousEpochId = previousEpochId, ga_PoolId = pw_PoolId weight, ga_Ratio = pw_Weight weight\<rparr>"

definition CreateEpoch :: "'b lix \<Rightarrow> stk \<Rightarrow> map_order \<Rightarrow> int \<Rightarrow> uint64 \<Rightarrow> uint64 \<Rightarrow> 'b lis \<Rightarrow> 'b lis result" where
  "CreateEpoch x k ord height previousEpochId epochId s =
     bindR (Tally x k ord s) (\<lambda>weights.
       if weights = [] then Inr s
       else
         let gauges = map (gauge_of previousEpochId) weights;
             s = fold SetGauge gauges s;
             params = GetParams_li s
         in Inr (SetEpoch \<lparr>ep_Id = epochId, ep_StartBlock = height, ep_EndBlock = wrap_int (height + lip_EpochBlocks params),
              ep_Gauges = gauges\<rparr> s))"

definition drop_oldest :: "'b lis \<Rightarrow> 'b lis" where
  "drop_oldest s =
     (case GetAllEpoch s of
        epoch # _ # _ # _ \<Rightarrow>
          fold (\<lambda>gauge. RemoveGauge (ga_PreviousEpochId gauge) (ga_PoolId gauge)) (ep_Gauges epoch) (RemoveEpoch (ep_Id epoch) s)
      | _ \<Rightarrow> s)"

definition EndBlocker_li :: "'b lix \<Rightarrow> stk \<Rightarrow> map_order \<Rightarrow> int \<Rightarrow> 'b lis \<Rightarrow> 'b lis result" where
  "EndBlocker_li x k ord height s =
     (case GetLastEpoch s of
        None \<Rightarrow>
          (case CreateEpoch x k ord height 0 1 s of Inl (Err _) \<Rightarrow> Inr s | r \<Rightarrow> r)
      | Some lastEpoch \<Rightarrow>
          if height \<ge> ep_EndBlock lastEpoch then
            (case CreateEpoch x k ord height (ep_Id lastEpoch) (ep_Id lastEpoch + 1) s of
               Inl (Err _) \<Rightarrow> Inr s
             | Inl f \<Rightarrow> Inl f
             | Inr s \<Rightarrow> Inr (drop_oldest s))
          else Inr s)"

section \<open>The beginning of a block\<close>

definition BondDenom :: string where "BondDenom = ''uvrise''"

definition incentiveFees :: "'b lix \<Rightarrow> 'b lis \<Rightarrow> decCoins result" where
  "incentiveFees x s =
     (let feeCollector = lx_moduleAddress (li_lpx x) ''fee_collector'';
          fees = li_getAllBalances x feeCollector (ls_bank (li_lp s))
      in bindR (d_newCoin (li_dec x) BondDenom (li_amountOf x fees BondDenom)) (\<lambda>amount.
         bindR (dc_fromCoins (lx_dc (li_lpx x)) [amount]) (\<lambda>feesDec.
           case lip_StakingRewardRatio (GetParams_li s) of
             None \<Rightarrow> Inl (Panic ''nil decimal'')
           | Some stakingRewardRatio \<Rightarrow> li_mulDecTruncate x feesDec (dec_one - stakingRewardRatio))))"

definition allocation :: "'b lix \<Rightarrow> decCoins \<Rightarrow> dec \<Rightarrow> Gauge \<Rightarrow> coin list result" where
  "allocation x incentiveFeesDec totalWeight weight =
     bindR (d_quo (li_dec x) (ga_Ratio weight) totalWeight) (\<lambda>ratio.
     bindR (li_mulDecTruncate x incentiveFeesDec ratio) (\<lambda>allocationDec.
     bindR (dc_truncateDecimal (lx_dc (li_lpx x)) allocationDec) (\<lambda>(allocation, _). Inr allocation)))"

definition allocate :: "'b lix \<Rightarrow> decCoins \<Rightarrow> dec \<Rightarrow> Gauge \<Rightarrow> 'b lis \<Rightarrow> 'b lis result" where
  "allocate x incentiveFeesDec totalWeight weight s =
     bindR (allocation x incentiveFeesDec totalWeight weight) (\<lambda>allocation.
       if li_isAllPositive x allocation then
         bindR (AllocateIncentive (li_lpx x) (ga_PoolId weight) (lx_moduleAddress (li_lpx x) ''fee_collector'') allocation (li_lp s)) (\<lambda>lp.
           Inr (s\<lparr>li_lp := lp\<rparr>))
       else Inr s)"

definition total_weight :: "Epoch \<Rightarrow> dec" where
  "total_weight lastEpoch = sum_list (map ga_Ratio (ep_Gauges lastEpoch))"

definition BeginBlocker_li :: "'b lix \<Rightarrow> 'b lis \<Rightarrow> 'b lis result" where
  "BeginBlocker_li x s =
     bindR (incentiveFees x s) (\<lambda>incentiveFeesDec.
       case GetLastEpoch s of
         None \<Rightarrow> Inr s
       | Some lastEpoch \<Rightarrow>
           if total_weight lastEpoch = 0 then Inr s
           else foldR (allocate x incentiveFeesDec (total_weight lastEpoch)) (ep_Gauges lastEpoch) s)"

section \<open>Genesis\<close>

record liGenesis =
  lg_Params :: liParams
  lg_Epochs :: "Epoch list"
  lg_EpochCount :: uint64
  lg_Gauges :: "Gauge list"
  lg_Votes :: "Vote list"

definition DefaultGenesis_li :: liGenesis where
  "DefaultGenesis_li = \<lparr>lg_Params = DefaultParams_li, lg_Epochs = [], lg_EpochCount = 0, lg_Gauges = [], lg_Votes = []\<rparr>"

fun check_gauges :: "bytes list \<Rightarrow> Gauge list \<Rightarrow> unit result" where
  "check_gauges seen [] = Inr ()"
| "check_gauges seen (g # gs) =
     (let i = GaugeKey (ga_PreviousEpochId g) (ga_PoolId g) in
      if List.member seen i then Inl (Err ''duplicated index for gauge'') else check_gauges (i # seen) gs)"

definition Validate_genesis_li :: "liGenesis \<Rightarrow> unit result" where
  "Validate_genesis_li gs =
     bindR (check_ids ''epoch'' (lg_EpochCount gs) [] (map ep_Id (lg_Epochs gs))) (\<lambda>_. check_gauges [] (lg_Gauges gs))"

definition InitGenesis_li :: "liGenesis \<Rightarrow> 'b lis \<Rightarrow> 'b lis" where
  "InitGenesis_li gs s =
     (let s = fold SetEpoch (lg_Epochs gs) s;
          s = SetEpochCount (lg_EpochCount gs) s;
          s = fold SetGauge (lg_Gauges gs) s;
          s = fold SetVote (lg_Votes gs) s
      in SetParams_li (lg_Params gs) s)"

definition ExportGenesis_li :: "'b lis \<Rightarrow> liGenesis" where
  "ExportGenesis_li s =
     \<lparr>lg_Params = GetParams_li s, lg_Epochs = GetAllEpoch s, lg_EpochCount = GetEpochCount s, lg_Gauges = GetAllGauges s, lg_Votes = GetAllVotes s\<rparr>"

section \<open>Histories\<close>

text \<open>
  The states that the module reaches together with the liquidity pool: messages of both modules, and the calls at the beginning and the end of
  blocks that succeed. The number counts the steps.
\<close>

definition empty_lis :: "'b lps \<Rightarrow> 'b lis" where
  "empty_lis lp = \<lparr>li_epochs = [], li_epochCount = None, li_gauges = [], li_votes = [], li_params = None, li_lp = lp\<rparr>"

inductive li_reach :: "'b lix \<Rightarrow> nat \<Rightarrow> 'b lis \<Rightarrow> bool" for x where
  genesis: "li_reach x 0 (InitGenesis_li DefaultGenesis_li (empty_lis (InitGenesis_lp DefaultGenesis_lp (empty_lps bank))))"
| vote: "li_reach x n s \<Longrightarrow> ValidateBasic_vote x m = Inr () \<Longrightarrow> VoteGauge m s = Inr s' \<Longrightarrow> li_reach x (Suc n) s'"
| params: "li_reach x n s \<Longrightarrow> UpdateParams_li x a p s = Inr s' \<Longrightarrow> li_reach x (Suc n) s'"
| pool: "li_reach x n s \<Longrightarrow> lp_exec (li_lpx x) m (li_lp s) = Inr lp \<Longrightarrow> li_reach x (Suc n) (s\<lparr>li_lp := lp\<rparr>)"
| begin_block: "li_reach x n s \<Longrightarrow> BeginBlocker_li x s = Inr s' \<Longrightarrow> li_reach x (Suc n) s'"
| end_block: "li_reach x n s \<Longrightarrow> map_order_ok ord \<Longrightarrow> EndBlocker_li x k ord height s = Inr s' \<Longrightarrow> li_reach x (Suc n) s'"

end
