(* ===== verification/LiChain.thy ===== *)
theory LiChain
  imports LiEpoch
begin

text \<open>
  The invariant of \<^verbatim>\<open>x/liquidityincentive\<close>: at most two epochs with consecutive numbers, whose gauges are exactly the stored gauges; the pool keeper's
  state is one that the messages of the pool module reach.
\<close>

section \<open>The invariant\<close>

definition gkey :: "Gauge \<Rightarrow> bytes" where
  "gkey g = GaugeKey (ga_PreviousEpochId g) (ga_PoolId g)"

definition epoch_ok :: "uint64 \<times> Epoch \<Rightarrow> bool" where
  "epoch_ok ie \<longleftrightarrow> ep_Id (snd ie) = fst ie \<and> 0 < fst ie \<and> ep_Gauges (snd ie) \<noteq> []
     \<and> (\<forall>g\<in>set (ep_Gauges (snd ie)). ga_PreviousEpochId g = fst ie - 1) \<and> sorted_wrt (<) (map ga_PoolId (ep_Gauges (snd ie)))"

fun consecutive :: "uint64 list \<Rightarrow> bool" where
  "consecutive (i # j # is) \<longleftrightarrow> i < j \<and> j = i + 1 \<and> consecutive (j # is)"
| "consecutive _ \<longleftrightarrow> True"

definition gauges_of :: "(uint64, Epoch) kv \<Rightarrow> Gauge set" where
  "gauges_of es = (\<Union>e\<in>set es. set (ep_Gauges (snd e)))"

definition epochs_ok :: "'b lis \<Rightarrow> bool" where
  "epochs_ok s \<longleftrightarrow> consecutive (map fst (li_epochs s)) \<and> (\<forall>ie\<in>set (li_epochs s). epoch_ok ie)
     \<and> kv_ok (li_gauges s) \<and> set (li_gauges s) = (\<lambda>g. (gkey g, g)) ` gauges_of (li_epochs s)"

definition li_inv :: "nat \<Rightarrow> 'b lis \<Rightarrow> bool" where
  "li_inv n s \<longleftrightarrow> epochs_ok s \<and> length (li_epochs s) \<le> 2 \<and> GetEpochCount s = 0
     \<and> (\<forall>e. GetLastEpoch s = Some e \<longrightarrow> unat (ep_Id e) \<le> n)"

lemma GaugeKey_inject [simp]: "GaugeKey p q = GaugeKey p' q' \<longleftrightarrow> p = p' \<and> q = q'"
  by (simp add: GaugeKey_def GaugeKeyPrefixByPreviousEpochId_def)

lemma gkey_inject: "gkey g = gkey h \<longleftrightarrow> ga_PreviousEpochId g = ga_PreviousEpochId h \<and> ga_PoolId g = ga_PoolId h"
  by (simp add: gkey_def)

lemma fold_SetGauge: "fold SetGauge gs s = s\<lparr>li_gauges := fold (\<lambda>g. kv_set (gkey g) g) gs (li_gauges s)\<rparr>"
  by (induction gs arbitrary: s) (simp_all add: SetGauge_def gkey_def)

lemma fold_RemoveGauge:
  "fold (\<lambda>g. RemoveGauge (ga_PreviousEpochId g) (ga_PoolId g)) gs s = s\<lparr>li_gauges := filter (\<lambda>e. fst e \<notin> gkey ` set gs) (li_gauges s)\<rparr>"
proof (induction gs arbitrary: s)
  case (Cons g gs)
  then show ?case by (simp add: RemoveGauge_def kv_delete_def gkey_def)
qed simp

lemma consecutive_snoc:
  assumes "consecutive is" "is = [] \<or> (last is < last is + 1 \<and> j = last is + 1)"
  shows "consecutive (is @ [j])"
  using assms by (induction "is" rule: consecutive.induct) auto

lemma consecutive_below_last:
  assumes "consecutive is" "i \<in> set is"
  shows "i \<le> last is"
  using assms
proof (induction "is" arbitrary: i rule: consecutive.induct)
  case (1 a b r)
  have "consecutive (b # r)" using 1(2) unfolding consecutive.simps by blast
  from 1(1) [OF this, of b] have "b \<le> last (b # r)" by simp
  moreover have "a < b" using 1(2) unfolding consecutive.simps by blast
  ultimately have "a \<le> last (b # r)" by simp
  moreover have "i \<le> last (b # r)" if "i \<noteq> a" using 1(1) [OF \<open>consecutive (b # r)\<close>, of i] 1(3) that by simp
  ultimately show ?case by (cases "i = a") auto
qed auto

lemma kv_set_snoc: "(\<And>e. e \<in> set m \<Longrightarrow> fst e < k) \<Longrightarrow> kv_set k v m = m @ [(k, v)]"
  by (induction k v m rule: kv_set.induct) (auto simp: not_less_iff_gr_or_eq, force+)

section \<open>The end of a block\<close>

text \<open>A new epoch comes after the others, and its gauges are new.\<close>

lemma CreateEpoch_cases:
  assumes "map_order_ok ord" "CreateEpoch x k ord height p i s = Inr s'"
  obtains "s' = s"
  | e gs where "gs \<noteq> []" "\<forall>g\<in>set gs. ga_PreviousEpochId g = p" "sorted_wrt (<) (map ga_PoolId gs)" "ep_Gauges e = gs" "ep_Id e = i"
      "s' = s\<lparr>li_gauges := fold (\<lambda>g. kv_set (gkey g) g) gs (li_gauges s), li_epochs := kv_set i e (li_epochs s)\<rparr>"
proof -
  from assms(2) obtain ws where ws: "Tally x k ord s = Inr ws"
    "s' = (if ws = [] then s else SetEpoch \<lparr>ep_Id = i, ep_StartBlock = height, ep_EndBlock = wrap_int (height + lip_EpochBlocks (GetParams_li s)),
        ep_Gauges = map (gauge_of p) ws\<rparr> (fold SetGauge (map (gauge_of p) ws) s))"
    by (auto simp: CreateEpoch_def Let_def fold_SetGauge GetParams_li_def split: if_splits elim!: bindR_E)
  have "sorted_wrt (<) (map pw_PoolId ws)" if "ws \<noteq> []"
  proof -
    from ws(1) that obtain vals n where "bonded x k = Inr vals" "sk_totalBonded k = Inr n" "n \<noteq> 0"
      by (auto simp: Tally_def bonded_def elim!: bindR_E split: if_splits)
    then show ?thesis using Tally_sum(1) [OF assms(1) ws(1)] by blast
  qed
  then have "sorted_wrt (<) (map ga_PoolId (map (gauge_of p) ws))" if "ws \<noteq> []" using that by (simp add: gauge_of_def sorted_wrt_map)
  note sorted = this
  show ?thesis
  proof (cases "ws = []")
    case True
    then show ?thesis using ws(2) that(1) by simp
  next
    case False
    show ?thesis
      by (rule that(2) [OF _ _ sorted [OF False], where e = "\<lparr>ep_Id = i, ep_StartBlock = height, ep_EndBlock = wrap_int (height + lip_EpochBlocks (GetParams_li s)),
        ep_Gauges = map (gauge_of p) ws\<rparr>"]) (simp_all add: False ws(2) SetEpoch_def fold_SetGauge gauge_of_def)
  qed
qed

lemma CreateEpoch_ok:
  assumes "map_order_ok ord" "epochs_ok s" "CreateEpoch x k ord height p i s = Inr s'"
    and "li_epochs s = [] \<and> p = 0 \<and> i = 1 \<or> li_epochs s \<noteq> [] \<and> p = fst (last (li_epochs s)) \<and> i = p + 1 \<and> p < i"
  shows "epochs_ok s' \<and> (li_epochs s' = li_epochs s \<or> (\<exists>e. li_epochs s' = li_epochs s @ [(i, e)] \<and> ep_Id e = i))
    \<and> li_epochCount s' = li_epochCount s \<and> li_lp s' = li_lp s"
  using assms(1,3)
proof (cases rule: CreateEpoch_cases)
  case 1
  then show ?thesis using assms(2) by simp
next
  case (2 e gs)
  let ?es = "li_epochs s"
  note ok = assms(2) [unfolded epochs_ok_def]
  have below: "fst ie \<le> p" if "ie \<in> set ?es" for ie
    using assms(4) that consecutive_below_last [of "map fst ?es" "fst ie"] ok by (auto simp: last_map)
  have i: "0 < i" "i - 1 = p" using assms(4) by (auto simp: word_gt_0)
  have lt: "fst ie < i" if "ie \<in> set ?es" for ie using below [OF that] assms(4) that by auto
  then have es: "kv_set i e ?es = ?es @ [(i, e)]" by (intro kv_set_snoc)
  have old: "ga_PreviousEpochId g < p" if "g \<in> gauges_of ?es" for g
  proof -
    from that obtain ie where ie: "ie \<in> set ?es" "g \<in> set (ep_Gauges (snd ie))" by (auto simp: gauges_of_def)
    with ok have "ga_PreviousEpochId g = fst ie - 1" "0 < fst ie" by (auto simp: epoch_ok_def)
    moreover have "fst ie - 1 < fst ie" using \<open>0 < fst ie\<close> by (metis measure_unat word_less_nat_alt less_irrefl)
    ultimately show ?thesis using below [OF ie(1)] by simp
  qed
  have "inj_on gkey (set gs)" "distinct (map gkey gs)"
  proof -
    have d: "distinct (map ga_PoolId gs)" using 2(3) strict_sorted_iff by blast
    have "inj_on ga_PoolId (set gs)" using d by (simp add: distinct_map)
    then show i: "inj_on gkey (set gs)" by (auto simp: inj_on_def gkey_inject)
    show "distinct (map gkey gs)" using i d by (simp add: distinct_map)
  qed
  moreover have "gkey g \<noteq> fst a" if "g \<in> set gs" "a \<in> set (li_gauges s)" for g a
  proof
    assume e: "gkey g = fst a"
    from that(2) ok obtain h where h: "h \<in> gauges_of ?es" "a = (gkey h, h)" by auto
    with e that(1) 2(2) have "ga_PreviousEpochId h = p" by (simp add: gkey_inject)
    with old [OF h(1)] show False by simp
  qed
  ultimately have g: "set (fold (\<lambda>g. kv_set (gkey g) g) gs (li_gauges s)) = set (li_gauges s) \<union> (\<lambda>g. (gkey g, g)) ` set gs"
      "kv_ok (fold (\<lambda>g. kv_set (gkey g) g) gs (li_gauges s))"
    using fold_kv_set_entries [of "li_gauges s" gkey gs] ok by blast+
  have "consecutive (map fst ?es @ [i])" using ok assms(4) by (intro consecutive_snoc) (auto simp: last_map)
  moreover have "epoch_ok (i, e)" using 2 i by (simp add: epoch_ok_def)
  moreover have "gauges_of (?es @ [(i, e)]) = gauges_of ?es \<union> set gs" using 2(4) by (auto simp: gauges_of_def)
  ultimately have "epochs_ok s'" using ok g 2(6) es by (auto simp: epochs_ok_def)
  then show ?thesis using 2(5,6) es by auto
qed


lemma drop_oldest_ok:
  assumes "epochs_ok s" "length (li_epochs s) \<le> 3"
  shows "epochs_ok (drop_oldest s) \<and> length (li_epochs (drop_oldest s)) \<le> 2 \<and> GetLastEpoch (drop_oldest s) = GetLastEpoch s
    \<and> li_epochCount (drop_oldest s) = li_epochCount s \<and> li_lp (drop_oldest s) = li_lp s"
proof (cases "length (li_epochs s) \<le> 2")
  case True
  then have "drop_oldest s = s" by (auto simp: drop_oldest_def GetAllEpoch_def split: list.splits)
  then show ?thesis using assms True by simp
next
  case False
  with assms(2) have "length (li_epochs s) = Suc (Suc (Suc 0))" by simp
  then obtain a b c where es: "li_epochs s = [a, b, c]" by (auto simp: length_Suc_conv)
  note ok = assms(1) [unfolded epochs_ok_def es]
  have i: "fst b = fst a + 1" "fst c = fst b + 1" "fst a < fst b" "fst b < fst c" using ok by auto
  have id: "ep_Id (snd a) = fst a" using ok by (simp add: epoch_ok_def)
  have k: "kv_delete (fst a) [a, b, c] = [b, c]" using i by (auto simp: kv_delete_def)
  have d: "drop_oldest s = s\<lparr>li_epochs := [b, c], li_gauges := filter (\<lambda>e. fst e \<notin> gkey ` set (ep_Gauges (snd a))) (li_gauges s)\<rparr>"
    by (simp add: drop_oldest_def GetAllEpoch_def es fold_RemoveGauge RemoveEpoch_def id k)
  have pa: "ga_PreviousEpochId g = fst a - 1" if "g \<in> set (ep_Gauges (snd a))" for g using that ok by (simp add: epoch_ok_def)
  have pb: "ga_PreviousEpochId g \<noteq> fst a - 1" if "g \<in> gauges_of [b, c]" for g
  proof -
    from that ok have "ga_PreviousEpochId g = fst b - 1 \<or> ga_PreviousEpochId g = fst c - 1" by (auto simp: gauges_of_def epoch_ok_def)
    then show ?thesis using i by auto
  qed
  have "set (filter (\<lambda>e. fst e \<notin> gkey ` set (ep_Gauges (snd a))) (li_gauges s)) = (\<lambda>g. (gkey g, g)) ` gauges_of [b, c]"
  proof -
    have "gauges_of [a, b, c] = set (ep_Gauges (snd a)) \<union> gauges_of [b, c]" by (auto simp: gauges_of_def)
    moreover have "gkey g \<noteq> gkey h" if "g \<in> gauges_of [b, c]" "h \<in> set (ep_Gauges (snd a))" for g h
      using pa [OF that(2)] pb [OF that(1)] by (simp add: gkey_inject)
    ultimately show ?thesis using ok by (auto simp: image_iff)
  qed
  moreover have "consecutive [fst b, fst c]" using i(2,4) by simp
  moreover have "epoch_ok b" "epoch_ok c" "kv_ok (li_gauges s)" using ok by auto
  ultimately have "epochs_ok (drop_oldest s)" unfolding epochs_ok_def d by (simp add: kv_ok_filter del: consecutive.simps)
  then show ?thesis by (simp add: d GetLastEpoch_def es)
qed

lemma last_epoch:
  "GetLastEpoch s = None \<longleftrightarrow> li_epochs s = []" "li_epochs s \<noteq> [] \<Longrightarrow> GetLastEpoch s = Some (snd (last (li_epochs s)))"
  by (cases "li_epochs s" rule: rev_cases; simp add: GetLastEpoch_def)+

lemma EndBlocker_inv:
  assumes "map_order_ok ord" "li_inv n s" "n < 2 ^ 64 - 1" "EndBlocker_li x k ord height s = Inr s'"
  shows "li_inv (Suc n) s' \<and> li_lp s' = li_lp s"
proof (cases "li_epochs s = []")
  case True
  then have "GetLastEpoch s = None" by (simp add: last_epoch)
  with assms(4) consider "s' = s" | "CreateEpoch x k ord height 0 1 s = Inr s'"
    by (auto simp: EndBlocker_li_def split: sum.splits fault.splits)
  then show ?thesis
  proof cases
    case 1
    then show ?thesis using assms(2) by (auto simp: li_inv_def)
  next
    case 2
    from CreateEpoch_ok [OF assms(1) _ 2] True assms(2) have r: "epochs_ok s'" "li_epochs s' = [] \<or> (\<exists>e. li_epochs s' = [(1, e)] \<and> ep_Id e = 1)"
        "li_epochCount s' = li_epochCount s" "li_lp s' = li_lp s"
      by (auto simp: li_inv_def)
    then show ?thesis using assms(2) by (auto simp: li_inv_def GetEpochCount_def GetLastEpoch_def)
  qed
next
  case False
  let ?e = "last (li_epochs s)"
  have l: "GetLastEpoch s = Some (snd ?e)" using False by (rule last_epoch)
  have id: "ep_Id (snd ?e) = fst ?e" using assms(2) False by (simp add: li_inv_def epochs_ok_def epoch_ok_def)
  have "unat (fst ?e) \<le> n" using assms(2) l id by (simp add: li_inv_def)
  then have "Suc (unat (fst ?e)) < 2 ^ 64" using assms(3) by simp
  then have up: "fst ?e < fst ?e + 1" "unat (fst ?e + 1) = Suc (unat (fst ?e))" by (simp_all add: word_less_nat_alt unat_word_ariths)
  from assms(4) l id consider "s' = s" | s1 where "CreateEpoch x k ord height (fst ?e) (fst ?e + 1) s = Inr s1" "s' = drop_oldest s1"
    by (auto simp: EndBlocker_li_def split: sum.splits fault.splits if_splits)
  then show ?thesis
  proof cases
    case 1
    then show ?thesis using assms(2) by (auto simp: li_inv_def)
  next
    case (2 s1)
    from CreateEpoch_ok [OF assms(1) _ 2(1)] False up assms(2)
    have r: "epochs_ok s1" "li_epochs s1 = li_epochs s \<or> (\<exists>e. li_epochs s1 = li_epochs s @ [(fst ?e + 1, e)] \<and> ep_Id e = fst ?e + 1)"
        "li_epochCount s1 = li_epochCount s" "li_lp s1 = li_lp s"
      by (auto simp: li_inv_def)
    have "unat (ep_Id e) \<le> Suc n" if "GetLastEpoch s1 = Some e" for e
      using r(2) that l id up(2) \<open>unat (fst ?e) \<le> n\<close> by (auto simp: GetLastEpoch_def)
    moreover have "length (li_epochs s1) \<le> 3" using r(2) assms(2) by (auto simp: li_inv_def)
    ultimately show ?thesis using drop_oldest_ok [OF r(1)] r assms(2) unfolding 2(2) by (auto simp: li_inv_def GetEpochCount_def)
  qed
qed

section \<open>The beginning of a block\<close>

text \<open>The pool keeper is only called through \<^verbatim>\<open>AllocateIncentive\<close>.\<close>

inductive allocated :: "'b lpx \<Rightarrow> 'b lps \<Rightarrow> 'b lps \<Rightarrow> bool" for x where
  stays: "allocated x lp lp"
| allocates: "allocated x lp lp1 \<Longrightarrow> AllocateIncentive x q a cs lp1 = Inr lp2 \<Longrightarrow> allocated x lp lp2"

lemma BeginBlocker_allocated:
  assumes "BeginBlocker_li x s = Inr s'"
  shows "s' = s\<lparr>li_lp := li_lp s'\<rparr> \<and> allocated (li_lpx x) (li_lp s) (li_lp s')"
proof -
  let ?P = "\<lambda>s'. s' = s\<lparr>li_lp := li_lp s'\<rparr> \<and> allocated (li_lpx x) (li_lp s) (li_lp s')"
  from assms obtain f where "(case GetLastEpoch s of None \<Rightarrow> Inr s | Some lastEpoch \<Rightarrow> if total_weight lastEpoch = 0 then Inr s
      else foldR (allocate x f (total_weight lastEpoch)) (ep_Gauges lastEpoch) s) = Inr s'"
    unfolding BeginBlocker_li_def by (rule bindR_E)
  then have "s' = s \<or> (\<exists>w gs. foldR (allocate x f w) gs s = Inr s')"
    by (cases "GetLastEpoch s"; simp split: if_splits; blast)
  moreover have "?P s'" if "foldR (allocate x f w) gs s = Inr s'" for w gs
    using that
  proof (rule foldR_invariant [where P = ?P])
    show "?P s" by (simp add: allocated.stays)
  next
    fix g t t'
    assume t: "?P t" "allocate x f w g t = Inr t'"
    then consider "t' = t" | a q cs where "AllocateIncentive (li_lpx x) q a cs (li_lp t) = Inr (li_lp t')" "t' = t\<lparr>li_lp := li_lp t'\<rparr>"
      by (auto simp: allocate_def split: if_splits elim!: bindR_E)
    then show "?P t'"
    proof cases
      case 2
      have "t' = s\<lparr>li_lp := li_lp t'\<rparr>" using t(1) 2(2) by (metis lis.update_convs(6) lis.surjective)
      then show ?thesis using t(1) 2(1) allocated.allocates by blast
    qed (use t in simp)
  qed
  ultimately show ?thesis by (auto simp: allocated.stays)
qed


section \<open>All histories\<close>

lemma li_inv_lp [simp]: "li_inv n (s\<lparr>li_lp := lp\<rparr>) = li_inv n s"
  by (simp add: li_inv_def epochs_ok_def GetEpochCount_def GetLastEpoch_def)

lemma li_inv_Suc: "li_inv n s \<Longrightarrow> li_inv (Suc n) s"
  by (auto simp: li_inv_def)

lemma li_reach_inv: "li_reach x n s \<Longrightarrow> n < 2 ^ 64 - 1 \<Longrightarrow> li_inv n s"
proof (induction rule: li_reach.induct)
  case (genesis bank)
  then show ?case
    by (simp add: li_inv_def epochs_ok_def gauges_of_def InitGenesis_li_def DefaultGenesis_li_def empty_lis_def Let_def SetEpochCount_def
        SetParams_li_def GetEpochCount_def GetLastEpoch_def)
next
  case (vote n s m s')
  then have "li_inv n s'"
    by (auto simp: VoteGauge_def SetVote_def li_inv_def epochs_ok_def GetEpochCount_def GetLastEpoch_def split: if_splits)
  then show ?case by (rule li_inv_Suc)
next
  case (params n s a p s')
  then have "li_inv n s'"
    by (auto simp: UpdateParams_li_def SetParams_li_def li_inv_def epochs_ok_def GetEpochCount_def GetLastEpoch_def split: if_splits)
  then show ?case by (rule li_inv_Suc)
next
  case (pool n s m lp)
  then show ?case by (simp add: li_inv_Suc)
next
  case (begin_block n s s')
  then have "li_inv n (s\<lparr>li_lp := li_lp s'\<rparr>)" by simp
  then have "li_inv n s'" using BeginBlocker_allocated [OF begin_block(2)] by simp
  then show ?case by (rule li_inv_Suc)
next
  case (end_block n s ord k height s')
  then have "li_inv n s" "n < 2 ^ 64 - 1" by simp_all
  then show ?case using EndBlocker_inv [OF end_block(2) _ _ end_block(3)] by blast
qed

text \<open>The pool keeper sees a history of its own messages.\<close>

lemma lp_run_snoc: "lp_exec x m (lp_run x ms bank) = Inr lp \<Longrightarrow> lp = lp_run x (ms @ [m]) bank"
  by (simp add: lp_run_def lp_deliver_def)

lemma allocated_run: "allocated x lp lp' \<Longrightarrow> lp = lp_run x ms bank \<Longrightarrow> \<exists>ms'. lp' = lp_run x ms' bank"
proof (induction rule: allocated.induct)
  case (allocates lp lp1 q a cs lp2)
  then obtain ms' where "lp1 = lp_run x ms' bank" by blast
  with allocates(2) have "lp_exec x (Call_AllocateIncentive q a cs) (lp_run x ms' bank) = Inr lp2" by simp
  from lp_run_snoc [OF this] show ?case by blast
qed blast

lemma CreateEpoch_lp: "CreateEpoch x k ord height p i s = Inr s' \<Longrightarrow> li_lp s' = li_lp s"
  by (auto simp: CreateEpoch_def Let_def SetEpoch_def fold_SetGauge split: if_splits elim!: bindR_E)

lemma drop_oldest_lp [simp]: "li_lp (drop_oldest s) = li_lp s"
  by (simp add: drop_oldest_def fold_RemoveGauge RemoveEpoch_def split: list.splits)

lemma EndBlocker_lp: "EndBlocker_li x k ord height s = Inr s' \<Longrightarrow> li_lp s' = li_lp s"
  by (auto simp: EndBlocker_li_def dest: CreateEpoch_lp split: option.splits if_splits sum.splits fault.splits)

lemma li_reach_pool: "li_reach x n s \<Longrightarrow> \<exists>ms bank. li_lp s = lp_run (li_lpx x) ms bank"
proof (induction rule: li_reach.induct)
  case (genesis bank)
  have "li_lp (InitGenesis_li DefaultGenesis_li (empty_lis lp)) = lp" for lp :: "'a lps"
    by (simp add: InitGenesis_li_def DefaultGenesis_li_def empty_lis_def Let_def SetEpochCount_def SetParams_li_def)
  then show ?case by (metis fold_simps(1) lp_run_def)
next
  case (vote n s m s')
  then have "li_lp s' = li_lp s" by (auto simp: VoteGauge_def SetVote_def split: if_splits)
  then show ?case using vote by metis
next
  case (params n s a p s')
  then have "li_lp s' = li_lp s" by (auto simp: UpdateParams_li_def SetParams_li_def split: if_splits)
  then show ?case using params by metis
next
  case (pool n s m lp)
  then obtain ms bank where "lp_exec (li_lpx x) m (lp_run (li_lpx x) ms bank) = Inr lp" by metis
  from lp_run_snoc [OF this] show ?case by auto
next
  case (begin_block n s s')
  then show ?case using BeginBlocker_allocated [OF begin_block(2)] allocated_run by metis
next
  case (end_block n s ord k height s')
  then show ?case using EndBlocker_lp by metis
qed

end
