(* ===== verification/LiEffects.thy ===== *)
theory LiEffects
  imports LiChain
begin

text \<open>
  What the distribution of incentives does: the shares of the gauges add up to the incentives but for rounding when no weight is negative; a
  gauge of a pool without positions makes the beginning of every block fail; the exported genesis state is not valid.
\<close>

section \<open>Shares\<close>

definition deccoins_in :: "string \<Rightarrow> decCoins \<Rightarrow> dec" where
  "deccoins_in n cs = sum_list (map dc_Amount (filter (\<lambda>c. dc_Denom c = n) cs))"

definition nonnegative :: "decCoins \<Rightarrow> bool" where
  "nonnegative cs \<longleftrightarrow> (\<forall>c\<in>set cs. 0 \<le> dc_Amount c)"

text \<open>\<^verbatim>\<open>MulDecTruncate\<close> and \<^verbatim>\<open>TruncateDecimal\<close> round down.\<close>

definition mulDecTruncate_ok :: "'b lix \<Rightarrow> bool" where
  "mulDecTruncate_ok x \<longleftrightarrow> (\<forall>cs r cs'. li_mulDecTruncate x cs r = Inr cs' \<longrightarrow> nonnegative cs \<longrightarrow> 0 \<le> r \<longrightarrow>
     nonnegative cs' \<and> (\<forall>n. deccoins_in n cs' * dec_one \<le> deccoins_in n cs * r))"

definition truncateDecimal_ok :: "'b lix \<Rightarrow> bool" where
  "truncateDecimal_ok x \<longleftrightarrow> (\<forall>cs c ch. dc_truncateDecimal (lx_dc (li_lpx x)) cs = Inr (c, ch) \<longrightarrow> nonnegative cs \<longrightarrow>
     (\<forall>n. dec_of_int (coins_in n c) \<le> deccoins_in n cs))"

lemma deccoins_in_nonneg: "nonnegative cs \<Longrightarrow> 0 \<le> deccoins_in n cs"
  by (auto simp: nonnegative_def deccoins_in_def intro!: sum_list_nonneg)

lemma ratio_bounds:
  assumes "quo_ok d" "d_quo d a w = Inr r" "0 \<le> a" "0 < w"
  shows "0 \<le> r" "2 * r * w \<le> 2 * a * dec_one + w"
proof -
  have q: "2 * \<bar>r * w - a * dec_one\<bar> \<le> w" using assms(1,2,4) unfolding quo_ok_def by (metis abs_of_pos)
  have "2 * y \<le> w \<and> - w \<le> 2 * y" if "2 * \<bar>y\<bar> \<le> w" for y using that by arith
  from this [OF q] have *: "2 * (r * w - a * dec_one) \<le> w" "- w \<le> 2 * (r * w - a * dec_one)" by blast+
  then show "2 * r * w \<le> 2 * a * dec_one + w" by (simp add: algebra_simps)
  have "0 \<le> a * dec_one" using assms(3) by (simp add: dec_one_def)
  with *(2) have "- w \<le> 2 * (r * w)" by simp
  then have "0 \<le> (2 * r + 1) * w" by (simp add: algebra_simps)
  then have "0 \<le> 2 * r + 1" using assms(4) by (simp add: zero_le_mult_iff)
  then show "0 \<le> r" by simp
qed

lemma allocation_share:
  assumes "quo_ok (li_dec x)" "mulDecTruncate_ok x" "truncateDecimal_ok x" "nonnegative f" "0 \<le> ga_Ratio g" "0 < w"
    and "allocation x f w g = Inr cs"
  shows "2 * dec_one * dec_one * w * coins_in n cs \<le> deccoins_in n f * (2 * ga_Ratio g * dec_one + w)"
proof -
  from assms(7) obtain r a ch where r: "d_quo (li_dec x) (ga_Ratio g) w = Inr r" "li_mulDecTruncate x f r = Inr a"
      "dc_truncateDecimal (lx_dc (li_lpx x)) a = Inr (cs, ch)"
    by (auto simp: allocation_def elim!: bindR_E)
  note b = ratio_bounds [OF assms(1) r(1) assms(5,6)]
  have a: "nonnegative a" "deccoins_in n a * dec_one \<le> deccoins_in n f * r"
    using assms(2) r(2) assms(4) b(1) unfolding mulDecTruncate_ok_def by blast+
  have "coins_in n cs * dec_one \<le> deccoins_in n a"
    using assms(3) r(3) a(1) unfolding truncateDecimal_ok_def dec_of_int_def by blast
  then have "coins_in n cs * dec_one * dec_one \<le> deccoins_in n a * dec_one" by (simp add: mult_right_mono)
  also have "\<dots> \<le> deccoins_in n f * r" by (rule a(2))
  finally have "(2 * w) * (coins_in n cs * dec_one * dec_one) \<le> (2 * w) * (deccoins_in n f * r)"
    using assms(6) by (intro mult_left_mono) auto
  also have "\<dots> = deccoins_in n f * (2 * r * w)" by (simp add: algebra_simps)
  also have "\<dots> \<le> deccoins_in n f * (2 * ga_Ratio g * dec_one + w)"
    using b(2) deccoins_in_nonneg [OF assms(4)] by (intro mult_left_mono)
  finally show ?thesis by (simp add: algebra_simps)
qed

lemma allocations_bound:
  assumes "quo_ok (li_dec x)" "mulDecTruncate_ok x" "truncateDecimal_ok x" "nonnegative f" "\<forall>g\<in>set gs. 0 \<le> ga_Ratio g" "0 < w"
    and "list_all2 (\<lambda>g cs. allocation x f w g = Inr cs) gs css"
  shows "2 * dec_one * dec_one * w * sum_list (map (coins_in n) css)
    \<le> deccoins_in n f * (2 * sum_list (map ga_Ratio gs) * dec_one + int (length gs) * w)"
  using assms(7,5)
proof (induction rule: list_all2_induct)
  case (Cons g gs cs css)
  have "2 * dec_one * dec_one * w * coins_in n cs \<le> deccoins_in n f * (2 * ga_Ratio g * dec_one + w)"
    using Cons allocation_share [OF assms(1-4) _ assms(6)] by simp
  with Cons show ?case by (simp add: algebra_simps)
qed simp

lemma allocations_total:
  assumes "quo_ok (li_dec x)" "mulDecTruncate_ok x" "truncateDecimal_ok x" "nonnegative f" "\<forall>g\<in>set (ep_Gauges e). 0 \<le> ga_Ratio g" "total_weight e \<noteq> 0"
    and "list_all2 (\<lambda>g cs. allocation x f (total_weight e) g = Inr cs) (ep_Gauges e) css"
  shows "2 * dec_one * dec_one * sum_list (map (coins_in n) css) \<le> deccoins_in n f * (2 * dec_one + int (length (ep_Gauges e)))"
proof -
  let ?w = "total_weight e"
  have "0 \<le> ?w" using assms(5) by (auto simp: total_weight_def intro!: sum_list_nonneg)
  then have w: "0 < ?w" using assms(6) by simp
  have "?w * (2 * dec_one * dec_one * sum_list (map (coins_in n) css)) \<le> ?w * (deccoins_in n f * (2 * dec_one + int (length (ep_Gauges e))))"
    using allocations_bound [OF assms(1-5) w assms(7), of n] by (simp add: total_weight_def algebra_simps)
  then show ?thesis using w by (simp add: mult_le_cancel_left_pos)
qed

text \<open>
  A negative weight lets the others be greater than one, and their pools get a multiple of the incentives.
\<close>

lemma negative_weight:
  assumes "quo_ok (li_dec x)" "0 < p" "ep_Gauges e = [g, h]" "ga_Ratio g = p * (dec_one + k)" "ga_Ratio h = - (p * k)"
    and "allocation x f (total_weight e) g = Inr cs"
  shows "\<exists>a ch. li_mulDecTruncate x f (dec_one + k) = Inr a \<and> dc_truncateDecimal (lx_dc (li_lpx x)) a = Inr (cs, ch)"
proof -
  have w: "total_weight e = p * dec_one" using assms(3-5) by (simp add: total_weight_def algebra_simps)
  from assms(6) obtain r a ch where r: "d_quo (li_dec x) (ga_Ratio g) (p * dec_one) = Inr r" "li_mulDecTruncate x f r = Inr a"
      "dc_truncateDecimal (lx_dc (li_lpx x)) a = Inr (cs, ch)"
    by (auto simp: allocation_def w elim!: bindR_E)
  have "2 * \<bar>r * (p * dec_one) - p * (dec_one + k) * dec_one\<bar> \<le> p * dec_one"
    using assms(1) r(1) assms(2,4) unfolding quo_ok_def by (metis abs_of_pos dec_one_pos(1) mult_pos_pos)
  moreover have "r * (p * dec_one) - p * (dec_one + k) * dec_one = (p * dec_one) * (r - (dec_one + k))" by (simp add: algebra_simps)
  ultimately have "(p * dec_one) * (2 * \<bar>r - (dec_one + k)\<bar>) \<le> (p * dec_one) * 1" using assms(2) by (simp add: abs_mult)
  then have "2 * \<bar>r - (dec_one + k)\<bar> \<le> 1" using assms(2) by (simp only: mult_le_cancel_left_pos mult_pos_pos dec_one_pos)
  then have "r - (dec_one + k) = 0" by arith
  then have "r = dec_one + k" by simp
  with r show ?thesis by blast
qed

section \<open>Failing blocks\<close>

lemma AllocateIncentive_core: "AllocateIncentive x q a cs s = Inr s' \<Longrightarrow> core s' = core s"
  by (auto simp: AllocateIncentive_def split: option.splits if_splits elim!: bindR_E dest!: AddToAccumulator_core send_core)

lemma allocate_pools:
  assumes "allocate x f w g s = Inr s'"
  shows "GetPool (li_lp s') = GetPool (li_lp s)"
proof -
  from assms have "core (li_lp s') = core (li_lp s)"
    by (auto simp: allocate_def split: if_splits elim!: bindR_E AllocateIncentive_core)
  then show ?thesis by (simp add: core_def GetPool_def fun_eq_iff)
qed

lemma allocate_fails:
  assumes "g \<in> set gs" "allocation x f w g = Inr cs" "li_isAllPositive x cs" "\<forall>p. GetPool (li_lp s) (ga_PoolId g) = Some p \<longrightarrow> \<not> HasPosition_pl p"
  shows "foldR (allocate x f w) gs s \<noteq> Inr s'"
  using assms(1,4)
proof (induction gs arbitrary: s)
  case (Cons h gs)
  show ?case
  proof
    assume "foldR (allocate x f w) (h # gs) s = Inr s'"
    then obtain s1 where s1: "allocate x f w h s = Inr s1" "foldR (allocate x f w) gs s1 = Inr s'" by (auto elim!: bindR_E)
    show False
    proof (cases "h = g")
      case True
      then show False using s1(1) assms(2,3) Cons.prems(2)
        by (auto simp: allocate_def AllocateIncentive_def split: option.splits if_splits elim!: bindR_E)
    next
      case False
      then show False using Cons.IH [of s1] Cons.prems s1 allocate_pools [OF s1(1)] by simp
    qed
  qed
qed simp

lemma BeginBlocker_fails:
  assumes "GetLastEpoch s = Some e" "g \<in> set (ep_Gauges e)" "total_weight e \<noteq> 0" "incentiveFees x s = Inr f"
    and "allocation x f (total_weight e) g = Inr cs" "li_isAllPositive x cs" "\<forall>p. GetPool (li_lp s) (ga_PoolId g) = Some p \<longrightarrow> \<not> HasPosition_pl p"
  shows "BeginBlocker_li x s \<noteq> Inr s'"
  using allocate_fails [OF assms(2,5,6,7)] assms(1,3,4) by (simp add: BeginBlocker_li_def)

section \<open>Genesis\<close>

lemma exported_genesis_refused:
  assumes "li_inv n s" "li_epochs s \<noteq> []"
  shows "\<exists>e. Validate_genesis_li (ExportGenesis_li s) = Inl e"
proof -
  obtain a es where "li_epochs s = a # es" using assms(2) by (meson neq_Nil_conv)
  then show ?thesis using assms(1)
    by (simp add: Validate_genesis_li_def ExportGenesis_li_def GetAllEpoch_def li_inv_def)
qed

end
