(* ===== verification/LpPrice.thy ===== *)
theory LpPrice
  imports LpMath
begin

text \<open>
  The search of \<^verbatim>\<open>CalculatePriceToTick\<close> divides or multiplies the price by the price ratio until it reaches the
  offset price. With decimals of fixed precision it ends only where one step changes the price: \<open>price_search_ends\<close>
  and \<open>price_search_stuck\<close> say when, up to the ties of the rounding. The last section compares the amounts of a liquidity that is added
  with those of the same liquidity when it is removed.
\<close>

section \<open>Documented behaviour of the rounding operations\<close>

text \<open>The operations panic only when the result has more than 315 bits, or the divisor is zero.\<close>

definition mul_defined :: "decx \<Rightarrow> bool" where
  "mul_defined d \<longleftrightarrow> (\<forall>a b. \<bar>a * b\<bar> < 2 ^ 315 \<longrightarrow> (\<exists>c. d_mul d a b = Inr c))"

definition quo_defined :: "decx \<Rightarrow> bool" where
  "quo_defined d \<longleftrightarrow> (\<forall>a b. b \<noteq> 0 \<longrightarrow> \<bar>a * dec_one\<bar> < 2 ^ 315 \<longrightarrow> (\<exists>c. d_quo d a b = Inr c))"

text \<open>Rounding depends on the absolute value only.\<close>

definition mul_odd :: "decx \<Rightarrow> bool" where
  "mul_odd d \<longleftrightarrow> (\<forall>a b c. d_mul d a b = Inr c \<longrightarrow> d_mul d a (- b) = Inr (- c))"

definition quo_odd :: "decx \<Rightarrow> bool" where
  "quo_odd d \<longleftrightarrow> (\<forall>a b c. d_quo d a b = Inr c \<longrightarrow> d_quo d (- a) b = Inr (- c))"

text \<open>\<^verbatim>\<open>Ceil\<close> is the smallest whole number that is not smaller.\<close>

definition ceil_ok :: "decx \<Rightarrow> bool" where
  "ceil_ok d \<longleftrightarrow> (\<forall>a c. d_ceil d a = Inr c \<longrightarrow> (\<exists>n. c = dec_of_int n \<and> a \<le> c \<and> c < a + dec_one))"

section \<open>One step of the search\<close>

lemma multiple_small: "(c - p) * m = a + b \<Longrightarrow> 2 * \<bar>a\<bar> \<le> m \<Longrightarrow> 2 * \<bar>b\<bar> < m \<Longrightarrow> 0 < m \<Longrightarrow> c = p" for a b c m p :: int
proof -
  assume h: "(c - p) * m = a + b" "2 * \<bar>a\<bar> \<le> m" "2 * \<bar>b\<bar> < m" "0 < m"
  then have "\<bar>(c - p) * m\<bar> < m" by linarith
  then have "\<bar>c - p\<bar> * m < 1 * m" using h(4) by (simp add: abs_mult)
  then have "\<bar>c - p\<bar> < 1" by (simp only: mult_less_cancel_right_pos [OF h(4)])
  then show "c = p" by simp
qed

lemma multiple_large: "(c - p) * m = a + b \<Longrightarrow> 2 * \<bar>a\<bar> \<le> m \<Longrightarrow> m < 2 * b \<Longrightarrow> 0 < m \<Longrightarrow> p < c" for a b c m p :: int
proof -
  assume h: "(c - p) * m = a + b" "2 * \<bar>a\<bar> \<le> m" "m < 2 * b" "0 < m"
  then have "0 < (c - p) * m" by linarith
  then show "p < c" using h(4) by (simp add: zero_less_mult_iff)
qed

lemma mul_step:
  assumes "mul_ok d" "d_mul d p ratio = Inr c"
  shows "(c - p) * dec_one = (c * dec_one - p * ratio) + p * (ratio - dec_one)" "2 * \<bar>c * dec_one - p * ratio\<bar> \<le> dec_one"
  using assms by (simp add: algebra_simps) (use assms in \<open>auto simp: mul_ok_def\<close>)

lemma quo_step:
  assumes "quo_ok d" "d_quo d p ratio = Inr c" "0 < ratio"
  shows "(p - c) * ratio = (p * dec_one - c * ratio) + p * (ratio - dec_one)" "2 * \<bar>p * dec_one - c * ratio\<bar> \<le> ratio"
proof -
  show "(p - c) * ratio = (p * dec_one - c * ratio) + p * (ratio - dec_one)" by (simp add: algebra_simps)
  have "2 * \<bar>c * ratio - p * dec_one\<bar> \<le> \<bar>ratio\<bar>" using assms(1,2) by (auto simp: quo_ok_def)
  then show "2 * \<bar>p * dec_one - c * ratio\<bar> \<le> ratio" using assms(3) by (simp add: abs_minus_commute)
qed

lemma mul_step_stays:
  "mul_ok d \<Longrightarrow> d_mul d p ratio = Inr c \<Longrightarrow> 2 * \<bar>p * (ratio - dec_one)\<bar> < dec_one \<Longrightarrow> c = p"
  using multiple_small [OF mul_step _ dec_one_pos(1)] by blast

lemma quo_step_stays:
  "quo_ok d \<Longrightarrow> d_quo d p ratio = Inr c \<Longrightarrow> 0 < ratio \<Longrightarrow> 2 * \<bar>p * (ratio - dec_one)\<bar> < ratio \<Longrightarrow> c = p"
  using multiple_small [OF quo_step] by metis

lemma mul_step_grows:
  "mul_ok d \<Longrightarrow> d_mul d p ratio = Inr c \<Longrightarrow> dec_one < 2 * (p * (ratio - dec_one)) \<Longrightarrow> p < c"
  using multiple_large [OF mul_step _ dec_one_pos(1)] by blast

lemma quo_step_shrinks:
  "quo_ok d \<Longrightarrow> d_quo d p ratio = Inr c \<Longrightarrow> 0 < ratio \<Longrightarrow> ratio < 2 * (p * (ratio - dec_one)) \<Longrightarrow> c < p"
  using multiple_large [OF quo_step] by metis

section \<open>The search\<close>

lemma ticks_below_stuck:
  assumes "d_mul d p ratio = Inr p" "p < offsetPrice"
  shows "ticks_below d ratio offsetPrice p t = None"
proof (rule ccontr)
  assume "ticks_below d ratio offsetPrice p t \<noteq> None"
  then obtain r where r: "ticks_below d ratio offsetPrice p t = Some r" by blast
  have "\<not> (d_mul d p ratio = Inr p \<and> p < offsetPrice)"
    by (rule ticks_below.raw_induct [where P = "\<lambda>d ratio off p t r. \<not> (d_mul d p ratio = Inr p \<and> p < off)", OF _ r])
      (auto split: if_splits sum.splits)
  with assms show False by blast
qed

lemma ticks_above_stuck:
  assumes "d_quo d p ratio = Inr p" "p > offsetPrice"
  shows "ticks_above d ratio offsetPrice p t = None"
proof (rule ccontr)
  assume "ticks_above d ratio offsetPrice p t \<noteq> None"
  then obtain r where r: "ticks_above d ratio offsetPrice p t = Some r" by blast
  have "\<not> (d_quo d p ratio = Inr p \<and> p > offsetPrice)"
    by (rule ticks_above.raw_induct [where P = "\<lambda>d ratio off p t r. \<not> (d_quo d p ratio = Inr p \<and> p > off)", OF _ r])
      (auto split: if_splits sum.splits)
  with assms show False by blast
qed

lemma ticks_below_ends:
  assumes "mul_ok d" "dec_one < ratio" "dec_one < 2 * (p * (ratio - dec_one))"
  shows "ticks_below d ratio offsetPrice p t \<noteq> None"
  using assms(3)
proof (induction "nat (offsetPrice - p)" arbitrary: p t rule: less_induct)
  case less
  show ?case
  proof (cases "p < offsetPrice \<and> (\<exists>c. d_mul d p ratio = Inr c)")
    case True
    then obtain c where c: "d_mul d p ratio = Inr c" by blast
    have gt: "p < c" by (rule mul_step_grows [OF assms(1) c less.prems])
    have "p * (ratio - dec_one) \<le> c * (ratio - dec_one)" using gt assms(2) by (intro mult_right_mono) auto
    with less.prems have "dec_one < 2 * (c * (ratio - dec_one))" by linarith
    moreover have "nat (offsetPrice - c) < nat (offsetPrice - p)" using gt True by simp
    ultimately have "ticks_below d ratio offsetPrice c (wrap_int (t - 1)) \<noteq> None" using less.hyps by blast
    then show ?thesis using True c by (subst ticks_below.simps) simp
  next
    case False
    then show ?thesis by (subst ticks_below.simps) (auto split: sum.splits)
  qed
qed

lemma ticks_above_ends:
  assumes "quo_ok d" "dec_one < ratio" "ratio < 2 * (offsetPrice * (ratio - dec_one))"
  shows "ticks_above d ratio offsetPrice p t \<noteq> None"
proof (induction "nat (p - offsetPrice)" arbitrary: p t rule: less_induct)
  case less
  show ?case
  proof (cases "p > offsetPrice \<and> (\<exists>c. d_quo d p ratio = Inr c)")
    case True
    then obtain c where c: "d_quo d p ratio = Inr c" by blast
    have "offsetPrice * (ratio - dec_one) \<le> p * (ratio - dec_one)" using True assms(2) by (intro mult_right_mono) auto
    then have "ratio < 2 * (p * (ratio - dec_one))" using assms(3) by linarith
    moreover have "0 < ratio" using assms(2) dec_one_pos(1) by linarith
    ultimately have "c < p" using quo_step_shrinks [OF assms(1) c] by blast
    then have "nat (c - offsetPrice) < nat (p - offsetPrice)" using True by simp
    then have "ticks_above d ratio offsetPrice c (wrap_int (t + 1)) \<noteq> None" using less.hyps by blast
    then show ?thesis using True c by (subst ticks_above.simps) simp
  next
    case False
    then show ?thesis by (subst ticks_above.simps) (auto split: sum.splits)
  qed
qed

text \<open>The search fails for want of a result, or of a step, but does not run forever.\<close>

lemma ticks_below_fault: "ticks_below d ratio off p t = Some (Inl e) \<Longrightarrow> \<exists>p. d_mul d p ratio = Inl e"
  by (rule ticks_below.raw_induct [where P = "\<lambda>d ratio off p t r. r = Inl e \<longrightarrow> (\<exists>p. d_mul d p ratio = Inl e)", THEN mp])
    (auto split: if_splits sum.splits)

lemma ticks_above_fault: "ticks_above d ratio off p t = Some (Inl e) \<Longrightarrow> \<exists>p. d_quo d p ratio = Inl e"
  by (rule ticks_above.raw_induct [where P = "\<lambda>d ratio off p t r. r = Inl e \<longrightarrow> (\<exists>p. d_quo d p ratio = Inl e)", THEN mp])
    (auto split: if_splits sum.splits)

text \<open>The operations of the SDK return or panic.\<close>

definition returns :: "('a \<Rightarrow> 'b \<Rightarrow> 'c result) \<Rightarrow> bool" where
  "returns f \<longleftrightarrow> (\<forall>a b. f a b \<noteq> Inl Diverge)"

lemma price_search_ends:
  assumes "mul_ok d" "quo_ok d" "returns (d_mul d)" "returns (d_quo d)"
    and "Pow d (tp_PriceRatio tp) (tp_BaseOffset tp) = Inr offsetPrice"
    and "dec_one < tp_PriceRatio tp"
    and "price > offsetPrice \<Longrightarrow> tp_PriceRatio tp < 2 * (offsetPrice * (tp_PriceRatio tp - dec_one))"
    and "price < offsetPrice \<Longrightarrow> dec_one < 2 * (price * (tp_PriceRatio tp - dec_one))"
  shows "CalculatePriceToTick d price tp \<noteq> Inl Diverge"
proof -
  let ?r = "tp_PriceRatio tp"
  have "join_loop (ticks_above d ?r offsetPrice price 0) \<noteq> Inl Diverge" if g: "price > offsetPrice"
    using ticks_above_ends [OF assms(2,6) assms(7) [OF g], of price 0] ticks_above_fault [of d ?r offsetPrice price 0 Diverge] assms(4)
    by (auto simp: join_loop_def returns_def split: option.splits)
  moreover have "join_loop (ticks_below d ?r offsetPrice price 0) \<noteq> Inl Diverge" if l: "price < offsetPrice"
    using ticks_below_ends [OF assms(1,6) assms(8) [OF l], of offsetPrice 0] ticks_below_fault [of d ?r offsetPrice price 0 Diverge] assms(3)
    by (auto simp: join_loop_def returns_def split: option.splits)
  ultimately show ?thesis using assms(5) by (auto simp: CalculatePriceToTick_def ErrPriceOutOfBound_def)
qed

lemma price_search_stuck:
  assumes "mul_ok d" "mul_defined d"
    and "Pow d (tp_PriceRatio tp) (tp_BaseOffset tp) = Inr offsetPrice"
    and "MinSpotPrice \<le> price" "price \<le> MaxSpotPrice" "price < offsetPrice"
    and "2 * \<bar>price * (tp_PriceRatio tp - dec_one)\<bar> < dec_one"
  shows "CalculatePriceToTick d price tp = Inl Diverge"
proof -
  let ?r = "tp_PriceRatio tp"
  have "\<bar>price * ?r\<bar> \<le> \<bar>price * (?r - dec_one)\<bar> + \<bar>price * dec_one\<bar>"
    using abs_triangle_ineq [of "price * (?r - dec_one)" "price * dec_one"] by (simp add: algebra_simps)
  also have "\<bar>price * dec_one\<bar> \<le> 10 ^ 56 * 10 ^ 18"
    using assms(4,5) unfolding abs_mult dec_one_pos(3)
    by (intro mult_mono) (auto simp: MaxSpotPrice_def MinSpotPrice_def dec_of_int_def dec_one_def)
  finally have "\<bar>price * ?r\<bar> < 2 ^ 315" using assms(7) by (simp add: dec_one_def)
  then obtain c where c: "d_mul d price ?r = Inr c" using assms(2) by (auto simp: mul_defined_def)
  with mul_step_stays [OF assms(1) c assms(7)] have "d_mul d price ?r = Inr price" by simp
  then have "ticks_below d ?r offsetPrice price 0 = None" by (rule ticks_below_stuck) (rule assms(6))
  then show ?thesis using assms(3-6) by (auto simp: CalculatePriceToTick_def MinSpotPrice_def)
qed

section \<open>Amounts of a liquidity\<close>

lemma far_apart: "x \<le> - 1 * m \<Longrightarrow> 0 \<le> y \<Longrightarrow> 2 * \<bar>x - y\<bar> \<le> m \<Longrightarrow> 0 < m \<Longrightarrow> False" for x y m :: int
  by (cases "x - y \<le> 0") auto

lemma mul_nonneg: "mul_ok d \<Longrightarrow> d_mul d a b = Inr c \<Longrightarrow> 0 \<le> a \<Longrightarrow> 0 \<le> b \<Longrightarrow> 0 \<le> c"
proof (rule ccontr)
  assume h: "mul_ok d" "d_mul d a b = Inr c" "0 \<le> a" "0 \<le> b" "\<not> 0 \<le> c"
  have "c * dec_one \<le> - 1 * dec_one" using h(5) less_imp_le [OF dec_one_pos(1)] by (intro mult_right_mono) auto
  moreover have "0 \<le> a * b" using h(3,4) by simp
  moreover have "2 * \<bar>c * dec_one - a * b\<bar> \<le> dec_one" using h(1,2) by (auto simp: mul_ok_def)
  ultimately show False by (rule far_apart) (rule dec_one_pos(1))
qed

lemma quo_nonneg: "quo_ok d \<Longrightarrow> d_quo d a b = Inr c \<Longrightarrow> 0 \<le> a \<Longrightarrow> 0 \<le> b \<Longrightarrow> 0 \<le> c"
proof (rule ccontr)
  assume h: "quo_ok d" "d_quo d a b = Inr c" "0 \<le> a" "0 \<le> b" "\<not> 0 \<le> c"
  have q: "2 * \<bar>c * b - a * dec_one\<bar> \<le> \<bar>b\<bar>" "b \<noteq> 0" using h(1,2) by (auto simp: quo_ok_def)
  have "c * b \<le> - 1 * b" using h(4,5) by (intro mult_right_mono) auto
  moreover have "0 \<le> a * dec_one" using h(3) less_imp_le [OF dec_one_pos(1)] by simp
  ultimately show False by (rule far_apart) (use q h(4) in auto)
qed

lemma CalcAmountBaseDelta_nonneg:
  assumes "mul_ok d" "quo_ok d" "ceil_ok d" "CalcAmountBaseDelta d liq a b up = Inr c" "0 \<le> liq" "0 \<le> a" "0 \<le> b"
  shows "0 \<le> c"
proof -
  obtain lo hi where o: "ordered a b = (lo, hi)" "0 \<le> lo" "0 \<le> hi" "0 \<le> hi - lo" 
    using assms(6,7) by (cases "b < a") (auto simp: ordered_def)
  from assms(4) obtain m q r where m: "d_mul d (hi - lo) liq = Inr m" "d_quo d m hi = Inr q" "d_quo d q lo = Inr r"
      "(if up then d_ceil d r else Inr r) = Inr c"
    unfolding CalcAmountBaseDelta_def o(1) Let_def prod.case by (elim bindR_E) blast
  have "0 \<le> r" using mul_nonneg [OF assms(1) m(1) o(4) assms(5)] quo_nonneg [OF assms(2) m(2)] quo_nonneg [OF assms(2) m(3)] o by blast
  then show ?thesis using m(4) assms(3) by (fastforce simp: ceil_ok_def split: if_splits)
qed

lemma CalcAmountQuoteDelta_nonneg:
  assumes "mul_ok d" "ceil_ok d" "CalcAmountQuoteDelta d liq a b up = Inr c" "0 \<le> liq"
  shows "0 \<le> c"
proof -
  from assms(3) obtain m where m: "d_mul d \<bar>b - a\<bar> liq = Inr m" "(if up then d_ceil d m else Inr m) = Inr c"
    unfolding CalcAmountQuoteDelta_def by (elim bindR_E) blast
  have "0 \<le> m" using mul_nonneg [OF assms(1) m(1) _ assms(4)] by simp
  then show ?thesis using m(2) assms(2) by (fastforce simp: ceil_ok_def split: if_splits)
qed

lemma go_div_minus: "\<bar>go_div (- a) b\<bar> = \<bar>go_div a b\<bar>"
  by (simp add: go_div_def)

lemma truncated_le: "0 \<le> r \<Longrightarrow> r \<le> c \<Longrightarrow> \<bar>go_div (- r) dec_one\<bar> \<le> go_div c dec_one"
  by (simp add: go_div_minus zdiv_mono1 pos_imp_zdiv_nonneg_iff)

lemma base_deposit_covers:
  assumes "mul_ok d" "quo_ok d" "mul_odd d" "quo_odd d" "ceil_ok d"
    and "CalcAmountBaseDelta d liq a b True = Inr c" "0 \<le> liq" "0 \<le> a" "0 \<le> b"
  shows "\<exists>r. CalcAmountBaseDelta d (- liq) a b False = Inr r \<and> \<bar>go_div r dec_one\<bar> \<le> go_div c dec_one"
proof -
  obtain lo hi where o: "ordered a b = (lo, hi)" by fastforce
  from assms(6) obtain m q r where m: "d_mul d (hi - lo) liq = Inr m" "d_quo d m hi = Inr q" "d_quo d q lo = Inr r" "d_ceil d r = Inr c"
    unfolding CalcAmountBaseDelta_def o Let_def prod.case by (elim bindR_E) auto
  then have un: "CalcAmountBaseDelta d liq a b False = Inr r" by (simp add: CalcAmountBaseDelta_def o)
  have "0 \<le> r" by (rule CalcAmountBaseDelta_nonneg [OF assms(1,2,5) un assms(7-9)])
  moreover have "r \<le> c" using assms(5) m(4) by (auto simp: ceil_ok_def)
  ultimately have "\<bar>go_div (- r) dec_one\<bar> \<le> go_div c dec_one" by (rule truncated_le)
  moreover have "CalcAmountBaseDelta d (- liq) a b False = Inr (- r)"
    using m assms(3,4) by (simp add: CalcAmountBaseDelta_def o mul_odd_def quo_odd_def)
  ultimately show ?thesis by blast
qed

lemma quote_deposit_covers:
  assumes "mul_ok d" "mul_odd d" "ceil_ok d" "CalcAmountQuoteDelta d liq a b True = Inr c" "0 \<le> liq"
  shows "\<exists>r. CalcAmountQuoteDelta d (- liq) a b False = Inr r \<and> \<bar>go_div r dec_one\<bar> \<le> go_div c dec_one"
proof -
  from assms(4) obtain m where m: "d_mul d \<bar>b - a\<bar> liq = Inr m" "d_ceil d m = Inr c"
    unfolding CalcAmountQuoteDelta_def by (elim bindR_E) auto
  then have un: "CalcAmountQuoteDelta d liq a b False = Inr m" by (simp add: CalcAmountQuoteDelta_def)
  have "0 \<le> m" by (rule CalcAmountQuoteDelta_nonneg [OF assms(1,3) un assms(5)])
  moreover have "m \<le> c" using assms(3) m(2) by (auto simp: ceil_ok_def)
  ultimately have "\<bar>go_div (- m) dec_one\<bar> \<le> go_div c dec_one" by (rule truncated_le)
  moreover have "CalcAmountQuoteDelta d (- liq) a b False = Inr (- m)"
    using m assms(2) by (simp add: CalcAmountQuoteDelta_def mul_odd_def)
  ultimately show ?thesis by blast
qed

lemma deposit_covers_withdrawal:
  assumes "mul_ok d" "quo_ok d" "mul_odd d" "quo_odd d" "ceil_ok d"
    and "0 < liq" "TicksToSqrtPrice d l u (pl_TickParams p) = Inr (a, b)" "0 \<le> a" "0 \<le> b" "0 \<le> pl_CurrentSqrtPrice p"
    and "CalcActualAmounts d p l u liq = Inr (base, quote)"
  shows "\<exists>base' quote'. CalcActualAmounts d p l u (- liq) = Inr (base', quote')
    \<and> \<bar>go_div base' dec_one\<bar> \<le> go_div base dec_one \<and> \<bar>go_div quote' dec_one\<bar> \<le> go_div quote dec_one"
proof -
  note bs = base_deposit_covers [OF assms(1-5) _ less_imp_le [OF assms(6)]]
  note qs = quote_deposit_covers [OF assms(1,3,5) _ less_imp_le [OF assms(6)]]
  have zero: "\<bar>go_div 0 dec_one\<bar> \<le> go_div 0 dec_one" by (simp add: go_div_def)
  have L: "\<not> liq = 0" "(0 < liq) = True" "\<not> - liq = 0" "(0 < - liq) = False" using assms(6) by simp_all
  note body = assms(11) [unfolded CalcActualAmounts_def assms(7) bindR_simps prod.case Let_def L if_False]
  consider (inside) "IsCurrentTickInRange p l u" | (below) "\<not> IsCurrentTickInRange p l u" "pl_CurrentTick p < l"
    | (above) "\<not> IsCurrentTickInRange p l u" "\<not> pl_CurrentTick p < l" by blast
  then show ?thesis
  proof cases
    case inside
    then have "CalcAmountBaseDelta d liq (pl_CurrentSqrtPrice p) b True = Inr base"
        "CalcAmountQuoteDelta d liq (pl_CurrentSqrtPrice p) a True = Inr quote"
      using body L(1) by (simp_all add: result_simps)
    from bs [OF this(1) assms(10,9)] qs [OF this(2)] inside L(1) show ?thesis
      unfolding CalcActualAmounts_def assms(7) bindR_simps prod.case Let_def L by (elim exE conjE) simp
  next
    case below
    then have "CalcAmountBaseDelta d liq a b True = Inr base" "quote = 0" using body L(1) by (simp_all add: result_simps)
    with bs [OF this(1) assms(8,9)] below zero L(1) show ?thesis
      unfolding CalcActualAmounts_def assms(7) bindR_simps prod.case Let_def L by (elim exE conjE) simp
  next
    case above
    then have "CalcAmountQuoteDelta d liq a b True = Inr quote" "base = 0" using body L(1) by (simp_all add: result_simps)
    with qs [OF this(1)] above zero L(1) show ?thesis
      unfolding CalcActualAmounts_def assms(7) bindR_simps prod.case Let_def L by (elim exE conjE) simp
  qed
qed

end
