(* ===== verification/LpActive.thy ===== *)
theory LpActive
  imports LpChain LpPrice
begin

text \<open>
  The liquidity at a tick is that of the positions whose range contains it. The net liquidity of the initialised ticks is
  its increase from one tick to the next, so a swap that walks from tick to tick in the order of the iterator always
  trades against the liquidity of the positions around its price.
\<close>

section \<open>Liquidity at a tick\<close>

definition active_at :: "uint64 \<Rightarrow> int \<Rightarrow> Position \<Rightarrow> dec" where
  "active_at q t p = (if po_PoolId p = q \<and> po_LowerTick p \<le> t \<and> t < po_UpperTick p then po_Liquidity p else 0)"

definition active :: "'b lps \<Rightarrow> uint64 \<Rightarrow> int \<Rightarrow> dec" where
  "active s q t = possum (active_at q t) s"

abbreviation tick_entry :: "'b lps \<Rightarrow> uint64 \<Rightarrow> int \<Rightarrow> TickInfo option" where
  "tick_entry s q t \<equiv> kv_get (ls_ticks s) (GetTickInfoIDBytes q t)"

lemma possum_cong:
  assumes "book s" "\<And>i p. GetPosition s i = Some p \<Longrightarrow> f p = g p"
  shows "possum f s = possum g s"
proof -
  have "f (snd e) = g (snd e)" if "e \<in> set (ls_positions s)" for e
  proof -
    have "kv_ok (ls_positions s)" using assms(1) by (simp add: book_defs)
    then have "GetPosition s (fst e) = Some (snd e)" using that kv.get_iff [of "ls_positions s"] by (simp add: GetPosition_def)
    then show ?thesis by (rule assms(2))
  qed
  then show ?thesis unfolding possum_def by (intro arg_cong [where f = sum_list] map_cong) auto
qed

lemma possum_add: "possum (\<lambda>p. f p + g p) s = possum f s + possum g s"
  by (simp add: possum_def sum_list_addf)

lemma possum_nonneg:
  assumes "book s" "\<And>i p. GetPosition s i = Some p \<Longrightarrow> 0 \<le> f p"
  shows "0 \<le> possum f s"
proof -
  have "possum f s = possum (\<lambda>p. \<bar>f p\<bar>) s" using assms by (intro possum_cong) auto
  moreover have "0 \<le> possum (\<lambda>p. \<bar>f p\<bar>) s" unfolding possum_def by (rule sum_list_nonneg) auto
  ultimately show ?thesis by simp
qed

lemma position_facts:
  assumes "book s" "GetPosition s i = Some p"
  shows "po_LowerTick p < po_UpperTick p" "0 \<le> po_Liquidity p"
  using assms by (auto simp: book_def positions_ok_def position_ok_def)

lemma active_nonneg: "book s \<Longrightarrow> 0 \<le> active s q t"
  unfolding active_def by (rule possum_nonneg) (auto simp: active_at_def position_facts)

lemma active_step:
  assumes "book s" "int64 t"
  shows "active s q t = active s q (t - 1) + tick_net s q t"
proof -
  have "possum (active_at q t) s = possum (\<lambda>p. active_at q (t - 1) p + net_at q t p) s"
    by (rule possum_cong [OF assms(1)]) (use position_facts(1) [OF assms(1)] in \<open>fastforce simp: active_at_def net_at_def\<close>)
  moreover have "tick_net s q t = possum (net_at q t) s" using assms unfolding book_def ticks_balance_def by blast
  ultimately show ?thesis by (simp add: active_def possum_add)
qed

lemma active_gap:
  assumes "book s" "a \<le> b" "\<And>u. a < u \<Longrightarrow> u \<le> b \<Longrightarrow> int64 u \<and> tick_entry s q u = None"
  shows "active s q b = active s q a"
  using assms(2,3)
proof (induction b rule: int_ge_induct)
  case (step b)
  have "tick_net s q (b + 1) = 0" "int64 (b + 1)" using step.prems [of "b + 1"] step.hyps by (auto simp: tick_net_def)
  then have "active s q (b + 1) = active s q b" using active_step [OF assms(1), of "b + 1" q] by simp
  moreover have "active s q b = active s q a" using step.prems by (intro step.IH) auto
  ultimately show ?case by simp
qed simp

section \<open>Iterators\<close>

text \<open>The ticks that an iterator has still to visit, from a starting point down or up: each is the next initialised one.\<close>

fun tick_walk :: "bool \<Rightarrow> 'b lps \<Rightarrow> uint64 \<Rightarrow> int \<Rightarrow> tick_iter \<Rightarrow> bool" where
  "tick_walk down s q b [] \<longleftrightarrow> True"
| "tick_walk down s q b (e # es) \<longleftrightarrow>
     (let t = ti_TickIndex (snd e) in
      fst e = TickIndexToBytes t \<and> int64 t \<and> tick_entry s q t = Some (snd e)
      \<and> (if down then t \<le> b \<and> (\<forall>u. t < u \<longrightarrow> u \<le> b \<longrightarrow> tick_entry s q u = None)
         else b < t \<and> (\<forall>u. b < u \<longrightarrow> u < t \<longrightarrow> tick_entry s q u = None))
      \<and> tick_walk down s q (if down then t - 1 else t) es)"

definition entry_ok :: "'b lps \<Rightarrow> uint64 \<Rightarrow> bytes \<times> TickInfo \<Rightarrow> bool" where
  "entry_ok s q e \<longleftrightarrow> fst e = TickIndexToBytes (ti_TickIndex (snd e)) \<and> int64 (ti_TickIndex (snd e)) \<and> tick_entry s q (ti_TickIndex (snd e)) = Some (snd e)"

abbreviation tick_of :: "bytes \<times> TickInfo \<Rightarrow> int" where
  "tick_of e \<equiv> ti_TickIndex (snd e)"

lemma walk_down_sorted:
  assumes "sorted_wrt (\<lambda>e f. tick_of f < tick_of e) es" "\<forall>e\<in>set es. entry_ok s q e \<and> tick_of e \<le> b"
    and "\<And>u. u \<le> b \<Longrightarrow> int64 u \<Longrightarrow> tick_entry s q u \<noteq> None \<Longrightarrow> u \<in> tick_of ` set es" "int64 b \<or> es = []"
  shows "tick_walk True s q b es"
  using assms
proof (induction es arbitrary: b)
  case (Cons e es)
  let ?t = "tick_of e"
  have e: "entry_ok s q e" "?t \<le> b" using Cons.prems(2) by auto
  have "tick_entry s q u = None" if "?t < u" "u \<le> b" for u
  proof (rule ccontr)
    assume "tick_entry s q u \<noteq> None"
    moreover have "int64 u" using that e Cons.prems(4) by (auto simp: int64_def entry_ok_def)
    ultimately have "u \<in> tick_of ` set (e # es)" using Cons.prems(3) that(2) by blast
    then show False using Cons.prems(1) that(1) by auto
  qed
  moreover have "tick_walk True s q (?t - 1) es"
  proof (rule Cons.IH)
    show "u \<in> tick_of ` set es" if "u \<le> ?t - 1" "int64 u" "tick_entry s q u \<noteq> None" for u
      using Cons.prems(3) [of u] that e(2) by auto
    show "int64 (?t - 1) \<or> es = []"
      using Cons.prems(1,2) e(1) by (cases es) (fastforce simp: int64_def entry_ok_def)+
  qed (use Cons.prems(1,2) in auto)
  ultimately show ?case using e by (simp add: entry_ok_def Let_def)
qed simp

lemma walk_up_sorted:
  assumes "sorted_wrt (\<lambda>e f. tick_of e < tick_of f) es" "\<forall>e\<in>set es. entry_ok s q e \<and> b < tick_of e"
    and "\<And>u. b < u \<Longrightarrow> int64 u \<Longrightarrow> tick_entry s q u \<noteq> None \<Longrightarrow> u \<in> tick_of ` set es" "int64 b"
  shows "tick_walk False s q b es"
  using assms
proof (induction es arbitrary: b)
  case (Cons e es)
  let ?t = "tick_of e"
  have e: "entry_ok s q e" "b < ?t" using Cons.prems(2) by auto
  have "tick_entry s q u = None" if "b < u" "u < ?t" for u
  proof (rule ccontr)
    assume "tick_entry s q u \<noteq> None"
    moreover have "int64 u" using that e Cons.prems(4) by (auto simp: int64_def entry_ok_def)
    ultimately have "u \<in> tick_of ` set (e # es)" using Cons.prems(3) that(1) by blast
    then show False using Cons.prems(1) that(2) by auto
  qed
  moreover have "tick_walk False s q ?t es"
  proof (rule Cons.IH)
    show "u \<in> tick_of ` set es" if "?t < u" "int64 u" "tick_entry s q u \<noteq> None" for u
      using Cons.prems(3) [of u] that e(2) by auto
    show "int64 ?t" using e(1) by (simp add: entry_ok_def)
  qed (use Cons.prems(1,2) in auto)
  ultimately show ?case using e by (simp add: entry_ok_def Let_def)
qed simp

lemma tick_store_entry:
  assumes "book s" "e \<in> set (tick_store s q)"
  shows "entry_ok s q e"
proof -
  obtain k where k: "(k, snd e) \<in> set (ls_ticks s)" "prefix (KeyTickPrefixByPoolId q) k" "fst e = drop 24 k"
    using assms(2) by (auto simp: tick_store_def kv_prefix_def)
  have g: "kv_get (ls_ticks s) k = Some (snd e)" using k(1) kv.get_iff [of "ls_ticks s"] assms(1) by (simp add: book_defs)
  then have i: "k = GetTickInfoIDBytes (ti_PoolId (snd e)) (tick_of e)" "int64 (tick_of e)"
    using assms(1) unfolding book_def ticks_ok_def by blast+
  then have "ti_PoolId (snd e) = q" using k(2) by (simp add: prefix_tick_iff)
  then show ?thesis using i g k(3) by (simp add: entry_ok_def GetTickInfoIDBytes_def)
qed

lemma tick_store_complete:
  assumes "book s" "tick_entry s q u = Some i" "int64 u"
  shows "u \<in> tick_of ` set (tick_store s q)"
proof -
  have m: "(GetTickInfoIDBytes q u, i) \<in> set (ls_ticks s)" using assms(1,2) kv.get_iff [of "ls_ticks s"] by (simp add: book_defs)
  have "GetTickInfoIDBytes q u = GetTickInfoIDBytes (ti_PoolId i) (ti_TickIndex i) \<and> int64 (ti_TickIndex i)"
    using assms(1,2) unfolding book_def ticks_ok_def by blast
  then have "ti_TickIndex i = u" using assms(3) GetTickInfoIDBytes_inject by metis
  moreover have "(drop 24 (GetTickInfoIDBytes q u), i) \<in> set (tick_store s q)"
    using m by (force simp: tick_store_def kv_prefix_def prefix_tick_iff)
  ultimately show ?thesis by force
qed

lemma tick_store_sorted:
  assumes "book s"
  shows "sorted_wrt (\<lambda>e f. tick_of e < tick_of f) (tick_store s q)"
proof -
  have "kv_ok (kv_prefix (KeyTickPrefixByPoolId q) (ls_ticks s))" using assms by (simp add: book_defs kv_prefix_def kv_ok_filter)
  then have "sorted_wrt (\<lambda>e f. fst e < fst f) (kv_prefix (KeyTickPrefixByPoolId q) (ls_ticks s))" by (simp add: kv_ok_def sorted_wrt_map)
  then have "sorted_wrt (\<lambda>e f. drop 24 (fst e) < drop 24 (fst f)) (kv_prefix (KeyTickPrefixByPoolId q) (ls_ticks s))"
  proof (rule sorted_wrt_mono_rel [rotated])
    fix e f :: "bytes \<times> TickInfo"
    assume "e \<in> set (kv_prefix (KeyTickPrefixByPoolId q) (ls_ticks s))" "f \<in> set (kv_prefix (KeyTickPrefixByPoolId q) (ls_ticks s))" and lt: "fst e < fst f"
    then obtain a b where "fst e = KeyTickPrefixByPoolId q @ a" "fst f = KeyTickPrefixByPoolId q @ b" by (auto simp: kv_prefix_def prefix_def)
    with lt show "drop 24 (fst e) < drop 24 (fst f)" by (simp add: append_less_iff)
  qed
  then have st: "sorted_wrt (\<lambda>e f. fst e < fst f) (tick_store s q)" by (simp add: tick_store_def sorted_wrt_map)
  show ?thesis
  proof (rule sorted_wrt_mono_rel [OF _ st])
    fix e f
    assume "e \<in> set (tick_store s q)" "f \<in> set (tick_store s q)" "fst e < fst f"
    then show "tick_of e < tick_of f" using tick_store_entry [OF assms] TickIndexToBytes_less_iff by (auto simp: entry_ok_def)
  qed
qed

lemma skip_to_dropWhile:
  "\<forall>e\<in>set it. entry_ok s q e \<Longrightarrow> skip_to P it = Inr (dropWhile (\<lambda>e. \<not> P (tick_of e)) it)"
  by (induction it) (auto simp: entry_ok_def TickIndex_roundtrip)

lemma dropWhile_sorted:
  "sorted_wrt (\<lambda>e f. tick_of e < tick_of f) es \<Longrightarrow> dropWhile (\<lambda>e. \<not> b < tick_of e) es = filter (\<lambda>e. b < tick_of e) es"
  by (induction es) (auto intro!: filter_True [symmetric])

lemma dropWhile_none: "\<forall>x\<in>set xs. \<not> P x \<Longrightarrow> dropWhile P xs = xs"
  by (cases xs) auto

lemma NextTickIterator_walk:
  assumes "book s" "int64 b" "NextTickIterator h s q b = Inr it"
  shows "tick_walk (BaseForQuote h) s q b it"
proof -
  let ?st = "tick_store s q"
  note en = tick_store_entry [OF assms(1)] and so = tick_store_sorted [OF assms(1), of q] and co = tick_store_complete [OF assms(1)]
  show ?thesis
  proof (cases h)
    case (baseForQuoteHelper l r)
    let ?es = "rev (filter (\<lambda>e. fst e < TickIndexToBytes (wrap_int (b + 1))) ?st)"
    have it: "it = dropWhile (\<lambda>e. \<not> tick_of e \<le> b) ?es"
      using assms(3) skip_to_dropWhile [of ?es s q "\<lambda>t. t \<le> b"] en baseForQuoteHelper by (simp add: NextTickIterator_bfq_def Let_def)
    show ?thesis
    proof (cases "int64 (b + 1)")
      case True
      have "wrap_int (b + 1) = b + 1" using True by (intro wrap_int_id) (simp_all add: int64_def)
      then have k: "fst e < TickIndexToBytes (wrap_int (b + 1)) \<longleftrightarrow> tick_of e \<le> b" if "e \<in> set ?st" for e
        using en [OF that] True by (auto simp: entry_ok_def TickIndexToBytes_less_iff)
      have f: "filter (\<lambda>e. fst e < TickIndexToBytes (wrap_int (b + 1))) ?st = filter (\<lambda>e. tick_of e \<le> b) ?st"
        by (rule filter_cong) (simp_all add: k)
      have it: "it = rev (filter (\<lambda>e. tick_of e \<le> b) ?st)" unfolding it f by (rule dropWhile_none) auto
      have "tick_walk True s q b it"
      proof (rule walk_down_sorted)
        show "sorted_wrt (\<lambda>e f. tick_of f < tick_of e) it" unfolding it using so by (simp add: sorted_wrt_rev sorted_wrt_filter)
        show "\<forall>e\<in>set it. entry_ok s q e \<and> tick_of e \<le> b" unfolding it using en by auto
        show "u \<in> tick_of ` set it" if "u \<le> b" "int64 u" "tick_entry s q u \<noteq> None" for u
          using co [of q u] that unfolding it by auto
      qed (use assms(2) in simp)
      then show ?thesis by (simp add: baseForQuoteHelper)
    next
      case False
      then have "b = 2 ^ 63 - 1" using assms(2) by (auto simp: int64_def)
      then have "wrap_int (b + 1) = - (2 ^ 63)" by (simp add: wrap_int_def)
      moreover have "\<not> fst e < TickIndexToBytes (- (2 ^ 63))" if "e \<in> set ?st" for e
        using en [OF that] TickIndexToBytes_less_iff [of "tick_of e" "- (2 ^ 63)"] by (auto simp: entry_ok_def int64_def)
      ultimately have "it = []" unfolding it by (simp add: filter_False)
      then show ?thesis by simp
    qed
  next
    case (quoteForBaseHelper l r)
    let ?es = "filter (\<lambda>e. TickIndexToBytes b \<le> fst e) ?st"
    have "it = dropWhile (\<lambda>e. \<not> b < tick_of e) ?es"
      using assms(3) skip_to_dropWhile [of ?es s q "\<lambda>t. b < t"] en quoteForBaseHelper by (simp add: NextTickIterator_qfb_def Let_def)
    also have "\<dots> = filter (\<lambda>e. b < tick_of e) ?es" using so by (intro dropWhile_sorted sorted_wrt_filter)
    also have "\<dots> = filter (\<lambda>e. b < tick_of e) ?st"
    proof -
      have "b < tick_of e \<Longrightarrow> TickIndexToBytes b \<le> fst e" if "e \<in> set ?st" for e
        using en [OF that] assms(2) TickIndexToBytes_less_iff [of b "tick_of e"] by (auto simp: entry_ok_def)
      then show ?thesis by (auto intro!: filter_cong)
    qed
    finally have it: "it = filter (\<lambda>e. b < tick_of e) ?st" .
    have "tick_walk False s q b it"
    proof (rule walk_up_sorted [OF _ _ _ assms(2)])
      show "sorted_wrt (\<lambda>e f. tick_of e < tick_of f) it" unfolding it using so by (rule sorted_wrt_filter)
      show "\<forall>e\<in>set it. entry_ok s q e \<and> b < tick_of e" unfolding it using en by auto
      show "u \<in> tick_of ` set it" if "b < u" "int64 u" "tick_entry s q u \<noteq> None" for u
        using co [of q u] that unfolding it by auto
    qed
    then show ?thesis by (simp add: quoteForBaseHelper)
  qed
qed

section \<open>The loop follows the liquidity\<close>

text \<open>What is used of the square root, and of the price at tick zero, which the code does not check.\<close>

definition sqrt_ok :: "decx \<Rightarrow> bool" where
  "sqrt_ok d \<longleftrightarrow> (\<forall>a r. d_approxSqrt d a = Inr r \<longrightarrow> 0 \<le> a \<longrightarrow> 0 \<le> r)"

definition offset_ok :: "decx \<Rightarrow> TickParams \<Rightarrow> bool" where
  "offset_ok d tp \<longleftrightarrow> (\<forall>p. Pow d (tp_PriceRatio tp) (tp_BaseOffset tp) = Inr p \<longrightarrow> 0 \<le> p)"

lemma TickToSqrtPrice_nonneg:
  assumes "sqrt_ok d" "offset_ok d tp" "TickToSqrtPrice d t tp = Inr r"
  shows "0 \<le> r"
proof -
  from assms(3) obtain a where a: "TickToPrice d t tp = Inr a" "d_approxSqrt d a = Inr r" by (auto simp: TickToSqrtPrice_def elim!: bindR_E)
  have "0 \<le> a" using a(1) assms(2) unfolding TickToPrice_def offset_ok_def by (auto simp: MinSpotPrice_def split: if_splits elim!: bindR_E)
  then show ?thesis using assms(1) a(2) by (auto simp: sqrt_ok_def)
qed

lemma on_err_Inr: "on_err e r = Inr v \<longleftrightarrow> r = Inr v"
  by (auto simp: on_err_def split: sum.splits fault.splits)

lemma CalculateSqrtPriceToTick_nonneg:
  assumes "sqrt_ok d" "offset_ok d tp" "CalculateSqrtPriceToTick d p tp = Inr t"
  shows "0 \<le> p"
proof -
  from assms(3) obtain u r where "TickToSqrtPrice d u tp = Inr r" "r \<le> p"
    unfolding CalculateSqrtPriceToTick_def Let_def
    by (elim bindR_E) (auto simp: on_err_Inr not_less split: if_splits prod.splits elim!: bindR_E)
  then show ?thesis using TickToSqrtPrice_nonneg [OF assms(1,2)] by force
qed

lemma GetSqrtPriceLimit_nonneg: "sqrt_ok d \<Longrightarrow> GetSqrtPriceLimit d pl b = Inr r \<Longrightarrow> 0 \<le> r"
  by (auto simp: GetSqrtPriceLimit_def MinSqrtPrice_def MaxSqrtPrice_def MinSpotPrice_def MaxSpotPrice_def dec_of_int_def dec_one_def sqrt_ok_def
      split: if_splits)

lemma crossing:
  assumes "book s" "tick_walk down s q b (e # es)" "- (2 ^ 63) - 1 \<le> b" "b < 2 ^ 63"
  shows "active s q (if down then tick_of e - 1 else tick_of e)
    = active s q b + (if down then - ti_LiquidityNet (snd e) else ti_LiquidityNet (snd e))"
proof -
  let ?t = "tick_of e"
  have t: "int64 ?t" "tick_entry s q ?t = Some (snd e)" using assms(2) by (auto simp: Let_def)
  have net: "active s q ?t = active s q (?t - 1) + ti_LiquidityNet (snd e)"
    using active_step [OF assms(1) t(1), of q] t(2) by (simp add: tick_net_def)
  show ?thesis
  proof (cases down)
    case True
    then have "active s q b = active s q ?t"
      using assms t(1) by (intro active_gap) (auto simp: Let_def int64_def)
    then show ?thesis using True net by simp
  next
    case False
    then have "active s q (?t - 1) = active s q b"
      using assms t(1) by (intro active_gap) (auto simp: Let_def int64_def)
    then show ?thesis using False net by simp
  qed
qed

definition tracks :: "SwapHelper \<Rightarrow> 'b lps \<Rightarrow> uint64 \<Rightarrow> SwapState \<Rightarrow> tick_iter \<Rightarrow> int \<Rightarrow> bool" where
  "tracks h s q ss it b \<longleftrightarrow> tick_walk (BaseForQuote h) s q b it \<and> ss_liquidity ss = active s q b \<and> - (2 ^ 63) - 1 \<le> b \<and> b < 2 ^ 63
     \<and> ss_swapHelper ss = h \<and> 0 \<le> ss_sqrtPrice ss"

lemma finish_step_cases:
  assumes "finish_step x p h nt ntp np start fa den up ss it s = Inr (ss', it', s')"
  obtains (cross) e es t where "ntp = np" "it = e # es" "it' = es"
      "ss' = ss\<lparr>ss_liquidity := ss_liquidity ss + GetLiquidityDeltaSign (ss_swapHelper ss) (ti_LiquidityNet (snd e)), ss_tick := t\<rparr>"
    | (stay) t where "it' = it" "start = np \<or> CalculateSqrtPriceToTick (lx_dec x) np (pl_TickParams p) = Inr t" "ss' = ss\<lparr>ss_tick := t\<rparr>"
proof (cases "ntp = np")
  case True
  then obtain i t where "ParseTickFromBz it = Inr i" "it' = tl it"
      "ss' = ss\<lparr>ss_liquidity := ss_liquidity ss + GetLiquidityDeltaSign (ss_swapHelper ss) (ti_LiquidityNet i), ss_tick := t\<rparr>"
    using assms by (auto simp: finish_step_def swapCrossTickLogic_def elim!: bindR_E)
  then show thesis using True by (cases it) (auto simp: ParseTickFromBz_def intro!: cross)
next
  case False
  show thesis
  proof (cases "start = np")
    case True
    then show ?thesis using assms False by (intro stay [of "ss_tick ss"]) (auto simp: finish_step_def split: if_splits)
  next
    case ne: False
    then show ?thesis using assms False by (auto simp: finish_step_def split: if_splits elim!: bindR_E intro: stay)
  qed
qed

lemma finish_step_tracks:
  assumes "book s" "sqrt_ok (lx_dec x)" "offset_ok (lx_dec x) (pl_TickParams p)"
    and run: "finish_step x p h nt ntp np start fa den up ss it s1 = Inr (ss', it', s2)"
    and tr: "tick_walk (BaseForQuote h) s q b it" "ss_liquidity ss = active s q b" "- (2 ^ 63) - 1 \<le> b" "b < 2 ^ 63" "ss_swapHelper ss = h"
      "ss_sqrtPrice ss = np" "0 \<le> start" "0 \<le> ntp"
  shows "0 \<le> np" "\<exists>b'. tracks h s q ss' it' b'" "ss_amountSpecifiedRemaining ss' = ss_amountSpecifiedRemaining ss"
proof -
  have "0 \<le> np \<and> (\<exists>b'. tracks h s q ss' it' b') \<and> ss_amountSpecifiedRemaining ss' = ss_amountSpecifiedRemaining ss"
  proof (cases rule: finish_step_cases [OF run, case_names cross stay])
    case (cross e es t)
    let ?b = "if BaseForQuote h then tick_of e - 1 else tick_of e"
    have "tick_walk (BaseForQuote h) s q ?b es" "int64 (tick_of e)" using tr(1) cross(2) by (auto simp: Let_def)
    moreover have "active s q ?b = active s q b + GetLiquidityDeltaSign h (ti_LiquidityNet (snd e))"
      using crossing [OF assms(1) tr(1) [unfolded cross(2)] tr(3,4)] by (cases h) simp_all
    ultimately have "tracks h s q ss' it' ?b" using cross tr by (auto simp: tracks_def int64_def)
    then show ?thesis using cross tr by auto
  next
    case (stay t)
    have "0 \<le> np" using stay(2) tr(7) CalculateSqrtPriceToTick_nonneg [OF assms(2,3)] by auto
    then show ?thesis using stay tr by (auto simp: tracks_def)
  qed
  then show "0 \<le> np" "\<exists>b'. tracks h s q ss' it' b'" "ss_amountSpecifiedRemaining ss' = ss_amountSpecifiedRemaining ss" by auto
qed

section \<open>Progress\<close>

text \<open>The laws of the decimals that the loops rely on.\<close>

definition dec_ok :: "decx \<Rightarrow> bool" where
  "dec_ok d \<longleftrightarrow> mul_ok d \<and> quo_ok d \<and> ceil_ok d \<and> sqrt_ok d"

lemma GetSqrtTargetPrice_nonneg:
  "0 \<le> limit \<Longrightarrow> 0 \<le> p \<Longrightarrow> h = NewHelper b limit rate \<Longrightarrow> 0 \<le> GetSqrtTargetPrice h p"
  by (auto simp: NewHelper_def GetSqrtTargetPrice_bfq_def GetSqrtTargetPrice_qfb_def)

lemma fee_nonneg: "computeFeeChargePerSwapStepOutGivenIn d r a b rate = Inr f \<Longrightarrow> 0 \<le> f"
  by (auto simp: computeFeeChargePerSwapStepOutGivenIn_def not_less split: if_splits elim!: bindR_E)

lemma bucket_out_nonneg:
  assumes "dec_ok d" "ComputeSwapWithinBucketOutGivenIn d h cur target liq rem = Inr (np, ain, aout, fee)"
    and "0 \<le> liq" "0 \<le> cur" "0 \<le> target" "0 \<le> np"
  shows "0 \<le> ain" "0 \<le> fee"
proof -
  note base = CalcAmountBaseDelta_nonneg [of d liq] and quote = CalcAmountQuoteDelta_nonneg [of d liq]
  have "0 \<le> ain \<and> 0 \<le> fee"
  proof (cases h)
    case (baseForQuoteHelper l r)
    from assms(2) have "CalcAmountBaseDelta d liq target cur True = Inr ain \<or> CalcAmountBaseDelta d liq np cur True = Inr ain"
        "\<exists>r a b rate. computeFeeChargePerSwapStepOutGivenIn d r a b rate = Inr fee"
      unfolding baseForQuoteHelper ComputeSwapWithinBucketOutGivenIn.simps ComputeSwapWithinBucketOutGivenIn_bfq_def Let_def
      by (elim bindR_E; force split: if_splits)+
    then show ?thesis using base [of target cur True ain] base [of np cur True ain] fee_nonneg assms by (auto simp: dec_ok_def)
  next
    case (quoteForBaseHelper l r)
    from assms(2) have "CalcAmountQuoteDelta d liq target cur True = Inr ain \<or> CalcAmountQuoteDelta d liq np cur True = Inr ain"
        "\<exists>r a b rate. computeFeeChargePerSwapStepOutGivenIn d r a b rate = Inr fee"
      unfolding quoteForBaseHelper ComputeSwapWithinBucketOutGivenIn.simps ComputeSwapWithinBucketOutGivenIn_qfb_def Let_def
      by (elim bindR_E; force split: if_splits)+
    then show ?thesis using quote [of target cur True ain] quote [of np cur True ain] fee_nonneg assms by (auto simp: dec_ok_def)
  qed
  then show "0 \<le> ain" "0 \<le> fee" by auto
qed

lemma bucket_in_nonneg:
  assumes "dec_ok d" "ComputeSwapWithinBucketInGivenOut d h cur target liq rem = Inr (np, aout, ain, fee)"
    and "0 \<le> liq" "0 \<le> cur" "0 \<le> target" "0 \<le> np" "0 < rem"
  shows "0 \<le> aout" "aout \<le> rem"
proof -
  note base = CalcAmountBaseDelta_nonneg [of d liq] and quote = CalcAmountQuoteDelta_nonneg [of d liq]
  have "0 \<le> aout \<and> aout \<le> rem"
  proof (cases h)
    case (baseForQuoteHelper l r)
    from assms(2) obtain a where "CalcAmountQuoteDelta d liq target cur False = Inr a \<or> CalcAmountQuoteDelta d liq np cur False = Inr a"
        "aout = (if a > rem then rem else a)"
      unfolding baseForQuoteHelper ComputeSwapWithinBucketInGivenOut.simps ComputeSwapWithinBucketInGivenOut_bfq_def
      by (elim bindR_E) (case_tac "target = np"; auto)
    then show ?thesis using quote [of target cur False a] quote [of np cur False a] assms by (auto simp: dec_ok_def)
  next
    case (quoteForBaseHelper l r)
    from assms(2) obtain a where "CalcAmountBaseDelta d liq target cur False = Inr a \<or> CalcAmountBaseDelta d liq np cur False = Inr a"
        "aout = (if a > rem then rem else a)"
      unfolding quoteForBaseHelper ComputeSwapWithinBucketInGivenOut.simps ComputeSwapWithinBucketInGivenOut_qfb_def
      by (elim bindR_E) (case_tac "target = np"; auto)
    then show ?thesis using base [of target cur False a] base [of np cur False a] assms by (auto simp: dec_ok_def)
  qed
  then show "0 \<le> aout" "aout \<le> rem" by auto
qed

lemma fee_growth_fields:
  assumes "(if up then updateFeeGrowthGlobal d f ss else Inr ss) = Inr ss0"
  shows "ss_amountSpecifiedRemaining ss0 = ss_amountSpecifiedRemaining ss" "ss_sqrtPrice ss0 = ss_sqrtPrice ss"
    "ss_liquidity ss0 = ss_liquidity ss" "ss_swapHelper ss0 = ss_swapHelper ss"
proof -
  have "same_swap ss0 ss" using assms updateFeeGrowthGlobal_same [OF _ same_swap_refl] by (auto simp: same_swap_refl split: if_splits)
  then show "ss_amountSpecifiedRemaining ss0 = ss_amountSpecifiedRemaining ss" "ss_sqrtPrice ss0 = ss_sqrtPrice ss"
    "ss_liquidity ss0 = ss_liquidity ss" "ss_swapHelper ss0 = ss_swapHelper ss" by (simp_all add: same_swap_def)
qed

lemma next_tick_nonneg:
  assumes "sqrt_ok d" "offset_ok d (pl_TickParams p)" "iteratorToNextTickSqrtPriceTarget d it p h = Inr (nt, ntp, target)"
    and "h = NewHelper b limit rate" "0 \<le> limit"
  shows "0 \<le> ntp" "0 \<le> target"
proof -
  from assms(3) have "TickToSqrtPrice d nt (pl_TickParams p) = Inr ntp" and t: "target = GetSqrtTargetPrice h ntp"
    by (auto simp: iteratorToNextTickSqrtPriceTarget_def on_err_Inr split: list.splits elim!: bindR_E)
  then show "0 \<le> ntp" using TickToSqrtPrice_nonneg [OF assms(1,2)] by blast
  then show "0 \<le> target" unfolding t using GetSqrtTargetPrice_nonneg [OF assms(5) _ assms(4)] by blast
qed

lemma count_no_progress_less:
  assumes "count_no_progress a cnt = Inr cnt'" "0 \<le> a" "0 \<le> f" "r' = r - (a + f)" "0 < r" "cnt \<le> swapNoProgressLimit"
  shows "nat (swapNoProgressLimit - cnt') + nat r' < nat (swapNoProgressLimit - cnt) + nat r" "cnt' \<le> swapNoProgressLimit"
  using assms by (auto simp: count_no_progress_def split: if_splits)

text \<open>One turn of either loop: it stays with the liquidity of the positions, and comes nearer to its end.\<close>

definition swap_env :: "'b lpx \<Rightarrow> 'b lps \<Rightarrow> Pool \<Rightarrow> SwapHelper \<Rightarrow> bool" where
  "swap_env x s p h \<longleftrightarrow> book s \<and> dec_ok (lx_dec x) \<and> offset_ok (lx_dec x) (pl_TickParams p) \<and> (\<exists>b limit rate. h = NewHelper b limit rate \<and> 0 \<le> limit)"

definition near_end :: "SwapState \<Rightarrow> int \<Rightarrow> nat" where
  "near_end ss cnt = nat (swapNoProgressLimit - cnt) + nat (ss_amountSpecifiedRemaining ss)"

lemma out_given_in_step_progress:
  assumes env: "swap_env x s p h" and tr: "tracks h s q ss it b" and more: "0 < ss_amountSpecifiedRemaining ss" and cnt: "cnt \<le> swapNoProgressLimit"
    and run: "out_given_in_step x p h fa den up ss it cnt s1 = Inr (ss', it', cnt', s2)"
  shows "\<exists>b'. tracks h s q ss' it' b'" "near_end ss' cnt' < near_end ss cnt" "cnt' \<le> swapNoProgressLimit"
proof -
  from env obtain dr limit rate where en: "book s" "dec_ok (lx_dec x)" "sqrt_ok (lx_dec x)" "offset_ok (lx_dec x) (pl_TickParams p)" "h = NewHelper dr limit rate" "0 \<le> limit"
    by (auto simp: swap_env_def dec_ok_def)
  from run obtain nt ntp target np ain aout fee ss0 where r:
      "iteratorToNextTickSqrtPriceTarget (lx_dec x) it p h = Inr (nt, ntp, target)"
      "ComputeSwapWithinBucketOutGivenIn (lx_dec x) h (ss_sqrtPrice ss) target (ss_liquidity ss) (ss_amountSpecifiedRemaining ss) = Inr (np, ain, aout, fee)"
      "(if up then updateFeeGrowthGlobal (lx_dec x) fee ss else Inr ss) = Inr ss0"
      "finish_step x p h nt ntp np (ss_sqrtPrice ss) fa den up (ss0\<lparr>ss_sqrtPrice := np,
        ss_amountSpecifiedRemaining := ss_amountSpecifiedRemaining ss0 - (ain + fee), ss_amountCalculated := ss_amountCalculated ss0 + aout\<rparr>) it s1
        = Inr (ss', it', s2)"
      "count_no_progress ain cnt = Inr cnt'"
    unfolding out_given_in_step_def Let_def by (elim bindR_E) (auto elim!: bindR_E)
  note f = fee_growth_fields [OF r(3)]
  note nn = next_tick_nonneg [OF en(3,4) r(1) en(5,6)]
  from tr have t: "tick_walk (BaseForQuote h) s q b it" "ss_liquidity ss = active s q b" "- (2 ^ 63) - 1 \<le> b" "b < 2 ^ 63" "ss_swapHelper ss = h" "0 \<le> ss_sqrtPrice ss"
    by (auto simp: tracks_def)
  let ?ss1 = "ss0\<lparr>ss_sqrtPrice := np,
    ss_amountSpecifiedRemaining := ss_amountSpecifiedRemaining ss0 - (ain + fee), ss_amountCalculated := ss_amountCalculated ss0 + aout\<rparr>"
  have g: "ss_liquidity ?ss1 = active s q b" "ss_swapHelper ?ss1 = h" "ss_sqrtPrice ?ss1 = np" using f t by simp_all
  note fin = finish_step_tracks [OF en(1,3,4) r(4) t(1) g(1) t(3,4) g(2,3) t(6) nn(1)]
  have np: "0 \<le> np" and ex: "\<exists>b'. tracks h s q ss' it' b'" and rem: "ss_amountSpecifiedRemaining ss' = ss_amountSpecifiedRemaining ss - (ain + fee)"
    using fin f by simp_all
  show "\<exists>b'. tracks h s q ss' it' b'" by (rule ex)
  have "0 \<le> ss_liquidity ss" using t(2) active_nonneg [OF en(1)] by simp
  note am = bucket_out_nonneg [OF en(2) r(2) this t(6) nn(2) np]
  from count_no_progress_less [OF r(5) am rem more cnt]
  show "near_end ss' cnt' < near_end ss cnt" "cnt' \<le> swapNoProgressLimit" by (auto simp: near_end_def)
qed

lemma in_given_out_step_progress:
  assumes env: "swap_env x s p h" and tr: "tracks h s q ss it b" and more: "0 < ss_amountSpecifiedRemaining ss" and cnt: "cnt \<le> swapNoProgressLimit"
    and run: "in_given_out_step x p h fa den up ss it cnt s1 = Inr (ss', it', cnt', s2)"
  shows "\<exists>b'. tracks h s q ss' it' b'" "near_end ss' cnt' < near_end ss cnt" "cnt' \<le> swapNoProgressLimit"
proof -
  from env obtain dr limit rate where en: "book s" "dec_ok (lx_dec x)" "sqrt_ok (lx_dec x)" "offset_ok (lx_dec x) (pl_TickParams p)" "h = NewHelper dr limit rate" "0 \<le> limit"
    by (auto simp: swap_env_def dec_ok_def)
  from run obtain nt ntp target np ain aout fee ss0 where r:
      "iteratorToNextTickSqrtPriceTarget (lx_dec x) it p h = Inr (nt, ntp, target)"
      "ComputeSwapWithinBucketInGivenOut (lx_dec x) h (ss_sqrtPrice ss) target (ss_liquidity ss) (ss_amountSpecifiedRemaining ss) = Inr (np, aout, ain, fee)"
      "(if up then updateFeeGrowthGlobal (lx_dec x) fee ss else Inr ss) = Inr ss0"
      "finish_step x p h nt ntp np (ss_sqrtPrice ss) fa den up (ss0\<lparr>ss_sqrtPrice := np,
        ss_amountSpecifiedRemaining := ss_amountSpecifiedRemaining ss0 - aout, ss_amountCalculated := ss_amountCalculated ss0 + (ain + fee)\<rparr>) it s1
        = Inr (ss', it', s2)"
      "count_no_progress aout cnt = Inr cnt'"
    unfolding in_given_out_step_def Let_def by (elim bindR_E) (auto elim!: bindR_E)
  note f = fee_growth_fields [OF r(3)]
  note nn = next_tick_nonneg [OF en(3,4) r(1) en(5,6)]
  from tr have t: "tick_walk (BaseForQuote h) s q b it" "ss_liquidity ss = active s q b" "- (2 ^ 63) - 1 \<le> b" "b < 2 ^ 63" "ss_swapHelper ss = h" "0 \<le> ss_sqrtPrice ss"
    by (auto simp: tracks_def)
  let ?ss1 = "ss0\<lparr>ss_sqrtPrice := np,
    ss_amountSpecifiedRemaining := ss_amountSpecifiedRemaining ss0 - aout, ss_amountCalculated := ss_amountCalculated ss0 + (ain + fee)\<rparr>"
  have g: "ss_liquidity ?ss1 = active s q b" "ss_swapHelper ?ss1 = h" "ss_sqrtPrice ?ss1 = np" using f t by simp_all
  note fin = finish_step_tracks [OF en(1,3,4) r(4) t(1) g(1) t(3,4) g(2,3) t(6) nn(1)]
  have np: "0 \<le> np" and ex: "\<exists>b'. tracks h s q ss' it' b'" and rem: "ss_amountSpecifiedRemaining ss' = ss_amountSpecifiedRemaining ss - (aout + 0)"
    using fin f by simp_all
  show "\<exists>b'. tracks h s q ss' it' b'" by (rule ex)
  have "0 \<le> ss_liquidity ss" using t(2) active_nonneg [OF en(1)] by simp
  note am = bucket_in_nonneg [OF en(2) r(2) this t(6) nn(2) np more]
  from count_no_progress_less [OF r(5) am(1) order_refl rem more cnt]
  show "near_end ss' cnt' < near_end ss cnt" "cnt' \<le> swapNoProgressLimit" by (auto simp: near_end_def)
qed

section \<open>The loops end\<close>

lemma swap_loop_ends:
  assumes init: "I ss iter cnt s"
    and step: "\<And>ss iter cnt s ss' iter' cnt' s'. I ss iter cnt s \<Longrightarrow> 0 < ss_amountSpecifiedRemaining ss \<Longrightarrow>
      step ss iter cnt s = Inr (ss', iter', cnt', s') \<Longrightarrow> I ss' iter' cnt' s' \<and> m ss' cnt' < (m ss cnt :: nat)"
  shows "swap_loop step limit ss iter cnt s \<noteq> None"
  using init
proof (induction "m ss cnt" arbitrary: ss iter cnt s rule: less_induct)
  case less
  show ?case
  proof (cases "0 < ss_amountSpecifiedRemaining ss \<and> ss_sqrtPrice ss \<noteq> limit \<and> (\<exists>r. step ss iter cnt s = Inr r)")
    case True
    then obtain ss' iter' cnt' s' where r: "step ss iter cnt s = Inr (ss', iter', cnt', s')" by auto
    with True have "swap_loop step limit ss iter cnt s = swap_loop step limit ss' iter' cnt' s'" by (subst swap_loop.simps) simp
    moreover have "I ss' iter' cnt' s'" "m ss' cnt' < m ss cnt" using step [OF less.prems _ r] True by auto
    ultimately show ?thesis using less.hyps by simp
  next
    case False
    then show ?thesis by (subst swap_loop.simps) (auto split: sum.splits)
  qed
qed

lemma swap_step_progress:
  assumes "swap_env x s p h" "(\<exists>b. tracks h s q ss it b) \<and> cnt \<le> swapNoProgressLimit" "0 < ss_amountSpecifiedRemaining ss"
    and "st = out_given_in_step x p h fa den up \<or> st = in_given_out_step x p h fa den up" "st ss it cnt s1 = Inr (ss', it', cnt', s2)"
  shows "((\<exists>b. tracks h s q ss' it' b) \<and> cnt' \<le> swapNoProgressLimit) \<and> near_end ss' cnt' < near_end ss cnt"
proof -
  from assms(2) obtain b where b: "tracks h s q ss it b" "cnt \<le> swapNoProgressLimit" by blast
  from assms(4) show ?thesis
  proof
    assume "st = out_given_in_step x p h fa den up"
    then have "out_given_in_step x p h fa den up ss it cnt s1 = Inr (ss', it', cnt', s2)" using assms(5) by simp
    from out_given_in_step_progress [OF assms(1) b(1) assms(3) b(2) this] show ?thesis by blast
  next
    assume "st = in_given_out_step x p h fa den up"
    then have "in_given_out_step x p h fa den up ss it cnt s1 = Inr (ss', it', cnt', s2)" using assms(5) by simp
    from in_given_out_step_progress [OF assms(1) b(1) assms(3) b(2) this] show ?thesis by blast
  qed
qed

text \<open>A pool whose current liquidity is that of the positions around its tick.\<close>

definition pool_ready :: "'b lpx \<Rightarrow> 'b lps \<Rightarrow> uint64 \<Rightarrow> Pool \<Rightarrow> bool" where
  "pool_ready x s q p \<longleftrightarrow> book s \<and> dec_ok (lx_dec x) \<and> offset_ok (lx_dec x) (pl_TickParams p) \<and> int64 (pl_CurrentTick p)
     \<and> 0 \<le> pl_CurrentSqrtPrice p \<and> pl_CurrentTickLiquidity p = active s q (pl_CurrentTick p)"

lemma ready_tracks:
  assumes "pool_ready x s q p" "setupSwapHelper (lx_dec x) p rate den pl = Inr (h, limit)" "NextTickIterator h s q (pl_CurrentTick p) = Inr it"
  shows "swap_env x s p h" "tracks h s q (newSwapState n p h) it (pl_CurrentTick p)"
proof -
  from assms(2) obtain b where "GetSqrtPriceLimit (lx_dec x) pl b = Inr limit" "h = NewHelper b limit rate"
    by (auto simp: setupSwapHelper_def Let_def elim!: bindR_E)
  moreover have "sqrt_ok (lx_dec x)" using assms(1) by (simp add: pool_ready_def dec_ok_def)
  ultimately have "\<exists>b limit rate. h = NewHelper b limit rate \<and> 0 \<le> limit" using GetSqrtPriceLimit_nonneg by blast
  then show "swap_env x s p h" using assms(1) by (simp add: pool_ready_def swap_env_def)
  show "tracks h s q (newSwapState n p h) it (pl_CurrentTick p)"
    using assms(1) NextTickIterator_walk [OF _ _ assms(3)] by (simp add: pool_ready_def tracks_def newSwapState_def int64_def)
qed

lemma swap_loops_end:
  assumes "pool_ready x s q p" "setupSwapHelper (lx_dec x) p rate den pl = Inr (h, limit)" "NextTickIterator h s q (pl_CurrentTick p) = Inr it"
    and st: "st = out_given_in_step x p h fa den up \<or> st = in_given_out_step x p h fa den up"
  shows "swap_loop st limit (newSwapState n p h) it 0 s \<noteq> None"
proof (rule swap_loop_ends [where I = "\<lambda>ss it cnt _. (\<exists>b. tracks h s q ss it b) \<and> cnt \<le> swapNoProgressLimit" and m = near_end])
  note r = ready_tracks [OF assms(1-3)]
  show "(\<exists>b. tracks h s q (newSwapState n p h) it b) \<and> 0 \<le> swapNoProgressLimit" using r(2) by (auto simp: swapNoProgressLimit_def)
  fix ss iter cnt s1 ss' iter' cnt' s'
  assume "(\<exists>b. tracks h s q ss iter b) \<and> cnt \<le> swapNoProgressLimit" "0 < ss_amountSpecifiedRemaining ss" "st ss iter cnt s1 = Inr (ss', iter', cnt', s')"
  then show "((\<exists>b. tracks h s q ss' iter' b) \<and> cnt' \<le> swapNoProgressLimit) \<and> near_end ss' cnt' < near_end ss cnt"
    by (rule swap_step_progress [OF r(1) _ _ st])
qed

text \<open>And the liquidity that a swap leaves to the pool is that of the positions at some tick.\<close>

lemma swap_loops_liquidity:
  assumes "pool_ready x s q p" "setupSwapHelper (lx_dec x) p rate den pl = Inr (h, limit)" "NextTickIterator h s q (pl_CurrentTick p) = Inr it"
    and st: "st = out_given_in_step x p h fa den up \<or> st = in_given_out_step x p h fa den up"
    and run: "swap_loop st limit (newSwapState n p h) it 0 s = Some (Inr (ss, s'))"
  shows "\<exists>b. ss_liquidity ss = active s q b \<and> 0 \<le> ss_sqrtPrice ss"
proof -
  note r = ready_tracks [OF assms(1-3)]
  have "\<exists>it' cnt'. (\<exists>b. tracks h s q ss it' b) \<and> cnt' \<le> swapNoProgressLimit"
  proof (rule swap_loop_invariant [OF run, where I = "\<lambda>ss it cnt _. (\<exists>b. tracks h s q ss it b) \<and> cnt \<le> swapNoProgressLimit"])
    show "(\<exists>b. tracks h s q (newSwapState n p h) it b) \<and> 0 \<le> swapNoProgressLimit" using r(2) by (auto simp: swapNoProgressLimit_def)
    fix ss iter cnt s1 ss' iter' cnt' s'
    assume a: "(\<exists>b. tracks h s q ss iter b) \<and> cnt \<le> swapNoProgressLimit" "0 < ss_amountSpecifiedRemaining ss" "st ss iter cnt s1 = Inr (ss', iter', cnt', s')"
    show "(\<exists>b. tracks h s q ss' iter' b) \<and> cnt' \<le> swapNoProgressLimit"
      by (rule swap_step_progress [OF r(1) a(1,2) st a(3), THEN conjunct1])
  qed
  then show ?thesis by (auto simp: tracks_def)
qed

end
