(* ===== verification/LpLive.thy ===== *)
theory LpLive
  imports LpActive
begin

text \<open>
  The current liquidity of every pool is that of the positions whose range contains its current tick: every message
  about pools and positions keeps this. The index of positions is never cleaned, so a pool that had a position keeps its price.
\<close>

section \<open>The invariant\<close>

definition pool_live :: "'b lps \<Rightarrow> uint64 \<Rightarrow> Pool \<Rightarrow> bool" where
  "pool_live s q p \<longleftrightarrow> int64 (pl_CurrentTick p) \<and> 0 \<le> pl_CurrentSqrtPrice p
     \<and> pl_CurrentTickLiquidity p = active s q (pl_CurrentTick p)
     \<and> (\<not> HasPosition_pl p \<longrightarrow> (\<forall>i r. GetPosition s i = Some r \<longrightarrow> po_PoolId r \<noteq> q))"

definition pools_live :: "'b lps \<Rightarrow> bool" where
  "pools_live s \<longleftrightarrow> (\<forall>q p. GetPool s q = Some p \<longrightarrow> pool_live s q p)"

definition indexed :: "'b lps \<Rightarrow> bool" where
  "indexed s \<longleftrightarrow> (\<forall>i r. GetPosition s i = Some r \<longrightarrow> kv_get (ls_byPool s) (PositionByPoolPrefix (po_PoolId r) @ PutUint64 i) \<noteq> None)"

lemma live_same:
  assumes "GetPool s' = GetPool s" "GetPosition s' = GetPosition s" "\<And>q t. active s' q t = active s q t" "ls_byPool s' = ls_byPool s"
  shows "pools_live s' = pools_live s" "indexed s' = indexed s"
  using assms by (simp_all add: pools_live_def pool_live_def indexed_def)

lemma live_core:
  assumes "core s' = core s"
  shows "pools_live s' = pools_live s" "indexed s' = indexed s"
proof -
  have "active s' q t = active s q t" for q t using core_sums(1) [OF assms] by (simp add: active_def)
  then show "pools_live s' = pools_live s" "indexed s' = indexed s" using live_same core_fields [OF assms] by blast+
qed

lemma indexed_PoolHasPosition:
  assumes "indexed s" "GetPosition s i = Some r"
  shows "PoolHasPosition s (po_PoolId r)"
proof -
  obtain v where "(PositionByPoolPrefix (po_PoolId r) @ PutUint64 i, v) \<in> set (ls_byPool s)"
    using assms map_of_SomeD unfolding indexed_def by fastforce
  then show ?thesis by (force simp: PoolHasPosition_def kv_prefix_def filter_empty_conv)
qed

section \<open>Updating a position\<close>

lemma active_at_changed:
  "active_at q t (p\<lparr>po_Liquidity := po_Liquidity p + d\<rparr>) =
     active_at q t p + (if po_PoolId p = q \<and> po_LowerTick p \<le> t \<and> t < po_UpperTick p then d else 0)"
  by (simp add: active_at_def)

lemma UpdatePosition_pools:
  assumes book: "book s" and p: "GetPosition s i = Some p" "po_PoolId p = q" "po_LowerTick p = l" "po_UpperTick p = u"
    and run: "UpdatePosition x q l u d i s = Inr (b, c, le, ue, s')"
  obtains pool where "GetPool s q = Some pool" "GetPool s' = (GetPool s)(q \<mapsto> fst (UpdateLiquidityIfActivePosition pool l u d))"
    "ls_byPool s' = kv_set (PositionByPoolPrefix q @ PutUint64 i) i (ls_byPool s)"
    "\<And>r t. active s' r t = active s r t + (if r = q \<and> l \<le> t \<and> t < u then d else 0)"
proof -
  have ok: "position_ok s i p" using book p by (simp add: book_def positions_ok_def)
  then have lu: "int64 l" "int64 u" "l < u" and i: "po_Id p = i" using p by (auto simp: position_ok_def)
  have st: "stores_ok s" "pools_ok s" "ticks_ok s" using book by (simp_all add: book_def)
  obtain s1 s2 pool p' ab aq s3 where s: "initOrUpdateTick q l d False s = Inr (le, s1)" "initOrUpdateTick q u d True s1 = Inr (ue, s2)"
    "GetPool s2 q = Some pool" "GetPosition s2 i = Some p'"
    "s3 = SetPool (fst (UpdateLiquidityIfActivePosition pool l u d)) (SetPosition (p'\<lparr>po_Liquidity := po_Liquidity p' + d\<rparr>) s2)"
    "SetAccumulatorPositionFeeAccumulator x q l u i d s3 = Inr s'"
    by (rule UpdatePosition_steps [OF run])
  obtain t1 t2 where t: "s1 = SetTickInfo t1 s" "s2 = SetTickInfo t2 s1"
    using s(1,2) by (auto simp: initOrUpdateTick_def Let_def elim!: bindR_E)
  have pp: "p' = p" "GetPool s q = Some pool" using s(3,4) p t by simp_all
  have pid: "pl_Id pool = q" using st(2) pp(2) by (simp add: pools_ok_def)
  have core: "core s' = core s3" by (rule SetAccumulatorPositionFeeAccumulator_core [OF s(6)])
  note f = core_fields [OF core]
  have "GetPool s' = (GetPool s)(q \<mapsto> fst (UpdateLiquidityIfActivePosition pool l u d))"
    using st(1) pid by (auto simp: f s(5) t GetPool_SetPool stores_ok_def)
  moreover have "ls_byPool s' = kv_set (PositionByPoolPrefix q @ PutUint64 i) i (ls_byPool s)"
    using p(2) i pp(1) by (simp add: f s(5) t SetPosition_def Let_def)
  moreover have "active s' r t = active s r t + (if r = q \<and> l \<le> t \<and> t < u then d else 0)" for r t
    using UpdatePosition_effects(6) [OF st p(1) i lu run, of "active_at r t"] p by (auto simp: active_def active_at_changed)
  ultimately show thesis using that [OF pp(2)] by blast
qed

lemma UpdatePosition_live:
  assumes book: "book s" and p: "GetPosition s i = Some p" "po_PoolId p = q" "po_LowerTick p = l" "po_UpperTick p = u"
    and run: "UpdatePosition x q l u d i s = Inr (b, c, le, ue, s')" and live: "pools_live s" "indexed s"
  shows "pools_live s'" "indexed s'"
proof -
  obtain pool where e: "GetPool s q = Some pool" "GetPool s' = (GetPool s)(q \<mapsto> fst (UpdateLiquidityIfActivePosition pool l u d))"
    "ls_byPool s' = kv_set (PositionByPoolPrefix q @ PutUint64 i) i (ls_byPool s)"
    "\<And>r t. active s' r t = active s r t + (if r = q \<and> l \<le> t \<and> t < u then d else 0)"
    by (rule UpdatePosition_pools [OF book p run]) blast
  have ch: "GetPosition s' = (GetPosition s)(i \<mapsto> p\<lparr>po_Liquidity := po_Liquidity p + d\<rparr>)"
    using UpdatePosition_book(2) [OF book p run] by (simp add: changed_def)
  have k: "kv_ok (ls_byPool s)" using book by (simp add: book_defs)
  show "indexed s'" using live(2) p k by (auto simp: indexed_def ch e(3))
  have pl: "pool_live s r p'" if "GetPool s r = Some p'" for r p' using live(1) that by (simp add: pools_live_def)
  have "pool_live s' r p'" if r: "GetPool s' r = Some p'" for r p'
  proof (cases "r = q")
    case True
    have "HasPosition_pl pool" using pl [OF e(1)] p by (auto simp: pool_live_def)
    then have "HasPosition_pl p'" using r True e(2) by (auto simp: UpdateLiquidityIfActivePosition_def HasPosition_pl_def split: if_splits)
    then show ?thesis
      using r True e(2) pl [OF e(1)] by (auto simp: pool_live_def e(4) UpdateLiquidityIfActivePosition_def IsCurrentTickInRange_def)
  next
    case False
    then show ?thesis using r e(2) pl [of r p'] p(1,2) by (auto simp: pool_live_def e(4) ch)
  qed
  then show "pools_live s'" by (simp add: pools_live_def)
qed

section \<open>Opening a position\<close>

lemma mul_zero: "mul_ok d \<Longrightarrow> d_mul d 0 0 = Inr c \<Longrightarrow> c = 0"
  using mul_whole [of d 0 0 c] by (simp add: dec_of_int_def)

lemma CalculateSqrtPriceToTick_int64:
  assumes "CalculateSqrtPriceToTick d p tp = Inr t"
  shows "int64 t"
proof -
  have w: "int64 (wrap_int y)" for y using wrap_int_bounds by (simp add: int64_def)
  from assms show ?thesis
    unfolding CalculateSqrtPriceToTick_def Let_def
    by (elim bindR_E) (auto simp: w int64_def TICK_MIN_def TICK_MAX_def split: if_splits elim!: bindR_E)
qed

lemma initFirst_live:
  assumes d: "mul_ok (lx_dec x)" "sqrt_ok (lx_dec x)" "quo_ok (lx_dec x)" and run: "initFirstPositionForPool x pool b q s = Inr s'"
  obtains p t where "s' = SetPool (pool\<lparr>pl_CurrentSqrtPrice := p, pl_CurrentTick := t\<rparr>) s" "p \<noteq> 0" "0 \<le> p" "int64 t"
proof -
  from run obtain sp p t where r: "0 < b" "0 < q" "d_quo (lx_dec x) (dec_of_int q) (dec_of_int b) = Inr sp" "d_approxSqrt (lx_dec x) sp = Inr p"
      "CalculateSqrtPriceToTick (lx_dec x) p (pl_TickParams pool) = Inr t"
      "s' = SetPool (pool\<lparr>pl_CurrentSqrtPrice := p, pl_CurrentTick := t\<rparr>) s"
    by (auto simp: initFirstPositionForPool_def split: if_splits elim!: bindR_E)
  have "0 \<le> dec_of_int q" "0 \<le> dec_of_int b" using r(1,2) by (simp_all add: dec_of_int_def dec_one_def)
  then have "0 \<le> sp" using quo_nonneg [OF d(3) r(3)] by blast
  then have "0 \<le> p" using d(2) r(4) by (auto simp: sqrt_ok_def)
  moreover have "p \<noteq> 0"
  proof
    assume "p = 0"
    with r(5) obtain c where "d_mul (lx_dec x) 0 0 = Inr c" "CalculatePriceToTick (lx_dec x) c (pl_TickParams pool) \<noteq> Inl ErrPriceOutOfBound"
      by (auto simp: CalculateSqrtPriceToTick_def elim!: bindR_E)
    then show False using mul_zero [OF d(1)] by (auto simp: CalculatePriceToTick_def MinSpotPrice_def)
  qed
  ultimately show thesis using that r(6) CalculateSqrtPriceToTick_int64 [OF r(5)] by blast
qed

lemma active_none: "book s \<Longrightarrow> (\<And>i r. GetPosition s i = Some r \<Longrightarrow> po_PoolId r \<noteq> q) \<Longrightarrow> active s q t = 0"
  using possum_cong [of s "active_at q t" "\<lambda>_. 0"] by (auto simp: active_def active_at_def possum_def)

lemma SetPool_live:
  assumes book: "book s" and live: "pools_live s" "indexed s" and pool: "GetPool s q = Some pool" "\<not> HasPosition_pl pool"
    and p: "pl_Id pool = q" "p \<noteq> 0" "0 \<le> p" "int64 t"
  shows "pools_live (SetPool (pool\<lparr>pl_CurrentSqrtPrice := p, pl_CurrentTick := t\<rparr>) s)"
    "indexed (SetPool (pool\<lparr>pl_CurrentSqrtPrice := p, pl_CurrentTick := t\<rparr>) s)"
proof -
  let ?s = "SetPool (pool\<lparr>pl_CurrentSqrtPrice := p, pl_CurrentTick := t\<rparr>) s"
  have k: "kv_ok (ls_pools s)" using book by (simp add: book_defs)
  have act: "active ?s r u = active s r u" for r u by (simp add: active_def)
  have no: "\<forall>i r. GetPosition s i = Some r \<longrightarrow> po_PoolId r \<noteq> q" "pl_CurrentTickLiquidity pool = active s q (pl_CurrentTick pool)"
    using live(1) pool by (auto simp: pools_live_def pool_live_def)
  then have z: "active s q u = 0" for u using active_none [OF book] by blast
  show "indexed ?s" using live(2) by (simp add: indexed_def)
  show "pools_live ?s"
    using live(1) p no z unfolding pools_live_def
    by (auto simp: GetPool_SetPool [OF k] pool_live_def act HasPosition_pl_def)
qed

lemma CreatePosition_live:
  assumes d: "mul_ok (lx_dec x)" "sqrt_ok (lx_dec x)" "quo_ok (lx_dec x)" and book: "book s" and cnt: "GetPositionCount s \<noteq> - 1"
    and live: "pools_live s" "indexed s" and run: "CreatePosition x msg s = Inr (r, s')"
  shows "pools_live s'" "indexed s'"
proof -
  let ?p0 = "\<lparr>po_Id = 0, po_Address = mc_Sender msg, po_PoolId = mc_PoolId msg, po_LowerTick = mc_LowerTick msg,
    po_UpperTick = mc_UpperTick msg, po_Liquidity = 0\<rparr>"
  obtain sender pool pool' s0 liq n s1 b c le ue s2 coins where
    c: "GetPool s (mc_PoolId msg) = Some pool" "CreatePosition_checks pool msg = Inr ()"
    "if \<not> HasPosition_pl pool then initFirstPositionForPool x pool (c_Amount (mc_TokenBase msg)) (c_Amount (mc_TokenQuote msg)) s = Inr s0
      else s0 = s" "GetPool s0 (mc_PoolId msg) = Some pool'" "AppendPosition ?p0 s0 = (n, s1)"
    "UpdatePosition x (mc_PoolId msg) (mc_LowerTick msg) (mc_UpperTick msg) liq n s1 = Inr (b, c, le, ue, s2)"
    "send_lp x sender (GetAddress x pool') coins s2 = Inr s'"
    by (rule CreatePosition_steps [OF run]) blast
  note ticks = CreatePosition_checks_ticks [OF c(2)]
  have pid: "pl_Id pool = mc_PoolId msg" using book c(1) by (simp add: book_def pools_ok_def)
  have k: "kv_ok (ls_pools s)" using book by (simp add: book_defs)
  have l0: "book s0 \<and> GetPositionCount s0 = GetPositionCount s \<and> pools_live s0 \<and> indexed s0 \<and> HasPosition_pl pool'"
  proof (cases "HasPosition_pl pool")
    case True
    then show ?thesis using c(1,3,4) book live by simp
  next
    case False
    note run0 = c(3) [unfolded if_P [OF False]]
    obtain p t where s0: "s0 = SetPool (pool\<lparr>pl_CurrentSqrtPrice := p, pl_CurrentTick := t\<rparr>) s" "p \<noteq> 0" "0 \<le> p" "int64 t"
      by (rule initFirst_live [OF d run0])
    have "HasPosition_pl pool'" using c(4) s0(1,2) pid by (auto simp: GetPool_SetPool [OF k] HasPosition_pl_def)
    then show ?thesis using s0 SetPool_live [OF book live c(1) False pid s0(2-4)] book_SetPool [OF book] c(1) pid by simp
  qed
  note ap = AppendPosition_book [OF conjunct1 [OF l0] c(5), simplified, OF _ ticks, unfolded c(4), simplified]
  have b1: "book s1" "GetPosition s1 = (GetPosition s0)(n \<mapsto> ?p0\<lparr>po_Id := n\<rparr>)" "GetPool s1 = GetPool s0" "GetPosition s0 n = None"
    using ap cnt l0 by auto
  have k0: "kv_ok (ls_positions s0)" "kv_ok (ls_byPool s0)" using l0 by (simp_all add: book_defs)
  have s1: "s1 = SetPositionCount (n + 1) (SetPosition (?p0\<lparr>po_Id := n\<rparr>) s0)" using c(5) by (auto simp: AppendPosition_def Let_def)
  have act: "active s1 q t = active s0 q t" for q t
    using b1(4) by (simp add: active_def s1 possum_SetPosition [OF k0(1)] active_at_def)
  have ix: "ls_byPool s1 = kv_set (PositionByPoolPrefix (mc_PoolId msg) @ PutUint64 n) n (ls_byPool s0)"
    by (simp add: s1 SetPositionCount_def SetPosition_def Let_def)
  have "pools_live s1" using l0 c(4) by (auto simp: pools_live_def pool_live_def act b1(2,3))
  moreover have "indexed s1" using l0 k0(2) by (auto simp: indexed_def b1(2) ix)
  moreover have p1: "GetPosition s1 n = Some (?p0\<lparr>po_Id := n\<rparr>)" using b1(2) by simp
  ultimately have "pools_live s2" "indexed s2" using UpdatePosition_live [OF b1(1) p1 _ _ _ c(6)] by simp_all
  then show "pools_live s'" "indexed s'" using live_core [OF send_core [OF c(7)]] by simp_all
qed

section \<open>Closing a position\<close>

lemma close_position_live:
  assumes book: "book s" and live: "pools_live s" "indexed s" and p: "GetPosition s i = Some p" "po_Liquidity p = 0"
    and run: "close_position x sender i pool' p' s = Inr s'" "po_Id p' = i" "po_PoolId p' = po_PoolId p"
  shows "pools_live s'" "indexed s'" "\<exists>f s1. collectFees x sender i s = Inr (f, s1) \<and> s' = RemovePosition i s1"
proof -
  from run(1) obtain f s1 where s1: "collectFees x sender i s = Inr (f, s1)"
      "s' = (if \<not> PoolHasPosition (RemovePosition i s1) (po_PoolId p) then resetPool pool' (RemovePosition i s1) else RemovePosition i s1)"
    using run(2,3) by (auto simp: close_position_def Let_def elim!: bindR_E)
  have core: "core s1 = core s" by (rule collectFees_core [OF s1(1)])
  note f = core_fields [OF core]
  have l1: "pools_live s1" "indexed s1" using live live_core [OF core] by simp_all
  have p1: "GetPosition s1 i = Some p" using p(1) f by simp
  from indexed_PoolHasPosition [OF l1(2) p1] have "PoolHasPosition (RemovePosition i s1) (po_PoolId p)"
    by (rule PoolHasPosition_kept) (simp add: RemovePosition_def)
  then have s': "s' = RemovePosition i s1" using s1(2) by simp
  then show "\<exists>f s1. collectFees x sender i s = Inr (f, s1) \<and> s' = RemovePosition i s1" using s1(1) by blast
  have k: "kv_ok (ls_positions s1)" using book f by (simp add: book_defs)
  have gp: "GetPosition s' = (GetPosition s1)(i := None)" using k by (auto simp: s' GetPosition_def RemovePosition_def)
  have act: "active s' q t = active s1 q t" for q t
    using p(2) by (simp add: active_def s' possum_RemovePosition [OF k] p1 active_at_def)
  have same: "GetPool s' = GetPool s1" "ls_byPool s' = ls_byPool s1" by (simp_all add: s' RemovePosition_def GetPool_def fun_eq_iff)
  show "pools_live s'" using l1(1) unfolding pools_live_def pool_live_def by (simp add: act same gp)
  show "indexed s'" using l1(2) unfolding indexed_def by (simp add: same gp)
qed

lemma drop_ticks_live: "pools_live (drop_ticks le ue p s) = pools_live s" "indexed (drop_ticks le ue p s) = indexed s"
proof -
  have "GetPool (drop_ticks le ue p s) = GetPool s" "GetPosition (drop_ticks le ue p s) = GetPosition s"
      "active (drop_ticks le ue p s) q t = active s q t" "ls_byPool (drop_ticks le ue p s) = ls_byPool s" for q t
    by (simp_all add: drop_ticks_def Let_def RemoveTickInfo_def GetPool_def GetPosition_def active_def possum_def fun_eq_iff)
  from live_same [OF this] show "pools_live (drop_ticks le ue p s) = pools_live s" "indexed (drop_ticks le ue p s) = indexed s" by auto
qed

lemma DecreaseLiquidity_live:
  assumes book: "book s" and live: "pools_live s" "indexed s" and run: "DecreaseLiquidity x sender i liq s = Inr (b, c, s')"
  shows "pools_live s'" "indexed s'"
proof -
  obtain p pool b' c' le ue s1 coins s2 s3 where d: "GetPosition s i = Some p" 
    "UpdatePosition x (po_PoolId p) (po_LowerTick p) (po_UpperTick p) (- liq) i s = Inr (b', c', le, ue, s1)"
    "send_lp x (GetAddress x pool) sender coins s1 = Inr s2"
    "if liq = po_Liquidity p then close_position x sender i pool p s2 = Inr s3 else s3 = s2" "s' = drop_ticks le ue p s3"
    by (rule DecreaseLiquidity_steps [OF run]) blast
  have i: "po_Id p = i" using book d(1) by (auto simp: book_def positions_ok_def position_ok_def)
  note up = UpdatePosition_book [OF book d(1) refl refl refl d(2)] and ul = UpdatePosition_live [OF book d(1) refl refl refl d(2) live]
  let ?p = "p\<lparr>po_Liquidity := po_Liquidity p - liq\<rparr>"
  have core: "core s2 = core s1" by (rule send_core [OF d(3)])
  have "accums_ok s1" using up(1) by (simp add: book_defs)
  then have b2: "book s2" using book_keeps [OF up(1) core] settles_keeps send_settles d(3) by blast
  have l2: "pools_live s2" "indexed s2" using ul live_core [OF core] by simp_all
  have p2: "GetPosition s2 i = Some ?p" using up(2) core_fields(10) [OF core] by (simp add: changed_def)
  have "pools_live s3 \<and> indexed s3"
  proof (cases "liq = po_Liquidity p")
    case True
    then have "close_position x sender i pool p s2 = Inr s3" using d(4) by simp
    from close_position_live [OF b2 l2 p2 _ this i] show ?thesis using True by simp
  next
    case False
    then show ?thesis using d(4) l2 by simp
  qed
  then show "pools_live s'" "indexed s'" unfolding d(5) drop_ticks_live by simp_all
qed

section \<open>The messages\<close>

lemma SetPosition_same_live:
  assumes "book s" "pools_live s" "indexed s" "GetPosition s i = Some p"
  shows "pools_live (SetPosition p s)" "indexed (SetPosition p s)"
proof -
  have k: "kv_ok (ls_positions s)" "kv_ok (ls_byPool s)" using assms(1) by (simp_all add: book_defs)
  have i: "po_Id p = i" using assms(1,4) by (simp add: book_def positions_ok_def position_ok_def)
  note gp = SetPosition_same(2) [OF assms(1,4)]
  have act: "active (SetPosition p s) q t = active s q t" for q t using assms(4) i by (simp add: active_def possum_SetPosition [OF k(1)])
  show "pools_live (SetPosition p s)" using assms(2) by (simp add: pools_live_def pool_live_def gp act)
  have "ls_byPool (SetPosition p s) = kv_set (PositionByPoolPrefix (po_PoolId p) @ PutUint64 i) i (ls_byPool s)" using i by (simp add: SetPosition_def Let_def)
  then show "indexed (SetPosition p s)" using assms(3) k(2) by (auto simp: indexed_def gp)
qed

lemma IncreaseLiquidity_live:
  assumes d: "mul_ok (lx_dec x)" "sqrt_ok (lx_dec x)" "quo_ok (lx_dec x)" and book: "book s" and cnt: "GetPositionCount s \<noteq> - 1"
    and live: "pools_live s" "indexed s" and run: "IncreaseLiquidity x msg s = Inr (r, s')"
  shows "pools_live s'" "indexed s'"
proof -
  from run obtain p where p: "GetPosition s (mi_Id msg) = Some p" by (cases "GetPosition s (mi_Id msg)") (simp_all add: IncreaseLiquidity_def)
  from run p obtain sender b c s1 m where s1: "DecreaseLiquidity x sender (mi_Id msg) (po_Liquidity p) (SetPosition p s) = Inr (b, c, s1)"
      and new: "CreatePosition x m s1 = Inr (r, s')"
    by (auto simp: IncreaseLiquidity_def Let_def split: if_splits option.splits elim!: bindR_E)
  note b = SetPosition_same(1) [OF book p] and l = SetPosition_same_live [OF book live p]
  note d1 = DecreaseLiquidity_book [OF b s1] and l1 = DecreaseLiquidity_live [OF b l s1]
  have "GetPositionCount s1 \<noteq> - 1" using d1(2) cnt by simp
  from CreatePosition_live [OF d d1(1) this l1 new] show "pools_live s'" "indexed s'" .
qed

lemma CreatePool_live:
  assumes book: "book s" and live: "pools_live s" "indexed s" and run: "CreatePool x msg s = Inr (q, s')"
  shows "pools_live s'" "indexed s'"
proof -
  let ?pool = "\<lambda>fr pr bo. \<lparr>pl_Id = q, pl_DenomBase = mp_DenomBase msg, pl_DenomQuote = mp_DenomQuote msg, pl_FeeRate = fr,
    pl_TickParams = \<lparr>tp_PriceRatio = pr, tp_BaseOffset = bo\<rparr>, pl_CurrentTick = 0, pl_CurrentTickLiquidity = 0, pl_CurrentSqrtPrice = 0\<rparr>"
  from run obtain fr pr bo z where ss: "s' = SetAccumulator z (SetPoolCount (q + 1) (SetPool (?pool fr pr bo) s))"
    by (auto simp: CreatePool_def AppendPool_def createFeeAccumulator_def InitAccumulator_def Let_def split: if_splits elim!: bindR_E)
  define pool where "pool = ?pool fr pr bo"
  then have q: "pl_Id pool = q" "pl_CurrentTick pool = 0" "pl_CurrentTickLiquidity pool = 0" "pl_CurrentSqrtPrice pool = 0"
      and s': "s' = SetAccumulator z (SetPoolCount (q + 1) (SetPool pool s))"
    using ss by simp_all
  have k: "kv_ok (ls_pools s)" using book by (simp add: book_defs)
  note b = CreatePool_book [OF book run]
  have same: "GetPool s' = (GetPool s)(q \<mapsto> pool)" "ls_byPool s' = ls_byPool s" "active s' r t = active s r t" for r t
    using q(1) GetPool_SetPool [OF k, of pool]
    by (auto simp: s' SetAccumulator_def SetPoolCount_def SetPool_def GetPool_def active_def possum_def fun_eq_iff)
  show "indexed s'" using live(2) by (simp add: indexed_def b(2) same)
  have none: "po_PoolId r \<noteq> q" if "GetPosition s i = Some r" for i r
  proof -
    have "position_ok s i r" using book that by (simp add: book_def positions_ok_def)
    then show ?thesis using b(3) unfolding position_ok_def by metis
  qed
  then have "active s q 0 = 0" using active_none [OF book] by blast
  then show "pools_live s'" using live(1) none q by (auto simp: pools_live_def pool_live_def same b(2) int64_def)
qed

fun is_swap :: "lp_msg \<Rightarrow> bool" where
  "is_swap (Call_SwapExactAmountIn _ _ _ _ _) = True"
| "is_swap (Call_SwapExactAmountOut _ _ _ _ _) = True"
| "is_swap _ = False"

lemma lp_exec_live:
  assumes d: "dec_ok (lx_dec x)" and b: "book s" and c: "GetPositionCount s \<noteq> - 1" and l: "pools_live s" "indexed s"
    and run: "lp_exec x m s = Inr s'" "\<not> is_swap m"
  shows "pools_live s'" "indexed s'"
proof -
  have dd: "mul_ok (lx_dec x)" "sqrt_ok (lx_dec x)" "quo_ok (lx_dec x)" using d by (simp_all add: dec_ok_def)
  have "pools_live s' \<and> indexed s'"
  proof (cases m)
    case (Msg_CreatePool msg)
    then obtain q where "CreatePool x msg s = Inr (q, s')" using run by (auto elim!: bindR_E)
    from CreatePool_live [OF b l this] show ?thesis ..
  next
    case (Msg_CreatePosition msg)
    then obtain r where "CreatePosition x msg s = Inr (r, s')" using run by (auto elim!: bindR_E)
    from CreatePosition_live [OF dd b c l this] show ?thesis ..
  next
    case (Msg_IncreaseLiquidity msg)
    then obtain r where "IncreaseLiquidity x msg s = Inr (r, s')" using run by (auto elim!: bindR_E)
    from IncreaseLiquidity_live [OF dd b c l this] show ?thesis ..
  next
    case (Msg_DecreaseLiquidity msg)
    then obtain sender liq u v where "DecreaseLiquidity x sender (md_Id msg) liq s = Inr (u, v, s')"
      using run by (auto simp: DecreaseLiquidity_msg_def elim!: bindR_E)
    from DecreaseLiquidity_live [OF b l this] show ?thesis ..
  next
    case (Msg_ClaimRewards sender ids)
    then obtain cs where "ClaimRewards_msg x sender ids s = Inr (cs, s')" using run by (auto elim!: bindR_E)
    then have "core s' = core s" using ClaimRewards_msg_book [OF b] by blast
    from live_core [OF this] l show ?thesis by simp
  next
    case (Msg_UpdateParams a p)
    then have "s' = SetParams_lp p s" using run by (simp add: UpdateParams_lp_def split: if_splits)
    then show ?thesis using l live_same [of s' s]
      by (simp add: SetParams_lp_def GetPool_def GetPosition_def active_def possum_def fun_eq_iff)
  next
    case (Call_AllocateIncentive q sender cs)
    then have "AllocateIncentive x q sender cs s = Inr s'" using run by simp
    then have "core s' = core s" using AllocateIncentive_book [OF b] by blast
    from live_core [OF this] l show ?thesis by simp
  qed (use run in auto)
  then show "pools_live s'" "indexed s'" by auto
qed

lemma lp_count:
  assumes "length ms < 2 ^ 64 - 1"
  shows "GetPositionCount (lp_run x ms bank) \<noteq> - 1"
proof
  assume "GetPositionCount (lp_run x ms bank) = - 1"
  moreover have "unat (- 1 :: uint64) = 2 ^ 64 - 1" by (simp add: unsigned_minus_1_eq_mask mask_eq_exp_minus_1)
  ultimately show False using lp_run_inv [OF assms, of x bank] assms by simp
qed

lemma lp_run_live:
  assumes d: "dec_ok (lx_dec x)" and "length ms < 2 ^ 64 - 1" "\<forall>m\<in>set ms. \<not> is_swap m"
  shows "pools_live (lp_run x ms bank) \<and> indexed (lp_run x ms bank)"
  using assms(2,3)
proof (induction ms rule: rev_induct)
  case Nil
  have "GetPosition (lp_run x [] bank) i = None" "GetPool (lp_run x [] bank) i = None" for i
    by (simp_all add: lp_run_def InitGenesis_lp_def DefaultGenesis_lp_def empty_lps_def Let_def SetPoolCount_def SetPositionCount_def
        SetParams_lp_def GetPosition_def GetPool_def)
  then show ?case by (simp add: pools_live_def indexed_def)
next
  case (snoc m ms)
  let ?s = "lp_run x ms bank"
  have len: "length ms < 2 ^ 64 - 1" using snoc.prems by simp
  have IH: "pools_live ?s" "indexed ?s" and b: "book ?s" using snoc lp_run_inv [OF len, of x bank] by auto
  have run: "lp_run x (ms @ [m]) bank = lp_deliver x m ?s" by (simp add: lp_run_def)
  show ?case
  proof (cases "lp_exec x m ?s")
    case (Inl e)
    then show ?thesis using IH by (simp add: run lp_deliver_def)
  next
    case (Inr s')
    then show ?thesis using lp_exec_live [OF d b lp_count [OF len] IH Inr] snoc.prems by (simp add: run lp_deliver_def)
  qed
qed

end
