(* ===== verification/LpEffects.thy ===== *)
theory LpEffects
  imports LpLive
begin

text \<open>
  Single operations of the liquidity pool: the tick of a price, the transfers of a swap, the first position of a pool at a price from which the search for its
  tick does not return, and what an export of the state leaves out.
\<close>

section \<open>The tick of a price\<close>

lemma near_ticks:
  assumes "TICK_MIN < t" "t < TICK_MAX - 1"
  shows "wrap_int (t + 1) = t + 1" "wrap_int (t + 2) = t + 2" "wrap_int (t - 1) = t - 1"
  using assms by (auto intro!: wrap_int_id simp: TICK_MIN_def TICK_MAX_def)

lemma CalculateSqrtPriceToTick_spec:
  assumes "CalculateSqrtPriceToTick d p tp = Inr t"
  shows "\<exists>lo. TickToSqrtPrice d t tp = Inr lo \<and> lo \<le> p
    \<and> ((\<exists>hi. TickToSqrtPrice d (t + 1) tp = Inr hi \<and> p < hi) \<or> lo = p \<and> t \<in> {TICK_MIN + 3, TICK_MAX})"
proof -
  from assms obtain price u where u: "CalculatePriceToTick d price tp = Inr u" "d_mul d p p = Inr price"
    unfolding CalculateSqrtPriceToTick_def by (elim bindR_E) blast
  define v out where v: "v = (if u \<le> TICK_MIN then TICK_MIN + 1 else if u \<ge> TICK_MAX - 1 then TICK_MAX - 2 else u)"
    and out: "out = (u \<le> TICK_MIN \<or> u \<ge> TICK_MAX - 1)"
  have b: "TICK_MIN < v" "v < TICK_MAX - 1" "out \<Longrightarrow> v + 2 \<in> {TICK_MIN + 3, TICK_MAX}" by (auto simp: v out TICK_MIN_def TICK_MAX_def)
  note w = near_ticks [OF b(1,2)]
  have pair: "(if u \<le> TICK_MIN then (TICK_MIN + 1, True) else if u \<ge> TICK_MAX - 1 then (TICK_MAX - 2, True) else (u, False)) = (v, out)"
    by (simp add: v out)
  from assms obtain s1 where s1: "TickToSqrtPrice d (v + 1) tp = Inr s1" 
    unfolding CalculateSqrtPriceToTick_def u bindR_simps Let_def pair prod.case w by (auto simp: on_err_Inr split: if_splits elim!: bindR_E)
  have oe: "on_err ErrSqrtPriceToTick (TickToSqrtPrice d (v + 1) tp) = Inr s1" using s1 by (simp add: on_err_Inr)
  note body = assms [unfolded CalculateSqrtPriceToTick_def u bindR_simps Let_def pair prod.case w oe]
  show ?thesis
  proof (cases "p \<ge> s1")
    case True
    with body obtain s2 where s2: "TickToSqrtPrice d (v + 2) tp = Inr s2" "\<not> ((\<not> out \<and> p \<ge> s2) \<or> (out \<and> p > s2))"
        "t = (if p = s2 then v + 2 else v + 1)"
      by (auto simp: on_err_Inr split: if_splits elim!: bindR_E)
    show ?thesis
    proof (cases "p = s2")
      case True
      then show ?thesis using s2 b(3) by auto
    next
      case False
      then have "p < s2" using s2(2) by (cases out) auto
      moreover have e: "t + 1 = v + 2" "t = v + 1" using s2(3) False by simp_all
      have "TickToSqrtPrice d (t + 1) tp = Inr s2" "TickToSqrtPrice d t tp = Inr s1" unfolding e(1) s2(1) by (simp_all only: e(2) s1)
      ultimately show ?thesis using True by blast
    qed
  next
    case False
    with body obtain s0 where s0: "TickToSqrtPrice d v tp = Inr s0" by (auto simp: on_err_Inr split: if_splits elim!: bindR_E)
    show ?thesis
    proof (cases "p \<ge> s0")
      case True
      then have "t = v" using body False s0 by (auto simp: on_err_def split: if_splits)
      then show ?thesis using s0 s1 True False by simp
    next
      case less: False
      with body False s0 obtain s' where "TickToSqrtPrice d (v - 1) tp = Inr s'" "s' \<le> p" "t = v - 1"
        by (auto simp: on_err_Inr on_err_def [of _ "Inr s0"] split: if_splits elim!: bindR_E)
      then show ?thesis using s0 less by simp
    qed
  qed
qed

section \<open>A first position that is never placed\<close>

lemma first_position_hangs:
  assumes d: "mul_ok (lx_dec x)" "mul_defined (lx_dec x)"
    and msg: "lx_accAddress x (mc_Sender msg) = Inr sender" "GetPool s (mc_PoolId msg) = Some pool" "CreatePosition_checks pool msg = Inr ()"
    and ticks: "TicksToSqrtPrice (lx_dec x) (mc_LowerTick msg) (mc_UpperTick msg) (pl_TickParams pool) = Inr lu"
    and new: "\<not> HasPosition_pl pool" "0 < c_Amount (mc_TokenBase msg)" "0 < c_Amount (mc_TokenQuote msg)"
    and price: "d_quo (lx_dec x) (dec_of_int (c_Amount (mc_TokenQuote msg))) (dec_of_int (c_Amount (mc_TokenBase msg))) = Inr spot"
      "d_approxSqrt (lx_dec x) spot = Inr root" "d_mul (lx_dec x) root root = Inr price" "MinSpotPrice \<le> price" "price \<le> MaxSpotPrice"
    and offset: "Pow (lx_dec x) (tp_PriceRatio (pl_TickParams pool)) (tp_BaseOffset (pl_TickParams pool)) = Inr offsetPrice" "price < offsetPrice"
    and tiny: "2 * \<bar>price * (tp_PriceRatio (pl_TickParams pool) - dec_one)\<bar> < dec_one"
  shows "CreatePosition x msg s = Inl Diverge"
proof -
  have "CalculatePriceToTick (lx_dec x) price (pl_TickParams pool) = Inl Diverge"
    by (rule price_search_stuck [OF d offset(1) price(4,5) offset(2) tiny])
  then have "CalculateSqrtPriceToTick (lx_dec x) root (pl_TickParams pool) = Inl Diverge" using price(3) by (simp add: CalculateSqrtPriceToTick_def)
  then have "initFirstPositionForPool x pool (c_Amount (mc_TokenBase msg)) (c_Amount (mc_TokenQuote msg)) s = Inl Diverge"
    using new price(1,2) by (simp add: initFirstPositionForPool_def)
  then show ?thesis using msg ticks new(1) unfolding CreatePosition_def by (cases lu) (simp add: Let_def)
qed

section \<open>Genesis\<close>

definition reimported :: "'b lps \<Rightarrow> 'b \<Rightarrow> 'b lps" where
  "reimported s bank = InitGenesis_lp (ExportGenesis_lp s) (empty_lps bank)"

lemma fold_fields:
  "ls_pools (fold SetPool ps s) = fold (\<lambda>p. kv_set (pl_Id p) p) ps (ls_pools s)"
  "ls_positions (fold SetPool ps s) = ls_positions s" "ls_ticks (fold SetPool ps s) = ls_ticks s"
  "ls_accums (fold SetPool ps s) = ls_accums s" "ls_accumPositions (fold SetPool ps s) = ls_accumPositions s"
  by (induction ps arbitrary: s) (simp_all add: SetPool_def)

lemma fold_position_fields:
  "ls_positions (fold SetPosition ps s) = fold (\<lambda>p. kv_set (po_Id p) p) ps (ls_positions s)"
  "ls_pools (fold SetPosition ps s) = ls_pools s" "ls_ticks (fold SetPosition ps s) = ls_ticks s"
  "ls_poolCount (fold SetPosition ps s) = ls_poolCount s" "ls_accums (fold SetPosition ps s) = ls_accums s" "ls_accumPositions (fold SetPosition ps s) = ls_accumPositions s"
  by (induction ps arbitrary: s) (simp_all add: SetPosition_def Let_def)

lemma refill:
  assumes "kv_ok m" "\<And>k v. kv_get m k = Some v \<Longrightarrow> f v = k"
  shows "kv_get (fold (\<lambda>v. kv_set (f v) v) (map snd m) []) = kv_get m"
proof -
  have key: "f (snd e) = fst e" if "e \<in> set m" for e
    using assms(2) [of "fst e" "snd e"] kv.get_iff [OF assms(1)] that by simp
  then have fst: "map f (map snd m) = map fst m" by simp
  have "distinct (map f (map snd m))" unfolding fst by (rule kv.distinct_keys [OF assms(1)])
  from fold_kv_set_entries [of "[]" f "map snd m", OF kv_ok_Nil this]
  have r: "set (fold (\<lambda>v. kv_set (f v) v) (map snd m) []) = (\<lambda>v. (f v, v)) ` set (map snd m)"
      "kv_ok (fold (\<lambda>v. kv_set (f v) v) (map snd m) [])" by auto
  have "(\<lambda>v. (f v, v)) ` set (map snd m) = set m" using key by (force simp: image_iff)
  then show ?thesis using r kv.get_iff [OF assms(1)] kv.get_iff [OF r(2)] by (intro ext kv.option_by_Some) auto
qed

lemma reimported_roundtrip:
  assumes "book s"
  shows "GetPool (reimported s bank) = GetPool s" "GetPosition (reimported s bank) = GetPosition s"
    "GetPoolCount (reimported s bank) = GetPoolCount s" "GetPositionCount (reimported s bank) = GetPositionCount s"
    "GetParams_lp (reimported s bank) = GetParams_lp s"
    "ls_ticks (reimported s bank) = []" "ls_accums (reimported s bank) = []" "ls_accumPositions (reimported s bank) = []"
proof -
  have k: "kv_ok (ls_pools s)" "kv_ok (ls_positions s)" using assms by (simp_all add: book_defs)
  note def = reimported_def InitGenesis_lp_def ExportGenesis_lp_def empty_lps_def Let_def SetPoolCount_def SetPositionCount_def SetParams_lp_def
    GetAllPools_def GetAllPositions_def
  have "ls_pools (reimported s bank) = fold (\<lambda>p. kv_set (pl_Id p) p) (map snd (ls_pools s)) []"
      "ls_positions (reimported s bank) = fold (\<lambda>p. kv_set (po_Id p) p) (map snd (ls_positions s)) []"
    by (simp_all add: def fold_fields fold_position_fields)
  moreover have "pl_Id p = i" if "kv_get (ls_pools s) i = Some p" for i p
    using assms that by (simp add: book_def pools_ok_def GetPool_def)
  moreover have "po_Id p = i" if "kv_get (ls_positions s) i = Some p" for i p
    using assms that by (simp add: book_def positions_ok_def position_ok_def GetPosition_def)
  ultimately show "GetPool (reimported s bank) = GetPool s" "GetPosition (reimported s bank) = GetPosition s"
    using refill [OF k(1), of pl_Id] refill [OF k(2), of po_Id] by (simp_all add: GetPool_def GetPosition_def fun_eq_iff)
  show "ls_ticks (reimported s bank) = []" "ls_accums (reimported s bank) = []" "ls_accumPositions (reimported s bank) = []"
    by (simp_all add: def fold_fields fold_position_fields)
  show "GetPoolCount (reimported s bank) = GetPoolCount s" "GetPositionCount (reimported s bank) = GetPositionCount s"
    "GetParams_lp (reimported s bank) = GetParams_lp s"
    by (simp_all add: def fold_position_fields GetPositionCount_def GetPoolCount_def GetParams_lp_def)
qed

text \<open>Without its fee accumulator a pool serves nobody: its positions cannot be closed, and nothing can be swapped.\<close>

lemma initOrUpdateTick_accums: "initOrUpdateTick q t d up s = Inr (e, s') \<Longrightarrow> ls_accums s' = ls_accums s"
  by (auto simp: initOrUpdateTick_def Let_def SetTickInfo_def elim!: bindR_E)

lemma no_accumulator:
  assumes "ls_accums s = []"
  shows "DecreaseLiquidity x sender i liq s \<noteq> Inr r" "collectFees x sender i s \<noteq> Inr r2" "SwapExactAmountIn x sender pool tin dout fe s \<noteq> Inr r3"
    "SwapExactAmountOut x sender pool tout din fe s \<noteq> Inr r3"
proof -
  have none: "GetFeeAccumulator u q \<noteq> Inr a" if "ls_accums u = []" for u :: "'a lps" and q a
    using that by (simp add: GetFeeAccumulator_def GetAccumulator_def)
  show "collectFees x sender i s \<noteq> Inr r2"
    using none [OF assms] by (auto simp: collectFees_def prepareClaimableFees_def split: option.splits if_splits elim!: bindR_E)
  have comp: "getPoolAndAccum s q a b \<noteq> Inr v" for q a b v
    using none [OF assms] by (cases v) (auto simp: getPoolAndAccum_def elim!: bindR_E)
  show "SwapExactAmountIn x sender pool tin dout fe s \<noteq> Inr r3"
  proof
    assume run: "SwapExactAmountIn x sender pool tin dout fe s = Inr r3"
    obtain n s' where "r3 = (n, s')" by (cases r3)
    with run obtain res pu s1 where "computeOutAmtGivenIn x (pl_Id pool) tin dout (if fe then pl_FeeRate pool else 0)
        (GetPriceLimit (isBaseForQuote (c_Denom tin) (pl_DenomBase pool))) True s = Inr (res, pu, s1)"
      by (auto elim!: SwapExactAmountIn_steps swapOutAmtGivenIn_steps)
    then show False using comp by (auto elim!: computeOutAmtGivenIn_steps)
  qed
  show "SwapExactAmountOut x sender pool tout din fe s \<noteq> Inr r3"
  proof
    assume run: "SwapExactAmountOut x sender pool tout din fe s = Inr r3"
    obtain n s' where "r3 = (n, s')" by (cases r3)
    with run obtain res pu s1 where "computeInAmtGivenOut x tout din (if fe then pl_FeeRate pool else 0)
        (GetPriceLimit (isBaseForQuote din (pl_DenomBase pool))) (pl_Id pool) True s = Inr (res, pu, s1)"
      by (auto elim!: SwapExactAmountOut_steps swapInAmtGivenOut_steps)
    then show False using comp by (auto elim!: computeInAmtGivenOut_steps)
  qed
  show "DecreaseLiquidity x sender i liq s \<noteq> Inr r"
  proof
    assume run: "DecreaseLiquidity x sender i liq s = Inr r"
    obtain b c s' where "r = (b, c, s')" by (cases r)
    with run obtain q l u b' c' le ue s1 where up: "UpdatePosition x q l u (- liq) i s = Inr (b', c', le, ue, s1)"
      by (auto elim!: DecreaseLiquidity_steps)
    obtain u1 u2 u3 pool p where st: "initOrUpdateTick q l (- liq) False s = Inr (le, u1)" "initOrUpdateTick q u (- liq) True u1 = Inr (ue, u2)"
        "u3 = SetPool pool (SetPosition p u2)" "SetAccumulatorPositionFeeAccumulator x q l u i (- liq) u3 = Inr s1"
      by (rule UpdatePosition_steps [OF up]) blast
    have "ls_accums u3 = []"
      using initOrUpdateTick_accums [OF st(1)] initOrUpdateTick_accums [OF st(2)] assms by (simp add: st(3) SetPool_def SetPosition_def Let_def)
    then show False using st(4) none by (auto simp: SetAccumulatorPositionFeeAccumulator_def elim!: bindR_E)
  qed
qed

section \<open>The transfers of a swap\<close>

lemma go_div_whole: "go_div (dec_of_int m) dec_one = m"
  using dec_one_pos(1) by (simp add: go_div_def dec_of_int_def abs_mult sgn_mult sgn_mult_abs)

lemma ceil_trunc_le:
  assumes "ceil_ok d" "truncateInt_ok d" "d_ceil d (dec_of_int n - r) = Inr c" "d_truncateInt d c = Inr k" "0 \<le> r"
  shows "k \<le> n"
proof -
  obtain m where m: "c = dec_of_int m" "c < dec_of_int n - r + dec_one" using assms(1,3) by (auto simp: ceil_ok_def)
  then have "m * dec_one < (n + 1) * dec_one" using assms(5) by (simp add: dec_of_int_def algebra_simps)
  then have "m < n + 1" by (simp only: mult_less_cancel_right_pos [OF dec_one_pos(1)])
  moreover have "k = go_div c dec_one" using assms(2,4) by (simp add: truncateInt_ok_def)
  then have "k = m" by (simp add: m(1) go_div_whole)
  ultimately show ?thesis by simp
qed

lemma trunc_le:
  assumes "truncateInt_ok d" "d_truncateInt d (dec_of_int n - r) = Inr k" "0 \<le> r" "0 \<le> n"
  shows "k \<le> n"
proof -
  have k: "k = go_div (dec_of_int n - r) dec_one" using assms(1,2) by (auto simp: truncateInt_ok_def)
  show ?thesis
  proof (cases "0 \<le> dec_of_int n - r")
    case True
    then have "k = (dec_of_int n - r) div dec_one" by (simp add: k go_div_def sgn_if)
    also have "\<dots> \<le> dec_of_int n div dec_one" using assms(3) by (intro zdiv_mono1) auto
    finally show ?thesis by (simp add: dec_of_int_def)
  next
    case False
    then have "k \<le> 0" by (simp add: k go_div_def sgn_if pos_imp_zdiv_nonneg_iff)
    then show ?thesis using assms(4) by simp
  qed
qed

text \<open>The bank before and after: the sender pays the amount in, split between the pool and its fees, and gets the amount out.\<close>

definition swap_paid :: "'b lpx \<Rightarrow> bytes \<Rightarrow> Pool \<Rightarrow> coin \<Rightarrow> coin \<Rightarrow> 'b \<Rightarrow> 'b \<Rightarrow> bool" where
  "swap_paid x sender pool tin tout bank bank' \<longleftrightarrow> (\<exists>fee b1 b2.
     lx_sendCoins x sender (GetAddress x pool) [tin\<lparr>c_Amount := c_Amount tin - fee\<rparr>] bank = Inr b1
     \<and> (if fee = 0 then b2 = b1 else lx_sendCoins x sender (GetFeesAddress x pool) [\<lparr>c_Denom = c_Denom tin, c_Amount = fee\<rparr>] b1 = Inr b2)
     \<and> lx_sendCoins x (GetAddress x pool) sender [tout] b2 = Inr bank')"

lemma send_bank: "send_lp x a b cs s = Inr s' \<longleftrightarrow> (\<exists>bk. lx_sendCoins x a b cs (ls_bank s) = Inr bk \<and> s' = s\<lparr>ls_bank := bk\<rparr>)"
  by (auto simp: send_lp_def elim!: bindR_E)

lemma updatePoolForSwap_paid:
  assumes d: "newCoin_ok (lx_dec x)" and run: "updatePoolForSwap x pool sd pu fees s = Inr s'"
  shows "swap_paid x (sd_Sender sd) pool (sd_TokenIn sd) (sd_TokenOut sd) (ls_bank s) (ls_bank s')"
proof -
  from run obtain n fee s1 s2 s3 pool' where st: "d_newCoin (lx_dec x) (c_Denom (sd_TokenIn sd)) n = Inr fee"
      "send_lp x (sd_Sender sd) (GetAddress x pool) [(sd_TokenIn sd)\<lparr>c_Amount := c_Amount (sd_TokenIn sd) - c_Amount fee\<rparr>] s = Inr s1"
      "(if c_Amount fee \<noteq> 0 then send_lp x (sd_Sender sd) (GetFeesAddress x pool) [fee] s1 else Inr s1) = Inr s2"
      "send_lp x (GetAddress x pool) (sd_Sender sd) [sd_TokenOut sd] s2 = Inr s3" "s' = SetPool pool' s3"
    unfolding updatePoolForSwap_def Let_def by (elim bindR_E) blast
  have fee: "fee = \<lparr>c_Denom = c_Denom (sd_TokenIn sd), c_Amount = c_Amount fee\<rparr>" using newCoinD(1) [OF d st(1)] by simp
  have "if c_Amount fee = 0 then ls_bank s2 = ls_bank s1 else lx_sendCoins x (sd_Sender sd) (GetFeesAddress x pool) [fee] (ls_bank s1) = Inr (ls_bank s2)"
    using st(3) by (auto simp: send_bank)
  then show ?thesis using st(2,4,5) fee unfolding swap_paid_def
    by (intro exI [of _ "c_Amount fee"] exI [of _ "ls_bank s1"] exI [of _ "ls_bank s2"]) (auto simp: send_bank)
qed

lemma AddToAccumulator_bank: "AddToAccumulator x a v s = Inr s' \<Longrightarrow> ls_bank s' = ls_bank s"
  by (auto simp: AddToAccumulator_def SetAccumulator_def elim!: bindR_E)

lemma loop_bank:
  assumes "book s" "NextTickIterator h s q t = Inr it" "swap_loop st limit ss it cnt s = Some (Inr (ss', s1))"
    and "st = out_given_in_step x p h' fa den up \<or> st = in_given_out_step x p h' fa den up"
  shows "ls_bank s1 = ls_bank s"
proof -
  have ok: "ticks_ok s" "kv_ok (ls_ticks s)" using assms(1) by (simp_all add: book_defs)
  have "fee_only s s1" by (rule loop_fee_only [OF assms(3) ok(2) NextTickIterator_ok [OF ok assms(2)] assms(4)])
  then show ?thesis by (auto simp: fee_only_def)
qed

lemma SwapExactAmountIn_paid:
  assumes d: "newCoin_ok (lx_dec x)" "ceil_ok (lx_dec x)" "truncateInt_ok (lx_dec x)" and book: "book s"
    and run: "SwapExactAmountIn x sender pool tin dout fe s = Inr (n, s')"
  shows "0 < n \<and> (\<exists>a. a \<le> c_Amount tin \<and> swap_paid x sender pool \<lparr>c_Denom = c_Denom tin, c_Amount = a\<rparr> \<lparr>c_Denom = dout, c_Amount = n\<rparr> (ls_bank s) (ls_bank s'))"
proof -
  obtain t1 t2 pu where 1: "swapOutAmtGivenIn x sender pool tin dout (if fe then pl_FeeRate pool else 0)
      (GetPriceLimit (isBaseForQuote (c_Denom tin) (pl_DenomBase pool))) s = Inr (t1, t2, pu, s')" "n = c_Amount t2"
    by (rule SwapExactAmountIn_steps [OF run])
  obtain res s2 where 2: "computeOutAmtGivenIn x (pl_Id pool) tin dout (if fe then pl_FeeRate pool else 0)
      (GetPriceLimit (isBaseForQuote (c_Denom tin) (pl_DenomBase pool))) True s = Inr (res, pu, s2)"
      "d_newCoin (lx_dec x) (c_Denom tin) (sr_AmountIn res) = Inr t1" "d_newCoin (lx_dec x) dout (sr_AmountOut res) = Inr t2" "0 < c_Amount t2"
      "updatePoolForSwap x pool \<lparr>sd_Sender = sender, sd_TokenIn = t1, sd_TokenOut = t2\<rparr> pu (sr_Fees res) s2 = Inr s'"
    by (rule swapOutAmtGivenIn_steps [OF 1(1)])
  obtain p fa h limit it ss s1 c where r: "NextTickIterator h s (pl_Id pool) (pl_CurrentTick p) = Inr it"
    "swap_loop (out_given_in_step x p h fa (c_Denom tin) True) limit (newSwapState (c_Amount tin) p h) it 0 s = Some (Inr (ss, s1))"
    "0 \<le> ss_amountSpecifiedRemaining ss" "if True then \<exists>g. AddToAccumulator x fa g s1 = Inr s2 else s2 = s1"
    "d_ceil (lx_dec x) (dec_of_int (c_Amount tin) - ss_amountSpecifiedRemaining ss) = Inr c" "d_truncateInt (lx_dec x) c = Inr (sr_AmountIn res)"
    by (rule computeOutAmtGivenIn_steps [OF 2(1)])
  have "ls_bank s2 = ls_bank s" using r(4) loop_bank [OF book r(1,2) disjI1 [OF refl]] by (auto dest: AddToAccumulator_bank)
  moreover have "sr_AmountIn res \<le> c_Amount tin" by (rule ceil_trunc_le [OF d(2,3) r(5,6,3)])
  moreover have "t1 = \<lparr>c_Denom = c_Denom tin, c_Amount = sr_AmountIn res\<rparr>" "t2 = \<lparr>c_Denom = dout, c_Amount = n\<rparr>"
    using newCoinD(1) [OF d(1) 2(2)] newCoinD(1) [OF d(1) 2(3)] 1(2) by simp_all
  ultimately show ?thesis using updatePoolForSwap_paid [OF d(1) 2(5)] 2(4) by auto
qed

lemma SwapExactAmountOut_paid:
  assumes d: "newCoin_ok (lx_dec x)" "truncateInt_ok (lx_dec x)" and book: "book s" and pos: "0 \<le> c_Amount tout"
    and run: "SwapExactAmountOut x sender pool tout din fe s = Inr (n, s')"
  shows "0 < n \<and> (\<exists>a. 0 \<le> a \<and> a \<le> c_Amount tout
    \<and> swap_paid x sender pool \<lparr>c_Denom = din, c_Amount = n\<rparr> \<lparr>c_Denom = c_Denom tout, c_Amount = a\<rparr> (ls_bank s) (ls_bank s'))"
proof -
  obtain t1 t2 pu where 1: "swapInAmtGivenOut x sender pool tout din (if fe then pl_FeeRate pool else 0)
      (GetPriceLimit (isBaseForQuote din (pl_DenomBase pool))) s = Inr (t1, t2, pu, s')" "n = c_Amount t1"
    by (rule SwapExactAmountOut_steps [OF run])
  obtain res s2 where 2: "computeInAmtGivenOut x tout din (if fe then pl_FeeRate pool else 0)
      (GetPriceLimit (isBaseForQuote din (pl_DenomBase pool))) (pl_Id pool) True s = Inr (res, pu, s2)"
      "d_newCoin (lx_dec x) din (sr_AmountIn res) = Inr t1" "d_newCoin (lx_dec x) (c_Denom tout) (sr_AmountOut res) = Inr t2" "0 < c_Amount t1"
      "updatePoolForSwap x pool \<lparr>sd_Sender = sender, sd_TokenIn = t1, sd_TokenOut = t2\<rparr> pu (sr_Fees res) s2 = Inr s'"
    by (rule swapInAmtGivenOut_steps [OF 1(1)])
  obtain p fa h limit it ss s1 where r: "NextTickIterator h s (pl_Id pool) (pl_CurrentTick p) = Inr it"
    "swap_loop (in_given_out_step x p h fa din True) limit (newSwapState (c_Amount tout) p h) it 0 s = Some (Inr (ss, s1))"
    "0 \<le> ss_amountSpecifiedRemaining ss" "if True then \<exists>g. AddToAccumulator x fa g s1 = Inr s2 else s2 = s1"
    "d_truncateInt (lx_dec x) (dec_of_int (c_Amount tout) - ss_amountSpecifiedRemaining ss) = Inr (sr_AmountOut res)"
    by (rule computeInAmtGivenOut_steps [OF 2(1)])
  have "ls_bank s2 = ls_bank s" using r(4) loop_bank [OF book r(1,2) disjI2 [OF refl]] by (auto dest: AddToAccumulator_bank)
  moreover have "sr_AmountOut res \<le> c_Amount tout" by (rule trunc_le [OF d(2) r(5,3) pos])
  moreover have "t1 = \<lparr>c_Denom = din, c_Amount = n\<rparr>" "t2 = \<lparr>c_Denom = c_Denom tout, c_Amount = sr_AmountOut res\<rparr>" "0 \<le> sr_AmountOut res"
    using newCoinD [OF d(1) 2(2)] newCoinD [OF d(1) 2(3)] 1(2) by simp_all
  ultimately show ?thesis using updatePoolForSwap_paid [OF d(1) 2(5)] 2(4) by auto
qed

end
