(* ===== verification/LpSample.thy ===== *)
theory LpSample
  imports LpEffects
begin

text \<open>
  A concrete instance of the interfaces of the liquidity pool, and a short run: a pool whose prices are the powers of four, its
  first position, and a swap. The state of the bank is the list of the transfers so far.
\<close>

section \<open>Interfaces\<close>

type_synonym ledger = "(bytes \<times> bytes \<times> coin list) list"

definition amount_of :: "string \<Rightarrow> decCoins \<Rightarrow> dec" where
  "amount_of n cs = sum_list (map dc_Amount (filter (\<lambda>c. dc_Denom c = n) cs))"

definition merge_coins :: "decCoins \<Rightarrow> decCoins" where
  "merge_coins cs = filter (\<lambda>c. dc_Amount c \<noteq> 0) (map (\<lambda>n. \<lparr>dc_Denom = n, dc_Amount = amount_of n cs\<rparr>) (remdups (map dc_Denom cs)))"

definition negated :: "decCoins \<Rightarrow> decCoins" where
  "negated cs = map (\<lambda>c. c\<lparr>dc_Amount := - dc_Amount c\<rparr>) cs"

definition sample_dcx :: dcx where
  "sample_dcx =
     \<lparr>dc_new = \<lambda>cs. Inr (merge_coins cs),
      dc_newFromDec = \<lambda>n a. Inr \<lparr>dc_Denom = n, dc_Amount = a\<rparr>,
      dc_fromCoins = \<lambda>cs. Inr (merge_coins (map (\<lambda>c. \<lparr>dc_Denom = c_Denom c, dc_Amount = dec_of_int (c_Amount c)\<rparr>) cs)),
      dc_add = \<lambda>a b. Inr (merge_coins (a @ b)),
      dc_sub = \<lambda>a b. let r = merge_coins (a @ negated b) in
        if list_ex (\<lambda>c. dc_Amount c < 0) r then Inl (Panic ''negative coin amount'') else Inr r,
      dc_safeSub = \<lambda>a b. Inr (merge_coins (a @ negated b)),
      dc_mulDec = \<lambda>a n. Inr (merge_coins (map (\<lambda>c. c\<lparr>dc_Amount := round_div (dc_Amount c * n) dec_one\<rparr>) a)),
      dc_quoDecTruncate = \<lambda>a n. if n = 0 then Inl (Panic ''invalid zero decimal'')
        else Inr (merge_coins (map (\<lambda>c. c\<lparr>dc_Amount := go_div (dc_Amount c * dec_one) n\<rparr>) a)),
      dc_truncateDecimal = \<lambda>a. Inr (filter (\<lambda>c. c_Amount c \<noteq> 0) (map (\<lambda>c. \<lparr>c_Denom = dc_Denom c, c_Amount = go_div (dc_Amount c) dec_one\<rparr>) a),
        merge_coins (map (\<lambda>c. c\<lparr>dc_Amount := dc_Amount c - dec_of_int (go_div (dc_Amount c) dec_one)\<rparr>) a)),
      dc_isZero = list_all (\<lambda>c. dc_Amount c = 0),
      dc_isAnyNegative = list_ex (\<lambda>c. dc_Amount c < 0)\<rparr>"

definition digits :: "string \<Rightarrow> int" where
  "digits s = foldl (\<lambda>a c. 10 * a + (of_char c - 48)) 0 s"

definition sample_decFromStr :: "string \<Rightarrow> dec result" where
  "sample_decFromStr s =
     (let a = takeWhile (\<lambda>c. c \<noteq> CHR ''.'') s; b = drop (length a + 1) s in
      if a = [] \<or> 18 < length b then Inl (Err ''invalid decimal'')
      else Inr (dec_of_int (digits a) + digits b * 10 ^ (18 - length b)))"

definition sample_lpx :: "ledger lpx" where
  "sample_lpx =
     \<lparr>lx_dec = sample_dec, lx_dc = sample_dcx, lx_accAddress = \<lambda>s. Inr (map of_char s), lx_accString = map (\<lambda>w. char_of (unat w)),
      lx_moduleAddress = map of_char, lx_decFromStr = sample_decFromStr, lx_intFromString = \<lambda>s. Some (digits s),
      lx_coinsAdd = \<lambda>a b. Inr (filter (\<lambda>c. c_Amount c \<noteq> 0) (a @ b)), lx_coinsIsZero = list_all (\<lambda>c. c_Amount c = 0),
      lx_isSendEnabled = \<lambda>_ _. Inr (), lx_sendCoins = \<lambda>a b cs l. Inr (l @ [(a, b, cs)]),
      lx_getBalance = \<lambda>_ n _. \<lparr>c_Denom = n, c_Amount = 0\<rparr>, lx_authority = ''gov''\<rparr>"

section \<open>A run\<close>

definition sample_create_pool :: MsgCreatePool where
  "sample_create_pool = \<lparr>mp_Authority = ''gov'', mp_DenomBase = ''base'', mp_DenomQuote = ''quote'', mp_FeeRate = ''0.01'',
     mp_PriceRatio = ''4'', mp_BaseOffset = ''0''\<rparr>"

definition sample_create_position :: MsgCreatePosition where
  "sample_create_position = \<lparr>mc_Sender = ''alice'', mc_PoolId = 0, mc_LowerTick = 0, mc_UpperTick = 2,
     mc_TokenBase = \<lparr>c_Denom = ''base'', c_Amount = 100\<rparr>, mc_TokenQuote = \<lparr>c_Denom = ''quote'', c_Amount = 400\<rparr>,
     mc_MinAmountBase = 0, mc_MinAmountQuote = 0\<rparr>"

definition sample_pool :: Pool where
  "sample_pool = \<lparr>pl_Id = 0, pl_DenomBase = ''base'', pl_DenomQuote = ''quote'', pl_FeeRate = 10 ^ 16,
     pl_TickParams = \<lparr>tp_PriceRatio = 4 * 10 ^ 18, tp_BaseOffset = 0\<rparr>, pl_CurrentTick = 1,
     pl_CurrentTickLiquidity = 400 * 10 ^ 18, pl_CurrentSqrtPrice = 2 * 10 ^ 18\<rparr>"

definition sample_state :: "ledger lps" where
  "sample_state =
     \<lparr>ls_pools = [(0, sample_pool)],
      ls_poolCount = Some 1,
      ls_positions = [(0, \<lparr>po_Id = 0, po_Address = ''alice'', po_PoolId = 0, po_LowerTick = 0, po_UpperTick = 2,
        po_Liquidity = 400 * 10 ^ 18\<rparr>)],
      ls_positionCount = Some 1,
      ls_byPool = [(PositionByPoolPrefix 0 @ PutUint64 0, 0)],
      ls_byAddress = [(PositionByAddressPrefix ''alice'' @ PutUint64 0, 0)],
      ls_ticks =
        [(GetTickInfoIDBytes 0 0, \<lparr>ti_PoolId = 0, ti_TickIndex = 0, ti_LiquidityGross = 400 * 10 ^ 18, ti_LiquidityNet = 400 * 10 ^ 18, ti_FeeGrowth = []\<rparr>),
         (GetTickInfoIDBytes 0 2, \<lparr>ti_PoolId = 0, ti_TickIndex = 2, ti_LiquidityGross = 400 * 10 ^ 18, ti_LiquidityNet = - 400 * 10 ^ 18, ti_FeeGrowth = []\<rparr>)],
      ls_accums = [(FormatKeyAccumPrefix (KeyFeePoolAccumulator 0),
        \<lparr>ao_Name = KeyFeePoolAccumulator 0, ao_AccumValue = [], ao_TotalShares = 400 * 10 ^ 18\<rparr>)],
      ls_accumPositions = [(FormatKeyAccumulatorPositionPrefix (KeyFeePoolAccumulator 0) (KeyFeePositionAccumulator 0),
        \<lparr>ap_NumShares = 400 * 10 ^ 18, ap_AccumValuePerShare = [], ap_UnclaimedRewardsTotal = []\<rparr>)],
      ls_params = Some DefaultParams_lp,
      ls_bank = [(str ''alice'', str ''liquiditypool/0'', [\<lparr>c_Denom = ''base'', c_Amount = 100\<rparr>, \<lparr>c_Denom = ''quote'', c_Amount = 400\<rparr>])]\<rparr>"

definition sample_msgs :: "lp_msg list" where
  "sample_msgs = [Msg_CreatePool sample_create_pool, Msg_CreatePosition sample_create_position]"

lemma sample_run: "lp_run sample_lpx sample_msgs [] = sample_state"
  by code_simp

definition sample_in :: coin where "sample_in = \<lparr>c_Denom = ''base'', c_Amount = 10\<rparr>"

text \<open>The results of a swap in either direction, and of a withdrawal.\<close>

lemma sample_swap_in: "\<exists>s'. SwapExactAmountIn sample_lpx (str ''bob'') sample_pool sample_in ''quote'' True sample_state = Inr (37, s')"
proof -
  have "map_sum (\<lambda>e. e) fst (SwapExactAmountIn sample_lpx (str ''bob'') sample_pool sample_in ''quote'' True sample_state) = Inr 37" by code_simp
  then show ?thesis by (cases "SwapExactAmountIn sample_lpx (str ''bob'') sample_pool sample_in ''quote'' True sample_state") auto
qed

lemma sample_swap_out: "\<exists>s'. SwapExactAmountOut sample_lpx (str ''bob'') sample_pool sample_in ''quote'' True sample_state = Inr (44, s')"
proof -
  have "map_sum (\<lambda>e. e) fst (SwapExactAmountOut sample_lpx (str ''bob'') sample_pool sample_in ''quote'' True sample_state) = Inr 44" by code_simp
  then show ?thesis by (cases "SwapExactAmountOut sample_lpx (str ''bob'') sample_pool sample_in ''quote'' True sample_state") auto
qed

definition sample_withdraw :: MsgDecreaseLiquidity where
  "sample_withdraw = \<lparr>md_Sender = ''alice'', md_Id = 0, md_Liquidity = ''400''\<rparr>"

lemma sample_withdrawn:
  "\<exists>s'. lp_exec sample_lpx (Msg_DecreaseLiquidity sample_withdraw) sample_state = Inr s' \<and> GetPosition s' 0 = None"
proof -
  have "map_sum (\<lambda>e. e) (\<lambda>s. GetPosition s 0) (lp_exec sample_lpx (Msg_DecreaseLiquidity sample_withdraw) sample_state) = Inr None" by code_simp
  then show ?thesis by (cases "lp_exec sample_lpx (Msg_DecreaseLiquidity sample_withdraw) sample_state") auto
qed

text \<open>A pool with the price ratio of one hundredth of a percent, still without a position.\<close>

definition narrow_pool :: Pool where
  "narrow_pool = \<lparr>pl_Id = 0, pl_DenomBase = ''base'', pl_DenomQuote = ''quote'', pl_FeeRate = 10 ^ 16,
     pl_TickParams = \<lparr>tp_PriceRatio = 1000100000000000000, tp_BaseOffset = 0\<rparr>, pl_CurrentTick = 0,
     pl_CurrentTickLiquidity = 0, pl_CurrentSqrtPrice = 0\<rparr>"

section \<open>The laws\<close>

lemma sample_laws: "ceil_ok sample_dec" "sqrt_ok sample_dec" "mul_defined sample_dec" "mul_odd sample_dec" "quo_odd sample_dec" "dec_ok sample_dec"
proof -
  show 1: "ceil_ok sample_dec"
    unfolding ceil_ok_def
  proof (intro allI impI)
    fix a c
    assume "d_ceil sample_dec a = Inr c"
    then have c: "c = dec_of_int (- ((- a) div dec_one))" by (simp add: sample_dec_def dec_of_int_def)
    have "dec_one * ((- a) div dec_one) = - a - (- a) mod dec_one" by (simp add: minus_mod_eq_mult_div)
    moreover have "0 \<le> (- a) mod dec_one" "(- a) mod dec_one < dec_one" by simp_all
    ultimately have "a \<le> c" "c < a + dec_one" by (simp_all add: c dec_of_int_def mult.commute)
    then show "\<exists>n. c = dec_of_int n \<and> a \<le> c \<and> c < a + dec_one" using c by blast
  qed
  show 2: "sqrt_ok sample_dec"
    by (auto simp: sqrt_ok_def sample_dec_def int_root_nonneg)
  show "mul_defined sample_dec" "mul_odd sample_dec" "quo_odd sample_dec"
    by (simp_all add: mul_defined_def mul_odd_def quo_odd_def sample_dec_def round_div_minus)
  show "dec_ok sample_dec" using 1 2 sample_dec_ok by (simp add: dec_ok_def)
qed

lemma sample_book: "book sample_state" "pools_live sample_state" "indexed sample_state"
proof -
  have l: "length sample_msgs < 2 ^ 64 - 1" "\<forall>m\<in>set sample_msgs. \<not> is_swap m" by (simp_all add: sample_msgs_def)
  have d: "dec_ok (lx_dec sample_lpx)" using sample_laws by (simp add: sample_lpx_def)
  show "book sample_state" "pools_live sample_state" "indexed sample_state"
    using lp_run_inv [OF l(1), of sample_lpx "[]"] lp_run_live [OF d l, of "[]"] unfolding sample_run by auto
qed

end
