(* ===== verification/LiSample.thy ===== *)
theory LiSample
  imports LiEffects LpSample
begin

text \<open>
  A concrete instance: one validator with a delegator who votes, a pool without positions, and the fee collector's balance as a constant.
\<close>

definition sample_lix :: "ledger lix" where
  "sample_lix =
     \<lparr>li_lpx = sample_lpx, li_accStringToBytes = \<lambda>s. Inr (str s), li_valStringToBytes = \<lambda>s. Inr (str s),
      li_valBytesToString = \<lambda>b. Inr (map (\<lambda>w. char_of (unat w)) b), li_getAllBalances = \<lambda>_ _. [\<lparr>c_Denom = ''uvrise'', c_Amount = 1000\<rparr>],
      li_amountOf = \<lambda>cs n. coins_in n cs,
      li_mulDecTruncate = \<lambda>cs r. Inr (merge_coins (map (\<lambda>c. c\<lparr>dc_Amount := go_div (dc_Amount c * r) dec_one\<rparr>) cs)),
      li_isAllPositive = \<lambda>cs. cs \<noteq> [] \<and> list_all (\<lambda>c. 0 < c_Amount c) cs, li_authority = ''gov''\<rparr>"

definition sample_stk :: stk where
  "sample_stk =
     \<lparr>sk_validators = ([\<lparr>va_Operator = ''val'', va_BondedTokens = 100, va_DelegatorShares = dec_of_int 100\<rparr>], None),
      sk_delegations = \<lambda>a. if a = str ''alice'' then ([\<lparr>de_ValidatorAddr = ''val'', de_Shares = dec_of_int 60\<rparr>], None) else ([], None),
      sk_totalBonded = Inr 100\<rparr>"

definition sample_order :: map_order where
  "sample_order = \<lparr>mo_validators = \<lambda>m. m, mo_weights = \<lambda>m. m\<rparr>"

definition other_order :: map_order where
  "other_order = \<lparr>mo_validators = rev, mo_weights = rev\<rparr>"

lemma sample_orders: "map_order_ok sample_order" "map_order_ok other_order"
  by (simp_all add: map_order_ok_def sample_order_def other_order_def)

definition sample_vote :: MsgVoteGauge where
  "sample_vote = \<lparr>mv_Sender = ''alice'', mv_Weights = [\<lparr>pw_PoolId = 0, pw_Weight = dec_one\<rparr>]\<rparr>"

text \<open>The votes of the delegator and of the validator.\<close>

definition sample_lis :: "Vote list \<Rightarrow> ledger lis" where
  "sample_lis votes = fold SetVote votes
     (InitGenesis_li DefaultGenesis_li (empty_lis (InitGenesis_lp DefaultGenesis_lp (empty_lps []))))"

definition sample_votes :: "Vote list" where
  "sample_votes = [\<lparr>vo_Sender = ''alice'', vo_Weights = [\<lparr>pw_PoolId = 0, pw_Weight = dec_one\<rparr>]\<rparr>,
     \<lparr>vo_Sender = ''val'', vo_Weights = [\<lparr>pw_PoolId = 1, pw_Weight = dec_one div 2\<rparr>, \<lparr>pw_PoolId = 0, pw_Weight = dec_one div 2\<rparr>]\<rparr>]"

lemma sample_tally:
  "Tally sample_lix sample_stk sample_order (sample_lis sample_votes) =
     Inr [\<lparr>pw_PoolId = 0, pw_Weight = dec_of_int 80\<rparr>, \<lparr>pw_PoolId = 1, pw_Weight = dec_of_int 20\<rparr>]"
  by code_simp

text \<open>A pool is created, voted for, and an epoch starts.\<close>

definition epoch_run :: "ledger lis result" where
  "epoch_run =
     bindR (lp_exec sample_lpx (Msg_CreatePool sample_create_pool) (li_lp (sample_lis []))) (\<lambda>lp.
     bindR (VoteGauge sample_vote ((sample_lis [])\<lparr>li_lp := lp\<rparr>)) (\<lambda>s. EndBlocker_li sample_lix sample_stk sample_order 7 s))"

definition empty_pool :: Pool where
  "empty_pool = \<lparr>pl_Id = 0, pl_DenomBase = ''base'', pl_DenomQuote = ''quote'', pl_FeeRate = 10 ^ 16,
     pl_TickParams = \<lparr>tp_PriceRatio = 4 * 10 ^ 18, tp_BaseOffset = 0\<rparr>, pl_CurrentTick = 0, pl_CurrentTickLiquidity = 0, pl_CurrentSqrtPrice = 0\<rparr>"

definition sample_epoch :: Epoch where
  "sample_epoch = \<lparr>ep_Id = 1, ep_StartBlock = 7, ep_EndBlock = 12, ep_Gauges = [\<lparr>ga_PreviousEpochId = 0, ga_PoolId = 0, ga_Ratio = dec_of_int 60\<rparr>]\<rparr>"

definition halted :: "ledger lis" where
  "halted = projr epoch_run"

lemma epoch_run: "epoch_run = Inr halted"
proof -
  have "\<not> isl epoch_run" by code_simp
  then show ?thesis by (simp add: halted_def)
qed

lemma halted_facts:
  "GetLastEpoch halted = Some sample_epoch" "GetPool (li_lp halted) 0 = Some empty_pool"
  "incentiveFees sample_lix halted = Inr [\<lparr>dc_Denom = ''uvrise'', dc_Amount = dec_of_int 500\<rparr>]"
  by code_simp+

lemma halted_reached: "li_reach sample_lix 3 halted"
proof -
  have g: "li_reach sample_lix 0 (sample_lis [])" using li_reach.genesis [of sample_lix "[]"] by (simp add: sample_lis_def)
  from epoch_run obtain lp s where r: "lp_exec sample_lpx (Msg_CreatePool sample_create_pool) (li_lp (sample_lis [])) = Inr lp"
      "VoteGauge sample_vote ((sample_lis [])\<lparr>li_lp := lp\<rparr>) = Inr s" "EndBlocker_li sample_lix sample_stk sample_order 7 s = Inr halted"
    by (auto simp: epoch_run_def elim!: bindR_E)
  have x: "li_lpx sample_lix = sample_lpx" by (simp add: sample_lix_def)
  have v: "ValidateBasic_vote sample_lix sample_vote = Inr ()" by code_simp
  note 1 = li_reach.pool [OF g, of "Msg_CreatePool sample_create_pool", unfolded x, OF r(1)]
  show ?thesis using li_reach.end_block [OF li_reach.vote [OF 1 v r(2)] sample_orders(1) r(3)] by (simp add: numeral_3_eq_3)
qed


section \<open>The laws\<close>

lemma deccoins_in_Cons: "deccoins_in n (c # cs) = (if dc_Denom c = n then dc_Amount c else 0) + deccoins_in n cs"
  by (simp add: deccoins_in_def)

lemma deccoins_in_nonzero: "deccoins_in n (filter (\<lambda>c. dc_Amount c \<noteq> 0) cs) = deccoins_in n cs"
  by (induction cs) (auto simp: deccoins_in_def)

lemma deccoins_in_merge [simp]: "deccoins_in n (merge_coins cs) = deccoins_in n cs"
proof -
  have "deccoins_in n (map (\<lambda>m. \<lparr>dc_Denom = m, dc_Amount = f m\<rparr>) ms) = (if n \<in> set ms then f n else 0)" if "distinct ms" for f ms
    using that by (induction ms) (auto simp: deccoins_in_def)
  then have "deccoins_in n (merge_coins cs) = (if n \<in> dc_Denom ` set cs then amount_of n cs else 0)"
    by (simp add: merge_coins_def deccoins_in_nonzero)
  also have "\<dots> = deccoins_in n cs"
  proof (cases "n \<in> dc_Denom ` set cs")
    case False
    then have "filter (\<lambda>c. dc_Denom c = n) cs = []" by (auto simp: filter_empty_conv)
    with False show ?thesis by (simp add: deccoins_in_def)
  qed (simp add: amount_of_def deccoins_in_def)
  finally show ?thesis .
qed

lemma nonnegative_merge: "nonnegative cs \<Longrightarrow> nonnegative (merge_coins cs)"
  by (auto simp: nonnegative_def merge_coins_def amount_of_def intro!: sum_list_nonneg)

lemma sample_li_laws: "mulDecTruncate_ok sample_lix" "truncateDecimal_ok sample_lix"
proof -
  have g: "go_div a dec_one * dec_one \<le> a" "0 \<le> go_div a dec_one" if "0 \<le> a" for a
    using that by (auto simp: go_div_nonneg pos_imp_zdiv_nonneg_iff) (simp add: minus_mod_eq_div_mult [symmetric])
  have *: "deccoins_in n (map (\<lambda>c. c\<lparr>dc_Amount := go_div (dc_Amount c * r) dec_one\<rparr>) cs) * dec_one \<le> deccoins_in n cs * r"
    if "nonnegative cs" "0 \<le> r" for n cs r
    using that(1)
  proof (induction cs)
    case (Cons c cs)
    then have "go_div (dc_Amount c * r) dec_one * dec_one \<le> dc_Amount c * r" using g(1) that(2) by (simp add: nonnegative_def)
    with Cons show ?case by (auto simp: deccoins_in_Cons algebra_simps nonnegative_def)
  qed (simp add: deccoins_in_def)
  have "nonnegative (map (\<lambda>c. c\<lparr>dc_Amount := go_div (dc_Amount c * r) dec_one\<rparr>) cs)" if "nonnegative cs" "0 \<le> r" for cs r
    using that g(2) by (auto simp: nonnegative_def)
  with * show "mulDecTruncate_ok sample_lix"
    by (auto simp: mulDecTruncate_ok_def sample_lix_def nonnegative_merge)
  have "dec_of_int (coins_in n (filter (\<lambda>c. c_Amount c \<noteq> 0) (map (\<lambda>c. \<lparr>c_Denom = dc_Denom c, c_Amount = go_div (dc_Amount c) dec_one\<rparr>) cs)))
      \<le> deccoins_in n cs" if "nonnegative cs" for n cs
    using that
  proof (induction cs)
    case (Cons c cs)
    then have "go_div (dc_Amount c) dec_one * dec_one \<le> dc_Amount c" using g(1) by (simp add: nonnegative_def)
    with Cons show ?case by (auto simp: coins_in_def deccoins_in_Cons dec_of_int_def algebra_simps nonnegative_def)
  qed (simp add: coins_in_def deccoins_in_def dec_of_int_def)
  then show "truncateDecimal_ok sample_lix"
    by (auto simp: truncateDecimal_ok_def sample_lix_def sample_lpx_def sample_dcx_def)
qed

end
