(* ===== verification/Bank.thy ===== *)
theory Bank
  imports SdkMath
begin

text \<open>
  The bank keeper of the SDK as the token modules use it, with the laws it documents: transfers move coins and leave the supply, minting and
  burning change the supply and the balance of a module's account.
\<close>

record 'b bkx =
  bk_balance :: "bytes \<Rightarrow> string \<Rightarrow> 'b \<Rightarrow> int"
  bk_supply :: "string \<Rightarrow> 'b \<Rightarrow> int"
  bk_moduleAddress :: "string \<Rightarrow> bytes"
  bk_toModule :: "bytes \<Rightarrow> string \<Rightarrow> coin list \<Rightarrow> 'b \<Rightarrow> 'b result"
  bk_fromModule :: "string \<Rightarrow> bytes \<Rightarrow> coin list \<Rightarrow> 'b \<Rightarrow> 'b result"
  bk_betweenModules :: "string \<Rightarrow> string \<Rightarrow> coin list \<Rightarrow> 'b \<Rightarrow> 'b result"
  bk_mint :: "string \<Rightarrow> coin list \<Rightarrow> 'b \<Rightarrow> 'b result"
  bk_burn :: "string \<Rightarrow> coin list \<Rightarrow> 'b \<Rightarrow> 'b result"
  bk_newCoins :: "coin list \<Rightarrow> coin list result"

definition transferred :: "'b bkx \<Rightarrow> bytes \<Rightarrow> bytes \<Rightarrow> coin list \<Rightarrow> 'b \<Rightarrow> 'b \<Rightarrow> bool" where
  "transferred x a b cs bank bank' \<longleftrightarrow> (\<forall>n. bk_supply x n bank' = bk_supply x n bank)
     \<and> (\<forall>c n. bk_balance x c n bank' = bk_balance x c n bank - (if c = a then coins_in n cs else 0) + (if c = b then coins_in n cs else 0))"

definition issued :: "'b bkx \<Rightarrow> bytes \<Rightarrow> int \<Rightarrow> coin list \<Rightarrow> 'b \<Rightarrow> 'b \<Rightarrow> bool" where
  "issued x a sg cs bank bank' \<longleftrightarrow> (\<forall>n. bk_supply x n bank' = bk_supply x n bank + sg * coins_in n cs)
     \<and> (\<forall>c n. bk_balance x c n bank' = bk_balance x c n bank + (if c = a then sg * coins_in n cs else 0))"

definition bank_ok :: "'b bkx \<Rightarrow> bool" where
  "bank_ok x \<longleftrightarrow>
     (\<forall>a m cs b b'. bk_toModule x a m cs b = Inr b' \<longrightarrow> transferred x a (bk_moduleAddress x m) cs b b')
     \<and> (\<forall>m a cs b b'. bk_fromModule x m a cs b = Inr b' \<longrightarrow> transferred x (bk_moduleAddress x m) a cs b b')
     \<and> (\<forall>m k cs b b'. bk_betweenModules x m k cs b = Inr b' \<longrightarrow> transferred x (bk_moduleAddress x m) (bk_moduleAddress x k) cs b b')
     \<and> (\<forall>m cs b b'. bk_mint x m cs b = Inr b' \<longrightarrow> issued x (bk_moduleAddress x m) 1 cs b b')
     \<and> (\<forall>m cs b b'. bk_burn x m cs b = Inr b' \<longrightarrow> issued x (bk_moduleAddress x m) (- 1) cs b b')
     \<and> (\<forall>cs cs'. bk_newCoins x cs = Inr cs' \<longrightarrow> (\<forall>n. coins_in n cs' = coins_in n cs))"

lemma bankD:
  assumes "bank_ok x"
  shows "bk_toModule x a m cs b = Inr b' \<Longrightarrow> transferred x a (bk_moduleAddress x m) cs b b'"
    and "bk_fromModule x m a cs b = Inr b' \<Longrightarrow> transferred x (bk_moduleAddress x m) a cs b b'"
    and "bk_betweenModules x m k cs b = Inr b' \<Longrightarrow> transferred x (bk_moduleAddress x m) (bk_moduleAddress x k) cs b b'"
    and "bk_mint x m cs b = Inr b' \<Longrightarrow> issued x (bk_moduleAddress x m) 1 cs b b'"
    and "bk_burn x m cs b = Inr b' \<Longrightarrow> issued x (bk_moduleAddress x m) (- 1) cs b b'"
    and "bk_newCoins x cs = Inr cs' \<Longrightarrow> coins_in n cs' = coins_in n cs"
  using assms by (simp_all add: bank_ok_def)

lemma coins_in_one [simp]: "coins_in n [\<lparr>c_Denom = m, c_Amount = a\<rparr>] = (if m = n then a else 0)"
  by (simp add: coins_in_def)

section \<open>A concrete bank\<close>

text \<open>Balances and supplies as functions; a transfer fails if the sender has too little.\<close>

record purse =
  pu_balance :: "bytes \<Rightarrow> string \<Rightarrow> int"
  pu_supply :: "string \<Rightarrow> int"

definition shift :: "bytes \<Rightarrow> int \<Rightarrow> coin list \<Rightarrow> purse \<Rightarrow> purse" where
  "shift a sg cs b = b\<lparr>pu_balance := \<lambda>c n. pu_balance b c n + (if c = a then sg * coins_in n cs else 0)\<rparr>"

definition has_coins :: "bytes \<Rightarrow> coin list \<Rightarrow> purse \<Rightarrow> bool" where
  "has_coins a cs b \<longleftrightarrow> list_all (\<lambda>c. coins_in (c_Denom c) cs \<le> pu_balance b a (c_Denom c)) cs"

definition sample_send :: "bytes \<Rightarrow> bytes \<Rightarrow> coin list \<Rightarrow> purse \<Rightarrow> purse result" where
  "sample_send a b cs p = (if has_coins a cs p then Inr (shift b 1 cs (shift a (- 1) cs p)) else Inl (Err ''insufficient funds''))"

definition sample_bank :: "purse bkx" where
  "sample_bank =
     \<lparr>bk_balance = \<lambda>a n b. pu_balance b a n, bk_supply = \<lambda>n b. pu_supply b n, bk_moduleAddress = map of_char,
      bk_toModule = \<lambda>a m. sample_send a (map of_char m), bk_fromModule = \<lambda>m. sample_send (map of_char m),
      bk_betweenModules = \<lambda>m k. sample_send (map of_char m) (map of_char k),
      bk_mint = \<lambda>m cs b. Inr ((shift (map of_char m) 1 cs b)\<lparr>pu_supply := \<lambda>n. pu_supply b n + coins_in n cs\<rparr>),
      bk_burn = \<lambda>m cs b. if has_coins (map of_char m) cs b
        then Inr ((shift (map of_char m) (- 1) cs b)\<lparr>pu_supply := \<lambda>n. pu_supply b n - coins_in n cs\<rparr>) else Inl (Err ''insufficient funds''),
      bk_newCoins = \<lambda>cs. Inr (filter (\<lambda>c. c_Amount c \<noteq> 0) cs)\<rparr>"

lemma coins_in_nonzero: "coins_in n (filter (\<lambda>c. c_Amount c \<noteq> 0) cs) = coins_in n cs"
  by (induction cs) (auto simp: coins_in_def)

lemma sample_bank_ok: "bank_ok sample_bank"
  by (auto simp: bank_ok_def sample_bank_def sample_send_def shift_def transferred_def issued_def coins_in_nonzero split: if_splits)

end
