(* ===== verification/TokenConverter.thy ===== *)
theory TokenConverter
  imports Bank
begin

text \<open>
  \<^verbatim>\<open>x/tokenconverter\<close>: burning bond tokens for the same amount of fee tokens, up to a maximal supply of fee tokens. Amounts are unbounded integers; the
  SDK's panic on 256 bits is out of reach of the supplies.
\<close>

record tcParams =
  tcp_BondDenom :: string
  tcp_FeeDenom :: string
  tcp_MaxSupplyFee :: "int option"

text \<open>\<open>None\<close> is the nil integer of a zero value. The bank and the SDK's coins and addresses are the interface.\<close>

record 'b tcx =
  tx_bank :: "'b bkx"
  tx_accAddress :: "string \<Rightarrow> bytes result"
  tx_newCoin :: "string \<Rightarrow> int \<Rightarrow> coin result"
  tx_validate :: "coin \<Rightarrow> unit result"
  tx_authority :: string

record 'b tcs =
  tc_params :: "tcParams option"
  tc_bank :: 'b

definition GetParams_tc :: "'b tcs \<Rightarrow> tcParams" where
  "GetParams_tc s = (case tc_params s of None \<Rightarrow> \<lparr>tcp_BondDenom = [], tcp_FeeDenom = [], tcp_MaxSupplyFee = None\<rparr> | Some p \<Rightarrow> p)"

definition SetParams_tc :: "tcParams \<Rightarrow> 'b tcs \<Rightarrow> 'b tcs" where
  "SetParams_tc p s = s\<lparr>tc_params := Some p\<rparr>"

definition DefaultParams_tc :: tcParams where
  "DefaultParams_tc = \<lparr>tcp_BondDenom = ''stake'', tcp_FeeDenom = ''fee'', tcp_MaxSupplyFee = Some 1000000000000000\<rparr>"

definition Validate_params_tc :: "tcParams \<Rightarrow> unit result" where
  "Validate_params_tc p =
     (if tcp_BondDenom p = [] then Inl (Err ''bond denom cannot be empty'')
      else if tcp_FeeDenom p = [] then Inl (Err ''fee denom cannot be empty'')
      else case tcp_MaxSupplyFee p of
          None \<Rightarrow> Inl (Panic ''nil integer'')
        | Some m \<Rightarrow> if m < 0 then Inl (Err ''max supply fee cannot be negative'') else Inr ())"

definition UpdateParams_tc :: "'b tcx \<Rightarrow> string \<Rightarrow> tcParams \<Rightarrow> 'b tcs \<Rightarrow> 'b tcs result" where
  "UpdateParams_tc x authority params s =
     (if tx_authority x \<noteq> authority then Inl (Err ''expected gov account as only signer for proposal message'')
      else Inr (SetParams_tc params s))"

definition CalculateConversionAmount :: "'b tcx \<Rightarrow> 'b tcs \<Rightarrow> int \<Rightarrow> int \<Rightarrow> int result" where
  "CalculateConversionAmount x s minAmountOutFeeToken maxAmountInGovToken =
     (case tcp_MaxSupplyFee (GetParams_tc s) of
        None \<Rightarrow> Inl (Panic ''nil integer'')
      | Some maxSupplyFee \<Rightarrow>
          let space = maxSupplyFee - bk_supply (tx_bank x) (tcp_FeeDenom (GetParams_tc s)) (tc_bank s) in
          if space = 0 \<or> space < minAmountOutFeeToken then Inl (Err ''exceeds max supply'')
          else Inr (if space < maxAmountInGovToken then space else maxAmountInGovToken))"

definition BurnAndMint :: "'b tcx \<Rightarrow> int \<Rightarrow> bytes \<Rightarrow> 'b tcs \<Rightarrow> 'b tcs result" where
  "BurnAndMint x amount address s =
     (let params = GetParams_tc s; bk = tx_bank x in
      bindR (tx_newCoin x (tcp_BondDenom params) amount) (\<lambda>bondToken.
      bindR (tx_validate x bondToken) (\<lambda>_.
      bindR (tx_newCoin x (tcp_FeeDenom params) amount) (\<lambda>feeToken.
      bindR (tx_validate x feeToken) (\<lambda>_.
      bindR (bk_newCoins bk [bondToken]) (\<lambda>bondTokens.
      bindR (bk_toModule bk address ''tokenconverter'' bondTokens (tc_bank s)) (\<lambda>b.
      bindR (bk_burn bk ''tokenconverter'' bondTokens b) (\<lambda>b.
      bindR (bk_newCoins bk [feeToken]) (\<lambda>feeTokens.
      bindR (bk_mint bk ''tokenconverter'' feeTokens b) (\<lambda>b.
      bindR (bk_fromModule bk ''tokenconverter'' address feeTokens b) (\<lambda>b.
        Inr (s\<lparr>tc_bank := b\<rparr>))))))))))))"

record MsgConvert =
  mx_Sender :: string
  mx_MinAmount :: int
  mx_MaxAmount :: int

definition ValidateBasic_convert :: "'b tcx \<Rightarrow> MsgConvert \<Rightarrow> unit result" where
  "ValidateBasic_convert x msg =
     (case tx_accAddress x (mx_Sender msg) of
        Inl f \<Rightarrow> Inl (Err ''invalid sender address'')
      | Inr _ \<Rightarrow>
          if mx_MinAmount msg < 0 then Inl (Err ''min amount must not be negative'')
          else if \<not> mx_MaxAmount msg > 0 then Inl (Err ''max amount must be positive'')
          else Inr ())"

definition Convert :: "'b tcx \<Rightarrow> MsgConvert \<Rightarrow> 'b tcs \<Rightarrow> (int \<times> 'b tcs) result" where
  "Convert x msg s =
     bindR (tx_accAddress x (mx_Sender msg)) (\<lambda>address.
     bindR (CalculateConversionAmount x s (mx_MinAmount msg) (mx_MaxAmount msg)) (\<lambda>amount.
     bindR (BurnAndMint x amount address s) (\<lambda>s. Inr (amount, s))))"

definition InitGenesis_tc :: "tcParams \<Rightarrow> 'b tcs \<Rightarrow> 'b tcs" where
  "InitGenesis_tc gs s = SetParams_tc gs s"

definition ExportGenesis_tc :: "'b tcs \<Rightarrow> tcParams" where
  "ExportGenesis_tc s = GetParams_tc s"

section \<open>Conversions\<close>

text \<open>\<^verbatim>\<open>NewCoin\<close> returns the coin, and panics if the amount is negative.\<close>

definition tc_ok :: "'b tcx \<Rightarrow> bool" where
  "tc_ok x \<longleftrightarrow> bank_ok (tx_bank x) \<and> (\<forall>n a c. tx_newCoin x n a = Inr c \<longrightarrow> c = \<lparr>c_Denom = n, c_Amount = a\<rparr> \<and> 0 \<le> a)"

lemma CalculateConversionAmount_Inr:
  assumes "CalculateConversionAmount x s lo hi = Inr a"
  shows "\<exists>m. tcp_MaxSupplyFee (GetParams_tc s) = Some m \<and> a \<le> hi \<and> bk_supply (tx_bank x) (tcp_FeeDenom (GetParams_tc s)) (tc_bank s) + a \<le> m
    \<and> (lo \<le> hi \<longrightarrow> lo \<le> a)"
  using assms by (auto simp: CalculateConversionAmount_def Let_def split: option.splits if_splits)

lemma BurnAndMint_effect:
  assumes "tc_ok x" "BurnAndMint x amount a s = Inr s'" "p = GetParams_tc s"
  shows "0 \<le> amount" "tc_params s' = tc_params s"
    "bk_supply (tx_bank x) n (tc_bank s') = bk_supply (tx_bank x) n (tc_bank s)
       - (if n = tcp_BondDenom p then amount else 0) + (if n = tcp_FeeDenom p then amount else 0)"
    "bk_balance (tx_bank x) c n (tc_bank s') = bk_balance (tx_bank x) c n (tc_bank s)
       + (if c = a then (if n = tcp_FeeDenom p then amount else 0) - (if n = tcp_BondDenom p then amount else 0) else 0)"
proof -
  let ?bk = "tx_bank x" and ?m = "''tokenconverter''"
  have bk: "bank_ok ?bk" using assms(1) by (simp add: tc_ok_def)
  from assms(2) obtain c1 c2 cs1 cs2 b1 b2 b3 b4 where
      c: "tx_newCoin x (tcp_BondDenom p) amount = Inr c1" "tx_newCoin x (tcp_FeeDenom p) amount = Inr c2"
    and n: "bk_newCoins ?bk [c1] = Inr cs1" "bk_newCoins ?bk [c2] = Inr cs2"
    and b: "bk_toModule ?bk a ?m cs1 (tc_bank s) = Inr b1" "bk_burn ?bk ?m cs1 b1 = Inr b2" "bk_mint ?bk ?m cs2 b2 = Inr b3"
      "bk_fromModule ?bk ?m a cs2 b3 = Inr b4" "s' = s\<lparr>tc_bank := b4\<rparr>"
    unfolding assms(3) by (auto simp: BurnAndMint_def Let_def elim!: bindR_E)
  have cs: "c1 = \<lparr>c_Denom = tcp_BondDenom p, c_Amount = amount\<rparr>" "c2 = \<lparr>c_Denom = tcp_FeeDenom p, c_Amount = amount\<rparr>" "0 \<le> amount"
    using assms(1) c unfolding tc_ok_def by blast+
  have t: "coins_in n cs1 = (if tcp_BondDenom p = n then amount else 0)" "coins_in n cs2 = (if tcp_FeeDenom p = n then amount else 0)" for n
    using bankD(6) [OF bk n(1)] bankD(6) [OF bk n(2)] by (simp_all add: cs)
  note e = bankD(1) [OF bk b(1)] bankD(5) [OF bk b(2)] bankD(4) [OF bk b(3)] bankD(2) [OF bk b(4)]
  show "0 \<le> amount" "tc_params s' = tc_params s" using cs b(5) by simp_all
  show "bk_supply ?bk n (tc_bank s') = bk_supply ?bk n (tc_bank s)
       - (if n = tcp_BondDenom p then amount else 0) + (if n = tcp_FeeDenom p then amount else 0)"
    using e unfolding transferred_def issued_def b(5) by (simp add: t)
  show "bk_balance ?bk c n (tc_bank s') = bk_balance ?bk c n (tc_bank s)
       + (if c = a then (if n = tcp_FeeDenom p then amount else 0) - (if n = tcp_BondDenom p then amount else 0) else 0)"
    using e unfolding transferred_def issued_def b(5) by (simp add: t)
qed

lemma Convert_effect:
  assumes "tc_ok x" "Convert x msg s = Inr (amount, s')" "p = GetParams_tc s" "tx_accAddress x (mx_Sender msg) = Inr a"
    and "tcp_BondDenom p \<noteq> tcp_FeeDenom p"
  shows "0 \<le> amount \<and> amount \<le> mx_MaxAmount msg \<and> (mx_MinAmount msg \<le> mx_MaxAmount msg \<longrightarrow> mx_MinAmount msg \<le> amount)
    \<and> (\<exists>m. tcp_MaxSupplyFee p = Some m \<and> bk_supply (tx_bank x) (tcp_FeeDenom p) (tc_bank s') \<le> m)
    \<and> (\<forall>n. bk_supply (tx_bank x) n (tc_bank s') = bk_supply (tx_bank x) n (tc_bank s)
        + (if n = tcp_FeeDenom p then amount else if n = tcp_BondDenom p then - amount else 0))
    \<and> (\<forall>c n. bk_balance (tx_bank x) c n (tc_bank s') = bk_balance (tx_bank x) c n (tc_bank s)
        + (if c \<noteq> a then 0 else if n = tcp_FeeDenom p then amount else if n = tcp_BondDenom p then - amount else 0))"
proof -
  from assms(2,4) have c: "CalculateConversionAmount x s (mx_MinAmount msg) (mx_MaxAmount msg) = Inr amount" and b: "BurnAndMint x amount a s = Inr s'"
    by (auto simp: Convert_def elim!: bindR_E)
  note e = BurnAndMint_effect [OF assms(1) b assms(3)]
  from CalculateConversionAmount_Inr [OF c] obtain m where m: "tcp_MaxSupplyFee p = Some m" "amount \<le> mx_MaxAmount msg"
      "bk_supply (tx_bank x) (tcp_FeeDenom p) (tc_bank s) + amount \<le> m" "mx_MinAmount msg \<le> mx_MaxAmount msg \<longrightarrow> mx_MinAmount msg \<le> amount"
    unfolding assms(3) by blast
  show ?thesis
  proof (intro conjI allI impI)
    show "\<exists>m. tcp_MaxSupplyFee p = Some m \<and> bk_supply (tx_bank x) (tcp_FeeDenom p) (tc_bank s') \<le> m"
      using m(1,3) e(3) [of "tcp_FeeDenom p"] assms(5) by simp
  qed (use m e assms(5) in auto)
qed

section \<open>A concrete conversion\<close>

definition sample_tcx :: "purse tcx" where
  "sample_tcx = \<lparr>tx_bank = sample_bank, tx_accAddress = \<lambda>s. Inr (map of_char s),
     tx_newCoin = \<lambda>n a. if a < 0 then Inl (Panic ''negative coin amount'') else Inr \<lparr>c_Denom = n, c_Amount = a\<rparr>,
     tx_validate = \<lambda>_. Inr (), tx_authority = ''gov''\<rparr>"

definition sample_tcs :: "purse tcs" where
  "sample_tcs = \<lparr>tc_params = Some \<lparr>tcp_BondDenom = ''uvrise'', tcp_FeeDenom = ''urise'', tcp_MaxSupplyFee = Some 1000\<rparr>,
     tc_bank = \<lparr>pu_balance = \<lambda>a n. if a = map of_char ''alice'' \<and> n = ''uvrise'' then 300 else 0, pu_supply = \<lambda>n. if n = ''uvrise'' then 300 else 900\<rparr>\<rparr>"

lemma sample_tc_ok: "tc_ok sample_tcx"
  using sample_bank_ok by (auto simp: tc_ok_def sample_tcx_def split: if_splits)

lemma sample_convert:
  "\<exists>s'. Convert sample_tcx \<lparr>mx_Sender = ''alice'', mx_MinAmount = 50, mx_MaxAmount = 200\<rparr> sample_tcs = Inr (100, s')"
  "\<exists>s'. Convert sample_tcx \<lparr>mx_Sender = ''alice'', mx_MinAmount = 50, mx_MaxAmount = 20\<rparr> sample_tcs = Inr (20, s')"
proof -
  have "map_sum (\<lambda>e. e) fst (Convert sample_tcx \<lparr>mx_Sender = ''alice'', mx_MinAmount = 50, mx_MaxAmount = 200\<rparr> sample_tcs) = Inr 100"
    "map_sum (\<lambda>e. e) fst (Convert sample_tcx \<lparr>mx_Sender = ''alice'', mx_MinAmount = 50, mx_MaxAmount = 20\<rparr> sample_tcs) = Inr 20"
    by code_simp+
  then show "\<exists>s'. Convert sample_tcx \<lparr>mx_Sender = ''alice'', mx_MinAmount = 50, mx_MaxAmount = 200\<rparr> sample_tcs = Inr (100, s')"
    "\<exists>s'. Convert sample_tcx \<lparr>mx_Sender = ''alice'', mx_MinAmount = 50, mx_MaxAmount = 20\<rparr> sample_tcs = Inr (20, s')"
    by (auto simp: map_sum_def split: sum.splits)
qed

end
