(* ===== verification/Fee.thy ===== *)
theory Fee
  imports Bank
begin

text \<open>
  \<^verbatim>\<open>x/fee\<close>: a transaction pays its fee in one denomination, the fee denomination or one of the bypass denominations, and a part of a fee in the fee
  denomination is burnt. The ante decorator of \<^verbatim>\<open>ante/fee.go\<close> and \<^verbatim>\<open>fee_checker.go\<close>, and \<^verbatim>\<open>keeper/burn.go\<close>.
\<close>

section \<open>Data and interfaces\<close>

text \<open>\<open>None\<close> is the nil decimal of a zero value.\<close>

record feeParams =
  fp_FeeDenom :: string
  fp_BurnRatio :: "dec option"
  fp_BypassDenoms :: "string list"

record 'b fes =
  fe_params :: "feeParams option"
  fe_bank :: 'b

text \<open>
  The bank (whose state \<open>'b\<close> here has the fee grants and the accounts as well), the decimals and coins of the SDK, the fee grant keeper, which may be
  absent.
\<close>

record 'b fex =
  fx_bank :: "'b bkx"
  fx_dec :: decx
  fx_roundInt :: "dec \<Rightarrow> int result"
  fx_coinsIsZero :: "coin list \<Rightarrow> bool"
  fx_coinsIsValid :: "coin list \<Rightarrow> bool"
  fx_isAnyGTE :: "coin list \<Rightarrow> coin list \<Rightarrow> bool"
  fx_decCoinsIsZero :: "decCoins \<Rightarrow> bool"
  fx_emitFeeBurnt :: "coin list \<Rightarrow> unit result"
  fx_feeCollectorSet :: bool
  fx_hasAccount :: "bytes \<Rightarrow> 'b \<Rightarrow> bool"
  fx_useGrantedFees :: "(bytes \<Rightarrow> bytes \<Rightarrow> coin list \<Rightarrow> bytes list \<Rightarrow> 'b \<Rightarrow> 'b result) option"
  fx_authority :: string

text \<open>A transaction that is a \<^verbatim>\<open>FeeTx\<close>, and what is read of the context.\<close>

record feetx =
  ft_Gas :: uint64
  ft_Fee :: "coin list"
  ft_FeePayer :: bytes
  ft_FeeGranter :: "bytes option"
  ft_Msgs :: "bytes list"

record feectx =
  cx_BlockHeight :: int
  cx_CheckTx :: bool
  cx_MinGasPrices :: decCoins

section \<open>Parameters\<close>

definition GetParams_fee :: "'b fes \<Rightarrow> feeParams" where
  "GetParams_fee s = (case fe_params s of None \<Rightarrow> \<lparr>fp_FeeDenom = [], fp_BurnRatio = None, fp_BypassDenoms = []\<rparr> | Some p \<Rightarrow> p)"

definition SetParams_fee :: "feeParams \<Rightarrow> 'b fes \<Rightarrow> 'b fes" where
  "SetParams_fee p s = s\<lparr>fe_params := Some p\<rparr>"

definition DefaultParams_fee :: feeParams where
  "DefaultParams_fee = \<lparr>fp_FeeDenom = ''fee'', fp_BurnRatio = Some (5 * 10 ^ 17), fp_BypassDenoms = [''stake'']\<rparr>"

definition Validate_params_fee :: "feeParams \<Rightarrow> unit result" where
  "Validate_params_fee p =
     (if fp_FeeDenom p = [] then Inl (Err ''fee denom cannot be empty'')
      else case fp_BurnRatio p of
          None \<Rightarrow> Inl (Panic ''nil decimal'')
        | Some r \<Rightarrow>
            if r < 0 \<or> r \<ge> dec_one then Inl (Err ''burn ratio must be positive and less than 1'')
            else if list_ex (\<lambda>denom. denom = []) (fp_BypassDenoms p) then Inl (Err ''bypass denom cannot be empty'')
            else Inr ())"

definition UpdateParams_fee :: "'b fex \<Rightarrow> string \<Rightarrow> feeParams \<Rightarrow> 'b fes \<Rightarrow> 'b fes result" where
  "UpdateParams_fee x authority params s =
     (if fx_authority x \<noteq> authority then Inl (Err ''expected gov account as only signer for proposal message'')
      else Inr (SetParams_fee params s))"

definition InitGenesis_fee :: "feeParams \<Rightarrow> 'b fes \<Rightarrow> 'b fes" where
  "InitGenesis_fee gs s = SetParams_fee gs s"

definition ExportGenesis_fee :: "'b fes \<Rightarrow> feeParams" where
  "ExportGenesis_fee s = GetParams_fee s"

section \<open>Burning\<close>

definition burn_fee :: "'b fex \<Rightarrow> feeParams \<Rightarrow> coin \<Rightarrow> 'b fes \<Rightarrow> 'b fes result" where
  "burn_fee x params fee s =
     (if c_Denom fee \<noteq> fp_FeeDenom params then Inr s
      else case fp_BurnRatio params of
          None \<Rightarrow> Inl (Panic ''nil decimal'')
        | Some burnRatio \<Rightarrow>
            bindR (d_mulInt (fx_dec x) burnRatio (c_Amount fee)) (\<lambda>m.
            bindR (d_truncateInt (fx_dec x) m) (\<lambda>burnAmount.
              if burnAmount = 0 then Inr s
              else
                bindR (d_newCoin (fx_dec x) (c_Denom fee) burnAmount) (\<lambda>burnCoin.
                bindR (bk_newCoins (fx_bank x) [burnCoin]) (\<lambda>burnCoins.
                bindR (case bk_betweenModules (fx_bank x) ''fee_collector'' ''fee'' burnCoins (fe_bank s) of
                    Inl (Err _) \<Rightarrow> Inl (Err ''insufficient funds'') | r \<Rightarrow> r) (\<lambda>b.
                bindR (bk_burn (fx_bank x) ''fee'' burnCoins b) (\<lambda>b.
                bindR (fx_emitFeeBurnt x burnCoins) (\<lambda>_. Inr (s\<lparr>fe_bank := b\<rparr>)))))))))"

definition Burn :: "'b fex \<Rightarrow> coin list \<Rightarrow> 'b fes \<Rightarrow> 'b fes result" where
  "Burn x fees s = foldR (burn_fee x (GetParams_fee s)) fees s"

section \<open>The fee checker\<close>

definition MaxInt64 :: int where "MaxInt64 = 9223372036854775807"

definition priority_of :: "int \<Rightarrow> coin \<Rightarrow> int \<Rightarrow> int result" where
  "priority_of gas c priority =
     (if gas = 0 then Inl (Panic ''division by zero'')
      else
        let gasPrice = go_div (c_Amount c) gas;
            p = (if - MaxInt64 - 1 \<le> gasPrice \<and> gasPrice \<le> MaxInt64 then gasPrice else MaxInt64)
        in Inr (if priority = 0 \<or> p < priority then p else priority))"

definition getTxPriority :: "coin list \<Rightarrow> int \<Rightarrow> int result" where
  "getTxPriority fee gas = foldR (priority_of gas) fee 0"

definition required_fee :: "'b fex \<Rightarrow> dec \<Rightarrow> deccoin \<Rightarrow> coin list \<Rightarrow> coin list result" where
  "required_fee x glDec gp requiredFees =
     bindR (d_mul (fx_dec x) (dc_Amount gp) glDec) (\<lambda>fee.
     bindR (d_ceil (fx_dec x) fee) (\<lambda>c.
     bindR (fx_roundInt x c) (\<lambda>n.
     bindR (d_newCoin (fx_dec x) (dc_Denom gp) n) (\<lambda>coin. Inr (requiredFees @ [coin])))))"

definition checkTxFeeWithValidatorMinGasPrices :: "'b fex \<Rightarrow> feectx \<Rightarrow> feetx \<Rightarrow> 'b fes \<Rightarrow> (coin list \<times> int) result" where
  "checkTxFeeWithValidatorMinGasPrices x ctx feeTx s =
     (let params = GetParams_fee s; feeCoins = ft_Fee feeTx; gas = sint (ft_Gas feeTx) in
      case feeCoins of
        [c] \<Rightarrow>
          if c_Denom c \<noteq> fp_FeeDenom params \<and> \<not> List.member (fp_BypassDenoms params) (c_Denom c) then Inl (Err ''invalid fee denomination'')
          else
            bindR (if cx_CheckTx ctx \<and> \<not> fx_decCoinsIsZero x (cx_MinGasPrices ctx) then
                     bindR (foldR (required_fee x (dec_of_int gas)) (cx_MinGasPrices ctx) []) (\<lambda>requiredFees.
                       if \<not> fx_isAnyGTE x feeCoins requiredFees then Inl (Err ''insufficient fees'') else Inr ())
                   else Inr ()) (\<lambda>_.
            bindR (getTxPriority feeCoins gas) (\<lambda>priority. Inr (feeCoins, priority)))
      | _ \<Rightarrow> Inl (Err ''only one fee denomination is allowed''))"

section \<open>The decorator\<close>

definition DeductFees :: "'b fex \<Rightarrow> bytes \<Rightarrow> coin list \<Rightarrow> 'b fes \<Rightarrow> 'b fes result" where
  "DeductFees x acc fees s =
     (if \<not> fx_coinsIsValid x fees then Inl (Err ''invalid fee amount'')
      else bindR (case bk_toModule (fx_bank x) acc ''fee_collector'' fees (fe_bank s) of
          Inl (Err _) \<Rightarrow> Inl (Err ''insufficient funds'') | r \<Rightarrow> r) (\<lambda>b. Burn x fees (s\<lparr>fe_bank := b\<rparr>)))"

definition checkDeductFee :: "'b fex \<Rightarrow> feetx \<Rightarrow> coin list \<Rightarrow> 'b fes \<Rightarrow> 'b fes result" where
  "checkDeductFee x feeTx fee s =
     (if \<not> fx_feeCollectorSet x then Inl (Err ''fee collector module account has not been set'')
      else
        bindR (case ft_FeeGranter feeTx of
            None \<Rightarrow> Inr (ft_FeePayer feeTx, s)
          | Some feeGranterAddr \<Rightarrow>
              (case fx_useGrantedFees x of
                 None \<Rightarrow> Inl (Err ''fee grants are not enabled'')
               | Some useGrantedFees \<Rightarrow>
                   bindR (if feeGranterAddr \<noteq> ft_FeePayer feeTx
                          then useGrantedFees feeGranterAddr (ft_FeePayer feeTx) fee (ft_Msgs feeTx) (fe_bank s) else Inr (fe_bank s)) (\<lambda>b.
                     Inr (feeGranterAddr, s\<lparr>fe_bank := b\<rparr>)))) (\<lambda>(deductFeesFrom, s).
          if \<not> fx_hasAccount x deductFeesFrom (fe_bank s) then Inl (Err ''fee payer address does not exist'')
          else if \<not> fx_coinsIsZero x fee then DeductFees x deductFeesFrom fee s
          else Inr s))"

text \<open>A transaction that is not a \<^verbatim>\<open>FeeTx\<close> is \<open>None\<close>; \<open>nxt\<close> is the next handler, which is given the priority.\<close>

definition AnteHandle_fee :: "'b fex \<Rightarrow> feectx \<Rightarrow> feetx option \<Rightarrow> bool \<Rightarrow> (int \<Rightarrow> 'b fes \<Rightarrow> 'r result) \<Rightarrow> 'b fes \<Rightarrow> 'r result" where
  "AnteHandle_fee x ctx tx simulate nxt s =
     (case tx of
        None \<Rightarrow> Inl (Err ''Tx must be a FeeTx'')
      | Some feeTx \<Rightarrow>
          if \<not> simulate \<and> cx_BlockHeight ctx > 0 \<and> ft_Gas feeTx = 0 then Inl (Err ''must provide positive gas'')
          else
            bindR (if \<not> simulate then checkTxFeeWithValidatorMinGasPrices x ctx feeTx s else Inr (ft_Fee feeTx, 0)) (\<lambda>(fee, priority).
            bindR (checkDeductFee x feeTx fee s) (\<lambda>s. nxt priority s)))"

section \<open>What a fee does\<close>

definition fee_ok :: "'b fex \<Rightarrow> bool" where
  "fee_ok x \<longleftrightarrow> bank_ok (fx_bank x) \<and> mulInt_ok (fx_dec x) \<and> truncateInt_ok (fx_dec x) \<and> newCoin_ok (fx_dec x)
     \<and> (\<forall>c. fx_coinsIsZero x [c] \<longrightarrow> c_Amount c = 0)"

definition burnt_part :: "feeParams \<Rightarrow> coin \<Rightarrow> int" where
  "burnt_part p c = (if c_Denom c = fp_FeeDenom p then go_div (the (fp_BurnRatio p) * c_Amount c) dec_one else 0)"

text \<open>The payer pays the fee; the collector gets it but for the burnt part, by which the supply decreases.\<close>

definition fee_paid :: "'b fex \<Rightarrow> bytes \<Rightarrow> coin \<Rightarrow> int \<Rightarrow> 'b \<Rightarrow> 'b \<Rightarrow> bool" where
  "fee_paid x payer c burnt b b' \<longleftrightarrow>
     (\<forall>n. bk_supply (fx_bank x) n b' = bk_supply (fx_bank x) n b - (if n = c_Denom c then burnt else 0))
     \<and> (\<forall>a n. bk_balance (fx_bank x) a n b' = bk_balance (fx_bank x) a n b
         - (if a = payer \<and> n = c_Denom c then c_Amount c else 0)
         + (if a = bk_moduleAddress (fx_bank x) ''fee_collector'' \<and> n = c_Denom c then c_Amount c - burnt else 0))"

lemma coins_in_single: "coins_in n [c] = (if c_Denom c = n then c_Amount c else 0)"
  by (simp add: coins_in_def)

lemma burn_fee_effect:
  assumes "fee_ok x" "burn_fee x p c s = Inr s'"
  shows "bk_supply (fx_bank x) n (fe_bank s') = bk_supply (fx_bank x) n (fe_bank s) - (if n = c_Denom c then burnt_part p c else 0)"
    "bk_balance (fx_bank x) a n (fe_bank s') = bk_balance (fx_bank x) a n (fe_bank s)
       - (if a = bk_moduleAddress (fx_bank x) ''fee_collector'' \<and> n = c_Denom c then burnt_part p c else 0)"
    "fe_params s' = fe_params s"
proof -
  have bk: "bank_ok (fx_bank x)" using assms(1) by (simp add: fee_ok_def)
  consider "burnt_part p c = 0" "s' = s"
    | b1 b2 cs where "bk_betweenModules (fx_bank x) ''fee_collector'' ''fee'' cs (fe_bank s) = Inr b1" "bk_burn (fx_bank x) ''fee'' cs b1 = Inr b2"
        "s' = s\<lparr>fe_bank := b2\<rparr>" "\<And>n. coins_in n cs = (if n = c_Denom c then burnt_part p c else 0)"
  proof (cases "c_Denom c = fp_FeeDenom p")
    case False
    then show ?thesis using assms(2) that(1) by (simp add: burn_fee_def burnt_part_def)
  next
    case True
    with assms(2) obtain r m k where r: "fp_BurnRatio p = Some r" "d_mulInt (fx_dec x) r (c_Amount c) = Inr m" "d_truncateInt (fx_dec x) m = Inr k"
      by (auto simp: burn_fee_def split: option.splits elim!: bindR_E)
    have k: "k = burnt_part p c" using assms(1) r True by (auto simp: fee_ok_def mulInt_ok_def truncateInt_ok_def burnt_part_def)
    show ?thesis
    proof (cases "k = 0")
      case True
      then show ?thesis using assms(2) r k \<open>c_Denom c = fp_FeeDenom p\<close> that(1) by (simp add: burn_fee_def)
    next
      case False
      with assms(2) r True obtain c1 cs b1 b2 where c1: "d_newCoin (fx_dec x) (c_Denom c) k = Inr c1" "bk_newCoins (fx_bank x) [c1] = Inr cs"
          "bk_betweenModules (fx_bank x) ''fee_collector'' ''fee'' cs (fe_bank s) = Inr b1" "bk_burn (fx_bank x) ''fee'' cs b1 = Inr b2" "s' = s\<lparr>fe_bank := b2\<rparr>"
        by (auto simp: burn_fee_def split: sum.splits fault.splits elim!: bindR_E)
      have "c1 = \<lparr>c_Denom = c_Denom c, c_Amount = k\<rparr>" using assms(1) c1(1) by (auto simp: fee_ok_def newCoin_ok_def)
      then have "coins_in n cs = (if n = c_Denom c then burnt_part p c else 0)" for n using bankD(6) [OF bk c1(2), of n] k by simp
      with c1 that(2) show ?thesis by blast
    qed
  qed
  note c = this
  show "bk_supply (fx_bank x) n (fe_bank s') = bk_supply (fx_bank x) n (fe_bank s) - (if n = c_Denom c then burnt_part p c else 0)"
    using c by cases (simp, use bankD(3) [OF bk] bankD(5) [OF bk] in \<open>fastforce simp: transferred_def issued_def\<close>)
  show "bk_balance (fx_bank x) a n (fe_bank s') = bk_balance (fx_bank x) a n (fe_bank s)
       - (if a = bk_moduleAddress (fx_bank x) ''fee_collector'' \<and> n = c_Denom c then burnt_part p c else 0)"
    using c
  proof cases
    case (2 b1 b2 cs)
    show ?thesis using bankD(3) [OF bk 2(1)] bankD(5) [OF bk 2(2)] 2(3,4) unfolding transferred_def issued_def by simp
  qed simp
  show "fe_params s' = fe_params s" using c by cases simp_all
qed

lemma DeductFees_effect:
  assumes "fee_ok x" "DeductFees x payer [c] s = Inr s'" "payer \<noteq> bk_moduleAddress (fx_bank x) ''fee_collector''"
  shows "fee_paid x payer c (burnt_part (GetParams_fee s) c) (fe_bank s) (fe_bank s')"
proof -
  have bk: "bank_ok (fx_bank x)" using assms(1) by (simp add: fee_ok_def)
  from assms(2) obtain b where b: "bk_toModule (fx_bank x) payer ''fee_collector'' [c] (fe_bank s) = Inr b" "Burn x [c] (s\<lparr>fe_bank := b\<rparr>) = Inr s'"
    by (auto simp: DeductFees_def split: if_splits sum.splits fault.splits elim!: bindR_E)
  have p: "GetParams_fee (s\<lparr>fe_bank := b\<rparr>) = GetParams_fee s" by (simp add: GetParams_fee_def)
  have "burn_fee x (GetParams_fee s) c (s\<lparr>fe_bank := b\<rparr>) = Inr s'" using b(2) by (auto simp: Burn_def p elim!: bindR_E)
  note e = burn_fee_effect [OF assms(1) this]
  show ?thesis using bankD(1) [OF bk b(1)] assms(3) unfolding fee_paid_def transferred_def e by (auto simp: coins_in_single)
qed

lemma AnteHandle_fee_effect:
  assumes "fee_ok x" "AnteHandle_fee x ctx (Some tx) False nxt s = Inr r" "ft_FeeGranter tx = None"
    and "ft_FeePayer tx \<noteq> bk_moduleAddress (fx_bank x) ''fee_collector''"
  shows "\<exists>c priority s'. ft_Fee tx = [c] \<and> (c_Denom c = fp_FeeDenom (GetParams_fee s) \<or> c_Denom c \<in> set (fp_BypassDenoms (GetParams_fee s)))
    \<and> nxt priority s' = Inr r \<and> fee_paid x (ft_FeePayer tx) c (burnt_part (GetParams_fee s) c) (fe_bank s) (fe_bank s')"
proof -
  from assms(2) obtain fee priority s' where f: "checkTxFeeWithValidatorMinGasPrices x ctx tx s = Inr (fee, priority)"
      "checkDeductFee x tx fee s = Inr s'" "nxt priority s' = Inr r"
    by (auto simp: AnteHandle_fee_def split: if_splits elim!: bindR_E)
  from f(1) obtain c where c: "ft_Fee tx = [c]" "fee = [c]" "c_Denom c = fp_FeeDenom (GetParams_fee s) \<or> c_Denom c \<in> set (fp_BypassDenoms (GetParams_fee s))"
    by (auto simp: checkTxFeeWithValidatorMinGasPrices_def Let_def split: list.splits if_splits elim!: bindR_E)
  have "DeductFees x (ft_FeePayer tx) [c] s = Inr s' \<or> fx_coinsIsZero x [c] \<and> s' = s"
    using f(2) c(2) assms(3) by (cases "fx_coinsIsZero x [c]") (simp_all add: checkDeductFee_def split: if_splits)
  then consider "DeductFees x (ft_FeePayer tx) [c] s = Inr s'" | "fx_coinsIsZero x [c]" "s' = s" by blast
  then have "fee_paid x (ft_FeePayer tx) c (burnt_part (GetParams_fee s) c) (fe_bank s) (fe_bank s')"
  proof cases
    case 1
    then show ?thesis using DeductFees_effect assms(1,4) by blast
  next
    case 2
    then have "c_Amount c = 0" using assms(1) by (simp add: fee_ok_def)
    then show ?thesis using 2 by (simp add: fee_paid_def burnt_part_def go_div_def)
  qed
  with c f(3) show ?thesis by blast
qed

lemma burnt_part_bounds:
  assumes "Validate_params_fee p = Inr ()" "0 \<le> c_Amount c"
  shows "0 \<le> burnt_part p c" "burnt_part p c \<le> c_Amount c"
proof -
  obtain r where r: "fp_BurnRatio p = Some r" "0 \<le> r" "r < dec_one"
    using assms(1) by (auto simp: Validate_params_fee_def split: if_splits option.splits)
  have "r * c_Amount c div dec_one \<le> c_Amount c"
  proof -
    have "r * c_Amount c \<le> c_Amount c * dec_one" using r assms(2) by (metis less_le mult.commute mult_right_mono)
    then have "r * c_Amount c div dec_one \<le> c_Amount c * dec_one div dec_one" by (intro zdiv_mono1) simp_all
    then show ?thesis by simp
  qed
  moreover have "0 \<le> r * c_Amount c" using r assms(2) by simp
  ultimately show "0 \<le> burnt_part p c" "burnt_part p c \<le> c_Amount c"
    using r assms(2) by (auto simp: burnt_part_def pos_imp_zdiv_nonneg_iff)
qed


section \<open>A concrete transaction\<close>

definition sample_fex :: "purse fex" where
  "sample_fex =
     \<lparr>fx_bank = sample_bank, fx_dec = sample_dec, fx_roundInt = d_truncateInt sample_dec, fx_coinsIsZero = list_all (\<lambda>c. c_Amount c = 0),
      fx_coinsIsValid = list_all (\<lambda>c. 0 < c_Amount c),
      fx_isAnyGTE = \<lambda>a b. list_ex (\<lambda>c. list_ex (\<lambda>d. c_Denom d = c_Denom c \<and> c_Amount d \<le> c_Amount c) b) a,
      fx_decCoinsIsZero = list_all (\<lambda>c. dc_Amount c = 0), fx_emitFeeBurnt = \<lambda>_. Inr (), fx_feeCollectorSet = True,
      fx_hasAccount = \<lambda>_ _. True, fx_useGrantedFees = None, fx_authority = ''gov''\<rparr>"

definition sample_fes :: "purse fes" where
  "sample_fes = \<lparr>fe_params = Some \<lparr>fp_FeeDenom = ''urise'', fp_BurnRatio = Some (5 * 10 ^ 17), fp_BypassDenoms = [''uvrise'']\<rparr>,
     fe_bank = \<lparr>pu_balance = \<lambda>a n. if a = map of_char ''alice'' then 1000 else 0, pu_supply = \<lambda>_. 1000\<rparr>\<rparr>"

definition sample_feetx :: feetx where
  "sample_feetx = \<lparr>ft_Gas = 100, ft_Fee = [\<lparr>c_Denom = ''urise'', c_Amount = 301\<rparr>], ft_FeePayer = map of_char ''alice'', ft_FeeGranter = None, ft_Msgs = []\<rparr>"

definition sample_feectx :: feectx where
  "sample_feectx = \<lparr>cx_BlockHeight = 5, cx_CheckTx = True, cx_MinGasPrices = [\<lparr>dc_Denom = ''urise'', dc_Amount = 3 * 10 ^ 18\<rparr>]\<rparr>"

lemma sample_fee_ok: "fee_ok sample_fex"
  using sample_bank_ok sample_dec_ok by (simp add: fee_ok_def sample_fex_def)

lemma sample_ante_fee: "AnteHandle_fee sample_fex sample_feectx (Some sample_feetx) False (\<lambda>p s. Inr (p, pu_supply (fe_bank s) ''urise'')) sample_fes = Inr (3, 850)"
  by code_simp

end
