(* ===== verification/ShareProof.thy ===== *)
theory ShareProof
  imports DataAvailability
begin

text \<open>
  \<^verbatim>\<open>pkg/proof\<close>: proofs that shares, or a transaction, are included in the data root of a block, and the two queries that
  return them. A proof has, for each row the range touches, the Merkle proof of the row root and the proof of the shares in the row's tree.
  Rows of the extended square (rsmt2d), the trees of the rows (nmt), the Merkle proofs and the encoding of blocks and proofs (cometbft) are the
  functions of the record \<open>spx\<close>.
\<close>

section \<open>Data and interfaces\<close>

record NMTProof =
  np_Start :: int
  np_End :: int
  np_Nodes :: "bytes list"
  np_LeafHash :: bytes

record 'm RowProof =
  rp_RowRoots :: "bytes list"
  rp_Proofs :: "'m list"
  rp_StartRow :: uint32
  rp_EndRow :: uint32

record 'm ShareProof =
  sp_RowProof :: "'m RowProof"
  sp_Data :: "bytes list"
  sp_ShareProofs :: "NMTProof list"
  sp_NamespaceID :: bytes
  sp_NamespaceVersion :: uint32

record block =
  bl_Txs :: "bytes list"
  bl_AppVersion :: uint64

record ('e, 't, 'm) spx =
  px_sq :: ext
  px_da :: "'e dax"
  px_row :: "'e \<Rightarrow> uint64 \<Rightarrow> bytes list result"
  px_proofs :: "bytes list \<Rightarrow> 'm list"
  px_nmt :: 't
  px_push :: "'t \<Rightarrow> bytes \<Rightarrow> 't result"
  px_root :: "'t \<Rightarrow> bytes result"
  px_prove :: "'t \<Rightarrow> int \<Rightarrow> int \<Rightarrow> NMTProof result"
  px_block :: "bytes \<Rightarrow> block result"
  px_dataFromProto :: "bytes list \<Rightarrow> bytes list result"
  px_marshal :: "'m ShareProof \<Rightarrow> bytes result"

section \<open>Proofs of shares\<close>

definition index_int :: "'a list \<Rightarrow> int \<Rightarrow> 'a result" where
  "index_int xs i = (if i < 0 then Inl (Panic ''index out of range'') else index xs (nat i))"

definition makeslice :: "int \<Rightarrow> unit result" where
  "makeslice n = (if n < 0 then Inl (Panic ''makeslice: len out of range'') else Inr ())"

definition wrap_int32 :: "int \<Rightarrow> int" where
  "wrap_int32 x = signed_take_bit 31 x"

text \<open>One turn of the loop over the rows: \<open>i\<close> is the index in \<^verbatim>\<open>rows\<close>, \<open>n\<close> their number.\<close>

definition row_proof :: "('e, 't, 'm) spx \<Rightarrow> int \<Rightarrow> int \<Rightarrow> int \<Rightarrow> bytes list \<Rightarrow> nat \<Rightarrow> nat \<times> Share list \<Rightarrow> (bytes list \<times> NMTProof) result" where
  "row_proof x squareSize startLeaf endLeaf rowRoots n = (\<lambda>(i, row).
     bindR (NewErasuredNamespacedMerkleTree (px_nmt x) (word_of_int squareSize) (of_nat i)) (\<lambda>tree.
     bindR (foldR (\<lambda>share tree. Push_w (px_push x) tree (ToBytes_sh share)) row tree) (\<lambda>tree.
     bindR (Root_w (px_root x) tree) (\<lambda>root.
     bindR (index rowRoots i) (\<lambda>rowRoot.
       if rowRoot \<noteq> root then Inl (Err ''eds row root is different than tree root'')
       else
         let startLeafPos = (if i > 0 then 0 else startLeaf);
             endLeafPos = (if i \<noteq> n - 1 then squareSize - 1 else endLeaf)
         in bindR (slice_int row startLeafPos (endLeafPos + 1)) (\<lambda>part.
            bindR (ProveRange_w (px_prove x) tree startLeafPos (endLeafPos + 1)) (\<lambda>proof.
              Inr (ToBytes part, \<lparr>np_Start = wrap_int32 (np_Start proof), np_End = wrap_int32 (np_End proof),
                np_Nodes = np_Nodes proof, np_LeafHash = np_LeafHash proof\<rparr>))))))))"

definition add_row :: "('a \<Rightarrow> (bytes list \<times> NMTProof) result) \<Rightarrow> 'a \<Rightarrow> bytes list \<times> NMTProof list \<Rightarrow> (bytes list \<times> NMTProof list) result" where
  "add_row f r = (\<lambda>(rawShares, shareProofs). bindR (f r) (\<lambda>(raw, proof). Inr (rawShares @ raw, shareProofs @ [proof])))"

definition NewShareInclusionProof :: "('e, 't, 'm) spx \<Rightarrow> Square \<Rightarrow> Namespace \<Rightarrow> Range \<Rightarrow> 'm ShareProof result" where
  "NewShareInclusionProof x dataSquare namespace shareRange =
     bindR (Size_sq dataSquare) (\<lambda>squareSize.
       if squareSize = 0 then Inl (Panic ''integer divide by zero'')
       else
         let startRow = go_div (Start shareRange) squareSize;
             endRow = go_div (wrap_int (End shareRange - 1)) squareSize;
             startLeaf = go_mod (Start shareRange) squareSize;
             endLeaf = go_mod (wrap_int (End shareRange - 1)) squareSize
         in
         bindR (ExtendShares (px_da x) (ToBytes dataSquare)) (\<lambda>eds.
         bindR (d_rowRoots (px_da x) eds) (\<lambda>edsRowRoots.
         bindR (d_colRoots (px_da x) eds) (\<lambda>edsColRoots.
         let allProofs = px_proofs x (edsRowRoots @ edsColRoots) in
         bindR (makeslice (endRow - startRow + 1)) (\<lambda>_.
         bindR (mapR (\<lambda>i. bindR (index_int allProofs i) (\<lambda>p. bindR (index_int edsRowRoots i) (\<lambda>r. Inr (p, r)))) [startRow..endRow]) (\<lambda>picked.
         bindR (mapR (\<lambda>i. bindR (px_row x eds (word_of_int i)) FromBytes) [startRow..endRow]) (\<lambda>rows.
         let rowRoots = map snd picked in
         bindR (foldR (add_row (row_proof x squareSize startLeaf endLeaf rowRoots (length rows))) (enumerate 0 rows) ([], []))
           (\<lambda>(rawShares, shareProofs).
             Inr \<lparr>sp_RowProof = \<lparr>rp_RowRoots = rowRoots, rp_Proofs = map fst picked, rp_StartRow = word_of_int startRow, rp_EndRow = word_of_int endRow\<rparr>,
               sp_Data = rawShares, sp_ShareProofs = shareProofs, sp_NamespaceID = ns_ID namespace,
               sp_NamespaceVersion = ucast (ns_Version namespace)\<rparr>))))))))"

section \<open>Proofs of transactions\<close>

definition getTxNamespace :: "(bytes \<Rightarrow> BlobTx result) \<Rightarrow> bytes \<Rightarrow> Namespace" where
  "getTxNamespace unmarshal tx = (if snd (UnmarshalBlobTx unmarshal tx) then PayForBlobNamespace else TxNamespace)"

definition NewTxInclusionProof :: "('e, 't, 'm) spx \<Rightarrow> bytes list \<Rightarrow> uint64 \<Rightarrow> uint64 \<Rightarrow> 'm ShareProof result" where
  "NewTxInclusionProof x txs txIndex appVersion =
     (if uint txIndex \<ge> int (length txs) then Inl (Err ''txIndex out of bounds'')
      else
        bindR (NewBuilder_sq (px_sq x) (SquareSizeUpperBound appVersion) appVersion txs) (\<lambda>builder.
        bindR (Export_sq (px_sq x) builder) (\<lambda>(builder, dataSquare).
        bindR (FindTxShareRange (px_sq x) builder (sint txIndex)) (\<lambda>(_, shareRange).
          let namespace = getTxNamespace (x_unmarshal (px_sq x)) (txs ! unat txIndex)
          in NewShareInclusionProof x dataSquare namespace shareRange))))"

section \<open>Queries\<close>

text \<open>\<^verbatim>\<open>strconv.ParseInt(s, 10, 64)\<close>.\<close>

definition is_digit :: "char \<Rightarrow> bool" where
  "is_digit c \<longleftrightarrow> 48 \<le> (of_char c :: nat) \<and> (of_char c :: nat) \<le> 57"

definition decimal :: "string \<Rightarrow> int" where
  "decimal s = fold (\<lambda>c n. 10 * n + (of_char c - 48)) s 0"

definition ParseInt10 :: "string \<Rightarrow> int result" where
  "ParseInt10 s =
     (let (neg, t) = (case s of [] \<Rightarrow> (False, [])
        | c # cs \<Rightarrow> if c = CHR ''-'' then (True, cs) else if c = CHR ''+'' then (False, cs) else (False, s))
      in if t = [] \<or> \<not> list_all is_digit t then Inl (Err ''invalid syntax'')
         else
           let n = (if neg then - decimal t else decimal t)
           in if - (2 ^ 63) \<le> n \<and> n < 2 ^ 63 then Inr n else Inl (Err ''value out of range''))"

definition QueryTxInclusionProof :: "('e, 't, 'm) spx \<Rightarrow> string list \<Rightarrow> bytes \<Rightarrow> bytes result" where
  "QueryTxInclusionProof x path reqData =
     (case path of
        [p] \<Rightarrow>
          bindR (ParseInt10 p) (\<lambda>i.
          bindR (case px_block x reqData of Inl (Err _) \<Rightarrow> Inl (Err ''error reading block'') | r \<Rightarrow> r) (\<lambda>pbb.
          bindR (panic_on_error (px_dataFromProto x (bl_Txs pbb))) (\<lambda>txs.
          bindR (NewTxInclusionProof x txs (word_of_int i) (bl_AppVersion pbb)) (px_marshal x))))
      | _ \<Rightarrow> Inl (Err ''expected query path length: 1''))"

text \<open>\<^verbatim>\<open>ParseNamespace\<close> indexes the first share of the range before it knows that there is one.\<close>

definition ParseNamespace :: "Share list \<Rightarrow> int \<Rightarrow> int \<Rightarrow> Namespace result" where
  "ParseNamespace rawShares startShare endShare =
     (if startShare < 0 then Inl (Err ''start share should be positive'')
      else if endShare < 0 then Inl (Err ''end share should be positive'')
      else if endShare < startShare then Inl (Err ''end share cannot be lower than starting share'')
      else if endShare > int (length rawShares) then Inl (Err ''end share is higher than block shares'')
      else
        bindR (index_int rawShares startShare) (\<lambda>share.
        bindR (Namespace_sh share) (\<lambda>startShareNs.
        bindR (slice_int rawShares startShare endShare) (\<lambda>part.
        bindR (foldR (\<lambda>share _. bindR (Namespace_sh share) (\<lambda>ns.
            if Bytes_ns startShareNs \<noteq> Bytes_ns ns then Inl (Err ''shares range contain different namespaces'') else Inr ())) part ()) (\<lambda>_.
          Inr startShareNs)))))"

definition QueryShareInclusionProof :: "('e, 't, 'm) spx \<Rightarrow> string list \<Rightarrow> bytes \<Rightarrow> bytes result" where
  "QueryShareInclusionProof x path reqData =
     (case path of
        [p, q] \<Rightarrow>
          bindR (ParseInt10 p) (\<lambda>beginShare.
          bindR (ParseInt10 q) (\<lambda>endShare.
          bindR (case px_block x reqData of Inl (Err _) \<Rightarrow> Inl (Err ''error reading block'') | r \<Rightarrow> r) (\<lambda>pbb.
          bindR (Construct (px_sq x) (bl_Txs pbb) (bl_AppVersion pbb) (SquareSizeUpperBound (bl_AppVersion pbb))) (\<lambda>dataSquare.
          bindR (ParseNamespace dataSquare beginShare endShare) (\<lambda>nID.
          bindR (NewShareInclusionProof x dataSquare nID (NewRange beginShare endShare)) (px_marshal x))))))
      | _ \<Rightarrow> Inl (Err ''expected query path length: 2''))"

section \<open>The namespace of a range\<close>

lemma ParseNamespace_iff:
  "ParseNamespace shares a b = Inr ns \<longleftrightarrow>
     0 \<le> a \<and> a \<le> b \<and> b \<le> int (length shares) \<and> a < int (length shares) \<and> Namespace_sh (shares ! nat a) = Inr ns
     \<and> (\<forall>i. a \<le> int i \<longrightarrow> int i < b \<longrightarrow> Namespace_sh (shares ! i) = Inr ns)"
  (is "_ \<longleftrightarrow> ?r")
proof (cases "0 \<le> a \<and> a \<le> b \<and> b \<le> int (length shares) \<and> a < int (length shares)")
  case True
  then have nat: "nat a < length shares" "nat a \<le> nat b" "nat b \<le> length shares" by auto
  let ?part = "take (nat b - nat a) (drop (nat a) shares)"
  have "set ?part = {shares ! i | i. nat a \<le> i \<and> i < nat b}"
  proof -
    have "?part = map (nth shares) [nat a..<nat b]" using True
      by (intro nth_equalityI) auto
    then show ?thesis by auto
  qed
  then have m: "(\<forall>s\<in>set ?part. Namespace_sh s = Inr n) \<longleftrightarrow> (\<forall>i. a \<le> int i \<longrightarrow> int i < b \<longrightarrow> Namespace_sh (shares ! i) = Inr n)" for n
    using True by (auto simp: zless_nat_eq_int_zless nat_le_iff)
  have f: "foldR (\<lambda>share _. bindR (Namespace_sh share) (\<lambda>ns.
      if Bytes_ns n \<noteq> Bytes_ns ns then Inl (Err e) else Inr ())) ss () = Inr () \<longleftrightarrow> (\<forall>s\<in>set ss. Namespace_sh s = Inr n)" for n ss e
    unfolding foldR_check_iff by (intro ball_cong refl) (auto elim!: bindR_E split: if_splits)
  show ?thesis
  proof (cases "Namespace_sh (shares ! nat a)")
    case (Inr n)
    have "bindR r (\<lambda>_. Inr n) = Inr ns \<longleftrightarrow> r = Inr () \<and> n = ns" for r :: "unit result" by (cases r) auto
    moreover have "ParseNamespace shares a b = bindR (foldR (\<lambda>share _. bindR (Namespace_sh share) (\<lambda>ns.
        if Bytes_ns n \<noteq> Bytes_ns ns then Inl (Err ''shares range contain different namespaces'') else Inr ())) ?part ()) (\<lambda>_. Inr n)"
      using True Inr nat by (simp add: ParseNamespace_def index_int_def slice_int_def)
    ultimately have "ParseNamespace shares a b = Inr ns \<longleftrightarrow> (\<forall>i. a \<le> int i \<longrightarrow> int i < b \<longrightarrow> Namespace_sh (shares ! i) = Inr n) \<and> n = ns"
      by (simp only: f m)
    then show ?thesis using True Inr by (metis sum.inject(2))
  qed (use True nat in \<open>simp add: ParseNamespace_def index_int_def\<close>)
next
  case False
  have "ParseNamespace shares a b \<noteq> Inr ns"
    using False by (auto simp: ParseNamespace_def index_int_def index_def elim!: bindR_E)
  with False show ?thesis by auto
qed

lemma ParseNamespace_panics:
  assumes "\<forall>s\<in>set shares. \<exists>ns. Namespace_sh s = Inr ns"
  shows "(\<exists>m. ParseNamespace shares a b = Inl (Panic m)) \<longleftrightarrow> a = int (length shares) \<and> b = a"
proof (cases "0 \<le> a \<and> a \<le> b \<and> b \<le> int (length shares)")
  case True
  show ?thesis
  proof (cases "a < int (length shares)")
    case lt: True
    let ?part = "take (nat b - nat a) (drop (nat a) shares)"
    obtain ns where ns: "Namespace_sh (shares ! nat a) = Inr ns" using assms lt True by (metis nat_less_iff nth_mem)
    have "set ?part \<subseteq> set shares" by (meson order_trans set_drop_subset set_take_subset)
    then have p: "\<forall>s\<in>set ?part. \<exists>ns. Namespace_sh s = Inr ns" using assms by blast
    have "foldR (\<lambda>share _. bindR (Namespace_sh share) (\<lambda>ns.
      if Bytes_ns n \<noteq> Bytes_ns ns then Inl (Err e) else Inr ())) ss () \<noteq> Inl (Panic m)" if "\<forall>s\<in>set ss. \<exists>ns. Namespace_sh s = Inr ns" for n e ss m
      using that by (induction ss) (auto split: if_splits)
    from this [OF p] show ?thesis using True lt ns
      by (auto simp: ParseNamespace_def index_int_def slice_int_def bindR_def split: sum.splits)
  next
    case False
    then have "a = int (length shares)" "b = a" using True by auto
    then show ?thesis by (simp add: ParseNamespace_def index_int_def index_def)
  qed
next
  case False
  then show ?thesis by (auto simp: ParseNamespace_def)
qed

section \<open>The parts of a range in the rows\<close>

definition seg :: "'a list \<Rightarrow> nat \<Rightarrow> nat \<Rightarrow> 'a list" where
  "seg xs a b = take (b - a) (drop a xs)"

lemma seg_append:
  assumes "a \<le> b" "b \<le> c"
  shows "seg xs a b @ seg xs b c = seg xs a c"
proof -
  have "take (b - a) (drop a xs) @ take (c - b) (drop (b - a) (drop a xs)) = take (b - a + (c - b)) (drop a xs)"
    by (rule take_add [symmetric])
  then show ?thesis using assms by (simp add: seg_def)
qed

lemma seg_seg: "q \<le> b - a \<Longrightarrow> seg (seg xs a b) p q = seg xs (a + p) (a + q)"
  by (auto simp: seg_def drop_take take_take min_def add.commute)

lemma rows_of_range:
  fixes n :: nat
  assumes "0 < n" "a < b" "sr = a div n" "er = (b - 1) div n" "sr \<le> m" "m \<le> er"
  shows "concat (map (\<lambda>i. seg xs (if i = sr then a else i * n) (if i = er then b else Suc i * n)) [sr..<Suc m])
    = seg xs a (if m = er then b else Suc m * n)"
  using assms(5,6)
proof (induction m rule: dec_induct)
  case base
  show ?case by simp
next
  case (step m)
  let ?f = "\<lambda>i. seg xs (if i = sr then a else i * n) (if i = er then b else Suc i * n)"
  have a: "a \<le> Suc m * n" using step(1) assms(1,3)
    by (metis Suc_le_mono div_less_iff_less_mult less_Suc_eq_le less_or_eq_imp_le)
  have "Suc m * n \<le> b" if "Suc m = er"
    unfolding that assms(4) using div_times_less_eq_dividend [of "b - 1" n] by linarith
  then have b: "Suc m * n \<le> (if Suc m = er then b else Suc (Suc m) * n)" by (simp del: mult_Suc)
  have "concat (map ?f [sr..<Suc (Suc m)]) = concat (map ?f [sr..<Suc m]) @ ?f (Suc m)" using step(1) by simp
  also have "?f (Suc m) = seg xs (Suc m * n) (if Suc m = er then b else Suc (Suc m) * n)" using step(1) by simp
  also have "concat (map ?f [sr..<Suc m]) = seg xs a (Suc m * n)" using step.IH step.prems by simp
  finally show ?case unfolding seg_append [OF a b] .
qed

lemma upto_nat: "[int a..int b] = map int [a..<Suc b]"
proof -
  have "[int a..int a + int k - 1] = map int [a..<a + k]" for k
    by (induction k) (simp_all add: upto_rec2 add.commute)
  from this [of "Suc b - a"] show ?thesis by (cases "a \<le> Suc b") simp_all
qed

lemma foldR_add_row:
  assumes "mapR f xs = Inr ys"
  shows "foldR (add_row f) xs (raw, ps) = Inr (raw @ concat (map fst ys), ps @ map snd ys)"
  using assms
proof (induction xs arbitrary: ys raw ps)
  case (Cons x xs)
  then show ?case by (auto simp: add_row_def elim!: bindR_E)
qed simp

section \<open>The proof\<close>

text \<open>
  What is documented of the extended square and of the trees. Its rows extend the rows of the square to twice the width; the root of a row is that of the wrapper's
  tree, whose constructor is given to rsmt2d; a tree proves every range of its leaves. There is a Merkle proof for every leaf.
\<close>

definition row_tree :: "('e, 't, 'm) spx \<Rightarrow> nat \<Rightarrow> nat \<Rightarrow> bytes list \<Rightarrow> 't result" where
  "row_tree x n i cells = foldR (\<lambda>l t. px_push x t l) (axis_leaves n i cells) (px_nmt x)"

definition row_ok :: "('e, 't, 'm) spx \<Rightarrow> nat \<Rightarrow> bytes list \<Rightarrow> 'e \<Rightarrow> bytes list \<Rightarrow> nat \<Rightarrow> bytes list \<Rightarrow> 't \<Rightarrow> bool" where
  "row_ok x n s e roots i cells t \<longleftrightarrow>
     px_row x e (word_of_int (int i)) = Inr cells \<and> length cells = 2 * n \<and> (\<forall>c\<in>set cells. length c = 512)
     \<and> take n cells = seg s (i * n) (Suc i * n) \<and> row_tree x n i cells = Inr t \<and> px_root x t = Inr (roots ! i)
     \<and> (\<forall>a b. 0 \<le> a \<longrightarrow> a < b \<longrightarrow> b \<le> int (2 * n) \<longrightarrow> (\<exists>p. px_prove x t a b = Inr p))"

definition rows_ok :: "('e, 't, 'm) spx \<Rightarrow> nat \<Rightarrow> bytes list \<Rightarrow> 'e \<Rightarrow> bytes list \<Rightarrow> bool" where
  "rows_ok x n s e roots \<longleftrightarrow> length roots = 2 * n \<and> (\<forall>i<n. \<exists>cells t. row_ok x n s e roots i cells t)"

definition proofs_ok :: "('e, 't, 'm) spx \<Rightarrow> bool" where
  "proofs_ok x \<longleftrightarrow> (\<forall>l. length (px_proofs x l) = length l)
     \<and> (\<forall>s j. j \<le> 9 \<longrightarrow> length s = 2 ^ j * 2 ^ j \<longrightarrow> (\<forall>sh\<in>set s. length sh = 512) \<longrightarrow> sorted (map (take NamespaceSize) s) \<longrightarrow>
         (\<exists>e rows cols. d_compute (px_da x) s (word_of_int (2 ^ j)) = Inr e \<and> d_rowRoots (px_da x) e = Inr rows
           \<and> d_colRoots (px_da x) e = Inr cols \<and> rows_ok x (2 ^ j) s e rows))"

definition int32_proof :: "NMTProof \<Rightarrow> NMTProof" where
  "int32_proof p = p\<lparr>np_Start := wrap_int32 (np_Start p), np_End := wrap_int32 (np_End p)\<rparr>"

text \<open>The tree is built with the index of the row in the range in place of its index in the square; for the rows of the original square it is the same.\<close>

lemma axis_leaves_original: "i < n \<Longrightarrow> k < n \<Longrightarrow> axis_leaves n i cells = axis_leaves n k cells"
  by (simp add: axis_leaves_def erasured_leaf_def)

lemma FromBytes_full: "\<forall>c\<in>set cells. length c = 512 \<Longrightarrow> FromBytes cells = Inr (map (\<lambda>c. \<lparr>share_data = c\<rparr>) cells)"
  unfolding FromBytes_def by (rule mapR_map) (simp add: NewShare_def validateSize_def)

lemma row_proof_ok:
  assumes "row_ok x n s e roots i cells t" "0 < n" "n \<le> 512" "i < n" "k < n" "rr ! k = roots ! i" "k < length rr"
    and "lo = (if k > 0 then 0 else sl)" "hi = (if k \<noteq> m - 1 then n - 1 else el) + 1" "lo < hi" "hi \<le> n"
  shows "\<exists>p. px_prove x t (int lo) (int hi) = Inr p
    \<and> row_proof x (int n) (int sl) (int el) rr m (k, map (\<lambda>c. \<lparr>share_data = c\<rparr>) cells) = Inr (seg s (i * n + lo) (i * n + hi), int32_proof p)"
proof -
  have c: "length cells = 2 * n" "\<forall>c\<in>set cells. length c = 512" "take n cells = seg s (i * n) (Suc i * n)" "row_tree x n i cells = Inr t"
      "px_root x t = Inr (roots ! i)" "\<And>a b. 0 \<le> a \<Longrightarrow> a < b \<Longrightarrow> b \<le> int (2 * n) \<Longrightarrow> \<exists>p. px_prove x t a b = Inr p"
    using assms(1) by (auto simp: row_ok_def)
  obtain p where p: "px_prove x t (int lo) (int hi) = Inr p" using c(6) [of "int lo" "int hi"] assms(10,11) by auto
  let ?w = "\<lparr>w_squareSize = of_nat n, w_tree = px_nmt x, w_axisIndex = of_nat k, w_shareIndex = 0\<rparr> :: 'b ErasuredNamespacedMerkleTree"
  have "(of_nat n :: uint64) \<noteq> 0" using assms(2,3) unat_uint64 [of n] by auto
  then have w: "NewErasuredNamespacedMerkleTree (px_nmt x) (of_nat n) (of_nat k) = Inr ?w" by (simp add: NewErasuredNamespacedMerkleTree_def)
  have t: "foldR (\<lambda>l t. px_push x t l) (axis_leaves n k cells) (px_nmt x) = Inr t"
    using c(4) axis_leaves_original [OF assms(4,5)] by (simp add: row_tree_def)
  have "foldR (\<lambda>c w. Push_w (px_push x) w c) cells ?w = Inr (?w\<lparr>w_tree := t, w_shareIndex := of_nat (length cells)\<rparr>)"
    using axis_leaves_pushed [OF w [folded NewTree_def], of cells "px_push x"] assms(3,5) c(1,2) t by simp
  moreover have "foldR (\<lambda>share tree. Push_w (px_push x) tree (ToBytes_sh share)) (map (\<lambda>c. \<lparr>share_data = c\<rparr>) cs) w
      = foldR (\<lambda>c w. Push_w (px_push x) w c) cs w" for cs w
    by (induction cs arbitrary: w) (simp_all add: ToBytes_sh_def bindR_def split: sum.split)
  ultimately have f: "foldR (\<lambda>share tree. Push_w (px_push x) tree (ToBytes_sh share)) (map (\<lambda>c. \<lparr>share_data = c\<rparr>) cells) ?w
      = Inr (?w\<lparr>w_tree := t, w_shareIndex := of_nat (length cells)\<rparr>)" by simp
  have pos: "(if k > 0 then 0 else int sl) = int lo" "(if k \<noteq> m - 1 then int n - 1 else int el) + 1 = int hi"
    using assms(2,8,9) by auto
  have sl: "slice_int (map (\<lambda>c. \<lparr>share_data = c\<rparr>) cells) (int lo) (int hi) = Inr (map (\<lambda>c. \<lparr>share_data = c\<rparr>) (seg cells lo hi))"
    using assms(10,11) c(1) by (simp add: slice_int_def seg_def drop_map take_map)
  have "seg cells lo hi = seg (take n cells) lo hi" using assms(10,11) by (simp add: seg_def drop_take take_take min_def)
  also have "\<dots> = seg s (i * n + lo) (i * n + hi)" using c(3) assms(11) seg_seg [of hi "Suc i * n" "i * n" s lo] by simp
  finally have "ToBytes (map (\<lambda>c. \<lparr>share_data = c\<rparr>) (seg cells lo hi)) = seg s (i * n + lo) (i * n + hi)" by (simp add: ToBytes_def comp_def)
  then have "row_proof x (int n) (int sl) (int el) rr m (k, map (\<lambda>c. \<lparr>share_data = c\<rparr>) cells) = Inr (seg s (i * n + lo) (i * n + hi), int32_proof p)"
    using w f c(5) assms(6,7) unfolding row_proof_def Let_def case_prod_conv pos by (cases p) (simp add: p sl Root_w_def ProveRange_w_def int32_proof_def)
  with p show ?thesis by blast
qed

text \<open>A range of the shares of a square that is ready for the trees has a proof, and this is what it holds.\<close>

definition first_row :: "nat \<Rightarrow> nat \<Rightarrow> nat" where
  "first_row n a = a div n"

definition last_row :: "nat \<Rightarrow> nat \<Rightarrow> nat" where
  "last_row n b = (b - 1) div n"

definition proves_range :: "('e, 't, 'm) spx \<Rightarrow> nat \<Rightarrow> Square \<Rightarrow> 'e \<Rightarrow> bytes list \<Rightarrow> bytes list \<Rightarrow> nat \<Rightarrow> nat \<Rightarrow> 'm ShareProof \<Rightarrow> bool" where
  "proves_range x n sq e rows cols a b p \<longleftrightarrow>
     (let sr = first_row n a; er = last_row n b in
      sp_Data p = map share_data (seg sq a b)
      \<and> rp_StartRow (sp_RowProof p) = of_nat sr \<and> rp_EndRow (sp_RowProof p) = of_nat er
      \<and> rp_RowRoots (sp_RowProof p) = seg rows sr (Suc er)
      \<and> rp_Proofs (sp_RowProof p) = seg (px_proofs x (rows @ cols)) sr (Suc er)
      \<and> list_all2 (\<lambda>i q. \<exists>cells t r. row_ok x n (ToBytes sq) e rows i cells t
            \<and> px_prove x t (int (if i = sr then a mod n else 0)) (int (if i = er then (b - 1) mod n + 1 else n)) = Inr r \<and> q = int32_proof r)
          [sr..<Suc er] (sp_ShareProofs p))"

lemma range_rows:
  fixes n :: nat
  assumes "0 < n" "a < b" "b \<le> n * n"
  shows "first_row n a \<le> last_row n b" "last_row n b < n"
    "i = first_row n a \<Longrightarrow> i * n + a mod n = a" "i = last_row n b \<Longrightarrow> i * n + ((b - 1) mod n + 1) = b"
    "first_row n a = last_row n b \<Longrightarrow> a mod n < (b - 1) mod n + 1"
proof -
  show "first_row n a \<le> last_row n b" unfolding first_row_def last_row_def using assms(2) by (intro div_le_mono) simp
  show "last_row n b < n" using assms by (auto simp: last_row_def div_less_iff_less_mult)
  show "i * n + a mod n = a" if "i = first_row n a" using that by (simp add: first_row_def)
  have b: "(b - 1) div n * n + (b - 1) mod n = b - 1" by simp
  then show "i * n + ((b - 1) mod n + 1) = b" if "i = last_row n b" using that assms(2) by (simp add: last_row_def)
  have "a div n * n + a mod n = a" by simp
  moreover have "a div n * n = (b - 1) div n * n" if "first_row n a = last_row n b" using that by (simp add: first_row_def last_row_def)
  ultimately show "a mod n < (b - 1) mod n + 1" if "first_row n a = last_row n b" using b assms(2) that by linarith
qed

lemma range_division:
  fixes n :: nat
  assumes "0 < n" "n \<le> 512" "a < b" "b \<le> n * n"
  shows "go_div (int a) (int n) = int (first_row n a)" "go_div (wrap_int (int b - 1)) (int n) = int (last_row n b)" "go_mod (int a) (int n) = int (a mod n)"
    "go_mod (wrap_int (int b - 1)) (int n) = int ((b - 1) mod n)"
proof -
  have "b \<le> 512 * 512" using assms(4) mult_le_mono [OF assms(2,2)] by linarith
  then have "wrap_int (int b - 1) = int (b - 1)" using assms(3) by (subst wrap_int_id) (auto simp: of_nat_diff)
  then show "go_div (int a) (int n) = int (first_row n a)" "go_div (wrap_int (int b - 1)) (int n) = int (last_row n b)" "go_mod (int a) (int n) = int (a mod n)"
    "go_mod (wrap_int (int b - 1)) (int n) = int ((b - 1) mod n)"
    using assms(1) by (simp_all add: first_row_def last_row_def zdiv_int zmod_int)
qed

text \<open>The proof of the \<open>k\<close>-th row of a range.\<close>

lemma range_row_proof:
  fixes n :: nat
  assumes "0 < n" "n \<le> 512" "a < b" "b \<le> n * n" "sr = first_row n a" "er = last_row n b" "k < Suc er - sr"
    and "row_ok x n s e rows (sr + k) cells t"
  shows "\<exists>p. px_prove x t (int (if k > 0 then 0 else a mod n)) (int (if sr + k = er then (b - 1) mod n + 1 else n)) = Inr p
    \<and> row_proof x (int n) (int (a mod n)) (int ((b - 1) mod n)) (map (nth rows) [sr..<Suc er]) (Suc er - sr) (k, map (\<lambda>c. \<lparr>share_data = c\<rparr>) cells)
      = Inr (seg s (if sr + k = sr then a else (sr + k) * n) (if sr + k = er then b else Suc (sr + k) * n), int32_proof p)"
proof -
  note r = range_rows [OF assms(1,3,4), folded assms(5,6)]
  let ?lo = "if k > 0 then 0 else a mod n" and ?hi = "(if k \<noteq> Suc er - sr - 1 then n - 1 else (b - 1) mod n) + 1"
  have k: "sr + k < n" "k < n" "map (nth rows) [sr..<Suc er] ! k = rows ! (sr + k)" "k < length (map (nth rows) [sr..<Suc er])"
      "k = Suc er - sr - 1 \<longleftrightarrow> sr + k = er"
    using assms(7) r(1,2) by (simp_all del: upt_Suc) arith+
  have hi: "?hi = (if sr + k = er then (b - 1) mod n + 1 else n)" using k(5) assms(1) by auto
  have lh: "?lo < ?hi" "?hi \<le> n"
    using r(5) assms(1) mod_less_divisor [OF assms(1), of a] mod_less_divisor [OF assms(1), of "b - 1"] unfolding hi by auto
  have "(sr + k) * n + ?lo = (if sr + k = sr then a else (sr + k) * n)" using r(3) [of sr] by auto
  moreover have "(sr + k) * n + ?hi = (if sr + k = er then b else Suc (sr + k) * n)" unfolding hi using r(4) [of "sr + k"] by auto
  ultimately show ?thesis using row_proof_ok [OF assms(8,1,2) k(1-4) refl refl lh] unfolding hi by simp
qed

lemma NewShareInclusionProof_ok:
  assumes "proofs_ok x" "j \<le> 9" "length sq = 2 ^ j * 2 ^ j" "\<forall>s\<in>set sq. length (share_data s) = 512"
    and "sorted (map (\<lambda>s. take NamespaceSize (share_data s)) sq)" "a < b" "b \<le> length sq"
  shows "\<exists>p e rows cols. NewShareInclusionProof x sq ns (NewRange (int a) (int b)) = Inr p
    \<and> ExtendShares (px_da x) (ToBytes sq) = Inr e \<and> d_rowRoots (px_da x) e = Inr rows \<and> d_colRoots (px_da x) e = Inr cols
    \<and> proves_range x (2 ^ j) sq e rows cols a b p \<and> sp_NamespaceID p = ns_ID ns \<and> sp_NamespaceVersion p = ucast (ns_Version ns)"
proof -
  define n :: nat where "n = 2 ^ j"
  let ?s = "ToBytes sq" and ?sr = "first_row n a" and ?er = "last_row n b"
  have "n \<le> 2 ^ 9" unfolding n_def using assms(2) by (intro power_increasing) auto
  then have n: "0 < n" "n \<le> 512" "b \<le> n * n" using assms(3,7) by (auto simp: n_def)
  have s: "length ?s = 2 ^ j * 2 ^ j" "\<forall>sh\<in>set ?s. length sh = 512" "sorted (map (take NamespaceSize) ?s)"
    using assms(3-5) by (auto simp: ToBytes_def comp_def)
  with assms(1,2) obtain e rows cols where e: "d_compute (px_da x) ?s (word_of_int (2 ^ j)) = Inr e" "d_rowRoots (px_da x) e = Inr rows"
      "d_colRoots (px_da x) e = Inr cols" "rows_ok x n ?s e rows" unfolding proofs_ok_def n_def by blast
  have ext: "ExtendShares (px_da x) ?s = Inr e" using ExtendShares_square [OF s(1), of "px_da x"] assms(2) e(1) by simp
  have "(2::int) ^ j \<le> 2 ^ 62" using assms(2) by (intro power_increasing) auto
  then have size: "Size_sq sq = Inr (int n)" using da_SquareSize_square [of "2 ^ j" j] assms(3) by (simp add: Size_sq_def n_def)
  note r = range_rows [OF n(1) assms(6) n(3)]
  obtain C T where row: "\<And>i. i < n \<Longrightarrow> row_ok x n ?s e rows i (C i) (T i)" using e(4) unfolding rows_ok_def by metis
  have len: "length rows = 2 * n" "length (px_proofs x (rows @ cols)) \<ge> 2 * n" using e(4) assms(1) by (auto simp: rows_ok_def proofs_ok_def)
  note go = range_division [OF n(1,2) assms(6) n(3)]
  let ?is = "[?sr..<Suc ?er]" and ?m = "Suc ?er - ?sr"
  let ?rr = "map (nth rows) ?is" and ?pp = "map (nth (px_proofs x (rows @ cols))) ?is"
  have lt: "i < n" if "i \<in> set ?is" for i using that r(2) by auto
  have picked: "mapR (\<lambda>i. bindR (index_int (px_proofs x (rows @ cols)) i) (\<lambda>p. bindR (index_int rows i) (\<lambda>r. Inr (p, r)))) (map int ?is)
      = Inr (map (\<lambda>i. (px_proofs x (rows @ cols) ! nat i, rows ! nat i)) (map int ?is))"
    using lt len by (intro mapR_map) (fastforce simp: index_int_def)
  let ?row = "\<lambda>i. map (\<lambda>c. \<lparr>share_data = c\<rparr>) (C i)"
  have rowsR: "mapR (\<lambda>i. bindR (px_row x e (word_of_int i)) FromBytes) (map int ?is) = Inr (map (\<lambda>i. ?row (nat i)) (map int ?is))"
  proof (rule mapR_map)
    fix i assume "i \<in> set (map int ?is)"
    then obtain k where k: "i = int k" "k < n" using lt by auto
    then show "bindR (px_row x e (word_of_int i)) FromBytes = Inr (?row (nat i))" using row [OF k(2)] by (simp add: row_ok_def FromBytes_full)
  qed
  have "\<exists>p. px_prove x (T (?sr + k)) (int (if k > 0 then 0 else a mod n)) (int (if ?sr + k = ?er then (b - 1) mod n + 1 else n)) = Inr p
      \<and> row_proof x (int n) (int (a mod n)) (int ((b - 1) mod n)) ?rr ?m (k, ?row (?sr + k))
        = Inr (seg ?s (if ?sr + k = ?sr then a else (?sr + k) * n) (if ?sr + k = ?er then b else Suc (?sr + k) * n), int32_proof p)" if "k < ?m" for k
  proof -
    have "?sr + k < n" using that r(1,2) by auto
    from range_row_proof [OF n(1,2) assms(6) n(3) refl refl that row [OF this]] show ?thesis .
  qed
  then obtain P where P: "\<And>k. k < ?m \<Longrightarrow> px_prove x (T (?sr + k)) (int (if k > 0 then 0 else a mod n)) (int (if ?sr + k = ?er then (b - 1) mod n + 1 else n)) = Inr (P k)
      \<and> row_proof x (int n) (int (a mod n)) (int ((b - 1) mod n)) ?rr ?m (k, ?row (?sr + k))
        = Inr (seg ?s (if ?sr + k = ?sr then a else (?sr + k) * n) (if ?sr + k = ?er then b else Suc (?sr + k) * n), int32_proof (P k))" by metis
  let ?g = "\<lambda>i. seg ?s (if i = ?sr then a else i * n) (if i = ?er then b else Suc i * n)"
  have is_m: "?is = map (\<lambda>k. ?sr + k) [0..<?m]" using map_add_upt [of ?sr ?m] r(1) by (simp add: add.commute del: upt_Suc)
  have enum: "enumerate 0 (map (\<lambda>i. ?row (nat i)) (map int ?is)) = map (\<lambda>k. (k, ?row (?sr + k))) [0..<?m]"
    unfolding is_m by (rule nth_equalityI) (simp_all add: nth_enumerate_eq nat_int_add del: upt_Suc)
  have "mapR (row_proof x (int n) (int (a mod n)) (int ((b - 1) mod n)) ?rr ?m) (map (\<lambda>k. (k, ?row (?sr + k))) [0..<?m])
      = Inr (map (\<lambda>k. (?g (?sr + k), int32_proof (P k))) [0..<?m])"
    unfolding mapR_Inr_iff list_all2_map1 list_all2_map2 using P by (intro list.rel_refl_strong) auto
  from foldR_add_row [OF this, of "[]" "[]"]
  have f: "foldR (add_row (row_proof x (int n) (int (a mod n)) (int ((b - 1) mod n)) ?rr ?m)) (map (\<lambda>k. (k, ?row (?sr + k))) [0..<?m]) ([], [])
      = Inr (concat (map ?g ?is), map (\<lambda>k. int32_proof (P k)) [0..<?m])"
    by (simp add: is_m comp_def del: upt_Suc)
  let ?p = "\<lparr>sp_RowProof = \<lparr>rp_RowRoots = ?rr, rp_Proofs = ?pp, rp_StartRow = word_of_int (int ?sr), rp_EndRow = word_of_int (int ?er)\<rparr>,
    sp_Data = concat (map ?g ?is), sp_ShareProofs = map (\<lambda>k. int32_proof (P k)) [0..<?m], sp_NamespaceID = ns_ID ns,
    sp_NamespaceVersion = ucast (ns_Version ns)\<rparr>"
  have snds: "map snd (map (\<lambda>i. (px_proofs x (rows @ cols) ! nat i, rows ! nat i)) (map int ?is)) = ?rr"
      "map fst (map (\<lambda>i. (px_proofs x (rows @ cols) ! nat i, rows ! nat i)) (map int ?is)) = ?pp"
      "length (map (\<lambda>i. ?row (nat i)) (map int ?is)) = ?m" by (simp_all add: comp_def del: upt_Suc)
  have mk: "makeslice (int ?er - int ?sr + 1) = Inr ()" using r(1) by (simp add: makeslice_def)
  have n0: "int n \<noteq> 0" using n(1) by simp
  have "NewShareInclusionProof x sq ns (NewRange (int a) (int b)) = Inr ?p"
    unfolding NewShareInclusionProof_def NewRange_def Let_def Range.simps size bindR_simps if_not_P [OF n0] go ext e(2,3) mk upto_nat picked rowsR snds enum f case_prod_conv ..
  moreover have "sp_NamespaceID ?p = ns_ID ns" "sp_NamespaceVersion ?p = ucast (ns_Version ns)" by simp_all
  moreover have "proves_range x n sq e rows cols a b ?p"
  proof -
    have "concat (map ?g ?is) = seg ?s a b" using rows_of_range [OF n(1) assms(6) first_row_def last_row_def r(1) order_refl, of ?s] by (simp del: upt_Suc)
    then have d: "concat (map ?g ?is) = map share_data (seg sq a b)" by (simp add: seg_def ToBytes_def take_map drop_map)
    have sl: "map (nth l) ?is = seg l ?sr (Suc ?er)" if "Suc ?er \<le> length l" for l
      using that r(1) unfolding seg_def is_m by (intro nth_equalityI) (simp_all del: upt_Suc)
    have "list_all2 (\<lambda>i q. \<exists>cells t r. row_ok x n ?s e rows i cells t
            \<and> px_prove x t (int (if i = ?sr then a mod n else 0)) (int (if i = ?er then (b - 1) mod n + 1 else n)) = Inr r \<and> q = int32_proof r)
          ?is (map (\<lambda>k. int32_proof (P k)) [0..<?m])"
      unfolding is_m list_all2_map1 list_all2_map2
    proof (rule list.rel_refl_strong)
      fix k assume "k \<in> set [0..<?m]"
      then have k: "k < ?m" "?sr + k < n" using r(1,2) by auto
      have lo: "(if k > 0 then 0 else a mod n) = (if ?sr + k = ?sr then a mod n else 0)" by simp
      note conjunct1 [OF P [OF k(1)], unfolded lo]
      with row [OF k(2)] show "\<exists>cells t r. row_ok x n ?s e rows (?sr + k) cells t
          \<and> px_prove x t (int (if ?sr + k = ?sr then a mod n else 0)) (int (if ?sr + k = ?er then (b - 1) mod n + 1 else n)) = Inr r
          \<and> int32_proof (P k) = int32_proof r" by blast
    qed
    then show ?thesis using d sl [of rows] sl [of "px_proofs x (rows @ cols)"] len r(2) by (simp add: proves_range_def Let_def del: upt_Suc)
  qed
  ultimately show ?thesis using ext e(2,3) unfolding n_def by blast
qed

end
