(* ===== verification/TxProof.thy ===== *)
theory TxProof
  imports ShareProof ProposalLive Samples
begin

text \<open>
  Proofs for the squares of blocks: every range of shares of a built square has a proof, and every transaction of a block has one, of the shares that hold its
  bytes. The queries build the square with the upper bound of the version in place of the bound of the governance, which gives the same square.
\<close>

section \<open>The shares of a transaction\<close>

text \<open>
  A compact share sequence is a stream of bytes, 474 in its first share and 478 in each of the others; \<open>needed 474 478 k\<close> shares hold the first \<open>k\<close> bytes. The unit of a
  transaction is its length and its bytes.
\<close>

definition pfb_units :: "ext \<Rightarrow> IndexWrapper list \<Rightarrow> nat" where
  "pfb_units x pfbs = sum_list (map (unit_size \<circ> x_iwSize x) pfbs)"

definition unit_range :: "nat \<Rightarrow> nat \<Rightarrow> nat \<times> nat" where
  "unit_range from len = (needed 474 478 (from + 1) - 1, needed 474 478 (from + len))"

definition tx_range :: "ext \<Rightarrow> bytes list \<Rightarrow> IndexWrapper list \<Rightarrow> nat \<Rightarrow> nat \<times> nat" where
  "tx_range x txs pfbs i =
     (if i < length txs then unit_range (tx_bytes (take i txs)) (unit_size (length (txs ! i)))
      else
        let k = i - length txs; t = needed 474 478 (tx_bytes txs)
        in map_prod ((+) t) ((+) t) (unit_range (pfb_units x (take k pfbs)) (unit_size (x_iwSize x (pfbs ! k)))))"

lemma counts_fold: "counts c n \<Longrightarrow> counts (fold (\<lambda>len c. fst (Add_csc c (int len))) lens c) (n + sum_list (map unit_size lens))"
proof (induction lens arbitrary: c n)
  case (Cons len lens)
  from Cons.IH [OF counts_Add [OF Cons.prems, of len]] show ?case by (simp add: add.assoc)
qed simp

lemma needed_next: "needed 474 478 (n + 1) = full_shares n + 1"
proof -
  have "n + 1 \<le> capacity 474 478 (full_shares n + 1)" "\<not> n + 1 \<le> capacity 474 478 (full_shares n)"
    using stream_length [of n] open_bytes_less [of n] by (auto simp: capacity_def split: if_splits)
  then have "needed 474 478 (n + 1) \<le> full_shares n + 1" "\<not> needed 474 478 (n + 1) \<le> full_shares n"
    using compact_layout.needed_le_iff [of "n + 1"] by simp_all
  then show ?thesis by linarith
qed

lemma counts_start:
  assumes "counts c n"
  shows "Remainder_csc c = 0 \<Longrightarrow> Size_csc c = int (needed 474 478 (Suc n) - Suc 0)"
    "Remainder_csc c \<noteq> 0 \<Longrightarrow> Size_csc c = int (needed 474 478 (Suc n) - Suc 0) + 1"
  using assms needed_next [of n] by (auto simp: counts_def Remainder_csc_def Size_csc_def)

lemma unit_range_bounds:
  assumes "0 < len" "from + len \<le> m"
  shows "fst (unit_range from len) < snd (unit_range from len)" "snd (unit_range from len) \<le> needed 474 478 m"
proof -
  have "needed 474 478 (from + 1) \<le> needed 474 478 (from + len)" using assms(1) by (intro compact_layout.needed_mono [simplified]) simp
  then show "fst (unit_range from len) < snd (unit_range from len)" unfolding unit_range_def needed_next by simp
  show "snd (unit_range from len) \<le> needed 474 478 m" using assms(2) by (auto simp: unit_range_def intro!: compact_layout.needed_mono [simplified])
qed

lemma unit_size_pos: "0 < unit_size n"
  by (simp add: unit_size_def DelimLen_def)

lemma sum_list_take_Suc: "k < length xs \<Longrightarrow> sum_list (map f (take k xs)) + f (xs ! k) \<le> sum_list (map f xs)" for f :: "'a \<Rightarrow> nat"
proof (induction xs arbitrary: k)
  case (Cons y ys)
  then show ?case by (cases k) auto
qed simp

lemma tx_range_bounds:
  assumes "i < length txs + length pfbs"
  shows "fst (tx_range x txs pfbs i) < snd (tx_range x txs pfbs i)"
    "snd (tx_range x txs pfbs i) \<le> needed 474 478 (tx_bytes txs) + needed 474 478 (pfb_units x pfbs)"
proof -
  have t: "tx_bytes (take i txs) + unit_size (length (txs ! i)) \<le> tx_bytes txs" if "i < length txs"
    using sum_list_take_Suc [OF that, of "unit_size \<circ> length"] by (simp add: tx_bytes_def)
  have p: "pfb_units x (take (i - length txs) pfbs) + unit_size (x_iwSize x (pfbs ! (i - length txs))) \<le> pfb_units x pfbs" if "\<not> i < length txs"
    using sum_list_take_Suc [of "i - length txs" pfbs "unit_size \<circ> x_iwSize x"] assms that by (simp add: pfb_units_def)
  show "fst (tx_range x txs pfbs i) < snd (tx_range x txs pfbs i)"
    using unit_range_bounds(1) [OF unit_size_pos order_refl] by (simp add: tx_range_def Let_def)
  show "snd (tx_range x txs pfbs i) \<le> needed 474 478 (tx_bytes txs) + needed 474 478 (pfb_units x pfbs)"
    using unit_range_bounds(2) [OF unit_size_pos t] unit_range_bounds(2) [OF unit_size_pos p]
    by (cases "i < length txs") (auto simp: tx_range_def Let_def intro: trans_le_add1)
qed

lemma FindTxShareRange_done:
  assumes "sb_done b" "i < length (sb_Txs b) + length (sb_Pfbs b)"
  shows "FindTxShareRange x b (int i) = Inr (b, NewRange (int (fst (tx_range x (sb_Txs b) (sb_Pfbs b) i))) (int (snd (tx_range x (sb_Txs b) (sb_Pfbs b) i))))"
proof -
  let ?add = "\<lambda>len c. fst (Add_csc c (int len))"
  have tw: "counts (fold ?add (map length ts) NewCompactShareCounter) (tx_bytes ts)" for ts :: "bytes list"
    using counts_fold [OF counts_New, of "map length ts"] by (simp add: tx_bytes_def)
  have pw: "counts (fold ?add (map (x_iwSize x) ps) NewCompactShareCounter) (pfb_units x ps)" for ps
    using counts_fold [OF counts_New, of "map (x_iwSize x) ps"] by (simp add: pfb_units_def)
  have N: "Size_csc NewCompactShareCounter = 0" using counts_Size [OF counts_New] by (simp add: needed_def)
  show ?thesis
  proof (cases "i < length (sb_Txs b)")
    case True
    note c = tw [of "take i (sb_Txs b)"]
    show ?thesis using True assms counts_start [OF c] counts_Size [OF counts_Add [OF c]] N
      by (simp add: FindTxShareRange_def ensure_exported_def Let_def tx_range_def unit_range_def)
  next
    case False
    define k where "k = i - length (sb_Txs b)"
    note c = pw [of "take k (sb_Pfbs b)"]
    have "take i (sb_Txs b) = sb_Txs b" using False by simp
    then show ?thesis using False assms counts_start [OF c] counts_Size [OF tw [of "sb_Txs b"]]
        counts_Size [OF counts_Add [OF c]]
      by (simp add: FindTxShareRange_def ensure_exported_def Let_def tx_range_def unit_range_def k_def)
  qed
qed

section \<open>The square of a block\<close>

lemma Export_sq_done:
  assumes "Export_sq x b = Inr (b', sq)" "\<not> IsEmpty_sb b"
  shows "sb_done b'" "sb_Txs b' = sb_Txs b"
  using assms by (auto simp: Export_sq_def Let_def split: if_splits elim!: bindR_E)

lemma pfb_units_bound:
  assumes "iw_codec_ok x" "list_all2 iw_le pfbs (map (worst_iw x v) btxs)" "pfb_bytes x v btxs < 2 ^ 64"
  shows "pfb_units x pfbs \<le> pfb_bytes x v btxs"
proof -
  have c: "x_iwMarshal x iw = Inr (projr (x_iwMarshal x iw))" "length (projr (x_iwMarshal x iw)) = x_iwSize x iw" for iw
    using assms(1) unfolding iw_codec_ok_def by (metis sum.sel(2))+
  then have "list_all2 (\<lambda>iw bs. x_iwMarshal x iw = Inr bs \<and> length bs = x_iwSize x iw) pfbs (map (\<lambda>iw. projr (x_iwMarshal x iw)) pfbs)"
    by (simp add: list_all2_map2 list.rel_refl_strong)
  from pfb_bytes_bound [OF assms(1,2) this assms(3)] show ?thesis by (simp add: pfb_units_def comp_def c(2))
qed

text \<open>What a builder with the block's transactions exports.\<close>

lemma exported_block:
  assumes b: "built x v (m * m) b txs btxs" and m: "0 < m" "m \<le> SquareSizeUpperBound v"
    and acc: "\<forall>btx\<in>set btxs. accepted btx" and ok: "iw_codec_ok x" and ne: "txs \<noteq> [] \<or> btxs \<noteq> []"
  shows "\<exists>b' g. Export_sq x b = Inr (b', regions_square g) \<and> block_layout x txs btxs (sb_Pfbs b') g \<and> sb_done b' \<and> sb_Txs b' = txs
    \<and> length (sb_Pfbs b') = length btxs
    \<and> needed 474 478 (tx_bytes txs) + needed 474 478 (pfb_units x (sb_Pfbs b')) \<le> length (regions_square g)"
proof -
  from Export_sq_ok [OF assms] obtain b' g where g: "Export_sq x b = Inr (b', regions_square g)"
      "square_of x 64 txs (sb_Pfbs b') (sort_elements (sb_Blobs b)) g" "list_all2 iw_le (sb_Pfbs b') (map (worst_iw x v) btxs)"
      "int (length (regions_square g)) = min_square (sb_currentSize b) * min_square (sb_currentSize b)" by blast
  have sz: "int (needed 474 478 (tx_bytes txs)) + int (needed 474 478 (pfb_bytes x v btxs)) \<le> sb_currentSize b" "sb_currentSize b \<le> m * m"
    using b elements_from_nonneg [of _ 0 btxs "sb_Blobs b"] by (auto simp: built_def total_size_def)
  then have "int (needed 474 478 (pfb_bytes x v btxs)) \<le> m * m" by linarith
  from pfb_units_bound [OF ok g(3) pfb_bytes_small [OF this m]]
  have "needed 474 478 (pfb_units x (sb_Pfbs b')) \<le> needed 474 478 (pfb_bytes x v btxs)" by (rule compact_layout.needed_mono [simplified])
  then have fit: "needed 474 478 (tx_bytes txs) + needed 474 478 (pfb_units x (sb_Pfbs b')) \<le> length (regions_square g)"
    using sz(1) min_square_fits [of "sb_currentSize b"] g(4) by linarith
  have "\<not> IsEmpty_sb b" using built_sizes [OF b] ne tx_bytes_zero [of txs] pfb_bytes_zero [of x v btxs]
    by (auto simp: IsEmpty_sb_def needed_def split: if_splits)
  note d = Export_sq_done [OF g(1) this]
  show ?thesis using g(1) square_of_block_layout [OF b acc g(2,3)] d fit list_all2_lengthD [OF g(3)] b by (auto simp: built_def)
qed

section \<open>Proofs for blocks\<close>

lemma Build_ready:
  assumes "m = 2 ^ k" "m \<le> SquareSizeUpperBound v" "iw_codec_ok x" "\<forall>tx\<in>set txs. is_blob_tx x tx \<longrightarrow> admitted (decode x tx)"
    and "Build x txs v m = Inr (sq, txs')"
  shows "\<exists>j. j \<le> 9 \<and> length sq = 2 ^ j * 2 ^ j" "\<forall>s\<in>set sq. length (share_data s) = 512"
    "sorted (map (\<lambda>s. take NamespaceSize (share_data s)) sq)" "set txs' \<subseteq> set txs"
proof -
  have "all_accepted x txs" using assms(4) by (auto simp: all_accepted_def admitted_def)
  from Build_total [OF assms(1,2) this assms(3)] assms(5) obtain normal blob g pfbs j where
      g: "sq = regions_square g" "txs' = normal @ blob" "subseq normal (filter (\<lambda>tx. \<not> is_blob_tx x tx) txs)" "subseq blob (filter (is_blob_tx x) txs)"
      "block_layout x normal (map (decode x) blob) pfbs g" "length (regions_square g) = 2 ^ j * 2 ^ j" "(2::int) ^ j \<le> m" by auto
  have sub: "set normal \<subseteq> set (filter (\<lambda>tx. \<not> is_blob_tx x tx) txs)" "set blob \<subseteq> set (filter (is_blob_tx x) txs)"
    using g(3,4) by (metis notin_set_nthsI subseq_conv_nths subsetI)+
  then show "set txs' \<subseteq> set txs" using g(2) by auto
  have "\<forall>btx\<in>set (map (decode x) blob). \<forall>b\<in>set (btx_Blobs btx). \<not> IsReserved (Namespace_blob b)"
    using sub(2) assms(4) by (auto simp: admitted_def)
  from layout_ready [OF g(5) this] show "\<forall>s\<in>set sq. length (share_data s) = 512" "sorted (map (\<lambda>s. take NamespaceSize (share_data s)) sq)"
    unfolding g(1) by blast+
  have "(2::int) ^ j \<le> 2 ^ 9" using g(7) assms(2) SquareSizeUpperBound_cases [of v] by auto
  then have "j \<le> 9" by (rule power_le_imp_le_exp [rotated]) simp
  then show "\<exists>j. j \<le> 9 \<and> length sq = 2 ^ j * 2 ^ j" using g(1,6) by blast
qed

text \<open>\<open>proves\<close>: the proof holds the given range of the square.\<close>

definition proves :: "('e, 't, 'm) spx \<Rightarrow> Square \<Rightarrow> Namespace \<Rightarrow> nat \<Rightarrow> nat \<Rightarrow> 'm ShareProof \<Rightarrow> bool" where
  "proves x sq ns a b p \<longleftrightarrow> sp_NamespaceID p = ns_ID ns \<and> sp_NamespaceVersion p = ucast (ns_Version ns)
     \<and> (\<exists>n e rows cols. length sq = n * n \<and> ExtendShares (px_da x) (ToBytes sq) = Inr e \<and> d_rowRoots (px_da x) e = Inr rows
         \<and> d_colRoots (px_da x) e = Inr cols \<and> proves_range x n sq e rows cols a b p)"

lemma share_proof_of_Build:
  assumes "proofs_ok x" "m = 2 ^ k" "m \<le> SquareSizeUpperBound v" "iw_codec_ok (px_sq x)"
    and "\<forall>tx\<in>set txs. is_blob_tx (px_sq x) tx \<longrightarrow> admitted (decode (px_sq x) tx)" "Build (px_sq x) txs v m = Inr (sq, txs')" "a < b" "b \<le> length sq"
  shows "\<exists>p. NewShareInclusionProof x sq ns (NewRange (int a) (int b)) = Inr p \<and> proves x sq ns a b p"
proof -
  note r = Build_ready [OF assms(2-6)]
  obtain j where j: "j \<le> 9" "length sq = 2 ^ j * 2 ^ j" using r(1) by blast
  from NewShareInclusionProof_ok [OF assms(1) j r(2,3) assms(7,8)] show ?thesis unfolding proves_def using j(2) by blast
qed

lemma tx_proof_of_Build:
  assumes "proofs_ok x" "m = 2 ^ k" "m \<le> SquareSizeUpperBound v" "iw_codec_ok (px_sq x)"
    and "\<forall>tx\<in>set txs. is_blob_tx (px_sq x) tx \<longrightarrow> admitted (decode (px_sq x) tx)" "Build (px_sq x) txs v m = Inr (sq, txs')"
    and "i < length txs'" "i < 2 ^ 63"
  shows "\<exists>p normal blob pfbs g. NewTxInclusionProof x txs' (of_nat i) v = Inr p
    \<and> txs' = normal @ blob \<and> sq = regions_square g \<and> block_layout (px_sq x) normal (map (decode (px_sq x)) blob) pfbs g
    \<and> proves x sq (if i < length normal then TxNamespace else PayForBlobNamespace)
        (fst (tx_range (px_sq x) normal pfbs i)) (snd (tx_range (px_sq x) normal pfbs i)) p"
proof -
  let ?x = "px_sq x" and ?n = "SquareSizeUpperBound v"
  have n: "0 < ?n" "?n < 2 ^ 31" "IsPowerOfTwo wrap_int ?n" using SquareSizeUpperBound_cases [of v] by (elim disjE; simp; code_simp)+
  from NewBuilder_of_Build [OF assms(3) n(2,3) assms(6)] obtain b normal blob where b: "txs' = normal @ blob" "sorted_block ?x normal blob"
      "NewBuilder_sq ?x ?n v txs' = Inr b" "built ?x v (?n * ?n) b normal (map (decode ?x) blob)"
      "bindR (Export_sq ?x b) (\<lambda>(_, sq). Inr sq) = Inr sq" by blast
  have "\<forall>tx\<in>set blob. admitted (decode ?x tx)"
    using b(1,2) Build_ready(4) [OF assms(2-6)] assms(5) by (auto simp: sorted_block_def list_all_iff)
  then have acc: "\<forall>btx\<in>set (map (decode ?x) blob). accepted btx" by (auto simp: admitted_def)
  have "normal \<noteq> [] \<or> map (decode ?x) blob \<noteq> []" using assms(7) b(1) by auto
  from exported_block [OF b(4) n(1) order_refl acc assms(4) this] obtain b' g where g: "Export_sq ?x b = Inr (b', regions_square g)"
      "block_layout ?x normal (map (decode ?x) blob) (sb_Pfbs b') g" "sb_done b'" "sb_Txs b' = normal" "length (sb_Pfbs b') = length blob"
      "needed 474 478 (tx_bytes normal) + needed 474 478 (pfb_units ?x (sb_Pfbs b')) \<le> length (regions_square g)"
    by auto
  have sq: "sq = regions_square g" using b(5) g(1) by simp
  let ?r = "tx_range ?x normal (sb_Pfbs b') i" and ?ns = "if i < length normal then TxNamespace else PayForBlobNamespace"
  have i: "i < length normal + length (sb_Pfbs b')" using assms(7) b(1) g(5) by simp
  note t = tx_range_bounds [OF i, of ?x]
  from share_proof_of_Build [OF assms(1-6) t(1), of ?ns] t(2) g(6) sq obtain p where
    p: "NewShareInclusionProof x sq ?ns (NewRange (int (fst ?r)) (int (snd ?r))) = Inr p" "proves x sq ?ns (fst ?r) (snd ?r) p" by auto
  have w: "sint (of_nat i :: uint64) = int i" "unat (of_nat i :: uint64) = i" "uint (of_nat i :: uint64) = int i"
    using sint_uint64 [of "int i"] unat_uint64 [of i] assms(8) by (auto simp: uint_nat)
  have ns: "getTxNamespace (x_unmarshal ?x) (txs' ! i) = ?ns"
    using b(1,2) assms(7) by (auto simp: getTxNamespace_def sorted_block_def list_all_length nth_append)
  have "NewTxInclusionProof x txs' (of_nat i) v = Inr p"
    using assms(7) b(3) g(1,3,4) sq FindTxShareRange_done [of b' i ?x] i p(1) by (simp add: NewTxInclusionProof_def w ns)
  with b(1) sq g(2) p(2) show ?thesis by blast
qed

lemma share_query_of_Build:
  assumes "proofs_ok x" "m = 2 ^ k" "m \<le> SquareSizeUpperBound v" "iw_codec_ok (px_sq x)"
    and "\<forall>tx\<in>set txs. is_blob_tx (px_sq x) tx \<longrightarrow> admitted (decode (px_sq x) tx)" "Build (px_sq x) txs v m = Inr (sq, txs')" "a < b" "b \<le> length sq"
    and "px_block x req = Inr \<lparr>bl_Txs = txs', bl_AppVersion = v\<rparr>" "ParseInt10 sa = Inr (int a)" "ParseInt10 sb = Inr (int b)"
    and "\<forall>i. a \<le> i \<longrightarrow> i < b \<longrightarrow> Namespace_sh (sq ! i) = Inr ns"
  shows "\<exists>p. QueryShareInclusionProof x [sa, sb] req = px_marshal x p \<and> proves x sq ns a b p"
proof -
  let ?n = "SquareSizeUpperBound v"
  have n: "?n < 2 ^ 31" "IsPowerOfTwo wrap_int ?n" using SquareSizeUpperBound_cases [of v] by (elim disjE; simp; code_simp)+
  have c: "Construct (px_sq x) txs' v ?n = Inr sq" by (rule Construct_of_Build_bound [OF assms(3) n assms(6)])
  have "ParseNamespace sq (int a) (int b) = Inr ns" unfolding ParseNamespace_iff using assms(7,8,12) by auto
  moreover from share_proof_of_Build [OF assms(1-8), of ns] obtain p where
    p: "NewShareInclusionProof x sq ns (NewRange (int a) (int b)) = Inr p" "proves x sq ns a b p" by blast
  ultimately show ?thesis using assms(9-11) c by (auto simp: QueryShareInclusionProof_def)
qed

section \<open>A concrete instance\<close>

text \<open>The extension repeats each row; a tree is the list of its leaves, and the proof of a range has all leaves of its row.\<close>

definition sample_row :: "nat \<times> bytes list \<Rightarrow> nat \<Rightarrow> bytes list" where
  "sample_row e i = (let r = seg (snd e) ((i mod fst e) * fst e) (Suc (i mod fst e) * fst e) in r @ r)"

definition sample_spx :: "(nat \<times> bytes list, bytes list, nat \<times> bytes list) spx" where
  "sample_spx =
     \<lparr>px_sq = sample_ext,
      px_da = \<lparr>d_compute = \<lambda>s w. Inr (unat w, s), d_rowRoots = \<lambda>e. Inr (map (\<lambda>i. concat (axis_leaves (fst e) i (sample_row e i))) [0..<2 * fst e]),
        d_colRoots = \<lambda>e. Inr [], d_hash = sample_hash_roots, d_validateHash = \<lambda>_. Inr ()\<rparr>,
      px_row = \<lambda>e i. Inr (sample_row e (unat i)), px_proofs = \<lambda>l. map (\<lambda>i. (i, l)) [0..<length l],
      px_nmt = [], px_push = \<lambda>t l. Inr (t @ [l]), px_root = \<lambda>t. Inr (concat t),
      px_prove = \<lambda>t a b. if 0 \<le> a \<and> a < b \<and> b \<le> int (length t) then Inr \<lparr>np_Start = a, np_End = b, np_Nodes = t, np_LeafHash = []\<rparr> else Inl (Err ''invalid range''),
      px_block = \<lambda>_. Inr \<lparr>bl_Txs = [[5], [0xB0]], bl_AppVersion = 2\<rparr>, px_dataFromProto = Inr, px_marshal = \<lambda>p. Inr (concat (sp_Data p))\<rparr>"

lemma foldR_snoc: "foldR (\<lambda>l t. Inr (t @ [l])) ls t = Inr (t @ ls)"
  by (induction ls arbitrary: t) simp_all

lemma sample_row_ok:
  assumes "0 < n" "n < 2 ^ 64" "length s = n * n" "\<forall>sh\<in>set s. length sh = 512" "i < n"
  shows "row_ok sample_spx n s (n, s) (map (\<lambda>i. concat (axis_leaves n i (sample_row (n, s) i))) [0..<2 * n]) i (sample_row (n, s) i)
    (axis_leaves n i (sample_row (n, s) i))"
proof -
  have "Suc i * n \<le> n * n" using assms(5) by (intro mult_le_mono1) simp
  then have l: "length (seg s (i * n) (Suc i * n)) = n" using assms(3) by (simp add: seg_def)
  have r: "sample_row (n, s) i = seg s (i * n) (Suc i * n) @ seg s (i * n) (Suc i * n)" using assms(5) by (simp add: sample_row_def Let_def)
  have "set (seg s (i * n) (Suc i * n)) \<subseteq> set s" unfolding seg_def by (meson order_trans set_drop_subset set_take_subset)
  then have "\<forall>c\<in>set (sample_row (n, s) i). length c = 512" using assms(4) unfolding r by auto
  moreover have "unat (word_of_int (int i) :: uint64) = i" using unat_uint64 [of i] assms(2,5) by simp
  ultimately show ?thesis using l r assms(1,5)
    by (auto simp: row_ok_def row_tree_def sample_spx_def foldR_snoc axis_leaves_def nth_append)
qed

lemma sample_proofs_ok: "proofs_ok sample_spx"
  unfolding proofs_ok_def
proof (intro conjI allI impI)
  fix s :: "bytes list" and j :: nat
  assume j: "j \<le> 9" "length s = 2 ^ j * 2 ^ j" "\<forall>sh\<in>set s. length sh = 512"
  let ?n = "2 ^ j :: nat"
  let ?rows = "map (\<lambda>i. concat (axis_leaves ?n i (sample_row (?n, s) i))) [0..<2 * ?n]"
  have "?n \<le> 2 ^ 9" using j(1) by (intro power_increasing) auto
  then have "?n < 2 ^ 64" by simp
  then have "unat (word_of_int (int ?n) :: uint64) = ?n" using unat_uint64 [of ?n] by simp
  then have c: "d_compute (px_da sample_spx) s (word_of_int (2 ^ j)) = Inr (?n, s)" by (simp add: sample_spx_def)
  have "rows_ok sample_spx ?n s (?n, s) ?rows"
    unfolding rows_ok_def using sample_row_ok [OF _ \<open>?n < 2 ^ 64\<close> j(2,3)] by (auto simp del: upt_Suc)
  moreover have "d_rowRoots (px_da sample_spx) (?n, s) = Inr ?rows" "d_colRoots (px_da sample_spx) (?n, s) = Inr []" by (simp_all add: sample_spx_def)
  ultimately show "\<exists>e rows cols. d_compute (px_da sample_spx) s (word_of_int (2 ^ j)) = Inr e \<and> d_rowRoots (px_da sample_spx) e = Inr rows
      \<and> d_colRoots (px_da sample_spx) e = Inr cols \<and> rows_ok sample_spx ?n s e rows" using c by blast
qed (simp add: sample_spx_def)

end
