(* ===== verification/Inflation.thy ===== *)
theory Inflation
  imports SdkMath
begin

text \<open>
  \<^verbatim>\<open>app/inflation.go\<close>: the inflation rate of the year, from the ratio of bonded tokens and the time since genesis. A time is its number of nanoseconds since the
  epoch of Unix; the difference of two times saturates at 64 bits, as \<^verbatim>\<open>Time.Sub\<close> does.
\<close>

definition secondsPerYear :: int where "secondsPerYear = 31556952"

definition nanosecondsPerYear :: int where "nanosecondsPerYear = 1000000000 * secondsPerYear"

definition genesisTime :: int where "genesisTime = 1715049769"

definition initialInflationRate :: dec where "initialInflationRate = 8 * 10 ^ 16"

definition initialInflationRateMax :: dec where "initialInflationRateMax = 10 * 10 ^ 16"

definition initialInflationRateMin :: dec where "initialInflationRateMin = 6 * 10 ^ 16"

definition disinflationRate :: dec where "disinflationRate = 8 * 10 ^ 16"

definition targetInflationRate :: dec where "targetInflationRate = 2 * 10 ^ 16"

definition time_sub :: "int \<Rightarrow> int \<Rightarrow> int" where
  "time_sub t u = max (- (2 ^ 63)) (min (2 ^ 63 - 1) (t - u))"

definition yearsSinceGenesis :: "int \<Rightarrow> int \<Rightarrow> int" where
  "yearsSinceGenesis genesis current = (if current < genesis then 0 else go_div (time_sub current genesis) nanosecondsPerYear)"

definition CalculateInflationRate :: "decx \<Rightarrow> int \<Rightarrow> int \<Rightarrow> dec \<Rightarrow> dec result" where
  "CalculateInflationRate d blockTime genesis bondedRatio =
     bindR (d_mul d (initialInflationRateMax - initialInflationRateMin) bondedRatio) (\<lambda>m.
       let initialRate = initialInflationRateMax - m;
           years = yearsSinceGenesis genesis blockTime
       in bindR (d_power d (dec_one - disinflationRate) (word_of_int years)) (\<lambda>f.
          bindR (d_mul d initialRate f) (\<lambda>disinflatedRate.
            Inr (if disinflatedRate < targetInflationRate then targetInflationRate else disinflatedRate))))"

definition InflationCalculationFn :: "decx \<Rightarrow> int \<Rightarrow> dec \<Rightarrow> dec result" where
  "InflationCalculationFn d blockTime bondedRatio = CalculateInflationRate d blockTime (genesisTime * 1000000000) bondedRatio"

section \<open>Bounds\<close>

text \<open>A power of a decimal between zero and one is between zero and one.\<close>

definition power_ok :: "decx \<Rightarrow> bool" where
  "power_ok d \<longleftrightarrow> (\<forall>b n r. 0 \<le> b \<longrightarrow> b \<le> dec_one \<longrightarrow> d_power d b n = Inr r \<longrightarrow> 0 \<le> r \<and> r \<le> dec_one)"

lemma mul_between:
  assumes "mul_ok d" "d_mul d a b = Inr c" "0 \<le> a" "0 \<le> b" "b \<le> dec_one"
  shows "0 \<le> c" "c \<le> a"
proof -
  have "2 * \<bar>c * dec_one - a * b\<bar> \<le> dec_one" using assms(1,2) unfolding mul_ok_def by blast
  then have r: "2 * (c * dec_one - a * b) \<le> dec_one" "- dec_one \<le> 2 * (c * dec_one - a * b)" by arith+
  have ab: "0 \<le> a * b" "a * b \<le> a * dec_one" using assms(3-5) by (simp_all add: mult_left_mono)
  have "0 \<le> (2 * c + 1) * dec_one" using r(2) ab(1) by (simp add: algebra_simps)
  then have "0 \<le> 2 * c + 1" by (simp add: zero_le_mult_iff dec_one_def)
  then show "0 \<le> c" by simp
  have "(2 * c) * dec_one \<le> (2 * a + 1) * dec_one" using r(1) ab(2) by (simp add: algebra_simps)
  then have "2 * c \<le> 2 * a + 1" by (simp add: mult_le_cancel_right dec_one_def)
  then show "c \<le> a" by simp
qed

lemma yearsSinceGenesis_bounds: "0 \<le> yearsSinceGenesis g t" "yearsSinceGenesis g t \<le> 292"
proof -
  have "time_sub t g div nanosecondsPerYear \<le> (2 ^ 63 - 1) div nanosecondsPerYear"
    by (intro zdiv_mono1) (simp_all add: time_sub_def nanosecondsPerYear_def secondsPerYear_def)
  moreover have "((2::int) ^ 63 - 1) div nanosecondsPerYear = 292" by (simp add: nanosecondsPerYear_def secondsPerYear_def)
  moreover have "0 \<le> time_sub t g" if "\<not> t < g" using that by (simp add: time_sub_def)
  moreover have "0 < nanosecondsPerYear" by (simp add: nanosecondsPerYear_def secondsPerYear_def)
  ultimately show "0 \<le> yearsSinceGenesis g t" "yearsSinceGenesis g t \<le> 292"
    by (auto simp: yearsSinceGenesis_def pos_imp_zdiv_nonneg_iff)
qed

lemma CalculateInflationRate_bounds:
  assumes "mul_ok d" "power_ok d" "0 \<le> bondedRatio" "bondedRatio \<le> dec_one" "CalculateInflationRate d t g bondedRatio = Inr r"
  shows "targetInflationRate \<le> r" "r \<le> initialInflationRateMax"
proof -
  note defs = initialInflationRateMax_def initialInflationRateMin_def disinflationRate_def targetInflationRate_def
  from assms(5) obtain m f q where m: "d_mul d (initialInflationRateMax - initialInflationRateMin) bondedRatio = Inr m"
      "d_power d (dec_one - disinflationRate) (word_of_int (yearsSinceGenesis g t)) = Inr f" "d_mul d (initialInflationRateMax - m) f = Inr q"
      "r = (if q < targetInflationRate then targetInflationRate else q)"
    by (auto simp: CalculateInflationRate_def Let_def elim!: bindR_E)
  have b: "0 \<le> m" "m \<le> initialInflationRateMax - initialInflationRateMin"
    using mul_between [OF assms(1) m(1) _ assms(3,4)] by (simp_all add: defs)
  have "0 \<le> dec_one - disinflationRate" "dec_one - disinflationRate \<le> dec_one" by (simp_all add: defs dec_one_def)
  then have f: "0 \<le> f" "f \<le> dec_one" using assms(2) m(2) unfolding power_ok_def by blast+
  have "q \<le> initialInflationRateMax - m" using mul_between(2) [OF assms(1) m(3) _ f] b by (simp add: defs)
  then show "targetInflationRate \<le> r" "r \<le> initialInflationRateMax" using b(1) m(4) by (simp_all add: defs)
qed

lemma sample_power_ok: "power_ok sample_dec"
proof -
  have "0 \<le> foldl (\<lambda>r i. round_div (r * b) dec_one) dec_one is \<and> foldl (\<lambda>r i. round_div (r * b) dec_one) dec_one is \<le> dec_one"
    if b: "0 \<le> b" "b \<le> dec_one" for b and "is" :: "nat list"
  proof (induction "is" rule: rev_induct)
    case (snoc i "is")
    let ?r = "foldl (\<lambda>r i. round_div (r * b) dec_one) dec_one is"
    have "d_mul sample_dec ?r b = Inr (round_div (?r * b) dec_one)" by (simp add: sample_dec_def)
    from mul_between [OF _ this] snoc b sample_dec_ok show ?case by fastforce
  qed (simp add: dec_one_def)
  then show ?thesis by (auto simp: power_ok_def sample_dec_def)
qed

lemma sample_inflation: "CalculateInflationRate sample_dec (3 * nanosecondsPerYear) 0 (5 * 10 ^ 17) = Inr 62295040000000000"
  by code_simp

end
