(* ===== verification/Spec2Isabelle.thy ===== *)
theory Spec2Isabelle
  imports SampleApp CommitmentAgreement BlobstreamSample BlobstreamQuery SwapSample LiSample TokenConverter Fee TxProof Inflation
begin

text \<open>
  Verification of the data availability application Sunrise (the Go code under \<^verbatim>\<open>src/\<close>).

  \<^bold>\<open>The program.\<close> A block carries normal transactions and blob transactions. A proposer
  (\<^verbatim>\<open>app/abci_prepare_proposal.go\<close>) filters the transactions with the ante handler, lays the accepted ones
  out in a data square of 512-byte shares (\<^verbatim>\<open>pkg/square\<close>, \<^verbatim>\<open>pkg/shares\<close>), extends the square by erasure
  coding and publishes the Merkle root of its row and column roots (\<^verbatim>\<open>pkg/da\<close>, \<^verbatim>\<open>pkg/wrapper\<close>). A validator
  (\<^verbatim>\<open>app/abci_process_proposal.go\<close>) rebuilds the square from the block's transactions and compares. A blob
  is paid for by a message that commits to it (\<^verbatim>\<open>x/blob\<close>, \<^verbatim>\<open>pkg/inclusion\<close>).

  \<^bold>\<open>Conventions.\<close> A Go function that may fail has the result type \<open>fault + 'a\<close> (theory Prelude): an
  error value, a panic, or a call that does not return. Machine integers keep their width: \<^verbatim>\<open>byte\<close>,
  \<^verbatim>\<open>uint32\<close> and \<^verbatim>\<open>uint64\<close> are words; \<^verbatim>\<open>int\<close> is an integer with the wrap-around of \<open>wrap_int\<close> written
  out where a value can leave the 64-bit range. A loop that need not end is a \<open>partial_function\<close> into
  \<open>option\<close>, and termination is proved as a result: no fuel is used anywhere. Code of other repositories is a
  parameter: the records \<open>ext\<close> (protobuf codecs, transaction keys, the transaction decoder), \<open>pfx\<close>
  (SDK decoding, addresses, hashes), \<open>dax\<close> (rsmt2d and the cometbft Merkle tree) and \<open>app\<close> (BaseApp, the ante
  handler, contexts). What is assumed of them is in \<open>iw_codec_ok\<close>, \<open>deconstructible\<close>, \<open>mempool_ok\<close>,
  \<open>runs_without_crash\<close>, \<open>extends_squares\<close> and \<open>square_cached\<close>, each satisfied by the concrete functions of the
  theories Samples and SampleApp.

  \<^bold>\<open>Theories.\<close>
  Prelude, GoStd, Codec: results and their sequencing, slices, \<^verbatim>\<open>encoding/binary\<close>, the locale
  \<open>fixed_codec\<close> of fixed-width fields (interpreted for namespaces and reserved bytes).
  Namespace, AppConsts: \<^verbatim>\<open>pkg/namespace\<close>, \<^verbatim>\<open>pkg/appconsts\<close>; the order on namespaces is the type's linear order.
  PowersOfTwo: \<^verbatim>\<open>pkg/shares/powers_of_two.go\<close>, once for \<^verbatim>\<open>int\<close> and once for \<^verbatim>\<open>uint64\<close> through the locale
  \<open>machine_int\<close>.
  ShareFields, Shares, ShareBuilder: info byte, reserved bytes, delimiters, share accessors, the builder
  and padding shares of \<^verbatim>\<open>pkg/shares\<close>.
  Blob: \<^verbatim>\<open>pkg/blob\<close>.
  ShareSequence: share counts, ranges and \<^verbatim>\<open>ParseShares\<close>; the locale \<open>share_layout\<close> relates capacity and need.
  SparseShares: splitting and parsing blobs, with the invariant \<open>sparse_inv\<close> of the splitter.
  CompactShares, CompactRefinement, TxShares: counter, splitter and parser of transactions. The splitter's
  state represents a byte stream (\<open>css_between\<close>), the export is determined by the stream (\<open>exported\<close>), and
  the locale \<open>compact_counting\<close> is interpreted on both the counter and the splitter, so that the counter
  predicts the splitter.
  Inclusion, CommitmentPaths, Wrapper, CommitmentAgreement: \<^verbatim>\<open>pkg/inclusion\<close> and \<^verbatim>\<open>pkg/wrapper\<close>: subtree widths,
  share indexes, mountain ranges, commitments, the paths to subtree roots, and the agreement of the two
  ways to a commitment.
  Square, SquareAgreement, SquareLayout, SquareExport, SquareTotal, SquareDeconstruct: \<^verbatim>\<open>pkg/square\<close>. The builder's
  state is determined by the appended transactions (\<open>built\<close>), so proposer and validator agree; the export
  loop keeps the invariant \<open>exp_inv\<close>; the exported square has the layout \<open>block_layout\<close>; the square is sorted by
  namespace and deconstructs to the block.
  DataAvailability: \<^verbatim>\<open>pkg/da\<close>.
  PayForBlobs: \<^verbatim>\<open>x/blob\<close> (message, validation, parameters, gas, ante decorators).
  Proposal, ProposalLive: the ABCI handlers of \<^verbatim>\<open>app\<close>.
  Samples, SampleApp: concrete inputs for the witnesses.
  Blobstream, BlobstreamState, BlobstreamChain, BlobstreamValset, BlobstreamQuery, BlobstreamSample: \<^verbatim>\<open>x/blobstream\<close>,
  the attestations for the bridge. The store refines a list of attestations with consecutive nonces
  (\<open>holds\<close>); \<open>reach\<close> is the relation of the states reached through messages, hooks and blocks, with its
  invariant \<open>bs_inv\<close>. The codec, the staking module and addresses are the record \<open>bsx\<close>.
  SdkMath: coins and decimals of the SDK, with the documented rounding of the operations as hypotheses
  (\<open>mul_ok\<close>, \<open>quo_ok\<close>, \<open>truncateInt_ok\<close>, \<open>newCoin_ok\<close>).
  SwapRoute, Swap, SwapFlow, SwapIbc, SwapIbcChain, SwapSample: \<^verbatim>\<open>x/swap\<close>, routes as trees, the swaps along them, the coins that
  flow (\<open>flow\<close>), and the in-flight packets of the IBC middleware with the states they reach (\<open>ibc_reach\<close>). The
  liquidity pool keeper is an interface, the record \<open>swx\<close>; IBC is the record \<open>ibx\<close>.
  KvStore, LpKeys, LpMath, LpPrice, LpStore, LpAccum, LpFee, LpPosition, LpSwapHelper, LpSwap: \<^verbatim>\<open>x/liquiditypool\<close>, the
  concentrated liquidity pools: the ordered store (the locale \<open>ordered_store\<close>), keys, price arithmetic, pools, positions and
  ticks, fee accumulators, and swaps. The bank, coins of decimals and addresses are the records \<open>lpx\<close> and \<open>dcx\<close>.
  LpFrame, LpBook, LpOps, LpSwapBook, LpChain: the book of liquidity (\<open>book\<close>) and that every message and keeper call keeps it, along
  histories of messages (\<open>lp_run\<close>, \<open>lp_deliver\<close> drops the effects of a message that fails, as BaseApp does).
  LpActive, LpLive: the current liquidity of a pool as the liquidity of the positions around its tick, that crossing a tick keeps
  this, and that the loops of a swap end. LpEffects, LpSample: transfers, genesis, and a concrete pool.
  LiTally, LiEpoch, LiChain, LiEffects, LiSample: \<^verbatim>\<open>x/liquidityincentive\<close>. The tally of the votes for gauges equals the sum that the votes define, in every order in
  which Go iterates over its maps (\<open>map_order\<close>); \<open>li_reach\<close> is the relation of the states reached through votes, messages to the pools and blocks, with the
  invariant \<open>li_inv\<close>; the distribution of incentives and how it fails. The staking module is the record \<open>stk\<close>, addresses and coins are the record \<open>lix\<close>.
  Bank, TokenConverter, Fee: \<^verbatim>\<open>x/tokenconverter\<close> and \<^verbatim>\<open>x/fee\<close>, with the bank keeper's documented effects on balances and supply (\<open>bank_ok\<close>).
  ShareProof: \<^verbatim>\<open>pkg/proof\<close>, proofs of the inclusion of shares and transactions and their queries; \<open>proofs_ok\<close> says what is documented of the rows, trees and Merkle proofs of
  the extended square, and \<open>proves_range\<close> what a proof of a range holds. TxProof: proofs for the squares and the transactions of blocks.
  Inflation: \<^verbatim>\<open>app/inflation.go\<close>.
  \<^bold>\<open>Bounds.\<close> \<open>MaxSparseLen\<close> (4294967036) is the largest blob length for which \<^verbatim>\<open>SparseSharesNeeded\<close> is right; a
  square's side is at most 512, so every index fits an \<^verbatim>\<open>int\<close>; powers of two are computed up to \<open>2 ^ 62\<close>
  (\<^verbatim>\<open>int\<close>) and \<open>2 ^ 63\<close> (\<^verbatim>\<open>uint64\<close>), beyond which the loops are proved not to end.

  \<^bold>\<open>Not modelled.\<close> Generated code (\<^verbatim>\<open>api\<close>, \<^verbatim>\<open>*.pb.go\<close> apart from the message types used here, \<^verbatim>\<open>*.pb.gw.go\<close>), module
  wiring, command lines, simulation and test helpers, which compute nothing of the chain's own logic;
  gRPC queries; event emission beyond what a handler's result depends on. \<^verbatim>\<open>pkg/user\<close>, a network client, is not
  modelled either.
\<close>

section \<open>Proposing and validating a block\<close>

text \<open>
  C1. An honest proposal is accepted: when a proposer's \<^verbatim>\<open>PrepareProposal\<close> returns a block, its
  square size and its data root, and a validator whose base application raises no error runs the
  block's transactions through its checks without a refusal (and without changing the maximal square
  size), \<^verbatim>\<open>ProcessProposal\<close> accepts: reconstructing the square from the block's transactions gives the
  proposer's square size and data root.
\<close>

theorem ProcessProposal_accepts_PrepareProposal:
  assumes "PrepareProposal app req = Inr resp"
    and "ap_baseProcess app preq = Inr (res, None)"
    and "pq_Txs preq = rp_Txs resp" "pq_Height preq = pr_Height req" "pq_Time preq = pr_Time req"
      "pq_SquareSize preq = rp_SquareSize resp" "pq_DataHash preq = rp_DataHash resp"
    and "process_txs app (ap_newContext app (pr_Height req) (pr_Time req)) (rp_Txs resp) = Inr ctx"
      "GovSquareSizeUpperBound app ctx = GovSquareSizeUpperBound app (ap_newContext app (pr_Height req) (pr_Time req))"
  shows "ProcessProposal app preq = Inr (ACCEPT, None)"
  by (rule honest_proposal_accepted [OF assms])

theorem ProcessProposal_accepts_PrepareProposal_witness:
  "\<exists>resp. PrepareProposal sample_app sample_req = Inr resp \<and> rp_Txs resp = [[5], [0xB0]]
     \<and> ProcessProposal sample_app (sample_preq resp) = Inr (ACCEPT, None)"
proof -
  from sample_PrepareProposal obtain resp where
    r: "PrepareProposal sample_app sample_req = Inr resp" "rp_Txs resp = [[5], [0xB0]]" .
  have "ProcessProposal sample_app (sample_preq resp) = Inr (ACCEPT, None)"
    by (rule ProcessProposal_accepts_PrepareProposal [OF r(1), where res = ACCEPT and ctx = 2])
      (use r sample_process_txs in \<open>simp_all add: sample_gov del: process_txs.simps\<close>)
  with r show ?thesis by blast
qed

text \<open>
  C2. A proposer always has a block: when the base application returns transactions that were
  admitted to the mempool (valid blob transactions whose encoding decodes to them), the decoder and
  the ante handler return errors rather than panic, the index wrapper's codec and the erasure coding
  do what their documentation says, and the governance parameter is a power of two of at most
  \<open>2 ^ 62\<close>, none of the panics of \<^verbatim>\<open>PrepareProposal\<close> is reached: it returns a block whose square size is a
  power of two within the version's bound.
\<close>

theorem PrepareProposal_succeeds:
  assumes "ap_basePrepare app req = Inr txs" "\<forall>tx\<in>set txs. mempool_ok app tx"
    and "runs_without_crash app" "iw_codec_ok (ap_sq app)" "extends_squares (ap_da app)"
    and "ap_ctxVersion app (ap_newContext app (pr_Height req) (pr_Time req)) = 0"
      "GovMaxSquareSize (GetParams_blob (ap_store app (ap_newContext app (pr_Height req) (pr_Time req))))
        = word_of_int (2 ^ k)" "k \<le> 62"
  shows "\<exists>resp s. PrepareProposal app req = Inr resp \<and> rp_SquareSize resp = word_of_int (2 ^ s)
    \<and> (2::int) ^ s \<le> SquareSizeUpperBound (ap_AppVersion app)"
  by (rule PrepareProposal_total [OF assms])

theorem PrepareProposal_succeeds_witness:
  "\<exists>resp s. PrepareProposal sample_app sample_req = Inr resp \<and> rp_SquareSize resp = word_of_int (2 ^ s)
     \<and> (2::int) ^ s \<le> SquareSizeUpperBound 2"
proof -
  have "iw_codec_ok (ap_sq sample_app)" "extends_squares (ap_da sample_app)"
    using sample_iw_codec_ok sample_extends by simp_all
  then show ?thesis
    using PrepareProposal_succeeds [of sample_app sample_req "[[0xB0], [5]]" 6] sample_mempool_ok
        sample_runs sample_gov(1) by simp
qed

text \<open>
  C7. What acceptance commits to: when \<^verbatim>\<open>ProcessProposal\<close> accepts a block with transactions, every
  transaction passed the loop's checks, the square constructed from the transactions has the proposed
  size, and the proposed data root is the Merkle root of the row roots followed by the column roots
  of the square's extension.
\<close>

theorem ProcessProposal_sound:
  assumes "ProcessProposal app preq = Inr (ACCEPT, None)" "ap_baseProcess app preq = Inr (res, None)"
    "pq_Txs preq \<noteq> []"
  shows "\<exists>ctx sq eds rows cols s.
    process_txs app (ap_newContext app (pq_Height preq) (pq_Time preq)) (pq_Txs preq) = Inr ctx
    \<and> Construct (ap_sq app) (pq_Txs preq) (ap_AppVersion app) (GovSquareSizeUpperBound app ctx) = Inr sq
    \<and> Size_sq sq = Inr s \<and> pq_SquareSize preq = word_of_int s
    \<and> ExtendShares (ap_da app) (ToBytes sq) = Inr eds
    \<and> d_rowRoots (ap_da app) eds = Inr rows \<and> d_colRoots (ap_da app) eds = Inr cols
    \<and> pq_DataHash preq = d_hash (ap_da app) (hash_slices rows cols)"
  by (rule accepted_proposal [OF assms])

theorem ProcessProposal_sound_witness:
  "\<exists>resp sq s. PrepareProposal sample_app sample_req = Inr resp
     \<and> Construct sample_ext (rp_Txs resp) 2 64 = Inr sq \<and> Size_sq sq = Inr s \<and> rp_SquareSize resp = word_of_int s"
proof -
  from sample_PrepareProposal obtain resp where
    r: "PrepareProposal sample_app sample_req = Inr resp" "rp_Txs resp = [[5], [0xB0]]" .
  have "ProcessProposal sample_app (sample_preq resp) = Inr (ACCEPT, None)"
    by (rule honest_proposal_accepted [OF r(1), where res = ACCEPT and ctx = 2])
      (use r sample_process_txs in \<open>simp_all add: sample_gov del: process_txs.simps\<close>)
  from ProcessProposal_sound [OF this, of ACCEPT] r show ?thesis
    by (auto simp: sample_gov simp del: process_txs.simps)
qed

text \<open>
  A block without transactions is accepted whatever its square size and data root: the early return for an
  empty block comes before the two comparisons.
\<close>

theorem ProcessProposal_empty_block:
  assumes "ap_baseProcess app preq = Inr (res, None)" "pq_Txs preq = []"
  shows "ProcessProposal app preq = Inr (ACCEPT, None)"
  by (rule empty_block_accepted [OF assms])

theorem ProcessProposal_empty_block_witness:
  "ProcessProposal sample_app \<lparr>pq_Txs = [], pq_Height = 6, pq_Time = 0, pq_SquareSize = 77, pq_DataHash = [1]\<rparr>
     = Inr (ACCEPT, None)"
  by (rule ProcessProposal_empty_block [where res = ACCEPT]) (simp_all add: sample_app_def)

section \<open>The data square\<close>

text \<open>
  C3. The proposer and the validators agree on the square: if \<^verbatim>\<open>Build\<close> accepts some of the
  prioritised transactions and returns a square together with the block's transactions, then
  \<^verbatim>\<open>Construct\<close>, run by a validator on exactly those transactions with the same or any greater bound on the square, returns the same square.
\<close>

theorem Construct_agrees_with_Build:
  assumes "m \<le> n" "n < 2 ^ 31" "IsPowerOfTwo wrap_int n" "Build x txs v m = Inr (sq, txs')"
  shows "Construct x txs' v n = Inr sq"
  using Construct_of_Build_bound [OF assms] .

theorem Construct_agrees_with_Build_witness:
  "\<exists>sq txs'. Build sample_ext [[0xB0], [5]] 2 2 = Inr (sq, txs') \<and> Construct sample_ext txs' 2 2 = Inr sq \<and> Construct sample_ext txs' 2 4 = Inr sq"
proof -
  obtain sq txs' where "Build sample_ext [[0xB0], [5]] 2 2 = Inr (sq, txs')"
    using Build_total [of 2 1 2 sample_ext "[[0xB0], [5]]"] sample_all_accepted sample_iw_codec_ok
      SquareSizeUpperBound_cases [of 2] by auto
  moreover have "IsPowerOfTwo wrap_int 2" "IsPowerOfTwo wrap_int 4" by code_simp+
  ultimately show ?thesis
    using Construct_agrees_with_Build [of 2 2 sample_ext "[[0xB0], [5]]" 2 sq txs']
      Construct_agrees_with_Build [of 2 4 sample_ext "[[0xB0], [5]]" 2 sq txs'] by auto
qed

text \<open>
  C4. \<^verbatim>\<open>Build\<close> always succeeds on transactions whose blobs the application accepts, for every maximal
  square size that is a power of two within the version's bound. The block's transactions are a
  selection of the normal transactions followed by a selection of the blob transactions, both in
  their order of priority; the square's side is a power of two of at most the maximum; the five
  regions of the square parse back to the transactions, the payments and the blobs, and each
  payment's share index is aligned to the blob's subtree width and is where the blob's shares start.
\<close>

theorem Build_succeeds:
  assumes "m = 2 ^ k" "m \<le> SquareSizeUpperBound v" "all_accepted x txs" "iw_codec_ok x"
  shows "\<exists>normal blob g pfbs s.
    Build x txs v m = Inr (regions_square g, normal @ blob)
    \<and> subseq normal (filter (\<lambda>tx. \<not> is_blob_tx x tx) txs) \<and> subseq blob (filter (is_blob_tx x) txs)
    \<and> block_layout x normal (map (decode x) blob) pfbs g
    \<and> length (regions_square g) = 2 ^ s * 2 ^ s \<and> (2::int) ^ s \<le> m"
  by (rule Build_total [OF assms])

theorem Build_succeeds_witness:
  "\<exists>g normal blob. Build sample_ext [[0xB0], [5]] 2 4 = Inr (regions_square g, normal @ blob)
     \<and> length (regions_square g) \<le> 16"
proof -
  obtain normal blob g s where g: "Build sample_ext [[0xB0], [5]] 2 4 = Inr (regions_square g, normal @ blob)"
      "length (regions_square g) = 2 ^ s * 2 ^ s" "(2::int) ^ s \<le> 4"
    using Build_succeeds [of 4 2 2 sample_ext "[[0xB0], [5]]"] sample_all_accepted sample_iw_codec_ok
      SquareSizeUpperBound_cases [of 2] by auto
  have "(2::int) ^ s * 2 ^ s \<le> 4 * 4" using g(3) by (intro mult_mono) auto
  then have "int (length (regions_square g)) \<le> 16" using g(2) by simp
  then show ?thesis using g(1) by fastforce
qed

text \<open>
  C5. Reading a block back: when the transactions are non-empty, their blobs are in the users' namespaces,
  and the codecs decode what they encode, \<^verbatim>\<open>Deconstruct\<close> of the square that \<^verbatim>\<open>Build\<close> returns gives exactly
  the block's transactions, in order.
\<close>

theorem Deconstruct_inverts_Build:
  assumes "m = 2 ^ k" "m \<le> SquareSizeUpperBound v" "iw_codec_ok x" "all_accepted x txs"
    and "\<forall>tx\<in>set txs. tx \<noteq> []"
    and "\<forall>tx\<in>set txs. is_blob_tx x tx \<longrightarrow> deconstructible x tx
      \<and> (\<forall>b\<in>set (btx_Blobs (decode x tx)). \<not> IsReserved (Namespace_blob b))"
    and "Build x txs v m = Inr (sq, txs')"
  shows "Deconstruct x sq = Inr txs'"
  by (rule Deconstruct_Build [OF assms])

theorem Deconstruct_inverts_Build_witness:
  "\<exists>sq txs'. Build sample_ext [[0xB0], [5]] 2 4 = Inr (sq, txs') \<and> Deconstruct sample_ext sq = Inr txs'"
proof -
  obtain sq txs' where b: "Build sample_ext [[0xB0], [5]] 2 4 = Inr (sq, txs')"
    using Build_total [of 4 2 2 sample_ext "[[0xB0], [5]]"] sample_all_accepted sample_iw_codec_ok
      SquareSizeUpperBound_cases [of 2] by auto
  have "\<not> is_blob_tx sample_ext [5]" by (simp add: sample_ext_def UnmarshalBlobTx_def)
  then have "\<forall>tx\<in>set [[0xB0], [5]]. is_blob_tx sample_ext tx \<longrightarrow> deconstructible sample_ext tx
      \<and> (\<forall>b\<in>set (btx_Blobs (decode sample_ext tx)). \<not> IsReserved (Namespace_blob b))"
    using sample_deconstructible by (simp add: sample_btx_def sample_blob_def)
  then show ?thesis
    using Deconstruct_inverts_Build [OF _ _ sample_iw_codec_ok sample_all_accepted _ _ b, of 2] b
      SquareSizeUpperBound_cases [of 2] by auto
qed



text \<open>
  C6. A blob's commitment can be read off the square: when the blob's shares lie in the square at the index that
  \<^verbatim>\<open>NextShareIndex\<close> gives, and the caches hold the inner nodes of the row trees, \<^verbatim>\<open>GetCommitment\<close>, which
  walks the row trees down to the coordinates of the blob's subtree roots, returns what
  \<^verbatim>\<open>CreateCommitment\<close> computes from the blob alone.
\<close>

theorem GetCommitment_is_CreateCommitment:
  assumes "square_cached nmt_root caches rowRoots D rows sq" "D \<le> 31"
    and "user_blob blob" "SplitBlobs [blob] = Inr shares"
    and "0 \<le> start" "NextShareIndex start (int (length shares)) DefaultSubtreeRootThreshold = Inr i"
    and "take (length shares) (drop (nat i) sq) = shares" "i + int (length shares) \<le> 2 ^ D * 2 ^ D"
  shows "GetCommitment hash_roots caches rowRoots start (int (length shares)) DefaultSubtreeRootThreshold
    = CreateCommitment nmt_root hash_roots blob"
  by (rule GetCommitment_agrees [OF assms])

theorem GetCommitment_is_CreateCommitment_witness:
  "GetCommitment sample_hash_roots sample_caches [concat sample_leaves, []] 0 1 DefaultSubtreeRootThreshold
     = Inr sample_commitment"
proof -
  have i: "NextShareIndex 0 1 DefaultSubtreeRootThreshold = Inr 0" by code_simp
  have "user_blob sample_blob" using sample_blob_sized by (simp add: sized_blob_def)
  then show ?thesis
    using GetCommitment_is_CreateCommitment [OF sample_cached _ _ sample_blob_shares, of 0 0 sample_hash_roots] i
      sample_CreateCommitment by simp
qed

section \<open>Blobs and transactions to shares and back\<close>



text \<open>
  C10. Parsing inverts splitting for transactions: \<^verbatim>\<open>SplitTxs\<close> succeeds on every list of non-empty
  transactions, and \<^verbatim>\<open>ParseTxs\<close> of its two share sequences returns the normal transactions and the
  wrapped payment transactions, each in order.
\<close>

theorem ParseTxs_inverts_SplitTxs:
  assumes "\<forall>tx\<in>set txs. tx \<noteq> [] \<and> length tx < 2 ^ 64"
  shows "\<exists>txShares pfbShares m. SplitTxs unwrap key txs = Inr (txShares, pfbShares, m)
    \<and> ParseTxs txShares = Inr (filter (\<lambda>tx. unwrap tx = None) txs)
    \<and> ParseTxs pfbShares = Inr (filter (\<lambda>tx. unwrap tx \<noteq> None) txs)"
  by (rule SplitTxs_parse [OF assms])

theorem ParseTxs_inverts_SplitTxs_witness:
  "\<exists>a b m. SplitTxs (x_unwrap sample_ext) (x_key sample_ext) [[1, 2], [0x0A, 3], [4]] = Inr (a, b, m)
     \<and> ParseTxs a = Inr [[1, 2], [4]] \<and> ParseTxs b = Inr [[0x0A, 3]]"
  using ParseTxs_inverts_SplitTxs [of "[[1, 2], [0x0A, 3], [4]]" "x_unwrap sample_ext" "x_key sample_ext"]
  by (simp add: sample_ext_def sample_unwrap_def)

text \<open>
  C11. The counter predicts the splitter: after the same transactions, \<^verbatim>\<open>CompactShareCounter.Size\<close> is
  \<^verbatim>\<open>CompactShareSplitter.Count\<close>, which is the number of shares \<^verbatim>\<open>Export\<close> returns and what
  \<^verbatim>\<open>CompactSharesNeeded\<close> computes from the total length.
\<close>

theorem counter_predicts_splitter:
  assumes "ns = TxNamespace \<or> ns = PayForBlobNamespace"
  shows "\<exists>css css' shares c.
    bindR (NewCompactShareSplitter ns 0) (foldR (\<lambda>tx css. WriteTx key css tx) txs) = Inr css
    \<and> Export_css css = Inr (css', shares)
    \<and> foldR (\<lambda>tx c. Inr (fst (Add_csc c (int (length tx))))) txs NewCompactShareCounter = Inr c
    \<and> Size_csc c = int (Count_css css) \<and> length shares = Count_css css
    \<and> Size_csc c = CompactSharesNeeded (int (sum_list (map (unit_size \<circ> length) txs)))"
proof -
  obtain w where w: "NewCompactShareSplitter ns 0 = Inr w" "css_holds ns w []"
    using New_css_holds [OF assms] by blast
  obtain css where css: "foldR (\<lambda>tx css. WriteTx key css tx) txs w = Inr css" "css_holds ns css txs"
    using foldR_WriteTx_holds [OF w(2), of key txs] by auto
  obtain c where c: "foldR (\<lambda>tx c. Inr (fst (Add_csc c (int (length tx))))) txs NewCompactShareCounter = Inr c"
    using counter.fold_rep [OF counts_New, of txs] by auto
  have "Size_csc c = int (needed 474 478 (sum_list (map (unit_size \<circ> length) txs)))"
    using counter.size_fold [OF counts_New c] by simp
  then show ?thesis
    using w(1) css c Count_holds [OF css(2)] Export_holds [OF css(2)] CompactSharesNeeded_needed by auto
qed

theorem counter_predicts_splitter_witness:
  "\<exists>css c. bindR (NewCompactShareSplitter TxNamespace 0) (foldR (\<lambda>tx css. WriteTx (\<lambda>t. t) css tx) [[1], zeros 600]) = Inr css
     \<and> foldR (\<lambda>tx c. Inr (fst (Add_csc c (int (length tx))))) [[1], zeros 600] NewCompactShareCounter = Inr c
     \<and> Size_csc c = int (Count_css css)"
  using counter_predicts_splitter [of TxNamespace "\<lambda>t. t" "[[1], zeros 600]"] by blast

section \<open>Paying for blobs\<close>

text \<open>
  C12. What \<^verbatim>\<open>ValidateBlobTx\<close> accepts, exactly: the transaction decodes to a single \<^verbatim>\<open>MsgPayForBlobs\<close> that
  is valid by itself, there is at least one blob, every blob is in a supported, unreserved namespace
  with data and share version zero, and the message's sizes, namespaces and share commitments are
  those of the blobs, in order.
\<close>

theorem ValidateBlobTx_exact:
  "ValidateBlobTx p btx = Inr () \<longleftrightarrow>
     (\<exists>msg. p_decoder p (btx_Tx btx) = Inr [PFB msg] \<and> ValidateBasic_pfb p msg = Inr ()
        \<and> pays_for p msg (btx_Blobs btx))"
  by (rule ValidateBlobTx_iff)

text \<open>
  The message that the client builds with \<^verbatim>\<open>NewMsgPayForBlobs\<close> for some blobs is one that the stateless
  check accepts: every blob transaction that carries these blobs and decodes to this message passes
  \<^verbatim>\<open>ValidateBlobTx\<close>.
\<close>

theorem client_message_is_accepted:
  assumes "NewMsgPayForBlobs p signer blobs = Inr msg" "p_decoder p tx = Inr [PFB msg]"
  shows "ValidateBlobTx p \<lparr>btx_Tx = tx, btx_Blobs = blobs, btx_TypeId = ty\<rparr> = Inr ()"
  using NewMsg_pays_for [OF assms(1)] assms(2) by (auto simp: ValidateBlobTx_iff)

theorem client_message_is_accepted_witness:
  "NewMsgPayForBlobs sample_pf ''signer'' [sample_blob] = Inr sample_msg
     \<and> ValidateBlobTx sample_pf \<lparr>btx_Tx = [7, 7], btx_Blobs = [sample_blob], btx_TypeId = ''BLOB''\<rparr> = Inr ()"
  using client_message_is_accepted [OF sample_NewMsg, of "[7, 7]" "''BLOB''"] sample_NewMsg
  by (simp add: sample_pf_def)

text \<open>
  The gas of a payment: for blob sizes that \<^verbatim>\<open>SparseSharesNeeded\<close> handles, \<^verbatim>\<open>GasToConsume\<close> returns, as a
  64-bit product, the number of shares the blobs occupy times 512 times the gas per byte.
\<close>

theorem gas_formula:
  assumes "\<forall>n\<in>set sizes. unat n \<le> MaxSparseLen"
  shows "GasToConsume sizes gasPerByte =
    Inr (of_nat (sum_list (map (\<lambda>n. needed 478 482 (unat n)) sizes) * 512) * ucast gasPerByte)"
  by (rule GasToConsume_eq [OF assms])

theorem gas_formula_witness: "GasToConsume [3, 479, 960, 961] 8 = Inr (8 * 512 * 8)"
  using gas_formula [of "[3, 479, 960, 961]" 8] by (simp add: MaxSparseLen_def needed_def)

text \<open>
  A transaction that passes \<^verbatim>\<open>MinGasPFBDecorator\<close> outside of a recheck can pay for its blobs: for each of
  its payments, the gas that \<^verbatim>\<open>PayForBlobs\<close> will consume is defined and at most the gas that remained.
\<close>

theorem ante_gas_covers_handler:
  assumes "AnteHandle_MinGasPFB s False txGas msgs next = Inr r" "PFB pfb \<in> set msgs"
  shows "\<exists>g. GasToConsume (pfb_BlobSizes pfb) (GasPerBlobByte (GetParams_blob s)) = Inr g \<and> g \<le> txGas"
  by (rule AnteHandle_MinGasPFB_gas [OF assms])

theorem ante_gas_covers_handler_witness:
  "\<exists>g. GasToConsume [3] 8 = Inr g \<and> g \<le> 5000"
proof -
  have "AnteHandle_MinGasPFB (Some DefaultParams) False 5000 [PFB sample_msg] (Inr ()) = Inr ()" by code_simp
  from ante_gas_covers_handler [OF this, of sample_msg] show ?thesis
    by (simp add: sample_msg_def GetParams_blob_def DefaultParams_def DefaultGasPerBlobByte_def)
qed

text \<open>
  A transaction that passes \<^verbatim>\<open>MaxTotalBlobSizeDecorator\<close> in \<^verbatim>\<open>CheckTx\<close> has, for each payment, a total
  blob size that fits the shares a square of the current maximal size has besides one.
\<close>

theorem ante_size_fits_square:
  assumes "AnteHandle_MaxTotalBlobSize s height v True msgs next = Inr r" "PFB pfb \<in> set msgs"
  shows "int (sum_list (map unat (pfb_BlobSizes pfb))) \<le> maxTotalBlobSize s height v"
  by (rule AnteHandle_MaxTotalBlobSize_bound [OF assms])

theorem ante_size_fits_square_witness:
  "int (sum_list (map unat (pfb_BlobSizes sample_msg))) \<le> maxTotalBlobSize (Some DefaultParams) 6 2"
proof -
  have "AnteHandle_MaxTotalBlobSize (Some DefaultParams) 6 2 True [PFB sample_msg] (Inr ()) = Inr ()" by code_simp
  from ante_size_fits_square [OF this, of sample_msg] show ?thesis by simp
qed

text \<open>
  The parameter validation admits a maximal square size of \<open>2 ^ 63\<close>, which the conversion to \<^verbatim>\<open>int\<close> makes
  negative; the bound of the square is then negative and no proposal can be built.
\<close>

theorem gov_bound_negative:
  assumes "ap_store app ctx = Some \<lparr>GasPerBlobByte = 8, GovMaxSquareSize = 2 ^ 63\<rparr>" "1 < ap_ctxHeight app ctx"
  shows "Validate_params \<lparr>GasPerBlobByte = 8, GovMaxSquareSize = 2 ^ 63\<rparr> = Inr ()
    \<and> GovSquareSizeUpperBound app ctx = - (2 ^ 63)
    \<and> (\<exists>e. Build x txs v (GovSquareSizeUpperBound app ctx) = Inl (Err e))"
proof -
  have g: "GovSquareSizeUpperBound app ctx = - (2 ^ 63)"
    using assms SquareSizeUpperBound_cases [of "ap_ctxVersion app ctx"]
    by (auto simp: GovSquareSizeUpperBound_def GetParams_blob_def Let_def)
  moreover have "Validate_params \<lparr>GasPerBlobByte = 8, GovMaxSquareSize = 2 ^ 63\<rparr> = Inr ()" by code_simp
  moreover have "\<exists>e. Build x txs v (- (2 ^ 63)) = Inl (Err e)"
    by (simp add: Build_def NewBuilder_sq_def)
  ultimately show ?thesis by simp
qed

theorem gov_bound_negative_witness:
  "GovSquareSizeUpperBound (sample_app\<lparr>ap_store := (\<lambda>_. Some \<lparr>GasPerBlobByte = 8, GovMaxSquareSize = 2 ^ 63\<rparr>)\<rparr>) 0
     = - (2 ^ 63)"
proof -
  have "1 < ap_ctxHeight (sample_app\<lparr>ap_store := (\<lambda>_. Some \<lparr>GasPerBlobByte = 8, GovMaxSquareSize = 2 ^ 63\<rparr>)\<rparr>) 0"
    by (simp add: sample_app_def)
  from gov_bound_negative [OF _ this] show ?thesis by simp
qed

section \<open>Where blobs lie and what commits to them\<close>

text \<open>
  \<^verbatim>\<open>NextShareIndex\<close> returns the first index at or after the cursor that the blob's subtree width divides;
  the padding it skips is less than one subtree width.
\<close>

theorem NextShareIndex_aligned_least:
  assumes "0 \<le> c" "0 \<le> n" "n \<le> 2 ^ 62" "0 < t"
  shows "\<exists>i w. NextShareIndex c n t = Inr i \<and> SubTreeWidth n t = Inr w \<and> w dvd i \<and> c \<le> i \<and> i < c + w
    \<and> (\<forall>j. c \<le> j \<and> w dvd j \<longrightarrow> i \<le> j)"
  using NextShareIndex_eq [OF assms] SubTreeWidth_eq [OF assms(2,3,4)] next_index_aligned [of n t c]
    next_index_bounds [of c n t] next_index_least [of c _ n t] by auto

theorem NextShareIndex_aligned_least_witness:
  "\<exists>i w. NextShareIndex 5 100 64 = Inr i \<and> SubTreeWidth 100 64 = Inr w \<and> w dvd i \<and> 5 \<le> i \<and> i < 5 + w"
  using NextShareIndex_aligned_least [of 5 100 64] by auto

text \<open>
  \<^verbatim>\<open>MerkleMountainRangeSizes\<close> returns, for a maximal tree size that is a power of two, a decreasing list
  of powers of two of at most the maximum that sums to the number of leaves, in which only the maximum
  repeats.
\<close>

theorem MerkleMountainRangeSizes_correct:
  assumes "0 \<le> n" "n \<le> 2 ^ 63" "m = 2 ^ k"
  shows "\<exists>sizes. MerkleMountainRangeSizes n m = Inr sizes \<and> sum_list sizes = n \<and> sorted (rev sizes)
    \<and> (\<forall>s\<in>set sizes. s \<le> m \<and> (\<exists>j. s = 2 ^ j)) \<and> distinct (filter (\<lambda>s. s \<noteq> m) sizes)"
  using MerkleMountainRangeSizes_ok [OF assms] by (auto simp: mountain_range_def)

theorem MerkleMountainRangeSizes_correct_witness:
  "\<exists>sizes. MerkleMountainRangeSizes 11 4 = Inr sizes \<and> sum_list sizes = 11"
  using MerkleMountainRangeSizes_correct [of 11 4 2] by auto

text \<open>
  The coordinates of a blob's subtree roots tile the blob: the leaves under the nodes that
  \<^verbatim>\<open>calculateSubTreeRootCoordinates\<close> returns follow one another from the start to the end, no node is
  above the minimal depth, and from an aligned start the sizes of the nodes are those of the mountain
  range that \<^verbatim>\<open>CreateCommitment\<close> uses.
\<close>

theorem subtree_coordinates_tile:
  assumes "0 \<le> l" "l < e" "M \<le> D"
  shows "\<exists>cs. calculateSubTreeRootCoordinates D M l e = Inr cs \<and> tiles D l cs e
    \<and> (\<forall>c\<in>set cs. M \<le> co_depth c \<and> co_depth c \<le> D)
    \<and> (2 ^ nat (D - M) dvd l \<longrightarrow> mountain_range (e - l) (2 ^ nat (D - M)) (map (node_size D) cs))"
  by (rule calculateSubTreeRootCoordinates_tiles [OF assms])

theorem subtree_coordinates_tile_witness:
  "\<exists>cs. calculateSubTreeRootCoordinates 4 2 4 11 = Inr cs \<and> tiles 4 4 cs 11
     \<and> mountain_range 7 4 (map (node_size 4) cs)"
  using subtree_coordinates_tile [of 4 11 2 4] by auto

text \<open>
  The erasured tree of an axis: pushing the cells of a row or column of the extended square into
  \<^verbatim>\<open>ErasuredNamespacedMerkleTree\<close> pushes into the namespaced tree each cell behind its own namespace in
  the original quadrant and behind the parity namespace elsewhere, and counts the cells.
\<close>

theorem wrapper_leaves:
  assumes "NewTree nmt_new (of_nat s) (of_nat a) = Inr w" "s < 2 ^ 63" "a < 2 * s"
    "length cells \<le> 2 * s" "\<forall>c\<in>set cells. NamespaceSize \<le> length c"
  shows "foldR (\<lambda>c w. Push_w push w c) cells w =
    bindR (foldR (\<lambda>l t. push t l)
        (map (\<lambda>i. (if i < s \<and> a < s then take NamespaceSize (cells ! i) else Bytes_ns ParitySharesNamespace) @ cells ! i)
          [0..<length cells]) nmt_new)
      (\<lambda>t. Inr (w\<lparr>w_tree := t, w_shareIndex := of_nat (length cells)\<rparr>))"
  using axis_leaves_pushed [OF assms] by (simp add: axis_leaves_def erasured_leaf_def)

theorem wrapper_leaves_witness:
  "\<exists>w w'. NewTree [] 1 0 = Inr w
     \<and> foldR (\<lambda>c w. Push_w (\<lambda>t l. Inr (t @ [l])) w c) [zeros 40, zeros 40] w = Inr w'
     \<and> w_tree w' = [take 29 (zeros 40) @ zeros 40, Bytes_ns ParitySharesNamespace @ zeros 40]"
proof -
  obtain w where w: "NewTree ([] :: bytes list) (of_nat 1) (of_nat 0) = Inr w"
    by (auto simp: NewTree_def NewErasuredNamespacedMerkleTree_def)
  then show ?thesis
    using wrapper_leaves [OF w, of "[zeros 40, zeros 40]" "\<lambda>t l. Inr (t @ [l])"] by auto
qed

text \<open>
  A valid header survives its wire form: converting it with \<^verbatim>\<open>ToProto\<close> and back gives a valid header with
  the same roots, equal to the first, whether or not its hash had been computed.
\<close>

theorem data_availability_header_roundtrip:
  assumes "memo_ok d h" "ValidateBasic_dah d (Some h) = (dah, Inr ())" "ToProto_dah (Some h) = Inr p"
  shows "\<exists>h'. DataAvailabilityHeaderFromProto d (Some p) = (Some h', Inr ())
    \<and> RowRoots h' = RowRoots h \<and> ColumnRoots h' = ColumnRoots h \<and> Equals_dah d (Some h) (Some h')"
  by (rule FromProto_ToProto [OF assms])

theorem data_availability_header_roundtrip_witness:
  "\<exists>h'. DataAvailabilityHeaderFromProto sample_da (Some \<lparr>p_RowRoots = [[1], [2]], p_ColumnRoots = [[3], [4]]\<rparr>)
     = (Some h', Inr ()) \<and> RowRoots h' = [[1], [2]]"
proof -
  let ?h = "\<lparr>RowRoots = [[1], [2]], ColumnRoots = [[3], [4]], dah_hash = []\<rparr> :: DataAvailabilityHeader"
  have v: "snd (ValidateBasic_dah sample_da (Some ?h)) = Inr ()" by code_simp
  then obtain dah where "ValidateBasic_dah sample_da (Some ?h) = (dah, Inr ())" by (metis prod.collapse)
  from data_availability_header_roundtrip [OF _ this] show ?thesis
    by (auto simp: memo_ok_def ToProto_dah_def)
qed

section \<open>Share sizes, ranges and fields\<close>

text \<open>
  \<^verbatim>\<open>SparseSharesNeeded\<close> returns the least number of shares that hold a blob, for every length up to
  4294967036 bytes.
\<close>

theorem SparseSharesNeeded_least:
  assumes "unat n \<le> MaxSparseLen"
  shows "\<exists>k. SparseSharesNeeded n = Inr (int k)
    \<and> (\<forall>j. int (unat n) \<le> AvailableBytesFromSparseShares (int j) \<longleftrightarrow> k \<le> j)"
proof (intro exI conjI allI)
  show "SparseSharesNeeded n = Inr (int (needed 478 482 (unat n)))" by (rule SparseSharesNeeded_needed [OF assms])
  fix j show "int (unat n) \<le> AvailableBytesFromSparseShares (int j) \<longleftrightarrow> needed 478 482 (unat n) \<le> j"
    unfolding AvailableBytes_capacity(2) of_nat_le_iff using sparse_layout.needed_le_iff [of "unat n" j] by simp
qed

theorem SparseSharesNeeded_least_witness:
  "\<exists>k. SparseSharesNeeded 961 = Inr (int k)
     \<and> (\<forall>j. 961 \<le> AvailableBytesFromSparseShares (int j) \<longleftrightarrow> k \<le> j)"
  using SparseSharesNeeded_least [of 961] by (simp add: MaxSparseLen_def)

text \<open>
  Above that bound the 32-bit comparison of the loop wraps around: for the length \<open>2 ^ 32 - 1\<close> the loop of
  \<^verbatim>\<open>SparseSharesNeeded\<close> never ends.
\<close>

theorem SparseSharesNeeded_diverges: "SparseSharesNeeded 0xFFFFFFFF = Inl Diverge"
  by (rule SparseSharesNeeded_stuck)

text \<open>
  On shares in the order of their namespaces, \<^verbatim>\<open>GetShareRangeForNamespace\<close> returns the range that contains
  exactly the shares of the namespace, and the empty range when there is none.
\<close>

theorem GetShareRange_exact:
  assumes "list_all2 (\<lambda>s n. Namespace_sh s = Inr n) shares nss" "sorted nss"
  shows "\<exists>r. GetShareRangeForNamespace shares ns = Inr r
    \<and> (\<forall>j < length shares. Start r \<le> int j \<and> int j < End r \<longleftrightarrow> Namespace_sh (shares ! j) = Inr ns)"
proof -
  have len: "length nss = length shares" using assms(1) by (simp add: list_all2_lengthD)
  have nth: "Namespace_sh (shares ! j) = Inr (nss ! j)" if "j < length shares" for j
    using assms(1) that by (simp add: list_all2_conv_all_nth)
  have "ns \<notin> set nss \<Longrightarrow> j < length shares \<Longrightarrow> nss ! j \<noteq> ns" for j using len by auto
  then show ?thesis
    using GetShareRangeForNamespace_range [OF assms, of ns] sorted_in_range_iff [OF assms(2)] nth len
    by (auto simp: NewRange_def EmptyRange_def)
qed

theorem GetShareRange_exact_witness:
  "\<exists>r. GetShareRangeForNamespace [sample_share, sample_share] sample_ns = Inr r \<and> Start r \<le> 0 \<and> 0 < End r"
proof -
  have "Namespace_sh sample_share = Inr sample_ns" by code_simp
  then show ?thesis
    using GetShareRange_exact [of "[sample_share, sample_share]" "[sample_ns, sample_ns]" sample_ns]
    by (auto dest!: spec [of _ 0])
qed

text \<open>
  \<^verbatim>\<open>ParseShares\<close> partitions the shares: the sequences it finds, of which it may drop the padding,
  concatenate to the shares; each starts with its only sequence start, has one namespace and valid
  shares, and as many shares as its length field requires.
\<close>

theorem ParseShares_partitions:
  assumes "ParseShares shares ignorePadding = Inr res"
  shows "\<exists>all. concat (map seq_Shares all) = shares \<and> list_all sequence_ok all
    \<and> (\<forall>q\<in>set all. validSequenceLen q = Inr ())
    \<and> res = filter (\<lambda>q. \<not> (ignorePadding \<and> isPadding_seq q = Inr True)) all"
  using ParseShares_sound [OF assms] by metis

theorem ParseShares_partitions_witness:
  "\<exists>res all. ParseShares [sample_share, sample_share] False = Inr res \<and> concat (map seq_Shares all) = [sample_share, sample_share]
     \<and> res = all"
proof -
  have "\<not> isl (ParseShares [sample_share, sample_share] False)" by code_simp
  then obtain res where r: "ParseShares [sample_share, sample_share] False = Inr res" by (metis sum.collapse(2))
  from ParseShares_partitions [OF r] r show ?thesis by auto
qed

text \<open>
  \<^verbatim>\<open>RoundUpPowerOfTwo\<close> on \<^verbatim>\<open>int\<close>: up to \<open>2 ^ 62\<close> it returns the least power of two that is not less than the
  input, and above it the doubling wraps around and the loop never ends.
\<close>

theorem RoundUpPowerOfTwo_spec:
  "(n \<le> 2 ^ 62 \<and> (\<exists>k. RoundUpPowerOfTwo wrap_int n = Inr (2 ^ k) \<and> n \<le> 2 ^ k \<and> \<not> (\<exists>j<k. n \<le> 2 ^ j)))
   \<or> (2 ^ 62 < n \<and> RoundUpPowerOfTwo wrap_int n = Inl Diverge)"
proof (cases "n \<le> 2 ^ 62")
  case True
  obtain k where k: "pow2_up n = 2 ^ k" using pow2_up_is_pow2 by blast
  then have "\<not> (\<exists>j<k. n \<le> 2 ^ j)" using pow2_up_least [of n] by (metis le_less_trans less_irrefl one_less_numeral_iff power_strict_increasing semiring_norm(76))
  then show ?thesis using True k go_int.RoundUp_correct [of n] pow2_up_ge [of n] by auto
next
  case False
  then show ?thesis using go_int.RoundUp_diverges [of n] by auto
qed

text \<open>
  C40. \<^verbatim>\<open>From\<close> and \<^verbatim>\<open>Bytes\<close> are inverse: \<^verbatim>\<open>From\<close> accepts exactly the 29-byte encodings of the valid namespaces and
  returns the namespace that was encoded.
\<close>

theorem namespace_roundtrip:
  "From_ns b = Inr n \<longleftrightarrow> b = Bytes_ns n \<and> valid_ns n"
  by (rule From_ns_iff)

section \<open>Blobstream\<close>

text \<open>
  C31. In every state that the module reaches from a genesis state with a valid window through messages, hooks and
  ends of blocks, the stored attestations have the consecutive nonces from the earliest available nonce to the latest
  one, each is readable and has the nonce it is stored under, and the data commitments, in the order of their
  nonces, cover consecutive non-empty ranges of blocks up to a block that exists.
\<close>

theorem blobstream_invariant:
  assumes "reach (b_unmarshal x) limit h s" "uint limit < 2 ^ 62" "h < 2 ^ 30"
  shows "\<exists>earliest atts. 1 \<le> earliest \<and> GetEarliestAvailableAttestationNonce s = Inr (w64 earliest)
    \<and> GetLatestAttestationNonce s = Inr (w64 (earliest + length atts - 1))
    \<and> (\<forall>i < length atts. GetAttestationByNonce x s (w64 (earliest + i)) = Inr (Some (atts ! i))
         \<and> GetNonce (atts ! i) = w64 (earliest + i))
    \<and> (\<forall>n. unat n < earliest \<or> earliest + length atts \<le> unat n \<longrightarrow> GetAttestationByNonce x s n = Inr None)
    \<and> chained (dcs atts) \<and> last_end atts \<le> h + 1"
proof -
  obtain e as where "bs_inv (b_unmarshal x) h s e as" using reach_inv [OF assms] by blast
  then have i: "holds (b_unmarshal x) s e as" "chained (dcs as)" "last_end as \<le> h + 1" by (auto simp: bs_inv_def)
  have st: "1 \<le> e" "e + length as < 2 ^ 64" "stored (b_unmarshal x) (bs_att s) e as" using i(1) by (auto simp: holds_def)
  have "GetAttestationByNonce x s n = Inr None" if "unat n < e \<or> e + length as \<le> unat n" for n
    using st(3) that by (auto simp: stored_def GetAttestationByNonce_def dest!: spec [of _ n])
  then show ?thesis
    using i(2,3) st(1) holds_nonces(3,4) [OF i(1)] stored_at [OF st(3) _ st(2)]
    by (intro exI [of _ e] exI [of _ as]) auto
qed

theorem blobstream_invariant_witness:
  "\<exists>earliest. 1 \<le> earliest \<and> GetEarliestAvailableAttestationNonce sample_bs1 = Inr (w64 earliest)"
proof -
  have "b_unmarshal sample_bsx = sample_unmarshal" by (simp add: sample_bsx_def)
  then show ?thesis using blobstream_invariant [of sample_bsx 1000 1 sample_bs1] sample_reach(2) by auto
qed

text \<open>
  C32. The end of a block, once its validator set request succeeded, ends without a panic: it appends at most one
  validator set and as many data commitments as are due, after which none is due, and removes exactly the
  longest run of oldest attestations that expired, always leaving the latest one.
\<close>

theorem EndBlocker_catches_up:
  assumes "reach (b_unmarshal x) limit h s" "uint limit < 2 ^ 62" "h < 2 ^ 30" "codec_ok x"
    and "handleValsetRequest x (h + 1) t s = Inr s1"
  shows "\<exists>s' earliest atts vs ds. holds (b_unmarshal x) s earliest atts \<and> EndBlocker x (h + 1) t s = Inr s'
    \<and> (let all = atts @ vs @ map AttDataCommitment ds; k = length (takeWhile (expired t) (butlast all)) in
         holds (b_unmarshal x) s' (earliest + k) (drop k all)
         \<and> \<not> due (h + 1) (uint (GetDataCommitmentWindowParam s)) all)
    \<and> length vs \<le> 1 \<and> (\<forall>v\<in>set (vs @ map AttDataCommitment ds). BlockTime v = t)"
proof -
  obtain e as where inv: "bs_inv (b_unmarshal x) h s e as" using reach_inv [OF assms(1-3)] by blast
  from EndBlocker_step [OF inv reach_height [OF assms(1)] assms(3-5)] obtain s' vs ds k where
    s': "EndBlocker x (h + 1) t s = Inr s'" "k = length (takeWhile (expired t) (butlast (as @ vs @ map AttDataCommitment ds)))"
      "bs_inv (b_unmarshal x) (h + 1) s' (e + k) (drop k (as @ vs @ map AttDataCommitment ds))"
      "vs = [] \<or> (\<exists>v. vs = [AttValset v] \<and> vs_Time v = t)" "\<forall>d\<in>set ds. dc_Time d = t"
      "\<not> due (h + 1) (uint (GetDataCommitmentWindowParam s)) (as @ vs @ map AttDataCommitment ds)" by blast
  then show ?thesis using inv
    by (intro exI [of _ s'] exI [of _ e] exI [of _ as] exI [of _ vs] exI [of _ ds]) (auto simp: bs_inv_def Let_def)
qed

theorem EndBlocker_catches_up_witness: "\<exists>s'. EndBlocker sample_bsx 1 10 sample_bs = Inr s'"
proof -
  obtain s1 where "handleValsetRequest sample_bsx (0 + 1) 10 sample_bs = Inr s1"
    using EndBlocker_valset [OF sample_EndBlocker1] by auto
  moreover have "reach (b_unmarshal sample_bsx) 1000 0 sample_bs" using sample_reach(1) by (simp add: sample_bsx_def)
  ultimately show ?thesis using EndBlocker_catches_up [OF _ _ _ sample_codec_ok, of 1000 0 sample_bs 10 s1] by auto
qed

text \<open>
  In such a state \<^verbatim>\<open>GetDataCommitmentForHeight\<close> returns the one stored data commitment whose range of blocks
  contains the height, and an error if there is none.
\<close>

theorem GetDataCommitmentForHeight_exact:
  assumes "holds (b_unmarshal x) s earliest atts" "chained (dcs atts)"
  shows "GetDataCommitmentForHeight x s n = Inr d \<longleftrightarrow>
    AttDataCommitment d \<in> set atts \<and> dc_BeginBlock d \<le> n \<and> n < dc_EndBlock d"
  using GetDataCommitmentForHeight_iff [OF assms] dcs_set by blast

theorem GetDataCommitmentForHeight_exact_witness:
  "GetDataCommitmentForHeight sample_bsx sample_dc_bs 100 = Inr sample_dc
   \<and> GetDataCommitmentForHeight sample_bsx sample_dc_bs 101 \<noteq> Inr sample_dc"
proof -
  have "b_unmarshal sample_bsx = sample_unmarshal" by (simp add: sample_bsx_def)
  then show ?thesis
    using GetDataCommitmentForHeight_exact [of sample_bsx sample_dc_bs 1 "[AttDataCommitment sample_dc]"] sample_dc_holds
    by (simp add: sample_dc_def)
qed

text \<open>
  A validator set that \<^verbatim>\<open>GetCurrentValset\<close> returns has members with distinct addresses and positive powers that
  add up to at most \<open>2 ^ 32\<close>, and its signature threshold is more than two thirds of them, without overflow.
\<close>

theorem valset_threshold:
  assumes "GetCurrentValset x height t s = (s', Inr v)" and "powers_bounded x"
  shows "let p = sum_list (map (\<lambda>m. uint (bv_Power m)) (vs_Members v)) in
    0 < p \<and> p \<le> 2 ^ 32 \<and> 2 * p < 3 * uint (TwoThirdsThreshold v) \<and> 3 * uint (TwoThirdsThreshold v) \<le> 2 * p + 6
    \<and> distinct (map bv_EvmAddress (vs_Members v)) \<and> list_all (\<lambda>m. bv_Power m \<noteq> 0) (vs_Members v)"
proof -
  note v = valset_powers [OF assms]
  let ?p = "sum_list (map (\<lambda>m. uint (bv_Power m)) (vs_Members v))"
  obtain m ms where m: "vs_Members v = m # ms" using v(3) by (cases "vs_Members v") auto
  have "uint (bv_Power m) \<noteq> 0" using v(2) m by (simp add: uint_0_iff)
  moreover have "0 \<le> sum_list (map (\<lambda>m. uint (bv_Power m)) ms)" by (auto intro!: sum_list_nonneg)
  ultimately have "0 < ?p" using uint_ge_0 [of "bv_Power m"] unfolding m list.map sum_list.Cons by linarith
  moreover have "2 * ?p < 3 * (2 * (?p div 3 + 1)) \<and> 3 * (2 * (?p div 3 + 1)) \<le> 2 * ?p + 6" by presburger
  ultimately show ?thesis
    unfolding Let_def threshold_eq [OF v(1)] list_all_iff using v by blast
qed

theorem valset_threshold_witness:
  "\<exists>s' v. GetCurrentValset sample_bsx 1 10 sample_bs = (s', Inr v) \<and> 0 < uint (TwoThirdsThreshold v)"
proof -
  have "\<not> isl (snd (GetCurrentValset sample_bsx 1 10 sample_bs))" by code_simp
  then obtain s' v where r: "GetCurrentValset sample_bsx 1 10 sample_bs = (s', Inr v)"
    by (metis prod.collapse sum.collapse(2))
  from valset_threshold [OF r sample_power_bound(1)] have "0 < uint (TwoThirdsThreshold v)"
    unfolding Let_def by linarith
  with r show ?thesis by blast
qed

text \<open>
  C37. A bonded validator whose power is less than a \<open>2 ^ 32\<close>th of the total makes every end of block panic: its
  normalised power is zero, and \<^verbatim>\<open>NewValset\<close> refuses a member without power.
\<close>

theorem dust_validator_halts:
  assumes "holds (b_unmarshal x) s earliest atts" "atts = [] \<and> earliest = 1 \<or> pick as_Valset (rev atts) \<noteq> None"
    and "b_bonded x = Inr vals" "collect_validators x vals s [] 0 = (s1, Inr (ibvs, totalPower))"
    and "powers_bounded x"
    and "i \<in> set ibvs" "uint (iv_Power i) * 2 ^ 32 < totalPower"
  shows "EndBlocker x height t s = Inl (Panic ''generated invalid valset'')"
  using dust_EndBlocker [OF assms(3,4,5,6,7,1,2)] .

theorem dust_validator_halts_witness:
  "EndBlocker dust_bsx 1 10 sample_bs = Inl (Panic ''generated invalid valset'')"
proof -
  have b: "b_bonded dust_bsx = Inr [''A'', ''B'']" by (simp add: dust_bsx_def sample_bsx_def)
  have "snd (collect_validators dust_bsx [''A'', ''B''] sample_bs [] 0) = Inr
      ([\<lparr>iv_Power = 2 ^ 40, iv_EVMAddress = [65]\<rparr>, \<lparr>iv_Power = 1, iv_EVMAddress = [66]\<rparr>], 2 ^ 40 + 1)"
    by code_simp
  then obtain s1 where c: "collect_validators dust_bsx [''A'', ''B''] sample_bs [] 0 = (s1, Inr
      ([\<lparr>iv_Power = 2 ^ 40, iv_EVMAddress = [65]\<rparr>, \<lparr>iv_Power = 1, iv_EVMAddress = [66]\<rparr>], 2 ^ 40 + 1))"
    by (metis prod.collapse)
  have "holds (b_unmarshal dust_bsx) sample_bs 1 []"
    using genesis_inv [OF sample_genesis(1) _ sample_genesis(2)] by (simp add: bs_inv_def)
  from dust_validator_halts [OF this _ b c sample_power_bound(2), of "\<lparr>iv_Power = 1, iv_EVMAddress = [66]\<rparr>" 1 10]
  show ?thesis by simp
qed

text \<open>
  Registering an address, or creating a validator, keeps the EVM addresses of the validators distinct, and the
  validator has the new address afterwards.
\<close>

theorem evm_addresses_unique:
  assumes "evm_unique s" "RegisterEvmAddress x a e s = Inr s' \<or> AfterValidatorCreated x val s = Inr s'"
  shows "evm_unique s' \<and> (\<exists>v. map_of (bs_evm s') v \<noteq> None \<and> map_of (bs_evm s) v \<noteq> map_of (bs_evm s') v
    \<and> (\<forall>w. w \<noteq> v \<longrightarrow> map_of (bs_evm s') w = map_of (bs_evm s) w))"
proof -
  obtain v addr where s': "s' = SetEVMAddress s v addr" "IsEVMAddressUnique s addr"
    using assms(2) RegisterEvmAddress_ok by (fastforce simp: AfterValidatorCreated_def Let_def split: if_splits)
  have "map_of (bs_evm s) v \<noteq> Some addr"
    using s'(2) by (auto simp: IsEVMAddressUnique_def list_ex_iff dest: map_of_SomeD)
  then show ?thesis
    using SetEVMAddress_unique [OF assms(1) s'(2)] s'(1)
    by (intro conjI exI [of _ v]) (auto simp: SetEVMAddress_def update_conv')
qed

theorem evm_addresses_unique_witness:
  "\<exists>s'. RegisterEvmAddress sample_bsx ''A'' ''B'' sample_bs = Inr s' \<and> evm_unique s'"
proof -
  have "\<not> isl (RegisterEvmAddress sample_bsx ''A'' ''B'' sample_bs)" by code_simp
  then obtain s' where r: "RegisterEvmAddress sample_bsx ''A'' ''B'' sample_bs = Inr s'" by (metis sum.collapse(2))
  have "evm_unique sample_bs" by code_simp
  from evm_addresses_unique [OF this, of sample_bsx "''A''" "''B''" s'] r show ?thesis by blast
qed

section \<open>Swaps\<close>

lemma Validate_routeD: "Validate_route r = Inr () \<Longrightarrow> wf_route r"
  by (cases "wf_route r") (simp_all add: Validate_route_cases)



text \<open>
  C35. A parallel route takes more than the input that was asked for: the last part is swapped with the whole
  amount, on top of what the other parts take, because the running sum of the shares is never updated.
\<close>

theorem parallel_routes_overspend:
  assumes "newCoin_ok (sw_dec x)" "Validate_route (Route di do (Route_Parallel rs ws)) = Inr ()"
    and "swapRouteExactAmountIn x sender (Route di do (Route_Parallel rs ws)) amountIn s = Inr (res, s')"
  shows "\<exists>out results. res = RouteResult \<lparr>c_Denom = di, c_Amount = amountIn\<rparr> out (Result_Parallel results)
    \<and> length results = length rs
    \<and> sum_list (map (\<lambda>r. c_Amount (rr_TokenIn r)) results)
        = amountIn + sum_list (map (\<lambda>r. c_Amount (rr_TokenIn r)) (butlast results))"
proof -
  have wf: "wf_route (Route di do (Route_Parallel rs ws))"
    by (rule Validate_routeD [OF assms(2)])
  show ?thesis using parallel_overspends [OF assms(1) wf assms(3)] by blast
qed

theorem parallel_routes_overspend_witness:
  "\<exists>res s' out results. swapRouteExactAmountIn sample_swx [1] sample_parallel 100 0 = Inr (res, s')
     \<and> res = RouteResult \<lparr>c_Denom = ''a'', c_Amount = 100\<rparr> out (Result_Parallel results)
     \<and> sum_list (map (\<lambda>r. c_Amount (rr_TokenIn r)) results) = 100 + sum_list (map (\<lambda>r. c_Amount (rr_TokenIn r)) (butlast results))"
proof -
  have "\<not> isl (swapRouteExactAmountIn sample_swx [1] sample_parallel 100 0)" by code_simp
  then obtain res s' where r: "swapRouteExactAmountIn sample_swx [1] sample_parallel 100 0 = Inr (res, s')"
    by (metis prod.exhaust sum.collapse(2))
  have "Validate_route sample_parallel = Inr ()" by code_simp
  from parallel_routes_overspend [OF sample_swx_ok(1), of _ _ _ _ "[1]" 100 0 res s'] this r
  show ?thesis unfolding sample_parallel_def by blast
qed



text \<open>
  The swaps of an exact output along a route in series are executed from the last pool to the first one, so the
  input of the last pool is spent before the pool in front of it has produced it.
\<close>

theorem exact_out_runs_backwards:
  assumes "serial route" "calculateResultRouteExactAmountOut x route amountOut s = Inr result"
  shows "\<exists>swaps. map fst swaps = rev (pools route)
    \<and> (\<forall>s. swapRouteExactAmountOut x sender result s = foldR (swap_leaf x sender) swaps s)"
proof -
  obtain a s1 where "InspectRoute (sw_dec x) (calculateResultRoutePoolExactAmountOut x) (generateResultExactAmountOut (sw_dec x))
      True route amountOut s = Inr (a, result, s1)"
    using assms(2) by (auto simp: calculateResultRouteExactAmountOut_def elim!: bindR_E)
  from leaves_order(1) [OF this assms(1)] swapRouteExactAmountOut_leaves(1) [of x sender result] show ?thesis
    by (intro exI [of _ "leaves result"]) simp
qed

theorem exact_out_runs_backwards_witness:
  "\<exists>result swaps. calculateResultRouteExactAmountOut sample_swx sample_series 100 0 = Inr result
     \<and> map fst swaps = [2, 1] \<and> swapRouteExactAmountOut sample_swx [1] result 0 = foldR (swap_leaf sample_swx [1]) swaps 0"
proof -
  have "\<not> isl (calculateResultRouteExactAmountOut sample_swx sample_series 100 0)" by code_simp
  then obtain result where r: "calculateResultRouteExactAmountOut sample_swx sample_series 100 0 = Inr result"
    by (metis sum.collapse(2))
  have "serial sample_series" "rev (pools sample_series) = [2, 1]" by code_simp+
  then show ?thesis using exact_out_runs_backwards [OF _ r, of "[1]"] r by metis
qed

text \<open>
  C36. A received packet that waits for the acknowledgement of a forwarded one waits forever: the waiting
  packet is stored without its timeout height, and every attempt to write its acknowledgement panics when it
  parses that height, so the packet stays in the store in every later state.
\<close>

theorem waiting_packets_never_complete:
  assumes "ibc_reach x s" "height_required x" "(ibc_step x)\<^sup>*\<^sup>* s s'"
    and "GetIncomingInFlightPacket s port channel sequence \<noteq> None"
  shows "GetIncomingInFlightPacket s' port channel sequence \<noteq> None"
  using ibc_reach_waits [OF assms(3,1,2)] assms(4) by (auto simp: GetIncomingInFlightPacket_def dom_def)

theorem waiting_packets_never_complete_witness:
  "(ibc_step sample_ibx)\<^sup>*\<^sup>* sample_sws1 (sample_sws1\<lparr>ss_chain := 5\<rparr>)
   \<and> GetIncomingInFlightPacket (sample_sws1\<lparr>ss_chain := 5\<rparr>) ''transfer'' ''channel-0'' 7 \<noteq> None"
proof -
  have "(ibc_step sample_ibx)\<^sup>*\<^sup>* sample_sws1 (sample_sws1\<lparr>ss_chain := 5\<rparr>)" by (intro r_into_rtranclp ibc_step.other)
  then show ?thesis
    using waiting_packets_never_complete [OF sample_ibc_reach sample_height_required, of _ "''transfer''" "''channel-0''" 7]
      sample_waiting by (simp add: GetIncomingInFlightPacket_def)
qed

section \<open>The liquidity pool\<close>

text \<open>
  C13. The books of the liquidity pool balance after every history of messages and keeper calls: for every pool and
  tick, the gross and net liquidity stored at the tick are the sums over the positions that start or end there; the total number of shares of a pool's fee
  accumulator is the liquidity of its positions, each position's shares are its own liquidity, and no shares are left of a position that is gone; every position has liquidity, two
  ticks in order and an existing pool. The number of messages is bounded so that the 64-bit count of positions does not wrap around.
\<close>

theorem lp_books_balance:
  assumes "length ms < 2 ^ 64 - 1" "s = lp_run x ms bank"
  shows "(\<forall>q t. int64 t \<longrightarrow> tick_gross s q t = possum (gross_at q t) s \<and> tick_net s q t = possum (net_at q t) s)
    \<and> (\<forall>q. GetPool s q \<noteq> None \<longrightarrow> tot s (KeyFeePoolAccumulator q) = Some (possum (liquidity_in q) s))
    \<and> (\<forall>i p. GetPosition s i = Some p \<longrightarrow> fee_shares s (po_PoolId p) i = po_Liquidity p \<and> 0 < po_Liquidity p
        \<and> po_LowerTick p < po_UpperTick p \<and> GetPool s (po_PoolId p) \<noteq> None)
    \<and> (\<forall>q i. nums s (share_key q i) \<noteq> None \<longrightarrow> (\<exists>p. GetPosition s i = Some p \<and> po_PoolId p = q))"
  using lp_run_inv [OF assms(1), of x bank] unfolding assms(2) [symmetric] book_def ticks_balance_def shares_balance_def
    positions_ok_def position_ok_def funded_def by (elim conjE) (intro conjI; simp)

theorem lp_books_balance_witness:
  "tick_net sample_state 0 0 = possum (net_at 0 0) sample_state \<and> fee_shares sample_state 0 0 = 400 * 10 ^ 18"
proof -
  have "length sample_msgs < 2 ^ 64 - 1" by (simp add: sample_msgs_def)
  note b = lp_books_balance [OF this sample_run [symmetric]]
  have "GetPosition sample_state 0 = Some \<lparr>po_Id = 0, po_Address = ''alice'', po_PoolId = 0, po_LowerTick = 0, po_UpperTick = 2,
      po_Liquidity = 400 * 10 ^ 18\<rparr>" by (simp add: sample_state_def GetPosition_def)
  then show ?thesis using b by (fastforce simp: int64_def)
qed

text \<open>
  C16. After every history, a message or keeper call that changes or removes a stored position is an increase or a decrease of that position sent by its
  owner; every other message, swaps and claims included, leaves it as it is.
\<close>

theorem position_owner_only:
  assumes "length ms < 2 ^ 64 - 1" "lp_exec x m (lp_run x ms bank) = Inr s'" "GetPosition (lp_run x ms bank) i = Some p" "GetPosition s' i \<noteq> Some p"
  shows "owns x m i p"
  using lp_exec_moved [OF _ lp_count [OF assms(1)] assms(2)] lp_run_inv [OF assms(1), of x bank] assms(3,4) unfolding lp_moved_def by blast

theorem position_owner_only_witness:
  "\<exists>p. GetPosition sample_state 0 = Some p \<and> owns sample_lpx (Msg_DecreaseLiquidity sample_withdraw) 0 p"
proof -
  let ?p = "\<lparr>po_Id = 0, po_Address = ''alice'', po_PoolId = 0, po_LowerTick = 0, po_UpperTick = 2, po_Liquidity = 400 * 10 ^ 18\<rparr>"
  obtain s' where s': "lp_exec sample_lpx (Msg_DecreaseLiquidity sample_withdraw) sample_state = Inr s'" "GetPosition s' 0 = None"
    using sample_withdrawn by blast
  have p: "GetPosition sample_state 0 = Some ?p" by (simp add: sample_state_def GetPosition_def)
  have "length sample_msgs < 2 ^ 64 - 1" by (simp add: sample_msgs_def)
  from position_owner_only [OF this, of sample_lpx "Msg_DecreaseLiquidity sample_withdraw" "[]" s' 0 ?p, unfolded sample_run, OF s'(1) p] s'(2) p
  show ?thesis by auto
qed

text \<open>
  C14. After every history without swaps, the current liquidity of a pool is the liquidity of the positions whose range contains
  its current tick, its tick is a 64-bit integer and its price is not negative. The square root and the rounding of the decimals are those
  that the SDK documents.
\<close>

theorem current_liquidity:
  assumes "dec_ok (lx_dec x)" "length ms < 2 ^ 64 - 1" "\<forall>m\<in>set ms. \<not> is_swap m" "GetPool (lp_run x ms bank) q = Some p"
  shows "pl_CurrentTickLiquidity p = active (lp_run x ms bank) q (pl_CurrentTick p) \<and> int64 (pl_CurrentTick p) \<and> 0 \<le> pl_CurrentSqrtPrice p"
  using lp_run_live [OF assms(1-3), of bank] assms(4) by (auto simp: pools_live_def pool_live_def)

theorem current_liquidity_witness:
  "pl_CurrentTickLiquidity sample_pool = active sample_state 0 1"
proof -
  have "length sample_msgs < 2 ^ 64 - 1" "\<forall>m\<in>set sample_msgs. \<not> is_swap m" by (simp_all add: sample_msgs_def)
  moreover have "dec_ok (lx_dec sample_lpx)" using sample_laws by (simp add: sample_lpx_def)
  moreover have "GetPool sample_state 0 = Some sample_pool" by (simp add: sample_state_def GetPool_def)
  ultimately show ?thesis
    using current_liquidity [of sample_lpx sample_msgs "[]" 0 sample_pool, unfolded sample_run] by (simp add: sample_pool_def)
qed



text \<open>
  C17. The calculation of a swap predicts its execution: when a swap of a stored pool succeeds, with an exact input or an exact output, the
  query that computes it without changing the state returns the amount that the swap then returns.
\<close>

theorem swap_quote_is_result:
  assumes "newCoin_ok (lx_dec x)" "GetPool s (pl_Id pool) = Some pool"
  shows "(\<forall>n s'. SwapExactAmountIn x sender pool token denom feeEnabled s = Inr (n, s') \<longrightarrow> CalculateResultExactAmountIn x s pool token denom feeEnabled = Inr n)
    \<and> (\<forall>n s'. SwapExactAmountOut x sender pool token denom feeEnabled s = Inr (n, s') \<longrightarrow> CalculateResultExactAmountOut x s pool token denom feeEnabled = Inr n)"
  using exact_in_quote [OF assms] exact_out_quote [OF assms] by blast

theorem swap_quote_is_result_witness:
  "CalculateResultExactAmountIn sample_lpx sample_state sample_pool sample_in ''quote'' True = Inr 37
   \<and> CalculateResultExactAmountOut sample_lpx sample_state sample_pool sample_in ''quote'' True = Inr 44"
proof -
  have "newCoin_ok (lx_dec sample_lpx)" using sample_dec_ok by (simp add: sample_lpx_def)
  moreover have "GetPool sample_state (pl_Id sample_pool) = Some sample_pool" by (simp add: sample_state_def GetPool_def sample_pool_def)
  ultimately show ?thesis using swap_quote_is_result sample_swap_in sample_swap_out by blast
qed

text \<open>
  C18. The transfers of a swap: with an exact input, the sender pays at most the specified amount, split between the pool and its fees, and gets the
  amount out that the swap returns, which is positive; with an exact output, the sender pays the amount that the swap returns and gets at most the specified amount. Nothing else moves.
\<close>

theorem swap_transfers:
  assumes "newCoin_ok (lx_dec x)" "ceil_ok (lx_dec x)" "truncateInt_ok (lx_dec x)" "book s" "0 \<le> c_Amount token"
  shows "(\<forall>n s'. SwapExactAmountIn x sender pool token denom feeEnabled s = Inr (n, s') \<longrightarrow>
      0 < n \<and> (\<exists>a. a \<le> c_Amount token \<and>
        swap_paid x sender pool \<lparr>c_Denom = c_Denom token, c_Amount = a\<rparr> \<lparr>c_Denom = denom, c_Amount = n\<rparr> (ls_bank s) (ls_bank s')))
    \<and> (\<forall>n s'. SwapExactAmountOut x sender pool token denom feeEnabled s = Inr (n, s') \<longrightarrow>
      0 < n \<and> (\<exists>a. 0 \<le> a \<and> a \<le> c_Amount token \<and>
        swap_paid x sender pool \<lparr>c_Denom = denom, c_Amount = n\<rparr> \<lparr>c_Denom = c_Denom token, c_Amount = a\<rparr> (ls_bank s) (ls_bank s')))"
  using SwapExactAmountIn_paid [OF assms(1-4)] SwapExactAmountOut_paid [OF assms(1,3,4,5)] by blast

theorem swap_transfers_witness:
  "\<exists>s' a. SwapExactAmountIn sample_lpx (str ''bob'') sample_pool sample_in ''quote'' True sample_state = Inr (37, s') \<and> a \<le> 10
     \<and> swap_paid sample_lpx (str ''bob'') sample_pool \<lparr>c_Denom = ''base'', c_Amount = a\<rparr> \<lparr>c_Denom = ''quote'', c_Amount = 37\<rparr> (ls_bank sample_state) (ls_bank s')"
proof -
  obtain s' where s': "SwapExactAmountIn sample_lpx (str ''bob'') sample_pool sample_in ''quote'' True sample_state = Inr (37, s')" using sample_swap_in by blast
  have "newCoin_ok (lx_dec sample_lpx)" "ceil_ok (lx_dec sample_lpx)" "truncateInt_ok (lx_dec sample_lpx)" "0 \<le> c_Amount sample_in"
    using sample_dec_ok sample_laws by (simp_all add: sample_lpx_def sample_in_def)
  from swap_transfers [OF this(1-3) sample_book(1) this(4), of "str ''bob''" sample_pool "''quote''" True] s'
  show ?thesis by (force simp: sample_in_def)
qed

text \<open>
  C20. A message that opens the first position of a pool at a very low price makes the handler loop forever: when the price that its
  two amounts give is below the price of tick zero and so small that a multiplication by the price ratio rounds back to it, the search for the tick never ends. No
  gas is charged in the loop.
\<close>

theorem first_position_never_returns:
  assumes "mul_ok (lx_dec x)" "mul_defined (lx_dec x)"
    and "lx_accAddress x (mc_Sender msg) = Inr sender" "GetPool s (mc_PoolId msg) = Some pool" "CreatePosition_checks pool msg = Inr ()"
    and "TicksToSqrtPrice (lx_dec x) (mc_LowerTick msg) (mc_UpperTick msg) (pl_TickParams pool) = Inr lu"
    and "\<not> HasPosition_pl pool" "0 < c_Amount (mc_TokenBase msg)" "0 < c_Amount (mc_TokenQuote msg)"
    and "d_quo (lx_dec x) (dec_of_int (c_Amount (mc_TokenQuote msg))) (dec_of_int (c_Amount (mc_TokenBase msg))) = Inr spot"
    and "d_approxSqrt (lx_dec x) spot = Inr root" "d_mul (lx_dec x) root root = Inr price" "MinSpotPrice \<le> price" "price \<le> MaxSpotPrice"
    and "Pow (lx_dec x) (tp_PriceRatio (pl_TickParams pool)) (tp_BaseOffset (pl_TickParams pool)) = Inr offsetPrice" "price < offsetPrice"
    and "2 * \<bar>price * (tp_PriceRatio (pl_TickParams pool) - dec_one)\<bar> < dec_one"
  shows "CreatePosition x msg s = Inl Diverge"
  by (rule first_position_hangs [OF assms])

theorem first_position_never_returns_witness:
  "CreatePosition sample_lpx \<lparr>mc_Sender = ''alice'', mc_PoolId = 0, mc_LowerTick = -1, mc_UpperTick = 1,
     mc_TokenBase = \<lparr>c_Denom = ''base'', c_Amount = 10 ^ 18\<rparr>, mc_TokenQuote = \<lparr>c_Denom = ''quote'', c_Amount = 1\<rparr>,
     mc_MinAmountBase = 0, mc_MinAmountQuote = 0\<rparr> (SetPool narrow_pool (empty_lps [])) = Inl Diverge"
proof (rule first_position_never_returns [where x = sample_lpx and pool = narrow_pool and spot = 1 and root = "10 ^ 9" and price = 1
      and offsetPrice = dec_one and sender = "map of_char ''alice''" and lu = "(999950003749687527, 1000049998750062496)"])
  show "mul_ok (lx_dec sample_lpx)" "mul_defined (lx_dec sample_lpx)" using sample_dec_ok sample_laws by (simp_all add: sample_lpx_def)
qed (code_simp)+

text \<open>
  The tick of a price brackets it: when \<^verbatim>\<open>CalculateSqrtPriceToTick\<close> returns a tick, the price is at least that of the tick and
  less than that of the next one, except that at the two ends of the range it may be exactly the price of the returned tick.
\<close>

theorem price_tick_brackets:
  assumes "CalculateSqrtPriceToTick d sqrtPrice tickParams = Inr t"
  shows "\<exists>lo. TickToSqrtPrice d t tickParams = Inr lo \<and> lo \<le> sqrtPrice
    \<and> ((\<exists>hi. TickToSqrtPrice d (t + 1) tickParams = Inr hi \<and> sqrtPrice < hi) \<or> lo = sqrtPrice \<and> t \<in> {TICK_MIN + 3, TICK_MAX})"
  by (rule CalculateSqrtPriceToTick_spec [OF assms])

theorem price_tick_brackets_witness:
  "\<exists>lo. TickToSqrtPrice sample_dec 1 \<lparr>tp_PriceRatio = 4 * 10 ^ 18, tp_BaseOffset = 0\<rparr> = Inr lo \<and> lo \<le> 3 * 10 ^ 18"
proof -
  have "CalculateSqrtPriceToTick sample_dec (3 * 10 ^ 18) \<lparr>tp_PriceRatio = 4 * 10 ^ 18, tp_BaseOffset = 0\<rparr> = Inr 1" by code_simp
  from price_tick_brackets [OF this] show ?thesis by blast
qed

text \<open>
  C21. An exported state brings back every pool, every position, the counts and the parameters, but neither the ticks nor the fee
  accumulators: on a chain that starts from it no position can be decreased or claimed from, and nothing can be swapped.
\<close>

theorem genesis_export_loses_fees:
  assumes "book (s :: 'b lps)" "s' = InitGenesis_lp (ExportGenesis_lp s) (empty_lps (bank :: 'b))"
  shows "GetPool s' = GetPool s \<and> GetPosition s' = GetPosition s \<and> GetPoolCount s' = GetPoolCount s
    \<and> GetPositionCount s' = GetPositionCount s \<and> GetParams_lp s' = GetParams_lp s \<and> ls_ticks s' = []
    \<and> DecreaseLiquidity x sender i liq s' \<noteq> Inr r1 \<and> collectFees x sender i s' \<noteq> Inr r2
    \<and> SwapExactAmountIn x sender pool token denom feeEnabled s' \<noteq> Inr r3 \<and> SwapExactAmountOut x sender pool token denom feeEnabled s' \<noteq> Inr r3"
proof -
  have s': "s' = reimported s bank" by (simp add: assms(2) reimported_def)
  note r = reimported_roundtrip [OF assms(1), of bank, folded s']
  show ?thesis using r no_accumulator [OF r(7)] by simp
qed

theorem genesis_export_loses_fees_witness:
  "\<forall>r. DecreaseLiquidity sample_lpx (str ''alice'') 0 (400 * 10 ^ 18) (InitGenesis_lp (ExportGenesis_lp sample_state) (empty_lps [])) \<noteq> Inr r"
  using genesis_export_loses_fees [OF sample_book(1) refl, where x = sample_lpx and sender = "str ''alice''" and i = 0 and liq = "400 * 10 ^ 18"]
  by blast

text \<open>
  C19. Rounding favours the pool: at an unchanged price and tick, withdrawing a liquidity pays out no more of either token than
  adding it has cost.
\<close>

theorem withdrawal_at_most_deposit:
  assumes "mul_ok d" "quo_ok d" "mul_odd d" "quo_odd d" "ceil_ok d"
    and "0 < liq" "TicksToSqrtPrice d lower upper (pl_TickParams p) = Inr (a, b)" "0 \<le> a" "0 \<le> b" "0 \<le> pl_CurrentSqrtPrice p"
    and "CalcActualAmounts d p lower upper liq = Inr (base, quote)"
  shows "\<exists>base' quote'. CalcActualAmounts d p lower upper (- liq) = Inr (base', quote')
    \<and> \<bar>go_div base' dec_one\<bar> \<le> go_div base dec_one \<and> \<bar>go_div quote' dec_one\<bar> \<le> go_div quote dec_one"
  by (rule deposit_covers_withdrawal [OF assms])

theorem withdrawal_at_most_deposit_witness:
  "\<exists>base' quote'. CalcActualAmounts sample_dec sample_pool 0 2 (- (7 * 10 ^ 18)) = Inr (base', quote')
     \<and> \<bar>go_div base' dec_one\<bar> \<le> 2 \<and> \<bar>go_div quote' dec_one\<bar> \<le> 7"
proof -
  have t: "TicksToSqrtPrice sample_dec 0 2 (pl_TickParams sample_pool) = Inr (10 ^ 18, 4 * 10 ^ 18)" by code_simp
  have c: "CalcActualAmounts sample_dec sample_pool 0 2 (7 * 10 ^ 18) = Inr (2 * 10 ^ 18, 7 * 10 ^ 18)" by code_simp
  have "go_div (2 * 10 ^ 18) dec_one = 2" "go_div (7 * 10 ^ 18) dec_one = 7" by code_simp+
  with withdrawal_at_most_deposit [OF sample_dec_ok(1,3) sample_laws(4,5,1) _ t _ _ _ c] show ?thesis by (simp add: sample_pool_def)
qed

text \<open>
  The keys of the ticks: the bytes of a tick decode to it, and their order is the order of the ticks, negative ones included, so an iterator
  over the keys of a pool visits its initialised ticks in order.
\<close>

theorem tick_keys_ordered:
  assumes "int64 t" "int64 u"
  shows "TickIndexFromBytes (TickIndexToBytes t) = Inr t \<and> (TickIndexToBytes t < TickIndexToBytes u \<longleftrightarrow> t < u)
    \<and> (GetTickInfoIDBytes p t = GetTickInfoIDBytes q u \<longleftrightarrow> p = q \<and> t = u)"
  using TickIndex_roundtrip [OF assms(1)] TickIndexToBytes_less_iff [OF assms] GetTickInfoIDBytes_inject [OF assms] by blast

theorem tick_keys_ordered_witness:
  "TickIndexToBytes (-1) < TickIndexToBytes 1"
  using tick_keys_ordered [of "-1" 1 0 0] by (simp add: int64_def)
section \<open>Incentives, conversions and fees\<close>

text \<open>
  C24. The tally of the votes for gauges is the sum that the votes define: each delegation of a voter to a bonded validator gives its power, split by the
  voter's weights, and a validator who votes gives what its voting delegators leave of its power, split by its weights. The pools appear once, in increasing
  order. The reference is computed vote by vote, without the mutable maps of the code.
\<close>

theorem tally_counts_votes:
  assumes "map_order_ok ord" "Tally x k ord s = Inr ws" "bonded x k = Inr vals" "sk_totalBonded k = Inr n" "n \<noteq> 0"
  shows "sorted_wrt (<) (map pw_PoolId ws)
    \<and> (\<forall>q. weight_in ws q = sum_list (map (\<lambda>vote. delegated_votes x k vals vote q) (GetAllVotes s))
        + sum_list (map (\<lambda>e. validator_votes x k (GetAllVotes s) e q) vals))"
  using Tally_sum [OF assms] by blast

theorem tally_counts_votes_witness:
  "\<exists>vals. bonded sample_lix sample_stk = Inr vals
    \<and> sum_list (map (\<lambda>vote. delegated_votes sample_lix sample_stk vals vote 0) (GetAllVotes (sample_lis sample_votes)))
      + sum_list (map (\<lambda>e. validator_votes sample_lix sample_stk (GetAllVotes (sample_lis sample_votes)) e 0) vals) = dec_of_int 80"
proof -
  have "\<not> isl (bonded sample_lix sample_stk)" by code_simp
  then obtain vals where v: "bonded sample_lix sample_stk = Inr vals" by (cases "bonded sample_lix sample_stk") auto
  have n: "sk_totalBonded sample_stk = Inr 100" "(100::int) \<noteq> 0" by (simp_all add: sample_stk_def)
  have "weight_in [\<lparr>pw_PoolId = 0, pw_Weight = dec_of_int 80\<rparr>, \<lparr>pw_PoolId = 1, pw_Weight = dec_of_int 20\<rparr>] 0 = dec_of_int 80" by code_simp
  with tally_counts_votes [OF sample_orders(1) sample_tally v n] v show ?thesis by metis
qed





text \<open>
  C27. When no gauge has a negative weight, the coins that the gauges of an epoch get together are at most the incentives of the block but for the
  rounding of the ratios, of at most half a unit of the eighteenth decimal per gauge. Decimals round as the SDK documents.
\<close>

theorem incentives_within_fees:
  assumes "quo_ok (li_dec x)" "mulDecTruncate_ok x" "truncateDecimal_ok x" "nonnegative f" "\<forall>g\<in>set (ep_Gauges e). 0 \<le> ga_Ratio g" "total_weight e \<noteq> 0"
    and "list_all2 (\<lambda>g cs. allocation x f (total_weight e) g = Inr cs) (ep_Gauges e) css"
  shows "2 * dec_one * dec_one * sum_list (map (coins_in n) css) \<le> deccoins_in n f * (2 * dec_one + int (length (ep_Gauges e)))"
  by (rule allocations_total [OF assms])

theorem incentives_within_fees_witness:
  "\<exists>cs. allocation sample_lix [\<lparr>dc_Denom = ''uvrise'', dc_Amount = dec_of_int 500\<rparr>] (total_weight sample_epoch) (ep_Gauges sample_epoch ! 0) = Inr cs
    \<and> 2 * dec_one * dec_one * coins_in ''uvrise'' cs \<le> dec_of_int 500 * (2 * dec_one + 1)"
proof -
  let ?f = "[\<lparr>dc_Denom = ''uvrise'', dc_Amount = dec_of_int 500\<rparr>]"
  have a: "allocation sample_lix ?f (total_weight sample_epoch) (ep_Gauges sample_epoch ! 0) = Inr [\<lparr>c_Denom = ''uvrise'', c_Amount = 500\<rparr>]" by code_simp
  have q: "quo_ok (li_dec sample_lix)" by (simp add: sample_lix_def sample_lpx_def sample_dec_ok)
  have f: "nonnegative ?f" by (simp add: nonnegative_def dec_of_int_def dec_one_def)
  have e: "\<forall>g\<in>set (ep_Gauges sample_epoch). 0 \<le> ga_Ratio g" "total_weight sample_epoch \<noteq> 0"
    by (simp_all add: sample_epoch_def total_weight_def dec_of_int_def dec_one_def)
  have l: "list_all2 (\<lambda>g cs. allocation sample_lix ?f (total_weight sample_epoch) g = Inr cs) (ep_Gauges sample_epoch) [[\<lparr>c_Denom = ''uvrise'', c_Amount = 500\<rparr>]]"
    using a by (simp add: sample_epoch_def)
  from incentives_within_fees [OF q sample_li_laws f e l, of "''uvrise''"] a show ?thesis
    by (simp add: sample_epoch_def deccoins_in_def)
qed



text \<open>
  Votes may have negative weights, as only their sum is compared with one. For two gauges of total weight \<open>p\<close> with the weights \<open>1 + k\<close> and \<open>- k\<close> the
  first pool's share is \<open>1 + k\<close> times the incentives, for any \<open>k\<close>, and the incentives that are meant for stakers are paid out with them.
\<close>

theorem negative_vote_overpays:
  assumes "quo_ok (li_dec x)" "0 < p" "ep_Gauges e = [g, h]" "ga_Ratio g = p * (dec_one + k)" "ga_Ratio h = - (p * k)"
    and "allocation x f (total_weight e) g = Inr cs"
  shows "\<exists>a ch. li_mulDecTruncate x f (dec_one + k) = Inr a \<and> dc_truncateDecimal (lx_dc (li_lpx x)) a = Inr (cs, ch)"
  by (rule negative_weight [OF assms])

theorem negative_vote_overpays_witness:
  "ValidateBasic_vote sample_lix \<lparr>mv_Sender = ''alice'', mv_Weights = [\<lparr>pw_PoolId = 0, pw_Weight = 2 * dec_one\<rparr>, \<lparr>pw_PoolId = 1, pw_Weight = - dec_one\<rparr>]\<rparr> = Inr ()
    \<and> (\<exists>a ch. li_mulDecTruncate sample_lix [\<lparr>dc_Denom = ''uvrise'', dc_Amount = dec_of_int 500\<rparr>] (dec_one + dec_one) = Inr a
        \<and> dc_truncateDecimal (lx_dc (li_lpx sample_lix)) a = Inr ([\<lparr>c_Denom = ''uvrise'', c_Amount = 1000\<rparr>], ch))"
proof -
  let ?g = "\<lparr>ga_PreviousEpochId = 0, ga_PoolId = 0, ga_Ratio = 60 * (dec_one + dec_one)\<rparr>" and ?h = "\<lparr>ga_PreviousEpochId = 0, ga_PoolId = 1, ga_Ratio = - (60 * dec_one)\<rparr>"
  let ?e = "\<lparr>ep_Id = 1, ep_StartBlock = 7, ep_EndBlock = 12, ep_Gauges = [?g, ?h]\<rparr>"
  have q: "quo_ok (li_dec sample_lix)" by (simp add: sample_lix_def sample_lpx_def sample_dec_ok)
  have a: "allocation sample_lix [\<lparr>dc_Denom = ''uvrise'', dc_Amount = dec_of_int 500\<rparr>] (total_weight ?e) ?g = Inr [\<lparr>c_Denom = ''uvrise'', c_Amount = 1000\<rparr>]" by code_simp
  have v: "ValidateBasic_vote sample_lix \<lparr>mv_Sender = ''alice'', mv_Weights = [\<lparr>pw_PoolId = 0, pw_Weight = 2 * dec_one\<rparr>, \<lparr>pw_PoolId = 1, pw_Weight = - dec_one\<rparr>]\<rparr> = Inr ()" by code_simp
  show ?thesis using negative_vote_overpays [OF q _ _ _ _ a, of 60 ?h dec_one] v by simp
qed

text \<open>
  Once the module has had an epoch, its exported genesis state is refused by its own validation: epochs are stored with \<^verbatim>\<open>SetEpoch\<close>, which does not count
  them, and the number of an epoch has to be below the count.
\<close>

theorem incentive_genesis_refused:
  assumes "li_reach x n s" "n < 2 ^ 64 - 1" "li_epochs s \<noteq> []"
  shows "\<exists>e. Validate_genesis_li (ExportGenesis_li s) = Inl e"
  by (rule exported_genesis_refused [OF li_reach_inv [OF assms(1,2)] assms(3)])

theorem incentive_genesis_refused_witness: "\<exists>e. Validate_genesis_li (ExportGenesis_li halted) = Inl e"
proof -
  have "li_epochs halted \<noteq> []" using halted_facts(1) by (auto simp: GetLastEpoch_def)
  then show ?thesis using incentive_genesis_refused [OF halted_reached] by simp
qed

text \<open>
  C29. A conversion burns bond tokens of the sender and mints the same amount of fee tokens for the sender, and changes no other balance or supply. The amount is between the
  minimum and the maximum of the message if these are in order, and the supply of fee tokens stays within its bound.
\<close>

theorem convert_exact:
  assumes "tc_ok x" "Convert x msg s = Inr (amount, s')" "p = GetParams_tc s" "tx_accAddress x (mx_Sender msg) = Inr a"
    and "tcp_BondDenom p \<noteq> tcp_FeeDenom p"
  shows "0 \<le> amount \<and> amount \<le> mx_MaxAmount msg \<and> (mx_MinAmount msg \<le> mx_MaxAmount msg \<longrightarrow> mx_MinAmount msg \<le> amount)
    \<and> (\<exists>m. tcp_MaxSupplyFee p = Some m \<and> bk_supply (tx_bank x) (tcp_FeeDenom p) (tc_bank s') \<le> m)
    \<and> (\<forall>n. bk_supply (tx_bank x) n (tc_bank s') = bk_supply (tx_bank x) n (tc_bank s)
        + (if n = tcp_FeeDenom p then amount else if n = tcp_BondDenom p then - amount else 0))
    \<and> (\<forall>c n. bk_balance (tx_bank x) c n (tc_bank s') = bk_balance (tx_bank x) c n (tc_bank s)
        + (if c \<noteq> a then 0 else if n = tcp_FeeDenom p then amount else if n = tcp_BondDenom p then - amount else 0))"
  by (rule Convert_effect [OF assms])

theorem convert_exact_witness:
  "\<exists>s'. Convert sample_tcx \<lparr>mx_Sender = ''alice'', mx_MinAmount = 50, mx_MaxAmount = 200\<rparr> sample_tcs = Inr (100, s')
    \<and> bk_supply sample_bank ''urise'' (tc_bank s') = 1000 \<and> bk_balance sample_bank (map of_char ''alice'') ''uvrise'' (tc_bank s') = 200"
proof -
  let ?m = "\<lparr>mx_Sender = ''alice'', mx_MinAmount = 50, mx_MaxAmount = 200\<rparr>"
  obtain s' where s': "Convert sample_tcx ?m sample_tcs = Inr (100, s')" using sample_convert(1) by blast
  have a: "tx_accAddress sample_tcx (mx_Sender ?m) = Inr (map of_char ''alice'')" by (simp add: sample_tcx_def)
  have d: "tcp_BondDenom (GetParams_tc sample_tcs) \<noteq> tcp_FeeDenom (GetParams_tc sample_tcs)" by code_simp
  have p: "GetParams_tc sample_tcs = \<lparr>tcp_BondDenom = ''uvrise'', tcp_FeeDenom = ''urise'', tcp_MaxSupplyFee = Some 1000\<rparr>" by (simp add: GetParams_tc_def sample_tcs_def)
  have b: "tx_bank sample_tcx = sample_bank" by (simp add: sample_tcx_def)
  have n: "bk_supply sample_bank ''urise'' (tc_bank sample_tcs) = 900" "bk_balance sample_bank (map of_char ''alice'') ''uvrise'' (tc_bank sample_tcs) = 300"
    by (simp_all add: sample_bank_def sample_tcs_def)
  from convert_exact [OF sample_tc_ok s' refl a d, unfolded p b] s' n show ?thesis by auto
qed

text \<open>
  C30. A transaction that passes the fee decorator outside of simulation, without a fee granter, has paid one coin of the fee denomination or of a bypass denomination: exactly
  this coin is taken from the payer; the collector gets it but for the part that is burnt, by which the supply decreases; nothing else changes. The burnt part is the fee times the burn ratio, rounded
  towards zero, for the fee denomination and nothing else, and with valid parameters it is between zero and the fee.
\<close>

theorem fee_deduction:
  assumes "fee_ok x" "AnteHandle_fee x ctx (Some tx) False nxt s = Inr r" "ft_FeeGranter tx = None"
    and "ft_FeePayer tx \<noteq> bk_moduleAddress (fx_bank x) ''fee_collector''"
  shows "\<exists>c priority s'. ft_Fee tx = [c] \<and> (c_Denom c = fp_FeeDenom (GetParams_fee s) \<or> c_Denom c \<in> set (fp_BypassDenoms (GetParams_fee s)))
    \<and> nxt priority s' = Inr r \<and> fee_paid x (ft_FeePayer tx) c (burnt_part (GetParams_fee s) c) (fe_bank s) (fe_bank s')
    \<and> (Validate_params_fee (GetParams_fee s) = Inr () \<longrightarrow> 0 \<le> c_Amount c \<longrightarrow>
        0 \<le> burnt_part (GetParams_fee s) c \<and> burnt_part (GetParams_fee s) c \<le> c_Amount c)"
  using AnteHandle_fee_effect [OF assms] burnt_part_bounds by metis

theorem fee_deduction_witness:
  "\<exists>s' :: purse fes. pu_supply (fe_bank s') ''urise'' = 850 \<and> fee_paid sample_fex (map of_char ''alice'') \<lparr>c_Denom = ''urise'', c_Amount = 301\<rparr> 150 (fe_bank sample_fes) (fe_bank s')"
proof -
  have t: "ft_FeeGranter sample_feetx = None" "ft_FeePayer sample_feetx \<noteq> bk_moduleAddress (fx_bank sample_fex) ''fee_collector''"
    by (simp_all add: sample_feetx_def sample_fex_def sample_bank_def)
  have b: "burnt_part (GetParams_fee sample_fes) \<lparr>c_Denom = ''urise'', c_Amount = 301\<rparr> = 150" by code_simp
  from fee_deduction [OF sample_fee_ok sample_ante_fee t] obtain c and s' :: "purse fes" where s': "ft_Fee sample_feetx = [c]" "pu_supply (fe_bank s') ''urise'' = 850"
      "fee_paid sample_fex (ft_FeePayer sample_feetx) c (burnt_part (GetParams_fee sample_fes) c) (fe_bank sample_fes) (fe_bank s')"
    by auto
  have "c = \<lparr>c_Denom = ''urise'', c_Amount = 301\<rparr>" "ft_FeePayer sample_feetx = map of_char ''alice''" using s'(1) by (simp_all add: sample_feetx_def)
  with s'(2,3) b show ?thesis by metis
qed

section \<open>Share proofs\<close>

text \<open>
  C39. For shares with valid namespaces, \<^verbatim>\<open>ParseNamespace\<close> returns a namespace exactly if the range lies in the square, starts at a share and all its shares have that
  namespace. Besides errors it panics, and it does so exactly for the empty range at the end of the square, which passes the checks of its bounds.
\<close>

theorem parse_namespace_exact:
  assumes "\<forall>s\<in>set square. \<exists>ns. Namespace_sh s = Inr ns"
  shows "(ParseNamespace square a b = Inr ns \<longleftrightarrow>
      0 \<le> a \<and> a \<le> b \<and> b \<le> int (length square) \<and> a < int (length square) \<and> Namespace_sh (square ! nat a) = Inr ns
      \<and> (\<forall>i. a \<le> int i \<longrightarrow> int i < b \<longrightarrow> Namespace_sh (square ! i) = Inr ns))
    \<and> ((\<exists>m. ParseNamespace square a b = Inl (Panic m)) \<longleftrightarrow> a = int (length square) \<and> b = a)"
  using ParseNamespace_iff ParseNamespace_panics [OF assms] by blast

theorem parse_namespace_exact_witness:
  "ParseNamespace [sample_share] 0 1 = Inr sample_ns \<and> (\<exists>m. ParseNamespace [sample_share] 1 1 = Inl (Panic m))"
proof -
  have n: "Namespace_sh sample_share = Inr sample_ns" by code_simp
  then have "\<forall>s\<in>set [sample_share]. \<exists>ns. Namespace_sh s = Inr ns" by simp
  note p = parse_namespace_exact [OF this]
  show ?thesis using p [of 0 1 sample_ns] p [of 1 1 sample_ns] n by (auto simp: less_Suc_eq_0_disj)
qed

text \<open>
  C22. Every transaction of a block that \<^verbatim>\<open>Build\<close> made has an inclusion proof: \<^verbatim>\<open>NewTxInclusionProof\<close>, which rebuilds the square from the block's transactions with the upper
  bound of the version, succeeds. The proof holds exactly the shares of the block's square from the one with the transaction's first byte to the one with its last, their rows' roots, the
  Merkle proofs of these and the proofs of the shares in the trees of the rows; its namespace is that of transactions or that of payments for blobs, as the transaction is in the first or the second
  part of the block.
\<close>

theorem tx_proof_complete:
  assumes "proofs_ok x" "m = 2 ^ k" "m \<le> SquareSizeUpperBound v" "iw_codec_ok (px_sq x)"
    and "\<forall>tx\<in>set txs. is_blob_tx (px_sq x) tx \<longrightarrow> admitted (decode (px_sq x) tx)" "Build (px_sq x) txs v m = Inr (sq, txs')"
    and "i < length txs'" "i < 2 ^ 63"
  shows "\<exists>p normal blob pfbs g. NewTxInclusionProof x txs' (of_nat i) v = Inr p
    \<and> txs' = normal @ blob \<and> sq = regions_square g \<and> block_layout (px_sq x) normal (map (decode (px_sq x)) blob) pfbs g
    \<and> proves x sq (if i < length normal then TxNamespace else PayForBlobNamespace)
        (fst (tx_range (px_sq x) normal pfbs i)) (snd (tx_range (px_sq x) normal pfbs i)) p"
  by (rule tx_proof_of_Build [OF assms])

theorem tx_proof_complete_witness:
  "\<exists>sq p ns a b. Build sample_ext [[5], [0xB0]] 2 64 = Inr (sq, [[5], [0xB0]]) \<and> NewTxInclusionProof sample_spx [[5], [0xB0]] 1 2 = Inr p \<and> proves sample_spx sq ns a b p"
proof -
  have "(case Build sample_ext [[5], [0xB0]] 2 64 of Inr (sq, txs) \<Rightarrow> txs = [[5], [0xB0]] | Inl _ \<Rightarrow> False)" by code_simp
  then obtain sq where b: "Build sample_ext [[5], [0xB0]] 2 64 = Inr (sq, [[5], [0xB0]])" by (auto split: sum.splits prod.splits)
  have x: "px_sq sample_spx = sample_ext" by (simp add: sample_spx_def)
  have "\<not> is_blob_tx sample_ext [5]" by (simp add: sample_ext_def UnmarshalBlobTx_def)
  then have a: "\<forall>tx\<in>set [[5], [0xB0]]. is_blob_tx sample_ext tx \<longrightarrow> admitted (decode sample_ext tx)"
    using sample_btx_accepted by (auto simp: admitted_def sample_btx_def sample_blob_def)
  have m: "(64::int) = 2 ^ 6" "(64::int) \<le> SquareSizeUpperBound 2" "1 < length [[5], [0xB0::byte]]" using SquareSizeUpperBound_cases [of 2] by auto
  from tx_proof_complete [OF sample_proofs_ok m(1,2), unfolded x, OF sample_iw_codec_ok a b m(3)] b show ?thesis by (auto simp del: One_nat_def)
qed



section \<open>Inflation\<close>

text \<open>
  C38. The inflation rate of a block is always between the target rate of two percent and the maximal initial rate of ten percent, for every ratio of bonded tokens between zero and one and every
  time, before genesis included.
\<close>

theorem inflation_bounds:
  assumes "mul_ok d" "power_ok d" "0 \<le> bondedRatio" "bondedRatio \<le> dec_one" "InflationCalculationFn d blockTime bondedRatio = Inr r"
  shows "targetInflationRate \<le> r \<and> r \<le> initialInflationRateMax"
  using CalculateInflationRate_bounds [OF assms(1-4)] assms(5) unfolding InflationCalculationFn_def by blast

theorem inflation_bounds_witness:
  "\<exists>r. InflationCalculationFn sample_dec (2000000000 * 1000000000) (5 * 10 ^ 17) = Inr r \<and> targetInflationRate \<le> r \<and> r \<le> initialInflationRateMax"
proof -
  have "\<not> isl (InflationCalculationFn sample_dec (2000000000 * 1000000000) (5 * 10 ^ 17))" by code_simp
  then obtain r where r: "InflationCalculationFn sample_dec (2000000000 * 1000000000) (5 * 10 ^ 17) = Inr r"
    by (cases "InflationCalculationFn sample_dec (2000000000 * 1000000000) (5 * 10 ^ 17)") auto
  have "(0::int) \<le> 5 * 10 ^ 17" "(5 * 10 ^ 17 :: int) \<le> dec_one" by (simp_all add: dec_one_def)
  from inflation_bounds [OF _ sample_power_ok this r] sample_dec_ok r show ?thesis by blast
qed

end
